(* ===== verification/Go_Prelude.thy ===== *)
theory Go_Prelude
  imports
    Main
    "HOL-Library.AList"
    "HOL-Library.Char_ord"
    "HOL-Library.List_Lexorder"
begin

text \<open>
  Shared vocabulary of the development: how the values of the Go sources are
  represented, the lemma collections the component theories add to, and the generic
  facts on maps, strings and folds they share.

  \<^item> A Go \<open>map[K]V\<close> is an association list; \<open>mget\<close>, \<open>mput\<close> and \<open>mdel\<close> are
    reading, assigning and deleting an entry. A \<open>range\<close> loop over a map visits the
    entries in an unspecified order; it becomes a recursion over the association list,
    and since statements quantify over every association list (with distinct keys),
    they hold for every order.
  \<^item> A nil map is read as an empty one. Where writing to a nil map can panic, the field
    has type \<open>('k, 'v) gomap option\<close> and \<open>None\<close> is the nil map.
  \<^item> Strings are lists of bytes, ordered lexicographically by byte, as in Go.
  \<^item> A call that may return a Go error has a sum type, with \<open>Inl\<close> for the error.
\<close>

named_theorems go_simps \<open>unfolding rules of small accessors and helpers\<close>
named_theorems wf_intros \<open>preservation of well-formedness by the operations\<close>

subsection \<open>Maps\<close>

type_synonym ('k, 'v) gomap = "('k \<times> 'v) list"

abbreviation mget :: "('k, 'v) gomap \<Rightarrow> 'k \<Rightarrow> 'v option" where
  "mget m k \<equiv> map_of m k"

abbreviation mput :: "'k \<Rightarrow> 'v \<Rightarrow> ('k, 'v) gomap \<Rightarrow> ('k, 'v) gomap" where
  "mput k v m \<equiv> AList.update k v m"

abbreviation mdel :: "'k \<Rightarrow> ('k, 'v) gomap \<Rightarrow> ('k, 'v) gomap" where
  "mdel k m \<equiv> AList.delete k m"

abbreviation mkeys :: "('k, 'v) gomap \<Rightarrow> 'k list" where
  "mkeys m \<equiv> map fst m"

abbreviation wf_map :: "('k, 'v) gomap \<Rightarrow> bool" where
  "wf_map m \<equiv> distinct (map fst m)"

text \<open>The value read from a map of strings for a missing key is the empty string.\<close>

definition mget_str :: "('k, string) gomap \<Rightarrow> 'k \<Rightarrow> string" where
  "mget_str m k = (case mget m k of None \<Rightarrow> [] | Some v \<Rightarrow> v)"

text \<open>\<open>maps.Copy(dst, src)\<close>.\<close>

definition maps_copy :: "('k, 'v) gomap \<Rightarrow> ('k, 'v) gomap \<Rightarrow> ('k, 'v) gomap" where
  "maps_copy dst src = AList.merge dst src"

lemma mget_mput [simp]: "mget (mput k v m) k' = (if k' = k then Some v else mget m k')"
  by (simp add: update_conv')

lemma mget_mdel [simp]: "mget (mdel k m) k' = (if k' = k then None else mget m k')"
  by (simp add: delete_conv')

lemma wf_map_mput [wf_intros, simp]: "wf_map m \<Longrightarrow> wf_map (mput k v m)"
  by (rule distinct_update)

lemma wf_map_mdel [wf_intros, simp]: "wf_map m \<Longrightarrow> wf_map (mdel k m)"
  by (rule distinct_delete)

lemma mget_maps_copy [simp]:
  "mget (maps_copy dst src) k = (case mget src k of Some v \<Rightarrow> Some v | None \<Rightarrow> mget dst k)"
  by (simp add: maps_copy_def merge_conv' map_add_def)

lemma wf_map_maps_copy [wf_intros, simp]: "wf_map dst \<Longrightarrow> wf_map (maps_copy dst src)"
  by (simp add: maps_copy_def distinct_merge)

lemma mget_in_set: "mget m k = Some v \<Longrightarrow> (k, v) \<in> set m"
  by (rule map_of_SomeD)

lemma mget_eq_iff_in_set: "wf_map m \<Longrightarrow> mget m k = Some v \<longleftrightarrow> (k, v) \<in> set m"
  by (simp add: map_of_eq_Some_iff)

text \<open>The entries after an insertion and a removal.\<close>

lemma set_mput_subset: "set (mput k v m) \<subseteq> insert (k, v) (set m)"
  by (induction m) auto

lemma set_mput_subsetD: "x \<in> set (mput k v m) \<Longrightarrow> x = (k, v) \<or> x \<in> set m"
  using set_mput_subset [of k v m] by auto

lemma set_mdel_subset: "set (mdel k m) \<subseteq> set m"
  by (auto simp: AList.delete_eq)

lemma mget_None_iff: "mget m k = None \<longleftrightarrow> k \<notin> set (mkeys m)"
  by (simp add: map_of_eq_None_iff)

lemma mget_map_snd [simp]:
  "mget (map (\<lambda>(k, v). (k, f v)) m) k = map_option f (mget m k)"
  by (induction m) auto

lemma mkeys_map_snd [simp]: "mkeys (map (\<lambda>(k, v). (k, f v)) m) = mkeys m"
  by (induction m) auto

text \<open>The interface a client of a Go map relies on.\<close>

locale map_adt =
  fixes get :: "'m \<Rightarrow> 'k \<Rightarrow> 'v option"
    and put :: "'k \<Rightarrow> 'v \<Rightarrow> 'm \<Rightarrow> 'm"
    and del :: "'k \<Rightarrow> 'm \<Rightarrow> 'm"
  assumes get_put: "get (put k v m) k' = (if k' = k then Some v else get m k')"
    and get_del: "get (del k m) k' = (if k' = k then None else get m k')"
begin

lemma get_fold_del: "get (fold del ks m) k = (if k \<in> set ks then None else get m k)"
  by (induction ks arbitrary: m) (auto simp: get_del)

lemma get_fold_put_notin:
  "k \<notin> set (map key xs) \<Longrightarrow> get (fold (\<lambda>x. put (key x) (val x)) xs m) k = get m k"
  by (induction xs arbitrary: m) (auto simp: get_put)

lemma get_fold_put_same:
  "get (fold (\<lambda>x. put (key x) v) xs m) k = (if k \<in> set (map key xs) then Some v else get m k)"
  by (induction xs arbitrary: m) (auto simp: get_put)

lemma put_del_commute_get: "k \<noteq> k' \<Longrightarrow> get (put k v (del k' m)) x = get (del k' (put k v m)) x"
  by (simp add: get_put get_del)

end

interpretation gomap: map_adt "\<lambda>m k. mget m k" "\<lambda>k v m. mput k v m" "\<lambda>k m. mdel k m"
  by unfold_locales simp_all

subsection \<open>Strings\<close>

text \<open>\<open>strings.HasPrefix\<close>, \<open>strings.HasSuffix\<close> and \<open>strings.TrimSuffix\<close>.\<close>

definition hasPrefix :: "string \<Rightarrow> string \<Rightarrow> bool" where
  "hasPrefix s p \<longleftrightarrow> take (length p) s = p"

definition hasSuffix :: "string \<Rightarrow> string \<Rightarrow> bool" where
  "hasSuffix s p \<longleftrightarrow> length p \<le> length s \<and> drop (length s - length p) s = p"

definition trimSuffix :: "string \<Rightarrow> string \<Rightarrow> string" where
  "trimSuffix s p = (if hasSuffix s p then take (length s - length p) s else s)"

text \<open>\<open>strings.Cut(s, sep)\<close> for a separator of one byte: the parts around its first occurrence.\<close>

fun cut :: "char \<Rightarrow> string \<Rightarrow> (string \<times> string) option" where
  "cut c [] = None"
| "cut c (x # xs) =
     (if x = c then Some ([], xs)
      else map_option (\<lambda>(a, b). (x # a, b)) (cut c xs))"

text \<open>\<open>strings.SplitN(s, sep, n)\<close> for a separator of one byte and \<open>n > 0\<close>:
  at most \<open>n\<close> parts, the last one unsplit. \<open>strings.Split\<close> splits at every occurrence.\<close>

fun splitN :: "char \<Rightarrow> nat \<Rightarrow> string \<Rightarrow> string list" where
  "splitN c 0 s = []"
| "splitN c (Suc 0) s = [s]"
| "splitN c (Suc (Suc n)) s =
     (case cut c s of None \<Rightarrow> [s] | Some (a, b) \<Rightarrow> a # splitN c (Suc n) b)"

lemma cut_Some_append: "cut c s = Some (a, b) \<Longrightarrow> s = a @ c # b \<and> c \<notin> set a"
  by (induction s arbitrary: a) (auto split: if_splits)

lemma cut_None_iff: "cut c s = None \<longleftrightarrow> c \<notin> set s"
  by (induction s) auto

lemma cut_append [simp]: "c \<notin> set a \<Longrightarrow> cut c (a @ c # b) = Some (a, b)"
  by (induction a) auto

lemma cut_length: "cut c s = Some (a, b) \<Longrightarrow> length b < length s"
  by (drule cut_Some_append) simp

function splitAll :: "char \<Rightarrow> string \<Rightarrow> string list" where
  "splitAll c s = (case cut c s of None \<Rightarrow> [s] | Some (a, b) \<Rightarrow> a # splitAll c b)"
  by pat_completeness auto
termination
  by (relation "measure (\<lambda>(c, s). length s)") (auto dest: cut_length)

declare splitAll.simps [simp del]

lemma splitAll_nosep [simp]: "c \<notin> set s \<Longrightarrow> splitAll c s = [s]"
  by (subst splitAll.simps) (simp add: cut_None_iff [THEN iffD2])

lemma splitAll_append [simp]: "c \<notin> set a \<Longrightarrow> splitAll c (a @ c # b) = a # splitAll c b"
  by (subst splitAll.simps) simp

lemma hasPrefix_iff: "hasPrefix s p \<longleftrightarrow> (\<exists>t. s = p @ t)"
  unfolding hasPrefix_def by (metis append_eq_conv_conj append_take_drop_id)

lemma hasSuffix_iff: "hasSuffix s p \<longleftrightarrow> (\<exists>t. s = t @ p)"
proof
  assume "hasSuffix s p"
  then have "s = take (length s - length p) s @ p"
    unfolding hasSuffix_def by (metis append_take_drop_id)
  then show "\<exists>t. s = t @ p" ..
qed (auto simp: hasSuffix_def)

lemma trimSuffix_append [simp]: "trimSuffix (s @ p) p = s"
  by (simp add: trimSuffix_def hasSuffix_def)

subsection \<open>Loops\<close>

text \<open>A loop that returns at the first element satisfying a condition.\<close>

lemma find_Some_iff_ex: "(find P xs \<noteq> None) \<longleftrightarrow> (\<exists>x \<in> set xs. P x)"
  by (induction xs) auto

text \<open>A loop that stops at the first error.\<close>

fun mapM_sum :: "('a \<Rightarrow> 'e + 'b) \<Rightarrow> 'a list \<Rightarrow> 'e + 'b list" where
  "mapM_sum f [] = Inr []"
| "mapM_sum f (x # xs) =
     (case f x of Inl e \<Rightarrow> Inl e
      | Inr y \<Rightarrow> (case mapM_sum f xs of Inl e \<Rightarrow> Inl e | Inr ys \<Rightarrow> Inr (y # ys)))"

lemma mapM_sum_Inr_iff: "mapM_sum f xs = Inr ys \<longleftrightarrow> list_all2 (\<lambda>x y. f x = Inr y) xs ys"
proof (induction xs arbitrary: ys)
  case (Cons a xs)
  then show ?case
    by (cases ys; cases "f a"; cases "mapM_sum f xs") (auto split: sum.splits)
qed auto

lemma mapM_sum_InlD: "mapM_sum f xs = Inl e \<Longrightarrow> \<exists>x \<in> set xs. f x = Inl e"
  by (induction xs) (auto split: sum.splits)

lemma mapM_sum_fails_iff: "(\<exists>e. mapM_sum f xs = Inl e) \<longleftrightarrow> (\<exists>x \<in> set xs. \<exists>e. f x = Inl e)"
proof (induction xs)
  case (Cons a xs)
  then show ?case by (cases "f a") (auto split: sum.splits)
qed simp

subsection \<open>Sorting\<close>

text \<open>
  \<open>sort.SliceStable\<close> with a comparison function. \<open>sort.Sort\<close> and \<open>sort.Slice\<close> are
  modelled by the same function; they differ from it only in the order of elements that
  are equal for the comparison.
\<close>

fun insert_by :: "('a \<Rightarrow> 'a \<Rightarrow> bool) \<Rightarrow> 'a \<Rightarrow> 'a list \<Rightarrow> 'a list" where
  "insert_by lt x [] = [x]"
| "insert_by lt x (y # ys) = (if lt x y then x # y # ys else y # insert_by lt x ys)"

definition sort_by :: "('a \<Rightarrow> 'a \<Rightarrow> bool) \<Rightarrow> 'a list \<Rightarrow> 'a list" where
  "sort_by lt xs = fold (insert_by lt) xs []"

lemma set_insert_by [simp]: "set (insert_by lt x xs) = insert x (set xs)"
  by (induction xs) auto

lemma length_insert_by [simp]: "length (insert_by lt x xs) = Suc (length xs)"
  by (induction xs) auto

lemma distinct_insert_by [simp]: "distinct (insert_by lt x xs) \<longleftrightarrow> x \<notin> set xs \<and> distinct xs"
  by (induction xs) auto

lemma set_fold_insert_by: "set (fold (insert_by lt) xs ys) = set xs \<union> set ys"
  by (induction xs arbitrary: ys) auto

lemma length_fold_insert_by: "length (fold (insert_by lt) xs ys) = length xs + length ys"
  by (induction xs arbitrary: ys) auto

lemma distinct_fold_insert_by:
  "distinct (fold (insert_by lt) xs ys) \<longleftrightarrow> distinct xs \<and> distinct ys \<and> set xs \<inter> set ys = {}"
  by (induction xs arbitrary: ys) auto

lemma set_sort_by [simp]: "set (sort_by lt xs) = set xs"
  by (simp add: sort_by_def set_fold_insert_by)

lemma length_sort_by [simp]: "length (sort_by lt xs) = length xs"
  by (simp add: sort_by_def length_fold_insert_by)

lemma distinct_sort_by [simp]: "distinct (sort_by lt xs) = distinct xs"
  by (simp add: sort_by_def distinct_fold_insert_by)

text \<open>What a comparison function passed to \<open>sort\<close> must satisfy: a strict weak order.\<close>

locale strict_weak_order =
  fixes lt :: "'a \<Rightarrow> 'a \<Rightarrow> bool"
  assumes less_asym: "lt x y \<Longrightarrow> \<not> lt y x"
    and not_less_trans: "\<not> lt y x \<Longrightarrow> \<not> lt z y \<Longrightarrow> \<not> lt z x"
begin

lemma sorted_insert_by:
  "sorted_wrt (\<lambda>a b. \<not> lt b a) xs \<Longrightarrow> sorted_wrt (\<lambda>a b. \<not> lt b a) (insert_by lt x xs)"
proof (induction xs)
  case (Cons y ys)
  then have ys: "\<forall>z \<in> set ys. \<not> lt z y" and IH: "sorted_wrt (\<lambda>a b. \<not> lt b a) (insert_by lt x ys)"
    by simp_all
  show ?case
  proof (cases "lt x y")
    case True
    then have "\<not> lt y x" by (rule less_asym)
    with ys have "\<forall>z \<in> set ys. \<not> lt z x" by (metis not_less_trans)
    with True \<open>\<not> lt y x\<close> Cons.prems show ?thesis by simp
  next
    case False
    with ys IH show ?thesis by simp
  qed
qed simp

lemma sorted_sort_by: "sorted_wrt (\<lambda>a b. \<not> lt b a) (sort_by lt xs)"
proof -
  have "sorted_wrt (\<lambda>a b. \<not> lt b a) ys \<Longrightarrow> sorted_wrt (\<lambda>a b. \<not> lt b a) (fold (insert_by lt) xs ys)" for ys
    by (induction xs arbitrary: ys) (simp_all add: sorted_insert_by)
  then show ?thesis by (simp add: sort_by_def)
qed

end

text \<open>Strings are sorted by Go's byte order, \<open>slices.Sort\<close>.\<close>

interpretation linear: strict_weak_order "(<) :: 'a::linorder \<Rightarrow> 'a \<Rightarrow> bool"
  by unfold_locales auto

lemma sorted_sort_by_less: "sorted (sort_by (<) (xs :: 'a::linorder list))"
  using linear.sorted_sort_by [of xs] by (simp add: not_less)

end
