(* ===== verification/Go_Sets.thy ===== *)
theory Go_Sets
  imports Go_Prelude
begin

text \<open>
  The generic set type of \<open>pkg/set/set.go\<close>, used by most other components. A Go
  \<open>map[K]struct{}\<close> is a list of its elements without repetition, in the (unspecified)
  order in which \<open>range\<close> would visit them; the nil set and the empty set are the same
  value, as no operation of the package but \<open>Clone\<close> tells them apart. Methods that
  mutate their receiver return the new set together with their result.

  The locale \<open>set_adt\<close> is the contract clients rely on; the package's operations are
  shown to satisfy it.
\<close>

type_synonym 'a goset = "'a list"

text \<open>The statement \<open>m[i] = struct{}{}\<close>.\<close>

definition gs_ins :: "'a \<Rightarrow> 'a goset \<Rightarrow> 'a goset" where
  "gs_ins i k = (if i \<in> set k then k else k @ [i])"

definition setAdd :: "'a \<Rightarrow> 'a goset \<Rightarrow> 'a goset \<times> bool" where
  "setAdd i k = (let oldLen = length k; k' = gs_ins i k in (k', length k' > oldLen))"

definition setAddMatching :: "('a \<Rightarrow> bool) \<Rightarrow> 'a list \<Rightarrow> 'a goset \<Rightarrow> 'a goset \<times> bool" where
  "setAddMatching matchFunc elems k =
     (let oldLen = length k;
          k' = fold (\<lambda>elem k. if \<not> matchFunc elem then k else gs_ins elem k) elems k
      in (k', length k' > oldLen))"

definition setAddAll :: "'a list \<Rightarrow> 'a goset \<Rightarrow> 'a goset \<times> bool" where
  "setAddAll is k =
     (if is = [] then (k, False)
      else let oldLen = length k; k' = fold gs_ins is k in (k', length k' > oldLen))"

definition setRemove :: "'a \<Rightarrow> 'a goset \<Rightarrow> 'a goset \<times> bool" where
  "setRemove i k =
     (if k = [] then (k, False)
      else let oldLen = length k; k' = filter (\<lambda>x. x \<noteq> i) k in (k', length k' < oldLen))"

definition setRemoveAll :: "'a list \<Rightarrow> 'a goset \<Rightarrow> 'a goset \<times> bool" where
  "setRemoveAll is k =
     (if k = [] then (k, False)
      else let oldLen = length k; k' = fold (\<lambda>i. filter (\<lambda>x. x \<noteq> i)) is k
           in (k', length k' < oldLen))"

definition setRemoveMatching :: "('a \<Rightarrow> bool) \<Rightarrow> 'a goset \<Rightarrow> 'a goset \<times> bool" where
  "setRemoveMatching pred k =
     (if k = [] then (k, False)
      else let oldLen = length k; k' = filter (\<lambda>elem. \<not> pred elem) k
           in (k', length k' < oldLen))"

definition setContains :: "'a goset \<Rightarrow> 'a \<Rightarrow> bool" where
  "setContains k i \<longleftrightarrow> i \<in> set k"

definition setCardinality :: "'a goset \<Rightarrow> nat" where
  "setCardinality k = length k"

definition setIsEmpty :: "'a goset \<Rightarrow> bool" where
  "setIsEmpty k \<longleftrightarrow> length k = 0"

definition setClone :: "'a goset \<Rightarrow> 'a goset" where
  "setClone k = fold gs_ins k []"

definition setDifference :: "'a goset \<Rightarrow> 'a goset \<Rightarrow> 'a goset" where
  "setDifference k other =
     (if length k = 0 \<or> length other = 0 then setClone k
      else fold (\<lambda>elem retained. if \<not> setContains other elem then gs_ins elem retained else retained) k [])"

definition getSmallerLargerAndMaxIntLen :: "'a goset \<Rightarrow> 'a goset \<Rightarrow> 'a goset \<times> 'a goset \<times> nat" where
  "getSmallerLargerAndMaxIntLen k other =
     (if length other < length k then (other, k, length other) else (k, other, length k))"

definition setIntersects :: "'a goset \<Rightarrow> 'a goset \<Rightarrow> bool" where
  "setIntersects k other =
     (let (smaller, larger, maxIntLen) = getSmallerLargerAndMaxIntLen k other
      in if maxIntLen = 0 then False else list_ex (\<lambda>elem. elem \<in> set larger) smaller)"

definition setIntersect :: "'a goset \<Rightarrow> 'a goset \<Rightarrow> 'a goset" where
  "setIntersect k other =
     (let (smaller, larger, maxIntLen) = getSmallerLargerAndMaxIntLen k other
      in if maxIntLen = 0 then []
         else fold (\<lambda>elem retained. if elem \<in> set larger then gs_ins elem retained else retained) smaller [])"

definition setUnion :: "'a goset \<Rightarrow> 'a goset \<Rightarrow> 'a goset" where
  "setUnion k other =
     (if length k = 0 then setClone other
      else if length other = 0 then setClone k
      else fold gs_ins other (fold gs_ins k []))"

definition setEqual :: "'a goset \<Rightarrow> 'a goset \<Rightarrow> bool" where
  "setEqual k other =
     (if length k = 0 \<and> length other = 0 then True
      else if length k \<noteq> length other then False
      else list_all (\<lambda>elem. elem \<in> set other) k)"

definition setIsSubsetOf :: "'a goset \<Rightarrow> 'a goset \<Rightarrow> bool" where
  "setIsSubsetOf k other = list_all (\<lambda>elem. elem \<in> set other) k"

definition setAsSlice :: "'a goset \<Rightarrow> 'a list" where
  "setAsSlice k = (if length k = 0 then [] else k)"

definition setAsSortedSlice :: "('a \<Rightarrow> 'a \<Rightarrow> bool) \<Rightarrow> 'a goset \<Rightarrow> 'a list" where
  "setAsSortedSlice lt k =
     (let slice = setAsSlice k in if length slice < 2 then slice else sort_by lt slice)"

definition newSet :: "'a list \<Rightarrow> 'a goset" where
  "newSet initial = fold gs_ins initial []"

text \<open>Frozen sets share the representation and delegate to the mutable operations.\<close>

definition frozenUnion :: "'a goset \<Rightarrow> 'a goset \<Rightarrow> 'a goset" where
  "frozenUnion k other =
     (if length k = 0 then other else if length other = 0 then k else setUnion k other)"

definition frozenIntersect :: "'a goset \<Rightarrow> 'a goset \<Rightarrow> 'a goset" where
  "frozenIntersect k other = setIntersect k other"

definition frozenDifference :: "'a goset \<Rightarrow> 'a goset \<Rightarrow> 'a goset" where
  "frozenDifference k other = setDifference k other"

lemmas set_op_defs [go_simps] =
  setAdd_def setAddAll_def setRemove_def setRemoveAll_def setRemoveMatching_def setContains_def
  setCardinality_def setIsEmpty_def setAsSlice_def setIsSubsetOf_def

subsection \<open>Elements and absence of repetitions\<close>

lemma set_gs_ins [simp]: "set (gs_ins x s) = insert x (set s)"
  by (auto simp: gs_ins_def)

lemma distinct_gs_ins [simp]: "distinct (gs_ins x s) = distinct s"
  by (auto simp: gs_ins_def)

lemma length_gs_ins: "length (gs_ins x s) = (if x \<in> set s then length s else Suc (length s))"
  by (simp add: gs_ins_def)

lemma set_fold_gs_ins [simp]: "set (fold gs_ins xs s) = set xs \<union> set s"
  by (induction xs arbitrary: s) auto

lemma distinct_fold_gs_ins [simp]: "distinct (fold gs_ins xs s) = distinct s"
  by (induction xs arbitrary: s) auto

text \<open>A conditional insertion loop inserts the elements that pass the condition.\<close>

lemma fold_gs_ins_if: "fold (\<lambda>x s. if P x then gs_ins x s else s) xs s = fold gs_ins (filter P xs) s"
  by (induction xs arbitrary: s) auto

lemma fold_gs_ins_if_not: "fold (\<lambda>x s. if P x then s else gs_ins x s) xs s = fold gs_ins (filter (\<lambda>x. \<not> P x) xs) s"
  by (induction xs arbitrary: s) auto

lemma fold_filter_neq: "fold (\<lambda>i. filter (\<lambda>x. x \<noteq> i)) is k = filter (\<lambda>x. x \<notin> set is) k"
proof (induction "is" arbitrary: k)
  case (Cons a "is")
  then show ?case by (simp add: conj_commute)
qed simp

lemma set_newSet [simp]: "set (newSet xs) = set xs"
  by (simp add: newSet_def)

lemma distinct_newSet [simp]: "distinct (newSet xs)"
  by (simp add: newSet_def)

lemma newSet_Nil [simp]: "newSet [] = []"
  by (simp add: newSet_def)

lemma set_setClone [simp]: "set (setClone s) = set s"
  by (simp add: setClone_def)

lemma distinct_setClone [simp]: "distinct (setClone s)"
  by (simp add: setClone_def)

lemma set_setDifference [simp]: "set (setDifference k other) = set k - set other"
  by (auto simp: setDifference_def setContains_def fold_gs_ins_if_not fold_gs_ins_if)

lemma distinct_setDifference [simp]: "distinct (setDifference k other)"
  by (simp add: setDifference_def fold_gs_ins_if_not fold_gs_ins_if)

lemma set_setIntersect [simp]: "set (setIntersect k other) = set k \<inter> set other"
  by (auto simp: setIntersect_def getSmallerLargerAndMaxIntLen_def fold_gs_ins_if)

lemma distinct_setIntersect [simp]: "distinct (setIntersect k other)"
  by (simp add: setIntersect_def getSmallerLargerAndMaxIntLen_def fold_gs_ins_if)

lemma set_setUnion [simp]: "set (setUnion k other) = set k \<union> set other"
  by (auto simp: setUnion_def)

lemma distinct_setUnion [simp]: "distinct (setUnion k other)"
  by (simp add: setUnion_def)

lemma set_setAddMatching: "set (fst (setAddMatching f xs k)) = {x \<in> set xs. f x} \<union> set k"
  by (auto simp: setAddMatching_def Let_def fold_gs_ins_if_not)

subsection \<open>The contract of a set, and its implementation\<close>

locale set_adt =
  fixes contains :: "'s \<Rightarrow> 'a \<Rightarrow> bool"
    and add :: "'a \<Rightarrow> 's \<Rightarrow> 's"
    and union :: "'s \<Rightarrow> 's \<Rightarrow> 's"
    and inter :: "'s \<Rightarrow> 's \<Rightarrow> 's"
    and diff :: "'s \<Rightarrow> 's \<Rightarrow> 's"
  assumes contains_add: "contains (add x s) y \<longleftrightarrow> y = x \<or> contains s y"
    and contains_union: "contains (union s t) x \<longleftrightarrow> contains s x \<or> contains t x"
    and contains_inter: "contains (inter s t) x \<longleftrightarrow> contains s x \<and> contains t x"
    and contains_diff: "contains (diff s t) x \<longleftrightarrow> contains s x \<and> \<not> contains t x"
begin

lemmas contains_ops = contains_add contains_union contains_inter contains_diff

text \<open>
  A finite set and a polarity flag denote a finite or a cofinite set: \<open>x\<close> is an element
  when its membership in the finite set differs from the flag. The union and the
  intersection of two such sets, case by case.
\<close>

lemma cofinite_union:
  "(contains s x \<noteq> i) \<or> (contains t x \<noteq> j) \<longleftrightarrow>
     (if \<not> i \<and> \<not> j then contains (union s t) x
      else if i \<and> \<not> j then \<not> contains (diff s t) x
      else if \<not> i \<and> j then \<not> contains (diff t s) x
      else \<not> contains (inter s t) x)"
  by (auto simp: contains_ops)

lemma cofinite_inter:
  "(contains s x \<noteq> i) \<and> (contains t x \<noteq> j) \<longleftrightarrow>
     (if \<not> i \<and> \<not> j then contains (inter s t) x
      else if i \<and> \<not> j then contains (diff t s) x
      else if \<not> i \<and> j then contains (diff s t) x
      else \<not> contains (union s t) x)"
  by (auto simp: contains_ops)

lemma contains_fold_add: "contains (fold add xs s) y \<longleftrightarrow> y \<in> set xs \<or> contains s y"
  by (induction xs arbitrary: s) (auto simp: contains_add)

end

interpretation goset: set_adt setContains "\<lambda>x s. fst (setAdd x s)" setUnion setIntersect setDifference
  by unfold_locales (simp_all add: setContains_def setAdd_def Let_def)

lemma setContains_newSet [simp]: "setContains (newSet xs) x \<longleftrightarrow> x \<in> set xs"
  by (simp add: setContains_def)

lemma setContains_Nil [simp]: "\<not> setContains [] x"
  by (simp add: setContains_def)

end
