(* ===== verification/Label_Selectors.thy ===== *)
theory Label_Selectors
  imports Go_Sets
begin

text \<open>
  Compiled label selectors, \<open>pkg/labels\<close>: sets that are finite or have a finite
  complement (\<open>cofinite_set.go\<close>), predicates on an optional label value
  (\<open>predicates.go\<close>) and selectors compiled to one predicate per label key
  (\<open>selector.go\<close>). The final lemma relates the compiled form to the meaning of the
  selector as written: every match label and every requirement holds.
\<close>

subsection \<open>Cofinite sets\<close>

record cofiniteSet =
  cf_values :: "string goset"
  cf_invert :: bool

definition makeCofiniteSet :: "bool \<Rightarrow> string list \<Rightarrow> cofiniteSet" where
  "makeCofiniteSet invert values = \<lparr>cf_values = newSet values, cf_invert = invert\<rparr>"

definition cofiniteContains :: "cofiniteSet \<Rightarrow> string \<Rightarrow> bool" where
  "cofiniteContains s v \<longleftrightarrow> setContains (cf_values s) v \<noteq> cf_invert s"

definition cofiniteUnion :: "cofiniteSet \<Rightarrow> cofiniteSet \<Rightarrow> cofiniteSet" where
  "cofiniteUnion s other =
     (if \<not> cf_invert s \<and> \<not> cf_invert other then
        \<lparr>cf_values = setUnion (cf_values s) (cf_values other), cf_invert = False\<rparr>
      else if cf_invert s \<and> \<not> cf_invert other then
        \<lparr>cf_values = setDifference (cf_values s) (cf_values other), cf_invert = True\<rparr>
      else if \<not> cf_invert s \<and> cf_invert other then
        \<lparr>cf_values = setDifference (cf_values other) (cf_values s), cf_invert = True\<rparr>
      else
        \<lparr>cf_values = setIntersect (cf_values s) (cf_values other), cf_invert = True\<rparr>)"

definition cofiniteIntersect :: "cofiniteSet \<Rightarrow> cofiniteSet \<Rightarrow> cofiniteSet" where
  "cofiniteIntersect s other =
     (if \<not> cf_invert s \<and> \<not> cf_invert other then
        \<lparr>cf_values = setIntersect (cf_values s) (cf_values other), cf_invert = False\<rparr>
      else if cf_invert s \<and> \<not> cf_invert other then
        \<lparr>cf_values = setDifference (cf_values other) (cf_values s), cf_invert = False\<rparr>
      else if \<not> cf_invert s \<and> cf_invert other then
        \<lparr>cf_values = setDifference (cf_values s) (cf_values other), cf_invert = False\<rparr>
      else
        \<lparr>cf_values = setUnion (cf_values s) (cf_values other), cf_invert = True\<rparr>)"

subsection \<open>Predicates on a label value\<close>

record setPredicate =
  sp_values :: cofiniteSet
  sp_noneResult :: bool

definition predMatches :: "setPredicate \<Rightarrow> string option \<Rightarrow> bool" where
  "predMatches p valp =
     (case valp of None \<Rightarrow> sp_noneResult p | Some v \<Rightarrow> cofiniteContains (sp_values p) v)"

definition predAnd :: "setPredicate \<Rightarrow> setPredicate \<Rightarrow> setPredicate" where
  "predAnd p other =
     \<lparr>sp_values = cofiniteIntersect (sp_values p) (sp_values other),
      sp_noneResult = (sp_noneResult p \<and> sp_noneResult other)\<rparr>"

text \<open>\<open>storage.LabelSelector_Operator\<close> and its requirements.\<close>

datatype labelOperator = OpUNKNOWN | OpIN | OpNOT_IN | OpEXISTS | OpNOT_EXISTS

record labelRequirement =
  lr_key :: string
  lr_op :: labelOperator
  lr_values :: "string list"

record labelSelector =
  ls_matchLabels :: "(string, string) gomap"
  ls_requirements :: "labelRequirement list"

datatype selectorError = UnsupportedOperator labelOperator

fun predicateForOp :: "labelOperator \<Rightarrow> string list \<Rightarrow> selectorError + setPredicate" where
  "predicateForOp OpIN vs = Inr \<lparr>sp_values = makeCofiniteSet False vs, sp_noneResult = False\<rparr>"
| "predicateForOp OpNOT_IN vs = Inr \<lparr>sp_values = makeCofiniteSet True vs, sp_noneResult = True\<rparr>"
| "predicateForOp OpEXISTS vs = Inr \<lparr>sp_values = makeCofiniteSet True [], sp_noneResult = False\<rparr>"
| "predicateForOp OpNOT_EXISTS vs = Inr \<lparr>sp_values = makeCofiniteSet False [], sp_noneResult = True\<rparr>"
| "predicateForOp OpUNKNOWN vs = Inl (UnsupportedOperator OpUNKNOWN)"

definition predicateForRequirement :: "labelRequirement \<Rightarrow> selectorError + setPredicate" where
  "predicateForRequirement req = predicateForOp (lr_op req) (lr_values req)"

subsection \<open>Compiled selectors\<close>

text \<open>The nil selector, which matches nothing, is \<open>None\<close>.\<close>

type_synonym compiledSelector = "(string, setPredicate) gomap option"

definition compileMatchLabels :: "(string, string) gomap \<Rightarrow> (string, setPredicate) gomap" where
  "compileMatchLabels ml =
     fold (\<lambda>(k, v). mput k \<lparr>sp_values = makeCofiniteSet False [v], sp_noneResult = False\<rparr>) ml []"

fun compileRequirements ::
  "labelRequirement list \<Rightarrow> (string, setPredicate) gomap \<Rightarrow> selectorError + (string, setPredicate) gomap" where
  "compileRequirements [] cs = Inr cs"
| "compileRequirements (req # reqs) cs =
     (case predicateForRequirement req of
        Inl err \<Rightarrow> Inl err
      | Inr pred \<Rightarrow>
          (let k = lr_key req
           in compileRequirements reqs
                (case mget cs k of
                   Some existingPred \<Rightarrow> mput k (predAnd existingPred pred) cs
                 | None \<Rightarrow> mput k pred cs)))"

definition compileSelector :: "labelSelector option \<Rightarrow> selectorError + compiledSelector" where
  "compileSelector proto =
     (case proto of
        None \<Rightarrow> Inr None
      | Some p \<Rightarrow>
          (case compileRequirements (ls_requirements p) (compileMatchLabels (ls_matchLabels p)) of
             Inl err \<Rightarrow> Inl err
           | Inr cs \<Rightarrow> Inr (Some cs)))"

definition selMatches :: "compiledSelector \<Rightarrow> (string, string) gomap \<Rightarrow> bool" where
  "selMatches s lbls =
     (case s of
        None \<Rightarrow> False
      | Some cs \<Rightarrow> list_all (\<lambda>(key, pred). predMatches pred (mget lbls key)) cs)"

definition selMatchesNone :: "compiledSelector \<Rightarrow> bool" where
  "selMatchesNone s \<longleftrightarrow> s = None"

definition selMatchesAll :: "compiledSelector \<Rightarrow> bool" where
  "selMatchesAll s \<longleftrightarrow> (case s of None \<Rightarrow> False | Some cs \<Rightarrow> length cs = 0)"

text \<open>On an invalid selector \<open>CompileSelector\<close> returns the nil selector with the error.\<close>

definition MatchLabels :: "labelSelector option \<Rightarrow> (string, string) gomap \<Rightarrow> bool" where
  "MatchLabels sel lbls =
     selMatches (case compileSelector sel of Inl _ \<Rightarrow> None | Inr cs \<Rightarrow> cs) lbls"

subsection \<open>Meaning\<close>

fun op_holds :: "labelOperator \<Rightarrow> string list \<Rightarrow> string option \<Rightarrow> bool" where
  "op_holds OpIN vs v = (case v of None \<Rightarrow> False | Some x \<Rightarrow> x \<in> set vs)"
| "op_holds OpNOT_IN vs v = (case v of None \<Rightarrow> True | Some x \<Rightarrow> x \<notin> set vs)"
| "op_holds OpEXISTS vs v = (v \<noteq> None)"
| "op_holds OpNOT_EXISTS vs v = (v = None)"
| "op_holds OpUNKNOWN vs v = False"

text \<open>What a selector means, without compilation.\<close>

definition selector_holds :: "labelSelector \<Rightarrow> (string, string) gomap \<Rightarrow> bool" where
  "selector_holds sel lbls \<longleftrightarrow>
     (\<forall>(k, v) \<in> set (ls_matchLabels sel). mget lbls k = Some v) \<and>
     (\<forall>r \<in> set (ls_requirements sel). op_holds (lr_op r) (lr_values r) (mget lbls (lr_key r)))"

lemma cofiniteContains_make [simp]:
  "cofiniteContains (makeCofiniteSet invert vs) v \<longleftrightarrow> (v \<in> set vs) \<noteq> invert"
  by (simp add: cofiniteContains_def makeCofiniteSet_def)

lemma cofiniteContains_union:
  "cofiniteContains (cofiniteUnion s t) x \<longleftrightarrow> cofiniteContains s x \<or> cofiniteContains t x"
  by (simp only: cofiniteContains_def goset.cofinite_union) (simp add: cofiniteUnion_def)

lemma cofiniteContains_intersect:
  "cofiniteContains (cofiniteIntersect s t) x \<longleftrightarrow> cofiniteContains s x \<and> cofiniteContains t x"
  by (simp only: cofiniteContains_def goset.cofinite_inter) (simp add: cofiniteIntersect_def)

lemma predMatches_And [simp]:
  "predMatches (predAnd p q) v \<longleftrightarrow> predMatches p v \<and> predMatches q v"
  by (simp add: predMatches_def predAnd_def cofiniteContains_intersect split: option.split)

lemma predicateForRequirement_holds:
  "predicateForRequirement r = Inr p \<Longrightarrow> predMatches p v \<longleftrightarrow> op_holds (lr_op r) (lr_values r) v"
  by (cases "lr_op r") (auto simp: predicateForRequirement_def predMatches_def split: option.splits)

lemma predicateForRequirement_error:
  "predicateForRequirement r = Inl e \<longleftrightarrow> lr_op r = OpUNKNOWN \<and> e = UnsupportedOperator OpUNKNOWN"
  by (cases "lr_op r") (auto simp: predicateForRequirement_def)

text \<open>The predicates of a selector, joined: the meaning of a map of predicates.\<close>

definition preds_hold :: "(string, setPredicate) gomap \<Rightarrow> (string, string) gomap \<Rightarrow> bool" where
  "preds_hold cs lbls \<longleftrightarrow> (\<forall>k p. mget cs k = Some p \<longrightarrow> predMatches p (mget lbls k))"

lemma list_all_preds_hold:
  "wf_map cs \<Longrightarrow> list_all (\<lambda>(key, pred). predMatches pred (mget lbls key)) cs \<longleftrightarrow> preds_hold cs lbls"
  by (auto simp: list_all_iff preds_hold_def mget_eq_iff_in_set)

lemma preds_hold_mput_fresh:
  "mget cs k = None \<Longrightarrow> preds_hold (mput k p cs) lbls \<longleftrightarrow> preds_hold cs lbls \<and> predMatches p (mget lbls k)"
  unfolding preds_hold_def by (metis mget_mput option.distinct(1) option.inject)

lemma preds_hold_mput_And:
  "mget cs k = Some p \<Longrightarrow>
     preds_hold (mput k (predAnd p q) cs) lbls \<longleftrightarrow> preds_hold cs lbls \<and> predMatches q (mget lbls k)"
  by (auto simp: preds_hold_def)

lemma compileMatchLabels_acc:
  assumes "wf_map ml" and "wf_map cs" and "\<forall>k \<in> set (mkeys ml). mget cs k = None"
  defines "r \<equiv> fold (\<lambda>(k, v). mput k \<lparr>sp_values = makeCofiniteSet False [v], sp_noneResult = False\<rparr>) ml cs"
  shows "wf_map r \<and> (preds_hold r lbls \<longleftrightarrow> preds_hold cs lbls \<and> (\<forall>(k, v) \<in> set ml. mget lbls k = Some v))"
  using assms(1-3) unfolding r_def
proof (induction ml arbitrary: cs)
  case (Cons kv ml)
  obtain k v where kv [simp]: "kv = (k, v)" by (cases kv)
  let ?p = "\<lparr>sp_values = makeCofiniteSet False [v], sp_noneResult = False\<rparr>"
  have fresh: "mget cs k = None" using Cons.prems(3) by simp
  have "\<forall>k' \<in> set (mkeys ml). mget (mput k ?p cs) k' = None"
    using Cons.prems(1,3) by force
  moreover have "predMatches ?p (mget lbls k) \<longleftrightarrow> mget lbls k = Some v"
    by (simp add: predMatches_def split: option.split)
  ultimately show ?case
    using Cons.IH [of "mput k ?p cs"] Cons.prems(1,2) fresh
    by (auto simp: preds_hold_mput_fresh)
qed simp

lemma compileMatchLabels_holds:
  assumes "wf_map ml"
  shows "wf_map (compileMatchLabels ml)"
    and "preds_hold (compileMatchLabels ml) lbls \<longleftrightarrow> (\<forall>(k, v) \<in> set ml. mget lbls k = Some v)"
  using compileMatchLabels_acc [OF assms, of "[]" lbls]
  by (auto simp: compileMatchLabels_def preds_hold_def)

lemma compileRequirements_holds:
  "compileRequirements reqs cs = Inr cs' \<Longrightarrow> wf_map cs \<Longrightarrow>
     wf_map cs' \<and> (preds_hold cs' lbls \<longleftrightarrow>
       preds_hold cs lbls \<and> (\<forall>r \<in> set reqs. op_holds (lr_op r) (lr_values r) (mget lbls (lr_key r))))"
proof (induction reqs arbitrary: cs)
  case (Cons req reqs)
  from Cons.prems(1) obtain p where p: "predicateForRequirement req = Inr p"
    by (auto split: sum.splits)
  define cs1 where "cs1 = (case mget cs (lr_key req) of
      Some q \<Rightarrow> mput (lr_key req) (predAnd q p) cs | None \<Rightarrow> mput (lr_key req) p cs)"
  have "compileRequirements reqs cs1 = Inr cs'"
    using Cons.prems(1) p by (simp add: cs1_def Let_def)
  moreover have "wf_map cs1"
    using Cons.prems(2) by (simp add: cs1_def split: option.split)
  moreover have "preds_hold cs1 lbls \<longleftrightarrow> preds_hold cs lbls \<and> predMatches p (mget lbls (lr_key req))"
    by (simp add: cs1_def preds_hold_mput_fresh preds_hold_mput_And split: option.split)
  ultimately show ?case
    using Cons.IH [of cs1] by (auto simp: predicateForRequirement_holds [OF p])
qed simp

lemma compileRequirements_error:
  "(\<exists>e. compileRequirements reqs cs = Inl e) \<longleftrightarrow> (\<exists>r \<in> set reqs. lr_op r = OpUNKNOWN)"
proof (induction reqs arbitrary: cs)
  case (Cons req reqs)
  show ?case
  proof (cases "predicateForRequirement req")
    case (Inl e)
    then have "lr_op req = OpUNKNOWN" by (simp add: predicateForRequirement_error)
    with Inl show ?thesis by simp
  next
    case (Inr p)
    then have "lr_op req \<noteq> OpUNKNOWN"
      using predicateForRequirement_error [of req "UnsupportedOperator OpUNKNOWN"] by auto
    with Inr Cons.IH show ?thesis by (simp add: Let_def)
  qed
qed simp

text \<open>
  C29. A label selector matches a label set exactly when it is present, all its
  requirement operators are supported, every match label has the given value and every
  requirement holds of the label's value (or of its absence): compiling the selector into
  one predicate per key, and joining the predicates of requirements with the same key,
  does not change what it selects.
\<close>

theorem MatchLabels_correct:
  assumes "\<And>s. sel = Some s \<Longrightarrow> wf_map (ls_matchLabels s)"
  shows "MatchLabels sel lbls \<longleftrightarrow>
    (\<exists>s. sel = Some s \<and> (\<forall>r \<in> set (ls_requirements s). lr_op r \<noteq> OpUNKNOWN) \<and> selector_holds s lbls)"
proof (cases sel)
  case None
  then show ?thesis by (simp add: MatchLabels_def compileSelector_def selMatches_def)
next
  case (Some s)
  note wf = compileMatchLabels_holds [OF assms [OF Some]]
  show ?thesis
  proof (cases "compileRequirements (ls_requirements s) (compileMatchLabels (ls_matchLabels s))")
    case (Inl e)
    then have "\<exists>r \<in> set (ls_requirements s). lr_op r = OpUNKNOWN"
      using compileRequirements_error by blast
    with Some Inl show ?thesis by (auto simp: MatchLabels_def compileSelector_def selMatches_def)
  next
    case (Inr cs)
    then have ok: "\<forall>r \<in> set (ls_requirements s). lr_op r \<noteq> OpUNKNOWN"
      using compileRequirements_error [of "ls_requirements s"] by (metis sum.distinct(1))
    with compileRequirements_holds [OF Inr wf(1), of lbls] Some Inr wf(2) [of lbls] show ?thesis
      by (simp add: MatchLabels_def compileSelector_def selMatches_def list_all_preds_hold selector_holds_def)
  qed
qed

definition example_selector :: labelSelector where
  "example_selector =
     \<lparr>ls_matchLabels = [(''app'', ''web'')],
      ls_requirements =
        [\<lparr>lr_key = ''tier'', lr_op = OpNOT_IN, lr_values = [''db'']\<rparr>,
         \<lparr>lr_key = ''app'', lr_op = OpEXISTS, lr_values = []\<rparr>]\<rparr>"

theorem MatchLabels_correct_witness:
  "MatchLabels (Some example_selector) [(''app'', ''web'')] \<and>
   \<not> MatchLabels (Some example_selector) [(''app'', ''web''), (''tier'', ''db'')]"
proof -
  have "MatchLabels (Some example_selector) lbls \<longleftrightarrow>
      (\<exists>s. Some example_selector = Some s \<and>
        (\<forall>r \<in> set (ls_requirements s). lr_op r \<noteq> OpUNKNOWN) \<and> selector_holds s lbls)" for lbls
    by (rule MatchLabels_correct) (auto simp: example_selector_def)
  then show ?thesis by (simp add: example_selector_def selector_holds_def)
qed

end
