(* ===== verification/Sac_Permissions.thy ===== *)
theory Sac_Permissions
  imports Go_Sets
begin

text \<open>
  Resources, access levels and permissions: \<open>pkg/auth/permissions\<close> and its
  \<open>utils\<close> (the union of the permissions of several roles), the resource registry of
  \<open>pkg/sac/resources/list.go\<close>, and the composite resource identifiers of
  \<open>pkg/sac/id.go\<close>.
\<close>

subsection \<open>Access levels and resource scopes\<close>

text \<open>\<open>storage.Access\<close> and \<open>permissions.ResourceScope\<close> are ordered by their number.\<close>

datatype Access = NO_ACCESS | READ_ACCESS | READ_WRITE_ACCESS

fun access_num :: "Access \<Rightarrow> nat" where
  "access_num NO_ACCESS = 0"
| "access_num READ_ACCESS = 1"
| "access_num READ_WRITE_ACCESS = 2"

lemma access_num_inj [simp]: "access_num a = access_num b \<longleftrightarrow> a = b"
  by (cases a; cases b) auto

instantiation Access :: linorder
begin

definition less_eq_Access :: "Access \<Rightarrow> Access \<Rightarrow> bool" where
  "less_eq_Access a b \<longleftrightarrow> access_num a \<le> access_num b"

definition less_Access :: "Access \<Rightarrow> Access \<Rightarrow> bool" where
  "less_Access a b \<longleftrightarrow> access_num a < access_num b"

instance
  by standard (auto simp: less_eq_Access_def less_Access_def dest: order.antisym)

end

lemmas access_order = less_eq_Access_def less_Access_def

datatype ResourceScope = GlobalScope | ClusterScope | NamespaceScope

fun resource_scope_num :: "ResourceScope \<Rightarrow> nat" where
  "resource_scope_num GlobalScope = 0"
| "resource_scope_num ClusterScope = 1"
| "resource_scope_num NamespaceScope = 2"

lemma resource_scope_num_inj [simp]: "resource_scope_num a = resource_scope_num b \<longleftrightarrow> a = b"
  by (cases a; cases b) auto

instantiation ResourceScope :: linorder
begin

definition less_eq_ResourceScope :: "ResourceScope \<Rightarrow> ResourceScope \<Rightarrow> bool" where
  "less_eq_ResourceScope a b \<longleftrightarrow> resource_scope_num a \<le> resource_scope_num b"

definition less_ResourceScope :: "ResourceScope \<Rightarrow> ResourceScope \<Rightarrow> bool" where
  "less_ResourceScope a b \<longleftrightarrow> resource_scope_num a < resource_scope_num b"

instance
  by standard (auto simp: less_eq_ResourceScope_def less_ResourceScope_def dest: order.antisym)

end

lemmas resource_scope_order = less_eq_ResourceScope_def less_ResourceScope_def

subsection \<open>Resource metadata\<close>

datatype resourceMetadata =
  ResourceMetadata (md_resource: string) (md_replacing: "resourceMetadata option") (md_scope: ResourceScope)

definition GetReplacingResource :: "resourceMetadata \<Rightarrow> string option" where
  "GetReplacingResource m =
     (case md_replacing m of Some r \<Rightarrow> Some (md_resource r) | None \<Rightarrow> None)"

fun GetScope :: "resourceMetadata \<Rightarrow> ResourceScope" where
  "GetScope (ResourceMetadata r None s) = s"
| "GetScope (ResourceMetadata r (Some m) s) = (if GetScope m < s then GetScope m else s)"

text \<open>A missing map entry reads as the zero value, no access.\<close>

definition access_of :: "(string, Access) gomap \<Rightarrow> string \<Rightarrow> Access" where
  "access_of m r = (case mget m r of Some a \<Rightarrow> a | None \<Rightarrow> NO_ACCESS)"

definition IsPermittedBy :: "resourceMetadata \<Rightarrow> (string, Access) gomap \<Rightarrow> Access \<Rightarrow> bool" where
  "IsPermittedBy m resourceAccessMap access =
     (if access_of resourceAccessMap (md_resource m) \<ge> access then True
      else case md_replacing m of
             Some r \<Rightarrow> access_of resourceAccessMap (md_resource r) \<ge> access
           | None \<Rightarrow> False)"

record resourceWithAccess =
  rwa_resource :: resourceMetadata
  rwa_access :: Access

subsection \<open>Combining permissions\<close>

definition maxAccess :: "Access \<Rightarrow> Access \<Rightarrow> Access" where
  "maxAccess access1 access2 = (if access1 > access2 then access1 else access2)"

definition combineAccess :: "string \<Rightarrow> Access \<Rightarrow> (string, Access) gomap \<Rightarrow> (string, Access) gomap" where
  "combineAccess resource access result =
     (case mget result resource of
        Some acc \<Rightarrow> mput resource (maxAccess acc access) result
      | None \<Rightarrow> mput resource access result)"

definition FromProtos :: "(string \<times> Access) list \<Rightarrow> (string, Access) gomap" where
  "FromProtos perms = fold (\<lambda>(r, a). combineAccess r a) perms []"

text \<open>The roles are given by their permission maps; a nil result is the empty map.\<close>

definition NewUnionPermissions :: "(string, Access) gomap list \<Rightarrow> (string, Access) gomap" where
  "NewUnionPermissions roles =
     (case roles of
        [] \<Rightarrow> []
      | [r] \<Rightarrow> r
      | _ \<Rightarrow> fold (\<lambda>role result. fold (\<lambda>(r, a). combineAccess r a) role result) roles [])"

subsection \<open>The registry of resources\<close>

record resourceRegistry =
  resourceToMetadata :: "(string, resourceMetadata) gomap"
  disabledResourceToMetadata :: "(string, resourceMetadata) gomap"
  internalResourceToMetadata :: "(string, resourceMetadata) gomap"

definition newResourceMetadata :: "string \<Rightarrow> ResourceScope \<Rightarrow> resourceRegistry \<Rightarrow> resourceRegistry" where
  "newResourceMetadata name scope reg =
     reg\<lparr>resourceToMetadata := mput name (ResourceMetadata name None scope) (resourceToMetadata reg)\<rparr>"

definition newDeprecatedResourceMetadata ::
  "string \<Rightarrow> ResourceScope \<Rightarrow> resourceMetadata \<Rightarrow> resourceRegistry \<Rightarrow> resourceRegistry" where
  "newDeprecatedResourceMetadata name scope replacingResourceMD reg =
     reg\<lparr>resourceToMetadata :=
       mput name (ResourceMetadata name (Some replacingResourceMD) scope) (resourceToMetadata reg)\<rparr>"

definition newInternalResourceMetadata :: "string \<Rightarrow> ResourceScope \<Rightarrow> resourceRegistry \<Rightarrow> resourceRegistry" where
  "newInternalResourceMetadata name scope reg =
     reg\<lparr>internalResourceToMetadata := mput name (ResourceMetadata name None scope) (internalResourceToMetadata reg)\<rparr>"

definition stackroxResources :: resourceRegistry where
  "stackroxResources =
     fold (\<lambda>n. newInternalResourceMetadata n GlobalScope)
       [''ComplianceOperator'', ''Hash'', ''InitBundleMeta'', ''InstallationInfo'', ''Notifications'',
        ''NetworkEntity'', ''Version'', ''VulnerabilityRequest'']
     (newResourceMetadata ''WorkflowAdministration'' GlobalScope
     (newDeprecatedResourceMetadata ''WatchedImage'' GlobalScope
        (ResourceMetadata ''ImageAdministration'' None GlobalScope)
     (fold (\<lambda>(n, s). newResourceMetadata n s)
       [(''Access'', GlobalScope), (''Administration'', GlobalScope), (''Alert'', NamespaceScope),
        (''CVE'', NamespaceScope), (''Cluster'', ClusterScope), (''Compliance'', ClusterScope),
        (''Deployment'', NamespaceScope), (''DeploymentExtension'', NamespaceScope),
        (''Detection'', GlobalScope), (''Image'', NamespaceScope),
        (''ImageAdministration'', GlobalScope), (''Integration'', GlobalScope),
        (''K8sRole'', NamespaceScope), (''K8sRoleBinding'', NamespaceScope),
        (''K8sSubject'', NamespaceScope), (''Namespace'', NamespaceScope),
        (''NetworkGraph'', NamespaceScope), (''NetworkPolicy'', NamespaceScope),
        (''Node'', ClusterScope), (''Secret'', NamespaceScope), (''ServiceAccount'', NamespaceScope),
        (''VirtualMachine'', NamespaceScope), (''VulnerabilityManagementApprovals'', GlobalScope),
        (''VulnerabilityManagementRequests'', GlobalScope)]
       \<lparr>resourceToMetadata = [], disabledResourceToMetadata = [], internalResourceToMetadata = []\<rparr>)))"

definition GetScopeForResource :: "resourceRegistry \<Rightarrow> string \<Rightarrow> ResourceScope" where
  "GetScopeForResource reg resource =
     (case mget (resourceToMetadata reg) resource of
        Some md \<Rightarrow> GetScope md
      | None \<Rightarrow>
          (case mget (disabledResourceToMetadata reg) resource of
             Some md \<Rightarrow> GetScope md
           | None \<Rightarrow>
               (case mget (internalResourceToMetadata reg) resource of
                  Some md \<Rightarrow> GetScope md
                | None \<Rightarrow> GlobalScope)))"

definition MetadataForResource :: "resourceRegistry \<Rightarrow> string \<Rightarrow> resourceMetadata \<times> bool" where
  "MetadataForResource reg res =
     (case mget (resourceToMetadata reg) res of
        Some md \<Rightarrow> (md, True)
      | None \<Rightarrow> (ResourceMetadata res None GlobalScope, False))"

definition MetadataForInternalResource :: "resourceRegistry \<Rightarrow> string \<Rightarrow> resourceMetadata \<times> bool" where
  "MetadataForInternalResource reg res =
     (case mget (internalResourceToMetadata reg) res of
        Some md \<Rightarrow> (md, True)
      | None \<Rightarrow> (ResourceMetadata res None GlobalScope, False))"

subsection \<open>Composite resource identifiers\<close>

record ResourceID =
  rid_clusterID :: string
  rid_namespaceID :: string
  rid_suffix :: string

datatype idError =
    ClusterIDMissing | ClusterIDHasSeparator string
  | NamespaceIDMissing | NamespaceIDHasSeparator string
  | SuffixHasSeparator string
  | IDStringMissing | SuffixNotFound string | ClusterIDNotFound string

abbreviation separator :: char where
  "separator \<equiv> CHR ''_''"

definition validateClusterID :: "string \<Rightarrow> idError option" where
  "validateClusterID c =
     (if c = [] then Some ClusterIDMissing
      else if separator \<in> set c then Some (ClusterIDHasSeparator c) else None)"

definition validateNamespaceID :: "string \<Rightarrow> idError option" where
  "validateNamespaceID n =
     (if n = [] then Some NamespaceIDMissing
      else if separator \<in> set n then Some (NamespaceIDHasSeparator n) else None)"

definition validateSuffix :: "string \<Rightarrow> idError option" where
  "validateSuffix s = (if separator \<in> set s then Some (SuffixHasSeparator s) else None)"

text \<open>The first argument is the value \<open>uuid.NewV4().String()\<close> returns.\<close>

definition suffixOrNew :: "string \<Rightarrow> string \<Rightarrow> idError + string" where
  "suffixOrNew uuid suff =
     (if suff = [] then Inr uuid
      else case validateSuffix suff of Some e \<Rightarrow> Inl e | None \<Rightarrow> Inr suff)"

definition NewGlobalScopeResourceID :: "string \<Rightarrow> string \<Rightarrow> idError + ResourceID" where
  "NewGlobalScopeResourceID uuid suff =
     map_sum id (\<lambda>s. \<lparr>rid_clusterID = [], rid_namespaceID = [], rid_suffix = s\<rparr>) (suffixOrNew uuid suff)"

definition NewClusterScopeResourceID :: "string \<Rightarrow> string \<Rightarrow> string \<Rightarrow> idError + ResourceID" where
  "NewClusterScopeResourceID uuid clusterID suff =
     (case validateClusterID clusterID of
        Some e \<Rightarrow> Inl e
      | None \<Rightarrow>
          map_sum id (\<lambda>s. \<lparr>rid_clusterID = clusterID, rid_namespaceID = [], rid_suffix = s\<rparr>)
            (suffixOrNew uuid suff))"

definition NewNamespaceScopeResourceID ::
  "string \<Rightarrow> string \<Rightarrow> string \<Rightarrow> string \<Rightarrow> idError + ResourceID" where
  "NewNamespaceScopeResourceID uuid clusterID namespaceID suff =
     (case validateClusterID clusterID of
        Some e \<Rightarrow> Inl e
      | None \<Rightarrow>
          (case validateNamespaceID namespaceID of
             Some e \<Rightarrow> Inl e
           | None \<Rightarrow>
               map_sum id (\<lambda>s. \<lparr>rid_clusterID = clusterID, rid_namespaceID = namespaceID, rid_suffix = s\<rparr>)
                 (suffixOrNew uuid suff)))"

definition ridString :: "ResourceID \<Rightarrow> string" where
  "ridString r = rid_clusterID r @ [separator] @ rid_namespaceID r @ [separator] @ rid_suffix r"

definition GlobalScoped :: "ResourceID \<Rightarrow> bool" where
  "GlobalScoped r \<longleftrightarrow> rid_clusterID r = [] \<and> rid_namespaceID r = []"

definition ClusterScoped :: "ResourceID \<Rightarrow> bool" where
  "ClusterScoped r \<longleftrightarrow> rid_clusterID r \<noteq> [] \<and> rid_namespaceID r = []"

definition NamespaceScoped :: "ResourceID \<Rightarrow> bool" where
  "NamespaceScoped r \<longleftrightarrow> rid_clusterID r \<noteq> [] \<and> rid_namespaceID r \<noteq> []"

definition ridIsValid :: "ResourceID \<Rightarrow> bool" where
  "ridIsValid r \<longleftrightarrow> rid_suffix r \<noteq> [] \<and> (GlobalScoped r \<or> ClusterScoped r \<or> NamespaceScoped r)"

text \<open>\<open>stringutils.SplitNPadded\<close>.\<close>

definition SplitNPadded :: "string \<Rightarrow> char \<Rightarrow> nat \<Rightarrow> string list" where
  "SplitNPadded str sep n =
     (let res = splitN sep n str in res @ replicate (n - length res) [])"

definition ParseResourceID :: "string \<Rightarrow> idError + ResourceID" where
  "ParseResourceID str =
     (if str = [] then Inl IDStringMissing
      else let parts = SplitNPadded str separator 3
           in if parts ! 2 = [] then Inl (SuffixNotFound str)
              else if parts ! 0 = [] \<and> parts ! 1 \<noteq> [] then Inl (ClusterIDNotFound str)
              else Inr \<lparr>rid_clusterID = parts ! 0, rid_namespaceID = parts ! 1, rid_suffix = parts ! 2\<rparr>)"

lemmas rid_defs =
  validateClusterID_def validateNamespaceID_def validateSuffix_def suffixOrNew_def
  NewGlobalScopeResourceID_def NewClusterScopeResourceID_def NewNamespaceScopeResourceID_def

subsection \<open>Facts on permissions\<close>

lemma not_access_less_NO [simp]: "\<not> a < NO_ACCESS"
  by (cases a) (simp_all add: access_order)

lemma NO_ACCESS_least [simp]: "NO_ACCESS \<le> a"
  by (simp add: access_order)

lemma maxAccess_max: "maxAccess a b = max a b"
  by (auto simp: maxAccess_def max_def)

lemma access_of_combineAccess:
  "access_of (combineAccess r a m) r' = (if r' = r then max (access_of m r) a else access_of m r')"
  by (auto simp: access_of_def combineAccess_def maxAccess_max max_def split: option.split)

lemma access_of_fold_combine:
  "x \<le> access_of (fold (\<lambda>(r, a). combineAccess r a) ps m) r' \<longleftrightarrow>
     x \<le> access_of m r' \<or> (\<exists>a. (r', a) \<in> set ps \<and> x \<le> a)"
proof (induction ps arbitrary: m)
  case (Cons p ps)
  obtain r a where [simp]: "p = (r, a)" by (cases p)
  show ?case
    by (auto simp: Cons.IH access_of_combineAccess le_max_iff_disj split: if_splits)
qed simp

lemma access_le_NO_iff [simp]: "x \<le> NO_ACCESS \<longleftrightarrow> x = NO_ACCESS"
  by (cases x) (simp_all add: access_order)

lemma access_of_wf:
  assumes "wf_map m" and "x \<noteq> NO_ACCESS"
  shows "x \<le> access_of m r \<longleftrightarrow> (\<exists>a. (r, a) \<in> set m \<and> x \<le> a)"
proof -
  have "(\<exists>a. (r, a) \<in> set m \<and> x \<le> a) \<longleftrightarrow> (\<exists>a. mget m r = Some a \<and> x \<le> a)"
    using assms(1) by (simp add: mget_eq_iff_in_set)
  with assms(2) show ?thesis by (auto simp: access_of_def split: option.split)
qed

lemma access_of_NewUnionPermissions:
  assumes "\<forall>m \<in> set roles. wf_map m" and "x \<noteq> NO_ACCESS"
  shows "x \<le> access_of (NewUnionPermissions roles) r \<longleftrightarrow> (\<exists>m \<in> set roles. x \<le> access_of m r)"
proof -
  have empty: "\<not> x \<le> access_of [] r"
    using assms(2) by (simp add: access_of_def)
  have "x \<le> access_of (fold (\<lambda>role result. fold (\<lambda>(r, a). combineAccess r a) role result) rs m) r \<longleftrightarrow>
      x \<le> access_of m r \<or> (\<exists>role \<in> set rs. \<exists>a. (r, a) \<in> set role \<and> x \<le> a)" for rs m
    by (induction rs arbitrary: m) (auto simp: access_of_fold_combine)
  with assms empty show ?thesis
    by (auto simp: NewUnionPermissions_def access_of_wf access_of_fold_combine split: list.split)
qed

text \<open>
  C28. A request is permitted by the union of several roles' permissions exactly when it is
  permitted by one of the roles: combining permission maps by the maximum access level per
  resource neither adds nor loses rights, also for resources with a replacing resource.
\<close>

theorem NewUnionPermissions_correct:
  assumes "\<forall>m \<in> set roles. wf_map m" and "access \<noteq> NO_ACCESS"
  shows "IsPermittedBy md (NewUnionPermissions roles) access \<longleftrightarrow>
    (\<exists>m \<in> set roles. IsPermittedBy md m access)"
  using access_of_NewUnionPermissions [OF assms]
  by (auto simp: IsPermittedBy_def split: option.split)

theorem NewUnionPermissions_correct_witness:
  "IsPermittedBy (ResourceMetadata ''WatchedImage'' (Some (ResourceMetadata ''ImageAdministration'' None GlobalScope)) GlobalScope)
     (NewUnionPermissions [[(''Image'', READ_ACCESS)], [(''ImageAdministration'', READ_WRITE_ACCESS)]]) READ_ACCESS"
  by (subst NewUnionPermissions_correct) (simp_all add: IsPermittedBy_def access_of_def access_order)

subsection \<open>Facts on resource identifiers\<close>

lemma length_splitN: "length (splitN c n s) \<le> n"
  by (induction c n s rule: splitN.induct) (auto split: option.splits)

lemma length_SplitNPadded: "length (SplitNPadded s c n) = n"
  using length_splitN [of c n s] by (simp add: SplitNPadded_def Let_def)

lemma SplitNPadded_three:
  "c \<notin> set x \<Longrightarrow> c \<notin> set y \<Longrightarrow> SplitNPadded (x @ c # y @ c # z) c 3 = [x, y, z]"
  by (simp add: SplitNPadded_def numeral_3_eq_3)

lemma SplitNPadded_3_cases:
  assumes "SplitNPadded s c 3 ! 2 \<noteq> []"
  obtains x y z where "s = x @ c # y @ c # z" "c \<notin> set x" "c \<notin> set y" "SplitNPadded s c 3 = [x, y, z]"
proof (cases "cut c s")
  case None
  then show thesis using assms by (simp add: SplitNPadded_def numeral_3_eq_3)
next
  case (Some p)
  obtain x t where p: "p = (x, t)" by (cases p)
  show thesis
  proof (cases "cut c t")
    case None
    then show thesis using assms Some p by (simp add: SplitNPadded_def numeral_3_eq_3 numeral_2_eq_2)
  next
    case (Some q)
    obtain y z where q: "q = (y, z)" by (cases q)
    have "s = x @ c # y @ c # z" "c \<notin> set x" "c \<notin> set y"
      using \<open>cut c s = Some p\<close> Some p q by (auto dest!: cut_Some_append)
    then show thesis using that SplitNPadded_three by blast
  qed
qed

text \<open>
  Every resource identifier the constructors build is parsed back from its printed
  form, provided the generated suffix (a UUID) is not empty and has no separator.
\<close>

theorem ParseResourceID_ridString:
  assumes "uuid \<noteq> []" and "separator \<notin> set uuid"
    and "NewGlobalScopeResourceID uuid s = Inr r \<or> NewClusterScopeResourceID uuid c s = Inr r
      \<or> NewNamespaceScopeResourceID uuid c n s = Inr r"
  shows "ParseResourceID (ridString r) = Inr r \<and> ridIsValid r"
proof -
  have "separator \<notin> set (rid_clusterID r)" "separator \<notin> set (rid_namespaceID r)" "rid_suffix r \<noteq> []"
    "rid_clusterID r = [] \<longrightarrow> rid_namespaceID r = []"
    using assms by (auto simp: rid_defs split: if_splits)
  then show ?thesis
    using SplitNPadded_three [of separator "rid_clusterID r" "rid_namespaceID r" "rid_suffix r"]
    by (auto simp: ParseResourceID_def ridString_def ridIsValid_def
        GlobalScoped_def ClusterScoped_def NamespaceScoped_def)
qed

theorem ParseResourceID_ridString_witness:
  "ParseResourceID ''c1_ns_abc'' = Inr \<lparr>rid_clusterID = ''c1'', rid_namespaceID = ''ns'', rid_suffix = ''abc''\<rparr>"
  using ParseResourceID_ridString [of "''abc''" "''abc''" "\<lparr>rid_clusterID = ''c1'', rid_namespaceID = ''ns'', rid_suffix = ''abc''\<rparr>" "''c1''" "''ns''"]
  by (simp add: rid_defs ridString_def)

text \<open>
  Parsing is the inverse of printing on the accepted strings: what \<open>ParseResourceID\<close>
  accepts prints back to the same string and is a valid identifier, so no two strings
  parse to the same identifier.
\<close>

theorem ridString_ParseResourceID:
  assumes "ParseResourceID str = Inr r"
  shows "ridString r = str \<and> ridIsValid r"
proof -
  have "SplitNPadded str separator 3 ! 2 \<noteq> []"
    using assms by (auto simp: ParseResourceID_def Let_def split: if_splits)
  then obtain x y z where "str = x @ separator # y @ separator # z" "SplitNPadded str separator 3 = [x, y, z]"
    by (rule SplitNPadded_3_cases)
  with assms show ?thesis
    by (auto simp: ParseResourceID_def Let_def ridString_def ridIsValid_def
        GlobalScoped_def ClusterScoped_def NamespaceScoped_def split: if_splits)
qed

theorem ridString_ParseResourceID_witness:
  "ridString \<lparr>rid_clusterID = ''c1'', rid_namespaceID = [], rid_suffix = ''a_b''\<rparr> = ''c1__a_b''"
  using ridString_ParseResourceID [of "''c1__a_b''" "\<lparr>rid_clusterID = ''c1'', rid_namespaceID = [], rid_suffix = ''a_b''\<rparr>"]
  by (simp add: ParseResourceID_def SplitNPadded_def numeral_3_eq_3)

end
