(* ===== verification/Effective_Access_Scope.thy ===== *)
theory Effective_Access_Scope
  imports Go_Sets
begin

text \<open>
  Effective access scopes, \<open>pkg/sac/effectiveaccessscope\<close>: the rules of a simple access
  scope are compiled to selectors (\<open>conversion.go\<close>, \<open>selectors.go\<close>), applied to the
  known clusters and namespaces to give a tree of scope states, states are propagated to
  the parents and the tree is reduced (\<open>effective_access_scope.go\<close>), and trees are
  merged, compacted and converted for the API (\<open>compacted.go\<close>, \<open>conversion.go\<close>).

  The trees are records holding Go maps; the pointers to subtrees of the Go trees are not
  shared between trees (\<open>Merge\<close> copies what it takes over), so a subtree is updated by
  storing the new value. \<open>cl_Namespaces\<close> is an optional map because the code tells nil
  from empty there: writing to the nil map panics.

  Kubernetes' label selectors (\<open>k8s.io/apimachinery/pkg/labels\<close>) are not part of the
  repository. They are the parameter \<open>L\<close>, a record of the functions the code calls.
\<close>

subsection \<open>Scope states and scope trees\<close>

datatype scopeState = Excluded | Partial | Included

fun state_num :: "scopeState \<Rightarrow> nat" where
  "state_num Excluded = 0"
| "state_num Partial = 1"
| "state_num Included = 2"

lemma state_num_inj [simp]: "state_num a = state_num b \<longleftrightarrow> a = b"
  by (cases a; cases b) auto

instantiation scopeState :: linorder
begin

definition less_eq_scopeState :: "scopeState \<Rightarrow> scopeState \<Rightarrow> bool" where
  "less_eq_scopeState a b \<longleftrightarrow> state_num a \<le> state_num b"

definition less_scopeState :: "scopeState \<Rightarrow> scopeState \<Rightarrow> bool" where
  "less_scopeState a b \<longleftrightarrow> state_num a < state_num b"

instance
  by standard (auto simp: less_eq_scopeState_def less_scopeState_def dest: order.antisym)

end

lemmas state_order = less_eq_scopeState_def less_scopeState_def

record treeNodeAttributes =
  attr_ID :: string
  attr_Name :: string
  attr_Labels :: "(string, string) gomap"

record namespacesScopeSubTree =
  ns_State :: scopeState
  ns_Attributes :: treeNodeAttributes

record clustersScopeSubTree =
  cl_State :: scopeState
  cl_Namespaces :: "(string, namespacesScopeSubTree) gomap option"
  cl_Attributes :: treeNodeAttributes

record ScopeTree =
  root_State :: scopeState
  root_Clusters :: "(string, clustersScopeSubTree) gomap"
  clusterIDToName :: "(string, string) gomap"

text \<open>The interfaces \<open>Cluster\<close> and \<open>Namespace\<close>.\<close>

record cluster =
  c_Id :: string
  c_Name :: string
  c_Labels :: "(string, string) gomap"

record namespace =
  n_ClusterId :: string
  n_ClusterName :: string
  n_Id :: string
  n_Name :: string
  n_Labels :: "(string, string) gomap"

text \<open>\<open>v1.ComputeEffectiveAccessScopeRequest_Detail\<close>.\<close>

datatype detail = STANDARD | MINIMAL | HIGH

definition attrsCopy :: "treeNodeAttributes \<Rightarrow> treeNodeAttributes" where
  "attrsCopy t = \<lparr>attr_ID = attr_ID t, attr_Name = attr_Name t, attr_Labels = maps_copy [] (attr_Labels t)\<rparr>"

definition nodeAttributesForCluster :: "cluster \<Rightarrow> detail \<Rightarrow> treeNodeAttributes" where
  "nodeAttributesForCluster c d =
     \<lparr>attr_ID = c_Id c,
      attr_Name = (if d \<noteq> MINIMAL then c_Name c else []),
      attr_Labels = (if d = HIGH then c_Labels c else [])\<rparr>"

definition nodeAttributesForNamespace :: "namespace \<Rightarrow> detail \<Rightarrow> treeNodeAttributes" where
  "nodeAttributesForNamespace n d =
     \<lparr>attr_ID = n_Id n,
      attr_Name = (if d \<noteq> MINIMAL then n_Name n else []),
      attr_Labels = (if d = HIGH then n_Labels n else [])\<rparr>"

definition namespaceCopy :: "namespacesScopeSubTree \<Rightarrow> namespacesScopeSubTree" where
  "namespaceCopy n = \<lparr>ns_State = ns_State n, ns_Attributes = attrsCopy (ns_Attributes n)\<rparr>"

text \<open>The entries of \<open>cluster.Namespaces\<close>, of a nil map none.\<close>

definition namespacesOf :: "clustersScopeSubTree \<Rightarrow> (string, namespacesScopeSubTree) gomap" where
  "namespacesOf cl = (case cl_Namespaces cl of Some m \<Rightarrow> m | None \<Rightarrow> [])"

definition clusterCopy :: "clustersScopeSubTree \<Rightarrow> clustersScopeSubTree" where
  "clusterCopy cl =
     \<lparr>cl_State = cl_State cl,
      cl_Namespaces = Some (map (\<lambda>(k, v). (k, namespaceCopy v)) (namespacesOf cl)),
      cl_Attributes = attrsCopy (cl_Attributes cl)\<rparr>"

definition newEffectiveAccessScopeTree :: "scopeState \<Rightarrow> ScopeTree" where
  "newEffectiveAccessScopeTree state = \<lparr>root_State = state, root_Clusters = [], clusterIDToName = []\<rparr>"

definition newClusterScopeSubTree :: "scopeState \<Rightarrow> treeNodeAttributes \<Rightarrow> clustersScopeSubTree" where
  "newClusterScopeSubTree state attributes =
     \<lparr>cl_State = state, cl_Namespaces = Some [], cl_Attributes = attributes\<rparr>"

definition newNamespacesScopeSubTree :: "scopeState \<Rightarrow> treeNodeAttributes \<Rightarrow> namespacesScopeSubTree" where
  "newNamespacesScopeSubTree state attributes = \<lparr>ns_State = state, ns_Attributes = attributes\<rparr>"

definition UnrestrictedEffectiveAccessScope :: ScopeTree where
  "UnrestrictedEffectiveAccessScope = newEffectiveAccessScopeTree Included"

definition DenyAllEffectiveAccessScope :: ScopeTree where
  "DenyAllEffectiveAccessScope = newEffectiveAccessScopeTree Excluded"

subsection \<open>Access scope rules and selectors\<close>

text \<open>\<open>storage.SetBasedLabelSelector_Operator\<close> and \<open>selection.Operator\<close>.\<close>

datatype setBasedOperator = SB_UNKNOWN | SB_IN | SB_NOT_IN | SB_EXISTS | SB_NOT_EXISTS

datatype selectionOperator = SelIn | SelNotIn | SelExists | SelDoesNotExist | SelOther string

record setBasedRequirement =
  req_key :: string
  req_op :: setBasedOperator
  req_values :: "string list"

type_synonym setBasedLabelSelector = "setBasedRequirement list"

record rulesNamespace =
  rn_clusterId :: string
  rn_clusterName :: string
  rn_namespaceName :: string

record scopeRules =
  sr_includedClusters :: "string list"
  sr_includedClusterIds :: "string list"
  sr_includedNamespaces :: "rulesNamespace list"
  sr_clusterLabelSelectors :: "setBasedLabelSelector list"
  sr_namespaceLabelSelectors :: "setBasedLabelSelector list"

text \<open>The functions of the Kubernetes label library the code calls.\<close>

record ('r, 's) labelsLib =
  NewRequirement :: "string \<Rightarrow> selectionOperator \<Rightarrow> string list \<Rightarrow> string + 'r"
  NewSelector :: 's
  selectorAdd :: "'s \<Rightarrow> 'r \<Rightarrow> 's"
  NothingSelector :: 's
  selectorMatches :: "'s \<Rightarrow> (string, string) gomap \<Rightarrow> bool"

record 's selectors =
  clustersByID :: "string goset"
  clustersByName :: "string goset"
  clustersByLabel :: "'s list"
  namespacesByClusterID :: "(string, string goset) gomap"
  namespacesByClusterName :: "(string, string goset) gomap"
  namespacesByLabel :: "'s list"

datatype easError =
    BadClusterLabelSelector string
  | BadNamespaceLabelSelector string
  | NilMapWrite

definition ConvertLabelSelectorOperatorToSelectionOperator :: "setBasedOperator \<Rightarrow> selectionOperator" where
  "ConvertLabelSelectorOperatorToSelectionOperator op =
     (case op of SB_IN \<Rightarrow> SelIn | SB_NOT_IN \<Rightarrow> SelNotIn | SB_EXISTS \<Rightarrow> SelExists
      | SB_NOT_EXISTS \<Rightarrow> SelDoesNotExist | SB_UNKNOWN \<Rightarrow> SelOther ''UNKNOWN'')"

fun addRequirements :: "('r, 's) labelsLib \<Rightarrow> setBasedRequirement list \<Rightarrow> 's \<Rightarrow> string + 's" where
  "addRequirements L [] compiled = Inr compiled"
| "addRequirements L (elem # elems) compiled =
     (case NewRequirement L (req_key elem)
             (ConvertLabelSelectorOperatorToSelectionOperator (req_op elem)) (req_values elem) of
        Inl err \<Rightarrow> Inl err
      | Inr req \<Rightarrow> addRequirements L elems (selectorAdd L compiled req))"

definition convertSetBasedLabelSelectorToK8sLabelSelector ::
  "('r, 's) labelsLib \<Rightarrow> setBasedLabelSelector \<Rightarrow> string + 's" where
  "convertSetBasedLabelSelectorToK8sLabelSelector L sel =
     (if length sel = 0 then Inr (NothingSelector L) else addRequirements L sel (NewSelector L))"

definition convertEachSetBasedLabelSelectorToK8sLabelSelector ::
  "('r, 's) labelsLib \<Rightarrow> setBasedLabelSelector list \<Rightarrow> string + 's list" where
  "convertEachSetBasedLabelSelectorToK8sLabelSelector L sels =
     mapM_sum (convertSetBasedLabelSelectorToK8sLabelSelector L) sels"

definition addToNamespaceMap ::
  "string \<Rightarrow> string \<Rightarrow> (string, string goset) gomap \<Rightarrow> (string, string goset) gomap" where
  "addToNamespaceMap clusterKey namespaceKey targetMap =
     (let m = (case mget targetMap clusterKey of None \<Rightarrow> mput clusterKey [] targetMap | Some _ \<Rightarrow> targetMap);
          clusterNamespaces = (case mget m clusterKey of Some s \<Rightarrow> s | None \<Rightarrow> [])
      in mput clusterKey (fst (setAdd namespaceKey clusterNamespaces)) m)"

text \<open>The loop over the included namespaces, on the maps keyed by cluster ID and by name.\<close>

fun collectNamespaces ::
  "rulesNamespace list \<Rightarrow> (string, string goset) gomap \<times> (string, string goset) gomap
     \<Rightarrow> (string, string goset) gomap \<times> (string, string goset) gomap" where
  "collectNamespaces [] (byID, byName) = (byID, byName)"
| "collectNamespaces (n # ns) (byID, byName) =
     (if rn_clusterId n = [] \<and> rn_clusterName n = [] then collectNamespaces ns (byID, byName)
      else if rn_namespaceName n = [] then collectNamespaces ns (byID, byName)
      else if rn_clusterId n \<noteq> [] then
        collectNamespaces ns (addToNamespaceMap (rn_clusterId n) (rn_namespaceName n) byID, byName)
      else collectNamespaces ns (byID, addToNamespaceMap (rn_clusterName n) (rn_namespaceName n) byName))"

definition convertRulesToSelectors ::
  "('r, 's) labelsLib \<Rightarrow> scopeRules option \<Rightarrow> easError + 's selectors" where
  "convertRulesToSelectors L rules =
     (case rules of
        None \<Rightarrow> Inr \<lparr>clustersByID = [], clustersByName = [], clustersByLabel = [],
                     namespacesByClusterID = [], namespacesByClusterName = [], namespacesByLabel = []\<rparr>
      | Some r \<Rightarrow>
          (case convertEachSetBasedLabelSelectorToK8sLabelSelector L (sr_clusterLabelSelectors r) of
             Inl err \<Rightarrow> Inl (BadClusterLabelSelector err)
           | Inr clusterSelectors \<Rightarrow>
               (case convertEachSetBasedLabelSelectorToK8sLabelSelector L (sr_namespaceLabelSelectors r) of
                  Inl err \<Rightarrow> Inl (BadNamespaceLabelSelector err)
                | Inr namespaceSelectors \<Rightarrow>
                    (let (byID, byName) = collectNamespaces (sr_includedNamespaces r) ([], [])
                     in Inr \<lparr>clustersByID = newSet (sr_includedClusterIds r),
                              clustersByName = newSet (sr_includedClusters r),
                              clustersByLabel = clusterSelectors,
                              namespacesByClusterID = byID,
                              namespacesByClusterName = byName,
                              namespacesByLabel = namespaceSelectors\<rparr>))))"

definition scopeSeparator :: string where
  "scopeSeparator = ''::''"

definition clusterNameLabel :: string where
  "clusterNameLabel = ''stackrox.io/authz.metadata.cluster.fqsn''"

definition namespaceNameLabel :: string where
  "namespaceNameLabel = ''stackrox.io/authz.metadata.namespace.fqsn''"

definition getNamespaceFQSN :: "string \<Rightarrow> string \<Rightarrow> string" where
  "getNamespaceFQSN c n = c @ scopeSeparator @ n"

definition augmentLabels :: "(string, string) gomap \<Rightarrow> string \<Rightarrow> string \<Rightarrow> (string, string) gomap" where
  "augmentLabels lbls key v = mput key v (maps_copy [] lbls)"

definition matchLabels :: "('r, 's) labelsLib \<Rightarrow> 's list \<Rightarrow> (string, string) gomap \<Rightarrow> scopeState" where
  "matchLabels L sels lbls =
     (if list_ex (\<lambda>s. selectorMatches L s lbls) sels then Included else Excluded)"

definition matchCluster :: "('r, 's) labelsLib \<Rightarrow> 's selectors \<Rightarrow> cluster \<Rightarrow> scopeState" where
  "matchCluster L s c =
     (if setContains (clustersByID s) (c_Id c) then Included
      else if setContains (clustersByName s) (c_Name c) then Included
      else matchLabels L (clustersByLabel s) (augmentLabels (c_Labels c) clusterNameLabel (c_Name c)))"

definition matchNamespaceByClusterKey :: "(string, string goset) gomap \<Rightarrow> string \<Rightarrow> string \<Rightarrow> bool" where
  "matchNamespaceByClusterKey targetMap clusterKey namespaceKey =
     (case mget targetMap clusterKey of None \<Rightarrow> False | Some nss \<Rightarrow> setContains nss namespaceKey)"

definition matchNamespace :: "('r, 's) labelsLib \<Rightarrow> 's selectors \<Rightarrow> namespace \<Rightarrow> scopeState" where
  "matchNamespace L s n =
     (if n_ClusterId n \<noteq> [] \<and> matchNamespaceByClusterKey (namespacesByClusterID s) (n_ClusterId n) (n_Name n)
      then Included
      else if n_ClusterName n \<noteq> [] \<and> matchNamespaceByClusterKey (namespacesByClusterName s) (n_ClusterName n) (n_Name n)
      then Included
      else matchLabels L (namespacesByLabel s)
             (augmentLabels (n_Labels n) namespaceNameLabel (getNamespaceFQSN (n_ClusterName n) (n_Name n))))"

subsection \<open>Computing the effective access scope\<close>

definition populateStateForCluster ::
  "('r, 's) labelsLib \<Rightarrow> 's selectors \<Rightarrow> detail \<Rightarrow> cluster \<Rightarrow> ScopeTree \<Rightarrow> ScopeTree" where
  "populateStateForCluster L ruleSelectors d c root =
     (let clusterName = c_Name c; clusterState = matchCluster L ruleSelectors c in
      case mget (root_Clusters root) clusterName of
        Some clusterSubTree \<Rightarrow>
          if cl_State clusterSubTree < clusterState
          then root\<lparr>root_Clusters := mput clusterName
                 (clusterSubTree\<lparr>cl_State := clusterState, cl_Attributes := nodeAttributesForCluster c d\<rparr>)
                 (root_Clusters root)\<rparr>
          else root
      | None \<Rightarrow>
          root\<lparr>root_Clusters := mput clusterName
                 (newClusterScopeSubTree clusterState (nodeAttributesForCluster c d)) (root_Clusters root),
               clusterIDToName := mput (c_Id c) clusterName (clusterIDToName root)\<rparr>)"

text \<open>Assigning an entry of \<open>cluster.Namespaces\<close>; \<open>None\<close> is the panic of a write to a nil map.\<close>

definition assignNamespace ::
  "string \<Rightarrow> namespacesScopeSubTree \<Rightarrow> clustersScopeSubTree \<Rightarrow> clustersScopeSubTree option" where
  "assignNamespace k v cl =
     map_option (\<lambda>m. cl\<lparr>cl_Namespaces := Some (mput k v m)\<rparr>) (cl_Namespaces cl)"

definition populateStateForNamespace ::
  "('r, 's) labelsLib \<Rightarrow> 's selectors \<Rightarrow> detail \<Rightarrow> namespace \<Rightarrow> clustersScopeSubTree
     \<Rightarrow> clustersScopeSubTree option" where
  "populateStateForNamespace L ruleSelectors d n cl =
     (let namespaceName = n_Name n in
      if cl_State cl = Included
      then assignNamespace namespaceName
             (newNamespacesScopeSubTree Included (nodeAttributesForNamespace n d)) cl
      else
        (let namespaceState = matchNamespace L ruleSelectors n in
         case mget (namespacesOf cl) namespaceName of
           Some nsSubTree \<Rightarrow>
             if ns_State nsSubTree < namespaceState
             then assignNamespace namespaceName (nsSubTree\<lparr>ns_State := namespaceState\<rparr>) cl
             else Some cl
         | None \<Rightarrow>
             assignNamespace namespaceName
               (newNamespacesScopeSubTree namespaceState (nodeAttributesForNamespace n d)) cl))"

fun populateNamespaces ::
  "('r, 's) labelsLib \<Rightarrow> 's selectors \<Rightarrow> detail \<Rightarrow> namespace list \<Rightarrow> ScopeTree \<Rightarrow> easError + ScopeTree" where
  "populateNamespaces L ruleSelectors d [] root = Inr root"
| "populateNamespaces L ruleSelectors d (n # ns) root =
     (let clusterName = n_ClusterName n;
          parentCluster =
            (case mget (root_Clusters root) clusterName of
               Some cl \<Rightarrow> cl
             | None \<Rightarrow> newClusterScopeSubTree Excluded
                        \<lparr>attr_ID = [], attr_Name = clusterName, attr_Labels = []\<rparr>)
      in case populateStateForNamespace L ruleSelectors d n parentCluster of
           None \<Rightarrow> Inl NilMapWrite
         | Some cl \<Rightarrow>
             populateNamespaces L ruleSelectors d ns
               (root\<lparr>root_Clusters := mput clusterName cl (root_Clusters root)\<rparr>))"

text \<open>The inner loop of \<open>bubbleUpStatesAndCompactify\<close>, over the namespaces of one cluster.\<close>

fun bubbleNamespaces ::
  "bool \<Rightarrow> (string \<times> namespacesScopeSubTree) list \<Rightarrow> clustersScopeSubTree \<Rightarrow> clustersScopeSubTree" where
  "bubbleNamespaces del [] cl = cl"
| "bubbleNamespaces del ((namespaceName, n) # rest) cl =
     (let promote = (cl_State cl = Excluded \<and> (ns_State n = Included \<or> ns_State n = Partial));
          cl1 = (if promote then cl\<lparr>cl_State := Partial\<rparr> else cl)
      in if promote \<and> \<not> del then cl1
         else bubbleNamespaces del rest
                (if del \<and> ns_State n = Excluded
                 then cl1\<lparr>cl_Namespaces := map_option (\<lambda>m. mdel namespaceName m) (cl_Namespaces cl1)\<rparr>
                 else cl1))"

fun bubbleClusters ::
  "bool \<Rightarrow> (string \<times> clustersScopeSubTree) list \<Rightarrow> ScopeTree \<Rightarrow> ScopeTree" where
  "bubbleClusters del [] root = root"
| "bubbleClusters del ((clusterName, c) # rest) root =
     (let c1 = bubbleNamespaces del (namespacesOf c) c;
          clusters1 =
            (if del \<and> cl_State c1 = Included
             then mput clusterName (c1\<lparr>cl_Namespaces := None\<rparr>) (root_Clusters root)
             else if del \<and> cl_State c1 = Excluded then mdel clusterName (root_Clusters root)
             else mput clusterName c1 (root_Clusters root));
          state1 =
            (if root_State root = Excluded \<and> (cl_State c1 = Included \<or> cl_State c1 = Partial)
             then Partial else root_State root)
      in bubbleClusters del rest (root\<lparr>root_Clusters := clusters1, root_State := state1\<rparr>))"

definition bubbleUpStatesAndCompactify :: "detail \<Rightarrow> ScopeTree \<Rightarrow> ScopeTree" where
  "bubbleUpStatesAndCompactify d root = bubbleClusters (d = MINIMAL) (root_Clusters root) root"

definition ComputeEffectiveAccessScope ::
  "('r, 's) labelsLib \<Rightarrow> scopeRules option \<Rightarrow> cluster list \<Rightarrow> namespace list \<Rightarrow> detail
     \<Rightarrow> easError + ScopeTree" where
  "ComputeEffectiveAccessScope L rules clusters namespaces d =
     (case convertRulesToSelectors L rules of
        Inl err \<Rightarrow> Inl err
      | Inr ruleSelectors \<Rightarrow>
          (case populateNamespaces L ruleSelectors d namespaces
                  (fold (populateStateForCluster L ruleSelectors d) clusters
                     (newEffectiveAccessScopeTree Excluded)) of
             Inl err \<Rightarrow> Inl err
           | Inr root \<Rightarrow> Inr (bubbleUpStatesAndCompactify d root)))"

subsection \<open>Merging, compacting, lookup\<close>

text \<open>The branch of \<open>Merge\<close> for a partially included cluster: the included namespaces are
  copied into the cluster of the root, whose nil map is replaced first.\<close>

fun mergeNamespaces ::
  "(string \<times> namespacesScopeSubTree) list \<Rightarrow> clustersScopeSubTree \<Rightarrow> clustersScopeSubTree" where
  "mergeNamespaces [] rootCluster = rootCluster"
| "mergeNamespaces ((nsName, n) # rest) rootCluster =
     mergeNamespaces rest
       (if ns_State n = Included
        then rootCluster\<lparr>cl_Namespaces := Some (mput nsName (namespaceCopy n) (namespacesOf rootCluster))\<rparr>
        else rootCluster)"

fun mergeClusters ::
  "(string \<times> clustersScopeSubTree) list \<Rightarrow> (string, clustersScopeSubTree) gomap
     \<Rightarrow> (string, clustersScopeSubTree) gomap" where
  "mergeClusters [] clusters = clusters"
| "mergeClusters ((key, c) # rest) clusters =
     mergeClusters rest
       (case mget clusters key of
          None \<Rightarrow> mput key (clusterCopy c) clusters
        | Some rootCluster \<Rightarrow>
            if cl_State c = Included then mput key (clusterCopy c) clusters
            else if cl_State rootCluster = Included \<or> cl_State c = Excluded then clusters
            else mput key (mergeNamespaces (namespacesOf c) rootCluster) clusters)"

text \<open>
  \<open>root.Merge(tree)\<close>; a nil \<open>tree\<close> is \<open>None\<close>. The comparison of the pointer \<open>tree\<close> with
  the tree \<open>DenyAllEffectiveAccessScope\<close> allocates is never true and is not a branch.
\<close>

definition Merge :: "ScopeTree \<Rightarrow> ScopeTree option \<Rightarrow> ScopeTree" where
  "Merge root tr =
     (case tr of
        None \<Rightarrow> root
      | Some tree \<Rightarrow>
          if root_State tree = Included \<or> root_State root = Included then root\<lparr>root_State := Included\<rparr>
          else bubbleUpStatesAndCompactify MINIMAL
                 (root\<lparr>clusterIDToName := maps_copy (clusterIDToName root) (clusterIDToName tree),
                       root_Clusters := mergeClusters (root_Clusters tree) (root_Clusters root)\<rparr>))"

definition compactCluster :: "clustersScopeSubTree \<Rightarrow> string list option" where
  "compactCluster c =
     (case cl_State c of
        Excluded \<Rightarrow> None
      | Included \<Rightarrow> Some [''*'']
      | Partial \<Rightarrow> Some (sort_by (<) (map fst (filter (\<lambda>(k, n). ns_State n = Included) (namespacesOf c)))))"

fun compactClusters ::
  "(string \<times> clustersScopeSubTree) list \<Rightarrow> (string, string list) gomap \<Rightarrow> (string, string list) gomap" where
  "compactClusters [] compacted = compacted"
| "compactClusters ((clusterName, c) # rest) compacted =
     compactClusters rest
       (case compactCluster c of None \<Rightarrow> compacted | Some nss \<Rightarrow> mput clusterName nss compacted)"

definition Compactify :: "ScopeTree \<Rightarrow> (string, string list) gomap" where
  "Compactify root =
     (case root_State root of
        Excluded \<Rightarrow> []
      | Included \<Rightarrow> [(''*'', [''*''])]
      | Partial \<Rightarrow> compactClusters (root_Clusters root) [])"

text \<open>The zero value of the attributes, in trees built from identifiers only.\<close>

definition noAttributes :: treeNodeAttributes where
  "noAttributes = \<lparr>attr_ID = [], attr_Name = [], attr_Labels = []\<rparr>"

definition includedClusterSubTree :: clustersScopeSubTree where
  "includedClusterSubTree = \<lparr>cl_State = Included, cl_Namespaces = None, cl_Attributes = noAttributes\<rparr>"

definition includedNamespaceSubTree :: namespacesScopeSubTree where
  "includedNamespaceSubTree = \<lparr>ns_State = Included, ns_Attributes = noAttributes\<rparr>"

fun assignNamespaces :: "string list \<Rightarrow> clustersScopeSubTree \<Rightarrow> clustersScopeSubTree option" where
  "assignNamespaces [] cl = Some cl"
| "assignNamespaces (n # ns) cl =
     (case assignNamespace n includedNamespaceSubTree cl of
        None \<Rightarrow> None | Some cl1 \<Rightarrow> assignNamespaces ns cl1)"

fun addIncludedNamespaces :: "(string \<times> string list) list \<Rightarrow> ScopeTree \<Rightarrow> ScopeTree option" where
  "addIncludedNamespaces [] root = Some root"
| "addIncludedNamespaces ((clusterID, nss) # rest) root =
     (let root1 = root\<lparr>clusterIDToName := mput clusterID clusterID (clusterIDToName root)\<rparr> in
      case mget (root_Clusters root) clusterID of
        None \<Rightarrow>
          if nss = [] then addIncludedNamespaces rest root1
          else (case assignNamespaces nss \<lparr>cl_State = Partial, cl_Namespaces = Some [], cl_Attributes = noAttributes\<rparr> of
                  None \<Rightarrow> None
                | Some c \<Rightarrow> addIncludedNamespaces rest (root1\<lparr>root_Clusters := mput clusterID c (root_Clusters root)\<rparr>))
      | Some clusterTree \<Rightarrow>
          (case assignNamespaces nss clusterTree of
             None \<Rightarrow> None
           | Some c \<Rightarrow> addIncludedNamespaces rest (root1\<lparr>root_Clusters := mput clusterID c (root_Clusters root)\<rparr>)))"

text \<open>\<open>None\<close> is the panic of the write to the nil map of an included cluster.\<close>

definition FromClustersAndNamespacesMap ::
  "string list \<Rightarrow> (string, string list) gomap \<Rightarrow> ScopeTree option" where
  "FromClustersAndNamespacesMap includedClusters includedNamespaces =
     (if includedClusters = [] \<and> includedNamespaces = [] then Some DenyAllEffectiveAccessScope
      else addIncludedNamespaces includedNamespaces
             \<lparr>root_State = Partial,
              root_Clusters = fold (\<lambda>c. mput c includedClusterSubTree) includedClusters [],
              clusterIDToName = fold (\<lambda>c. mput c c) includedClusters []\<rparr>)"

definition GetClusterIDs :: "ScopeTree \<Rightarrow> string list" where
  "GetClusterIDs root = map fst (clusterIDToName root)"

definition GetClusterByID :: "ScopeTree \<Rightarrow> string \<Rightarrow> clustersScopeSubTree option" where
  "GetClusterByID root clusterID = mget (root_Clusters root) (mget_str (clusterIDToName root) clusterID)"

subsection \<open>Representations for logs and for the API\<close>

text \<open>\<open>strings.Join\<close>.\<close>

fun stringsJoin :: "string list \<Rightarrow> string \<Rightarrow> string" where
  "stringsJoin [] sep = []"
| "stringsJoin [x] sep = x"
| "stringsJoin (x # y # ys) sep = x @ sep @ stringsJoin (y # ys) sep"

definition compactedClusterString :: "string \<times> string list \<Rightarrow> string option" where
  "compactedClusterString e =
     (case e of (clusterName, nss) \<Rightarrow>
        (case nss of
           [] \<Rightarrow> None
         | [n] \<Rightarrow> Some (clusterName @ scopeSeparator @ n)
         | _ \<Rightarrow> Some (clusterName @ scopeSeparator @ ''{'' @ stringsJoin nss '', '' @ ''}'')))"

definition compactedString :: "(string, string list) gomap \<Rightarrow> string" where
  "compactedString c = stringsJoin (sort_by (<) (List.map_filter compactedClusterString c)) '', ''"

definition scopeTreeString :: "ScopeTree \<Rightarrow> string" where
  "scopeTreeString root = compactedString (Compactify root)"

text \<open>\<open>storage.EffectiveAccessScope\<close>.\<close>

datatype easState = EAS_UNKNOWN | EAS_EXCLUDED | EAS_PARTIAL | EAS_INCLUDED

record easNamespace =
  en_Id :: string
  en_Name :: string
  en_State :: easState
  en_Labels :: "(string, string) gomap"

record easCluster =
  ec_Id :: string
  ec_Name :: string
  ec_State :: easState
  ec_Labels :: "(string, string) gomap"
  ec_Namespaces :: "easNamespace list"

fun convertScopeStateToEffectiveAccessScopeState :: "scopeState \<Rightarrow> easState" where
  "convertScopeStateToEffectiveAccessScopeState Excluded = EAS_EXCLUDED"
| "convertScopeStateToEffectiveAccessScopeState Partial = EAS_PARTIAL"
| "convertScopeStateToEffectiveAccessScopeState Included = EAS_INCLUDED"

definition sortScopesInEffectiveAccessScope :: "easCluster list \<Rightarrow> easCluster list" where
  "sortScopesInEffectiveAccessScope clusters =
     map (\<lambda>c. c\<lparr>ec_Namespaces := sort_by (\<lambda>a b. en_Id a < en_Id b) (ec_Namespaces c)\<rparr>)
       (sort_by (\<lambda>a b. ec_Id a < ec_Id b) clusters)"

definition ToEffectiveAccessScope :: "ScopeTree \<Rightarrow> easCluster list" where
  "ToEffectiveAccessScope tree =
     sortScopesInEffectiveAccessScope
       (map (\<lambda>(_, c).
          \<lparr>ec_Id = attr_ID (cl_Attributes c), ec_Name = attr_Name (cl_Attributes c),
           ec_State = convertScopeStateToEffectiveAccessScopeState (cl_State c),
           ec_Labels = attr_Labels (cl_Attributes c),
           ec_Namespaces =
             map (\<lambda>(_, n).
               \<lparr>en_Id = attr_ID (ns_Attributes n), en_Name = attr_Name (ns_Attributes n),
                en_State = convertScopeStateToEffectiveAccessScopeState (ns_State n),
                en_Labels = attr_Labels (ns_Attributes n)\<rparr>) (namespacesOf c)\<rparr>)
          (root_Clusters tree))"

subsection \<open>What a scope tree grants\<close>

text \<open>
  The meaning of a tree: \<open>tree_includes t c n\<close> says that namespace \<open>n\<close> of the cluster named
  \<open>c\<close> is in scope, reading the states from the root down as the consumers of a tree do.
  \<open>raw_includes\<close> ignores the states propagated to the parents.
\<close>

definition cluster_grants :: "clustersScopeSubTree \<Rightarrow> string \<Rightarrow> bool" where
  "cluster_grants cl n \<longleftrightarrow>
     cl_State cl = Included \<or>
     (case mget (namespacesOf cl) n of Some nst \<Rightarrow> ns_State nst = Included | None \<Rightarrow> False)"

definition raw_includes :: "ScopeTree \<Rightarrow> string \<Rightarrow> string \<Rightarrow> bool" where
  "raw_includes t c n \<longleftrightarrow> (case mget (root_Clusters t) c of Some cl \<Rightarrow> cluster_grants cl n | None \<Rightarrow> False)"

definition tree_includes :: "ScopeTree \<Rightarrow> string \<Rightarrow> string \<Rightarrow> bool" where
  "tree_includes t c n \<longleftrightarrow>
     root_State t = Included \<or>
     root_State t = Partial \<and>
       (case mget (root_Clusters t) c of
          Some cl \<Rightarrow> cl_State cl = Included \<or> cl_State cl = Partial \<and> cluster_grants cl n
        | None \<Rightarrow> False)"

text \<open>Well-formed trees: maps have distinct keys, and an excluded parent has no included child.\<close>

definition wf_cluster :: "clustersScopeSubTree \<Rightarrow> bool" where
  "wf_cluster cl \<longleftrightarrow> wf_map (namespacesOf cl)"

definition settled_cluster :: "clustersScopeSubTree \<Rightarrow> bool" where
  "settled_cluster cl \<longleftrightarrow>
     (cl_State cl = Excluded \<longrightarrow> list_all (\<lambda>(k, n). ns_State n = Excluded) (namespacesOf cl))"

definition wf_maps :: "ScopeTree \<Rightarrow> bool" where
  "wf_maps t \<longleftrightarrow> wf_map (root_Clusters t) \<and> wf_map (clusterIDToName t)
     \<and> list_all (\<lambda>(k, cl). wf_cluster cl) (root_Clusters t)"

definition wf_tree :: "ScopeTree \<Rightarrow> bool" where
  "wf_tree t \<longleftrightarrow> wf_maps t
     \<and> list_all (\<lambda>(k, cl). settled_cluster cl) (root_Clusters t)
     \<and> (root_State t = Excluded \<longrightarrow> list_all (\<lambda>(k, cl). cl_State cl = Excluded) (root_Clusters t))"

text \<open>What remains of a cluster after \<open>bubbleUpStatesAndCompactify\<close>.\<close>

definition bubbled :: "bool \<Rightarrow> clustersScopeSubTree \<Rightarrow> clustersScopeSubTree option" where
  "bubbled del c =
     (let c1 = bubbleNamespaces del (namespacesOf c) c
      in if del \<and> cl_State c1 = Included then Some (c1\<lparr>cl_Namespaces := None\<rparr>)
         else if del \<and> cl_State c1 = Excluded then None
         else Some c1)"

lemma state_cases: "s = Excluded \<or> s = Partial \<or> s = Included"
  by (cases s) auto

lemma state_less_simps [simp]:
  "s < Included \<longleftrightarrow> s \<noteq> Included" "\<not> s < Excluded" "Excluded < s \<longleftrightarrow> s \<noteq> Excluded"
  by (cases s; simp add: state_order)+

lemma namespacesOf_simps [simp]:
  "namespacesOf (cl\<lparr>cl_State := s\<rparr>) = namespacesOf cl"
  "namespacesOf (cl\<lparr>cl_Attributes := a\<rparr>) = namespacesOf cl"
  "namespacesOf (cl\<lparr>cl_Namespaces := Some m\<rparr>) = m"
  "namespacesOf (cl\<lparr>cl_Namespaces := None\<rparr>) = []"
  "namespacesOf (cl\<lparr>cl_Namespaces := map_option (mdel k) (cl_Namespaces cl)\<rparr>) = mdel k (namespacesOf cl)"
  "namespacesOf (newClusterScopeSubTree s a) = []"
  by (auto simp: namespacesOf_def newClusterScopeSubTree_def split: option.splits)

lemma bubbleNamespaces_State:
  "cl_State (bubbleNamespaces del es cl) =
     (if cl_State cl = Excluded \<and> (\<exists>(k, n) \<in> set es. ns_State n \<noteq> Excluded) then Partial else cl_State cl)"
proof (induction es arbitrary: cl del)
  case (Cons e es)
  obtain k n where e: "e = (k, n)" by (cases e)
  show ?case
    by (cases "ns_State n"; cases "cl_State cl") (simp_all add: e Cons.IH Let_def)
qed simp

lemma bubbleNamespaces_keep: "cl_Namespaces (bubbleNamespaces False es cl) = cl_Namespaces cl"
  by (induction es arbitrary: cl) (auto simp: Let_def)

lemma bubbleNamespaces_delete:
  "namespacesOf (bubbleNamespaces True es cl) =
     fold (\<lambda>(k, n) m. if ns_State n = Excluded then mdel k m else m) es (namespacesOf cl)"
proof (induction es arbitrary: cl)
  case (Cons e es)
  obtain k n where e: "e = (k, n)" by (cases e)
  show ?case
    by (cases "ns_State n"; cases "cl_State cl") (simp_all add: e Cons.IH)
qed simp

lemma mget_fold_delete_excluded:
  "wf_map es \<Longrightarrow>
   mget (fold (\<lambda>(k, n) m. if ns_State n = Excluded then mdel k m else m) es m) k =
     (case mget es k of Some n \<Rightarrow> if ns_State n = Excluded then None else mget m k | None \<Rightarrow> mget m k)"
proof (induction es arbitrary: m)
  case (Cons e es)
  then show ?case by (cases e) (auto split: option.splits simp: mget_None_iff dest: mget_in_set intro: rev_image_eqI)
qed simp

lemma wf_fold_delete_excluded:
  "wf_map m \<Longrightarrow> wf_map (fold (\<lambda>(k, n) m. if ns_State n = Excluded then mdel k m else m) es m)"
  by (induction es arbitrary: m) (auto split: prod.splits)

lemma mget_bubbleNamespaces:
  assumes "wf_cluster cl"
  shows "mget (namespacesOf (bubbleNamespaces del (namespacesOf cl) cl)) k =
     (case mget (namespacesOf cl) k of
        Some n \<Rightarrow> if del \<and> ns_State n = Excluded then None else Some n | None \<Rightarrow> None)"
proof (cases del)
  case True
  with assms show ?thesis
    by (simp add: bubbleNamespaces_delete wf_cluster_def mget_fold_delete_excluded split: option.splits)
next
  case False
  then show ?thesis
    by (simp add: namespacesOf_def bubbleNamespaces_keep split: option.splits)
qed

lemma wf_bubbleNamespaces: "wf_cluster cl \<Longrightarrow> wf_cluster (bubbleNamespaces del (namespacesOf cl) cl)"
proof (cases del)
  case False
  then show "wf_cluster cl \<Longrightarrow> ?thesis"
    by (simp add: wf_cluster_def namespacesOf_def bubbleNamespaces_keep)
qed (simp add: wf_cluster_def bubbleNamespaces_delete wf_fold_delete_excluded)

lemma cluster_grants_bubbled:
  assumes "wf_cluster cl"
  shows "(case bubbled del cl of Some c \<Rightarrow> cl_State c \<noteq> Excluded \<and> cluster_grants c n | None \<Rightarrow> False)
           = cluster_grants cl n"
proof -
  let ?c1 = "bubbleNamespaces del (namespacesOf cl) cl"
  have grants: "cluster_grants ?c1 n = cluster_grants cl n"
    using assms by (auto simp: cluster_grants_def mget_bubbleNamespaces bubbleNamespaces_State split: option.splits)
  have excl: "\<not> cluster_grants cl n" if "cl_State ?c1 = Excluded"
    using that by (auto simp: cluster_grants_def bubbleNamespaces_State split: option.splits if_splits
        dest!: mget_in_set)
  show ?thesis
    using grants excl by (auto simp: bubbled_def Let_def cluster_grants_def)
qed

lemma settled_bubbled: "bubbled del cl = Some c \<Longrightarrow> wf_cluster cl \<Longrightarrow> settled_cluster c \<and> wf_cluster c"
proof -
  assume b: "bubbled del cl = Some c" and wf: "wf_cluster cl"
  let ?c1 = "bubbleNamespaces del (namespacesOf cl) cl"
  have c: "c = ?c1\<lparr>cl_Namespaces := None\<rparr> \<and> cl_State ?c1 = Included \<or> c = ?c1"
    using b by (auto simp: bubbled_def Let_def split: if_splits)
  have "wf_cluster ?c1" by (rule wf_bubbleNamespaces [OF wf])
  moreover have "settled_cluster ?c1"
  proof -
    have "ns_State n = Excluded" if "cl_State ?c1 = Excluded" and "(k, n) \<in> set (namespacesOf ?c1)" for k n
    proof -
      have "mget (namespacesOf ?c1) k = Some n"
        using that \<open>wf_cluster ?c1\<close> by (simp add: wf_cluster_def)
      then have "mget (namespacesOf cl) k = Some n"
        by (auto simp: mget_bubbleNamespaces [OF wf] split: option.splits if_splits)
      then show ?thesis using that by (auto simp: bubbleNamespaces_State dest!: mget_in_set split: if_splits)
    qed
    then show ?thesis by (auto simp: settled_cluster_def list_all_iff)
  qed
  ultimately show ?thesis
    using c by (auto simp: settled_cluster_def wf_cluster_def namespacesOf_def)
qed

lemma bubbled_State:
  "bubbled del cl = Some c \<Longrightarrow> cl_State c = cl_State (bubbleNamespaces del (namespacesOf cl) cl)"
  by (auto simp: bubbled_def Let_def split: if_splits)

lemma bubbleClusters_Cons:
  "bubbleClusters del ((k, c) # rest) root =
     bubbleClusters del rest
       (root\<lparr>root_Clusters := (case bubbled del c of None \<Rightarrow> mdel k (root_Clusters root)
                              | Some c1 \<Rightarrow> mput k c1 (root_Clusters root)),
             root_State := (if root_State root = Excluded \<and>
                 cl_State (bubbleNamespaces del (namespacesOf c) c) \<noteq> Excluded
                then Partial else root_State root)\<rparr>)"
  by (cases "cl_State (bubbleNamespaces del (namespacesOf c) c)") (simp_all add: bubbled_def Let_def)

lemmas bubbleClusters_simps = bubbleClusters.simps(1) bubbleClusters_Cons

lemma mget_bubbleClusters:
  "wf_map es \<Longrightarrow> mget (root_Clusters (bubbleClusters del es root)) k =
     (case mget es k of None \<Rightarrow> mget (root_Clusters root) k | Some cl \<Rightarrow> bubbled del cl)"
proof (induction es arbitrary: root)
  case (Cons e es)
  obtain k1 c where e: "e = (k1, c)" by (cases e)
  have "k1 \<notin> set (mkeys es)" using Cons.prems e by simp
  then have "mget es k1 = None" by (simp add: mget_None_iff)
  then show ?case using Cons.prems
    by (simp add: e bubbleClusters_Cons Cons.IH del: bubbleClusters.simps split: option.splits)
qed simp

lemma bubbleClusters_State:
  "root_State (bubbleClusters del es root) =
     (if root_State root = Excluded \<and>
         (\<exists>(k, c) \<in> set es. cl_State (bubbleNamespaces del (namespacesOf c) c) \<noteq> Excluded)
      then Partial else root_State root)"
proof (induction es arbitrary: root)
  case (Cons e es)
  obtain k c where e: "e = (k, c)" by (cases e)
  show ?case by (simp add: e bubbleClusters_Cons Cons.IH del: bubbleClusters.simps)
qed simp

lemma bubbleClusters_ids: "clusterIDToName (bubbleClusters del es root) = clusterIDToName root"
proof (induction es arbitrary: root)
  case (Cons e es)
  then show ?case by (cases e) (simp add: Let_def)
qed simp

lemma wf_bubbleClusters: "wf_map (root_Clusters root) \<Longrightarrow> wf_map (root_Clusters (bubbleClusters del es root))"
proof (induction es arbitrary: root)
  case (Cons e es)
  then show ?case by (cases e) (simp add: Let_def)
qed simp

lemma wf_maps_mget: "wf_maps t \<Longrightarrow> mget (root_Clusters t) c = Some cl \<Longrightarrow> wf_cluster cl"
  by (auto simp: wf_maps_def list_all_iff dest!: mget_in_set)

lemma mget_bubble:
  "wf_maps t \<Longrightarrow> mget (root_Clusters (bubbleUpStatesAndCompactify d t)) c =
     (case mget (root_Clusters t) c of None \<Rightarrow> None | Some cl \<Rightarrow> bubbled (d = MINIMAL) cl)"
  by (simp add: bubbleUpStatesAndCompactify_def mget_bubbleClusters wf_maps_def split: option.splits)

lemma bubble_State:
  "root_State (bubbleUpStatesAndCompactify d t) =
     (if root_State t = Excluded \<and> (\<exists>(k, c) \<in> set (root_Clusters t).
           cl_State (bubbleNamespaces (d = MINIMAL) (namespacesOf c) c) \<noteq> Excluded)
      then Partial else root_State t)"
  by (simp add: bubbleUpStatesAndCompactify_def bubbleClusters_State)

lemma wf_tree_bubble:
  assumes wf: "wf_maps t"
  shows "wf_tree (bubbleUpStatesAndCompactify d t)"
proof -
  let ?b = "bubbleUpStatesAndCompactify d t"
  have m: "wf_map (root_Clusters ?b)" "wf_map (clusterIDToName ?b)"
    using wf by (simp_all add: bubbleUpStatesAndCompactify_def bubbleClusters_ids wf_bubbleClusters wf_maps_def)
  have each: "settled_cluster c \<and> wf_cluster c \<and> (root_State ?b = Excluded \<longrightarrow> cl_State c = Excluded)"
    if "(k, c) \<in> set (root_Clusters ?b)" for k c
  proof -
    have "mget (root_Clusters ?b) k = Some c"
      using that m by simp
    then obtain cl where cl: "mget (root_Clusters t) k = Some cl" "bubbled (d = MINIMAL) cl = Some c"
      by (auto simp: mget_bubble [OF wf] split: option.splits)
    have "root_State ?b = Excluded \<longrightarrow> cl_State c = Excluded"
      using mget_in_set [OF cl(1)] bubbled_State [OF cl(2)] by (auto simp: bubble_State split: if_splits)
    with settled_bubbled [OF cl(2)] wf_maps_mget [OF wf cl(1)] show ?thesis by blast
  qed
  then show ?thesis
    using m by (auto simp: wf_tree_def wf_maps_def list_all_iff)
qed

lemma tree_includes_alt:
  "tree_includes t c n \<longleftrightarrow> root_State t = Included \<or> root_State t = Partial \<and>
     (case mget (root_Clusters t) c of Some cl \<Rightarrow> cl_State cl \<noteq> Excluded \<and> cluster_grants cl n | None \<Rightarrow> False)"
  by (auto simp: tree_includes_def cluster_grants_def split: option.splits)
    (metis scopeState.exhaust)+

lemma tree_includes_bubble:
  assumes wf: "wf_maps t" and root: "root_State t \<noteq> Included"
  shows "tree_includes (bubbleUpStatesAndCompactify d t) c n = raw_includes t c n"
proof (cases "mget (root_Clusters t) c")
  case None
  with root show ?thesis
    by (simp add: tree_includes_alt mget_bubble [OF wf] raw_includes_def bubble_State)
next
  case (Some cl)
  have cl: "wf_cluster cl" by (rule wf_maps_mget [OF wf Some])
  have "root_State (bubbleUpStatesAndCompactify d t) = Partial" if "cluster_grants cl n"
    using cluster_grants_bubbled [OF cl, where del = "d = MINIMAL" and n = n] that root mget_in_set [OF Some]
    by (cases "root_State t") (auto simp: bubble_State bubbled_State split: option.splits intro!: bexI [of _ "(c, cl)"])
  moreover have "root_State (bubbleUpStatesAndCompactify d t) \<noteq> Included"
    using root by (simp add: bubble_State)
  ultimately show ?thesis
    using Some cluster_grants_bubbled [OF cl, where del = "d = MINIMAL" and n = n]
    by (auto simp: tree_includes_alt mget_bubble [OF wf] raw_includes_def)
qed

lemma tree_includes_raw:
  assumes "wf_tree t" and "root_State t \<noteq> Included"
  shows "tree_includes t c n = raw_includes t c n"
proof (cases "mget (root_Clusters t) c")
  case (Some cl)
  then have "(c, cl) \<in> set (root_Clusters t)" by (rule mget_in_set)
  with assms have "settled_cluster cl" "root_State t = Excluded \<Longrightarrow> cl_State cl = Excluded"
    by (auto simp: wf_tree_def list_all_iff)
  then have "cluster_grants cl n \<Longrightarrow> cl_State cl \<noteq> Excluded \<and> root_State t \<noteq> Excluded"
    by (auto simp: cluster_grants_def settled_cluster_def list_all_iff split: option.splits dest!: mget_in_set)
  with Some assms show ?thesis
    by (cases "root_State t") (auto simp: tree_includes_alt raw_includes_def)
qed (use assms in \<open>simp add: tree_includes_def raw_includes_def\<close>)

subsection \<open>The rules and the tree computed from them\<close>

text \<open>What the rules of an access scope select, stated on the rules.\<close>

definition selects :: "('r, 's) labelsLib \<Rightarrow> setBasedLabelSelector \<Rightarrow> (string, string) gomap \<Rightarrow> bool" where
  "selects L sel lbls \<longleftrightarrow>
     (case convertSetBasedLabelSelectorToK8sLabelSelector L sel of
        Inr k \<Rightarrow> selectorMatches L k lbls | Inl _ \<Rightarrow> False)"

definition rules_select_cluster :: "('r, 's) labelsLib \<Rightarrow> scopeRules option \<Rightarrow> cluster \<Rightarrow> bool" where
  "rules_select_cluster L rules c \<longleftrightarrow>
     (case rules of None \<Rightarrow> False
      | Some r \<Rightarrow>
          c_Id c \<in> set (sr_includedClusterIds r) \<or> c_Name c \<in> set (sr_includedClusters r) \<or>
          (\<exists>sel \<in> set (sr_clusterLabelSelectors r).
             selects L sel (augmentLabels (c_Labels c) clusterNameLabel (c_Name c))))"

definition names_namespace :: "rulesNamespace \<Rightarrow> namespace \<Rightarrow> bool" where
  "names_namespace r n \<longleftrightarrow>
     rn_namespaceName r \<noteq> [] \<and> rn_namespaceName r = n_Name n \<and>
     (if rn_clusterId r \<noteq> [] then rn_clusterId r = n_ClusterId n
      else rn_clusterName r \<noteq> [] \<and> rn_clusterName r = n_ClusterName n)"

definition rules_select_namespace :: "('r, 's) labelsLib \<Rightarrow> scopeRules option \<Rightarrow> namespace \<Rightarrow> bool" where
  "rules_select_namespace L rules n \<longleftrightarrow>
     (case rules of None \<Rightarrow> False
      | Some r \<Rightarrow>
          (\<exists>x \<in> set (sr_includedNamespaces r). names_namespace x n) \<or>
          (\<exists>sel \<in> set (sr_namespaceLabelSelectors r).
             selects L sel (augmentLabels (n_Labels n) namespaceNameLabel
                              (getNamespaceFQSN (n_ClusterName n) (n_Name n)))))"

definition rules_valid :: "('r, 's) labelsLib \<Rightarrow> scopeRules option \<Rightarrow> bool" where
  "rules_valid L rules \<longleftrightarrow>
     (case rules of None \<Rightarrow> True
      | Some r \<Rightarrow>
          list_all (\<lambda>sel. \<not> isl (convertSetBasedLabelSelectorToK8sLabelSelector L sel))
            (sr_clusterLabelSelectors r @ sr_namespaceLabelSelectors r))"

lemma matchNamespaceByClusterKey_add [simp]:
  "matchNamespaceByClusterKey (addToNamespaceMap k n m) k' n' \<longleftrightarrow>
     matchNamespaceByClusterKey m k' n' \<or> k' = k \<and> n' = n"
  by (auto simp: matchNamespaceByClusterKey_def addToNamespaceMap_def Let_def goset.contains_add
      split: option.splits)

lemma collectNamespaces_match:
  assumes "collectNamespaces rs (byID, byName) = (byID', byName')" and "k \<noteq> []"
  shows "matchNamespaceByClusterKey byID' k n \<longleftrightarrow> matchNamespaceByClusterKey byID k n \<or>
           (\<exists>r \<in> set rs. rn_clusterId r = k \<and> rn_namespaceName r = n \<and> n \<noteq> [])"
    and "matchNamespaceByClusterKey byName' k n \<longleftrightarrow> matchNamespaceByClusterKey byName k n \<or>
           (\<exists>r \<in> set rs. rn_clusterId r = [] \<and> rn_clusterName r = k \<and> rn_namespaceName r = n \<and> n \<noteq> [])"
  using assms
  by (induction rs arbitrary: byID byName) (auto split: if_splits)

lemma matchLabels_iff: "matchLabels L sels lbls = Included \<longleftrightarrow> (\<exists>s \<in> set sels. selectorMatches L s lbls)"
  by (auto simp: matchLabels_def list_ex_iff)

lemma convertEach_matches:
  assumes "convertEachSetBasedLabelSelectorToK8sLabelSelector L sels = Inr ks"
  shows "(\<exists>s \<in> set ks. selectorMatches L s lbls) \<longleftrightarrow> (\<exists>sel \<in> set sels. selects L sel lbls)"
proof -
  have "list_all2 (\<lambda>x y. convertSetBasedLabelSelectorToK8sLabelSelector L x = Inr y) sels ks"
    using assms by (simp add: convertEachSetBasedLabelSelectorToK8sLabelSelector_def mapM_sum_Inr_iff)
  then show ?thesis
    by (induction rule: list_all2_induct) (auto simp: selects_def)
qed

lemma convertRulesToSelectors_valid:
  "rules_valid L rules \<longleftrightarrow> (\<exists>s. convertRulesToSelectors L rules = Inr s)"
proof (cases rules)
  case (Some r)
  have fails: "isl (convertEachSetBasedLabelSelectorToK8sLabelSelector L sels) \<longleftrightarrow>
      (\<exists>sel \<in> set sels. isl (convertSetBasedLabelSelectorToK8sLabelSelector L sel))" for sels
    using mapM_sum_fails_iff [of "convertSetBasedLabelSelectorToK8sLabelSelector L" sels]
    by (auto simp: isl_def convertEachSetBasedLabelSelectorToK8sLabelSelector_def)
  show ?thesis
    using Some fails [of "sr_clusterLabelSelectors r"] fails [of "sr_namespaceLabelSelectors r"]
    by (auto simp: rules_valid_def convertRulesToSelectors_def list_all_iff Let_def
        split: sum.splits prod.splits)
qed (simp add: rules_valid_def convertRulesToSelectors_def)

lemma matchCluster_rules:
  assumes "convertRulesToSelectors L rules = Inr s"
  shows "matchCluster L s c = Included \<longleftrightarrow> rules_select_cluster L rules c"
proof (cases rules)
  case (Some r)
  obtain ks where ks: "convertEachSetBasedLabelSelectorToK8sLabelSelector L (sr_clusterLabelSelectors r) = Inr ks"
    and s: "clustersByID s = newSet (sr_includedClusterIds r)"
      "clustersByName s = newSet (sr_includedClusters r)" "clustersByLabel s = ks"
    using assms Some by (auto simp: convertRulesToSelectors_def split: sum.splits prod.splits)
  show ?thesis
    unfolding matchCluster_def s rules_select_cluster_def Some
    by (simp add: matchLabels_iff convertEach_matches [OF ks])
next
  case None
  with assms show ?thesis
    by (auto simp: convertRulesToSelectors_def matchCluster_def rules_select_cluster_def matchLabels_def)
qed

lemma matchNamespace_rules:
  assumes "convertRulesToSelectors L rules = Inr s"
  shows "matchNamespace L s n = Included \<longleftrightarrow> rules_select_namespace L rules n"
proof (cases rules)
  case (Some r)
  obtain byID byName where c: "collectNamespaces (sr_includedNamespaces r) ([], []) = (byID, byName)"
    by fastforce
  obtain ks where ks: "convertEachSetBasedLabelSelectorToK8sLabelSelector L (sr_namespaceLabelSelectors r) = Inr ks"
    and s: "namespacesByClusterID s = byID" "namespacesByClusterName s = byName" "namespacesByLabel s = ks"
    using assms Some c by (auto simp: convertRulesToSelectors_def split: sum.splits)
  have empty: "\<not> matchNamespaceByClusterKey [] k x" for k x
    by (simp add: matchNamespaceByClusterKey_def)
  have "(\<exists>x \<in> set (sr_includedNamespaces r). names_namespace x n) \<longleftrightarrow>
      (\<exists>x \<in> set (sr_includedNamespaces r). n_ClusterId n \<noteq> [] \<and> rn_clusterId x = n_ClusterId n \<and>
          rn_namespaceName x = n_Name n \<and> n_Name n \<noteq> []) \<or>
      (\<exists>x \<in> set (sr_includedNamespaces r). n_ClusterName n \<noteq> [] \<and> rn_clusterId x = [] \<and>
          rn_clusterName x = n_ClusterName n \<and> rn_namespaceName x = n_Name n \<and> n_Name n \<noteq> [])"
    unfolding names_namespace_def bex_disj_distrib [symmetric] by (rule bex_cong) auto
  then have "(\<exists>x \<in> set (sr_includedNamespaces r). names_namespace x n) \<longleftrightarrow>
      n_ClusterId n \<noteq> [] \<and> matchNamespaceByClusterKey byID (n_ClusterId n) (n_Name n) \<or>
      n_ClusterName n \<noteq> [] \<and> matchNamespaceByClusterKey byName (n_ClusterName n) (n_Name n)"
    by (auto simp: collectNamespaces_match [OF c] empty)
  then show ?thesis
    unfolding matchNamespace_def s rules_select_namespace_def Some
    by (auto simp: matchLabels_iff convertEach_matches [OF ks])
next
  case None
  with assms show ?thesis
    by (auto simp: convertRulesToSelectors_def matchNamespace_def rules_select_namespace_def matchLabels_def
        matchNamespaceByClusterKey_def)
qed

text \<open>The tree while clusters and namespaces are added: nothing is propagated yet and every
  cluster has a map of namespaces to write to.\<close>

definition building :: "ScopeTree \<Rightarrow> bool" where
  "building t \<longleftrightarrow> wf_maps t \<and> root_State t = Excluded
     \<and> list_all (\<lambda>(k, cl). cl_Namespaces cl \<noteq> None) (root_Clusters t)"

lemma list_all_mput:
  "list_all P m \<Longrightarrow> P (k, v) \<Longrightarrow> list_all P (mput k v m)"
  by (induction m) auto

lemma matchCluster_range: "matchCluster L s c = Included \<or> matchCluster L s c = Excluded"
  by (auto simp: matchCluster_def matchLabels_def)

lemma matchNamespace_range: "matchNamespace L s c = Included \<or> matchNamespace L s c = Excluded"
  by (auto simp: matchNamespace_def matchLabels_def)

lemma building_put:
  assumes "building t" and "wf_cluster cl" and "cl_Namespaces cl \<noteq> None"
  shows "building (t\<lparr>root_Clusters := mput k cl (root_Clusters t)\<rparr>)"
  using assms by (auto simp: building_def wf_maps_def intro: list_all_mput)

lemma building_mget: "building t \<Longrightarrow> mget (root_Clusters t) k = Some cl \<Longrightarrow> wf_cluster cl \<and> cl_Namespaces cl \<noteq> None"
  by (auto simp: building_def wf_maps_def list_all_iff dest!: mget_in_set)

lemma raw_includes_put:
  "raw_includes (t\<lparr>root_Clusters := mput k cl (root_Clusters t)\<rparr>) c n \<longleftrightarrow>
     (if c = k then cluster_grants cl n else raw_includes t c n)"
  by (simp add: raw_includes_def)

lemma raw_includes_ids [simp]: "raw_includes (t\<lparr>clusterIDToName := x\<rparr>) = raw_includes t"
  by (intro ext) (simp add: raw_includes_def)

lemma building_ids: "building t \<Longrightarrow> building (t\<lparr>clusterIDToName := mput k v (clusterIDToName t)\<rparr>)"
  by (simp add: building_def wf_maps_def)

lemma wf_newCluster [simp]:
  "wf_cluster (newClusterScopeSubTree s a)" "cl_Namespaces (newClusterScopeSubTree s a) = Some []"
  "cl_State (newClusterScopeSubTree s a) = s"
  by (simp_all add: wf_cluster_def) (simp_all add: newClusterScopeSubTree_def)

lemma cluster_grants_simps [simp]:
  "cluster_grants (newClusterScopeSubTree s a) n \<longleftrightarrow> s = Included"
  by (simp add: cluster_grants_def)

lemma populateStateForCluster_building:
  assumes b: "building t"
  shows "building (populateStateForCluster L s d c t) \<and>
    (raw_includes (populateStateForCluster L s d c t) x n \<longleftrightarrow>
       raw_includes t x n \<or> x = c_Name c \<and> matchCluster L s c = Included)"
proof (cases "mget (root_Clusters t) (c_Name c)")
  case None
  let ?t = "t\<lparr>root_Clusters := mput (c_Name c)
       (newClusterScopeSubTree (matchCluster L s c) (nodeAttributesForCluster c d)) (root_Clusters t)\<rparr>"
  have eq: "populateStateForCluster L s d c t = ?t\<lparr>clusterIDToName := mput (c_Id c) (c_Name c) (clusterIDToName ?t)\<rparr>"
    using None by (simp add: populateStateForCluster_def Let_def)
  have "building ?t" by (rule building_put) (simp_all add: b)
  from building_ids [OF this] have "building (populateStateForCluster L s d c t)"
    unfolding eq .
  moreover have "raw_includes (populateStateForCluster L s d c t) x n \<longleftrightarrow>
       raw_includes t x n \<or> x = c_Name c \<and> matchCluster L s c = Included"
    unfolding eq raw_includes_ids raw_includes_put using None by (auto simp: raw_includes_def)
  ultimately show ?thesis ..
next
  case (Some cl)
  note cl = building_mget [OF b Some]
  show ?thesis
  proof (cases "cl_State cl < matchCluster L s c")
    case True
    then have "matchCluster L s c = Included"
      using matchCluster_range [of L s c] by auto
    with True Some cl b show ?thesis
      by (auto simp: populateStateForCluster_def raw_includes_put cluster_grants_def wf_cluster_def
          intro!: building_put)
  next
    case False
    then have "matchCluster L s c = Included \<Longrightarrow> cl_State cl = Included" by auto
    with False Some b show ?thesis
      by (auto simp: populateStateForCluster_def raw_includes_def cluster_grants_def)
  qed
qed

lemma populateClusters_building:
  "building t \<Longrightarrow> building (fold (populateStateForCluster L s d) cs t) \<and>
    (raw_includes (fold (populateStateForCluster L s d) cs t) x n \<longleftrightarrow>
       raw_includes t x n \<or> (\<exists>c \<in> set cs. c_Name c = x \<and> matchCluster L s c = Included))"
proof (induction cs arbitrary: t)
  case (Cons c cs)
  with populateStateForCluster_building [OF Cons.prems, of L s d c] show ?case by auto
qed simp

lemma populateStateForNamespace_grants:
  assumes "wf_cluster cl" and "cl_Namespaces cl \<noteq> None"
  obtains cl' where "populateStateForNamespace L s d n cl = Some cl'" and "wf_cluster cl'"
    and "cl_Namespaces cl' \<noteq> None"
    and "\<And>x. cluster_grants cl' x \<longleftrightarrow> cluster_grants cl x \<or> x = n_Name n \<and> matchNamespace L s n = Included"
proof -
  obtain m where m: "cl_Namespaces cl = Some m" using assms by auto
  have st: "newNamespacesScopeSubTree u a = \<lparr>ns_State = u, ns_Attributes = a\<rparr>" for u a
    by (simp add: newNamespacesScopeSubTree_def)
  have "\<exists>cl'. populateStateForNamespace L s d n cl = Some cl' \<and> wf_cluster cl' \<and> cl_Namespaces cl' \<noteq> None \<and>
    (\<forall>x. cluster_grants cl' x \<longleftrightarrow> cluster_grants cl x \<or> x = n_Name n \<and> matchNamespace L s n = Included)"
    using assms(1) m matchNamespace_range [of L s n]
    by (auto simp: populateStateForNamespace_def assignNamespace_def cluster_grants_def wf_cluster_def st
        namespacesOf_def Let_def simp del: map_of_eq_Some_iff split: option.splits)
  then show thesis using that by blast
qed

lemma populateNamespaces_building:
  "building t \<Longrightarrow> \<exists>t'. populateNamespaces L s d ns t = Inr t' \<and> building t' \<and>
     (\<forall>x y. raw_includes t' x y \<longleftrightarrow> raw_includes t x y \<or>
        (\<exists>n \<in> set ns. n_ClusterName n = x \<and> n_Name n = y \<and> matchNamespace L s n = Included))"
proof (induction ns arbitrary: t)
  case (Cons n ns)
  define parent where "parent = (case mget (root_Clusters t) (n_ClusterName n) of Some cl \<Rightarrow> cl
     | None \<Rightarrow> newClusterScopeSubTree Excluded \<lparr>attr_ID = [], attr_Name = n_ClusterName n, attr_Labels = []\<rparr>)"
  have parent: "wf_cluster parent" "cl_Namespaces parent \<noteq> None"
    using building_mget [OF Cons.prems] by (auto simp: parent_def split: option.splits)
  have grants: "cluster_grants parent y \<longleftrightarrow> raw_includes t (n_ClusterName n) y" for y
    by (simp add: parent_def raw_includes_def split: option.splits)
  obtain cl where cl: "populateStateForNamespace L s d n parent = Some cl" "wf_cluster cl" "cl_Namespaces cl \<noteq> None"
    "\<And>x. cluster_grants cl x \<longleftrightarrow> cluster_grants parent x \<or> x = n_Name n \<and> matchNamespace L s n = Included"
    using parent by (rule populateStateForNamespace_grants) blast
  let ?t = "t\<lparr>root_Clusters := mput (n_ClusterName n) cl (root_Clusters t)\<rparr>"
  have "building ?t" by (rule building_put [OF Cons.prems cl(2,3)])
  from Cons.IH [OF this] cl(1) show ?case
    by (auto simp: parent_def [symmetric] raw_includes_put cl(4) grants)
qed simp

lemma ComputeEffectiveAccessScope_spec:
  "if rules_valid L rules
   then \<exists>t. ComputeEffectiveAccessScope L rules clusters namespaces d = Inr t \<and> wf_tree t \<and>
     (\<forall>c n. tree_includes t c n \<longleftrightarrow>
        (\<exists>x \<in> set clusters. c_Name x = c \<and> rules_select_cluster L rules x) \<or>
        (\<exists>x \<in> set namespaces. n_ClusterName x = c \<and> n_Name x = n \<and> rules_select_namespace L rules x))
   else \<exists>e. ComputeEffectiveAccessScope L rules clusters namespaces d = Inl e \<and> e \<noteq> NilMapWrite"
proof (cases "rules_valid L rules")
  case True
  then obtain s where s: "convertRulesToSelectors L rules = Inr s"
    by (auto simp: convertRulesToSelectors_valid)
  let ?t0 = "newEffectiveAccessScopeTree Excluded"
  have "building ?t0" and none: "\<not> raw_includes ?t0 c n" for c n
    by (simp_all add: building_def wf_maps_def newEffectiveAccessScopeTree_def raw_includes_def)
  note clusters = populateClusters_building [OF this(1), of L s d clusters, THEN conjunct1]
    populateClusters_building [OF this(1), of L s d clusters, THEN conjunct2]
  obtain t where t: "populateNamespaces L s d namespaces (fold (populateStateForCluster L s d) clusters ?t0) = Inr t"
    "building t" and raw: "\<And>x y. raw_includes t x y \<longleftrightarrow>
        (\<exists>c \<in> set clusters. c_Name c = x \<and> matchCluster L s c = Included) \<or>
        (\<exists>n \<in> set namespaces. n_ClusterName n = x \<and> n_Name n = y \<and> matchNamespace L s n = Included)"
    using populateNamespaces_building [OF clusters(1), of L s d namespaces] by (auto simp: clusters(2) none)
  have wf: "wf_maps t" "root_State t \<noteq> Included" using t(2) by (auto simp: building_def)
  show ?thesis
    using True by (simp add: ComputeEffectiveAccessScope_def s t raw wf_tree_bubble wf tree_includes_bubble
        matchCluster_rules [OF s] matchNamespace_rules [OF s])
next
  case False
  then obtain e where "convertRulesToSelectors L rules = Inl e"
    by (auto simp: convertRulesToSelectors_valid) (metis sum.exhaust)
  moreover from this have "e \<noteq> NilMapWrite"
    by (auto simp: convertRulesToSelectors_def Let_def split: option.splits sum.splits prod.splits)
  ultimately show ?thesis using False by (simp add: ComputeEffectiveAccessScope_def)
qed

text \<open>
  C5. Let no two namespaces have the same name and the same cluster name. For every level of
  detail, the tree computed from an access scope includes a namespace exactly when the rules select a
  cluster of that name or select the namespace, whatever
  the order of clusters and namespaces and also for namespaces of unknown clusters; the
  computation fails only on a label selector that cannot be converted, and never writes to
  a nil map; the computed tree is well-formed.
\<close>

theorem ComputeEffectiveAccessScope_correct:
  assumes "distinct (map (\<lambda>x. (n_ClusterName x, n_Name x)) namespaces)"
  shows "if rules_valid L rules
   then \<exists>t. ComputeEffectiveAccessScope L rules clusters namespaces d = Inr t \<and> wf_tree t \<and>
     (\<forall>c n. tree_includes t c n \<longleftrightarrow>
        (\<exists>x \<in> set clusters. c_Name x = c \<and> rules_select_cluster L rules x) \<or>
        (\<exists>x \<in> set namespaces. n_ClusterName x = c \<and> n_Name x = n \<and> rules_select_namespace L rules x))
   else \<exists>e. ComputeEffectiveAccessScope L rules clusters namespaces d = Inl e \<and> e \<noteq> NilMapWrite"
  by (rule ComputeEffectiveAccessScope_spec)

text \<open>A concrete label library for the examples: a selector is a list of requirements, and
  \<open>None\<close> selects nothing.\<close>

type_synonym exRequirement = "string \<times> selectionOperator \<times> string list"

definition exReqHolds :: "(string, string) gomap \<Rightarrow> exRequirement \<Rightarrow> bool" where
  "exReqHolds lbls r =
     (case r of (key, op, vals) \<Rightarrow>
        (case op of
           SelIn \<Rightarrow> (case mget lbls key of Some v \<Rightarrow> v \<in> set vals | None \<Rightarrow> False)
         | SelNotIn \<Rightarrow> (case mget lbls key of Some v \<Rightarrow> v \<notin> set vals | None \<Rightarrow> True)
         | SelExists \<Rightarrow> mget lbls key \<noteq> None
         | SelDoesNotExist \<Rightarrow> mget lbls key = None
         | SelOther _ \<Rightarrow> False))"

definition exampleLabels :: "(exRequirement, exRequirement list option) labelsLib" where
  "exampleLabels =
     \<lparr>NewRequirement = (\<lambda>key op vals. case op of SelOther o' \<Rightarrow> Inl o' | _ \<Rightarrow> Inr (key, op, vals)),
      NewSelector = Some [],
      selectorAdd = (\<lambda>s r. map_option (\<lambda>rs. rs @ [r]) s),
      NothingSelector = None,
      selectorMatches = (\<lambda>s lbls. case s of None \<Rightarrow> False | Some rs \<Rightarrow> list_all (exReqHolds lbls) rs)\<rparr>"

definition exampleRules :: scopeRules where
  "exampleRules =
     \<lparr>sr_includedClusters = [''prod''], sr_includedClusterIds = [],
      sr_includedNamespaces = [\<lparr>rn_clusterId = [], rn_clusterName = ''dev'', rn_namespaceName = ''web''\<rparr>],
      sr_clusterLabelSelectors = [], sr_namespaceLabelSelectors =
        [[\<lparr>req_key = ''team'', req_op = SB_IN, req_values = [''sec'']\<rparr>]]\<rparr>"

definition exampleClusters :: "cluster list" where
  "exampleClusters =
     [\<lparr>c_Id = ''c1'', c_Name = ''prod'', c_Labels = []\<rparr>, \<lparr>c_Id = ''c2'', c_Name = ''dev'', c_Labels = []\<rparr>]"

definition exampleNamespaces :: "namespace list" where
  "exampleNamespaces =
     [\<lparr>n_ClusterId = ''c2'', n_ClusterName = ''dev'', n_Id = ''n1'', n_Name = ''web'', n_Labels = []\<rparr>,
      \<lparr>n_ClusterId = ''c2'', n_ClusterName = ''dev'', n_Id = ''n2'', n_Name = ''db'', n_Labels = []\<rparr>,
      \<lparr>n_ClusterId = ''c3'', n_ClusterName = ''lost'', n_Id = ''n3'', n_Name = ''x'', n_Labels = [(''team'', ''sec'')]\<rparr>]"

lemmas example_scope_defs =
  exampleLabels_def exampleRules_def exampleClusters_def exampleNamespaces_def exReqHolds_def

lemma exampleRules_valid: "rules_valid exampleLabels (Some exampleRules)"
  by (simp add: rules_valid_def example_scope_defs convertSetBasedLabelSelectorToK8sLabelSelector_def
      ConvertLabelSelectorOperatorToSelectionOperator_def)

theorem ComputeEffectiveAccessScope_correct_witness:
  "\<exists>t. ComputeEffectiveAccessScope exampleLabels (Some exampleRules) exampleClusters exampleNamespaces MINIMAL
         = Inr t \<and> wf_tree t \<and> tree_includes t ''prod'' ''any'' \<and> tree_includes t ''dev'' ''web'' \<and>
       \<not> tree_includes t ''dev'' ''db'' \<and> tree_includes t ''lost'' ''x''"
proof -
  obtain t where t: "ComputeEffectiveAccessScope exampleLabels (Some exampleRules) exampleClusters
      exampleNamespaces MINIMAL = Inr t" "wf_tree t" and
    inc: "\<And>c n. tree_includes t c n \<longleftrightarrow>
        (\<exists>x \<in> set exampleClusters. c_Name x = c \<and> rules_select_cluster exampleLabels (Some exampleRules) x) \<or>
        (\<exists>x \<in> set exampleNamespaces. n_ClusterName x = c \<and> n_Name x = n \<and>
           rules_select_namespace exampleLabels (Some exampleRules) x)"
    using ComputeEffectiveAccessScope_correct [of exampleNamespaces exampleLabels "Some exampleRules"
        exampleClusters MINIMAL] exampleRules_valid by (auto simp: exampleNamespaces_def)
  have "tree_includes t ''prod'' ''any''" unfolding inc by code_simp
  moreover have "tree_includes t ''dev'' ''web''" unfolding inc by code_simp
  moreover have "\<not> tree_includes t ''dev'' ''db''" unfolding inc by code_simp
  moreover have "tree_includes t ''lost'' ''x''" unfolding inc by code_simp
  ultimately show ?thesis using t by blast
qed

subsection \<open>Merging trees\<close>

lemma ns_State_copy [simp]: "ns_State (namespaceCopy n) = ns_State n"
  by (simp add: namespaceCopy_def)

lemma clusterCopy_grants:
  "wf_cluster cl \<Longrightarrow> wf_cluster (clusterCopy cl)" "cluster_grants (clusterCopy cl) n = cluster_grants cl n"
  by (simp_all add: clusterCopy_def wf_cluster_def namespacesOf_def cluster_grants_def del: map_map
      split: option.splits)

lemma mergeNamespaces_grants:
  "wf_map es \<Longrightarrow> cl_State (mergeNamespaces es cl) = cl_State cl \<and>
   (wf_cluster cl \<longrightarrow> wf_cluster (mergeNamespaces es cl)) \<and>
   (cluster_grants (mergeNamespaces es cl) n \<longleftrightarrow> cluster_grants cl n \<or>
      (case mget es n of Some x \<Rightarrow> ns_State x = Included | None \<Rightarrow> False))"
proof (induction es arbitrary: cl)
  case (Cons e es)
  obtain k x where e: "e = (k, x)" by (cases e)
  then have k: "mget es k = None" using Cons.prems by (simp add: mget_None_iff)
  let ?cl = "cl\<lparr>cl_Namespaces := Some (mput k (namespaceCopy x) (namespacesOf cl))\<rparr>"
  have step: "ns_State x = Included \<Longrightarrow> cluster_grants ?cl n \<longleftrightarrow> cluster_grants cl n \<or> n = k"
    "wf_cluster cl \<Longrightarrow> wf_cluster ?cl"
    by (auto simp: cluster_grants_def wf_cluster_def split: option.splits)
  show ?case
    using Cons.IH [of ?cl] Cons.IH [of cl] Cons.prems step k by (auto simp: e split: option.splits)
qed simp

text \<open>One step of the loop over the clusters of the merged tree.\<close>

definition mergeCluster :: "clustersScopeSubTree option \<Rightarrow> clustersScopeSubTree \<Rightarrow> clustersScopeSubTree" where
  "mergeCluster rc c =
     (case rc of
        None \<Rightarrow> clusterCopy c
      | Some r \<Rightarrow>
          if cl_State c = Included then clusterCopy c
          else if cl_State r = Included \<or> cl_State c = Excluded then r
          else mergeNamespaces (namespacesOf c) r)"

lemma mergeClusters_get:
  "wf_map es \<Longrightarrow> mget (mergeClusters es m) k =
     (case mget es k of None \<Rightarrow> mget m k | Some c \<Rightarrow> Some (mergeCluster (mget m k) c))"
proof (induction es arbitrary: m)
  case (Cons e es)
  obtain k1 c where e: "e = (k1, c)" by (cases e)
  then have k: "mget es k1 = None" using Cons.prems by (simp add: mget_None_iff)
  show ?case
    using Cons k by (auto simp: e mergeCluster_def split: option.splits)
qed simp

lemma wf_mergeClusters: "wf_map m \<Longrightarrow> wf_map (mergeClusters es m)"
proof (induction es arbitrary: m)
  case (Cons e es)
  then show ?case by (cases e) (simp split: option.split)
qed simp

lemma mergeCluster_grants:
  assumes "wf_cluster c" and "settled_cluster c"
  shows "cluster_grants (mergeCluster rc c) n \<longleftrightarrow>
     cluster_grants c n \<or> (case rc of Some r \<Rightarrow> cluster_grants r n | None \<Rightarrow> False)"
proof (cases rc)
  case (Some r)
  have "cl_State c = Excluded \<Longrightarrow> \<not> cluster_grants c n"
    using assms(2) by (auto simp: settled_cluster_def cluster_grants_def list_all_iff split: option.splits
        dest!: mget_in_set)
  moreover have "cl_State c = Included \<Longrightarrow> cluster_grants c n" "cl_State r = Included \<Longrightarrow> cluster_grants r n"
    by (simp_all add: cluster_grants_def)
  moreover have "cl_State c = Partial \<Longrightarrow> cluster_grants (mergeNamespaces (namespacesOf c) r) n \<longleftrightarrow>
      cluster_grants c n \<or> cluster_grants r n"
    using mergeNamespaces_grants [of "namespacesOf c" r n] assms(1)
    by (auto simp: wf_cluster_def cluster_grants_def [of c])
  ultimately show ?thesis
    using Some by (cases "cl_State c") (auto simp: mergeCluster_def clusterCopy_grants)
qed (simp add: mergeCluster_def clusterCopy_grants)

lemma wf_mergeCluster:
  "wf_cluster c \<Longrightarrow> (\<And>r. rc = Some r \<Longrightarrow> wf_cluster r) \<Longrightarrow> wf_cluster (mergeCluster rc c)"
  using mergeNamespaces_grants [of "namespacesOf c"]
  by (auto simp: mergeCluster_def clusterCopy_grants wf_cluster_def [of c] split: option.splits)

lemma wf_tree_DenyAll: "wf_tree DenyAllEffectiveAccessScope"
  by (simp add: DenyAllEffectiveAccessScope_def newEffectiveAccessScopeTree_def wf_tree_def wf_maps_def)

lemma tree_includes_DenyAll: "\<not> tree_includes DenyAllEffectiveAccessScope c n"
  by (simp add: DenyAllEffectiveAccessScope_def newEffectiveAccessScopeTree_def tree_includes_def)

lemma wf_maps_merge:
  assumes "wf_tree r" and "wf_tree t"
  shows "wf_maps (r\<lparr>clusterIDToName := maps_copy (clusterIDToName r) (clusterIDToName t),
              root_Clusters := mergeClusters (root_Clusters t) (root_Clusters r)\<rparr>)" (is "wf_maps ?r")
proof -
  have wft: "wf_map (root_Clusters t)" "wf_maps t" "wf_maps r"
    using assms by (auto simp: wf_tree_def wf_maps_def)
  have wfm: "wf_map (root_Clusters ?r)" using wft by (simp add: wf_mergeClusters wf_maps_def)
  have "wf_cluster x" if "(k, x) \<in> set (root_Clusters ?r)" for k x
  proof -
    have "mget (root_Clusters ?r) k = Some x" using that wfm by (simp add: map_of_eq_Some_iff)
    then have "(case mget (root_Clusters t) k of None \<Rightarrow> mget (root_Clusters r) k
       | Some y \<Rightarrow> Some (mergeCluster (mget (root_Clusters r) k) y)) = Some x"
      by (simp add: mergeClusters_get wft)
    then show ?thesis
      using wft by (auto split: option.splits dest: wf_maps_mget intro!: wf_mergeCluster)
  qed
  then show ?thesis using wfm wft by (auto simp: wf_maps_def list_all_iff)
qed

lemma Merge_includes:
  assumes wf: "wf_tree r" "wf_tree t"
  shows "wf_tree (Merge r (Some t)) \<and> (tree_includes (Merge r (Some t)) c n \<longleftrightarrow>
           tree_includes r c n \<or> tree_includes t c n)"
proof (cases "root_State t = Included \<or> root_State r = Included")
  case True
  then have m: "Merge r (Some t) = r\<lparr>root_State := Included\<rparr>" by (simp add: Merge_def)
  show ?thesis
    unfolding m using True wf by (auto simp: tree_includes_def wf_tree_def wf_maps_def)
next
  case False
  let ?r = "r\<lparr>clusterIDToName := maps_copy (clusterIDToName r) (clusterIDToName t),
              root_Clusters := mergeClusters (root_Clusters t) (root_Clusters r)\<rparr>"
  have wft: "wf_map (root_Clusters t)" "wf_maps t"
    using wf by (auto simp: wf_tree_def wf_maps_def)
  have get: "mget (root_Clusters ?r) k =
      (case mget (root_Clusters t) k of None \<Rightarrow> mget (root_Clusters r) k
       | Some x \<Rightarrow> Some (mergeCluster (mget (root_Clusters r) k) x))" for k
    by (simp add: mergeClusters_get wft)
  have settled: "settled_cluster x" if "mget (root_Clusters t) k = Some x" for k x
    using mget_in_set [OF that] wf(2) by (auto simp: wf_tree_def list_all_iff)
  have "raw_includes ?r c n \<longleftrightarrow> raw_includes r c n \<or> raw_includes t c n"
    unfolding raw_includes_def get using wf_maps_mget [OF wft(2)] settled
    by (auto simp: mergeCluster_grants split: option.splits)
  moreover have "Merge r (Some t) = bubbleUpStatesAndCompactify MINIMAL ?r"
    using False by (simp add: Merge_def)
  ultimately show ?thesis
    using False wf by (simp add: wf_tree_bubble wf_maps_merge tree_includes_bubble tree_includes_raw)
qed

text \<open>A tree in minimal form: excluded nodes and the namespaces of included clusters are gone.\<close>

definition minimal_cluster :: "clustersScopeSubTree \<Rightarrow> bool" where
  "minimal_cluster cl \<longleftrightarrow>
     cl_State cl \<noteq> Excluded \<and> (cl_State cl = Included \<longrightarrow> cl_Namespaces cl = None) \<and>
     list_all (\<lambda>(k, n). ns_State n \<noteq> Excluded) (namespacesOf cl)"

definition minimal_tree :: "ScopeTree \<Rightarrow> bool" where
  "minimal_tree t \<longleftrightarrow> list_all (\<lambda>(k, cl). minimal_cluster cl) (root_Clusters t)"

lemma minimal_bubbled:
  assumes wf: "wf_cluster cl" and b: "bubbled True cl = Some c"
  shows "minimal_cluster c"
proof -
  let ?c1 = "bubbleNamespaces True (namespacesOf cl) cl"
  have "ns_State n \<noteq> Excluded" if "(k, n) \<in> set (namespacesOf ?c1)" for k n
  proof -
    have "mget (namespacesOf ?c1) k = Some n"
      using that wf_bubbleNamespaces [OF wf, of True] by (simp add: wf_cluster_def)
    then show ?thesis by (auto simp: mget_bubbleNamespaces [OF wf] split: option.splits if_splits)
  qed
  with b show ?thesis
    by (auto simp: bubbled_def Let_def minimal_cluster_def list_all_iff split: if_splits)
qed

lemma minimal_tree_bubble: "wf_maps t \<Longrightarrow> minimal_tree (bubbleUpStatesAndCompactify MINIMAL t)"
proof -
  assume wf: "wf_maps t"
  let ?b = "bubbleUpStatesAndCompactify MINIMAL t"
  have "wf_map (root_Clusters ?b)"
    using wf_tree_bubble [OF wf] by (simp add: wf_tree_def wf_maps_def)
  then have "minimal_cluster c" if "(k, c) \<in> set (root_Clusters ?b)" for k c
    using that mget_bubble [OF wf, of MINIMAL k]
    by (auto simp: map_of_eq_Some_iff split: option.splits intro: minimal_bubbled wf_maps_mget [OF wf])
  then show ?thesis by (auto simp: minimal_tree_def list_all_iff)
qed

text \<open>
  The reduction of a tree, at any level of detail, keeps what the tree grants, yields a
  well-formed tree, and at minimal detail leaves no excluded node and no namespaces
  below an included cluster.
\<close>

theorem bubbleUpStatesAndCompactify_correct:
  assumes "wf_maps t" and "root_State t \<noteq> Included"
  shows "wf_tree (bubbleUpStatesAndCompactify d t) \<and>
    (\<forall>c n. tree_includes (bubbleUpStatesAndCompactify d t) c n \<longleftrightarrow> raw_includes t c n) \<and>
    minimal_tree (bubbleUpStatesAndCompactify MINIMAL t)"
  using assms by (simp add: wf_tree_bubble tree_includes_bubble minimal_tree_bubble)

definition exampleTree :: ScopeTree where
  "exampleTree =
     \<lparr>root_State = Excluded,
      root_Clusters =
        [(''a'', \<lparr>cl_State = Excluded,
                  cl_Namespaces = Some [(''n'', includedNamespaceSubTree),
                    (''m'', \<lparr>ns_State = Excluded, ns_Attributes = noAttributes\<rparr>)],
                  cl_Attributes = noAttributes\<rparr>),
         (''b'', newClusterScopeSubTree Excluded noAttributes)],
      clusterIDToName = [(''1'', ''a''), (''2'', ''b'')]\<rparr>"

lemma exampleTree_wf: "wf_maps exampleTree" "root_State exampleTree \<noteq> Included"
  by (simp_all add: exampleTree_def wf_maps_def wf_cluster_def namespacesOf_def newClusterScopeSubTree_def)

theorem bubbleUpStatesAndCompactify_correct_witness:
  "tree_includes (bubbleUpStatesAndCompactify MINIMAL exampleTree) ''a'' ''n'' \<and>
   \<not> tree_includes (bubbleUpStatesAndCompactify MINIMAL exampleTree) ''a'' ''m'' \<and>
   minimal_tree (bubbleUpStatesAndCompactify MINIMAL exampleTree)"
  using bubbleUpStatesAndCompactify_correct [OF exampleTree_wf, of MINIMAL]
  by (simp add: raw_includes_def exampleTree_def cluster_grants_def namespacesOf_def includedNamespaceSubTree_def)

text \<open>
  C19. Merging a well-formed tree into a well-formed root gives a well-formed tree that
  includes exactly what one of the two includes; merging nil changes nothing.
\<close>

theorem Merge_correct:
  assumes "wf_tree r" and "\<And>t. tr = Some t \<Longrightarrow> wf_tree t"
  shows "wf_tree (Merge r tr) \<and>
    (tree_includes (Merge r tr) c n \<longleftrightarrow>
       tree_includes r c n \<or> (case tr of Some t \<Rightarrow> tree_includes t c n | None \<Rightarrow> False))"
proof (cases tr)
  case None
  with assms show ?thesis by (simp add: Merge_def)
next
  case (Some t)
  with Merge_includes [OF assms(1) assms(2) [OF Some]] show ?thesis by simp
qed

theorem Merge_correct_witness:
  "tree_includes (Merge (bubbleUpStatesAndCompactify HIGH exampleTree)
     (Some (bubbleUpStatesAndCompactify STANDARD
        (exampleTree\<lparr>root_Clusters := [(''b'', newClusterScopeSubTree Included noAttributes)]\<rparr>)))) ''b'' ''x''"
proof -
  let ?t = "exampleTree\<lparr>root_Clusters := [(''b'', newClusterScopeSubTree Included noAttributes)]\<rparr>"
  have t: "wf_maps ?t" "root_State ?t \<noteq> Included"
    using exampleTree_wf by (simp_all add: wf_maps_def)
  have "wf_tree (bubbleUpStatesAndCompactify HIGH exampleTree)" by (rule wf_tree_bubble [OF exampleTree_wf(1)])
  moreover have "tree_includes (bubbleUpStatesAndCompactify STANDARD ?t) ''b'' ''x''"
    using t by (simp add: tree_includes_bubble raw_includes_def)
  ultimately show ?thesis
    using Merge_correct [of "bubbleUpStatesAndCompactify HIGH exampleTree"
        "Some (bubbleUpStatesAndCompactify STANDARD ?t)" "''b''" "''x''"]
    by (simp add: wf_tree_bubble t)
qed

subsection \<open>Compacted trees and trees built from identifiers\<close>

lemma mget_compactClusters:
  "wf_map es \<Longrightarrow> mget (compactClusters es m) k =
     (case mget es k of None \<Rightarrow> mget m k
      | Some c \<Rightarrow> (case compactCluster c of None \<Rightarrow> mget m k | Some v \<Rightarrow> Some v))"
proof (induction es arbitrary: m)
  case (Cons e es)
  obtain k1 c where e: "e = (k1, c)" by (cases e)
  then have "mget es k1 = None" using Cons.prems by (simp add: mget_None_iff)
  with Cons show ?case by (auto simp: e split: option.splits)
qed simp

text \<open>What a compacted tree grants: a star stands for every cluster, or every namespace.\<close>

definition compact_grants :: "(string, string list) gomap \<Rightarrow> string \<Rightarrow> string \<Rightarrow> bool" where
  "compact_grants m c n \<longleftrightarrow>
     mget m ''*'' = Some [''*''] \<or> (\<exists>nss. mget m c = Some nss \<and> (nss = [''*''] \<or> n \<in> set nss))"

lemma compactCluster_grants:
  assumes "wf_cluster cl" and "''*'' \<notin> set (mkeys (namespacesOf cl))"
  shows "(\<exists>nss. compactCluster cl = Some nss \<and> (nss = [''*''] \<or> n \<in> set nss)) \<longleftrightarrow>
     cl_State cl = Included \<or> cl_State cl = Partial \<and> cluster_grants cl n"
proof (cases "cl_State cl")
  case Partial
  let ?nss = "sort_by (<) (map fst (filter (\<lambda>(k, n). ns_State n = Included) (namespacesOf cl)))"
  have "n \<in> set ?nss \<longleftrightarrow> (\<exists>x. (n, x) \<in> set (namespacesOf cl) \<and> ns_State x = Included)"
    by force
  also have "\<dots> \<longleftrightarrow> (\<exists>x. mget (namespacesOf cl) n = Some x \<and> ns_State x = Included)"
    using assms(1) by (simp add: wf_cluster_def)
  also have "\<dots> \<longleftrightarrow> cluster_grants cl n"
    using Partial by (auto simp: cluster_grants_def split: option.splits)
  finally have "n \<in> set ?nss \<longleftrightarrow> cluster_grants cl n" .
  moreover have "''*'' \<notin> set ?nss" using assms(2) by auto
  then have "?nss \<noteq> [''*'']" by (metis list.set_intros(1))
  ultimately show ?thesis using Partial by (simp add: compactCluster_def)
qed (simp_all add: compactCluster_def)

text \<open>
  The compacted form of a well-formed tree in which no cluster or namespace is named
  \<open>*\<close> grants exactly what the tree grants, and lists namespaces in order.
\<close>

theorem Compactify_correct:
  assumes "wf_maps t" and "''*'' \<notin> set (mkeys (root_Clusters t))"
    and "\<And>k cl. (k, cl) \<in> set (root_Clusters t) \<Longrightarrow> ''*'' \<notin> set (mkeys (namespacesOf cl))"
    and "c \<noteq> ''*''"
  shows "(compact_grants (Compactify t) c n \<longleftrightarrow> tree_includes t c n) \<and>
    (\<forall>nss. mget (Compactify t) c = Some nss \<longrightarrow> sorted nss)"
proof (cases "root_State t")
  case Partial
  have "mget (root_Clusters t) ''*'' = None" using assms(2) by (simp add: mget_None_iff)
  moreover have wf: "wf_map (root_Clusters t)" using assms(1) by (simp add: wf_maps_def)
  ultimately have get: "mget (Compactify t) k =
      (case mget (root_Clusters t) k of None \<Rightarrow> None | Some cl \<Rightarrow> compactCluster cl)" for k
    using Partial by (auto simp: Compactify_def mget_compactClusters split: option.splits)
  have "sorted nss" if "compactCluster cl = Some nss" for cl nss
    using that by (auto simp: compactCluster_def sorted_sort_by_less split: scopeState.splits)
  moreover have "compact_grants (Compactify t) c n \<longleftrightarrow> tree_includes t c n"
  proof (cases "mget (root_Clusters t) c")
    case (Some cl)
    then have "''*'' \<notin> set (mkeys (namespacesOf cl))" using assms(3) mget_in_set by metis
    from compactCluster_grants [OF wf_maps_mget [OF assms(1) Some] this] Some Partial \<open>mget _ ''*'' = None\<close>
    show ?thesis by (simp add: compact_grants_def tree_includes_def get)
  qed (use Partial \<open>mget _ ''*'' = None\<close> in \<open>simp add: compact_grants_def tree_includes_def get\<close>)
  ultimately show ?thesis by (auto simp: get split: option.splits)
qed (use assms(4) in \<open>simp_all add: Compactify_def compact_grants_def tree_includes_def\<close>)

theorem Compactify_correct_witness:
  "compact_grants (Compactify (bubbleUpStatesAndCompactify MINIMAL exampleTree)) ''a'' ''n''"
proof -
  let ?t = "bubbleUpStatesAndCompactify MINIMAL exampleTree"
  have eq: "root_Clusters ?t = [(''a'', \<lparr>cl_State = Partial,
      cl_Namespaces = Some [(''n'', includedNamespaceSubTree)], cl_Attributes = noAttributes\<rparr>)]"
    by code_simp
  have "compact_grants (Compactify ?t) ''a'' ''n'' \<longleftrightarrow> tree_includes ?t ''a'' ''n''"
    by (rule Compactify_correct [THEN conjunct1])
      (use wf_tree_bubble [OF exampleTree_wf(1), of MINIMAL] in
        \<open>auto simp: eq wf_tree_def namespacesOf_def\<close>)
  then show ?thesis
    by (simp add: tree_includes_bubble exampleTree_wf)
      (simp add: raw_includes_def exampleTree_def cluster_grants_def namespacesOf_def includedNamespaceSubTree_def)
qed

definition included_namespaces_cluster :: "string list \<Rightarrow> clustersScopeSubTree" where
  "included_namespaces_cluster nss =
     \<lparr>cl_State = Partial, cl_Namespaces = Some (fold (\<lambda>n. mput n includedNamespaceSubTree) nss []),
      cl_Attributes = noAttributes\<rparr>"

lemma assignNamespaces_Some:
  "cl_Namespaces cl = Some m \<Longrightarrow> assignNamespaces nss cl =
     Some (cl\<lparr>cl_Namespaces := Some (fold (\<lambda>n. mput n includedNamespaceSubTree) nss m)\<rparr>)"
  by (induction nss arbitrary: cl m) (auto simp: assignNamespace_def)

lemma assignNamespaces_nil:
  "cl_Namespaces cl = None \<Longrightarrow> assignNamespaces nss cl = (if nss = [] then Some cl else None)"
  by (cases nss) (auto simp: assignNamespace_def)

lemma included_namespaces_cluster_grants:
  "wf_cluster (included_namespaces_cluster nss)"
  "cluster_grants (included_namespaces_cluster nss) n \<longleftrightarrow> n \<in> set nss"
  "cl_State (included_namespaces_cluster nss) = Partial"
proof -
  have "wf_map m \<Longrightarrow> wf_map (fold (\<lambda>n. mput n includedNamespaceSubTree) nss m)" for m
    by (induction nss arbitrary: m) auto
  then show "wf_cluster (included_namespaces_cluster nss)"
    by (simp add: wf_cluster_def included_namespaces_cluster_def namespacesOf_def)
  show "cluster_grants (included_namespaces_cluster nss) n \<longleftrightarrow> n \<in> set nss"
    using gomap.get_fold_put_same [of "\<lambda>x. x" includedNamespaceSubTree nss "[]" n]
    by (simp add: cluster_grants_def included_namespaces_cluster_def namespacesOf_def
        includedNamespaceSubTree_def)
qed (simp add: included_namespaces_cluster_def)

text \<open>The loop over the namespaces map of \<open>FromClustersAndNamespacesMap\<close>, on a root that holds
  only included clusters with a nil namespaces map.\<close>

definition ns_entry :: "(string \<times> string list) list \<Rightarrow> string \<Rightarrow> clustersScopeSubTree option" where
  "ns_entry es k = (case mget es k of None \<Rightarrow> None
     | Some nss \<Rightarrow> if nss = [] then None else Some (included_namespaces_cluster nss))"

definition only_included :: "ScopeTree \<Rightarrow> (string \<times> string list) list \<Rightarrow> bool" where
  "only_included r es \<longleftrightarrow> (\<forall>k c. k \<in> set (mkeys es) \<and> mget (root_Clusters r) k = Some c \<longrightarrow> c = includedClusterSubTree)"

definition conflict :: "ScopeTree \<Rightarrow> (string \<times> string list) list \<Rightarrow> bool" where
  "conflict r es \<longleftrightarrow> (\<exists>(k, nss) \<in> set es. nss \<noteq> [] \<and> mget (root_Clusters r) k \<noteq> None)"

definition add_entry :: "string \<Rightarrow> string list \<Rightarrow> ScopeTree \<Rightarrow> ScopeTree" where
  "add_entry k nss r =
     r\<lparr>clusterIDToName := mput k k (clusterIDToName r),
       root_Clusters := (case mget (root_Clusters r) k of
          Some c \<Rightarrow> mput k c (root_Clusters r)
        | None \<Rightarrow> if nss = [] then root_Clusters r
                  else mput k (included_namespaces_cluster nss) (root_Clusters r))\<rparr>"

lemma mget_add_entry:
  "mget (root_Clusters (add_entry k nss r)) k' =
     (case mget (root_Clusters r) k' of Some c \<Rightarrow> Some c
      | None \<Rightarrow> if k' = k \<and> nss \<noteq> [] then Some (included_namespaces_cluster nss) else None)"
  by (auto simp: add_entry_def simp del: map_of_eq_Some_iff split: option.splits)

lemma add_entry_simps [simp]:
  "root_State (add_entry k nss r) = root_State r"
  "clusterIDToName (add_entry k nss r) = mput k k (clusterIDToName r)"
  "wf_map (root_Clusters r) \<Longrightarrow> wf_map (root_Clusters (add_entry k nss r))"
  by (auto simp: add_entry_def split: option.splits)

lemma addIncludedNamespaces_Cons:
  assumes "only_included r ((k, nss) # es)"
  shows "addIncludedNamespaces ((k, nss) # es) r =
    (if nss \<noteq> [] \<and> mget (root_Clusters r) k \<noteq> None then None else addIncludedNamespaces es (add_entry k nss r))"
proof (cases "mget (root_Clusters r) k")
  case None
  then show ?thesis
    by (simp add: Let_def add_entry_def included_namespaces_cluster_def assignNamespaces_Some)
next
  case (Some c)
  then have "c = includedClusterSubTree"
    using assms by (auto simp: only_included_def)
  then have "cl_Namespaces c = None" by (simp add: includedClusterSubTree_def)
  with Some show ?thesis by (simp add: Let_def add_entry_def assignNamespaces_nil)
qed

lemma add_entry_fresh:
  assumes "k \<notin> set (mkeys es)"
  shows "only_included r ((k, nss) # es) \<Longrightarrow> only_included (add_entry k nss r) es"
    and "conflict (add_entry k nss r) es = conflict r es"
proof -
  have same: "mget (root_Clusters (add_entry k nss r)) k1 = mget (root_Clusters r) k1" if "k1 \<in> set (mkeys es)" for k1
    using assms that by (auto simp: mget_add_entry split: option.splits)
  then show "only_included r ((k, nss) # es) \<Longrightarrow> only_included (add_entry k nss r) es"
    unfolding only_included_def by (metis insertCI list.set(2) list.simps(9) fst_conv)
  show "conflict (add_entry k nss r) es = conflict r es"
    unfolding conflict_def by (intro bex_cong refl) (auto simp: same image_iff rev_bexI simp del: not_None_eq)
qed

lemma addIncludedNamespaces_spec:
  assumes "wf_map es" and "only_included r es"
  shows "(conflict r es \<longrightarrow> addIncludedNamespaces es r = None) \<and>
    (\<not> conflict r es \<longrightarrow> (\<exists>t. addIncludedNamespaces es r = Some t \<and> root_State t = root_State r \<and>
      clusterIDToName t = fold (\<lambda>e. mput (fst e) (fst e)) es (clusterIDToName r) \<and>
      (wf_map (root_Clusters r) \<longrightarrow> wf_map (root_Clusters t)) \<and>
      (\<forall>k. mget (root_Clusters t) k =
        (case mget (root_Clusters r) k of Some c \<Rightarrow> Some c | None \<Rightarrow> ns_entry es k))))"
  using assms
proof (induction es arbitrary: r)
  case Nil
  then show ?case by (simp add: conflict_def ns_entry_def split: option.splits)
next
  case (Cons e es)
  obtain k nss where e: "e = (k, nss)" by (cases e)
  have k: "k \<notin> set (mkeys es)" "mget es k = None" using Cons.prems(1) by (simp_all add: e mget_None_iff)
  have conf: "conflict r (e # es) \<longleftrightarrow> nss \<noteq> [] \<and> mget (root_Clusters r) k \<noteq> None \<or> conflict r es"
    by (simp add: conflict_def e)
  note step = addIncludedNamespaces_Cons [OF Cons.prems(2) [unfolded e], folded e]
  let ?r = "add_entry k nss r"
  have IH: "(conflict r es \<longrightarrow> addIncludedNamespaces es ?r = None) \<and>
    (\<not> conflict r es \<longrightarrow> (\<exists>t. addIncludedNamespaces es ?r = Some t \<and> root_State t = root_State r \<and>
      clusterIDToName t = fold (\<lambda>e. mput (fst e) (fst e)) (e # es) (clusterIDToName r) \<and>
      (wf_map (root_Clusters r) \<longrightarrow> wf_map (root_Clusters t)) \<and>
      (\<forall>k. mget (root_Clusters t) k =
        (case mget (root_Clusters ?r) k of Some c \<Rightarrow> Some c | None \<Rightarrow> ns_entry es k))))"
    using Cons.IH [of ?r, unfolded add_entry_fresh(2) [OF k(1)]] Cons.prems add_entry_fresh(1) [OF k(1)]
    by (cases "conflict r es") (force simp: e)+
  have entry: "(case mget (root_Clusters ?r) k1 of Some c \<Rightarrow> Some c | None \<Rightarrow> ns_entry es k1) =
      (case mget (root_Clusters r) k1 of Some c \<Rightarrow> Some c | None \<Rightarrow> ns_entry (e # es) k1)" for k1
    by (auto simp: mget_add_entry ns_entry_def e k simp del: map_of_eq_Some_iff split: option.splits)
  show ?case
    unfolding conf step using IH [unfolded entry] by (cases "conflict r es"; cases "nss = []") simp_all
qed

lemma mget_fold_put_self: "mget (fold (\<lambda>c. mput (f c) (f c)) xs m) k =
    (if k \<in> f ` set xs then Some k else mget m k)"
  by (induction xs arbitrary: m) auto

lemma wf_fold_put: "wf_map m \<Longrightarrow> wf_map (fold (\<lambda>c. mput (f c) (g c)) xs m)"
  by (induction xs arbitrary: m) auto

lemma FromClustersAndNamespacesMap_spec:
  assumes "wf_map nsm"
  shows "(FromClustersAndNamespacesMap cs nsm = None \<longleftrightarrow>
            (\<exists>c nss. c \<in> set cs \<and> mget nsm c = Some nss \<and> nss \<noteq> [])) \<and>
    (\<forall>t. FromClustersAndNamespacesMap cs nsm = Some t \<longrightarrow> wf_tree t \<and>
       (\<forall>c n. tree_includes t c n \<longleftrightarrow> c \<in> set cs \<or> (\<exists>nss. mget nsm c = Some nss \<and> n \<in> set nss)) \<and>
       set (GetClusterIDs t) = set cs \<union> set (mkeys nsm) \<and>
       (\<forall>c \<in> set (GetClusterIDs t). GetClusterByID t c = mget (root_Clusters t) c))"
proof (cases "cs = [] \<and> nsm = []")
  case True
  then show ?thesis
    by (simp add: FromClustersAndNamespacesMap_def wf_tree_DenyAll tree_includes_DenyAll)
      (simp add: DenyAllEffectiveAccessScope_def newEffectiveAccessScopeTree_def GetClusterIDs_def)
next
  case False
  define r where "r = \<lparr>root_State = Partial, root_Clusters = fold (\<lambda>c. mput c includedClusterSubTree) cs [],
             clusterIDToName = fold (\<lambda>c. mput c c) cs []\<rparr>"
  have F: "FromClustersAndNamespacesMap cs nsm = addIncludedNamespaces nsm r"
    using False by (auto simp: FromClustersAndNamespacesMap_def r_def)
  have r: "mget (root_Clusters r) k = (if k \<in> set cs then Some includedClusterSubTree else None)" for k
    using gomap.get_fold_put_same [of "\<lambda>x. x" includedClusterSubTree cs "[]" k] by (simp add: r_def)
  have r_id: "mget (clusterIDToName r) k = (if k \<in> set cs then Some k else None)" for k
    using mget_fold_put_self [of "\<lambda>x. x" cs "[]" k] by (simp add: r_def)
  have wfr: "wf_map (root_Clusters r)" "wf_map (clusterIDToName r)" "root_State r = Partial"
    using wf_fold_put [of "[]" "\<lambda>x. x"] by (simp_all add: r_def)
  have bad: "conflict r nsm \<longleftrightarrow> (\<exists>c nss. c \<in> set cs \<and> mget nsm c = Some nss \<and> nss \<noteq> [])"
    unfolding conflict_def r using assms by (auto split: if_splits)
  have "only_included r nsm" by (simp add: only_included_def r)
  note spec = addIncludedNamespaces_spec [of nsm r, OF assms this, unfolded bad]
  have "wf_tree t \<and>
       (\<forall>c n. tree_includes t c n \<longleftrightarrow> c \<in> set cs \<or> (\<exists>nss. mget nsm c = Some nss \<and> n \<in> set nss)) \<and>
       set (GetClusterIDs t) = set cs \<union> set (mkeys nsm) \<and>
       (\<forall>c \<in> set (GetClusterIDs t). GetClusterByID t c = mget (root_Clusters t) c)"
    if t: "addIncludedNamespaces nsm r = Some t" for t
  proof -
    have st: "root_State t = Partial" and ids: "clusterIDToName t = fold (\<lambda>e. mput (fst e) (fst e)) nsm (clusterIDToName r)"
      and wft: "wf_map (root_Clusters t)"
      and get: "\<And>k. mget (root_Clusters t) k = (if k \<in> set cs then Some includedClusterSubTree else ns_entry nsm k)"
      using spec t wfr r by (cases "\<exists>c nss. c \<in> set cs \<and> mget nsm c = Some nss \<and> nss \<noteq> []"; simp)+
    have id: "mget (clusterIDToName t) k = (if k \<in> set cs \<union> set (mkeys nsm) then Some k else None)" for k
      unfolding ids by (simp add: mget_fold_put_self r_id)
    have IDs: "set (GetClusterIDs t) = set cs \<union> set (mkeys nsm)"
    proof -
      have "k \<in> set (GetClusterIDs t) \<longleftrightarrow> mget (clusterIDToName t) k \<noteq> None" for k
        by (simp add: GetClusterIDs_def mget_None_iff)
      then have "k \<in> set (GetClusterIDs t) \<longleftrightarrow> k \<in> set cs \<union> set (mkeys nsm)" for k
        unfolding id by simp
      then show ?thesis by blast
    qed
    have "wf_cluster c \<and> settled_cluster c" if "(k, c) \<in> set (root_Clusters t)" for k c
    proof -
      have "mget (root_Clusters t) k = Some c" using that wft by simp
      then have "c = includedClusterSubTree \<or> (\<exists>nss. c = included_namespaces_cluster nss)"
        by (auto simp: get ns_entry_def split: if_splits option.splits)
      then show ?thesis
        by (auto simp: included_namespaces_cluster_grants settled_cluster_def)
          (simp_all add: includedClusterSubTree_def wf_cluster_def namespacesOf_def)
    qed
    moreover have "wf_map (clusterIDToName t)" unfolding ids by (rule wf_fold_put [OF wfr(2)])
    ultimately have "wf_tree t" using wft st by (auto simp: wf_tree_def wf_maps_def list_all_iff)
    moreover have "tree_includes t c n \<longleftrightarrow> c \<in> set cs \<or> (\<exists>nss. mget nsm c = Some nss \<and> n \<in> set nss)" for c n
      by (auto simp: tree_includes_def st get ns_entry_def included_namespaces_cluster_grants
          includedClusterSubTree_def simp del: map_of_eq_Some_iff split: option.splits)
    ultimately show ?thesis
      by (simp add: IDs GetClusterByID_def mget_str_def id)
  qed
  moreover have "addIncludedNamespaces nsm r = None \<longleftrightarrow>
      (\<exists>c nss. c \<in> set cs \<and> mget nsm c = Some nss \<and> nss \<noteq> [])"
    using spec by (metis option.distinct(1))
  ultimately show ?thesis unfolding F by blast
qed

text \<open>
  A tree built from cluster identifiers and a map of namespaces includes exactly the
  listed clusters and (cluster, namespace) pairs, is well-formed, and finds each of its
  clusters by its identifier; the construction panics exactly when a listed cluster also
  has namespaces of its own in the map.
\<close>

theorem FromClustersAndNamespacesMap_correct:
  assumes "wf_map nsm"
  shows "(FromClustersAndNamespacesMap cs nsm = None \<longleftrightarrow>
            (\<exists>c nss. c \<in> set cs \<and> mget nsm c = Some nss \<and> nss \<noteq> [])) \<and>
    (\<forall>t. FromClustersAndNamespacesMap cs nsm = Some t \<longrightarrow> wf_tree t \<and>
       (\<forall>c n. tree_includes t c n \<longleftrightarrow> c \<in> set cs \<or> (\<exists>nss. mget nsm c = Some nss \<and> n \<in> set nss)) \<and>
       set (GetClusterIDs t) = set cs \<union> set (mkeys nsm) \<and>
       (\<forall>c \<in> set (GetClusterIDs t). GetClusterByID t c = mget (root_Clusters t) c))"
  using assms by (rule FromClustersAndNamespacesMap_spec)

theorem FromClustersAndNamespacesMap_correct_witness:
  "(\<exists>t. FromClustersAndNamespacesMap [''c1''] [(''c2'', [''web''])] = Some t \<and>
        tree_includes t ''c1'' ''any'' \<and> tree_includes t ''c2'' ''web'' \<and> \<not> tree_includes t ''c2'' ''db'') \<and>
   FromClustersAndNamespacesMap [''c1''] [(''c1'', [''web''])] = None"
  using FromClustersAndNamespacesMap_correct [of "[(''c2'', [''web''])]" "[''c1'']"]
    FromClustersAndNamespacesMap_correct [of "[(''c1'', [''web''])]" "[''c1'']"]
  by (cases "FromClustersAndNamespacesMap [''c1''] [(''c2'', [''web''])]") auto

end
