(* ===== verification/Scope_Checkers.thy ===== *)
theory Scope_Checkers
  imports Sac_Permissions Effective_Access_Scope
begin

text \<open>
  Scope checkers of \<open>pkg/sac\<close>: scope keys and predicates (\<open>scope_key.go\<close>), the client side
  \<open>ScopeChecker\<close> with its disjunction (\<open>scope_checker.go\<close>, \<open>scope_checker_or.go\<close>), the
  helpers built on it (\<open>filter.go\<close>, \<open>for_resource_helpers.go\<close>,
  \<open>for_resources_helpers.go\<close>, \<open>context.go\<close>, \<open>utils.go\<close>), and the cores
  \<open>uniformScopeCheckerCore\<close> and \<open>allowedFixedScopesCheckerCore\<close>.

  The Go interface \<open>ScopeCheckerCore\<close> is a record of functions. An implementation may keep
  shared mutable state (the cache of the built-in authorizer), so the functions that can
  touch it take and return a state. \<open>None\<close> is a crash of the process, which \<open>utils.Must\<close>
  causes on a misuse of a checker. The contract of the interface is the locale
  \<open>scope_checker_core\<close>.
\<close>

subsection \<open>Scope keys\<close>

datatype ScopeKey =
    AccessModeScopeKey Access
  | ResourceScopeKey string
  | ClusterScopeKey string
  | NamespaceScopeKey string

text \<open>\<open>ScopeKind\<close> is an enumeration by \<open>iota\<close>; the code adds one to go one level down.\<close>

definition GlobalScopeKind :: nat where "GlobalScopeKind = 0"
definition AccessModeScopeKind :: nat where "AccessModeScopeKind = 1"
definition ResourceScopeKind :: nat where "ResourceScopeKind = 2"
definition ClusterScopeKind :: nat where "ClusterScopeKind = 3"
definition NamespaceScopeKind :: nat where "NamespaceScopeKind = 4"

lemmas scope_kind_defs = GlobalScopeKind_def AccessModeScopeKind_def ResourceScopeKind_def
  ClusterScopeKind_def NamespaceScopeKind_def

fun scopeKindOf :: "ScopeKey \<Rightarrow> nat" where
  "scopeKindOf (AccessModeScopeKey _) = AccessModeScopeKind"
| "scopeKindOf (ResourceScopeKey _) = ResourceScopeKind"
| "scopeKindOf (ClusterScopeKey _) = ClusterScopeKind"
| "scopeKindOf (NamespaceScopeKey _) = NamespaceScopeKind"

fun accessVerb :: "Access \<Rightarrow> string" where
  "accessVerb READ_ACCESS = ''view''"
| "accessVerb READ_WRITE_ACCESS = ''edit''"
| "accessVerb NO_ACCESS = []"

definition AccessModeScopeKeys :: "Access list \<Rightarrow> ScopeKey list" where
  "AccessModeScopeKeys ams = map AccessModeScopeKey ams"

definition ResourceScopeKeys :: "resourceMetadata list \<Rightarrow> ScopeKey list" where
  "ResourceScopeKeys rs =
     concat (map (\<lambda>r. ResourceScopeKey (md_resource r) #
       (case GetReplacingResource r of Some x \<Rightarrow> [ResourceScopeKey x] | None \<Rightarrow> [])) rs)"

definition ClusterScopeKeys :: "string list \<Rightarrow> ScopeKey list" where
  "ClusterScopeKeys ids = map ClusterScopeKey ids"

definition NamespaceScopeKeys :: "string list \<Rightarrow> ScopeKey list" where
  "NamespaceScopeKeys nss = map NamespaceScopeKey nss"

definition KeyForNSScopedObj :: "string \<Rightarrow> string \<Rightarrow> ScopeKey list" where
  "KeyForNSScopedObj clusterID ns = [ClusterScopeKey clusterID, NamespaceScopeKey ns]"

definition GlobalScopeKey :: "ScopeKey list" where
  "GlobalScopeKey = []"

subsection \<open>The core interface\<close>

datatype sacError = SacError string | SacPanic | SacErrors "sacError list"

record ('c, 's) coreOps =
  coreSub :: "'c \<Rightarrow> ScopeKey \<Rightarrow> 'c option"
  coreAllowed :: "'c \<Rightarrow> 's \<Rightarrow> bool \<times> 's"
  coreEAS :: "'c \<Rightarrow> resourceWithAccess \<Rightarrow> 's \<Rightarrow> (sacError + ScopeTree) \<times> 's"

text \<open>A scope checker wraps a core, or combines checkers by disjunction.\<close>

datatype 'c ScopeChecker = NewScopeChecker 'c | NewOrScopeChecker "'c ScopeChecker list"

fun subCore :: "('c, 's) coreOps \<Rightarrow> ScopeKey list \<Rightarrow> 'c \<Rightarrow> 'c option" where
  "subCore ops [] c = Some c"
| "subCore ops (k # ks) c = (case coreSub ops c k of None \<Rightarrow> None | Some c1 \<Rightarrow> subCore ops ks c1)"

fun SubScopeChecker :: "('c, 's) coreOps \<Rightarrow> ScopeKey list \<Rightarrow> 'c ScopeChecker \<Rightarrow> 'c ScopeChecker option"
  and SubScopeCheckers :: "('c, 's) coreOps \<Rightarrow> ScopeKey list \<Rightarrow> 'c ScopeChecker list \<Rightarrow> 'c ScopeChecker list option"
where
  "SubScopeChecker ops ks (NewScopeChecker c) = map_option NewScopeChecker (subCore ops ks c)"
| "SubScopeChecker ops ks (NewOrScopeChecker cs) = map_option NewOrScopeChecker (SubScopeCheckers ops ks cs)"
| "SubScopeCheckers ops ks [] = Some []"
| "SubScopeCheckers ops ks (c # cs) =
     (case SubScopeChecker ops ks c of None \<Rightarrow> None
      | Some c1 \<Rightarrow> map_option (Cons c1) (SubScopeCheckers ops ks cs))"

fun IsAllowed :: "('c, 's) coreOps \<Rightarrow> ScopeKey list \<Rightarrow> 'c ScopeChecker \<Rightarrow> 's \<Rightarrow> (bool \<times> 's) option"
  and IsAllowedAny :: "('c, 's) coreOps \<Rightarrow> ScopeKey list \<Rightarrow> 'c ScopeChecker list \<Rightarrow> 's \<Rightarrow> (bool \<times> 's) option"
where
  "IsAllowed ops ks (NewScopeChecker c) s = map_option (\<lambda>c1. coreAllowed ops c1 s) (subCore ops ks c)"
| "IsAllowed ops ks (NewOrScopeChecker cs) s = IsAllowedAny ops ks cs s"
| "IsAllowedAny ops ks [] s = Some (False, s)"
| "IsAllowedAny ops ks (c # cs) s =
     (case IsAllowed ops ks c s of None \<Rightarrow> None
      | Some (b, s1) \<Rightarrow> if b then Some (True, s1) else IsAllowedAny ops ks cs s1)"

text \<open>The loop of \<open>scopeChecker.AllAllowed\<close>, and its disjunction.\<close>

fun allAllowedCore :: "('c, 's) coreOps \<Rightarrow> ScopeKey list list \<Rightarrow> 'c \<Rightarrow> 's \<Rightarrow> (bool \<times> 's) option" where
  "allAllowedCore ops [] c s = Some (True, s)"
| "allAllowedCore ops (ks # kss) c s =
     (case IsAllowed ops ks (NewScopeChecker c) s of None \<Rightarrow> None
      | Some (b, s1) \<Rightarrow> if \<not> b then Some (False, s1) else allAllowedCore ops kss c s1)"

fun AllAllowed :: "('c, 's) coreOps \<Rightarrow> ScopeKey list list \<Rightarrow> 'c ScopeChecker \<Rightarrow> 's \<Rightarrow> (bool \<times> 's) option"
  and AllAllowedAny :: "('c, 's) coreOps \<Rightarrow> ScopeKey list list \<Rightarrow> 'c ScopeChecker list \<Rightarrow> 's \<Rightarrow> (bool \<times> 's) option"
where
  "AllAllowed ops kss (NewScopeChecker c) s = allAllowedCore ops kss c s"
| "AllAllowed ops kss (NewOrScopeChecker cs) s = AllAllowedAny ops kss cs s"
| "AllAllowedAny ops kss [] s = Some (False, s)"
| "AllAllowedAny ops kss (c # cs) s =
     (case AllAllowed ops kss c s of None \<Rightarrow> None
      | Some (b, s1) \<Rightarrow> if b then Some (True, s1) else AllAllowedAny ops kss cs s1)"

definition ForClusterScopedObject :: "('c, 's) coreOps \<Rightarrow> string \<Rightarrow> 'c ScopeChecker \<Rightarrow> 'c ScopeChecker option" where
  "ForClusterScopedObject ops clusterID c = SubScopeChecker ops [ClusterScopeKey clusterID] c"

definition ForNamespaceScopedObject ::
  "('c, 's) coreOps \<Rightarrow> string \<Rightarrow> string \<Rightarrow> 'c ScopeChecker \<Rightarrow> 'c ScopeChecker option" where
  "ForNamespaceScopedObject ops clusterID ns c =
     SubScopeChecker ops [ClusterScopeKey clusterID, NamespaceScopeKey ns] c"

definition AccessMode :: "('c, 's) coreOps \<Rightarrow> Access \<Rightarrow> 'c ScopeChecker \<Rightarrow> 'c ScopeChecker option" where
  "AccessMode ops am c = SubScopeChecker ops [AccessModeScopeKey am] c"

definition ResourceChecker :: "('c, 's) coreOps \<Rightarrow> resourceMetadata \<Rightarrow> 'c ScopeChecker \<Rightarrow> 'c ScopeChecker option" where
  "ResourceChecker ops r c = SubScopeChecker ops [ResourceScopeKey (md_resource r)] c"

definition ClusterIDChecker :: "('c, 's) coreOps \<Rightarrow> string \<Rightarrow> 'c ScopeChecker \<Rightarrow> 'c ScopeChecker option" where
  "ClusterIDChecker ops clusterID c = SubScopeChecker ops [ClusterScopeKey clusterID] c"

definition NamespaceChecker :: "('c, 's) coreOps \<Rightarrow> string \<Rightarrow> 'c ScopeChecker \<Rightarrow> 'c ScopeChecker option" where
  "NamespaceChecker ops ns c = SubScopeChecker ops [NamespaceScopeKey ns] c"

text \<open>Predicates over scopes.\<close>

datatype ScopePredicate =
    ScopeSuffix "ScopeKey list"
  | AnyScope "ScopePredicate list"
  | AllScopes "ScopePredicate list"

fun predAllowed :: "('c, 's) coreOps \<Rightarrow> ScopePredicate \<Rightarrow> 'c ScopeChecker \<Rightarrow> 's \<Rightarrow> (bool \<times> 's) option"
  and anyPredAllowed :: "('c, 's) coreOps \<Rightarrow> ScopePredicate list \<Rightarrow> 'c ScopeChecker \<Rightarrow> 's \<Rightarrow> (bool \<times> 's) option"
  and allPredAllowed :: "('c, 's) coreOps \<Rightarrow> ScopePredicate list \<Rightarrow> 'c ScopeChecker \<Rightarrow> 's \<Rightarrow> (bool \<times> 's) option"
where
  "predAllowed ops (ScopeSuffix ks) sc s = IsAllowed ops ks sc s"
| "predAllowed ops (AnyScope ps) sc s = anyPredAllowed ops ps sc s"
| "predAllowed ops (AllScopes ps) sc s = allPredAllowed ops ps sc s"
| "anyPredAllowed ops [] sc s = Some (False, s)"
| "anyPredAllowed ops (p # ps) sc s =
     (case predAllowed ops p sc s of None \<Rightarrow> None
      | Some (b, s1) \<Rightarrow> if b then Some (True, s1) else anyPredAllowed ops ps sc s1)"
| "allPredAllowed ops [] sc s = Some (True, s)"
| "allPredAllowed ops (p # ps) sc s =
     (case predAllowed ops p sc s of None \<Rightarrow> None
      | Some (b, s1) \<Rightarrow> if \<not> b then Some (False, s1) else allPredAllowed ops ps sc s1)"

text \<open>\<open>Check\<close> on a disjunction asks every checker for the whole predicate. No checker returns
  an error there.\<close>

fun Check :: "('c, 's) coreOps \<Rightarrow> ScopePredicate \<Rightarrow> 'c ScopeChecker \<Rightarrow> 's \<Rightarrow> (bool \<times> 's) option"
  and CheckAny :: "('c, 's) coreOps \<Rightarrow> ScopePredicate \<Rightarrow> 'c ScopeChecker list \<Rightarrow> 's \<Rightarrow> (bool \<times> 's) option"
where
  "Check ops p (NewScopeChecker c) s = predAllowed ops p (NewScopeChecker c) s"
| "Check ops p (NewOrScopeChecker cs) s = CheckAny ops p cs s"
| "CheckAny ops p [] s = Some (False, s)"
| "CheckAny ops p (c # cs) s =
     (case Check ops p c s of None \<Rightarrow> None
      | Some (b, s1) \<Rightarrow> if b then Some (True, s1) else CheckAny ops p cs s1)"

fun EffectiveAccessScope ::
    "('c, 's) coreOps \<Rightarrow> resourceWithAccess \<Rightarrow> 'c ScopeChecker \<Rightarrow> 's \<Rightarrow> (sacError + ScopeTree) \<times> 's"
  and mergeEffectiveAccessScopes ::
    "('c, 's) coreOps \<Rightarrow> resourceWithAccess \<Rightarrow> 'c ScopeChecker list \<Rightarrow> ScopeTree \<Rightarrow> sacError list \<Rightarrow> 's
       \<Rightarrow> (sacError + ScopeTree) \<times> 's"
where
  "EffectiveAccessScope ops r (NewScopeChecker c) s = coreEAS ops c r s"
| "EffectiveAccessScope ops r (NewOrScopeChecker cs) s =
     mergeEffectiveAccessScopes ops r cs DenyAllEffectiveAccessScope [] s"
| "mergeEffectiveAccessScopes ops r [] root errs s =
     (if errs \<noteq> [] then Inl (SacErrors errs) else Inr root, s)"
| "mergeEffectiveAccessScopes ops r (c # cs) root errs s =
     (case EffectiveAccessScope ops r c s of
        (Inl e, s1) \<Rightarrow> mergeEffectiveAccessScopes ops r cs root (errs @ [e]) s1
      | (Inr t, s1) \<Rightarrow> mergeEffectiveAccessScopes ops r cs (Merge root (Some t)) errs s1)"

subsection \<open>Filtering and resource helpers\<close>

fun filterSliceLoop ::
  "('c, 's) coreOps \<Rightarrow> 'c ScopeChecker \<Rightarrow> ('a \<Rightarrow> ScopePredicate) \<Rightarrow> 'a list \<Rightarrow> 's \<Rightarrow> ('a list \<times> 's) option" where
  "filterSliceLoop ops sc f [] s = Some ([], s)"
| "filterSliceLoop ops sc f (obj # objs) s =
     (case predAllowed ops (f obj) sc s of None \<Rightarrow> None
      | Some (b, s1) \<Rightarrow>
          (case filterSliceLoop ops sc f objs s1 of None \<Rightarrow> None
           | Some (rest, s2) \<Rightarrow> Some (if b then obj # rest else rest, s2)))"

definition FilterSlice ::
  "('c, 's) coreOps \<Rightarrow> 'c ScopeChecker \<Rightarrow> 'a list \<Rightarrow> ('a \<Rightarrow> ScopePredicate) \<Rightarrow> 's \<Rightarrow> ('a list \<times> 's) option" where
  "FilterSlice ops sc objSlice f s =
     (case IsAllowed ops [] sc s of None \<Rightarrow> None
      | Some (b, s1) \<Rightarrow> if b then Some (objSlice, s1) else filterSliceLoop ops sc f objSlice s1)"

definition FilterMap ::
  "('c, 's) coreOps \<Rightarrow> 'c ScopeChecker \<Rightarrow> ('k, 'v) gomap \<Rightarrow> ('k \<Rightarrow> 'v \<Rightarrow> ScopePredicate) \<Rightarrow> 's
     \<Rightarrow> (('k, 'v) gomap \<times> 's) option" where
  "FilterMap ops sc objMap f s = FilterSlice ops sc objMap (\<lambda>(k, v). f k v) s"

definition VerifyAuthzOK :: "bool \<Rightarrow> sacError option \<Rightarrow> sacError option" where
  "VerifyAuthzOK ok err =
     (case err of Some e \<Rightarrow> Some e
      | None \<Rightarrow> if \<not> ok then Some (SacError ''access to resource denied'') else None)"

text \<open>The context holds the core of the current principal, if any. Without one,
  \<open>GlobalAccessScopeChecker\<close> crashes.\<close>

type_synonym 'c ctx = "'c option"

definition GlobalAccessScopeChecker :: "'c ctx \<Rightarrow> 'c ScopeChecker option" where
  "GlobalAccessScopeChecker ctx = map_option NewScopeChecker ctx"

definition WithGlobalAccessScopeChecker :: "'c ctx \<Rightarrow> 'c \<Rightarrow> 'c ctx" where
  "WithGlobalAccessScopeChecker ctx core = Some core"

definition CopyAccessScopeCheckerCore :: "'c ctx \<Rightarrow> 'c ctx \<Rightarrow> 'c ctx" where
  "CopyAccessScopeCheckerCore to from =
     (case from of None \<Rightarrow> to | Some core \<Rightarrow> WithGlobalAccessScopeChecker to core)"

definition resourceScopeChecker ::
  "('c, 's) coreOps \<Rightarrow> 'c ctx \<Rightarrow> Access \<Rightarrow> resourceMetadata \<Rightarrow> ScopeKey list \<Rightarrow> 'c ScopeChecker option" where
  "resourceScopeChecker ops ctx am md keys =
     Option.bind (GlobalAccessScopeChecker ctx) (\<lambda>g.
     Option.bind (AccessMode ops am g) (\<lambda>a.
     Option.bind (ResourceChecker ops md a) (SubScopeChecker ops keys)))"

definition ForResourceScopeChecker ::
  "('c, 's) coreOps \<Rightarrow> resourceMetadata \<Rightarrow> 'c ctx \<Rightarrow> Access \<Rightarrow> ScopeKey list \<Rightarrow> 'c ScopeChecker option" where
  "ForResourceScopeChecker ops md ctx am keys =
     Option.bind (resourceScopeChecker ops ctx am md keys) (\<lambda>rsc.
       case md_replacing md of
         None \<Rightarrow> Some rsc
       | Some r \<Rightarrow> map_option (\<lambda>rsc2. NewOrScopeChecker [rsc, rsc2]) (resourceScopeChecker ops ctx am r keys))"

definition AccessAllowed ::
  "('c, 's) coreOps \<Rightarrow> resourceMetadata \<Rightarrow> 'c ctx \<Rightarrow> Access \<Rightarrow> ScopeKey list \<Rightarrow> 's \<Rightarrow> (bool \<times> 's) option" where
  "AccessAllowed ops md ctx am keys s =
     Option.bind (ForResourceScopeChecker ops md ctx am keys) (\<lambda>sc. IsAllowed ops [] sc s)"

definition ReadAllowed ::
  "('c, 's) coreOps \<Rightarrow> resourceMetadata \<Rightarrow> 'c ctx \<Rightarrow> ScopeKey list \<Rightarrow> 's \<Rightarrow> (bool \<times> 's) option" where
  "ReadAllowed ops md ctx keys s = AccessAllowed ops md ctx READ_ACCESS keys s"

definition WriteAllowed ::
  "('c, 's) coreOps \<Rightarrow> resourceMetadata \<Rightarrow> 'c ctx \<Rightarrow> ScopeKey list \<Rightarrow> 's \<Rightarrow> (bool \<times> 's) option" where
  "WriteAllowed ops md ctx keys s = AccessAllowed ops md ctx READ_WRITE_ACCESS keys s"

fun AccessAllowedToAny ::
  "('c, 's) coreOps \<Rightarrow> resourceMetadata list \<Rightarrow> 'c ctx \<Rightarrow> Access \<Rightarrow> ScopeKey list \<Rightarrow> 's \<Rightarrow> (bool \<times> 's) option" where
  "AccessAllowedToAny ops [] ctx am keys s = Some (False, s)"
| "AccessAllowedToAny ops (md # mds) ctx am keys s =
     (case AccessAllowed ops md ctx am keys s of None \<Rightarrow> None
      | Some (b, s1) \<Rightarrow> if b then Some (True, s1) else AccessAllowedToAny ops mds ctx am keys s1)"

fun AccessAllowedToAll ::
  "('c, 's) coreOps \<Rightarrow> resourceMetadata list \<Rightarrow> 'c ctx \<Rightarrow> Access \<Rightarrow> ScopeKey list \<Rightarrow> 's \<Rightarrow> (bool \<times> 's) option" where
  "AccessAllowedToAll ops [] ctx am keys s = Some (True, s)"
| "AccessAllowedToAll ops (md # mds) ctx am keys s =
     (case AccessAllowed ops md ctx am keys s of None \<Rightarrow> None
      | Some (b, s1) \<Rightarrow> if \<not> b then Some (False, s1) else AccessAllowedToAll ops mds ctx am keys s1)"

text \<open>The loop of \<open>FilterAccessibleNamespaces\<close>; a namespace is its cluster ID and its name.\<close>

definition namespaceAccessible :: "resourceMetadata \<Rightarrow> ScopeTree \<Rightarrow> string \<times> string \<Rightarrow> bool" where
  "namespaceAccessible md tree ns =
     (case GetClusterByID tree (fst ns) of
        None \<Rightarrow> False
      | Some clusterSubTree \<Rightarrow>
          if cl_State clusterSubTree = Excluded then False
          else if md_scope md = ClusterScope \<or> cl_State clusterSubTree = Included then True
          else (case mget (namespacesOf clusterSubTree) (snd ns) of
                  None \<Rightarrow> False
                | Some n \<Rightarrow> ns_State n \<noteq> Excluded))"

definition FilterAccessibleNamespaces ::
  "('c, 's) coreOps \<Rightarrow> resourceMetadata \<Rightarrow> 'c ctx \<Rightarrow> Access \<Rightarrow> (string \<times> string) list \<Rightarrow> 's
     \<Rightarrow> ((sacError + (string \<times> string) list) \<times> 's) option" where
  "FilterAccessibleNamespaces ops md ctx accessMode namespaces s =
     (case AccessAllowed ops md ctx accessMode [] s of None \<Rightarrow> None
      | Some (hasGlobalAccess, s1) \<Rightarrow>
          if hasGlobalAccess then Some (Inr namespaces, s1)
          else (case ForResourceScopeChecker ops md ctx accessMode [] of None \<Rightarrow> None
                | Some sc \<Rightarrow>
                    (case EffectiveAccessScope ops \<lparr>rwa_resource = md, rwa_access = accessMode\<rparr> sc s1 of
                       (Inl err, s2) \<Rightarrow> Some (Inl err, s2)
                     | (Inr tree, s2) \<Rightarrow>
                         if root_State tree = Included then Some (Inr namespaces, s2)
                         else Some (Inr (filter (namespaceAccessible md tree) namespaces), s2))))"

subsection \<open>Uniform and fixed-scope cores\<close>

record allowedFixedScopesCheckerCore =
  checkerLevel :: nat
  accessKeys :: "Access goset"
  resourceKeys :: "string goset"
  clusterKeys :: "string goset"
  namespaceKeys :: "string goset"
  accessLevel :: Access
  targetResource :: string
  targetCluster :: string
  targetNamespace :: string

datatype basicCore = Uniform bool | Fixed allowedFixedScopesCheckerCore

abbreviation denyAllScopeCheckerCore :: basicCore where
  "denyAllScopeCheckerCore \<equiv> Uniform False"

definition allowsClusterLevelAccess :: "allowedFixedScopesCheckerCore \<Rightarrow> bool" where
  "allowsClusterLevelAccess c = (setCardinality (namespaceKeys c) = 0)"

definition allowsResourceLevelAccess :: "allowedFixedScopesCheckerCore \<Rightarrow> bool" where
  "allowsResourceLevelAccess c = (setCardinality (clusterKeys c) = 0 \<and> allowsClusterLevelAccess c)"

definition allowsAccessModeLevelAccess :: "allowedFixedScopesCheckerCore \<Rightarrow> bool" where
  "allowsAccessModeLevelAccess c = (setCardinality (resourceKeys c) = 0 \<and> allowsResourceLevelAccess c)"

definition allowsGlobalAccess :: "allowedFixedScopesCheckerCore \<Rightarrow> bool" where
  "allowsGlobalAccess c = (setCardinality (accessKeys c) = 0 \<and> allowsAccessModeLevelAccess c)"

text \<open>\<open>subScopeCheckerBuilder\<close>: a copy of the checker one level down.\<close>

definition subScopeCheckerBuilder :: "allowedFixedScopesCheckerCore \<Rightarrow> allowedFixedScopesCheckerCore" where
  "subScopeCheckerBuilder c = c\<lparr>checkerLevel := checkerLevel c + 1\<rparr>"

fun fixedSub :: "allowedFixedScopesCheckerCore \<Rightarrow> ScopeKey \<Rightarrow> basicCore" where
  "fixedSub c (AccessModeScopeKey key) =
     (if checkerLevel c \<noteq> GlobalScopeKind then denyAllScopeCheckerCore
      else if allowsGlobalAccess c then Fixed ((subScopeCheckerBuilder c)\<lparr>accessLevel := key\<rparr>)
      else if \<not> setContains (accessKeys c) key then denyAllScopeCheckerCore
      else Fixed ((subScopeCheckerBuilder c)\<lparr>accessLevel := key\<rparr>))"
| "fixedSub c (ResourceScopeKey key) =
     (if checkerLevel c \<noteq> AccessModeScopeKind then denyAllScopeCheckerCore
      else if allowsAccessModeLevelAccess c then Fixed ((subScopeCheckerBuilder c)\<lparr>targetResource := key\<rparr>)
      else if \<not> setContains (resourceKeys c) key then denyAllScopeCheckerCore
      else Fixed ((subScopeCheckerBuilder c)\<lparr>targetResource := key\<rparr>))"
| "fixedSub c (ClusterScopeKey key) =
     (if checkerLevel c \<noteq> ResourceScopeKind then denyAllScopeCheckerCore
      else if allowsResourceLevelAccess c then Fixed ((subScopeCheckerBuilder c)\<lparr>targetCluster := key\<rparr>)
      else if \<not> setContains (clusterKeys c) key then denyAllScopeCheckerCore
      else Fixed ((subScopeCheckerBuilder c)\<lparr>targetCluster := key\<rparr>))"
| "fixedSub c (NamespaceScopeKey key) =
     (if checkerLevel c \<noteq> ClusterScopeKind then denyAllScopeCheckerCore
      else if allowsClusterLevelAccess c then Fixed ((subScopeCheckerBuilder c)\<lparr>targetNamespace := key\<rparr>)
      else if \<not> setContains (namespaceKeys c) key then denyAllScopeCheckerCore
      else Fixed ((subScopeCheckerBuilder c)\<lparr>targetNamespace := key\<rparr>))"

definition fixedAllowed :: "resourceRegistry \<Rightarrow> allowedFixedScopesCheckerCore \<Rightarrow> bool" where
  "fixedAllowed reg c =
     (let resourceScope = GetScopeForResource reg (targetResource c) in
      if checkerLevel c = GlobalScopeKind then allowsGlobalAccess c
      else if checkerLevel c = AccessModeScopeKind then allowsAccessModeLevelAccess c
      else if checkerLevel c = ResourceScopeKind then
        (if resourceScope = GlobalScope then True else allowsResourceLevelAccess c)
      else if checkerLevel c = ClusterScopeKind then
        (if resourceScope = ClusterScope \<or> resourceScope = GlobalScope then True
         else allowsClusterLevelAccess c)
      else if checkerLevel c = NamespaceScopeKind then True
      else False)"

definition fixedEAS :: "allowedFixedScopesCheckerCore \<Rightarrow> resourceWithAccess \<Rightarrow> sacError + ScopeTree" where
  "fixedEAS c r =
     (let fromMap = (\<lambda>cs m. case FromClustersAndNamespacesMap cs m of None \<Rightarrow> Inl SacPanic | Some t \<Rightarrow> Inr t)
      in
      if allowsGlobalAccess c then Inr UnrestrictedEffectiveAccessScope
      else if \<not> setContains (accessKeys c) (rwa_access r) then Inr DenyAllEffectiveAccessScope
      else if allowsAccessModeLevelAccess c then Inr UnrestrictedEffectiveAccessScope
      else if \<not> setContains (resourceKeys c) (md_resource (rwa_resource r)) \<and>
              (case GetReplacingResource (rwa_resource r) of None \<Rightarrow> True
               | Some x \<Rightarrow> \<not> setContains (resourceKeys c) x)
      then Inr DenyAllEffectiveAccessScope
      else if allowsResourceLevelAccess c then Inr UnrestrictedEffectiveAccessScope
      else if allowsClusterLevelAccess c then fromMap (clusterKeys c) []
      else fromMap [] (fold (\<lambda>clusterID. mput clusterID (namespaceKeys c)) (clusterKeys c) []))"

text \<open>\<open>typedKeySet\<close> at its four key types.\<close>

definition accessKeySet :: "ScopeKey list \<Rightarrow> Access goset" where
  "accessKeySet ks = newSet (List.map_filter (\<lambda>k. case k of AccessModeScopeKey a \<Rightarrow> Some a | _ \<Rightarrow> None) ks)"

definition resourceKeySet :: "ScopeKey list \<Rightarrow> string goset" where
  "resourceKeySet ks = newSet (List.map_filter (\<lambda>k. case k of ResourceScopeKey a \<Rightarrow> Some a | _ \<Rightarrow> None) ks)"

definition clusterKeySet :: "ScopeKey list \<Rightarrow> string goset" where
  "clusterKeySet ks = newSet (List.map_filter (\<lambda>k. case k of ClusterScopeKey a \<Rightarrow> Some a | _ \<Rightarrow> None) ks)"

definition namespaceKeySet :: "ScopeKey list \<Rightarrow> string goset" where
  "namespaceKeySet ks = newSet (List.map_filter (\<lambda>k. case k of NamespaceScopeKey a \<Rightarrow> Some a | _ \<Rightarrow> None) ks)"

definition allowFixedNamespaceLevelScopes ::
  "ScopeKey list \<Rightarrow> ScopeKey list \<Rightarrow> ScopeKey list \<Rightarrow> ScopeKey list \<Rightarrow> basicCore" where
  "allowFixedNamespaceLevelScopes as rs cs ns =
     Fixed \<lparr>checkerLevel = GlobalScopeKind, accessKeys = accessKeySet as, resourceKeys = resourceKeySet rs,
            clusterKeys = clusterKeySet cs, namespaceKeys = namespaceKeySet ns,
            accessLevel = NO_ACCESS, targetResource = [], targetCluster = [], targetNamespace = []\<rparr>"

definition allowFixedClusterLevelScopes ::
  "ScopeKey list \<Rightarrow> ScopeKey list \<Rightarrow> ScopeKey list \<Rightarrow> basicCore" where
  "allowFixedClusterLevelScopes as rs cs = allowFixedNamespaceLevelScopes as rs cs []"

definition allowFixedResourceLevelScopes :: "ScopeKey list \<Rightarrow> ScopeKey list \<Rightarrow> basicCore" where
  "allowFixedResourceLevelScopes as rs = allowFixedNamespaceLevelScopes as rs [] []"

definition allowFixedAccessModeLevelScopes :: "ScopeKey list \<Rightarrow> basicCore" where
  "allowFixedAccessModeLevelScopes as = allowFixedNamespaceLevelScopes as [] [] []"

definition allowFixedGlobalLevelScopes :: basicCore where
  "allowFixedGlobalLevelScopes = allowFixedNamespaceLevelScopes [] [] [] []"

definition AllowFixedScopes :: "ScopeKey list list \<Rightarrow> basicCore" where
  "AllowFixedScopes keyLists =
     (case keyLists of
        [] \<Rightarrow> allowFixedGlobalLevelScopes
      | [a] \<Rightarrow> allowFixedAccessModeLevelScopes a
      | [a, r] \<Rightarrow> allowFixedResourceLevelScopes a r
      | [a, r, c] \<Rightarrow> allowFixedClusterLevelScopes a r c
      | [a, r, c, n] \<Rightarrow> allowFixedNamespaceLevelScopes a r c n
      | _ \<Rightarrow> denyAllScopeCheckerCore)"

definition uniformEAS :: "bool \<Rightarrow> sacError + ScopeTree" where
  "uniformEAS b = Inr (if b then UnrestrictedEffectiveAccessScope else DenyAllEffectiveAccessScope)"

text \<open>Dispatch of the interface to the two implementations, which keep no mutable state.\<close>

definition basicOps :: "resourceRegistry \<Rightarrow> (basicCore, unit) coreOps" where
  "basicOps reg =
     \<lparr>coreSub = (\<lambda>c k. Some (case c of Uniform b \<Rightarrow> Uniform b | Fixed f \<Rightarrow> fixedSub f k)),
      coreAllowed = (\<lambda>c s. (case c of Uniform b \<Rightarrow> b | Fixed f \<Rightarrow> fixedAllowed reg f, s)),
      coreEAS = (\<lambda>c r s. (case c of Uniform b \<Rightarrow> uniformEAS b | Fixed f \<Rightarrow> fixedEAS f r, s))\<rparr>"

subsection \<open>The contract of a core, and what checkers built on it decide\<close>

text \<open>
  A core decides by the function \<open>allows\<close>, whatever the mutable state it keeps, as long as
  an invariant of that state holds; \<open>valid\<close> restricts the cores the contract is about.
\<close>

fun sc_valid :: "('c \<Rightarrow> bool) \<Rightarrow> 'c ScopeChecker \<Rightarrow> bool" where
  "sc_valid V (NewScopeChecker c) = V c"
| "sc_valid V (NewOrScopeChecker cs) = list_all (sc_valid V) cs"

text \<open>No component crashes on the keys.\<close>

fun sc_safe :: "('c, 's) coreOps \<Rightarrow> ScopeKey list \<Rightarrow> 'c ScopeChecker \<Rightarrow> bool" where
  "sc_safe ops ks (NewScopeChecker c) = (subCore ops ks c \<noteq> None)"
| "sc_safe ops ks (NewOrScopeChecker cs) = list_all (sc_safe ops ks) cs"

fun sc_allows :: "('c, 's) coreOps \<Rightarrow> ('c \<Rightarrow> bool) \<Rightarrow> ScopeKey list \<Rightarrow> 'c ScopeChecker \<Rightarrow> bool" where
  "sc_allows ops A ks (NewScopeChecker c) = (case subCore ops ks c of Some c1 \<Rightarrow> A c1 | None \<Rightarrow> False)"
| "sc_allows ops A ks (NewOrScopeChecker cs) = list_ex (sc_allows ops A ks) cs"

fun pred_safe :: "('c, 's) coreOps \<Rightarrow> ScopePredicate \<Rightarrow> 'c ScopeChecker \<Rightarrow> bool" where
  "pred_safe ops (ScopeSuffix ks) sc = sc_safe ops ks sc"
| "pred_safe ops (AnyScope ps) sc = list_all (\<lambda>p. pred_safe ops p sc) ps"
| "pred_safe ops (AllScopes ps) sc = list_all (\<lambda>p. pred_safe ops p sc) ps"

fun pred_allows :: "('c, 's) coreOps \<Rightarrow> ('c \<Rightarrow> bool) \<Rightarrow> ScopePredicate \<Rightarrow> 'c ScopeChecker \<Rightarrow> bool" where
  "pred_allows ops A (ScopeSuffix ks) sc = sc_allows ops A ks sc"
| "pred_allows ops A (AnyScope ps) sc = list_ex (\<lambda>p. pred_allows ops A p sc) ps"
| "pred_allows ops A (AllScopes ps) sc = list_all (\<lambda>p. pred_allows ops A p sc) ps"

lemma subCore_append: "subCore ops (ks @ ls) c = Option.bind (subCore ops ks c) (subCore ops ls)"
  by (induction ks arbitrary: c) (auto split: option.splits)

locale scope_checker_core =
  fixes ops :: "('c, 's) coreOps"
    and Inv :: "'s \<Rightarrow> bool"
    and valid :: "'c \<Rightarrow> bool"
    and allows :: "'c \<Rightarrow> bool"
  assumes sub_valid: "valid c \<Longrightarrow> coreSub ops c k = Some c1 \<Longrightarrow> valid c1"
    and allowed: "valid c \<Longrightarrow> Inv s \<Longrightarrow> \<exists>s1. coreAllowed ops c s = (allows c, s1) \<and> Inv s1"
begin

lemma subCore_valid: "valid c \<Longrightarrow> subCore ops ks c = Some c1 \<Longrightarrow> valid c1"
  by (induction ks arbitrary: c) (auto split: option.splits dest: sub_valid)

lemma IsAllowedAny_meaning:
  "(\<And>c s. c \<in> set cs \<Longrightarrow> Inv s \<Longrightarrow> \<exists>s1. IsAllowed ops ks c s = Some (f c, s1) \<and> Inv s1) \<Longrightarrow> Inv s \<Longrightarrow>
     \<exists>s1. IsAllowedAny ops ks cs s = Some (list_ex f cs, s1) \<and> Inv s1"
proof (induction cs arbitrary: s)
  case (Cons c cs)
  obtain s1 where s1: "IsAllowed ops ks c s = Some (f c, s1)" "Inv s1"
    using Cons.prems by fastforce
  obtain s2 where "IsAllowedAny ops ks cs s1 = Some (list_ex f cs, s2)" "Inv s2"
    using Cons.IH [OF _ s1(2)] Cons.prems(1) by auto
  with s1 show ?case by (cases "f c") auto
qed simp

lemma IsAllowed_meaning:
  "sc_valid valid sc \<Longrightarrow> sc_safe ops ks sc \<Longrightarrow> Inv s \<Longrightarrow>
     \<exists>s1. IsAllowed ops ks sc s = Some (sc_allows ops allows ks sc, s1) \<and> Inv s1"
proof (induction sc arbitrary: s)
  case (NewScopeChecker c)
  then obtain c1 where c1: "subCore ops ks c = Some c1" by auto
  then have "valid c1" using NewScopeChecker.prems subCore_valid by auto
  from allowed [OF this NewScopeChecker.prems(3)] c1 show ?case by auto
next
  case (NewOrScopeChecker cs)
  then show ?case by (auto simp: list_all_iff intro!: IsAllowedAny_meaning)
qed

text \<open>A loop over decisions that stops at the first positive one.\<close>

lemma anyPredAllowed_meaning:
  "(\<And>p s. p \<in> set ps \<Longrightarrow> Inv s \<Longrightarrow> \<exists>s1. predAllowed ops p sc s = Some (f p, s1) \<and> Inv s1) \<Longrightarrow> Inv s \<Longrightarrow>
     \<exists>s1. anyPredAllowed ops ps sc s = Some (list_ex f ps, s1) \<and> Inv s1"
proof (induction ps arbitrary: s)
  case (Cons p ps)
  obtain s1 where s1: "predAllowed ops p sc s = Some (f p, s1)" "Inv s1"
    using Cons.prems by fastforce
  obtain s2 where "anyPredAllowed ops ps sc s1 = Some (list_ex f ps, s2)" "Inv s2"
    using Cons.IH [OF _ s1(2)] Cons.prems(1) by auto
  with s1 show ?case by (cases "f p") auto
qed simp

lemma allPredAllowed_meaning:
  "(\<And>p s. p \<in> set ps \<Longrightarrow> Inv s \<Longrightarrow> \<exists>s1. predAllowed ops p sc s = Some (f p, s1) \<and> Inv s1) \<Longrightarrow> Inv s \<Longrightarrow>
     \<exists>s1. allPredAllowed ops ps sc s = Some (list_all f ps, s1) \<and> Inv s1"
proof (induction ps arbitrary: s)
  case (Cons p ps)
  obtain s1 where s1: "predAllowed ops p sc s = Some (f p, s1)" "Inv s1"
    using Cons.prems by fastforce
  obtain s2 where "allPredAllowed ops ps sc s1 = Some (list_all f ps, s2)" "Inv s2"
    using Cons.IH [OF _ s1(2)] Cons.prems(1) by auto
  with s1 show ?case by (cases "f p") auto
qed simp

lemma predAllowed_meaning:
  "sc_valid valid sc \<Longrightarrow> pred_safe ops p sc \<Longrightarrow> Inv s \<Longrightarrow>
     \<exists>s1. predAllowed ops p sc s = Some (pred_allows ops allows p sc, s1) \<and> Inv s1"
proof (induction p arbitrary: s)
  case (ScopeSuffix ks)
  then show ?case by (simp add: IsAllowed_meaning)
next
  case (AnyScope ps)
  then show ?case by (auto simp: list_all_iff intro!: anyPredAllowed_meaning)
next
  case (AllScopes ps)
  then have "\<exists>s1. predAllowed ops p sc s = Some (pred_allows ops allows p sc, s1) \<and> Inv s1"
    if "p \<in> set ps" "Inv s" for p s
    using that by (simp add: list_all_iff)
  from allPredAllowed_meaning [OF this AllScopes.prems(3)] show ?case by simp
qed

lemma filterSliceLoop_meaning:
  "sc_valid valid sc \<Longrightarrow> \<forall>x \<in> set objs. pred_safe ops (f x) sc \<Longrightarrow> Inv s \<Longrightarrow>
     \<exists>s1. filterSliceLoop ops sc f objs s = Some (filter (\<lambda>x. pred_allows ops allows (f x) sc) objs, s1) \<and> Inv s1"
proof (induction objs arbitrary: s)
  case (Cons x objs)
  obtain s1 where s1: "predAllowed ops (f x) sc s = Some (pred_allows ops allows (f x) sc, s1)" "Inv s1"
    using Cons.prems predAllowed_meaning [of sc "f x" s] by auto
  obtain s2 where "filterSliceLoop ops sc f objs s1 =
      Some (filter (\<lambda>x. pred_allows ops allows (f x) sc) objs, s2)" "Inv s2"
    using Cons.IH [OF _ _ s1(2)] Cons.prems by auto
  with s1 show ?case by auto
qed simp

lemma FilterSlice_meaning:
  assumes "sc_valid valid sc" and "sc_safe ops [] sc" and "\<forall>x \<in> set objs. pred_safe ops (f x) sc" and "Inv s"
  shows "\<exists>s1. FilterSlice ops sc objs f s =
     Some (filter (\<lambda>x. sc_allows ops allows [] sc \<or> pred_allows ops allows (f x) sc) objs, s1) \<and> Inv s1"
proof -
  obtain s1 where s1: "IsAllowed ops [] sc s = Some (sc_allows ops allows [] sc, s1)" "Inv s1"
    using IsAllowed_meaning [OF assms(1,2,4)] by blast
  with filterSliceLoop_meaning [OF assms(1,3) s1(2)] show ?thesis
    by (cases "sc_allows ops allows [] sc") (auto simp: FilterSlice_def)
qed

end

text \<open>A core whose effective access scope, for the resources it answers for, is a well-formed
  tree.\<close>

fun sc_scope :: "('c \<Rightarrow> ScopeTree) \<Rightarrow> 'c ScopeChecker \<Rightarrow> string \<Rightarrow> string \<Rightarrow> bool" where
  "sc_scope E (NewScopeChecker c) x n = tree_includes (E c) x n"
| "sc_scope E (NewOrScopeChecker cs) x n = list_ex (\<lambda>c. sc_scope E c x n) cs"

locale scope_checker_core_eas = scope_checker_core +
  fixes answers :: "'c \<Rightarrow> resourceWithAccess \<Rightarrow> bool"
    and scope :: "'c \<Rightarrow> resourceWithAccess \<Rightarrow> ScopeTree"
  assumes eas: "valid c \<Longrightarrow> answers c r \<Longrightarrow> Inv s \<Longrightarrow>
      \<exists>s1. coreEAS ops c r s = (Inr (scope c r), s1) \<and> Inv s1"
    and scope_wf: "valid c \<Longrightarrow> answers c r \<Longrightarrow> Inv s \<Longrightarrow> wf_tree (scope c r)"
begin

lemma mergeEffectiveAccessScopes_meaning:
  "(\<And>c s. c \<in> set cs \<Longrightarrow> Inv s \<Longrightarrow> \<exists>t s1. EffectiveAccessScope ops r c s = (Inr t, s1) \<and> Inv s1 \<and> wf_tree t \<and>
       (\<forall>x n. tree_includes t x n \<longleftrightarrow> f c x n)) \<Longrightarrow> wf_tree root \<Longrightarrow> Inv s \<Longrightarrow>
   \<exists>t s1. mergeEffectiveAccessScopes ops r cs root [] s = (Inr t, s1) \<and> Inv s1 \<and> wf_tree t \<and>
     (\<forall>x n. tree_includes t x n \<longleftrightarrow> tree_includes root x n \<or> list_ex (\<lambda>c. f c x n) cs)"
proof (induction cs arbitrary: root s)
  case (Cons c cs)
  obtain t s1 where t: "EffectiveAccessScope ops r c s = (Inr t, s1)" "Inv s1" "wf_tree t"
    "\<And>x n. tree_includes t x n \<longleftrightarrow> f c x n"
    using Cons.prems(1) [of c s] Cons.prems(3) by auto
  note M = Merge_includes [OF Cons.prems(2) t(3)]
  from Cons.IH [of "Merge root (Some t)" s1] Cons.prems(1) M t(2)
  show ?case by (auto simp: t(1,4))
qed simp

lemma EffectiveAccessScope_meaning:
  "sc_valid (\<lambda>c. valid c \<and> answers c r) sc \<Longrightarrow> Inv s \<Longrightarrow> \<exists>t s1. EffectiveAccessScope ops r sc s = (Inr t, s1) \<and> Inv s1 \<and> wf_tree t \<and>
     (\<forall>x n. tree_includes t x n \<longleftrightarrow> sc_scope (\<lambda>c. scope c r) sc x n)"
proof (induction sc arbitrary: s)
  case (NewScopeChecker c)
  then show ?case using eas [of c r s] scope_wf [of c r s] by auto
next
  case (NewOrScopeChecker cs)
  have "\<exists>t s1. EffectiveAccessScope ops r c s = (Inr t, s1) \<and> Inv s1 \<and> wf_tree t \<and>
      (\<forall>x n. tree_includes t x n \<longleftrightarrow> sc_scope (\<lambda>c. scope c r) c x n)" if "c \<in> set cs" "Inv s" for c s
    using NewOrScopeChecker that by (auto simp: list_all_iff)
  from mergeEffectiveAccessScopes_meaning [OF this wf_tree_DenyAll NewOrScopeChecker.prems(2)]
  show ?case by (simp add: tree_includes_DenyAll)
qed

end

subsection \<open>The fixed-scope core\<close>

text \<open>What a list of fixed keys grants: the cross product of the key sets, where empty sets at
  the lowest levels stand for everything below.\<close>

definition fixed_grants_cluster ::
  "Access set \<Rightarrow> string set \<Rightarrow> string set \<Rightarrow> string set \<Rightarrow> Access \<Rightarrow> string \<Rightarrow> string \<Rightarrow> bool" where
  "fixed_grants_cluster A R C N a r c \<longleftrightarrow>
     A = {} \<and> R = {} \<and> C = {} \<and> N = {} \<or>
     a \<in> A \<and> (R = {} \<and> C = {} \<and> N = {} \<or>
       r \<in> R \<and> (C = {} \<and> N = {} \<or> c \<in> C))"

definition fixed_grants ::
  "Access set \<Rightarrow> string set \<Rightarrow> string set \<Rightarrow> string set \<Rightarrow> Access \<Rightarrow> string \<Rightarrow> string \<Rightarrow> string \<Rightarrow> bool" where
  "fixed_grants A R C N a r c n \<longleftrightarrow> fixed_grants_cluster A R C N a r c \<and> (N = {} \<or> n \<in> N)"

definition key_sets :: "ScopeKey list list \<Rightarrow> Access set \<times> string set \<times> string set \<times> string set" where
  "key_sets kss =
     ({a. length kss > 0 \<and> AccessModeScopeKey a \<in> set (kss ! 0)},
      {r. length kss > 1 \<and> ResourceScopeKey r \<in> set (kss ! 1)},
      {c. length kss > 2 \<and> ClusterScopeKey c \<in> set (kss ! 2)},
      {n. length kss > 3 \<and> NamespaceScopeKey n \<in> set (kss ! 3)})"

lemma set_keySets [simp]:
  "set (accessKeySet ks) = {a. AccessModeScopeKey a \<in> set ks}"
  "set (resourceKeySet ks) = {a. ResourceScopeKey a \<in> set ks}"
  "set (clusterKeySet ks) = {a. ClusterScopeKey a \<in> set ks}"
  "set (namespaceKeySet ks) = {a. NamespaceScopeKey a \<in> set ks}"
  unfolding accessKeySet_def resourceKeySet_def clusterKeySet_def namespaceKeySet_def
  by (force simp: List.map_filter_def split: ScopeKey.splits)+

lemma AllowFixedScopes_keys:
  assumes "length kss \<le> 4"
  obtains f where "AllowFixedScopes kss = Fixed f" and "checkerLevel f = GlobalScopeKind"
    and "key_sets kss = (set (accessKeys f), set (resourceKeys f), set (clusterKeys f), set (namespaceKeys f))"
proof -
  have "\<exists>as rs cs ns. AllowFixedScopes kss = allowFixedNamespaceLevelScopes as rs cs ns \<and>
    key_sets kss = (set (accessKeySet as), set (resourceKeySet rs), set (clusterKeySet cs), set (namespaceKeySet ns))"
    (is "\<exists>as rs cs ns. ?P as rs cs ns")
  proof -
    note defs = AllowFixedScopes_def key_sets_def allowFixedGlobalLevelScopes_def
      allowFixedAccessModeLevelScopes_def allowFixedResourceLevelScopes_def allowFixedClusterLevelScopes_def
    consider "kss = []" | a where "kss = [a]" | a b where "kss = [a, b]" | a b c where "kss = [a, b, c]"
      | a b c d where "kss = [a, b, c, d]"
      using assms by (auto simp: le_Suc_eq length_Suc_conv numeral_eq_Suc)
    then show ?thesis
    proof cases
      case 1
      then have "?P [] [] [] []" by (simp add: defs)
      then show ?thesis by blast
    next
      case (2 a)
      then have "?P a [] [] []" by (simp add: defs)
      then show ?thesis by blast
    next
      case (3 a b)
      then have "?P a b [] []" by (simp add: defs)
      then show ?thesis by blast
    next
      case (4 a b c)
      then have "?P a b c []" by (simp add: defs)
      then show ?thesis by blast
    next
      case (5 a b c d)
      then have "?P a b c d" by (simp add: defs)
      then show ?thesis by blast
    qed
  qed
  then obtain as rs cs ns where A: "AllowFixedScopes kss = allowFixedNamespaceLevelScopes as rs cs ns"
    and K: "key_sets kss =
      (set (accessKeySet as), set (resourceKeySet rs), set (clusterKeySet cs), set (namespaceKeySet ns))"
    by blast
  show thesis by (rule that [OF A [unfolded allowFixedNamespaceLevelScopes_def]]) (simp_all add: K)
qed

lemmas fixed_level_defs = allowsGlobalAccess_def allowsAccessModeLevelAccess_def
  allowsResourceLevelAccess_def allowsClusterLevelAccess_def setCardinality_def setContains_def

abbreviation fixedPath :: "Access \<Rightarrow> string \<Rightarrow> string \<Rightarrow> ScopeKey list" where
  "fixedPath a r c \<equiv> [AccessModeScopeKey a, ResourceScopeKey r, ClusterScopeKey c]"

lemma fixed_cluster_path:
  assumes "checkerLevel f = GlobalScopeKind"
  shows "subCore (basicOps reg) (fixedPath a r c) (Fixed f) =
    Some (if fixed_grants_cluster (set (accessKeys f)) (set (resourceKeys f)) (set (clusterKeys f))
               (set (namespaceKeys f)) a r c
          then Fixed (f\<lparr>checkerLevel := ClusterScopeKind, accessLevel := a, targetResource := r, targetCluster := c\<rparr>)
          else Uniform False)"
  using assms
  by (auto simp: basicOps_def fixed_level_defs scope_kind_defs subScopeCheckerBuilder_def fixed_grants_cluster_def)

lemma fixedEAS_spec:
  "\<exists>t. fixedEAS f r = Inr t \<and> wf_tree t \<and> (\<forall>c n. tree_includes t c n \<longleftrightarrow>
     (\<exists>res \<in> insert (md_resource (rwa_resource r)) (set_option (GetReplacingResource (rwa_resource r))).
        fixed_grants (set (accessKeys f)) (set (resourceKeys f)) (set (clusterKeys f)) (set (namespaceKeys f))
          (rwa_access r) res c n))"
proof -
  let ?nsm = "fold (\<lambda>clusterID. mput clusterID (namespaceKeys f)) (clusterKeys f) []"
  have nsm: "mget ?nsm c = (if c \<in> set (clusterKeys f) then Some (namespaceKeys f) else None)" for c
    using gomap.get_fold_put_same [of "\<lambda>x. x" "namespaceKeys f" "clusterKeys f" "[]" c] by simp
  have wf: "wf_map ?nsm" using wf_fold_put [of "[]" "\<lambda>x. x"] by simp
  obtain t1 where t1: "FromClustersAndNamespacesMap (clusterKeys f) [] = Some t1" "wf_tree t1"
    "\<And>c n. tree_includes t1 c n \<longleftrightarrow> c \<in> set (clusterKeys f)"
    using FromClustersAndNamespacesMap_spec [of "[]" "clusterKeys f"] by auto
  obtain t2 where t2: "FromClustersAndNamespacesMap [] ?nsm = Some t2" "wf_tree t2"
    "\<And>c n. tree_includes t2 c n \<longleftrightarrow> c \<in> set (clusterKeys f) \<and> n \<in> set (namespaceKeys f)"
    using FromClustersAndNamespacesMap_spec [OF wf, of "[]"] by (auto simp: nsm)
  have U: "tree_includes UnrestrictedEffectiveAccessScope c n" "wf_tree UnrestrictedEffectiveAccessScope" for c n
    by (simp_all add: UnrestrictedEffectiveAccessScope_def newEffectiveAccessScopeTree_def tree_includes_def
        wf_tree_def wf_maps_def)
  show ?thesis
    unfolding fixedEAS_def Let_def t1 t2 option.case fixed_level_defs fixed_grants_def fixed_grants_cluster_def
    by (auto simp: U wf_tree_DenyAll tree_includes_DenyAll t1 t2 split: option.splits)
qed

definition basic_scope :: "basicCore \<Rightarrow> resourceWithAccess \<Rightarrow> ScopeTree" where
  "basic_scope c r = (case c of Uniform b \<Rightarrow> if b then UnrestrictedEffectiveAccessScope else DenyAllEffectiveAccessScope
     | Fixed f \<Rightarrow> projr (fixedEAS f r))"

interpretation basic: scope_checker_core_eas "basicOps reg" "\<lambda>_. True" "\<lambda>_. True"
  "\<lambda>c. case c of Uniform b \<Rightarrow> b | Fixed f \<Rightarrow> fixedAllowed reg f" "\<lambda>_ _. True" basic_scope
proof unfold_locales
  fix c :: basicCore and r and s :: unit
  show "\<exists>s1. coreEAS (basicOps reg) c r s = (Inr (basic_scope c r), s1) \<and> True"
  proof (cases c)
    case (Fixed f)
    with fixedEAS_spec [of f r] show ?thesis by (auto simp: basicOps_def basic_scope_def)
  qed (simp add: basicOps_def basic_scope_def uniformEAS_def)
  show "wf_tree (basic_scope c r)"
  proof (cases c)
    case (Fixed f)
    with fixedEAS_spec [of f r] show ?thesis by (auto simp: basic_scope_def)
  next
    case (Uniform b)
    have "wf_tree UnrestrictedEffectiveAccessScope"
      by (simp add: UnrestrictedEffectiveAccessScope_def newEffectiveAccessScopeTree_def wf_tree_def wf_maps_def)
    with Uniform show ?thesis by (simp add: basic_scope_def wf_tree_DenyAll)
  qed
qed (auto simp: basicOps_def)

text \<open>
  A checker made from fixed scope keys allows a namespace exactly when the
  access mode, resource, cluster and namespace are in the cross product of the key lists
  (empty lists at the lowest levels standing for everything), and its effective access
  scope for the resource, which never panics, includes exactly the namespaces it allows,
  for the resource itself or the resource replacing it.
\<close>

theorem AllowFixedScopes_correct:
  assumes "length kss \<le> 4" and "key_sets kss = (A, R, C, N)"
  shows "IsAllowed (basicOps reg) [AccessModeScopeKey a, ResourceScopeKey (md_resource md), ClusterScopeKey c,
            NamespaceScopeKey n] (NewScopeChecker (AllowFixedScopes kss)) ()
          = Some (fixed_grants A R C N a (md_resource md) c n, ())
    \<and> (\<exists>t. EffectiveAccessScope (basicOps reg) \<lparr>rwa_resource = md, rwa_access = a\<rparr>
            (NewScopeChecker (AllowFixedScopes kss)) () = (Inr t, ()) \<and>
          (tree_includes t c n \<longleftrightarrow> fixed_grants A R C N a (md_resource md) c n \<or>
             (\<exists>r. GetReplacingResource md = Some r \<and> fixed_grants A R C N a r c n)))"
proof -
  obtain f where f: "AllowFixedScopes kss = Fixed f" "checkerLevel f = GlobalScopeKind"
    and K: "A = set (accessKeys f)" "R = set (resourceKeys f)" "C = set (clusterKeys f)" "N = set (namespaceKeys f)"
    using AllowFixedScopes_keys [OF assms(1)] assms(2) by (metis prod.inject)
  have "subCore (basicOps reg) [AccessModeScopeKey a, ResourceScopeKey (md_resource md), ClusterScopeKey c,
        NamespaceScopeKey n] (Fixed f) =
      Option.bind (subCore (basicOps reg) (fixedPath a (md_resource md) c) (Fixed f))
        (subCore (basicOps reg) [NamespaceScopeKey n])"
    using subCore_append [of "basicOps reg" "fixedPath a (md_resource md) c" "[NamespaceScopeKey n]"] by simp
  then have "IsAllowed (basicOps reg) [AccessModeScopeKey a, ResourceScopeKey (md_resource md), ClusterScopeKey c,
            NamespaceScopeKey n] (NewScopeChecker (AllowFixedScopes kss)) ()
          = Some (fixed_grants A R C N a (md_resource md) c n, ())"
    unfolding IsAllowed.simps f(1) fixed_cluster_path [OF f(2)] K fixed_grants_def
    by (simp add: basicOps_def scope_kind_defs fixed_level_defs subScopeCheckerBuilder_def fixedAllowed_def)
  moreover have "EffectiveAccessScope (basicOps reg) \<lparr>rwa_resource = md, rwa_access = a\<rparr>
      (NewScopeChecker (AllowFixedScopes kss)) () = (fixedEAS f \<lparr>rwa_resource = md, rwa_access = a\<rparr>, ())"
    by (simp add: f basicOps_def)
  ultimately show ?thesis
    using fixedEAS_spec [of f "\<lparr>rwa_resource = md, rwa_access = a\<rparr>"] unfolding K by auto
qed

theorem AllowFixedScopes_correct_witness:
  "IsAllowed (basicOps stackroxResources)
     [AccessModeScopeKey READ_ACCESS, ResourceScopeKey ''Deployment'', ClusterScopeKey ''c1'', NamespaceScopeKey ''web'']
     (NewScopeChecker (AllowFixedScopes
        [AccessModeScopeKeys [READ_ACCESS], ResourceScopeKeys [ResourceMetadata ''Deployment'' None NamespaceScope],
         ClusterScopeKeys [''c1''], NamespaceScopeKeys [''web'']])) () = Some (True, ())"
proof -
  let ?md = "ResourceMetadata ''Deployment'' None NamespaceScope"
  let ?kss = "[AccessModeScopeKeys [READ_ACCESS], ResourceScopeKeys [?md], ClusterScopeKeys [''c1''], NamespaceScopeKeys [''web'']]"
  have "key_sets ?kss = ({READ_ACCESS}, {''Deployment''}, {''c1''}, {''web''})"
    by (auto simp: key_sets_def AccessModeScopeKeys_def ResourceScopeKeys_def ClusterScopeKeys_def
        NamespaceScopeKeys_def GetReplacingResource_def)
  from AllowFixedScopes_correct [OF _ this, of stackroxResources READ_ACCESS ?md "''c1''" "''web''"] show ?thesis
    by (simp add: fixed_grants_def fixed_grants_cluster_def)
qed

end
