(* ===== verification/Builtin_Authorizer.thy ===== *)
theory Builtin_Authorizer
  imports Scope_Checkers
begin

text \<open>
  The built-in scoped authorizer, \<open>central/sac/authorizer/builtin_scoped_authorizer.go\<close>: from
  the resolved roles of a principal to a scope checker core. The embedded structs of the
  four levels become the constructors of \<open>builtinCore\<close>; the cache of effective access
  scopes, shared by all levels, is the mutable state of the core interface. Trace records
  are not modelled. \<open>utils.ShouldErr\<close> behaves as in release builds: it reports the error
  and returns it.
\<close>

subsection \<open>Roles and the cache\<close>

record SimpleAccessScope =
  sas_Id :: string
  sas_Name :: string
  sas_Rules :: "scopeRules option"

record ResolvedRole =
  role_Name :: string
  role_Permissions :: "(string, Access) gomap"
  role_AccessScope :: "SimpleAccessScope option"

record authorizerDataCache =
  cache_clusters :: "cluster list"
  cache_namespaces :: "namespace list"
  effectiveAccessScopesByID :: "(string, ScopeTree) gomap"

text \<open>The fixed identifiers of the default access scopes.\<close>

definition AccessScopeExcludeAllId :: string where
  "AccessScopeExcludeAllId = ''ffffffff-ffff-fff4-f5ff-fffffffffffe''"

definition AccessScopeIncludeAllId :: string where
  "AccessScopeIncludeAllId = ''ffffffff-ffff-fff4-f5ff-ffffffffffff''"

text \<open>\<open>accessScope.GetId()\<close>, the empty string for a nil message.\<close>

definition accessScopeId :: "SimpleAccessScope option \<Rightarrow> string" where
  "accessScopeId sas = (case sas of None \<Rightarrow> [] | Some a \<Rightarrow> sas_Id a)"

definition computeEffectiveAccessScope ::
  "('r, 'l) labelsLib \<Rightarrow> authorizerDataCache \<Rightarrow> SimpleAccessScope option \<Rightarrow> sacError + ScopeTree" where
  "computeEffectiveAccessScope L c accessScope =
     (case accessScope of
        None \<Rightarrow> Inr DenyAllEffectiveAccessScope
      | Some a \<Rightarrow>
          if sas_Id a = AccessScopeExcludeAllId then Inr DenyAllEffectiveAccessScope
          else if sas_Id a = AccessScopeIncludeAllId then Inr UnrestrictedEffectiveAccessScope
          else (case ComputeEffectiveAccessScope L (sas_Rules a) (cache_clusters c) (cache_namespaces c) MINIMAL of
                  Inl err \<Rightarrow> Inl (SacError ''could not compute effective access scope'')
                | Inr eas \<Rightarrow> Inr eas))"

definition getEffectiveAccessScopeFromCache :: "authorizerDataCache \<Rightarrow> string \<Rightarrow> ScopeTree option" where
  "getEffectiveAccessScopeFromCache c accessScopeID = mget (effectiveAccessScopesByID c) accessScopeID"

definition getEffectiveAccessScope ::
  "('r, 'l) labelsLib \<Rightarrow> SimpleAccessScope option \<Rightarrow> authorizerDataCache
     \<Rightarrow> (sacError + ScopeTree) \<times> authorizerDataCache" where
  "getEffectiveAccessScope L accessScope c =
     (case getEffectiveAccessScopeFromCache c (accessScopeId accessScope) of
        Some eas \<Rightarrow> (Inr eas, c)
      | None \<Rightarrow>
          (case computeEffectiveAccessScope L c accessScope of
             Inl err \<Rightarrow> (Inl err, c)
           | Inr eas \<Rightarrow>
               (Inr eas, c\<lparr>effectiveAccessScopesByID :=
                  mput (accessScopeId accessScope) eas (effectiveAccessScopesByID c)\<rparr>)))"

subsection \<open>The four levels\<close>

datatype builtinCore =
    BuiltinUniform bool
  | GlobalLevel "ResolvedRole list"
  | AccessModeLevel "ResolvedRole list" Access
  | ResourceLevel "ResolvedRole list" Access resourceMetadata
  | ClusterNamespaceLevel "ResolvedRole list" Access resourceMetadata string string

definition effectiveAccessScopeAllows :: "ScopeTree \<Rightarrow> resourceMetadata \<Rightarrow> string \<Rightarrow> string \<Rightarrow> bool" where
  "effectiveAccessScopeAllows eas md clusterID namespaceName =
     (if root_State eas \<noteq> Partial then root_State eas = Included
      else (case GetClusterByID eas clusterID of
              None \<Rightarrow> False
            | Some clusterNode \<Rightarrow>
                if cl_State clusterNode = Included \<or> GetScope md = ClusterScope then True
                else if namespaceName = [] then False
                else (case mget (namespacesOf clusterNode) namespaceName of
                        None \<Rightarrow> False
                      | Some namespaceNode \<Rightarrow> ns_State namespaceNode = Included)))"

text \<open>\<open>SubScopeChecker\<close> at each level; \<open>None\<close> is the crash of \<open>utils.Must\<close> on a key of the wrong
  kind or an unknown resource.\<close>

definition accessModeSub :: "resourceRegistry \<Rightarrow> ResolvedRole list \<Rightarrow> Access \<Rightarrow> string \<Rightarrow> builtinCore option" where
  "accessModeSub reg roles access res =
     (let (resource, ok) =
        (case MetadataForResource reg res of
           (md, True) \<Rightarrow> (md, True)
         | (_, False) \<Rightarrow> MetadataForInternalResource reg res)
      in if \<not> ok then None
         else
           (let filteredRoles = filter (\<lambda>role. IsPermittedBy resource (role_Permissions role) access) roles
            in if length filteredRoles = 0 then Some (BuiltinUniform False)
               else Some (ResourceLevel filteredRoles access resource)))"

definition globalLevelSub :: "ResolvedRole list \<Rightarrow> ScopeKey \<Rightarrow> builtinCore option" where
  "globalLevelSub roles k =
     (case k of AccessModeScopeKey am \<Rightarrow> Some (AccessModeLevel roles am) | _ \<Rightarrow> None)"

definition resourceLevelSub ::
  "ResolvedRole list \<Rightarrow> Access \<Rightarrow> resourceMetadata \<Rightarrow> ScopeKey \<Rightarrow> builtinCore option" where
  "resourceLevelSub roles am md k =
     (case k of ClusterScopeKey c \<Rightarrow> Some (ClusterNamespaceLevel roles am md c []) | _ \<Rightarrow> None)"

definition clusterNamespaceLevelSub ::
  "ResolvedRole list \<Rightarrow> Access \<Rightarrow> resourceMetadata \<Rightarrow> string \<Rightarrow> string \<Rightarrow> ScopeKey \<Rightarrow> builtinCore option" where
  "clusterNamespaceLevelSub roles am md c ns k =
     (case k of
        NamespaceScopeKey n \<Rightarrow> if ns \<noteq> [] then None else Some (ClusterNamespaceLevel roles am md c n)
      | _ \<Rightarrow> None)"

lemmas level_sub_defs [simp] = globalLevelSub_def resourceLevelSub_def clusterNamespaceLevelSub_def

fun builtinSub :: "resourceRegistry \<Rightarrow> builtinCore \<Rightarrow> ScopeKey \<Rightarrow> builtinCore option" where
  "builtinSub reg (BuiltinUniform b) k = Some (BuiltinUniform b)"
| "builtinSub reg (GlobalLevel roles) k = globalLevelSub roles k"
| "builtinSub reg (AccessModeLevel roles am) k =
     (case k of ResourceScopeKey r \<Rightarrow> accessModeSub reg roles am r | _ \<Rightarrow> None)"
| "builtinSub reg (ResourceLevel roles am md) k = resourceLevelSub roles am md k"
| "builtinSub reg (ClusterNamespaceLevel roles am md c ns) k = clusterNamespaceLevelSub roles am md c ns k"

fun resourceLevelAllowed ::
  "('r, 'l) labelsLib \<Rightarrow> ResolvedRole list \<Rightarrow> authorizerDataCache \<Rightarrow> bool \<times> authorizerDataCache" where
  "resourceLevelAllowed L [] s = (False, s)"
| "resourceLevelAllowed L (role # roles) s =
     (case getEffectiveAccessScope L (role_AccessScope role) s of
        (Inl err, s1) \<Rightarrow> (False, s1)
      | (Inr scope, s1) \<Rightarrow>
          if root_State scope = Included then (True, s1) else resourceLevelAllowed L roles s1)"

fun clusterNamespaceLevelAllowed ::
  "('r, 'l) labelsLib \<Rightarrow> resourceMetadata \<Rightarrow> string \<Rightarrow> string \<Rightarrow> ResolvedRole list \<Rightarrow> authorizerDataCache
     \<Rightarrow> bool \<times> authorizerDataCache" where
  "clusterNamespaceLevelAllowed L md clusterID ns [] s = (False, s)"
| "clusterNamespaceLevelAllowed L md clusterID ns (role # roles) s =
     (case getEffectiveAccessScope L (role_AccessScope role) s of
        (Inl err, s1) \<Rightarrow> (False, s1)
      | (Inr scope, s1) \<Rightarrow>
          if effectiveAccessScopeAllows scope md clusterID ns then (True, s1)
          else clusterNamespaceLevelAllowed L md clusterID ns roles s1)"

fun builtinAllowed ::
  "('r, 'l) labelsLib \<Rightarrow> builtinCore \<Rightarrow> authorizerDataCache \<Rightarrow> bool \<times> authorizerDataCache" where
  "builtinAllowed L (BuiltinUniform b) s = (b, s)"
| "builtinAllowed L (GlobalLevel roles) s = (False, s)"
| "builtinAllowed L (AccessModeLevel roles am) s = (False, s)"
| "builtinAllowed L (ResourceLevel roles am md) s =
     (if GetScope md = GlobalScope then (True, s) else resourceLevelAllowed L roles s)"
| "builtinAllowed L (ClusterNamespaceLevel roles am md c ns) s = clusterNamespaceLevelAllowed L md c ns roles s"

fun mergeRoleScopes ::
  "('r, 'l) labelsLib \<Rightarrow> ResolvedRole list \<Rightarrow> ScopeTree \<Rightarrow> authorizerDataCache
     \<Rightarrow> (sacError + ScopeTree) \<times> authorizerDataCache" where
  "mergeRoleScopes L [] eas s = (Inr eas, s)"
| "mergeRoleScopes L (role # roles) eas s =
     (case getEffectiveAccessScope L (role_AccessScope role) s of
        (Inl err, s1) \<Rightarrow> (Inl err, s1)
      | (Inr scope, s1) \<Rightarrow> mergeRoleScopes L roles (Merge eas (Some scope)) s1)"

definition resourceLevelEAS ::
  "('r, 'l) labelsLib \<Rightarrow> ResolvedRole list \<Rightarrow> Access \<Rightarrow> resourceMetadata \<Rightarrow> resourceWithAccess \<Rightarrow> authorizerDataCache
     \<Rightarrow> (sacError + ScopeTree) \<times> authorizerDataCache" where
  "resourceLevelEAS L roles am md r s =
     (if am < rwa_access r then (Inr DenyAllEffectiveAccessScope, s)
      else if md_resource md \<noteq> md_resource (rwa_resource r) \<and>
              (case md_replacing md of None \<Rightarrow> True | Some x \<Rightarrow> md_resource x \<noteq> md_resource (rwa_resource r))
      then (Inr DenyAllEffectiveAccessScope, s)
      else if GetScope md = GlobalScope then (Inr UnrestrictedEffectiveAccessScope, s)
      else mergeRoleScopes L roles DenyAllEffectiveAccessScope s)"

text \<open>The levels above the resource descend to it first. A crash there is \<open>SacPanic\<close>.\<close>

definition accessModeEAS ::
  "resourceRegistry \<Rightarrow> ('r, 'l) labelsLib \<Rightarrow> ResolvedRole list \<Rightarrow> Access \<Rightarrow> resourceWithAccess \<Rightarrow> authorizerDataCache
     \<Rightarrow> (sacError + ScopeTree) \<times> authorizerDataCache" where
  "accessModeEAS reg L roles am r s =
     (if am < rwa_access r then (Inr DenyAllEffectiveAccessScope, s)
      else (case accessModeSub reg roles am (md_resource (rwa_resource r)) of
              None \<Rightarrow> (Inl SacPanic, s)
            | Some (ResourceLevel roles' am' md) \<Rightarrow> resourceLevelEAS L roles' am' md r s
            | Some _ \<Rightarrow> (Inr DenyAllEffectiveAccessScope, s)))"

fun builtinEAS ::
  "resourceRegistry \<Rightarrow> ('r, 'l) labelsLib \<Rightarrow> builtinCore \<Rightarrow> resourceWithAccess \<Rightarrow> authorizerDataCache
     \<Rightarrow> (sacError + ScopeTree) \<times> authorizerDataCache" where
  "builtinEAS reg L (BuiltinUniform b) r s = (uniformEAS b, s)"
| "builtinEAS reg L (GlobalLevel roles) r s = accessModeEAS reg L roles (rwa_access r) r s"
| "builtinEAS reg L (AccessModeLevel roles am) r s = accessModeEAS reg L roles am r s"
| "builtinEAS reg L (ResourceLevel roles am md) r s = resourceLevelEAS L roles am md r s"
| "builtinEAS reg L (ClusterNamespaceLevel roles am md c ns) r s = resourceLevelEAS L roles am md r s"

definition builtinOps ::
  "resourceRegistry \<Rightarrow> ('r, 'l) labelsLib \<Rightarrow> (builtinCore, authorizerDataCache) coreOps" where
  "builtinOps reg L =
     \<lparr>coreSub = builtinSub reg, coreAllowed = builtinAllowed L, coreEAS = builtinEAS reg L\<rparr>"

definition newGlobalScopeCheckerCore ::
  "cluster list \<Rightarrow> namespace list \<Rightarrow> ResolvedRole list \<Rightarrow> builtinCore \<times> authorizerDataCache" where
  "newGlobalScopeCheckerCore clusters namespaces roles =
     (GlobalLevel roles,
      \<lparr>cache_clusters = clusters, cache_namespaces = namespaces, effectiveAccessScopesByID = []\<rparr>)"

subsection \<open>Facts on computed trees: cluster identifiers and grounded states\<close>

lemma populateClusters_ids:
  "distinct (map c_Name cs) \<Longrightarrow> \<forall>c \<in> set cs. mget (root_Clusters t) (c_Name c) = None \<Longrightarrow>
   clusterIDToName (fold (populateStateForCluster L s d) cs t) =
     fold (\<lambda>c. mput (c_Id c) (c_Name c)) cs (clusterIDToName t)"
proof (induction cs arbitrary: t)
  case (Cons c cs)
  let ?t = "populateStateForCluster L s d c t"
  have "clusterIDToName ?t = mput (c_Id c) (c_Name c) (clusterIDToName t)"
    and "\<forall>x \<in> set cs. mget (root_Clusters ?t) (c_Name x) = None"
    using Cons.prems by (auto simp: populateStateForCluster_def Let_def image_iff)
  with Cons show ?case by simp
qed simp

lemma populateNamespaces_ids:
  "populateNamespaces L s d ns t = Inr t1 \<Longrightarrow> clusterIDToName t1 = clusterIDToName t"
  by (induction ns arbitrary: t) (auto simp: Let_def split: option.splits)

definition ids_of :: "cluster list \<Rightarrow> ScopeTree \<Rightarrow> bool" where
  "ids_of clusters t \<longleftrightarrow> (\<forall>c \<in> set clusters. mget (clusterIDToName t) (c_Id c) = Some (c_Name c)) \<and>
     (\<forall>i. i \<notin> c_Id ` set clusters \<longrightarrow> mget (clusterIDToName t) i = None)"

lemma Compute_ids:
  assumes "ComputeEffectiveAccessScope L rules clusters namespaces d = Inr t"
    and "distinct (map c_Name clusters)" and "distinct (map c_Id clusters)"
  shows "ids_of clusters t"
proof -
  obtain s t1 where t1: "populateNamespaces L s d namespaces
      (fold (populateStateForCluster L s d) clusters (newEffectiveAccessScopeTree Excluded)) = Inr t1"
    "t = bubbleUpStatesAndCompactify d t1"
    using assms(1) by (auto simp: ComputeEffectiveAccessScope_def split: sum.splits)
  have ids: "clusterIDToName t = fold (\<lambda>c. mput (c_Id c) (c_Name c)) clusters []"
    using populateNamespaces_ids [OF t1(1)] populateClusters_ids [OF assms(2), of "newEffectiveAccessScopeTree Excluded"]
    by (simp add: t1(2) bubbleUpStatesAndCompactify_def bubbleClusters_ids newEffectiveAccessScopeTree_def)
  have "c \<in> set cs \<Longrightarrow> distinct (map c_Id cs) \<Longrightarrow>
      mget (fold (\<lambda>c. mput (c_Id c) (c_Name c)) cs m) (c_Id c) = Some (c_Name c)" for c cs m
  proof (induction cs arbitrary: m)
    case (Cons x cs)
    then show ?case
      using gomap.get_fold_put_notin [of "c_Id x" c_Id cs c_Name] by (cases "c = x") auto
  qed simp
  then show ?thesis
    using assms(3) gomap.get_fold_put_notin [of _ c_Id clusters c_Name "[]"]
    by (auto simp: ids_of_def ids)
qed

text \<open>Namespaces are included or excluded, and a partially included cluster includes a namespace.\<close>

definition grounded_cluster :: "clustersScopeSubTree \<Rightarrow> bool" where
  "grounded_cluster cl \<longleftrightarrow> (\<forall>(k, n) \<in> set (namespacesOf cl). ns_State n \<noteq> Partial) \<and>
     (cl_State cl = Partial \<longrightarrow> (\<exists>(k, n) \<in> set (namespacesOf cl). ns_State n = Included))"

definition grounded :: "ScopeTree \<Rightarrow> bool" where
  "grounded t \<longleftrightarrow> (\<forall>(k, cl) \<in> set (root_Clusters t). grounded_cluster cl)"

lemma grounded_mget: "grounded t \<Longrightarrow> mget (root_Clusters t) k = Some cl \<Longrightarrow> grounded_cluster cl"
  by (auto simp: grounded_def dest!: mget_in_set)

text \<open>While a tree is built no node is partial.\<close>

definition binary_cluster :: "clustersScopeSubTree \<Rightarrow> bool" where
  "binary_cluster cl \<longleftrightarrow> cl_State cl \<noteq> Partial \<and> (\<forall>(k, n) \<in> set (namespacesOf cl). ns_State n \<noteq> Partial)"

definition binary :: "ScopeTree \<Rightarrow> bool" where
  "binary t \<longleftrightarrow> (\<forall>(k, cl) \<in> set (root_Clusters t). binary_cluster cl)"

lemma binary_put: "binary t \<Longrightarrow> binary_cluster cl \<Longrightarrow> binary (t\<lparr>root_Clusters := mput k cl (root_Clusters t)\<rparr>)"
  by (auto simp: binary_def dest!: set_mput_subsetD)

lemma binary_mget: "binary t \<Longrightarrow> mget (root_Clusters t) k = Some cl \<Longrightarrow> binary_cluster cl"
  by (auto simp: binary_def dest!: mget_in_set)

lemma binary_grounded: "binary t \<Longrightarrow> grounded t"
  by (auto simp: binary_def grounded_def binary_cluster_def grounded_cluster_def)

lemma binary_State:
  "binary_cluster cl \<Longrightarrow> st \<noteq> Partial \<Longrightarrow> binary_cluster (cl\<lparr>cl_State := st, cl_Attributes := a\<rparr>)"
  by (simp add: binary_cluster_def)

lemma binary_new: "st \<noteq> Partial \<Longrightarrow> binary_cluster (newClusterScopeSubTree st a)"
  by (simp add: binary_cluster_def)

lemma binary_populateCluster:
  assumes g: "binary t"
  shows "binary (populateStateForCluster L s d c t)"
proof -
  have st: "matchCluster L s c \<noteq> Partial" using matchCluster_range [of L s c] by auto
  show ?thesis
  proof (cases "mget (root_Clusters t) (c_Name c)")
    case None
    with binary_put [OF g binary_new [OF st]] show ?thesis
      by (simp add: populateStateForCluster_def binary_def Let_def)
  next
    case (Some cl)
    with binary_put [OF g binary_State [OF binary_mget [OF g Some] st]] g show ?thesis
      by (simp add: populateStateForCluster_def Let_def)
  qed
qed

lemma binary_assign:
  "binary_cluster cl \<Longrightarrow> ns_State v \<noteq> Partial \<Longrightarrow> assignNamespace k v cl = Some cl1 \<Longrightarrow> binary_cluster cl1"
  by (auto simp: binary_cluster_def assignNamespace_def namespacesOf_def dest!: set_mput_subsetD)

lemma binary_populateNamespace:
  "binary_cluster cl \<Longrightarrow> populateStateForNamespace L s d n cl = Some cl1 \<Longrightarrow> binary_cluster cl1"
  using matchNamespace_range [of L s n]
  by (auto simp: populateStateForNamespace_def Let_def newNamespacesScopeSubTree_def
      simp del: map_of_eq_Some_iff split: if_splits option.splits elim!: binary_assign [rotated 2])

lemma binary_populateNamespaces: "binary t \<Longrightarrow> populateNamespaces L s d ns t = Inr t1 \<Longrightarrow> binary t1"
proof (induction ns arbitrary: t)
  case (Cons n ns)
  have "binary_cluster (case mget (root_Clusters t) (n_ClusterName n) of Some cl \<Rightarrow> cl
      | None \<Rightarrow> newClusterScopeSubTree Excluded \<lparr>attr_ID = [], attr_Name = n_ClusterName n, attr_Labels = []\<rparr>)"
    using Cons.prems(1) by (auto split: option.splits intro: binary_new binary_mget)
  with Cons show ?case
    by (auto simp: Let_def split: option.split_asm intro: binary_put binary_populateNamespace)
qed simp

lemma grounded_bubbled:
  assumes wf: "wf_cluster cl" and g: "grounded_cluster cl" and b: "bubbled del cl = Some c"
  shows "grounded_cluster c"
proof -
  let ?c1 = "bubbleNamespaces del (namespacesOf cl) cl"
  have wf1: "wf_map (namespacesOf ?c1)" using wf_bubbleNamespaces [OF wf] by (simp add: wf_cluster_def)
  have mem: "(k, n) \<in> set (namespacesOf ?c1) \<longleftrightarrow> (k, n) \<in> set (namespacesOf cl) \<and> \<not> (del \<and> ns_State n = Excluded)" for k n
  proof -
    have "mget (namespacesOf ?c1) k = Some n \<longleftrightarrow>
        mget (namespacesOf cl) k = Some n \<and> \<not> (del \<and> ns_State n = Excluded)"
      unfolding mget_bubbleNamespaces [OF wf] by (auto simp del: map_of_eq_Some_iff split: option.splits)
    then show ?thesis using wf wf1 by (simp add: wf_cluster_def)
  qed
  have "\<exists>(k, n) \<in> set (namespacesOf cl). ns_State n = Included" if P: "cl_State ?c1 = Partial"
  proof (cases "cl_State cl = Partial")
    case False
    then obtain k n where n: "(k, n) \<in> set (namespacesOf cl)" "ns_State n \<noteq> Excluded"
      using P by (auto simp: bubbleNamespaces_State split: if_splits)
    then have "ns_State n = Included"
      using g by (cases "ns_State n") (auto simp: grounded_cluster_def)
    with n show ?thesis by blast
  qed (use g in \<open>simp add: grounded_cluster_def\<close>)
  then have "\<exists>k n. (k, n) \<in> set (namespacesOf ?c1) \<and> ns_State n = Included" if "cl_State ?c1 = Partial"
    using that mem by fastforce
  moreover have "ns_State n \<noteq> Partial" if "(k, n) \<in> set (namespacesOf ?c1)" for k n
    using that g by (auto simp: mem grounded_cluster_def)
  ultimately have "grounded_cluster ?c1"
    unfolding grounded_cluster_def by blast
  with b show ?thesis
    by (auto simp: bubbled_def Let_def grounded_cluster_def split: if_splits)
qed

lemma grounded_bubble:
  assumes wf: "wf_maps t" and g: "grounded t"
  shows "grounded (bubbleUpStatesAndCompactify d t)"
proof -
  let ?b = "bubbleUpStatesAndCompactify d t"
  have "wf_map (root_Clusters ?b)"
    using wf_tree_bubble [OF wf] by (simp add: wf_tree_def wf_maps_def)
  then have "grounded_cluster c" if "(k, c) \<in> set (root_Clusters ?b)" for k c
  proof -
    have "mget (root_Clusters ?b) k = Some c" using that \<open>wf_map _\<close> by simp
    then obtain cl where cl: "mget (root_Clusters t) k = Some cl" "bubbled (d = MINIMAL) cl = Some c"
      by (auto simp: mget_bubble [OF wf] split: option.splits)
    then show ?thesis
      using wf_maps_mget [OF wf cl(1)] grounded_mget [OF g cl(1)] grounded_bubbled by blast
  qed
  then show ?thesis by (auto simp: grounded_def)
qed

lemma Compute_grounded:
  assumes "ComputeEffectiveAccessScope L rules clusters namespaces d = Inr t" and "wf_tree t"
  shows "grounded t"
proof -
  let ?t0 = "newEffectiveAccessScopeTree Excluded"
  obtain s t1 where t1: "populateNamespaces L s d namespaces (fold (populateStateForCluster L s d) clusters ?t0) = Inr t1"
    "t = bubbleUpStatesAndCompactify d t1"
    using assms(1) by (auto simp: ComputeEffectiveAccessScope_def split: sum.splits)
  have "binary ?t0" by (simp add: binary_def newEffectiveAccessScopeTree_def)
  then have "binary (fold (populateStateForCluster L s d) clusters ?t0)"
    by (induction clusters arbitrary: rule: rev_induct) (auto intro: binary_populateCluster)
  from binary_grounded [OF binary_populateNamespaces [OF this t1(1)]] have "grounded t1" .
  moreover have "wf_maps t1"
  proof -
    have "building ?t0" by (simp add: building_def wf_maps_def newEffectiveAccessScopeTree_def)
    from populateNamespaces_building [OF populateClusters_building [OF this, of L s d clusters, THEN conjunct1],
        of L s d namespaces]
    show ?thesis using t1(1) by (auto simp: building_def)
  qed
  ultimately show ?thesis unfolding t1(2) by (intro grounded_bubble)
qed

lemma grounded_iff_grants:
  assumes "wf_cluster cl"
  shows "grounded_cluster cl \<longleftrightarrow> (\<forall>(k, n) \<in> set (namespacesOf cl). ns_State n \<noteq> Partial) \<and>
     (cl_State cl = Partial \<longrightarrow> (\<exists>n. cluster_grants cl n))"
proof -
  have "(\<exists>n. cluster_grants cl n) \<longleftrightarrow> (\<exists>(k, n) \<in> set (namespacesOf cl). ns_State n = Included)" if "cl_State cl = Partial"
  proof -
    have "cluster_grants cl n \<longleftrightarrow> (\<exists>x. mget (namespacesOf cl) n = Some x \<and> ns_State x = Included)" for n
      using that by (auto simp: cluster_grants_def split: option.splits)
    then show ?thesis using assms by (auto simp: wf_cluster_def)
  qed
  then show ?thesis by (auto simp: grounded_cluster_def)
qed

lemma mergeNamespaces_set:
  "(k, n) \<in> set (namespacesOf (mergeNamespaces es cl)) \<Longrightarrow> ns_State n = Included \<or> (k, n) \<in> set (namespacesOf cl)"
proof (induction es arbitrary: cl)
  case (Cons e es)
  then show ?case by (cases e) (force split: if_splits dest!: set_mput_subsetD)
qed simp

lemma grounded_mergeNamespaces:
  assumes wf: "wf_cluster r" "wf_cluster c" and g: "grounded_cluster r"
  shows "grounded_cluster (mergeNamespaces (namespacesOf c) r)"
proof -
  note M = mergeNamespaces_grants [of "namespacesOf c" r, folded wf_cluster_def, OF wf(2)]
  have wfm: "wf_cluster (mergeNamespaces (namespacesOf c) r)" using M wf(1) by blast
  have np: "ns_State n \<noteq> Partial" if "(k, n) \<in> set (namespacesOf (mergeNamespaces (namespacesOf c) r))" for k n
    using mergeNamespaces_set [OF that] g by (auto simp: grounded_cluster_def)
  have "\<exists>n. cluster_grants (mergeNamespaces (namespacesOf c) r) n"
    if "cl_State (mergeNamespaces (namespacesOf c) r) = Partial"
  proof -
    have "cl_State r = Partial" using that M by metis
    then obtain n where "cluster_grants r n" using g grounded_iff_grants [OF wf(1)] by blast
    then have "cluster_grants (mergeNamespaces (namespacesOf c) r) n" using M by blast
    then show ?thesis ..
  qed
  with np show ?thesis unfolding grounded_iff_grants [OF wfm] by blast
qed

lemma grounded_clusterCopy: "grounded_cluster c \<Longrightarrow> grounded_cluster (clusterCopy c)"
  unfolding grounded_cluster_def clusterCopy_def namespacesOf_def
  by (fastforce simp: namespaceCopy_def split: option.splits)

lemma grounded_mergeCluster:
  assumes "wf_cluster c" and "grounded_cluster c" and "\<And>r. rc = Some r \<Longrightarrow> wf_cluster r \<and> grounded_cluster r"
  shows "grounded_cluster (mergeCluster rc c)"
  using assms by (auto simp: mergeCluster_def split: option.splits intro: grounded_clusterCopy grounded_mergeNamespaces)

lemma Merge_grounded:
  assumes wf: "wf_tree r" "wf_tree t" and g: "grounded r" "grounded t"
  shows "grounded (Merge r (Some t))"
proof (cases "root_State t = Included \<or> root_State r = Included")
  case True
  with g show ?thesis by (simp add: Merge_def grounded_def)
next
  case False
  let ?r = "r\<lparr>clusterIDToName := maps_copy (clusterIDToName r) (clusterIDToName t),
              root_Clusters := mergeClusters (root_Clusters t) (root_Clusters r)\<rparr>"
  have wft: "wf_map (root_Clusters t)" "wf_maps t" "wf_maps r"
    using wf by (auto simp: wf_tree_def wf_maps_def)
  have wfm: "wf_map (root_Clusters ?r)" using wft by (simp add: wf_mergeClusters wf_maps_def)
  have each: "wf_cluster x \<and> grounded_cluster x" if "(k, x) \<in> set (root_Clusters ?r)" for k x
  proof -
    have "mget (root_Clusters ?r) k = Some x" using that wfm by (simp add: map_of_eq_Some_iff)
    then have "(case mget (root_Clusters t) k of None \<Rightarrow> mget (root_Clusters r) k
       | Some y \<Rightarrow> Some (mergeCluster (mget (root_Clusters r) k) y)) = Some x"
      by (simp add: mergeClusters_get wft)
    then show ?thesis
      using wf_maps_mget [OF wft(2)] wf_maps_mget [OF wft(3)] grounded_mget [OF g(1)] grounded_mget [OF g(2)]
      by (auto split: option.splits intro!: wf_mergeCluster grounded_mergeCluster)
  qed
  then have "wf_maps ?r" "grounded ?r"
    using wfm wft by (auto simp: wf_maps_def list_all_iff grounded_def)
  moreover have "Merge r (Some t) = bubbleUpStatesAndCompactify MINIMAL ?r"
    using False by (simp add: Merge_def)
  ultimately show ?thesis by (simp only: grounded_bubble)
qed

lemma Merge_ids:
  assumes "root_State (Merge r (Some t)) \<noteq> Included"
  shows "clusterIDToName (Merge r (Some t)) = maps_copy (clusterIDToName r) (clusterIDToName t)"
  using assms by (auto simp: Merge_def bubbleUpStatesAndCompactify_def bubbleClusters_ids split: if_splits)

subsection \<open>The cache does not change decisions\<close>

definition scope_valid :: "('r, 'l) labelsLib \<Rightarrow> SimpleAccessScope option \<Rightarrow> bool" where
  "scope_valid L sas \<longleftrightarrow>
     (case sas of None \<Rightarrow> True
      | Some a \<Rightarrow> sas_Id a = AccessScopeExcludeAllId \<or> sas_Id a = AccessScopeIncludeAllId \<or> rules_valid L (sas_Rules a))"

text \<open>Valid rules, and access scopes identified by their identifier.\<close>

definition good_roles :: "('r, 'l) labelsLib \<Rightarrow> ResolvedRole list \<Rightarrow> bool" where
  "good_roles L U \<longleftrightarrow> (\<forall>r \<in> set U. scope_valid L (role_AccessScope r)) \<and>
     (\<forall>r1 \<in> set U. \<forall>r2 \<in> set U.
        accessScopeId (role_AccessScope r1) = accessScopeId (role_AccessScope r2) \<longrightarrow>
        role_AccessScope r1 = role_AccessScope r2)"

definition role_tree ::
  "('r, 'l) labelsLib \<Rightarrow> cluster list \<Rightarrow> namespace list \<Rightarrow> ResolvedRole \<Rightarrow> ScopeTree" where
  "role_tree L cs ns role =
     projr (computeEffectiveAccessScope L
       \<lparr>cache_clusters = cs, cache_namespaces = ns, effectiveAccessScopesByID = []\<rparr> (role_AccessScope role))"

definition cache_inv ::
  "('r, 'l) labelsLib \<Rightarrow> cluster list \<Rightarrow> namespace list \<Rightarrow> ResolvedRole list \<Rightarrow> authorizerDataCache \<Rightarrow> bool" where
  "cache_inv L cs ns U s \<longleftrightarrow> good_roles L U \<and> cache_clusters s = cs \<and> cache_namespaces s = ns \<and>
     (\<forall>r \<in> set U. \<forall>t. mget (effectiveAccessScopesByID s) (accessScopeId (role_AccessScope r)) = Some t \<longrightarrow>
        t = role_tree L cs ns r)"

lemma wf_grounded_Unrestricted:
  "wf_tree UnrestrictedEffectiveAccessScope" "grounded UnrestrictedEffectiveAccessScope"
  "root_State UnrestrictedEffectiveAccessScope = Included"
  by (simp_all add: UnrestrictedEffectiveAccessScope_def newEffectiveAccessScopeTree_def wf_tree_def wf_maps_def
      grounded_def)

lemma grounded_DenyAll: "grounded DenyAllEffectiveAccessScope"
  by (simp add: DenyAllEffectiveAccessScope_def newEffectiveAccessScopeTree_def grounded_def)

text \<open>What the access scope of a role selects.\<close>

definition scope_selects ::
  "('r, 'l) labelsLib \<Rightarrow> cluster list \<Rightarrow> namespace list \<Rightarrow> SimpleAccessScope option \<Rightarrow> string \<Rightarrow> string \<Rightarrow> bool" where
  "scope_selects L cs ns sas c n \<longleftrightarrow>
     (case sas of None \<Rightarrow> False
      | Some a \<Rightarrow>
          if sas_Id a = AccessScopeExcludeAllId then False
          else if sas_Id a = AccessScopeIncludeAllId then True
          else (\<exists>x \<in> set cs. c_Name x = c \<and> rules_select_cluster L (sas_Rules a) x) \<or>
               (\<exists>x \<in> set ns. n_ClusterName x = c \<and> n_Name x = n \<and> rules_select_namespace L (sas_Rules a) x))"

lemma role_tree_spec:
  assumes "scope_valid L (role_AccessScope role)"
  shows "cache_clusters s = cs \<Longrightarrow> cache_namespaces s = ns \<Longrightarrow>
      computeEffectiveAccessScope L s (role_AccessScope role) = Inr (role_tree L cs ns role)"
    and "wf_tree (role_tree L cs ns role)"
    and "grounded (role_tree L cs ns role)"
    and "tree_includes (role_tree L cs ns role) c n \<longleftrightarrow> scope_selects L cs ns (role_AccessScope role) c n"
    and "distinct (map c_Name cs) \<Longrightarrow> distinct (map c_Id cs) \<Longrightarrow>
      root_State (role_tree L cs ns role) = Partial \<Longrightarrow> ids_of cs (role_tree L cs ns role)"
proof -
  let ?t = "role_tree L cs ns role"
  have shapes: "role_AccessScope role = None \<or>
    (\<exists>a. role_AccessScope role = Some a \<and> (sas_Id a = AccessScopeExcludeAllId \<or>
       sas_Id a \<noteq> AccessScopeExcludeAllId \<and> sas_Id a = AccessScopeIncludeAllId \<or>
       sas_Id a \<noteq> AccessScopeExcludeAllId \<and> sas_Id a \<noteq> AccessScopeIncludeAllId \<and> rules_valid L (sas_Rules a)))"
    using assms by (cases "role_AccessScope role") (auto simp: scope_valid_def)
  note defs = role_tree_def computeEffectiveAccessScope_def scope_selects_def
  consider (deny) "?t = DenyAllEffectiveAccessScope" "\<And>c n. \<not> scope_selects L cs ns (role_AccessScope role) c n"
      "\<And>s. computeEffectiveAccessScope L s (role_AccessScope role) = Inr ?t"
    | (all) "?t = UnrestrictedEffectiveAccessScope" "\<And>c n. scope_selects L cs ns (role_AccessScope role) c n"
      "\<And>s. computeEffectiveAccessScope L s (role_AccessScope role) = Inr ?t"
    | (rules) a where "role_AccessScope role = Some a" "sas_Id a \<noteq> AccessScopeExcludeAllId"
      "sas_Id a \<noteq> AccessScopeIncludeAllId" "rules_valid L (sas_Rules a)"
    using shapes by (elim disjE exE conjE) (simp_all add: defs)
  note cases = this
  have all: "(cache_clusters s = cs \<longrightarrow> cache_namespaces s = ns \<longrightarrow>
      computeEffectiveAccessScope L s (role_AccessScope role) = Inr ?t) \<and> wf_tree ?t \<and> grounded ?t \<and>
    (tree_includes ?t c n \<longleftrightarrow> scope_selects L cs ns (role_AccessScope role) c n) \<and>
    (distinct (map c_Name cs) \<longrightarrow> distinct (map c_Id cs) \<longrightarrow> root_State ?t = Partial \<longrightarrow> ids_of cs ?t)"
  proof (cases rule: cases)
    case deny
    then show ?thesis
      by (simp add: wf_tree_DenyAll grounded_DenyAll tree_includes_DenyAll)
        (simp add: DenyAllEffectiveAccessScope_def newEffectiveAccessScopeTree_def)
  next
    case all
    then show ?thesis by (simp add: wf_grounded_Unrestricted tree_includes_def)
  next
    case (rules a)
    obtain t where t: "ComputeEffectiveAccessScope L (sas_Rules a) cs ns MINIMAL = Inr t" "wf_tree t"
      "\<And>c n. tree_includes t c n \<longleftrightarrow>
        (\<exists>x \<in> set cs. c_Name x = c \<and> rules_select_cluster L (sas_Rules a) x) \<or>
        (\<exists>x \<in> set ns. n_ClusterName x = c \<and> n_Name x = n \<and> rules_select_namespace L (sas_Rules a) x)"
      using ComputeEffectiveAccessScope_spec [of L "sas_Rules a" cs ns MINIMAL] rules(4) by auto
    have "?t = t" using rules t(1) by (simp add: role_tree_def computeEffectiveAccessScope_def)
    with t rules Compute_grounded [OF t(1,2)] Compute_ids [OF t(1)] show ?thesis
      by (simp add: computeEffectiveAccessScope_def scope_selects_def)
  qed
  show "cache_clusters s = cs \<Longrightarrow> cache_namespaces s = ns \<Longrightarrow>
      computeEffectiveAccessScope L s (role_AccessScope role) = Inr ?t" using all by blast
  show "wf_tree ?t" "grounded ?t" "tree_includes ?t c n \<longleftrightarrow> scope_selects L cs ns (role_AccessScope role) c n"
    using all by blast+
  show "distinct (map c_Name cs) \<Longrightarrow> distinct (map c_Id cs) \<Longrightarrow> root_State ?t = Partial \<Longrightarrow> ids_of cs ?t"
    using all by blast
qed

lemma getEffectiveAccessScope_inv:
  assumes inv: "cache_inv L cs ns U s" and role: "role \<in> set U"
  shows "\<exists>s1. getEffectiveAccessScope L (role_AccessScope role) s = (Inr (role_tree L cs ns role), s1) \<and>
     cache_inv L cs ns U s1"
proof (cases "mget (effectiveAccessScopesByID s) (accessScopeId (role_AccessScope role))")
  case (Some t)
  then have "t = role_tree L cs ns role" using inv role by (auto simp: cache_inv_def)
  with Some inv show ?thesis by (simp add: getEffectiveAccessScope_def getEffectiveAccessScopeFromCache_def)
next
  case None
  have "scope_valid L (role_AccessScope role)"
    using inv role by (auto simp: cache_inv_def good_roles_def)
  from role_tree_spec(1) [OF this] inv
  have c: "computeEffectiveAccessScope L s (role_AccessScope role) = Inr (role_tree L cs ns role)"
    by (simp add: cache_inv_def)
  have "role_tree L cs ns role = role_tree L cs ns r"
    if "r \<in> set U" "accessScopeId (role_AccessScope r) = accessScopeId (role_AccessScope role)" for r
  proof -
    have "role_AccessScope r = role_AccessScope role"
      using inv role that by (auto simp: cache_inv_def good_roles_def)
    then show ?thesis by (simp add: role_tree_def)
  qed
  with None c inv show ?thesis
    by (auto simp: getEffectiveAccessScope_def getEffectiveAccessScopeFromCache_def cache_inv_def)
qed

subsection \<open>The decisions, and the contract of the interface\<close>

fun core_roles :: "builtinCore \<Rightarrow> ResolvedRole list" where
  "core_roles (BuiltinUniform b) = []"
| "core_roles (GlobalLevel roles) = roles"
| "core_roles (AccessModeLevel roles am) = roles"
| "core_roles (ResourceLevel roles am md) = roles"
| "core_roles (ClusterNamespaceLevel roles am md c ns) = roles"

fun builtin_allows :: "('r, 'l) labelsLib \<Rightarrow> cluster list \<Rightarrow> namespace list \<Rightarrow> builtinCore \<Rightarrow> bool" where
  "builtin_allows L cs ns (BuiltinUniform b) = b"
| "builtin_allows L cs ns (GlobalLevel roles) = False"
| "builtin_allows L cs ns (AccessModeLevel roles am) = False"
| "builtin_allows L cs ns (ResourceLevel roles am md) =
     (GetScope md = GlobalScope \<or> (\<exists>role \<in> set roles. root_State (role_tree L cs ns role) = Included))"
| "builtin_allows L cs ns (ClusterNamespaceLevel roles am md c n) =
     (\<exists>role \<in> set roles. effectiveAccessScopeAllows (role_tree L cs ns role) md c n)"

definition merged_tree :: "('r, 'l) labelsLib \<Rightarrow> cluster list \<Rightarrow> namespace list \<Rightarrow> ResolvedRole list \<Rightarrow> ScopeTree" where
  "merged_tree L cs ns roles =
     fold (\<lambda>role t. Merge t (Some (role_tree L cs ns role))) roles DenyAllEffectiveAccessScope"

definition resource_scope_tree ::
  "('r, 'l) labelsLib \<Rightarrow> cluster list \<Rightarrow> namespace list \<Rightarrow> ResolvedRole list \<Rightarrow> Access \<Rightarrow> resourceMetadata
     \<Rightarrow> resourceWithAccess \<Rightarrow> ScopeTree" where
  "resource_scope_tree L cs ns roles am md r =
     (if am < rwa_access r then DenyAllEffectiveAccessScope
      else if md_resource md \<noteq> md_resource (rwa_resource r) \<and>
              (case md_replacing md of None \<Rightarrow> True | Some x \<Rightarrow> md_resource x \<noteq> md_resource (rwa_resource r))
      then DenyAllEffectiveAccessScope
      else if GetScope md = GlobalScope then UnrestrictedEffectiveAccessScope
      else merged_tree L cs ns roles)"

text \<open>The scope of the cores from the resource level down, which are the ones clients ask.\<close>

fun builtin_scope ::
  "('r, 'l) labelsLib \<Rightarrow> cluster list \<Rightarrow> namespace list \<Rightarrow> builtinCore \<Rightarrow> resourceWithAccess \<Rightarrow> ScopeTree" where
  "builtin_scope L cs ns (BuiltinUniform b) r =
     (if b then UnrestrictedEffectiveAccessScope else DenyAllEffectiveAccessScope)"
| "builtin_scope L cs ns (ResourceLevel roles am md) r = resource_scope_tree L cs ns roles am md r"
| "builtin_scope L cs ns (ClusterNamespaceLevel roles am md c n) r = resource_scope_tree L cs ns roles am md r"
| "builtin_scope L cs ns (GlobalLevel roles) r = DenyAllEffectiveAccessScope"
| "builtin_scope L cs ns (AccessModeLevel roles am) r = DenyAllEffectiveAccessScope"

fun at_resource_level :: "builtinCore \<Rightarrow> bool" where
  "at_resource_level (GlobalLevel roles) = False"
| "at_resource_level (AccessModeLevel roles am) = False"
| "at_resource_level _ = True"

lemma resourceLevelAllowed_inv:
  "cache_inv L cs ns U s \<Longrightarrow> set roles \<subseteq> set U \<Longrightarrow>
   \<exists>s1. resourceLevelAllowed L roles s =
      (\<exists>role \<in> set roles. root_State (role_tree L cs ns role) = Included, s1) \<and> cache_inv L cs ns U s1"
proof (induction roles arbitrary: s)
  case (Cons role roles)
  then obtain s1 where "getEffectiveAccessScope L (role_AccessScope role) s = (Inr (role_tree L cs ns role), s1)"
    "cache_inv L cs ns U s1"
    using getEffectiveAccessScope_inv [of L cs ns U s role] by auto
  with Cons.IH [of s1] Cons.prems(2) show ?case by auto
qed simp

lemma clusterNamespaceLevelAllowed_inv:
  "cache_inv L cs ns U s \<Longrightarrow> set roles \<subseteq> set U \<Longrightarrow>
   \<exists>s1. clusterNamespaceLevelAllowed L md c n roles s =
      (\<exists>role \<in> set roles. effectiveAccessScopeAllows (role_tree L cs ns role) md c n, s1) \<and> cache_inv L cs ns U s1"
proof (induction roles arbitrary: s)
  case (Cons role roles)
  then obtain s1 where "getEffectiveAccessScope L (role_AccessScope role) s = (Inr (role_tree L cs ns role), s1)"
    "cache_inv L cs ns U s1"
    using getEffectiveAccessScope_inv [of L cs ns U s role] by auto
  with Cons.IH [of s1] Cons.prems(2) show ?case by auto
qed simp

lemma mergeRoleScopes_inv:
  "cache_inv L cs ns U s \<Longrightarrow> set roles \<subseteq> set U \<Longrightarrow>
   \<exists>s1. mergeRoleScopes L roles eas s =
      (Inr (fold (\<lambda>role t. Merge t (Some (role_tree L cs ns role))) roles eas), s1) \<and> cache_inv L cs ns U s1"
proof (induction roles arbitrary: s eas)
  case (Cons role roles)
  then obtain s1 where "getEffectiveAccessScope L (role_AccessScope role) s = (Inr (role_tree L cs ns role), s1)"
    "cache_inv L cs ns U s1"
    using getEffectiveAccessScope_inv [of L cs ns U s role] by auto
  with Cons.IH [of s1 "Merge eas (Some (role_tree L cs ns role))"] Cons.prems(2) show ?case by auto
qed simp

lemma resourceLevelEAS_inv:
  "cache_inv L cs ns U s \<Longrightarrow> set roles \<subseteq> set U \<Longrightarrow>
   \<exists>s1. resourceLevelEAS L roles am md r s = (Inr (resource_scope_tree L cs ns roles am md r), s1) \<and>
     cache_inv L cs ns U s1"
  using mergeRoleScopes_inv [of L cs ns U s roles DenyAllEffectiveAccessScope]
  by (auto simp: resourceLevelEAS_def resource_scope_tree_def merged_tree_def)

lemma fold_Merge_spec:
  assumes "\<forall>role \<in> set roles. scope_valid L (role_AccessScope role)" and "wf_tree eas" and "grounded eas"
  shows "wf_tree (fold (\<lambda>role t. Merge t (Some (role_tree L cs ns role))) roles eas) \<and>
    grounded (fold (\<lambda>role t. Merge t (Some (role_tree L cs ns role))) roles eas) \<and>
    (tree_includes (fold (\<lambda>role t. Merge t (Some (role_tree L cs ns role))) roles eas) c n \<longleftrightarrow>
      tree_includes eas c n \<or> (\<exists>role \<in> set roles. scope_selects L cs ns (role_AccessScope role) c n))"
  using assms
proof (induction roles arbitrary: eas)
  case (Cons role roles)
  have v: "scope_valid L (role_AccessScope role)" using Cons.prems by simp
  note t = role_tree_spec(2,3) [OF v, of cs ns]
  note M = Merge_includes [OF Cons.prems(2) t(1)] Merge_grounded [OF Cons.prems(2) t(1) Cons.prems(3) t(2)]
  from Cons.IH [of "Merge eas (Some (role_tree L cs ns role))"] Cons.prems(1) M
  show ?case by (auto simp: role_tree_spec(4) [OF v])
qed simp

lemmas merged_tree_spec = fold_Merge_spec [OF _ wf_tree_DenyAll grounded_DenyAll, folded merged_tree_def,
    simplified tree_includes_DenyAll]

lemma accessModeSub_roles: "accessModeSub reg roles am r = Some c \<Longrightarrow> set (core_roles c) \<subseteq> set roles"
  by (auto simp: accessModeSub_def Let_def split: prod.splits bool.splits if_splits)

interpretation builtin: scope_checker_core_eas "builtinOps reg L" "cache_inv L cs ns U"
  "\<lambda>c. set (core_roles c) \<subseteq> set U" "builtin_allows L cs ns" "\<lambda>c _. at_resource_level c" "builtin_scope L cs ns"
proof unfold_locales
  fix c k c1
  assume "set (core_roles c) \<subseteq> set U" "coreSub (builtinOps reg L) c k = Some c1"
  then show "set (core_roles c1) \<subseteq> set U"
    by (cases c; cases k) (auto simp: builtinOps_def split: if_splits dest: accessModeSub_roles)
next
  fix c s
  assume "set (core_roles c) \<subseteq> set U" "cache_inv L cs ns U s"
  then show "\<exists>s1. coreAllowed (builtinOps reg L) c s = (builtin_allows L cs ns c, s1) \<and> cache_inv L cs ns U s1"
    using resourceLevelAllowed_inv clusterNamespaceLevelAllowed_inv by (cases c) (auto simp: builtinOps_def)
next
  fix c r s
  assume c: "set (core_roles c) \<subseteq> set U" "at_resource_level c" "cache_inv L cs ns U s"
  then show "\<exists>s1. coreEAS (builtinOps reg L) c r s = (Inr (builtin_scope L cs ns c r), s1) \<and> cache_inv L cs ns U s1"
    using resourceLevelEAS_inv by (cases c) (auto simp: builtinOps_def uniformEAS_def)
  have "\<forall>role \<in> set (core_roles c). scope_valid L (role_AccessScope role)"
    using c by (auto simp: cache_inv_def good_roles_def)
  then show "wf_tree (builtin_scope L cs ns c r)"
    by (cases c) (auto simp: resource_scope_tree_def wf_tree_DenyAll wf_grounded_Unrestricted merged_tree_spec)
qed

subsection \<open>Identifiers and minimal form of the trees of roles\<close>

text \<open>Either the identifiers of all clusters are known, or the tree holds nothing.\<close>

definition ids_known :: "cluster list \<Rightarrow> ScopeTree \<Rightarrow> bool" where
  "ids_known cs t \<longleftrightarrow> ids_of cs t \<or> root_Clusters t = [] \<and> clusterIDToName t = [] \<and> root_State t \<noteq> Partial"

definition minimal_unless_included :: "ScopeTree \<Rightarrow> bool" where
  "minimal_unless_included t \<longleftrightarrow> root_State t = Included \<or> minimal_tree t"

lemma empty_tree_facts:
  "ids_known cs DenyAllEffectiveAccessScope" "ids_known cs UnrestrictedEffectiveAccessScope"
  "minimal_unless_included DenyAllEffectiveAccessScope" "minimal_unless_included UnrestrictedEffectiveAccessScope"
  by (simp_all add: ids_known_def minimal_unless_included_def DenyAllEffectiveAccessScope_def minimal_tree_def
      UnrestrictedEffectiveAccessScope_def newEffectiveAccessScopeTree_def)

lemma Merge_ids_known:
  assumes "ids_known cs r" and "ids_known cs t"
  shows "ids_known cs (Merge r (Some t))"
proof (cases "root_State t = Included \<or> root_State r = Included")
  case True
  then show ?thesis using assms(1) by (auto simp: Merge_def ids_known_def ids_of_def)
next
  case False
  then have M: "clusterIDToName (Merge r (Some t)) = maps_copy (clusterIDToName r) (clusterIDToName t)"
    by (simp add: Merge_def bubbleUpStatesAndCompactify_def bubbleClusters_ids)
  show ?thesis
  proof (cases "ids_of cs r \<or> ids_of cs t")
    case True
    with assms have "ids_of cs (Merge r (Some t))"
      unfolding ids_of_def M by (auto simp: ids_known_def ids_of_def simp del: map_of_eq_Some_iff split: option.splits)
    then show ?thesis by (simp add: ids_known_def)
  next
    case F: False
    with assms False show ?thesis
      by (auto simp: ids_known_def Merge_def bubbleUpStatesAndCompactify_def maps_copy_def)
  qed
qed

lemma Merge_minimal:
  assumes "wf_tree r" and "wf_tree t"
  shows "minimal_unless_included (Merge r (Some t))"
proof (cases "root_State t = Included \<or> root_State r = Included")
  case False
  have "wf_tree (Merge r (Some t))" using Merge_includes [OF assms] by blast
  then have "wf_map (root_Clusters (Merge r (Some t)))" by (simp add: wf_tree_def wf_maps_def)
  let ?r = "r\<lparr>clusterIDToName := maps_copy (clusterIDToName r) (clusterIDToName t),
              root_Clusters := mergeClusters (root_Clusters t) (root_Clusters r)\<rparr>"
  have "wf_maps ?r" using wf_maps_merge [OF assms] .
  from minimal_tree_bubble [OF this] False show ?thesis
    by (simp add: Merge_def minimal_unless_included_def)
qed (auto simp: Merge_def minimal_unless_included_def)

lemma Compute_minimal:
  assumes "ComputeEffectiveAccessScope L rules clusters namespaces MINIMAL = Inr t"
  shows "minimal_tree t"
proof -
  let ?t0 = "newEffectiveAccessScopeTree Excluded"
  obtain s t1 where t1: "populateNamespaces L s MINIMAL namespaces
      (fold (populateStateForCluster L s MINIMAL) clusters ?t0) = Inr t1" "t = bubbleUpStatesAndCompactify MINIMAL t1"
    using assms by (auto simp: ComputeEffectiveAccessScope_def split: sum.splits)
  have "building ?t0" by (simp add: building_def wf_maps_def newEffectiveAccessScopeTree_def)
  from populateNamespaces_building [OF populateClusters_building [OF this, of L s MINIMAL clusters, THEN conjunct1],
      of L s MINIMAL namespaces]
  have "wf_maps t1" using t1(1) by (auto simp: building_def)
  then show ?thesis unfolding t1(2) by (rule minimal_tree_bubble)
qed

lemma role_tree_shape:
  assumes "scope_valid L (role_AccessScope role)" and "distinct (map c_Name cs)" and "distinct (map c_Id cs)"
  shows "ids_known cs (role_tree L cs ns role)" and "minimal_unless_included (role_tree L cs ns role)"
proof -
  let ?s = "\<lparr>cache_clusters = cs, cache_namespaces = ns, effectiveAccessScopesByID = []\<rparr>"
  have c: "computeEffectiveAccessScope L ?s (role_AccessScope role) = Inr (role_tree L cs ns role)"
    using role_tree_spec(1) [OF assms(1), of ?s] by simp
  have "role_tree L cs ns role = DenyAllEffectiveAccessScope \<or> role_tree L cs ns role = UnrestrictedEffectiveAccessScope \<or>
      (\<exists>rules. ComputeEffectiveAccessScope L rules cs ns MINIMAL = Inr (role_tree L cs ns role))"
    using c by (auto simp: computeEffectiveAccessScope_def split: option.splits if_splits sum.splits)
  then have "ids_known cs (role_tree L cs ns role) \<and> minimal_unless_included (role_tree L cs ns role)"
  proof (elim disjE exE)
    fix rules assume C: "ComputeEffectiveAccessScope L rules cs ns MINIMAL = Inr (role_tree L cs ns role)"
    show ?thesis
      using Compute_ids [OF C assms(2,3)] Compute_minimal [OF C] by (simp add: ids_known_def minimal_unless_included_def)
  qed (simp_all add: empty_tree_facts)
  then show "ids_known cs (role_tree L cs ns role)" "minimal_unless_included (role_tree L cs ns role)" by blast+
qed

lemma merged_tree_shape:
  assumes "\<forall>role \<in> set roles. scope_valid L (role_AccessScope role)" and "distinct (map c_Name cs)" and "distinct (map c_Id cs)"
  shows "ids_known cs (merged_tree L cs ns roles) \<and> minimal_unless_included (merged_tree L cs ns roles)"
proof -
  have "ids_known cs (fold (\<lambda>role t. Merge t (Some (role_tree L cs ns role))) roles eas) \<and>
      minimal_unless_included (fold (\<lambda>role t. Merge t (Some (role_tree L cs ns role))) roles eas)"
    if "ids_known cs eas" "minimal_unless_included eas" "wf_tree eas" for eas
    using that assms(1)
  proof (induction roles arbitrary: eas)
    case (Cons role roles)
    have v: "scope_valid L (role_AccessScope role)" using Cons.prems by simp
    note t = role_tree_shape [OF v assms(2,3)] role_tree_spec(2) [OF v]
    have "ids_known cs (Merge eas (Some (role_tree L cs ns role)))"
      "minimal_unless_included (Merge eas (Some (role_tree L cs ns role)))"
      "wf_tree (Merge eas (Some (role_tree L cs ns role)))"
      using Cons.prems t Merge_ids_known Merge_minimal Merge_includes by blast+
    with Cons show ?case by simp
  qed simp
  from this [OF empty_tree_facts(1,3) wf_tree_DenyAll] show ?thesis by (simp add: merged_tree_def)
qed

subsection \<open>Reading a tree at a cluster identifier\<close>

lemma GetClusterByID_known:
  assumes "ids_known cs t" and "c \<in> set cs"
  shows "root_State t = Partial \<Longrightarrow> GetClusterByID t (c_Id c) = mget (root_Clusters t) (c_Name c)"
  using assms by (auto simp: ids_known_def ids_of_def GetClusterByID_def mget_str_def)

lemma effectiveAccessScopeAllows_namespace:
  assumes "wf_tree t" and "ids_known cs t" and "c \<in> set cs" and "GetScope md \<noteq> ClusterScope" and "n \<noteq> []"
  shows "effectiveAccessScopeAllows t md (c_Id c) n \<longleftrightarrow> tree_includes t (c_Name c) n"
proof (cases "root_State t = Partial")
  case True
  have "settled_cluster cl" if "mget (root_Clusters t) (c_Name c) = Some cl" for cl
    using mget_in_set [OF that] assms(1) by (auto simp: wf_tree_def list_all_iff)
  then have "\<not> cluster_grants cl n" if "mget (root_Clusters t) (c_Name c) = Some cl" "cl_State cl = Excluded" for cl
    using that by (auto simp: settled_cluster_def cluster_grants_def list_all_iff split: option.splits dest!: mget_in_set)
  with True assms(4,5) GetClusterByID_known [OF assms(2,3) True] show ?thesis
    by (auto simp: effectiveAccessScopeAllows_def tree_includes_alt cluster_grants_def split: option.splits)
next
  case False
  then show ?thesis
    by (auto simp: effectiveAccessScopeAllows_def tree_includes_def)
qed

lemma effectiveAccessScopeAllows_cluster:
  assumes "wf_tree t" and "ids_known cs t" and "grounded t" and "minimal_unless_included t"
    and "c \<in> set cs" and "GetScope md = ClusterScope"
  shows "effectiveAccessScopeAllows t md (c_Id c) n \<longleftrightarrow> (\<exists>n. tree_includes t (c_Name c) n)"
proof (cases "root_State t = Partial")
  case True
  have "\<exists>n. cl_State cl \<noteq> Excluded \<and> cluster_grants cl n" if cl: "mget (root_Clusters t) (c_Name c) = Some cl" for cl
  proof -
    have "cl_State cl \<noteq> Excluded"
      using mget_in_set [OF cl] assms(4) True
      by (auto simp: minimal_unless_included_def minimal_tree_def list_all_iff minimal_cluster_def)
    moreover have "wf_cluster cl" using assms(1) cl wf_maps_mget by (auto simp: wf_tree_def)
    ultimately show ?thesis
      using grounded_mget [OF assms(3) cl] grounded_iff_grants [of cl]
      by (cases "cl_State cl") (auto simp: cluster_grants_def)
  qed
  with True assms(6) GetClusterByID_known [OF assms(2,5) True] show ?thesis
    by (auto simp: effectiveAccessScopeAllows_def tree_includes_alt split: option.splits)
next
  case False
  then show ?thesis
    by (auto simp: effectiveAccessScopeAllows_def tree_includes_def)
qed

subsection \<open>Decisions on the rules of the roles\<close>

definition known_resource :: "resourceRegistry \<Rightarrow> string \<Rightarrow> resourceMetadata \<Rightarrow> bool" where
  "known_resource reg res md \<longleftrightarrow>
     MetadataForResource reg res = (md, True) \<or>
     \<not> snd (MetadataForResource reg res) \<and> MetadataForInternalResource reg res = (md, True)"

definition permitted_roles :: "ResolvedRole list \<Rightarrow> resourceMetadata \<Rightarrow> Access \<Rightarrow> ResolvedRole list" where
  "permitted_roles roles md am = filter (\<lambda>role. IsPermittedBy md (role_Permissions role) am) roles"

lemma accessModeSub_known:
  assumes "known_resource reg res md"
  shows "accessModeSub reg roles am res =
    Some (if permitted_roles roles md am = [] then BuiltinUniform False
          else ResourceLevel (permitted_roles roles md am) am md)"
  using assms
  by (cases "MetadataForResource reg res"; cases "MetadataForInternalResource reg res")
    (auto simp: known_resource_def accessModeSub_def permitted_roles_def)

lemma builtin_resource_path:
  assumes "known_resource reg res md"
  shows "subCore (builtinOps reg L) [AccessModeScopeKey am, ResourceScopeKey res] (GlobalLevel roles) =
    Some (if permitted_roles roles md am = [] then BuiltinUniform False
          else ResourceLevel (permitted_roles roles md am) am md)"
  by (simp add: builtinOps_def accessModeSub_known [OF assms])

lemma cache_inv_new: "good_roles L roles \<Longrightarrow> cache_inv L cs ns roles (snd (newGlobalScopeCheckerCore cs ns roles))"
  by (simp add: cache_inv_def newGlobalScopeCheckerCore_def)

lemma permitted_subset: "set (permitted_roles roles md am) \<subseteq> set roles"
  by (auto simp: permitted_roles_def)

lemma builtin_decision_valid:
  "cache_inv L cs ns roles s \<Longrightarrow> role \<in> set (permitted_roles roles md am) \<Longrightarrow> scope_valid L (role_AccessScope role)"
  by (auto simp: cache_inv_def good_roles_def permitted_roles_def)

lemma builtin_cluster_path:
  assumes "known_resource reg res md"
  shows "subCore (builtinOps reg L) [AccessModeScopeKey am, ResourceScopeKey res, ClusterScopeKey c] (GlobalLevel roles) =
    Some (if permitted_roles roles md am = [] then BuiltinUniform False
          else ClusterNamespaceLevel (permitted_roles roles md am) am md c [])"
  and "subCore (builtinOps reg L) [AccessModeScopeKey am, ResourceScopeKey res, ClusterScopeKey c, NamespaceScopeKey n]
      (GlobalLevel roles) =
    Some (if permitted_roles roles md am = [] then BuiltinUniform False
          else ClusterNamespaceLevel (permitted_roles roles md am) am md c n)"
  by (simp_all add: builtinOps_def accessModeSub_known [OF assms])

lemma builtin_IsAllowed:
  assumes "cache_inv L cs ns roles s" and "subCore (builtinOps reg L) ks (GlobalLevel roles) = Some c1"
  shows "\<exists>s1. IsAllowed (builtinOps reg L) ks (NewScopeChecker (GlobalLevel roles)) s =
     Some (builtin_allows L cs ns c1, s1) \<and> cache_inv L cs ns roles s1"
  using builtin.IsAllowed_meaning [where sc = "NewScopeChecker (GlobalLevel roles)" and U = roles and reg = reg and ks = ks,
      OF _ _ assms(1)] assms(2)
  by simp

lemma builtin_namespace_IsAllowed:
  assumes "distinct (map c_Name cs)" and "distinct (map c_Id cs)" and inv: "cache_inv L cs ns roles s"
    and "known_resource reg res md" and "GetScope md = NamespaceScope" and "c \<in> set cs" and "n \<noteq> []"
  shows "\<exists>s1. IsAllowed (builtinOps reg L)
          [AccessModeScopeKey am, ResourceScopeKey res, ClusterScopeKey (c_Id c), NamespaceScopeKey n]
          (NewScopeChecker (GlobalLevel roles)) s =
        Some (\<exists>role \<in> set roles. IsPermittedBy md (role_Permissions role) am \<and>
                scope_selects L cs ns (role_AccessScope role) (c_Name c) n, s1) \<and>
        cache_inv L cs ns roles s1"
proof -
  have "effectiveAccessScopeAllows (role_tree L cs ns role) md (c_Id c) n \<longleftrightarrow>
      scope_selects L cs ns (role_AccessScope role) (c_Name c) n" if "role \<in> set (permitted_roles roles md am)" for role
    using builtin_decision_valid [OF inv that] assms(5,6,7)
    by (simp add: effectiveAccessScopeAllows_namespace [where cs = cs] role_tree_spec(2,4)
        role_tree_shape(1) [OF _ assms(1,2)])
  then have eq: "builtin_allows L cs ns (if permitted_roles roles md am = [] then BuiltinUniform False
          else ClusterNamespaceLevel (permitted_roles roles md am) am md (c_Id c) n) \<longleftrightarrow>
      (\<exists>role \<in> set roles. IsPermittedBy md (role_Permissions role) am \<and>
                scope_selects L cs ns (role_AccessScope role) (c_Name c) n)"
    by (auto simp: permitted_roles_def filter_empty_conv)
  show ?thesis
    unfolding eq [symmetric] by (rule builtin_IsAllowed [OF inv builtin_cluster_path(2) [OF assms(4)]])
qed

text \<open>
  C1. The built-in authorizer allows access to a namespace of a known cluster exactly when
  one of the roles permits the access to the resource and has an access scope that selects
  the namespace or its cluster, whatever effective access scopes are cached; checks keep
  the cache consistent, and a new authorizer starts with a consistent cache.
\<close>

theorem builtin_namespace_decision:
  assumes "distinct (map c_Name cs)" and "distinct (map c_Id cs)" and "good_roles L roles"
    and "known_resource reg res md" and "GetScope md = NamespaceScope" and "c \<in> set cs" and "n \<noteq> []"
  shows "cache_inv L cs ns roles (snd (newGlobalScopeCheckerCore cs ns roles)) \<and>
    (\<forall>s. cache_inv L cs ns roles s \<longrightarrow>
      (\<exists>s1. IsAllowed (builtinOps reg L)
          [AccessModeScopeKey am, ResourceScopeKey res, ClusterScopeKey (c_Id c), NamespaceScopeKey n]
          (NewScopeChecker (GlobalLevel roles)) s =
        Some (\<exists>role \<in> set roles. IsPermittedBy md (role_Permissions role) am \<and>
                scope_selects L cs ns (role_AccessScope role) (c_Name c) n, s1) \<and>
        cache_inv L cs ns roles s1))"
  using cache_inv_new [OF assms(3)] builtin_namespace_IsAllowed [OF assms(1,2) _ assms(4-7)] by blast

text \<open>
  The built-in authorizer allows access to a cluster-scoped resource of a known cluster
  exactly when a role permits the access and its access scope selects the cluster or at
  least one namespace of it.
\<close>

theorem builtin_cluster_decision:
  assumes "distinct (map c_Name cs)" and "distinct (map c_Id cs)" and "cache_inv L cs ns roles s"
    and "known_resource reg res md" and "GetScope md = ClusterScope" and "c \<in> set cs"
  shows "\<exists>s1. IsAllowed (builtinOps reg L) [AccessModeScopeKey am, ResourceScopeKey res, ClusterScopeKey (c_Id c)]
          (NewScopeChecker (GlobalLevel roles)) s =
        Some (\<exists>role \<in> set roles. IsPermittedBy md (role_Permissions role) am \<and>
                (\<exists>n. scope_selects L cs ns (role_AccessScope role) (c_Name c) n), s1) \<and>
        cache_inv L cs ns roles s1"
proof -
  have "effectiveAccessScopeAllows (role_tree L cs ns role) md (c_Id c) [] \<longleftrightarrow>
      (\<exists>n. scope_selects L cs ns (role_AccessScope role) (c_Name c) n)" if "role \<in> set (permitted_roles roles md am)" for role
    using builtin_decision_valid [OF assms(3) that] assms(5,6)
    by (simp add: effectiveAccessScopeAllows_cluster [where cs = cs] role_tree_spec(2,3,4) role_tree_shape [OF _ assms(1,2)])
  then have eq: "builtin_allows L cs ns (if permitted_roles roles md am = [] then BuiltinUniform False
          else ClusterNamespaceLevel (permitted_roles roles md am) am md (c_Id c) []) \<longleftrightarrow>
      (\<exists>role \<in> set roles. IsPermittedBy md (role_Permissions role) am \<and>
                (\<exists>n. scope_selects L cs ns (role_AccessScope role) (c_Name c) n))"
    by (auto simp: permitted_roles_def filter_empty_conv)
  show ?thesis
    unfolding eq [symmetric] by (rule builtin_IsAllowed [OF assms(3) builtin_cluster_path(1) [OF assms(4)]])
qed

text \<open>
  The built-in authorizer allows access to a globally scoped resource exactly when a
  role permits it, whatever the access scopes of the roles.
\<close>

theorem builtin_global_decision:
  assumes "cache_inv L cs ns roles s" and "known_resource reg res md" and "GetScope md = GlobalScope"
  shows "\<exists>s1. IsAllowed (builtinOps reg L) [AccessModeScopeKey am, ResourceScopeKey res]
          (NewScopeChecker (GlobalLevel roles)) s =
        Some (\<exists>role \<in> set roles. IsPermittedBy md (role_Permissions role) am, s1) \<and>
        cache_inv L cs ns roles s1"
proof -
  have eq: "builtin_allows L cs ns (if permitted_roles roles md am = [] then BuiltinUniform False
          else ResourceLevel (permitted_roles roles md am) am md) \<longleftrightarrow>
      (\<exists>role \<in> set roles. IsPermittedBy md (role_Permissions role) am)"
    using assms(3) by (auto simp: permitted_roles_def filter_empty_conv)
  show ?thesis
    unfolding eq [symmetric] by (rule builtin_IsAllowed [OF assms(1) builtin_resource_path [OF assms(2)]])
qed

lemma builtin_EAS_spec:
  assumes "distinct (map c_Name cs)" and "distinct (map c_Id cs)" and "cache_inv L cs ns roles s"
    and "known_resource reg res md" and "GetScope md \<noteq> GlobalScope" and "md_resource (rwa_resource r) = md_resource md"
    and "rwa_access r = am"
  obtains core t s1 where
    "SubScopeChecker (builtinOps reg L) [AccessModeScopeKey am, ResourceScopeKey res] (NewScopeChecker (GlobalLevel roles))
       = Some (NewScopeChecker core)"
    and "EffectiveAccessScope (builtinOps reg L) r (NewScopeChecker core) s = (Inr t, s1)"
    and "cache_inv L cs ns roles s1" and "wf_tree t" and "grounded t" and "ids_known cs t"
    and "minimal_unless_included t"
    and "\<And>c n. tree_includes t c n \<longleftrightarrow> (\<exists>role \<in> set roles. IsPermittedBy md (role_Permissions role) am \<and>
           scope_selects L cs ns (role_AccessScope role) c n)"
proof -
  let ?pr = "permitted_roles roles md am"
  define core where "core = (if ?pr = [] then BuiltinUniform False else ResourceLevel ?pr am md)"
  have sub: "SubScopeChecker (builtinOps reg L) [AccessModeScopeKey am, ResourceScopeKey res]
      (NewScopeChecker (GlobalLevel roles)) = Some (NewScopeChecker core)"
    unfolding SubScopeChecker.simps builtin_resource_path [OF assms(4)] core_def by simp
  have core: "set (core_roles core) \<subseteq> set roles" "at_resource_level core"
    using permitted_subset [of roles md am] by (simp_all add: core_def)
  obtain s1 where s1: "EffectiveAccessScope (builtinOps reg L) r (NewScopeChecker core) s =
      (Inr (builtin_scope L cs ns core r), s1)" "cache_inv L cs ns roles s1"
    using builtin.eas [OF core assms(3), of reg r] by auto
  have valid: "\<forall>role \<in> set ?pr. scope_valid L (role_AccessScope role)"
    using builtin_decision_valid [OF assms(3)] by blast
  have t: "builtin_scope L cs ns core r = merged_tree L cs ns ?pr"
    using assms(5,6,7) by (simp add: core_def resource_scope_tree_def merged_tree_def)
  note spec = merged_tree_spec [OF valid, of cs ns]
  show thesis
  proof (rule that [OF sub s1(1,2)])
    show "tree_includes (builtin_scope L cs ns core r) c n \<longleftrightarrow>
      (\<exists>role \<in> set roles. IsPermittedBy md (role_Permissions role) am \<and> scope_selects L cs ns (role_AccessScope role) c n)" for c n
      unfolding t using spec by (auto simp: permitted_roles_def)
  qed (use spec merged_tree_shape [OF valid assms(1,2)] in \<open>auto simp: t\<close>)
qed

text \<open>
  C4. The effective access scope of a resource-level checker of the built-in authorizer,
  the merge of the scopes of the permitted roles, agrees with the point checks: looked up at
  the identifier of a known cluster it allows a namespace exactly when a permitted role
  selects it, and it finds no cluster for an identifier that is not known.
\<close>

theorem builtin_effective_access_scope_agrees:
  assumes "distinct (map c_Name cs)" and "distinct (map c_Id cs)" and "cache_inv L cs ns roles s"
    and "known_resource reg res md" and "GetScope md = NamespaceScope"
  shows "\<exists>core t s1.
    SubScopeChecker (builtinOps reg L) [AccessModeScopeKey am, ResourceScopeKey res] (NewScopeChecker (GlobalLevel roles))
       = Some (NewScopeChecker core) \<and>
    EffectiveAccessScope (builtinOps reg L) \<lparr>rwa_resource = md, rwa_access = am\<rparr> (NewScopeChecker core) s = (Inr t, s1) \<and>
    (\<forall>c \<in> set cs. \<forall>n. n \<noteq> [] \<longrightarrow>
       (effectiveAccessScopeAllows t md (c_Id c) n \<longleftrightarrow>
        (\<exists>role \<in> set roles. IsPermittedBy md (role_Permissions role) am \<and>
           scope_selects L cs ns (role_AccessScope role) (c_Name c) n))) \<and>
    (\<forall>i. i \<notin> set (map c_Id cs) \<longrightarrow> mget (clusterIDToName t) i = None)"
proof -
  obtain core t s1 where
    sub: "SubScopeChecker (builtinOps reg L) [AccessModeScopeKey am, ResourceScopeKey res] (NewScopeChecker (GlobalLevel roles))
       = Some (NewScopeChecker core)"
    and eas: "EffectiveAccessScope (builtinOps reg L) \<lparr>rwa_resource = md, rwa_access = am\<rparr> (NewScopeChecker core) s = (Inr t, s1)"
    and t: "wf_tree t" "ids_known cs t"
    and inc: "\<And>c n. tree_includes t c n \<longleftrightarrow> (\<exists>role \<in> set roles. IsPermittedBy md (role_Permissions role) am \<and>
           scope_selects L cs ns (role_AccessScope role) c n)"
    by (rule builtin_EAS_spec [OF assms(1,2,3,4), of "\<lparr>rwa_resource = md, rwa_access = am\<rparr>" am])
      (use assms(5) in simp_all)
  have "effectiveAccessScopeAllows t md (c_Id c) n \<longleftrightarrow>
        (\<exists>role \<in> set roles. IsPermittedBy md (role_Permissions role) am \<and>
           scope_selects L cs ns (role_AccessScope role) (c_Name c) n)" if "c \<in> set cs" "n \<noteq> []" for c n
    using effectiveAccessScopeAllows_namespace [OF t that(1) _ that(2)] assms(5) by (simp add: inc)
  moreover have "\<forall>i. i \<notin> set (map c_Id cs) \<longrightarrow> mget (clusterIDToName t) i = None"
    using t(2) by (auto simp: ids_known_def ids_of_def)
  ultimately show ?thesis using sub eas by blast
qed

subsection \<open>Examples\<close>

definition exampleRoles :: "ResolvedRole list" where
  "exampleRoles =
     [\<lparr>role_Name = ''Auditor'', role_Permissions = [(''Deployment'', READ_ACCESS), (''Cluster'', READ_ACCESS)],
       role_AccessScope = Some \<lparr>sas_Id = ''s1'', sas_Name = ''some'', sas_Rules = Some exampleRules\<rparr>\<rparr>,
      \<lparr>role_Name = ''Operator'', role_Permissions = [(''Integration'', READ_WRITE_ACCESS)],
       role_AccessScope = None\<rparr>]"

lemma exampleRoles_good: "good_roles exampleLabels exampleRoles"
  by (simp add: good_roles_def exampleRoles_def scope_valid_def exampleRules_valid accessScopeId_def)

lemma exampleClusters_distinct: "distinct (map c_Name exampleClusters)" "distinct (map c_Id exampleClusters)"
  by (simp_all add: exampleClusters_def)

lemma example_resources:
  "known_resource stackroxResources ''Deployment'' (ResourceMetadata ''Deployment'' None NamespaceScope)"
  "known_resource stackroxResources ''Cluster'' (ResourceMetadata ''Cluster'' None ClusterScope)"
  "known_resource stackroxResources ''Integration'' (ResourceMetadata ''Integration'' None GlobalScope)"
  unfolding known_resource_def by code_simp+

definition exampleDev :: cluster where
  "exampleDev = \<lparr>c_Id = ''c2'', c_Name = ''dev'', c_Labels = []\<rparr>"

lemma exampleDev_in: "exampleDev \<in> set exampleClusters"
  by (simp add: exampleDev_def exampleClusters_def)

lemmas example_inv = cache_inv_new [OF exampleRoles_good, of exampleClusters exampleNamespaces]

theorem builtin_namespace_decision_witness:
  "\<exists>s1. IsAllowed (builtinOps stackroxResources exampleLabels)
      [AccessModeScopeKey READ_ACCESS, ResourceScopeKey ''Deployment'', ClusterScopeKey ''c2'', NamespaceScopeKey ''web'']
      (NewScopeChecker (GlobalLevel exampleRoles))
      (snd (newGlobalScopeCheckerCore exampleClusters exampleNamespaces exampleRoles)) = Some (True, s1)"
proof -
  have "\<exists>role \<in> set exampleRoles. IsPermittedBy (ResourceMetadata ''Deployment'' None NamespaceScope) (role_Permissions role) READ_ACCESS \<and>
      scope_selects exampleLabels exampleClusters exampleNamespaces (role_AccessScope role) (c_Name exampleDev) ''web''"
    by code_simp
  with builtin_namespace_decision [OF exampleClusters_distinct exampleRoles_good example_resources(1) _ exampleDev_in,
      of "''web''" exampleNamespaces READ_ACCESS] show ?thesis
    by (auto simp: exampleDev_def)
qed

theorem builtin_cluster_decision_witness:
  "\<exists>s1. IsAllowed (builtinOps stackroxResources exampleLabels)
      [AccessModeScopeKey READ_ACCESS, ResourceScopeKey ''Cluster'', ClusterScopeKey ''c2'']
      (NewScopeChecker (GlobalLevel exampleRoles))
      (snd (newGlobalScopeCheckerCore exampleClusters exampleNamespaces exampleRoles)) = Some (True, s1)"
proof -
  have "\<exists>role \<in> set exampleRoles. IsPermittedBy (ResourceMetadata ''Cluster'' None ClusterScope) (role_Permissions role) READ_ACCESS \<and>
      scope_selects exampleLabels exampleClusters exampleNamespaces (role_AccessScope role) (c_Name exampleDev) ''web''"
    by code_simp
  then have "(\<exists>role \<in> set exampleRoles. IsPermittedBy (ResourceMetadata ''Cluster'' None ClusterScope) (role_Permissions role) READ_ACCESS \<and>
      (\<exists>n. scope_selects exampleLabels exampleClusters exampleNamespaces (role_AccessScope role) (c_Name exampleDev) n)) = True"
    by blast
  with builtin_cluster_decision [OF exampleClusters_distinct example_inv example_resources(2) _ exampleDev_in,
      of READ_ACCESS] show ?thesis
    by (auto simp: exampleDev_def)
qed

theorem builtin_global_decision_witness:
  "\<exists>s1. IsAllowed (builtinOps stackroxResources exampleLabels)
      [AccessModeScopeKey READ_WRITE_ACCESS, ResourceScopeKey ''Integration'']
      (NewScopeChecker (GlobalLevel exampleRoles))
      (snd (newGlobalScopeCheckerCore exampleClusters exampleNamespaces exampleRoles)) = Some (True, s1)"
proof -
  have "\<exists>role \<in> set exampleRoles.
      IsPermittedBy (ResourceMetadata ''Integration'' None GlobalScope) (role_Permissions role) READ_WRITE_ACCESS"
    by code_simp
  with builtin_global_decision [OF example_inv example_resources(3), of READ_WRITE_ACCESS] show ?thesis
    by auto
qed

theorem builtin_effective_access_scope_agrees_witness:
  "\<exists>t. effectiveAccessScopeAllows t (ResourceMetadata ''Deployment'' None NamespaceScope) ''c2'' ''web'' \<and>
     (\<exists>core s1. EffectiveAccessScope (builtinOps stackroxResources exampleLabels)
        \<lparr>rwa_resource = ResourceMetadata ''Deployment'' None NamespaceScope, rwa_access = READ_ACCESS\<rparr>
        (NewScopeChecker core) (snd (newGlobalScopeCheckerCore exampleClusters exampleNamespaces exampleRoles)) = (Inr t, s1))"
proof -
  have sel: "\<exists>role \<in> set exampleRoles. IsPermittedBy (ResourceMetadata ''Deployment'' None NamespaceScope) (role_Permissions role) READ_ACCESS \<and>
      scope_selects exampleLabels exampleClusters exampleNamespaces (role_AccessScope role) (c_Name exampleDev) ''web''"
    by code_simp
  show ?thesis
    using builtin_effective_access_scope_agrees [OF exampleClusters_distinct example_inv example_resources(1), of READ_ACCESS]
      sel exampleDev_in by (fastforce simp: exampleDev_def)
qed

end
