(* ===== verification/Sac_Query.thy ===== *)
theory Sac_Query
  imports Builtin_Authorizer
begin

text \<open>
  Search queries and the access control filters injected into them: the query messages and
  builder of \<open>pkg/search\<close> (\<open>parser.go\<close>, \<open>query_builder.go\<close>) and the translation of a scope
  tree into a query, \<open>pkg/sac/query_helper.go\<close>.

  Select, group-by and pagination messages are passed through unchanged by the code
  modelled here; they are values of a type parameter. How the database compares a value of
  a field with a query string is the parameter \<open>fieldMatches\<close> of the semantics; the only
  fact used of it is that the quoted form of a value matches that value and no other.
\<close>

subsection \<open>Queries\<close>

datatype baseQuery =
    MatchNoneQuery
  | MatchField string string bool
  | MatchLinkedFields "(string \<times> string \<times> bool) list"
  | DocIDs "string list"

datatype 'p query = Query (q_body: "'p queryBody") (q_Selects: "'p list") (q_GroupBy: "'p option") (q_Pagination: "'p option")
and 'p queryBody = NoQuery | BaseQuery baseQuery | Conjunction "'p query list" | Disjunction "'p query list"

definition plainQuery :: "'p queryBody \<Rightarrow> 'p query" where
  "plainQuery b = Query b [] None None"

definition queryFromBaseQuery :: "baseQuery \<Rightarrow> 'p query" where
  "queryFromBaseQuery b = plainQuery (BaseQuery b)"

definition disjunctOrConjunctQueries :: "bool \<Rightarrow> 'p query list \<Rightarrow> 'p query" where
  "disjunctOrConjunctQueries isConjunct queries =
     (case queries of
        [] \<Rightarrow> plainQuery NoQuery
      | [q] \<Rightarrow> q
      | _ \<Rightarrow> if isConjunct then plainQuery (Conjunction queries) else plainQuery (Disjunction queries))"

definition DisjunctionQuery :: "'p query list \<Rightarrow> 'p query" where
  "DisjunctionQuery queries = disjunctOrConjunctQueries False queries"

definition ConjunctionQuery :: "'p query list \<Rightarrow> 'p query" where
  "ConjunctionQuery queries = disjunctOrConjunctQueries True queries"

definition FilterQueryByQuery :: "'p query \<Rightarrow> 'p query \<Rightarrow> 'p query" where
  "FilterQueryByQuery baseQ filterQ =
     (case ConjunctionQuery [baseQ, filterQ] of Query b s g _ \<Rightarrow> Query b s g (q_Pagination baseQ))"

definition MatchFieldQuery :: "string \<Rightarrow> string \<Rightarrow> bool \<Rightarrow> 'p query" where
  "MatchFieldQuery field v highlight = queryFromBaseQuery (MatchField field v highlight)"

definition matchLinkedFieldsQuery :: "(string \<times> string \<times> bool) list \<Rightarrow> 'p query" where
  "matchLinkedFieldsQuery fieldValues = queryFromBaseQuery (MatchLinkedFields fieldValues)"

definition docIDQuery :: "string list \<Rightarrow> 'p query" where
  "docIDQuery ids = queryFromBaseQuery (DocIDs ids)"

definition queryFromFieldValues :: "string \<Rightarrow> string list \<Rightarrow> bool \<Rightarrow> 'p query" where
  "queryFromFieldValues field values highlight =
     DisjunctionQuery (map (\<lambda>v. MatchFieldQuery field v highlight) values)"

subsection \<open>The query builder\<close>

record 'p QueryBuilder =
  fieldsToValues :: "(string, string list) gomap"
  qb_ids :: "string list option"
  linkedFields :: "(string \<times> string \<times> bool) list list"
  selectFields :: "'p list"
  highlightedFields :: "string goset"
  groupBy :: "'p option"
  pagination :: "'p option"

definition NewQueryBuilder :: "'p QueryBuilder" where
  "NewQueryBuilder = \<lparr>fieldsToValues = [], qb_ids = None, linkedFields = [], selectFields = [],
     highlightedFields = [], groupBy = None, pagination = None\<rparr>"

definition ExactMatchString :: "string \<Rightarrow> string" where
  "ExactMatchString q = [CHR 0x22] @ q @ [CHR 0x22]"

definition RegexQueryString :: "string \<Rightarrow> string" where
  "RegexQueryString q = ''r/'' @ q"

definition NegateQueryString :: "string \<Rightarrow> string" where
  "NegateQueryString q = ''!'' @ q"

definition IsNegationQuery :: "string \<Rightarrow> bool" where
  "IsNegationQuery v = hasPrefix v ''!''"

definition valuesOf :: "'p QueryBuilder \<Rightarrow> string \<Rightarrow> string list" where
  "valuesOf qb k = (case mget (fieldsToValues qb) k of Some vs \<Rightarrow> vs | None \<Rightarrow> [])"

definition AddStrings :: "string \<Rightarrow> string list \<Rightarrow> 'p QueryBuilder \<Rightarrow> 'p QueryBuilder" where
  "AddStrings k vs qb = qb\<lparr>fieldsToValues := mput k (valuesOf qb k @ vs) (fieldsToValues qb)\<rparr>"

definition AddExactMatches :: "string \<Rightarrow> string list \<Rightarrow> 'p QueryBuilder \<Rightarrow> 'p QueryBuilder" where
  "AddExactMatches k vs qb =
     fold (\<lambda>v qb. qb\<lparr>fieldsToValues := mput k (valuesOf qb k @ [ExactMatchString v]) (fieldsToValues qb)\<rparr>) vs qb"

definition AddRegexes :: "string \<Rightarrow> string list \<Rightarrow> 'p QueryBuilder \<Rightarrow> 'p QueryBuilder" where
  "AddRegexes k vs qb =
     fold (\<lambda>v qb. qb\<lparr>fieldsToValues := mput k (valuesOf qb k @ [RegexQueryString v]) (fieldsToValues qb)\<rparr>) vs qb"

definition AddMapQuery :: "string \<Rightarrow> string \<Rightarrow> string \<Rightarrow> 'p QueryBuilder \<Rightarrow> 'p QueryBuilder" where
  "AddMapQuery k mapKey mapValue qb = AddStrings k [mapKey @ ''='' @ mapValue] qb"

definition MarkHighlighted :: "string \<Rightarrow> 'p QueryBuilder \<Rightarrow> 'p QueryBuilder" where
  "MarkHighlighted k qb = qb\<lparr>highlightedFields := gs_ins k (highlightedFields qb)\<rparr>"

definition AddStringsHighlighted :: "string \<Rightarrow> string list \<Rightarrow> 'p QueryBuilder \<Rightarrow> 'p QueryBuilder" where
  "AddStringsHighlighted k vs qb = MarkHighlighted k (AddStrings k vs qb)"

definition AddDocIDs :: "string list \<Rightarrow> 'p QueryBuilder \<Rightarrow> 'p QueryBuilder" where
  "AddDocIDs ids qb =
     qb\<lparr>qb_ids := Some ((case qb_ids qb of None \<Rightarrow> [] | Some xs \<Rightarrow> xs) @ ids)\<rparr>"

text \<open>\<open>None\<close> is the panic on slices of different lengths.\<close>

definition addLinkedFields :: "string list \<Rightarrow> string list \<Rightarrow> bool \<Rightarrow> 'p QueryBuilder \<Rightarrow> 'p QueryBuilder option" where
  "addLinkedFields fs vs highlighted qb =
     (if length fs \<noteq> length vs then None
      else Some (qb\<lparr>linkedFields := linkedFields qb @
                      [map (\<lambda>(f, v). (f, v, highlighted)) (zip fs vs)]\<rparr>))"

definition AddLinkedFieldsWithHighlightValues ::
  "string list \<Rightarrow> string list \<Rightarrow> bool list \<Rightarrow> 'p QueryBuilder \<Rightarrow> 'p QueryBuilder option" where
  "AddLinkedFieldsWithHighlightValues fs vs highlighted qb =
     (if length fs \<noteq> length vs \<or> length fs \<noteq> length highlighted then None
      else Some (qb\<lparr>linkedFields := linkedFields qb @ [zip fs (zip vs highlighted)]\<rparr>))"

definition getSortedFields :: "'p QueryBuilder \<Rightarrow> string list" where
  "getSortedFields qb = sort_by (<) (mkeys (fieldsToValues qb))"

definition ProtoQuery :: "'p QueryBuilder \<Rightarrow> 'p query" where
  "ProtoQuery qb =
     (let queries =
            (case qb_ids qb of None \<Rightarrow> [] | Some ids \<Rightarrow> [docIDQuery ids])
            @ map (\<lambda>f. queryFromFieldValues f (valuesOf qb f) (setContains (highlightedFields qb) f)) (getSortedFields qb)
            @ map matchLinkedFieldsQuery (linkedFields qb)
      in case ConjunctionQuery queries of
           Query b s g p \<Rightarrow>
             Query b (if selectFields qb \<noteq> [] then selectFields qb else s)
               (case groupBy qb of None \<Rightarrow> g | Some x \<Rightarrow> Some x)
               (case pagination qb of None \<Rightarrow> p | Some x \<Rightarrow> Some x))"

subsection \<open>Access control filters\<close>

definition clusterIDField :: string where "clusterIDField = ''Cluster ID''"
definition namespaceField :: string where "namespaceField = ''Namespace''"

definition getMatchNoneQuery :: "'p query" where
  "getMatchNoneQuery = queryFromBaseQuery MatchNoneQuery"

definition getClusterMatchQuery :: "string list \<Rightarrow> 'p query" where
  "getClusterMatchQuery clusterIDs = ProtoQuery (AddExactMatches clusterIDField clusterIDs NewQueryBuilder)"

definition getNamespaceMatchQuery :: "string list \<Rightarrow> 'p query" where
  "getNamespaceMatchQuery nss = ProtoQuery (AddExactMatches namespaceField nss NewQueryBuilder)"

text \<open>A nil query, \<open>None\<close>, means that no filter is needed.\<close>

definition BuildClusterLevelSACQueryFilter :: "ScopeTree option \<Rightarrow> 'p query option" where
  "BuildClusterLevelSACQueryFilter rt =
     (case rt of None \<Rightarrow> Some getMatchNoneQuery
      | Some root \<Rightarrow>
          if root_State root = Included then None
          else if root_State root = Excluded then Some getMatchNoneQuery
          else
            (let clusterFilters = filter (\<lambda>clusterID.
                   case GetClusterByID root clusterID of
                     None \<Rightarrow> False
                   | Some c \<Rightarrow> \<not> (cl_State c = Excluded \<or> cl_State c = Partial \<and> length (namespacesOf c) = 0))
                   (GetClusterIDs root)
             in if length clusterFilters = 0 then Some getMatchNoneQuery
                else Some (getClusterMatchQuery clusterFilters)))"

text \<open>The filter for one cluster of \<open>BuildClusterNamespaceLevelSACQueryFilter\<close>, if any.\<close>

definition clusterNamespaceFilter :: "ScopeTree \<Rightarrow> string \<Rightarrow> 'p query option" where
  "clusterNamespaceFilter root clusterID =
     (case GetClusterByID root clusterID of
        None \<Rightarrow> None
      | Some c \<Rightarrow>
          (case cl_State c of
             Included \<Rightarrow> Some (getClusterMatchQuery [clusterID])
           | Partial \<Rightarrow>
               (let namespaceFilters = map fst (filter (\<lambda>(k, n). ns_State n = Included) (namespacesOf c))
                in if length namespaceFilters > 0
                   then Some (ConjunctionQuery [getClusterMatchQuery [clusterID], getNamespaceMatchQuery namespaceFilters])
                   else None)
           | Excluded \<Rightarrow> None))"

definition BuildClusterNamespaceLevelSACQueryFilter :: "ScopeTree option \<Rightarrow> 'p query option" where
  "BuildClusterNamespaceLevelSACQueryFilter rt =
     (case rt of None \<Rightarrow> Some getMatchNoneQuery
      | Some root \<Rightarrow>
          if root_State root = Excluded then Some getMatchNoneQuery
          else if root_State root = Included then None
          else
            (let clusterFilters = List.map_filter (clusterNamespaceFilter root) (GetClusterIDs root)
             in case clusterFilters of
                  [] \<Rightarrow> Some getMatchNoneQuery
                | [q] \<Rightarrow> Some q
                | _ \<Rightarrow> Some (DisjunctionQuery clusterFilters)))"

subsection \<open>What a query selects\<close>

text \<open>An object is its identifier and the values of its search fields. The empty query selects
  everything.\<close>

fun base_matches :: "(string \<Rightarrow> string \<Rightarrow> bool) \<Rightarrow> string \<Rightarrow> (string \<Rightarrow> string) \<Rightarrow> baseQuery \<Rightarrow> bool" where
  "base_matches fm i obj MatchNoneQuery = False"
| "base_matches fm i obj (MatchField f v h) = fm v (obj f)"
| "base_matches fm i obj (MatchLinkedFields fvs) = list_all (\<lambda>(f, v, h). fm v (obj f)) fvs"
| "base_matches fm i obj (DocIDs ids) = (i \<in> set ids)"

fun query_matches :: "(string \<Rightarrow> string \<Rightarrow> bool) \<Rightarrow> string \<Rightarrow> (string \<Rightarrow> string) \<Rightarrow> 'p query \<Rightarrow> bool"
  and body_matches :: "(string \<Rightarrow> string \<Rightarrow> bool) \<Rightarrow> string \<Rightarrow> (string \<Rightarrow> string) \<Rightarrow> 'p queryBody \<Rightarrow> bool" where
  "query_matches fm i obj (Query b s g p) = body_matches fm i obj b"
| "body_matches fm i obj NoQuery = True"
| "body_matches fm i obj (BaseQuery b) = base_matches fm i obj b"
| "body_matches fm i obj (Conjunction qs) = list_all (query_matches fm i obj) qs"
| "body_matches fm i obj (Disjunction qs) = list_ex (query_matches fm i obj) qs"

definition exact_fields :: "(string \<Rightarrow> string \<Rightarrow> bool) \<Rightarrow> bool" where
  "exact_fields fm \<longleftrightarrow> (\<forall>v x. fm (ExactMatchString v) x \<longleftrightarrow> x = v)"

lemma matches_plain [simp]: "query_matches fm i obj (plainQuery b) = body_matches fm i obj b"
  by (simp add: plainQuery_def)

lemma matches_Conjunction [simp]:
  "query_matches fm i obj (ConjunctionQuery qs) \<longleftrightarrow> list_all (query_matches fm i obj) qs"
  by (auto simp: ConjunctionQuery_def disjunctOrConjunctQueries_def split: list.splits)

lemma matches_Disjunction [simp]:
  "qs \<noteq> [] \<Longrightarrow> query_matches fm i obj (DisjunctionQuery qs) \<longleftrightarrow> list_ex (query_matches fm i obj) qs"
  by (auto simp: DisjunctionQuery_def disjunctOrConjunctQueries_def split: list.splits)

lemma AddExactMatches_values:
  "vs \<noteq> [] \<Longrightarrow> AddExactMatches k vs NewQueryBuilder = NewQueryBuilder\<lparr>fieldsToValues := [(k, map ExactMatchString vs)]\<rparr>"
proof -
  have "fold (\<lambda>v qb. qb\<lparr>fieldsToValues := mput k (valuesOf qb k @ [ExactMatchString v]) (fieldsToValues qb)\<rparr>) vs
      (NewQueryBuilder\<lparr>fieldsToValues := [(k, xs)]\<rparr>) = NewQueryBuilder\<lparr>fieldsToValues := [(k, xs @ map ExactMatchString vs)]\<rparr>" for xs vs
    by (induction vs arbitrary: xs) (simp_all add: valuesOf_def)
  note loop = this
  assume "vs \<noteq> []"
  then obtain v ws where "vs = v # ws" by (cases vs) auto
  with loop [of ws "[ExactMatchString v]"] show ?thesis
    by (simp add: AddExactMatches_def valuesOf_def) (simp add: NewQueryBuilder_def)
qed

lemma exact_query_matches:
  assumes "exact_fields fm" and "vs \<noteq> []"
  shows "query_matches fm i obj (ProtoQuery (AddExactMatches k vs NewQueryBuilder) :: 'p query) \<longleftrightarrow> obj k \<in> set vs"
proof -
  have q: "(ProtoQuery (AddExactMatches k vs NewQueryBuilder) :: 'p query) =
      queryFromFieldValues k (map ExactMatchString vs) False"
    unfolding AddExactMatches_values [OF assms(2)]
    by (cases "queryFromFieldValues k (map ExactMatchString vs) False :: 'p query")
      (simp add: ProtoQuery_def NewQueryBuilder_def getSortedFields_def sort_by_def
        valuesOf_def ConjunctionQuery_def disjunctOrConjunctQueries_def setContains_def)
  show ?thesis
    unfolding q queryFromFieldValues_def using assms
    by (auto simp: MatchFieldQuery_def queryFromBaseQuery_def list_ex_iff exact_fields_def)
qed

lemma clusterNamespaceFilter_matches:
  assumes "exact_fields fm"
  shows "(\<exists>q :: 'p query. clusterNamespaceFilter root clusterID = Some q \<and> query_matches fm i obj q) \<longleftrightarrow>
    obj clusterIDField = clusterID \<and>
    (\<exists>c. GetClusterByID root clusterID = Some c \<and>
       (cl_State c = Included \<or> cl_State c = Partial \<and>
         (\<exists>n. (obj namespaceField, n) \<in> set (namespacesOf c) \<and> ns_State n = Included)))"
proof (cases "GetClusterByID root clusterID")
  case (Some c)
  let ?nss = "map fst (filter (\<lambda>(k, n). ns_State n = Included) (namespacesOf c))"
  have mem: "x \<in> set ?nss \<longleftrightarrow> (\<exists>n. (x, n) \<in> set (namespacesOf c) \<and> ns_State n = Included)" for x
    by force
  have cl: "query_matches fm i obj (getClusterMatchQuery [clusterID] :: 'p query) \<longleftrightarrow> obj clusterIDField = clusterID"
    using exact_query_matches [OF assms, of "[clusterID]"] by (simp add: getClusterMatchQuery_def)
  have ns: "query_matches fm i obj (getNamespaceMatchQuery ?nss :: 'p query) \<longleftrightarrow> obj namespaceField \<in> set ?nss" if "?nss \<noteq> []"
    using exact_query_matches [OF assms that] by (simp add: getNamespaceMatchQuery_def)
  show ?thesis
  proof (cases "cl_State c")
    case Partial
    show ?thesis
    proof (cases "?nss = []")
      case True
      then have "\<not> (\<exists>n. (obj namespaceField, n) \<in> set (namespacesOf c) \<and> ns_State n = Included)"
        using mem [of "obj namespaceField"] by (metis empty_iff list.set(1))
      moreover have "clusterNamespaceFilter root clusterID = (None :: 'p query option)"
        using Some Partial True by (simp add: clusterNamespaceFilter_def)
      ultimately show ?thesis using Some Partial by simp
    next
      case False
      then have "clusterNamespaceFilter root clusterID =
          Some (ConjunctionQuery [getClusterMatchQuery [clusterID], getNamespaceMatchQuery ?nss] :: 'p query)"
        using Some Partial by (simp add: clusterNamespaceFilter_def)
      with False Some Partial show ?thesis by (simp add: cl ns mem del: set_map set_filter)
    qed
  qed (use Some cl in \<open>simp_all add: clusterNamespaceFilter_def\<close>)
qed (simp add: clusterNamespaceFilter_def)

lemma map_filter_empty_iff: "List.map_filter f xs = [] \<longleftrightarrow> (\<forall>x \<in> set xs. f x = None)"
  by (induction xs) (auto simp: List.map_filter_def)

lemma set_map_filter: "y \<in> set (List.map_filter f xs) \<longleftrightarrow> (\<exists>x \<in> set xs. f x = Some y)"
  by (induction xs) (auto simp: List.map_filter_def)

lemma namespace_filter_matches:
  assumes "exact_fields fm" and "wf_tree t"
  shows "(case (BuildClusterNamespaceLevelSACQueryFilter (Some t) :: 'p query option) of None \<Rightarrow> True | Some q \<Rightarrow> query_matches fm i obj q) \<longleftrightarrow>
    root_State t = Included \<or>
    obj clusterIDField \<in> set (GetClusterIDs t) \<and>
      tree_includes t (mget_str (clusterIDToName t) (obj clusterIDField)) (obj namespaceField)"
proof (cases "root_State t")
  case Partial
  let ?fs = "List.map_filter (clusterNamespaceFilter t) (GetClusterIDs t) :: 'p query list"
  have "(case (BuildClusterNamespaceLevelSACQueryFilter (Some t) :: 'p query option) of None \<Rightarrow> True | Some q \<Rightarrow> query_matches fm i obj q) \<longleftrightarrow>
      list_ex (query_matches fm i obj) ?fs"
    using Partial
    by (cases ?fs rule: remdups_adj.cases)
      (simp_all add: BuildClusterNamespaceLevelSACQueryFilter_def Let_def getMatchNoneQuery_def queryFromBaseQuery_def)
  also have "\<dots> \<longleftrightarrow> (\<exists>x \<in> set (GetClusterIDs t). \<exists>q :: 'p query. clusterNamespaceFilter t x = Some q \<and> query_matches fm i obj q)"
    unfolding list_ex_iff Bex_def set_map_filter by blast
  also have "\<dots> \<longleftrightarrow> obj clusterIDField \<in> set (GetClusterIDs t) \<and>
      (\<exists>c. GetClusterByID t (obj clusterIDField) = Some c \<and>
       (cl_State c = Included \<or> cl_State c = Partial \<and>
         (\<exists>n. (obj namespaceField, n) \<in> set (namespacesOf c) \<and> ns_State n = Included)))"
    unfolding clusterNamespaceFilter_matches [OF assms(1)] by blast
  also have "\<dots> \<longleftrightarrow> obj clusterIDField \<in> set (GetClusterIDs t) \<and>
      tree_includes t (mget_str (clusterIDToName t) (obj clusterIDField)) (obj namespaceField)"
  proof -
    have "(\<exists>n. (x, n) \<in> set (namespacesOf c) \<and> ns_State n = Included) \<longleftrightarrow> cluster_grants c x"
      if "GetClusterByID t y = Some c" "cl_State c = Partial" for c x y
    proof -
      have "wf_map (namespacesOf c)"
        using that(1) assms(2) wf_maps_mget by (auto simp: GetClusterByID_def wf_tree_def wf_cluster_def [symmetric])
      then have "(\<exists>n. (x, n) \<in> set (namespacesOf c) \<and> ns_State n = Included) \<longleftrightarrow>
          (\<exists>n. mget (namespacesOf c) x = Some n \<and> ns_State n = Included)" by simp
      also have "\<dots> \<longleftrightarrow> cluster_grants c x"
        using that(2) by (auto simp: cluster_grants_def split: option.splits)
      finally show ?thesis .
    qed
    then show ?thesis
      using Partial by (auto simp: tree_includes_def GetClusterByID_def split: option.splits)
  qed
  finally show ?thesis using Partial by simp
qed (auto simp: BuildClusterNamespaceLevelSACQueryFilter_def getMatchNoneQuery_def queryFromBaseQuery_def tree_includes_def)

text \<open>
  The namespace-level filter built from a well-formed scope tree selects exactly the
  objects whose cluster identifier is known to the tree and whose namespace the tree
  includes, and every object when the tree is unrestricted; without a tree it selects
  nothing.
\<close>

theorem BuildClusterNamespaceLevelSACQueryFilter_correct:
  assumes "exact_fields fm" and "\<And>t. rt = Some t \<Longrightarrow> wf_tree t"
  shows "(case (BuildClusterNamespaceLevelSACQueryFilter rt :: 'p query option) of None \<Rightarrow> True | Some q \<Rightarrow> query_matches fm i obj q) \<longleftrightarrow>
    (\<exists>t. rt = Some t \<and> (root_State t = Included \<or>
      obj clusterIDField \<in> set (GetClusterIDs t) \<and>
      tree_includes t (mget_str (clusterIDToName t) (obj clusterIDField)) (obj namespaceField)))"
proof (cases rt)
  case None
  then show ?thesis
    by (simp add: BuildClusterNamespaceLevelSACQueryFilter_def getMatchNoneQuery_def queryFromBaseQuery_def)
next
  case (Some t)
  with namespace_filter_matches [OF assms(1) assms(2) [OF Some], of i obj] show ?thesis by simp
qed

text \<open>A concrete comparison of field values for the examples: quoted strings match exactly.\<close>

definition exampleFieldMatches :: "string \<Rightarrow> string \<Rightarrow> bool" where
  "exampleFieldMatches v x \<longleftrightarrow> v = ExactMatchString x"

lemma exampleFieldMatches_exact: "exact_fields exampleFieldMatches"
  by (auto simp: exact_fields_def exampleFieldMatches_def ExactMatchString_def)

definition exampleObject :: "string \<Rightarrow> string \<Rightarrow> string \<Rightarrow> string" where
  "exampleObject c n f = (if f = clusterIDField then c else if f = namespaceField then n else [])"

lemma exampleObject_fields [simp]:
  "exampleObject c n clusterIDField = c" "exampleObject c n namespaceField = n"
  by (simp_all add: exampleObject_def clusterIDField_def namespaceField_def)

theorem BuildClusterNamespaceLevelSACQueryFilter_correct_witness:
  "\<exists>q :: nat query. BuildClusterNamespaceLevelSACQueryFilter (Some (bubbleUpStatesAndCompactify MINIMAL exampleTree)) = Some q \<and>
     query_matches exampleFieldMatches ''d'' (exampleObject ''1'' ''n'') q \<and>
     \<not> query_matches exampleFieldMatches ''d'' (exampleObject ''1'' ''m'') q"
proof -
  let ?t = "bubbleUpStatesAndCompactify MINIMAL exampleTree"
  have st: "root_State ?t = Partial" and ids: "clusterIDToName ?t = [(''1'', ''a''), (''2'', ''b'')]"
    by code_simp+
  have "(case (BuildClusterNamespaceLevelSACQueryFilter (Some ?t) :: nat query option) of
        None \<Rightarrow> True | Some q \<Rightarrow> query_matches exampleFieldMatches ''d'' (exampleObject ''1'' n) q) \<longleftrightarrow>
      (\<exists>t. Some ?t = Some t \<and> (root_State t = Included \<or>
        exampleObject ''1'' n clusterIDField \<in> set (GetClusterIDs t) \<and>
        tree_includes t (mget_str (clusterIDToName t) (exampleObject ''1'' n clusterIDField))
          (exampleObject ''1'' n namespaceField)))" for n
    by (rule BuildClusterNamespaceLevelSACQueryFilter_correct [OF exampleFieldMatches_exact])
      (auto intro: wf_tree_bubble exampleTree_wf)
  then have m: "(case (BuildClusterNamespaceLevelSACQueryFilter (Some ?t) :: nat query option) of
        None \<Rightarrow> True | Some q \<Rightarrow> query_matches exampleFieldMatches ''d'' (exampleObject ''1'' n) q) \<longleftrightarrow>
      raw_includes exampleTree ''a'' n" for n
    by (simp add: st ids GetClusterIDs_def mget_str_def tree_includes_bubble exampleTree_wf)
  have raw: "raw_includes exampleTree ''a'' ''n''" "\<not> raw_includes exampleTree ''a'' ''m''"
    by (simp_all add: raw_includes_def exampleTree_def cluster_grants_def namespacesOf_def includedNamespaceSubTree_def)
  show ?thesis
    using m [of "''n''"] m [of "''m''"] raw
    by (cases "BuildClusterNamespaceLevelSACQueryFilter (Some ?t) :: nat query option") auto
qed

text \<open>
  The cluster-level filter built from a well-formed tree whose partial clusters include
  a namespace selects exactly the objects of the known clusters in which the tree includes
  some namespace, and every object when the tree is unrestricted.
\<close>

theorem BuildClusterLevelSACQueryFilter_correct:
  assumes "exact_fields fm" and "wf_tree t" and "grounded t"
  shows "(case (BuildClusterLevelSACQueryFilter (Some t) :: 'p query option) of None \<Rightarrow> True | Some q \<Rightarrow> query_matches fm i obj q) \<longleftrightarrow>
    root_State t = Included \<or>
    obj clusterIDField \<in> set (GetClusterIDs t) \<and>
      (\<exists>n. tree_includes t (mget_str (clusterIDToName t) (obj clusterIDField)) n)"
proof (cases "root_State t")
  case Partial
  let ?keep = "\<lambda>clusterID. case GetClusterByID t clusterID of None \<Rightarrow> False
     | Some c \<Rightarrow> \<not> (cl_State c = Excluded \<or> cl_State c = Partial \<and> length (namespacesOf c) = 0)"
  have keep: "?keep x \<longleftrightarrow> (\<exists>n. tree_includes t (mget_str (clusterIDToName t) x) n)" for x
  proof (cases "GetClusterByID t x")
    case (Some c)
    then have c: "mget (root_Clusters t) (mget_str (clusterIDToName t) x) = Some c" by (simp add: GetClusterByID_def)
    have "wf_cluster c" using assms(2) c wf_maps_mget by (auto simp: wf_tree_def)
    with grounded_mget [OF assms(3) c] grounded_iff_grants [of c]
    have "cl_State c = Partial \<Longrightarrow> namespacesOf c \<noteq> [] \<and> (\<exists>n. cluster_grants c n)"
      by (auto simp: grounded_cluster_def)
    with Some c Partial show ?thesis
      by (cases "cl_State c") (auto simp: tree_includes_def)
  qed (use Partial in \<open>simp add: GetClusterByID_def tree_includes_def\<close>)
  show ?thesis
  proof (cases "filter ?keep (GetClusterIDs t) = []")
    case True
    then have "\<not> (obj clusterIDField \<in> set (GetClusterIDs t) \<and> ?keep (obj clusterIDField))"
      by (auto simp: filter_empty_conv)
    moreover have "(BuildClusterLevelSACQueryFilter (Some t) :: 'p query option) = Some getMatchNoneQuery"
      using True Partial by (simp add: BuildClusterLevelSACQueryFilter_def)
    ultimately show ?thesis
      using Partial by (simp add: keep getMatchNoneQuery_def queryFromBaseQuery_def)
  next
    case False
    have "(BuildClusterLevelSACQueryFilter (Some t) :: 'p query option) =
        Some (getClusterMatchQuery (filter ?keep (GetClusterIDs t)))"
      using False Partial by (simp add: BuildClusterLevelSACQueryFilter_def Let_def)
    with exact_query_matches [OF assms(1) False, of i obj clusterIDField] Partial show ?thesis
      by (simp add: getClusterMatchQuery_def keep)
  qed
qed (auto simp: BuildClusterLevelSACQueryFilter_def getMatchNoneQuery_def queryFromBaseQuery_def tree_includes_def)

theorem BuildClusterLevelSACQueryFilter_correct_witness:
  "\<exists>q :: nat query. BuildClusterLevelSACQueryFilter (Some (bubbleUpStatesAndCompactify MINIMAL exampleTree)) = Some q \<and>
     query_matches exampleFieldMatches ''d'' (exampleObject ''1'' ''x'') q \<and>
     \<not> query_matches exampleFieldMatches ''d'' (exampleObject ''2'' ''x'') q"
proof -
  let ?t = "bubbleUpStatesAndCompactify MINIMAL exampleTree"
  have st: "root_State ?t = Partial" and ids: "clusterIDToName ?t = [(''1'', ''a''), (''2'', ''b'')]"
    by code_simp+
  have g: "grounded ?t"
    by (rule grounded_bubble [OF exampleTree_wf(1)])
      (simp add: grounded_def grounded_cluster_def exampleTree_def namespacesOf_def includedNamespaceSubTree_def
        newClusterScopeSubTree_def)
  have m: "(case (BuildClusterLevelSACQueryFilter (Some ?t) :: nat query option) of
        None \<Rightarrow> True | Some q \<Rightarrow> query_matches exampleFieldMatches ''d'' (exampleObject i ''x'') q) \<longleftrightarrow>
      i \<in> {''1'', ''2''} \<and> (\<exists>n. raw_includes exampleTree (mget_str (clusterIDToName ?t) i) n)" for i
    using BuildClusterLevelSACQueryFilter_correct [OF exampleFieldMatches_exact wf_tree_bubble [OF exampleTree_wf(1)] g,
        of "''d''" "exampleObject i ''x''", where 'p = nat]
    by (simp add: st GetClusterIDs_def ids tree_includes_bubble exampleTree_wf)
  have raw: "raw_includes exampleTree ''a'' ''n''" "\<not> raw_includes exampleTree ''b'' n" for n
    by (simp_all add: raw_includes_def exampleTree_def cluster_grants_def namespacesOf_def includedNamespaceSubTree_def
        newClusterScopeSubTree_def)
  show ?thesis
    using m [of "''1''"] m [of "''2''"] raw
    by (cases "BuildClusterLevelSACQueryFilter (Some ?t) :: nat query option") (auto simp: ids mget_str_def)
qed

text \<open>
  C2. End to end, for a namespace-scoped resource: the filter that searches get from the
  effective access scope of a principal selects an object of a known cluster exactly when
  the built-in authorizer allows the access to the object's namespace.
\<close>

theorem search_filter_agrees_with_authorizer:
  assumes "exact_fields fm" and "distinct (map c_Name cs)" and "distinct (map c_Id cs)"
    and "cache_inv L cs ns roles s" and "known_resource reg res md" and "GetScope md = NamespaceScope"
    and "c \<in> set cs" and "obj clusterIDField = c_Id c" and "obj namespaceField \<noteq> []"
  shows "\<exists>core t s1 allowed s2.
    SubScopeChecker (builtinOps reg L) [AccessModeScopeKey am, ResourceScopeKey res] (NewScopeChecker (GlobalLevel roles))
       = Some (NewScopeChecker core) \<and>
    EffectiveAccessScope (builtinOps reg L) \<lparr>rwa_resource = md, rwa_access = am\<rparr> (NewScopeChecker core) s = (Inr t, s1) \<and>
    IsAllowed (builtinOps reg L) (KeyForNSScopedObj (obj clusterIDField) (obj namespaceField)) (NewScopeChecker core) s1
       = Some (allowed, s2) \<and>
    ((case (BuildClusterNamespaceLevelSACQueryFilter (Some t) :: 'p query option) of None \<Rightarrow> True
        | Some q \<Rightarrow> query_matches fm i obj q) \<longleftrightarrow> allowed)"
proof -
  obtain core t s1 where
    sub: "SubScopeChecker (builtinOps reg L) [AccessModeScopeKey am, ResourceScopeKey res] (NewScopeChecker (GlobalLevel roles))
       = Some (NewScopeChecker core)"
    and eas: "EffectiveAccessScope (builtinOps reg L) \<lparr>rwa_resource = md, rwa_access = am\<rparr> (NewScopeChecker core) s = (Inr t, s1)"
    and inv: "cache_inv L cs ns roles s1" and t: "wf_tree t" "ids_known cs t"
    and inc: "\<And>c n. tree_includes t c n \<longleftrightarrow> (\<exists>role \<in> set roles. IsPermittedBy md (role_Permissions role) am \<and>
           scope_selects L cs ns (role_AccessScope role) c n)"
    by (rule builtin_EAS_spec [OF assms(2,3,4,5), of "\<lparr>rwa_resource = md, rwa_access = am\<rparr>" am])
      (use assms(6) in simp_all)
  let ?n = "obj namespaceField"
  let ?decision = "\<exists>role \<in> set roles. IsPermittedBy md (role_Permissions role) am \<and>
      scope_selects L cs ns (role_AccessScope role) (c_Name c) ?n"
  have core: "subCore (builtinOps reg L) [AccessModeScopeKey am, ResourceScopeKey res] (GlobalLevel roles) = Some core"
    using sub by (simp del: subCore.simps)
  have "subCore (builtinOps reg L) [ClusterScopeKey (c_Id c), NamespaceScopeKey ?n] core =
      subCore (builtinOps reg L) [AccessModeScopeKey am, ResourceScopeKey res, ClusterScopeKey (c_Id c), NamespaceScopeKey ?n]
        (GlobalLevel roles)"
    using subCore_append [of "builtinOps reg L" "[AccessModeScopeKey am, ResourceScopeKey res]"
        "[ClusterScopeKey (c_Id c), NamespaceScopeKey ?n]" "GlobalLevel roles", unfolded core] by simp
  then have same: "IsAllowed (builtinOps reg L) (KeyForNSScopedObj (obj clusterIDField) ?n) (NewScopeChecker core) s1 =
      IsAllowed (builtinOps reg L) [AccessModeScopeKey am, ResourceScopeKey res, ClusterScopeKey (c_Id c), NamespaceScopeKey ?n]
        (NewScopeChecker (GlobalLevel roles)) s1"
    by (simp add: KeyForNSScopedObj_def assms(8) del: subCore.simps)
  obtain s2 where "IsAllowed (builtinOps reg L)
      [AccessModeScopeKey am, ResourceScopeKey res, ClusterScopeKey (c_Id c), NamespaceScopeKey ?n]
      (NewScopeChecker (GlobalLevel roles)) s1 = Some (?decision, s2)"
    using builtin_namespace_IsAllowed [OF assms(2,3) inv assms(5,6,7,9)] by blast
  then have allowed: "IsAllowed (builtinOps reg L) (KeyForNSScopedObj (obj clusterIDField) ?n) (NewScopeChecker core) s1 =
      Some (?decision, s2)"
    unfolding same .
  have filter: "(case (BuildClusterNamespaceLevelSACQueryFilter (Some t) :: 'p query option) of None \<Rightarrow> True
        | Some q \<Rightarrow> query_matches fm i obj q) \<longleftrightarrow> ?decision"
  proof (cases "root_State t = Included")
    case True
    with inc [of "c_Name c" ?n] namespace_filter_matches [OF assms(1) t(1), of i obj, where 'p = 'p] show ?thesis
      by (simp add: tree_includes_def)
  next
    case False
    have "(obj clusterIDField \<in> set (GetClusterIDs t) \<and> tree_includes t (mget_str (clusterIDToName t) (c_Id c)) ?n) \<longleftrightarrow>
        tree_includes t (c_Name c) ?n"
    proof (cases "ids_of cs t")
      case True
      then have "mget (clusterIDToName t) (c_Id c) = Some (c_Name c)"
        using assms(7) by (simp add: ids_of_def)
      moreover from this have "c_Id c \<in> set (GetClusterIDs t)"
        unfolding GetClusterIDs_def by (metis mget_None_iff option.distinct(1))
      ultimately show ?thesis by (simp add: assms(8) mget_str_def)
    next
      case F: False
      with t(2) False show ?thesis by (simp add: ids_known_def GetClusterIDs_def tree_includes_def)
    qed
    with namespace_filter_matches [OF assms(1) t(1), of i obj, where 'p = 'p] False inc [of "c_Name c" ?n] assms(8)
    show ?thesis by simp
  qed
  show ?thesis
    by (rule exI [of _ core], rule exI [of _ t], rule exI [of _ s1], rule exI [of _ ?decision], rule exI [of _ s2])
      (intro conjI sub eas allowed filter)
qed

theorem search_filter_agrees_with_authorizer_witness:
  "\<exists>core t s1 s2.
    EffectiveAccessScope (builtinOps stackroxResources exampleLabels)
      \<lparr>rwa_resource = ResourceMetadata ''Deployment'' None NamespaceScope, rwa_access = READ_ACCESS\<rparr> (NewScopeChecker core)
      (snd (newGlobalScopeCheckerCore exampleClusters exampleNamespaces exampleRoles)) = (Inr t, s1) \<and>
    (\<exists>b. IsAllowed (builtinOps stackroxResources exampleLabels) (KeyForNSScopedObj ''c2'' ''web'') (NewScopeChecker core) s1
       = Some (b, s2) \<and>
    ((case (BuildClusterNamespaceLevelSACQueryFilter (Some t) :: nat query option) of None \<Rightarrow> True
        | Some q \<Rightarrow> query_matches exampleFieldMatches ''d'' (exampleObject ''c2'' ''web'') q) \<longleftrightarrow> b))"
  using search_filter_agrees_with_authorizer [OF exampleFieldMatches_exact exampleClusters_distinct example_inv
      example_resources(1) _ exampleDev_in, of "exampleObject ''c2'' ''web''" READ_ACCESS "''d''", where 'p = nat]
  by (force simp: exampleDev_def)

end
