(* ===== verification/K8s_Rbac.thy ===== *)
theory K8s_Rbac
  imports Go_Sets
begin

text \<open>
  Evaluation of Kubernetes role-based access control, \<open>pkg/k8srbac\<close>: fields of policy rules
  with their wildcard, blank and glob conventions, sets of policy rules that are kept small
  by replacing and merging rules, sets of subjects, and the evaluator of the rules that apply
  to a subject.

  The interface \<open>PolicyRuleField\<close> is a datatype: an accessor and setter pair is named by the
  field of the rule it works on, and each wrapper is a constructor. Rules are cloned before
  they are added, so rules are values.
\<close>

subsection \<open>Policy rules and their fields\<close>

record PolicyRule =
  pr_Verbs :: "string list"
  pr_ApiGroups :: "string list"
  pr_Resources :: "string list"
  pr_NonResourceUrls :: "string list"
  pr_ResourceNames :: "string list"

datatype fieldSel = SelVerbs | SelApiGroups | SelResources | SelNonResourceUrls | SelResourceNames

fun accessor :: "fieldSel \<Rightarrow> PolicyRule \<Rightarrow> string list" where
  "accessor SelVerbs r = pr_Verbs r"
| "accessor SelApiGroups r = pr_ApiGroups r"
| "accessor SelResources r = pr_Resources r"
| "accessor SelNonResourceUrls r = pr_NonResourceUrls r"
| "accessor SelResourceNames r = pr_ResourceNames r"

fun setter :: "fieldSel \<Rightarrow> string list \<Rightarrow> PolicyRule \<Rightarrow> PolicyRule" where
  "setter SelVerbs v r = r\<lparr>pr_Verbs := v\<rparr>"
| "setter SelApiGroups v r = r\<lparr>pr_ApiGroups := v\<rparr>"
| "setter SelResources v r = r\<lparr>pr_Resources := v\<rparr>"
| "setter SelNonResourceUrls v r = r\<lparr>pr_NonResourceUrls := v\<rparr>"
| "setter SelResourceNames v r = r\<lparr>pr_ResourceNames := v\<rparr>"

datatype PolicyRuleField =
    NewPolicyRuleField fieldSel
  | NewWildcardable PolicyRuleField
  | NewBlankable PolicyRuleField
  | NewGlobable PolicyRuleField

fun selOf :: "PolicyRuleField \<Rightarrow> fieldSel" where
  "selOf (NewPolicyRuleField s) = s"
| "selOf (NewWildcardable f) = selOf f"
| "selOf (NewBlankable f) = selOf f"
| "selOf (NewGlobable f) = selOf f"

text \<open>\<open>Get\<close> and \<open>Set\<close> of every wrapper are those of the underlying field.\<close>

definition fieldGet :: "PolicyRuleField \<Rightarrow> PolicyRule \<Rightarrow> string list" where
  "fieldGet f r = accessor (selOf f) r"

definition fieldSet :: "PolicyRuleField \<Rightarrow> string list \<Rightarrow> PolicyRule \<Rightarrow> PolicyRule" where
  "fieldSet f v r = setter (selOf f) v r"

definition hasValue :: "fieldSel \<Rightarrow> PolicyRule \<Rightarrow> string \<Rightarrow> bool" where
  "hasValue s r v = (v \<in> set (accessor s r))"

fun baseMerge :: "fieldSel \<Rightarrow> string list \<Rightarrow> PolicyRule \<Rightarrow> PolicyRule" where
  "baseMerge s [] to = to"
| "baseMerge s (fromValue # rest) to =
     baseMerge s rest
       (if \<not> hasValue s to fromValue then setter s (sort_by (<) (accessor s to @ [fromValue])) to else to)"

definition baseEquals :: "fieldSel \<Rightarrow> PolicyRule \<Rightarrow> PolicyRule \<Rightarrow> bool" where
  "baseEquals s first second =
     (if length (accessor s first) \<noteq> length (accessor s second) then False
      else list_all (hasValue s second) (accessor s first))"

definition baseGrants :: "fieldSel \<Rightarrow> PolicyRule \<Rightarrow> PolicyRule \<Rightarrow> bool" where
  "baseGrants s first second =
     (if length (accessor s second) > length (accessor s first) then False
      else list_all (hasValue s first) (accessor s second))"

definition wildcard :: string where "wildcard = ''*''"
definition globChar :: string where "globChar = ''*''"

definition IsWildcarded :: "PolicyRuleField \<Rightarrow> PolicyRule \<Rightarrow> bool" where
  "IsWildcarded f r = (wildcard \<in> set (fieldGet f r))"

definition IsBlanked :: "PolicyRuleField \<Rightarrow> PolicyRule \<Rightarrow> bool" where
  "IsBlanked f r = (length (fieldGet f r) = 0)"

definition firstGlobsSecond :: "string \<Rightarrow> string \<Rightarrow> bool" where
  "firstGlobsSecond first second =
     (if \<not> hasSuffix first globChar then False
      else if length first = 1 then True
      else if hasPrefix second (trimSuffix first ''*'') then True
      else False)"

definition firstSetGlobsSecond :: "string list \<Rightarrow> string \<Rightarrow> bool" where
  "firstSetGlobsSecond first second = list_ex (\<lambda>fVal. firstGlobsSecond fVal second) first"

definition Globs :: "PolicyRuleField \<Rightarrow> PolicyRule \<Rightarrow> PolicyRule \<Rightarrow> bool" where
  "Globs f first second = list_all (firstSetGlobsSecond (fieldGet f first)) (fieldGet f second)"

text \<open>
  \<open>globable.Merge\<close>: the inner loops only look for a shadowing value and end with \<open>break\<close>,
  which leaves the inner loop; the value is added in every case.
\<close>

definition globableMerge :: "PolicyRuleField \<Rightarrow> PolicyRule \<Rightarrow> PolicyRule \<Rightarrow> PolicyRule" where
  "globableMerge f to from =
     (let toVals = fieldGet f to; fromVals = fieldGet f from;
          newValues = fold (\<lambda>v s. fst (setAdd v s)) toVals (fold (\<lambda>v s. fst (setAdd v s)) fromVals (newSet []))
      in fieldSet f (setAsSlice newValues) to)"

fun fieldMerge :: "PolicyRuleField \<Rightarrow> PolicyRule \<Rightarrow> PolicyRule \<Rightarrow> PolicyRule" where
  "fieldMerge (NewPolicyRuleField s) to from = baseMerge s (accessor s from) to"
| "fieldMerge (NewWildcardable f) to from =
     (if IsWildcarded f to \<or> IsWildcarded f from then fieldSet f [wildcard] to else fieldMerge f to from)"
| "fieldMerge (NewBlankable f) to from =
     (if IsBlanked f to \<or> IsBlanked f from then fieldSet f [] to else fieldMerge f to from)"
| "fieldMerge (NewGlobable f) to from = globableMerge f to from"

definition fieldEquals :: "PolicyRuleField \<Rightarrow> PolicyRule \<Rightarrow> PolicyRule \<Rightarrow> bool" where
  "fieldEquals f first second = baseEquals (selOf f) first second"

fun fieldGrants :: "PolicyRuleField \<Rightarrow> PolicyRule \<Rightarrow> PolicyRule \<Rightarrow> bool" where
  "fieldGrants (NewPolicyRuleField s) first second = baseGrants s first second"
| "fieldGrants (NewWildcardable f) first second =
     (if IsWildcarded f first then True else fieldGrants f first second)"
| "fieldGrants (NewBlankable f) first second =
     (if IsBlanked f first then True else if IsBlanked f second then False else fieldGrants f first second)"
| "fieldGrants (NewGlobable f) first second =
     (if Globs f first second then True else fieldGrants f first second)"

definition APIGroupsField :: PolicyRuleField where
  "APIGroupsField = NewWildcardable (NewPolicyRuleField SelApiGroups)"
definition ResourcesField :: PolicyRuleField where
  "ResourcesField = NewWildcardable (NewPolicyRuleField SelResources)"
definition VerbsField :: PolicyRuleField where
  "VerbsField = NewWildcardable (NewPolicyRuleField SelVerbs)"
definition NonResourceURLsField :: PolicyRuleField where
  "NonResourceURLsField = NewGlobable (NewPolicyRuleField SelNonResourceUrls)"
definition ResourceNamesField :: PolicyRuleField where
  "ResourceNamesField = NewBlankable (NewPolicyRuleField SelResourceNames)"

definition CoreFields :: "PolicyRuleField list" where
  "CoreFields = [APIGroupsField, ResourcesField, VerbsField, NonResourceURLsField, ResourceNamesField]"

subsection \<open>Field sets and rule sets\<close>

definition fieldSetEquals :: "PolicyRuleField list \<Rightarrow> PolicyRule \<Rightarrow> PolicyRule \<Rightarrow> bool" where
  "fieldSetEquals fs first second = list_all (\<lambda>f. fieldEquals f first second) fs"

definition fieldSetGrants :: "PolicyRuleField list \<Rightarrow> PolicyRule \<Rightarrow> PolicyRule \<Rightarrow> bool" where
  "fieldSetGrants fs first second = list_all (\<lambda>f. fieldGrants f first second) fs"

text \<open>The loop of \<open>policyRuleFieldSet.Merge\<close> over the index of the field to merge; \<open>None\<close> when no
  field can be merged.\<close>

fun mergeAt :: "PolicyRuleField list \<Rightarrow> nat list \<Rightarrow> PolicyRule \<Rightarrow> PolicyRule \<Rightarrow> PolicyRule option" where
  "mergeAt fs [] to from = None"
| "mergeAt fs (fIndex # rest) to from =
     (let matchFields =
        (if fIndex = 0 then drop 1 fs
         else if fIndex = length fs - 1 then take (length fs - 1) fs
         else take fIndex fs @ drop (fIndex + 1) fs)
      in if fieldSetEquals matchFields to from then Some (fieldMerge (fs ! fIndex) to from)
         else mergeAt fs rest to from)"

definition fieldSetMerge :: "PolicyRuleField list \<Rightarrow> PolicyRule \<Rightarrow> PolicyRule \<Rightarrow> PolicyRule option" where
  "fieldSetMerge fs to from =
     (if fieldSetEquals fs to from then Some to else mergeAt fs [0..<length fs] to from)"

record PolicyRuleSet =
  prs_fields :: "PolicyRuleField list"
  granted :: "PolicyRule list"

definition NewPolicyRuleSet :: "PolicyRuleField list \<Rightarrow> PolicyRuleSet" where
  "NewPolicyRuleSet fs = \<lparr>prs_fields = fs, granted = []\<rparr>"

definition grantsOne :: "PolicyRuleSet \<Rightarrow> PolicyRule \<Rightarrow> bool" where
  "grantsOne p pr = list_ex (\<lambda>rule. fieldSetGrants (prs_fields p) rule pr) (granted p)"

fun tryReplace :: "PolicyRuleField list \<Rightarrow> PolicyRule \<Rightarrow> PolicyRule list \<Rightarrow> PolicyRule list option" where
  "tryReplace fs pr [] = None"
| "tryReplace fs pr (rule # rules) =
     (if fieldSetGrants fs pr rule then Some (pr # rules)
      else map_option (Cons rule) (tryReplace fs pr rules))"

fun tryMerge :: "PolicyRuleField list \<Rightarrow> PolicyRule \<Rightarrow> PolicyRule list \<Rightarrow> PolicyRule list option" where
  "tryMerge fs pr [] = None"
| "tryMerge fs pr (rule # rules) =
     (case fieldSetMerge fs rule pr of
        Some rule1 \<Rightarrow> Some (rule1 # rules)
      | None \<Rightarrow> map_option (Cons rule) (tryMerge fs pr rules))"

definition addOne :: "PolicyRule \<Rightarrow> PolicyRuleSet \<Rightarrow> PolicyRuleSet" where
  "addOne pr p =
     (if grantsOne p pr then p
      else case tryReplace (prs_fields p) pr (granted p) of
             Some g \<Rightarrow> p\<lparr>granted := g\<rparr>
           | None \<Rightarrow>
               (case tryMerge (prs_fields p) pr (granted p) of
                  Some g \<Rightarrow> p\<lparr>granted := g\<rparr>
                | None \<Rightarrow> p\<lparr>granted := granted p @ [pr]\<rparr>))"

definition prsAdd :: "PolicyRule list \<Rightarrow> PolicyRuleSet \<Rightarrow> PolicyRuleSet" where
  "prsAdd prs p = fold addOne prs p"

definition prsGrants :: "PolicyRuleSet \<Rightarrow> PolicyRule list \<Rightarrow> bool" where
  "prsGrants p prs = list_all (grantsOne p) prs"

definition VerbSet :: "PolicyRuleSet \<Rightarrow> string goset" where
  "VerbSet p = fold (\<lambda>rule s. fold (\<lambda>v s. fst (setAdd v s)) (pr_Verbs rule) s) (granted p) (newSet [])"

definition ResourceSet :: "PolicyRuleSet \<Rightarrow> string goset" where
  "ResourceSet p = fold (\<lambda>rule s. fold (\<lambda>v s. fst (setAdd v s)) (pr_Resources rule) s) (granted p) (newSet [])"

definition NonResourceURLSet :: "PolicyRuleSet \<Rightarrow> string goset" where
  "NonResourceURLSet p = fold (\<lambda>rule s. fold (\<lambda>v s. fst (setAdd v s)) (pr_NonResourceUrls rule) s) (granted p) (newSet [])"

definition verbResources :: "(string, string goset) gomap \<Rightarrow> string \<Rightarrow> string goset" where
  "verbResources m verb = (case mget m verb of Some s \<Rightarrow> s | None \<Rightarrow> [])"

fun addResources :: "string \<Rightarrow> string list \<Rightarrow> (string, string goset) gomap \<Rightarrow> (string, string goset) gomap" where
  "addResources verb [] m = m"
| "addResources verb (resource # rest) m =
     (if resource = ''*'' then mput verb (newSet [resource]) m
      else addResources verb rest (mput verb (fst (setAdd resource (verbResources m verb))) m))"

fun addVerbs :: "string list \<Rightarrow> string list \<Rightarrow> (string, string goset) gomap \<Rightarrow> (string, string goset) gomap" where
  "addVerbs [] resources m = m"
| "addVerbs (verb # verbs) resources m =
     addVerbs verbs resources
       (if setContains (verbResources m verb) ''*'' then m else addResources verb resources m)"

definition GetPermissionMap :: "PolicyRuleSet \<Rightarrow> (string, string goset) gomap" where
  "GetPermissionMap p =
     fold (\<lambda>rule m. if pr_Resources rule = [] then m else addVerbs (pr_Verbs rule) (pr_Resources rule) m) (granted p) []"

subsection \<open>What rules permit\<close>

text \<open>
  The values a field stands for, and the requests a rule permits. A request gives for each
  field a value, or none: a request without a value for a field asks whether anything is
  permitted there, which is how the code checks, for instance, that some resource can be
  listed.
\<close>

fun field_den :: "PolicyRuleField \<Rightarrow> string list \<Rightarrow> string set" where
  "field_den (NewPolicyRuleField s) vs = set vs"
| "field_den (NewWildcardable f) vs = (if wildcard \<in> set vs then UNIV else field_den f vs)"
| "field_den (NewBlankable f) vs = (if vs = [] then UNIV else field_den f vs)"
| "field_den (NewGlobable f) vs = field_den f vs \<union> {u. \<exists>v \<in> set vs. firstGlobsSecond v u}"

type_synonym request = "fieldSel \<Rightarrow> string option"

definition rule_permits :: "PolicyRuleField list \<Rightarrow> PolicyRule \<Rightarrow> request \<Rightarrow> bool" where
  "rule_permits fs r req \<longleftrightarrow>
     (\<forall>f \<in> set fs. case req (selOf f) of None \<Rightarrow> True | Some x \<Rightarrow> x \<in> field_den f (fieldGet f r))"

definition set_permits :: "PolicyRuleSet \<Rightarrow> request \<Rightarrow> bool" where
  "set_permits p req \<longleftrightarrow> (\<exists>r \<in> set (granted p). rule_permits (prs_fields p) r req)"

text \<open>The fields in use wrap a plain field at most once, each on its own part of the rule. Values
  are not repeated, and a URL has a star only at its end.\<close>

fun core_field :: "PolicyRuleField \<Rightarrow> bool" where
  "core_field (NewPolicyRuleField s) = True"
| "core_field (NewWildcardable (NewPolicyRuleField s)) = True"
| "core_field (NewBlankable (NewPolicyRuleField s)) = True"
| "core_field (NewGlobable (NewPolicyRuleField s)) = True"
| "core_field _ = False"

definition wf_fields :: "PolicyRuleField list \<Rightarrow> bool" where
  "wf_fields fs \<longleftrightarrow> list_all core_field fs \<and> distinct (map selOf fs)"

fun wf_values :: "PolicyRuleField \<Rightarrow> string list \<Rightarrow> bool" where
  "wf_values (NewGlobable f) vs = (distinct vs \<and> (\<forall>v \<in> set vs. CHR ''*'' \<notin> set (butlast v)))"
| "wf_values _ vs = distinct vs"

definition wf_rule :: "PolicyRuleField list \<Rightarrow> PolicyRule \<Rightarrow> bool" where
  "wf_rule fs r \<longleftrightarrow> (\<forall>f \<in> set fs. wf_values f (fieldGet f r))"

definition wf_rule_set :: "PolicyRuleSet \<Rightarrow> bool" where
  "wf_rule_set p \<longleftrightarrow> wf_fields (prs_fields p) \<and> list_all (wf_rule (prs_fields p)) (granted p)"

lemma core_field_cases:
  assumes "core_field f"
  obtains s where "f = NewPolicyRuleField s" | s where "f = NewWildcardable (NewPolicyRuleField s)"
    | s where "f = NewBlankable (NewPolicyRuleField s)" | s where "f = NewGlobable (NewPolicyRuleField s)"
  using assms by (cases f rule: core_field.cases) auto

lemma accessor_setter [simp]: "accessor s (setter s' v r) = (if s = s' then v else accessor s r)"
  by (cases s; cases s') auto

lemma wf_values_distinct: "wf_values f vs \<Longrightarrow> distinct vs"
  by (cases f) auto

lemma field_den_set: "set vs = set ws \<Longrightarrow> field_den f vs = field_den f ws"
  by (induction f) (auto simp: set_empty [symmetric] simp del: set_empty)

lemma wf_values_set: "set vs = set ws \<Longrightarrow> distinct ws \<Longrightarrow> wf_values f vs \<Longrightarrow> wf_values f ws"
  by (cases f) auto

lemma baseMerge_spec:
  "set (accessor s (baseMerge s vs to)) = set vs \<union> set (accessor s to) \<and>
   (distinct (accessor s to) \<longrightarrow> distinct (accessor s (baseMerge s vs to))) \<and>
   (s' \<noteq> s \<longrightarrow> accessor s' (baseMerge s vs to) = accessor s' to)"
  by (induction vs arbitrary: to) (auto simp: hasValue_def)

lemma globs_trans:
  assumes "firstGlobsSecond v w" and "firstGlobsSecond w u" and star: "CHR ''*'' \<notin> set (butlast v)"
  shows "firstGlobsSecond v u"
proof (cases "length v = 1")
  case True
  with assms(1) show ?thesis by (auto simp: firstGlobsSecond_def split: if_splits)
next
  case False
  obtain t where t: "v = t @ ''*''"
    using assms(1) by (auto simp: firstGlobsSecond_def hasSuffix_iff globChar_def split: if_splits)
  then have nt: "CHR ''*'' \<notin> set t" "t \<noteq> []" using star False by auto
  obtain t2 where t2: "w = t2 @ ''*''"
    using assms(2) by (auto simp: firstGlobsSecond_def hasSuffix_iff globChar_def split: if_splits)
  obtain x where x: "w = t @ x"
    using assms(1) False by (auto simp: firstGlobsSecond_def t hasPrefix_iff split: if_splits)
  have "x \<noteq> []"
  proof
    assume "x = []"
    then have "CHR ''*'' \<in> set t" using t2 x by (metis append_Nil2 in_set_conv_decomp)
    with nt show False by blast
  qed
  then have "t2 = t @ butlast x" using t2 x by (metis butlast_append butlast_snoc)
  moreover have "length w \<noteq> 1" using t2 x nt \<open>x \<noteq> []\<close> by (cases t; cases x) auto
  with assms(2) obtain y where "u = t2 @ y"
    by (auto simp: firstGlobsSecond_def t2 hasPrefix_iff split: if_splits)
  ultimately show ?thesis
    using False by (auto simp: firstGlobsSecond_def t hasPrefix_iff hasSuffix_iff globChar_def)
qed

lemma fieldGrants_sound:
  assumes "core_field f" and "wf_values f (fieldGet f a)" and "fieldGrants f a b"
  shows "field_den f (fieldGet f b) \<subseteq> field_den f (fieldGet f a)"
  using assms(1)
proof (cases f rule: core_field_cases)
  case (4 s)
  have base: "baseGrants s a b \<Longrightarrow> set (accessor s b) \<subseteq> set (accessor s a)"
    by (auto simp: baseGrants_def hasValue_def list_all_iff split: if_splits)
  have "firstGlobsSecond v u" if "v \<in> set (accessor s a)" "firstGlobsSecond v w" "firstGlobsSecond w u" for u v w
    using that assms(2) 4 by (auto simp: fieldGet_def intro: globs_trans)
  note trans = this
  show ?thesis
  proof (cases "Globs (NewPolicyRuleField s) a b")
    case True
    then have "\<exists>v \<in> set (accessor s a). firstGlobsSecond v w" if "w \<in> set (accessor s b)" for w
      using that by (auto simp: Globs_def fieldGet_def list_all_iff firstSetGlobsSecond_def list_ex_iff)
    with trans have "\<exists>v \<in> set (accessor s a). firstGlobsSecond v u"
      if "u \<in> set (accessor s b) \<or> (\<exists>w \<in> set (accessor s b). firstGlobsSecond w u)" for u
      using that by blast
    then show ?thesis by (auto simp: 4 fieldGet_def)
  next
    case False
    then have "baseGrants s a b" using assms(3) by (simp add: 4)
    from base [OF this] show ?thesis by (auto simp: 4 fieldGet_def)
  qed
qed (use assms(3) in \<open>auto simp: fieldGet_def baseGrants_def hasValue_def list_all_iff IsWildcarded_def
      IsBlanked_def split: if_splits\<close>)

lemma fieldEquals_set:
  assumes "distinct (fieldGet f a)" and "distinct (fieldGet f b)" and "fieldEquals f a b"
  shows "set (fieldGet f a) = set (fieldGet f b)"
proof -
  have "set (fieldGet f a) \<subseteq> set (fieldGet f b)" "length (fieldGet f a) = length (fieldGet f b)"
    using assms(3) by (auto simp: fieldEquals_def baseEquals_def fieldGet_def hasValue_def list_all_iff split: if_splits)
  then show ?thesis
    using assms(1,2) by (metis List.finite_set card_subset_eq distinct_card)
qed

lemma fieldMerge_spec:
  assumes "core_field f" and "wf_values f (fieldGet f a)" and "wf_values f (fieldGet f b)"
  shows "field_den f (fieldGet f (fieldMerge f a b)) = field_den f (fieldGet f a) \<union> field_den f (fieldGet f b)"
    and "wf_values f (fieldGet f (fieldMerge f a b))"
    and "s' \<noteq> selOf f \<Longrightarrow> accessor s' (fieldMerge f a b) = accessor s' a"
proof -
  have "field_den f (fieldGet f (fieldMerge f a b)) = field_den f (fieldGet f a) \<union> field_den f (fieldGet f b) \<and>
      wf_values f (fieldGet f (fieldMerge f a b)) \<and>
      (s' \<noteq> selOf f \<longrightarrow> accessor s' (fieldMerge f a b) = accessor s' a)"
    using assms(1)
  proof (cases f rule: core_field_cases)
    case (4 s)
    have "(\<lambda>(v :: string) s. fst (setAdd v s)) = gs_ins"
      by (intro ext) (simp add: setAdd_def Let_def)
    then have v: "set (accessor s (fieldMerge f a b)) = set (accessor s a) \<union> set (accessor s b)"
      "distinct (accessor s (fieldMerge f a b))"
      using 4 by (auto simp: globableMerge_def Let_def fieldSet_def fieldGet_def setAsSlice_def)
    with 4 assms(2,3) show ?thesis
      by (auto simp: fieldGet_def globableMerge_def Let_def fieldSet_def)
  next
    case (3 s)
    with assms(2,3) baseMerge_spec [of s "accessor s b" a] baseMerge_spec [of s "accessor s b" a s'] show ?thesis
      by (auto simp: fieldGet_def fieldSet_def IsBlanked_def set_empty [symmetric] simp del: set_empty)
  qed (use assms(2,3) baseMerge_spec [of "selOf f" "accessor (selOf f) b" a]
        baseMerge_spec [of "selOf f" "accessor (selOf f) b" a s'] in
      \<open>auto simp: fieldGet_def fieldSet_def IsWildcarded_def\<close>)
  then show "field_den f (fieldGet f (fieldMerge f a b)) = field_den f (fieldGet f a) \<union> field_den f (fieldGet f b)"
    "wf_values f (fieldGet f (fieldMerge f a b))"
    "s' \<noteq> selOf f \<Longrightarrow> accessor s' (fieldMerge f a b) = accessor s' a" by blast+
qed


definition field_ok :: "PolicyRuleField \<Rightarrow> PolicyRule \<Rightarrow> request \<Rightarrow> bool" where
  "field_ok f r req \<longleftrightarrow> (case req (selOf f) of None \<Rightarrow> True | Some x \<Rightarrow> x \<in> field_den f (fieldGet f r))"

lemma rule_permits_field_ok: "rule_permits fs r req \<longleftrightarrow> (\<forall>f \<in> set fs. field_ok f r req)"
  by (simp add: rule_permits_def field_ok_def)

lemma wf_fields_core: "wf_fields fs \<Longrightarrow> f \<in> set fs \<Longrightarrow> core_field f"
  by (auto simp: wf_fields_def list_all_iff)

lemma rule_grants_sound:
  assumes "wf_fields fs" and "wf_rule fs a" and "fieldSetGrants fs a b" and "rule_permits fs b req"
  shows "rule_permits fs a req"
  using assms fieldGrants_sound
  by (fastforce simp: rule_permits_def wf_rule_def fieldSetGrants_def list_all_iff
      dest: wf_fields_core split: option.splits)

lemma fieldEquals_ok:
  assumes "wf_rule fs a" and "wf_rule fs b" and "f \<in> set fs" and "fieldEquals f a b"
  shows "field_ok f a req \<longleftrightarrow> field_ok f b req"
proof -
  have "set (fieldGet f a) = set (fieldGet f b)"
    using assms by (intro fieldEquals_set) (auto simp: wf_rule_def intro: wf_values_distinct)
  from field_den_set [OF this] show ?thesis by (simp add: field_ok_def split: option.splits)
qed

lemma matchFields_set:
  assumes "distinct fs" and "i < length fs"
  shows "set (if i = 0 then drop 1 fs else if i = length fs - 1 then take (length fs - 1) fs
              else take i fs @ drop (i + 1) fs) = set fs - {fs ! i}"
proof -
  have eq: "fs = take i fs @ fs ! i # drop (Suc i) fs" by (rule id_take_nth_drop [OF assms(2)])
  have "distinct (xs @ x # ys) \<Longrightarrow> set (xs @ ys) = set (xs @ x # ys) - {x}" for xs ys and x :: 'a
    by auto
  from this [of "take i fs" "fs ! i" "drop (Suc i) fs", folded eq, OF assms(1)]
  have "set (take i fs @ drop (i + 1) fs) = set fs - {fs ! i}" by (simp only: Suc_eq_plus1)
  moreover have "(if i = 0 then drop 1 fs else if i = length fs - 1 then take (length fs - 1) fs
      else take i fs @ drop (i + 1) fs) = take i fs @ drop (i + 1) fs"
    using assms(2) by (cases "i = 0", simp, cases "i = length fs - 1") simp_all
  ultimately show ?thesis by (simp only:)
qed

lemma merge_at_field:
  assumes wf: "wf_fields fs" "wf_rule fs a" "wf_rule fs b" and f: "f \<in> set fs"
    and eq: "\<And>g. g \<in> set fs - {f} \<Longrightarrow> fieldEquals g a b"
  shows "rule_permits fs (fieldMerge f a b) req \<longleftrightarrow> rule_permits fs a req \<or> rule_permits fs b req"
    and "wf_rule fs (fieldMerge f a b)"
proof -
  have m: "core_field f" "wf_values f (fieldGet f a)" "wf_values f (fieldGet f b)"
    using wf f by (auto simp: wf_rule_def intro: wf_fields_core)
  have other: "fieldGet g (fieldMerge f a b) = fieldGet g a" if "g \<in> set fs - {f}" for g
  proof -
    have "selOf g \<noteq> selOf f"
      using wf(1) f that by (auto simp: wf_fields_def distinct_map dest: inj_onD)
    then show ?thesis using fieldMerge_spec(3) [OF m] by (simp add: fieldGet_def)
  qed
  then have "wf_values g (fieldGet g (fieldMerge f a b))" if "g \<in> set fs" for g
    using that wf(2) fieldMerge_spec(2) [OF m] by (cases "g = f") (auto simp: wf_rule_def)
  then show "wf_rule fs (fieldMerge f a b)" by (simp add: wf_rule_def)
  have "field_ok f (fieldMerge f a b) req \<longleftrightarrow> field_ok f a req \<or> field_ok f b req"
    by (simp add: field_ok_def fieldMerge_spec(1) [OF m] split: option.splits)
  moreover have "(\<forall>g \<in> set fs - {f}. field_ok g (fieldMerge f a b) req) = (\<forall>g \<in> set fs - {f}. field_ok g a req)"
    by (rule ball_cong) (simp_all add: other field_ok_def split: option.splits)
  moreover have "(\<forall>g \<in> set fs - {f}. field_ok g b req) = (\<forall>g \<in> set fs - {f}. field_ok g a req)"
    using fieldEquals_ok [OF wf(2,3) _ eq] by (intro ball_cong) auto
  moreover have "rule_permits fs r req \<longleftrightarrow> field_ok f r req \<and> (\<forall>g \<in> set fs - {f}. field_ok g r req)" for r
    using f by (auto simp: rule_permits_field_ok)
  ultimately show "rule_permits fs (fieldMerge f a b) req \<longleftrightarrow> rule_permits fs a req \<or> rule_permits fs b req"
    by (simp del: Diff_iff ball_simps) blast
qed

lemma mergeAt_field:
  assumes "distinct fs" and "mergeAt fs is a b = Some m" and "set is \<subseteq> {..<length fs}"
  shows "\<exists>f \<in> set fs. m = fieldMerge f a b \<and> (\<forall>g \<in> set fs - {f}. fieldEquals g a b)"
  using assms(2,3)
proof (induction "is")
  case (Cons i "is")
  then have i: "i < length fs" by simp
  show ?case
  proof (cases "\<forall>g \<in> set fs - {fs ! i}. fieldEquals g a b")
    case True
    with Cons.prems(1) have "m = fieldMerge (fs ! i) a b"
      using matchFields_set [OF assms(1) i] by (simp add: Let_def fieldSetEquals_def list_all_iff split: if_splits)
    with True i show ?thesis by (intro bexI [of _ "fs ! i"]) auto
  next
    case False
    then show ?thesis
      using Cons matchFields_set [OF assms(1) i] by (auto simp: Let_def fieldSetEquals_def list_all_iff split: if_splits)
  qed
qed simp

lemma fieldSetMerge_spec:
  assumes wf: "wf_fields fs" "wf_rule fs a" "wf_rule fs b" and m: "fieldSetMerge fs a b = Some m"
  shows "wf_rule fs m \<and> (rule_permits fs m req \<longleftrightarrow> rule_permits fs a req \<or> rule_permits fs b req)"
proof (cases "fieldSetEquals fs a b")
  case True
  then have "rule_permits fs a req = rule_permits fs b req"
    using fieldEquals_ok [OF wf(2,3)] by (auto simp: rule_permits_field_ok fieldSetEquals_def list_all_iff)
  with True m wf show ?thesis by (simp add: fieldSetMerge_def)
next
  case False
  then have "mergeAt fs [0..<length fs] a b = Some m" using m by (simp add: fieldSetMerge_def)
  then obtain f where "f \<in> set fs" "m = fieldMerge f a b" "\<forall>g \<in> set fs - {f}. fieldEquals g a b"
    using mergeAt_field [of fs "[0..<length fs]" a b m] wf(1) by (auto simp: wf_fields_def distinct_map atLeast0LessThan)
  with merge_at_field [OF wf, of f] show ?thesis by blast
qed

subsection \<open>Rule sets keep what they were given\<close>

abbreviation rules_permit :: "PolicyRuleField list \<Rightarrow> PolicyRule list \<Rightarrow> request \<Rightarrow> bool" where
  "rules_permit fs rs req \<equiv> \<exists>r \<in> set rs. rule_permits fs r req"

lemma tryReplace_spec:
  assumes "wf_fields fs" and "wf_rule fs pr" and "list_all (wf_rule fs) rs" and "tryReplace fs pr rs = Some rs'"
  shows "list_all (wf_rule fs) rs' \<and> (rules_permit fs rs' req \<longleftrightarrow> rules_permit fs rs req \<or> rule_permits fs pr req)"
  using assms(3,4)
proof (induction rs arbitrary: rs')
  case (Cons r rs)
  show ?case
  proof (cases "fieldSetGrants fs pr r")
    case True
    with Cons.prems rule_grants_sound [OF assms(1,2) True] assms(2) show ?thesis by auto
  next
    case False
    with Cons show ?thesis by auto
  qed
qed simp

lemma tryMerge_spec:
  assumes "wf_fields fs" and "wf_rule fs pr" and "list_all (wf_rule fs) rs" and "tryMerge fs pr rs = Some rs'"
  shows "list_all (wf_rule fs) rs' \<and> (rules_permit fs rs' req \<longleftrightarrow> rules_permit fs rs req \<or> rule_permits fs pr req)"
  using assms(3,4)
proof (induction rs arbitrary: rs')
  case (Cons r rs)
  show ?case
  proof (cases "fieldSetMerge fs r pr")
    case None
    with Cons show ?thesis by auto
  next
    case (Some m)
    with Cons.prems fieldSetMerge_spec [OF assms(1) _ assms(2) Some] show ?thesis by auto
  qed
qed simp

lemma grantsOne_sound:
  assumes "wf_rule_set p" and "grantsOne p pr" and "rule_permits (prs_fields p) pr req"
  shows "set_permits p req"
  using assms rule_grants_sound
  by (fastforce simp: wf_rule_set_def grantsOne_def set_permits_def list_all_iff list_ex_iff)

lemma addOne_fields [simp]: "prs_fields (addOne pr p) = prs_fields p"
  by (simp add: addOne_def split: option.splits)

lemma addOne_spec:
  assumes "wf_rule_set p" and "wf_rule (prs_fields p) pr"
  shows "wf_rule_set (addOne pr p) \<and>
    (set_permits (addOne pr p) req \<longleftrightarrow> set_permits p req \<or> rule_permits (prs_fields p) pr req)"
proof -
  have wf: "wf_fields (prs_fields p)" "list_all (wf_rule (prs_fields p)) (granted p)"
    using assms(1) by (auto simp: wf_rule_set_def)
  consider "grantsOne p pr"
    | rs where "\<not> grantsOne p pr" "tryReplace (prs_fields p) pr (granted p) = Some rs"
    | rs where "\<not> grantsOne p pr" "tryReplace (prs_fields p) pr (granted p) = None"
        "tryMerge (prs_fields p) pr (granted p) = Some rs"
    | "\<not> grantsOne p pr" "tryReplace (prs_fields p) pr (granted p) = None"
        "tryMerge (prs_fields p) pr (granted p) = None"
    by blast
  then show ?thesis
  proof cases
    case 1
    with assms grantsOne_sound [OF assms(1) 1] show ?thesis by (auto simp: addOne_def)
  next
    case (2 rs)
    with wf tryReplace_spec [OF wf(1) assms(2) wf(2) 2(2)] show ?thesis
      by (simp add: addOne_def wf_rule_set_def set_permits_def)
  next
    case (3 rs)
    with wf tryMerge_spec [OF wf(1) assms(2) wf(2) 3(3)] show ?thesis
      by (simp add: addOne_def wf_rule_set_def set_permits_def)
  next
    case 4
    with wf assms(2) show ?thesis by (auto simp: addOne_def wf_rule_set_def set_permits_def)
  qed
qed

lemma prsAdd_fields [simp]: "prs_fields (prsAdd prs p) = prs_fields p"
  unfolding prsAdd_def by (induction prs arbitrary: p) auto

lemma prsAdd_spec:
  assumes "wf_rule_set p" and "list_all (wf_rule (prs_fields p)) prs"
  shows "wf_rule_set (prsAdd prs p) \<and>
    (set_permits (prsAdd prs p) req \<longleftrightarrow> set_permits p req \<or> rules_permit (prs_fields p) prs req)"
  using assms unfolding prsAdd_def
proof (induction prs arbitrary: p)
  case (Cons pr prs)
  with addOne_spec [of p pr] show ?case by auto
qed simp

lemma CoreFields_wf [simp]: "wf_fields CoreFields"
  by (simp add: wf_fields_def CoreFields_def APIGroupsField_def ResourcesField_def VerbsField_def
      NonResourceURLsField_def ResourceNamesField_def)

lemma NewPolicyRuleSet_wf [simp]: "wf_fields fs \<Longrightarrow> wf_rule_set (NewPolicyRuleSet fs)"
  by (simp add: NewPolicyRuleSet_def wf_rule_set_def)

text \<open>
  C20. Adding rules to a rule set keeps the set well formed and makes it permit exactly what it
  permitted before or what one of the added rules permits, although rules may be dropped,
  replaced or merged on the way: the compaction of rules neither grants nor loses a permission.
\<close>

theorem prsAdd_permits:
  assumes "wf_rule_set p" and "list_all (wf_rule (prs_fields p)) prs"
  shows "wf_rule_set (prsAdd prs p) \<and>
    (\<forall>req. set_permits (prsAdd prs p) req \<longleftrightarrow>
       set_permits p req \<or> (\<exists>r \<in> set prs. rule_permits (prs_fields p) r req))"
  using prsAdd_spec [OF assms] by blast

definition exampleRuleA :: PolicyRule where
  "exampleRuleA = \<lparr>pr_Verbs = [''get''], pr_ApiGroups = [[]], pr_Resources = [''pods''],
     pr_NonResourceUrls = [], pr_ResourceNames = []\<rparr>"

definition exampleRuleB :: PolicyRule where
  "exampleRuleB = \<lparr>pr_Verbs = [''get''], pr_ApiGroups = [[]], pr_Resources = [''secrets''],
     pr_NonResourceUrls = [], pr_ResourceNames = []\<rparr>"

lemmas example_rule_simps = exampleRuleA_def exampleRuleB_def NewPolicyRuleSet_def CoreFields_def
  APIGroupsField_def ResourcesField_def VerbsField_def NonResourceURLsField_def ResourceNamesField_def

lemma example_rules_wf: "list_all (wf_rule CoreFields) [exampleRuleA, exampleRuleB]"
  by (simp add: example_rule_simps wf_rule_def fieldGet_def)

theorem prsAdd_permits_witness:
  "length (granted (prsAdd [exampleRuleA, exampleRuleB] (NewPolicyRuleSet CoreFields))) = 1 \<and>
   set_permits (prsAdd [exampleRuleA, exampleRuleB] (NewPolicyRuleSet CoreFields))
     [SelVerbs \<mapsto> ''get'', SelResources \<mapsto> ''secrets''] \<and>
   \<not> set_permits (prsAdd [exampleRuleA, exampleRuleB] (NewPolicyRuleSet CoreFields))
     [SelVerbs \<mapsto> ''list'']"
proof -
  have "set_permits (prsAdd [exampleRuleA, exampleRuleB] (NewPolicyRuleSet CoreFields)) req \<longleftrightarrow>
     rule_permits CoreFields exampleRuleA req \<or> rule_permits CoreFields exampleRuleB req" for req
    using prsAdd_permits [of "NewPolicyRuleSet CoreFields" "[exampleRuleA, exampleRuleB]"] example_rules_wf
    by (simp add: NewPolicyRuleSet_def set_permits_def wf_rule_set_def)
  moreover have "length (granted (prsAdd [exampleRuleA, exampleRuleB] (NewPolicyRuleSet CoreFields))) = 1"
    by code_simp
  ultimately show ?thesis
    by (simp add: example_rule_simps rule_permits_def fieldGet_def wildcard_def)
qed

text \<open>
  When a rule set says that it grants rules, it permits every request that one of those rules
  permits: the answer of \<open>Grants\<close> is never too generous.
\<close>

theorem prsGrants_sound:
  assumes "wf_rule_set p" and "prsGrants p prs" and "r \<in> set prs" and "rule_permits (prs_fields p) r req"
  shows "set_permits p req"
  using assms grantsOne_sound [of p r req] by (auto simp: prsGrants_def list_all_iff)

theorem prsGrants_sound_witness:
  "set_permits (prsAdd [exampleRuleA, exampleRuleB] (NewPolicyRuleSet CoreFields)) [SelResources \<mapsto> ''secrets'']"
proof (rule prsGrants_sound [where prs = "[exampleRuleB]" and r = exampleRuleB])
  show "wf_rule_set (prsAdd [exampleRuleA, exampleRuleB] (NewPolicyRuleSet CoreFields))"
    using prsAdd_spec [of "NewPolicyRuleSet CoreFields" "[exampleRuleA, exampleRuleB]"] example_rules_wf
    by (simp add: NewPolicyRuleSet_def wf_rule_set_def)
  show "prsGrants (prsAdd [exampleRuleA, exampleRuleB] (NewPolicyRuleSet CoreFields)) [exampleRuleB]"
    by code_simp
qed (simp_all add: example_rule_simps rule_permits_def fieldGet_def)

end
