(* ===== verification/K8s_Evaluator.thy ===== *)
theory K8s_Evaluator
  imports K8s_Rbac
begin

text \<open>
  Subjects of Kubernetes role bindings, sets of subjects, and the evaluator of the rules that
  apply to a subject: \<open>pkg/k8srbac/subject_key.go\<close>, \<open>subject_set.go\<close>, \<open>subjects.go\<close>,
  \<open>utils.go\<close>, \<open>roles.go\<close>, \<open>evaluator.go\<close> and \<open>evaluator_impl.go\<close>.

  The map of the evaluator has the subject sets as keys, compared by their address. There is one
  set for each role identifier, so the model keys the entry by that identifier and keeps the set
  beside the role.
\<close>

subsection \<open>Subjects, roles and bindings\<close>

datatype SubjectKind = UNSET_KIND | SERVICE_ACCOUNT | USER | GROUP

fun kindNumber :: "SubjectKind \<Rightarrow> nat" where
  "kindNumber UNSET_KIND = 0"
| "kindNumber SERVICE_ACCOUNT = 1"
| "kindNumber USER = 2"
| "kindNumber GROUP = 3"

lemma kindNumber_inject [simp]: "kindNumber a = kindNumber b \<longleftrightarrow> a = b"
  by (cases a; cases b) simp_all

instantiation SubjectKind :: linorder
begin

definition less_eq_SubjectKind :: "SubjectKind \<Rightarrow> SubjectKind \<Rightarrow> bool" where
  "less_eq_SubjectKind a b \<longleftrightarrow> kindNumber a \<le> kindNumber b"

definition less_SubjectKind :: "SubjectKind \<Rightarrow> SubjectKind \<Rightarrow> bool" where
  "less_SubjectKind a b \<longleftrightarrow> kindNumber a < kindNumber b"

instance
  by standard (auto simp: less_eq_SubjectKind_def less_SubjectKind_def)

end

record Subject =
  sub_Id :: string
  sub_Kind :: SubjectKind
  sub_Name :: string
  sub_Namespace :: string
  sub_ClusterId :: string
  sub_ClusterName :: string

record K8SRole =
  role_Id :: string
  role_Name :: string
  role_ClusterRole :: bool
  role_Rules :: "PolicyRule list"

record K8SRoleBinding =
  rb_RoleId :: string
  rb_Namespace :: string
  rb_ClusterRole :: bool
  rb_Labels :: "(string, string) gomap"
  rb_Subjects :: "Subject list"

record subjectKey =
  key_name :: string
  key_clusterID :: string
  key_namespace :: string
  key_kind :: SubjectKind

definition keyForSubject :: "Subject \<Rightarrow> subjectKey" where
  "keyForSubject sub =
     \<lparr>key_name = sub_Name sub, key_clusterID = sub_ClusterId sub, key_namespace = sub_Namespace sub,
      key_kind = sub_Kind sub\<rparr>"

subsection \<open>Subject sets\<close>

type_synonym subjectSet = "(subjectKey, Subject) gomap"

definition subjectSetAdd :: "Subject list \<Rightarrow> subjectSet \<Rightarrow> subjectSet" where
  "subjectSetAdd subs ss = fold (\<lambda>sub m. mput (keyForSubject sub) sub m) subs ss"

definition NewSubjectSet :: "Subject list \<Rightarrow> subjectSet" where
  "NewSubjectSet subs = subjectSetAdd subs []"

definition subjectIsLess :: "Subject \<Rightarrow> Subject \<Rightarrow> bool" where
  "subjectIsLess sub1 sub2 =
     (if sub_Kind sub1 \<noteq> sub_Kind sub2 then sub_Kind sub1 < sub_Kind sub2
      else if sub_Namespace sub1 \<noteq> sub_Namespace sub2 then sub_Namespace sub1 < sub_Namespace sub2
      else sub_Name sub1 < sub_Name sub2)"

definition getSortedSubjectList :: "subjectSet \<Rightarrow> Subject list" where
  "getSortedSubjectList subjectsByKey = sort_by subjectIsLess (map snd subjectsByKey)"

definition subjectSetToSlice :: "subjectSet \<Rightarrow> Subject list" where
  "subjectSetToSlice ss = (if length ss = 0 then [] else getSortedSubjectList ss)"

definition subjectSetContains :: "Subject list \<Rightarrow> subjectSet \<Rightarrow> bool" where
  "subjectSetContains subs ss = list_all (\<lambda>sub. mget ss (keyForSubject sub) \<noteq> None) subs"

definition subjectSetCardinality :: "subjectSet \<Rightarrow> nat" where
  "subjectSetCardinality ss = length ss"

definition ContainsSet :: "subjectSet \<Rightarrow> subjectSet \<Rightarrow> bool" where
  "ContainsSet inputSet ss =
     (if subjectSetCardinality ss < subjectSetCardinality inputSet then False
      else subjectSetContains (subjectSetToSlice inputSet) ss)"

subsection \<open>Subjects of bindings, deployments and service accounts\<close>

definition adjustSubject :: "Subject \<Rightarrow> Subject" where
  "adjustSubject subject =
     (if sub_Namespace subject \<noteq> [] \<and> (sub_Kind subject = USER \<or> sub_Kind subject = GROUP)
      then subject\<lparr>sub_Namespace := []\<rparr> else subject)"

definition GetSubjectsAdjustedByKind :: "K8SRoleBinding option \<Rightarrow> Subject list" where
  "GetSubjectsAdjustedByKind binding =
     (case binding of
        None \<Rightarrow> []
      | Some b \<Rightarrow>
          subjectSetToSlice (fold (\<lambda>subject ss. subjectSetAdd [adjustSubject subject] ss) (rb_Subjects b) (NewSubjectSet [])))"

record Deployment =
  dep_ServiceAccount :: string
  dep_Namespace :: string
  dep_ClusterId :: string
  dep_ClusterName :: string

record ServiceAccount =
  sa_Name :: string
  sa_Namespace :: string
  sa_ClusterId :: string
  sa_ClusterName :: string

definition GetSubjectForDeployment :: "Deployment \<Rightarrow> Subject" where
  "GetSubjectForDeployment deployment =
     \<lparr>sub_Id = [], sub_Kind = SERVICE_ACCOUNT,
      sub_Name = (if dep_ServiceAccount deployment = [] then ''default'' else dep_ServiceAccount deployment),
      sub_Namespace = dep_Namespace deployment, sub_ClusterId = dep_ClusterId deployment,
      sub_ClusterName = dep_ClusterName deployment\<rparr>"

definition GetSubjectForServiceAccount :: "ServiceAccount \<Rightarrow> Subject" where
  "GetSubjectForServiceAccount sa =
     \<lparr>sub_Id = [], sub_Kind = SERVICE_ACCOUNT, sub_Name = sa_Name sa, sub_Namespace = sa_Namespace sa,
      sub_ClusterId = sa_ClusterId sa, sub_ClusterName = sa_ClusterName sa\<rparr>"

definition GetAllSubjects :: "K8SRoleBinding list \<Rightarrow> SubjectKind list \<Rightarrow> Subject list" where
  "GetAllSubjects bindings kinds =
     subjectSetToSlice
       (fold (\<lambda>binding ss.
          fold (\<lambda>subject ss. if sub_Kind subject \<in> set kinds then subjectSetAdd [subject] ss else ss)
            (GetSubjectsAdjustedByKind (Some binding)) ss)
        bindings (NewSubjectSet []))"

datatype subjectError = SubjectNotFound string

fun firstSubject :: "string \<Rightarrow> Subject list \<Rightarrow> Subject option" where
  "firstSubject subjectName [] = None"
| "firstSubject subjectName (subject # rest) =
     (if sub_Kind subject \<noteq> USER \<and> sub_Kind subject \<noteq> GROUP then firstSubject subjectName rest
      else if sub_Name subject = subjectName then Some subject
      else firstSubject subjectName rest)"

fun GetSubject :: "string \<Rightarrow> K8SRoleBinding list \<Rightarrow> subjectError + Subject" where
  "GetSubject subjectName [] = Inl (SubjectNotFound subjectName)"
| "GetSubject subjectName (binding # rest) =
     (case firstSubject subjectName (GetSubjectsAdjustedByKind (Some binding)) of
        Some subject \<Rightarrow> Inr subject
      | None \<Rightarrow> GetSubject subjectName rest)"

subsection \<open>Constants and bindings, \<open>utils.go\<close>\<close>

definition ReadResourceVerbs :: "string goset" where
  "ReadResourceVerbs = newSet [''get'', ''list'', ''watch'']"

definition WriteResourceVerbs :: "string goset" where
  "WriteResourceVerbs = newSet [''create'', ''bind'', ''patch'', ''update'', ''delete'', ''deletecollection'']"

definition ResourceVerbs :: "string goset" where
  "ResourceVerbs = frozenUnion WriteResourceVerbs ReadResourceVerbs"

definition DefaultLabel :: "string \<times> string" where
  "DefaultLabel = (''kubernetes.io/bootstrapping'', ''rbac-defaults'')"

definition DefaultServiceAccountName :: string where
  "DefaultServiceAccountName = ''default''"

definition IsDefaultRoleBinding :: "K8SRoleBinding \<Rightarrow> bool" where
  "IsDefaultRoleBinding roleBinding = (mget_str (rb_Labels roleBinding) (fst DefaultLabel) = snd DefaultLabel)"

definition IsClusterRoleBinding :: "K8SRoleBinding \<Rightarrow> bool" where
  "IsClusterRoleBinding binding = (rb_ClusterRole binding \<and> rb_Namespace binding = [])"

definition EffectiveAdmin :: PolicyRule where
  "EffectiveAdmin = \<lparr>pr_Verbs = [''*''], pr_ApiGroups = [[]], pr_Resources = [''*''],
     pr_NonResourceUrls = [], pr_ResourceNames = []\<rparr>"

definition xAnything :: "string \<Rightarrow> PolicyRule" where
  "xAnything verb = \<lparr>pr_Verbs = [verb], pr_ApiGroups = [], pr_Resources = [],
     pr_NonResourceUrls = [], pr_ResourceNames = []\<rparr>"

definition GetAnything :: PolicyRule where "GetAnything = xAnything ''get''"
definition ListAnything :: PolicyRule where "ListAnything = xAnything ''list''"
definition WatchAnything :: PolicyRule where "WatchAnything = xAnything ''watch''"
definition CreateAnything :: PolicyRule where "CreateAnything = xAnything ''create''"
definition BindAnything :: PolicyRule where "BindAnything = xAnything ''bind''"
definition PatchAnything :: PolicyRule where "PatchAnything = xAnything ''patch''"
definition UpdateAnything :: PolicyRule where "UpdateAnything = xAnything ''update''"
definition DeleteAnything :: PolicyRule where "DeleteAnything = xAnything ''delete''"
definition DeletecollectionAnything :: PolicyRule where "DeletecollectionAnything = xAnything ''deletecollection''"

definition roleRuleSet :: "K8SRole \<Rightarrow> PolicyRuleSet" where
  "roleRuleSet role = prsAdd (role_Rules role) (NewPolicyRuleSet CoreFields)"

definition GetVerbsForRole :: "K8SRole \<Rightarrow> string goset" where
  "GetVerbsForRole role = VerbSet (roleRuleSet role)"

definition GetResourcesForRole :: "K8SRole \<Rightarrow> string goset" where
  "GetResourcesForRole role = ResourceSet (roleRuleSet role)"

definition GetNonResourceURLsForRole :: "K8SRole \<Rightarrow> string goset" where
  "GetNonResourceURLsForRole role = NonResourceURLSet (roleRuleSet role)"

subsection \<open>The evaluator\<close>

definition clusterAdmin :: string where "clusterAdmin = ''cluster-admin''"

definition subjectsByRoleID :: "K8SRoleBinding list \<Rightarrow> (string, subjectSet) gomap" where
  "subjectsByRoleID bindings =
     fold (\<lambda>binding m.
       let m1 = (if mget m (rb_RoleId binding) = None then mput (rb_RoleId binding) (NewSubjectSet []) m else m)
       in case mget m1 (rb_RoleId binding) of
            Some ss \<Rightarrow> mput (rb_RoleId binding) (subjectSetAdd (GetSubjectsAdjustedByKind (Some binding)) ss) m1
          | None \<Rightarrow> m1)
     bindings []"

definition buildMap :: "K8SRole list \<Rightarrow> K8SRoleBinding list \<Rightarrow> (string, subjectSet \<times> K8SRole) gomap" where
  "buildMap roles bindings =
     fold (\<lambda>role m. case mget (subjectsByRoleID bindings) (role_Id role) of
         Some ss \<Rightarrow> mput (role_Id role) (ss, role) m
       | None \<Rightarrow> m)
     roles []"

record evaluator =
  k8sroles :: "K8SRole list"
  k8sbindings :: "K8SRoleBinding list"
  ev_bindings :: "(string, subjectSet \<times> K8SRole) gomap"

definition NewEvaluator :: "K8SRole list \<Rightarrow> K8SRoleBinding list \<Rightarrow> evaluator" where
  "NewEvaluator roles bindings =
     \<lparr>k8sroles = roles, k8sbindings = bindings, ev_bindings = buildMap roles bindings\<rparr>"

definition MakeClusterEvaluator :: "K8SRole list \<Rightarrow> K8SRoleBinding list \<Rightarrow> evaluator" where
  "MakeClusterEvaluator roles bindings =
     NewEvaluator (filter role_ClusterRole roles) (filter IsClusterRoleBinding bindings)"

definition ForSubject :: "evaluator \<Rightarrow> Subject \<Rightarrow> PolicyRuleSet" where
  "ForSubject e subject =
     fold (\<lambda>(_, ss, role) prs. if subjectSetContains [subject] ss then prsAdd (role_Rules role) prs else prs)
       (ev_bindings e) (NewPolicyRuleSet CoreFields)"

definition RolesForSubject :: "evaluator \<Rightarrow> Subject \<Rightarrow> K8SRole list" where
  "RolesForSubject e subject =
     fold (\<lambda>(_, ss, role) roles. if subjectSetContains [subject] ss then roles @ [role] else roles) (ev_bindings e) []"

definition subjectsAreEqual :: "Subject \<Rightarrow> Subject \<Rightarrow> bool" where
  "subjectsAreEqual subject1 subject2 \<longleftrightarrow>
     sub_Kind subject1 = sub_Kind subject2 \<and> sub_Name subject1 = sub_Name subject2 \<and>
     sub_Namespace subject1 = sub_Namespace subject2"

definition grantsAllCoreAPIAccess :: "K8SRole \<Rightarrow> bool" where
  "grantsAllCoreAPIAccess role =
     prsGrants (prsAdd (role_Rules role) (NewPolicyRuleSet CoreFields))
       [\<lparr>pr_Verbs = [''*''], pr_ApiGroups = [[]], pr_Resources = [''*''],
         pr_NonResourceUrls = [], pr_ResourceNames = []\<rparr>]"

definition getClusterAdminRoles :: "K8SRole list \<Rightarrow> string goset" where
  "getClusterAdminRoles roles =
     fold (\<lambda>role ids.
       if role_Name role = clusterAdmin then fst (setAdd (role_Id role) ids)
       else if role_ClusterRole role \<and> grantsAllCoreAPIAccess role then fst (setAdd (role_Id role) ids)
       else ids)
     roles (newSet [])"

definition getSubjectsGrantedClusterAdmin :: "K8SRole list \<Rightarrow> K8SRoleBinding list \<Rightarrow> Subject list" where
  "getSubjectsGrantedClusterAdmin roles roleBindings =
     (let ids = getClusterAdminRoles roles
      in if setCardinality ids = 0 then []
         else subjectSetToSlice
           (fold (\<lambda>binding ss.
              if \<not> IsDefaultRoleBinding binding \<and> setContains ids (rb_RoleId binding)
              then subjectSetAdd (GetSubjectsAdjustedByKind (Some binding)) ss else ss)
            roleBindings (NewSubjectSet [])))"

definition isSubjectClusterAdmin :: "Subject \<Rightarrow> K8SRole list \<Rightarrow> K8SRoleBinding list \<Rightarrow> bool" where
  "isSubjectClusterAdmin subject roles roleBindings =
     (let ids = getClusterAdminRoles roles;
          ss = fold (\<lambda>binding ss.
             if setContains ids (rb_RoleId binding)
             then subjectSetAdd (GetSubjectsAdjustedByKind (Some binding)) ss else ss)
            roleBindings (NewSubjectSet [])
      in list_ex (subjectsAreEqual subject) (subjectSetToSlice ss))"

definition IsClusterAdmin :: "evaluator \<Rightarrow> Subject \<Rightarrow> bool" where
  "IsClusterAdmin e subject = isSubjectClusterAdmin subject (k8sroles e) (k8sbindings e)"

subsection \<open>Facts on subject sets\<close>

interpretation subject_order: strict_weak_order subjectIsLess
proof
  show "\<not> subjectIsLess y x" if "subjectIsLess x y" for x y
    using that by (auto simp: subjectIsLess_def split: if_splits)
  show "\<not> subjectIsLess z x" if "\<not> subjectIsLess y x" "\<not> subjectIsLess z y" for x y z
    using that by (fastforce simp: subjectIsLess_def split: if_splits)
qed

definition wf_ss :: "subjectSet \<Rightarrow> bool" where
  "wf_ss ss \<longleftrightarrow> wf_map ss \<and> (\<forall>(k, s) \<in> set ss. k = keyForSubject s)"

lemma NewSubjectSet_Nil [simp]: "NewSubjectSet [] = []"
  by (simp add: NewSubjectSet_def subjectSetAdd_def)

lemma wf_ss_Nil [simp]: "wf_ss []"
  by (simp add: wf_ss_def)

lemma fst_set_mput [simp]: "fst ` set (mput k v m) = insert k (fst ` set m)"
  using dom_map_of_conv_image_fst [of "mput k v m"]
  by (auto simp: update_conv' dom_map_of_conv_image_fst)

lemma wf_ss_mput:
  assumes "wf_ss ss"
  shows "wf_ss (mput (keyForSubject s) s ss)"
proof -
  have wf: "wf_map ss" "wf_map (mput (keyForSubject s) s ss)" using assms by (simp_all add: wf_ss_def)
  have "k = keyForSubject v" if "(k, v) \<in> set (mput (keyForSubject s) s ss)" for k v
  proof -
    have "mget (mput (keyForSubject s) s ss) k = Some v" using that wf(2) by (simp only: mget_eq_iff_in_set)
    then have "k = keyForSubject s \<and> v = s \<or> mget ss k = Some v" by (auto split: if_splits)
    with assms show ?thesis by (auto simp: wf_ss_def dest!: mget_in_set)
  qed
  with wf show ?thesis by (auto simp: wf_ss_def)
qed

lemma wf_ss_Add [simp]: "wf_ss ss \<Longrightarrow> wf_ss (subjectSetAdd subs ss)"
  unfolding subjectSetAdd_def by (induction subs arbitrary: ss) (auto intro: wf_ss_mput)

lemma mkeys_subjectSetAdd [simp]: "fst ` set (subjectSetAdd subs ss) = keyForSubject ` set subs \<union> fst ` set ss"
  unfolding subjectSetAdd_def by (induction subs arbitrary: ss) simp_all

lemma slice_keys:
  assumes "wf_ss ss"
  shows "keyForSubject ` set (subjectSetToSlice ss) = set (mkeys ss)"
    and "distinct (map keyForSubject (subjectSetToSlice ss))"
proof -
  have eq: "map keyForSubject (map snd ss) = mkeys ss"
    using assms by (auto simp: wf_ss_def)
  have "set (subjectSetToSlice ss) = set (map snd ss)"
    by (simp add: subjectSetToSlice_def getSortedSubjectList_def)
  then have "keyForSubject ` set (subjectSetToSlice ss) = set (map keyForSubject (map snd ss))"
    by (simp only: set_map)
  then show "keyForSubject ` set (subjectSetToSlice ss) = set (mkeys ss)" by (simp only: eq)
  have "distinct (map keyForSubject (map snd ss))" using assms unfolding eq by (simp add: wf_ss_def)
  then have "distinct (map snd ss) \<and> inj_on keyForSubject (set (map snd ss))" by (simp only: distinct_map)
  then show "distinct (map keyForSubject (subjectSetToSlice ss))"
    by (simp add: subjectSetToSlice_def getSortedSubjectList_def distinct_map)
qed

lemma subjectSetContains_one [simp]: "subjectSetContains [s] ss \<longleftrightarrow> keyForSubject s \<in> set (mkeys ss)"
  by (simp add: subjectSetContains_def mget_None_iff)

text \<open>The keys a binding stands for.\<close>

definition bound_keys :: "K8SRoleBinding \<Rightarrow> subjectKey set" where
  "bound_keys b = keyForSubject ` adjustSubject ` set (rb_Subjects b)"

lemma fold_conditional_add:
  fixes g :: "'b \<Rightarrow> Subject list" and P :: "'b \<Rightarrow> bool" and xs :: "'b list"
  assumes "wf_ss ss"
  shows "wf_ss (fold (\<lambda>x ss. if P x then subjectSetAdd (g x) ss else ss) xs ss)"
    and "set (mkeys (fold (\<lambda>x ss. if P x then subjectSetAdd (g x) ss else ss) xs ss)) =
      (\<Union>x \<in> {x \<in> set xs. P x}. keyForSubject ` set (g x)) \<union> set (mkeys ss)"
  using assms by (induction xs arbitrary: ss) (simp_all, blast)

lemma adjusted_keys [simp]: "keyForSubject ` set (GetSubjectsAdjustedByKind (Some b)) = bound_keys b"
  using fold_conditional_add [of "[]" "\<lambda>_. True" "\<lambda>s. [adjustSubject s]" "rb_Subjects b"]
  by (auto simp: GetSubjectsAdjustedByKind_def slice_keys(1) bound_keys_def)

lemma mget_subjectsByRoleID_snoc:
  "mget (subjectsByRoleID (bs @ [b])) rid =
     (if rid = rb_RoleId b
      then Some (subjectSetAdd (GetSubjectsAdjustedByKind (Some b))
                   (case mget (subjectsByRoleID bs) rid of Some ss \<Rightarrow> ss | None \<Rightarrow> []))
      else mget (subjectsByRoleID bs) rid)"
  by (simp add: subjectsByRoleID_def Let_def NewSubjectSet_def subjectSetAdd_def [of "[]"] split: option.splits)

lemma subjectsByRoleID_spec:
  "(case mget (subjectsByRoleID bindings) rid of
      None \<Rightarrow> \<forall>b \<in> set bindings. rb_RoleId b \<noteq> rid
    | Some ss \<Rightarrow> wf_ss ss \<and> set (mkeys ss) = (\<Union>b \<in> {b \<in> set bindings. rb_RoleId b = rid}. bound_keys b))"
proof (induction bindings rule: rev_induct)
  case Nil
  show ?case by (simp add: subjectsByRoleID_def)
next
  case (snoc b bs)
  show ?case
  proof (cases "rid = rb_RoleId b")
    case False
    then have "{b' \<in> set (bs @ [b]). rb_RoleId b' = rid} = {b' \<in> set bs. rb_RoleId b' = rid}" by auto
    with False snoc show ?thesis
      by (cases "mget (subjectsByRoleID bs) rid") (simp_all add: mget_subjectsByRoleID_snoc)
  next
    case True
    let ?old = "case mget (subjectsByRoleID bs) rid of Some ss \<Rightarrow> ss | None \<Rightarrow> []"
    have "wf_ss ?old \<and> fst ` set ?old = (\<Union>b' \<in> {b' \<in> set bs. rb_RoleId b' = rid}. bound_keys b')"
      using snoc by (cases "mget (subjectsByRoleID bs) rid") auto
    moreover have "{b' \<in> set (bs @ [b]). rb_RoleId b' = rid} = insert b {b' \<in> set bs. rb_RoleId b' = rid}"
      using True by auto
    moreover have "mget (subjectsByRoleID (bs @ [b])) rid =
        Some (subjectSetAdd (GetSubjectsAdjustedByKind (Some b)) ?old)"
      using True by (simp add: mget_subjectsByRoleID_snoc)
    ultimately show ?thesis
      by (simp del: set_append set_empty)
  qed
qed

lemma mget_buildMap:
  assumes "distinct (map role_Id roles)"
  shows "mget (buildMap roles bindings) rid = Some (ss, role) \<longleftrightarrow>
    role \<in> set roles \<and> role_Id role = rid \<and> mget (subjectsByRoleID bindings) rid = Some ss"
  using assms
proof (induction roles rule: rev_induct)
  case Nil
  show ?case by (simp add: buildMap_def)
next
  case (snoc r roles)
  have "mget (buildMap (roles @ [r]) bindings) rid =
      (case mget (subjectsByRoleID bindings) (role_Id r) of
         Some ss \<Rightarrow> if rid = role_Id r then Some (ss, r) else mget (buildMap roles bindings) rid
       | None \<Rightarrow> mget (buildMap roles bindings) rid)"
    by (simp add: buildMap_def split: option.splits)
  moreover have "role \<in> set roles \<Longrightarrow> role_Id role \<noteq> role_Id r"
    using snoc.prems by (simp, metis imageI)
  ultimately show ?case using snoc by (auto split: option.splits if_splits)
qed

lemma wf_buildMap: "wf_map (buildMap roles bindings)"
  by (induction roles rule: rev_induct) (auto simp: buildMap_def split: option.splits)

text \<open>The roles that are bound to a key, and the entries of the evaluator's map that contain it.\<close>

definition bound_to :: "K8SRoleBinding list \<Rightarrow> subjectKey \<Rightarrow> K8SRole \<Rightarrow> bool" where
  "bound_to bindings k role \<longleftrightarrow> (\<exists>b \<in> set bindings. rb_RoleId b = role_Id role \<and> k \<in> bound_keys b)"

lemma buildMap_entries:
  assumes "distinct (map role_Id roles)"
  shows "(\<exists>rid ss. (rid, ss, role) \<in> set (buildMap roles bindings) \<and> k \<in> set (mkeys ss)) \<longleftrightarrow>
    role \<in> set roles \<and> bound_to bindings k role"
  using mget_buildMap [OF assms, of bindings _ _ role] subjectsByRoleID_spec [of bindings "role_Id role"]
  by (auto simp: mget_eq_iff_in_set [OF wf_buildMap] bound_to_def split: option.splits)

subsection \<open>What the evaluator answers\<close>

definition wf_roles :: "K8SRole list \<Rightarrow> bool" where
  "wf_roles roles \<longleftrightarrow> distinct (map role_Id roles) \<and> (\<forall>r \<in> set roles. list_all (wf_rule CoreFields) (role_Rules r))"

lemma fold_ForSubject:
  fixes xs :: "(string \<times> subjectSet \<times> K8SRole) list"
  assumes "wf_rule_set p" and "prs_fields p = CoreFields"
    and "\<forall>(_, _, role) \<in> set xs. list_all (wf_rule CoreFields) (role_Rules role)"
  shows "set_permits (fold (\<lambda>(_, ss, role) prs. if subjectSetContains [s] ss then prsAdd (role_Rules role) prs else prs) xs p) req
    \<longleftrightarrow> set_permits p req \<or>
      (\<exists>rid ss role. (rid, ss, role) \<in> set xs \<and> keyForSubject s \<in> set (mkeys ss) \<and>
         rules_permit CoreFields (role_Rules role) req)"
  using assms
proof (induction xs arbitrary: p)
  case (Cons x xs)
  obtain rid ss role where x: "x = (rid, ss, role)" by (cases x)
  define p' where "p' = (if subjectSetContains [s] ss then prsAdd (role_Rules role) p else p)"
  have wf: "list_all (wf_rule (prs_fields p)) (role_Rules role)" using Cons.prems by (auto simp: x)
  have p': "wf_rule_set p'" "prs_fields p' = CoreFields"
    "set_permits p' req \<longleftrightarrow> set_permits p req \<or>
       keyForSubject s \<in> set (mkeys ss) \<and> rules_permit CoreFields (role_Rules role) req"
    using prsAdd_spec [OF Cons.prems(1) wf] Cons.prems(1,2) by (auto simp: p'_def)
  from Cons.IH [OF p'(1,2)] Cons.prems(3) show ?case
    by (simp add: x p'(3) flip: p'_def del: subjectSetContains_one) blast
qed simp

lemma ForSubject_spec:
  assumes "wf_roles roles"
  shows "set_permits (ForSubject (NewEvaluator roles bindings) s) req \<longleftrightarrow>
    (\<exists>role \<in> set roles. bound_to bindings (keyForSubject s) role \<and> rules_permit CoreFields (role_Rules role) req)"
proof -
  have d: "distinct (map role_Id roles)" using assms by (simp add: wf_roles_def)
  have "role \<in> set roles" if "(rid, ss, role) \<in> set (buildMap roles bindings)" for rid ss role
    using that mget_buildMap [OF d] by (simp add: mget_eq_iff_in_set [OF wf_buildMap])
  then have "\<forall>(_, _, role) \<in> set (buildMap roles bindings). list_all (wf_rule CoreFields) (role_Rules role)"
    using assms by (auto simp: wf_roles_def)
  from fold_ForSubject [OF NewPolicyRuleSet_wf [OF CoreFields_wf] _ this, of s req]
  show ?thesis
    using buildMap_entries [OF d, of _ bindings "keyForSubject s"]
    by (simp add: ForSubject_def NewEvaluator_def NewPolicyRuleSet_def set_permits_def) blast
qed

text \<open>
  C21. The rule set that the evaluator returns for a subject permits a request exactly when one of
  the rules of a role permits it that a binding binds to the subject: a binding names the role's
  identifier and lists a subject with the same name, kind and cluster, and the same namespace
  (which does not count for users and groups). The hypothesis is that role identifiers are
  unique and rules repeat no value.
\<close>

theorem ForSubject_permits:
  assumes "wf_roles roles"
  shows "set_permits (ForSubject (NewEvaluator roles bindings) s) req \<longleftrightarrow>
    (\<exists>role \<in> set roles. \<exists>b \<in> set bindings. \<exists>s' \<in> set (rb_Subjects b). \<exists>rule \<in> set (role_Rules role).
       rb_RoleId b = role_Id role \<and> keyForSubject (adjustSubject s') = keyForSubject s \<and>
       rule_permits CoreFields rule req)"
  unfolding ForSubject_spec [OF assms] bound_to_def bound_keys_def by (simp add: image_iff) metis

definition exampleSubject :: Subject where
  "exampleSubject = \<lparr>sub_Id = [], sub_Kind = USER, sub_Name = ''alice'', sub_Namespace = ''ns1'',
     sub_ClusterId = ''c1'', sub_ClusterName = ''one''\<rparr>"

definition exampleRole :: K8SRole where
  "exampleRole = \<lparr>role_Id = ''r1'', role_Name = ''viewer'', role_ClusterRole = True,
     role_Rules = [exampleRuleA, exampleRuleB]\<rparr>"

definition exampleAdminRole :: K8SRole where
  "exampleAdminRole = \<lparr>role_Id = ''r2'', role_Name = ''root'', role_ClusterRole = True,
     role_Rules = [EffectiveAdmin]\<rparr>"

definition exampleBinding :: "string \<Rightarrow> K8SRoleBinding" where
  "exampleBinding rid = \<lparr>rb_RoleId = rid, rb_Namespace = [], rb_ClusterRole = True, rb_Labels = [],
     rb_Subjects = [exampleSubject]\<rparr>"

lemma example_roles_wf: "wf_roles [exampleRole, exampleAdminRole]"
  using example_rules_wf
  by (simp add: wf_roles_def exampleRole_def exampleAdminRole_def EffectiveAdmin_def wf_rule_def CoreFields_def
      APIGroupsField_def ResourcesField_def VerbsField_def NonResourceURLsField_def ResourceNamesField_def fieldGet_def)

theorem ForSubject_permits_witness:
  "set_permits (ForSubject (NewEvaluator [exampleRole, exampleAdminRole] [exampleBinding ''r1'']) (adjustSubject exampleSubject))
     [SelVerbs \<mapsto> ''get'', SelResources \<mapsto> ''secrets''] \<and>
   \<not> set_permits (ForSubject (NewEvaluator [exampleRole, exampleAdminRole] [exampleBinding ''r1'']) (adjustSubject exampleSubject))
     [SelVerbs \<mapsto> ''list'']"
  using ForSubject_permits [OF example_roles_wf, of "[exampleBinding ''r1'']" "adjustSubject exampleSubject"]
  by (simp add: exampleBinding_def exampleRole_def exampleAdminRole_def rule_permits_def example_rule_simps fieldGet_def
      wildcard_def)

text \<open>The roles that count as cluster admin.\<close>

definition admin_role :: "K8SRole \<Rightarrow> bool" where
  "admin_role role \<longleftrightarrow> role_Name role = clusterAdmin \<or> role_ClusterRole role \<and> grantsAllCoreAPIAccess role"

lemma getClusterAdminRoles_set [simp]: "set (getClusterAdminRoles roles) = role_Id ` {r \<in> set roles. admin_role r}"
proof -
  have "getClusterAdminRoles roles = fold (\<lambda>r ids. if admin_role r then gs_ins (role_Id r) ids else ids) roles []"
    unfolding getClusterAdminRoles_def newSet_Nil
    by (intro arg_cong [where f = "\<lambda>f. fold f roles []"] ext) (auto simp: admin_role_def setAdd_def Let_def)
  also have "set (fold (\<lambda>r ids. if admin_role r then gs_ins (role_Id r) ids else ids) roles ids) =
      role_Id ` {r \<in> set roles. admin_role r} \<union> set ids" for ids
    by (induction roles arbitrary: ids) (simp_all, blast)
  finally show ?thesis by simp
qed

lemma subjectsAreEqual_key:
  "subjectsAreEqual s s' \<longleftrightarrow> key_kind (keyForSubject s') = sub_Kind s \<and> key_name (keyForSubject s') = sub_Name s \<and>
     key_namespace (keyForSubject s') = sub_Namespace s"
  by (auto simp: subjectsAreEqual_def keyForSubject_def)

lemma IsClusterAdmin_spec:
  "IsClusterAdmin (NewEvaluator roles bindings) s \<longleftrightarrow>
    (\<exists>role \<in> set roles. \<exists>b \<in> set bindings. \<exists>s' \<in> set (rb_Subjects b).
       admin_role role \<and>
       rb_RoleId b = role_Id role \<and> subjectsAreEqual s (adjustSubject s'))"
proof -
  let ?P = "\<lambda>b. setContains (getClusterAdminRoles roles) (rb_RoleId b)"
  let ?ss = "fold (\<lambda>b ss. if ?P b then subjectSetAdd (GetSubjectsAdjustedByKind (Some b)) ss else ss) bindings []"
  have ss: "wf_ss ?ss" "set (mkeys ?ss) = (\<Union>b \<in> {b \<in> set bindings. ?P b}. bound_keys b)"
    using fold_conditional_add [of "[]" ?P "\<lambda>b. GetSubjectsAdjustedByKind (Some b)" bindings] by simp_all
  let ?Q = "\<lambda>k. key_kind k = sub_Kind s \<and> key_name k = sub_Name s \<and> key_namespace k = sub_Namespace s"
  have "IsClusterAdmin (NewEvaluator roles bindings) s \<longleftrightarrow> (\<exists>s' \<in> set (subjectSetToSlice ?ss). ?Q (keyForSubject s'))"
    by (simp add: IsClusterAdmin_def NewEvaluator_def isSubjectClusterAdmin_def Let_def list_ex_iff subjectsAreEqual_key)
  also have "\<dots> \<longleftrightarrow> (\<exists>k \<in> keyForSubject ` set (subjectSetToSlice ?ss). ?Q k)" by blast
  also have "\<dots> \<longleftrightarrow> (\<exists>b \<in> set bindings. ?P b \<and> (\<exists>k \<in> bound_keys b. ?Q k))"
    unfolding slice_keys(1) [OF ss(1)] ss(2) by blast
  finally show ?thesis
    by (auto simp: setContains_def bound_keys_def subjectsAreEqual_key)
qed

text \<open>
  A subject counts as cluster admin exactly when some binding to an admin role lists, after
  the adjustment for users and groups, a subject with the same kind, name and namespace, where a
  role is an admin role when its name is \<open>cluster-admin\<close> or it is a cluster role that grants
  everything in the core API group.
\<close>

theorem IsClusterAdmin_correct:
  "IsClusterAdmin (NewEvaluator roles bindings) s \<longleftrightarrow>
    (\<exists>role \<in> set roles. \<exists>b \<in> set bindings. \<exists>s' \<in> set (rb_Subjects b).
       (role_Name role = clusterAdmin \<or> role_ClusterRole role \<and> grantsAllCoreAPIAccess role) \<and>
       rb_RoleId b = role_Id role \<and> subjectsAreEqual s (adjustSubject s'))"
  unfolding IsClusterAdmin_spec admin_role_def ..

lemma admin_request:
  assumes "req SelNonResourceUrls = None" and "req SelApiGroups \<in> {None, Some []}"
  shows "rule_permits CoreFields EffectiveAdmin req"
  using assms
  by (auto simp: rule_permits_def CoreFields_def APIGroupsField_def ResourcesField_def VerbsField_def
      NonResourceURLsField_def ResourceNamesField_def EffectiveAdmin_def fieldGet_def wildcard_def split: option.splits)

lemma admin_grant:
  assumes "list_all (wf_rule CoreFields) (role_Rules role)" and "grantsAllCoreAPIAccess role"
    and "req SelNonResourceUrls = None" and "req SelApiGroups \<in> {None, Some []}"
  shows "rules_permit CoreFields (role_Rules role) req"
proof -
  let ?p = "prsAdd (role_Rules role) (NewPolicyRuleSet CoreFields)"
  have p: "wf_rule_set ?p" "set_permits ?p req \<longleftrightarrow> rules_permit CoreFields (role_Rules role) req"
    using prsAdd_spec [of "NewPolicyRuleSet CoreFields" "role_Rules role"] assms(1)
    by (simp_all add: NewPolicyRuleSet_def set_permits_def wf_rule_set_def)
  have "grantsOne ?p EffectiveAdmin"
    using assms(2) by (simp add: grantsAllCoreAPIAccess_def prsGrants_def EffectiveAdmin_def)
  moreover have "rule_permits (prs_fields ?p) EffectiveAdmin req"
    using admin_request [OF assms(3,4)] by (simp add: NewPolicyRuleSet_def)
  ultimately show ?thesis using grantsOne_sound [OF p(1)] p(2) by blast
qed

text \<open>
  A subject that counts as cluster admin through a role that is not merely named so can do
  everything in the core API group: the evaluator of the subject that the binding lists permits
  every request on resources of the core group, whatever the verb, the resource and its name.
\<close>

theorem cluster_admin_permits_all:
  assumes "wf_roles roles" and "\<forall>role \<in> set roles. role_Name role \<noteq> clusterAdmin"
    and "IsClusterAdmin (NewEvaluator roles bindings) s"
  shows "\<exists>s'. subjectsAreEqual s s' \<and>
    (\<forall>req. req SelNonResourceUrls = None \<and> req SelApiGroups \<in> {None, Some []} \<longrightarrow>
       set_permits (ForSubject (NewEvaluator roles bindings) s') req)"
proof -
  obtain role b s' where role: "role \<in> set roles" "admin_role role" "b \<in> set bindings" "s' \<in> set (rb_Subjects b)"
      "rb_RoleId b = role_Id role" "subjectsAreEqual s (adjustSubject s')"
    using assms(3) by (auto simp: IsClusterAdmin_spec)
  then have "grantsAllCoreAPIAccess role" using assms(2) by (auto simp: admin_role_def)
  moreover have "list_all (wf_rule CoreFields) (role_Rules role)" using assms(1) role(1) by (simp add: wf_roles_def)
  ultimately have "rules_permit CoreFields (role_Rules role) req"
    if "req SelNonResourceUrls = None" "req SelApiGroups \<in> {None, Some []}" for req
    using admin_grant that by blast
  moreover have "bound_to bindings (keyForSubject (adjustSubject s')) role"
    using role by (auto simp: bound_to_def bound_keys_def)
  ultimately show ?thesis
    using role(1,6) unfolding ForSubject_spec [OF assms(1)] by blast
qed

theorem cluster_admin_permits_all_witness:
  "\<exists>s'. subjectsAreEqual (adjustSubject exampleSubject) s' \<and>
     set_permits (ForSubject (NewEvaluator [exampleRole, exampleAdminRole] [exampleBinding ''r2'']) s')
       [SelVerbs \<mapsto> ''delete'', SelResources \<mapsto> ''nodes'']"
proof -
  have "IsClusterAdmin (NewEvaluator [exampleRole, exampleAdminRole] [exampleBinding ''r2'']) (adjustSubject exampleSubject)"
    by code_simp
  moreover have "\<forall>role \<in> set [exampleRole, exampleAdminRole]. role_Name role \<noteq> clusterAdmin"
    by (simp add: exampleRole_def exampleAdminRole_def clusterAdmin_def)
  ultimately obtain s' where "subjectsAreEqual (adjustSubject exampleSubject) s'"
    "\<forall>req. req SelNonResourceUrls = None \<and> req SelApiGroups \<in> {None, Some []} \<longrightarrow>
       set_permits (ForSubject (NewEvaluator [exampleRole, exampleAdminRole] [exampleBinding ''r2'']) s') req"
    using cluster_admin_permits_all [OF example_roles_wf, of "[exampleBinding ''r2'']" "adjustSubject exampleSubject"] by blast
  then show ?thesis by (intro exI [of _ s']) auto
qed

subsection \<open>The permission map and the slices of subjects\<close>

lemma verbResources_mput [simp]: "verbResources (mput w rs m) v = (if v = w then rs else verbResources m v)"
  by (simp add: verbResources_def)

lemma set_verbResources_addResources:
  "set (verbResources (addResources verb rs m) v) =
     (if v \<noteq> verb then set (verbResources m v)
      else if ''*'' \<in> set rs then {''*''} else set rs \<union> set (verbResources m v))"
  by (induction rs arbitrary: m) (auto simp: setAdd_def Let_def)

text \<open>What a verb maps to after the resources \<open>rs\<close> were added to \<open>old\<close>.\<close>

definition star_union :: "string set \<Rightarrow> string set \<Rightarrow> string set" where
  "star_union rs old = (if ''*'' \<in> rs \<union> old then {''*''} else rs \<union> old)"

lemma star_union_nested: "star_union a (star_union b {}) = star_union (a \<union> b) {}"
  by (auto simp: star_union_def)

lemma set_verbResources_addVerbs:
  assumes "\<forall>v. ''*'' \<in> set (verbResources m v) \<longrightarrow> set (verbResources m v) = {''*''}"
  shows "set (verbResources (addVerbs verbs rs m) v) =
     (if v \<in> set verbs then star_union (set rs) (set (verbResources m v)) else set (verbResources m v))"
  using assms
proof (induction verbs arbitrary: m)
  case (Cons w verbs)
  define m' where "m' = (if setContains (verbResources m w) ''*'' then m else addResources w rs m)"
  have m': "set (verbResources m' x) =
      (if x = w then star_union (set rs) (set (verbResources m x)) else set (verbResources m x))" for x
    using Cons.prems by (auto simp: m'_def set_verbResources_addResources star_union_def setContains_def)
  then have "\<forall>x. ''*'' \<in> set (verbResources m' x) \<longrightarrow> set (verbResources m' x) = {''*''}"
    using Cons.prems by (auto simp: star_union_def)
  from Cons.IH [OF this] m' show ?case
    by (auto simp: star_union_def simp flip: m'_def)
qed simp

lemma GetPermissionMap_fold:
  "set (verbResources (GetPermissionMap \<lparr>prs_fields = fs, granted = rules\<rparr>) v) =
     star_union (\<Union>r \<in> {r \<in> set rules. v \<in> set (pr_Verbs r)}. set (pr_Resources r)) {}"
proof (induction rules arbitrary: v rule: rev_induct)
  case Nil
  show ?case by (simp add: GetPermissionMap_def verbResources_def star_union_def)
next
  case (snoc r rules)
  let ?m = "GetPermissionMap \<lparr>prs_fields = fs, granted = rules\<rparr>"
  have "\<forall>v. ''*'' \<in> set (verbResources ?m v) \<longrightarrow> set (verbResources ?m v) = {''*''}"
    unfolding snoc by (simp add: star_union_def)
  from set_verbResources_addVerbs [OF this, of "pr_Verbs r" "pr_Resources r"]
  have "set (verbResources (GetPermissionMap \<lparr>prs_fields = fs, granted = rules @ [r]\<rparr>) v) =
      (if v \<in> set (pr_Verbs r) then star_union (set (pr_Resources r)) (set (verbResources ?m v)) else set (verbResources ?m v))"
    using snoc by (auto simp: GetPermissionMap_def star_union_def)
  moreover have "{r' \<in> set (rules @ [r]). v \<in> set (pr_Verbs r')} =
      (if v \<in> set (pr_Verbs r) then {r} else {}) \<union> {r' \<in> set rules. v \<in> set (pr_Verbs r')}"
    by auto
  ultimately show ?case using snoc [of v] by (simp add: star_union_nested del: set_append)
qed

text \<open>
  The permission map of a rule set gives for every verb the resources of the rules that have
  the verb, or the wildcard alone as soon as one of them has the wildcard.
\<close>

theorem GetPermissionMap_correct:
  "set (verbResources (GetPermissionMap p) verb) =
     (let rs = (\<Union>r \<in> {r \<in> set (granted p). verb \<in> set (pr_Verbs r)}. set (pr_Resources r))
      in if ''*'' \<in> rs then {''*''} else rs)"
  using GetPermissionMap_fold [of "prs_fields p" "granted p" verb]
  by (cases p) (simp only: star_union_def Let_def Un_empty_right PolicyRuleSet.simps)

text \<open>
  The subjects of a binding, adjusted by kind, are the listed subjects with the namespace of
  users and groups removed, each key once, in the order of kind, namespace and name.
\<close>

theorem GetSubjectsAdjustedByKind_correct:
  "keyForSubject ` set (GetSubjectsAdjustedByKind (Some b)) = keyForSubject ` adjustSubject ` set (rb_Subjects b) \<and>
   distinct (map keyForSubject (GetSubjectsAdjustedByKind (Some b))) \<and>
   sorted_wrt (\<lambda>s1 s2. \<not> subjectIsLess s2 s1) (GetSubjectsAdjustedByKind (Some b))"
proof -
  have "wf_ss (fold (\<lambda>s ss. subjectSetAdd [adjustSubject s] ss) (rb_Subjects b) [])"
    using fold_conditional_add(1) [of "[]" "\<lambda>_. True" "\<lambda>s. [adjustSubject s]" "rb_Subjects b"] by simp
  from slice_keys(2) [OF this] show ?thesis
    using adjusted_keys [of b] subject_order.sorted_sort_by
    by (simp add: GetSubjectsAdjustedByKind_def bound_keys_def subjectSetToSlice_def getSortedSubjectList_def)
qed

end
