(* ===== verification/Upgrade_States.thy ===== *)
theory Upgrade_States
  imports Go_Sets
begin

text \<open>
  The state machine of a sensor upgrade: states, stages and workflows of the upgrader
  (\<open>pkg/sensorupgrader\<close>), and the table of transitions with its interpreter
  (\<open>central/sensor/service/connection/upgradecontroller/stateutils\<close>).

  Matchers of a transition are optional values, as the nil-able pointers of the code.
  Dereferencing the nil \<open>nextState\<close> of a transition would panic: that is \<open>Inl ()\<close>.
\<close>

subsection \<open>States, stages and workflows\<close>

datatype UpgradeState =
    UPGRADE_INITIALIZING | UPGRADER_LAUNCHING | UPGRADER_LAUNCHED | PRE_FLIGHT_CHECKS_COMPLETE
  | UPGRADE_OPERATIONS_DONE | UPGRADE_COMPLETE | UPGRADE_INITIALIZATION_ERROR
  | PRE_FLIGHT_CHECKS_FAILED | UPGRADE_ERROR_ROLLING_BACK | UPGRADE_ERROR_ROLLED_BACK
  | UPGRADE_ERROR_ROLLBACK_FAILED | UPGRADE_ERROR_UNKNOWN | UPGRADE_TIMED_OUT

fun stateNumber :: "UpgradeState \<Rightarrow> nat" where
  "stateNumber UPGRADE_INITIALIZING = 0"
| "stateNumber UPGRADER_LAUNCHING = 1"
| "stateNumber UPGRADER_LAUNCHED = 2"
| "stateNumber PRE_FLIGHT_CHECKS_COMPLETE = 3"
| "stateNumber UPGRADE_OPERATIONS_DONE = 4"
| "stateNumber UPGRADE_COMPLETE = 10"
| "stateNumber UPGRADE_INITIALIZATION_ERROR = 11"
| "stateNumber PRE_FLIGHT_CHECKS_FAILED = 12"
| "stateNumber UPGRADE_ERROR_ROLLING_BACK = 13"
| "stateNumber UPGRADE_ERROR_ROLLED_BACK = 14"
| "stateNumber UPGRADE_ERROR_ROLLBACK_FAILED = 15"
| "stateNumber UPGRADE_ERROR_UNKNOWN = 16"
| "stateNumber UPGRADE_TIMED_OUT = 17"

lemma stateNumber_inject [simp]: "stateNumber a = stateNumber b \<longleftrightarrow> a = b"
  by (cases a; cases b) simp_all

instantiation UpgradeState :: linorder
begin

definition less_eq_UpgradeState :: "UpgradeState \<Rightarrow> UpgradeState \<Rightarrow> bool" where
  "less_eq_UpgradeState a b \<longleftrightarrow> stateNumber a \<le> stateNumber b"

definition less_UpgradeState :: "UpgradeState \<Rightarrow> UpgradeState \<Rightarrow> bool" where
  "less_UpgradeState a b \<longleftrightarrow> stateNumber a < stateNumber b"

instance
  by standard (auto simp: less_eq_UpgradeState_def less_UpgradeState_def)

end

datatype UpgradeProcessType = UPGRADE | CERT_ROTATION

datatype Stage =
    UnsetStage | CleanupForeignStateStage | SnapshotForRollForwardStage | SnapshotForRollbackStage
  | SnapshotForDryRunStage | FetchBundleStage | InstantiateBundleStage | GeneratePlanStage
  | GenerateRollbackPlanStage | PreflightStage | PreflightNoFailStage | ExecuteStage
  | CleanupOwnerStage | WaitForDeletionStage

definition stageByName :: "(string, Stage) gomap" where
  "stageByName =
     [(''CleanupForeignStateStage'', CleanupForeignStateStage),
      (''SnapshotForRollForwardStage'', SnapshotForRollForwardStage),
      (''SnapshotForRollbackStage'', SnapshotForRollbackStage),
      (''SnapshotForDryRunStage'', SnapshotForDryRunStage),
      (''FetchBundleStage'', FetchBundleStage),
      (''InstantiateBundleStage'', InstantiateBundleStage),
      (''GeneratePlanStage'', GeneratePlanStage),
      (''GenerateRollbackPlanStage'', GenerateRollbackPlanStage),
      (''PreflightStage'', PreflightStage),
      (''PreflightNoFailStage'', PreflightNoFailStage),
      (''ExecuteStage'', ExecuteStage),
      (''CleanupOwnerStage'', CleanupOwnerStage),
      (''WaitForDeletionStage'', WaitForDeletionStage)]"

definition GetStage :: "string \<Rightarrow> Stage" where
  "GetStage name = (case mget stageByName name of None \<Rightarrow> UnsetStage | Some stage \<Rightarrow> stage)"

definition RollForwardWorkflow :: string where "RollForwardWorkflow = ''roll-forward''"
definition RollBackWorkflow :: string where "RollBackWorkflow = ''roll-back''"
definition DryRunWorkflow :: string where "DryRunWorkflow = ''dry-run''"
definition ValidateBundleWorkflow :: string where "ValidateBundleWorkflow = ''validate-bundle''"
definition CleanupWorkflow :: string where "CleanupWorkflow = ''cleanup''"

definition Workflows :: "(string, Stage list) gomap" where
  "Workflows =
     [(RollForwardWorkflow,
        [CleanupForeignStateStage, SnapshotForRollForwardStage, FetchBundleStage, InstantiateBundleStage,
         GeneratePlanStage, PreflightStage, ExecuteStage]),
      (RollBackWorkflow, [SnapshotForRollbackStage, GenerateRollbackPlanStage, PreflightNoFailStage, ExecuteStage]),
      (DryRunWorkflow,
        [SnapshotForDryRunStage, FetchBundleStage, InstantiateBundleStage, GeneratePlanStage, PreflightStage]),
      (ValidateBundleWorkflow, [FetchBundleStage, InstantiateBundleStage]),
      (CleanupWorkflow, [CleanupOwnerStage, WaitForDeletionStage])]"

definition rollForwardStagesBeforePreFlight :: "Stage list" where
  "rollForwardStagesBeforePreFlight =
     [CleanupForeignStateStage, SnapshotForRollForwardStage, FetchBundleStage, InstantiateBundleStage, GeneratePlanStage]"

definition TerminalStates :: "UpgradeState goset" where
  "TerminalStates = newSet
     [UPGRADE_COMPLETE, PRE_FLIGHT_CHECKS_FAILED, UPGRADE_INITIALIZATION_ERROR, UPGRADE_TIMED_OUT,
      UPGRADE_ERROR_ROLLED_BACK, UPGRADE_ERROR_ROLLBACK_FAILED, UPGRADE_ERROR_UNKNOWN]"

subsection \<open>Transitions\<close>

record stateAndUpgraderReq =
  upgradeType :: UpgradeProcessType
  currentState :: UpgradeState
  workflow :: string
  stage :: Stage
  upgraderErrOccurred :: bool

record nextStateAndResponse =
  nextUpgradeState :: UpgradeState
  upgraderWorkflowToExecute :: string
  resp_updateDetail :: bool

record transitioner =
  workflowMatch :: "string option"
  stageMatch :: "Stage goset option"
  currentStateMatch :: "UpgradeState goset option"
  errOccurredMatch :: "bool option"
  upgradeTypeMatch :: "UpgradeProcessType option"
  workflowToExecute :: string
  noStateChange :: bool
  nextState :: "UpgradeState option"
  updateDetail :: bool

definition anyStateFrom :: "UpgradeState list \<Rightarrow> UpgradeState goset" where
  "anyStateFrom desiredStates = newSet desiredStates"

definition anyStageFrom :: "Stage list \<Rightarrow> Stage goset" where
  "anyStageFrom desiredStages = newSet desiredStages"

definition GetNextState :: "transitioner \<Rightarrow> stateAndUpgraderReq \<Rightarrow> unit + nextStateAndResponse option" where
  "GetNextState e req =
     (if (case currentStateMatch e of Some m \<Rightarrow> \<not> setContains m (currentState req) | None \<Rightarrow> False) then Inr None
      else if (case workflowMatch e of Some m \<Rightarrow> workflow req \<noteq> m | None \<Rightarrow> False) then Inr None
      else if (case stageMatch e of Some m \<Rightarrow> \<not> setContains m (stage req) | None \<Rightarrow> False) then Inr None
      else if (case errOccurredMatch e of Some m \<Rightarrow> upgraderErrOccurred req \<noteq> m | None \<Rightarrow> False) then Inr None
      else if (case upgradeTypeMatch e of Some m \<Rightarrow> upgradeType req \<noteq> m | None \<Rightarrow> False) then Inr None
      else if noStateChange e then
        Inr (Some \<lparr>nextUpgradeState = currentState req, upgraderWorkflowToExecute = workflowToExecute e,
                   resp_updateDetail = updateDetail e\<rparr>)
      else (case nextState e of
              None \<Rightarrow> Inl ()
            | Some s \<Rightarrow> Inr (Some \<lparr>nextUpgradeState = s, upgraderWorkflowToExecute = workflowToExecute e,
                                   resp_updateDetail = updateDetail e\<rparr>)))"

text \<open>A transition whose fields are all left out; the literals of the table set the others.\<close>

definition transition0 :: transitioner where
  "transition0 = \<lparr>workflowMatch = None, stageMatch = None, currentStateMatch = None, errOccurredMatch = None,
     upgradeTypeMatch = None, workflowToExecute = [], noStateChange = False, nextState = None, updateDetail = False\<rparr>"

definition allTransitions :: "transitioner list" where
  "allTransitions =
    [transition0\<lparr>currentStateMatch := Some (anyStateFrom (setAsSlice TerminalStates)),
       noStateChange := True, workflowToExecute := CleanupWorkflow\<rparr>,
     transition0\<lparr>workflowMatch := Some [],
       currentStateMatch := Some (anyStateFrom [UPGRADE_INITIALIZING, UPGRADER_LAUNCHING, UPGRADER_LAUNCHED,
         PRE_FLIGHT_CHECKS_COMPLETE, UPGRADE_OPERATIONS_DONE]),
       workflowToExecute := RollForwardWorkflow, nextState := Some UPGRADER_LAUNCHED\<rparr>,
     transition0\<lparr>workflowMatch := Some [], currentStateMatch := Some (anyStateFrom [UPGRADE_ERROR_ROLLING_BACK]),
       workflowToExecute := RollBackWorkflow, nextState := Some UPGRADE_ERROR_ROLLING_BACK\<rparr>,
     transition0\<lparr>workflowMatch := Some RollForwardWorkflow,
       stageMatch := Some (anyStageFrom rollForwardStagesBeforePreFlight), errOccurredMatch := Some False,
       workflowToExecute := RollForwardWorkflow, nextState := Some UPGRADER_LAUNCHED\<rparr>,
     transition0\<lparr>workflowMatch := Some RollForwardWorkflow,
       stageMatch := Some (anyStageFrom rollForwardStagesBeforePreFlight), errOccurredMatch := Some True,
       workflowToExecute := CleanupWorkflow, nextState := Some UPGRADE_INITIALIZATION_ERROR, updateDetail := True\<rparr>,
     transition0\<lparr>workflowMatch := Some RollForwardWorkflow,
       stageMatch := Some (anyStageFrom [PreflightStage]), errOccurredMatch := Some False,
       workflowToExecute := RollForwardWorkflow, nextState := Some PRE_FLIGHT_CHECKS_COMPLETE\<rparr>,
     transition0\<lparr>workflowMatch := Some RollForwardWorkflow,
       stageMatch := Some (anyStageFrom [PreflightStage]), errOccurredMatch := Some True,
       workflowToExecute := CleanupWorkflow, nextState := Some PRE_FLIGHT_CHECKS_FAILED, updateDetail := True\<rparr>,
     transition0\<lparr>workflowMatch := Some RollForwardWorkflow,
       stageMatch := Some (anyStageFrom [ExecuteStage]), errOccurredMatch := Some False, upgradeTypeMatch := Some UPGRADE,
       workflowToExecute := RollForwardWorkflow, nextState := Some UPGRADE_OPERATIONS_DONE\<rparr>,
     transition0\<lparr>workflowMatch := Some RollForwardWorkflow,
       stageMatch := Some (anyStageFrom [ExecuteStage]), errOccurredMatch := Some False, upgradeTypeMatch := Some CERT_ROTATION,
       workflowToExecute := CleanupWorkflow, nextState := Some UPGRADE_COMPLETE\<rparr>,
     transition0\<lparr>workflowMatch := Some RollForwardWorkflow,
       stageMatch := Some (anyStageFrom [ExecuteStage]), errOccurredMatch := Some True,
       workflowToExecute := RollBackWorkflow, nextState := Some UPGRADE_ERROR_ROLLING_BACK, updateDetail := True\<rparr>,
     transition0\<lparr>workflowMatch := Some RollBackWorkflow,
       stageMatch := Some (anyStageFrom [SnapshotForRollbackStage, GenerateRollbackPlanStage, PreflightNoFailStage]),
       errOccurredMatch := Some False,
       workflowToExecute := RollBackWorkflow, nextState := Some UPGRADE_ERROR_ROLLING_BACK\<rparr>,
     transition0\<lparr>workflowMatch := Some RollBackWorkflow,
       stageMatch := Some (anyStageFrom [ExecuteStage]), errOccurredMatch := Some False, upgradeTypeMatch := Some UPGRADE,
       workflowToExecute := CleanupWorkflow, nextState := Some UPGRADE_ERROR_ROLLING_BACK\<rparr>,
     transition0\<lparr>workflowMatch := Some RollBackWorkflow,
       stageMatch := Some (anyStageFrom [ExecuteStage]), errOccurredMatch := Some False, upgradeTypeMatch := Some CERT_ROTATION,
       workflowToExecute := CleanupWorkflow, nextState := Some UPGRADE_ERROR_ROLLED_BACK\<rparr>,
     transition0\<lparr>workflowMatch := Some RollBackWorkflow, errOccurredMatch := Some True,
       workflowToExecute := CleanupWorkflow, nextState := Some UPGRADE_ERROR_ROLLBACK_FAILED, updateDetail := True\<rparr>,
     transition0\<lparr>currentStateMatch := Some (anyStateFrom [UPGRADE_ERROR_ROLLING_BACK]),
       workflowMatch := Some CleanupWorkflow, workflowToExecute := CleanupWorkflow, noStateChange := True\<rparr>]"

fun firstTransition :: "transitioner list \<Rightarrow> stateAndUpgraderReq \<Rightarrow> unit + nextStateAndResponse option" where
  "firstTransition [] req = Inr None"
| "firstTransition (transition # rest) req =
     (case GetNextState transition req of
        Inl p \<Rightarrow> Inl p
      | Inr (Some resp) \<Rightarrow> Inr (Some resp)
      | Inr None \<Rightarrow> firstTransition rest req)"

definition computeNextStateAndResp ::
  "UpgradeProcessType \<Rightarrow> UpgradeState \<Rightarrow> string \<Rightarrow> Stage \<Rightarrow> string \<Rightarrow> unit + nextStateAndResponse option" where
  "computeNextStateAndResp upgradeType0 currentUpgradeState workflow0 stage0 upgraderErr =
     firstTransition allTransitions
       \<lparr>upgradeType = upgradeType0, currentState = currentUpgradeState, workflow = workflow0, stage = stage0,
        upgraderErrOccurred = (upgraderErr \<noteq> [])\<rparr>"

text \<open>The second component of the result says whether the unexpected branch was taken, which logs an error in
  release builds.\<close>

definition DetermineNextStateAndWorkflowForUpgrader ::
  "UpgradeProcessType \<Rightarrow> UpgradeState \<Rightarrow> string \<Rightarrow> Stage \<Rightarrow> string \<Rightarrow> unit + (UpgradeState \<times> string \<times> bool) \<times> bool" where
  "DetermineNextStateAndWorkflowForUpgrader upgradeType0 currentUpgradeState workflow0 stage0 upgraderErr =
     (case computeNextStateAndResp upgradeType0 currentUpgradeState workflow0 stage0 upgraderErr of
        Inl p \<Rightarrow> Inl p
      | Inr (Some resp) \<Rightarrow>
          Inr ((nextUpgradeState resp, upgraderWorkflowToExecute resp, resp_updateDetail resp), False)
      | Inr None \<Rightarrow> Inr ((currentUpgradeState, CleanupWorkflow, False), True))"

subsection \<open>The table as a decision\<close>

definition terminal :: "UpgradeState \<Rightarrow> bool" where
  "terminal s \<longleftrightarrow> s \<in> set TerminalStates"

lemma setContains_TerminalStates [simp]: "setContains TerminalStates s = terminal s"
  by (simp add: setContains_def terminal_def)

lemma terminal_simps [simp]:
  "terminal UPGRADE_COMPLETE" "terminal PRE_FLIGHT_CHECKS_FAILED" "terminal UPGRADE_INITIALIZATION_ERROR"
  "terminal UPGRADE_TIMED_OUT" "terminal UPGRADE_ERROR_ROLLED_BACK" "terminal UPGRADE_ERROR_ROLLBACK_FAILED"
  "terminal UPGRADE_ERROR_UNKNOWN" "\<not> terminal UPGRADE_INITIALIZING" "\<not> terminal UPGRADER_LAUNCHING"
  "\<not> terminal UPGRADER_LAUNCHED" "\<not> terminal PRE_FLIGHT_CHECKS_COMPLETE" "\<not> terminal UPGRADE_OPERATIONS_DONE"
  "\<not> terminal UPGRADE_ERROR_ROLLING_BACK"
  by (simp_all add: terminal_def TerminalStates_def)

lemma nonterminal_cases:
  "\<not> terminal s \<longleftrightarrow> s \<in> {UPGRADE_INITIALIZING, UPGRADER_LAUNCHING, UPGRADER_LAUNCHED, PRE_FLIGHT_CHECKS_COMPLETE,
     UPGRADE_OPERATIONS_DONE, UPGRADE_ERROR_ROLLING_BACK}"
  by (cases s) simp_all

lemmas workflow_defs = RollForwardWorkflow_def RollBackWorkflow_def CleanupWorkflow_def

lemma workflow_distinct:
  "RollForwardWorkflow \<noteq> []" "RollBackWorkflow \<noteq> []" "CleanupWorkflow \<noteq> []"
  "RollForwardWorkflow \<noteq> RollBackWorkflow" "RollBackWorkflow \<noteq> RollForwardWorkflow"
  "RollForwardWorkflow \<noteq> CleanupWorkflow" "CleanupWorkflow \<noteq> RollForwardWorkflow"
  "RollBackWorkflow \<noteq> CleanupWorkflow" "CleanupWorkflow \<noteq> RollBackWorkflow"
  by (simp_all add: workflow_defs)

text \<open>The table with every field written out.\<close>

lemmas allTransitions_eq = allTransitions_def [unfolded transition0_def transitioner.update_convs]

lemma contains_anyStateFrom: "setContains (anyStateFrom ss) s \<longleftrightarrow> s \<in> set ss"
  by (simp add: anyStateFrom_def)

lemma contains_anyStageFrom: "setContains (anyStageFrom ss) s \<longleftrightarrow> s \<in> set ss"
  by (simp add: anyStageFrom_def)

lemma set_slice_TerminalStates [simp]: "s \<in> set (setAsSlice TerminalStates) \<longleftrightarrow> terminal s"
  by (simp add: setAsSlice_def terminal_def)

text \<open>One entry of the table: it applies when all of its matchers do.\<close>

primrec opt_match :: "('a \<Rightarrow> bool) \<Rightarrow> 'a option \<Rightarrow> bool" where
  "opt_match P None = True"
| "opt_match P (Some m) = P m"

lemma not_opt_match: "(case m of Some x \<Rightarrow> \<not> P x | None \<Rightarrow> False) = (\<not> opt_match P m)"
  by (cases m) simp_all

lemma firstTransition_entry:
  "firstTransition (\<lparr>workflowMatch = wm, stageMatch = sm, currentStateMatch = cm, errOccurredMatch = em,
      upgradeTypeMatch = tm, workflowToExecute = we, noStateChange = nc, nextState = ns, updateDetail = ud\<rparr> # rest) req =
    (if opt_match (\<lambda>m. setContains m (currentState req)) cm \<and> opt_match (\<lambda>m. workflow req = m) wm \<and>
        opt_match (\<lambda>m. setContains m (stage req)) sm \<and> opt_match (\<lambda>m. upgraderErrOccurred req = m) em \<and>
        opt_match (\<lambda>m. upgradeType req = m) tm
     then (if nc then Inr (Some \<lparr>nextUpgradeState = currentState req, upgraderWorkflowToExecute = we, resp_updateDetail = ud\<rparr>)
           else case ns of None \<Rightarrow> Inl ()
             | Some s \<Rightarrow> Inr (Some \<lparr>nextUpgradeState = s, upgraderWorkflowToExecute = we, resp_updateDetail = ud\<rparr>))
     else firstTransition rest req)"
  by (simp add: GetNextState_def not_opt_match split: option.split)

text \<open>What the table says, as nested conditions; every transition of the table sets a next state.\<close>

lemma DetermineNext_decision:
  "DetermineNextStateAndWorkflowForUpgrader t s w st err =
     Inr (if terminal s then ((s, CleanupWorkflow, False), False)
      else if w = [] then
        (if s = UPGRADE_ERROR_ROLLING_BACK then ((UPGRADE_ERROR_ROLLING_BACK, RollBackWorkflow, False), False)
         else ((UPGRADER_LAUNCHED, RollForwardWorkflow, False), False))
      else if w = RollForwardWorkflow \<and> st \<in> set rollForwardStagesBeforePreFlight then
        (if err = [] then ((UPGRADER_LAUNCHED, RollForwardWorkflow, False), False)
         else ((UPGRADE_INITIALIZATION_ERROR, CleanupWorkflow, True), False))
      else if w = RollForwardWorkflow \<and> st = PreflightStage then
        (if err = [] then ((PRE_FLIGHT_CHECKS_COMPLETE, RollForwardWorkflow, False), False)
         else ((PRE_FLIGHT_CHECKS_FAILED, CleanupWorkflow, True), False))
      else if w = RollForwardWorkflow \<and> st = ExecuteStage then
        (if err \<noteq> [] then ((UPGRADE_ERROR_ROLLING_BACK, RollBackWorkflow, True), False)
         else if t = UPGRADE then ((UPGRADE_OPERATIONS_DONE, RollForwardWorkflow, False), False)
         else ((UPGRADE_COMPLETE, CleanupWorkflow, False), False))
      else if w = RollBackWorkflow \<and> err \<noteq> [] then ((UPGRADE_ERROR_ROLLBACK_FAILED, CleanupWorkflow, True), False)
      else if w = RollBackWorkflow \<and> st \<in> {SnapshotForRollbackStage, GenerateRollbackPlanStage, PreflightNoFailStage} then
        ((UPGRADE_ERROR_ROLLING_BACK, RollBackWorkflow, False), False)
      else if w = RollBackWorkflow \<and> st = ExecuteStage then
        (if t = UPGRADE then ((UPGRADE_ERROR_ROLLING_BACK, CleanupWorkflow, False), False)
         else ((UPGRADE_ERROR_ROLLED_BACK, CleanupWorkflow, False), False))
      else if w = CleanupWorkflow \<and> s = UPGRADE_ERROR_ROLLING_BACK then ((s, CleanupWorkflow, False), False)
      else ((s, CleanupWorkflow, False), True))"
proof -
  note [simp del] = firstTransition.simps(2)
  note table = DetermineNextStateAndWorkflowForUpgrader_def computeNextStateAndResp_def allTransitions_eq
    firstTransition_entry contains_anyStateFrom contains_anyStageFrom workflow_distinct
    rollForwardStagesBeforePreFlight_def
  consider "terminal s" | "\<not> terminal s" "w = []" | "\<not> terminal s" "w = RollForwardWorkflow" |
    "\<not> terminal s" "w = RollBackWorkflow" | "\<not> terminal s" "w \<notin> {[], RollForwardWorkflow, RollBackWorkflow}"
    by blast
  then show ?thesis
  proof cases
    case 1
    then show ?thesis by (simp add: table)
  next
    case 2
    then show ?thesis by (cases s) (simp_all add: table)
  next
    case 3
    then show ?thesis by (cases t; cases "err = []"; cases st) (simp_all add: table)
  next
    case 4
    then show ?thesis by (cases t; cases "err = []"; cases st) (simp_all add: table)
  next
    case 5
    then show ?thesis by (simp add: table)
  qed
qed

definition transition_ok :: "UpgradeState \<Rightarrow> string \<Rightarrow> string \<Rightarrow> UpgradeState \<Rightarrow> string \<Rightarrow> bool \<Rightarrow> bool" where
  "transition_ok s w err s' w' unexpected \<longleftrightarrow>
     (terminal s \<longrightarrow> s' = s \<and> \<not> unexpected) \<and>
     (terminal s' \<longrightarrow> w' = CleanupWorkflow) \<and>
     (w' \<noteq> CleanupWorkflow \<longrightarrow>
        w' = RollForwardWorkflow \<and> s' \<in> {UPGRADER_LAUNCHED, PRE_FLIGHT_CHECKS_COMPLETE, UPGRADE_OPERATIONS_DONE} \<or>
        w' = RollBackWorkflow \<and> s' = UPGRADE_ERROR_ROLLING_BACK) \<and>
     (err \<noteq> [] \<and> w \<in> {RollForwardWorkflow, RollBackWorkflow} \<and> \<not> unexpected \<longrightarrow>
        terminal s' \<or> s' = UPGRADE_ERROR_ROLLING_BACK) \<and>
     (err \<noteq> [] \<and> w \<noteq> [] \<longrightarrow> w' \<noteq> RollForwardWorkflow) \<and>
     (w = [] \<and> \<not> terminal s \<longrightarrow> \<not> unexpected \<and>
        (s', w') = (if s = UPGRADE_ERROR_ROLLING_BACK then (UPGRADE_ERROR_ROLLING_BACK, RollBackWorkflow)
                    else (UPGRADER_LAUNCHED, RollForwardWorkflow)))"

text \<open>
  C30. The table of transitions decides every report of an upgrader without a panic. A terminal
  state is never left and always answered with the cleanup workflow; a report that ends the
  upgrade is answered with cleanup; the only other answers are to go on rolling forward in one
  of the launched states or to go on rolling back. An upgrader that reports an error from a workflow is never told
  to roll forward; if it has a transition, an error from the roll-forward or roll-back workflow ends the upgrade or
  starts the rollback. An upgrader that names no workflow has just started; whatever it
  reports, it is told to roll back if the upgrade is rolling back, and to roll forward otherwise.
\<close>

theorem upgrader_transitions_sound:
  "\<exists>s' w' d unexpected.
     DetermineNextStateAndWorkflowForUpgrader t s w st err = Inr ((s', w', d), unexpected) \<and>
     (terminal s \<longrightarrow> s' = s \<and> \<not> unexpected) \<and>
     (terminal s' \<longrightarrow> w' = CleanupWorkflow) \<and>
     (w' \<noteq> CleanupWorkflow \<longrightarrow>
        w' = RollForwardWorkflow \<and> s' \<in> {UPGRADER_LAUNCHED, PRE_FLIGHT_CHECKS_COMPLETE, UPGRADE_OPERATIONS_DONE} \<or>
        w' = RollBackWorkflow \<and> s' = UPGRADE_ERROR_ROLLING_BACK) \<and>
     (err \<noteq> [] \<and> w \<in> {RollForwardWorkflow, RollBackWorkflow} \<and> \<not> unexpected \<longrightarrow>
        terminal s' \<or> s' = UPGRADE_ERROR_ROLLING_BACK) \<and>
     (err \<noteq> [] \<and> w \<noteq> [] \<longrightarrow> w' \<noteq> RollForwardWorkflow) \<and>
     (w = [] \<and> \<not> terminal s \<longrightarrow> \<not> unexpected \<and>
        (s', w') = (if s = UPGRADE_ERROR_ROLLING_BACK then (UPGRADE_ERROR_ROLLING_BACK, RollBackWorkflow)
                    else (UPGRADER_LAUNCHED, RollForwardWorkflow)))"
proof -
  obtain s' w' d u where r: "DetermineNextStateAndWorkflowForUpgrader t s w st err = Inr ((s', w', d), u)"
    unfolding DetermineNext_decision by (metis prod.exhaust)
  then have "transition_ok s w err s' w' u"
    unfolding DetermineNext_decision by (auto simp: transition_ok_def workflow_distinct workflow_distinct(1-3) [symmetric] split: if_splits)
  with r show ?thesis unfolding transition_ok_def by blast
qed

theorem upgrader_transitions_sound_witness:
  "\<exists>s' w' d unexpected.
     DetermineNextStateAndWorkflowForUpgrader UPGRADE UPGRADER_LAUNCHED RollForwardWorkflow PreflightStage ''failed''
       = Inr ((s', w', d), unexpected) \<and> (terminal s' \<longrightarrow> w' = CleanupWorkflow) \<and> s' = PRE_FLIGHT_CHECKS_FAILED"
proof -
  have "DetermineNextStateAndWorkflowForUpgrader UPGRADE UPGRADER_LAUNCHED RollForwardWorkflow PreflightStage ''failed''
      = Inr ((PRE_FLIGHT_CHECKS_FAILED, CleanupWorkflow, True), False)"
    by (simp add: DetermineNext_decision workflow_distinct rollForwardStagesBeforePreFlight_def)
  with upgrader_transitions_sound [of UPGRADE UPGRADER_LAUNCHED RollForwardWorkflow PreflightStage "''failed''"]
  show ?thesis by auto
qed

lemma Workflows_lookup:
  "mget Workflows RollForwardWorkflow = Some (rollForwardStagesBeforePreFlight @ [PreflightStage, ExecuteStage])"
  "mget Workflows RollBackWorkflow =
     Some [SnapshotForRollbackStage, GenerateRollbackPlanStage, PreflightNoFailStage, ExecuteStage]"
  by (simp_all add: Workflows_def workflow_distinct rollForwardStagesBeforePreFlight_def)

text \<open>
  C31. No report of an upgrader that has just started, or that executes a stage of the roll-forward
  or of the roll-back workflow, is without a transition, whatever the state of the upgrade, its
  type and the error.
\<close>

theorem upgrader_transitions_complete:
  assumes "w = [] \<or> w \<in> {RollForwardWorkflow, RollBackWorkflow} \<and>
    (\<exists>stages. mget Workflows w = Some stages \<and> st \<in> set stages)"
  shows "\<exists>r. DetermineNextStateAndWorkflowForUpgrader t s w st err = Inr (r, False)"
proof (cases "w = []")
  case False
  with assms consider "w = RollForwardWorkflow" "st \<in> set rollForwardStagesBeforePreFlight \<union> {PreflightStage, ExecuteStage}"
    | "w = RollBackWorkflow" "st \<in> {SnapshotForRollbackStage, GenerateRollbackPlanStage, PreflightNoFailStage, ExecuteStage}"
    using Workflows_lookup by force
  then show ?thesis
    by cases (auto simp: DetermineNext_decision workflow_distinct simp del: ex_simps)
qed (auto simp: DetermineNext_decision simp del: ex_simps)

theorem upgrader_transitions_complete_witness:
  "mget Workflows RollBackWorkflow = Some [SnapshotForRollbackStage, GenerateRollbackPlanStage, PreflightNoFailStage, ExecuteStage] \<and>
   (\<exists>r. DetermineNextStateAndWorkflowForUpgrader CERT_ROTATION UPGRADE_ERROR_ROLLING_BACK RollBackWorkflow ExecuteStage [] = Inr (r, False))"
  using upgrader_transitions_complete [of RollBackWorkflow ExecuteStage CERT_ROTATION UPGRADE_ERROR_ROLLING_BACK "[]"]
  by (simp add: Workflows_lookup)

end
