(* ===== verification/Versions.thy ===== *)
theory Versions
  imports Go_Prelude
begin

text \<open>
  Version strings and their comparison, \<open>pkg/version/kind.go\<close> and \<open>pkg/version/compare.go\<close>.

  The regular expressions of the code are values of a datatype, matched by derivatives;
  a lemma relates matching to the language of an expression. A switch of the environment,
  read once, decides whether development builds are compared: it is an argument.
\<close>

subsection \<open>Regular expressions\<close>

datatype rex =
    RNone
  | REps
  | RChar "char \<Rightarrow> bool"
  | RAlt rex rex
  | RSeq rex rex
  | RStar rex

fun nullable :: "rex \<Rightarrow> bool" where
  "nullable RNone = False"
| "nullable REps = True"
| "nullable (RChar p) = False"
| "nullable (RAlt r s) = (nullable r \<or> nullable s)"
| "nullable (RSeq r s) = (nullable r \<and> nullable s)"
| "nullable (RStar r) = True"

fun deriv :: "char \<Rightarrow> rex \<Rightarrow> rex" where
  "deriv c RNone = RNone"
| "deriv c REps = RNone"
| "deriv c (RChar p) = (if p c then REps else RNone)"
| "deriv c (RAlt r s) = RAlt (deriv c r) (deriv c s)"
| "deriv c (RSeq r s) =
     (if nullable r then RAlt (RSeq (deriv c r) s) (deriv c s) else RSeq (deriv c r) s)"
| "deriv c (RStar r) = RSeq (deriv c r) (RStar r)"

text \<open>\<open>MatchString\<close> of an expression that is anchored at both ends.\<close>

definition rexMatch :: "rex \<Rightarrow> string \<Rightarrow> bool" where
  "rexMatch r s = nullable (fold deriv s r)"

inductive in_lang :: "rex \<Rightarrow> string \<Rightarrow> bool" where
  eps: "in_lang REps []"
| chr: "p c \<Longrightarrow> in_lang (RChar p) [c]"
| altL: "in_lang r u \<Longrightarrow> in_lang (RAlt r s) u"
| altR: "in_lang s u \<Longrightarrow> in_lang (RAlt r s) u"
| seq: "in_lang r u \<Longrightarrow> in_lang s v \<Longrightarrow> in_lang (RSeq r s) (u @ v)"
| starNil: "in_lang (RStar r) []"
| starCons: "in_lang r (c # u) \<Longrightarrow> in_lang (RStar r) v \<Longrightarrow> in_lang (RStar r) (c # u @ v)"

inductive_simps lang_simps:
  "in_lang RNone u" "in_lang REps u" "in_lang (RChar p) u" "in_lang (RAlt r s) u" "in_lang (RSeq r s) u"

inductive_cases star_ConsE: "in_lang (RStar r) (c # w)"

lemma nullable_lang: "nullable r \<longleftrightarrow> in_lang r []"
  by (induction r) (auto simp: lang_simps intro: in_lang.intros)

lemma seq_Cons:
  "in_lang (RSeq r s) (c # w) \<longleftrightarrow>
     in_lang r [] \<and> in_lang s (c # w) \<or> (\<exists>u v. w = u @ v \<and> in_lang r (c # u) \<and> in_lang s v)"
  by (auto simp: lang_simps Cons_eq_append_conv)

lemma deriv_lang: "in_lang (deriv c r) u \<longleftrightarrow> in_lang r (c # u)"
proof (induction r arbitrary: u)
  case (RSeq r s)
  show ?case
    unfolding seq_Cons deriv.simps nullable_lang by (auto simp: lang_simps(4,5) RSeq)
next
  case (RStar r)
  then show ?case
    by (auto simp: lang_simps elim!: star_ConsE intro: in_lang.starCons)
qed (auto simp: lang_simps)

lemma rexMatch_lang: "rexMatch r u \<longleftrightarrow> in_lang r u"
  unfolding rexMatch_def by (induction u arbitrary: r) (simp_all add: nullable_lang deriv_lang)

definition rPlus :: "rex \<Rightarrow> rex" where "rPlus r = RSeq r (RStar r)"

definition rOpt :: "rex \<Rightarrow> rex" where "rOpt r = RAlt r REps"

fun rLit :: "string \<Rightarrow> rex" where
  "rLit [] = REps"
| "rLit (c # s) = RSeq (RChar (\<lambda>x. x = c)) (rLit s)"

fun rTimes :: "nat \<Rightarrow> rex \<Rightarrow> rex" where
  "rTimes 0 r = REps"
| "rTimes (Suc n) r = RSeq r (rTimes n r)"

definition isDigit :: "char \<Rightarrow> bool" where
  "isDigit c \<longleftrightarrow> c \<in> set ''0123456789''"

definition isHex :: "char \<Rightarrow> bool" where
  "isHex c \<longleftrightarrow> c \<in> set ''0123456789abcdef''"

text \<open>A dot matches any character but a line feed.\<close>

definition rDot :: rex where "rDot = RChar (\<lambda>c. c \<noteq> CHR 0x0A)"

subsection \<open>Kinds of versions\<close>

datatype Kind = InvalidKind | DevelopmentKind | RCKind | ReleaseKind | NightlyKind

definition releaseRegexStr :: rex where
  "releaseRegexStr = RSeq (rPlus (RChar isDigit)) (RStar (RSeq (RChar (\<lambda>c. c = CHR ''.'')) (rPlus (RChar isDigit))))"

definition rcSuffixRegexStr :: rex where
  "rcSuffixRegexStr = RSeq (rLit ''-rc.'') (rPlus (RChar isDigit))"

definition hashTagRegexStr :: rex where
  "hashTagRegexStr = RSeq (rLit ''-g'') (rTimes 10 (RChar isHex))"

definition releaseRegex :: rex where "releaseRegex = releaseRegexStr"

definition rcRegex :: rex where "rcRegex = RSeq releaseRegexStr rcSuffixRegexStr"

definition nightlyRegex :: rex where
  "nightlyRegex = RSeq (RStar rDot) (RSeq (rLit ''-nightly-'') (RStar rDot))"

definition devRegex :: rex where
  "devRegex =
     RSeq releaseRegexStr
       (RSeq (rOpt (RAlt rcSuffixRegexStr (rLit ''.x'')))
         (RSeq (RChar (\<lambda>c. c = CHR ''-''))
           (RSeq (rPlus (RChar isDigit)) (RSeq hashTagRegexStr (rOpt (rLit ''-dirty''))))))"

definition GetVersionKind :: "string \<Rightarrow> Kind" where
  "GetVersionKind versionStr =
     (if rexMatch releaseRegex versionStr then ReleaseKind
      else if rexMatch rcRegex versionStr then RCKind
      else if rexMatch nightlyRegex versionStr then NightlyKind
      else if rexMatch devRegex versionStr then DevelopmentKind
      else InvalidKind)"

subsection \<open>Comparison\<close>

text \<open>\<open>strconv.Atoi\<close> on a 64-bit platform: an optional sign, digits, and the range of the type.\<close>

definition digitVal :: "char \<Rightarrow> int" where
  "digitVal c = of_char c - of_char (CHR ''0'')"

definition digitsVal :: "string \<Rightarrow> int" where
  "digitsVal s = fold (\<lambda>c n. 10 * n + digitVal c) s 0"

definition atoi :: "string \<Rightarrow> int option" where
  "atoi s =
     (let (neg, ds) = (case s of c # r \<Rightarrow> if c = CHR ''-'' then (True, r) else if c = CHR ''+'' then (False, r) else (False, s)
                       | [] \<Rightarrow> (False, []));
          n = (if neg then - digitsVal ds else digitsVal ds)
      in if ds = [] \<or> \<not> list_all isDigit ds then None
         else if n < - (2 ^ 63) \<or> 2 ^ 63 \<le> n then None
         else Some n)"

definition convertToIntArray :: "string \<Rightarrow> int list" where
  "convertToIntArray version =
     map (\<lambda>v. case atoi v of None \<Rightarrow> -1 | Some asInt \<Rightarrow> asInt) (splitAll (CHR ''.'') version)"

text \<open>The loop over the shorter array; the last equation is never reached, because the code swaps the
  arrays when the first is longer.\<close>

fun compareArrays :: "int list \<Rightarrow> int list \<Rightarrow> int" where
  "compareArrays [] [] = 0"
| "compareArrays [] (b # bs) = -1"
| "compareArrays (a # as) (b # bs) =
     (if a = b then compareArrays as bs else if a < b then -1 else 1)"
| "compareArrays (a # as) [] = 1"

definition lexicographicCompareIntArrays :: "int list \<Rightarrow> int list \<Rightarrow> int" where
  "lexicographicCompareIntArrays a b =
     (if length a > length b then - compareArrays b a else compareArrays a b)"

definition CompareReleaseVersionsOr :: "string \<Rightarrow> string \<Rightarrow> int \<Rightarrow> int" where
  "CompareReleaseVersionsOr versionA versionB incomparableRes =
     (if versionA = versionB then 0
      else if GetVersionKind versionA \<noteq> ReleaseKind \<or> GetVersionKind versionB \<noteq> ReleaseKind then incomparableRes
      else lexicographicCompareIntArrays (convertToIntArray versionA) (convertToIntArray versionB))"

definition CompareReleaseVersions :: "string \<Rightarrow> string \<Rightarrow> int" where
  "CompareReleaseVersions versionA versionB = CompareReleaseVersionsOr versionA versionB 0"

text \<open>\<open>hashTagRegex.ReplaceAllString(s, "")\<close>: the matches have a fixed length.\<close>

fun removeHashTags :: "nat \<Rightarrow> string \<Rightarrow> string" where
  "removeHashTags 0 s = s"
| "removeHashTags (Suc n) [] = []"
| "removeHashTags (Suc n) (c # s) =
     (if 12 \<le> length (c # s) \<and> rexMatch hashTagRegexStr (take 12 (c # s)) then removeHashTags n (drop 12 (c # s))
      else c # removeHashTags n s)"

text \<open>\<open>strings.Replace(s, old, new, 1)\<close> for a non-empty \<open>old\<close>.\<close>

fun replaceFirst :: "string \<Rightarrow> string \<Rightarrow> string \<Rightarrow> string" where
  "replaceFirst old new [] = []"
| "replaceFirst old new (c # s) =
     (if hasPrefix (c # s) old then new @ drop (length old) (c # s) else c # replaceFirst old new s)"

definition maxInt32 :: string where "maxInt32 = ''2147483647''"

definition getEffectVersion :: "string \<Rightarrow> string" where
  "getEffectVersion version =
     (let version = removeHashTags (length version) version;
          version = replaceFirst ''-rc'' [] version;
          version = replaceFirst ''-nightly'' [] version;
          version = replaceFirst ''x'' maxInt32 version;
          version = map (\<lambda>c. if c = CHR ''-'' then CHR ''.'' else c) version
      in replaceFirst ''dirty'' ''1'' version)"

definition CompareVersionsOr :: "bool \<Rightarrow> string \<Rightarrow> string \<Rightarrow> int \<Rightarrow> int" where
  "CompareVersionsOr compareDevBuilds versionA versionB incomparableRes =
     (if \<not> compareDevBuilds then CompareReleaseVersionsOr versionA versionB incomparableRes
      else if versionA = versionB then 0
      else
        let kindA = GetVersionKind versionA; kindB = GetVersionKind versionB
        in if kindA = InvalidKind \<or> kindB = InvalidKind then incomparableRes
           else if kindA = kindB then
             CompareReleaseVersionsOr (getEffectVersion versionA) (getEffectVersion versionB) incomparableRes
           else
             let result = CompareReleaseVersionsOr
                   (hd (splitAll (CHR ''-'') (replaceFirst ''x'' maxInt32 versionA)))
                   (hd (splitAll (CHR ''-'') (replaceFirst ''x'' maxInt32 versionB))) incomparableRes
             in if result \<noteq> 0 then result
                else if kindA = ReleaseKind \<and> kindB = RCKind then 1
                else if kindA = RCKind \<and> kindB = ReleaseKind then -1
                else incomparableRes)"

definition CompareVersions :: "bool \<Rightarrow> string \<Rightarrow> string \<Rightarrow> int" where
  "CompareVersions compareDevBuilds versionA versionB = CompareVersionsOr compareDevBuilds versionA versionB 0"

subsection \<open>What the comparison means\<close>

lemma compareArrays_swap: "compareArrays b a = - compareArrays a b"
  by (induction a b rule: compareArrays.induct) auto

lemma lexicographicCompare_eq: "lexicographicCompareIntArrays a b = compareArrays a b"
  by (simp add: lexicographicCompareIntArrays_def compareArrays_swap [of b a])

lemma compareArrays_range: "compareArrays a b \<in> {-1, 0, 1}"
  by (induction a b rule: compareArrays.induct) auto

lemma compareArrays_zero: "compareArrays a b = 0 \<longleftrightarrow> a = b"
  by (induction a b rule: compareArrays.induct) auto

lemma compareArrays_less: "compareArrays a b < 0 \<longleftrightarrow> ord_class.lexordp a b"
  by (induction a b rule: compareArrays.induct) auto

lemma CompareReleaseVersionsOr_swap: "CompareReleaseVersionsOr b a (- r) = - CompareReleaseVersionsOr a b r"
  by (simp add: CompareReleaseVersionsOr_def lexicographicCompare_eq
      compareArrays_swap [of "convertToIntArray b"])

text \<open>
  Two release versions are compared as the lists of their numbers, lexicographically, with a
  proper prefix before its extensions: the result is negative, zero or positive when the first
  list is smaller, equal or greater. Any other pair of different versions gives the result that
  the caller chose.
\<close>

theorem CompareReleaseVersionsOr_correct:
  "if GetVersionKind a = ReleaseKind \<and> GetVersionKind b = ReleaseKind then
     (CompareReleaseVersionsOr a b r < 0 \<longleftrightarrow> ord_class.lexordp (convertToIntArray a) (convertToIntArray b)) \<and>
     (CompareReleaseVersionsOr a b r = 0 \<longleftrightarrow> convertToIntArray a = convertToIntArray b) \<and>
     (CompareReleaseVersionsOr a b r > 0 \<longleftrightarrow> ord_class.lexordp (convertToIntArray b) (convertToIntArray a))
   else CompareReleaseVersionsOr a b r = (if a = b then 0 else r)"
proof (cases "a = b")
  case True
  then show ?thesis by (simp add: CompareReleaseVersionsOr_def lexordp_irreflexive')
next
  case False
  then show ?thesis
    using compareArrays_less [of "convertToIntArray b" "convertToIntArray a"]
      compareArrays_swap [of "convertToIntArray b" "convertToIntArray a"]
    by (simp add: CompareReleaseVersionsOr_def lexicographicCompare_eq compareArrays_less compareArrays_zero)
qed

text \<open>
  Comparing versions is antisymmetric for all kinds of versions, development builds compared
  or not: exchanging the versions, and negating the result for incomparable ones, negates the
  result.
\<close>

theorem CompareVersionsOr_antisym:
  "CompareVersionsOr dev b a (- r) = - CompareVersionsOr dev a b r"
  by (auto simp: CompareVersionsOr_def CompareReleaseVersionsOr_swap Let_def)

end
