(* ===== verification/Upgrade_Controller.thy ===== *)
theory Upgrade_Controller
  imports Upgrade_States Versions
begin

text \<open>
  The controller of the upgrade of one sensor, \<open>central/sensor/service/connection/upgradecontroller\<close>.

  Every operation of the controller runs under one mutex, so an operation is a step from one
  state to the next. What it reads from outside is an argument \<open>env\<close>: the time, a fresh
  process identifier, the version of Central, the auto-upgrade flag, the cluster storage, and
  the parser of image names. \<open>active.status\<close> and \<open>upgradeStatus.MostRecentProcess\<close> are the same
  object in the code (\<open>makeProcessActive\<close> sets both and nothing else sets the first), so the
  model keeps it once and \<open>active\<close> keeps the trigger. Started goroutines are part of the state:
  the process identifiers that \<open>reconcileUpgradeStateRegularly\<close> watches and the triggers sent
  asynchronously. \<open>utils.Should\<close> logs, as it does in release builds. What was last written to the
  storage is kept in the state.

  Times are nanoseconds; a missing timestamp is \<open>None\<close>. Getters of a missing message give the
  zero value of the field.
\<close>

subsection \<open>Messages and state\<close>

record UpgradeProgress =
  pg_UpgradeState :: UpgradeState
  pg_UpgradeStatusDetail :: string
  pg_Since :: "int option"

record UpgradeProcessStatus =
  ps_Active :: bool
  ps_Id :: string
  ps_TargetVersion :: string
  ps_UpgraderImage :: string
  ps_InitiatedAt :: "int option"
  ps_Progress :: "UpgradeProgress option"
  ps_Type :: UpgradeProcessType

datatype Upgradability = UNSET | UP_TO_DATE | MANUAL_UPGRADE_REQUIRED | AUTO_UPGRADE_POSSIBLE | SENSOR_VERSION_HIGHER

record ClusterUpgradeStatus =
  us_Upgradability :: Upgradability
  us_UpgradabilityStatusReason :: string
  us_MostRecentProcess :: "UpgradeProcessStatus option"

record Cluster =
  uc_Id :: string
  uc_MainImage :: string
  uc_CentralApiEndpoint :: string
  uc_UpgradeStatus :: "ClusterUpgradeStatus option"

record EnvVarDef =
  ev_Name :: string
  ev_SourceEnvVar :: string
  ev_DefaultValue :: string

record SensorUpgradeTrigger =
  tr_UpgradeProcessId :: string
  tr_Image :: string
  tr_Command :: "string list"
  tr_EnvVars :: "EnvVarDef list"

text \<open>A connection is identified by a number; the other fields are the answers of its methods.\<close>

record SensorConn =
  conn_handle :: nat
  conn_SensorVersion :: string
  conn_CheckAutoUpgradeSupport :: "string option"

record activeSensorConnectionInfo =
  ac_conn :: SensorConn
  ac_sensorVersion :: string

record timeoutProvider =
  upgraderStartGracePeriod :: int
  upgraderStuckInSameStateTimeout :: int
  stateReconcilerPollInterval :: int
  absoluteNoProgressTimeout :: int
  rollbackSuccessPeriod :: int

definition minute :: int where "minute = 60 * 10 ^ 9"

definition defaultTimeoutProvider :: timeoutProvider where
  "defaultTimeoutProvider =
     \<lparr>upgraderStartGracePeriod = minute, upgraderStuckInSameStateTimeout = 5 * minute,
      stateReconcilerPollInterval = 5 * 10 ^ 9, absoluteNoProgressTimeout = 10 * minute,
      rollbackSuccessPeriod = 30 * 10 ^ 9\<rparr>"

datatype ucError =
    ProcessIDEmpty
  | ProcessNoLongerValid string
  | ErrNoUpgradeInProgress
  | ProcessIDDifferent string string
  | MalformedCheckIn
  | NoRelevantTimestamp
  | NoActiveConnection string
  | AutoUpgradeUnsupported string
  | UpgradeInProgress string
  | NotUpToDate
  | VersionNotControlled string
  | AlreadyUpToDate string
  | UpgradabilityUnclear string
  | UnparseableMainImage string
  | HardCodedTag string
  | ClusterStorageError string
  | ClusterNotFound string
  | InvalidDuration

record upgradeController =
  clusterID :: string
  errorSig :: "ucError option"
  activeSensorConn :: "activeSensorConnectionInfo option"
  upgradeStatus :: ClusterUpgradeStatus
  upgradeStatusChanged :: bool
  active :: "SensorUpgradeTrigger option"
  timeouts :: timeoutProvider
  reconcilers :: "string list"
  sentTriggers :: "(nat \<times> SensorUpgradeTrigger) list"
  storedStatus :: "ClusterUpgradeStatus option"

record ImageName =
  img_Name :: string
  img_Tag :: string

record env =
  env_now :: int
  env_uuid :: string
  env_mainVersion :: string
  env_autoTriggerEnabled :: bool
  env_GetCluster :: "string \<Rightarrow> string + Cluster option"
  env_UpdateClusterUpgradeStatus :: "string option"
  env_GenerateImageName :: "string \<Rightarrow> string + ImageName"
  env_FullName :: "ImageName \<Rightarrow> string"

text \<open>What the body of an operation does: it returns, or it panics with the error of \<open>expectNoError\<close>, or
  with a nil pointer.\<close>

datatype 'a outcome = Returned 'a | UnexpectedError ucError | NilPointer

type_synonym 'a op = "upgradeController \<Rightarrow> 'a outcome \<times> upgradeController"

subsection \<open>Processes and triggers\<close>

definition mrp :: "upgradeController \<Rightarrow> UpgradeProcessStatus option" where
  "mrp u = us_MostRecentProcess (upgradeStatus u)"

fun progressState :: "UpgradeProcessStatus \<Rightarrow> UpgradeState" where
  "progressState p = (case ps_Progress p of None \<Rightarrow> UPGRADE_INITIALIZING | Some g \<Rightarrow> pg_UpgradeState g)"

fun progressDetail :: "UpgradeProcessStatus \<Rightarrow> string" where
  "progressDetail p = (case ps_Progress p of None \<Rightarrow> [] | Some g \<Rightarrow> pg_UpgradeStatusDetail g)"

fun progressSince :: "UpgradeProcessStatus \<Rightarrow> int option" where
  "progressSince p = (case ps_Progress p of None \<Rightarrow> None | Some g \<Rightarrow> pg_Since g)"

definition convertTimestampOrNow :: "env \<Rightarrow> int option \<Rightarrow> int" where
  "convertTimestampOrNow e t = (case t of None \<Rightarrow> env_now e | Some x \<Rightarrow> x)"

definition adjustTrigger :: "UpgradeState \<Rightarrow> SensorUpgradeTrigger \<Rightarrow> SensorUpgradeTrigger" where
  "adjustTrigger state trigger =
     (if UPGRADER_LAUNCHED \<le> state then trigger\<lparr>tr_Image := []\<rparr> else trigger)"

definition constructTriggerUpgradeRequest :: "Cluster \<Rightarrow> UpgradeProcessStatus \<Rightarrow> SensorUpgradeTrigger" where
  "constructTriggerUpgradeRequest cluster process =
     (let envVars =
        [\<lparr>ev_Name = ''ROX_CENTRAL_ENDPOINT'', ev_SourceEnvVar = ''ROX_CENTRAL_ENDPOINT'',
          ev_DefaultValue = uc_CentralApiEndpoint cluster\<rparr>,
         \<lparr>ev_Name = ''ROX_UPGRADE_PROCESS_ID'', ev_SourceEnvVar = [], ev_DefaultValue = ps_Id process\<rparr>,
         \<lparr>ev_Name = ''ROX_CLUSTER_ID'', ev_SourceEnvVar = [], ev_DefaultValue = uc_Id cluster\<rparr>];
          t = \<lparr>tr_UpgradeProcessId = ps_Id process, tr_Image = ps_UpgraderImage process,
               tr_Command = [''sensor-upgrader''],
               tr_EnvVars =
                 (if ps_Type process = CERT_ROTATION
                  then envVars @ [\<lparr>ev_Name = ''ROX_SENSOR_UPGRADER_CERTS_ONLY'', ev_SourceEnvVar = [], ev_DefaultValue = ''true''\<rparr>]
                  else envVars)\<rparr>
      in adjustTrigger (progressState process) t)"

definition baseNewUpgradeProcess :: "env \<Rightarrow> UpgradeProcessType \<Rightarrow> UpgradeProcessStatus" where
  "baseNewUpgradeProcess e typ =
     \<lparr>ps_Active = True, ps_Id = env_uuid e, ps_TargetVersion = [], ps_UpgraderImage = [],
      ps_InitiatedAt = Some (env_now e),
      ps_Progress = Some \<lparr>pg_UpgradeState = UPGRADE_INITIALIZING, pg_UpgradeStatusDetail = [], pg_Since = None\<rparr>,
      ps_Type = typ\<rparr>"

definition newCertRotationProcess :: "env \<Rightarrow> UpgradeProcessStatus" where
  "newCertRotationProcess e = baseNewUpgradeProcess e CERT_ROTATION"

definition updateTagToMainVersionAndGetFullName :: "env \<Rightarrow> ImageName \<Rightarrow> string" where
  "updateTagToMainVersionAndGetFullName e imageName = env_FullName e (imageName\<lparr>img_Tag := env_mainVersion e\<rparr>)"

definition newUpgradeProcess :: "env \<Rightarrow> Cluster \<Rightarrow> ucError + UpgradeProcessStatus" where
  "newUpgradeProcess e cluster =
     (case env_GenerateImageName e (uc_MainImage cluster) of
        Inl err \<Rightarrow> Inl (UnparseableMainImage err)
      | Inr imageName \<Rightarrow>
          if img_Tag imageName \<noteq> [] then Inl (HardCodedTag (img_Tag imageName))
          else Inr ((baseNewUpgradeProcess e UPGRADE)
                 \<lparr>ps_UpgraderImage := updateTagToMainVersionAndGetFullName e imageName,
                  ps_TargetVersion := env_mainVersion e\<rparr>))"

definition makeProcessActive :: "Cluster \<Rightarrow> UpgradeProcessStatus option \<Rightarrow> upgradeController \<Rightarrow> upgradeController" where
  "makeProcessActive cluster processStatus u =
     (case processStatus of
        None \<Rightarrow> u\<lparr>active := None\<rparr>
      | Some p \<Rightarrow>
          if \<not> ps_Active p then u\<lparr>active := None\<rparr>
          else u\<lparr>active := Some (constructTriggerUpgradeRequest cluster p),
                 upgradeStatus := (upgradeStatus u)\<lparr>us_MostRecentProcess := Some p\<rparr>,
                 upgradeStatusChanged := True,
                 reconcilers := reconcilers u @ [ps_Id p]\<rparr>)"

subsection \<open>Storage\<close>

definition getClusterOrError :: "env \<Rightarrow> upgradeController \<Rightarrow> ucError + Cluster" where
  "getClusterOrError e u =
     (case env_GetCluster e (clusterID u) of
        Inl err \<Rightarrow> Inl (ClusterStorageError err)
      | Inr None \<Rightarrow> Inl (ClusterNotFound (clusterID u))
      | Inr (Some cluster) \<Rightarrow> Inr cluster)"

definition flushUpgradeStatus :: "env \<Rightarrow> upgradeController \<Rightarrow> string option \<times> upgradeController" where
  "flushUpgradeStatus e u =
     (if \<not> upgradeStatusChanged u then (None, u)
      else case env_UpdateClusterUpgradeStatus e of
             Some err \<Rightarrow> (Some err, u)
           | None \<Rightarrow> (None, u\<lparr>storedStatus := Some (upgradeStatus u), upgradeStatusChanged := False\<rparr>))"

definition setUpgradeProgress :: "env \<Rightarrow> string \<Rightarrow> UpgradeState \<Rightarrow> string \<Rightarrow> ucError option op" where
  "setUpgradeProgress e expectedProcessID state detail u =
     (if expectedProcessID = [] then (Returned (Some ProcessIDEmpty), u)
      else case active u of
        None \<Rightarrow> (Returned (Some (ProcessNoLongerValid expectedProcessID)), u)
      | Some trigger \<Rightarrow>
          (case mrp u of
             None \<Rightarrow> (Returned (Some (ProcessNoLongerValid expectedProcessID)), u)
           | Some p \<Rightarrow>
               if ps_Id p \<noteq> expectedProcessID then (Returned (Some (ProcessNoLongerValid expectedProcessID)), u)
               else
                 let prevState = progressState p;
                     since = (if prevState \<noteq> state \<or> progressSince p = None then Some (env_now e) else progressSince p);
                     detail1 = (if detail = [] \<and> prevState = state then progressDetail p else detail);
                     p1 = p\<lparr>ps_Progress := Some \<lparr>pg_UpgradeState = state, pg_UpgradeStatusDetail = detail1, pg_Since = since\<rparr>\<rparr>;
                     (p2, active2) = (if setContains TerminalStates state then (p1\<lparr>ps_Active := False\<rparr>, None)
                                      else (p1, Some (adjustTrigger state trigger)))
                 in (Returned None,
                     u\<lparr>upgradeStatus := (upgradeStatus u)\<lparr>us_MostRecentProcess := Some p2\<rparr>, active := active2,
                       upgradeStatusChanged := True\<rparr>)))"

subsection \<open>Reconciliation of the active process\<close>

fun stateName :: "UpgradeState \<Rightarrow> string" where
  "stateName UPGRADE_INITIALIZING = ''UPGRADE_INITIALIZING''"
| "stateName UPGRADER_LAUNCHING = ''UPGRADER_LAUNCHING''"
| "stateName UPGRADER_LAUNCHED = ''UPGRADER_LAUNCHED''"
| "stateName PRE_FLIGHT_CHECKS_COMPLETE = ''PRE_FLIGHT_CHECKS_COMPLETE''"
| "stateName UPGRADE_OPERATIONS_DONE = ''UPGRADE_OPERATIONS_DONE''"
| "stateName UPGRADE_COMPLETE = ''UPGRADE_COMPLETE''"
| "stateName UPGRADE_INITIALIZATION_ERROR = ''UPGRADE_INITIALIZATION_ERROR''"
| "stateName PRE_FLIGHT_CHECKS_FAILED = ''PRE_FLIGHT_CHECKS_FAILED''"
| "stateName UPGRADE_ERROR_ROLLING_BACK = ''UPGRADE_ERROR_ROLLING_BACK''"
| "stateName UPGRADE_ERROR_ROLLED_BACK = ''UPGRADE_ERROR_ROLLED_BACK''"
| "stateName UPGRADE_ERROR_ROLLBACK_FAILED = ''UPGRADE_ERROR_ROLLBACK_FAILED''"
| "stateName UPGRADE_ERROR_UNKNOWN = ''UPGRADE_ERROR_UNKNOWN''"
| "stateName UPGRADE_TIMED_OUT = ''UPGRADE_TIMED_OUT''"

text \<open>The timestamp from which the timeout counts.\<close>

definition relevantTime :: "UpgradeProcessStatus \<Rightarrow> int option" where
  "relevantTime p =
     (if progressState p = UPGRADE_INITIALIZING \<and> ps_InitiatedAt p \<noteq> None then ps_InitiatedAt p
      else progressSince p)"

definition maybeTimeoutUpgrade :: "env \<Rightarrow> string \<Rightarrow> ucError option op" where
  "maybeTimeoutUpgrade e processID u =
     (case active u of
        None \<Rightarrow> (NilPointer, u)
      | Some _ \<Rightarrow>
          (case mrp u of
             None \<Rightarrow> (Returned (Some NoRelevantTimestamp), u)
           | Some p \<Rightarrow>
               (case relevantTime p of
                  None \<Rightarrow> (Returned (Some NoRelevantTimestamp), u)
                | Some relevantGoTime \<Rightarrow>
                    if absoluteNoProgressTimeout (timeouts u) < env_now e - relevantGoTime then
                      setUpgradeProgress e processID UPGRADE_TIMED_OUT
                        (''The upgrade has been aborted due to timeout -- it was stuck in the '' @
                          stateName (progressState p) @ '' state for too long.'') u
                    else (Returned None, u))))"

text \<open>Setting a final state from the reconciler: an error is returned, otherwise the upgrade is done.\<close>

definition finishProcess :: "env \<Rightarrow> string \<Rightarrow> UpgradeState \<Rightarrow> string \<Rightarrow> (bool \<times> ucError option) op" where
  "finishProcess e processID state detail u =
     (case setUpgradeProgress e processID state detail u of
        (Returned None, u1) \<Rightarrow> (Returned (True, None), u1)
      | (Returned (Some err), u1) \<Rightarrow> (Returned (False, Some err), u1)
      | (UnexpectedError err, u1) \<Rightarrow> (UnexpectedError err, u1)
      | (NilPointer, u1) \<Rightarrow> (NilPointer, u1))"

definition maybeReconcileStateWithActiveConnInfo :: "env \<Rightarrow> string \<Rightarrow> (bool \<times> ucError option) op" where
  "maybeReconcileStateWithActiveConnInfo e processID u =
     (case activeSensorConn u of
        None \<Rightarrow> (Returned (False, None), u)
      | Some c \<Rightarrow>
          if ac_sensorVersion c = [] then (Returned (False, None), u)
          else
            (case active u of
               None \<Rightarrow> (NilPointer, u)
             | Some _ \<Rightarrow>
                 (case mrp u of
                    None \<Rightarrow> (Returned (False, None), u)
                  | Some p \<Rightarrow>
                      if ps_Type p = CERT_ROTATION then (Returned (False, None), u)
                      else
                        let versionCmp = CompareReleaseVersionsOr (ac_sensorVersion c) (ps_TargetVersion p) (-1)
                        in if progressState p = UPGRADE_OPERATIONS_DONE \<and> 0 \<le> versionCmp then finishProcess e processID UPGRADE_COMPLETE [] u
                           else if progressState p = UPGRADE_ERROR_ROLLING_BACK \<and> versionCmp < 0 then
                             (if env_now e - convertTimestampOrNow e (progressSince p) < rollbackSuccessPeriod (timeouts u)
                              then (Returned (False, None), u)
                              else finishProcess e processID UPGRADE_ERROR_ROLLED_BACK
                                     (''The upgrade was rolled back due to an error in the previous stage. Details: '' @ progressDetail p) u)
                           else (Returned (False, None), u))))"

text \<open>One tick of \<open>reconcileUpgradeStateRegularly\<close>; the result says whether the goroutine ends.\<close>

definition reconcileTick :: "env \<Rightarrow> string \<Rightarrow> (bool \<times> ucError option) op" where
  "reconcileTick e processID u =
     (case (active u, mrp u) of
        (Some _, Some p) \<Rightarrow>
          if ps_Id p \<noteq> processID then (Returned (True, None), u)
          else
            (case maybeReconcileStateWithActiveConnInfo e processID u of
               (Returned (upgradeIsDone, err), u1) \<Rightarrow>
                 if err \<noteq> None then (Returned (False, err), u1)
                 else if upgradeIsDone then (Returned (True, None), u1)
                 else
                   (case maybeTimeoutUpgrade e processID u1 of
                      (Returned err, u2) \<Rightarrow> (Returned (False, err), u2)
                    | (UnexpectedError err, u2) \<Rightarrow> (UnexpectedError err, u2)
                    | (NilPointer, u2) \<Rightarrow> (NilPointer, u2))
             | (UnexpectedError err, u1) \<Rightarrow> (UnexpectedError err, u1)
             | (NilPointer, u1) \<Rightarrow> (NilPointer, u1))
      | _ \<Rightarrow> (Returned (True, None), u))"

subsection \<open>Check-ins of the upgrader and of the sensor\<close>

record UpgradeCheckInFromUpgraderRequest =
  cu_UpgradeProcessId :: string
  cu_CurrentWorkflow :: string
  cu_LastExecutedStage :: string
  cu_LastExecutedStageError :: string

definition constructUpgradeDetail :: "UpgradeCheckInFromUpgraderRequest \<Rightarrow> string" where
  "constructUpgradeDetail req =
     (if cu_LastExecutedStageError req \<noteq> [] then
        ''Upgrader failed to execute '' @ cu_LastExecutedStage req @ '' of the '' @ cu_CurrentWorkflow req @
        '' workflow: '' @ cu_LastExecutedStageError req
      else ''Upgrader successfully executed '' @ cu_LastExecutedStage req @ '' of the '' @ cu_CurrentWorkflow req @
        '' workflow'')"

definition doProcessCheckInFromUpgrader ::
  "env \<Rightarrow> UpgradeCheckInFromUpgraderRequest \<Rightarrow> (ucError + string) op" where
  "doProcessCheckInFromUpgrader e req u =
     (case (active u, mrp u) of
        (Some _, Some p) \<Rightarrow>
          if ps_Id p \<noteq> cu_UpgradeProcessId req then (Returned (Inr CleanupWorkflow), u)
          else
            (case DetermineNextStateAndWorkflowForUpgrader (ps_Type p) (progressState p) (cu_CurrentWorkflow req)
                    (GetStage (cu_LastExecutedStage req)) (cu_LastExecutedStageError req) of
               Inl _ \<Rightarrow> (NilPointer, u)
             | Inr ((nextState0, workflow0, updateDetail0), _) \<Rightarrow>
                 let detail = (if updateDetail0 then constructUpgradeDetail req else progressDetail p)
                 in (case setUpgradeProgress e (cu_UpgradeProcessId req) nextState0 detail u of
                       (Returned None, u1) \<Rightarrow> (Returned (Inr workflow0), u1)
                     | (Returned (Some err), u1) \<Rightarrow> (Returned (Inl err), u1)
                     | (UnexpectedError err, u1) \<Rightarrow> (UnexpectedError err, u1)
                     | (NilPointer, u1) \<Rightarrow> (NilPointer, u1)))
      | _ \<Rightarrow> (Returned (Inr CleanupWorkflow), u))"

record PodErrorCondition =
  pe_Message :: string
  pe_ImageRelated :: bool

datatype checkInState =
    LaunchError string
  | DeploymentGone
  | PodStates "PodErrorCondition option list"
  | UnknownState

record UpgradeCheckInFromSensorRequest =
  cs_UpgradeProcessId :: string
  cs_State :: checkInState

fun findErrorCondition :: "PodErrorCondition option \<Rightarrow> PodErrorCondition option list \<Rightarrow> PodErrorCondition option" where
  "findErrorCondition anyErrCond [] = anyErrCond"
| "findErrorCondition anyErrCond (st # states) =
     (case st of
        None \<Rightarrow> findErrorCondition anyErrCond states
      | Some errCond \<Rightarrow>
          if pe_ImageRelated errCond then Some errCond
          else findErrorCondition (if anyErrCond = None then Some errCond else anyErrCond) states)"

definition findMostRelevantErrorCondition :: "PodErrorCondition option list \<Rightarrow> PodErrorCondition option" where
  "findMostRelevantErrorCondition states = findErrorCondition None states"

definition analyzeUpgraderPodStates :: "PodErrorCondition option list \<Rightarrow> string \<times> bool" where
  "analyzeUpgraderPodStates states =
     (case findMostRelevantErrorCondition states of
        None \<Rightarrow> (''upgrader pods are waiting to start'', True)
      | Some c \<Rightarrow> (pe_Message c, False))"

definition doProcessCheckInFromSensor :: "env \<Rightarrow> UpgradeCheckInFromSensorRequest \<Rightarrow> ucError option op" where
  "doProcessCheckInFromSensor e req u =
     (case (active u, mrp u) of
        (Some _, Some p) \<Rightarrow>
          if ps_Id p \<noteq> cs_UpgradeProcessId req
          then (Returned (Some (ProcessIDDifferent (ps_Id p) (cs_UpgradeProcessId req))), u)
          else
            let currState = progressState p;
                inState = env_now e - convertTimestampOrNow e (progressSince p)
            in (case cs_State req of
                  LaunchError launchError \<Rightarrow>
                    if UPGRADER_LAUNCHED \<le> currState then (Returned None, u)
                    else if launchError \<noteq> [] then
                      setUpgradeProgress e (cs_UpgradeProcessId req) UPGRADE_INITIALIZATION_ERROR
                        (''Sensor failed to launch upgrader deployment: '' @ launchError) u
                    else setUpgradeProgress e (cs_UpgradeProcessId req) UPGRADER_LAUNCHING [] u
                | DeploymentGone \<Rightarrow>
                    if currState = UPGRADE_ERROR_ROLLING_BACK then (Returned None, u)
                    else setUpgradeProgress e (cs_UpgradeProcessId req) UPGRADE_ERROR_UNKNOWN
                           ''Sensor reported the upgrader deployment no longer exists.'' u
                | PodStates states \<Rightarrow>
                    if UPGRADER_LAUNCHED \<le> currState \<and> inState < upgraderStuckInSameStateTimeout (timeouts u)
                    then (Returned None, u)
                    else
                      let (detail, ok) = analyzeUpgraderPodStates states
                      in if ok then setUpgradeProgress e (cs_UpgradeProcessId req) UPGRADER_LAUNCHING detail u
                         else if inState < upgraderStartGracePeriod (timeouts u) then (Returned None, u)
                         else setUpgradeProgress e (cs_UpgradeProcessId req)
                                (if UPGRADER_LAUNCHED \<le> currState then UPGRADE_ERROR_UNKNOWN
                                 else UPGRADE_INITIALIZATION_ERROR) detail u
                | UnknownState \<Rightarrow> (Returned (Some MalformedCheckIn), u))
      | _ \<Rightarrow> (Returned (Some ErrNoUpgradeInProgress), u))"

subsection \<open>Connections and triggers\<close>

definition determineUpgradabilityFromVersionInfoAndConn :: "env \<Rightarrow> string \<Rightarrow> SensorConn \<Rightarrow> Upgradability \<times> string" where
  "determineUpgradabilityFromVersionInfoAndConn e sensorVersion conn =
     (if sensorVersion = [] then
        (MANUAL_UPGRADE_REQUIRED, ''sensor is from an old version that doesn't support auto-upgrade'')
      else if sensorVersion = env_mainVersion e then
        (UP_TO_DATE, ''sensor is running the same version as Central'')
      else case conn_CheckAutoUpgradeSupport conn of
             Some err \<Rightarrow> (MANUAL_UPGRADE_REQUIRED, err)
           | None \<Rightarrow>
               if CompareReleaseVersions sensorVersion (env_mainVersion e) > 0 then
                 (SENSOR_VERSION_HIGHER, ''sensor is running a newer version ('' @ sensorVersion @ '')'')
               else (AUTO_UPGRADE_POSSIBLE, ''sensor is running an old version ('' @ sensorVersion @ '')''))"

definition shouldAutoTriggerUpgrade :: "env \<Rightarrow> upgradeController \<Rightarrow> bool" where
  "shouldAutoTriggerUpgrade e u =
     (if \<not> env_autoTriggerEnabled e then False
      else if us_Upgradability (upgradeStatus u) \<noteq> AUTO_UPGRADE_POSSIBLE then False
      else if (case mrp u of None \<Rightarrow> [] | Some p \<Rightarrow> ps_TargetVersion p) = env_mainVersion e then False
      else if (case activeSensorConn u of None \<Rightarrow> False | Some c \<Rightarrow> conn_CheckAutoUpgradeSupport (ac_conn c) \<noteq> None) then False
      else True)"

definition maybeTriggerAutoUpgrade :: "env \<Rightarrow> unit op" where
  "maybeTriggerAutoUpgrade e u =
     (if \<not> shouldAutoTriggerUpgrade e u then (Returned (), u)
      else case getClusterOrError e u of
             Inl err \<Rightarrow> (UnexpectedError err, u)
           | Inr cluster \<Rightarrow>
               (case newUpgradeProcess e cluster of
                  Inl _ \<Rightarrow> (Returned (), u)
                | Inr process \<Rightarrow> (Returned (), makeProcessActive cluster (Some process) u)))"

definition reconcileInitialUpgradeStatus :: "env \<Rightarrow> string \<Rightarrow> SensorConn \<Rightarrow> unit op" where
  "reconcileInitialUpgradeStatus e sensorVersion conn u =
     (let (upgradability, reason) = determineUpgradabilityFromVersionInfoAndConn e sensorVersion conn;
          u1 = u\<lparr>upgradeStatus := (upgradeStatus u)\<lparr>us_Upgradability := upgradability, us_UpgradabilityStatusReason := reason\<rparr>,
                 upgradeStatusChanged := True\<rparr>
      in if active u1 = None then maybeTriggerAutoUpgrade e u1 else (Returned (), u1))"

definition emptyTrigger :: SensorUpgradeTrigger where
  "emptyTrigger = \<lparr>tr_UpgradeProcessId = [], tr_Image = [], tr_Command = [], tr_EnvVars = []\<rparr>"

definition doHandleNewConnection :: "env \<Rightarrow> SensorConn \<Rightarrow> bool op" where
  "doHandleNewConnection e conn u =
     (case reconcileInitialUpgradeStatus e (conn_SensorVersion conn) conn u of
        (Returned _, u1) \<Rightarrow>
          if us_Upgradability (upgradeStatus u1) = MANUAL_UPGRADE_REQUIRED then (Returned False, u1)
          else
            let trigger = (case active u1 of Some t \<Rightarrow> t | None \<Rightarrow> emptyTrigger)
            in (Returned True,
                u1\<lparr>sentTriggers := sentTriggers u1 @ [(conn_handle conn, trigger)],
                   activeSensorConn := Some \<lparr>ac_conn = conn, ac_sensorVersion = conn_SensorVersion conn\<rparr>\<rparr>)
      | (UnexpectedError err, u1) \<Rightarrow> (UnexpectedError err, u1)
      | (NilPointer, u1) \<Rightarrow> (NilPointer, u1))"

definition checkActiveConnAndNoActiveProcess :: "upgradeController \<Rightarrow> ucError option" where
  "checkActiveConnAndNoActiveProcess u =
     (case activeSensorConn u of
        None \<Rightarrow> Some (NoActiveConnection (clusterID u))
      | Some c \<Rightarrow>
          (case conn_CheckAutoUpgradeSupport (ac_conn c) of
             Some err \<Rightarrow> Some (AutoUpgradeUnsupported err)
           | None \<Rightarrow> if active u \<noteq> None then Some (UpgradeInProgress (clusterID u)) else None))"

text \<open>The connection and the trigger that the two trigger operations return.\<close>

definition connAndTrigger :: "upgradeController \<Rightarrow> (ucError + SensorConn \<times> SensorUpgradeTrigger) outcome" where
  "connAndTrigger u =
     (case (activeSensorConn u, active u) of
        (Some c, Some t) \<Rightarrow> Returned (Inr (ac_conn c, t))
      | _ \<Rightarrow> NilPointer)"

definition doTriggerCertRotation :: "env \<Rightarrow> (ucError + SensorConn \<times> SensorUpgradeTrigger) op" where
  "doTriggerCertRotation e u =
     (case checkActiveConnAndNoActiveProcess u of
        Some err \<Rightarrow> (Returned (Inl err), u)
      | None \<Rightarrow>
          if us_Upgradability (upgradeStatus u) \<noteq> UP_TO_DATE then (Returned (Inl NotUpToDate), u)
          else
            (case getClusterOrError e u of
               Inl err \<Rightarrow> (UnexpectedError err, u)
             | Inr cluster \<Rightarrow>
                 let u1 = makeProcessActive cluster (Some (newCertRotationProcess e)) u
                 in (connAndTrigger u1, u1)))"

definition doTriggerUpgrade :: "env \<Rightarrow> (ucError + SensorConn \<times> SensorUpgradeTrigger) op" where
  "doTriggerUpgrade e u =
     (case checkActiveConnAndNoActiveProcess u of
        Some err \<Rightarrow> (Returned (Inl err), u)
      | None \<Rightarrow>
          (case (case us_Upgradability (upgradeStatus u) of
                   AUTO_UPGRADE_POSSIBLE \<Rightarrow> None
                 | SENSOR_VERSION_HIGHER \<Rightarrow> None
                 | MANUAL_UPGRADE_REQUIRED \<Rightarrow> Some (VersionNotControlled (clusterID u))
                 | UP_TO_DATE \<Rightarrow> Some (AlreadyUpToDate (clusterID u))
                 | UNSET \<Rightarrow> Some (UpgradabilityUnclear (clusterID u))) of
             Some err \<Rightarrow> (Returned (Inl err), u)
           | None \<Rightarrow>
               (case getClusterOrError e u of
                  Inl err \<Rightarrow> (UnexpectedError err, u)
                | Inr cluster \<Rightarrow>
                    (case newUpgradeProcess e cluster of
                       Inl err \<Rightarrow> (Returned (Inl err), u)
                     | Inr process \<Rightarrow>
                         let u1 = makeProcessActive cluster (Some process) u
                         in (connAndTrigger u1, u1)))))"

subsection \<open>Operations under the mutex\<close>

text \<open>
  The result of \<open>do\<close>. A panic of \<open>expectNoError\<close> is recovered: the error signal is set and \<open>do\<close> returns
  the error its function had returned, which is nil when the function itself panicked. Other
  panics are raised again.
\<close>

datatype 'a doResult = InErrorState ucError | Recovered | Finished 'a | Panicked

definition doOp :: "env \<Rightarrow> 'a op \<Rightarrow> upgradeController \<Rightarrow> 'a doResult \<times> upgradeController" where
  "doOp e doFn u =
     (case errorSig u of
        Some err \<Rightarrow> (InErrorState err, u)
      | None \<Rightarrow>
          (case doFn u of
             (NilPointer, u1) \<Rightarrow> (Panicked, u1)
           | (UnexpectedError err, u1) \<Rightarrow> (Recovered, u1\<lparr>errorSig := Some err\<rparr>)
           | (Returned r, u1) \<Rightarrow>
               (case flushUpgradeStatus e u1 of
                  (Some err, u2) \<Rightarrow> (Finished r, u2\<lparr>errorSig := Some (ClusterStorageError err)\<rparr>)
                | (None, u2) \<Rightarrow> (Finished r, u2))))"

definition RegisterConnection :: "env \<Rightarrow> SensorConn \<Rightarrow> upgradeController \<Rightarrow> bool doResult \<times> upgradeController" where
  "RegisterConnection e conn u =
     doOp e (\<lambda>u. doHandleNewConnection e conn (u\<lparr>errorSig := None\<rparr>)) u"

definition watchConnection :: "env \<Rightarrow> SensorConn \<Rightarrow> upgradeController \<Rightarrow> unit doResult \<times> upgradeController" where
  "watchConnection e conn u =
     doOp e (\<lambda>u. (Returned (),
       if (case activeSensorConn u of None \<Rightarrow> False | Some c \<Rightarrow> conn_handle (ac_conn c) = conn_handle conn)
       then u\<lparr>activeSensorConn := None\<rparr> else u)) u"

definition ProcessCheckInFromUpgrader ::
  "env \<Rightarrow> UpgradeCheckInFromUpgraderRequest \<Rightarrow> upgradeController \<Rightarrow> (ucError + string) doResult \<times> upgradeController" where
  "ProcessCheckInFromUpgrader e req u = doOp e (doProcessCheckInFromUpgrader e req) u"

definition ProcessCheckInFromSensor ::
  "env \<Rightarrow> UpgradeCheckInFromSensorRequest \<Rightarrow> upgradeController \<Rightarrow> ucError option doResult \<times> upgradeController" where
  "ProcessCheckInFromSensor e req u = doOp e (doProcessCheckInFromSensor e req) u"

text \<open>After the mutex is released, the trigger is sent to the connection.\<close>

definition trigger :: "env \<Rightarrow> (ucError + SensorConn \<times> SensorUpgradeTrigger) op \<Rightarrow> upgradeController \<Rightarrow>
    (ucError + SensorConn \<times> SensorUpgradeTrigger) doResult \<times> upgradeController" where
  "trigger e generate u =
     (case doOp e generate u of
        (Finished (Inr (conn, t)), u1) \<Rightarrow>
          (Finished (Inr (conn, t)), u1\<lparr>sentTriggers := sentTriggers u1 @ [(conn_handle conn, t)]\<rparr>)
      | r \<Rightarrow> r)"

definition Trigger :: "env \<Rightarrow> upgradeController \<Rightarrow> (ucError + SensorConn \<times> SensorUpgradeTrigger) doResult \<times> upgradeController" where
  "Trigger e u = trigger e (doTriggerUpgrade e) u"

definition TriggerCertRotation :: "env \<Rightarrow> upgradeController \<Rightarrow> (ucError + SensorConn \<times> SensorUpgradeTrigger) doResult \<times> upgradeController" where
  "TriggerCertRotation e u = trigger e (doTriggerCertRotation e) u"

text \<open>A tick of the goroutine of a process; the goroutine ends when the operation says so.\<close>

definition reconcileUpgradeStateRegularly ::
  "env \<Rightarrow> string \<Rightarrow> upgradeController \<Rightarrow> (bool \<times> ucError option) doResult \<times> upgradeController" where
  "reconcileUpgradeStateRegularly e processID u =
     (case doOp e (reconcileTick e processID) u of
        (Finished (True, err), u1) \<Rightarrow> (Finished (True, err), u1\<lparr>reconcilers := remove1 processID (reconcilers u1)\<rparr>)
      | r \<Rightarrow> r)"

subsection \<open>Construction\<close>

definition validateTimeouts :: "timeoutProvider \<Rightarrow> bool" where
  "validateTimeouts t =
     list_all (\<lambda>duration. \<not> duration \<le> 0)
       [upgraderStuckInSameStateTimeout t, upgraderStartGracePeriod t, absoluteNoProgressTimeout t, stateReconcilerPollInterval t]"

definition initialize :: "env \<Rightarrow> upgradeController \<Rightarrow> ucError option \<times> upgradeController" where
  "initialize e u =
     (case getClusterOrError e u of
        Inl err \<Rightarrow> (Some err, u)
      | Inr cluster \<Rightarrow>
          let status0 = (case uc_UpgradeStatus cluster of
                           None \<Rightarrow> \<lparr>us_Upgradability = UNSET, us_UpgradabilityStatusReason = [], us_MostRecentProcess = None\<rparr>
                         | Some s \<Rightarrow> s);
              status1 = status0\<lparr>us_Upgradability := UNSET, us_UpgradabilityStatusReason := []\<rparr>;
              u1 = u\<lparr>upgradeStatus := status1, storedStatus := uc_UpgradeStatus cluster\<rparr>;
              u2 = makeProcessActive cluster (us_MostRecentProcess status1) u1
          in (case flushUpgradeStatus e u2 of
                (Some err, u3) \<Rightarrow> (Some (ClusterStorageError err), u3)
              | (None, u3) \<Rightarrow> (None, u3)))"

definition newWithTimeoutProvider :: "env \<Rightarrow> string \<Rightarrow> timeoutProvider \<Rightarrow> ucError + upgradeController" where
  "newWithTimeoutProvider e clusterID0 timeouts0 =
     (if \<not> validateTimeouts timeouts0 then Inl InvalidDuration
      else
        case initialize e
          \<lparr>clusterID = clusterID0, errorSig = None, activeSensorConn = None,
           upgradeStatus = \<lparr>us_Upgradability = UNSET, us_UpgradabilityStatusReason = [], us_MostRecentProcess = None\<rparr>,
           upgradeStatusChanged = False, active = None, timeouts = timeouts0, reconcilers = [], sentTriggers = [],
           storedStatus = None\<rparr> of
          (Some err, _) \<Rightarrow> Inl err
        | (None, u) \<Rightarrow> Inr u)"

definition New :: "env \<Rightarrow> string \<Rightarrow> ucError + upgradeController" where
  "New e clusterID0 = newWithTimeoutProvider e clusterID0 defaultTimeoutProvider"

end
