(* ===== verification/Upgrade_Safety.thy ===== *)
theory Upgrade_Safety
  imports Upgrade_Controller
begin

text \<open>
  Properties of the upgrade controller. The body of an operation that runs under the mutex meets
  a contract, stated as a locale: it keeps the invariant and does not run into a nil pointer.
  The wrapper \<open>do\<close> is treated once, inside the locale; every operation of the controller is an
  interpretation. The steps of the controller, in any order and with any environment, are
  an inductive relation, and the theorems are about its reachable states.
\<close>

subsection \<open>The invariant\<close>

definition process_ok :: "UpgradeProcessStatus \<Rightarrow> bool" where
  "process_ok p \<longleftrightarrow> ps_Id p \<noteq> [] \<and> \<not> terminal (progressState p) \<and> relevantTime p \<noteq> None"

definition storedMrp :: "upgradeController \<Rightarrow> UpgradeProcessStatus option" where
  "storedMrp u = Option.bind (storedStatus u) us_MostRecentProcess"

definition active_ok :: "upgradeController \<Rightarrow> SensorUpgradeTrigger \<Rightarrow> UpgradeProcessStatus \<Rightarrow> bool" where
  "active_ok u t p \<longleftrightarrow> ps_Active p \<and> process_ok p \<and> tr_UpgradeProcessId t = ps_Id p \<and>
     (UPGRADER_LAUNCHED \<le> progressState p \<longrightarrow> tr_Image t = []) \<and> ps_Id p \<in> set (reconcilers u)"

definition uc_inv :: "upgradeController \<Rightarrow> bool" where
  "uc_inv u \<longleftrightarrow>
     (case active u of
        None \<Rightarrow> \<forall>p. mrp u = Some p \<longrightarrow> \<not> ps_Active p
      | Some t \<Rightarrow> \<exists>p. mrp u = Some p \<and> active_ok u t p) \<and>
     (\<not> upgradeStatusChanged u \<longrightarrow> storedMrp u = mrp u)"

lemma uc_invI_active: "active u = Some t \<Longrightarrow> mrp u = Some p \<Longrightarrow> active_ok u t p \<Longrightarrow> upgradeStatusChanged u \<Longrightarrow> uc_inv u"
  by (simp add: uc_inv_def)

lemma uc_inv_activeE:
  assumes "uc_inv u" and "active u = Some t"
  obtains p where "mrp u = Some p" and "active_ok u t p"
  using assms by (auto simp: uc_inv_def)

text \<open>Fields that the invariant does not read.\<close>

lemma uc_inv_frame [simp]:
  "uc_inv (u\<lparr>errorSig := x\<rparr>) = uc_inv u"
  "uc_inv (u\<lparr>sentTriggers := ts\<rparr>) = uc_inv u"
  "uc_inv (u\<lparr>activeSensorConn := c\<rparr>) = uc_inv u"
  by (simp_all add: uc_inv_def mrp_def active_ok_def storedMrp_def split: option.splits)

subsection \<open>Setting the progress\<close>

definition progressed :: "env \<Rightarrow> UpgradeState \<Rightarrow> string \<Rightarrow> UpgradeProcessStatus \<Rightarrow> UpgradeProcessStatus" where
  "progressed e state detail p =
     p\<lparr>ps_Progress := Some
        \<lparr>pg_UpgradeState = state,
         pg_UpgradeStatusDetail = (if detail = [] \<and> progressState p = state then progressDetail p else detail),
         pg_Since = (if progressState p \<noteq> state \<or> progressSince p = None then Some (env_now e) else progressSince p)\<rparr>,
       ps_Active := ps_Active p \<and> \<not> terminal state\<rparr>"

lemmas progress_simps = progressState.simps progressDetail.simps progressSince.simps

declare progress_simps [simp del]

lemma progressed_simps [simp]:
  "progressState (progressed e s d p) = s" "ps_Id (progressed e s d p) = ps_Id p"
  "ps_Active (progressed e s d p) = (ps_Active p \<and> \<not> terminal s)" "\<exists>t. relevantTime (progressed e s d p) = Some t"
  by (auto simp: progressed_def relevantTime_def progress_simps)

lemma setUpgradeProgress_cases:
  assumes "uc_inv u"
  obtains err where "setUpgradeProgress e pid s d u = (Returned (Some err), u)"
      "pid = [] \<or> active u = None \<or> (\<exists>p. mrp u = Some p \<and> ps_Id p \<noteq> pid)"
    | t p where "active u = Some t" "mrp u = Some p" "active_ok u t p" "ps_Id p = pid"
        "setUpgradeProgress e pid s d u =
           (Returned None, u\<lparr>upgradeStatus := (upgradeStatus u)\<lparr>us_MostRecentProcess := Some (progressed e s d p)\<rparr>,
              active := (if terminal s then None else Some (adjustTrigger s t)), upgradeStatusChanged := True\<rparr>)"
proof (cases "active u")
  case None
  then have "setUpgradeProgress e pid s d u =
      (Returned (Some (if pid = [] then ProcessIDEmpty else ProcessNoLongerValid pid)), u)"
    by (simp add: setUpgradeProgress_def)
  with None show thesis using that(1) by blast
next
  case (Some t)
  then obtain p where p: "mrp u = Some p" "active_ok u t p" by (rule uc_inv_activeE [OF assms])
  show thesis
  proof (cases "pid = [] \<or> ps_Id p \<noteq> pid")
    case True
    with Some p have "setUpgradeProgress e pid s d u =
        (Returned (Some (if pid = [] then ProcessIDEmpty else ProcessNoLongerValid pid)), u)"
      by (auto simp: setUpgradeProgress_def)
    with True p show thesis using that(1) by blast
  next
    case False
    with Some p have "setUpgradeProgress e pid s d u =
        (Returned None, u\<lparr>upgradeStatus := (upgradeStatus u)\<lparr>us_MostRecentProcess := Some (progressed e s d p)\<rparr>,
           active := (if terminal s then None else Some (adjustTrigger s t)), upgradeStatusChanged := True\<rparr>)"
      by (simp add: setUpgradeProgress_def progressed_def Let_def active_ok_def)
    with Some p False show thesis using that(2) by blast
  qed
qed

lemma progressed_inv:
  assumes "active_ok u t p"
  shows "uc_inv (u\<lparr>upgradeStatus := (upgradeStatus u)\<lparr>us_MostRecentProcess := Some (progressed e s d p)\<rparr>,
     active := (if terminal s then None else Some (adjustTrigger s t)), upgradeStatusChanged := True\<rparr>)"
  using assms
  by (auto simp: uc_inv_def mrp_def active_ok_def process_ok_def adjustTrigger_def)

lemma setUpgradeProgress_inv:
  assumes "uc_inv u"
  shows "uc_inv (snd (setUpgradeProgress e pid s d u))" and "fst (setUpgradeProgress e pid s d u) \<noteq> NilPointer"
    and "fst (setUpgradeProgress e pid s d u) \<noteq> UnexpectedError err"
proof -
  have "uc_inv (snd (setUpgradeProgress e pid s d u)) \<and> (\<exists>r. fst (setUpgradeProgress e pid s d u) = Returned r)"
    by (rule setUpgradeProgress_cases [OF assms, of e pid s d]) (use assms progressed_inv in auto)
  then show "uc_inv (snd (setUpgradeProgress e pid s d u))" "fst (setUpgradeProgress e pid s d u) \<noteq> NilPointer"
    "fst (setUpgradeProgress e pid s d u) \<noteq> UnexpectedError err" by auto
qed

subsection \<open>The contract of an operation's body\<close>

text \<open>Fresh process identifiers are not empty.\<close>

definition env_ok :: "env \<Rightarrow> bool" where
  "env_ok e \<longleftrightarrow> env_uuid e \<noteq> []"

text \<open>A body that returned, or panicked with an expected error, in a state that keeps the invariant.\<close>

definition fine :: "'a outcome \<times> upgradeController \<Rightarrow> bool" where
  "fine r \<longleftrightarrow> uc_inv (snd r) \<and> fst r \<noteq> NilPointer"

lemma fine_simps [simp]:
  "fine (Returned x, u) = uc_inv u" "fine (UnexpectedError err, u) = uc_inv u" "\<not> fine (NilPointer, u)"
  by (simp_all add: fine_def)

lemma flush_inv: "uc_inv v \<Longrightarrow> uc_inv (snd (flushUpgradeStatus e v))"
  by (auto simp: flushUpgradeStatus_def uc_inv_def mrp_def storedMrp_def active_ok_def split: option.splits)

locale op_body =
  fixes e :: env and body :: "'a op"
  assumes body_fine: "env_ok e \<Longrightarrow> uc_inv u \<Longrightarrow> fine (body u)"
begin

lemma doOp_inv:
  assumes "env_ok e" and "uc_inv u"
  shows "uc_inv (snd (doOp e body u))"
proof (cases "errorSig u")
  case None
  obtain r u1 where b: "body u = (r, u1)" by (cases "body u")
  with body_fine [OF assms] have "uc_inv u1" "r \<noteq> NilPointer" by (simp_all add: fine_def)
  with None b flush_inv [of u1 e] show ?thesis
    by (cases r; cases "flushUpgradeStatus e u1") (auto simp: doOp_def split: option.splits)
qed (use assms in \<open>simp add: doOp_def\<close>)

lemma doOp_not_panicked: "env_ok e \<Longrightarrow> uc_inv u \<Longrightarrow> fst (doOp e body u) \<noteq> Panicked"
  using body_fine [of u] by (auto simp: doOp_def fine_def split: option.splits outcome.splits prod.splits)

text \<open>When the wrapper leaves the error signal unset, the storage has the current process.\<close>

lemma doOp_flushed:
  assumes "env_ok e" and "uc_inv u" and "errorSig (snd (doOp e body u)) = None"
  shows "storedMrp (snd (doOp e body u)) = mrp (snd (doOp e body u))"
proof -
  have n: "errorSig u = None" using assms(3) by (auto simp: doOp_def split: option.splits)
  obtain r u1 where b: "body u = (r, u1)" by (cases "body u")
  have "uc_inv u1" "r \<noteq> NilPointer" using body_fine [OF assms(1,2)] b by (simp_all add: fine_def)
  with n b assms(3) show ?thesis
    by (auto simp: doOp_def flushUpgradeStatus_def uc_inv_def storedMrp_def mrp_def split: option.splits outcome.splits if_splits)
qed

end

text \<open>What the wrapper does in the error state, and what it leaves as the body made it.\<close>

lemma doOp_error_state: "errorSig u = Some err \<Longrightarrow> doOp e body u = (InErrorState err, u)"
  by (simp add: doOp_def)

lemma doOp_reads:
  assumes "errorSig u = None"
  shows "mrp (snd (doOp e body u)) = mrp (snd (body u))" and "active (snd (doOp e body u)) = active (snd (body u))"
    and "reconcilers (snd (doOp e body u)) = reconcilers (snd (body u))"
  using assms
  by (auto simp: doOp_def flushUpgradeStatus_def mrp_def split: option.splits if_splits outcome.splits prod.splits)

subsection \<open>The bodies meet the contract\<close>

lemma fine_setUpgradeProgress [simp]: "uc_inv u \<Longrightarrow> fine (setUpgradeProgress e pid s d u)"
  by (simp add: fine_def setUpgradeProgress_inv)

lemma maybeTimeout_fine:
  assumes "uc_inv u" and "active u \<noteq> None"
  shows "fine (maybeTimeoutUpgrade e pid u)"
  using assms by (auto simp: maybeTimeoutUpgrade_def split: option.splits)

text \<open>Ending the process from the reconciler: it fails without a change, or the process is over.\<close>

lemma finish_spec:
  assumes "uc_inv u"
  shows "fine (finishProcess e pid s d u) \<and> fst (finishProcess e pid s d u) \<noteq> Returned (False, None) \<and>
    (\<forall>t p. active u = Some t \<and> mrp u = Some p \<and> ps_Id p = pid \<and> pid \<noteq> [] \<and> terminal s \<longrightarrow>
       fst (finishProcess e pid s d u) = Returned (True, None) \<and> active (snd (finishProcess e pid s d u)) = None \<and>
       mrp (snd (finishProcess e pid s d u)) = Some (progressed e s d p))"
  unfolding finishProcess_def
  by (rule setUpgradeProgress_cases [OF assms(1), of e pid s d])
    (use assms(1) progressed_inv in \<open>auto simp: mrp_def\<close>)

lemma maybeReconcile_spec:
  assumes "uc_inv u" and "active u \<noteq> None"
  shows "fine (maybeReconcileStateWithActiveConnInfo e pid u)"
    and "fst (maybeReconcileStateWithActiveConnInfo e pid u) = Returned (False, None) \<Longrightarrow>
      snd (maybeReconcileStateWithActiveConnInfo e pid u) = u"
    and "map_option ps_Id (mrp u) = Some pid \<Longrightarrow>
      fst (maybeReconcileStateWithActiveConnInfo e pid u) = Returned (True, err) \<Longrightarrow>
      active (snd (maybeReconcileStateWithActiveConnInfo e pid u)) = None \<and>
      (\<exists>p. mrp (snd (maybeReconcileStateWithActiveConnInfo e pid u)) = Some p \<and> terminal (progressState p))"
    and "map_option ps_Id (mrp u) = Some pid \<Longrightarrow>
      fst (maybeReconcileStateWithActiveConnInfo e pid u) \<in> {Returned (False, None), Returned (True, None)}"
proof -
  let ?m = "maybeReconcileStateWithActiveConnInfo e pid u"
  obtain t p where t: "active u = Some t" "mrp u = Some p" "active_ok u t p"
    using assms uc_inv_activeE by (metis not_None_eq)
  then have "ps_Id p \<noteq> []" by (simp add: active_ok_def process_ok_def)
  with t have "ps_Id p = pid \<Longrightarrow> terminal s \<Longrightarrow> fst (finishProcess e pid s d u) = Returned (True, None) \<and>
      active (snd (finishProcess e pid s d u)) = None \<and>
      (\<exists>p. mrp (snd (finishProcess e pid s d u)) = Some p \<and> terminal (progressState p))" for s d
    using finish_spec [OF assms(1), of e pid s d] by auto
  note over = this
  define P where "P m \<longleftrightarrow> m = (Returned (False, None), u) \<or> (\<exists>s d. terminal s \<and> m = finishProcess e pid s d u)" for m
  have "P (Returned (False, None), u)" "P (finishProcess e pid UPGRADE_COMPLETE d u)"
    "P (finishProcess e pid UPGRADE_ERROR_ROLLED_BACK d u)" for d
    unfolding P_def using terminal_simps(1,5) by blast+
  then have "P ?m"
    using t by (simp add: maybeReconcileStateWithActiveConnInfo_def Let_def split: option.splits)
  then consider "?m = (Returned (False, None), u)" | s d where "terminal s" "?m = finishProcess e pid s d u"
    unfolding P_def by blast
  then have "fine ?m \<and> (fst ?m = Returned (False, None) \<longrightarrow> snd ?m = u) \<and>
      (map_option ps_Id (mrp u) = Some pid \<and> fst ?m = Returned (True, err) \<longrightarrow>
       active (snd ?m) = None \<and> (\<exists>p. mrp (snd ?m) = Some p \<and> terminal (progressState p))) \<and>
      (map_option ps_Id (mrp u) = Some pid \<longrightarrow> fst ?m \<in> {Returned (False, None), Returned (True, None)})"
    using finish_spec [OF assms(1), of e pid] over assms(1) t(2) by cases auto
  then show "fine ?m" "fst ?m = Returned (False, None) \<Longrightarrow> snd ?m = u"
    "map_option ps_Id (mrp u) = Some pid \<Longrightarrow> fst ?m = Returned (True, err) \<Longrightarrow>
      active (snd ?m) = None \<and> (\<exists>p. mrp (snd ?m) = Some p \<and> terminal (progressState p))"
    "map_option ps_Id (mrp u) = Some pid \<Longrightarrow> fst ?m \<in> {Returned (False, None), Returned (True, None)}" by auto
qed

lemma reconcileTick_spec:
  assumes "uc_inv u"
  shows "fine (reconcileTick e pid u)"
    and "fst (reconcileTick e pid u) = Returned (True, err) \<Longrightarrow>
      active (snd (reconcileTick e pid u)) \<noteq> None \<Longrightarrow> map_option ps_Id (mrp (snd (reconcileTick e pid u))) \<noteq> Some pid"
proof -
  let ?r = "reconcileTick e pid u"
  have "fine ?r \<and> (fst ?r = Returned (True, err) \<and> active (snd ?r) \<noteq> None \<longrightarrow> map_option ps_Id (mrp (snd ?r)) \<noteq> Some pid)"
  proof (cases "\<exists>t p. active u = Some t \<and> mrp u = Some p \<and> ps_Id p = pid")
    case True
    then obtain t p where t: "active u = Some t" "mrp u = Some p" "ps_Id p = pid" by blast
    then have a: "active u \<noteq> None" by simp
    obtain r u1 where r: "maybeReconcileStateWithActiveConnInfo e pid u = (r, u1)" by force
    show ?thesis
      using maybeReconcile_spec [OF assms a, where e = e and pid = pid] maybeTimeout_fine [OF assms a, of e pid] r t
      by (auto simp: reconcileTick_def fine_def split: outcome.splits prod.splits)
  next
    case False
    with assms show ?thesis by (auto simp: reconcileTick_def split: option.splits)
  qed
  then show "fine ?r" "fst ?r = Returned (True, err) \<Longrightarrow> active (snd ?r) \<noteq> None \<Longrightarrow> map_option ps_Id (mrp (snd ?r)) \<noteq> Some pid"
    by blast+
qed

lemma DetermineNext_total: "\<exists>s' w' d x. DetermineNextStateAndWorkflowForUpgrader t s w st err = Inr ((s', w', d), x)"
  unfolding DetermineNext_decision by (metis prod.exhaust)

lemma doProcessCheckInFromUpgrader_fine:
  assumes "uc_inv u"
  shows "fine (doProcessCheckInFromUpgrader e req u)"
proof (cases "\<exists>t p. active u = Some t \<and> mrp u = Some p \<and> ps_Id p = cu_UpgradeProcessId req")
  case True
  then obtain t p where t: "active u = Some t" "mrp u = Some p" "ps_Id p = cu_UpgradeProcessId req" by blast
  obtain s' w' d x where d: "DetermineNextStateAndWorkflowForUpgrader (ps_Type p) (progressState p) (cu_CurrentWorkflow req)
      (GetStage (cu_LastExecutedStage req)) (cu_LastExecutedStageError req) = Inr ((s', w', d), x)"
    using DetermineNext_total by blast
  let ?r = "setUpgradeProgress e (cu_UpgradeProcessId req) s' (if d then constructUpgradeDetail req else progressDetail p) u"
  have "fine ?r" using assms by simp
  then show ?thesis
    by (cases ?r; cases "fst ?r") (auto simp: doProcessCheckInFromUpgrader_def t d Let_def split: option.splits)
next
  case False
  with assms show ?thesis by (auto simp: doProcessCheckInFromUpgrader_def split: option.splits)
qed

lemma doProcessCheckInFromSensor_fine: "uc_inv u \<Longrightarrow> fine (doProcessCheckInFromSensor e req u)"
  by (auto simp: doProcessCheckInFromSensor_def Let_def split: option.splits prod.splits checkInState.splits)

lemma constructTrigger_simps [simp]:
  "tr_UpgradeProcessId (constructTriggerUpgradeRequest cluster p) = ps_Id p"
  "UPGRADER_LAUNCHED \<le> progressState p \<Longrightarrow> tr_Image (constructTriggerUpgradeRequest cluster p) = []"
  by (simp_all add: constructTriggerUpgradeRequest_def Let_def adjustTrigger_def)

lemma makeProcessActive_inv: "ps_Active p \<Longrightarrow> process_ok p \<Longrightarrow> uc_inv (makeProcessActive cluster (Some p) u)"
  by (auto simp: makeProcessActive_def uc_inv_def mrp_def active_ok_def)

lemma new_process_ok [simp]:
  assumes "env_ok e"
  shows "process_ok (newCertRotationProcess e)" and "newUpgradeProcess e cluster = Inr p \<Longrightarrow> process_ok p"
    and "ps_Active (newCertRotationProcess e)" and "newUpgradeProcess e cluster = Inr p \<Longrightarrow> ps_Active p"
  using assms
  by (auto simp: newCertRotationProcess_def newUpgradeProcess_def baseNewUpgradeProcess_def process_ok_def env_ok_def
      relevantTime_def progress_simps split: sum.splits if_splits)

lemma upgradability_inv:
  "uc_inv u \<Longrightarrow> uc_inv (u\<lparr>upgradeStatus := (upgradeStatus u)\<lparr>us_Upgradability := x, us_UpgradabilityStatusReason := y\<rparr>,
     upgradeStatusChanged := True\<rparr>)"
  by (auto simp: uc_inv_def mrp_def active_ok_def split: option.splits)

lemma maybeTriggerAutoUpgrade_fine: "env_ok e \<Longrightarrow> uc_inv u \<Longrightarrow> fine (maybeTriggerAutoUpgrade e u)"
  by (auto simp: maybeTriggerAutoUpgrade_def intro: makeProcessActive_inv split: sum.splits)

lemma reconcileInitial_fine:
  assumes "env_ok e" and "uc_inv u"
  shows "fine (reconcileInitialUpgradeStatus e v conn u)"
  using maybeTriggerAutoUpgrade_fine [OF assms(1) upgradability_inv [OF assms(2)]] upgradability_inv [OF assms(2)]
  by (simp add: reconcileInitialUpgradeStatus_def Let_def split: prod.split)

lemma doHandleNewConnection_fine:
  assumes "env_ok e" and "uc_inv u"
  shows "fine (doHandleNewConnection e conn (u\<lparr>errorSig := None\<rparr>))"
  using reconcileInitial_fine [OF assms(1), of "u\<lparr>errorSig := None\<rparr>" "conn_SensorVersion conn" conn] assms(2)
  by (auto simp: doHandleNewConnection_def Let_def fine_def split: outcome.splits prod.splits)

lemma triggered_fine:
  assumes "activeSensorConn u = Some c" and "ps_Active p" and "process_ok p"
  shows "fine (connAndTrigger (makeProcessActive cluster (Some p) u), makeProcessActive cluster (Some p) u)"
  using assms makeProcessActive_inv [OF assms(2,3)] by (simp add: connAndTrigger_def makeProcessActive_def)

lemma checkActive_None: "checkActiveConnAndNoActiveProcess u = None \<Longrightarrow> \<exists>c. activeSensorConn u = Some c \<and> active u = None"
  by (auto simp: checkActiveConnAndNoActiveProcess_def split: option.splits if_splits)

lemma doTriggerCertRotation_fine: "env_ok e \<Longrightarrow> uc_inv u \<Longrightarrow> fine (doTriggerCertRotation e u)"
  by (auto simp: doTriggerCertRotation_def Let_def dest!: checkActive_None intro: triggered_fine split: option.splits sum.splits)

lemma doTriggerUpgrade_fine: "env_ok e \<Longrightarrow> uc_inv u \<Longrightarrow> fine (doTriggerUpgrade e u)"
  by (auto simp: doTriggerUpgrade_def Let_def dest!: checkActive_None intro: triggered_fine split: option.splits sum.splits)

lemma watch_fine:
  "uc_inv u \<Longrightarrow> fine (Returned (),
     if (case activeSensorConn u of None \<Rightarrow> False | Some c \<Rightarrow> conn_handle (ac_conn c) = conn_handle conn)
     then u\<lparr>activeSensorConn := None\<rparr> else u)"
  by simp

interpretation register: op_body e "\<lambda>u. doHandleNewConnection e conn (u\<lparr>errorSig := None\<rparr>)" for e conn
  by unfold_locales (rule doHandleNewConnection_fine)

interpretation watch: op_body e "\<lambda>u. (Returned (),
    if (case activeSensorConn u of None \<Rightarrow> False | Some c \<Rightarrow> conn_handle (ac_conn c) = conn_handle conn)
    then u\<lparr>activeSensorConn := None\<rparr> else u)" for e conn
  by unfold_locales (rule watch_fine)

interpretation upgrader: op_body e "doProcessCheckInFromUpgrader e req" for e req
  by unfold_locales (rule doProcessCheckInFromUpgrader_fine)

interpretation sensor: op_body e "doProcessCheckInFromSensor e req" for e req
  by unfold_locales (rule doProcessCheckInFromSensor_fine)

interpretation upgrade: op_body e "doTriggerUpgrade e" for e
  by unfold_locales (rule doTriggerUpgrade_fine)

interpretation rotation: op_body e "doTriggerCertRotation e" for e
  by unfold_locales (rule doTriggerCertRotation_fine)

interpretation tick: op_body e "reconcileTick e pid" for e pid
  by unfold_locales (rule reconcileTick_spec)

subsection \<open>Steps and reachable states\<close>

inductive ucStep :: "env \<Rightarrow> upgradeController \<Rightarrow> upgradeController \<Rightarrow> bool" for e where
  connect: "ucStep e u (snd (RegisterConnection e conn u))"
| disconnect: "ucStep e u (snd (watchConnection e conn u))"
| upgraderCheckIn: "ucStep e u (snd (ProcessCheckInFromUpgrader e upgraderReq u))"
| sensorCheckIn: "ucStep e u (snd (ProcessCheckInFromSensor e sensorReq u))"
| triggerUpgrade: "ucStep e u (snd (Trigger e u))"
| triggerRotation: "ucStep e u (snd (TriggerCertRotation e u))"
| reconcile: "pid \<in> set (reconcilers u) \<Longrightarrow> ucStep e u (snd (reconcileUpgradeStateRegularly e pid u))"

text \<open>What the storage holds when a controller is created: an active process can go on.\<close>

definition stored_ok :: "env \<Rightarrow> string \<Rightarrow> bool" where
  "stored_ok e cid \<longleftrightarrow>
     (\<forall>cluster status p. env_GetCluster e cid = Inr (Some cluster) \<and> uc_UpgradeStatus cluster = Some status \<and>
        us_MostRecentProcess status = Some p \<and> ps_Active p \<longrightarrow> process_ok p)"

inductive reachable :: "upgradeController \<Rightarrow> bool" where
  created: "newWithTimeoutProvider e cid tm = Inr u \<Longrightarrow> stored_ok e cid \<Longrightarrow> reachable u"
| stepped: "reachable u \<Longrightarrow> env_ok e \<Longrightarrow> ucStep e u u' \<Longrightarrow> reachable u'"

lemma trigger_reads:
  "uc_inv (snd (trigger e g u)) = uc_inv (snd (doOp e g u))" "mrp (snd (trigger e g u)) = mrp (snd (doOp e g u))"
  "storedMrp (snd (trigger e g u)) = storedMrp (snd (doOp e g u))"
  "errorSig (snd (trigger e g u)) = errorSig (snd (doOp e g u))"
  "fst (trigger e g u) = fst (doOp e g u)"
  by (auto simp: trigger_def mrp_def storedMrp_def split: prod.splits doResult.splits sum.splits)

lemma reconcile_reads:
  "mrp (snd (reconcileUpgradeStateRegularly e pid u)) = mrp (snd (doOp e (reconcileTick e pid) u))"
  "active (snd (reconcileUpgradeStateRegularly e pid u)) = active (snd (doOp e (reconcileTick e pid) u))"
  "storedMrp (snd (reconcileUpgradeStateRegularly e pid u)) = storedMrp (snd (doOp e (reconcileTick e pid) u))"
  "errorSig (snd (reconcileUpgradeStateRegularly e pid u)) = errorSig (snd (doOp e (reconcileTick e pid) u))"
  "fst (reconcileUpgradeStateRegularly e pid u) = fst (doOp e (reconcileTick e pid) u)"
  by (auto simp: reconcileUpgradeStateRegularly_def mrp_def storedMrp_def split: prod.splits doResult.splits bool.splits)

lemma reconcile_inv:
  assumes "env_ok e" and "uc_inv u"
  shows "uc_inv (snd (reconcileUpgradeStateRegularly e pid u))"
proof -
  let ?v = "snd (doOp e (reconcileTick e pid) u)"
  have v: "uc_inv ?v" using assms by (rule tick.doOp_inv)
  show ?thesis
  proof (cases "\<exists>err. fst (doOp e (reconcileTick e pid) u) = Finished (True, err)")
    case True
    then obtain err where d: "doOp e (reconcileTick e pid) u = (Finished (True, err), ?v)" by (metis prod.collapse)
    then have n: "errorSig u = None" and r: "fst (reconcileTick e pid u) = Returned (True, err)"
      by (auto simp: doOp_def split: option.splits prod.splits outcome.splits)
    have "active ?v \<noteq> None \<Longrightarrow> map_option ps_Id (mrp ?v) \<noteq> Some pid"
      using reconcileTick_spec(2) [OF assms(2) r] by (simp add: doOp_reads [OF n])
    with v have "uc_inv (?v\<lparr>reconcilers := remove1 pid (reconcilers ?v)\<rparr>)"
      by (auto simp: uc_inv_def mrp_def active_ok_def storedMrp_def split: option.splits)
    moreover have "reconcileUpgradeStateRegularly e pid u = (Finished (True, err), ?v\<lparr>reconcilers := remove1 pid (reconcilers ?v)\<rparr>)"
      by (subst reconcileUpgradeStateRegularly_def, subst d) simp
    ultimately show ?thesis by simp
  next
    case False
    then have "reconcileUpgradeStateRegularly e pid u = doOp e (reconcileTick e pid) u"
      by (auto simp: reconcileUpgradeStateRegularly_def split: prod.splits doResult.splits bool.splits)
    with v show ?thesis by simp
  qed
qed

lemma step_inv:
  assumes "ucStep e u u'" and "env_ok e" and "uc_inv u"
  shows "uc_inv u'"
  using assms
proof (induction rule: ucStep.induct)
  case (connect u conn)
  then show ?case unfolding RegisterConnection_def by (intro register.doOp_inv)
next
  case (disconnect u conn)
  then show ?case unfolding watchConnection_def by (intro watch.doOp_inv)
next
  case (upgraderCheckIn u req)
  then show ?case unfolding ProcessCheckInFromUpgrader_def by (intro upgrader.doOp_inv)
next
  case (sensorCheckIn u req)
  then show ?case unfolding ProcessCheckInFromSensor_def by (intro sensor.doOp_inv)
next
  case (triggerUpgrade u)
  then show ?case unfolding Trigger_def trigger_reads by (intro upgrade.doOp_inv)
next
  case (triggerRotation u)
  then show ?case unfolding TriggerCertRotation_def trigger_reads by (intro rotation.doOp_inv)
next
  case (reconcile pid u)
  then show ?case by (intro reconcile_inv)
qed

lemma step_flushed:
  assumes "ucStep e u u'" and "env_ok e" and "uc_inv u" and "errorSig u' = None"
  shows "storedMrp u' = mrp u'"
  using assms
proof (induction rule: ucStep.induct)
  case (connect u conn)
  then show ?case unfolding RegisterConnection_def by (intro register.doOp_flushed)
next
  case (disconnect u conn)
  then show ?case unfolding watchConnection_def by (intro watch.doOp_flushed)
next
  case (upgraderCheckIn u req)
  then show ?case unfolding ProcessCheckInFromUpgrader_def by (intro upgrader.doOp_flushed)
next
  case (sensorCheckIn u req)
  then show ?case unfolding ProcessCheckInFromSensor_def by (intro sensor.doOp_flushed)
next
  case (triggerUpgrade u)
  then show ?case unfolding Trigger_def trigger_reads by (intro upgrade.doOp_flushed)
next
  case (triggerRotation u)
  then show ?case unfolding TriggerCertRotation_def trigger_reads by (intro rotation.doOp_flushed)
next
  case (reconcile pid u)
  then show ?case unfolding reconcile_reads by (intro tick.doOp_flushed)
qed

lemma created_inv:
  assumes "newWithTimeoutProvider e cid tm = Inr u" and "stored_ok e cid"
  shows "uc_inv u \<and> storedMrp u = mrp u \<and> clusterID u = cid"
proof -
  obtain cluster where c: "env_GetCluster e cid = Inr (Some cluster)"
    using assms(1) by (auto simp: newWithTimeoutProvider_def initialize_def getClusterOrError_def Let_def
        split: if_splits sum.splits option.splits prod.splits)
  with assms show ?thesis
    by (cases "uc_UpgradeStatus cluster"; cases "Option.bind (uc_UpgradeStatus cluster) us_MostRecentProcess")
      (auto simp: newWithTimeoutProvider_def initialize_def getClusterOrError_def Let_def flushUpgradeStatus_def
        makeProcessActive_def uc_inv_def mrp_def storedMrp_def active_ok_def stored_ok_def
        split: if_splits option.splits)
qed

lemma reachable_inv: "reachable u \<Longrightarrow> uc_inv u \<and> (errorSig u = None \<longrightarrow> storedMrp u = mrp u)"
  by (induction rule: reachable.induct) (use created_inv step_inv step_flushed in blast)+

text \<open>
  C7. In every reachable state of the controller, whatever the order of connections, check-ins,
  triggers and ticks: when a process is active, it is the most recent process, marked active, in a
  state that is not terminal, with a timestamp from which its timeout counts, with a
  goroutine that watches it, and with a trigger that carries its identifier and no image once the
  upgrader was launched; when no process is active, the most recent one is not marked active. Unless
  the controller is in its error state, the storage holds the most recent process as it is in memory.
\<close>

theorem upgrade_controller_invariant:
  assumes "reachable u"
  shows "(case active u of
      None \<Rightarrow> \<forall>p. mrp u = Some p \<longrightarrow> \<not> ps_Active p
    | Some t \<Rightarrow> \<exists>p. mrp u = Some p \<and> ps_Active p \<and> tr_UpgradeProcessId t = ps_Id p \<and>
        \<not> terminal (progressState p) \<and> relevantTime p \<noteq> None \<and> ps_Id p \<in> set (reconcilers u) \<and>
        (UPGRADER_LAUNCHED \<le> progressState p \<longrightarrow> tr_Image t = [])) \<and>
    (errorSig u = None \<longrightarrow> Option.bind (storedStatus u) us_MostRecentProcess = mrp u)"
  using reachable_inv [OF assms] by (auto simp: storedMrp_def [symmetric] simp del: Option.bind_eq_Some_conv) (auto simp: uc_inv_def active_ok_def process_ok_def split: option.splits)

definition exampleStored :: Cluster where
  "exampleStored = \<lparr>uc_Id = ''c1'', uc_MainImage = ''main'', uc_CentralApiEndpoint = ''central:443'', uc_UpgradeStatus = None\<rparr>"

definition exampleEnv :: env where
  "exampleEnv = \<lparr>env_now = 0, env_uuid = ''p1'', env_mainVersion = ''4.2.0'', env_autoTriggerEnabled = True,
     env_GetCluster = (\<lambda>cid. if cid = ''c1'' then Inr (Some exampleStored) else Inr None),
     env_UpdateClusterUpgradeStatus = None,
     env_GenerateImageName = (\<lambda>s. Inr \<lparr>img_Name = s, img_Tag = []\<rparr>),
     env_FullName = (\<lambda>i. img_Name i @ '':'' @ img_Tag i)\<rparr>"

definition exampleConn :: SensorConn where
  "exampleConn = \<lparr>conn_handle = 7, conn_SensorVersion = ''4.1.3'', conn_CheckAutoUpgradeSupport = None\<rparr>"

definition exampleCreated :: upgradeController where
  "exampleCreated = (case New exampleEnv ''c1'' of Inr u \<Rightarrow> u | Inl _ \<Rightarrow> undefined)"

text \<open>After an old sensor has connected, with automatic upgrades enabled.\<close>

definition exampleConnected :: upgradeController where
  "exampleConnected = snd (RegisterConnection exampleEnv exampleConn exampleCreated)"

lemma example_created: "New exampleEnv ''c1'' = Inr exampleCreated"
  unfolding exampleCreated_def
  by (simp add: New_def newWithTimeoutProvider_def validateTimeouts_def defaultTimeoutProvider_def minute_def
      initialize_def getClusterOrError_def exampleEnv_def exampleStored_def Let_def flushUpgradeStatus_def makeProcessActive_def)

lemma example_reachable: "reachable exampleCreated" "reachable exampleConnected"
proof -
  show "reachable exampleCreated"
    using example_created unfolding New_def
    by (rule reachable.created) (auto simp: stored_ok_def exampleEnv_def exampleStored_def split: if_splits)
  then show "reachable exampleConnected"
    unfolding exampleConnected_def
    by (rule reachable.stepped [where e = exampleEnv]) (auto simp: env_ok_def exampleEnv_def intro: ucStep.connect)
qed

lemma example_connected_state:
  "map_option tr_UpgradeProcessId (active exampleConnected) = Some ''p1''"
  "map_option (\<lambda>p. (ps_Id p, ps_TargetVersion p, relevantTime p)) (mrp exampleConnected) = Some (''p1'', ''4.2.0'', Some 0)"
  "errorSig exampleConnected = None" "timeouts exampleConnected = defaultTimeoutProvider"
  by code_simp+

theorem upgrade_controller_invariant_witness:
  "\<exists>p. mrp exampleConnected = Some p \<and> ps_Active p \<and> ps_Id p = ''p1'' \<and> ''p1'' \<in> set (reconcilers exampleConnected) \<and>
    Option.bind (storedStatus exampleConnected) us_MostRecentProcess = Some p"
  using upgrade_controller_invariant [OF example_reachable(2)] example_connected_state(1,3) by auto

lemma setUpgradeProgress_errors: "fst (setUpgradeProgress e pid s d u) \<noteq> Returned (Some NoRelevantTimestamp)"
  by (auto simp: setUpgradeProgress_def Let_def split: option.splits prod.splits)

lemma reconcileTick_timestamp:
  assumes "uc_inv u"
  shows "fst (reconcileTick e pid u) \<noteq> Returned (b, Some NoRelevantTimestamp)"
proof (cases "\<exists>t p. active u = Some t \<and> mrp u = Some p \<and> ps_Id p = pid")
  case True
  then obtain t p where t: "active u = Some t" "mrp u = Some p" "ps_Id p = pid" by blast
  with assms obtain x where x: "relevantTime p = Some x" by (auto simp: uc_inv_def active_ok_def process_ok_def)
  obtain r u1 where r: "maybeReconcileStateWithActiveConnInfo e pid u = (r, u1)" by force
  have m: "r \<noteq> Returned (d, Some NoRelevantTimestamp)" for d
    using r setUpgradeProgress_errors [of e pid _ _ u]
    by (auto simp: maybeReconcileStateWithActiveConnInfo_def finishProcess_def Let_def
        split: option.splits prod.splits outcome.splits if_splits) (metis fst_conv)+
  have u1: "r = Returned (False, None) \<Longrightarrow> u1 = u"
    using maybeReconcile_spec(2) [OF assms, where e = e and pid = pid] t r by simp
  have "fst (maybeTimeoutUpgrade e pid u) \<noteq> Returned (Some NoRelevantTimestamp)"
    using t x setUpgradeProgress_errors by (auto simp: maybeTimeoutUpgrade_def)
  then show ?thesis
  proof (cases r)
    case (Returned dr)
    obtain d err where dr: "dr = (d, err)" by (cases dr)
    with Returned m have "err \<noteq> Some NoRelevantTimestamp" by blast
    with Returned dr t r u1 \<open>fst (maybeTimeoutUpgrade e pid u) \<noteq> Returned (Some NoRelevantTimestamp)\<close>
    show ?thesis by (auto simp: reconcileTick_def split: prod.splits outcome.splits)
  qed (use t r in \<open>simp_all add: reconcileTick_def\<close>)
next
  case False
  then show ?thesis by (auto simp: reconcileTick_def split: option.splits)
qed

text \<open>
  C27. No operation of the controller runs into a nil pointer in a reachable state, and the
  reconciler always finds a timestamp for the timeout, the case that its comment calls impossible.
\<close>

theorem upgrade_operations_never_panic:
  assumes "reachable u" and "env_ok e"
  shows "fst (RegisterConnection e conn u) \<noteq> Panicked \<and> fst (watchConnection e conn u) \<noteq> Panicked \<and>
    fst (ProcessCheckInFromUpgrader e upgraderReq u) \<noteq> Panicked \<and> fst (ProcessCheckInFromSensor e sensorReq u) \<noteq> Panicked \<and>
    fst (Trigger e u) \<noteq> Panicked \<and> fst (TriggerCertRotation e u) \<noteq> Panicked \<and>
    fst (reconcileUpgradeStateRegularly e pid u) \<noteq> Panicked \<and>
    fst (reconcileUpgradeStateRegularly e pid u) \<noteq> Finished (b, Some NoRelevantTimestamp)"
proof -
  have i: "uc_inv u" using reachable_inv [OF assms(1)] by blast
  have "fst (doOp e (reconcileTick e pid) u) \<noteq> Finished (b, Some NoRelevantTimestamp)"
    using reconcileTick_timestamp [OF i, of e pid b]
    by (auto simp: doOp_def split: option.splits prod.splits outcome.splits)
  then show ?thesis
    unfolding RegisterConnection_def watchConnection_def ProcessCheckInFromUpgrader_def ProcessCheckInFromSensor_def
      Trigger_def TriggerCertRotation_def trigger_reads reconcile_reads
    using register.doOp_not_panicked [OF assms(2) i] watch.doOp_not_panicked [OF assms(2) i]
      upgrader.doOp_not_panicked [OF assms(2) i] sensor.doOp_not_panicked [OF assms(2) i]
      upgrade.doOp_not_panicked [OF assms(2) i] rotation.doOp_not_panicked [OF assms(2) i]
      tick.doOp_not_panicked [OF assms(2) i] by blast
qed

theorem upgrade_operations_never_panic_witness:
  "fst (Trigger exampleEnv exampleConnected) \<noteq> Panicked \<and>
   fst (reconcileUpgradeStateRegularly exampleEnv ''p1'' exampleConnected) \<noteq> Panicked"
  using upgrade_operations_never_panic [OF example_reachable(2), of exampleEnv]
  by (simp add: env_ok_def exampleEnv_def)

definition same_or_fresh :: "env \<Rightarrow> upgradeController \<Rightarrow> upgradeController \<Rightarrow> bool" where
  "same_or_fresh e u u' \<longleftrightarrow> mrp u' = mrp u \<or>
     (\<exists>p. mrp u' = Some p \<and> ps_Id p = env_uuid e \<and> ps_Active p \<and> progressState p = UPGRADE_INITIALIZING)"

lemma same_or_fresh_refl [simp]: "same_or_fresh e u u"
  by (simp add: same_or_fresh_def)

lemma fresh_process:
  "same_or_fresh e u (makeProcessActive cluster (Some (newCertRotationProcess e)) v)"
  "newUpgradeProcess e cluster = Inr p \<Longrightarrow> same_or_fresh e u (makeProcessActive cluster (Some p) v)"
  by (auto simp: same_or_fresh_def makeProcessActive_def newCertRotationProcess_def newUpgradeProcess_def
      baseNewUpgradeProcess_def mrp_def progress_simps split: sum.splits if_splits)

lemma idle_trigger_body:
  "same_or_fresh e u (snd (doTriggerUpgrade e u))" "same_or_fresh e u (snd (doTriggerCertRotation e u))"
  by (auto simp: doTriggerUpgrade_def doTriggerCertRotation_def Let_def fresh_process split: option.splits sum.splits)

lemma idle_connect_body: "same_or_fresh e u (snd (doHandleNewConnection e conn (u\<lparr>errorSig := None\<rparr>)))"
proof -
  have "same_or_fresh e u (snd (maybeTriggerAutoUpgrade e v))" if "mrp v = mrp u" for v
    using that by (auto simp: maybeTriggerAutoUpgrade_def fresh_process split: sum.splits) (simp_all add: same_or_fresh_def)
  then have "same_or_fresh e u (snd (reconcileInitialUpgradeStatus e w conn (u\<lparr>errorSig := None\<rparr>)))" for w
    by (auto simp: reconcileInitialUpgradeStatus_def Let_def mrp_def split: prod.split) (simp add: same_or_fresh_def mrp_def)
  moreover have "same_or_fresh e u (v\<lparr>sentTriggers := a, activeSensorConn := b\<rparr>) = same_or_fresh e u v" for v a b
    by (simp add: same_or_fresh_def mrp_def)
  ultimately show ?thesis
    by (auto simp: doHandleNewConnection_def Let_def split: prod.splits outcome.splits) (metis snd_conv)+
qed

lemma idle_bodies:
  assumes "active u = None"
  shows "snd (doProcessCheckInFromUpgrader e req u) = u" and "snd (doProcessCheckInFromSensor e sreq u) = u"
    and "snd (reconcileTick e pid u) = u"
  using assms by (simp_all add: doProcessCheckInFromUpgrader_def doProcessCheckInFromSensor_def reconcileTick_def)

lemma doOp_same_or_fresh: "same_or_fresh e u (snd (body u)) \<Longrightarrow> same_or_fresh e u (snd (doOp e body u))"
  by (cases "errorSig u") (simp_all add: doOp_error_state same_or_fresh_def doOp_reads(1))

lemma same_or_fresh_reads:
  "same_or_fresh e u (snd (trigger e g u)) = same_or_fresh e u (snd (doOp e g u))"
  "same_or_fresh e u (snd (reconcileUpgradeStateRegularly e pid u)) =
     same_or_fresh e u (snd (doOp e (reconcileTick e pid) u))"
  by (simp_all add: same_or_fresh_def trigger_reads reconcile_reads)

lemma idle_step:
  assumes "ucStep e u u'" and "active u = None"
  shows "same_or_fresh e u u'"
  using assms
proof (induction rule: ucStep.induct)
  case (connect u conn)
  show ?case unfolding RegisterConnection_def by (intro doOp_same_or_fresh idle_connect_body)
next
  case (disconnect u conn)
  show ?case unfolding watchConnection_def by (rule doOp_same_or_fresh) (simp add: same_or_fresh_def mrp_def)
next
  case (triggerUpgrade u)
  show ?case unfolding Trigger_def same_or_fresh_reads by (intro doOp_same_or_fresh idle_trigger_body)
next
  case (triggerRotation u)
  show ?case unfolding TriggerCertRotation_def same_or_fresh_reads by (intro doOp_same_or_fresh idle_trigger_body)
qed (auto simp: ProcessCheckInFromUpgrader_def ProcessCheckInFromSensor_def same_or_fresh_reads idle_bodies
    intro!: doOp_same_or_fresh)

text \<open>
  A process in a terminal state never gets out of it: after any step the most recent process is
  the same, unchanged, or a new process with a fresh identifier has been started in its place.
\<close>

theorem terminal_process_stays:
  assumes "reachable u" and "ucStep e u u'" and "mrp u = Some p" and "terminal (progressState p)"
  shows "mrp u' = Some p \<or>
    (\<exists>q. mrp u' = Some q \<and> ps_Id q = env_uuid e \<and> ps_Active q \<and> progressState q = UPGRADE_INITIALIZING)"
proof -
  have "active u = None"
    using reachable_inv [OF assms(1)] assms(3,4) by (cases "active u") (auto simp: uc_inv_def active_ok_def process_ok_def)
  from idle_step [OF assms(2) this] assms(3) show ?thesis by (simp add: same_or_fresh_def)
qed

text \<open>The upgrader reports that the pre-flight checks failed.\<close>

definition exampleReport :: UpgradeCheckInFromUpgraderRequest where
  "exampleReport = \<lparr>cu_UpgradeProcessId = ''p1'', cu_CurrentWorkflow = ''roll-forward'',
     cu_LastExecutedStage = ''PreflightStage'', cu_LastExecutedStageError = ''quota''\<rparr>"

definition exampleFailed :: upgradeController where
  "exampleFailed = snd (ProcessCheckInFromUpgrader exampleEnv exampleReport exampleConnected)"

lemma example_failed_reachable: "reachable exampleFailed"
  unfolding exampleFailed_def
  by (rule reachable.stepped [OF example_reachable(2), where e = exampleEnv])
    (auto simp: env_ok_def exampleEnv_def intro: ucStep.upgraderCheckIn)

lemma example_failed_state: "map_option progressState (mrp exampleFailed) = Some PRE_FLIGHT_CHECKS_FAILED"
  by code_simp

theorem terminal_process_stays_witness:
  "\<exists>p. mrp exampleFailed = Some p \<and> terminal (progressState p) \<and>
     (mrp (snd (Trigger exampleEnv exampleFailed)) = Some p \<or>
      (\<exists>q. mrp (snd (Trigger exampleEnv exampleFailed)) = Some q \<and> progressState q = UPGRADE_INITIALIZING))"
proof -
  obtain p where p: "mrp exampleFailed = Some p" "progressState p = PRE_FLIGHT_CHECKS_FAILED"
    using example_failed_state by auto
  then show ?thesis
    using terminal_process_stays [OF example_failed_reachable ucStep.triggerUpgrade, of p exampleEnv] by auto
qed

text \<open>A tick for a process whose timestamp is too old ends the process.\<close>

lemma tick_ends_stuck_process:
  assumes "uc_inv u" and "active u = Some t" and "mrp u = Some p" and "relevantTime p = Some since"
    and "absoluteNoProgressTimeout (timeouts u) < env_now e - since"
    and "fst (maybeReconcileStateWithActiveConnInfo e (ps_Id p) u) = Returned (False, None)"
  shows "active (snd (reconcileTick e (ps_Id p) u)) = None \<and>
    (\<exists>q. mrp (snd (reconcileTick e (ps_Id p) u)) = Some q \<and> terminal (progressState q))"
proof -
  have m: "maybeReconcileStateWithActiveConnInfo e (ps_Id p) u = (Returned (False, None), u)"
    using maybeReconcile_spec(2) [OF assms(1) _ assms(6)] assms(2,6) by (metis option.distinct(1) prod.collapse)
  have ok: "ps_Id p \<noteq> []" using assms(1-3) by (auto simp: uc_inv_def active_ok_def process_ok_def)
  have "reconcileTick e (ps_Id p) u = (case maybeTimeoutUpgrade e (ps_Id p) u of
      (Returned err, u2) \<Rightarrow> (Returned (False, err), u2)
    | (UnexpectedError err, u2) \<Rightarrow> (UnexpectedError err, u2)
    | (NilPointer, u2) \<Rightarrow> (NilPointer, u2))"
    using assms(2,3) by (simp add: reconcileTick_def m)
  moreover obtain d where "maybeTimeoutUpgrade e (ps_Id p) u = setUpgradeProgress e (ps_Id p) UPGRADE_TIMED_OUT d u"
    using assms(2-5) by (simp add: maybeTimeoutUpgrade_def)
  ultimately show ?thesis
    using ok assms(2,3)
    by (auto intro: setUpgradeProgress_cases [OF assms(1), of e "ps_Id p" UPGRADE_TIMED_OUT d] simp: mrp_def)
qed

lemma stuck_process_ends:
  assumes "uc_inv u" and "active u = Some t" and "mrp u = Some p" and "relevantTime p = Some since"
    and "absoluteNoProgressTimeout (timeouts u) < env_now e - since"
  shows "active (snd (reconcileTick e (ps_Id p) u)) = None \<and>
    (\<exists>q. mrp (snd (reconcileTick e (ps_Id p) u)) = Some q \<and> terminal (progressState q))"
proof (cases "fst (maybeReconcileStateWithActiveConnInfo e (ps_Id p) u) = Returned (False, None)")
  case True
  with assms show ?thesis by (rule tick_ends_stuck_process)
next
  case False
  have a: "active u \<noteq> None" "map_option ps_Id (mrp u) = Some (ps_Id p)" using assms(2,3) by simp_all
  let ?m = "maybeReconcileStateWithActiveConnInfo e (ps_Id p) u"
  have "fst ?m = Returned (True, None)" using False maybeReconcile_spec(4) [OF assms(1) a] by blast
  then obtain u1 where m: "?m = (Returned (True, None), u1)" by (cases ?m) auto
  then have "snd (reconcileTick e (ps_Id p) u) = snd ?m" using assms(2,3) by (simp add: reconcileTick_def)
  with maybeReconcile_spec(3) [OF assms(1) a \<open>fst ?m = Returned (True, None)\<close>] show ?thesis by simp
qed

text \<open>
  C26. An upgrade that makes no progress ends: when the time since the last progress of the active
  process exceeds the timeout, and the controller is not in its error state, a goroutine is
  watching the process, and its next tick leaves the process inactive in a terminal state (it is
  marked as timed out, unless the tick finds it complete or rolled back first).
\<close>

theorem stuck_upgrade_is_ended:
  assumes "reachable u" and "errorSig u = None" and "active u \<noteq> None" and "mrp u = Some p"
    and "relevantTime p = Some since" and "absoluteNoProgressTimeout (timeouts u) < env_now e - since"
  shows "ps_Id p \<in> set (reconcilers u) \<and>
    active (snd (reconcileUpgradeStateRegularly e (ps_Id p) u)) = None \<and>
    (\<exists>q. mrp (snd (reconcileUpgradeStateRegularly e (ps_Id p) u)) = Some q \<and> terminal (progressState q))"
proof -
  obtain t where t: "active u = Some t" using assms(3) by blast
  have i: "uc_inv u" using reachable_inv [OF assms(1)] by blast
  then have "ps_Id p \<in> set (reconcilers u)" using t assms(4) by (auto simp: uc_inv_def active_ok_def)
  with stuck_process_ends [OF i t assms(4-6)] show ?thesis
    by (simp add: reconcile_reads doOp_reads [OF assms(2)])
qed

theorem stuck_upgrade_is_ended_witness:
  "active exampleConnected \<noteq> None \<and>
   active (snd (reconcileUpgradeStateRegularly (exampleEnv\<lparr>env_now := 11 * minute\<rparr>) ''p1'' exampleConnected)) = None"
proof -
  obtain p where p: "mrp exampleConnected = Some p" "ps_Id p = ''p1''" "relevantTime p = Some 0"
    using example_connected_state(2) by auto
  have a: "active exampleConnected \<noteq> None" using example_connected_state(1) by auto
  with stuck_upgrade_is_ended [OF example_reachable(2) example_connected_state(3) a p(1,3),
      of "exampleEnv\<lparr>env_now := 11 * minute\<rparr>"] p(2)
  show ?thesis by (simp add: example_connected_state(4) defaultTimeoutProvider_def minute_def)
qed

text \<open>
  Once the controller is in its error state, no operation changes it any more, not even the
  registration of a new connection, although that resets the error signal: the reset is inside
  the operation that the wrapper refuses to run.
\<close>

theorem error_state_is_final:
  assumes "errorSig u = Some err" and "ucStep e u u'"
  shows "u' = u"
  using assms(2,1)
  by (induction rule: ucStep.induct)
    (simp_all add: RegisterConnection_def watchConnection_def ProcessCheckInFromUpgrader_def ProcessCheckInFromSensor_def
      Trigger_def TriggerCertRotation_def trigger_def reconcileUpgradeStateRegularly_def doOp_error_state)

theorem error_state_is_final_witness:
  "snd (RegisterConnection exampleEnv exampleConn (exampleCreated\<lparr>errorSig := Some (ClusterNotFound ''c1'')\<rparr>)) =
   exampleCreated\<lparr>errorSig := Some (ClusterNotFound ''c1'')\<rparr>"
  by (rule error_state_is_final [OF _ ucStep.connect]) simp

text \<open>
  C32. Central can be restarted at any time: unless the controller is in its error state, the
  storage has the current process, and a controller created from what is stored has the same
  most recent process and is active exactly when the old one was, with a trigger for the same
  process.
\<close>

theorem controller_restart:
  assumes "reachable u" and "errorSig u = None" and "env_GetCluster e cid = Inr (Some cluster)"
    and "uc_UpgradeStatus cluster = storedStatus u" and "env_UpdateClusterUpgradeStatus e = None" and "validateTimeouts tm"
  shows "\<exists>u'. newWithTimeoutProvider e cid tm = Inr u' \<and> reachable u' \<and> mrp u' = mrp u \<and>
    map_option tr_UpgradeProcessId (active u') = map_option tr_UpgradeProcessId (active u)"
proof -
  have i: "uc_inv u" "storedMrp u = mrp u" using reachable_inv [OF assms(1)] assms(2) by auto
  then have ok: "stored_ok e cid"
    using assms(3,4) by (auto simp: stored_ok_def storedMrp_def uc_inv_def active_ok_def split: option.splits)
  have "\<exists>u'. newWithTimeoutProvider e cid tm = Inr u' \<and> mrp u' = storedMrp u"
    using assms(3-6)
    by (cases "storedStatus u"; cases "storedMrp u") (auto simp: newWithTimeoutProvider_def initialize_def getClusterOrError_def Let_def flushUpgradeStatus_def
        makeProcessActive_def mrp_def storedMrp_def)
  then obtain u' where u': "newWithTimeoutProvider e cid tm = Inr u'" "mrp u' = storedMrp u" by blast
  have "uc_inv u'" using created_inv [OF u'(1) ok] by blast
  with i u'(2) have "map_option tr_UpgradeProcessId (active u') = map_option tr_UpgradeProcessId (active u)"
    by (cases "active u"; cases "active u'") (auto simp: uc_inv_def active_ok_def)
  with u' i ok show ?thesis by (auto intro: reachable.created)
qed

theorem controller_restart_witness:
  "\<exists>u'. newWithTimeoutProvider (exampleEnv\<lparr>env_GetCluster := \<lambda>_. Inr (Some (exampleStored\<lparr>uc_UpgradeStatus := storedStatus exampleConnected\<rparr>))\<rparr>)
       ''c1'' defaultTimeoutProvider = Inr u' \<and> map_option tr_UpgradeProcessId (active u') = Some ''p1''"
  using controller_restart [OF example_reachable(2) example_connected_state(3),
      of "exampleEnv\<lparr>env_GetCluster := \<lambda>_. Inr (Some (exampleStored\<lparr>uc_UpgradeStatus := storedStatus exampleConnected\<rparr>))\<rparr>"
        "''c1''" "exampleStored\<lparr>uc_UpgradeStatus := storedStatus exampleConnected\<rparr>" defaultTimeoutProvider]
    example_connected_state(1)
  by (auto simp: exampleEnv_def validateTimeouts_def defaultTimeoutProvider_def minute_def)

end
