(* ===== verification/Event_Deduper.thy ===== *)
theory Event_Deduper
  imports Go_Sets "HOL-Library.Word"
begin

text \<open>
  The deduplication of the events a Sensor sends to Central: event keys
  (\<open>pkg/sensor/event/event.go\<close>, \<open>pkg/deduperkey/key.go\<close>), Central's deduper with its map of
  received and of successfully processed hashes (\<open>central/hash/manager/deduper.go\<close>), the manager
  that keeps one deduper per cluster (\<open>central/hash/manager/manager.go\<close>) and the deduping
  stream on the Sensor's side (\<open>sensor/common/deduper/deduper.go\<close>).

  The contents of a resource, other than those the dedupers look at, are of type \<open>'c\<close>; the
  hash of an event (\<open>Hasher.HashEvent\<close>, by a library) and the maximal number of persisted hashes are
  arguments. Metrics and log messages are left out.
\<close>

subsection \<open>Messages\<close>

datatype LifecycleStage = DEPLOY | BUILD | RUNTIME

datatype ViolationState = ACTIVE | RESOLVED | ATTEMPTED

record Alert =
  al_LifecycleStage :: LifecycleStage
  al_State :: ViolationState

record AlertResults =
  ar_Stage :: LifecycleStage
  ar_Alerts :: "Alert list"

datatype ResourceAction =
  UNSET_ACTION_RESOURCE | CREATE_RESOURCE | UPDATE_RESOURCE | REMOVE_RESOURCE | SYNC_RESOURCE

datatype 'c resource =
    SensorEvent_NetworkPolicy 'c
  | SensorEvent_Deployment 'c
  | SensorEvent_Pod 'c
  | SensorEvent_Namespace 'c
  | SensorEvent_Secret 'c
  | SensorEvent_Node 'c
  | SensorEvent_NodeInventory 'c
  | SensorEvent_IndexReport 'c
  | SensorEvent_ServiceAccount 'c
  | SensorEvent_Role 'c
  | SensorEvent_Binding 'c
  | SensorEvent_ProcessIndicator 'c
  | SensorEvent_ProviderMetadata 'c
  | SensorEvent_Synced "string list"
  | SensorEvent_OrchestratorMetadata 'c
  | SensorEvent_ImageIntegration 'c
  | SensorEvent_ReprocessDeployment 'c
  | SensorEvent_AlertResults AlertResults
  | SensorEvent_ComplianceOperatorResult 'c
  | SensorEvent_ComplianceOperatorProfile 'c
  | SensorEvent_ComplianceOperatorRule 'c
  | SensorEvent_ComplianceOperatorScanSettingBinding 'c
  | SensorEvent_ComplianceOperatorScan 'c
  | SensorEvent_VirtualMachineIndexReport 'c
  | SensorEvent_VirtualMachine 'c
  | SensorEvent_ComplianceOperatorResultV2 'c
  | SensorEvent_ComplianceOperatorProfileV2 'c
  | SensorEvent_ComplianceOperatorRuleV2 'c
  | SensorEvent_ComplianceOperatorScanV2 'c
  | SensorEvent_ComplianceOperatorScanSettingBindingV2 'c
  | SensorEvent_ComplianceOperatorSuiteV2 'c
  | SensorEvent_ComplianceOperatorRemediationV2 'c

text \<open>A message is an event or one of the other kinds (\<open>None\<close>); an event may have no resource.\<close>

record 'c SensorEvent =
  ev_Id :: string
  ev_Action :: ResourceAction
  ev_SensorHash :: "64 word option"
  ev_Resource :: "'c resource option"

record 'c MsgFromSensor =
  msg_Event :: "'c SensorEvent option"
  msg_HashKey :: string
  msg_DedupeKey :: string
  msg_ProcessingAttempt :: nat

definition GetSensorHash :: "'c SensorEvent \<Rightarrow> 64 word" where
  "GetSensorHash ev = (case ev_SensorHash ev of None \<Rightarrow> 0 | Some h \<Rightarrow> h)"

subsection \<open>Alerts\<close>

definition IsAttemptedAlert :: "'a Alert_scheme \<Rightarrow> bool" where
  "IsAttemptedAlert a \<longleftrightarrow> al_State a = ATTEMPTED"

definition IsDeployTimeAttemptedAlert :: "'a Alert_scheme \<Rightarrow> bool" where
  "IsDeployTimeAttemptedAlert a \<longleftrightarrow> IsAttemptedAlert a \<and> al_LifecycleStage a = DEPLOY"

definition AnyAttemptedAlert :: "Alert list \<Rightarrow> bool" where
  "AnyAttemptedAlert alerts \<longleftrightarrow> list_ex IsAttemptedAlert alerts"

definition IsRuntimeAlertResult :: "AlertResults \<Rightarrow> bool" where
  "IsRuntimeAlertResult ar \<longleftrightarrow> ar_Stage ar = RUNTIME"

fun anyResolved :: "Alert list \<Rightarrow> bool" where
  "anyResolved [] = False"
| "anyResolved (a # as) = (if al_State a = RESOLVED then True else anyResolved as)"

definition IsAlertResultResolved :: "AlertResults \<Rightarrow> bool" where
  "IsAlertResultResolved ar = anyResolved (ar_Alerts ar)"

subsection \<open>Event keys\<close>

definition Split2 :: "string \<Rightarrow> char \<Rightarrow> string \<times> string" where
  "Split2 str sep = (case cut sep str of None \<Rightarrow> (str, []) | Some (before, after) \<Rightarrow> (before, after))"

definition GetAfter :: "string \<Rightarrow> char \<Rightarrow> string" where
  "GetAfter str sep = (let (p1, p2) = Split2 str sep in if length p1 = length str then p1 else p2)"

text \<open>The dynamic types of resources, and their names as \<open>reflect\<close> prints them.\<close>

datatype resourceType =
    T_NetworkPolicy | T_Deployment | T_Pod | T_Namespace | T_Secret | T_Node | T_NodeInventory | T_IndexReport
  | T_ServiceAccount | T_Role | T_Binding | T_ProcessIndicator | T_ProviderMetadata | T_Synced
  | T_OrchestratorMetadata | T_ImageIntegration | T_ReprocessDeployment | T_AlertResults
  | T_ComplianceOperatorResult | T_ComplianceOperatorProfile | T_ComplianceOperatorRule
  | T_ComplianceOperatorScanSettingBinding | T_ComplianceOperatorScan
  | T_VirtualMachineIndexReport | T_VirtualMachine
  | T_ComplianceOperatorResultV2 | T_ComplianceOperatorProfileV2 | T_ComplianceOperatorRuleV2
  | T_ComplianceOperatorScanV2 | T_ComplianceOperatorScanSettingBindingV2
  | T_ComplianceOperatorSuiteV2 | T_ComplianceOperatorRemediationV2

fun TypeOf :: "'c resource \<Rightarrow> resourceType" where
  "TypeOf (SensorEvent_NetworkPolicy c) = T_NetworkPolicy"
| "TypeOf (SensorEvent_Deployment c) = T_Deployment"
| "TypeOf (SensorEvent_Pod c) = T_Pod"
| "TypeOf (SensorEvent_Namespace c) = T_Namespace"
| "TypeOf (SensorEvent_Secret c) = T_Secret"
| "TypeOf (SensorEvent_Node c) = T_Node"
| "TypeOf (SensorEvent_NodeInventory c) = T_NodeInventory"
| "TypeOf (SensorEvent_IndexReport c) = T_IndexReport"
| "TypeOf (SensorEvent_ServiceAccount c) = T_ServiceAccount"
| "TypeOf (SensorEvent_Role c) = T_Role"
| "TypeOf (SensorEvent_Binding c) = T_Binding"
| "TypeOf (SensorEvent_ProcessIndicator c) = T_ProcessIndicator"
| "TypeOf (SensorEvent_ProviderMetadata c) = T_ProviderMetadata"
| "TypeOf (SensorEvent_Synced ids) = T_Synced"
| "TypeOf (SensorEvent_OrchestratorMetadata c) = T_OrchestratorMetadata"
| "TypeOf (SensorEvent_ImageIntegration c) = T_ImageIntegration"
| "TypeOf (SensorEvent_ReprocessDeployment c) = T_ReprocessDeployment"
| "TypeOf (SensorEvent_AlertResults ar) = T_AlertResults"
| "TypeOf (SensorEvent_ComplianceOperatorResult c) = T_ComplianceOperatorResult"
| "TypeOf (SensorEvent_ComplianceOperatorProfile c) = T_ComplianceOperatorProfile"
| "TypeOf (SensorEvent_ComplianceOperatorRule c) = T_ComplianceOperatorRule"
| "TypeOf (SensorEvent_ComplianceOperatorScanSettingBinding c) = T_ComplianceOperatorScanSettingBinding"
| "TypeOf (SensorEvent_ComplianceOperatorScan c) = T_ComplianceOperatorScan"
| "TypeOf (SensorEvent_VirtualMachineIndexReport c) = T_VirtualMachineIndexReport"
| "TypeOf (SensorEvent_VirtualMachine c) = T_VirtualMachine"
| "TypeOf (SensorEvent_ComplianceOperatorResultV2 c) = T_ComplianceOperatorResultV2"
| "TypeOf (SensorEvent_ComplianceOperatorProfileV2 c) = T_ComplianceOperatorProfileV2"
| "TypeOf (SensorEvent_ComplianceOperatorRuleV2 c) = T_ComplianceOperatorRuleV2"
| "TypeOf (SensorEvent_ComplianceOperatorScanV2 c) = T_ComplianceOperatorScanV2"
| "TypeOf (SensorEvent_ComplianceOperatorScanSettingBindingV2 c) = T_ComplianceOperatorScanSettingBindingV2"
| "TypeOf (SensorEvent_ComplianceOperatorSuiteV2 c) = T_ComplianceOperatorSuiteV2"
| "TypeOf (SensorEvent_ComplianceOperatorRemediationV2 c) = T_ComplianceOperatorRemediationV2"

fun typeSuffix :: "resourceType \<Rightarrow> string" where
  "typeSuffix T_NetworkPolicy = ''NetworkPolicy''"
| "typeSuffix T_Deployment = ''Deployment''"
| "typeSuffix T_Pod = ''Pod''"
| "typeSuffix T_Namespace = ''Namespace''"
| "typeSuffix T_Secret = ''Secret''"
| "typeSuffix T_Node = ''Node''"
| "typeSuffix T_NodeInventory = ''NodeInventory''"
| "typeSuffix T_IndexReport = ''IndexReport''"
| "typeSuffix T_ServiceAccount = ''ServiceAccount''"
| "typeSuffix T_Role = ''Role''"
| "typeSuffix T_Binding = ''Binding''"
| "typeSuffix T_ProcessIndicator = ''ProcessIndicator''"
| "typeSuffix T_ProviderMetadata = ''ProviderMetadata''"
| "typeSuffix T_Synced = ''Synced''"
| "typeSuffix T_OrchestratorMetadata = ''OrchestratorMetadata''"
| "typeSuffix T_ImageIntegration = ''ImageIntegration''"
| "typeSuffix T_ReprocessDeployment = ''ReprocessDeployment''"
| "typeSuffix T_AlertResults = ''AlertResults''"
| "typeSuffix T_ComplianceOperatorResult = ''ComplianceOperatorResult''"
| "typeSuffix T_ComplianceOperatorProfile = ''ComplianceOperatorProfile''"
| "typeSuffix T_ComplianceOperatorRule = ''ComplianceOperatorRule''"
| "typeSuffix T_ComplianceOperatorScanSettingBinding = ''ComplianceOperatorScanSettingBinding''"
| "typeSuffix T_ComplianceOperatorScan = ''ComplianceOperatorScan''"
| "typeSuffix T_VirtualMachineIndexReport = ''VirtualMachineIndexReport''"
| "typeSuffix T_VirtualMachine = ''VirtualMachine''"
| "typeSuffix T_ComplianceOperatorResultV2 = ''ComplianceOperatorResultV2''"
| "typeSuffix T_ComplianceOperatorProfileV2 = ''ComplianceOperatorProfileV2''"
| "typeSuffix T_ComplianceOperatorRuleV2 = ''ComplianceOperatorRuleV2''"
| "typeSuffix T_ComplianceOperatorScanV2 = ''ComplianceOperatorScanV2''"
| "typeSuffix T_ComplianceOperatorScanSettingBindingV2 = ''ComplianceOperatorScanSettingBindingV2''"
| "typeSuffix T_ComplianceOperatorSuiteV2 = ''ComplianceOperatorSuiteV2''"
| "typeSuffix T_ComplianceOperatorRemediationV2 = ''ComplianceOperatorRemediationV2''"

definition typeString :: "resourceType \<Rightarrow> string" where
  "typeString t = ''*central.SensorEvent_'' @ typeSuffix t"

definition typeWithoutPrefix :: "resourceType \<Rightarrow> string" where
  "typeWithoutPrefix t = GetAfter (typeString t) (CHR ''_'')"

definition UnknownEventType :: string where
  "UnknownEventType = ''UnknownEventType''"

definition GetEventTypeWithoutPrefix :: "'c resource option \<Rightarrow> string" where
  "GetEventTypeWithoutPrefix i = (case i of None \<Rightarrow> UnknownEventType | Some r \<Rightarrow> typeWithoutPrefix (TypeOf r))"

definition ParseIDFromKey :: "string \<Rightarrow> string" where
  "ParseIDFromKey key = GetAfter key (CHR '':'')"

definition FormatKey :: "string \<Rightarrow> string \<Rightarrow> string" where
  "FormatKey typ eventID = typ @ '':'' @ eventID"

definition eventKey :: "'c SensorEvent \<Rightarrow> string" where
  "eventKey ev = FormatKey (GetEventTypeWithoutPrefix (ev_Resource ev)) (ev_Id ev)"

text \<open>The getters of a message without an event return the zero values.\<close>

definition GetKeyFromMessage :: "'c MsgFromSensor \<Rightarrow> string" where
  "GetKeyFromMessage msg =
     (case msg_Event msg of
        None \<Rightarrow> FormatKey (GetEventTypeWithoutPrefix (None :: 'c resource option)) []
      | Some ev \<Rightarrow> eventKey ev)"

subsection \<open>Parsed keys\<close>

record Key =
  key_ID :: string
  key_ResourceType :: "resourceType option"

definition deduperTypes :: "resourceType list" where
  "deduperTypes =
     [T_NetworkPolicy, T_Deployment, T_Pod, T_Namespace, T_Secret, T_Node, T_ServiceAccount, T_Role, T_Binding,
      T_NodeInventory, T_IndexReport, T_ProcessIndicator, T_ProviderMetadata, T_OrchestratorMetadata,
      T_ImageIntegration, T_ComplianceOperatorResult, T_ComplianceOperatorResultV2,
      T_ComplianceOperatorProfile, T_ComplianceOperatorProfileV2, T_ComplianceOperatorRemediationV2,
      T_ComplianceOperatorRule, T_ComplianceOperatorRuleV2, T_ComplianceOperatorScanSettingBinding,
      T_ComplianceOperatorScanSettingBindingV2, T_ComplianceOperatorScan, T_ComplianceOperatorScanV2,
      T_ComplianceOperatorSuiteV2, T_AlertResults, T_VirtualMachine, T_VirtualMachineIndexReport]"

datatype keyError = InvalidKeyFormat string | InvalidType string

text \<open>\<open>Key.String\<close>; \<open>None\<close> is the panic on a key whose type is nil.\<close>

definition KeyString :: "Key \<Rightarrow> string option" where
  "KeyString k = map_option (\<lambda>t. FormatKey (GetAfter (typeString t) (CHR ''_'')) (key_ID k)) (key_ResourceType k)"

fun mapTypeIn :: "resourceType list \<Rightarrow> string \<Rightarrow> keyError + resourceType" where
  "mapTypeIn [] typeStr = Inl (InvalidType typeStr)"
| "mapTypeIn (t # ts) typeStr = (if typeStr = typeWithoutPrefix t then Inr t else mapTypeIn ts typeStr)"

definition mapType :: "string \<Rightarrow> keyError + resourceType" where
  "mapType typeStr = mapTypeIn deduperTypes typeStr"

definition KeyFrom :: "string \<Rightarrow> keyError + Key" where
  "KeyFrom v =
     (case splitAll (CHR '':'') v of
        [p0, p1] \<Rightarrow>
          (case mapType p0 of
             Inl err \<Rightarrow> Inl err
           | Inr t \<Rightarrow> Inr \<lparr>key_ID = p1, key_ResourceType = Some t\<rparr>)
      | _ \<Rightarrow> Inl (InvalidKeyFormat v))"

fun ParseKeySlice :: "string list \<Rightarrow> Key list \<times> keyError list" where
  "ParseKeySlice [] = ([], [])"
| "ParseKeySlice (v # vs) =
     (let (result, errList) = ParseKeySlice vs
      in case KeyFrom v of
           Inl err \<Rightarrow> (result, err # errList)
         | Inr parsedKey \<Rightarrow> (parsedKey # result, errList))"

definition ParseDeduperState :: "(string, 64 word) gomap option \<Rightarrow> (Key, 64 word) gomap" where
  "ParseDeduperState state =
     (case state of
        None \<Rightarrow> []
      | Some s \<Rightarrow> fold (\<lambda>(k, v) result.
          case KeyFrom k of Inl err \<Rightarrow> result | Inr parsedKey \<Rightarrow> mput parsedKey v result) s [])"

subsection \<open>Central's deduper\<close>

record entry =
  val :: "64 word"
  processed :: bool

record deduperImpl =
  received :: "(string, entry) gomap"
  successfullyProcessed :: "(string, entry) gomap"

definition NewDeduper :: "int \<Rightarrow> (string, 64 word) gomap \<Rightarrow> deduperImpl" where
  "NewDeduper maxHashes existingHashes =
     \<lparr>received = [],
      successfullyProcessed =
        (if int (length existingHashes) < maxHashes
         then fold (\<lambda>(k, v) m. mput k \<lparr>val = v, processed = False\<rparr> m) existingHashes []
         else [])\<rparr>"

definition skipDedupe :: "'c MsgFromSensor \<Rightarrow> bool" where
  "skipDedupe msg =
     (case msg_Event msg of
        None \<Rightarrow> True
      | Some event \<Rightarrow>
          (case ev_Resource event of
             None \<Rightarrow> True
           | Some (SensorEvent_AlertResults alertResults) \<Rightarrow>
               if IsRuntimeAlertResult alertResults then True
               else if IsAlertResultResolved alertResults then True
               else if AnyAttemptedAlert (ar_Alerts alertResults) then True
               else False
           | Some r \<Rightarrow>
               TypeOf r \<notin> {T_Synced, T_Pod, T_Deployment, T_Namespace, T_NetworkPolicy, T_Secret,
                           T_ServiceAccount, T_Role, T_Binding, T_VirtualMachine}))"

definition getValueNoLock :: "deduperImpl \<Rightarrow> string \<Rightarrow> 64 word option" where
  "getValueNoLock d key =
     (let fromProcessed = (case mget (successfullyProcessed d) key of
            None \<Rightarrow> None | Some prevValue \<Rightarrow> Some (val prevValue))
      in case mget (received d) key of
           Some prevValue \<Rightarrow> if processed prevValue then Some (val prevValue) else fromProcessed
         | None \<Rightarrow> fromProcessed)"

definition shouldReprocess :: "deduperImpl \<Rightarrow> string \<Rightarrow> 64 word \<Rightarrow> bool" where
  "shouldReprocess d hashKey h =
     (case getValueNoLock d hashKey of None \<Rightarrow> False | Some prevValue \<Rightarrow> prevValue = h)"

definition StartSync :: "deduperImpl \<Rightarrow> deduperImpl" where
  "StartSync d =
     \<lparr>received = map (\<lambda>(k, v). (k, v\<lparr>processed := False\<rparr>)) (received d),
      successfullyProcessed = map (\<lambda>(k, v). (k, v\<lparr>processed := False\<rparr>)) (successfullyProcessed d)\<rparr>"

definition RemoveMessage :: "'c MsgFromSensor \<Rightarrow> deduperImpl \<Rightarrow> deduperImpl" where
  "RemoveMessage msg d =
     (if skipDedupe msg then d
      else d\<lparr>received := mdel (GetKeyFromMessage msg) (received d)\<rparr>)"

text \<open>Messages that are not skipped have an event; \<open>eventOf\<close> is \<open>GetEvent\<close> with its zero value.\<close>

definition eventOf :: "'c MsgFromSensor \<Rightarrow> 'c SensorEvent" where
  "eventOf msg = (case msg_Event msg of
     None \<Rightarrow> \<lparr>ev_Id = [], ev_Action = UNSET_ACTION_RESOURCE, ev_SensorHash = None, ev_Resource = None\<rparr>
   | Some ev \<Rightarrow> ev)"

definition MarkSuccessful :: "'c MsgFromSensor \<Rightarrow> deduperImpl \<Rightarrow> deduperImpl" where
  "MarkSuccessful msg d =
     (if skipDedupe msg then d
      else
        let key = GetKeyFromMessage msg; event = eventOf msg in
        if ev_Action event = REMOVE_RESOURCE then
          d\<lparr>successfullyProcessed := mdel key (successfullyProcessed d)\<rparr>
        else
          let d1 = (case mget (received d) key of
                      Some v \<Rightarrow> if val v = GetSensorHash event
                                then d\<lparr>received := mdel key (received d)\<rparr> else d
                    | None \<Rightarrow> d)
          in d1\<lparr>successfullyProcessed :=
                 mput key \<lparr>val = GetSensorHash event, processed = True\<rparr> (successfullyProcessed d1)\<rparr>)"

definition alertResourceKey :: string where
  "alertResourceKey = typeWithoutPrefix T_AlertResults"

definition deploymentResourceKey :: string where
  "deploymentResourceKey = typeWithoutPrefix T_Deployment"

text \<open>
  \<open>ProcessSync\<close>. The loop ranges over the map it deletes from: an entry deleted before the loop
  reaches it is not visited, so each step looks the key up again. The keys are visited in the
  order of the argument \<open>ks\<close>, any order of the keys of the map.
\<close>

definition processSyncStep :: "string \<Rightarrow> deduperImpl \<Rightarrow> deduperImpl" where
  "processSyncStep k d =
     (case mget (successfullyProcessed d) k of
        None \<Rightarrow> d
      | Some v \<Rightarrow>
          if hasPrefix k alertResourceKey then d
          else if \<not> processed v then
            (if (case mget (received d) k of Some r \<Rightarrow> processed r | None \<Rightarrow> False) then d
             else
               let d1 = d\<lparr>successfullyProcessed := mdel k (successfullyProcessed d)\<rparr> in
               if hasPrefix k deploymentResourceKey then
                 let alertKey = FormatKey alertResourceKey (ParseIDFromKey k)
                 in d1\<lparr>successfullyProcessed := mdel alertKey (successfullyProcessed d1)\<rparr>
               else d1)
          else d)"

definition ProcessSync :: "string list \<Rightarrow> deduperImpl \<Rightarrow> deduperImpl" where
  "ProcessSync ks d = fold processSyncStep ks d"

text \<open>
  \<open>ShouldProcess\<close> also stores the hash it computes for an event without one, so it returns
  the message too. \<open>hashEvent\<close> is \<open>HashEvent\<close> of the deduper's hasher.
\<close>

definition setSensorHash :: "64 word \<Rightarrow> 'c MsgFromSensor \<Rightarrow> 'c MsgFromSensor" where
  "setSensorHash h msg = msg\<lparr>msg_Event := map_option (ev_SensorHash_update (\<lambda>_. Some h)) (msg_Event msg)\<rparr>"

definition markSynced :: "string \<Rightarrow> deduperImpl \<Rightarrow> deduperImpl" where
  "markSynced key d =
     (case mget (successfullyProcessed d) key of
        Some v \<Rightarrow> d\<lparr>successfullyProcessed := mput key (v\<lparr>processed := True\<rparr>) (successfullyProcessed d)\<rparr>
      | None \<Rightarrow> d)"

definition checkHash :: "string \<Rightarrow> 'c MsgFromSensor \<Rightarrow> deduperImpl \<Rightarrow> bool \<times> 'c MsgFromSensor \<times> deduperImpl" where
  "checkHash key msg d =
     (let event = eventOf msg in
      if msg_ProcessingAttempt msg > 0 then (shouldReprocess d key (GetSensorHash event), msg, d)
      else if getValueNoLock d key = Some (GetSensorHash event) then (False, msg, d)
      else (True, msg,
            d\<lparr>received := mput key \<lparr>val = GetSensorHash event, processed = True\<rparr> (received d)\<rparr>))"

definition ShouldProcess ::
  "('c SensorEvent \<Rightarrow> 64 word option) \<Rightarrow> 'c MsgFromSensor \<Rightarrow> deduperImpl
     \<Rightarrow> bool \<times> 'c MsgFromSensor \<times> deduperImpl" where
  "ShouldProcess hashEvent msg d =
     (if skipDedupe msg then (True, msg, d)
      else
        let event = eventOf msg; key = GetKeyFromMessage msg in
        if ev_Action event = REMOVE_RESOURCE then
          (True, msg, d\<lparr>received := mdel key (received d),
                        successfullyProcessed := mdel key (successfullyProcessed d)\<rparr>)
        else
          let d1 = (if ev_Action event = SYNC_RESOURCE then markSynced key d else d) in
          case ev_SensorHash event of
            Some _ \<Rightarrow> checkHash key msg d1
          | None \<Rightarrow>
              (case hashEvent event of
                 None \<Rightarrow> (True, msg, d1)
               | Some hashValue \<Rightarrow> checkHash key (setSensorHash hashValue msg) d1))"

definition GetSuccessfulHashes :: "int \<Rightarrow> deduperImpl \<Rightarrow> (string, 64 word) gomap" where
  "GetSuccessfulHashes maxHashes d =
     (let copied = map (\<lambda>(k, v). (k, val v)) (successfullyProcessed d)
      in if int (length copied) > maxHashes then [] else copied)"

subsection \<open>One deduper per cluster\<close>

text \<open>
  The manager's map of dedupers. The datastore is the map of stored hashes per cluster; an upsert
  that fails (\<open>upsertFails\<close>) changes nothing. What a read of the datastore returned is an
  argument of \<open>GetDeduper\<close>: \<open>None\<close> when no hashes exist (or could be read).
\<close>

record managerImpl =
  dedupers :: "(string, deduperImpl) gomap"

definition NewManager :: managerImpl where
  "NewManager = \<lparr>dedupers = []\<rparr>"

definition flushHashes ::
  "int \<Rightarrow> (string \<Rightarrow> bool) \<Rightarrow> managerImpl \<Rightarrow> (string, (string, 64 word) gomap) gomap
     \<Rightarrow> (string, (string, 64 word) gomap) gomap" where
  "flushHashes maxHashes upsertFails m datastore =
     (let clusters = mkeys (dedupers m)
      in fold (\<lambda>cluster ds.
           case mget (dedupers m) cluster of
             None \<Rightarrow> ds
           | Some deduper \<Rightarrow>
               if upsertFails cluster then ds
               else mput cluster (GetSuccessfulHashes maxHashes deduper) ds) clusters datastore)"

definition getDeduper :: "managerImpl \<Rightarrow> string \<Rightarrow> deduperImpl option" where
  "getDeduper m clusterID = mget (dedupers m) clusterID"

text \<open>Between the read of the map and the second lock another connection may have added a deduper.\<close>

definition addDeduper :: "deduperImpl \<Rightarrow> string \<Rightarrow> managerImpl \<Rightarrow> deduperImpl \<times> managerImpl" where
  "addDeduper d clusterID m =
     (case mget (dedupers m) clusterID of
        Some existingDeduper \<Rightarrow> (existingDeduper, m)
      | None \<Rightarrow> (d, m\<lparr>dedupers := mput clusterID d (dedupers m)\<rparr>))"

definition GetDeduper ::
  "int \<Rightarrow> (string, 64 word) gomap option \<Rightarrow> string \<Rightarrow> managerImpl \<Rightarrow> deduperImpl \<times> managerImpl" where
  "GetDeduper maxHashes stored clusterID m =
     (case getDeduper m clusterID of
        Some d \<Rightarrow> (d, m)
      | None \<Rightarrow>
          (case stored of
             None \<Rightarrow> addDeduper (NewDeduper maxHashes []) clusterID m
           | Some hashes \<Rightarrow> addDeduper (NewDeduper maxHashes hashes) clusterID m))"

definition managerDelete ::
  "string \<Rightarrow> managerImpl \<Rightarrow> (string, (string, 64 word) gomap) gomap
     \<Rightarrow> managerImpl \<times> (string, (string, 64 word) gomap) gomap" where
  "managerDelete clusterID m datastore =
     (m\<lparr>dedupers := mdel clusterID (dedupers m)\<rparr>, mdel clusterID datastore)"

subsection \<open>The deduping stream of the Sensor\<close>

record deduper =
  lastSent :: "(Key, 64 word) gomap"
  centralState :: "string goset"
  unchangedIDs :: "string goset"
  synced :: bool
  appendUnchangedIDs :: bool

text \<open>What the stream calls: the wrapped stream (its error, if any), the hasher, and whether Sensor is
  managed by Central.\<close>

record 'c streamEnv =
  streamSend :: "'c MsgFromSensor \<Rightarrow> string option"
  hasher :: "'c SensorEvent \<Rightarrow> 64 word option"
  IsCentralManaged :: bool

fun centralOriginalState :: "Key list \<Rightarrow> string goset \<Rightarrow> string goset option" where
  "centralOriginalState [] s = Some s"
| "centralOriginalState (k # ks) s =
     (case KeyString k of None \<Rightarrow> None | Some str \<Rightarrow> centralOriginalState ks (fst (setAdd str s)))"

definition NewDedupingMessageStream :: "(Key, 64 word) gomap option \<Rightarrow> bool \<Rightarrow> deduper option" where
  "NewDedupingMessageStream deduperState appendUnchanged =
     (let state = (case deduperState of None \<Rightarrow> [] | Some s \<Rightarrow> s)
      in map_option (\<lambda>cs. \<lparr>lastSent = state, centralState = cs, unchangedIDs = newSet [], synced = False,
                           appendUnchangedIDs = appendUnchanged\<rparr>)
           (centralOriginalState (mkeys state) (newSet [])))"

definition GetAlertResultsStage :: "'c SensorEvent \<Rightarrow> LifecycleStage" where
  "GetAlertResultsStage event =
     (case ev_Resource event of Some (SensorEvent_AlertResults ar) \<Rightarrow> ar_Stage ar | _ \<Rightarrow> DEPLOY)"

definition skipDeduping :: "'c SensorEvent \<Rightarrow> bool" where
  "skipDeduping event \<longleftrightarrow>
     (let typ = map_option TypeOf (ev_Resource event) in
      typ = Some T_ProcessIndicator \<or>
      GetAlertResultsStage event = RUNTIME \<or>
      typ = Some T_NodeInventory \<or>
      typ = Some T_IndexReport \<or>
      typ = Some T_VirtualMachine \<or>
      typ = Some T_VirtualMachineIndexReport)"

definition isSynced :: "'c SensorEvent \<Rightarrow> bool" where
  "isSynced event \<longleftrightarrow> map_option TypeOf (ev_Resource event) = Some T_Synced"

definition sensorKey :: "'c SensorEvent \<Rightarrow> Key" where
  "sensorKey event = \<lparr>key_ID = ev_Id event, key_ResourceType = map_option TypeOf (ev_Resource event)\<rparr>"

text \<open>
  \<open>Send\<close>: its error, the message if it was passed to the wrapped stream, and the new state. The read of
  a missing key of \<open>lastSent\<close> gives the hash 0.
\<close>

definition forward ::
  "'c streamEnv \<Rightarrow> 'c MsgFromSensor \<Rightarrow> deduper \<Rightarrow> string option \<times> 'c MsgFromSensor option \<times> deduper" where
  "forward e msg d = (streamSend e msg, Some msg, d)"

definition appendUnchanged :: "'c MsgFromSensor \<Rightarrow> deduper \<Rightarrow> 'c MsgFromSensor \<times> deduper" where
  "appendUnchanged msg d =
     (if appendUnchangedIDs d \<and> isSynced (eventOf msg)
      then (msg\<lparr>msg_Event := map_option (ev_Resource_update
                  (\<lambda>_. Some (SensorEvent_Synced (setAsSlice (unchangedIDs d))))) (msg_Event msg)\<rparr>,
            d\<lparr>synced := True\<rparr>)
      else (msg, d))"

definition lastSentHash :: "deduper \<Rightarrow> Key \<Rightarrow> 64 word" where
  "lastSentHash d key = (case mget (lastSent d) key of None \<Rightarrow> 0 | Some h \<Rightarrow> h)"

definition Send ::
  "'c streamEnv \<Rightarrow> 'c MsgFromSensor \<Rightarrow> deduper \<Rightarrow> string option \<times> 'c MsgFromSensor option \<times> deduper" where
  "Send e msg d =
     (if msg_Event msg = None \<or> skipDeduping (eventOf msg) then forward e msg d
      else
        let (msg1, d1) = appendUnchanged msg d; event = eventOf msg1; key = sensorKey event in
        if IsCentralManaged e \<and> map_option TypeOf (ev_Resource event) = Some T_ImageIntegration then (None, None, d1)
        else if ev_Action event = REMOVE_RESOURCE then
          (let priorLen = length (lastSent d1); d2 = d1\<lparr>lastSent := mdel key (lastSent d1)\<rparr>
           in if priorLen = length (lastSent d2) then (None, None, d2) else forward e msg1 d2)
        else
          case hasher e event of
            Some hashValue \<Rightarrow>
              if lastSentHash d1 key = hashValue then
                (None, None,
                 if appendUnchangedIDs d1 \<and> ev_Action event = SYNC_RESOURCE
                 then d1\<lparr>unchangedIDs := fst (setAddMatching (setContains (centralState d1)) [GetKeyFromMessage msg1]
                                               (unchangedIDs d1))\<rparr>
                 else d1)
              else forward e (setSensorHash hashValue msg1) (d1\<lparr>lastSent := mput key hashValue (lastSent d1)\<rparr>)
          | None \<Rightarrow> forward e msg1 d1)"

end
