(* ===== verification/Deduping_Queue.thy ===== *)
theory Deduping_Queue
  imports Go_Prelude
begin

text \<open>
  The generic queue of \<open>pkg/dedupingqueue/dedupingqueue.go\<close>: a linked list with an index from
  the key of an item to its list element, in which pushing an item whose key is queued replaces
  the queued item at its place.

  A list element is a pair of its identity and its value, since the index holds pointers to
  elements. The key of an item (\<open>GetDedupeKey\<close>), the zero value of the key type, and \<open>MergeFrom\<close>
  are arguments; an item type without \<open>MergeFrom\<close> passes \<open>\<lambda>item old. item\<close>. Metrics are left out.
\<close>

subsection \<open>Linked lists\<close>

text \<open>\<open>InsertBefore\<close> of \<open>container/list\<close> returns nil and changes nothing when the mark is not an
  element of the list; \<open>Remove\<close> does nothing then.\<close>

type_synonym 'i element = "nat \<times> 'i"

fun listInsertBefore :: "'i element \<Rightarrow> 'i element \<Rightarrow> 'i element list \<Rightarrow> 'i element option \<times> 'i element list" where
  "listInsertBefore x mark [] = (None, [])"
| "listInsertBefore x mark (e # es) =
     (if fst e = fst mark then (Some x, x # e # es)
      else let (r, es1) = listInsertBefore x mark es in (r, e # es1))"

definition listRemove :: "'i element \<Rightarrow> 'i element list \<Rightarrow> 'i element list" where
  "listRemove x es = filter (\<lambda>e. fst e \<noteq> fst x) es"

subsection \<open>The queue\<close>

text \<open>\<open>nextElement\<close> is the identity of the next element to be allocated. A nil pointer in the index is
  \<open>None\<close>. The result \<open>None\<close> of \<open>Push\<close> is the panic on reading the value of a nil element.\<close>

record ('k, 'i) DedupingQueue =
  notEmpty :: bool
  queue :: "'i element list"
  indexer :: "('k, 'i element option) gomap"
  nextElement :: nat

definition NewDedupingQueue :: "('k, 'i) DedupingQueue" where
  "NewDedupingQueue = \<lparr>notEmpty = False, queue = [], indexer = [], nextElement = 0\<rparr>"

definition Push ::
  "('i \<Rightarrow> 'k) \<Rightarrow> 'k \<Rightarrow> ('i \<Rightarrow> 'i \<Rightarrow> 'i) \<Rightarrow> 'i \<Rightarrow> ('k, 'i) DedupingQueue \<Rightarrow> ('k, 'i) DedupingQueue option" where
  "Push getKey zero mergeFrom item q =
     (let key = getKey item in
      if key = zero then
        Some (q\<lparr>queue := queue q @ [(nextElement q, item)], nextElement := Suc (nextElement q), notEmpty := True\<rparr>)
      else case mget (indexer q) key of
        Some None \<Rightarrow> None
      | Some (Some oldItem) \<Rightarrow>
          let item1 = mergeFrom item (snd oldItem);
              (msgInserted, q1) = listInsertBefore (nextElement q, item1) oldItem (queue q)
          in Some (q\<lparr>queue := listRemove oldItem q1, indexer := mput key msgInserted (indexer q),
                     nextElement := Suc (nextElement q), notEmpty := True\<rparr>)
      | None \<Rightarrow>
          Some (q\<lparr>queue := queue q @ [(nextElement q, item)],
                  indexer := mput key (Some (nextElement q, item)) (indexer q),
                  nextElement := Suc (nextElement q), notEmpty := True\<rparr>))"

definition pull ::
  "('i \<Rightarrow> 'k) \<Rightarrow> 'k \<Rightarrow> ('k, 'i) DedupingQueue \<Rightarrow> 'i option \<times> ('k, 'i) DedupingQueue" where
  "pull getKey zero q =
     (case queue q of
        [] \<Rightarrow> (None, q)
      | (_, ret) # rest \<Rightarrow>
          (let key = getKey ret;
               q1 = (if key \<noteq> zero then q\<lparr>queue := rest, indexer := mdel key (indexer q)\<rparr>
                     else q\<lparr>queue := rest\<rparr>)
           in (Some ret, if rest = [] then q1\<lparr>notEmpty := False\<rparr> else q1)))"

text \<open>
  \<open>PullBlocking\<close> as the relation between a queue and the possible outcomes, since the \<open>select\<close> takes
  any ready case. It has no outcome exactly when the call blocks.
\<close>

inductive PullBlocking ::
  "('i \<Rightarrow> 'k) \<Rightarrow> 'k \<Rightarrow> bool \<Rightarrow> ('k, 'i) DedupingQueue \<Rightarrow> 'i option \<Rightarrow> ('k, 'i) DedupingQueue \<Rightarrow> bool"
  for getKey :: "'i \<Rightarrow> 'k" and zero :: 'k and stopped :: bool where
  PullStopped: "stopped \<Longrightarrow> PullBlocking getKey zero stopped q None q"
| PullItem: "notEmpty q \<Longrightarrow> pull getKey zero q = (Some i, q1) \<Longrightarrow> PullBlocking getKey zero stopped q (Some i) q1"
| PullAgain: "notEmpty q \<Longrightarrow> pull getKey zero q = (None, q1) \<Longrightarrow> PullBlocking getKey zero stopped q1 r q2 \<Longrightarrow>
    PullBlocking getKey zero stopped q r q2"

inductive_cases PullBlockingE: "PullBlocking getKey zero stopped q r q1"

subsection \<open>What the queue promises\<close>

text \<open>The queue as the list of its items: pushing replaces the item with the same key, or appends.\<close>

fun replaceKeyed :: "('i \<Rightarrow> 'k) \<Rightarrow> ('i \<Rightarrow> 'i \<Rightarrow> 'i) \<Rightarrow> 'i \<Rightarrow> 'i list \<Rightarrow> 'i list" where
  "replaceKeyed getKey mergeFrom item [] = [item]"
| "replaceKeyed getKey mergeFrom item (x # xs) =
     (if getKey x = getKey item then mergeFrom item x # xs
      else x # replaceKeyed getKey mergeFrom item xs)"

definition specPush :: "('i \<Rightarrow> 'k) \<Rightarrow> 'k \<Rightarrow> ('i \<Rightarrow> 'i \<Rightarrow> 'i) \<Rightarrow> 'i \<Rightarrow> 'i list \<Rightarrow> 'i list" where
  "specPush getKey zero mergeFrom item xs =
     (if getKey item = zero then xs @ [item] else replaceKeyed getKey mergeFrom item xs)"

definition items :: "('k, 'i) DedupingQueue \<Rightarrow> 'i list" where
  "items q = map snd (queue q)"

definition keyedItems :: "('i \<Rightarrow> 'k) \<Rightarrow> 'k \<Rightarrow> 'i list \<Rightarrow> 'i list" where
  "keyedItems getKey zero xs = filter (\<lambda>i. getKey i \<noteq> zero) xs"

definition queue_inv :: "('i \<Rightarrow> 'k) \<Rightarrow> 'k \<Rightarrow> ('k, 'i) DedupingQueue \<Rightarrow> bool" where
  "queue_inv getKey zero q \<longleftrightarrow>
     distinct (map fst (queue q)) \<and> (\<forall>e \<in> set (queue q). fst e < nextElement q) \<and>
     distinct (map getKey (keyedItems getKey zero (items q))) \<and>
     (\<forall>k r. mget (indexer q) k = Some r \<longleftrightarrow>
        k \<noteq> zero \<and> (\<exists>e \<in> set (queue q). r = Some e \<and> getKey (snd e) = k)) \<and>
     (notEmpty q \<longleftrightarrow> queue q \<noteq> [])"

text \<open>The contract a client of such a queue relies on, and what follows from it.\<close>

locale keyed_fifo =
  fixes inv :: "'q \<Rightarrow> bool" and abs :: "'q \<Rightarrow> 'i list"
    and push :: "'i \<Rightarrow> 'q \<Rightarrow> 'q option" and pop :: "'q \<Rightarrow> 'i option \<times> 'q"
    and key :: "'i \<Rightarrow> 'k" and zero :: 'k
  assumes inv_distinct: "inv q \<Longrightarrow> distinct (map key (keyedItems key zero (abs q)))"
    and push_spec: "inv q \<Longrightarrow> \<exists>q1. push i q = Some q1 \<and> inv q1 \<and> abs q1 = specPush key zero (\<lambda>i _. i) i (abs q)"
    and pop_spec: "inv q \<Longrightarrow> abs q = x # xs \<Longrightarrow> \<exists>q1. pop q = (Some x, q1) \<and> inv q1 \<and> abs q1 = xs"
    and pop_empty: "inv q \<Longrightarrow> abs q = [] \<Longrightarrow> pop q = (None, q)"
begin

lemma keyed_unique:
  assumes "inv q" "x \<in> set (abs q)" "y \<in> set (abs q)" "key x = key y" "key x \<noteq> zero"
  shows "x = y"
proof -
  from inv_distinct [OF assms(1)] have "inj_on key (set (keyedItems key zero (abs q)))"
    by (simp add: distinct_map)
  moreover have "x \<in> set (keyedItems key zero (abs q))" "y \<in> set (keyedItems key zero (abs q))"
    using assms(2-5) by (simp_all add: keyedItems_def)
  ultimately show ?thesis using assms(4) by (meson inj_onD)
qed

lemma set_replaceKeyed_subset: "set (replaceKeyed f (\<lambda>i _. i) i xs) \<subseteq> insert i (set xs)"
  by (induction xs) auto

lemma in_replaceKeyed: "i \<in> set (replaceKeyed f (\<lambda>i _. i) i xs)"
  by (induction xs) auto

lemma replaceKeyed_other: "f x \<noteq> f i \<Longrightarrow> x \<in> set (replaceKeyed f (\<lambda>i _. i) i xs) \<longleftrightarrow> x \<in> set xs"
  by (induction xs) auto

lemma push_members:
  assumes "inv q" "key i \<noteq> zero" "push i q = Some q1"
  shows "inv q1" and "x \<in> set (abs q1) \<longleftrightarrow> x = i \<or> key x \<noteq> key i \<and> x \<in> set (abs q)"
proof -
  from assms push_spec [of q i] have q1: "inv q1" "abs q1 = replaceKeyed key (\<lambda>i _. i) i (abs q)"
    by (auto simp: specPush_def)
  then have i: "i \<in> set (abs q1)" by (simp add: in_replaceKeyed)
  show "inv q1" by fact
  show "x \<in> set (abs q1) \<longleftrightarrow> x = i \<or> key x \<noteq> key i \<and> x \<in> set (abs q)"
  proof (cases "key x = key i")
    case True
    then show ?thesis using keyed_unique [OF q1(1) _ i] i assms(2) by auto
  next
    case False
    then show ?thesis using q1 replaceKeyed_other [of key x i "abs q"] by auto
  qed
qed

lemma pop_members:
  assumes "inv q" "pop q = (Some x, q1)" "\<And>y. y \<in> set (abs q) \<Longrightarrow> key y \<noteq> zero"
  shows "inv q1" and "x \<in> set (abs q)" and "y \<in> set (abs q1) \<longleftrightarrow> y \<noteq> x \<and> y \<in> set (abs q)"
proof -
  from assms(1,2) pop_empty have "abs q \<noteq> []" by force
  then obtain z xs where xs: "abs q = z # xs" by (cases "abs q") auto
  from assms(1,2) pop_spec [OF assms(1) xs] have q1: "inv q1" "x = z" "abs q1 = xs" by auto
  show "inv q1" by fact
  show "x \<in> set (abs q)" using q1 xs by simp
  have "distinct (abs q)"
    using inv_distinct [OF assms(1)] assms(3) unfolding keyedItems_def
    by (simp add: distinct_map filter_True)
  then show "y \<in> set (abs q1) \<longleftrightarrow> y \<noteq> x \<and> y \<in> set (abs q)" using q1 xs by auto
qed

end

subsection \<open>The queue keeps its promises\<close>

lemma listInsertBefore_at:
  "fst mark \<notin> fst ` set pre \<Longrightarrow> listInsertBefore x mark (pre @ mark # post) = (Some x, pre @ x # mark # post)"
  by (induction pre) auto

lemma listRemove_at:
  "fst mark \<notin> fst ` set pre \<Longrightarrow> fst mark \<notin> fst ` set post \<Longrightarrow> fst x \<noteq> fst mark \<Longrightarrow>
   listRemove mark (pre @ x # mark # post) = pre @ x # post"
proof -
  assume "fst mark \<notin> fst ` set pre" "fst mark \<notin> fst ` set post" and x: "fst x \<noteq> fst mark"
  then have "filter (\<lambda>e. fst e \<noteq> fst mark) pre = pre" "filter (\<lambda>e. fst e \<noteq> fst mark) post = post"
    by (auto simp: filter_id_conv image_iff)
  with x show ?thesis by (simp add: listRemove_def)
qed

lemma replaceKeyed_at:
  "getKey item \<notin> getKey ` set pre \<Longrightarrow> getKey old = getKey item \<Longrightarrow>
   replaceKeyed getKey mergeFrom item (pre @ old # post) = pre @ mergeFrom item old # post"
  by (induction pre) auto

lemma replaceKeyed_new:
  "getKey item \<notin> getKey ` set xs \<Longrightarrow> replaceKeyed getKey mergeFrom item xs = xs @ [item]"
  by (induction xs) auto

lemma queue_inv_new: "queue_inv getKey zero NewDedupingQueue"
  by (simp add: queue_inv_def NewDedupingQueue_def items_def keyedItems_def)

lemma Push_unkeyed:
  assumes inv: "queue_inv getKey zero q" and "getKey item = zero"
  shows "\<exists>q1. Push getKey zero mergeFrom item q = Some q1 \<and> queue_inv getKey zero q1 \<and> items q1 = items q @ [item]"
  using assms by (auto simp: Push_def queue_inv_def items_def keyedItems_def)

lemma Push_new_key:
  assumes inv: "queue_inv getKey zero q" and k: "getKey item \<noteq> zero"
    and new: "mget (indexer q) (getKey item) = None"
  shows "\<exists>q1. Push getKey zero mergeFrom item q = Some q1 \<and> queue_inv getKey zero q1 \<and> items q1 = items q @ [item]"
    and "getKey item \<notin> getKey ` set (items q)"
proof -
  from inv have idx: "mget (indexer q) k = Some r \<longleftrightarrow>
      k \<noteq> zero \<and> (\<exists>e \<in> set (queue q). r = Some e \<and> getKey (snd e) = k)" for k r
    unfolding queue_inv_def by blast
  have other: "getKey (snd e) \<noteq> getKey item" if "e \<in> set (queue q)" for e
    using idx [of "getKey item" "Some e"] new k that by auto
  then show notin: "getKey item \<notin> getKey ` set (items q)" by (force simp: items_def)
  let ?q1 = "q\<lparr>queue := queue q @ [(nextElement q, item)],
               indexer := mput (getKey item) (Some (nextElement q, item)) (indexer q),
               nextElement := Suc (nextElement q), notEmpty := True\<rparr>"
  have "mget (indexer ?q1) k' = Some r \<longleftrightarrow>
      k' \<noteq> zero \<and> (\<exists>e \<in> set (queue ?q1). r = Some e \<and> getKey (snd e) = k')" for k' r
    using idx [of k' r] k other by (cases "k' = getKey item") auto
  moreover have "distinct (map getKey (keyedItems getKey zero (items ?q1)))"
    using inv notin by (auto simp: queue_inv_def items_def keyedItems_def)
  ultimately have "queue_inv getKey zero ?q1"
    using inv unfolding queue_inv_def by auto
  then show "\<exists>q1. Push getKey zero mergeFrom item q = Some q1 \<and> queue_inv getKey zero q1 \<and> items q1 = items q @ [item]"
    using k new by (simp add: Push_def items_def)
qed

lemma Push_old_key:
  assumes inv: "queue_inv getKey zero q" and k: "getKey item \<noteq> zero"
    and old: "mget (indexer q) (getKey item) = Some r"
    and merge: "\<And>a b. getKey (mergeFrom a b) = getKey a"
  shows "\<exists>q1. Push getKey zero mergeFrom item q = Some q1 \<and> queue_inv getKey zero q1 \<and>
    items q1 = replaceKeyed getKey mergeFrom item (items q)"
proof -
  from inv have idx: "mget (indexer q) k = Some r \<longleftrightarrow>
      k \<noteq> zero \<and> (\<exists>e \<in> set (queue q). r = Some e \<and> getKey (snd e) = k)" for k r
    unfolding queue_inv_def by blast
  from old idx obtain e where e: "e \<in> set (queue q)" "r = Some e" "getKey (snd e) = getKey item" by blast
  then obtain pre post where q: "queue q = pre @ e # post" by (meson split_list)
  from inv q have ids: "fst e \<notin> fst ` set pre" "fst e \<notin> fst ` set post" "fst e < nextElement q"
    "distinct (map fst (pre @ post))" "\<forall>x \<in> set (pre @ post). fst x < nextElement q"
    by (auto simp: queue_inv_def)
  from inv q e(3) k have keys: "getKey item \<notin> getKey ` snd ` set pre" "getKey item \<notin> getKey ` snd ` set post"
    "distinct (map getKey (keyedItems getKey zero (map snd (pre @ post))))"
    by (auto simp: queue_inv_def items_def keyedItems_def)
  let ?x = "(nextElement q, mergeFrom item (snd e))"
  let ?q1 = "q\<lparr>queue := pre @ ?x # post, indexer := mput (getKey item) (Some ?x) (indexer q),
               nextElement := Suc (nextElement q), notEmpty := True\<rparr>"
  have "Push getKey zero mergeFrom item q = Some ?q1"
    using k old e q ids by (simp add: Push_def Let_def listInsertBefore_at listRemove_at)
  moreover have "items ?q1 = replaceKeyed getKey mergeFrom item (items q)"
    using q e(3) keys by (simp add: items_def replaceKeyed_at)
  moreover have "mget (indexer ?q1) k' = Some r' \<longleftrightarrow>
      k' \<noteq> zero \<and> (\<exists>e \<in> set (queue ?q1). r' = Some e \<and> getKey (snd e) = k')" for k' r'
  proof (cases "k' = getKey item")
    case True
    have "getKey (snd x) \<noteq> getKey item" if "x \<in> set pre \<union> set post" for x
      using keys that by (auto simp: image_iff)
    with True k merge show ?thesis by (auto simp: image_iff)
  next
    case False
    with idx [of k' r'] q e(3) merge show ?thesis by auto
  qed
  moreover have "distinct (map fst (queue ?q1))" "\<forall>e \<in> set (queue ?q1). fst e < nextElement ?q1"
    using ids by (auto simp: less_SucI dest: bspec)
  moreover have "distinct (map getKey (keyedItems getKey zero (items ?q1)))"
    using keys k merge by (auto simp: items_def keyedItems_def)
  ultimately show ?thesis unfolding queue_inv_def by auto
qed

lemma Push_refines_spec:
  assumes inv: "queue_inv getKey zero q" and merge: "\<And>a b. getKey (mergeFrom a b) = getKey a"
  shows "\<exists>q1. Push getKey zero mergeFrom item q = Some q1 \<and> queue_inv getKey zero q1 \<and>
    items q1 = specPush getKey zero mergeFrom item (items q)"
proof (cases "getKey item = zero")
  case True
  then show ?thesis using Push_unkeyed [OF inv] by (simp add: specPush_def)
next
  case False
  then have spec: "specPush getKey zero mergeFrom item (items q) = replaceKeyed getKey mergeFrom item (items q)"
    by (simp add: specPush_def)
  show ?thesis
  proof (cases "mget (indexer q) (getKey item)")
    case None
    have "replaceKeyed getKey mergeFrom item (items q) = items q @ [item]"
      by (rule replaceKeyed_new) (rule Push_new_key(2) [OF inv False None])
    with spec have eq: "specPush getKey zero mergeFrom item (items q) = items q @ [item]" by (rule trans)
    show ?thesis unfolding eq by (rule Push_new_key(1) [OF inv False None])
  next
    case (Some r)
    show ?thesis unfolding spec by (rule Push_old_key [OF inv False Some]) (rule merge)
  qed
qed

lemma pull_empty: "items q = [] \<Longrightarrow> pull getKey zero q = (None, q)"
  by (simp add: items_def pull_def)

lemma pull_refines_spec:
  assumes inv: "queue_inv getKey zero q" and q: "items q = x # xs"
  shows "\<exists>q1. pull getKey zero q = (Some x, q1) \<and> queue_inv getKey zero q1 \<and> items q1 = xs"
proof -
  from inv have idx: "mget (indexer q) k = Some r \<longleftrightarrow>
      k \<noteq> zero \<and> (\<exists>e \<in> set (queue q). r = Some e \<and> getKey (snd e) = k)" for k r
    unfolding queue_inv_def by blast
  from q obtain n es where es: "queue q = (n, x) # es" "map snd es = xs"
    unfolding items_def by (cases "queue q") auto
  let ?q1 = "snd (pull getKey zero q)"
  have eq: "pull getKey zero q = (Some x, ?q1)" "queue ?q1 = es" "nextElement ?q1 = nextElement q"
    "notEmpty ?q1 \<longleftrightarrow> es \<noteq> []"
    using es inv by (auto simp: pull_def Let_def queue_inv_def)
  have d: "distinct (map getKey (keyedItems getKey zero (x # xs)))"
    using inv q by (simp add: queue_inv_def)
  have other: "getKey (snd e) \<noteq> getKey x \<or> getKey x = zero" if "e \<in> set es" for e
  proof -
    have "snd e \<in> set xs" using that es(2) by force
    with d show ?thesis by (auto simp: keyedItems_def image_iff split: if_splits)
  qed
  have "mget (indexer ?q1) k = Some r \<longleftrightarrow>
      k \<noteq> zero \<and> (\<exists>e \<in> set es. r = Some e \<and> getKey (snd e) = k)" for k r
  proof (cases "getKey x = zero")
    case True
    then have "indexer ?q1 = indexer q" using es by (simp add: pull_def Let_def)
    with True idx [of k r] es show ?thesis by auto
  next
    case False
    then have "indexer ?q1 = mdel (getKey x) (indexer q)" using es by (simp add: pull_def Let_def)
    with False idx [of k r] es other show ?thesis by (cases "k = getKey x") auto
  qed
  moreover have "distinct (map getKey (keyedItems getKey zero xs))"
    using d by (auto simp: keyedItems_def split: if_splits)
  ultimately have "queue_inv getKey zero ?q1"
    using inv es eq unfolding queue_inv_def items_def by auto
  with eq es show ?thesis by (metis items_def)
qed

lemma queue_inv_distinct:
  "queue_inv getKey zero q \<Longrightarrow> distinct (map getKey (keyedItems getKey zero (items q)))"
  by (simp add: queue_inv_def)

interpretation dq: keyed_fifo "queue_inv getKey zero" items "Push getKey zero (\<lambda>i _. i)" "pull getKey zero" getKey zero
  for getKey :: "'i \<Rightarrow> 'k" and zero :: 'k
  by unfold_locales
    (rule queue_inv_distinct Push_refines_spec pull_refines_spec pull_empty; simp)+

text \<open>\<open>PullBlocking\<close> on a well-formed queue.\<close>

lemma PullBlocking_iff:
  assumes inv: "queue_inv getKey zero q"
  shows "PullBlocking getKey zero stopped q r q1 \<longleftrightarrow>
    stopped \<and> r = None \<and> q1 = q \<or> items q \<noteq> [] \<and> (r, q1) = pull getKey zero q"
proof -
  have ne: "notEmpty q \<longleftrightarrow> items q \<noteq> []" using inv by (simp add: queue_inv_def items_def)
  show ?thesis
  proof (cases "items q")
    case Nil
    with ne show ?thesis by (auto elim: PullBlockingE intro: PullStopped)
  next
    case (Cons x xs)
    from pull_refines_spec [OF inv Cons] obtain q2 where "pull getKey zero q = (Some x, q2)" by auto
    with Cons ne show ?thesis by (auto elim: PullBlockingE intro: PullStopped PullItem)
  qed
qed

lemma PullBlocking_blocks_iff:
  assumes inv: "queue_inv getKey zero q"
  shows "(\<nexists>r q1. PullBlocking getKey zero stopped q r q1) \<longleftrightarrow> items q = [] \<and> \<not> stopped"
  by (auto simp: PullBlocking_iff [OF inv]) (metis surj_pair)

subsection \<open>Properties\<close>

text \<open>C33. The queue refines the list of its items: starting from the empty queue, pushing never
  panics and replaces the queued item of the same key at its place or appends; pulling takes the
  first item; and a blocking pull waits exactly when there is nothing to take and no stop signal.
  All keep the agreement of the index, the list and the signal.\<close>

theorem DedupingQueue_refines_list:
  assumes inv: "queue_inv getKey zero q"
    and merge: "\<forall>a b. getKey (mergeFrom a b) = getKey a"
  shows "queue_inv getKey zero NewDedupingQueue \<and>
    (\<exists>q1. Push getKey zero mergeFrom item q = Some q1 \<and> queue_inv getKey zero q1 \<and>
       items q1 = specPush getKey zero mergeFrom item (items q)) \<and>
    (case items q of
        [] \<Rightarrow> pull getKey zero q = (None, q)
      | x # xs \<Rightarrow> \<exists>q1. pull getKey zero q = (Some x, q1) \<and> queue_inv getKey zero q1 \<and> items q1 = xs) \<and>
    ((\<nexists>r q1. PullBlocking getKey zero stopped q r q1) \<longleftrightarrow> items q = [] \<and> \<not> stopped) \<and>
    (\<forall>r q1. PullBlocking getKey zero stopped q r q1 \<longrightarrow> queue_inv getKey zero q1)"
proof -
  have pull: "case items q of
        [] \<Rightarrow> pull getKey zero q = (None, q)
      | x # xs \<Rightarrow> \<exists>q1. pull getKey zero q = (Some x, q1) \<and> queue_inv getKey zero q1 \<and> items q1 = xs"
    using pull_empty [of q] pull_refines_spec [OF inv] by (simp split: list.split)
  have blocking: "\<forall>r q1. PullBlocking getKey zero stopped q r q1 \<longrightarrow> queue_inv getKey zero q1"
    using pull inv by (auto simp: PullBlocking_iff [OF inv] split: list.splits)
  have "\<exists>q1. Push getKey zero mergeFrom item q = Some q1 \<and> queue_inv getKey zero q1 \<and>
       items q1 = specPush getKey zero mergeFrom item (items q)"
    by (rule Push_refines_spec [OF inv]) (rule merge [rule_format])
  then show ?thesis
    by (intro conjI queue_inv_new pull blocking PullBlocking_blocks_iff [OF inv])
qed

theorem DedupingQueue_refines_list_witness:
  "\<exists>q1. Push fst (0 :: nat) (\<lambda>i old. (fst i, snd i + snd old)) (7, 1 :: nat)
     \<lparr>notEmpty = True, queue = [(0, (7, 2)), (1, (8, 5))], indexer = [(7, Some (0, (7, 2))), (8, Some (1, (8, 5)))],
      nextElement = 2\<rparr> = Some q1 \<and> items q1 = [(7, 3), (8, 5)]"
proof -
  let ?q = "\<lparr>notEmpty = True, queue = [(0, (7, 2)), (1, (8, 5))],
     indexer = [(7, Some (0, (7, 2))), (8, Some (1, (8, 5)))], nextElement = 2\<rparr> :: (nat, nat \<times> nat) DedupingQueue"
  have "queue_inv fst 0 ?q" by (auto simp: queue_inv_def items_def keyedItems_def)
  from DedupingQueue_refines_list [OF this, of "\<lambda>i old. (fst i, snd i + snd old)" "(7, 1)" False]
  show ?thesis by (auto simp: specPush_def items_def)
qed

end
