(* ===== verification/Sensor_Connection.thy ===== *)
theory Sensor_Connection
  imports Event_Deduper Deduping_Queue
begin

text \<open>
  How Central handles the events of a Sensor connection: the keys a message gets
  (\<open>central/sensor/service/connection/connection_impl.go\<close>), the handler that deduplicates events, records
  them for reconciliation and distributes them to sharded worker queues (\<open>sensorevents.go\<close>,
  \<open>worker_queue.go\<close>), the reconciliation stores (\<open>pipeline/reconciliation\<close>), the pipeline that runs
  the fragments (\<open>pipeline/all/pipeline.go\<close>) and the limit on initial synchronizations
  (\<open>initsync_manager.go\<close>).

  Arguments stand for what the code calls: the hash of an event, the existing identifiers each
  fragment finds in its datastore, and what a fragment's run returns. \<open>None\<close> as the result of an
  operation is a panic. Metrics, logging and contexts are left out.
\<close>

subsection \<open>Keys of a message\<close>

definition shallDedupe :: "'c MsgFromSensor \<Rightarrow> bool" where
  "shallDedupe msg =
     (let ev = eventOf msg; typ = map_option TypeOf (ev_Resource ev) in
      if ev_Action ev \<noteq> REMOVE_RESOURCE \<and>
         (typ = Some T_NodeInventory \<or> typ = Some T_IndexReport \<or>
          typ = Some T_VirtualMachine \<or> typ = Some T_VirtualMachineIndexReport)
      then False
      else ev_Action ev \<noteq> CREATE_RESOURCE)"

text \<open>The case of an event in \<open>handleMessage\<close>, before it is passed to \<open>addMultiplexed\<close>.\<close>

definition assignKeys :: "'c MsgFromSensor \<Rightarrow> 'c MsgFromSensor" where
  "assignKeys msg =
     (if map_option TypeOf (ev_Resource (eventOf msg)) = Some T_ReprocessDeployment then msg
      else
        let msg1 = (if shallDedupe msg then msg\<lparr>msg_DedupeKey := ev_Id (eventOf msg)\<rparr> else msg)
        in msg1\<lparr>msg_HashKey := ev_Id (eventOf msg)\<rparr>)"

subsection \<open>Worker queues\<close>

type_synonym 'c msgQueue = "(string, 'c MsgFromSensor) DedupingQueue"

record 'c workerQueue =
  poolSize :: nat
  totalSize :: nat
  queues :: "'c msgQueue list"

definition workerQueueSize :: nat where
  "workerQueueSize = 16"

definition newWorkerQueue :: "nat \<Rightarrow> 'c workerQueue" where
  "newWorkerQueue n =
     (let total = n + 1
      in \<lparr>poolSize = n, totalSize = total, queues = map (\<lambda>_. NewDedupingQueue) [0..<total]\<rparr>)"

text \<open>The 32-bit FNV-1 hash of \<open>hash/fnv\<close>.\<close>

definition fnv32 :: "string \<Rightarrow> 32 word" where
  "fnv32 s = fold (\<lambda>c h. xor (h * 16777619) (of_nat (of_char c))) s 2166136261"

definition indexFromKey :: "'c workerQueue \<Rightarrow> string \<Rightarrow> nat" where
  "indexFromKey w key = unat (fnv32 key) mod poolSize w + 1"

text \<open>A sensor message has no \<open>MergeFrom\<close>.\<close>

abbreviation pushMsg :: "'c MsgFromSensor \<Rightarrow> 'c msgQueue \<Rightarrow> 'c msgQueue option" where
  "pushMsg \<equiv> Push msg_DedupeKey [] (\<lambda>i _. i)"

abbreviation pullMsg :: "'c msgQueue \<Rightarrow> 'c MsgFromSensor option \<times> 'c msgQueue" where
  "pullMsg \<equiv> pull msg_DedupeKey []"

definition pushIndex :: "'c workerQueue \<Rightarrow> 'c MsgFromSensor \<Rightarrow> nat" where
  "pushIndex w msg = (if msg_HashKey msg \<noteq> [] then indexFromKey w (msg_HashKey msg) else 0)"

definition wqPush :: "'c MsgFromSensor \<Rightarrow> 'c workerQueue \<Rightarrow> 'c workerQueue option" where
  "wqPush msg w =
     (let idx = pushIndex w msg in
      if idx < length (queues w) then
        map_option (\<lambda>q. w\<lparr>queues := (queues w)[idx := q]\<rparr>) (pushMsg msg (queues w ! idx))
      else None)"

subsection \<open>Reconciliation stores\<close>

text \<open>A closed store has no set of identifiers, a closed map no stores.\<close>

record storeImpl =
  numObjectsDeleted :: nat
  idSet :: "string goset option"

definition NewStore :: storeImpl where
  "NewStore = \<lparr>numObjectsDeleted = 0, idSet = Some (newSet [])\<rparr>"

definition storeAdd :: "string \<Rightarrow> storeImpl \<Rightarrow> storeImpl" where
  "storeAdd x s = (case idSet s of None \<Rightarrow> s | Some ids \<Rightarrow> s\<lparr>idSet := Some (fst (setAdd x ids))\<rparr>)"

definition storeClose :: "nat \<Rightarrow> storeImpl \<Rightarrow> storeImpl" where
  "storeClose n s = s\<lparr>numObjectsDeleted := n, idSet := None\<rparr>"

definition GetNumObjectsDeleted :: "storeImpl \<Rightarrow> nat \<times> bool" where
  "GetNumObjectsDeleted s = (if idSet s \<noteq> None then (0, False) else (numObjectsDeleted s, True))"

record StoreMap =
  reconciliationStores :: "(string, storeImpl) gomap option"
  deletedElementsByType :: "(string, nat) gomap option"

definition NewStoreMap :: StoreMap where
  "NewStoreMap = \<lparr>reconciliationStores = Some [], deletedElementsByType = None\<rparr>"

definition smIsClosed :: "StoreMap \<Rightarrow> bool" where
  "smIsClosed s \<longleftrightarrow> reconciliationStores s = None"

definition smGet :: "string \<Rightarrow> StoreMap \<Rightarrow> storeImpl \<times> StoreMap" where
  "smGet typ s =
     (case reconciliationStores s of
        None \<Rightarrow> (NewStore, s)
      | Some m \<Rightarrow>
          (case mget m typ of
             Some v \<Rightarrow> (v, s)
           | None \<Rightarrow> (NewStore, s\<lparr>reconciliationStores := Some (mput typ NewStore m)\<rparr>)))"

definition AddWithTypeString :: "string \<Rightarrow> string \<Rightarrow> StoreMap \<Rightarrow> StoreMap" where
  "AddWithTypeString typ x s =
     (case reconciliationStores s of
        None \<Rightarrow> s
      | Some m \<Rightarrow>
          (let v = (case mget m typ of Some v \<Rightarrow> v | None \<Rightarrow> NewStore)
           in s\<lparr>reconciliationStores := Some (mput typ (storeAdd x v) m)\<rparr>))"

fun closeStores :: "(string \<times> storeImpl) list \<Rightarrow> (string, nat) gomap \<Rightarrow> (string, nat) gomap" where
  "closeStores [] deleted = deleted"
| "closeStores ((typ, store) # rest) deleted =
     (let (numDeleted, storeClosed) = GetNumObjectsDeleted store
      in closeStores rest (if storeClosed then mput typ numDeleted deleted else deleted))"

definition smClose :: "StoreMap \<Rightarrow> StoreMap" where
  "smClose s =
     (case reconciliationStores s of
        None \<Rightarrow> s
      | Some m \<Rightarrow> \<lparr>reconciliationStores = None, deletedElementsByType = Some (closeStores m [])\<rparr>)"

definition DeletedElementsByType :: "StoreMap \<Rightarrow> (string, nat) gomap option" where
  "DeletedElementsByType s = deletedElementsByType s"

text \<open>
  \<open>Perform\<close> on the store of a type: the identifiers it removes, and the closed store. Reading the
  set of a store that is already closed dereferences nil.
\<close>

definition Perform :: "storeImpl \<Rightarrow> string goset \<Rightarrow> (string list \<times> storeImpl) option" where
  "Perform store existingIDs =
     (case idSet store of
        None \<Rightarrow> None
      | Some ids \<Rightarrow>
          (let idsToDelete = setDifference existingIDs ids
           in Some (idsToDelete, storeClose (setCardinality idsToDelete) store)))"

text \<open>
  \<open>Reconcile\<close> of the pipeline over its fragments, each given by the type whose store it takes and the
  identifiers of the cluster it finds in its datastore; the errors of the removals are only
  reported. The result lists what the fragments remove.
\<close>

fun Reconcile :: "(resourceType \<times> string goset) list \<Rightarrow> StoreMap \<Rightarrow> ((resourceType \<times> string) list \<times> StoreMap) option" where
  "Reconcile [] s = Some ([], s)"
| "Reconcile ((typ, existingIDs) # rest) s =
     (let (store, s1) = smGet (typeString typ) s
      in case Perform store existingIDs of
           None \<Rightarrow> None
         | Some (idsToDelete, store1) \<Rightarrow>
             (let s2 = s1\<lparr>reconciliationStores := map_option (mput (typeString typ) store1) (reconciliationStores s1)\<rparr>
              in case Reconcile rest s2 of
                   None \<Rightarrow> None
                 | Some (deleted, s3) \<Rightarrow> Some (map (Pair typ) idsToDelete @ deleted, s3)))"

subsection \<open>Limit on initial synchronizations\<close>

record initSyncManager =
  maxSensors :: nat
  sensors :: "string goset"

text \<open>\<open>None\<close> is the panic on a negative limit.\<close>

definition NewInitSyncManager :: "int \<Rightarrow> initSyncManager option" where
  "NewInitSyncManager n =
     (if n < 0 then None else Some \<lparr>maxSensors = nat n, sensors = newSet []\<rparr>)"

definition initSyncAdd :: "string \<Rightarrow> initSyncManager \<Rightarrow> bool \<times> initSyncManager" where
  "initSyncAdd clusterID m =
     (if maxSensors m = 0 then (True, m)
      else if length (sensors m) \<ge> maxSensors m then (False, m)
      else (True, m\<lparr>sensors := fst (setAdd clusterID (sensors m))\<rparr>))"

definition initSyncRemove :: "string \<Rightarrow> initSyncManager \<Rightarrow> initSyncManager" where
  "initSyncRemove clusterID m =
     (if maxSensors m = 0 then m else m\<lparr>sensors := fst (setRemove clusterID (sensors m))\<rparr>)"

subsection \<open>The handler of events\<close>

record 'c sensorEventHandler =
  clusterId :: string
  workerQueues :: "(string, 'c workerQueue) gomap"
  hDeduper :: deduperImpl
  initSyncMgr :: initSyncManager
  reconciliationMap :: StoreMap

definition newSensorEventHandler :: "string \<Rightarrow> deduperImpl \<Rightarrow> initSyncManager \<Rightarrow> 'c sensorEventHandler" where
  "newSensorEventHandler cluster d mgr =
     \<lparr>clusterId = cluster, workerQueues = [], hDeduper = d, initSyncMgr = mgr, reconciliationMap = NewStoreMap\<rparr>"

text \<open>A new connection starts a synchronization of the cluster's deduper.\<close>

definition newConnection :: "string \<Rightarrow> deduperImpl \<Rightarrow> initSyncManager \<Rightarrow> 'c sensorEventHandler" where
  "newConnection cluster d mgr = newSensorEventHandler cluster (StartSync d) mgr"

record 'c connEnv =
  hashOf :: "'c SensorEvent \<Rightarrow> 64 word option"
  fragments :: "(resourceType \<times> string goset) list"
  syncOrder :: "string list"

definition stripTypePrefix :: "string \<Rightarrow> string" where
  "stripTypePrefix s = last (splitAll (CHR ''_'') s)"

text \<open>The \<open>Synced\<close> case: everything the Sensor did not send is removed, and the deduper told.\<close>

definition addUnchanged :: "string list \<Rightarrow> StoreMap \<Rightarrow> StoreMap" where
  "addUnchanged keys s =
     fold (\<lambda>k s. case key_ResourceType k of
              Some t \<Rightarrow> AddWithTypeString (typeString t) (key_ID k) s | None \<Rightarrow> s)
       (fst (ParseKeySlice keys)) s"

definition handleSynced ::
  "'c connEnv \<Rightarrow> string list \<Rightarrow> 'c sensorEventHandler \<Rightarrow> ((resourceType \<times> string) list \<times> 'c sensorEventHandler) option" where
  "handleSynced e unchanged h =
     (if smIsClosed (reconciliationMap h) then Some ([], h)
      else
        case Reconcile (fragments e) (addUnchanged unchanged (reconciliationMap h)) of
          None \<Rightarrow> None
        | Some (deleted, sm) \<Rightarrow>
            Some (deleted,
              h\<lparr>initSyncMgr := initSyncRemove (clusterId h) (initSyncMgr h),
                hDeduper := ProcessSync (syncOrder e) (hDeduper h),
                reconciliationMap := smClose sm\<rparr>))"

text \<open>Deduplication and the push to the worker queue of the type, created when it does not exist.\<close>

definition dedupeAndPush ::
  "'c connEnv \<Rightarrow> string \<Rightarrow> 'c MsgFromSensor \<Rightarrow> 'c sensorEventHandler \<Rightarrow> 'c sensorEventHandler option" where
  "dedupeAndPush e workerType msg h =
     (let (ok, msg1, d) = ShouldProcess (hashOf e) msg (hDeduper h); h1 = h\<lparr>hDeduper := d\<rparr> in
      if \<not> ok then Some h1
      else
        let w = (case mget (workerQueues h1) workerType of None \<Rightarrow> newWorkerQueue workerQueueSize | Some w \<Rightarrow> w)
        in map_option (\<lambda>w1. h1\<lparr>workerQueues := mput workerType w1 (workerQueues h1)\<rparr>) (wqPush msg1 w))"

definition addMultiplexed ::
  "'c connEnv \<Rightarrow> 'c MsgFromSensor \<Rightarrow> 'c sensorEventHandler
     \<Rightarrow> ((resourceType \<times> string) list \<times> 'c sensorEventHandler) option" where
  "addMultiplexed e msg h =
     (case msg_Event msg of
        None \<Rightarrow> Some ([], h)
      | Some event \<Rightarrow>
          (case ev_Resource event of
             Some (SensorEvent_Synced unchanged) \<Rightarrow> handleSynced e unchanged h
           | Some (SensorEvent_ReprocessDeployment _) \<Rightarrow>
               map_option (Pair []) (dedupeAndPush e (typeString T_Deployment) msg h)
           | Some (SensorEvent_NodeInventory _) \<Rightarrow>
               map_option (Pair []) (dedupeAndPush e (typeString T_Node)
                 (msg\<lparr>msg_DedupeKey := ''NodeInventory:'' @ msg_DedupeKey msg\<rparr>) h)
           | Some (SensorEvent_IndexReport _) \<Rightarrow>
               map_option (Pair []) (dedupeAndPush e (typeString T_Node)
                 (msg\<lparr>msg_DedupeKey := ''NodeIndex:'' @ msg_DedupeKey msg\<rparr>) h)
           | None \<Rightarrow> Some ([], h)
           | Some r \<Rightarrow>
               (let workerType = typeString (TypeOf r);
                    h1 = (if \<not> smIsClosed (reconciliationMap h)
                          then h\<lparr>reconciliationMap := AddWithTypeString workerType (ev_Id event) (reconciliationMap h)\<rparr>
                          else h)
                in map_option (Pair []) (dedupeAndPush e workerType msg h1))))"

definition handleEvent ::
  "'c connEnv \<Rightarrow> 'c MsgFromSensor \<Rightarrow> 'c sensorEventHandler
     \<Rightarrow> ((resourceType \<times> string) list \<times> 'c sensorEventHandler) option" where
  "handleEvent e msg h = addMultiplexed e (assignKeys msg) h"

subsection \<open>Workers\<close>

datatype handlerError = Canceled | TransientError | UnretryableError

datatype fragmentResult = RunOk | RunFailed handlerError | RunPanicked

text \<open>
  \<open>Run\<close> of the pipeline, given what each fragment that matches the message returns, in order. A
  canceled run is not an error and does not mark the message; a message that no fragment matches,
  or whose fragment panics, fails without retry.
\<close>

fun pipelineRun :: "fragmentResult list \<Rightarrow> nat \<Rightarrow> 'c MsgFromSensor \<Rightarrow> deduperImpl \<Rightarrow> handlerError option \<times> deduperImpl" where
  "pipelineRun [] matchCount msg d =
     (if matchCount = 0 then (Some UnretryableError, d) else (None, MarkSuccessful msg d))"
| "pipelineRun (RunOk # rest) matchCount msg d = pipelineRun rest (Suc matchCount) msg d"
| "pipelineRun (RunFailed err # rest) matchCount msg d = (if err = Canceled then (None, d) else (Some err, d))"
| "pipelineRun (RunPanicked # rest) matchCount msg d = (Some UnretryableError, d)"

definition maxHandlerAttempts :: nat where
  "maxHandlerAttempts = 5"

text \<open>
  One iteration of \<open>runWorker\<close> after its pull: the deduper and, after a transient error, the message
  to inject again later.
\<close>

definition runWorker ::
  "fragmentResult list \<Rightarrow> 'c MsgFromSensor \<Rightarrow> deduperImpl \<Rightarrow> 'c MsgFromSensor option \<times> deduperImpl" where
  "runWorker results msg d =
     (let (err, d1) = pipelineRun results 0 msg d in
      case err of
        None \<Rightarrow> (None, d1)
      | Some er \<Rightarrow>
          if er \<noteq> Canceled \<and> er = TransientError then
            (let msg1 = msg\<lparr>msg_ProcessingAttempt := msg_ProcessingAttempt msg + 1\<rparr> in
             if msg_ProcessingAttempt msg1 = maxHandlerAttempts then (None, d1)
             else (Some msg1, d1))
          else (None, RemoveMessage msg d1))"

end
