(* ===== verification/Event_Deduper_Facts.thy ===== *)
theory Event_Deduper_Facts
  imports Event_Deduper
begin

text \<open>
  What the dedupers' operations do: event keys and their parsed form, the hashes that survive a
  restart of Central, and the reconciliation at the end of a Sensor's initial synchronization.
\<close>

subsection \<open>Event keys and parsed keys\<close>

lemma GetAfter_append [simp]: "c \<notin> set a \<Longrightarrow> GetAfter (a @ c # b) c = b"
  by (simp add: GetAfter_def Split2_def)

lemma typeWithoutPrefix_eq [simp]: "typeWithoutPrefix t = typeSuffix t"
proof -
  have "typeString t = ''*central.SensorEvent'' @ CHR ''_'' # typeSuffix t" by (simp add: typeString_def)
  then show ?thesis unfolding typeWithoutPrefix_def by (simp only:) (rule GetAfter_append, simp)
qed

lemma typeSuffix_no_colon: "CHR '':'' \<notin> set (typeSuffix t)"
  by (cases t) simp_all

lemma ParseIDFromKey_FormatKey [simp]: "CHR '':'' \<notin> set typ \<Longrightarrow> ParseIDFromKey (FormatKey typ i) = i"
  by (simp add: ParseIDFromKey_def FormatKey_def)

lemma splitAll_nonempty: "splitAll c s \<noteq> []"
  by (subst splitAll.simps) (auto split: option.splits)

lemma splitAll_two_iff:
  "splitAll c s = [a, b] \<longleftrightarrow> s = a @ c # b \<and> c \<notin> set a \<and> c \<notin> set b"
proof
  assume split: "splitAll c s = [a, b]"
  then obtain x y where xy: "cut c s = Some (x, y)" "x = a" "splitAll c y = [b]"
    by (subst (asm) splitAll.simps) (auto split: option.splits)
  have "cut c y = None"
  proof (rule ccontr)
    assume "cut c y \<noteq> None"
    then obtain p r where "cut c y = Some (p, r)" by auto
    with xy(3) show False using splitAll_nonempty [of c r] by (subst (asm) splitAll.simps) auto
  qed
  then have "y = b" "c \<notin> set b" using xy(3) by (auto simp: cut_None_iff)
  with xy cut_Some_append show "s = a @ c # b \<and> c \<notin> set a \<and> c \<notin> set b" by metis
qed auto

lemma mapTypeIn_sound: "mapTypeIn ts s = Inr t \<Longrightarrow> t \<in> set ts \<and> s = typeSuffix t"
  by (induction ts) (auto split: if_splits)

lemma mapType_typeSuffix: "t \<in> set deduperTypes \<Longrightarrow> mapType (typeSuffix t) = Inr t"
  by (cases t) (simp_all add: mapType_def deduperTypes_def)

lemma mapType_iff: "mapType s = Inr t \<longleftrightarrow> t \<in> set deduperTypes \<and> s = typeSuffix t"
  using mapTypeIn_sound [of deduperTypes s t] mapType_typeSuffix [of t] by (auto simp: mapType_def)

lemma KeyFrom_iff:
  "KeyFrom s = Inr k \<longleftrightarrow>
     KeyString k = Some s \<and> (\<exists>t \<in> set deduperTypes. key_ResourceType k = Some t) \<and> CHR '':'' \<notin> set (key_ID k)"
proof -
  have "KeyFrom s = Inr k \<longleftrightarrow>
      (\<exists>p0 p1 t. splitAll (CHR '':'') s = [p0, p1] \<and> mapType p0 = Inr t \<and>
         k = \<lparr>key_ID = p1, key_ResourceType = Some t\<rparr>)"
    by (auto simp: KeyFrom_def split: list.splits sum.splits)
  also have "\<dots> \<longleftrightarrow> (\<exists>p1 t. s = typeSuffix t @ CHR '':'' # p1 \<and> CHR '':'' \<notin> set p1 \<and> t \<in> set deduperTypes \<and>
      k = \<lparr>key_ID = p1, key_ResourceType = Some t\<rparr>)"
    by (auto simp: splitAll_two_iff mapType_iff typeSuffix_no_colon)
  also have "\<dots> \<longleftrightarrow> KeyString k = Some s \<and> (\<exists>t \<in> set deduperTypes. key_ResourceType k = Some t) \<and>
      CHR '':'' \<notin> set (key_ID k)"
    by (cases k) (auto simp: KeyString_def FormatKey_def typeWithoutPrefix_def [symmetric])
  finally show ?thesis .
qed

text \<open>C34. A string parses to a key exactly when it is the string of that key, the key has one of the
  deduper's types, and its identifier has no colon.\<close>

theorem KeyFrom_correct:
  "KeyFrom s = Inr k \<longleftrightarrow>
     KeyString k = Some s \<and> key_ResourceType k \<in> Some ` set deduperTypes \<and> CHR '':'' \<notin> set (key_ID k)"
  by (auto simp: KeyFrom_iff)

subsection \<open>Reloading the hashes\<close>

lemma fold_entries_get:
  "mget (fold (\<lambda>(k, v) m. mput k (f v) m) xs m) k =
     (case mget (rev xs) k of Some v \<Rightarrow> Some (f v) | None \<Rightarrow> mget m k)"
  by (induction xs arbitrary: m) (auto split: option.splits simp: map_add_def)

lemma mget_rev: "wf_map xs \<Longrightarrow> mget (rev xs) = mget xs"
  by (subst map_of_inject_set) (simp_all add: rev_map [symmetric])

lemma NewDeduper_get:
  assumes "wf_map hashes"
  shows "mget (successfullyProcessed (NewDeduper maxHashes hashes)) k =
    (if int (length hashes) < maxHashes
     then map_option (\<lambda>h. \<lparr>val = h, processed = False\<rparr>) (mget hashes k) else None)"
  using assms by (simp add: NewDeduper_def fold_entries_get mget_rev split: option.split)

lemma GetSuccessfulHashes_get:
  "mget (GetSuccessfulHashes maxHashes d) k =
     (if int (length (successfullyProcessed d)) > maxHashes then None
      else map_option val (mget (successfullyProcessed d) k))"
  by (simp add: GetSuccessfulHashes_def)

lemma flushHashes_get:
  assumes "mget (dedupers m) c = Some d" and "\<not> upsertFails c"
  shows "mget (flushHashes maxHashes upsertFails m ds) c = Some (GetSuccessfulHashes maxHashes d)"
proof -
  have *: "mget (fold (\<lambda>cluster ds. case mget (dedupers m) cluster of
             None \<Rightarrow> ds
           | Some deduper \<Rightarrow>
               if upsertFails cluster then ds
               else mput cluster (GetSuccessfulHashes maxHashes deduper) ds) cs ds) c =
      (if c \<in> set cs then Some (GetSuccessfulHashes maxHashes d) else mget ds c)" for cs
    using assms by (induction cs arbitrary: ds) (auto split: option.split)
  have "c \<in> set (mkeys (dedupers m))" using assms(1) by (force dest: map_of_SomeD)
  with * [of "mkeys (dedupers m)"] show ?thesis by (simp add: flushHashes_def)
qed

text \<open>C35. Stored hashes survive a restart of Central only below the limit: after a flush, a new
  manager's deduper for the cluster knows exactly the successfully processed hashes, all still to be
  confirmed by the Sensor, when there are fewer than \<open>maxHashes\<close> of them. With exactly \<open>maxHashes\<close>
  they are all written to the database and all ignored when read back.\<close>

theorem hashes_survive_restart:
  assumes "mget (dedupers m) c = Some d" and "wf_map (successfullyProcessed d)" and "\<not> upsertFails c"
    and stored: "stored = mget (flushHashes maxHashes upsertFails m datastore) c"
    and new: "d1 = fst (GetDeduper maxHashes stored c NewManager)"
  shows "(\<exists>hashes. stored = Some hashes \<and>
      (\<forall>k. mget hashes k =
        (if int (length (successfullyProcessed d)) \<le> maxHashes
         then map_option val (mget (successfullyProcessed d) k) else None))) \<and>
    received d1 = [] \<and>
    (\<forall>k. mget (successfullyProcessed d1) k =
      (if int (length (successfullyProcessed d)) < maxHashes
       then map_option (\<lambda>e. e\<lparr>processed := False\<rparr>) (mget (successfullyProcessed d) k) else None))"
proof (intro conjI allI)
  let ?h = "GetSuccessfulHashes maxHashes d"
  have s: "stored = Some ?h" unfolding stored using assms(1,3) by (rule flushHashes_get)
  then show "\<exists>hashes. stored = Some hashes \<and>
      (\<forall>k. mget hashes k =
        (if int (length (successfullyProcessed d)) \<le> maxHashes
         then map_option val (mget (successfullyProcessed d) k) else None))"
    by (simp add: GetSuccessfulHashes_get)
  have d: "d1 = NewDeduper maxHashes ?h"
    using s by (simp add: new GetDeduper_def getDeduper_def addDeduper_def NewManager_def)
  then show "received d1 = []" by (simp add: NewDeduper_def)
  have wf: "wf_map ?h" using assms(2) by (simp add: GetSuccessfulHashes_def del: map_map)
  have len: "length ?h = (if int (length (successfullyProcessed d)) > maxHashes then 0
      else length (successfullyProcessed d))"
    by (simp add: GetSuccessfulHashes_def)
  show "mget (successfullyProcessed d1) k =
      (if int (length (successfullyProcessed d)) < maxHashes
       then map_option (\<lambda>e. e\<lparr>processed := False\<rparr>) (mget (successfullyProcessed d) k) else None)"
    for k
    unfolding d NewDeduper_get [OF wf] len GetSuccessfulHashes_get
    by (cases "mget (successfullyProcessed d) k") auto
qed

subsection \<open>Reconciliation\<close>

definition dropped_by_sync :: "deduperImpl \<Rightarrow> string \<Rightarrow> bool" where
  "dropped_by_sync d k \<longleftrightarrow>
     \<not> hasPrefix k alertResourceKey \<and>
     (\<exists>v. mget (successfullyProcessed d) k = Some v \<and> \<not> processed v) \<and>
     \<not> (\<exists>r. mget (received d) k = Some r \<and> processed r)"

lemma alertResourceKey_eq: "alertResourceKey = ''AlertResults''"
  by (simp add: alertResourceKey_def)

lemma alertKey_prefix: "hasPrefix (FormatKey alertResourceKey i) alertResourceKey"
  by (auto simp: hasPrefix_iff FormatKey_def)

lemma processSyncStep_get:
  "received (processSyncStep k d) = received d"
  "mget (successfullyProcessed (processSyncStep k d)) x =
     (if dropped_by_sync d k \<and>
         (x = k \<or> hasPrefix k deploymentResourceKey \<and> x = FormatKey alertResourceKey (ParseIDFromKey k))
      then None else mget (successfullyProcessed d) x)"
  by (auto simp: processSyncStep_def dropped_by_sync_def Let_def split: option.splits)

lemma dropped_after_step: "dropped_by_sync (processSyncStep k d) x \<longleftrightarrow> dropped_by_sync d x \<and> x \<noteq> k"
  using alertKey_prefix by (auto simp: dropped_by_sync_def [of "processSyncStep k d"] processSyncStep_get
      dropped_by_sync_def [of d x] dropped_by_sync_def [of d k])

lemma ProcessSync_get:
  "received (ProcessSync ks d) = received d"
  "mget (successfullyProcessed (ProcessSync ks d)) x =
     (if \<exists>k \<in> set ks. dropped_by_sync d k \<and>
         (x = k \<or> hasPrefix k deploymentResourceKey \<and> x = FormatKey alertResourceKey (ParseIDFromKey k))
      then None else mget (successfullyProcessed d) x)"
proof (induction ks arbitrary: d)
  case Nil
  { case 1 show ?case by (simp add: ProcessSync_def) }
  { case 2 show ?case by (simp add: ProcessSync_def) }
next
  case (Cons a ks)
  { case 1 show ?case using Cons.IH(1) by (simp add: ProcessSync_def processSyncStep_get) }
  { case 2
    have "ProcessSync (a # ks) d = ProcessSync ks (processSyncStep a d)" by (simp add: ProcessSync_def)
    then show ?case
      by (simp only: Cons.IH(2) dropped_after_step processSyncStep_get) auto }
qed

text \<open>Keys of events start with the name of a resource type.\<close>

lemma FormatKey_inj:
  "CHR '':'' \<notin> set a \<Longrightarrow> CHR '':'' \<notin> set b \<Longrightarrow> FormatKey a i = FormatKey b j \<longleftrightarrow> a = b \<and> i = j"
proof
  assume no: "CHR '':'' \<notin> set a" "CHR '':'' \<notin> set b" and eq: "FormatKey a i = FormatKey b j"
  have "Some (a, i) = cut (CHR '':'') (FormatKey a i)" using no(1) by (simp add: FormatKey_def)
  also have "\<dots> = cut (CHR '':'') (FormatKey b j)" by (simp only: eq)
  also have "\<dots> = Some (b, j)" using no(2) by (simp add: FormatKey_def)
  finally show "a = b \<and> i = j" by simp
qed simp

lemma typeSuffix_AlertResults_iff: "''AlertResults'' = typeSuffix t \<longleftrightarrow> t = T_AlertResults"
  by (cases t) simp_all

lemma typeSuffix_Deployment_iff: "''Deployment'' = typeSuffix t \<longleftrightarrow> t = T_Deployment"
  by (cases t) simp_all

lemma hasPrefix_Cons:
  "hasPrefix s []" "\<not> hasPrefix [] (c # cs)" "hasPrefix (x # xs) (c # cs) \<longleftrightarrow> x = c \<and> hasPrefix xs cs"
  by (auto simp: hasPrefix_def)

lemma hasPrefix_alert_iff: "hasPrefix (FormatKey (typeSuffix t) i) alertResourceKey \<longleftrightarrow> t = T_AlertResults"
  by (cases t) (simp_all add: hasPrefix_Cons FormatKey_def alertResourceKey_eq)

lemma hasPrefix_deployment_iff:
  "hasPrefix (FormatKey (typeSuffix t) i) deploymentResourceKey \<longleftrightarrow> t = T_Deployment"
  by (cases t) (simp_all add: hasPrefix_Cons FormatKey_def deploymentResourceKey_def)

definition event_keys :: "deduperImpl \<Rightarrow> bool" where
  "event_keys d \<longleftrightarrow> (\<forall>k \<in> set (mkeys (successfullyProcessed d)). \<exists>t i. k = FormatKey (typeSuffix t) i)"

definition stale :: "deduperImpl \<Rightarrow> resourceType \<Rightarrow> string \<Rightarrow> bool" where
  "stale d t i \<longleftrightarrow>
     t \<noteq> T_AlertResults \<and>
     (case mget (successfullyProcessed d) (FormatKey (typeSuffix t) i) of None \<Rightarrow> False | Some e \<Rightarrow> \<not> processed e) \<and>
     (case mget (received d) (FormatKey (typeSuffix t) i) of None \<Rightarrow> True | Some e \<Rightarrow> \<not> processed e)"

lemma stale_cong: "typeSuffix t = typeSuffix u \<Longrightarrow> stale d t i = stale d u i"
  using typeSuffix_AlertResults_iff [of t] typeSuffix_AlertResults_iff [of u] by (simp add: stale_def)

lemma dropped_iff_stale: "dropped_by_sync d (FormatKey (typeSuffix t) i) \<longleftrightarrow> stale d t i"
  by (auto simp: dropped_by_sync_def stale_def hasPrefix_alert_iff split: option.splits)

lemma ProcessSync_at:
  assumes keys: "event_keys d" and ks: "set ks = set (mkeys (successfullyProcessed d))"
  shows "mget (successfullyProcessed (ProcessSync ks d)) (FormatKey (typeSuffix t) i) =
    (if stale d t i \<or> t = T_AlertResults \<and> stale d T_Deployment i then None
     else mget (successfullyProcessed d) (FormatKey (typeSuffix t) i))"
proof -
  have present: "FormatKey (typeSuffix t) i \<in> set ks" if "stale d t i" for t i
    using that ks by (force simp: stale_def split: option.splits dest!: map_of_SomeD)
  have "(\<exists>k \<in> set ks. dropped_by_sync d k \<and>
      (FormatKey (typeSuffix t) i = k \<or> hasPrefix k deploymentResourceKey \<and>
       FormatKey (typeSuffix t) i = FormatKey alertResourceKey (ParseIDFromKey k))) \<longleftrightarrow>
     stale d t i \<or> t = T_AlertResults \<and> stale d T_Deployment i" (is "?L \<longleftrightarrow> ?R")
  proof
    assume ?L
    then obtain k where k: "k \<in> set ks" "dropped_by_sync d k"
      "FormatKey (typeSuffix t) i = k \<or> hasPrefix k deploymentResourceKey \<and>
       FormatKey (typeSuffix t) i = FormatKey alertResourceKey (ParseIDFromKey k)" by blast
    from k(1) keys ks obtain u j where "k = FormatKey (typeSuffix u) j" by (auto simp: event_keys_def)
    with k(2,3) show ?R
      by (auto dest: stale_cong simp: dropped_iff_stale hasPrefix_deployment_iff alertResourceKey_eq FormatKey_inj
          typeSuffix_no_colon eq_commute [of _ "''AlertResults''"] typeSuffix_AlertResults_iff
          ParseIDFromKey_FormatKey)
  next
    assume R: ?R
    show ?L
    proof (cases "stale d t i")
      case True
      then show ?thesis using present [OF True] by (auto simp: dropped_iff_stale intro!: bexI)
    next
      case False
      with R have "t = T_AlertResults" "stale d T_Deployment i" by auto
      then show ?thesis using present [of T_Deployment i] dropped_iff_stale [of d T_Deployment i]
          hasPrefix_deployment_iff [of T_Deployment i]
        by (auto simp: alertResourceKey_eq intro!: bexI [where x = "FormatKey (typeSuffix T_Deployment) i"])
    qed
  qed
  then show ?thesis by (simp only: ProcessSync_get(2))
qed

text \<open>C36. When the Sensor has sent everything it knows, the deduper forgets exactly the hashes of
  resources that were neither confirmed in this synchronization nor received and still in progress,
  and the alerts of the deployments among them; the order of the loop over the map does not
  matter, and alerts are never forgotten on their own.\<close>

theorem ProcessSync_correct:
  assumes "event_keys d" and "set ks = set (mkeys (successfullyProcessed d))"
  shows "received (ProcessSync ks d) = received d \<and>
    mget (successfullyProcessed (ProcessSync ks d)) (FormatKey (typeSuffix t) i) =
      (if stale d t i \<or> t = T_AlertResults \<and> stale d T_Deployment i then None
       else mget (successfullyProcessed d) (FormatKey (typeSuffix t) i))"
  using ProcessSync_at [OF assms] by (simp_all add: ProcessSync_get(1))

definition syncExample :: deduperImpl where
  "syncExample =
     \<lparr>received = [],
      successfullyProcessed =
        [(''Deployment:a'', \<lparr>val = 1, processed = False\<rparr>), (''AlertResults:a'', \<lparr>val = 2, processed = True\<rparr>),
         (''AlertResults:b'', \<lparr>val = 3, processed = False\<rparr>)]\<rparr>"

theorem ProcessSync_correct_witness:
  "mget (successfullyProcessed
     (ProcessSync [''AlertResults:a'', ''AlertResults:b'', ''Deployment:a''] syncExample)) ''AlertResults:a'' = None"
proof -
  have "event_keys syncExample"
    unfolding event_keys_def
  proof
    fix k assume "k \<in> set (mkeys (successfullyProcessed syncExample))"
    then have "k = FormatKey (typeSuffix T_Deployment) ''a'' \<or> k = FormatKey (typeSuffix T_AlertResults) ''a'' \<or>
        k = FormatKey (typeSuffix T_AlertResults) ''b''"
      by (simp add: syncExample_def FormatKey_def)
    then show "\<exists>t i. k = FormatKey (typeSuffix t) i" by blast
  qed
  moreover have "set [''AlertResults:a'', ''AlertResults:b'', ''Deployment:a''] =
      set (mkeys (successfullyProcessed syncExample))"
    by (auto simp: syncExample_def)
  ultimately have "mget (successfullyProcessed
     (ProcessSync [''AlertResults:a'', ''AlertResults:b'', ''Deployment:a''] syncExample))
       (FormatKey (typeSuffix T_AlertResults) ''a'') = None"
    by (subst ProcessSync_correct [THEN conjunct2]) (simp_all add: stale_def syncExample_def FormatKey_def)
  then show ?thesis by (simp add: FormatKey_def)
qed

theorem hashes_survive_restart_witness:
  "mget (successfullyProcessed (fst (GetDeduper 3
     (mget (flushHashes 3 (\<lambda>_. False) \<lparr>dedupers = [(''c1'', syncExample)]\<rparr> []) ''c1'') ''c1'' NewManager)))
     ''AlertResults:a'' = None"
  using hashes_survive_restart [of "\<lparr>dedupers = [(''c1'', syncExample)]\<rparr>" "''c1''" syncExample "\<lambda>_. False",
      OF _ _ _ refl refl, of 3, THEN conjunct2, THEN conjunct2]
  by (simp add: syncExample_def)

end
