(* ===== verification/Sensor_Views.thy ===== *)
theory Sensor_Views
  imports Sensor_Connection Event_Deduper_Facts
begin

text \<open>
  The parts of a Sensor connection as the statements on the whole see them: which resource a message
  is about, the value the deduper knows for a resource and how its operations change it, and the
  contents of the worker queues before and after a push or a pull.
\<close>

subsection \<open>Keys\<close>

lemma mapTypeIn_all:
  "mapTypeIn (T_Synced # T_ReprocessDeployment # deduperTypes) (typeSuffix t) = Inr t"
  by (cases t) (simp_all add: deduperTypes_def)

lemma typeSuffix_inj [simp]: "typeSuffix t = typeSuffix u \<longleftrightarrow> t = u"
  using mapTypeIn_all [of t] mapTypeIn_all [of u] by (metis Inr_inject)

lemma typeString_inj [simp]: "typeString t = typeString u \<longleftrightarrow> t = u"
  by (simp add: typeString_def)

definition ekey :: "resourceType \<times> string \<Rightarrow> string" where
  "ekey k = FormatKey (typeSuffix (fst k)) (snd k)"

lemma ekey_inj [simp]: "ekey k = ekey l \<longleftrightarrow> k = l"
  by (simp add: ekey_def FormatKey_inj typeSuffix_no_colon prod_eq_iff)

text \<open>The type and identifier of the resource of a message.\<close>

definition resourceKey :: "'c MsgFromSensor \<Rightarrow> (resourceType \<times> string) option" where
  "resourceKey m = (case msg_Event m of None \<Rightarrow> None
     | Some ev \<Rightarrow> map_option (\<lambda>r. (TypeOf r, ev_Id ev)) (ev_Resource ev))"

definition msgAction :: "'c MsgFromSensor \<Rightarrow> ResourceAction" where
  "msgAction m = ev_Action (eventOf m)"

definition msgHash :: "'c MsgFromSensor \<Rightarrow> 64 word" where
  "msgHash m = GetSensorHash (eventOf m)"

lemma key_of_resource: "resourceKey m = Some k \<Longrightarrow> GetKeyFromMessage m = ekey k"
  by (auto simp: resourceKey_def GetKeyFromMessage_def eventKey_def GetEventTypeWithoutPrefix_def ekey_def
      split: option.splits)

lemma resource_of_unskipped: "\<not> skipDedupe m \<Longrightarrow> \<exists>k. resourceKey m = Some k"
  by (auto simp: skipDedupe_def resourceKey_def split: option.splits)

text \<open>
  The events the statements are about: those the deduper handles, apart from the end of the
  synchronization itself and from virtual machines, whose messages the worker queue never merges.
\<close>

definition trackedTypes :: "resourceType set" where
  "trackedTypes = {T_Pod, T_Deployment, T_Namespace, T_NetworkPolicy, T_Secret, T_ServiceAccount, T_Role,
     T_Binding, T_AlertResults}"

definition tracked :: "'c MsgFromSensor \<Rightarrow> bool" where
  "tracked m \<longleftrightarrow> \<not> skipDedupe m \<and> (\<exists>k. resourceKey m = Some k \<and> fst k \<in> trackedTypes)"

lemma TypeOf_Alert_iff: "TypeOf r = T_AlertResults \<longleftrightarrow> (\<exists>ar. r = SensorEvent_AlertResults ar)"
  by (cases r) simp_all

lemma skipDedupe_other:
  "resourceKey m = Some k \<Longrightarrow> fst k \<noteq> T_AlertResults \<Longrightarrow>
   skipDedupe m \<longleftrightarrow> fst k \<notin> trackedTypes \<union> {T_Synced, T_VirtualMachine}"
  by (auto simp: resourceKey_def skipDedupe_def trackedTypes_def split: option.splits resource.splits)

lemma tracked_cases:
  assumes "\<not> skipDedupe m"
  obtains "tracked m" | i where "resourceKey m = Some (T_VirtualMachine, i)" | i where "resourceKey m = Some (T_Synced, i)"
proof -
  from resource_of_unskipped [OF assms] obtain t i where k: "resourceKey m = Some (t, i)" by auto
  show thesis
  proof (cases "t = T_AlertResults")
    case True
    with assms k that(1) show ?thesis by (simp add: tracked_def trackedTypes_def)
  next
    case False
    with skipDedupe_other [OF k] assms k that show ?thesis by (auto simp: tracked_def)
  qed
qed

subsection \<open>The deduper seen through its two maps\<close>

text \<open>The value of a key received and still valid, and the value successfully processed.\<close>

definition rv :: "deduperImpl \<Rightarrow> resourceType \<times> string \<Rightarrow> 64 word option" where
  "rv d k = (case mget (received d) (ekey k) of
     Some r \<Rightarrow> if processed r then Some (val r) else None | None \<Rightarrow> None)"

definition sv :: "deduperImpl \<Rightarrow> resourceType \<times> string \<Rightarrow> 64 word option" where
  "sv d k = map_option val (mget (successfullyProcessed d) (ekey k))"

definition confirmed :: "deduperImpl \<Rightarrow> resourceType \<times> string \<Rightarrow> bool" where
  "confirmed d k \<longleftrightarrow> rv d k \<noteq> None \<or>
     (case mget (successfullyProcessed d) (ekey k) of None \<Rightarrow> False | Some e \<Rightarrow> processed e)"

definition known_value :: "deduperImpl \<Rightarrow> resourceType \<times> string \<Rightarrow> 64 word option" where
  "known_value d k = (case rv d k of Some v \<Rightarrow> Some v | None \<Rightarrow> sv d k)"

lemma getValueNoLock_ekey: "getValueNoLock d (ekey k) = known_value d k"
  by (auto simp: getValueNoLock_def known_value_def rv_def sv_def Let_def split: option.splits)

lemma view_MarkSuccessful_skip: "skipDedupe m \<Longrightarrow> MarkSuccessful m d = d"
  by (simp add: MarkSuccessful_def)

lemma view_MarkSuccessful:
  assumes "\<not> skipDedupe m" and "resourceKey m = Some k" and "msgAction m \<noteq> REMOVE_RESOURCE"
  shows "rv (MarkSuccessful m d) l = (if l = k \<and> rv d k = Some (msgHash m) then None else rv d l)"
    and "sv (MarkSuccessful m d) l = (if l = k then Some (msgHash m) else sv d l)"
    and "confirmed (MarkSuccessful m d) l \<longleftrightarrow> l = k \<or> confirmed d l"
  using assms key_of_resource [OF assms(2)]
  by (auto simp: MarkSuccessful_def rv_def sv_def confirmed_def msgAction_def msgHash_def Let_def
      split: option.splits)

lemma view_MarkSuccessful_remove:
  assumes "\<not> skipDedupe m" and "resourceKey m = Some k" and "msgAction m = REMOVE_RESOURCE"
  shows "rv (MarkSuccessful m d) l = rv d l"
    and "sv (MarkSuccessful m d) l = (if l = k then None else sv d l)"
    and "confirmed (MarkSuccessful m d) l \<Longrightarrow> confirmed d l"
  using assms key_of_resource [OF assms(2)]
  by (auto simp: MarkSuccessful_def rv_def sv_def confirmed_def msgAction_def Let_def split: option.splits if_splits)

lemma view_RemoveMessage:
  assumes "\<not> skipDedupe m" and "resourceKey m = Some k"
  shows "rv (RemoveMessage m d) l = (if l = k then None else rv d l)"
    and "sv (RemoveMessage m d) l = sv d l"
    and "confirmed (RemoveMessage m d) l \<Longrightarrow> confirmed d l"
  using assms key_of_resource [OF assms(2)]
  by (auto simp: RemoveMessage_def rv_def sv_def confirmed_def split: option.splits if_splits)

lemma view_StartSync:
  "rv (StartSync d) k = None" "sv (StartSync d) k = sv d k" "\<not> confirmed (StartSync d) k"
  by (auto simp: StartSync_def rv_def sv_def confirmed_def option.map_comp comp_def split: option.splits)

lemma view_ProcessSync:
  "rv (ProcessSync ks d) k = rv d k"
  "sv (ProcessSync ks d) k = sv d k \<or> sv (ProcessSync ks d) k = None"
  "confirmed (ProcessSync ks d) k \<Longrightarrow> confirmed d k"
  by (auto simp: rv_def sv_def confirmed_def ProcessSync_get split: if_splits option.splits)

lemma ProcessSync_forgets:
  assumes "fst k \<noteq> T_AlertResults" and "\<not> confirmed d k"
    and "set ks = set (mkeys (successfullyProcessed d))"
  shows "sv (ProcessSync ks d) k = None"
proof (cases "mget (successfullyProcessed d) (ekey k)")
  case None
  then show ?thesis by (simp add: sv_def ProcessSync_get(2))
next
  case (Some e)
  then have "ekey k \<in> set ks" using assms(3) by (force dest: map_of_SomeD)
  moreover have "dropped_by_sync d (ekey k)"
    using assms(1,2) Some
    by (auto simp: dropped_by_sync_def ekey_def hasPrefix_alert_iff confirmed_def rv_def split: option.splits if_splits)
  ultimately show ?thesis by (auto simp: sv_def ProcessSync_get(2))
qed

text \<open>\<open>ShouldProcess\<close> on the events it handles.\<close>

definition withHash :: "('c SensorEvent \<Rightarrow> 64 word option) \<Rightarrow> 'c MsgFromSensor \<Rightarrow> 'c MsgFromSensor" where
  "withHash H m =
     (if ev_SensorHash (eventOf m) = None
      then (case H (eventOf m) of Some h \<Rightarrow> setSensorHash h m | None \<Rightarrow> m) else m)"

definition hashable :: "('c SensorEvent \<Rightarrow> 64 word option) \<Rightarrow> 'c MsgFromSensor \<Rightarrow> bool" where
  "hashable H m \<longleftrightarrow> ev_SensorHash (eventOf m) \<noteq> None \<or> H (eventOf m) \<noteq> None"

lemma setSensorHash_simps [simp]:
  "resourceKey (setSensorHash h m) = resourceKey m"
  "msgAction (setSensorHash h m) = msgAction m"
  "msg_DedupeKey (setSensorHash h m) = msg_DedupeKey m"
  "msg_HashKey (setSensorHash h m) = msg_HashKey m"
  "msg_ProcessingAttempt (setSensorHash h m) = msg_ProcessingAttempt m"
  "skipDedupe (setSensorHash h m) = skipDedupe m"
  by (cases "msg_Event m"; simp add: setSensorHash_def resourceKey_def msgAction_def eventOf_def skipDedupe_def)+

lemma tracked_setSensorHash [simp]: "tracked (setSensorHash h m) = tracked m"
  by (simp add: tracked_def)

lemma withHash_simps [simp]:
  "resourceKey (withHash H m) = resourceKey m"
  "msgAction (withHash H m) = msgAction m"
  "msg_DedupeKey (withHash H m) = msg_DedupeKey m"
  "msg_HashKey (withHash H m) = msg_HashKey m"
  "msg_ProcessingAttempt (withHash H m) = msg_ProcessingAttempt m"
  "skipDedupe (withHash H m) = skipDedupe m"
  "tracked (withHash H m) = tracked m"
  by (simp_all add: withHash_def split: option.split)

lemma event_of_unskipped: "\<not> skipDedupe m \<Longrightarrow> \<exists>ev. msg_Event m = Some ev"
  by (auto simp: skipDedupe_def split: option.splits)

lemma withHash_hash: "hashable H m \<Longrightarrow> \<not> skipDedupe m \<Longrightarrow> ev_SensorHash (eventOf (withHash H m)) \<noteq> None"
  using event_of_unskipped [of m]
  by (auto simp: hashable_def withHash_def setSensorHash_def eventOf_def split: option.splits)

lemma withHash_known: "ev_SensorHash (eventOf m) \<noteq> None \<Longrightarrow> withHash H m = m"
  by (auto simp: withHash_def)

lemma view_markSynced:
  "rv (markSynced (ekey k) d) l = rv d l"
  "sv (markSynced (ekey k) d) l = sv d l"
  "confirmed (markSynced (ekey k) d) l \<Longrightarrow> l = k \<or> confirmed d l"
  by (auto simp: markSynced_def rv_def sv_def confirmed_def split: option.splits if_splits)

lemma view_ShouldProcess_remove:
  assumes "\<not> skipDedupe m" and "resourceKey m = Some k" and "msgAction m = REMOVE_RESOURCE"
  shows "\<exists>d1. ShouldProcess H m d = (True, m, d1) \<and>
    (\<forall>l. rv d1 l = (if l = k then None else rv d l)) \<and> (\<forall>l. sv d1 l = (if l = k then None else sv d l)) \<and>
    (\<forall>l. confirmed d1 l \<longrightarrow> confirmed d l)"
  using assms key_of_resource [OF assms(2)]
  by (auto simp: ShouldProcess_def msgAction_def Let_def rv_def sv_def confirmed_def split: option.splits)

lemma ShouldProcess_update:
  assumes "\<not> skipDedupe m" and "resourceKey m = Some k" and "msgAction m \<noteq> REMOVE_RESOURCE" and "hashable H m"
  shows "ShouldProcess H m d =
    checkHash (ekey k) (withHash H m) (if msgAction m = SYNC_RESOURCE then markSynced (ekey k) d else d)"
  using assms key_of_resource [OF assms(2)]
  by (auto simp: ShouldProcess_def msgAction_def withHash_def hashable_def Let_def split: option.splits)

lemma view_checkHash:
  "\<exists>ok d1. checkHash (ekey k) m d = (ok, m, d1) \<and>
    (if msg_ProcessingAttempt m = 0 then ok \<longleftrightarrow> known_value d k \<noteq> Some (msgHash m)
     else ok \<longleftrightarrow> known_value d k = Some (msgHash m)) \<and>
    (\<forall>l. rv d1 l = (if ok \<and> msg_ProcessingAttempt m = 0 \<and> l = k then Some (msgHash m) else rv d l)) \<and>
    (\<forall>l. sv d1 l = sv d l) \<and> (\<forall>l. confirmed d1 l \<longrightarrow> l = k \<or> confirmed d l)"
proof (cases "msg_ProcessingAttempt m = 0")
  case True
  then show ?thesis
    unfolding checkHash_def Let_def getValueNoLock_ekey
    by (auto simp: msgHash_def rv_def sv_def confirmed_def)
next
  case False
  then show ?thesis
    unfolding checkHash_def Let_def getValueNoLock_ekey shouldReprocess_def
    by (auto simp: msgHash_def split: option.split)
qed

lemma view_ShouldProcess_update:
  assumes "\<not> skipDedupe m" and "resourceKey m = Some k" and "msgAction m \<noteq> REMOVE_RESOURCE" and "hashable H m"
  shows "\<exists>ok d1. ShouldProcess H m d = (ok, withHash H m, d1) \<and>
    (if msg_ProcessingAttempt m = 0 then ok \<longleftrightarrow> known_value d k \<noteq> Some (msgHash (withHash H m))
     else ok \<longleftrightarrow> known_value d k = Some (msgHash (withHash H m))) \<and>
    (\<forall>l. rv d1 l = (if ok \<and> msg_ProcessingAttempt m = 0 \<and> l = k then Some (msgHash (withHash H m)) else rv d l)) \<and>
    (\<forall>l. sv d1 l = sv d l) \<and> (\<forall>l. confirmed d1 l \<longrightarrow> l = k \<or> confirmed d l)"
proof -
  define d0 where "d0 = (if msgAction m = SYNC_RESOURCE then markSynced (ekey k) d else d)"
  have v: "rv d0 l = rv d l" "sv d0 l = sv d l" "confirmed d0 l \<Longrightarrow> l = k \<or> confirmed d l" for l
    using view_markSynced [of k d l] by (auto simp: d0_def split: if_splits)
  have kv: "known_value d0 k = known_value d k" by (simp only: known_value_def v)
  from view_checkHash [of k "withHash H m" d0] obtain ok d1 where c:
    "checkHash (ekey k) (withHash H m) d0 = (ok, withHash H m, d1)"
    "if msg_ProcessingAttempt m = 0 then ok \<longleftrightarrow> known_value d0 k \<noteq> Some (msgHash (withHash H m))
     else ok \<longleftrightarrow> known_value d0 k = Some (msgHash (withHash H m))"
    "\<forall>l. rv d1 l = (if ok \<and> msg_ProcessingAttempt m = 0 \<and> l = k then Some (msgHash (withHash H m)) else rv d0 l)"
    "\<forall>l. sv d1 l = sv d0 l" "\<forall>l. confirmed d1 l \<longrightarrow> l = k \<or> confirmed d0 l"
    by auto
  have "ShouldProcess H m d = (ok, withHash H m, d1)"
    unfolding ShouldProcess_update [OF assms] d0_def [symmetric] by (rule c(1))
  moreover note c(2) [unfolded kv] c(3) [unfolded v] c(4) [unfolded v]
  moreover have "\<forall>l. confirmed d1 l \<longrightarrow> l = k \<or> confirmed d l" using c(5) v(3) by blast
  ultimately show ?thesis by blast
qed

subsection \<open>The worker queues\<close>

text \<open>The queue of a worker, by the type's name and the shard; a queue that was not created yet is empty.\<close>

definition queueAt :: "'c sensorEventHandler \<Rightarrow> string \<times> nat \<Rightarrow> 'c msgQueue" where
  "queueAt h c = (case mget (workerQueues h) (fst c) of None \<Rightarrow> NewDedupingQueue
     | Some w \<Rightarrow> if snd c < length (queues w) then queues w ! snd c else NewDedupingQueue)"

abbreviation pendingAt :: "'c sensorEventHandler \<Rightarrow> string \<times> nat \<Rightarrow> 'c MsgFromSensor list" where
  "pendingAt h c \<equiv> items (queueAt h c)"

definition wq_ok :: "'c workerQueue \<Rightarrow> bool" where
  "wq_ok w \<longleftrightarrow> poolSize w = workerQueueSize \<and> length (queues w) = workerQueueSize + 1 \<and>
     (\<forall>q \<in> set (queues w). queue_inv msg_DedupeKey [] q)"

definition queues_ok :: "'c sensorEventHandler \<Rightarrow> bool" where
  "queues_ok h \<longleftrightarrow> (\<forall>typ w. mget (workerQueues h) typ = Some w \<longrightarrow> wq_ok w)"

definition shardOf :: "string \<Rightarrow> nat" where
  "shardOf i = (if i \<noteq> [] then unat (fnv32 i) mod workerQueueSize + 1 else 0)"

lemma shardOf_bound: "shardOf i < workerQueueSize + 1"
  by (simp add: shardOf_def workerQueueSize_def)

lemma wq_ok_new: "wq_ok (newWorkerQueue workerQueueSize)"
  by (auto simp: wq_ok_def newWorkerQueue_def queue_inv_new)

lemma items_new [simp]: "items NewDedupingQueue = []"
  by (simp add: items_def NewDedupingQueue_def)

lemma queueAt_inv: "queues_ok h \<Longrightarrow> queue_inv msg_DedupeKey [] (queueAt h c)"
  by (auto simp: queueAt_def queues_ok_def wq_ok_def queue_inv_new split: option.split)

lemma queueAt_cong [simp]: "queueAt (h\<lparr>hDeduper := d\<rparr>) = queueAt h"
  "queueAt (h\<lparr>reconciliationMap := r\<rparr>) = queueAt h"
  by (simp_all add: queueAt_def fun_eq_iff)

lemma queues_ok_cong [simp]: "queues_ok (h\<lparr>hDeduper := d\<rparr>) = queues_ok h"
  "queues_ok (h\<lparr>reconciliationMap := r\<rparr>) = queues_ok h"
  by (simp_all add: queues_ok_def)

lemma wqPush_spec:
  assumes "wq_ok w"
  shows "\<exists>w1. wqPush m w = Some w1 \<and> wq_ok w1 \<and> length (queues w1) = length (queues w) \<and>
    (\<forall>j < length (queues w). items (queues w1 ! j) =
       (if j = shardOf (msg_HashKey m)
        then specPush msg_DedupeKey [] (\<lambda>i _. i) m (items (queues w ! j)) else items (queues w ! j)))"
proof -
  have idx: "pushIndex w m = shardOf (msg_HashKey m)"
    using assms by (simp add: pushIndex_def indexFromKey_def shardOf_def wq_ok_def)
  have len: "shardOf (msg_HashKey m) < length (queues w)"
    using assms shardOf_bound by (simp add: wq_ok_def)
  then have "queue_inv msg_DedupeKey [] (queues w ! shardOf (msg_HashKey m))"
    using assms by (simp add: wq_ok_def)
  from dq.push_spec [OF this, of m] obtain q1 where q1:
    "pushMsg m (queues w ! shardOf (msg_HashKey m)) = Some q1" "queue_inv msg_DedupeKey [] q1"
    "items q1 = specPush msg_DedupeKey [] (\<lambda>i _. i) m (items (queues w ! shardOf (msg_HashKey m)))" by auto
  have "wq_ok (w\<lparr>queues := (queues w)[shardOf (msg_HashKey m) := q1]\<rparr>)"
    using assms q1(2) set_update_subset_insert [of "queues w" "shardOf (msg_HashKey m)" q1]
    by (auto simp: wq_ok_def)
  then show ?thesis
    using q1 len by (auto simp: wqPush_def Let_def idx nth_list_update)
qed

text \<open>The effect of deduplication and push on the handler.\<close>

lemma dedupeAndPush_dropped:
  "ShouldProcess (hashOf e) m (hDeduper h) = (False, m1, d1) \<Longrightarrow>
   dedupeAndPush e typ m h = Some (h\<lparr>hDeduper := d1\<rparr>)"
  by (simp add: dedupeAndPush_def)

lemma dedupeAndPush_pushed:
  assumes "ShouldProcess (hashOf e) m (hDeduper h) = (True, m1, d1)" and ok: "queues_ok h"
  shows "\<exists>h1. dedupeAndPush e typ m h = Some h1 \<and> hDeduper h1 = d1 \<and> queues_ok h1 \<and>
    reconciliationMap h1 = reconciliationMap h \<and>
    (\<forall>c. pendingAt h1 c = (if c = (typ, shardOf (msg_HashKey m1))
       then specPush msg_DedupeKey [] (\<lambda>i _. i) m1 (pendingAt h c) else pendingAt h c))"
proof -
  define w where "w = (case mget (workerQueues h) typ of None \<Rightarrow> newWorkerQueue workerQueueSize | Some w \<Rightarrow> w)"
  have w: "wq_ok w" using ok wq_ok_new by (auto simp: w_def queues_ok_def split: option.split)
  have at: "items (queueAt h (typ, j)) = (if j < length (queues w) then items (queues w ! j) else [])" for j
    by (auto simp: queueAt_def w_def newWorkerQueue_def workerQueueSize_def simp del: upt_Suc split: option.split)
  from wqPush_spec [OF w, of m1] obtain w1 where w1:
    "wqPush m1 w = Some w1" "wq_ok w1" "length (queues w1) = length (queues w)"
    "\<forall>j < length (queues w). items (queues w1 ! j) =
       (if j = shardOf (msg_HashKey m1)
        then specPush msg_DedupeKey [] (\<lambda>i _. i) m1 (items (queues w ! j)) else items (queues w ! j))" by auto
  let ?h1 = "h\<lparr>hDeduper := d1, workerQueues := mput typ w1 (workerQueues h)\<rparr>"
  have push: "dedupeAndPush e typ m h = Some ?h1"
    using assms(1) w1(1) by (simp add: dedupeAndPush_def w_def Let_def)
  have "queues_ok ?h1" using ok w1(2) by (simp add: queues_ok_def)
  moreover have "pendingAt ?h1 c = (if c = (typ, shardOf (msg_HashKey m1))
       then specPush msg_DedupeKey [] (\<lambda>i _. i) m1 (pendingAt h c) else pendingAt h c)" for c
  proof (cases "fst c = typ")
    case True
    then obtain j where c: "c = (typ, j)" by (cases c) auto
    have "shardOf (msg_HashKey m1) < length (queues w)" using w shardOf_bound by (simp add: wq_ok_def)
    then show ?thesis unfolding c at using w1(3,4) by (auto simp: queueAt_def)
  next
    case False
    then show ?thesis by (cases c) (simp add: queueAt_def)
  qed
  ultimately show ?thesis using push by auto
qed

text \<open>Taking a message from a queue.\<close>

definition setQueue :: "string \<times> nat \<Rightarrow> 'c msgQueue \<Rightarrow> 'c sensorEventHandler \<Rightarrow> 'c sensorEventHandler" where
  "setQueue c q h = (case mget (workerQueues h) (fst c) of None \<Rightarrow> h
     | Some w \<Rightarrow> h\<lparr>workerQueues := mput (fst c) (w\<lparr>queues := (queues w)[snd c := q]\<rparr>) (workerQueues h)\<rparr>)"

lemma setQueue_simps [simp]:
  "hDeduper (setQueue c q h) = hDeduper h" "reconciliationMap (setQueue c q h) = reconciliationMap h"
  by (simp_all add: setQueue_def split: option.split)

lemma take_spec:
  assumes ok: "queues_ok h" and "pullMsg (queueAt h c) = (Some m, q1)"
  shows "\<exists>xs. pendingAt h c = m # xs \<and> queues_ok (setQueue c q1 h) \<and>
    (\<forall>c'. pendingAt (setQueue c q1 h) c' = (if c' = c then xs else pendingAt h c'))"
proof -
  have inv: "queue_inv msg_DedupeKey [] (queueAt h c)" using ok by (rule queueAt_inv)
  have "pendingAt h c \<noteq> []" using dq.pop_empty [OF inv] assms(2) by force
  then obtain x xs where xs: "pendingAt h c = x # xs" by (cases "pendingAt h c") auto
  from dq.pop_spec [OF inv xs] assms(2) have q1: "x = m" "queue_inv msg_DedupeKey [] q1" "items q1 = xs" by auto
  from xs obtain w where w: "mget (workerQueues h) (fst c) = Some w" "snd c < length (queues w)"
    by (auto simp: queueAt_def split: option.splits if_splits)
  have "wq_ok w" using ok w(1) by (auto simp: queues_ok_def)
  then have "wq_ok (w\<lparr>queues := (queues w)[snd c := q1]\<rparr>)"
    using q1(2) set_update_subset_insert [of "queues w" "snd c" q1] by (auto simp: wq_ok_def)
  then have "queues_ok (setQueue c q1 h)" using ok w by (simp add: queues_ok_def setQueue_def)
  moreover have "pendingAt (setQueue c q1 h) c' = (if c' = c then xs else pendingAt h c')" for c'
    using w q1 by (cases c; cases c') (auto simp: queueAt_def setQueue_def nth_list_update)
  ultimately show ?thesis using xs q1 by auto
qed

end
