(* ===== verification/Sensor_Safety.thy ===== *)
theory Sensor_Safety
  imports Sensor_Views
begin

text \<open>
  A Sensor connection as a state machine: the handler receives messages one at a time, workers take
  them from their queues, run the pipeline, and report to the deduper; messages that failed are injected
  again later. The theory shows that an event is dropped as a duplicate only when its contents are what
  Central has, or is about to have, unless one of the cases in which the code loses track of a
  resource has occurred; these are recorded by the steps.
\<close>

subsection \<open>States and steps\<close>

text \<open>
  Beside the handler: the message each worker is processing, the messages waiting to be injected
  again, and two things the code does not keep: the hash of the resource as the pipeline last wrote it,
  and the resources for which a removal was received or something was lost.
\<close>

record 'c connState =
  sh :: "'c sensorEventHandler"
  inFlight :: "string \<times> nat \<Rightarrow> 'c MsgFromSensor option"
  waiting :: "'c MsgFromSensor list"
  stored :: "resourceType \<times> string \<Rightarrow> 64 word option"
  untrusted :: "(resourceType \<times> string) set"

definition coord :: "resourceType \<times> string \<Rightarrow> string \<times> nat" where
  "coord k = (typeString (fst k), shardOf (snd k))"

definition isFor :: "resourceType \<times> string \<Rightarrow> 'c MsgFromSensor \<Rightarrow> bool" where
  "isFor k m \<longleftrightarrow> tracked m \<and> resourceKey m = Some k"

text \<open>The messages on a resource being processed or queued, in order, and those waiting for a retry.\<close>

definition pend :: "'c connState \<Rightarrow> resourceType \<times> string \<Rightarrow> 'c MsgFromSensor list" where
  "pend s k =
     (case inFlight s (coord k) of Some m \<Rightarrow> if isFor k m then [m] else [] | None \<Rightarrow> []) @
     filter (isFor k) (pendingAt (sh s) (coord k))"

definition retries :: "'c connState \<Rightarrow> resourceType \<times> string \<Rightarrow> 'c MsgFromSensor list" where
  "retries s k = filter (isFor k) (waiting s)"

text \<open>The type whose worker queue \<open>addMultiplexed\<close> chooses.\<close>

definition queueType :: "'c MsgFromSensor \<Rightarrow> resourceType option" where
  "queueType m = map_option (\<lambda>k. if fst k = T_ReprocessDeployment then T_Deployment
     else if fst k = T_NodeInventory \<or> fst k = T_IndexReport then T_Node else fst k) (resourceKey m)"

text \<open>
  What can go wrong when a message is received or injected. A message on the resource itself: a
  removal (the identifier may be used again while the removal is queued), an event without a hash, and a
  creation that is not the first event, because creations are queued without a key and may be
  overtaken. A message on something else: it has the identifier as its key in the same
  queue, and replaces what is queued. Run-time alerts of the admission controller do so with the
  deploy-time alerts of their deployment.
\<close>

definition hazard :: "'c connEnv \<Rightarrow> 'c connState \<Rightarrow> 'c MsgFromSensor \<Rightarrow> resourceType \<times> string \<Rightarrow> bool" where
  "hazard e s m k \<longleftrightarrow>
     (if isFor k m then
        msgAction m = REMOVE_RESOURCE \<or> \<not> hashable (hashOf e) m \<or>
        msgAction m = CREATE_RESOURCE \<and> (msg_DedupeKey m \<noteq> [] \<or> pend s k \<noteq> [] \<or> retries s k \<noteq> [])
      else queueType m = Some (fst k) \<and> msg_DedupeKey (assignKeys m) = snd k)"

text \<open>No fragment reconciles alerts, and the loop of \<open>ProcessSync\<close> visits every key.\<close>

definition env_ok :: "'c connEnv \<Rightarrow> 'c connState \<Rightarrow> bool" where
  "env_ok e s \<longleftrightarrow> T_AlertResults \<notin> fst ` set (fragments e) \<and>
     set (syncOrder e) = set (mkeys (successfullyProcessed (hDeduper (sh s))))"

definition afterRemovals :: "(resourceType \<times> string) list \<Rightarrow> (resourceType \<times> string \<Rightarrow> 64 word option)
    \<Rightarrow> resourceType \<times> string \<Rightarrow> 64 word option" where
  "afterRemovals deleted st k = (if k \<in> set deleted then None else st k)"

definition applyEvent :: "'c MsgFromSensor \<Rightarrow> (resourceType \<times> string \<Rightarrow> 64 word option)
    \<Rightarrow> resourceType \<times> string \<Rightarrow> 64 word option" where
  "applyEvent m st k =
     (if isFor k m then (if msgAction m = REMOVE_RESOURCE then None else Some (msgHash m)) else st k)"

text \<open>Every fragment that matches a message succeeds, and one does.\<close>

definition allOk :: "fragmentResult list \<Rightarrow> bool" where
  "allOk results \<longleftrightarrow> results \<noteq> [] \<and> set results \<subseteq> {RunOk}"

text \<open>
  The steps, one for every branch of the handler and of a worker. Those that lose something record the
  resource: a canceled context drops the message but leaves it received; an unretryable failure
  makes the deduper forget the resource, although a newer event may be queued; a creation that is retried
  comes back without a key; and after the last attempt the message is given up but stays received.
\<close>

inductive connStep :: "'c connState \<Rightarrow> 'c connState \<Rightarrow> bool" where
  Receive: "msg_ProcessingAttempt m = 0 \<Longrightarrow> env_ok e s \<Longrightarrow>
    handleEvent e m (sh s) = Some (deleted, h1) \<Longrightarrow>
    connStep s (s\<lparr>sh := h1, stored := afterRemovals deleted (stored s),
                   untrusted := untrusted s \<union> {k. hazard e s m k}\<rparr>)"
| Take: "inFlight s c = None \<Longrightarrow> pullMsg (queueAt (sh s) c) = (Some m, q1) \<Longrightarrow>
    connStep s (s\<lparr>sh := setQueue c q1 (sh s), inFlight := (inFlight s)(c := Some m)\<rparr>)"
| Processed: "inFlight s c = Some m \<Longrightarrow> allOk results \<Longrightarrow>
    runWorker results m (hDeduper (sh s)) = (None, d1) \<Longrightarrow>
    connStep s (s\<lparr>sh := (sh s)\<lparr>hDeduper := d1\<rparr>, inFlight := (inFlight s)(c := None),
                   stored := applyEvent m (stored s)\<rparr>)"
| Stopped: "inFlight s c = Some m \<Longrightarrow> fst (pipelineRun results 0 m (hDeduper (sh s))) = None \<Longrightarrow> \<not> allOk results \<Longrightarrow>
    runWorker results m (hDeduper (sh s)) = (None, d1) \<Longrightarrow>
    connStep s (s\<lparr>sh := (sh s)\<lparr>hDeduper := d1\<rparr>, inFlight := (inFlight s)(c := None),
                   untrusted := untrusted s \<union> {k. isFor k m}\<rparr>)"
| Failed: "inFlight s c = Some m \<Longrightarrow>
    fst (pipelineRun results 0 m (hDeduper (sh s))) = Some UnretryableError \<Longrightarrow>
    runWorker results m (hDeduper (sh s)) = (None, d1) \<Longrightarrow>
    connStep s (s\<lparr>sh := (sh s)\<lparr>hDeduper := d1\<rparr>, inFlight := (inFlight s)(c := None),
                   untrusted := untrusted s \<union> {k. isFor k m \<and> pend s k \<noteq> [m]}\<rparr>)"
| Retried: "inFlight s c = Some m \<Longrightarrow>
    runWorker results m (hDeduper (sh s)) = (Some m1, d1) \<Longrightarrow>
    connStep s (s\<lparr>sh := (sh s)\<lparr>hDeduper := d1\<rparr>, inFlight := (inFlight s)(c := None),
                   waiting := waiting s @ [m1],
                   untrusted := untrusted s \<union> {k. isFor k m \<and> msgAction m = CREATE_RESOURCE}\<rparr>)"
| Exhausted: "inFlight s c = Some m \<Longrightarrow>
    fst (pipelineRun results 0 m (hDeduper (sh s))) = Some TransientError \<Longrightarrow>
    runWorker results m (hDeduper (sh s)) = (None, d1) \<Longrightarrow>
    connStep s (s\<lparr>sh := (sh s)\<lparr>hDeduper := d1\<rparr>, inFlight := (inFlight s)(c := None),
                   untrusted := untrusted s \<union> {k. isFor k m}\<rparr>)"
| Injected: "w \<in> set (waiting s) \<Longrightarrow> env_ok e s \<Longrightarrow>
    handleEvent e w (sh s) = Some (deleted, h1) \<Longrightarrow>
    connStep s (s\<lparr>sh := h1, waiting := remove1 w (waiting s), stored := afterRemovals deleted (stored s),
                   untrusted := untrusted s \<union> {k. hazard e s w k}\<rparr>)"

inductive_cases connStepE: "connStep s s1"

definition startState :: "string \<Rightarrow> deduperImpl \<Rightarrow> initSyncManager \<Rightarrow> (resourceType \<times> string \<Rightarrow> 64 word option)
    \<Rightarrow> (resourceType \<times> string) set \<Rightarrow> 'c connState" where
  "startState cluster d mgr st X =
     \<lparr>sh = newConnection cluster d mgr, inFlight = (\<lambda>_. None), waiting = [], stored = st, untrusted = X\<rparr>"

text \<open>
  A connection starts with a deduper whose processed hashes are those of the stored resources, apart
  from resources that were lost track of before.
\<close>

inductive reachableConn :: "'c connState \<Rightarrow> bool" where
  Start: "\<forall>k v. fst k \<in> trackedTypes \<and> k \<notin> X \<and> sv d k = Some v \<longrightarrow> st k = Some v \<Longrightarrow>
    reachableConn (startState cluster d mgr st X)"
| Step: "reachableConn s \<Longrightarrow> connStep s s1 \<Longrightarrow> reachableConn s1"

text \<open>No outcome is left out: whatever the pipeline returns for the message of a worker is a step, and
  so is whatever the handler does with a message.\<close>

lemma pipelineRun_ok:
  "results \<noteq> [] \<Longrightarrow> set results \<subseteq> {RunOk} \<Longrightarrow> pipelineRun results n m d = (None, MarkSuccessful m d)"
proof (induction results arbitrary: n)
  case (Cons a rest)
  then show ?case by (cases rest) simp_all
qed simp

lemma pipelineRun_not_canceled: "fst (pipelineRun results n m d) \<noteq> Some Canceled"
  by (induction results n m d rule: pipelineRun.induct) auto

lemma worker_outcomes_are_steps:
  assumes "inFlight s c = Some m"
  shows "\<exists>s1. connStep s s1 \<and> sh s1 = (sh s)\<lparr>hDeduper := snd (runWorker results m (hDeduper (sh s)))\<rparr> \<and>
    inFlight s1 = (inFlight s)(c := None) \<and>
    waiting s1 = waiting s @ (case fst (runWorker results m (hDeduper (sh s))) of None \<Rightarrow> [] | Some m1 \<Rightarrow> [m1])"
proof -
  obtain retry d1 where run: "runWorker results m (hDeduper (sh s)) = (retry, d1)" by fastforce
  show ?thesis
  proof (cases retry)
    case (Some m1)
    note run = run [unfolded Some]
    show ?thesis by (rule exI, rule conjI [OF connStep.Retried [OF assms run]]) (simp add: run)
  next
    case None
    note run = run [unfolded None]
    consider "allOk results" | "\<not> allOk results" "fst (pipelineRun results 0 m (hDeduper (sh s))) = None"
      | "fst (pipelineRun results 0 m (hDeduper (sh s))) = Some UnretryableError"
      | "fst (pipelineRun results 0 m (hDeduper (sh s))) = Some TransientError"
      using pipelineRun_not_canceled [of results 0 m "hDeduper (sh s)"]
      by (cases "fst (pipelineRun results 0 m (hDeduper (sh s)))") (auto intro: handlerError.exhaust)
    then show ?thesis
    proof cases
      case 1
      show ?thesis by (rule exI, rule conjI [OF connStep.Processed [OF assms 1 run]]) (simp add: run)
    next
      case 2
      show ?thesis by (rule exI, rule conjI [OF connStep.Stopped [OF assms 2(2,1) run]]) (simp add: run)
    next
      case 3
      show ?thesis by (rule exI, rule conjI [OF connStep.Failed [OF assms 3 run]]) (simp add: run)
    next
      case 4
      show ?thesis by (rule exI, rule conjI [OF connStep.Exhausted [OF assms 4 run]]) (simp add: run)
    qed
  qed
qed

subsection \<open>The invariant of one resource\<close>

text \<open>
  In terms of the received and the processed value of the deduper, the pending messages, the retries
  and the stored value: a value is current when the last pending event brings it, or else when it is
  stored or brought by a retry.
\<close>

definition current :: "'c MsgFromSensor list \<Rightarrow> 'c MsgFromSensor list \<Rightarrow> 64 word option \<Rightarrow> 64 word \<Rightarrow> bool" where
  "current P W st v \<longleftrightarrow>
     (if P \<noteq> [] then msgHash (last P) = v else st = Some v \<or> (\<exists>w \<in> set W. msgHash w = v))"

definition firstKnown :: "64 word option \<Rightarrow> 64 word option \<Rightarrow> 64 word option" where
  "firstKnown r p = (case r of Some v \<Rightarrow> Some v | None \<Rightarrow> p)"

definition key_ok :: "64 word option \<Rightarrow> 64 word option \<Rightarrow> 'c MsgFromSensor list \<Rightarrow> 'c MsgFromSensor list
    \<Rightarrow> 64 word option \<Rightarrow> bool" where
  "key_ok r p P W st \<longleftrightarrow>
     (\<forall>v. firstKnown r p = Some v \<longrightarrow> current P W st v) \<and>
     (r = None \<and> length P = 2 \<longrightarrow> msgHash (hd P) = msgHash (last P)) \<and>
     (\<forall>v. p = Some v \<longrightarrow> st = Some v) \<and>
     (\<forall>m \<in> set P \<union> set W. msgAction m \<noteq> REMOVE_RESOURCE)"

lemma firstKnown_simps [simp]: "firstKnown (Some v) p = Some v" "firstKnown None p = p"
  by (simp_all add: firstKnown_def)

lemma key_okI:
  assumes "\<And>v. firstKnown r p = Some v \<Longrightarrow> current P W st v"
    and "r = None \<Longrightarrow> length P = 2 \<Longrightarrow> msgHash (hd P) = msgHash (last P)"
    and "\<And>v. p = Some v \<Longrightarrow> st = Some v"
    and "\<And>m. m \<in> set P \<or> m \<in> set W \<Longrightarrow> msgAction m \<noteq> REMOVE_RESOURCE"
  shows "key_ok r p P W st"
  using assms by (simp add: key_ok_def)

lemma key_okD:
  assumes "key_ok r p P W st"
  shows "firstKnown r p = Some v \<Longrightarrow> current P W st v"
    and "r = None \<Longrightarrow> length P = 2 \<Longrightarrow> msgHash (hd P) = msgHash (last P)"
    and "p = Some v \<Longrightarrow> st = Some v"
    and "m \<in> set P \<or> m \<in> set W \<Longrightarrow> msgAction m \<noteq> REMOVE_RESOURCE"
  using assms by (auto simp: key_ok_def)

lemma current_simps [simp]:
  "current [] W st v \<longleftrightarrow> st = Some v \<or> (\<exists>w \<in> set W. msgHash w = v)"
  "current (ys @ [m]) W st v \<longleftrightarrow> msgHash m = v"
  "P \<noteq> [] \<Longrightarrow> current (m # P) W st v = current P W st v"
  "P \<noteq> [] \<Longrightarrow> current P (W @ W1) st v = current P W st v"
  by (simp_all add: current_def)

lemma key_ok_received:
  assumes "key_ok r p P W st" and "msgAction m \<noteq> REMOVE_RESOURCE" and "set ys \<subseteq> set P"
  shows "key_ok (Some (msgHash m)) p (ys @ [m]) W st"
  by (rule key_okI) (use assms key_okD [OF assms(1)] in auto)

lemma key_ok_injected:
  assumes ok: "key_ok r p P W st" and known: "firstKnown r p = Some (msgHash m)"
    and P: "P = ys \<or> (\<exists>z. P = ys @ [z])" and len: "length ys \<le> 1"
    and m: "msgAction m \<noteq> REMOVE_RESOURCE" and W: "set W1 \<subseteq> set W"
  shows "key_ok r p (ys @ [m]) W1 st"
proof (rule key_okI)
  have cur: "current P W st (msgHash m)" using key_okD(1) [OF ok known] .
  assume r: "r = None" and "length (ys @ [m]) = 2"
  then obtain a where ys: "ys = [a]" by (cases ys) auto
  show "msgHash (hd (ys @ [m])) = msgHash (last (ys @ [m]))"
  proof (cases "P = ys")
    case True
    then show ?thesis using cur ys by (simp add: current_def)
  next
    case False
    with P obtain z where "P = ys @ [z]" by blast
    then show ?thesis using key_okD(2) [OF ok r] cur ys by (simp add: current_def)
  qed
qed (use ok m W P known key_okD(3,4) [OF ok] in auto)

lemma key_ok_not_injected:
  assumes ok: "key_ok r p P W st" and "firstKnown r p \<noteq> Some (msgHash w)"
    and W: "set W1 \<subseteq> set W" "set W \<subseteq> insert w (set W1)"
  shows "key_ok r p P W1 st"
proof (rule key_okI)
  fix v assume "firstKnown r p = Some v"
  with key_okD(1) [OF ok this] assms(2) show "current P W1 st v"
    by (auto simp: current_def dest!: subsetD [OF W(2)])
qed (use key_okD(2-4) [OF ok] W in auto)

lemma key_ok_processed:
  assumes ok: "key_ok r p (m # P) W st" and len: "length P \<le> 1"
  shows "key_ok (if r = Some (msgHash m) then None else r) (Some (msgHash m)) P W (Some (msgHash m))"
proof (cases P)
  case Nil
  then show ?thesis using key_okD [OF ok] by (intro key_okI; cases r) (auto simp: current_def split: if_splits)
next
  case (Cons b Q)
  with len have P: "P = [b]" by simp
  show ?thesis
    by (rule key_okI; use P key_okD(1) [OF ok] key_okD(2) [OF ok] key_okD(4) [OF ok] in \<open>cases r\<close>)
      (auto simp: current_def split: if_splits)
qed

lemma key_ok_failed: "key_ok r p [m] W st \<Longrightarrow> key_ok None p [] W st"
  by (auto simp: key_ok_def)

lemma key_ok_retried:
  assumes ok: "key_ok r p (m # P) W st" and len: "length P \<le> 1"
    and m1: "msgHash m1 = msgHash m" "msgAction m1 = msgAction m"
  shows "key_ok r p P (W @ [m1]) st"
proof (rule key_okI)
  fix v assume "firstKnown r p = Some v"
  from key_okD(1) [OF ok this] show "current P (W @ [m1]) st v"
    using m1 by (cases P) (simp_all add: current_def)
next
  fix x assume "x \<in> set P \<or> x \<in> set (W @ [m1])"
  then show "msgAction x \<noteq> REMOVE_RESOURCE" using key_okD(4) [OF ok, of x] key_okD(4) [OF ok, of m] m1 by auto
qed (use len key_okD(3) [OF ok] in auto)

lemma key_ok_synced:
  assumes ok: "key_ok r p P W st" and p1: "p1 = p \<or> p1 = None"
    and st1: "st1 = st \<or> st1 = None \<and> r = None \<and> p1 = None"
  shows "key_ok r p1 P W st1"
proof (rule key_okI)
  fix v assume "firstKnown r p1 = Some v"
  then have "firstKnown r p = Some v" "st1 = st" using p1 st1 by (cases r; auto)+
  then show "current P W st1 v" using key_okD(1) [OF ok] by simp
qed (use key_okD(2-4) [OF ok] p1 st1 in auto)

subsection \<open>Messages in queues\<close>

text \<open>The resources the invariant is about.\<close>

definition trusted :: "'c connState \<Rightarrow> (resourceType \<times> string) set" where
  "trusted s = {k. fst k \<in> trackedTypes \<and> snd k \<noteq> [] \<and> k \<notin> untrusted s}"

lemma trustedD: "k \<in> trusted s \<Longrightarrow> fst k \<in> trackedTypes" "k \<in> trusted s \<Longrightarrow> snd k \<noteq> []"
  "k \<in> trusted s \<Longrightarrow> k \<notin> untrusted s"
  by (simp_all add: trusted_def)

lemma trusted_mono: "untrusted s \<subseteq> untrusted s1 \<Longrightarrow> trusted s1 \<subseteq> trusted s"
  by (auto simp: trusted_def)

definition item_ok :: "(resourceType \<times> string) set \<Rightarrow> string \<times> nat \<Rightarrow> 'c MsgFromSensor \<Rightarrow> bool" where
  "item_ok G c m \<longleftrightarrow>
     (\<forall>k \<in> G. if isFor k m then
          c = coord k \<and> msg_DedupeKey m = (if msgAction m = CREATE_RESOURCE then [] else snd k) \<and>
          (msgAction m \<noteq> REMOVE_RESOURCE \<longrightarrow> ev_SensorHash (eventOf m) \<noteq> None)
        else c = coord k \<longrightarrow> msg_DedupeKey m \<noteq> snd k)"

lemma item_ok_mono: "item_ok G c m \<Longrightarrow> G1 \<subseteq> G \<Longrightarrow> item_ok G1 c m"
  unfolding item_ok_def by blast

lemma item_ok_isFor:
  assumes "item_ok G c m" and "isFor k m" and "k \<in> G"
  shows "c = coord k" and "msg_DedupeKey m = (if msgAction m = CREATE_RESOURCE then [] else snd k)"
    and "msgAction m \<noteq> REMOVE_RESOURCE \<Longrightarrow> ev_SensorHash (eventOf m) \<noteq> None"
  using assms by (auto simp: item_ok_def)

text \<open>An item of a resource's queue with the resource's identifier as its key is an event of the resource.\<close>

lemma same_key_same_resource:
  "item_ok G (coord k) x \<Longrightarrow> k \<in> G \<Longrightarrow> msg_DedupeKey x = snd k \<Longrightarrow> isFor k x"
  unfolding item_ok_def by metis

definition shape :: "'c MsgFromSensor list \<Rightarrow> bool" where
  "shape P \<longleftrightarrow> P = [] \<or> (\<exists>a. P = [a]) \<or> (\<exists>a b. P = [a, b] \<and> msgAction b \<noteq> CREATE_RESOURCE)"

lemma shape_length: "shape P \<Longrightarrow> length P \<le> 2"
  by (auto simp: shape_def)

lemma shape_tl: "shape (m # P) \<Longrightarrow> shape P \<and> length P \<le> 1"
  by (auto simp: shape_def)

lemma isFor_tracked: "isFor k m \<Longrightarrow> tracked m" and isFor_key: "isFor k m \<Longrightarrow> resourceKey m = Some k"
  and isFor_type: "isFor k m \<Longrightarrow> fst k \<in> trackedTypes"
  by (auto simp: isFor_def tracked_def)

lemma isFor_unskipped: "isFor k m \<Longrightarrow> \<not> skipDedupe m"
  by (auto simp: isFor_def tracked_def)

lemma filter_push_other:
  assumes "\<not> P m" and "\<And>x. x \<in> set xs \<Longrightarrow> key x = key m \<Longrightarrow> key m \<noteq> zero \<Longrightarrow> \<not> P x"
  shows "filter P (specPush key zero (\<lambda>i _. i) m xs) = filter P xs"
proof (cases "key m = zero")
  case True
  with assms(1) show ?thesis by (simp add: specPush_def)
next
  case False
  have "filter P (replaceKeyed key (\<lambda>i _. i) m xs) = filter P xs"
    using assms(2) False by (induction xs) (auto simp: assms(1))
  with False show ?thesis by (simp add: specPush_def)
qed

lemma filter_replaceKeyed:
  assumes "P m" and "\<And>x. x \<in> set xs \<Longrightarrow> key x = key m \<Longrightarrow> P x"
  shows "filter P (replaceKeyed key (\<lambda>i _. i) m xs) = replaceKeyed key (\<lambda>i _. i) m (filter P xs)"
  using assms(2) by (induction xs) (auto simp: assms(1))

text \<open>Pushing an event of a resource: it is the last pending one, and at most one is before it.\<close>

lemma push_own:
  assumes f: "length f \<le> 1" and sh: "shape (f @ Q)"
    and Q: "\<And>x. x \<in> set Q \<Longrightarrow> msg_DedupeKey x = (if msgAction x = CREATE_RESOURCE then [] else i)"
    and d: "distinct (map msg_DedupeKey (keyedItems msg_DedupeKey [] Q))"
    and m: "msg_DedupeKey m = i" "i \<noteq> []"
  shows "\<exists>ys. f @ replaceKeyed msg_DedupeKey (\<lambda>i _. i) m Q = ys @ [m] \<and> length ys \<le> 1 \<and>
    (f @ Q = ys \<or> (\<exists>z. f @ Q = ys @ [z]))"
proof (cases Q)
  case Nil
  then show ?thesis using f by simp
next
  case (Cons a R)
  show ?thesis
  proof (cases R)
    case Nil
    show ?thesis
    proof (cases "msgAction a = CREATE_RESOURCE")
      case True
      with sh f Cons Nil have "f = []" by (cases f) (auto simp: shape_def)
      then show ?thesis using True Q [of a] Cons Nil m by simp
    next
      case False
      then show ?thesis using Q [of a] Cons Nil m f by simp
    qed
  next
    case (Cons b S)
    with sh \<open>Q = a # R\<close> have R: "f = []" "S = []" "msgAction b \<noteq> CREATE_RESOURCE"
      by (cases f; auto simp: shape_def)+
    then have keys: "msg_DedupeKey b = i" using Q \<open>Q = a # R\<close> Cons by simp
    have "msg_DedupeKey a \<noteq> i"
    proof
      assume "msg_DedupeKey a = i"
      with d keys m \<open>Q = a # R\<close> Cons show False by (simp add: keyedItems_def)
    qed
    with keys m R \<open>Q = a # R\<close> Cons show ?thesis by simp
  qed
qed

subsection \<open>What a received message does\<close>

lemma tracked_TypeOf:
  assumes "tracked m" and "resourceKey m = Some k"
  obtains ev r where "msg_Event m = Some ev" "ev_Resource ev = Some r" "TypeOf r = fst k" "ev_Id ev = snd k"
    "fst k \<in> trackedTypes"
  using assms by (auto simp: tracked_def resourceKey_def split: option.splits)

lemma assignKeys_simps [simp]:
  "msg_Event (assignKeys m) = msg_Event m" "msg_ProcessingAttempt (assignKeys m) = msg_ProcessingAttempt m"
  by (simp_all add: assignKeys_def Let_def)

lemma same_event:
  "msg_Event m = msg_Event n \<Longrightarrow> eventOf m = eventOf n \<and> resourceKey m = resourceKey n \<and> skipDedupe m = skipDedupe n \<and>
     tracked m = tracked n \<and> msgAction m = msgAction n \<and> hashable H m = hashable H n \<and> msgHash m = msgHash n"
  by (simp add: eventOf_def resourceKey_def skipDedupe_def tracked_def msgAction_def hashable_def msgHash_def)

lemmas same_event_assignKeys [simp] = same_event [of "assignKeys m" m for m, OF assignKeys_simps(1)]

lemma assignKeys_tracked:
  assumes "tracked m" and "resourceKey m = Some k"
  shows "msg_HashKey (assignKeys m) = snd k"
    and "msg_DedupeKey (assignKeys m) = (if msgAction m = CREATE_RESOURCE then msg_DedupeKey m else snd k)"
proof -
  from tracked_TypeOf [OF assms] obtain ev r where *: "msg_Event m = Some ev" "ev_Resource ev = Some r"
    "TypeOf r = fst k" "ev_Id ev = snd k" "fst k \<in> trackedTypes" .
  then have "TypeOf r \<noteq> T_ReprocessDeployment" "TypeOf r \<noteq> T_NodeInventory" "TypeOf r \<noteq> T_IndexReport"
    "TypeOf r \<noteq> T_VirtualMachine" "TypeOf r \<noteq> T_VirtualMachineIndexReport"
    by (auto simp: trackedTypes_def)
  with * show "msg_HashKey (assignKeys m) = snd k"
    "msg_DedupeKey (assignKeys m) = (if msgAction m = CREATE_RESOURCE then msg_DedupeKey m else snd k)"
    by (simp_all add: assignKeys_def shallDedupe_def eventOf_def msgAction_def Let_def)
qed

definition recordEvent :: "resourceType \<times> string \<Rightarrow> StoreMap \<Rightarrow> StoreMap" where
  "recordEvent k r = (if smIsClosed r then r else AddWithTypeString (typeString (fst k)) (snd k) r)"

lemma handleEvent_tracked:
  assumes "tracked m" and "resourceKey m = Some k"
  shows "handleEvent e m h = map_option (Pair [])
    (dedupeAndPush e (typeString (fst k)) (assignKeys m) (h\<lparr>reconciliationMap := recordEvent k (reconciliationMap h)\<rparr>))"
proof -
  from tracked_TypeOf [OF assms] obtain ev r where *: "msg_Event m = Some ev" "ev_Resource ev = Some r"
    "TypeOf r = fst k" "ev_Id ev = snd k" "fst k \<in> trackedTypes" .
  have "h = h\<lparr>reconciliationMap := reconciliationMap h\<rparr>" by simp
  with * show ?thesis
    by (cases r) (auto simp: handleEvent_def addMultiplexed_def recordEvent_def trackedTypes_def Let_def)
qed

lemma handleEvent_synced:
  assumes "msg_Event m = Some ev" and "ev_Resource ev = Some (SensorEvent_Synced ids)"
  shows "handleEvent e m h = handleSynced e ids h"
  using assms by (simp add: handleEvent_def addMultiplexed_def)

lemma handleEvent_pushes:
  assumes "map_option fst (resourceKey m) \<noteq> Some T_Synced"
    and "handleEvent e m h = Some (deleted, h1)"
  shows "deleted = [] \<and> (h1 = h \<or>
    (\<exists>t m2 r. queueType m = Some t \<and> dedupeAndPush e (typeString t) m2 (h\<lparr>reconciliationMap := r\<rparr>) = Some h1 \<and>
       (r = reconciliationMap h \<or> (\<exists>t i. r = AddWithTypeString t i (reconciliationMap h))) \<and>
       msg_Event m2 = msg_Event m \<and>
       (t \<in> trackedTypes \<longrightarrow> msg_DedupeKey m2 = msg_DedupeKey (assignKeys m))))"
proof (cases "msg_Event m")
  case None
  then show ?thesis using assms(2) by (simp add: handleEvent_def addMultiplexed_def)
next
  case (Some ev)
  show ?thesis
  proof (cases "ev_Resource ev")
    case None
    then show ?thesis using assms(2) Some by (simp add: handleEvent_def addMultiplexed_def)
  next
    case res: (Some r)
    let ?r = "if smIsClosed (reconciliationMap h) then reconciliationMap h
              else AddWithTypeString (typeString (TypeOf r)) (ev_Id ev) (reconciliationMap h)"
    have hr: "h\<lparr>reconciliationMap := reconciliationMap h\<rparr> = h" by simp
    have q: "queueType m = Some (if TypeOf r = T_ReprocessDeployment then T_Deployment
        else if TypeOf r = T_NodeInventory \<or> TypeOf r = T_IndexReport then T_Node else TypeOf r)"
      using Some res by (simp add: queueType_def resourceKey_def)
    have "\<exists>ty m2 r'. queueType m = Some ty \<and>
        handleEvent e m h = map_option (Pair []) (dedupeAndPush e (typeString ty) m2 (h\<lparr>reconciliationMap := r'\<rparr>)) \<and>
        (r' = reconciliationMap h \<or> r' = ?r) \<and> msg_Event m2 = msg_Event m \<and>
        (ty \<in> trackedTypes \<longrightarrow> msg_DedupeKey m2 = msg_DedupeKey (assignKeys m))"
    proof (cases "TypeOf r \<in> {T_ReprocessDeployment, T_NodeInventory, T_IndexReport}")
      case False
      moreover have "TypeOf r \<noteq> T_Synced" using assms(1) Some res by (auto simp: resourceKey_def)
      ultimately have "handleEvent e m h =
          map_option (Pair []) (dedupeAndPush e (typeString (TypeOf r)) (assignKeys m) (h\<lparr>reconciliationMap := ?r\<rparr>))"
        using Some res by (cases r) (simp_all add: handleEvent_def addMultiplexed_def Let_def)
      then show ?thesis
        by (intro exI [of _ "TypeOf r"] exI [of _ "assignKeys m"] exI [of _ ?r]) (use q False in simp)
    next
      case True
      then show ?thesis
      proof (elim insertE emptyE)
        assume "TypeOf r = T_ReprocessDeployment"
        then have "handleEvent e m h = map_option (Pair []) (dedupeAndPush e (typeString T_Deployment) (assignKeys m)
            (h\<lparr>reconciliationMap := reconciliationMap h\<rparr>))"
          using Some res by (cases r) (simp_all add: handleEvent_def addMultiplexed_def hr)
        then show ?thesis
          by (intro exI [of _ "T_Deployment"] exI [of _ "assignKeys m"] exI [of _ "reconciliationMap h"]) (use q \<open>TypeOf r = T_ReprocessDeployment\<close> in simp)
      next
        assume "TypeOf r = T_NodeInventory"
        then have "handleEvent e m h = map_option (Pair []) (dedupeAndPush e (typeString T_Node)
            ((assignKeys m)\<lparr>msg_DedupeKey := ''NodeInventory:'' @ msg_DedupeKey (assignKeys m)\<rparr>)
            (h\<lparr>reconciliationMap := reconciliationMap h\<rparr>))"
          using Some res by (cases r) (simp_all add: handleEvent_def addMultiplexed_def hr)
        then show ?thesis
          by (intro exI [of _ "T_Node"]
              exI [of _ "(assignKeys m)\<lparr>msg_DedupeKey := ''NodeInventory:'' @ msg_DedupeKey (assignKeys m)\<rparr>"]
              exI [of _ "reconciliationMap h"]) (use q \<open>TypeOf r = T_NodeInventory\<close> in \<open>simp add: trackedTypes_def\<close>)
      next
        assume "TypeOf r = T_IndexReport"
        then have "handleEvent e m h = map_option (Pair []) (dedupeAndPush e (typeString T_Node)
            ((assignKeys m)\<lparr>msg_DedupeKey := ''NodeIndex:'' @ msg_DedupeKey (assignKeys m)\<rparr>)
            (h\<lparr>reconciliationMap := reconciliationMap h\<rparr>))"
          using Some res by (cases r) (simp_all add: handleEvent_def addMultiplexed_def hr)
        then show ?thesis
          by (intro exI [of _ "T_Node"]
              exI [of _ "(assignKeys m)\<lparr>msg_DedupeKey := ''NodeIndex:'' @ msg_DedupeKey (assignKeys m)\<rparr>"]
              exI [of _ "reconciliationMap h"]) (use q \<open>TypeOf r = T_IndexReport\<close> in \<open>simp add: trackedTypes_def\<close>)
      qed
    qed
    then obtain ty m2 r' where *: "handleEvent e m h =
        map_option (Pair []) (dedupeAndPush e (typeString ty) m2 (h\<lparr>reconciliationMap := r'\<rparr>))"
      "r' = reconciliationMap h \<or> r' = ?r" "msg_Event m2 = msg_Event m"
      "ty \<in> trackedTypes \<longrightarrow> msg_DedupeKey m2 = msg_DedupeKey (assignKeys m)" "queueType m = Some ty" by auto
    from *(1) assms(2) have "deleted = []" "dedupeAndPush e (typeString ty) m2 (h\<lparr>reconciliationMap := r'\<rparr>) = Some h1"
      by (auto simp: map_option_case split: option.splits)
    moreover from *(2) have "r' = reconciliationMap h \<or> (\<exists>t i. r' = AddWithTypeString t i (reconciliationMap h))"
      by (auto split: if_splits)
    ultimately show ?thesis using *(3-5) by blast
  qed
qed

text \<open>An untracked message does not change what the deduper knows of tracked resources.\<close>

text \<open>What a message does to the deduper's values of other resources: nothing.\<close>

lemma view_ShouldProcess_other:
  "\<exists>ok m1 d1. ShouldProcess H m d = (ok, m1, d1) \<and> (m1 = m \<or> m1 = withHash H m) \<and>
    (\<forall>k. fst k \<in> trackedTypes \<longrightarrow> \<not> isFor k m \<longrightarrow>
       rv d1 k = rv d k \<and> sv d1 k = sv d k \<and> (confirmed d1 k \<longrightarrow> confirmed d k))"
proof (cases "skipDedupe m")
  case True
  then have "ShouldProcess H m d = (True, m, d)" by (simp add: ShouldProcess_def)
  then show ?thesis by blast
next
  case False
  from resource_of_unskipped [OF False] obtain l where l: "resourceKey m = Some l" by blast
  have ne: "k \<noteq> l" if "fst k \<in> trackedTypes" "\<not> isFor k m" for k
    using that False l by (auto simp: isFor_def tracked_def)
  show ?thesis
  proof (cases "msgAction m = REMOVE_RESOURCE")
    case True
    from view_ShouldProcess_remove [OF False l True, of H d] ne show ?thesis by fastforce
  next
    case upd: False
    show ?thesis
    proof (cases "hashable H m")
      case True
      from view_ShouldProcess_update [OF False l upd True, of d] ne show ?thesis by fastforce
    next
      case nohash: False
      let ?d1 = "if msgAction m = SYNC_RESOURCE then markSynced (ekey l) d else d"
      have "ShouldProcess H m d = (True, m, ?d1)"
        using False upd nohash key_of_resource [OF l]
        by (auto simp: ShouldProcess_def hashable_def msgAction_def Let_def)
      moreover have "rv ?d1 k = rv d k \<and> sv ?d1 k = sv d k \<and> (confirmed ?d1 k \<longrightarrow> confirmed d k)"
        if "fst k \<in> trackedTypes" "\<not> isFor k m" for k
        using ne [OF that] view_markSynced [of l d k] by auto
      ultimately show ?thesis by blast
    qed
  qed
qed

subsection \<open>Reconciliation\<close>

definition recorded :: "StoreMap \<Rightarrow> resourceType \<times> string \<Rightarrow> bool" where
  "recorded r k \<longleftrightarrow> (\<exists>m st ids. reconciliationStores r = Some m \<and> mget m (typeString (fst k)) = Some st \<and>
     idSet st = Some ids \<and> snd k \<in> set ids)"

definition stores_open :: "StoreMap \<Rightarrow> bool" where
  "stores_open r \<longleftrightarrow> (\<forall>m t st. reconciliationStores r = Some m \<longrightarrow> mget m t = Some st \<longrightarrow> idSet st \<noteq> None)"

lemma set_storeAdd: "idSet s = Some ids \<Longrightarrow> \<exists>ids1. idSet (storeAdd x s) = Some ids1 \<and> set ids1 = insert x (set ids)"
  by (simp add: storeAdd_def setAdd_def Let_def)

lemma stores_open_add: "stores_open r \<Longrightarrow> stores_open (AddWithTypeString t i r)"
proof (cases "reconciliationStores r")
  case None
  then show ?thesis by (simp add: stores_open_def AddWithTypeString_def)
next
  case (Some m)
  let ?v = "case mget m t of Some v \<Rightarrow> v | None \<Rightarrow> NewStore"
  assume "stores_open r"
  then have o: "mget m u = Some st \<Longrightarrow> idSet st \<noteq> None" for u st
    using Some by (auto simp: stores_open_def)
  then have "idSet ?v \<noteq> None" by (cases "mget m t") (auto simp: NewStore_def)
  then have "idSet (storeAdd i ?v) \<noteq> None" by (auto simp: storeAdd_def)
  with o Some show ?thesis by (simp add: stores_open_def AddWithTypeString_def Let_def)
qed

lemma smIsClosed_add [simp]: "smIsClosed (AddWithTypeString t i r) = smIsClosed r"
  by (auto simp: smIsClosed_def AddWithTypeString_def Let_def split: option.splits)

lemma recorded_mono:
  assumes "recorded r k"
  shows "recorded (AddWithTypeString t i r) k"
proof -
  from assms obtain m st ids where *: "reconciliationStores r = Some m" "mget m (typeString (fst k)) = Some st"
    "idSet st = Some ids" "snd k \<in> set ids" by (auto simp: recorded_def)
  from set_storeAdd [OF *(3), of i] obtain ids1 where "idSet (storeAdd i st) = Some ids1" "set ids1 = insert i (set ids)"
    by auto
  with * show ?thesis by (auto simp: recorded_def AddWithTypeString_def Let_def)
qed

lemma recorded_add:
  assumes "\<not> smIsClosed r" and "stores_open r"
  shows "recorded (AddWithTypeString (typeString (fst k)) (snd k) r) k"
proof -
  from assms(1) obtain m where m: "reconciliationStores r = Some m" by (auto simp: smIsClosed_def)
  let ?v = "case mget m (typeString (fst k)) of Some v \<Rightarrow> v | None \<Rightarrow> NewStore"
  have "\<exists>ids. idSet ?v = Some ids"
    using assms(2) m by (auto simp: stores_open_def NewStore_def split: option.split)
  then obtain ids where "idSet ?v = Some ids" by blast
  from set_storeAdd [OF this, of "snd k"] m show ?thesis
    by (auto simp: recorded_def AddWithTypeString_def Let_def)
qed

lemma recordEvent_simps:
  "smIsClosed (recordEvent k r) = smIsClosed r"
  "stores_open r \<Longrightarrow> stores_open (recordEvent k r)"
  "recorded r l \<Longrightarrow> recorded (recordEvent k r) l"
  "\<not> smIsClosed r \<Longrightarrow> stores_open r \<Longrightarrow> recorded (recordEvent k r) k"
  by (simp_all add: recordEvent_def stores_open_add recorded_mono recorded_add)

lemma addUnchanged_mono: "recorded r k \<Longrightarrow> recorded (addUnchanged ids r) k"
proof -
  have "recorded (fold (\<lambda>k s. case key_ResourceType k of
              Some t \<Rightarrow> AddWithTypeString (typeString t) (key_ID k) s | None \<Rightarrow> s) ks r) k" if "recorded r k" for ks :: "Key list" and r
    using that by (induction ks arbitrary: r) (auto split: option.split intro: recorded_mono)
  then show "recorded r k \<Longrightarrow> recorded (addUnchanged ids r) k" by (simp add: addUnchanged_def)
qed

definition storeClosed :: "StoreMap \<Rightarrow> string \<Rightarrow> bool" where
  "storeClosed s typ \<longleftrightarrow> (\<exists>m st. reconciliationStores s = Some m \<and> mget m typ = Some st \<and> idSet st = None)"

text \<open>One fragment: the identifiers it removes were not recorded, and its store is closed after it.\<close>

lemma Reconcile_Cons:
  assumes "Reconcile ((t, existing) # rest) s = Some (deleted, s2)" and "\<not> smIsClosed s"
  obtains ids s1 deleted1 where "deleted = map (Pair t) ids @ deleted1" "Reconcile rest s1 = Some (deleted1, s2)"
    "\<not> storeClosed s (typeString t)" "storeClosed s1 (typeString t)" "\<not> smIsClosed s1"
    "\<And>i. i \<in> set ids \<Longrightarrow> \<not> recorded s (t, i)"
    "\<And>u i. u \<noteq> t \<Longrightarrow> recorded s1 (u, i) = recorded s (u, i)"
    "\<And>u. u \<noteq> t \<Longrightarrow> storeClosed s1 (typeString u) = storeClosed s (typeString u)"
proof -
  from assms(2) obtain m where m: "reconciliationStores s = Some m" by (auto simp: smIsClosed_def)
  let ?v = "case mget m (typeString t) of Some v \<Rightarrow> v | None \<Rightarrow> NewStore"
  have get: "fst (smGet (typeString t) s) = ?v"
    "\<exists>m1. reconciliationStores (snd (smGet (typeString t) s)) = Some m1 \<and>
      (\<forall>u. u \<noteq> typeString t \<longrightarrow> mget m1 u = mget m u)"
    using m by (auto simp: smGet_def split: option.splits)
  then obtain m1 where m1: "reconciliationStores (snd (smGet (typeString t) s)) = Some m1"
    "\<And>u. u \<noteq> typeString t \<Longrightarrow> mget m1 u = mget m u" by blast
  obtain store sm1 where sm: "smGet (typeString t) s = (store, sm1)" by fastforce
  then have v: "store = ?v" "reconciliationStores sm1 = Some m1" using get m1 by simp_all
  from assms(1) sm obtain ids store1 deleted1 where run:
    "Perform store existing = Some (ids, store1)"
    "Reconcile rest (sm1\<lparr>reconciliationStores := map_option (mput (typeString t) store1) (reconciliationStores sm1)\<rparr>)
      = Some (deleted1, s2)"
    "deleted = map (Pair t) ids @ deleted1"
    by (auto simp: Let_def split: option.splits prod.splits)
  from run(1) obtain known where known: "idSet store = Some known" "ids = setDifference existing known"
    "idSet store1 = None"
    by (auto simp: Perform_def storeClose_def Let_def split: option.splits)
  let ?s1 = "sm1\<lparr>reconciliationStores := map_option (mput (typeString t) store1) (reconciliationStores sm1)\<rparr>"
  show thesis
  proof (rule that [OF run(3) run(2)])
    show "\<not> storeClosed s (typeString t)" using known(1) v(1) m by (auto simp: storeClosed_def)
    show "storeClosed ?s1 (typeString t)" using v(2) known(3) by (simp add: storeClosed_def)
    show "\<not> smIsClosed ?s1" using v(2) by (simp add: smIsClosed_def)
    show "\<not> recorded s (t, i)" if "i \<in> set ids" for i
      using that known v(1) m by (auto simp: recorded_def set_setDifference)
    show "recorded ?s1 (u, i) = recorded s (u, i)" if "u \<noteq> t" for u i
      using that v(2) m m1(2) [of "typeString u"] by (simp add: recorded_def)
    show "storeClosed ?s1 (typeString u) = storeClosed s (typeString u)" if "u \<noteq> t" for u
      using that v(2) m m1(2) [of "typeString u"] by (simp add: storeClosed_def)
  qed
qed

lemma Reconcile_deleted:
  "Reconcile frs s = Some (deleted, s2) \<Longrightarrow> \<not> smIsClosed s \<Longrightarrow> k \<in> set deleted \<Longrightarrow>
   fst k \<in> fst ` set frs \<and> \<not> recorded s k \<and> \<not> storeClosed s (typeString (fst k))"
proof (induction frs arbitrary: s deleted)
  case (Cons fr rest)
  obtain t existing where fr: "fr = (t, existing)" by fastforce
  from Cons.prems(1) fr have R: "Reconcile ((t, existing) # rest) s = Some (deleted, s2)" by simp
  obtain ids s1 deleted1 where s1:
    "deleted = map (Pair t) ids @ deleted1" "Reconcile rest s1 = Some (deleted1, s2)"
    "\<not> storeClosed s (typeString t)" "storeClosed s1 (typeString t)" "\<not> smIsClosed s1"
    "\<And>i. i \<in> set ids \<Longrightarrow> \<not> recorded s (t, i)"
    "\<And>u i. u \<noteq> t \<Longrightarrow> recorded s1 (u, i) = recorded s (u, i)"
    "\<And>u. u \<noteq> t \<Longrightarrow> storeClosed s1 (typeString u) = storeClosed s (typeString u)"
    by (rule Reconcile_Cons [OF R Cons.prems(2)]) (rule that)
  show ?case
  proof (cases "k \<in> set deleted1")
    case True
    from Cons.IH [OF s1(2,5) True] have IH: "fst k \<in> fst ` set rest" "\<not> recorded s1 k"
      "\<not> storeClosed s1 (typeString (fst k))" by auto
    then have "fst k \<noteq> t" using s1(4) by auto
    with IH s1(7) [of "fst k" "snd k"] s1(8) show ?thesis by auto
  next
    case False
    with Cons.prems(3) s1(1,3,6) fr show ?thesis by auto
  qed
qed simp

lemma handleSynced_spec:
  assumes "handleSynced e ids h = Some (deleted, h1)" and "\<not> smIsClosed (reconciliationMap h)"
  shows "hDeduper h1 = ProcessSync (syncOrder e) (hDeduper h)" and "smIsClosed (reconciliationMap h1)"
    and "workerQueues h1 = workerQueues h"
    and "k \<in> set deleted \<Longrightarrow> fst k \<in> fst ` set (fragments e) \<and> \<not> recorded (reconciliationMap h) k"
proof -
  have open1: "\<not> smIsClosed (addUnchanged ids (reconciliationMap h))"
  proof -
    have "smIsClosed (fold (\<lambda>k s. case key_ResourceType k of
              Some t \<Rightarrow> AddWithTypeString (typeString t) (key_ID k) s | None \<Rightarrow> s) ks r) = smIsClosed r" for ks :: "Key list" and r
      by (induction ks arbitrary: r) (auto split: option.split)
    then show ?thesis using assms(2) by (simp add: addUnchanged_def)
  qed
  from assms obtain sm where sm:
    "Reconcile (fragments e) (addUnchanged ids (reconciliationMap h)) = Some (deleted, sm)"
    "h1 = h\<lparr>initSyncMgr := initSyncRemove (clusterId h) (initSyncMgr h),
                hDeduper := ProcessSync (syncOrder e) (hDeduper h), reconciliationMap := smClose sm\<rparr>"
    by (auto simp: handleSynced_def split: option.splits)
  show "k \<in> set deleted \<Longrightarrow> fst k \<in> fst ` set (fragments e) \<and> \<not> recorded (reconciliationMap h) k"
    using Reconcile_deleted [OF sm(1) open1] addUnchanged_mono by blast
  show "hDeduper h1 = ProcessSync (syncOrder e) (hDeduper h)" "workerQueues h1 = workerQueues h"
    using sm(2) by simp_all
  show "smIsClosed (reconciliationMap h1)" using sm(2) by (simp add: smIsClosed_def smClose_def split: option.split)
qed

subsection \<open>The invariant of the connection\<close>

definition wait_ok :: "(resourceType \<times> string) set \<Rightarrow> 'c MsgFromSensor \<Rightarrow> bool" where
  "wait_ok G w \<longleftrightarrow> msg_ProcessingAttempt w > 0 \<and>
     (\<forall>k \<in> G. isFor k w \<longrightarrow> msgAction w \<noteq> CREATE_RESOURCE \<and>
        (msgAction w \<noteq> REMOVE_RESOURCE \<longrightarrow> ev_SensorHash (eventOf w) \<noteq> None))"

lemma wait_ok_mono: "wait_ok G w \<Longrightarrow> G1 \<subseteq> G \<Longrightarrow> wait_ok G1 w"
  unfolding wait_ok_def by blast

abbreviation ddp :: "'c connState \<Rightarrow> deduperImpl" where
  "ddp s \<equiv> hDeduper (sh s)"

abbreviation recs :: "'c connState \<Rightarrow> StoreMap" where
  "recs s \<equiv> reconciliationMap (sh s)"

definition resource_ok :: "'c connState \<Rightarrow> resourceType \<times> string \<Rightarrow> bool" where
  "resource_ok s k \<longleftrightarrow>
     shape (pend s k) \<and>
     key_ok (rv (ddp s) k) (sv (ddp s) k) (pend s k) (retries s k) (stored s k) \<and>
     (\<not> smIsClosed (recs s) \<and> (confirmed (ddp s) k \<or> pend s k \<noteq> [] \<or> retries s k \<noteq> []) \<longrightarrow>
        recorded (recs s) k)"

definition conn_inv :: "'c connState \<Rightarrow> bool" where
  "conn_inv s \<longleftrightarrow>
     queues_ok (sh s) \<and> stores_open (recs s) \<and>
     (\<forall>c. \<forall>m \<in> set (pendingAt (sh s) c). item_ok (trusted s) c m) \<and>
     (\<forall>c m. inFlight s c = Some m \<longrightarrow> item_ok (trusted s) c m) \<and>
     (\<forall>w \<in> set (waiting s). wait_ok (trusted s) w) \<and>
     (\<forall>k \<in> trusted s. resource_ok s k)"

lemma conn_invI:
  assumes "queues_ok (sh s)" "stores_open (recs s)"
    and "\<And>c m. m \<in> set (pendingAt (sh s) c) \<Longrightarrow> item_ok (trusted s) c m"
    and "\<And>c m. inFlight s c = Some m \<Longrightarrow> item_ok (trusted s) c m"
    and "\<And>w. w \<in> set (waiting s) \<Longrightarrow> wait_ok (trusted s) w"
    and "\<And>k. k \<in> trusted s \<Longrightarrow> resource_ok s k"
  shows "conn_inv s"
  using assms by (simp add: conn_inv_def)

lemma conn_invD:
  assumes "conn_inv s"
  shows "queues_ok (sh s)" and "stores_open (recs s)"
    and "m \<in> set (pendingAt (sh s) c) \<Longrightarrow> item_ok (trusted s) c m"
    and "inFlight s c = Some m \<Longrightarrow> item_ok (trusted s) c m"
    and "w \<in> set (waiting s) \<Longrightarrow> wait_ok (trusted s) w"
    and "k \<in> trusted s \<Longrightarrow> resource_ok s k"
  using assms unfolding conn_inv_def by blast+

text \<open>A resource none of whose parts changed.\<close>

lemma resource_ok_same:
  assumes ok: "resource_ok s k"
    and same: "pend s1 k = pend s k" "retries s1 k = retries s k" "stored s1 k = stored s k"
      "rv (ddp s1) k = rv (ddp s) k" "sv (ddp s1) k = sv (ddp s) k"
    and conf: "confirmed (ddp s1) k \<Longrightarrow> confirmed (ddp s) k"
    and rec: "smIsClosed (recs s) \<Longrightarrow> smIsClosed (recs s1)" "recorded (recs s) k \<Longrightarrow> \<not> smIsClosed (recs s1) \<Longrightarrow> recorded (recs s1) k"
  shows "resource_ok s1 k"
  using ok conf rec unfolding resource_ok_def same by blast

lemma start_inv:
  assumes "\<forall>k v. fst k \<in> trackedTypes \<and> k \<notin> X \<and> sv d k = Some v \<longrightarrow> st k = Some v"
  shows "conn_inv (startState cluster d mgr st X)"
proof (rule conn_invI)
  let ?s = "startState cluster d mgr st X :: 'c connState"
  have sh: "sh ?s = newConnection cluster d mgr" "inFlight ?s = (\<lambda>_. None)" "waiting ?s = []" "stored ?s = st"
    "untrusted ?s = X"
    by (simp_all add: startState_def)
  have h: "queueAt (sh ?s) c = NewDedupingQueue" "ddp ?s = StartSync d" "recs ?s = NewStoreMap" for c
    by (simp_all add: sh newConnection_def newSensorEventHandler_def queueAt_def)
  show "queues_ok (sh ?s)"
    by (simp add: sh newConnection_def newSensorEventHandler_def queues_ok_def)
  show "stores_open (recs ?s)" by (simp add: h stores_open_def NewStoreMap_def)
  fix k assume "k \<in> trusted ?s"
  then have "sv d k = Some v \<Longrightarrow> st k = Some v" for v using assms [rule_format, of k v] by (simp add: trusted_def sh)
  moreover have "pend ?s k = []" "retries ?s k = []" by (simp_all add: pend_def retries_def sh h(1) [unfolded sh])
  ultimately show "resource_ok ?s k"
    unfolding resource_ok_def h sh view_StartSync
    by (auto simp: shape_def key_ok_def view_StartSync h(2) [unfolded sh])
qed (simp_all add: startState_def newConnection_def newSensorEventHandler_def queueAt_def)

subsection \<open>Steps of the workers\<close>

lemma take_inv:
  assumes inv: "conn_inv s" and none: "inFlight s c = None" and pull: "pullMsg (queueAt (sh s) c) = (Some m, q1)"
  shows "conn_inv (s\<lparr>sh := setQueue c q1 (sh s), inFlight := (inFlight s)(c := Some m)\<rparr>)" (is "conn_inv ?s1")
proof -
  from take_spec [OF conn_invD(1) [OF inv] pull] obtain xs where xs: "pendingAt (sh s) c = m # xs"
    "queues_ok (setQueue c q1 (sh s))"
    "\<And>c'. pendingAt (setQueue c q1 (sh s)) c' = (if c' = c then xs else pendingAt (sh s) c')" by auto
  have "pend ?s1 k = pend s k" for k
    using none xs by (cases "coord k = c") (auto simp: pend_def)
  then have res: "resource_ok ?s1 k" if "resource_ok s k" for k
    by (rule resource_ok_same [OF that]) (simp_all add: retries_def)
  have G: "trusted ?s1 = trusted s" by (simp add: trusted_def)
  show ?thesis
  proof (rule conn_invI)
    fix c' x assume "x \<in> set (pendingAt (sh ?s1) c')"
    then show "item_ok (trusted ?s1) c' x"
      unfolding G using xs conn_invD(3) [OF inv, of x c'] by (auto split: if_splits)
  next
    fix c' x assume "inFlight ?s1 c' = Some x"
    then show "item_ok (trusted ?s1) c' x"
      unfolding G using xs conn_invD(3) [OF inv, of m c] conn_invD(4) [OF inv, of c' x] by (auto split: if_splits)
  qed (use inv xs(2) res conn_invD [OF inv] G in auto)
qed

text \<open>What leaves the worker was the first pending message of its resource.\<close>

lemma pend_release:
  assumes inv: "conn_inv s" and m: "inFlight s c = Some m" and s1: "inFlight s1 = (inFlight s)(c := None)"
    and q: "queueAt (sh s1) = queueAt (sh s)"
  shows "isFor k m \<Longrightarrow> k \<in> trusted s \<Longrightarrow> pend s k = m # pend s1 k" and "\<not> isFor k m \<Longrightarrow> pend s1 k = pend s k"
proof -
  show "pend s k = m # pend s1 k" if "isFor k m" "k \<in> trusted s"
    using item_ok_isFor(1) [OF conn_invD(4) [OF inv m] that] m s1 q that by (simp add: pend_def)
  show "pend s1 k = pend s k" if "\<not> isFor k m"
    using m s1 q that by (cases "coord k = c") (auto simp: pend_def)
qed

text \<open>A step of a worker keeps the invariant if it keeps that of the resource of its message.\<close>

lemma release_inv:
  assumes inv: "conn_inv s" and m: "inFlight s c = Some m"
    and s1: "inFlight s1 = (inFlight s)(c := None)" "sh s1 = (sh s)\<lparr>hDeduper := d1\<rparr>"
      "untrusted s \<subseteq> untrusted s1"
    and wait: "\<And>w. w \<in> set (waiting s1) \<Longrightarrow> wait_ok (trusted s1) w"
    and other: "\<And>k. \<not> isFor k m \<Longrightarrow> fst k \<in> trackedTypes \<Longrightarrow> rv d1 k = rv (ddp s) k \<and> sv d1 k = sv (ddp s) k \<and>
        (confirmed d1 k \<longrightarrow> confirmed (ddp s) k) \<and> retries s1 k = retries s k \<and> stored s1 k = stored s k"
    and own: "\<And>k. isFor k m \<Longrightarrow> k \<in> trusted s1 \<Longrightarrow> pend s k = m # pend s1 k \<Longrightarrow> length (pend s1 k) \<le> 1 \<Longrightarrow>
        key_ok (rv (ddp s) k) (sv (ddp s) k) (m # pend s1 k) (retries s k) (stored s k) \<Longrightarrow>
        key_ok (rv d1 k) (sv d1 k) (pend s1 k) (retries s1 k) (stored s1 k)"
  shows "conn_inv s1"
proof (rule conn_invI)
  have q: "queueAt (sh s1) = queueAt (sh s)" "recs s1 = recs s" "ddp s1 = d1" using s1(2) by simp_all
  note G = trusted_mono [OF s1(3)]
  fix k assume k: "k \<in> trusted s1"
  then have k0: "k \<in> trusted s" using G by blast
  have ok: "resource_ok s k" using conn_invD(6) [OF inv k0] .
  show "resource_ok s1 k"
  proof (cases "isFor k m")
    case False
    have "pend s1 k = pend s k" by (rule pend_release(2) [OF inv m s1(1) q(1) False])
    with other [OF False trustedD(1) [OF k]] show ?thesis
      by (intro resource_ok_same [OF ok]) (simp_all add: q)
  next
    case True
    have p: "pend s k = m # pend s1 k" by (rule pend_release(1) [OF inv m s1(1) q(1) True k0])
    with ok have sh: "shape (pend s1 k)" "length (pend s1 k) \<le> 1" by (auto simp: resource_ok_def dest: shape_tl)
    show ?thesis unfolding resource_ok_def q
    proof (intro conjI impI)
      show "shape (pend s1 k)" by (rule sh)
      show "key_ok (rv d1 k) (sv d1 k) (pend s1 k) (retries s1 k) (stored s1 k)"
        using own [OF True k p sh(2)] ok p by (simp add: resource_ok_def)
      show "recorded (recs s) k" if "\<not> smIsClosed (recs s) \<and> (confirmed d1 k \<or> pend s1 k \<noteq> [] \<or> retries s1 k \<noteq> [])"
        using ok p that by (simp add: resource_ok_def)
    qed
  qed
next
  fix c' x assume "inFlight s1 c' = Some x"
  then show "item_ok (trusted s1) c' x"
    using conn_invD(4) [OF inv, of c' x, THEN item_ok_mono, OF _ trusted_mono [OF s1(3)]] s1(1) by (auto split: if_splits)
next
  fix c' x assume "x \<in> set (pendingAt (sh s1) c')"
  then show "item_ok (trusted s1) c' x"
    using conn_invD(3) [OF inv, of x c', THEN item_ok_mono, OF _ trusted_mono [OF s1(3)]] s1(2) by simp
qed (use conn_invD(1,2) [OF inv] s1 wait in auto)

lemma pipelineRun_failed: "fst (pipelineRun results n m d) = Some err \<Longrightarrow> snd (pipelineRun results n m d) = d"
  by (induction results n m d rule: pipelineRun.induct) (auto split: if_splits)

lemma pipelineRun_stopped:
  "fst (pipelineRun results n m d) = None \<Longrightarrow> snd (pipelineRun results n m d) = d \<or> set results \<subseteq> {RunOk}"
  by (induction results n m d rule: pipelineRun.induct) (auto split: if_splits)

lemma view_untracked_mark:
  assumes "\<not> isFor k m" and "fst k \<in> trackedTypes"
  shows "rv (MarkSuccessful m d) k = rv d k \<and> sv (MarkSuccessful m d) k = sv d k \<and>
      (confirmed (MarkSuccessful m d) k \<longrightarrow> confirmed d k)"
    and "rv (RemoveMessage m d) k = rv d k \<and> sv (RemoveMessage m d) k = sv d k \<and>
      (confirmed (RemoveMessage m d) k \<longrightarrow> confirmed d k)"
proof -
  have *: "l \<noteq> k" if "\<not> skipDedupe m" "resourceKey m = Some l" for l
    using assms that by (auto simp: isFor_def tracked_def)
  show "rv (MarkSuccessful m d) k = rv d k \<and> sv (MarkSuccessful m d) k = sv d k \<and>
      (confirmed (MarkSuccessful m d) k \<longrightarrow> confirmed d k)"
  proof (cases "skipDedupe m")
    case False
    from resource_of_unskipped [OF False] obtain l where l: "resourceKey m = Some l" by blast
    show ?thesis
      using view_MarkSuccessful [OF False l, of d k] view_MarkSuccessful_remove [OF False l, of d k] * [OF False l]
      by (cases "msgAction m = REMOVE_RESOURCE") simp_all
  qed (simp add: view_MarkSuccessful_skip)
  show "rv (RemoveMessage m d) k = rv d k \<and> sv (RemoveMessage m d) k = sv d k \<and>
      (confirmed (RemoveMessage m d) k \<longrightarrow> confirmed d k)"
  proof (cases "skipDedupe m")
    case False
    from resource_of_unskipped [OF False] obtain l where l: "resourceKey m = Some l" by blast
    show ?thesis using view_RemoveMessage [OF False l, of d k] * [OF False l] by simp
  qed (simp add: RemoveMessage_def)
qed

lemma processed_inv:
  assumes inv: "conn_inv s" and m: "inFlight s c = Some m" and res: "allOk results"
    and run: "runWorker results m (ddp s) = (None, d1)"
  shows "conn_inv (s\<lparr>sh := (sh s)\<lparr>hDeduper := d1\<rparr>, inFlight := (inFlight s)(c := None),
    stored := applyEvent m (stored s)\<rparr>)" (is "conn_inv ?s1")
proof -
  have d1: "d1 = MarkSuccessful m (ddp s)" using run res by (simp add: runWorker_def pipelineRun_ok allOk_def)
  have G: "trusted ?s1 = trusted s" by (simp add: trusted_def)
  show ?thesis
  proof (rule release_inv [OF inv m, of ?s1 d1])
    fix k assume "\<not> isFor k m" "fst k \<in> trackedTypes"
    then show "rv d1 k = rv (ddp s) k \<and> sv d1 k = sv (ddp s) k \<and> (confirmed d1 k \<longrightarrow> confirmed (ddp s) k) \<and>
        retries ?s1 k = retries s k \<and> stored ?s1 k = stored s k"
      using view_untracked_mark(1) [of k m "ddp s"] by (simp add: d1 retries_def applyEvent_def)
  next
    fix k assume k: "isFor k m" and len: "length (pend ?s1 k) \<le> 1"
      and ok: "key_ok (rv (ddp s) k) (sv (ddp s) k) (m # pend ?s1 k) (retries s k) (stored s k)"
    have upd: "msgAction m \<noteq> REMOVE_RESOURCE" using key_okD(4) [OF ok, of m] by simp
    note v = view_MarkSuccessful [OF isFor_unskipped [OF k] isFor_key [OF k] upd]
    from key_ok_processed [OF ok len]
    show "key_ok (rv d1 k) (sv d1 k) (pend ?s1 k) (retries ?s1 k) (stored ?s1 k)"
      using k upd by (simp add: d1 v retries_def applyEvent_def)
  qed (use conn_invD(5) [OF inv] G in auto)
qed

text \<open>A worker that gives a message up without telling the deduper.\<close>

lemma lost_inv:
  assumes inv: "conn_inv s" and m: "inFlight s c = Some m"
  shows "conn_inv (s\<lparr>sh := (sh s)\<lparr>hDeduper := ddp s\<rparr>, inFlight := (inFlight s)(c := None),
    untrusted := untrusted s \<union> {k. isFor k m}\<rparr>)" (is "conn_inv ?s1")
proof (rule release_inv [OF inv m, of ?s1 "ddp s"])
  have G: "trusted ?s1 \<subseteq> trusted s" by (rule trusted_mono) auto
  show "w \<in> set (waiting ?s1) \<Longrightarrow> wait_ok (trusted ?s1) w" for w
    using conn_invD(5) [OF inv, of w] wait_ok_mono [OF _ G] by auto
  fix k assume "isFor k m" "k \<in> trusted ?s1"
  then show "key_ok (rv (ddp s) k) (sv (ddp s) k) (pend ?s1 k) (retries ?s1 k) (stored ?s1 k)"
    by (simp add: trusted_def)
qed (auto simp: retries_def)

lemma stopped_inv:
  assumes inv: "conn_inv s" and m: "inFlight s c = Some m"
    and none: "fst (pipelineRun results 0 m (ddp s)) = None" "\<not> allOk results"
    and run: "runWorker results m (ddp s) = (None, d1)"
  shows "conn_inv (s\<lparr>sh := (sh s)\<lparr>hDeduper := d1\<rparr>, inFlight := (inFlight s)(c := None),
    untrusted := untrusted s \<union> {k. isFor k m}\<rparr>)"
proof -
  have "results \<noteq> []" using none(1) by auto
  then have "\<not> set results \<subseteq> {RunOk}" using none(2) by (simp add: allOk_def)
  with pipelineRun_stopped [OF none(1)] have "snd (pipelineRun results 0 m (ddp s)) = ddp s" by blast
  then have "d1 = ddp s" using run none(1) by (auto simp: runWorker_def split: prod.splits)
  then show ?thesis using lost_inv [OF inv m] by simp
qed

lemma exhausted_inv:
  assumes inv: "conn_inv s" and m: "inFlight s c = Some m"
    and err: "fst (pipelineRun results 0 m (ddp s)) = Some TransientError"
    and run: "runWorker results m (ddp s) = (None, d1)"
  shows "conn_inv (s\<lparr>sh := (sh s)\<lparr>hDeduper := d1\<rparr>, inFlight := (inFlight s)(c := None),
    untrusted := untrusted s \<union> {k. isFor k m}\<rparr>)"
proof -
  have "d1 = ddp s"
    using run err pipelineRun_failed [OF err] by (auto simp: runWorker_def Let_def split: prod.splits if_splits)
  then show ?thesis using lost_inv [OF inv m] by simp
qed

lemma failed_inv:
  assumes inv: "conn_inv s" and m: "inFlight s c = Some m"
    and err: "fst (pipelineRun results 0 m (ddp s)) = Some UnretryableError"
    and run: "runWorker results m (ddp s) = (None, d1)"
  shows "conn_inv (s\<lparr>sh := (sh s)\<lparr>hDeduper := d1\<rparr>, inFlight := (inFlight s)(c := None),
    untrusted := untrusted s \<union> {k. isFor k m \<and> pend s k \<noteq> [m]}\<rparr>)" (is "conn_inv ?s1")
proof -
  have d1: "d1 = RemoveMessage m (ddp s)"
    using run err pipelineRun_failed [OF err] by (simp add: runWorker_def split: prod.splits option.splits)
  have G: "trusted ?s1 \<subseteq> trusted s" by (rule trusted_mono) auto
  show ?thesis
  proof (rule release_inv [OF inv m, of ?s1 d1])
    fix k assume "\<not> isFor k m" "fst k \<in> trackedTypes"
    then show "rv d1 k = rv (ddp s) k \<and> sv d1 k = sv (ddp s) k \<and> (confirmed d1 k \<longrightarrow> confirmed (ddp s) k) \<and>
        retries ?s1 k = retries s k \<and> stored ?s1 k = stored s k"
      using view_untracked_mark(2) [of k m "ddp s"] by (simp add: d1 retries_def)
  next
    fix k assume k: "isFor k m" "k \<in> trusted ?s1" and p: "pend s k = m # pend ?s1 k"
      and ok: "key_ok (rv (ddp s) k) (sv (ddp s) k) (m # pend ?s1 k) (retries s k) (stored s k)"
    have "pend s k = [m]" using trustedD(3) [OF k(2)] k(1) by simp
    with p have "pend ?s1 k = []" by simp
    with key_ok_failed [of "rv (ddp s) k" "sv (ddp s) k" m "retries s k" "stored s k"] ok
    show "key_ok (rv d1 k) (sv d1 k) (pend ?s1 k) (retries ?s1 k) (stored ?s1 k)"
      using view_RemoveMessage [OF isFor_unskipped [OF k(1)] isFor_key [OF k(1)], of "ddp s" k]
      by (simp add: d1 retries_def)
  next
    show "w \<in> set (waiting ?s1) \<Longrightarrow> wait_ok (trusted ?s1) w" for w
      using conn_invD(5) [OF inv, of w] wait_ok_mono [OF _ G] by auto
  qed auto
qed

lemma retried_inv:
  assumes inv: "conn_inv s" and m: "inFlight s c = Some m"
    and run: "runWorker results m (ddp s) = (Some m1, d1)"
  shows "conn_inv (s\<lparr>sh := (sh s)\<lparr>hDeduper := d1\<rparr>, inFlight := (inFlight s)(c := None),
    waiting := waiting s @ [m1], untrusted := untrusted s \<union> {k. isFor k m \<and> msgAction m = CREATE_RESOURCE}\<rparr>)"
    (is "conn_inv ?s1")
proof -
  obtain err d0 where p: "pipelineRun results 0 m (ddp s) = (err, d0)" by fastforce
  with run have e: "err = Some TransientError" "m1 = m\<lparr>msg_ProcessingAttempt := msg_ProcessingAttempt m + 1\<rparr>" "d1 = d0"
    by (auto simp: runWorker_def Let_def split: option.splits if_splits)
  with p pipelineRun_failed [of results 0 m "ddp s"] have d1: "d1 = ddp s" by simp
  have m1: "msg_Event m1 = msg_Event m" "msg_ProcessingAttempt m1 > 0" using e by simp_all
  note ev = same_event [OF m1(1)]
  have isFor1: "isFor k m1 = isFor k m" for k using ev by (simp add: isFor_def)
  have rt: "retries ?s1 k = retries s k @ (if isFor k m then [m1] else [])" for k
    by (simp add: retries_def isFor1)
  have G: "trusted ?s1 \<subseteq> trusted s" by (rule trusted_mono) auto
  show ?thesis
  proof (rule release_inv [OF inv m, of ?s1 d1])
    fix k assume "\<not> isFor k m" "fst k \<in> trackedTypes"
    then show "rv d1 k = rv (ddp s) k \<and> sv d1 k = sv (ddp s) k \<and> (confirmed d1 k \<longrightarrow> confirmed (ddp s) k) \<and>
        retries ?s1 k = retries s k \<and> stored ?s1 k = stored s k"
      unfolding rt by (simp add: d1)
  next
    fix k assume k: "isFor k m" and len: "length (pend ?s1 k) \<le> 1"
      and ok: "key_ok (rv (ddp s) k) (sv (ddp s) k) (m # pend ?s1 k) (retries s k) (stored s k)"
    from key_ok_retried [OF ok len, of m1] k ev
    show "key_ok (rv d1 k) (sv d1 k) (pend ?s1 k) (retries ?s1 k) (stored ?s1 k)"
      unfolding rt by (simp add: d1)
  next
    have "msgAction m1 \<noteq> CREATE_RESOURCE \<and> (msgAction m1 \<noteq> REMOVE_RESOURCE \<longrightarrow> ev_SensorHash (eventOf m1) \<noteq> None)"
      if k: "k \<in> trusted ?s1" "isFor k m1" for k
      using item_ok_isFor(3) [OF conn_invD(4) [OF inv m], of k] trustedD(3) [OF k(1)] k G ev by (auto simp: isFor1)
    then have "wait_ok (trusted ?s1) m1" using m1(2) by (simp add: wait_ok_def)
    moreover have "w \<in> set (waiting s) \<Longrightarrow> wait_ok (trusted ?s1) w" for w
      using conn_invD(5) [OF inv, of w] wait_ok_mono [OF _ G] by blast
    ultimately show "w \<in> set (waiting ?s1) \<Longrightarrow> wait_ok (trusted ?s1) w" for w by auto
  qed auto
qed

subsection \<open>Pushes\<close>

lemma set_specPush: "set (specPush key zero (\<lambda>i _. i) m xs) \<subseteq> insert m (set xs)"
proof -
  have "set (replaceKeyed key (\<lambda>i _. i) m xs) \<subseteq> insert m (set xs)" by (rule dq.set_replaceKeyed_subset)
  then show ?thesis by (auto simp: specPush_def)
qed

text \<open>A push changes the pending messages of no other resource.\<close>

lemma pend_push_other:
  assumes inv: "conn_inv s" and k: "k \<in> trusted s"
    and s1: "inFlight s1 = inFlight s" "\<And>c. pendingAt (sh s1) c = (if c = c0
        then specPush msg_DedupeKey [] (\<lambda>i _. i) m1 (pendingAt (sh s) c) else pendingAt (sh s) c)"
    and m1: "\<not> isFor k m1" and key: "c0 = coord k \<Longrightarrow> msg_DedupeKey m1 \<noteq> snd k"
  shows "pend s1 k = pend s k"
proof (cases "c0 = coord k")
  case True
  have "filter (isFor k) (specPush msg_DedupeKey [] (\<lambda>i _. i) m1 (pendingAt (sh s) c0)) =
      filter (isFor k) (pendingAt (sh s) c0)"
  proof (rule filter_push_other [where P = "isFor k", OF m1])
    fix x assume x: "x \<in> set (pendingAt (sh s) c0)" "msg_DedupeKey x = msg_DedupeKey m1" "msg_DedupeKey m1 \<noteq> []"
    show "\<not> isFor k x"
    proof
      assume "isFor k x"
      from item_ok_isFor(2) [OF conn_invD(3) [OF inv x(1)] this k] x(2,3) key [OF True] show False
        by (auto split: if_splits)
    qed
  qed
  with s1 True show ?thesis by (simp add: pend_def)
qed (use s1 in \<open>auto simp: pend_def\<close>)

lemma pend_push_self:
  assumes inv: "conn_inv s" and k: "k \<in> trusted s"
    and s1: "inFlight s1 = inFlight s" "\<And>c. pendingAt (sh s1) c = (if c = coord k
        then specPush msg_DedupeKey [] (\<lambda>i _. i) m1 (pendingAt (sh s) c) else pendingAt (sh s) c)"
    and m1: "isFor k m1" "msg_DedupeKey m1 = (if msgAction m1 = CREATE_RESOURCE then [] else snd k)"
    and create: "msgAction m1 = CREATE_RESOURCE \<Longrightarrow> pend s k = []"
  shows "\<exists>ys. pend s1 k = ys @ [m1] \<and> length ys \<le> 1 \<and> (pend s k = ys \<or> (\<exists>z. pend s k = ys @ [z]))"
proof -
  define f where "f = (case inFlight s (coord k) of Some m \<Rightarrow> if isFor k m then [m] else [] | None \<Rightarrow> [])"
  define Q where "Q = filter (isFor k) (pendingAt (sh s) (coord k))"
  have p: "pend s k = f @ Q" by (simp add: pend_def f_def Q_def)
  have p1: "pend s1 k = f @ filter (isFor k)
      (specPush msg_DedupeKey [] (\<lambda>i _. i) m1 (pendingAt (sh s) (coord k)))"
    using s1 by (simp add: pend_def f_def)
  show ?thesis
  proof (cases "msgAction m1 = CREATE_RESOURCE")
    case True
    then have "f = []" "Q = []" using create p by auto
    with p1 True m1 p show ?thesis by (simp add: specPush_def Q_def)
  next
    case False
    have id: "snd k \<noteq> []" using k by (rule trustedD)
    have "filter (isFor k) (replaceKeyed msg_DedupeKey (\<lambda>i _. i) m1 (pendingAt (sh s) (coord k))) =
        replaceKeyed msg_DedupeKey (\<lambda>i _. i) m1 Q"
      unfolding Q_def
    proof (rule filter_replaceKeyed [where P = "isFor k", OF m1(1)])
      fix x assume "x \<in> set (pendingAt (sh s) (coord k))" "msg_DedupeKey x = msg_DedupeKey m1"
      then show "isFor k x"
        using same_key_same_resource [OF conn_invD(3) [OF inv, of x "coord k"] k] m1(2) False by simp
    qed
    then have p2: "pend s1 k = f @ replaceKeyed msg_DedupeKey (\<lambda>i _. i) m1 Q"
      using p1 m1(2) False id by (simp add: specPush_def)
    have "shape (f @ Q)" using conn_invD(6) [OF inv k] p by (simp add: resource_ok_def)
    moreover have "length f \<le> 1" by (auto simp: f_def split: option.split)
    moreover have "msg_DedupeKey x = (if msgAction x = CREATE_RESOURCE then [] else snd k)" if "x \<in> set Q" for x
      using that item_ok_isFor(2) [OF conn_invD(3) [OF inv, of x "coord k"] _ k] by (auto simp: Q_def)
    moreover have "keyedItems msg_DedupeKey [] Q =
        filter (isFor k) (keyedItems msg_DedupeKey [] (pendingAt (sh s) (coord k)))"
      by (simp add: Q_def keyedItems_def conj_commute)
    then have "distinct (map msg_DedupeKey (keyedItems msg_DedupeKey [] Q))"
      using dq.inv_distinct [OF queueAt_inv [OF conn_invD(1) [OF inv]], of "coord k"]
      by (simp only: distinct_map_filter)
    ultimately show ?thesis unfolding p2 p using m1(2) False id by (intro push_own) auto
  qed
qed

lemma update_answer:
  assumes m: "isFor k m" "msgAction m \<noteq> REMOVE_RESOURCE" "hashable (hashOf e) m"
    and sp: "ShouldProcess (hashOf e) (assignKeys m) d = (pushed, m1, d1)"
  shows "m1 = withHash (hashOf e) (assignKeys m)"
    and "ev_SensorHash (eventOf m1) \<noteq> None"
    and "if msg_ProcessingAttempt m = 0 then pushed \<longleftrightarrow> firstKnown (rv d k) (sv d k) \<noteq> Some (msgHash m1)
       else pushed \<longleftrightarrow> firstKnown (rv d k) (sv d k) = Some (msgHash m1)"
    and "rv d1 l = (if pushed \<and> msg_ProcessingAttempt m = 0 \<and> l = k then Some (msgHash m1) else rv d l)"
    and "sv d1 l = sv d l" and "confirmed d1 l \<Longrightarrow> l = k \<or> confirmed d l"
proof -
  have unsk: "\<not> skipDedupe (assignKeys m)" and rk: "resourceKey (assignKeys m) = Some k"
    and upd: "msgAction (assignKeys m) \<noteq> REMOVE_RESOURCE" and hsh: "hashable (hashOf e) (assignKeys m)"
    using m by (auto simp: isFor_def tracked_def)
  have kv: "known_value d k = firstKnown (rv d k) (sv d k)" by (simp add: known_value_def firstKnown_def)
  from view_ShouldProcess_update [OF unsk rk upd hsh, of d] obtain ok' d2 where V:
    "ShouldProcess (hashOf e) (assignKeys m) d = (ok', withHash (hashOf e) (assignKeys m), d2)"
    "if msg_ProcessingAttempt (assignKeys m) = 0
     then ok' \<longleftrightarrow> known_value d k \<noteq> Some (msgHash (withHash (hashOf e) (assignKeys m)))
     else ok' \<longleftrightarrow> known_value d k = Some (msgHash (withHash (hashOf e) (assignKeys m)))"
    "\<forall>l. rv d2 l = (if ok' \<and> msg_ProcessingAttempt (assignKeys m) = 0 \<and> l = k
       then Some (msgHash (withHash (hashOf e) (assignKeys m))) else rv d l)"
    "\<forall>l. sv d2 l = sv d l" "\<forall>l. confirmed d2 l \<longrightarrow> l = k \<or> confirmed d l"
    by blast
  from sp V(1) have eq: "ok' = pushed" "withHash (hashOf e) (assignKeys m) = m1" "d2 = d1" by simp_all
  note v = V(2-5) [unfolded eq assignKeys_simps kv]
  show "m1 = withHash (hashOf e) (assignKeys m)" using eq(2) by (rule sym)
  show "ev_SensorHash (eventOf m1) \<noteq> None" using withHash_hash [OF hsh unsk] eq(2) by simp
  show "if msg_ProcessingAttempt m = 0 then pushed \<longleftrightarrow> firstKnown (rv d k) (sv d k) \<noteq> Some (msgHash m1)
       else pushed \<longleftrightarrow> firstKnown (rv d k) (sv d k) = Some (msgHash m1)"
    by (rule v(1))
  show "rv d1 l = (if pushed \<and> msg_ProcessingAttempt m = 0 \<and> l = k then Some (msgHash m1) else rv d l)"
    "sv d1 l = sv d l" "confirmed d1 l \<Longrightarrow> l = k \<or> confirmed d l"
    using v(2-4) by blast+
qed

text \<open>The resource of an update that was pushed, and of one that was dropped.\<close>

lemma key_ok_pushed:
  fixes a :: nat
  assumes ok: "key_ok r p P W st" and act: "msgAction m1 \<noteq> REMOVE_RESOURCE" and P1: "P1 = ys @ [m1]"
    and ys: "length ys \<le> 1" "P = ys \<or> (\<exists>z. P = ys @ [z])" and W1: "set W1 \<subseteq> set W"
    and ans: "if a = 0 then W1 = W \<and> r1 = Some (msgHash m1) else firstKnown r p = Some (msgHash m1) \<and> r1 = r"
  shows "key_ok r1 p P1 W1 st"
proof (cases "a = 0")
  case True
  moreover have "set ys \<subseteq> set P" using ys(2) by auto
  ultimately show ?thesis using key_ok_received [OF ok act] ans P1 by simp
next
  case False
  with ans key_ok_injected [OF ok _ ys(2,1) act W1] P1 show ?thesis by simp
qed

subsection \<open>Steps of the handler\<close>

lemma recorded_after: "stores_open r \<Longrightarrow> \<not> smIsClosed (recordEvent k r) \<Longrightarrow> recorded (recordEvent k r) k"
  by (simp add: recordEvent_simps)

lemma shape_push: "length ys \<le> 1 \<Longrightarrow> msgAction m = CREATE_RESOURCE \<longrightarrow> ys = [] \<Longrightarrow> shape (ys @ [m])"
  by (cases ys) (auto simp: shape_def)

lemma same_isFor: "msg_Event m2 = msg_Event m \<Longrightarrow> isFor k m2 = isFor k m"
  using same_event [of m2 m] by (simp add: isFor_def)

lemma isFor_withHash [simp]: "isFor k (withHash H m) = isFor k m"
  by (simp add: isFor_def)

text \<open>What the handler pushes, on a tracked resource and otherwise.\<close>

lemma handled_push:
  assumes ns: "map_option fst (resourceKey m) \<noteq> Some T_Synced"
    and run: "handleEvent e m h = Some (deleted, h1)"
  shows "deleted = [] \<and> (h1 = h \<and> (\<forall>k. \<not> isFor k m) \<or>
    (\<exists>t m2 r. queueType m = Some t \<and> dedupeAndPush e (typeString t) m2 (h\<lparr>reconciliationMap := r\<rparr>) = Some h1 \<and>
       (r = reconciliationMap h \<or> (\<exists>t i. r = AddWithTypeString t i (reconciliationMap h))) \<and>
       msg_Event m2 = msg_Event m \<and>
       (t \<in> trackedTypes \<longrightarrow> msg_DedupeKey m2 = msg_DedupeKey (assignKeys m)) \<and>
       (\<forall>k. isFor k m \<longrightarrow> m2 = assignKeys m \<and> t = fst k \<and> r = recordEvent k (reconciliationMap h))))"
proof (cases "\<exists>k. isFor k m")
  case True
  then obtain k where k: "isFor k m" by blast
  then have tr: "tracked m" "resourceKey m = Some k" "fst k \<in> trackedTypes" by (auto simp: isFor_def tracked_def)
  then have q: "queueType m = Some (fst k)" by (auto simp: queueType_def trackedTypes_def)
  have u: "l = k" if "isFor l m" for l using that tr(2) by (simp add: isFor_def)
  from run handleEvent_tracked [OF tr(1,2), of e h] have r: "deleted = []"
    "dedupeAndPush e (typeString (fst k)) (assignKeys m) (h\<lparr>reconciliationMap := recordEvent k (reconciliationMap h)\<rparr>) = Some h1"
    by auto
  have "recordEvent k (reconciliationMap h) = reconciliationMap h \<or>
      (\<exists>t i. recordEvent k (reconciliationMap h) = AddWithTypeString t i (reconciliationMap h))"
    by (auto simp: recordEvent_def)
  moreover have "\<forall>l. isFor l m \<longrightarrow> assignKeys m = assignKeys m \<and> fst k = fst l \<and>
      recordEvent k (reconciliationMap h) = recordEvent l (reconciliationMap h)"
    using u by auto
  ultimately show ?thesis using r q assignKeys_simps(1) by blast
next
  case False
  then have none: "\<not> isFor k m" for k by blast
  show ?thesis using handleEvent_pushes [OF ns run] by (simp add: none)
qed

lemma push_facts:
  assumes push: "dedupeAndPush e ty m2 (h\<lparr>reconciliationMap := r\<rparr>) = Some h1" and ok: "queues_ok h"
  obtains pushed m1 d1 where "ShouldProcess (hashOf e) m2 (hDeduper h) = (pushed, m1, d1)"
    "m1 = m2 \<or> m1 = withHash (hashOf e) m2"
    "\<And>k. fst k \<in> trackedTypes \<Longrightarrow> \<not> isFor k m2 \<Longrightarrow>
       rv d1 k = rv (hDeduper h) k \<and> sv d1 k = sv (hDeduper h) k \<and> (confirmed d1 k \<longrightarrow> confirmed (hDeduper h) k)"
    "hDeduper h1 = d1" "reconciliationMap h1 = r" "queues_ok h1"
    "\<And>c. pendingAt h1 c = (if c = (ty, shardOf (msg_HashKey m2)) then
        (if pushed then specPush msg_DedupeKey [] (\<lambda>i _. i) m1 (pendingAt h c) else pendingAt h c) else pendingAt h c)"
proof -
  from view_ShouldProcess_other [of "hashOf e" m2 "hDeduper h"] obtain pushed m1 d1 where sp:
    "ShouldProcess (hashOf e) m2 (hDeduper h) = (pushed, m1, d1)" "m1 = m2 \<or> m1 = withHash (hashOf e) m2"
    "\<And>k. fst k \<in> trackedTypes \<Longrightarrow> \<not> isFor k m2 \<Longrightarrow>
       rv d1 k = rv (hDeduper h) k \<and> sv d1 k = sv (hDeduper h) k \<and> (confirmed d1 k \<longrightarrow> confirmed (hDeduper h) k)"
    by blast
  have hk: "msg_HashKey m1 = msg_HashKey m2" using sp(2) by auto
  let ?h0 = "h\<lparr>reconciliationMap := r\<rparr>"
  show thesis
  proof (cases pushed)
    case False
    with sp(1) have "ShouldProcess (hashOf e) m2 (hDeduper ?h0) = (False, m1, d1)" by simp
    from dedupeAndPush_dropped [OF this, of ty] push have "h1 = ?h0\<lparr>hDeduper := d1\<rparr>" by simp
    then show thesis using ok False by (intro that [OF sp]) simp_all
  next
    case True
    with sp(1) have "ShouldProcess (hashOf e) m2 (hDeduper ?h0) = (True, m1, d1)" by simp
    from dedupeAndPush_pushed [OF this, of ty] ok obtain h2 where
      "dedupeAndPush e ty m2 ?h0 = Some h2" "hDeduper h2 = d1" "queues_ok h2" "reconciliationMap h2 = r"
      "\<forall>c. pendingAt h2 c = (if c = (ty, shardOf (msg_HashKey m1))
         then specPush msg_DedupeKey [] (\<lambda>i _. i) m1 (pendingAt ?h0 c) else pendingAt ?h0 c)"
      by auto
    then have
      "hDeduper h1 = d1" "queues_ok h1" "reconciliationMap h1 = r"
      "\<And>c. pendingAt h1 c = (if c = (ty, shardOf (msg_HashKey m1))
         then specPush msg_DedupeKey [] (\<lambda>i _. i) m1 (pendingAt h c) else pendingAt h c)" for c
      using push by (simp_all only: queueAt_cong option.inject)
    then show thesis using True hk by (intro that [OF sp]) simp_all
  qed
qed

text \<open>A message that is no hazard to its own resource.\<close>

lemma own_message:
  assumes k: "isFor k m" and nh: "\<not> hazard e s m k"
  shows "msgAction m \<noteq> REMOVE_RESOURCE" and "hashable (hashOf e) m"
    and "msgAction m = CREATE_RESOURCE \<Longrightarrow> msg_DedupeKey m = [] \<and> pend s k = [] \<and> retries s k = []"
    and "msg_HashKey (assignKeys m) = snd k"
    and "msg_DedupeKey (assignKeys m) = (if msgAction m = CREATE_RESOURCE then [] else snd k)"
  using nh k assignKeys_tracked [of m k] by (auto simp: hazard_def isFor_def)

text \<open>The resource of an update, pushed or dropped.\<close>

lemma own_resource_ok:
  assumes inv: "conn_inv s" and k: "isFor k m" "k \<in> trusted s" and nh: "\<not> hazard e s m k"
    and sp: "ShouldProcess (hashOf e) (assignKeys m) (ddp s) = (pushed, m1, d1)"
    and s1: "inFlight s1 = inFlight s" "stored s1 = stored s" "ddp s1 = d1" "recs s1 = recordEvent k (recs s)"
    and q: "\<And>c. pendingAt (sh s1) c = (if c = coord k then
        (if pushed then specPush msg_DedupeKey [] (\<lambda>i _. i) m1 (pendingAt (sh s) c) else pendingAt (sh s) c)
        else pendingAt (sh s) c)"
    and W: "set (retries s1 k) \<subseteq> set (retries s k)"
    and retry: "if msg_ProcessingAttempt m = 0 then retries s1 k = retries s k
      else set (retries s k) \<subseteq> insert m (set (retries s1 k)) \<and> ev_SensorHash (eventOf m) \<noteq> None"
  shows "resource_ok s1 k"
proof -
  note own = own_message [OF k(1) nh]
  have ok: "resource_ok s k" using conn_invD(6) [OF inv k(2)] .
  then have key: "key_ok (rv (ddp s) k) (sv (ddp s) k) (pend s k) (retries s k) (stored s k)" and sh: "shape (pend s k)"
    by (simp_all add: resource_ok_def)
  note v = update_answer [OF k(1) own(1,2) sp]
  have m1: "msgAction m1 = msgAction m" "isFor k m1" "msg_DedupeKey m1 = msg_DedupeKey (assignKeys m)"
    using v(1) k(1) same_isFor [OF assignKeys_simps(1), of k m] by simp_all
  have "shape (pend s1 k) \<and> key_ok (rv d1 k) (sv d1 k) (pend s1 k) (retries s1 k) (stored s k)"
  proof (cases pushed)
    case True
    have qc: "pendingAt (sh s1) c = (if c = coord k then specPush msg_DedupeKey [] (\<lambda>i _. i) m1 (pendingAt (sh s) c)
        else pendingAt (sh s) c)" for c using q [of c] True by simp
    have create: "msgAction m1 = CREATE_RESOURCE \<Longrightarrow> pend s k = []" using own(3) m1(1) by simp
    have key1: "msg_DedupeKey m1 = (if msgAction m1 = CREATE_RESOURCE then [] else snd k)"
      using own(5) m1 by simp
    from pend_push_self [OF inv k(2) s1(1) qc m1(2) key1 create] obtain ys where ys:
      "pend s1 k = ys @ [m1]" "length ys \<le> 1" "pend s k = ys \<or> (\<exists>z. pend s k = ys @ [z])" by blast
    have "shape (pend s1 k)" unfolding ys(1) using ys own(3) m1(1) by (auto intro!: shape_push)
    moreover have "key_ok (rv d1 k) (sv d1 k) (pend s1 k) (retries s1 k) (stored s k)"
      unfolding v(5)
      by (rule key_ok_pushed [OF key _ ys W, of "msg_ProcessingAttempt m"])
        (use m1(1) own(1) v(3,4) True retry in \<open>auto split: if_splits\<close>)
    ultimately show ?thesis ..
  next
    case dropped: False
    have p: "pend s1 k = pend s k" using q [of "coord k"] dropped s1(1) by (simp add: pend_def)
    have "key_ok (rv d1 k) (sv d1 k) (pend s1 k) (retries s1 k) (stored s k)"
    proof (cases "msg_ProcessingAttempt m = 0")
      case True
      then show ?thesis using key v(4,5) [of k] dropped retry p by simp
    next
      case attempt: False
      then have "msgHash m1 = msgHash m"
        using v(1) retry same_event [OF assignKeys_simps(1), of m] by (simp add: withHash_known)
      then have "firstKnown (rv (ddp s) k) (sv (ddp s) k) \<noteq> Some (msgHash m)"
        using v(3) dropped attempt by simp
      from key_ok_not_injected [OF key this W] retry attempt v(4,5) [of k] dropped p
      show ?thesis by simp
    qed
    with sh p show ?thesis by simp
  qed
  then show ?thesis
    using recorded_after [OF conn_invD(2) [OF inv], of k] s1 by (simp add: resource_ok_def)
qed

text \<open>Receiving a message, or injecting one again.\<close>

lemma handled_inv:
  assumes inv: "conn_inv s" and ns: "map_option fst (resourceKey m) \<noteq> Some T_Synced"
    and run: "handleEvent e m (sh s) = Some (deleted, h1)"
    and s1: "sh s1 = h1" "inFlight s1 = inFlight s" "stored s1 = stored s"
      "untrusted s \<union> {k. hazard e s m k} \<subseteq> untrusted s1"
    and W: "set (waiting s1) \<subseteq> set (waiting s)" "\<And>k. \<not> isFor k m \<Longrightarrow> retries s1 k = retries s k"
    and retry: "\<And>k. isFor k m \<Longrightarrow> k \<in> trusted s \<Longrightarrow> \<not> hazard e s m k \<Longrightarrow>
      if msg_ProcessingAttempt m = 0 then retries s1 k = retries s k
      else set (retries s k) \<subseteq> insert m (set (retries s1 k)) \<and> ev_SensorHash (eventOf m) \<noteq> None"
  shows "conn_inv s1"
proof -
  have G: "trusted s1 \<subseteq> trusted s" using s1(4) by (intro trusted_mono) blast
  have nh: "\<not> hazard e s m k" if "k \<in> trusted s1" for k using trustedD(3) [OF that] s1(4) by blast
  have wait: "wait_ok (trusted s1) w" if "w \<in> set (waiting s1)" for w
    using conn_invD(5) [OF inv, of w] wait_ok_mono [OF _ G] W(1) that by blast
  have fly: "item_ok (trusted s1) c x" if "inFlight s1 c = Some x" for c x
    using conn_invD(4) [OF inv, of c x] item_ok_mono [OF _ G] that s1(2) by simp
  have old: "item_ok (trusted s1) c x" if "x \<in> set (pendingAt (sh s) c)" for c x
    using conn_invD(3) [OF inv that] item_ok_mono [OF _ G] by blast
  from handled_push [OF ns run] consider "h1 = sh s" "\<And>k. \<not> isFor k m"
    | t m2 r where "queueType m = Some t" "dedupeAndPush e (typeString t) m2 ((sh s)\<lparr>reconciliationMap := r\<rparr>) = Some h1"
       "r = recs s \<or> (\<exists>t i. r = AddWithTypeString t i (recs s))" "msg_Event m2 = msg_Event m"
       "t \<in> trackedTypes \<Longrightarrow> msg_DedupeKey m2 = msg_DedupeKey (assignKeys m)"
       "\<And>k. isFor k m \<Longrightarrow> m2 = assignKeys m \<and> t = fst k \<and> r = recordEvent k (recs s)"
    by blast
  then show ?thesis
  proof cases
    case 1
    show ?thesis
    proof (rule conn_invI)
      fix k assume "k \<in> trusted s1"
      with G have "resource_ok s k" using conn_invD(6) [OF inv] by blast
      then show "resource_ok s1 k"
        by (rule resource_ok_same) (use 1 s1 W(2) in \<open>auto simp: pend_def\<close>)
    qed (use 1 s1 conn_invD(1,2) [OF inv] wait fly old in auto)
  next
    case (2 t m2 r)
    obtain pushed m1 d1 where P: "ShouldProcess (hashOf e) m2 (ddp s) = (pushed, m1, d1)"
      "m1 = m2 \<or> m1 = withHash (hashOf e) m2"
      "\<And>k. fst k \<in> trackedTypes \<Longrightarrow> \<not> isFor k m2 \<Longrightarrow>
         rv d1 k = rv (ddp s) k \<and> sv d1 k = sv (ddp s) k \<and> (confirmed d1 k \<longrightarrow> confirmed (ddp s) k)"
      "hDeduper h1 = d1" "reconciliationMap h1 = r" "queues_ok h1"
      "\<And>c. pendingAt h1 c = (if c = (typeString t, shardOf (msg_HashKey m2)) then
        (if pushed then specPush msg_DedupeKey [] (\<lambda>i _. i) m1 (pendingAt (sh s) c) else pendingAt (sh s) c)
        else pendingAt (sh s) c)"
      using push_facts [OF 2(2) conn_invD(1) [OF inv]] by blast
    let ?c0 = "(typeString t, shardOf (msg_HashKey m2))"
    have m1: "isFor k m1 = isFor k m" "msg_DedupeKey m1 = msg_DedupeKey m2" "msgAction m1 = msgAction m" for k
      using P(2) same_isFor [OF 2(4), of k] same_event [OF 2(4)] by auto
    have m2: "isFor k m2 = isFor k m" for k using same_isFor [OF 2(4)] .
    have coord: "?c0 = coord k" if "isFor k m" "k \<in> trusted s1" for k
      using 2(6) [OF that(1)] own_message(4) [OF that(1) nh [OF that(2)]] by (simp add: coord_def)
    have key: "msg_DedupeKey m1 \<noteq> snd k" if "\<not> isFor k m" "k \<in> trusted s1" "?c0 = coord k" for k
    proof -
      from that(3) have "t = fst k" by (simp add: coord_def)
      with nh [OF that(2)] that(1) 2(1) 2(5) trustedD(1) [OF that(2)] m1(2) show ?thesis by (simp add: hazard_def)
    qed
    have new: "item_ok (trusted s1) ?c0 m1" if pushed
      unfolding item_ok_def
    proof (intro ballI)
      fix k assume k: "k \<in> trusted s1"
      show "if isFor k m1 then ?c0 = coord k \<and> msg_DedupeKey m1 = (if msgAction m1 = CREATE_RESOURCE then [] else snd k) \<and>
            (msgAction m1 \<noteq> REMOVE_RESOURCE \<longrightarrow> ev_SensorHash (eventOf m1) \<noteq> None)
          else ?c0 = coord k \<longrightarrow> msg_DedupeKey m1 \<noteq> snd k"
      proof (cases "isFor k m")
        case True
        note own = own_message [OF True nh [OF k]]
        have "m2 = assignKeys m" using 2(6) [OF True] by simp
        then have "ev_SensorHash (eventOf m1) \<noteq> None"
          using update_answer(2) [OF True own(1,2), of "ddp s" pushed m1 d1] P(1) by simp
        then show ?thesis using True coord [OF True k] own(5) m1 \<open>m2 = assignKeys m\<close> by simp
      next
        case False
        then show ?thesis using key k m1(1) by simp
      qed
    qed
    show ?thesis
    proof (rule conn_invI)
      show "queues_ok (sh s1)" using P(6) s1(1) by simp
      show "stores_open (recs s1)" using 2(3) P(5) s1(1) conn_invD(2) [OF inv] by (auto intro: stores_open_add)
      show "item_ok (trusted s1) c x" if "x \<in> set (pendingAt (sh s1) c)" for c x
        using that P(7) [of c] old [of x c] new set_specPush [of msg_DedupeKey "[]" m1 "pendingAt (sh s) c"] s1(1)
        by (auto split: if_splits)
      fix k assume k: "k \<in> trusted s1"
      then have k0: "k \<in> trusted s" using G by blast
      show "resource_ok s1 k"
      proof (cases "isFor k m")
        case True
        have m2a: "m2 = assignKeys m" "r = recordEvent k (recs s)" using 2(6) [OF True] by simp_all
        have q: "pendingAt (sh s1) c = (if c = coord k then
            (if pushed then specPush msg_DedupeKey [] (\<lambda>i _. i) m1 (pendingAt (sh s) c) else pendingAt (sh s) c)
            else pendingAt (sh s) c)" for c
          using P(7) [of c] coord [OF True k] s1(1) by simp
        have sub: "set (retries s1 k) \<subseteq> set (retries s k)" using W(1) by (auto simp: retries_def)
        show ?thesis
          by (rule own_resource_ok [OF inv True k0 nh [OF k] P(1) [unfolded m2a(1)] s1(2,3) _ _ q sub])
            (use retry [OF True k0 nh [OF k]] P(4,5) s1(1) m2a in auto)
      next
        case False
        have qo: "pendingAt (sh s1) c = (if c = ?c0 then
            (if pushed then specPush msg_DedupeKey [] (\<lambda>i _. i) m1 (pendingAt (sh s) c) else pendingAt (sh s) c)
            else pendingAt (sh s) c)" for c
          using P(7) [of c] s1(1) by simp
        have "pend s1 k = pend s k"
        proof (cases pushed)
          case True
          show ?thesis
            by (rule pend_push_other [OF inv k0 s1(2), of ?c0 m1]) (use qo True m1(1) False key [OF False k] in auto)
        next
          case False
          then show ?thesis using qo s1(2) by (simp add: pend_def)
        qed
        moreover have "smIsClosed (recs s1) = smIsClosed (recs s)" "recorded (recs s) k \<Longrightarrow> recorded (recs s1) k"
          using 2(3) P(5) s1(1) by (auto intro: recorded_mono)
        ultimately show ?thesis
          using P(3) [OF trustedD(1) [OF k]] False m2 W(2) s1 P(4)
          by (intro resource_ok_same [OF conn_invD(6) [OF inv k0]]) auto
      qed
    qed (use wait fly in auto)
  qed
qed

text \<open>The end of the synchronization.\<close>

lemma synced_inv:
  assumes inv: "conn_inv s" and env: "env_ok e s"
    and m: "msg_Event m = Some ev" "ev_Resource ev = Some (SensorEvent_Synced ids)"
    and run: "handleEvent e m (sh s) = Some (deleted, h1)"
    and s1: "sh s1 = h1" "inFlight s1 = inFlight s" "stored s1 = afterRemovals deleted (stored s)"
      "untrusted s \<subseteq> untrusted s1"
    and W: "set (waiting s1) \<subseteq> set (waiting s)" "\<And>k. retries s1 k = retries s k"
  shows "conn_inv s1"
proof -
  note G = trusted_mono [OF s1(4)]
  have wait: "wait_ok (trusted s1) w" if "w \<in> set (waiting s1)" for w
    using conn_invD(5) [OF inv, of w] wait_ok_mono [OF _ G] W(1) that by blast
  have fly: "item_ok (trusted s1) c x" if "inFlight s1 c = Some x" for c x
    using conn_invD(4) [OF inv, of c x] item_ok_mono [OF _ G] that s1(2) by simp
  have old: "item_ok (trusted s1) c x" if "x \<in> set (pendingAt (sh s) c)" for c x
    using conn_invD(3) [OF inv that] item_ok_mono [OF _ G] by blast
  show ?thesis
  proof (cases "smIsClosed (recs s)")
    case True
    then have "deleted = []" "h1 = sh s" using run handleEvent_synced [OF m, of e "sh s"] by (simp_all add: handleSynced_def)
    then have same: "sh s1 = sh s" "stored s1 = stored s" using s1 by (simp_all add: afterRemovals_def fun_eq_iff)
    show ?thesis
    proof (rule conn_invI)
      fix k assume "k \<in> trusted s1"
      with G have "resource_ok s k" using conn_invD(6) [OF inv] by blast
      then show "resource_ok s1 k"
        by (rule resource_ok_same) (use same s1(2) W(2) in \<open>auto simp: pend_def\<close>)
    qed (use same conn_invD(1,2) [OF inv] wait fly old in auto)
  next
    case False
    have run1: "handleSynced e ids (sh s) = Some (deleted, h1)" using run handleEvent_synced [OF m] by simp
    note H = handleSynced_spec [OF run1 False]
    have q: "queueAt h1 = queueAt (sh s)" using H(3) by (simp add: queueAt_def fun_eq_iff)
    have p: "pend s1 k = pend s k" for k using q s1(1,2) by (simp add: pend_def)
    show ?thesis
    proof (rule conn_invI)
      fix k assume "k \<in> trusted s1"
      then have k: "k \<in> trusted s" using G by blast
      have ok: "resource_ok s k" using conn_invD(6) [OF inv k] .
      have "key_ok (rv (hDeduper h1) k) (sv (hDeduper h1) k) (pend s k) (retries s k) (afterRemovals deleted (stored s) k)"
      proof (unfold H(1) view_ProcessSync(1), rule key_ok_synced)
        show "key_ok (rv (ddp s) k) (sv (ddp s) k) (pend s k) (retries s k) (stored s k)"
          using ok by (simp add: resource_ok_def)
        show "sv (ProcessSync (syncOrder e) (ddp s)) k = sv (ddp s) k \<or> sv (ProcessSync (syncOrder e) (ddp s)) k = None"
          by (rule view_ProcessSync(2))
        show "afterRemovals deleted (stored s) k = stored s k \<or>
            afterRemovals deleted (stored s) k = None \<and> rv (ddp s) k = None \<and> sv (ProcessSync (syncOrder e) (ddp s)) k = None"
        proof (cases "k \<in> set deleted")
          case True
          from H(4) [OF this] env have d: "fst k \<noteq> T_AlertResults" "\<not> recorded (recs s) k" by (force simp: env_ok_def)+
          then have conf: "\<not> confirmed (ddp s) k" using ok False by (auto simp: resource_ok_def)
          from ProcessSync_forgets [OF d(1) conf, of "syncOrder e"] env conf True show ?thesis
            by (auto simp: env_ok_def afterRemovals_def confirmed_def)
        qed (simp add: afterRemovals_def)
      qed
      then show "resource_ok s1 k"
        using ok H(2) s1 W(2) by (simp add: resource_ok_def p)
    next
      show "stores_open (recs s1)" using H(2) s1(1) by (auto simp: stores_open_def smIsClosed_def)
      show "queues_ok (sh s1)" using conn_invD(1) [OF inv] H(3) s1(1) by (simp add: queues_ok_def)
      show "item_ok (trusted s1) c x" if "x \<in> set (pendingAt (sh s1) c)" for c x
        using old [of x c] that q s1(1) by simp
    qed (use wait fly in auto)
  qed
qed

subsection \<open>Reachable states\<close>

lemma afterRemovals_Nil [simp]: "afterRemovals [] st = st"
  by (simp add: afterRemovals_def fun_eq_iff)

lemma set_remove1_insert: "set xs \<subseteq> insert x (set (remove1 x xs))"
  by (induction xs) auto

lemma filter_remove1_other: "\<not> P x \<Longrightarrow> filter P (remove1 x xs) = filter P xs"
  by (induction xs) auto

lemma synced_resource:
  assumes "map_option fst (resourceKey m) = Some T_Synced"
  obtains ev ids where "msg_Event m = Some ev" "ev_Resource ev = Some (SensorEvent_Synced ids)" "\<And>k. \<not> isFor k m"
proof -
  from assms obtain ev r where ev: "msg_Event m = Some ev" "ev_Resource ev = Some r" "TypeOf r = T_Synced"
    by (auto simp: resourceKey_def split: option.splits)
  moreover from this(3) obtain ids where "r = SensorEvent_Synced ids" by (cases r) simp_all
  moreover have "\<not> isFor k m" for k using assms isFor_type [of k m] by (auto simp: isFor_def trackedTypes_def)
  ultimately show thesis using that by blast
qed

lemma receive_inv:
  assumes inv: "conn_inv s" and att: "msg_ProcessingAttempt m = 0"
    and env: "env_ok e s" and run: "handleEvent e m (sh s) = Some (deleted, h1)"
  shows "conn_inv (s\<lparr>sh := h1, stored := afterRemovals deleted (stored s), untrusted := untrusted s \<union> {k. hazard e s m k}\<rparr>)"
    (is "conn_inv ?s1")
proof (cases "map_option fst (resourceKey m) = Some T_Synced")
  case True
  then obtain ev ids where "msg_Event m = Some ev" "ev_Resource ev = Some (SensorEvent_Synced ids)"
    by (rule synced_resource)
  then show ?thesis by (rule synced_inv [OF inv env _ _ run]) (auto simp: retries_def)
next
  case False
  have "deleted = []" using handled_push [OF False run] by simp
  then show ?thesis by (intro handled_inv [OF inv False run]) (auto simp: retries_def att)
qed

lemma injected_inv:
  assumes inv: "conn_inv s" and w: "w \<in> set (waiting s)"
    and env: "env_ok e s" and run: "handleEvent e w (sh s) = Some (deleted, h1)"
  shows "conn_inv (s\<lparr>sh := h1, waiting := remove1 w (waiting s), stored := afterRemovals deleted (stored s),
      untrusted := untrusted s \<union> {k. hazard e s w k}\<rparr>)" (is "conn_inv ?s1")
proof -
  have W: "set (waiting ?s1) \<subseteq> set (waiting s)" by (simp add: set_remove1_subset)
  have other: "retries ?s1 k = retries s k" if "\<not> isFor k w" for k
    using that by (simp add: retries_def filter_remove1_other)
  show ?thesis
  proof (cases "map_option fst (resourceKey w) = Some T_Synced")
    case True
    then obtain ev ids where "msg_Event w = Some ev" "ev_Resource ev = Some (SensorEvent_Synced ids)" "\<And>k. \<not> isFor k w"
      by (rule synced_resource) blast
    then show ?thesis by (intro synced_inv [OF inv env _ _ run _ _ _ _ W]) (auto simp: other)
  next
    case False
    have del: "deleted = []" using handled_push [OF False run] by simp
    show ?thesis
    proof (rule handled_inv [OF inv False run _ _ _ _ W other])
      fix k assume k: "isFor k w" "k \<in> trusted s" "\<not> hazard e s w k"
      have "retries ?s1 k = remove1 w (retries s k)" using k(1) by (simp add: retries_def filter_remove1)
      then have "set (retries s k) \<subseteq> insert w (set (retries ?s1 k))"
        using set_remove1_insert [of "retries s k" w] by simp
      then show "if msg_ProcessingAttempt w = 0 then retries ?s1 k = retries s k
        else set (retries s k) \<subseteq> insert w (set (retries ?s1 k)) \<and> ev_SensorHash (eventOf w) \<noteq> None"
        using conn_invD(5) [OF inv w] k own_message(1) [OF k(1,3)] by (auto simp: wait_ok_def)
    qed (use del in auto)
  qed
qed

lemma conn_step_inv:
  assumes "connStep s s1" and "conn_inv s"
  shows "conn_inv s1"
  using assms(1)
proof cases
  case (Receive m e deleted h1)
  then show ?thesis using receive_inv [OF assms(2)] by blast
next
  case (Take c m q1)
  then show ?thesis using take_inv [OF assms(2)] by blast
next
  case (Processed c m results d1)
  then show ?thesis using processed_inv [OF assms(2)] by blast
next
  case (Stopped c m results d1)
  then show ?thesis using stopped_inv [OF assms(2)] by blast
next
  case (Failed c m results d1)
  then show ?thesis using failed_inv [OF assms(2)] by blast
next
  case (Retried c m results m1 d1)
  then show ?thesis using retried_inv [OF assms(2)] by blast
next
  case (Exhausted c m results d1)
  then show ?thesis using exhausted_inv [OF assms(2)] by blast
next
  case (Injected w e deleted h1)
  then show ?thesis using injected_inv [OF assms(2)] by blast
qed

lemma conn_reachable_inv: "reachableConn s \<Longrightarrow> conn_inv s"
  by (induction rule: reachableConn.induct) (auto intro: start_inv conn_step_inv)

lemma reachable_key_ok:
  assumes "reachableConn s" and "fst k \<in> trackedTypes" and "snd k \<noteq> []" and "k \<notin> untrusted s"
  shows "key_ok (rv (ddp s) k) (sv (ddp s) k) (pend s k) (retries s k) (stored s k)"
  using conn_invD(6) [OF conn_reachable_inv [OF assms(1)], of k] assms(2-4) by (simp add: resource_ok_def trusted_def)

subsection \<open>Properties\<close>


text \<open>The hashes the deduper reports as successfully processed, which Central persists and starts the
  next connection with, are always those of the stored resources.\<close>

theorem processed_hashes_are_stored:
  assumes "reachableConn s" and "fst k \<in> trackedTypes" and "snd k \<noteq> []" and "k \<notin> untrusted s"
    and "mget (GetSuccessfulHashes maxHashes (hDeduper (sh s))) (ekey k) = Some v"
  shows "stored s k = Some v"
proof -
  have "sv (ddp s) k = Some v" using assms(5) by (simp add: GetSuccessfulHashes_get sv_def split: if_splits)
  then show ?thesis by (rule key_okD(3) [OF reachable_key_ok [OF assms(1-4)]])
qed

text \<open>A connection that starts with one known deployment.\<close>

definition exampleDeduper :: deduperImpl where
  "exampleDeduper =
     \<lparr>received = [], successfullyProcessed = [(''Deployment:a'', \<lparr>val = 5, processed = False\<rparr>)]\<rparr>"

definition exampleState :: "unit connState" where
  "exampleState = startState ''c1'' exampleDeduper \<lparr>maxSensors = 0, sensors = []\<rparr>
     (\<lambda>k. if k = (T_Deployment, ''a'') then Some 5 else None) {}"

definition exampleEvent :: "unit MsgFromSensor" where
  "exampleEvent =
     \<lparr>msg_Event = Some \<lparr>ev_Id = ''a'', ev_Action = UPDATE_RESOURCE, ev_SensorHash = Some 5,
                        ev_Resource = Some (SensorEvent_Deployment ())\<rparr>,
      msg_HashKey = [], msg_DedupeKey = [], msg_ProcessingAttempt = 0\<rparr>"

lemma ekey_deployment_a: "ekey (T_Deployment, ''a'') = ''Deployment:a''"
  by (simp add: ekey_def FormatKey_def)

lemma exampleState_reachable: "reachableConn exampleState"
  unfolding exampleState_def
proof (rule Start, intro allI impI)
  fix k v assume k: "fst k \<in> trackedTypes \<and> k \<notin> {} \<and> sv exampleDeduper k = Some v"
  then have "ekey k = ''Deployment:a'' \<and> v = 5" by (simp add: sv_def exampleDeduper_def split: if_splits)
  then have "k = (T_Deployment, ''a'') \<and> v = 5" by (metis ekey_deployment_a ekey_inj)
  then show "(if k = (T_Deployment, ''a'') then Some 5 else None) = Some v" by simp
qed


theorem processed_hashes_are_stored_witness:
  "mget (GetSuccessfulHashes 10 (hDeduper (sh exampleState))) (ekey (T_Deployment, ''a'')) = Some 5 \<and>
   stored exampleState (T_Deployment, ''a'') = Some 5"
proof -
  have h: "mget (GetSuccessfulHashes 10 (hDeduper (sh exampleState))) (ekey (T_Deployment, ''a'')) = Some 5"
    by (simp add: GetSuccessfulHashes_def ekey_deployment_a exampleState_def startState_def newConnection_def
        newSensorEventHandler_def exampleDeduper_def StartSync_def)
  with processed_hashes_are_stored [OF exampleState_reachable _ _ _ h] show ?thesis
    by (simp add: trackedTypes_def exampleState_def startState_def)
qed

subsection \<open>Where events get lost\<close>

text \<open>
  The inventories of nodes are queued with the key \<open>NodeInventory:\<close>, whatever the node is:
  \<open>shallDedupe\<close> excludes them, so the key they get is empty before the prefix is added. Two nodes of
  the same shard replace each other's inventory.
\<close>

lemma handleEvent_inventory:
  assumes m: "resourceKey m = Some (T_NodeInventory, i)" "msgAction m \<noteq> REMOVE_RESOURCE" "msg_DedupeKey m = []"
    and ok: "queues_ok h"
  shows "\<exists>h1 x. handleEvent e m h = Some ([], h1) \<and> queues_ok h1 \<and> msg_DedupeKey x = ''NodeInventory:'' \<and>
    resourceKey x = Some (T_NodeInventory, i) \<and>
    pendingAt h1 (typeString T_Node, shardOf i) =
      specPush msg_DedupeKey [] (\<lambda>i _. i) x (pendingAt h (typeString T_Node, shardOf i))"
proof -
  from m(1) obtain ev r where ev: "msg_Event m = Some ev" "ev_Resource ev = Some r" "TypeOf r = T_NodeInventory"
    "ev_Id ev = i" by (auto simp: resourceKey_def split: option.splits)
  then obtain c where r: "r = SensorEvent_NodeInventory c" by (cases r) auto
  let ?x = "m\<lparr>msg_HashKey := i, msg_DedupeKey := ''NodeInventory:''\<rparr>"
  have "assignKeys m = m\<lparr>msg_HashKey := i\<rparr>"
    using ev r m(2) by (simp add: assignKeys_def shallDedupe_def eventOf_def msgAction_def)
  then have run: "handleEvent e m h = map_option (Pair []) (dedupeAndPush e (typeString T_Node) ?x h)"
    using ev r m(3) by (simp add: handleEvent_def addMultiplexed_def)
  have "skipDedupe ?x" using ev r by (simp add: skipDedupe_def)
  then have "ShouldProcess (hashOf e) ?x (hDeduper h) = (True, ?x, hDeduper h)" by (simp add: ShouldProcess_def)
  from dedupeAndPush_pushed [OF this ok, of "typeString T_Node"] obtain h1 where h1:
    "dedupeAndPush e (typeString T_Node) ?x h = Some h1" "queues_ok h1"
    "\<forall>c. pendingAt h1 c = (if c = (typeString T_Node, shardOf (msg_HashKey ?x))
       then specPush msg_DedupeKey [] (\<lambda>i _. i) ?x (pendingAt h c) else pendingAt h c)" by blast
  have "pendingAt h1 (typeString T_Node, shardOf i) =
      specPush msg_DedupeKey [] (\<lambda>i _. i) ?x (pendingAt h (typeString T_Node, shardOf i))"
    using h1(3) [rule_format, of "(typeString T_Node, shardOf i)"] by simp
  moreover have "resourceKey ?x = Some (T_NodeInventory, i)" using m(1) by (simp add: resourceKey_def)
  ultimately show ?thesis using run h1(1,2)
    by (intro exI [of _ h1] exI [of _ ?x]) simp
qed

theorem node_inventories_replace_each_other:
  assumes m1: "resourceKey m1 = Some (T_NodeInventory, i1)" "msgAction m1 \<noteq> REMOVE_RESOURCE" "msg_DedupeKey m1 = []"
    and m2: "resourceKey m2 = Some (T_NodeInventory, i2)" "msgAction m2 \<noteq> REMOVE_RESOURCE" "msg_DedupeKey m2 = []"
    and shard: "shardOf i1 = shardOf i2" and ok: "queues_ok h"
    and empty: "pendingAt h (typeString T_Node, shardOf i1) = []"
  shows "\<exists>h1 h2 x. handleEvent e m1 h = Some ([], h1) \<and> handleEvent e m2 h1 = Some ([], h2) \<and>
    pendingAt h2 (typeString T_Node, shardOf i2) = [x] \<and> resourceKey x = Some (T_NodeInventory, i2)"
proof -
  from handleEvent_inventory [OF m1 ok, of e] empty obtain h1 x1 where h1:
    "handleEvent e m1 h = Some ([], h1)" "queues_ok h1" "msg_DedupeKey x1 = ''NodeInventory:''"
    "pendingAt h1 (typeString T_Node, shardOf i1) = [x1]"
    by (auto simp: specPush_def)
  from handleEvent_inventory [OF m2 h1(2), of e] obtain h2 x2 where h2:
    "handleEvent e m2 h1 = Some ([], h2)" "msg_DedupeKey x2 = ''NodeInventory:''"
    "resourceKey x2 = Some (T_NodeInventory, i2)"
    "pendingAt h2 (typeString T_Node, shardOf i2) = specPush msg_DedupeKey [] (\<lambda>i _. i) x2 [x1]"
    using h1(4) shard by auto
  then show ?thesis using h1(1,3) by (auto simp: specPush_def)
qed

lemma two_nodes_one_shard: "shardOf ''n4'' = shardOf ''n11''"
  by (simp add: shardOf_def fnv32_def workerQueueSize_def)

text \<open>
  After its last attempt an event is given up without \<open>RemoveMessage\<close>: the deduper still takes it for
  received, and refuses the event when the Sensor sends it again.
\<close>

theorem exhausted_event_stays_received:
  assumes "msg_ProcessingAttempt m + 1 = maxHandlerAttempts"
  shows "runWorker [RunFailed TransientError] m d = (None, d)"
  using assms by (simp add: runWorker_def)

end
