(* ===== verification/Ip_Networks.thy ===== *)
theory Ip_Networks
  imports Go_Prelude "HOL-Library.Word" "HOL-Library.Sublist"
begin

text \<open>
  IP addresses and networks: \<open>pkg/net/addr.go\<close>, \<open>pkg/net/internal/ipcheck\<close> and
  \<open>pkg/netutil\<close>, with the parts of Go's \<open>net\<close> and \<open>net/netip\<close> packages they use
  (\<open>ParseCIDR\<close>, \<open>IPMask.Size\<close>, \<open>IPNet.Contains\<close>, \<open>IPNet.String\<close> of an IPv4 network).
  A byte is an \<open>8 word\<close>, \<open>net.IP\<close> and \<open>net.IPMask\<close> are lists of bytes. The prefix of a
  network is the list of its network bits (\<open>netPrefix\<close>); a parsed network is determined
  by its family and its prefix, and contains the addresses its prefix is a prefix of.
\<close>

unbundle bit_operations_syntax

named_theorems ip_eval \<open>evaluation of the parser on concrete strings\<close>

type_synonym byte = "8 word"

subsection \<open>Masks and networks of Go's net package\<close>

record IPNet =
  IP :: "byte list"
  Mask :: "byte list"

text \<open>\<open>net.CIDRMask(n, 8 * l)\<close>, for \<open>n \<le> 8 * l\<close>.\<close>

fun cidrMask :: "nat \<Rightarrow> nat \<Rightarrow> byte list" where
  "cidrMask 0 n = []"
| "cidrMask (Suc l) n =
     (if 8 \<le> n then 0xFF # cidrMask l (n - 8) else NOT (drop_bit n 0xFF) # cidrMask l 0)"

text \<open>\<open>simpleMaskLength\<close>, behind \<open>IPMask.Size\<close>; \<open>None\<close> is a mask that is not canonical. The
  first function counts the leading ones of a byte and returns what is left of it; a byte has eight.\<close>

fun leadingOnes :: "nat \<Rightarrow> byte \<Rightarrow> nat \<times> byte" where
  "leadingOnes 0 v = (0, v)"
| "leadingOnes (Suc k) v =
     (if v AND 0x80 \<noteq> 0 then (let (n, v') = leadingOnes k (push_bit 1 v) in (Suc n, v')) else (0, v))"

fun simpleMaskLength :: "byte list \<Rightarrow> nat option" where
  "simpleMaskLength [] = Some 0"
| "simpleMaskLength (v # msk) =
     (if v = 0xFF then map_option ((+) 8) (simpleMaskLength msk)
      else (let (n, v') = leadingOnes 8 v
            in if v' \<noteq> 0 then None else if list_all (\<lambda>b. b = 0) msk then Some n else None))"

definition maskSize :: "byte list \<Rightarrow> nat \<times> nat" where
  "maskSize m = (case simpleMaskLength m of None \<Rightarrow> (0, 0) | Some ones \<Rightarrow> (ones, 8 * length m))"

definition v4InV6Prefix :: "byte list" where
  "v4InV6Prefix = [0, 0, 0, 0, 0, 0, 0, 0, 0, 0, 0xFF, 0xFF]"

text \<open>\<open>IP.To4\<close>, \<open>IP.Equal\<close> and \<open>IP.Mask\<close>.\<close>

definition to4 :: "byte list \<Rightarrow> byte list option" where
  "to4 ip =
     (if length ip = 4 then Some ip
      else if length ip = 16 \<and> take 12 ip = v4InV6Prefix then Some (drop 12 ip)
      else None)"

definition ipEqual :: "byte list \<Rightarrow> byte list \<Rightarrow> bool" where
  "ipEqual ip x =
     (if length ip = length x then ip = x
      else if length ip = 4 \<and> length x = 16 then take 12 x = v4InV6Prefix \<and> ip = drop 12 x
      else if length ip = 16 \<and> length x = 4 then take 12 ip = v4InV6Prefix \<and> drop 12 ip = x
      else False)"

definition ipMask :: "byte list \<Rightarrow> byte list \<Rightarrow> byte list option" where
  "ipMask ip msk =
     (let msk' = (if length msk = 16 \<and> length ip = 4 \<and> list_all (\<lambda>b. b = 0xFF) (take 12 msk)
                   then drop 12 msk else msk);
          ip' = (if length msk' = 4 \<and> length ip = 16 \<and> take 12 ip = v4InV6Prefix then drop 12 ip else ip)
      in if length ip' \<noteq> length msk' then None else Some (map2 (AND) ip' msk'))"

text \<open>\<open>networkNumberAndMask\<close> and \<open>IPNet.Contains\<close>; \<open>None\<close> is a pair of nil slices, of length zero.\<close>

definition networkNumberAndMask :: "IPNet \<Rightarrow> (byte list \<times> byte list) option" where
  "networkNumberAndMask n =
     (case (case to4 (IP n) of Some ip \<Rightarrow> Some ip
            | None \<Rightarrow> if length (IP n) = 16 then Some (IP n) else None) of
        None \<Rightarrow> None
      | Some ip \<Rightarrow>
          (if length (Mask n) = 4 then (if length ip = 4 then Some (ip, Mask n) else None)
           else if length (Mask n) = 16 then
             Some (ip, if length ip = 4 then drop 12 (Mask n) else Mask n)
           else None))"

definition netContains :: "IPNet \<Rightarrow> byte list \<Rightarrow> bool" where
  "netContains n ip =
     (let (nn, m) = (case networkNumberAndMask n of None \<Rightarrow> ([], []) | Some p \<Rightarrow> p);
          ip' = (case to4 ip of Some x \<Rightarrow> x | None \<Rightarrow> ip)
      in length ip' = length nn \<and> list_all (\<lambda>i. nn ! i AND m ! i = ip' ! i AND m ! i) [0..<length ip'])"

subsection \<open>Parsing addresses and networks\<close>

definition decDigit :: "char \<Rightarrow> bool" where
  "decDigit c \<longleftrightarrow> CHR ''0'' \<le> c \<and> c \<le> CHR ''9''"

definition decVal :: "char \<Rightarrow> nat" where
  "decVal c = of_char c - 48"

definition hexVal :: "char \<Rightarrow> nat option" where
  "hexVal c =
     (if decDigit c then Some (decVal c)
      else if CHR ''a'' \<le> c \<and> c \<le> CHR ''f'' then Some (of_char c - 87)
      else if CHR ''A'' \<le> c \<and> c \<le> CHR ''F'' then Some (of_char c - 55)
      else None)"

text \<open>\<open>netip.parseIPv4Fields\<close>: the loop over the bytes of the string, with the previous byte,
  the value and number of digits of the current field, and the octets so far.\<close>

fun parseIPv4Fields :: "char option \<Rightarrow> string \<Rightarrow> nat \<Rightarrow> nat \<Rightarrow> byte list \<Rightarrow> byte list option" where
  "parseIPv4Fields prev [] val digLen octets =
     (if length octets < 3 then None else Some (octets @ [of_nat val]))"
| "parseIPv4Fields prev (c # s) val digLen octets =
     (if decDigit c then
        (if digLen = 1 \<and> val = 0 then None
         else let val' = val * 10 + decVal c
              in if 255 < val' then None else parseIPv4Fields (Some c) s val' (Suc digLen) octets)
      else if c = CHR ''.'' then
        (if prev = None \<or> s = [] \<or> prev = Some (CHR ''.'') then None
         else if length octets = 3 then None
         else parseIPv4Fields (Some c) s 0 0 (octets @ [of_nat val]))
      else None)"

text \<open>A group of at most four hexadecimal digits: its value, its length and the rest of the string.\<close>

fun hexGroup :: "string \<Rightarrow> nat \<Rightarrow> nat \<Rightarrow> (nat \<times> nat \<times> string) option" where
  "hexGroup [] acc off = Some (acc, off, [])"
| "hexGroup (c # s) acc off =
     (case hexVal c of None \<Rightarrow> Some (acc, off, c # s)
      | Some d \<Rightarrow> if 3 < off then None else hexGroup s (16 * acc + d) (Suc off))"

lemma hexGroup_length: "hexGroup s acc off = Some (a, off', r) \<Longrightarrow> length r + off' = length s + off"
  by (induction s acc off rule: hexGroup.induct) (auto split: option.splits if_splits)

text \<open>The loop of \<open>netip.parseIPv6\<close>: the bytes so far and the position of the ellipsis.\<close>

function parseIPv6Loop :: "string \<Rightarrow> byte list \<Rightarrow> nat option \<Rightarrow> (string \<times> byte list \<times> nat option) option" where
  "parseIPv6Loop s ip ellipsis =
     (if 16 \<le> length ip then Some (s, ip, ellipsis)
      else case hexGroup s 0 0 of None \<Rightarrow> None
      | Some (acc, off, r) \<Rightarrow>
          if off = 0 then None
          else (case r of
              [] \<Rightarrow> Some ([], ip @ [of_nat (acc div 256), of_nat acc], ellipsis)
            | c # r' \<Rightarrow>
                if c = CHR ''.'' then
                  (if ellipsis = None \<and> length ip \<noteq> 12 then None
                   else if 16 < length ip + 4 then None
                   else map_option (\<lambda>fs. ([], ip @ fs, ellipsis)) (parseIPv4Fields None s 0 0 []))
                else if c \<noteq> CHR '':'' then None
                else (case r' of
                    [] \<Rightarrow> None
                  | d # r'' \<Rightarrow>
                      let ip' = ip @ [of_nat (acc div 256), of_nat acc]
                      in if d \<noteq> CHR '':'' then parseIPv6Loop r' ip' ellipsis
                         else if ellipsis \<noteq> None then None
                         else if r'' = [] then Some ([], ip', Some (length ip'))
                         else parseIPv6Loop r'' ip' (Some (length ip')))))"
  by pat_completeness auto
termination
  by (relation "measure (\<lambda>(s, ip, ellipsis). length s)") (auto dest!: hexGroup_length)

declare parseIPv6Loop.simps [simp del]

definition parseIPv6 :: "string \<Rightarrow> byte list option" where
  "parseIPv6 s0 =
     (let (s, ellipsis) = (if take 2 s0 = ''::'' then (drop 2 s0, Some 0) else (s0, None))
      in if ellipsis = Some 0 \<and> s = [] then Some (replicate 16 0)
         else (case parseIPv6Loop s [] ellipsis of None \<Rightarrow> None
           | Some (r, ip, ell) \<Rightarrow>
               if r \<noteq> [] then None
               else if length ip < 16 then
                 (case ell of None \<Rightarrow> None
                  | Some e \<Rightarrow> Some (take e ip @ replicate (16 - length ip) 0 @ drop e ip))
               else if ell \<noteq> None then None else Some ip))"

text \<open>\<open>netip.ParseAddr\<close> as \<open>net.ParseCIDR\<close> uses it, which refuses an address with a zone. The
  result is the address with its length in bytes, 4 or 16.\<close>

definition parseAddr :: "string \<Rightarrow> byte list option" where
  "parseAddr s =
     (if CHR ''%'' \<in> set s then None
      else case find (\<lambda>c. c \<in> set ''.:'') s of
        None \<Rightarrow> None
      | Some c \<Rightarrow> if c = CHR ''.'' then parseIPv4Fields None s 0 0 [] else parseIPv6 s)"

text \<open>\<open>net.dtoi\<close> of the whole string, with its bound.\<close>

fun dtoi :: "string \<Rightarrow> nat \<Rightarrow> nat option" where
  "dtoi [] n = Some n"
| "dtoi (c # s) n =
     (if decDigit c then (let n' = n * 10 + decVal c in if 0xFFFFFF \<le> n' then None else dtoi s n')
      else None)"

text \<open>The network \<open>net.ParseCIDR\<close> returns; \<open>None\<close> is an error.\<close>

definition parseCIDR :: "string \<Rightarrow> IPNet option" where
  "parseCIDR s =
     (case cut (CHR ''/'') s of None \<Rightarrow> None
      | Some (addr, msk) \<Rightarrow>
          (case parseAddr addr of None \<Rightarrow> None
           | Some a \<Rightarrow>
               (case (if msk = [] then None else dtoi msk 0) of None \<Rightarrow> None
                | Some n \<Rightarrow>
                    if 8 * length a < n then None
                    else let m = cidrMask (length a) n;
                             addr16 = (if length a = 4 then v4InV6Prefix @ a else a)
                         in map_option (\<lambda>ip. \<lparr>IP = ip, Mask = m\<rparr>) (ipMask addr16 m))))"


subsection \<open>Printing IPv4 networks\<close>

text \<open>Decimal digits; \<open>netip.Addr.String\<close> of four bytes; \<open>IPMask.String\<close>; and \<open>IPNet.String\<close> for an
  address and a mask of four bytes, the only networks the modelled code prints.\<close>

fun natStr :: "nat \<Rightarrow> string" where
  "natStr n = (if n < 10 then [char_of (48 + n)] else natStr (n div 10) @ [char_of (48 + n mod 10)])"

declare natStr.simps [simp del]

definition ipv4String :: "byte list \<Rightarrow> string" where
  "ipv4String a =
     natStr (unat (a ! 0)) @ ''.'' @ natStr (unat (a ! 1)) @ ''.'' @ natStr (unat (a ! 2)) @ ''.'' @ natStr (unat (a ! 3))"

definition hexDigit :: "nat \<Rightarrow> char" where
  "hexDigit n = ''0123456789abcdef'' ! n"

definition hexString :: "byte list \<Rightarrow> string" where
  "hexString m = concat (map (\<lambda>b. [hexDigit (unat b div 16), hexDigit (unat b mod 16)]) m)"

definition ipv4NetString :: "IPNet \<Rightarrow> string" where
  "ipv4NetString n =
     ipv4String (IP n) @ ''/'' @
       (case simpleMaskLength (Mask n) of None \<Rightarrow> hexString (Mask n) | Some l \<Rightarrow> natStr l)"

subsection \<open>Packages net and netutil of the repository\<close>

datatype Family = InvalidFamily | IPv4 | IPv6

definition familyString :: "Family \<Rightarrow> string" where
  "familyString f = (case f of IPv4 \<Rightarrow> ''IPv4'' | IPv6 \<Rightarrow> ''IPv6'' | _ \<Rightarrow> ''unknown'')"

definition familyBits :: "Family \<Rightarrow> nat" where
  "familyBits f = (case f of IPv4 \<Rightarrow> 32 | IPv6 \<Rightarrow> 128 | _ \<Rightarrow> 0)"

text \<open>\<open>ipv4data\<close> and \<open>ipv6data\<close> are arrays of 4 and 16 bytes; an \<open>IPAddress\<close> with nil data is \<open>None\<close>.\<close>

datatype ipAddrData = Ipv4data "byte list" | Ipv6data "byte list"

type_synonym IPAddress = "ipAddrData option"

definition dataFamily :: "ipAddrData \<Rightarrow> Family" where
  "dataFamily d = (case d of Ipv4data _ \<Rightarrow> IPv4 | Ipv6data _ \<Rightarrow> IPv6)"

definition dataBytes :: "ipAddrData \<Rightarrow> byte list" where
  "dataBytes d = (case d of Ipv4data b \<Rightarrow> b | Ipv6data b \<Rightarrow> b)"

text \<open>\<open>MustParseCIDR\<close> aborts the program when the constant does not parse.\<close>

definition mustParseCIDR :: "string \<Rightarrow> IPNet" where
  "mustParseCIDR s = the (parseCIDR s)"

definition IPv4PrivateNetworks :: "IPNet list" where
  "IPv4PrivateNetworks =
     [mustParseCIDR ''10.0.0.0/8'', mustParseCIDR ''172.16.0.0/12'', mustParseCIDR ''192.168.0.0/16'',
      mustParseCIDR ''100.64.0.0/10'', mustParseCIDR ''169.254.0.0/16'']"

definition IPv4LocalHost :: IPNet where
  "IPv4LocalHost = mustParseCIDR ''127.0.0.0/8''"

definition IPv6PrivateNetworks :: "IPNet list" where
  "IPv6PrivateNetworks =
     [mustParseCIDR ''fd00::/8'', mustParseCIDR ''fe80::/10'',
      mustParseCIDR ''::ffff:10.0.0.0/104'', mustParseCIDR ''::ffff:172.16.0.0/108'',
      mustParseCIDR ''::ffff:192.168.0.0/112'',
      mustParseCIDR ''::ffff:100.64.0.0/106'', mustParseCIDR ''::ffff:169.254.0.0/112'']"

definition IPv6LocalHost :: IPNet where
  "IPv6LocalHost = mustParseCIDR ''::1/128''"

definition IPv4MappedIPv6Loopback :: IPNet where
  "IPv4MappedIPv6Loopback = mustParseCIDR ''::ffff:127.0.0.1/104''"

definition GetPrivateSubnets :: "IPNet list" where
  "GetPrivateSubnets =
     IPv4PrivateNetworks @ [IPv4LocalHost] @ IPv6PrivateNetworks @ [IPv6LocalHost, IPv4MappedIPv6Loopback]"

text \<open>\<open>binary.BigEndian.Uint32\<close> of four bytes.\<close>

definition be32 :: "byte list \<Rightarrow> 32 word" where
  "be32 b = push_bit 24 (ucast (b ! 0)) OR push_bit 16 (ucast (b ! 1))
     OR push_bit 8 (ucast (b ! 2)) OR ucast (b ! 3)"

text \<open>The two slices that \<open>init\<close> of package \<open>ipcheck\<close> fills, as a list of pairs; the loop of
  \<open>IsIPv4Public\<close> runs over both in step.\<close>

definition ipv4MasksPrefixes :: "(32 word \<times> 32 word) list" where
  "ipv4MasksPrefixes = map (\<lambda>n. (be32 (Mask n), be32 (the (to4 (IP n))))) IPv4PrivateNetworks"

definition IsIPv4Public :: "byte list \<Rightarrow> bool" where
  "IsIPv4Public ip = list_all (\<lambda>(m, p). \<not> be32 ip AND m = p) ipv4MasksPrefixes"

definition IsIPv6Public :: "byte list \<Rightarrow> bool" where
  "IsIPv6Public ip =
     (if ip ! 0 = 0xFD then False
      else if ip ! 0 = 0xFE \<and> ip ! 1 AND 0xC0 = 0x80 then False
      else if ip ! 0 = 0 \<and> ip ! 1 = 0 \<and> ip ! 2 = 0 \<and> ip ! 3 = 0 \<and> ip ! 4 = 0 \<and> ip ! 5 = 0
              \<and> ip ! 6 = 0 \<and> ip ! 7 = 0 \<and> ip ! 8 = 0 \<and> ip ! 9 = 0 \<and> ip ! 10 = 0xFF \<and> ip ! 11 = 0xFF
        then IsIPv4Public (drop 12 ip)
      else True)"

definition dataIsLoopback :: "ipAddrData \<Rightarrow> bool" where
  "dataIsLoopback d =
     (case d of
        Ipv4data b \<Rightarrow> b ! 0 = 127
      | Ipv6data b \<Rightarrow>
          if netContains IPv4MappedIPv6Loopback b then True
          else if b ! 15 \<noteq> 1 then False
          else list_all (\<lambda>i. b ! i = 0) [0..<15])"

definition dataIsPublic :: "ipAddrData \<Rightarrow> bool" where
  "dataIsPublic d = (case d of Ipv4data b \<Rightarrow> IsIPv4Public b | Ipv6data b \<Rightarrow> IsIPv6Public b)"

definition canonicalize :: "ipAddrData \<Rightarrow> ipAddrData" where
  "canonicalize d =
     (case d of
        Ipv4data b \<Rightarrow> d
      | Ipv6data b \<Rightarrow> if take 12 b \<noteq> v4InV6Prefix then d else Ipv4data (drop 12 b))"

definition addrFamily :: "IPAddress \<Rightarrow> Family" where
  "addrFamily a = (case a of None \<Rightarrow> InvalidFamily | Some d \<Rightarrow> dataFamily d)"

definition asNetIP :: "IPAddress \<Rightarrow> byte list option" where
  "asNetIP a = map_option dataBytes a"

definition addrIsValid :: "IPAddress \<Rightarrow> bool" where
  "addrIsValid a \<longleftrightarrow> a \<noteq> None"

definition addrIsPublic :: "IPAddress \<Rightarrow> bool" where
  "addrIsPublic a = (case a of None \<Rightarrow> False | Some d \<Rightarrow> dataIsPublic d)"

definition addrIsLoopback :: "IPAddress \<Rightarrow> bool" where
  "addrIsLoopback a = (case a of None \<Rightarrow> False | Some d \<Rightarrow> dataIsLoopback d)"

definition addrIsUnspecified :: "IPAddress \<Rightarrow> bool" where
  "addrIsUnspecified a = (case a of None \<Rightarrow> False | Some d \<Rightarrow> list_all (\<lambda>b. b = 0) (dataBytes d))"

definition IPFromBytes :: "byte list \<Rightarrow> IPAddress" where
  "IPFromBytes b =
     (if length b = 4 then Some (Ipv4data b)
      else if length b \<noteq> 16 then None
      else Some (canonicalize (Ipv6data b)))"

text \<open>\<open>bytes.Compare\<close> and \<open>IPAddressCompare\<close>, which panics on an invalid address (\<open>None\<close>).\<close>

fun bytesCompare :: "byte list \<Rightarrow> byte list \<Rightarrow> int" where
  "bytesCompare [] [] = 0"
| "bytesCompare [] (y # ys) = -1"
| "bytesCompare (x # xs) [] = 1"
| "bytesCompare (x # xs) (y # ys) = (if x < y then -1 else if y < x then 1 else bytesCompare xs ys)"

definition familyInt :: "Family \<Rightarrow> int" where
  "familyInt f = (case f of InvalidFamily \<Rightarrow> 0 | IPv4 \<Rightarrow> 1 | IPv6 \<Rightarrow> 2)"

definition IPAddressCompare :: "IPAddress \<Rightarrow> IPAddress \<Rightarrow> int option" where
  "IPAddressCompare a b =
     (case (a, b) of
        (Some da, Some db) \<Rightarrow>
          let aBytes = dataBytes da; bBytes = dataBytes db
          in Some (if length aBytes \<noteq> length bBytes then int (length aBytes) - int (length bBytes)
                   else if dataFamily da \<noteq> dataFamily db then familyInt (dataFamily da) - familyInt (dataFamily db)
                   else bytesCompare aBytes bBytes)
      | _ \<Rightarrow> None)"

definition IPAddressLess :: "IPAddress \<Rightarrow> IPAddress \<Rightarrow> bool option" where
  "IPAddressLess a b = map_option (\<lambda>c. c < 0) (IPAddressCompare a b)"

record IPNetwork =
  ip :: IPAddress
  prefixLen :: byte

definition networkFamily :: "IPNetwork \<Rightarrow> Family" where
  "networkFamily d = addrFamily (ip d)"

definition networkIsValid :: "IPNetwork \<Rightarrow> bool" where
  "networkIsValid d = addrIsValid (ip d)"

definition invalidIPNetwork :: IPNetwork where
  "invalidIPNetwork = \<lparr>ip = None, prefixLen = 0\<rparr>"

definition AsIPNet :: "IPNetwork \<Rightarrow> IPNet" where
  "AsIPNet d =
     (case ip d of None \<Rightarrow> \<lparr>IP = [], Mask = []\<rparr>
      | Some a \<Rightarrow>
          \<lparr>IP = dataBytes a,
           Mask = (if unat (prefixLen d) \<le> 8 * length (dataBytes a)
                   then cidrMask (length (dataBytes a)) (unat (prefixLen d)) else [])\<rparr>)"

definition networkContains :: "IPNetwork \<Rightarrow> IPAddress \<Rightarrow> bool" where
  "networkContains d a =
     (if \<not> networkIsValid d then False
      else netContains (AsIPNet d) (case asNetIP a of None \<Rightarrow> [] | Some b \<Rightarrow> b))"

definition IPNetworkFromCIDR :: "string \<Rightarrow> IPNetwork" where
  "IPNetworkFromCIDR cidr =
     (case parseCIDR cidr of None \<Rightarrow> invalidIPNetwork
      | Some ipNet \<Rightarrow> \<lparr>ip = IPFromBytes (IP ipNet), prefixLen = of_nat (fst (maskSize (Mask ipNet)))\<rparr>)"

text \<open>\<open>IPNetworkFromIPNet\<close> dereferences the data of the address without a check: \<open>None\<close> is a panic.\<close>

definition IPNetworkFromIPNet :: "IPNet \<Rightarrow> IPNetwork option" where
  "IPNetworkFromIPNet ipNet =
     (case IPFromBytes (IP ipNet) of None \<Rightarrow> None
      | Some addr \<Rightarrow>
          let (ones, bits) = maskSize (Mask ipNet)
          in Some (if length (dataBytes addr) * 8 \<noteq> bits then invalidIPNetwork
                   else \<lparr>ip = Some addr, prefixLen = of_nat ones\<rparr>))"

definition IPNetworkFromCIDRBytes :: "byte list \<Rightarrow> IPNetwork option" where
  "IPNetworkFromCIDRBytes cidr =
     (if length cidr \<noteq> 5 \<and> length cidr \<noteq> 17 then Some invalidIPNetwork
      else let n = length cidr; ones = unat (cidr ! (n - 1))
           in IPNetworkFromIPNet
                \<lparr>IP = take (n - 1) cidr,
                 Mask = (if ones \<le> (n - 1) * 8 then cidrMask (n - 1) ones else [])\<rparr>)"

text \<open>\<open>pkg/netutil/cidr.go\<close>.\<close>

definition IsIPNetSubset :: "IPNet \<Rightarrow> IPNet \<Rightarrow> bool" where
  "IsIPNetSubset ipNet maybeSubset =
     (if \<not> netContains ipNet (IP maybeSubset) then False
      else if length (Mask ipNet) \<noteq> length (Mask maybeSubset) then False
      else list_all (\<lambda>i. Mask ipNet ! i AND Mask maybeSubset ! i = Mask ipNet ! i) [0..<length (Mask ipNet)])"

definition Overlap :: "IPNet \<Rightarrow> IPNet \<Rightarrow> bool" where
  "Overlap n1 n2 =
     (if length (Mask n1) \<noteq> length (Mask n2) then False
      else netContains n1 (IP n2) \<or> netContains n2 (IP n1))"

definition AnyOverlap :: "IPNet \<Rightarrow> IPNet list \<Rightarrow> bool" where
  "AnyOverlap n1 ns = list_ex (Overlap n1) ns"

definition IsIPNetOverlapingPrivateRange :: "IPNet \<Rightarrow> bool" where
  "IsIPNetOverlapingPrivateRange ipNet = AnyOverlap ipNet (IPv4PrivateNetworks @ IPv6PrivateNetworks)"

end
