(* ===== verification/Ip_Prefixes.thy ===== *)
theory Ip_Prefixes
  imports Ip_Networks
begin

text \<open>
  Networks as prefixes. \<open>netPrefix\<close> is the list of the network bits of a network, from the
  most significant bit on. Parsing yields well-formed networks (\<open>wfNet\<close>): 4 or 16 bytes, a
  canonical mask, and no host bits. The predicates of \<open>netutil\<close> and of \<open>net.IPNet\<close> become
  comparisons of prefixes, and the fast public-address checks of \<open>ipcheck\<close> agree with the
  lists of private networks of \<open>netutil\<close>.
\<close>

subsection \<open>Bits of bytes, masks and addresses\<close>

definition byteBits :: "byte \<Rightarrow> bool list" where
  "byteBits b = map (\<lambda>j. bit b (7 - j)) [0..<8]"

definition ipBits :: "byte list \<Rightarrow> bool list" where
  "ipBits a = concat (map byteBits a)"

definition netLen :: "IPNet \<Rightarrow> nat" where
  "netLen n = fst (maskSize (Mask n))"

definition netPrefix :: "IPNet \<Rightarrow> bool list" where
  "netPrefix n = take (netLen n) (ipBits (IP n))"

lemma length_byteBits [simp]: "length (byteBits b) = 8"
  by (simp add: byteBits_def)

lemma length_ipBits [simp]: "length (ipBits a) = 8 * length a"
  by (induction a) (simp_all add: ipBits_def)

lemma byteBits_eval [ip_eval]:
  "byteBits b = [bit b 7, bit b 6, bit b 5, bit b 4, bit b 3, bit b 2, bit b 1, bit b 0]"
  by (simp add: byteBits_def upt_rec)

lemma ipBits_Nil [simp]: "ipBits [] = []"
  by (simp add: ipBits_def)

lemma ipBits_Cons [simp]: "ipBits (b # a) = byteBits b @ ipBits a"
  by (simp add: ipBits_def)

lemma nth_ipBits: "i < length a \<Longrightarrow> j < 8 \<Longrightarrow> ipBits a ! (8 * i + j) = bit (a ! i) (7 - j)"
proof (induction a arbitrary: i)
  case (Cons b a)
  then show ?case
    by (cases i) (simp_all add: nth_append, simp add: byteBits_def)
qed simp

lemma byte_eqI: "(\<And>j. j < 8 \<Longrightarrow> bit a (7 - j) = bit b (7 - j)) \<Longrightarrow> a = (b :: byte)"
proof (rule bit_word_eqI)
  fix k assume *: "\<And>j. j < 8 \<Longrightarrow> bit a (7 - j) = bit b (7 - j)" and "k < LENGTH(8)"
  then have "7 - (7 - k) = k" "7 - k < 8" by simp_all
  with * [of "7 - k"] show "bit a k = bit b k" by simp
qed

lemma length_cidrMask [simp]: "length (cidrMask l n) = l"
  by (induction l n rule: cidrMask.induct) simp_all

lemma bit_255_int: "bit (255 :: int) k \<longleftrightarrow> k < 8"
proof -
  have "(255 :: int) = mask 8" by (simp add: mask_eq_exp_minus_1)
  then show ?thesis by (simp only: bit_mask_iff) auto
qed

lemma bit_cidrMask:
  "i < l \<Longrightarrow> j < 8 \<Longrightarrow> bit (cidrMask l n ! i) (7 - j) \<longleftrightarrow> 8 * i + j < n"
proof (induction l n arbitrary: i rule: cidrMask.induct)
  case (2 l n)
  then show ?case
    by (cases i) (auto simp: bit_255_int bit_not_iff bit_drop_bit_eq)
qed simp

lemma and_80_iff_bit: "v AND 0x80 \<noteq> 0 \<longleftrightarrow> bit (v :: byte) 7"
  using and_exp_eq_0_iff_not_bit [of v 7] by simp

lemma bit_shl1: "bit (push_bit 1 v :: byte) (7 - j) \<longleftrightarrow> j < 7 \<and> bit v (6 - j)"
  by (cases "j < 7") (auto simp: bit_push_bit_iff simp del: push_bit_Suc push_bit_of_Suc_0)

lemma leadingOnes_bits:
  "(\<And>j. j < 8 \<Longrightarrow> bit v (7 - j) \<longleftrightarrow> j < n) \<Longrightarrow> n \<le> k \<Longrightarrow> n < 8 \<Longrightarrow> leadingOnes k v = (n, 0)"
proof (induction k arbitrary: n v)
  case 0
  then show ?case by (auto intro!: byte_eqI)
next
  case (Suc k)
  show ?case
  proof (cases n)
    case 0
    with Suc.prems(1) [of 0] have "\<not> v AND 0x80 \<noteq> 0" by (simp add: and_80_iff_bit)
    moreover have "v = 0" using Suc.prems(1) 0 by (intro byte_eqI) simp
    ultimately show ?thesis using 0 by simp
  next
    case (Suc m)
    with Suc.prems(1) [of 0] have "v AND 0x80 \<noteq> 0" by (simp add: and_80_iff_bit)
    moreover have "leadingOnes k (push_bit 1 v) = (m, 0)"
    proof (rule Suc.IH)
      fix j :: nat
      assume "j < 8"
      then show "bit (push_bit 1 v) (7 - j) \<longleftrightarrow> j < m"
        using Suc.prems(1) [of "Suc j"] Suc.prems(3) Suc by (auto simp: bit_shl1 simp del: One_nat_def)
    qed (use Suc.prems Suc in simp_all)
    ultimately show ?thesis using Suc by simp
  qed
qed

lemma leadingOnes_mask: "n < 8 \<Longrightarrow> leadingOnes 8 (NOT (drop_bit n 0xFF)) = (n, 0)"
  by (rule leadingOnes_bits) (auto simp: bit_not_iff bit_drop_bit_eq bit_255_int)

lemma partial_byte_neq_ones: "n < 8 \<Longrightarrow> NOT (drop_bit n 0xFF) \<noteq> (0xFF :: byte)"
proof
  assume n: "n < 8" and "NOT (drop_bit n 0xFF) = (0xFF :: byte)"
  then have "bit (NOT (drop_bit n 0xFF) :: byte) 0 = bit (0xFF :: byte) 0" by simp
  with n show False by (simp add: bit_not_iff bit_drop_bit_eq bit_255_int)
qed

lemma cidrMask_zero: "cidrMask l 0 = replicate l 0"
proof (induction l)
  case (Suc l)
  have "NOT (drop_bit 0 0xFF) = (0 :: byte)" by simp
  with Suc show ?case by simp
qed simp

lemma simpleMaskLength_cidrMask: "n \<le> 8 * l \<Longrightarrow> simpleMaskLength (cidrMask l n) = Some n"
proof (induction l n rule: cidrMask.induct)
  case (2 l n)
  then show ?case
  proof (cases "8 \<le> n")
    case False
    then show ?thesis
      using leadingOnes_mask [of n] partial_byte_neq_ones [of n]
      by (simp add: cidrMask_zero list_all_iff)
  qed simp
qed simp

lemma maskSize_cidrMask: "n \<le> 8 * l \<Longrightarrow> maskSize (cidrMask l n) = (n, 8 * l)"
  by (simp add: maskSize_def simpleMaskLength_cidrMask)

subsection \<open>Parsed networks are well-formed\<close>

definition wfNet :: "IPNet \<Rightarrow> bool" where
  "wfNet n \<longleftrightarrow> (length (IP n) = 4 \<or> length (IP n) = 16) \<and> netLen n \<le> 8 * length (IP n)
     \<and> Mask n = cidrMask (length (IP n)) (netLen n) \<and> map2 (AND) (IP n) (Mask n) = IP n"

lemma parseIPv4Fields_length:
  "parseIPv4Fields prev s val d octets = Some r \<Longrightarrow> length octets \<le> 3 \<Longrightarrow> length r = 4"
  by (induction prev s val d octets rule: parseIPv4Fields.induct) (auto simp: Let_def split: if_splits)

text \<open>The bytes of the loop of \<open>parseIPv6\<close> and the ellipsis within them.\<close>

definition ipv6Bytes :: "byte list \<Rightarrow> nat option \<Rightarrow> bool" where
  "ipv6Bytes a ell \<longleftrightarrow> even (length a) \<and> length a \<le> 16 \<and> (case ell of None \<Rightarrow> True | Some e \<Rightarrow> e \<le> length a)"

lemma ipv6Bytes_group:
  "ipv6Bytes a ell \<Longrightarrow> length a < 16 \<Longrightarrow> ipv6Bytes (a @ [x, y]) ell \<and> ipv6Bytes (a @ [x, y]) (Some (Suc (Suc (length a))))"
  unfolding ipv6Bytes_def by (auto split: option.splits)

lemma ipv6Bytes_tail:
  "ipv6Bytes a ell \<Longrightarrow> length a + 4 \<le> 16 \<Longrightarrow> length f = 4 \<Longrightarrow> ipv6Bytes (a @ f) ell"
  unfolding ipv6Bytes_def by (auto split: option.splits)

lemma parseIPv6Loop_bytes:
  "parseIPv6Loop s a ell = Some (r, b, ell') \<Longrightarrow> ipv6Bytes a ell \<Longrightarrow> ipv6Bytes b ell'"
proof (induction s a ell rule: parseIPv6Loop.induct)
  case (1 s a ell)
  note eq = 1(3) [unfolded parseIPv6Loop.simps [of s a ell]] and ok = 1(4)
  show ?case
  proof (cases "16 \<le> length a")
    case False
    with eq obtain acc off t where h: "hexGroup s 0 0 = Some (acc, off, t)" and "off \<noteq> 0"
      by (auto split: option.splits if_splits)
    note IH = 1(1,2) [OF False h refl refl \<open>off \<noteq> 0\<close>] and eq = eq [simplified False h if_False option.case prod.case]
    note group = ipv6Bytes_group [OF ok, of "of_nat (acc div 256)" "of_nat acc"]
    consider "t = []" | t' where "t = CHR ''.'' # t'"
      | t' where "t = CHR '':'' # t'" "hd t' \<noteq> CHR '':''" "t' \<noteq> []"
      | t' where "t = CHR '':'' # CHR '':'' # t'"
      using eq \<open>off \<noteq> 0\<close> by (auto split: list.splits if_splits)
    then show ?thesis
    proof cases
      case 2
      with eq \<open>off \<noteq> 0\<close> ok show ?thesis
        by (auto split: if_splits dest!: parseIPv4Fields_length intro!: ipv6Bytes_tail)
    next
      case 3
      then obtain d u where "t' = d # u" "d \<noteq> CHR '':''" by (cases t') auto
      with 3 eq IH(1) [of _ t'] group False \<open>off \<noteq> 0\<close> show ?thesis by (simp add: Let_def)
    next
      case 4
      with eq IH(2) group False \<open>off \<noteq> 0\<close> show ?thesis
        by (auto simp: Let_def split: if_splits)
    qed (use eq group False \<open>off \<noteq> 0\<close> in auto)
  qed (use eq ok in simp)
qed

lemma parseIPv6_length: "parseIPv6 s = Some a \<Longrightarrow> length a = 16"
  by (auto simp: parseIPv6_def Let_def ipv6Bytes_def split: if_splits option.splits prod.splits
      dest!: parseIPv6Loop_bytes)

lemma parseAddr_length: "parseAddr s = Some a \<Longrightarrow> length a = 4 \<or> length a = 16"
  by (auto simp: parseAddr_def split: if_splits option.splits
      dest: parseIPv4Fields_length parseIPv6_length)

lemma map2_and_idem [simp]: "map2 (AND) (map2 (AND) xs ys) ys = map2 (AND) xs (ys :: byte list)"
  by (induction xs ys rule: list_induct2') (simp_all add: and.assoc)

lemma ipMask_4: "length a = 4 \<Longrightarrow> ipMask (v4InV6Prefix @ a) (cidrMask 4 n) = Some (map2 (AND) a (cidrMask 4 n))"
  by (simp add: ipMask_def Let_def v4InV6Prefix_def)

lemma ipMask_16: "length a = 16 \<Longrightarrow> ipMask a (cidrMask 16 n) = Some (map2 (AND) a (cidrMask 16 n))"
  by (simp add: ipMask_def Let_def)

lemma parseCIDR_cases:
  assumes "parseCIDR s = Some n"
  obtains a k where "length a = 4 \<or> length a = 16" "k \<le> 8 * length a"
    "n = \<lparr>IP = map2 (AND) a (cidrMask (length a) k), Mask = cidrMask (length a) k\<rparr>"
proof -
  from assms obtain t m a where a: "parseAddr t = Some a" and rest:
    "(case (if m = [] then None else dtoi m 0) of None \<Rightarrow> None
      | Some n \<Rightarrow> if 8 * length a < n then None
          else let ms = cidrMask (length a) n; addr16 = (if length a = 4 then v4InV6Prefix @ a else a)
               in map_option (\<lambda>ip. \<lparr>IP = ip, Mask = ms\<rparr>) (ipMask addr16 ms)) = Some n"
    unfolding parseCIDR_def by (auto split: option.splits)
  then obtain k where k: "k \<le> 8 * length a" and n: "map_option (\<lambda>ip. \<lparr>IP = ip, Mask = cidrMask (length a) k\<rparr>)
      (ipMask (if length a = 4 then v4InV6Prefix @ a else a) (cidrMask (length a) k)) = Some n"
    by (simp add: Let_def not_less split: option.splits if_splits) 
  from parseAddr_length [OF a] n have "n = \<lparr>IP = map2 (AND) a (cidrMask (length a) k), Mask = cidrMask (length a) k\<rparr>"
    by (auto simp: ipMask_4 ipMask_16)
  with parseAddr_length [OF a] k show thesis by (rule that)
qed

lemma parseCIDR_wf: "parseCIDR s = Some n \<Longrightarrow> wfNet n"
  by (erule parseCIDR_cases) (auto simp: wfNet_def netLen_def maskSize_cidrMask)

text \<open>Evaluation of the parser.\<close>

lemma cidrMask_numeral [ip_eval]:
  "cidrMask (numeral l) n =
     (if n = 0 then replicate (numeral l) 0
      else if 8 \<le> n then 0xFF # cidrMask (pred_numeral l) (n - 8)
      else NOT (drop_bit n 0xFF) # replicate (pred_numeral l) 0)"
proof (cases "n = 0")
  case False
  then show ?thesis by (subst numeral_eq_Suc) (simp add: cidrMask_zero)
qed (simp add: cidrMask_zero)

lemma minus_256_byte [ip_eval]: "(- 256 :: byte) = 0"
  by simp

lemma leadingOnes_zero [ip_eval]: "leadingOnes k 0 = (0, 0)"
  by (cases k) simp_all

lemma replicate_numeral_Cons [ip_eval]: "replicate (numeral n) x = x # replicate (pred_numeral n) x"
  by (simp add: numeral_eq_Suc)

lemmas parse_eval [ip_eval] = parseCIDR_def parseAddr_def parseIPv6_def parseIPv6Loop.simps decDigit_def
  less_eq_char_def decVal_def hexVal_def ipMask_def v4InV6Prefix_def Let_def

lemma private_networks_eval:
  "parseCIDR ''10.0.0.0/8'' = Some \<lparr>IP = [10, 0, 0, 0], Mask = [255, 0, 0, 0]\<rparr>"
  "parseCIDR ''172.16.0.0/12'' = Some \<lparr>IP = [172, 16, 0, 0], Mask = [255, 240, 0, 0]\<rparr>"
  "parseCIDR ''192.168.0.0/16'' = Some \<lparr>IP = [192, 168, 0, 0], Mask = [255, 255, 0, 0]\<rparr>"
  "parseCIDR ''100.64.0.0/10'' = Some \<lparr>IP = [100, 64, 0, 0], Mask = [255, 192, 0, 0]\<rparr>"
  "parseCIDR ''169.254.0.0/16'' = Some \<lparr>IP = [169, 254, 0, 0], Mask = [255, 255, 0, 0]\<rparr>"
  by (simp_all add: ip_eval)

lemma private_networks_eval6a:
  "parseCIDR ''fd00::/8'' = Some \<lparr>IP = 0xFD # replicate 15 0, Mask = 255 # replicate 15 0\<rparr>"
  "parseCIDR ''fe80::/10'' = Some \<lparr>IP = 0xFE # 0x80 # replicate 14 0, Mask = 255 # 192 # replicate 14 0\<rparr>"
  by (simp_all add: ip_eval)

lemma private_networks_eval6b:
  "parseCIDR ''::ffff:10.0.0.0/104'' =
     Some \<lparr>IP = v4InV6Prefix @ [10, 0, 0, 0], Mask = replicate 12 255 @ [255, 0, 0, 0]\<rparr>"
  by (simp add: ip_eval)

lemma private_networks_eval6c:
  "parseCIDR ''::ffff:172.16.0.0/108'' =
     Some \<lparr>IP = v4InV6Prefix @ [172, 16, 0, 0], Mask = replicate 12 255 @ [255, 240, 0, 0]\<rparr>"
  by (simp add: ip_eval)

lemma private_networks_eval6d:
  "parseCIDR ''::ffff:192.168.0.0/112'' =
     Some \<lparr>IP = v4InV6Prefix @ [192, 168, 0, 0], Mask = replicate 12 255 @ [255, 255, 0, 0]\<rparr>"
  by (simp add: ip_eval)

lemma private_networks_eval6e:
  "parseCIDR ''::ffff:100.64.0.0/106'' =
     Some \<lparr>IP = v4InV6Prefix @ [100, 64, 0, 0], Mask = replicate 12 255 @ [255, 192, 0, 0]\<rparr>"
  by (simp add: ip_eval)

lemma private_networks_eval6f:
  "parseCIDR ''::ffff:169.254.0.0/112'' =
     Some \<lparr>IP = v4InV6Prefix @ [169, 254, 0, 0], Mask = replicate 12 255 @ [255, 255, 0, 0]\<rparr>"
  by (simp add: ip_eval)

subsection \<open>Networks and their prefixes\<close>

lemma wfNet_length_Mask [simp]: "wfNet n \<Longrightarrow> length (Mask n) = length (IP n)"
  by (metis length_cidrMask wfNet_def)

lemma wfNet_netLen: "wfNet n \<Longrightarrow> netLen n \<le> 8 * length (IP n)"
  by (simp add: wfNet_def)

lemma length_netPrefix: "wfNet n \<Longrightarrow> length (netPrefix n) = netLen n"
  by (simp add: netPrefix_def wfNet_def)

lemma nth_netPrefix:
  "wfNet n \<Longrightarrow> 8 * i + j < netLen n \<Longrightarrow> j < 8 \<Longrightarrow> netPrefix n ! (8 * i + j) = bit (IP n ! i) (7 - j)"
  using wfNet_netLen [of n] by (simp add: netPrefix_def nth_ipBits)

lemma bit_Mask: "wfNet n \<Longrightarrow> i < length (IP n) \<Longrightarrow> j < 8 \<Longrightarrow> bit (Mask n ! i) (7 - j) \<longleftrightarrow> 8 * i + j < netLen n"
  by (metis bit_cidrMask wfNet_def)

lemma bit_index: "k < 8 * l \<Longrightarrow> \<exists>i j. i < l \<and> j < 8 \<and> k = 8 * i + j" for k l :: nat
  by (rule exI [of _ "k div 8"], rule exI [of _ "k mod 8"]) auto

lemma and_cidrMask_eq_iff:
  assumes "length a = l" "length b = l" "n \<le> 8 * l"
  shows "(\<forall>i < l. a ! i AND cidrMask l n ! i = b ! i AND cidrMask l n ! i) \<longleftrightarrow> take n (ipBits a) = take n (ipBits b)"
proof
  assume eq: "\<forall>i < l. a ! i AND cidrMask l n ! i = b ! i AND cidrMask l n ! i"
  show "take n (ipBits a) = take n (ipBits b)"
  proof (rule nth_equalityI)
    fix k assume "k < length (take n (ipBits a))"
    with assms obtain i j where ij: "i < l" "j < 8" "k = 8 * i + j" "k < n" using bit_index [of k l] by auto
    with eq have "bit (a ! i AND cidrMask l n ! i) (7 - j) = bit (b ! i AND cidrMask l n ! i) (7 - j)" by simp
    with ij assms show "take n (ipBits a) ! k = take n (ipBits b) ! k"
      by (simp add: bit_and_iff bit_cidrMask nth_ipBits)
  qed (simp add: assms)
next
  assume eq: "take n (ipBits a) = take n (ipBits b)"
  have bits: "bit (a ! i) (7 - j) = bit (b ! i) (7 - j)" if "i < l" "j < 8" "8 * i + j < n" for i j
  proof -
    from eq that(3) have "ipBits a ! (8 * i + j) = ipBits b ! (8 * i + j)" by (metis nth_take)
    with that assms show ?thesis by (simp add: nth_ipBits)
  qed
  show "\<forall>i < l. a ! i AND cidrMask l n ! i = b ! i AND cidrMask l n ! i"
    by (intro allI impI byte_eqI) (auto simp: bit_and_iff bit_cidrMask bits)
qed

lemma wfNet_eqI:
  assumes "wfNet m" "wfNet n" "length (IP m) = length (IP n)" "netPrefix m = netPrefix n"
  shows "m = n"
proof -
  from assms have len: "netLen m = netLen n" by (metis length_netPrefix)
  with assms have "\<forall>i < length (IP n). IP m ! i AND Mask n ! i = IP n ! i AND Mask n ! i" "Mask m = Mask n"
    using and_cidrMask_eq_iff [of "IP m" "length (IP n)" "IP n" "netLen n"]
    by (simp_all add: wfNet_def netPrefix_def)
  with assms have "map2 (AND) (IP m) (Mask m) = map2 (AND) (IP n) (Mask n)"
    by (intro nth_equalityI) auto
  with assms have "IP m = IP n" by (metis wfNet_def)
  with \<open>Mask m = Mask n\<close> show ?thesis by (cases m, cases n) simp
qed

text \<open>An address that \<open>To4\<close> does not shorten.\<close>

definition plainIP :: "byte list \<Rightarrow> bool" where
  "plainIP a \<longleftrightarrow> length a = 4 \<or> length a = 16 \<and> take 12 a \<noteq> v4InV6Prefix"

lemma to4_plain: "plainIP a \<Longrightarrow> to4 a = (if length a = 4 then Some a else None)"
  by (auto simp: plainIP_def to4_def)

lemma netContains_plain:
  assumes "wfNet n" "plainIP (IP n)" "plainIP a"
  shows "netContains n a \<longleftrightarrow> length a = length (IP n) \<and> prefix (netPrefix n) (ipBits a)"
proof -
  have "networkNumberAndMask n = Some (IP n, Mask n)"
    using assms(1,2) by (auto simp: networkNumberAndMask_def to4_plain plainIP_def)
  then have "netContains n a \<longleftrightarrow> length a = length (IP n)
      \<and> (\<forall>i < length (IP n). IP n ! i AND Mask n ! i = a ! i AND Mask n ! i)"
    using assms(3) by (auto simp: netContains_def to4_plain list_all_iff)
  moreover have "(\<forall>i < length (IP n). IP n ! i AND Mask n ! i = a ! i AND Mask n ! i)
      \<longleftrightarrow> prefix (netPrefix n) (ipBits a)" if "length a = length (IP n)"
    using and_cidrMask_eq_iff [of "IP n" "length (IP n)" a "netLen n"] assms(1) that
    by (auto simp: wfNet_def netPrefix_def prefix_def) (metis append_take_drop_id)+
  ultimately show ?thesis by blast
qed

lemma cidrMask_and_iff:
  assumes "m \<le> 8 * l" "n \<le> 8 * l"
  shows "(\<forall>i < l. cidrMask l m ! i AND cidrMask l n ! i = cidrMask l m ! i) \<longleftrightarrow> m \<le> n"
proof
  assume eq: "\<forall>i < l. cidrMask l m ! i AND cidrMask l n ! i = cidrMask l m ! i"
  show "m \<le> n"
  proof (rule ccontr)
    assume "\<not> m \<le> n"
    with assms obtain i j where ij: "i < l" "j < 8" "n = 8 * i + j" using bit_index [of n l] by auto
    with eq have "bit (cidrMask l m ! i AND cidrMask l n ! i) (7 - j) = bit (cidrMask l m ! i) (7 - j)" by simp
    with ij \<open>\<not> m \<le> n\<close> show False by (simp add: bit_and_iff bit_cidrMask)
  qed
next
  assume "m \<le> n"
  then show "\<forall>i < l. cidrMask l m ! i AND cidrMask l n ! i = cidrMask l m ! i"
    by (auto intro!: byte_eqI simp: bit_and_iff bit_cidrMask)
qed

lemma prefix_ipBits_iff:
  assumes "wfNet m" "wfNet n" "length (IP m) = length (IP n)"
  shows "prefix (netPrefix m) (netPrefix n) \<longleftrightarrow> netLen m \<le> netLen n \<and> prefix (netPrefix m) (ipBits (IP n))"
proof -
  have n: "prefix (netPrefix n) (ipBits (IP n))" by (simp add: netPrefix_def take_is_prefix)
  have "netLen m \<le> netLen n \<longleftrightarrow> length (netPrefix m) \<le> length (netPrefix n)"
    using assms by (simp add: length_netPrefix)
  then show ?thesis
    using n prefix_length_le prefix_order.trans [OF _ n] prefix_length_prefix [OF _ n] by metis
qed

lemma prefix_ipBits_cases:
  "prefix (netPrefix m) (ipBits (IP n)) \<Longrightarrow> prefix (netPrefix m) (netPrefix n) \<or> prefix (netPrefix n) (netPrefix m)"
  by (metis netPrefix_def prefix_same_cases take_is_prefix)

text \<open>For parsed networks, \<open>IsIPNetSubset\<close> holds exactly when the prefix of the first is a
  prefix of that of the second, and \<open>Overlap\<close> exactly when one of the prefixes is a prefix of the
  other. IPv4-mapped IPv6 networks are excepted: \<open>To4\<close> shortens their address but not their mask.\<close>

theorem network_relations_correct:
  assumes "parseCIDR s = Some m" "parseCIDR t = Some n" "plainIP (IP m)" "plainIP (IP n)"
  shows "(IsIPNetSubset m n \<longleftrightarrow> length (IP m) = length (IP n) \<and> prefix (netPrefix m) (netPrefix n))
    \<and> (Overlap m n \<longleftrightarrow> length (IP m) = length (IP n)
         \<and> (prefix (netPrefix m) (netPrefix n) \<or> prefix (netPrefix n) (netPrefix m)))"
proof -
  have wf: "wfNet m" "wfNet n" using assms(1,2) by (simp_all add: parseCIDR_wf)
  note contains = netContains_plain [OF wf(1) assms(3,4)] netContains_plain [OF wf(2) assms(4,3)]
  show ?thesis
  proof (cases "length (IP m) = length (IP n)")
    case True
    then have "(\<forall>i < length (IP n). Mask m ! i AND Mask n ! i = Mask m ! i) \<longleftrightarrow> netLen m \<le> netLen n"
      using wf cidrMask_and_iff [of "netLen m" "length (IP n)" "netLen n"] by (simp add: wfNet_def)
    with True contains wf prefix_ipBits_iff [OF wf True] prefix_ipBits_iff [OF wf(2,1) True [symmetric]]
    show ?thesis by (auto simp: IsIPNetSubset_def Overlap_def list_all_iff dest: prefix_ipBits_cases)
  qed (use contains in \<open>auto simp: IsIPNetSubset_def Overlap_def\<close>)
qed

theorem network_relations_correct_witness:
  "IsIPNetSubset \<lparr>IP = [10, 0, 0, 0], Mask = [255, 0, 0, 0]\<rparr> \<lparr>IP = [192, 168, 0, 0], Mask = [255, 255, 0, 0]\<rparr>
     \<longleftrightarrow> False"
  using network_relations_correct [OF private_networks_eval(1,3)]
  by (simp add: plainIP_def netPrefix_def netLen_def maskSize_def leadingOnes_zero byteBits_eval)

subsection \<open>Public addresses\<close>

lemma list4E: "length b = 4 \<Longrightarrow> \<exists>w x y z. b = [w, x, y, z]"
  by (auto simp: numeral_eq_Suc length_Suc_conv)

lemma list16E: "length b = 16 \<Longrightarrow> \<exists>b0 b1 b2 b3 b4 b5 b6 b7 b8 b9 b10 b11 b12 b13 b14 b15.
    b = [b0, b1, b2, b3, b4, b5, b6, b7, b8, b9, b10, b11, b12, b13, b14, b15]"
  by (auto simp: numeral_eq_Suc length_Suc_conv)

lemma be32_bit:
  "i \<in> {0, 8, 16, 24} \<Longrightarrow> k < 8 \<Longrightarrow>
    bit (be32 [p, q, r, s]) (i + k) = bit (if i = 24 then p else if i = 16 then q else if i = 8 then r else s) k"
  by (auto simp: be32_def bit_or_iff bit_push_bit_iff bit_ucast_iff dest: bit_imp_le_length)

lemma be32_and: "be32 [a, b, c, d] AND be32 [a', b', c', d'] = be32 [a AND a', b AND b', c AND c', d AND d']"
proof (rule bit_word_eqI)
  fix n assume "n < LENGTH(32)"
  then obtain i k where "i \<in> {0, 8, 16, 24}" "k < 8" "n = i + k"
    by (cases "n < 8"; cases "n < 16"; cases "n < 24") (auto dest: le_Suc_ex simp: not_less)
  then show "bit (be32 [a, b, c, d] AND be32 [a', b', c', d']) n = bit (be32 [a AND a', b AND b', c AND c', d AND d']) n"
    by (simp only: bit_and_iff be32_bit split: if_split) simp
qed

lemma be32_inj: "be32 [a, b, c, d] = be32 [a', b', c', d'] \<longleftrightarrow> [a, b, c, d] = [a', b', c', d']"
proof
  assume eq: "be32 [a, b, c, d] = be32 [a', b', c', d']"
  have byte: "x = y" if "\<And>k. k < 8 \<Longrightarrow> bit x k = bit y k" for x y :: byte
    using that by (intro bit_word_eqI) simp
  note b24 = be32_bit [of 24, simplified] and b16 = be32_bit [of 16, simplified]
    and b8 = be32_bit [of 8, simplified] and b0 = be32_bit [of 0, simplified]
  have "a = a'" by (rule byte) (metis b24 eq)
  moreover have "b = b'" by (rule byte) (metis b16 eq)
  moreover have "c = c'" by (rule byte) (metis b8 eq)
  moreover have "d = d'" by (rule byte) (metis b0 eq)
  ultimately show "[a, b, c, d] = [a', b', c', d']" by simp
qed simp

lemma map2_eq_iff_nth:
  "length xs = length m \<Longrightarrow> length ys = length m \<Longrightarrow>
    map2 f xs m = map2 f ys m \<longleftrightarrow> (\<forall>i < length m. f (xs ! i) (m ! i) = f (ys ! i) (m ! i))"
  by (subst list_eq_iff_nth_eq) simp

lemma netContains_map2:
  assumes "networkNumberAndMask n = Some (nn, m)" "length m = length nn"
  shows "netContains n b \<longleftrightarrow> (let b' = (case to4 b of Some x \<Rightarrow> x | None \<Rightarrow> b)
      in length b' = length nn \<and> map2 (AND) nn m = map2 (AND) b' m)"
proof -
  let ?b = "case to4 b of Some x \<Rightarrow> x | None \<Rightarrow> b"
  have "netContains n b \<longleftrightarrow> length ?b = length nn \<and> (\<forall>i < length nn. nn ! i AND m ! i = ?b ! i AND m ! i)"
    by (auto simp: netContains_def Let_def list_all_iff assms(1))
  then show ?thesis using assms(2) by (auto simp: Let_def map2_eq_iff_nth)
qed

lemma networkNumberAndMask_4:
  "networkNumberAndMask \<lparr>IP = [a, b, c, d], Mask = [a', b', c', d']\<rparr> = Some ([a, b, c, d], [a', b', c', d'])"
  by (simp add: networkNumberAndMask_def to4_def)

lemma networkNumberAndMask_16:
  "length a = 16 \<Longrightarrow> take 12 a \<noteq> v4InV6Prefix \<Longrightarrow> length m = 16 \<Longrightarrow>
    networkNumberAndMask \<lparr>IP = a, Mask = m\<rparr> = Some (a, m)"
  by (simp add: networkNumberAndMask_def to4_def)

lemma netContains_mapped_network:
  "length c = 4 \<Longrightarrow> length m = 4 \<Longrightarrow>
    netContains \<lparr>IP = v4InV6Prefix @ c, Mask = replicate 12 255 @ m\<rparr> b = netContains \<lparr>IP = c, Mask = m\<rparr> b"
  by (simp add: netContains_def networkNumberAndMask_def to4_def v4InV6Prefix_def)

lemma v4InV6Prefix_length: "length v4InV6Prefix = 12"
  by (simp add: v4InV6Prefix_def)

lemma netContains_mapped:
  "length c = 4 \<Longrightarrow> netContains n (v4InV6Prefix @ c) = netContains n c"
  by (simp add: netContains_def to4_def v4InV6Prefix_def)

text \<open>The private IPv4 networks, and the IPv6 list as two networks and the mapped IPv4 ones.\<close>

definition private4 :: "(byte list \<times> byte list) list" where
  "private4 = [([10, 0, 0, 0], [255, 0, 0, 0]), ([172, 16, 0, 0], [255, 240, 0, 0]),
     ([192, 168, 0, 0], [255, 255, 0, 0]), ([100, 64, 0, 0], [255, 192, 0, 0]), ([169, 254, 0, 0], [255, 255, 0, 0])]"

lemma private4_lengths: "(c, m) \<in> set private4 \<Longrightarrow> length c = 4 \<and> length m = 4"
  by (auto simp: private4_def)

lemma IPv4PrivateNetworks_eq: "IPv4PrivateNetworks = map (\<lambda>(c, m). \<lparr>IP = c, Mask = m\<rparr>) private4"
  by (simp add: private4_def IPv4PrivateNetworks_def mustParseCIDR_def private_networks_eval)

lemma IPv6PrivateNetworks_eq:
  "IPv6PrivateNetworks = \<lparr>IP = 0xFD # replicate 15 0, Mask = 255 # replicate 15 0\<rparr>
    # \<lparr>IP = 0xFE # 0x80 # replicate 14 0, Mask = 255 # 192 # replicate 14 0\<rparr>
    # map (\<lambda>(c, m). \<lparr>IP = v4InV6Prefix @ c, Mask = replicate 12 255 @ m\<rparr>) private4"
  by (simp add: private4_def IPv6PrivateNetworks_def mustParseCIDR_def private_networks_eval6a
    private_networks_eval6b private_networks_eval6c private_networks_eval6d private_networks_eval6e
    private_networks_eval6f)

lemma netContains_44:
  "netContains \<lparr>IP = [a, b, c, d], Mask = [a', b', c', d']\<rparr> [w, x, y, z] \<longleftrightarrow>
    w AND a' = a AND a' \<and> x AND b' = b AND b' \<and> y AND c' = c AND c' \<and> z AND d' = d AND d'"
  by (auto simp: netContains_map2 [OF networkNumberAndMask_4] to4_def)

lemma IsIPv4Public_iff:
  assumes "length b = 4"
  shows "IsIPv4Public b \<longleftrightarrow> (\<forall>n \<in> set IPv4PrivateNetworks. \<not> netContains n b)"
proof -
  from list4E [OF assms] obtain w x y z where b: "b = [w, x, y, z]" by blast
  show ?thesis
    by (simp add: b IsIPv4Public_def ipv4MasksPrefixes_def IPv4PrivateNetworks_eq private4_def to4_def
      be32_and be32_inj netContains_44)
qed

lemma map2_and_zero: "length c = k \<Longrightarrow> map2 (AND) c (replicate k 0) = replicate k (0 :: byte)"
  by (induction c arbitrary: k) (auto split: nat.splits)

lemma fixed_networks6:
  assumes "length b = 16" "take 12 b \<noteq> v4InV6Prefix"
  shows "netContains \<lparr>IP = 0xFD # replicate 15 0, Mask = 255 # replicate 15 0\<rparr> b \<longleftrightarrow> b ! 0 = 0xFD"
    and "netContains \<lparr>IP = 0xFE # 0x80 # replicate 14 0, Mask = 255 # 192 # replicate 14 0\<rparr> b
      \<longleftrightarrow> b ! 0 = 0xFE \<and> b ! 1 AND 0xC0 = 0x80"
proof -
  from assms(1) obtain b0 b1 c where b: "b = b0 # b1 # c" and c: "length c = 14"
    by (auto simp: numeral_eq_Suc length_Suc_conv)
  have to4: "to4 b = None" using assms by (simp add: to4_def)
  have r15: "replicate 15 x = x # replicate 14 x" for x :: byte by (simp add: numeral_eq_Suc)
  have ff: "x AND 255 = x" for x :: byte
    by (rule bit_word_eqI) (auto simp: bit_and_iff bit_255_int)
  have plain: "x # y # replicate 10 0 \<noteq> v4InV6Prefix" for x y :: byte
  proof -
    have "(x # y # replicate 10 0) ! 10 = 0" by (simp add: nth_Cons')
    moreover have "v4InV6Prefix ! 10 \<noteq> 0" by (simp add: v4InV6Prefix_def)
    ultimately show ?thesis by metis
  qed
  show "netContains \<lparr>IP = 0xFD # replicate 15 0, Mask = 255 # replicate 15 0\<rparr> b \<longleftrightarrow> b ! 0 = 0xFD"
    unfolding r15
    by (subst netContains_map2 [OF networkNumberAndMask_16])
      (auto simp: to4 assms(1) plain, auto simp: b c map2_and_zero ff)
  show "netContains \<lparr>IP = 0xFE # 0x80 # replicate 14 0, Mask = 255 # 192 # replicate 14 0\<rparr> b
      \<longleftrightarrow> b ! 0 = 0xFE \<and> b ! 1 AND 0xC0 = 0x80"
    by (subst netContains_map2 [OF networkNumberAndMask_16])
      (auto simp: to4 assms(1) plain, auto simp: b c map2_and_zero ff)
qed

lemma fixed_networks4:
  assumes "length b = 4" "12 < length a" "length a = length m" "a ! 0 \<noteq> 0"
  shows "\<not> netContains \<lparr>IP = a, Mask = m\<rparr> b"
proof -
  have "take 12 a ! 0 \<noteq> v4InV6Prefix ! 0" using assms(2,4) by (simp add: v4InV6Prefix_def)
  then have "take 12 a \<noteq> v4InV6Prefix" by metis
  then have "to4 a = None" using assms(2) by (auto simp: to4_def)
  then show ?thesis using assms by (auto simp: netContains_def networkNumberAndMask_def to4_def)
qed

lemma IPv6PrivateNetworks_iff:
  "(\<exists>n \<in> set IPv6PrivateNetworks. netContains n b) \<longleftrightarrow>
    netContains \<lparr>IP = 0xFD # replicate 15 0, Mask = 255 # replicate 15 0\<rparr> b
    \<or> netContains \<lparr>IP = 0xFE # 0x80 # replicate 14 0, Mask = 255 # 192 # replicate 14 0\<rparr> b
    \<or> (\<exists>n \<in> set IPv4PrivateNetworks. netContains n b)"
proof -
  have "(\<exists>(c, m) \<in> set private4. netContains \<lparr>IP = v4InV6Prefix @ c, Mask = replicate 12 255 @ m\<rparr> b)
    \<longleftrightarrow> (\<exists>(c, m) \<in> set private4. netContains \<lparr>IP = c, Mask = m\<rparr> b)"
    by (rule bex_cong) (auto simp: netContains_mapped_network dest: private4_lengths)
  then show ?thesis
    unfolding IPv6PrivateNetworks_eq IPv4PrivateNetworks_eq by (simp add: case_prod_unfold)
qed

lemma private_networks4:
  "length b = 4 \<Longrightarrow> (\<exists>n \<in> set (IPv4PrivateNetworks @ IPv6PrivateNetworks). netContains n b)
    \<longleftrightarrow> \<not> IsIPv4Public b"
  using IPv6PrivateNetworks_iff [of b] by (auto simp: IsIPv4Public_iff fixed_networks4)

lemma IPv4PrivateNetworks_plain6:
  "length b = 16 \<Longrightarrow> take 12 b \<noteq> v4InV6Prefix \<Longrightarrow> n \<in> set IPv4PrivateNetworks \<Longrightarrow> \<not> netContains n b"
  by (auto simp: IPv4PrivateNetworks_eq private4_def netContains_map2 networkNumberAndMask_4 to4_def)

lemma IsIPv6Public_plain:
  assumes "length b = 16" "take 12 b \<noteq> v4InV6Prefix"
  shows "IsIPv6Public b \<longleftrightarrow> b ! 0 \<noteq> 0xFD \<and> \<not> (b ! 0 = 0xFE \<and> b ! 1 AND 0xC0 = 0x80)"
proof -
  have "take 12 b = map ((!) b) [0..<12]"
    using assms(1) by (intro nth_equalityI) simp_all
  then have "take 12 b = [b ! 0, b ! 1, b ! 2, b ! 3, b ! 4, b ! 5, b ! 6, b ! 7, b ! 8, b ! 9, b ! 10, b ! 11]"
    by (simp add: upt_rec numeral_eq_Suc)
  with assms(2) show ?thesis by (auto simp: IsIPv6Public_def v4InV6Prefix_def numeral_eq_Suc)
qed

text \<open>An address is reported as public exactly when none of the private networks of \<open>netutil\<close>
  contains it: the bit tests of package \<open>ipcheck\<close> agree with the lists of networks, for IPv4, IPv6
  and IPv4-mapped IPv6 addresses.\<close>

theorem public_addresses_correct:
  assumes "length b = 4 \<or> length b = 16"
  shows "addrIsPublic (IPFromBytes b) \<longleftrightarrow>
    \<not> (\<exists>n \<in> set (IPv4PrivateNetworks @ IPv6PrivateNetworks). netContains n b)"
proof -
  consider "length b = 4" | "length b = 16" "take 12 b \<noteq> v4InV6Prefix"
    | "length b = 16" "length (drop 12 b) = 4" "b = v4InV6Prefix @ drop 12 b"
    using assms append_take_drop_id [of 12 b] by fastforce
  then show ?thesis
  proof cases
    case 1
    then show ?thesis
      using private_networks4 [of b] by (simp add: addrIsPublic_def IPFromBytes_def dataIsPublic_def)
  next
    case 2
    then show ?thesis
      using IPv6PrivateNetworks_iff [of b] fixed_networks6 [of b] IsIPv6Public_plain [of b]
        IPv4PrivateNetworks_plain6 [of b]
      by (auto simp: addrIsPublic_def IPFromBytes_def canonicalize_def dataIsPublic_def)
  next
    case 3
    then have "take 12 b = v4InV6Prefix"
      by (metis append_eq_conv_conj length_append length_drop add_diff_cancel_right' v4InV6Prefix_length)
    with 3 have "addrIsPublic (IPFromBytes b) = IsIPv4Public (drop 12 b)"
      by (simp add: addrIsPublic_def IPFromBytes_def canonicalize_def dataIsPublic_def)
    moreover have "netContains n b = netContains n (drop 12 b)" for n
      using netContains_mapped [OF 3(2), of n] 3(3) by simp
    ultimately show ?thesis using private_networks4 [OF 3(2)] by simp
  qed
qed

theorem public_addresses_correct_witness:
  "addrIsPublic (IPFromBytes [8, 8, 8, 8]) \<longleftrightarrow>
    \<not> (\<exists>n \<in> set (IPv4PrivateNetworks @ IPv6PrivateNetworks). netContains n [8, 8, 8, 8])"
  by (rule public_addresses_correct) simp

end
