(* ===== verification/Radix_Tree.thy ===== *)
theory Radix_Tree
  imports Ip_Prefixes
begin

text \<open>
  The network tree of one address family, \<open>pkg/networkgraph/tree/radix.go\<close>, with the network
  entities of \<open>pkg/networkgraph\<close> it stores.

  The Go tree consists of linked nodes with child and parent pointers and a map from the
  identifiers of entities to nodes. Here a pointer is an index into the list of the nodes
  ever allocated (\<open>nodes\<close>), nil is \<open>None\<close>, and an operation that changes nodes returns the
  new list. A loop over the bits of an address keeps the variables \<open>bit\<close> and \<open>i\<close> of the
  code. The recursive walks along pointers are partial functions: \<open>None\<close> means that the walk
  does not return (or, where noted, runs into a nil pointer or out of a slice); that they all
  return in the trees the operations build is proved in \<open>Radix_Safety\<close>. The lock of the tree
  makes each operation one step. \<open>CloneVT\<close> is the identity on values.
\<close>

subsection \<open>Network entities\<close>

datatype NetworkEntityType =
  UNKNOWN_TYPE | ENTITY_DEPLOYMENT | INTERNET | LISTEN_ENDPOINT | EXTERNAL_SOURCE | INTERNAL_ENTITIES

record ExternalSource =
  es_Name :: string
  es_Cidr :: "string option"
  es_Default :: bool
  es_Discovered :: bool

record EntityDeployment =
  ed_Name :: string
  ed_Namespace :: string
  ed_Cluster :: string

datatype EntityDesc = Desc_Deployment EntityDeployment | Desc_ExternalSource ExternalSource

record NetworkEntityInfo =
  ne_Type :: NetworkEntityType
  ne_Id :: string
  ne_Desc :: "EntityDesc option"

text \<open>The generated getter \<open>GetExternalSource().GetCidr()\<close>: empty when a part is missing.\<close>

definition entityCidr :: "NetworkEntityInfo \<Rightarrow> string" where
  "entityCidr e =
     (case ne_Desc e of Some (Desc_ExternalSource s) \<Rightarrow> (case es_Cidr s of Some c \<Rightarrow> c | None \<Rightarrow> []) | _ \<Rightarrow> [])"

definition InternetExternalSourceID :: string where
  "InternetExternalSourceID = ''afa12424-bde3-4313-b810-bb463cbe8f90''"

definition InternalSourceID :: string where
  "InternalSourceID = ''ada12424-bde3-4313-b810-bb463cbe8f90''"

definition IsConstantID :: "string \<Rightarrow> bool" where
  "IsConstantID key \<longleftrightarrow> key = InternetExternalSourceID \<or> key = InternalSourceID"

definition IsKnownExternalSrc :: "NetworkEntityInfo \<Rightarrow> bool" where
  "IsKnownExternalSrc e \<longleftrightarrow> ne_Type e = EXTERNAL_SOURCE"

definition IsExternal :: "NetworkEntityInfo \<Rightarrow> bool" where
  "IsExternal e \<longleftrightarrow> IsKnownExternalSrc e \<or> ne_Type e = INTERNET"

definition ipv4InternetCIDR :: string where
  "ipv4InternetCIDR = ''0.0.0.0/0''"

definition ipv6InternetCIDR :: string where
  "ipv6InternetCIDR = ''::ffff:0:0/0''"

definition InternetProtoWithDesc :: "Family \<Rightarrow> NetworkEntityInfo option" where
  "InternetProtoWithDesc f =
     (let entity = (\<lambda>cidr. \<lparr>ne_Type = INTERNET, ne_Id = InternetExternalSourceID,
            ne_Desc = Some (Desc_ExternalSource \<lparr>es_Name = ''External Entities'', es_Cidr = Some cidr,
              es_Default = False, es_Discovered = False\<rparr>)\<rparr>)
      in case f of IPv4 \<Rightarrow> Some (entity ipv4InternetCIDR) | IPv6 \<Rightarrow> Some (entity ipv6InternetCIDR)
         | InvalidFamily \<Rightarrow> None)"

text \<open>\<open>InternetEntity().ToProto()\<close>.\<close>

definition InternetEntity :: NetworkEntityInfo where
  "InternetEntity = \<lparr>ne_Type = INTERNET, ne_Id = InternetExternalSourceID, ne_Desc = None\<rparr>"

definition rmDescIfInternet :: "NetworkEntityInfo \<Rightarrow> NetworkEntityInfo" where
  "rmDescIfInternet e = (if ne_Id e = InternetExternalSourceID then e\<lparr>ne_Desc := None\<rparr> else e)"

definition ipNetEqual :: "IPNet \<Rightarrow> IPNet \<Rightarrow> bool" where
  "ipNetEqual a b \<longleftrightarrow> ipEqual (IP a) (IP b) \<and> Mask a = Mask b"

subsection \<open>The tree\<close>

type_synonym addr = nat

record nRadixNode =
  nleft :: "addr option"
  nright :: "addr option"
  nparent :: "addr option"
  nvalue :: "NetworkEntityInfo option"

type_synonym heap = "nRadixNode list"

record nRadixTree =
  nodes :: heap
  root :: addr
  family :: Family
  valueNodes :: "(string, addr) gomap"

datatype treeError =
    ErrNoID
  | ErrType
  | ErrCIDR
  | ErrFamily Family
  | ErrConflict string string
  | ErrInsert string treeError
  | ErrInvalidCIDR string

text \<open>\<open>node.right\<close> when the bit of the address is set, else \<open>node.left\<close>.\<close>

definition child :: "heap \<Rightarrow> addr \<Rightarrow> bool \<Rightarrow> addr option" where
  "child h a b = (if b then nright (h ! a) else nleft (h ! a))"

definition setChild :: "heap \<Rightarrow> addr \<Rightarrow> bool \<Rightarrow> addr option \<Rightarrow> heap" where
  "setChild h a b c = h[a := (if b then (h ! a)\<lparr>nright := c\<rparr> else (h ! a)\<lparr>nleft := c\<rparr>)]"

definition newDefaultNRadixTree :: "Family \<Rightarrow> nRadixTree" where
  "newDefaultNRadixTree f =
     (let v = InternetProtoWithDesc f
      in \<lparr>nodes = [\<lparr>nleft = None, nright = None, nparent = None, nvalue = v\<rparr>], root = 0, family = f,
          valueNodes = [(case v of None \<Rightarrow> [] | Some e \<Rightarrow> ne_Id e, 0)]\<rparr>)"

definition radixCardinality :: "nRadixTree \<Rightarrow> nat" where
  "radixCardinality t = length (valueNodes t)"

text \<open>The step of the loop variables: \<open>bit >>= 1\<close>, and on zero the next byte with the bit set
  again; \<open>None\<close> when all bytes have been walked.\<close>

definition nextBit :: "IPNet \<Rightarrow> byte \<Rightarrow> nat \<Rightarrow> (byte \<times> nat) option" where
  "nextBit n b i =
     (let b' = drop_bit 1 b
      in if b' \<noteq> 0 then Some (b', i) else if length (IP n) \<le> Suc i then None else Some (0x80, Suc i))"

text \<open>Each step of a loop over the bits decreases the bit or moves to a later byte.\<close>

lemma nextBit_less:
  assumes "b \<noteq> 0" "nextBit n b i = Some (b', i')"
  shows "((b', i'), (b, i)) \<in> measures [\<lambda>(b, i). length (IP n) - i, \<lambda>(b, i). unat b]"
proof -
  have "unat (drop_bit 1 b) < unat b"
  proof -
    have "unat (drop_bit 1 b) = unat b div 2" by (subst unat_drop_bit_eq, subst drop_bit_eq_div) simp
    with assms(1) show ?thesis by (simp flip: unat_gt_0)
  qed
  with assms show ?thesis by (auto simp: nextBit_def Let_def split: if_splits)
qed

subsection \<open>Loops over the bits of a network\<close>

text \<open>The first loop of \<open>insertNoValidate\<close>: it stops at the node of the network, at the deepest
  existing node above it (\<open>False\<close>: \<open>next\<close> is nil), or after the last bit.\<close>

function descend :: "heap \<Rightarrow> IPNet \<Rightarrow> addr \<Rightarrow> byte \<Rightarrow> nat \<Rightarrow> addr \<times> bool \<times> byte \<times> nat" where
  "descend h n node b i =
     (if b AND Mask n ! i = 0 then (node, True, b, i)
      else case child h node (IP n ! i AND b \<noteq> 0) of
        None \<Rightarrow> (node, False, b, i)
      | Some nxt \<Rightarrow>
          (case nextBit n b i of None \<Rightarrow> (nxt, True, 0, Suc i)
           | Some (b', i') \<Rightarrow> descend h n nxt b' i'))"
  by pat_completeness auto
termination
  by (relation "inv_image (measures [\<lambda>(n, b, i). length (IP n) - i, \<lambda>(n, b, i). unat b])
      (\<lambda>(h, n, node, b, i). (n, b, i))")
    (auto dest!: nextBit_less [rotated])

declare descend.simps [simp del]

text \<open>The second loop of \<open>insertNoValidate\<close> allocates the missing nodes.\<close>

function extend :: "heap \<Rightarrow> IPNet \<Rightarrow> addr \<Rightarrow> byte \<Rightarrow> nat \<Rightarrow> heap \<times> addr" where
  "extend h n node b i =
     (if b AND Mask n ! i = 0 then (h, node)
      else let nxt = length h;
               h' = setChild (h @ [\<lparr>nleft = None, nright = None, nparent = Some node, nvalue = None\<rparr>])
                      node (IP n ! i AND b \<noteq> 0) (Some nxt)
           in case nextBit n b i of None \<Rightarrow> (h', nxt)
              | Some (b', i') \<Rightarrow> extend h' n nxt b' i')"
  by pat_completeness auto
termination
  by (relation "inv_image (measures [\<lambda>(n, b, i). length (IP n) - i, \<lambda>(n, b, i). unat b])
      (\<lambda>(h, n, node, b, i). (n, b, i))")
    (auto dest!: nextBit_less [rotated])

declare extend.simps [simp del]

definition setValue :: "addr \<Rightarrow> NetworkEntityInfo option \<Rightarrow> heap \<Rightarrow> heap" where
  "setValue a v h = h[a := (h ! a)\<lparr>nvalue := v\<rparr>]"

definition insertNoValidate :: "nRadixTree \<Rightarrow> IPNet \<Rightarrow> NetworkEntityInfo \<Rightarrow> treeError + nRadixTree" where
  "insertNoValidate t ipNet e =
     (let (node, found, b, i) = descend (nodes t) ipNet (root t) 0x80 0
      in if found then
           (case nvalue (nodes t ! node) of
              Some v \<Rightarrow> Inl (ErrConflict (entityCidr e) (entityCidr v))
            | None \<Rightarrow> Inr (t\<lparr>nodes := setValue node (Some e) (nodes t),
                             valueNodes := mput (ne_Id e) node (valueNodes t)\<rparr>))
         else
           let (h, node') = extend (nodes t) ipNet node b i
           in Inr (t\<lparr>nodes := setValue node' (Some e) h, valueNodes := mput (ne_Id e) node' (valueNodes t)\<rparr>))"

definition validateEntity :: "nRadixTree \<Rightarrow> NetworkEntityInfo \<Rightarrow> treeError + IPNet" where
  "validateEntity t e =
     (if ne_Id e = [] then Inl ErrNoID
      else if \<not> IsExternal e then Inl ErrType
      else case parseCIDR (entityCidr e) of None \<Rightarrow> Inl ErrCIDR
      | Some ipNet \<Rightarrow>
          if snd (maskSize (Mask ipNet)) \<noteq> familyBits (family t) then Inl (ErrFamily (family t))
          else Inr ipNet)"

definition insertNoLock :: "nRadixTree \<Rightarrow> NetworkEntityInfo \<Rightarrow> treeError + nRadixTree" where
  "insertNoLock t e =
     (case validateEntity t e of Inl err \<Rightarrow> Inl (ErrInsert (ne_Id e) err)
      | Inr ipNet \<Rightarrow> insertNoValidate t ipNet e)"

definition radixInsert :: "nRadixTree \<Rightarrow> NetworkEntityInfo \<Rightarrow> treeError + nRadixTree" where
  "radixInsert t e = insertNoLock t e"

fun build :: "nRadixTree \<Rightarrow> NetworkEntityInfo list \<Rightarrow> treeError + nRadixTree" where
  "build t [] = Inr t"
| "build t (e # es) = (case insertNoLock t e of Inl err \<Rightarrow> Inl err | Inr t' \<Rightarrow> build t' es)"

definition NewNRadixTree :: "Family \<Rightarrow> NetworkEntityInfo list \<Rightarrow> treeError + nRadixTree" where
  "NewNRadixTree f es = build (newDefaultNRadixTree f) es"

text \<open>\<open>findCIDRNoLock\<close>: the deepest node with a value on the path of the network (its error is always nil).\<close>

function findCIDR :: "heap \<Rightarrow> IPNet \<Rightarrow> addr \<Rightarrow> byte \<Rightarrow> nat \<Rightarrow> addr option \<Rightarrow> addr option" where
  "findCIDR h n node b i ret =
     (let ret' = (if nvalue (h ! node) \<noteq> None then Some node else ret)
      in case child h node (IP n ! i AND b \<noteq> 0) of
           None \<Rightarrow> ret'
         | Some nxt \<Rightarrow>
             if Mask n ! i AND b = 0 then ret'
             else (case nextBit n b i of
                 None \<Rightarrow> if nvalue (h ! nxt) \<noteq> None then Some nxt else ret'
               | Some (b', i') \<Rightarrow> findCIDR h n nxt b' i' ret'))"
  by pat_completeness auto
termination
  by (relation "inv_image (measures [\<lambda>(n, b, i). length (IP n) - i, \<lambda>(n, b, i). unat b])
      (\<lambda>(h, n, node, b, i, ret). (n, b, i))")
    (auto dest!: nextBit_less [rotated])

declare findCIDR.simps [simp del]

text \<open>\<open>findStartNodeNoLock\<close>: the node of the network, or nil.\<close>

function findStartNode :: "heap \<Rightarrow> IPNet \<Rightarrow> addr option \<Rightarrow> byte \<Rightarrow> nat \<Rightarrow> addr option" where
  "findStartNode h n node b i =
     (case node of None \<Rightarrow> None
      | Some a \<Rightarrow>
          if Mask n ! i AND b = 0 then Some a
          else let nxt = child h a (IP n ! i AND b \<noteq> 0)
               in case nextBit n b i of None \<Rightarrow> nxt
                  | Some (b', i') \<Rightarrow> findStartNode h n nxt b' i')"
  by pat_completeness auto
termination
  by (relation "inv_image (measures [\<lambda>(n, b, i). length (IP n) - i, \<lambda>(n, b, i). unat b])
      (\<lambda>(h, n, node, b, i). (n, b, i))")
    (auto dest!: nextBit_less [rotated])

declare findStartNode.simps [simp del]

subsection \<open>Walks along the pointers\<close>

partial_function (option) getSuccessorWithVals ::
    "heap \<Rightarrow> addr option \<Rightarrow> addr option \<Rightarrow> NetworkEntityInfo list option" where
  "getSuccessorWithVals h startNode cur =
     (if startNode = None then Some []
      else case cur of None \<Rightarrow> Some []
      | Some c \<Rightarrow>
          if startNode \<noteq> cur \<and> nvalue (h ! c) \<noteq> None then Some [the (nvalue (h ! c))]
          else Option.bind (getSuccessorWithVals h startNode (nleft (h ! c))) (\<lambda>l.
               Option.bind (getSuccessorWithVals h startNode (nright (h ! c))) (\<lambda>r. Some (l @ r))))"

text \<open>A nil predicate is \<open>None\<close>.\<close>

definition predOk :: "(NetworkEntityInfo \<Rightarrow> bool) option \<Rightarrow> NetworkEntityInfo \<Rightarrow> bool" where
  "predOk pred e = (case pred of None \<Rightarrow> True | Some p \<Rightarrow> p e)"

partial_function (option) getMatchingParent ::
    "heap \<Rightarrow> addr option \<Rightarrow> (NetworkEntityInfo \<Rightarrow> bool) option \<Rightarrow> addr option option" where
  "getMatchingParent h cur pred =
     (case cur of None \<Rightarrow> Some None
      | Some c \<Rightarrow>
          (case nparent (h ! c) of None \<Rightarrow> Some None
           | Some p \<Rightarrow>
               (case nvalue (h ! p) of
                  None \<Rightarrow> getMatchingParent h (Some p) pred
                | Some v \<Rightarrow> if predOk pred v then Some (Some p) else getMatchingParent h (Some p) pred)))"

partial_function (option) removeRecursively :: "heap \<Rightarrow> addr \<Rightarrow> heap option" where
  "removeRecursively h node =
     (case nparent (h ! node) of None \<Rightarrow> Some h
      | Some p \<Rightarrow>
          if nleft (h ! node) = None \<and> nright (h ! node) = None \<and> nvalue (h ! node) = None
          then removeRecursively (setChild h p (nright (h ! p) = Some node) None) p
          else Some h)"

definition radixRemove :: "nRadixTree \<Rightarrow> string \<Rightarrow> nRadixTree option" where
  "radixRemove t key =
     (case mget (valueNodes t) key of None \<Rightarrow> Some t
      | Some node \<Rightarrow>
          if nparent (nodes t ! node) = None then Some t
          else map_option (\<lambda>h. t\<lparr>nodes := h, valueNodes := mdel key (valueNodes t)\<rparr>)
                 (removeRecursively (setValue node None (nodes t)) node))"

subsection \<open>Queries\<close>

definition radixExists :: "nRadixTree \<Rightarrow> string \<Rightarrow> bool" where
  "radixExists t key \<longleftrightarrow> mget (valueNodes t) key \<noteq> None"

definition radixGet :: "nRadixTree \<Rightarrow> string \<Rightarrow> NetworkEntityInfo option" where
  "radixGet t key =
     (case mget (valueNodes t) key of None \<Rightarrow> None
      | Some node \<Rightarrow> map_option rmDescIfInternet (nvalue (nodes t ! node)))"

definition radixGetSubnets :: "nRadixTree \<Rightarrow> string \<Rightarrow> NetworkEntityInfo list option" where
  "radixGetSubnets t key =
     (case mget (valueNodes t) key of None \<Rightarrow> Some []
      | Some node \<Rightarrow> getSuccessorWithVals (nodes t) (Some node) (Some node))"

definition radixGetSubnetsForCIDR :: "nRadixTree \<Rightarrow> string \<Rightarrow> NetworkEntityInfo list option" where
  "radixGetSubnetsForCIDR t cidr =
     (case parseCIDR cidr of None \<Rightarrow> Some []
      | Some ipNet \<Rightarrow>
          let startNode = findStartNode (nodes t) ipNet (Some (root t)) 0x80 0
          in getSuccessorWithVals (nodes t) startNode startNode)"

text \<open>In the following two, a nil pointer is dereferenced when the value of the root is missing: \<open>None\<close>.\<close>

definition getMatchingSupernetNoLock ::
    "nRadixTree \<Rightarrow> string \<Rightarrow> (NetworkEntityInfo \<Rightarrow> bool) option \<Rightarrow> NetworkEntityInfo option option" where
  "getMatchingSupernetNoLock t key pred =
     (if (case nvalue (nodes t ! root t) of None \<Rightarrow> [] | Some r \<Rightarrow> ne_Id r) = key
      then map_option (\<lambda>r. Some (rmDescIfInternet r)) (nvalue (nodes t ! root t))
      else case mget (valueNodes t) key of None \<Rightarrow> Some None
      | Some node \<Rightarrow>
          Option.bind (getMatchingParent (nodes t) (Some node) pred) (\<lambda>match.
            case match of None \<Rightarrow> Some None
            | Some m \<Rightarrow> Some (map_option rmDescIfInternet (nvalue (nodes t ! m)))))"

definition getMatchingSupernetForCIDRNoLock ::
    "nRadixTree \<Rightarrow> string \<Rightarrow> (NetworkEntityInfo \<Rightarrow> bool) option \<Rightarrow> NetworkEntityInfo option option" where
  "getMatchingSupernetForCIDRNoLock t cidr pred =
     (case parseCIDR cidr of None \<Rightarrow> Some None
      | Some ipNet \<Rightarrow>
          Option.bind (findCIDR (nodes t) ipNet (root t) 0x80 0 None) (\<lambda>match.
          Option.bind (nvalue (nodes t ! match)) (\<lambda>v.
            case parseCIDR (entityCidr v) of None \<Rightarrow> Some None
            | Some matchedIPNet \<Rightarrow>
                if \<not> ipNetEqual matchedIPNet ipNet \<and> predOk pred v then Some (Some v)
                else Option.bind (getMatchingParent (nodes t) (Some match) pred) (\<lambda>match'.
                  case match' of None \<Rightarrow> Some None
                  | Some m \<Rightarrow> Some (map_option rmDescIfInternet (nvalue (nodes t ! m)))))))"

definition radixGetSupernet :: "nRadixTree \<Rightarrow> string \<Rightarrow> NetworkEntityInfo option option" where
  "radixGetSupernet t key = getMatchingSupernetNoLock t key None"

definition radixGetMatchingSupernet ::
    "nRadixTree \<Rightarrow> string \<Rightarrow> (NetworkEntityInfo \<Rightarrow> bool) option \<Rightarrow> NetworkEntityInfo option option" where
  "radixGetMatchingSupernet t key pred = getMatchingSupernetNoLock t key pred"

definition radixGetSupernetForCIDR :: "nRadixTree \<Rightarrow> string \<Rightarrow> NetworkEntityInfo option option" where
  "radixGetSupernetForCIDR t cidr = getMatchingSupernetForCIDRNoLock t cidr None"

definition radixGetMatchingSupernetForCIDR ::
    "nRadixTree \<Rightarrow> string \<Rightarrow> (NetworkEntityInfo \<Rightarrow> bool) option \<Rightarrow> NetworkEntityInfo option option" where
  "radixGetMatchingSupernetForCIDR t cidr pred = getMatchingSupernetForCIDRNoLock t cidr pred"

subsection \<open>Validation\<close>

partial_function (option) validateLeavesHaveValues :: "heap \<Rightarrow> addr option \<Rightarrow> bool option" where
  "validateLeavesHaveValues h node =
     (case node of None \<Rightarrow> Some True
      | Some a \<Rightarrow>
          if nleft (h ! a) = None \<and> nright (h ! a) = None \<and> nvalue (h ! a) = None then Some False
          else Option.bind (if nleft (h ! a) = None then Some True else validateLeavesHaveValues h (nleft (h ! a))) (\<lambda>l.
               if \<not> l then Some False
               else if nright (h ! a) = None then Some True
               else validateLeavesHaveValues h (nright (h ! a))))"

partial_function (option) getCardinalityByValues :: "heap \<Rightarrow> addr option \<Rightarrow> nat option" where
  "getCardinalityByValues h node =
     (case node of None \<Rightarrow> Some 0
      | Some a \<Rightarrow>
          Option.bind (if nleft (h ! a) = None then Some 0 else getCardinalityByValues h (nleft (h ! a))) (\<lambda>l.
          Option.bind (if nright (h ! a) = None then Some 0 else getCardinalityByValues h (nright (h ! a))) (\<lambda>r.
            Some ((if nvalue (h ! a) \<noteq> None then 1 else 0) + l + r))))"

definition validateCardinality :: "nRadixTree \<Rightarrow> bool option" where
  "validateCardinality t =
     map_option (\<lambda>c. c = radixCardinality t) (getCardinalityByValues (nodes t) (Some (root t)))"

definition equalValueIpNet :: "NetworkEntityInfo \<Rightarrow> IPNet \<Rightarrow> bool" where
  "equalValueIpNet v ipNet \<longleftrightarrow> entityCidr v = ipv4NetString ipNet"

text \<open>\<open>None\<close> is also the panic of an index out of the four bytes.\<close>

partial_function (option) validateValuesRecursive :: "heap \<Rightarrow> IPNet \<Rightarrow> nat \<Rightarrow> byte \<Rightarrow> addr \<Rightarrow> bool option" where
  "validateValuesRecursive h ipNet octetIdx b node =
     (if (case nvalue (h ! node) of None \<Rightarrow> False | Some v \<Rightarrow> \<not> equalValueIpNet v ipNet) then Some False
      else if length (IP ipNet) \<le> octetIdx \<and> nvalue (h ! node) = None then Some False
      else let newBit = (if drop_bit 1 b = 0 then 0x80 else drop_bit 1 b);
               newOctetIdx = (if drop_bit 1 b = 0 then Suc octetIdx else octetIdx);
               newMask = (Mask ipNet)[octetIdx := Mask ipNet ! octetIdx OR b]
           in Option.bind
                (case nright (h ! node) of None \<Rightarrow> Some True
                 | Some r \<Rightarrow>
                     if length (IP ipNet) \<le> octetIdx then None
                     else validateValuesRecursive h
                            \<lparr>IP = (IP ipNet)[octetIdx := IP ipNet ! octetIdx OR b], Mask = newMask\<rparr>
                            newOctetIdx newBit r) (\<lambda>valid.
              if \<not> valid then Some False
              else (case nleft (h ! node) of None \<Rightarrow> Some True
                 | Some l \<Rightarrow>
                     if length (IP ipNet) \<le> octetIdx then None
                     else validateValuesRecursive h \<lparr>IP = IP ipNet, Mask = newMask\<rparr> newOctetIdx newBit l)))"

definition validateValues :: "nRadixTree \<Rightarrow> bool option" where
  "validateValues t =
     validateValuesRecursive (nodes t) \<lparr>IP = [0, 0, 0, 0], Mask = [0, 0, 0, 0]\<rparr> 0 0x80 (root t)"

definition ValidateNetworkTree :: "nRadixTree \<Rightarrow> bool option" where
  "ValidateNetworkTree t =
     Option.bind (validateLeavesHaveValues (nodes t) (Some (root t))) (\<lambda>leaves.
       if \<not> leaves then Some False
       else Option.bind (validateCardinality t) (\<lambda>cardinality.
         if \<not> cardinality then Some False else validateValues t))"

end
