(* ===== verification/Radix_Facts.thy ===== *)
theory Radix_Facts
  imports Radix_Tree
begin

text \<open>
  The abstract view of a network tree is the partial map \<open>entries\<close> from network prefixes to
  entities. This theory shows that the pointer structure of \<open>Radix_Tree\<close> implements it: the
  loops over the bits of a network follow its prefix, a tree invariant (\<open>treeOK\<close>) ties the
  nodes, the parent pointers and the map of identifiers together, and every operation keeps
  the invariant and acts on \<open>entries\<close> as its documentation says.
\<close>

subsection \<open>The loop variables\<close>

text \<open>The values of \<open>bit\<close> and \<open>i\<close> at bit \<open>k\<close> of the address.\<close>

definition pos :: "nat \<Rightarrow> byte \<times> nat" where
  "pos k = (drop_bit (k mod 8) 0x80, k div 8)"

lemma bit_drop_80: "bit (drop_bit j (0x80 :: byte)) m \<longleftrightarrow> j + m = 7"
proof -
  have "(0x80 :: byte) = 2 ^ 7" by simp
  then show ?thesis by (simp only: bit_drop_bit_eq o_def bit_exp_iff) auto
qed

lemma drop_bit_80: "j < 8 \<Longrightarrow> drop_bit j (0x80 :: byte) = 2 ^ (7 - j)"
  by (rule bit_word_eqI) (auto simp: bit_drop_80 bit_exp_iff)

lemma and_pos: "(drop_bit j (0x80 :: byte)) AND y = 0 \<longleftrightarrow> \<not> bit y (7 - j)" if "j < 8"
  using and_exp_eq_0_iff_not_bit [of y "7 - j"] by (simp add: drop_bit_80 that and.commute)

lemma and_pos': "y AND drop_bit j (0x80 :: byte) = 0 \<longleftrightarrow> \<not> bit y (7 - j)" if "j < 8"
  using and_pos [OF that, of y] by (simp add: and.commute)

lemma pos_0: "pos 0 = (0x80, 0)"
  by (simp add: pos_def)

lemma pos_Mask:
  "wfNet n \<Longrightarrow> k < 8 * length (IP n) \<Longrightarrow> fst (pos k) AND Mask n ! snd (pos k) = 0 \<longleftrightarrow> netLen n \<le> k"
  using bit_Mask [of n "k div 8" "k mod 8"] by (auto simp: pos_def and_pos)

lemma pos_IP:
  "k < 8 * length (IP n) \<Longrightarrow> IP n ! snd (pos k) AND fst (pos k) \<noteq> 0 \<longleftrightarrow> ipBits (IP n) ! k"
  using nth_ipBits [of "k div 8" "IP n" "k mod 8"] by (auto simp: pos_def and_pos')

lemma pos_next:
  "k < 8 * length (IP n) \<Longrightarrow>
    nextBit n (fst (pos k)) (snd (pos k)) = (if Suc k < 8 * length (IP n) then Some (pos (Suc k)) else None)"
proof -
  assume k: "k < 8 * length (IP n)"
  have step: "drop_bit 1 (drop_bit j (0x80 :: byte)) = (if j = 7 then 0 else drop_bit (Suc j) 0x80)"
    "drop_bit j (0x80 :: byte) \<noteq> 0" if "j < 8" for j
  proof -
    have "drop_bit 8 (0x80 :: byte) = 0" by (rule bit_word_eqI) (simp add: bit_drop_80)
    then show "drop_bit 1 (drop_bit j (0x80 :: byte)) = (if j = 7 then 0 else drop_bit (Suc j) 0x80)"
      by simp
    have "bit (drop_bit j (0x80 :: byte)) (7 - j)" using that by (simp add: bit_drop_80)
    then show "drop_bit j (0x80 :: byte) \<noteq> 0" by auto
  qed
  have km: "8 * (k div 8) + k mod 8 = k" by simp
  show ?thesis
  proof (cases "k mod 8 = 7")
    case True
    then have "length (IP n) \<le> Suc (k div 8) \<longleftrightarrow> \<not> Suc k < 8 * length (IP n)" using km by linarith
    moreover have "Suc k mod 8 = 0" "Suc k div 8 = Suc (k div 8)" using True by (simp_all add: mod_Suc div_Suc)
    ultimately show ?thesis using step(1) [of 7] True by (simp add: nextBit_def pos_def Let_def)
  next
    case False
    have m: "k mod 8 < 8" by simp
    have "Suc k mod 8 = Suc (k mod 8)" "Suc k div 8 = k div 8" using False by (simp_all add: mod_Suc div_Suc)
    moreover have "Suc (k mod 8) < 8" using m False by linarith
    moreover have "Suc k < 8 * length (IP n)"
    proof -
      have "k div 8 < length (IP n)" using k by simp
      moreover have "k mod 8 \<le> 6" using m False by linarith
      ultimately show ?thesis using km by linarith
    qed
    ultimately show ?thesis
      using False step(1) [OF m] step(2) [of "Suc (k mod 8)"]
      by (simp add: nextBit_def pos_def Let_def del: drop_bit_drop_bit)
  qed
qed

subsection \<open>Paths from the root\<close>

fun nodeAt :: "heap \<Rightarrow> addr \<Rightarrow> bool list \<Rightarrow> addr option" where
  "nodeAt h a [] = Some a"
| "nodeAt h a (b # p) = (case child h a b of None \<Rightarrow> None | Some c \<Rightarrow> nodeAt h c p)"

definition valueAt :: "heap \<Rightarrow> addr \<Rightarrow> bool list \<Rightarrow> NetworkEntityInfo option" where
  "valueAt h r p = (case nodeAt h r p of None \<Rightarrow> None | Some a \<Rightarrow> nvalue (h ! a))"

definition entries :: "nRadixTree \<Rightarrow> bool list \<Rightarrow> NetworkEntityInfo option" where
  "entries t = valueAt (nodes t) (root t)"

lemma nodeAt_append:
  "nodeAt h a (p @ q) = (case nodeAt h a p of None \<Rightarrow> None | Some c \<Rightarrow> nodeAt h c q)"
  by (induction p arbitrary: a) (auto split: option.splits)

lemma nodeAt_snoc:
  "nodeAt h a (p @ [b]) = (case nodeAt h a p of None \<Rightarrow> None | Some c \<Rightarrow> child h c b)"
  by (auto simp: nodeAt_append split: option.splits)

lemma nodeAt_prefix: "nodeAt h a p = Some c \<Longrightarrow> prefix q p \<Longrightarrow> \<exists>d. nodeAt h a q = Some d"
  by (auto simp: prefix_def nodeAt_append split: option.splits)

text \<open>The loops over the bits, on the remaining prefix.\<close>

lemma drop_netPrefix:
  "wfNet n \<Longrightarrow> k < netLen n \<Longrightarrow> drop k (netPrefix n) = ipBits (IP n) ! k # drop (Suc k) (netPrefix n)"
  by (simp add: Cons_nth_drop_Suc [symmetric] length_netPrefix) (simp add: netPrefix_def)

lemma descend_found:
  assumes "wfNet n"
  shows "k \<le> netLen n \<Longrightarrow> k < 8 * length (IP n) \<Longrightarrow> nodeAt h a (drop k (netPrefix n)) = Some c \<Longrightarrow>
    \<exists>b i. descend h n a (fst (pos k)) (snd (pos k)) = (c, True, b, i)"
proof (induction "netLen n - k" arbitrary: k a)
  case 0
  then have "drop k (netPrefix n) = []" using assms by (simp add: length_netPrefix)
  with 0 assms show ?case by (subst descend.simps) (simp add: pos_Mask)
next
  case (Suc m)
  then have k: "k < netLen n" by simp
  with Suc.prems obtain d where d: "child h a (ipBits (IP n) ! k) = Some d"
      "nodeAt h d (drop (Suc k) (netPrefix n)) = Some c"
    by (auto simp: drop_netPrefix [OF assms k] split: option.splits)
  show ?case
  proof (cases "Suc k < 8 * length (IP n)")
    case True
    with Suc k d show ?thesis
      by (subst descend.simps) (simp add: pos_Mask assms pos_IP pos_next case_prod_unfold)
  next
    case False
    with Suc.prems k wfNet_netLen [OF assms] have "Suc k = netLen n" by simp
    then have "drop (Suc k) (netPrefix n) = []" using assms by (simp add: length_netPrefix)
    with False Suc k d show ?thesis
      by (subst descend.simps) (simp add: pos_Mask assms pos_IP pos_next)
  qed
qed

lemma descend_missing:
  assumes "wfNet n"
  shows "k \<le> netLen n \<Longrightarrow> nodeAt h a (drop k (netPrefix n)) = None \<Longrightarrow>
    \<exists>j c. k \<le> j \<and> j < netLen n \<and> nodeAt h a (take (j - k) (drop k (netPrefix n))) = Some c
      \<and> child h c (netPrefix n ! j) = None
      \<and> descend h n a (fst (pos k)) (snd (pos k)) = (c, False, fst (pos j), snd (pos j))"
proof (induction "netLen n - k" arbitrary: k a)
  case 0
  then show ?case using assms by (simp add: length_netPrefix)
next
  case (Suc m)
  then have k: "k < netLen n" by simp
  with wfNet_netLen [OF assms] have k8: "k < 8 * length (IP n)" by simp
  have bit: "netPrefix n ! k = ipBits (IP n) ! k" using k by (simp add: netPrefix_def)
  show ?case
  proof (cases "child h a (ipBits (IP n) ! k)")
    case None
    with k k8 bit have "descend h n a (fst (pos k)) (snd (pos k)) = (a, False, fst (pos k), snd (pos k))"
      by (subst descend.simps) (simp add: pos_Mask assms pos_IP)
    with None k bit show ?thesis by (intro exI [of _ k] exI [of _ a]) simp
  next
    case (Some d)
    with Suc.prems have none: "nodeAt h d (drop (Suc k) (netPrefix n)) = None"
      by (simp add: drop_netPrefix [OF assms k])
    then have "drop (Suc k) (netPrefix n) \<noteq> []" by auto
    then have k2: "Suc k < netLen n" using assms by (simp add: length_netPrefix)
    with wfNet_netLen [OF assms] have next8: "Suc k < 8 * length (IP n)" by simp
    have "m = netLen n - Suc k" using Suc.hyps(2) by simp
    from Suc.hyps(1) [OF this, of d] none k2 obtain j c where
      j: "Suc k \<le> j" "j < netLen n" "nodeAt h d (take (j - Suc k) (drop (Suc k) (netPrefix n))) = Some c"
        "child h c (netPrefix n ! j) = None"
        "descend h n d (fst (pos (Suc k))) (snd (pos (Suc k))) = (c, False, fst (pos j), snd (pos j))"
      by (auto simp: less_imp_le)
    moreover have "descend h n a (fst (pos k)) (snd (pos k)) = descend h n d (fst (pos (Suc k))) (snd (pos (Suc k)))"
      using Some k k8 next8 by (subst descend.simps) (simp add: pos_Mask assms pos_IP pos_next case_prod_unfold)
    moreover have "j - k = Suc (j - Suc k)" using j(1) by simp
    ultimately show ?thesis
      using Some k by (intro exI [of _ j] exI [of _ c]) (simp add: drop_netPrefix [OF assms k])
  qed
qed

subsection \<open>The shape of the tree\<close>

text \<open>Every reachable node is allocated and is the parent of its children, and no node is
  reached on two paths.\<close>

definition treeShape :: "heap \<Rightarrow> addr \<Rightarrow> bool" where
  "treeShape h r \<longleftrightarrow> r < length h \<and> nparent (h ! r) = None
     \<and> (\<forall>p a b c. nodeAt h r p = Some a \<longrightarrow> child h a b = Some c \<longrightarrow> c < length h \<and> nparent (h ! c) = Some a)
     \<and> (\<forall>p q a. nodeAt h r p = Some a \<longrightarrow> nodeAt h r q = Some a \<longrightarrow> p = q)"

lemma treeShape_root: "treeShape h r \<Longrightarrow> r < length h \<and> nparent (h ! r) = None"
  by (simp add: treeShape_def)

lemma treeShape_child:
  "treeShape h r \<Longrightarrow> nodeAt h r p = Some a \<Longrightarrow> child h a b = Some c \<Longrightarrow> c < length h \<and> nparent (h ! c) = Some a"
  by (simp add: treeShape_def)

lemma treeShape_inj: "treeShape h r \<Longrightarrow> nodeAt h r p = Some a \<Longrightarrow> nodeAt h r q = Some a \<Longrightarrow> p = q"
  by (simp add: treeShape_def)

lemma treeShape_bound: "treeShape h r \<Longrightarrow> nodeAt h r p = Some a \<Longrightarrow> a < length h"
  by (cases p rule: rev_cases)
    (auto simp: nodeAt_snoc dest: treeShape_root treeShape_child split: option.splits)

lemma treeShape_parent:
  "treeShape h r \<Longrightarrow> nodeAt h r (p @ [b]) = Some c \<Longrightarrow> nparent (h ! c) = nodeAt h r p"
  by (auto simp: nodeAt_snoc dest: treeShape_child split: option.splits)

lemma treeShape_parent_None:
  assumes "treeShape h r" "nodeAt h r p = Some a"
  shows "nparent (h ! a) = None \<longleftrightarrow> p = []"
proof (cases p rule: rev_cases)
  case Nil
  then show ?thesis using assms treeShape_root [of h r] by auto
next
  case (snoc q b)
  then show ?thesis
    using assms treeShape_parent [of h r q b a] nodeAt_prefix [OF assms(2), of q] by auto
qed

text \<open>Updates of the value of a node do not change the shape.\<close>

lemma child_setValue [simp]: "child (setValue a v h) c b = child h c b"
  by (cases "a < length h") (auto simp: child_def setValue_def nth_list_update list_update_beyond)

lemma nparent_setValue [simp]: "nparent (setValue a v h ! c) = nparent (h ! c)"
  by (cases "a < length h") (auto simp: setValue_def nth_list_update list_update_beyond)

lemma length_setValue [simp]: "length (setValue a v h) = length h"
  by (simp add: setValue_def)

lemma nvalue_setValue: "a < length h \<Longrightarrow> nvalue (setValue a v h ! c) = (if c = a then v else nvalue (h ! c))"
  by (simp add: setValue_def nth_list_update)

lemma nodeAt_setValue [simp]: "nodeAt (setValue a v h) c p = nodeAt h c p"
  by (induction p arbitrary: c) (auto split: option.splits)

lemma treeShape_setValue [simp]: "treeShape (setValue a v h) r = treeShape h r"
  by (simp add: treeShape_def)

lemma valueAt_setValue:
  assumes "treeShape h r" "nodeAt h r p = Some a"
  shows "valueAt (setValue a v h) r = (valueAt h r)(p := v)"
proof
  fix q
  have "nodeAt h r q = Some a \<longleftrightarrow> q = p"
    using assms(2) treeShape_inj [OF assms, of q] by blast
  then show "valueAt (setValue a v h) r q = ((valueAt h r)(p := v)) q"
    using treeShape_bound [OF assms] assms(2)
    by (cases "q = p") (auto simp: valueAt_def nvalue_setValue split: option.splits)
qed

text \<open>A new node below a node without that child.\<close>

definition grow :: "heap \<Rightarrow> addr \<Rightarrow> bool \<Rightarrow> heap" where
  "grow h a x = setChild (h @ [\<lparr>nleft = None, nright = None, nparent = Some a, nvalue = None\<rparr>]) a x (Some (length h))"

lemma length_grow [simp]: "length (grow h a x) = Suc (length h)"
  by (simp add: grow_def setChild_def)

lemma child_grow:
  "a < length h \<Longrightarrow> c \<le> length h \<Longrightarrow> child (grow h a x) c y =
    (if c = a \<and> y = x then Some (length h) else if c = length h then None else child h c y)"
  by (auto simp: child_def grow_def setChild_def nth_list_update nth_append)

lemma nparent_grow:
  "a < length h \<Longrightarrow> c \<le> length h \<Longrightarrow> nparent (grow h a x ! c) = (if c = length h then Some a else nparent (h ! c))"
  by (auto simp: grow_def setChild_def nth_list_update nth_append)

lemma nvalue_grow:
  "a < length h \<Longrightarrow> c \<le> length h \<Longrightarrow> nvalue (grow h a x ! c) = (if c = length h then None else nvalue (h ! c))"
  by (auto simp: grow_def setChild_def nth_list_update nth_append)

lemma nodeAt_grow:
  assumes "treeShape h r" "nodeAt h r p = Some a" "child h a x = None"
  shows "nodeAt (grow h a x) r q = (if q = p @ [x] then Some (length h) else nodeAt h r q)"
proof (induction q rule: rev_induct)
  case Nil
  then show ?case by simp
next
  case (snoc y q)
  have a: "a < length h" using treeShape_bound [OF assms(1,2)] .
  have none: "nodeAt h r (p @ [x]) = None" using assms(2,3) by (simp add: nodeAt_snoc)
  show ?case
  proof (cases "nodeAt h r q")
    case None
    with assms(2) have "q \<noteq> p" by auto
    moreover have "child (grow h a x) (length h) y = None" using a by (simp add: child_grow)
    ultimately show ?thesis using snoc None by (simp add: nodeAt_snoc)
  next
    case (Some c)
    with none have "q \<noteq> p @ [x]" by auto
    moreover have "c < length h" using treeShape_bound [OF assms(1) Some] .
    moreover have "c = a \<longleftrightarrow> q = p" using treeShape_inj [OF assms(1,2), of q] assms(2) Some by auto
    ultimately show ?thesis using snoc Some a by (auto simp: nodeAt_snoc child_grow)
  qed
qed

lemma treeShape_grow:
  assumes "treeShape h r" "nodeAt h r p = Some a" "child h a x = None"
  shows "treeShape (grow h a x) r" "valueAt (grow h a x) r = valueAt h r"
    "nodeAt (grow h a x) r (p @ [x]) = Some (length h)"
proof -
  note na = nodeAt_grow [OF assms]
  have a: "a < length h" using treeShape_bound [OF assms(1,2)] .
  have bound: "nodeAt h r q = Some c \<Longrightarrow> c < length h" for q c using treeShape_bound [OF assms(1)] .
  have r: "r < length h" "nparent (h ! r) = None" using treeShape_root [OF assms(1)] by simp_all
  show "treeShape (grow h a x) r"
    unfolding treeShape_def
  proof (intro conjI allI impI)
    fix q c y d
    assume *: "nodeAt (grow h a x) r q = Some c" "child (grow h a x) c y = Some d"
    have c: "nodeAt h r q = Some c \<and> c < length h"
    proof (cases "q = p @ [x]")
      case True
      with * a show ?thesis by (simp add: na child_grow)
    next
      case False
      with * bound [of q c] show ?thesis by (simp add: na)
    qed
    have "child (grow h a x) c y = (if c = a \<and> y = x then Some (length h) else child h c y)"
      using a c by (simp add: child_grow)
    with *(2) c consider "d = length h" "c = a" | "nodeAt h r q = Some c" "child h c y = Some d"
      by (metis option.inject)
    then have "d \<le> length h \<and> nparent (grow h a x ! d) = Some c"
    proof cases
      case 2
      with treeShape_child [OF assms(1) this] a show ?thesis by (simp add: nparent_grow)
    qed (use a in \<open>simp add: nparent_grow\<close>)
    then show "d < length (grow h a x)" "nparent (grow h a x ! d) = Some c" by auto
  next
    fix q q' c
    assume "nodeAt (grow h a x) r q = Some c" "nodeAt (grow h a x) r q' = Some c"
    then show "q = q'"
      using treeShape_inj [OF assms(1), of q c q'] bound [of q c] bound [of q' c] by (auto simp: na split: if_splits)
  qed (use r a in \<open>auto simp: nparent_grow\<close>)
  have "valueAt (grow h a x) r q = valueAt h r q" for q
    using a bound [of q] assms(2,3)
    by (cases "nodeAt h r q") (auto simp: valueAt_def na nvalue_grow nodeAt_snoc)
  then show "valueAt (grow h a x) r = valueAt h r" by blast
  show "nodeAt (grow h a x) r (p @ [x]) = Some (length h)" by (simp add: na)
qed

text \<open>The second loop of the insertion, on the remaining prefix.\<close>

fun growPath :: "heap \<Rightarrow> addr \<Rightarrow> bool list \<Rightarrow> heap \<times> addr" where
  "growPath h a [] = (h, a)"
| "growPath h a (x # p) = growPath (grow h a x) (length h) p"

lemma extend_growPath:
  assumes "wfNet n"
  shows "k \<le> netLen n \<Longrightarrow> k < 8 * length (IP n) \<Longrightarrow>
    extend h n a (fst (pos k)) (snd (pos k)) = growPath h a (drop k (netPrefix n))"
proof (induction "netLen n - k" arbitrary: k a h)
  case 0
  then have "drop k (netPrefix n) = []" using assms by (simp add: length_netPrefix)
  with 0 assms show ?case by (subst extend.simps) (simp add: pos_Mask)
next
  case (Suc m)
  then have k: "k < netLen n" by simp
  show ?case
  proof (cases "Suc k < 8 * length (IP n)")
    case True
    with Suc k show ?thesis
      by (subst extend.simps)
        (simp add: pos_Mask assms pos_IP pos_next case_prod_unfold Let_def drop_netPrefix [OF assms k] flip: grow_def)
  next
    case False
    with Suc.prems k wfNet_netLen [OF assms] have "Suc k = netLen n" by simp
    then have "drop (Suc k) (netPrefix n) = []" using assms by (simp add: length_netPrefix)
    with False Suc k show ?thesis
      by (subst extend.simps)
        (simp add: pos_Mask assms pos_IP pos_next Let_def drop_netPrefix [OF assms k] flip: grow_def)
  qed
qed

lemma growPath_shape:
  assumes "growPath h a q = (h', c)" "treeShape h r" "nodeAt h r p = Some a"
    and "case q of [] \<Rightarrow> True | x # _ \<Rightarrow> child h a x = None"
  shows "treeShape h' r \<and> valueAt h' r = valueAt h r \<and> nodeAt h' r (p @ q) = Some c
    \<and> (\<forall>s. nodeAt h' r s \<noteq> None \<longrightarrow> nodeAt h r s \<noteq> None \<or> prefix s (p @ q))
    \<and> (\<forall>s b. nodeAt h r s = Some b \<longrightarrow> nodeAt h' r s = Some b)"
  using assms
proof (induction q arbitrary: h a p)
  case (Cons x q)
  then have none: "child h a x = None" by simp
  note g = treeShape_grow [OF Cons.prems(2,3) none] and na = nodeAt_grow [OF Cons.prems(2,3) none]
  have "a < length h" using treeShape_bound [OF Cons.prems(2,3)] .
  then have "case q of [] \<Rightarrow> True | y # _ \<Rightarrow> child (grow h a x) (length h) y = None"
    by (auto simp: child_grow split: list.split)
  from Cons.IH [OF _ g(1,3) this] Cons.prems(1)
  have IH: "treeShape h' r" "valueAt h' r = valueAt (grow h a x) r" "nodeAt h' r ((p @ [x]) @ q) = Some c"
    "\<And>s. nodeAt h' r s \<noteq> None \<Longrightarrow> nodeAt (grow h a x) r s \<noteq> None \<or> prefix s ((p @ [x]) @ q)"
    "\<And>s b. nodeAt (grow h a x) r s = Some b \<Longrightarrow> nodeAt h' r s = Some b"
    by auto
  have "nodeAt h r (p @ [x]) = None" using Cons.prems(3) none by (simp add: nodeAt_snoc)
  then have "nodeAt h' r s = Some b" if "nodeAt h r s = Some b" for s b
    using IH(5) [of s b] that by (cases "s = p @ [x]") (auto simp: na)
  moreover have "nodeAt h r s \<noteq> None \<or> prefix s (p @ x # q)" if "nodeAt h' r s \<noteq> None" for s
    using IH(4) [OF that] by (cases "s = p @ [x]") (auto simp: na)
  ultimately show ?case using IH(1-3) g(2) by simp
qed auto

text \<open>Unlinking a leaf.\<close>

definition prune :: "heap \<Rightarrow> addr \<Rightarrow> bool \<Rightarrow> heap" where
  "prune h a x = setChild h a x None"

lemma child_prune: "a < length h \<Longrightarrow> child (prune h a x) c y = (if c = a \<and> y = x then None else child h c y)"
  by (auto simp: child_def prune_def setChild_def nth_list_update)

lemma length_prune [simp]: "length (prune h a x) = length h"
  by (simp add: prune_def setChild_def)

lemma nparent_prune [simp]: "nparent (prune h a x ! c) = nparent (h ! c)"
  by (cases "a < length h") (auto simp: prune_def setChild_def nth_list_update list_update_beyond)

lemma nvalue_prune [simp]: "nvalue (prune h a x ! c) = nvalue (h ! c)"
  by (cases "a < length h") (auto simp: prune_def setChild_def nth_list_update list_update_beyond)

lemma nodeAt_prune:
  assumes "treeShape h r" "nodeAt h r p = Some a" "nodeAt h r (p @ [x]) = Some c"
    and leaf: "\<And>y. child h c y = None"
  shows "nodeAt (prune h a x) r q = (if q = p @ [x] then None else nodeAt h r q)"
proof (induction q rule: rev_induct)
  case Nil
  then show ?case by simp
next
  case (snoc y q)
  have a: "a < length h" using treeShape_bound [OF assms(1,2)] .
  show ?case
  proof (cases "q = p @ [x]")
    case True
    have "nodeAt h r (q @ [y]) = None" using True assms(3) leaf by (simp only: nodeAt_snoc) simp
    moreover have "nodeAt (prune h a x) r (q @ [y]) = None" using True snoc by (simp only: nodeAt_snoc) simp
    ultimately show ?thesis by simp
  next
    case False
    show ?thesis
    proof (cases "nodeAt h r q")
      case None
      with snoc False assms(2) show ?thesis by (auto simp: nodeAt_snoc)
    next
      case (Some d)
      then have "d = a \<longleftrightarrow> q = p" using treeShape_inj [OF assms(1,2), of q] assms(2) by auto
      with Some snoc False a show ?thesis by (auto simp: nodeAt_snoc child_prune)
    qed
  qed
qed

lemma treeShape_prune:
  assumes "treeShape h r" "nodeAt h r p = Some a" "nodeAt h r (p @ [x]) = Some c"
    and "\<And>y. child h c y = None" "nvalue (h ! c) = None"
  shows "treeShape (prune h a x) r" "valueAt (prune h a x) r = valueAt h r"
proof -
  note na = nodeAt_prune [OF assms(1-4)]
  have a: "a < length h" using treeShape_bound [OF assms(1,2)] .
  show "treeShape (prune h a x) r"
    unfolding treeShape_def
  proof (intro conjI allI impI)
    fix q d y e
    assume "nodeAt (prune h a x) r q = Some d" "child (prune h a x) d y = Some e"
    then have "nodeAt h r q = Some d" "child h d y = Some e"
      using a by (auto simp: na child_prune split: if_splits)
    from treeShape_child [OF assms(1) this]
    show "e < length (prune h a x)" "nparent (prune h a x ! e) = Some d" by simp_all
  next
    fix q q' d
    assume "nodeAt (prune h a x) r q = Some d" "nodeAt (prune h a x) r q' = Some d"
    then show "q = q'" using treeShape_inj [OF assms(1), of q d q'] by (auto simp: na split: if_splits)
  qed (use treeShape_root [OF assms(1)] in simp_all)
  have "valueAt (prune h a x) r q = valueAt h r q" for q
    using assms(3,5) by (auto simp: valueAt_def na split: option.splits)
  then show "valueAt (prune h a x) r = valueAt h r" by blast
qed

text \<open>A node lies above an entry.\<close>

definition covered :: "heap \<Rightarrow> addr \<Rightarrow> bool list \<Rightarrow> bool" where
  "covered h r p \<longleftrightarrow> (\<exists>q. valueAt h r (p @ q) \<noteq> None)"

lemma covered_prefix: "covered h r p \<Longrightarrow> prefix q p \<Longrightarrow> covered h r q"
  by (auto simp: covered_def prefix_def) blast

lemma removeRecursively_spec:
  assumes "treeShape h r" "nodeAt h r p = Some a" "valueAt h r [] \<noteq> None"
    and "\<And>q. nodeAt h r q \<noteq> None \<Longrightarrow> covered h r q \<or> prefix q p"
  shows "\<exists>h'. removeRecursively h a = Some h' \<and> treeShape h' r \<and> valueAt h' r = valueAt h r
    \<and> (\<forall>q. nodeAt h' r q \<noteq> None \<longrightarrow> covered h' r q)
    \<and> (\<forall>q c. nodeAt h' r q = Some c \<longrightarrow> nodeAt h r q = Some c)"
  using assms
proof (induction p arbitrary: h a rule: rev_induct)
  case Nil
  then have "nparent (h ! a) = None" using treeShape_root by auto
  moreover have "covered h r []" using Nil.prems(3) by (auto simp: covered_def intro: exI [of _ "[]"])
  then have "\<forall>q. nodeAt h r q \<noteq> None \<longrightarrow> covered h r q" using Nil.prems(4) by (auto dest: covered_prefix)
  ultimately show ?case using Nil.prems by (subst removeRecursively.simps) simp
next
  case (snoc x p)
  from snoc.prems(2) obtain d where d: "nodeAt h r p = Some d" "child h d x = Some a"
    by (auto simp: nodeAt_snoc split: option.splits)
  have parent: "nparent (h ! a) = Some d" using treeShape_child [OF snoc.prems(1) d] by simp
  show ?case
  proof (cases "nleft (h ! a) = None \<and> nright (h ! a) = None \<and> nvalue (h ! a) = None")
    case True
    then have leaf: "child h a y = None" for y by (simp add: child_def)
    have side: "(nright (h ! d) = Some a) = x"
    proof (cases x)
      case False
      have "nodeAt h r (p @ [True]) = Some a" if "nright (h ! d) = Some a"
        using that d by (simp add: nodeAt_snoc child_def)
      with treeShape_inj [OF snoc.prems(1,2)] False show ?thesis by force
    qed (use d in \<open>simp add: child_def\<close>)
    note pr = treeShape_prune [OF snoc.prems(1) d(1) snoc.prems(2) leaf] True
    note na = nodeAt_prune [OF snoc.prems(1) d(1) snoc.prems(2) leaf]
    have "covered (prune h d x) r q \<or> prefix q p" if "nodeAt (prune h d x) r q \<noteq> None" for q
      using that snoc.prems(4) [of q] pr by (auto simp: na covered_def split: if_splits)
    with snoc.IH [of "prune h d x" d] pr snoc.prems(3) d(1) obtain h' where
      h': "removeRecursively (prune h d x) d = Some h'" "treeShape h' r" "valueAt h' r = valueAt h r"
        "\<forall>q. nodeAt h' r q \<noteq> None \<longrightarrow> covered h' r q"
        "\<forall>q c. nodeAt h' r q = Some c \<longrightarrow> nodeAt (prune h d x) r q = Some c"
      by (auto simp: na)
    from h'(5) have "\<forall>q c. nodeAt h' r q = Some c \<longrightarrow> nodeAt h r q = Some c" by (metis na option.discI)
    with h' show ?thesis
      using True parent side by (subst removeRecursively.simps) (simp add: prune_def)
  next
    case False
    have "covered h r (p @ [x])"
    proof (cases "nvalue (h ! a)")
      case None
      moreover have "child h a True = nright (h ! a)" "child h a False = nleft (h ! a)" by (simp_all add: child_def)
      ultimately obtain y c where "child h a y = Some c" using False by (metis not_None_eq)
      then have "nodeAt h r (p @ [x] @ [y]) \<noteq> None"
        using snoc.prems(2) by (simp only: append_assoc [symmetric] nodeAt_snoc) simp
      with snoc.prems(4) [of "p @ [x] @ [y]"] have "covered h r (p @ [x] @ [y])" by (auto simp: prefix_def)
      then show ?thesis by (rule covered_prefix) simp
    qed (use snoc.prems(2) in \<open>auto simp: covered_def valueAt_def intro!: exI [of _ "[]"]\<close>)
    then have "\<forall>q. nodeAt h r q \<noteq> None \<longrightarrow> covered h r q"
      using snoc.prems(4) covered_prefix by blast
    with False parent snoc.prems show ?thesis by (subst removeRecursively.simps) auto
  qed
qed

subsection \<open>The invariant of the tree\<close>

definition treeOK :: "nRadixTree \<Rightarrow> bool" where
  "treeOK t \<longleftrightarrow> treeShape (nodes t) (root t)
     \<and> family t \<noteq> InvalidFamily
     \<and> (\<forall>p. nodeAt (nodes t) (root t) p \<noteq> None \<longrightarrow> covered (nodes t) (root t) p)
     \<and> entries t [] = InternetProtoWithDesc (family t)
     \<and> (\<forall>p e. entries t p = Some e \<longrightarrow> (\<exists>n. parseCIDR (entityCidr e) = Some n
           \<and> 8 * length (IP n) = familyBits (family t) \<and> netPrefix n = p))
     \<and> wf_map (valueNodes t)
     \<and> (\<forall>key a. mget (valueNodes t) key = Some a \<longleftrightarrow>
           (\<exists>p e. nodeAt (nodes t) (root t) p = Some a \<and> entries t p = Some e \<and> ne_Id e = key))"

lemma treeOK_entry:
  "treeOK t \<Longrightarrow> entries t p = Some e \<Longrightarrow> \<exists>n. parseCIDR (entityCidr e) = Some n
    \<and> 8 * length (IP n) = familyBits (family t) \<and> netPrefix n = p"
  by (simp add: treeOK_def)

lemma treeOK_covered:
  "treeOK t \<Longrightarrow> nodeAt (nodes t) (root t) p \<noteq> None \<Longrightarrow> \<exists>q. entries t (p @ q) \<noteq> None"
  by (simp add: treeOK_def covered_def entries_def)

text \<open>The network of an entity within a family, as a prefix.\<close>

definition entityPrefix :: "Family \<Rightarrow> NetworkEntityInfo \<Rightarrow> bool list option" where
  "entityPrefix f e =
     (case parseCIDR (entityCidr e) of None \<Rightarrow> None
      | Some n \<Rightarrow> if 8 * length (IP n) = familyBits f then Some (netPrefix n) else None)"

lemma internet_prefix:
  "InternetProtoWithDesc f = Some e \<Longrightarrow> f \<noteq> InvalidFamily \<and> entityPrefix f e = Some []
    \<and> ne_Id e = InternetExternalSourceID"
  by (cases f)
    (auto simp: InternetProtoWithDesc_def entityPrefix_def entityCidr_def ipv4InternetCIDR_def
      ipv6InternetCIDR_def ip_eval familyBits_def netPrefix_def netLen_def maskSize_def)

text \<open>The tree built by the constructor holds the Internet at the empty prefix.\<close>

lemma newDefaultNRadixTree_OK:
  assumes "f \<noteq> InvalidFamily"
  shows "treeOK (newDefaultNRadixTree f)
    \<and> entries (newDefaultNRadixTree f) = [[] \<mapsto> the (InternetProtoWithDesc f)]"
proof -
  let ?t = "newDefaultNRadixTree f"
  obtain e where e: "InternetProtoWithDesc f = Some e"
    using assms by (cases f) (auto simp: InternetProtoWithDesc_def)
  have t: "nodes ?t = [\<lparr>nleft = None, nright = None, nparent = None, nvalue = Some e\<rparr>]" "root ?t = 0"
      "family ?t = f" "valueNodes ?t = [(ne_Id e, 0)]"
    by (simp_all add: newDefaultNRadixTree_def e)
  have na: "nodeAt (nodes ?t) 0 p = (if p = [] then Some 0 else None)" for p
    by (cases p) (simp_all add: t child_def)
  have ents: "entries ?t = [[] \<mapsto> e]"
    by (rule ext) (simp add: entries_def valueAt_def t(2) na, simp add: t(1))
  have "treeShape (nodes ?t) 0"
    by (auto simp: treeShape_def na split: if_splits) (auto simp: t child_def split: if_splits)
  moreover have "covered (nodes ?t) 0 p" if "nodeAt (nodes ?t) 0 p \<noteq> None" for p
    using that ents by (auto simp: covered_def na entries_def t(2) split: if_splits)
  moreover have "mget (valueNodes ?t) key = Some a \<longleftrightarrow>
      (\<exists>p v. nodeAt (nodes ?t) 0 p = Some a \<and> entries ?t p = Some v \<and> ne_Id v = key)" for key a
    by (auto simp: na ents t(4) split: if_splits)
  ultimately show ?thesis
    using ents internet_prefix [OF e] e assms
    by (auto simp: treeOK_def t entityPrefix_def split: option.splits if_splits)
qed

subsection \<open>Insertion\<close>

text \<open>An entity is stored at a node on its prefix of a heap that only has more nodes on that prefix.\<close>

lemma store_entry:
  assumes ok: "treeOK t" and shape: "treeShape h (root t)" and vals: "valueAt h (root t) = entries t"
    and c: "nodeAt h (root t) p = Some c" and free: "entries t p = None"
    and cover: "\<And>s. nodeAt h (root t) s \<noteq> None \<Longrightarrow> nodeAt (nodes t) (root t) s \<noteq> None \<or> prefix s p"
    and keep: "\<And>s b. nodeAt (nodes t) (root t) s = Some b \<Longrightarrow> nodeAt h (root t) s = Some b"
    and e: "entityPrefix (family t) e = Some p" "\<not> radixExists t (ne_Id e)"
    and t': "t' = t\<lparr>nodes := setValue c (Some e) h, valueNodes := mput (ne_Id e) c (valueNodes t)\<rparr>"
  shows "treeOK t' \<and> entries t' = (entries t)(p \<mapsto> e)"
proof -
  have sel: "nodes t' = setValue c (Some e) h" "root t' = root t" "family t' = family t"
    "valueNodes t' = mput (ne_Id e) c (valueNodes t)" by (simp_all add: t')
  have ents: "entries t' = (entries t)(p \<mapsto> e)"
    using valueAt_setValue [OF shape c, of "Some e"] vals by (simp add: entries_def sel)
  have "p \<noteq> []" using ok free internet_prefix by (auto simp: treeOK_def InternetProtoWithDesc_def split: Family.splits)
  moreover have "covered (nodes t') (root t) s" if "nodeAt (nodes t') (root t) s \<noteq> None" for s
  proof -
    from that have "covered (nodes t) (root t) s \<or> prefix s p"
      using ok cover [of s] by (auto simp: sel treeOK_def)
    then show ?thesis
      using ents by (auto simp: covered_def entries_def sel prefix_def fun_eq_iff)
  qed
  moreover have "mget (valueNodes t') key = Some a \<longleftrightarrow>
      (\<exists>s v. nodeAt (nodes t') (root t) s = Some a \<and> entries t' s = Some v \<and> ne_Id v = key)" for key a
  proof -
    have old: "(\<exists>s v. nodeAt h (root t) s = Some a \<and> entries t s = Some v \<and> ne_Id v = k)
        \<longleftrightarrow> mget (valueNodes t) k = Some a" for k
    proof -
      have "nodeAt h (root t) s = nodeAt (nodes t) (root t) s" if "entries t s \<noteq> None" for s
        using that keep [of s] by (auto simp: entries_def valueAt_def split: option.splits)
      then show ?thesis using ok unfolding treeOK_def by (metis option.discI)
    qed
    show ?thesis
    proof (cases "key = ne_Id e")
      case True
      have "nodeAt h (root t) s = Some a \<and> entries t s = Some v \<Longrightarrow> ne_Id v \<noteq> ne_Id e" for s v
        using old [of "ne_Id e"] e(2) by (auto simp: radixExists_def)
      with True c show ?thesis by (auto simp: ents sel)
    next
      case False
      have "(\<exists>s v. nodeAt (nodes t') (root t) s = Some a \<and> entries t' s = Some v \<and> ne_Id v = key)
        \<longleftrightarrow> (\<exists>s v. nodeAt h (root t) s = Some a \<and> entries t s = Some v \<and> ne_Id v = key)"
        using False free by (simp add: ents sel) (metis option.distinct(1))
      with old [of key] False show ?thesis by (simp add: sel)
    qed
  qed
  moreover have "\<exists>n. parseCIDR (entityCidr v) = Some n \<and> 8 * length (IP n) = familyBits (family t) \<and> netPrefix n = s"
    if "entries t' s = Some v" for s v
    using that ok e(1) by (auto simp: ents treeOK_def entityPrefix_def split: if_splits option.splits)
  ultimately show ?thesis
    using ok shape ents by (simp add: treeOK_def sel)
qed

lemma validateEntity_Inr:
  "validateEntity t e = Inr n \<Longrightarrow>
    ne_Id e \<noteq> [] \<and> IsExternal e \<and> wfNet n \<and> entityPrefix (family t) e = Some (netPrefix n)"
  by (auto simp: validateEntity_def entityPrefix_def wfNet_def maskSize_cidrMask
      dest!: parseCIDR_wf split: if_splits option.splits)

lemma validateEntity_Inl:
  "validateEntity t e = Inl err \<Longrightarrow> \<not> (ne_Id e \<noteq> [] \<and> IsExternal e \<and> entityPrefix (family t) e \<noteq> None)"
  by (auto simp: validateEntity_def entityPrefix_def wfNet_def maskSize_cidrMask
      dest!: parseCIDR_wf split: if_splits option.splits)

lemma insertNoValidate_spec:
  assumes ok: "treeOK t" and n: "wfNet n" and e: "entityPrefix (family t) e = Some (netPrefix n)"
    and fresh: "\<not> radixExists t (ne_Id e)"
  shows "case entries t (netPrefix n) of
      Some v \<Rightarrow> insertNoValidate t n e = Inl (ErrConflict (entityCidr e) (entityCidr v))
    | None \<Rightarrow> \<exists>t'. insertNoValidate t n e = Inr t' \<and> treeOK t' \<and> family t' = family t
        \<and> entries t' = (entries t)(netPrefix n \<mapsto> e)"
proof -
  let ?p = "netPrefix n"
  have shape: "treeShape (nodes t) (root t)" using ok by (simp add: treeOK_def)
  have len: "0 < 8 * length (IP n)" using n by (auto simp: wfNet_def)
  show ?thesis
  proof (cases "nodeAt (nodes t) (root t) ?p")
    case (Some c)
    then obtain b i where d: "descend (nodes t) n (root t) 0x80 0 = (c, True, b, i)"
      using descend_found [OF n, of 0 "nodes t" "root t" c] len by (auto simp: pos_0)
    show ?thesis
    proof (cases "entries t ?p")
      case None
      with Some have "nvalue (nodes t ! c) = None" by (simp add: entries_def valueAt_def)
      with d have "insertNoValidate t n e
          = Inr (t\<lparr>nodes := setValue c (Some e) (nodes t), valueNodes := mput (ne_Id e) c (valueNodes t)\<rparr>)"
        by (simp add: insertNoValidate_def)
      with store_entry [OF ok shape entries_def [symmetric] Some None _ _ e fresh refl] None show ?thesis by simp
    qed (use Some d in \<open>simp add: insertNoValidate_def entries_def valueAt_def\<close>)
  next
    case None
    then obtain j c where j: "j < netLen n" "nodeAt (nodes t) (root t) (take j ?p) = Some c"
        "child (nodes t) c (?p ! j) = None"
        "descend (nodes t) n (root t) 0x80 0 = (c, False, fst (pos j), snd (pos j))"
      using descend_missing [OF n, of 0 "nodes t" "root t"] by (auto simp: pos_0)
    have free: "entries t ?p = None" using None by (simp add: entries_def valueAt_def)
    obtain h c' where g: "growPath (nodes t) c (drop j ?p) = (h, c')" by fastforce
    have ext: "extend (nodes t) n c (fst (pos j)) (snd (pos j)) = (h, c')"
      using extend_growPath [OF n, of j "nodes t" c] j(1) wfNet_netLen [OF n] g by simp
    have "case drop j ?p of [] \<Rightarrow> True | x # _ \<Rightarrow> child (nodes t) c x = None"
      using j(1,3) n Cons_nth_drop_Suc [of j ?p, symmetric] by (simp add: length_netPrefix)
    from growPath_shape [OF g shape j(2) this]
    have gs: "treeShape h (root t)" "valueAt h (root t) = entries t" "nodeAt h (root t) ?p = Some c'"
      "\<And>s. nodeAt h (root t) s \<noteq> None \<Longrightarrow> nodeAt (nodes t) (root t) s \<noteq> None \<or> prefix s ?p"
      "\<And>s b. nodeAt (nodes t) (root t) s = Some b \<Longrightarrow> nodeAt h (root t) s = Some b"
      by (simp_all add: entries_def)
    from j(4) ext have "insertNoValidate t n e
        = Inr (t\<lparr>nodes := setValue c' (Some e) h, valueNodes := mput (ne_Id e) c' (valueNodes t)\<rparr>)"
      by (cases "pos j") (simp add: insertNoValidate_def)
    with store_entry [OF ok gs(1-3) free gs(4,5) e fresh refl] free show ?thesis by simp
  qed
qed

text \<open>What an insertion needs: an identifier, an external type, and a network of the family.\<close>

definition insertable :: "Family \<Rightarrow> NetworkEntityInfo \<Rightarrow> bool" where
  "insertable f e \<longleftrightarrow> ne_Id e \<noteq> [] \<and> IsExternal e \<and> entityPrefix f e \<noteq> None"

lemma radixInsert_spec:
  assumes ok: "treeOK t" and fresh: "\<not> radixExists t (ne_Id e)"
  shows "if insertable (family t) e \<and> entries t (the (entityPrefix (family t) e)) = None
    then \<exists>t'. radixInsert t e = Inr t' \<and> treeOK t' \<and> family t' = family t
      \<and> entries t' = (entries t)(the (entityPrefix (family t) e) \<mapsto> e)
    else \<exists>err. radixInsert t e = Inl err"
proof (cases "validateEntity t e")
  case (Inl err)
  with validateEntity_Inl [OF Inl] show ?thesis by (auto simp: radixInsert_def insertNoLock_def insertable_def)
next
  case (Inr n)
  from validateEntity_Inr [OF Inr] insertNoValidate_spec [OF ok _ _ fresh, of n] Inr show ?thesis
    by (auto simp: radixInsert_def insertNoLock_def insertable_def split: option.splits)
qed

subsection \<open>Removal\<close>

text \<open>The identifiers in the map are those of the entries.\<close>

lemma mget_entry:
  "treeOK t \<Longrightarrow> mget (valueNodes t) key = Some a \<longleftrightarrow>
    (\<exists>p e. nodeAt (nodes t) (root t) p = Some a \<and> entries t p = Some e \<and> ne_Id e = key)"
  by (simp add: treeOK_def)

lemma entry_node:
  "entries t p = Some e \<Longrightarrow> \<exists>a. nodeAt (nodes t) (root t) p = Some a \<and> nvalue (nodes t ! a) = Some e"
  by (auto simp: entries_def valueAt_def split: option.splits)

lemma radixExists_iff: "treeOK t \<Longrightarrow> radixExists t key \<longleftrightarrow> (\<exists>p e. entries t p = Some e \<and> ne_Id e = key)"
  using entry_node by (fastforce simp: radixExists_def mget_entry)

text \<open>An identifier belongs to one entry only.\<close>

lemma entries_key_inj:
  assumes ok: "treeOK t" and "entries t p = Some e" "entries t q = Some e'" "ne_Id e = ne_Id e'"
  shows "p = q"
proof -
  from assms obtain a b where ab: "nodeAt (nodes t) (root t) p = Some a" "nodeAt (nodes t) (root t) q = Some b"
    using entry_node by meson
  with assms mget_entry [OF ok, of "ne_Id e"] have "mget (valueNodes t) (ne_Id e) = Some a"
    "mget (valueNodes t) (ne_Id e) = Some b" by metis+
  with ab ok show ?thesis by (auto simp: treeOK_def dest: treeShape_inj)
qed

lemma radixRemove_spec:
  assumes ok: "treeOK t"
  shows "\<exists>t'. radixRemove t key = Some t' \<and> treeOK t' \<and> family t' = family t
    \<and> entries t' = (\<lambda>p. case entries t p of None \<Rightarrow> None
        | Some e \<Rightarrow> if p \<noteq> [] \<and> ne_Id e = key then None else Some e)"
proof (cases "mget (valueNodes t) key")
  case None
  then have "entries t = (\<lambda>p. case entries t p of None \<Rightarrow> None
        | Some e \<Rightarrow> if p \<noteq> [] \<and> ne_Id e = key then None else Some e)"
    using radixExists_iff [OF ok, of key] by (auto simp: radixExists_def fun_eq_iff split: option.splits)
  with None ok show ?thesis by (simp add: radixRemove_def)
next
  case (Some a)
  let ?h = "setValue a None (nodes t)"
  have shape: "treeShape (nodes t) (root t)" using ok by (simp add: treeOK_def)
  from Some obtain p e where p: "nodeAt (nodes t) (root t) p = Some a" "entries t p = Some e" "ne_Id e = key"
    by (auto simp: mget_entry [OF ok])
  have uniq: "entries t q = Some e' \<Longrightarrow> ne_Id e' = key \<Longrightarrow> q = p" for q e'
    using entries_key_inj [OF ok _ p(2)] p(3) by simp
  show ?thesis
  proof (cases "p = []")
    case True
    then have "nparent (nodes t ! a) = None" using treeShape_parent_None [OF shape p(1)] by simp
    moreover have "entries t = (\<lambda>p. case entries t p of None \<Rightarrow> None
        | Some e \<Rightarrow> if p \<noteq> [] \<and> ne_Id e = key then None else Some e)"
      using uniq True by (auto simp: fun_eq_iff split: option.splits)
    ultimately show ?thesis using Some ok by (simp add: radixRemove_def)
  next
    case False
    then have parent: "nparent (nodes t ! a) \<noteq> None" using treeShape_parent_None [OF shape p(1)] by simp
    have vals: "valueAt ?h (root t) = (entries t)(p := None)"
      using valueAt_setValue [OF shape p(1), of None] by (simp add: entries_def)
    have "covered ?h (root t) q \<or> prefix q p" if node: "nodeAt ?h (root t) q \<noteq> None" for q
    proof -
      from node treeOK_covered [OF ok, of q] obtain s where "entries t (q @ s) \<noteq> None" by auto
      then show ?thesis by (cases "q @ s = p") (auto simp: covered_def vals)
    qed
    moreover have root: "entries t [] \<noteq> None"
      using ok by (auto simp: treeOK_def InternetProtoWithDesc_def split: Family.splits)
    ultimately obtain h where h: "removeRecursively ?h a = Some h" "treeShape h (root t)"
        "valueAt h (root t) = (entries t)(p := None)" "\<forall>q. nodeAt h (root t) q \<noteq> None \<longrightarrow> covered h (root t) q"
        "\<forall>q c. nodeAt h (root t) q = Some c \<longrightarrow> nodeAt (nodes t) (root t) q = Some c"
      using removeRecursively_spec [of ?h "root t" p a] shape p(1) vals False by auto
    let ?t = "t\<lparr>nodes := h, valueNodes := mdel key (valueNodes t)\<rparr>"
    have ents: "entries ?t = (entries t)(p := None)" using h(3) by (simp add: entries_def)
    have "mget (valueNodes ?t) k = Some c \<longleftrightarrow>
        (\<exists>s v. nodeAt h (root t) s = Some c \<and> entries ?t s = Some v \<and> ne_Id v = k)" for k c
    proof -
      have same: "nodeAt h (root t) s = nodeAt (nodes t) (root t) s" if "entries ?t s = Some v" for s v
        using that h(5) by (auto simp: entries_def valueAt_def split: option.splits)
      show ?thesis
      proof (cases "k = key")
        case True
        with uniq show ?thesis by (auto simp: ents)
      next
        case False
        with p(3) have "(\<exists>s v. nodeAt h (root t) s = Some c \<and> entries ?t s = Some v \<and> ne_Id v = k)
          \<longleftrightarrow> (\<exists>s v. nodeAt (nodes t) (root t) s = Some c \<and> entries t s = Some v \<and> ne_Id v = k)"
          using same p(2) by (metis ents fun_upd_apply option.discI option.inject)
        with False show ?thesis by (simp add: mget_entry [OF ok])
      qed
    qed
    then have "treeOK ?t" using ok h(2,4) ents False by (simp add: treeOK_def)
    moreover have "(entries t)(p := None) = (\<lambda>p. case entries t p of None \<Rightarrow> None
        | Some e \<Rightarrow> if p \<noteq> [] \<and> ne_Id e = key then None else Some e)"
    proof
      fix q
      show "((entries t)(p := None)) q = (case entries t q of None \<Rightarrow> None
        | Some e \<Rightarrow> if q \<noteq> [] \<and> ne_Id e = key then None else Some e)"
      proof (cases "q = p")
        case False
        with uniq [of q] show ?thesis by (cases "entries t q") auto
      qed (use p False in simp)
    qed
    ultimately show ?thesis using Some parent h(1) ents by (auto simp: radixRemove_def)
  qed
qed

end
