(* ===== verification/Radix_Queries.thy ===== *)
theory Radix_Queries
  imports Radix_Facts
begin

text \<open>
  The queries of a network tree, stated on its \<open>entries\<close>: the smallest supernet of a network
  that satisfies a predicate, the largest subnets of a network, and the lookup of an
  identifier. All walks return, because the depth of the tree is bounded by the bits of an
  address (\<open>treeOK_depth\<close>).
\<close>

subsection \<open>Depth\<close>

lemma entries_length: "treeOK t \<Longrightarrow> entries t p = Some e \<Longrightarrow> length p \<le> familyBits (family t)"
  using treeOK_entry [of t p e] parseCIDR_wf wfNet_netLen length_netPrefix by metis

lemma treeOK_depth: "treeOK t \<Longrightarrow> nodeAt (nodes t) (root t) p = Some a \<Longrightarrow> length p \<le> familyBits (family t)"
  using treeOK_covered [of t p] entries_length [of t] by fastforce

lemma treeOK_shape: "treeOK t \<Longrightarrow> treeShape (nodes t) (root t)"
  by (simp add: treeOK_def)

lemma treeOK_root: "treeOK t \<Longrightarrow> \<exists>e. entries t [] = Some e \<and> ne_Id e = InternetExternalSourceID"
  by (auto simp: treeOK_def InternetProtoWithDesc_def split: Family.splits)

subsection \<open>Supernets\<close>

text \<open>\<open>r\<close> is the entity of the longest proper prefix of \<open>p\<close> that has a matching one.\<close>

definition matches :: "(bool list \<Rightarrow> NetworkEntityInfo option) \<Rightarrow> (NetworkEntityInfo \<Rightarrow> bool) option \<Rightarrow> bool list \<Rightarrow> bool" where
  "matches M pred q \<longleftrightarrow> (\<exists>v. M q = Some v \<and> predOk pred v)"

definition smallestSupernet ::
    "(bool list \<Rightarrow> NetworkEntityInfo option) \<Rightarrow> (NetworkEntityInfo \<Rightarrow> bool) option \<Rightarrow> bool list \<Rightarrow>
      NetworkEntityInfo option \<Rightarrow> bool" where
  "smallestSupernet M pred p r \<longleftrightarrow>
     (case r of None \<Rightarrow> \<forall>q. strict_prefix q p \<longrightarrow> \<not> matches M pred q
      | Some v \<Rightarrow> \<exists>q. strict_prefix q p \<and> M q = Some v \<and> predOk pred v
          \<and> (\<forall>q'. strict_prefix q' p \<longrightarrow> strict_prefix q q' \<longrightarrow> \<not> matches M pred q'))"

lemma strict_prefix_snoc: "strict_prefix q (p @ [x]) \<longleftrightarrow> q = p \<or> strict_prefix q p"
  by (auto simp: strict_prefix_def)

lemma smallestSupernet_snoc:
  "smallestSupernet M pred (p @ [x]) r \<longleftrightarrow>
     (if matches M pred p then r = M p else smallestSupernet M pred p r)"
  by (auto simp: smallestSupernet_def strict_prefix_snoc matches_def split: option.splits)

lemma smallestSupernet_Nil: "smallestSupernet M pred [] r \<longleftrightarrow> r = None"
  by (auto simp: smallestSupernet_def split: option.splits)

lemma smallestSupernet_unique:
  "smallestSupernet M pred p r \<Longrightarrow> smallestSupernet M pred p r' \<Longrightarrow> r = r'"
  by (induction p rule: rev_induct) (auto simp: smallestSupernet_snoc smallestSupernet_Nil split: if_splits)

lemma getMatchingParent_spec:
  assumes shape: "treeShape h r"
  shows "nodeAt h r p = Some a \<Longrightarrow>
    \<exists>m. getMatchingParent h (Some a) pred = Some m
      \<and> smallestSupernet (valueAt h r) pred p (case m of None \<Rightarrow> None | Some b \<Rightarrow> nvalue (h ! b))
      \<and> (\<forall>b. m = Some b \<longrightarrow> nvalue (h ! b) \<noteq> None)"
proof (induction p arbitrary: a rule: rev_induct)
  case Nil
  then have "nparent (h ! a) = None" using treeShape_root [OF shape] by simp
  then show ?case by (subst getMatchingParent.simps) (simp add: smallestSupernet_Nil)
next
  case (snoc x p)
  then obtain d where d: "nodeAt h r p = Some d" "nparent (h ! a) = Some d"
    using treeShape_parent [OF shape snoc.prems] nodeAt_prefix [OF snoc.prems, of p] by auto
  have val: "valueAt h r p = nvalue (h ! d)" by (simp add: valueAt_def d)
  show ?case
  proof (cases "matches (valueAt h r) pred p")
    case True
    then obtain v where "nvalue (h ! d) = Some v" "predOk pred v" by (auto simp: matches_def val)
    with True d show ?thesis
      by (subst getMatchingParent.simps) (auto simp: smallestSupernet_snoc val)
  next
    case False
    then have "getMatchingParent h (Some a) pred = getMatchingParent h (Some d) pred"
      by (subst getMatchingParent.simps) (auto simp: d matches_def val split: option.splits)
    with snoc.IH [OF d(1)] False show ?thesis by (simp add: smallestSupernet_snoc)
  qed
qed

text \<open>The loop of \<open>findCIDR\<close> on the remaining prefix.\<close>

fun lookupPath :: "heap \<Rightarrow> addr \<Rightarrow> addr option \<Rightarrow> bool list \<Rightarrow> addr option" where
  "lookupPath h a ret [] = (if nvalue (h ! a) \<noteq> None then Some a else ret)"
| "lookupPath h a ret (x # p) =
     (let ret' = (if nvalue (h ! a) \<noteq> None then Some a else ret)
      in case child h a x of None \<Rightarrow> ret' | Some c \<Rightarrow> lookupPath h c ret' p)"

lemma findCIDR_lookupPath:
  assumes "wfNet n"
  shows "k \<le> netLen n \<Longrightarrow> k < 8 * length (IP n) \<Longrightarrow>
    findCIDR h n a (fst (pos k)) (snd (pos k)) ret = lookupPath h a ret (drop k (netPrefix n))"
proof (induction "netLen n - k" arbitrary: k a ret)
  case 0
  then have "drop k (netPrefix n) = []" using assms by (simp add: length_netPrefix)
  moreover have "Mask n ! snd (pos k) AND fst (pos k) = 0"
    using 0 pos_Mask [OF assms] by (simp add: and.commute)
  ultimately show ?case by (subst findCIDR.simps) (simp add: Let_def split: option.split)
next
  case (Suc m)
  then have k: "k < netLen n" by simp
  have nz: "Mask n ! snd (pos k) AND fst (pos k) \<noteq> 0"
    using k Suc.prems pos_Mask [OF assms, of k] by (simp add: and.commute)
  show ?case
  proof (cases "Suc k < 8 * length (IP n)")
    case True
    with Suc k nz show ?thesis
      by (subst findCIDR.simps)
        (simp add: pos_IP pos_next case_prod_unfold Let_def drop_netPrefix [OF assms k] split: option.split)
  next
    case False
    with Suc.prems k wfNet_netLen [OF assms] have "Suc k = netLen n" by simp
    then have "drop (Suc k) (netPrefix n) = []" using assms by (simp add: length_netPrefix)
    with False Suc k nz show ?thesis
      by (subst findCIDR.simps)
        (simp add: pos_IP pos_next Let_def drop_netPrefix [OF assms k] split: option.split)
  qed
qed

text \<open>The deepest entry on a path that starts at an entry.\<close>

lemma lookupPath_spec:
  assumes "nodeAt h r p = Some a" "ret = Some b" "nodeAt h r q = Some b" "valueAt h r q \<noteq> None" "prefix q p"
    and "\<And>s. strict_prefix q s \<Longrightarrow> strict_prefix s p \<Longrightarrow> valueAt h r s = None"
  shows "\<exists>q' c. lookupPath h a ret u = Some c \<and> nodeAt h r q' = Some c \<and> valueAt h r q' \<noteq> None \<and> prefix q' (p @ u)
    \<and> (\<forall>s. strict_prefix q' s \<longrightarrow> prefix s (p @ u) \<longrightarrow> valueAt h r s = None)"
  using assms
proof (induction u arbitrary: a ret p q b)
  case Nil
  show ?case
  proof (cases "nvalue (h ! a)")
    case None
    then have "valueAt h r p = None" using Nil.prems(1) by (simp add: valueAt_def)
    with None Nil.prems show ?thesis by (intro exI [of _ q] exI [of _ b]) (auto simp: strict_prefix_def)
  next
    case (Some v)
    with Nil.prems(1) show ?thesis
      by (intro exI [of _ p] exI [of _ a]) (auto simp: valueAt_def strict_prefix_def dest: prefix_order.antisym)
  qed
next
  case (Cons x u)
  let ?ret = "if nvalue (h ! a) \<noteq> None then Some a else ret"
  define q0 b0 where "q0 = (if nvalue (h ! a) \<noteq> None then p else q)" and "b0 = (if nvalue (h ! a) \<noteq> None then a else b)"
  have val: "valueAt h r p = nvalue (h ! a)" using Cons.prems(1) by (simp add: valueAt_def)
  have q0: "?ret = Some b0" "nodeAt h r q0 = Some b0" "valueAt h r q0 \<noteq> None" "prefix q0 p"
    using Cons.prems val by (auto simp: q0_def b0_def)
  have above: "valueAt h r s = None" if "strict_prefix q0 s" "prefix s p" for s
  proof (cases "s = p")
    case True
    with that val show ?thesis by (cases "nvalue (h ! a)") (auto simp: q0_def)
  next
    case False
    with that have "strict_prefix q s"
      using Cons.prems(5) by (auto simp: q0_def strict_prefix_def dest: prefix_order.antisym split: if_splits)
    with False that show ?thesis using Cons.prems(6) [of s] by (auto simp: strict_prefix_def)
  qed
  show ?case
  proof (cases "child h a x")
    case None
    then have "nodeAt h r (p @ x # v) = None" for v
      using Cons.prems(1) by (simp add: nodeAt_append)
    then have "valueAt h r s = None" if "prefix s (p @ x # u)" "\<not> prefix s p" for s
      using that by (auto simp: valueAt_def prefix_append prefix_Cons)
    with q0 above None show ?thesis
      by (intro exI [of _ q0] exI [of _ b0]) (auto simp: Let_def)
  next
    case (Some c)
    have c: "nodeAt h r (p @ [x]) = Some c" using Cons.prems(1) Some by (simp add: nodeAt_snoc)
    have "prefix q0 (p @ [x])" using q0(4) by simp
    moreover have "valueAt h r s = None" if "strict_prefix q0 s" "strict_prefix s (p @ [x])" for s
      using above [of s] that by (auto simp: strict_prefix_snoc)
    ultimately show ?thesis using Cons.IH [OF c q0(1-3)] Some by (simp add: Let_def)
  qed
qed

lemma findCIDR_spec:
  assumes ok: "treeOK t" and n: "wfNet n"
  shows "\<exists>q c. findCIDR (nodes t) n (root t) 0x80 0 None = Some c \<and> nodeAt (nodes t) (root t) q = Some c
    \<and> entries t q \<noteq> None \<and> prefix q (netPrefix n)
    \<and> (\<forall>s. strict_prefix q s \<longrightarrow> prefix s (netPrefix n) \<longrightarrow> entries t s = None)"
proof -
  have len: "0 < 8 * length (IP n)" using n by (auto simp: wfNet_def)
  have root: "valueAt (nodes t) (root t) [] \<noteq> None" using treeOK_root [OF ok] by (auto simp: entries_def)
  then have "nvalue (nodes t ! root t) \<noteq> None" by (simp add: valueAt_def)
  then have "lookupPath (nodes t) (root t) None u = lookupPath (nodes t) (root t) (Some (root t)) u" for u
    by (cases u) simp_all
  with findCIDR_lookupPath [OF n, of 0] len have
    "findCIDR (nodes t) n (root t) 0x80 0 None = lookupPath (nodes t) (root t) (Some (root t)) (netPrefix n)"
    by (simp add: pos_0)
  then show ?thesis
    using lookupPath_spec [of "nodes t" "root t" "[]" "root t" "Some (root t)" "root t" "[]" "netPrefix n"] root
    by (simp add: entries_def)
qed

subsection \<open>Subnets\<close>

text \<open>The prefixes of the entries directly below \<open>p\<close>, and those at \<open>q\<close> or directly below it.\<close>

definition largestSubnets :: "(bool list \<Rightarrow> NetworkEntityInfo option) \<Rightarrow> bool list \<Rightarrow> bool list set" where
  "largestSubnets M p = {q. strict_prefix p q \<and> M q \<noteq> None \<and> (\<forall>s. strict_prefix p s \<longrightarrow> strict_prefix s q \<longrightarrow> M s = None)}"

definition topEntries :: "(bool list \<Rightarrow> NetworkEntityInfo option) \<Rightarrow> bool list \<Rightarrow> bool list set" where
  "topEntries M q = {u. prefix q u \<and> M u \<noteq> None \<and> (\<forall>s. prefix q s \<longrightarrow> strict_prefix s u \<longrightarrow> M s = None)}"

lemma prefix_snoc_cases: "strict_prefix q u \<longleftrightarrow> (\<exists>b. prefix (q @ [b]) u)"
  by (auto simp: strict_prefix_def prefix_def) (metis append_Nil2 neq_Nil_conv)

lemma prefix_bit_unique: "prefix (q @ [b]) u \<Longrightarrow> prefix (q @ [c]) u \<Longrightarrow> b = c"
  by (auto simp: prefix_def)

lemma largestSubnets_split: "largestSubnets M p = topEntries M (p @ [False]) \<union> topEntries M (p @ [True])"
proof -
  have "u \<in> largestSubnets M p \<longleftrightarrow> (\<exists>b. u \<in> topEntries M (p @ [b]))" for u
  proof
    assume u: "u \<in> largestSubnets M p"
    then obtain b where "prefix (p @ [b]) u" by (auto simp: largestSubnets_def prefix_snoc_cases)
    moreover have "strict_prefix p s" if "prefix (p @ [b]) s" for s using that prefix_snoc_cases by blast
    ultimately show "\<exists>b. u \<in> topEntries M (p @ [b])" using u by (auto simp: largestSubnets_def topEntries_def)
  next
    assume "\<exists>b. u \<in> topEntries M (p @ [b])"
    then obtain b where u: "u \<in> topEntries M (p @ [b])" ..
    have "prefix (p @ [b]) s" if "strict_prefix p s" "strict_prefix s u" for s
    proof -
      from that(1) obtain c where c: "prefix (p @ [c]) s" by (auto simp: prefix_snoc_cases)
      with that(2) have "prefix (p @ [c]) u" by (meson prefix_order.less_imp_le prefix_order.trans)
      with u have "c = b" using prefix_bit_unique [of p c u b] by (simp add: topEntries_def)
      with c show ?thesis by simp
    qed
    with u prefix_snoc_cases show "u \<in> largestSubnets M p" by (auto simp: largestSubnets_def topEntries_def)
  qed
  moreover have "(\<exists>b. u \<in> topEntries M (p @ [b])) \<longleftrightarrow> u \<in> topEntries M (p @ [False]) \<union> topEntries M (p @ [True])" for u
    by (metis (full_types) UnCI UnE)
  ultimately show ?thesis by blast
qed

lemma topEntries_entry: "M q \<noteq> None \<Longrightarrow> topEntries M q = {q}"
  by (auto simp: topEntries_def strict_prefix_def)

lemma topEntries_step: "M q = None \<Longrightarrow> topEntries M q = largestSubnets M q"
  by (auto simp: topEntries_def largestSubnets_def strict_prefix_def)

lemma topEntries_disjoint: "topEntries M (p @ [False]) \<inter> topEntries M (p @ [True]) = {}"
  by (auto simp: topEntries_def dest: prefix_bit_unique)

lemma topEntries_no_node: "nodeAt h r q = None \<Longrightarrow> topEntries (valueAt h r) q = {}"
  by (auto simp: topEntries_def valueAt_def prefix_def nodeAt_append split: option.splits)

text \<open>The result lists the entities of a set of prefixes, each once.\<close>

definition listsOf :: "(bool list \<Rightarrow> NetworkEntityInfo option) \<Rightarrow> bool list set \<Rightarrow> NetworkEntityInfo list \<Rightarrow> bool" where
  "listsOf M S es \<longleftrightarrow> (\<exists>qs. distinct qs \<and> set qs = S \<and> map Some es = map M qs)"

lemma listsOf_empty: "listsOf M {} []"
  by (simp add: listsOf_def)

lemma listsOf_append: "listsOf M S es \<Longrightarrow> listsOf M T fs \<Longrightarrow> S \<inter> T = {} \<Longrightarrow> listsOf M (S \<union> T) (es @ fs)"
  unfolding listsOf_def by (metis distinct_append map_append set_append)

lemma getSuccessorWithVals_below:
  assumes shape: "treeShape h r" and depth: "\<And>q a. nodeAt h r q = Some a \<Longrightarrow> length q \<le> D"
    and s: "nodeAt h r p = Some s"
  shows "strict_prefix p q \<Longrightarrow>
    \<exists>es. getSuccessorWithVals h (Some s) (nodeAt h r q) = Some es \<and> listsOf (valueAt h r) (topEntries (valueAt h r) q) es"
proof (induction "Suc D - length q" arbitrary: q rule: less_induct)
  case less
  show ?case
  proof (cases "nodeAt h r q")
    case None
    then show ?thesis
      by (subst getSuccessorWithVals.simps) (simp add: topEntries_no_node listsOf_empty)
  next
    case (Some c)
    have "s \<noteq> c" using treeShape_inj [OF shape s, of q] Some less.prems by auto
    show ?thesis
    proof (cases "nvalue (h ! c)")
      case v: (Some v)
      then have "valueAt h r q = Some v" using Some by (simp add: valueAt_def)
      then have "listsOf (valueAt h r) (topEntries (valueAt h r) q) [v]"
        by (auto simp: topEntries_entry listsOf_def intro!: exI [of _ "[q]"])
      with v Some \<open>s \<noteq> c\<close> show ?thesis by (subst getSuccessorWithVals.simps) simp
    next
      case None
      have child: "nodeAt h r (q @ [b]) = child h c b" for b using Some by (simp add: nodeAt_snoc)
      have "Suc D - length (q @ [b]) < Suc D - length q" for b using depth [OF Some] by simp
      moreover have "strict_prefix p (q @ [b])" for b using less.prems by (simp add: strict_prefix_snoc)
      ultimately obtain l rr where
        l: "getSuccessorWithVals h (Some s) (nleft (h ! c)) = Some l" "listsOf (valueAt h r) (topEntries (valueAt h r) (q @ [False])) l"
        and rr: "getSuccessorWithVals h (Some s) (nright (h ! c)) = Some rr" "listsOf (valueAt h r) (topEntries (valueAt h r) (q @ [True])) rr"
        using less.hyps [of "q @ [False]"] less.hyps [of "q @ [True]"] by (auto simp: child child_def)
      have "valueAt h r q = None" using Some None by (simp add: valueAt_def)
      then have "listsOf (valueAt h r) (topEntries (valueAt h r) q) (l @ rr)"
        using listsOf_append [OF l(2) rr(2) topEntries_disjoint] by (simp add: topEntries_step largestSubnets_split)
      with None Some l(1) rr(1) show ?thesis by (subst getSuccessorWithVals.simps) simp
    qed
  qed
qed

lemma getSuccessorWithVals_spec:
  assumes shape: "treeShape h r" and depth: "\<And>q a. nodeAt h r q = Some a \<Longrightarrow> length q \<le> D"
  shows "\<exists>es. getSuccessorWithVals h (nodeAt h r p) (nodeAt h r p) = Some es
    \<and> listsOf (valueAt h r) (largestSubnets (valueAt h r) p) es"
proof (cases "nodeAt h r p")
  case None
  then have "nodeAt h r (p @ [b]) = None" for b by (simp add: nodeAt_snoc)
  then have "largestSubnets (valueAt h r) p = {}" by (simp add: largestSubnets_split topEntries_no_node)
  with None show ?thesis by (subst getSuccessorWithVals.simps) (simp add: listsOf_empty)
next
  case (Some s)
  have child: "nodeAt h r (p @ [b]) = child h s b" for b using Some by (simp add: nodeAt_snoc)
  obtain l rr where
    l: "getSuccessorWithVals h (Some s) (nleft (h ! s)) = Some l" "listsOf (valueAt h r) (topEntries (valueAt h r) (p @ [False])) l"
    and rr: "getSuccessorWithVals h (Some s) (nright (h ! s)) = Some rr" "listsOf (valueAt h r) (topEntries (valueAt h r) (p @ [True])) rr"
    using getSuccessorWithVals_below [where D = D, OF shape depth Some, of "\<lambda>_ a. a" "p @ [False]"]
      getSuccessorWithVals_below [where D = D, OF shape depth Some, of "\<lambda>_ a. a" "p @ [True]"] by (auto simp: child child_def strict_prefix_snoc)
  then have "listsOf (valueAt h r) (largestSubnets (valueAt h r) p) (l @ rr)"
    using listsOf_append [OF l(2) rr(2) topEntries_disjoint] by (simp add: largestSubnets_split)
  with Some l(1) rr(1) show ?thesis by (subst getSuccessorWithVals.simps) simp
qed

lemma wfNet_nonempty: "wfNet n \<Longrightarrow> IP n \<noteq> []"
  by (auto simp: wfNet_def)

lemma findStartNode_path:
  assumes "wfNet n"
  shows "k \<le> netLen n \<Longrightarrow> k < 8 * length (IP n) \<Longrightarrow>
    findStartNode h n (Some a) (fst (pos k)) (snd (pos k)) = nodeAt h a (drop k (netPrefix n))"
proof (induction "netLen n - k" arbitrary: k a)
  case 0
  then have "drop k (netPrefix n) = []" using assms by (simp add: length_netPrefix)
  moreover have "Mask n ! snd (pos k) AND fst (pos k) = 0"
    using 0 pos_Mask [OF assms] by (simp add: and.commute)
  ultimately show ?case by (subst findStartNode.simps) simp
next
  case (Suc m)
  then have k: "k < netLen n" by simp
  have nz: "Mask n ! snd (pos k) AND fst (pos k) \<noteq> 0"
    using k Suc.prems pos_Mask [OF assms, of k] by (simp add: and.commute)
  have none: "findStartNode h n None b i = None" for b i by (subst findStartNode.simps) simp
  show ?case
  proof (cases "Suc k < 8 * length (IP n)")
    case True
    with Suc k nz show ?thesis
      by (subst findStartNode.simps)
        (auto simp: pos_IP pos_next case_prod_unfold Let_def drop_netPrefix [OF assms k] none split: option.split)
  next
    case False
    with Suc.prems k wfNet_netLen [OF assms] have "Suc k = netLen n" by simp
    then have "drop (Suc k) (netPrefix n) = []" using assms by (simp add: length_netPrefix)
    with False Suc k nz show ?thesis
      by (subst findStartNode.simps)
        (simp add: pos_IP pos_next Let_def drop_netPrefix [OF assms k] split: option.split)
  qed
qed

lemma findStartNode_spec: "wfNet n \<Longrightarrow> findStartNode h n (Some r) 0x80 0 = nodeAt h r (netPrefix n)"
  using findStartNode_path [of n 0 h r] wfNet_nonempty [of n] by (simp add: pos_0)

subsection \<open>The queries by network and by identifier\<close>

lemma subnets_at:
  "treeOK t \<Longrightarrow> \<exists>es. getSuccessorWithVals (nodes t) (nodeAt (nodes t) (root t) p) (nodeAt (nodes t) (root t) p) = Some es
    \<and> listsOf (entries t) (largestSubnets (entries t) p) es"
  using getSuccessorWithVals_spec [OF treeOK_shape treeOK_depth] by (simp add: entries_def)

lemma radixGetSubnetsForCIDR_spec:
  "treeOK t \<Longrightarrow> parseCIDR cidr = Some n \<Longrightarrow>
    \<exists>es. radixGetSubnetsForCIDR t cidr = Some es \<and> listsOf (entries t) (largestSubnets (entries t) (netPrefix n)) es"
  using subnets_at [of t "netPrefix n"]
  by (simp add: radixGetSubnetsForCIDR_def findStartNode_spec parseCIDR_wf Let_def)

lemma radixGetSubnets_spec:
  assumes ok: "treeOK t"
  shows "if radixExists t key
    then \<exists>p e es. entries t p = Some e \<and> ne_Id e = key \<and> radixGetSubnets t key = Some es
      \<and> listsOf (entries t) (largestSubnets (entries t) p) es
    else radixGetSubnets t key = Some []"
proof (cases "mget (valueNodes t) key")
  case (Some a)
  then obtain p e where "nodeAt (nodes t) (root t) p = Some a" "entries t p = Some e" "ne_Id e = key"
    by (auto simp: mget_entry [OF ok])
  with Some subnets_at [OF ok, of p] show ?thesis by (auto simp: radixExists_def radixGetSubnets_def)
qed (simp add: radixExists_def radixGetSubnets_def)

lemma parent_at:
  assumes ok: "treeOK t" and "nodeAt (nodes t) (root t) p = Some a"
  shows "\<exists>m. getMatchingParent (nodes t) (Some a) pred = Some m
    \<and> smallestSupernet (entries t) pred p (case m of None \<Rightarrow> None | Some b \<Rightarrow> nvalue (nodes t ! b))"
  using getMatchingParent_spec [OF treeOK_shape [OF ok] assms(2)] by (auto simp: entries_def)

text \<open>The result is the smallest supernet, whose description is removed when it is the Internet, or,
  for the query by network, returned as it is stored.\<close>

lemma radixGetMatchingSupernet_spec:
  assumes ok: "treeOK t"
  shows "if key = InternetExternalSourceID
    then radixGetMatchingSupernet t key pred = Some (map_option rmDescIfInternet (entries t []))
    else if radixExists t key
    then \<exists>p e r. entries t p = Some e \<and> ne_Id e = key \<and> smallestSupernet (entries t) pred p r
      \<and> radixGetMatchingSupernet t key pred = Some (map_option rmDescIfInternet r)
    else radixGetMatchingSupernet t key pred = Some None"
proof -
  obtain e0 where e0: "nvalue (nodes t ! root t) = Some e0" "ne_Id e0 = InternetExternalSourceID" "entries t [] = Some e0"
    using treeOK_root [OF ok] by (auto simp: entries_def valueAt_def)
  show ?thesis
  proof (cases "key = InternetExternalSourceID")
    case True
    with e0 show ?thesis by (simp add: radixGetMatchingSupernet_def getMatchingSupernetNoLock_def)
  next
    case key: False
    show ?thesis
    proof (cases "mget (valueNodes t) key")
      case None
      with key e0 show ?thesis
        by (simp add: radixGetMatchingSupernet_def getMatchingSupernetNoLock_def radixExists_def)
    next
      case (Some a)
      then obtain p e where p: "nodeAt (nodes t) (root t) p = Some a" "entries t p = Some e" "ne_Id e = key"
        using mget_entry [OF ok] by metis
      obtain m where m: "getMatchingParent (nodes t) (Some a) pred = Some m"
        "smallestSupernet (entries t) pred p (case m of None \<Rightarrow> None | Some b \<Rightarrow> nvalue (nodes t ! b))"
        using parent_at [OF ok p(1), of pred] by auto
      have "radixGetMatchingSupernet t key pred
          = Some (map_option rmDescIfInternet (case m of None \<Rightarrow> None | Some b \<Rightarrow> nvalue (nodes t ! b)))"
        using key Some e0 m(1)
        by (simp add: radixGetMatchingSupernet_def getMatchingSupernetNoLock_def split: option.split)
      with key Some p m(2) show ?thesis by (auto simp: radixExists_def)
    qed
  qed
qed

lemma ipNetEqual_iff:
  "wfNet m \<Longrightarrow> wfNet n \<Longrightarrow> length (IP m) = length (IP n) \<Longrightarrow> ipNetEqual m n \<longleftrightarrow> netPrefix m = netPrefix n"
  using wfNet_eqI [of m n] by (auto simp: ipNetEqual_def ipEqual_def netPrefix_def netLen_def)

lemma smallestSupernet_above:
  assumes "prefix q p" "\<And>s. strict_prefix q s \<Longrightarrow> strict_prefix s p \<Longrightarrow> M s = None"
    and "q = p \<or> \<not> matches M pred q" and "smallestSupernet M pred q r"
  shows "smallestSupernet M pred p r"
proof (cases "q = p")
  case False
  have above: "strict_prefix q s \<or> s = q \<or> strict_prefix s q" if "strict_prefix s p" for s
    using that assms(1) prefix_same_cases [of s p q] by (auto simp: strict_prefix_def)
  have none: "\<not> matches M pred s" if "strict_prefix s p" "\<not> strict_prefix s q" for s
    using above [OF that(1)] that assms(2) [of s] assms(3) False by (auto simp: matches_def)
  have below: "strict_prefix s p" if "strict_prefix s q" for s
    using that assms(1) by (metis prefix_order.less_le_trans)
  show ?thesis
    using assms(4) none below by (auto simp: smallestSupernet_def split: option.splits)
qed (use assms(4) in simp)

lemma supernetForCIDR_spec:
  assumes ok: "treeOK t" and n: "parseCIDR cidr = Some n"
  shows "\<exists>r. radixGetMatchingSupernetForCIDR t cidr pred = Some r"
    and "8 * length (IP n) = familyBits (family t) \<Longrightarrow>
      \<exists>r v. radixGetMatchingSupernetForCIDR t cidr pred = Some r \<and> smallestSupernet (entries t) pred (netPrefix n) v
        \<and> (r = v \<or> r = map_option rmDescIfInternet v)"
proof -
  have wf: "wfNet n" using n by (rule parseCIDR_wf)
  obtain q c where q: "findCIDR (nodes t) n (root t) 0x80 0 None = Some c" "nodeAt (nodes t) (root t) q = Some c"
      "entries t q \<noteq> None" "prefix q (netPrefix n)"
      "\<And>s. strict_prefix q s \<Longrightarrow> prefix s (netPrefix n) \<Longrightarrow> entries t s = None"
    using findCIDR_spec [OF ok wf] by auto
  then obtain v where v: "entries t q = Some v" "nvalue (nodes t ! c) = Some v" by (auto simp: entries_def valueAt_def)
  obtain m where m: "parseCIDR (entityCidr v) = Some m" "8 * length (IP m) = familyBits (family t)" "netPrefix m = q"
    using treeOK_entry [OF ok v(1)] by auto
  obtain b where b: "getMatchingParent (nodes t) (Some c) pred = Some b"
      "smallestSupernet (entries t) pred q (case b of None \<Rightarrow> None | Some d \<Rightarrow> nvalue (nodes t ! d))"
    using parent_at [OF ok q(2)] by blast
  have res: "radixGetMatchingSupernetForCIDR t cidr pred
      = Some (if \<not> ipNetEqual m n \<and> predOk pred v then Some v
          else (case b of None \<Rightarrow> None | Some d \<Rightarrow> map_option rmDescIfInternet (nvalue (nodes t ! d))))"
    by (simp add: radixGetMatchingSupernetForCIDR_def getMatchingSupernetForCIDRNoLock_def n q(1) v(2) m(1) b(1)
        split: option.split)
  then show "\<exists>r. radixGetMatchingSupernetForCIDR t cidr pred = Some r" by blast
  assume "8 * length (IP n) = familyBits (family t)"
  with m have eq: "ipNetEqual m n \<longleftrightarrow> q = netPrefix n" using ipNetEqual_iff [OF parseCIDR_wf wf] by auto
  show "\<exists>r v. radixGetMatchingSupernetForCIDR t cidr pred = Some r \<and> smallestSupernet (entries t) pred (netPrefix n) v
        \<and> (r = v \<or> r = map_option rmDescIfInternet v)"
  proof (cases "q \<noteq> netPrefix n \<and> predOk pred v")
    case True
    with q v have "smallestSupernet (entries t) pred (netPrefix n) (Some v)"
      by (auto simp: smallestSupernet_def strict_prefix_def matches_def)
    with res eq True show ?thesis by auto
  next
    case False
    with v have "q = netPrefix n \<or> \<not> matches (entries t) pred q" by (auto simp: matches_def)
    with smallestSupernet_above [OF q(4) _ this b(2)] q(5)
    have "smallestSupernet (entries t) pred (netPrefix n) (case b of None \<Rightarrow> None | Some d \<Rightarrow> nvalue (nodes t ! d))"
      by (auto simp: strict_prefix_def)
    with res eq False show ?thesis by (intro exI conjI) (assumption | auto split: option.splits)+
  qed
qed

end
