(* ===== verification/Radix_Safety.thy ===== *)
theory Radix_Safety
  imports Radix_Queries
begin

text \<open>
  The network tree as its clients see it. The walks of \<open>ValidateNetworkTree\<close> are evaluated on
  trees that satisfy the invariant; the operations that change a tree are stated as a contract
  (locale \<open>entity_tree\<close>), of which the radix tree is an instance; and the trees that a sequence
  of operations can build (\<open>radixReach\<close>) satisfy the properties at the end of the theory.
\<close>

subsection \<open>One more bit of a network\<close>

lemma bit_IP_Mask: "wfNet n \<Longrightarrow> i < length (IP n) \<Longrightarrow> bit (IP n ! i) j \<Longrightarrow> bit (Mask n ! i) j"
proof -
  assume n: "wfNet n" "i < length (IP n)" "bit (IP n ! i) j"
  have "map2 (AND) (IP n) (Mask n) = IP n" using n(1) unfolding wfNet_def by blast
  with n(2) have "map2 (AND) (IP n) (Mask n) ! i = IP n ! i" by simp
  with n have "IP n ! i AND Mask n ! i = IP n ! i" by simp
  with n(3) show ?thesis by (metis bit_and_iff)
qed

lemma bit_pos: "j < 8 \<Longrightarrow> bit (fst (pos k)) (7 - j) \<longleftrightarrow> j = k mod 8"
proof -
  assume "j < 8"
  then have "k mod 8 + (7 - j) = 7 \<longleftrightarrow> j = k mod 8" by auto
  then show ?thesis by (simp add: pos_def bit_drop_80 del: Nat.add_diff_assoc)
qed

lemma snd_pos: "snd (pos k) = k div 8"
  by (simp add: pos_def)

lemma index_eq: "j < 8 \<Longrightarrow> 8 * i + j = k \<longleftrightarrow> i = k div 8 \<and> j = k mod (8 :: nat)"
  by auto

lemma cidrMask_Suc:
  assumes "k < 8 * l"
  shows "(cidrMask l k)[snd (pos k) := cidrMask l k ! snd (pos k) OR fst (pos k)] = cidrMask l (Suc k)"
proof (rule nth_equalityI)
  fix i assume "i < length ((cidrMask l k)[snd (pos k) := cidrMask l k ! snd (pos k) OR fst (pos k)])"
  then have i: "i < l" by simp
  have idx: "8 * i + j < Suc k \<longleftrightarrow> 8 * i + j < k \<or> i = k div 8 \<and> j = k mod 8" if "j < 8" for j
    using index_eq [OF that, of i k] by auto
  show "(cidrMask l k)[snd (pos k) := cidrMask l k ! snd (pos k) OR fst (pos k)] ! i = cidrMask l (Suc k) ! i"
  proof (rule byte_eqI)
    fix j :: nat
    assume j: "j < 8"
    with i show "bit ((cidrMask l k)[snd (pos k) := cidrMask l k ! snd (pos k) OR fst (pos k)] ! i) (7 - j)
      = bit (cidrMask l (Suc k) ! i) (7 - j)"
      using idx [OF j] by (cases "i = k div 8") (auto simp: snd_pos bit_or_iff bit_cidrMask bit_pos)
  qed
qed simp

lemma IP_bit:
  assumes "k < 8 * length a" "k' < 8 * length a"
  shows "ipBits (a[snd (pos k) := a ! snd (pos k) OR fst (pos k)]) ! k' \<longleftrightarrow> ipBits a ! k' \<or> k' = k"
proof -
  obtain i j where ij: "i < length a" "j < 8" "k' = 8 * i + j" using assms(2) bit_index by blast
  with assms(1) index_eq [of j i k] show ?thesis
    by (auto simp: nth_ipBits nth_list_update snd_pos bit_or_iff bit_pos)
qed

text \<open>The step of \<open>validateValuesRecursive\<close> to a child extends the network by one bit.\<close>

lemma wfNet_step:
  assumes n: "wfNet n" and k: "netLen n < 8 * length (IP n)"
  defines "m \<equiv> (Mask n)[snd (pos (netLen n)) := Mask n ! snd (pos (netLen n)) OR fst (pos (netLen n))]"
    and "a \<equiv> (IP n)[snd (pos (netLen n)) := IP n ! snd (pos (netLen n)) OR fst (pos (netLen n))]"
  shows "wfNet \<lparr>IP = IP n, Mask = m\<rparr>" "netPrefix \<lparr>IP = IP n, Mask = m\<rparr> = netPrefix n @ [False]"
    "wfNet \<lparr>IP = a, Mask = m\<rparr>" "netPrefix \<lparr>IP = a, Mask = m\<rparr> = netPrefix n @ [True]"
proof -
  let ?k = "netLen n" and ?l = "length (IP n)"
  have Mask: "Mask n = cidrMask ?l ?k" using n by (simp add: wfNet_def)
  have m: "m = cidrMask ?l (Suc ?k)" unfolding m_def Mask using cidrMask_Suc [OF k] by simp
  then have len: "fst (maskSize m) = Suc ?k" using k by (simp add: maskSize_cidrMask)
  have zero: "\<not> ipBits (IP n) ! ?k"
  proof -
    obtain i j where ij: "i < ?l" "j < 8" "?k = 8 * i + j" using k bit_index by blast
    then have "\<not> bit (Mask n ! i) (7 - j)" using bit_Mask [OF n, of i j] by simp
    with bit_IP_Mask [OF n ij(1)] ij show ?thesis by (auto simp: nth_ipBits)
  qed
  have a: "ipBits a ! k' \<longleftrightarrow> ipBits (IP n) ! k' \<or> k' = ?k" if "k' < 8 * ?l" for k'
    unfolding a_def using IP_bit [OF k that] .
  have la: "length a = ?l" by (simp add: a_def)
  have bits: "bit (b ! i) j \<longrightarrow> bit (m ! i) j" if "b = IP n \<or> b = a" "i < ?l" "j < 8" for b i j
  proof -
    from that(3) have j: "7 - (7 - j) = j" "7 - j < 8" by auto
    have "bit (m ! i) j \<longleftrightarrow> 8 * i + (7 - j) < Suc ?k"
      using bit_cidrMask [OF that(2) j(2), of "Suc ?k"] j(1) by (simp add: m)
    moreover have "bit (IP n ! i) j \<longrightarrow> 8 * i + (7 - j) < ?k"
      using bit_IP_Mask [OF n that(2), of j] bit_Mask [OF n that(2) j(2)] j(1) by auto
    moreover have "8 * i + (7 - j) < 8 * ?l" using that(2,3) by simp
    then have "bit (a ! i) j \<longleftrightarrow> bit (IP n ! i) j \<or> 8 * i + (7 - j) = ?k"
      using a [of "8 * i + (7 - j)"] nth_ipBits [of i a "7 - j"] nth_ipBits [of i "IP n" "7 - j"] that(2) j la by simp
    ultimately show ?thesis using that(1) by auto
  qed
  have wf: "wfNet \<lparr>IP = b, Mask = m\<rparr>" if b: "b = IP n \<or> b = a" for b
  proof -
    have lb: "length b = ?l" using b la by auto
    have "map2 (AND) b m = b"
    proof (rule nth_equalityI)
      fix i assume "i < length (map2 (AND) b m)"
      then have i: "i < ?l" using lb by simp
      then have "b ! i AND m ! i = b ! i"
        using bits [OF b i] by (intro bit_word_eqI) (auto simp: bit_and_iff)
      with i lb show "map2 (AND) b m ! i = b ! i" by (simp add: m)
    qed (simp add: lb m)
    then show ?thesis using n k lb m len by (simp add: wfNet_def netLen_def)
  qed
  show "wfNet \<lparr>IP = IP n, Mask = m\<rparr>" "wfNet \<lparr>IP = a, Mask = m\<rparr>" using wf by simp_all
  have "take ?k (ipBits a) = take ?k (ipBits (IP n))"
    using k la by (intro nth_equalityI) (simp_all add: a)
  with zero k la a [OF k] show "netPrefix \<lparr>IP = IP n, Mask = m\<rparr> = netPrefix n @ [False]"
    "netPrefix \<lparr>IP = a, Mask = m\<rparr> = netPrefix n @ [True]"
    by (simp_all add: netPrefix_def netLen_def len take_Suc_conv_app_nth)
qed

subsection \<open>The walks of the validation\<close>

lemma valueAt_Nil [simp]: "valueAt h a [] = nvalue (h ! a)"
  by (simp add: valueAt_def)

lemma valueAt_Cons: "valueAt h a (x # p) = (case child h a x of None \<Rightarrow> None | Some c \<Rightarrow> valueAt h c p)"
  by (simp add: valueAt_def split: option.split)

definition depthAt :: "heap \<Rightarrow> addr \<Rightarrow> nat \<Rightarrow> bool" where
  "depthAt h a d \<longleftrightarrow> (\<forall>q c. nodeAt h a q = Some c \<longrightarrow> length q \<le> d)"

lemma depthAt_child: "depthAt h a d \<Longrightarrow> child h a x = Some c \<Longrightarrow> 0 < d \<and> depthAt h c (d - 1)"
proof -
  assume d: "depthAt h a d" "child h a x = Some c"
  have "Suc (length q) \<le> d" if "nodeAt h c q = Some b" for q b
    using d that by (force simp: depthAt_def dest: spec [of _ "x # q"])
  from this this [of "[]" c] show ?thesis by (force simp: depthAt_def)
qed

definition coveredAt :: "heap \<Rightarrow> addr \<Rightarrow> bool" where
  "coveredAt h a \<longleftrightarrow> (\<forall>q. nodeAt h a q \<noteq> None \<longrightarrow> covered h a q)"

lemma coveredAt_child: "coveredAt h a \<Longrightarrow> child h a x = Some c \<Longrightarrow> coveredAt h c"
  unfolding coveredAt_def covered_def
proof (intro allI impI)
  fix q
  assume a: "\<forall>q. nodeAt h a q \<noteq> None \<longrightarrow> (\<exists>s. valueAt h a (q @ s) \<noteq> None)" "child h a x = Some c" "nodeAt h c q \<noteq> None"
  then have "nodeAt h a (x # q) \<noteq> None" by simp
  with a(1) obtain s where "valueAt h a ((x # q) @ s) \<noteq> None" by blast
  with a(2) show "\<exists>s. valueAt h c (q @ s) \<noteq> None" by (auto simp: valueAt_Cons)
qed

lemma coveredAt_leaf: "coveredAt h a \<Longrightarrow> child h a False = None \<Longrightarrow> child h a True = None \<Longrightarrow> nvalue (h ! a) \<noteq> None"
proof -
  assume a: "coveredAt h a" "child h a False = None" "child h a True = None"
  then obtain s where s: "valueAt h a s \<noteq> None" by (force simp: coveredAt_def covered_def dest: spec [of _ "[]"])
  have "child h a x = None" for x using a(2,3) by (cases x) simp_all
  with s show ?thesis by (cases s) (auto simp: valueAt_Cons)
qed

lemma validateLeaves_spec:
  "depthAt h a d \<Longrightarrow> coveredAt h a \<Longrightarrow> validateLeavesHaveValues h (Some a) = Some True"
proof (induction d arbitrary: a rule: less_induct)
  case (less d)
  have sub: "validateLeavesHaveValues h (Some c) = Some True" if "child h a x = Some c" for x c
    using less.IH [of "d - 1" c] depthAt_child [OF less.prems(1) that] coveredAt_child [OF less.prems(2) that] by simp
  with sub [of False] sub [of True] coveredAt_leaf [OF less.prems(2)] show ?case
    by (subst validateLeavesHaveValues.simps) (auto simp: child_def)
qed

lemma dom_valueAt:
  "dom (valueAt h a) = (if nvalue (h ! a) \<noteq> None then {[]} else {})
     \<union> (case nleft (h ! a) of None \<Rightarrow> {} | Some c \<Rightarrow> (#) False ` dom (valueAt h c))
     \<union> (case nright (h ! a) of None \<Rightarrow> {} | Some c \<Rightarrow> (#) True ` dom (valueAt h c))"
proof (rule set_eqI)
  fix p
  show "p \<in> dom (valueAt h a) \<longleftrightarrow> p \<in> (if nvalue (h ! a) \<noteq> None then {[]} else {})
     \<union> (case nleft (h ! a) of None \<Rightarrow> {} | Some c \<Rightarrow> (#) False ` dom (valueAt h c))
     \<union> (case nright (h ! a) of None \<Rightarrow> {} | Some c \<Rightarrow> (#) True ` dom (valueAt h c))"
  proof (cases p)
    case (Cons x q)
    have "x # q \<in> (#) y ` S \<longleftrightarrow> x = y \<and> q \<in> S" for y S by auto
    with Cons show ?thesis by (cases x) (simp_all add: domIff valueAt_Cons child_def split: option.split)
  qed (auto simp: domIff split: option.split)
qed

lemma getCardinalityByValues_spec:
  "depthAt h a d \<Longrightarrow> finite (dom (valueAt h a))
     \<and> getCardinalityByValues h (Some a) = Some (card (dom (valueAt h a)))"
proof (induction d arbitrary: a rule: less_induct)
  case (less d)
  let ?side = "\<lambda>x :: bool. case child h a x of None \<Rightarrow> {} | Some c \<Rightarrow> (#) x ` dom (valueAt h c)"
  have sub: "finite (?side x) \<and> (case child h a x of None \<Rightarrow> Some 0
      | Some c \<Rightarrow> getCardinalityByValues h (Some c)) = Some (card (?side x))" for x
  proof (cases "child h a x")
    case (Some c)
    with depthAt_child [OF less.prems Some] less.IH [of "d - 1" c] have "finite (dom (valueAt h c))"
      "getCardinalityByValues h (Some c) = Some (card (dom (valueAt h c)))" by simp_all
    with Some show ?thesis by (simp add: card_image)
  qed simp
  have dom: "dom (valueAt h a) = (if nvalue (h ! a) \<noteq> None then {[]} else {}) \<union> (?side False \<union> ?side True)"
    by (subst dom_valueAt) (simp add: child_def Un_assoc)
  have "card (?side False \<union> ?side True) = card (?side False) + card (?side True)"
    using sub by (intro card_Un_disjoint) (auto split: option.splits)
  moreover have "[] \<notin> ?side False \<union> ?side True" by (auto split: option.splits)
  ultimately have "card (dom (valueAt h a))
      = (if nvalue (h ! a) \<noteq> None then 1 else 0) + card (?side False) + card (?side True)"
    using sub unfolding dom by auto
  moreover have "finite (dom (valueAt h a))" unfolding dom using sub by auto
  ultimately show ?case using sub [of False] sub [of True]
    by (subst getCardinalityByValues.simps) (auto simp: child_def split: option.splits)
qed

text \<open>The text that \<open>IPNet.String\<close> gives for the network of the entity.\<close>

definition canonicalCidr :: "NetworkEntityInfo \<Rightarrow> bool" where
  "canonicalCidr e = (case parseCIDR (entityCidr e) of None \<Rightarrow> False | Some n \<Rightarrow> entityCidr e = ipv4NetString n)"

definition netAt :: "NetworkEntityInfo \<Rightarrow> bool list \<Rightarrow> bool" where
  "netAt e p \<longleftrightarrow> (\<exists>n. parseCIDR (entityCidr e) = Some n \<and> length (IP n) = 4 \<and> netPrefix n = p)"

lemma equalValueIpNet_canonical:
  "netAt e (netPrefix n) \<Longrightarrow> wfNet n \<Longrightarrow> length (IP n) = 4 \<Longrightarrow> equalValueIpNet e n \<longleftrightarrow> canonicalCidr e"
  using wfNet_eqI [OF parseCIDR_wf] by (fastforce simp: netAt_def equalValueIpNet_def canonicalCidr_def)

lemma validateValuesRecursive_spec:
  assumes "wfNet n" "length (IP n) = 4" "depthAt h a (32 - netLen n)" "coveredAt h a"
    and "\<And>q v. valueAt h a q = Some v \<Longrightarrow> netAt v (netPrefix n @ q)"
  shows "validateValuesRecursive h n (snd (pos (netLen n))) (fst (pos (netLen n))) a
    = Some (\<forall>q v. valueAt h a q = Some v \<longrightarrow> canonicalCidr v)"
  using assms
proof (induction "32 - netLen n" arbitrary: n a rule: less_induct)
  case less
  let ?k = "netLen n" and ?i = "snd (pos (netLen n))" and ?b = "fst (pos (netLen n))"
  have here: "equalValueIpNet v n \<longleftrightarrow> canonicalCidr v" if "nvalue (h ! a) = Some v" for v
    using equalValueIpNet_canonical [OF _ less.prems(1,2)] less.prems(5) [of "[]" v] that by simp
  have split: "(\<forall>q v. valueAt h a q = Some v \<longrightarrow> canonicalCidr v)
      \<longleftrightarrow> (\<forall>v. nvalue (h ! a) = Some v \<longrightarrow> canonicalCidr v)
        \<and> (\<forall>x c q v. child h a x = Some c \<longrightarrow> valueAt h c q = Some v \<longrightarrow> canonicalCidr v)"
    (is "?all \<longleftrightarrow> ?here \<and> ?below")
  proof
    assume ?all
    then show "?here \<and> ?below" by (metis valueAt_Nil valueAt_Cons option.simps(5))
  next
    assume r: "?here \<and> ?below"
    have "canonicalCidr v" if "valueAt h a q = Some v" for q v
      using r that by (cases q) (auto simp: valueAt_Cons split: option.splits)
    then show ?all by blast
  qed
  show ?case
  proof (cases "?k < 32")
    case False
    with less.prems(3) depthAt_child [OF less.prems(3)] have no: "child h a x = None" for x
      by (cases "child h a x") auto
    then have "nvalue (h ! a) \<noteq> None" using coveredAt_leaf [OF less.prems(4)] by simp
    moreover have "nleft (h ! a) = None" "nright (h ! a) = None"
      using no [of False] no [of True] by (simp_all add: child_def)
    ultimately show ?thesis unfolding split
      by (subst validateValuesRecursive.simps) (auto simp: no here Let_def split: option.splits)
  next
    case True
    with less.prems(2) have k: "?k < 8 * length (IP n)" by simp
    note step = wfNet_step [OF less.prems(1) k]
    have i: "?i < length (IP n)" using True less.prems(2) by (simp add: pos_def)
    have next_pos: "pos (Suc ?k) = (if drop_bit 1 ?b = 0 then 0x80 else drop_bit 1 ?b,
        if drop_bit 1 ?b = 0 then Suc ?i else ?i)"
    proof (cases "Suc ?k < 32")
      case False
      with True have "?k = 31" by simp
      then show ?thesis by (simp add: pos_def)
    qed (use pos_next [OF k] less.prems(2) in \<open>auto simp: nextBit_def Let_def split: if_splits\<close>)
    have sub: "validateValuesRecursive h n' (snd (pos (Suc ?k))) (fst (pos (Suc ?k))) c
        = Some (\<forall>q v. valueAt h c q = Some v \<longrightarrow> canonicalCidr v)"
      if c: "child h a x = Some c" and n': "wfNet n'" "length (IP n') = 4" "netPrefix n' = netPrefix n @ [x]" for n' x c
    proof -
      have len: "netLen n' = Suc ?k" using length_netPrefix [OF n'(1)] n'(3) length_netPrefix [OF less.prems(1)] by simp
      have "netAt v (netPrefix n' @ q)" if "valueAt h c q = Some v" for q v
        using less.prems(5) [of "x # q" v] c n'(3) that by (simp add: valueAt_Cons)
      moreover have "depthAt h c (32 - netLen n')" using depthAt_child [OF less.prems(3) c] len by simp
      moreover have "32 - netLen n' < 32 - ?k" using True len by simp
      ultimately show ?thesis
        using less.hyps [OF _ n'(1,2)] coveredAt_child [OF less.prems(4) c] by (simp add: len)
    qed
    let ?net = "\<lambda>ip. \<lparr>IP = ip, Mask = (Mask n)[?i := Mask n ! ?i OR ?b]\<rparr>"
    let ?one = "(IP n)[?i := IP n ! ?i OR ?b]"
    have "validateValuesRecursive h (?net ?one) (snd (pos (Suc ?k))) (fst (pos (Suc ?k))) c
        = Some (\<forall>q v. valueAt h c q = Some v \<longrightarrow> canonicalCidr v)" if "nright (h ! a) = Some c" for c
      by (rule sub [where x = True]) (use that step less.prems(2) in \<open>simp_all add: child_def\<close>)
    moreover have "validateValuesRecursive h (?net (IP n)) (snd (pos (Suc ?k))) (fst (pos (Suc ?k))) c
        = Some (\<forall>q v. valueAt h c q = Some v \<longrightarrow> canonicalCidr v)" if "nleft (h ! a) = Some c" for c
      by (rule sub [where x = False]) (use that step less.prems(2) in \<open>simp_all add: child_def\<close>)
    moreover have "?below \<longleftrightarrow> (\<forall>c. nright (h ! a) = Some c \<longrightarrow> (\<forall>q v. valueAt h c q = Some v \<longrightarrow> canonicalCidr v))
        \<and> (\<forall>c. nleft (h ! a) = Some c \<longrightarrow> (\<forall>q v. valueAt h c q = Some v \<longrightarrow> canonicalCidr v))"
      by (metis child_def)
    ultimately show ?thesis unfolding split using i
      by (subst validateValuesRecursive.simps) (auto simp: here Let_def next_pos split: option.splits)
  qed
qed

subsection \<open>Validation\<close>

lemma card_keys: "wf_map m \<Longrightarrow> card {k. mget m k \<noteq> None} = length m"
proof -
  assume "wf_map m"
  moreover have "{k. mget m k \<noteq> None} = set (map fst m)" using map_of_eq_None_iff [of m] by auto
  ultimately show ?thesis by (metis distinct_card length_map)
qed

lemma treeOK_cardinality:
  assumes ok: "treeOK t"
  shows "card (dom (entries t)) = radixCardinality t"
proof -
  let ?key = "\<lambda>p. ne_Id (the (entries t p))"
  have "inj_on ?key (dom (entries t))" using entries_key_inj [OF ok] by (auto simp: inj_on_def)
  then have "card (dom (entries t)) = card (?key ` dom (entries t))" by (simp only: card_image)
  also have "?key ` dom (entries t) = {k. mget (valueNodes t) k \<noteq> None}"
  proof (rule set_eqI)
    fix k
    have "k \<in> ?key ` dom (entries t) \<longleftrightarrow> (\<exists>p e. entries t p = Some e \<and> ne_Id e = k)" by force
    then show "k \<in> ?key ` dom (entries t) \<longleftrightarrow> k \<in> {k. mget (valueNodes t) k \<noteq> None}"
      using radixExists_iff [OF ok, of k] by (simp only: radixExists_def mem_Collect_eq)
  qed
  also have "card {k. mget (valueNodes t) k \<noteq> None} = length (valueNodes t)"
    using ok by (intro card_keys) (simp add: treeOK_def)
  finally show ?thesis by (simp add: radixCardinality_def)
qed

lemma treeOK_walks:
  "treeOK t \<Longrightarrow> depthAt (nodes t) (root t) (familyBits (family t)) \<and> coveredAt (nodes t) (root t)"
  using treeOK_depth by (fastforce simp: depthAt_def coveredAt_def treeOK_def)

lemma ValidateNetworkTree_spec:
  assumes ok: "treeOK t"
  shows "ValidateNetworkTree t
    = Some (family t = IPv4 \<and> (\<forall>p e. entries t p = Some e \<longrightarrow> canonicalCidr e))"
proof -
  let ?n = "\<lparr>IP = [0, 0, 0, 0], Mask = [0, 0, 0, 0]\<rparr>"
  note walks = treeOK_walks [OF ok]
  have mask: "[0, 0, 0, 0] = cidrMask 4 0" by (simp add: cidrMask_zero replicate_numeral_Cons)
  then have "maskSize [0, 0, 0, 0] = (0, 32)" using maskSize_cidrMask [of 0 4] by simp
  moreover have "map2 (AND) [0, 0, 0, 0] [0, 0, 0, 0] = [0, 0, 0, 0 :: byte]" by simp
  ultimately have n: "wfNet ?n" "netLen ?n = 0" "netPrefix ?n = []"
    using mask by (simp_all add: wfNet_def netLen_def netPrefix_def)
  have "ValidateNetworkTree t = validateValues t"
    using validateLeaves_spec [OF conjunct1 [OF walks] conjunct2 [OF walks]]
      getCardinalityByValues_spec [OF conjunct1 [OF walks]] treeOK_cardinality [OF ok]
    by (simp add: ValidateNetworkTree_def validateCardinality_def entries_def)
  moreover have "validateValues t = Some (family t = IPv4 \<and> (\<forall>p e. entries t p = Some e \<longrightarrow> canonicalCidr e))"
  proof (cases "family t")
    case IPv4
    then have "netAt e p" if "entries t p = Some e" for p e
      using treeOK_entry [OF ok that] by (auto simp: netAt_def familyBits_def)
    then show ?thesis
      using validateValuesRecursive_spec [OF n(1), of "nodes t" "root t"] walks IPv4 n
      by (simp add: validateValues_def entries_def familyBits_def pos_0)
  next
    case IPv6
    then have "nvalue (nodes t ! root t) = InternetProtoWithDesc IPv6" using ok by (simp add: treeOK_def entries_def)
    then show ?thesis using IPv6
      by (simp add: validateValues_def)
        (subst validateValuesRecursive.simps, simp add: InternetProtoWithDesc_def equalValueIpNet_def entityCidr_def
          ipv6InternetCIDR_def ipv4NetString_def ipv4String_def natStr.simps)
  qed (use ok in \<open>simp add: treeOK_def\<close>)
  ultimately show ?thesis by simp
qed

subsection \<open>The contract of a tree of entities\<close>

definition hasKey :: "(bool list \<Rightarrow> NetworkEntityInfo option) \<Rightarrow> string \<Rightarrow> bool" where
  "hasKey M key \<longleftrightarrow> (\<exists>p e. M p = Some e \<and> ne_Id e = key)"

text \<open>A removal never affects the root.\<close>

definition withoutKey ::
    "(bool list \<Rightarrow> NetworkEntityInfo option) \<Rightarrow> string \<Rightarrow> bool list \<Rightarrow> NetworkEntityInfo option" where
  "withoutKey M key = (\<lambda>p. case M p of None \<Rightarrow> None
     | Some e \<Rightarrow> if p \<noteq> [] \<and> ne_Id e = key then None else Some e)"

lemma hasKey_upd: "M p = None \<Longrightarrow> hasKey (M(p \<mapsto> e)) key \<longleftrightarrow> hasKey M key \<or> ne_Id e = key"
  by (auto simp: hasKey_def split: if_splits) (metis option.distinct(1))

lemma withoutKey_Some: "withoutKey M key p = Some e \<longleftrightarrow> M p = Some e \<and> (p = [] \<or> ne_Id e \<noteq> key)"
  by (auto simp: withoutKey_def split: option.splits if_splits)

lemma withoutKey_upd: "\<not> hasKey M key \<Longrightarrow> M p = None \<Longrightarrow> p \<noteq> [] \<Longrightarrow> ne_Id e = key \<Longrightarrow> withoutKey (M(p \<mapsto> e)) key = M"
  by (rule ext) (auto simp: withoutKey_def hasKey_def split: option.splits)

locale entity_tree =
  fixes inv :: "'t \<Rightarrow> bool" and fam :: "'t \<Rightarrow> Family"
    and ents :: "'t \<Rightarrow> bool list \<Rightarrow> NetworkEntityInfo option"
    and ins :: "'t \<Rightarrow> NetworkEntityInfo \<Rightarrow> treeError + 't"
    and del :: "'t \<Rightarrow> string \<Rightarrow> 't option"
    and bld :: "'t \<Rightarrow> NetworkEntityInfo list \<Rightarrow> treeError + 't"
  assumes root_entry: "inv t \<Longrightarrow> ents t [] \<noteq> None"
    and ins_law: "inv t \<Longrightarrow> \<not> hasKey (ents t) (ne_Id e) \<Longrightarrow>
      if insertable (fam t) e \<and> ents t (the (entityPrefix (fam t) e)) = None
      then \<exists>t'. ins t e = Inr t' \<and> inv t' \<and> fam t' = fam t
        \<and> ents t' = (ents t)(the (entityPrefix (fam t) e) \<mapsto> e)
      else \<exists>err. ins t e = Inl err"
    and del_law: "inv t \<Longrightarrow> \<exists>t'. del t key = Some t' \<and> inv t' \<and> fam t' = fam t \<and> ents t' = withoutKey (ents t) key"
    and bld_Nil: "bld t [] = Inr t"
    and bld_Cons: "bld t (e # es) = (case ins t e of Inl err \<Rightarrow> Inl err | Inr t' \<Rightarrow> bld t' es)"
begin

lemma ins_then_del:
  assumes "inv t" "\<not> hasKey (ents t) (ne_Id e)" "ins t e = Inr t'"
  shows "\<exists>t''. del t' (ne_Id e) = Some t'' \<and> inv t'' \<and> ents t'' = ents t"
proof -
  let ?p = "the (entityPrefix (fam t) e)"
  from ins_law [OF assms(1,2)] assms(3) have t': "inv t'" "ents t' = (ents t)(?p \<mapsto> e)" "ents t ?p = None"
    by (auto split: if_splits)
  then have "?p \<noteq> []" using root_entry [OF assms(1)] by auto
  with t' assms(2) show ?thesis using del_law [OF t'(1), of "ne_Id e"] by (auto simp: withoutKey_upd)
qed

text \<open>Building a tree from entities with fresh and different identifiers.\<close>

definition buildable :: "'t \<Rightarrow> NetworkEntityInfo list \<Rightarrow> bool" where
  "buildable t es \<longleftrightarrow> (\<forall>e \<in> set es. insertable (fam t) e \<and> ents t (the (entityPrefix (fam t) e)) = None)
     \<and> distinct (map (entityPrefix (fam t)) es)"

lemma bld_spec:
  "inv t \<Longrightarrow> \<forall>e \<in> set es. \<not> hasKey (ents t) (ne_Id e) \<Longrightarrow> distinct (map ne_Id es) \<Longrightarrow>
    if buildable t es
    then \<exists>t'. bld t es = Inr t' \<and> inv t' \<and> fam t' = fam t
      \<and> (\<forall>p v. ents t' p = Some v \<longleftrightarrow> ents t p = Some v \<or> v \<in> set es \<and> entityPrefix (fam t) v = Some p)
    else \<exists>err. bld t es = Inl err"
proof (induction es arbitrary: t)
  case (Cons e es)
  let ?p = "the (entityPrefix (fam t) e)"
  have fresh: "\<not> hasKey (ents t) (ne_Id e)" using Cons.prems(2) by simp
  show ?case
  proof (cases "insertable (fam t) e \<and> ents t ?p = None")
    case True
    with ins_law [OF Cons.prems(1) fresh] obtain t1 where
      t1: "ins t e = Inr t1" "inv t1" "fam t1 = fam t" "ents t1 = (ents t)(?p \<mapsto> e)" by auto
    have p: "entityPrefix (fam t) e = Some ?p" using True by (auto simp: insertable_def)
    have "\<forall>e' \<in> set es. \<not> hasKey (ents t1) (ne_Id e')"
      using Cons.prems(2,3) True by (auto simp: t1(4) hasKey_upd)
    with Cons.IH [OF t1(2)] Cons.prems(3) have IH: "if buildable t1 es
      then \<exists>t'. bld t1 es = Inr t' \<and> inv t' \<and> fam t' = fam t1
        \<and> (\<forall>p v. ents t' p = Some v \<longleftrightarrow> ents t1 p = Some v \<or> v \<in> set es \<and> entityPrefix (fam t1) v = Some p)
      else \<exists>err. bld t1 es = Inl err" by simp
    have "the (entityPrefix (fam t) e') = ?p \<longleftrightarrow> entityPrefix (fam t) e' = entityPrefix (fam t) e"
      if "insertable (fam t) e'" for e'
      using that p by (auto simp: insertable_def)
    then have eq: "buildable t1 es \<longleftrightarrow> buildable t (e # es)"
      using True by (auto simp: buildable_def t1(3,4) image_iff split: if_splits)
    have "ents t1 q = Some v \<longleftrightarrow> ents t q = Some v \<or> v = e \<and> entityPrefix (fam t) v = Some q" for q v
      using True p by (auto simp: t1(4))
    with IH show ?thesis unfolding eq t1(3) by (auto simp: bld_Cons t1(1) split: if_splits)
  next
    case False
    then have "\<not> buildable t (e # es)" by (simp add: buildable_def)
    with False ins_law [OF Cons.prems(1) fresh] show ?thesis by (auto simp: bld_Cons)
  qed
qed (simp add: buildable_def bld_Nil)

end

lemma hasKey_entries: "treeOK t \<Longrightarrow> hasKey (entries t) key \<longleftrightarrow> radixExists t key"
  by (simp add: radixExists_iff hasKey_def)

interpretation radix: entity_tree treeOK family entries radixInsert radixRemove build
proof unfold_locales
  fix t e es key
  show "build t [] = Inr t" "build t (e # es) = (case radixInsert t e of Inl err \<Rightarrow> Inl err | Inr t' \<Rightarrow> build t' es)"
    by (simp_all add: radixInsert_def)
  assume ok: "treeOK t"
  show "entries t [] \<noteq> None" using treeOK_root [OF ok] by auto
  show "\<exists>t'. radixRemove t key = Some t' \<and> treeOK t' \<and> family t' = family t \<and> entries t' = withoutKey (entries t) key"
    using radixRemove_spec [OF ok] by (simp add: withoutKey_def)
  assume "\<not> hasKey (entries t) (ne_Id e)"
  with ok show "if insertable (family t) e \<and> entries t (the (entityPrefix (family t) e)) = None
    then \<exists>t'. radixInsert t e = Inr t' \<and> treeOK t' \<and> family t' = family t
      \<and> entries t' = (entries t)(the (entityPrefix (family t) e) \<mapsto> e)
    else \<exists>err. radixInsert t e = Inl err"
    using radixInsert_spec [OF ok] by (simp add: hasKey_entries)
qed

subsection \<open>Reachable trees\<close>

text \<open>A new tree, and the trees its operations lead to, where an insertion uses a new identifier.\<close>

inductive radixReach :: "Family \<Rightarrow> nRadixTree \<Rightarrow> bool" for f :: Family where
  reach_new: "f \<noteq> InvalidFamily \<Longrightarrow> radixReach f (newDefaultNRadixTree f)"
| reach_insert: "radixReach f t \<Longrightarrow> \<not> radixExists t (ne_Id e) \<Longrightarrow> radixInsert t e = Inr t' \<Longrightarrow> radixReach f t'"
| reach_remove: "radixReach f t \<Longrightarrow> radixRemove t key = Some t' \<Longrightarrow> radixReach f t'"

lemma radixReach_OK: "radixReach f t \<Longrightarrow> treeOK t \<and> family t = f"
proof (induction rule: radixReach.induct)
  case reach_new
  with newDefaultNRadixTree_OK show ?case by (simp add: newDefaultNRadixTree_def Let_def)
next
  case (reach_insert t e t')
  with radix.ins_law [of t e] show ?case by (auto simp: hasKey_entries split: if_splits)
next
  case (reach_remove t key t')
  with radix.del_law [of t key] show ?case by auto
qed

lemma radixGet_entry: "treeOK t \<Longrightarrow> entries t p = Some v \<Longrightarrow> radixGet t (ne_Id v) = Some (rmDescIfInternet v)"
proof -
  assume ok: "treeOK t" and v: "entries t p = Some v"
  from entry_node [OF v] obtain a where a: "nodeAt (nodes t) (root t) p = Some a" "nvalue (nodes t ! a) = Some v" by blast
  with v have "mget (valueNodes t) (ne_Id v) = Some a" using mget_entry [OF ok] by blast
  with a(2) show ?thesis by (simp add: radixGet_def)
qed

lemma radixGet_missing: "treeOK t \<Longrightarrow> \<not> hasKey (entries t) key \<Longrightarrow> radixGet t key = None"
  by (simp add: hasKey_entries radixGet_def radixExists_def)

text \<open>A tree with one network besides the Internet, for the examples below.\<close>

definition tenNetwork :: NetworkEntityInfo where
  "tenNetwork = \<lparr>ne_Type = EXTERNAL_SOURCE, ne_Id = ''ten'', ne_Desc = Some (Desc_ExternalSource
     \<lparr>es_Name = ''ten'', es_Cidr = Some ''10.0.0.0/8'', es_Default = False, es_Discovered = False\<rparr>)\<rparr>"

definition tenPrefix :: "bool list" where
  "tenPrefix = [False, False, False, False, True, False, True, False]"

lemma tenNetwork_prefix: "entityPrefix IPv4 tenNetwork = Some tenPrefix"
  using private_networks_eval(1)
  by (simp add: entityPrefix_def tenNetwork_def entityCidr_def familyBits_def tenPrefix_def
      netPrefix_def netLen_def maskSize_def leadingOnes_zero byteBits_eval)

lemma tenNetwork_insertable: "insertable IPv4 tenNetwork"
  using tenNetwork_prefix by (simp add: insertable_def) (simp add: tenNetwork_def IsExternal_def IsKnownExternalSrc_def)

lemma ten_tree:
  "\<exists>t. radixReach IPv4 t \<and> entries t = [[] \<mapsto> the (InternetProtoWithDesc IPv4), tenPrefix \<mapsto> tenNetwork]"
proof -
  let ?t = "newDefaultNRadixTree IPv4"
  have new: "treeOK ?t" "entries ?t = [[] \<mapsto> the (InternetProtoWithDesc IPv4)]" "family ?t = IPv4"
    using newDefaultNRadixTree_OK [of IPv4] by (simp_all add: newDefaultNRadixTree_def Let_def)
  have fresh: "\<not> radixExists ?t (ne_Id tenNetwork)"
    by (simp add: newDefaultNRadixTree_def radixExists_def InternetProtoWithDesc_def InternetExternalSourceID_def tenNetwork_def)
  have "entries ?t tenPrefix = None" by (simp add: new tenPrefix_def)
  with radixInsert_spec [OF new(1) fresh] tenNetwork_prefix tenNetwork_insertable obtain t where
    "radixInsert ?t tenNetwork = Inr t" "entries t = (entries ?t)(tenPrefix \<mapsto> tenNetwork)" by (auto simp: new(3))
  with new reach_insert [OF reach_new fresh] show ?thesis by force
qed

lemma listsOf_single: "listsOf M {p} es \<Longrightarrow> M p = Some e \<Longrightarrow> es = [e]"
proof -
  assume l: "listsOf M {p} es" "M p = Some e"
  then obtain qs where qs: "distinct qs" "set qs = {p}" "map Some es = map M qs" by (auto simp: listsOf_def)
  then have "qs = [p]" by (cases qs; cases "tl qs") auto
  with qs(3) l(2) show ?thesis by auto
qed

subsection \<open>Properties of the network tree\<close>

text \<open>C18. Every walk along the pointers of a reachable tree returns: the removal of an identifier, the
  queries for subnets and supernets by identifier and by network, for every argument, and the
  validation; none runs into a nil pointer or out of the bytes of an address.\<close>

theorem radix_walks_return:
  assumes "radixReach f t"
  shows "radixRemove t key \<noteq> None \<and> radixGetSubnets t key \<noteq> None \<and> radixGetSubnetsForCIDR t cidr \<noteq> None
    \<and> radixGetMatchingSupernet t key pred \<noteq> None \<and> radixGetMatchingSupernetForCIDR t cidr pred \<noteq> None
    \<and> ValidateNetworkTree t \<noteq> None"
proof -
  have ok: "treeOK t" using radixReach_OK [OF assms] by simp
  have "radixGetSubnetsForCIDR t cidr \<noteq> None \<and> radixGetMatchingSupernetForCIDR t cidr pred \<noteq> None"
  proof (cases "parseCIDR cidr")
    case (Some n)
    then show ?thesis using radixGetSubnetsForCIDR_spec [OF ok Some] supernetForCIDR_spec(1) [OF ok Some, of pred] by auto
  qed (simp add: radixGetSubnetsForCIDR_def radixGetMatchingSupernetForCIDR_def getMatchingSupernetForCIDRNoLock_def)
  moreover have "radixGetSubnets t key \<noteq> None" using radixGetSubnets_spec [OF ok, of key] by (auto split: if_splits)
  moreover have "radixGetMatchingSupernet t key pred \<noteq> None"
    using radixGetMatchingSupernet_spec [OF ok, of key pred] by (auto split: if_splits)
  ultimately show ?thesis using radix.del_law [OF ok, of key] ValidateNetworkTree_spec [OF ok] by auto
qed

theorem radix_walks_return_witness:
  "\<exists>t. radixReach IPv4 t \<and> entries t tenPrefix = Some tenNetwork \<and> radixRemove t ''ten'' \<noteq> None"
proof -
  from ten_tree obtain t where t: "radixReach IPv4 t" "entries t tenPrefix = Some tenNetwork" by force
  with radix_walks_return [OF t(1), of "''ten''"] show ?thesis by blast
qed

text \<open>C6. A reachable tree implements a partial map from prefixes to entities. The insertion of an
  entity with a new identifier succeeds exactly when the entity is valid for the family and its
  prefix is free, and stores it there; a removal takes the entity with the identifier out, except
  the one of the root, and leaves the others; a lookup finds the entity with the identifier.\<close>

theorem radix_tree_implements_map:
  assumes "radixReach f t"
  shows "(\<not> radixExists t (ne_Id e) \<longrightarrow>
      (case radixInsert t e of
         Inr t' \<Rightarrow> insertable f e \<and> entries t (the (entityPrefix f e)) = None
           \<and> entries t' = (entries t)(the (entityPrefix f e) \<mapsto> e)
       | Inl err \<Rightarrow> \<not> (insertable f e \<and> entries t (the (entityPrefix f e)) = None)))
    \<and> (\<exists>t'. radixRemove t key = Some t' \<and> entries t' = withoutKey (entries t) key)
    \<and> (if hasKey (entries t) key then \<exists>p v. entries t p = Some v \<and> ne_Id v = key \<and> radixGet t key = Some (rmDescIfInternet v)
       else radixGet t key = None)"
proof -
  have ok: "treeOK t" "family t = f" using radixReach_OK [OF assms] by simp_all
  have "if hasKey (entries t) key then \<exists>p v. entries t p = Some v \<and> ne_Id v = key \<and> radixGet t key = Some (rmDescIfInternet v)
       else radixGet t key = None"
    using radixGet_entry [OF ok(1)] radixGet_missing [OF ok(1), of key] by (auto simp: hasKey_def)
  moreover have "\<not> radixExists t (ne_Id e) \<Longrightarrow> case radixInsert t e of
         Inr t' \<Rightarrow> insertable f e \<and> entries t (the (entityPrefix f e)) = None
           \<and> entries t' = (entries t)(the (entityPrefix f e) \<mapsto> e)
       | Inl err \<Rightarrow> \<not> (insertable f e \<and> entries t (the (entityPrefix f e)) = None)"
    using radixInsert_spec [OF ok(1), of e] ok(2) by (auto split: if_splits)
  ultimately show ?thesis using radix.del_law [OF ok(1), of key] by blast
qed

theorem radix_tree_implements_map_witness:
  "\<exists>t t'. radixReach IPv4 t \<and> entries t tenPrefix = Some tenNetwork
    \<and> radixRemove t ''ten'' = Some t' \<and> entries t' = [[] \<mapsto> the (InternetProtoWithDesc IPv4)]"
proof -
  from ten_tree obtain t where t: "radixReach IPv4 t"
    "entries t = [[] \<mapsto> the (InternetProtoWithDesc IPv4), tenPrefix \<mapsto> tenNetwork]" by blast
  from radix_tree_implements_map [OF t(1), of tenNetwork "''ten''"] obtain t' where
    "radixRemove t ''ten'' = Some t'" "entries t' = withoutKey (entries t) ''ten''" by blast
  moreover have "withoutKey (entries t) ''ten'' = [[] \<mapsto> the (InternetProtoWithDesc IPv4)]"
    by (rule ext) (simp add: t(2) withoutKey_def tenPrefix_def tenNetwork_def)
  ultimately show ?thesis using t by auto
qed

text \<open>The supernet of a network that a predicate accepts is the entity of the longest proper prefix
  of the network that has an accepted one, if any; the Internet may come with its description.\<close>

theorem radix_supernet_correct:
  assumes "radixReach f t" "parseCIDR cidr = Some n" "8 * length (IP n) = familyBits f"
  shows "\<exists>v. smallestSupernet (entries t) pred (netPrefix n) v
    \<and> map_option (map_option rmDescIfInternet) (radixGetMatchingSupernetForCIDR t cidr pred)
        = Some (map_option rmDescIfInternet v)"
proof -
  have ok: "treeOK t" "family t = f" using radixReach_OK [OF assms(1)] by simp_all
  have "rmDescIfInternet (rmDescIfInternet v) = rmDescIfInternet v" for v by (simp add: rmDescIfInternet_def)
  with supernetForCIDR_spec(2) [OF ok(1) assms(2), of pred] assms(3) ok(2) show ?thesis
    by (auto simp: option.map_comp o_def)
qed

theorem radix_supernet_correct_witness:
  "\<exists>t. radixReach IPv4 t
    \<and> map_option (map_option rmDescIfInternet) (radixGetMatchingSupernetForCIDR t ''10.0.0.0/8'' None)
        = Some (Some InternetEntity)"
proof -
  from ten_tree obtain t where t: "radixReach IPv4 t"
    "entries t = [[] \<mapsto> the (InternetProtoWithDesc IPv4), tenPrefix \<mapsto> tenNetwork]" by blast
  have p: "netPrefix \<lparr>IP = [10, 0, 0, 0], Mask = [255, 0, 0, 0]\<rparr> = tenPrefix"
    using tenNetwork_prefix private_networks_eval(1)
    by (simp add: entityPrefix_def tenNetwork_def entityCidr_def familyBits_def)
  have "smallestSupernet (entries t) None tenPrefix (Some (the (InternetProtoWithDesc IPv4)))"
    by (auto simp: t(2) smallestSupernet_def matches_def predOk_def strict_prefix_def intro!: exI [of _ "[]"])
      (simp add: tenPrefix_def)
  with radix_supernet_correct [OF t(1) private_networks_eval(1), of None] show ?thesis
    using smallestSupernet_unique t(1)
    by (fastforce simp: p familyBits_def InternetProtoWithDesc_def rmDescIfInternet_def InternetEntity_def)
qed

text \<open>The subnets of a network are the entities of the prefixes below it that have no other entity
  between, each once, whether or not the network itself is in the tree.\<close>

theorem radix_subnets_correct:
  assumes "radixReach f t" "parseCIDR cidr = Some n"
  shows "\<exists>es. radixGetSubnetsForCIDR t cidr = Some es
    \<and> listsOf (entries t) (largestSubnets (entries t) (netPrefix n)) es"
  using radixGetSubnetsForCIDR_spec [OF _ assms(2)] radixReach_OK [OF assms(1)] by blast

theorem radix_subnets_correct_witness:
  "\<exists>t. radixReach IPv4 t \<and> radixGetSubnetsForCIDR t ''0.0.0.0/0'' = Some [tenNetwork]"
proof -
  from ten_tree obtain t where t: "radixReach IPv4 t"
    "entries t = [[] \<mapsto> the (InternetProtoWithDesc IPv4), tenPrefix \<mapsto> tenNetwork]" by blast
  obtain n where n: "parseCIDR ''0.0.0.0/0'' = Some n" "netPrefix n = []"
    by (auto simp: ip_eval netPrefix_def netLen_def maskSize_def)
  have "largestSubnets (entries t) [] = {tenPrefix}"
    by (auto simp: largestSubnets_def t(2) tenPrefix_def split: if_splits)
  moreover have "listsOf (entries t) {tenPrefix} es \<Longrightarrow> es = [tenNetwork]" for es
    using listsOf_single [of "entries t" tenPrefix es tenNetwork] by (simp add: t(2))
  ultimately show ?thesis using radix_subnets_correct [OF t(1) n(1)] t(1) by (auto simp: n(2))
qed

text \<open>\<open>ValidateNetworkTree\<close> accepts a reachable tree exactly when it is a tree of IPv4 networks whose
  entities all write their network as \<open>IPNet.String\<close> prints it: it rejects every IPv6 tree.\<close>

theorem ValidateNetworkTree_correct:
  assumes "radixReach f t"
  shows "ValidateNetworkTree t = Some (f = IPv4 \<and> (\<forall>p e. entries t p = Some e \<longrightarrow> canonicalCidr e))"
  using ValidateNetworkTree_spec radixReach_OK [OF assms] by blast

theorem ValidateNetworkTree_correct_witness: "ValidateNetworkTree (newDefaultNRadixTree IPv6) = Some False"
  using ValidateNetworkTree_correct [OF reach_new [of IPv6]] by simp

end
