(* ===== verification/Network_Trees.thy ===== *)
theory Network_Trees
  imports Radix_Safety
begin

text \<open>
  The trees the services use: \<open>networkTreeWrapper\<close> (\<open>pkg/networkgraph/tree/wrapper.go\<close>), which
  keeps one radix tree per address family, and \<open>multiReadOnlyNTree\<close> (\<open>multitree.go\<close>), which
  combines several such trees for reading.

  The wrapper's map of trees is an association list, and a \<open>range\<close> loop over it visits the
  trees in the order of the list; the statements hold for every order. A panic or a walk that
  does not return is \<open>None\<close>. An operation that fails after it changed a tree returns the
  changed trees with the error.
\<close>

subsection \<open>The wrapper\<close>

type_synonym networkTreeWrapper = "(Family, nRadixTree) gomap"

definition newDefaultNetworkTreeWrapper :: networkTreeWrapper where
  "newDefaultNetworkTreeWrapper = [(IPv4, newDefaultNRadixTree IPv4), (IPv6, newDefaultNRadixTree IPv6)]"

text \<open>The grouping loop of \<open>NewNetworkTreeWrapper\<close>; a missing key reads as the empty slice.\<close>

fun groupByFamily :: "NetworkEntityInfo list \<Rightarrow> (Family \<Rightarrow> NetworkEntityInfo list) \<Rightarrow>
    treeError + (Family \<Rightarrow> NetworkEntityInfo list)" where
  "groupByFamily [] m = Inr m"
| "groupByFamily (e # es) m =
     (let ipNet = IPNetworkFromCIDR (entityCidr e)
      in if \<not> networkIsValid ipNet then Inl (ErrInvalidCIDR (entityCidr e))
         else groupByFamily es (m(networkFamily ipNet := m (networkFamily ipNet) @ [e])))"

definition NewNetworkTreeWrapper :: "NetworkEntityInfo list \<Rightarrow> treeError + networkTreeWrapper" where
  "NewNetworkTreeWrapper es =
     (case groupByFamily es (\<lambda>_. []) of Inl err \<Rightarrow> Inl err
      | Inr m \<Rightarrow>
          (case NewNRadixTree IPv4 (m IPv4) of Inl err \<Rightarrow> Inl err
           | Inr t4 \<Rightarrow>
               (case NewNRadixTree IPv6 (m IPv6) of Inl err \<Rightarrow> Inl err
                | Inr t6 \<Rightarrow> Inr [(IPv4, t4), (IPv6, t6)])))"

definition wrapperCardinality :: "networkTreeWrapper \<Rightarrow> int" where
  "wrapperCardinality w = fold (\<lambda>(f, t) n. n + int (radixCardinality t)) w (-1)"

definition getWithFamily :: "networkTreeWrapper \<Rightarrow> string \<Rightarrow> (NetworkEntityInfo \<times> Family) option" where
  "getWithFamily w key =
     (case find (\<lambda>(f, t). radixGet t key \<noteq> None) w of None \<Rightarrow> None
      | Some (f, t) \<Rightarrow> map_option (\<lambda>v. (v, f)) (radixGet t key))"

definition wrapperInsert :: "networkTreeWrapper \<Rightarrow> NetworkEntityInfo \<Rightarrow> (treeError option \<times> networkTreeWrapper) option" where
  "wrapperInsert w e =
     (let ipNet = IPNetworkFromCIDR (entityCidr e)
      in if \<not> networkIsValid ipNet then Some (Some (ErrInvalidCIDR (entityCidr e)), w)
         else Option.bind
           (case getWithFamily w (ne_Id e) of None \<Rightarrow> Some w
            | Some (_, f) \<Rightarrow>
                Option.bind (mget w f) (\<lambda>t. map_option (\<lambda>t'. mput f t' w) (radixRemove t (ne_Id e)))) (\<lambda>w'.
           map_option (\<lambda>t.
             (case radixInsert t e of Inl err \<Rightarrow> (Some err, w')
              | Inr t' \<Rightarrow> (None, mput (networkFamily ipNet) t' w')))
             (mget w' (networkFamily ipNet))))"

fun wrapperValidate :: "networkTreeWrapper \<Rightarrow> bool option" where
  "wrapperValidate [] = Some True"
| "wrapperValidate ((f, t) # w) =
     Option.bind (ValidateNetworkTree t) (\<lambda>ok. if \<not> ok then Some False else wrapperValidate w)"

definition findTree :: "networkTreeWrapper \<Rightarrow> string \<Rightarrow> (Family \<times> nRadixTree) option" where
  "findTree w key = find (\<lambda>(f, t). radixExists t key) w"

definition wrapperRemove :: "networkTreeWrapper \<Rightarrow> string \<Rightarrow> networkTreeWrapper option" where
  "wrapperRemove w key =
     (case findTree w key of None \<Rightarrow> Some w
      | Some (f, t) \<Rightarrow> map_option (\<lambda>t'. mput f t' w) (radixRemove t key))"

definition wrapperGetSupernet :: "networkTreeWrapper \<Rightarrow> string \<Rightarrow> NetworkEntityInfo option option" where
  "wrapperGetSupernet w key =
     (case findTree w key of None \<Rightarrow> Some None | Some (_, t) \<Rightarrow> radixGetSupernet t key)"

definition wrapperGetMatchingSupernet ::
    "networkTreeWrapper \<Rightarrow> string \<Rightarrow> (NetworkEntityInfo \<Rightarrow> bool) option \<Rightarrow> NetworkEntityInfo option option" where
  "wrapperGetMatchingSupernet w key pred =
     (case findTree w key of None \<Rightarrow> Some None | Some (_, t) \<Rightarrow> radixGetMatchingSupernet t key pred)"

definition wrapperGetSupernetForCIDR :: "networkTreeWrapper \<Rightarrow> string \<Rightarrow> NetworkEntityInfo option option" where
  "wrapperGetSupernetForCIDR w cidr =
     (let ipNet = IPNetworkFromCIDR cidr
      in if \<not> networkIsValid ipNet then Some None
         else Option.bind (mget w (networkFamily ipNet)) (\<lambda>t. radixGetSupernetForCIDR t cidr))"

definition wrapperGetMatchingSupernetForCIDR ::
    "networkTreeWrapper \<Rightarrow> string \<Rightarrow> (NetworkEntityInfo \<Rightarrow> bool) option \<Rightarrow> NetworkEntityInfo option option" where
  "wrapperGetMatchingSupernetForCIDR w cidr pred =
     (let ipNet = IPNetworkFromCIDR cidr
      in if \<not> networkIsValid ipNet then Some None
         else Option.bind (mget w (networkFamily ipNet)) (\<lambda>t. radixGetMatchingSupernetForCIDR t cidr pred))"

fun concatSubnets :: "networkTreeWrapper \<Rightarrow> string \<Rightarrow> NetworkEntityInfo list option" where
  "concatSubnets [] key = Some []"
| "concatSubnets ((f, t) # w) key =
     Option.bind (radixGetSubnets t key) (\<lambda>nets. map_option ((@) nets) (concatSubnets w key))"

definition wrapperGetSubnets :: "networkTreeWrapper \<Rightarrow> string \<Rightarrow> NetworkEntityInfo list option" where
  "wrapperGetSubnets w key =
     (if IsConstantID key then concatSubnets w key
      else case findTree w key of None \<Rightarrow> Some [] | Some (_, t) \<Rightarrow> radixGetSubnets t key)"

definition wrapperGetSubnetsForCIDR :: "networkTreeWrapper \<Rightarrow> string \<Rightarrow> NetworkEntityInfo list option" where
  "wrapperGetSubnetsForCIDR w cidr =
     (let ipNet = IPNetworkFromCIDR cidr
      in if \<not> networkIsValid ipNet then Some []
         else Option.bind (mget w (networkFamily ipNet)) (\<lambda>t. radixGetSubnetsForCIDR t cidr))"

definition wrapperGet :: "networkTreeWrapper \<Rightarrow> string \<Rightarrow> NetworkEntityInfo option" where
  "wrapperGet w key = map_option fst (getWithFamily w key)"

definition wrapperExists :: "networkTreeWrapper \<Rightarrow> string \<Rightarrow> bool" where
  "wrapperExists w key = list_ex (\<lambda>(f, t). radixExists t key) w"

subsection \<open>Several trees\<close>

type_synonym multiReadOnlyNTree = "networkTreeWrapper list"

definition NewMultiNetworkTree :: "networkTreeWrapper option list \<Rightarrow> multiReadOnlyNTree" where
  "NewMultiNetworkTree ts =
     (let filtered = concat (map (\<lambda>t. case t of None \<Rightarrow> [] | Some w \<Rightarrow> [w]) ts)
      in if filtered = [] then [newDefaultNetworkTreeWrapper] else filtered)"

definition multiCardinality :: "multiReadOnlyNTree \<Rightarrow> int" where
  "multiCardinality ts = fold (\<lambda>w n. n + wrapperCardinality w) ts 0 - int (length ts) + 1"

definition multiGet :: "multiReadOnlyNTree \<Rightarrow> string \<Rightarrow> NetworkEntityInfo option" where
  "multiGet ts key = (case find (\<lambda>w. wrapperGet w key \<noteq> None) ts of None \<Rightarrow> None | Some w \<Rightarrow> wrapperGet w key)"

definition multiExists :: "multiReadOnlyNTree \<Rightarrow> string \<Rightarrow> bool" where
  "multiExists ts key = list_ex (\<lambda>w. wrapperExists w key) ts"

text \<open>The loop of \<open>getSmallestSupernet\<close>, with the result and the longest prefix so far.\<close>

fun smallestLoop :: "NetworkEntityInfo list \<Rightarrow> NetworkEntityInfo \<Rightarrow> nat \<Rightarrow> NetworkEntityInfo option" where
  "smallestLoop [] ret largest = Some ret"
| "smallestLoop (e # es) ret largest =
     (if IsConstantID (ne_Id e) then smallestLoop es ret largest
      else case parseCIDR (entityCidr e) of None \<Rightarrow> smallestLoop es ret largest
      | Some ipNet \<Rightarrow>
          Option.bind (IPNetworkFromIPNet ipNet) (\<lambda>net.
            if networkIsValid net \<and> largest < unat (prefixLen net) then smallestLoop es e (unat (prefixLen net))
            else smallestLoop es ret largest))"

definition getSmallestSupernet :: "NetworkEntityInfo list \<Rightarrow> NetworkEntityInfo option" where
  "getSmallestSupernet es = smallestLoop es InternetEntity 0"

text \<open>When the tree of the subnets cannot be built, the nil tree is used: a panic.\<close>

definition getLargestSubnets :: "NetworkEntityInfo list \<Rightarrow> NetworkEntityInfo list option" where
  "getLargestSubnets es =
     (case NewNetworkTreeWrapper es of Inl err \<Rightarrow> None
      | Inr w \<Rightarrow> wrapperGetSubnets w InternetExternalSourceID)"

fun collectSupernets :: "multiReadOnlyNTree \<Rightarrow> string \<Rightarrow> (NetworkEntityInfo \<Rightarrow> bool) option \<Rightarrow>
    NetworkEntityInfo list option" where
  "collectSupernets [] cidr pred = Some []"
| "collectSupernets (w # ts) cidr pred =
     Option.bind (wrapperGetMatchingSupernetForCIDR w cidr pred) (\<lambda>match.
       map_option (\<lambda>rest. case match of None \<Rightarrow> rest | Some m \<Rightarrow> m # rest) (collectSupernets ts cidr pred))"

definition multiGetMatchingSupernetForCIDR ::
    "multiReadOnlyNTree \<Rightarrow> string \<Rightarrow> (NetworkEntityInfo \<Rightarrow> bool) option \<Rightarrow> NetworkEntityInfo option option" where
  "multiGetMatchingSupernetForCIDR ts cidr pred =
     (if \<not> networkIsValid (IPNetworkFromCIDR cidr) then Some None
      else Option.bind (collectSupernets ts cidr pred) (\<lambda>supernets. map_option Some (getSmallestSupernet supernets)))"

definition multiGetSupernetForCIDR :: "multiReadOnlyNTree \<Rightarrow> string \<Rightarrow> NetworkEntityInfo option" where
  "multiGetSupernetForCIDR ts cidr =
     map_option (\<lambda>match. case match of None \<Rightarrow> InternetEntity | Some m \<Rightarrow> m)
       (multiGetMatchingSupernetForCIDR ts cidr (Some (\<lambda>_. True)))"

definition multiGetMatchingSupernet ::
    "multiReadOnlyNTree \<Rightarrow> string \<Rightarrow> (NetworkEntityInfo \<Rightarrow> bool) option \<Rightarrow> NetworkEntityInfo option option" where
  "multiGetMatchingSupernet ts key pred =
     (case multiGet ts key of None \<Rightarrow> Some None
      | Some e \<Rightarrow> multiGetMatchingSupernetForCIDR ts (entityCidr e) pred)"

definition multiGetSupernet :: "multiReadOnlyNTree \<Rightarrow> string \<Rightarrow> NetworkEntityInfo option" where
  "multiGetSupernet ts key =
     map_option (\<lambda>match. case match of None \<Rightarrow> InternetEntity | Some m \<Rightarrow> m)
       (multiGetMatchingSupernet ts key (Some (\<lambda>_. True)))"

fun collectSubnets :: "multiReadOnlyNTree \<Rightarrow> string \<Rightarrow> NetworkEntityInfo list option" where
  "collectSubnets [] cidr = Some []"
| "collectSubnets (w # ts) cidr =
     Option.bind (wrapperGetSubnetsForCIDR w cidr) (\<lambda>ms. map_option ((@) ms) (collectSubnets ts cidr))"

definition multiGetSubnetsForCIDR :: "multiReadOnlyNTree \<Rightarrow> string \<Rightarrow> NetworkEntityInfo list option" where
  "multiGetSubnetsForCIDR ts cidr = Option.bind (collectSubnets ts cidr) getLargestSubnets"

text \<open>The first branch of \<open>GetSubnets\<close> also makes a call whose result it drops.\<close>

definition multiGetSubnets :: "multiReadOnlyNTree \<Rightarrow> string \<Rightarrow> NetworkEntityInfo list option" where
  "multiGetSubnets ts key =
     (case multiGet ts key of None \<Rightarrow> Some []
      | Some e \<Rightarrow>
          if \<not> IsConstantID (ne_Id e)
          then Option.bind (multiGetSubnetsForCIDR ts (entityCidr e)) (\<lambda>_. multiGetSubnetsForCIDR ts (entityCidr e))
          else Option.bind (Option.bind (multiGetSubnetsForCIDR ts ipv4InternetCIDR) getLargestSubnets) (\<lambda>ipv4s.
               map_option ((@) ipv4s)
                 (Option.bind (multiGetSubnetsForCIDR ts ipv6InternetCIDR) getLargestSubnets)))"

end
