(* ===== verification/Network_Safety.thy ===== *)
theory Network_Safety
  imports Network_Trees
begin

text \<open>
  What the wrapper and the multi-tree promise. The abstract view of a wrapper is, per address
  family, the partial map from prefixes to entities of its radix tree (\<open>wents\<close>); its invariant
  \<open>wrapOK\<close> adds to those of the radix trees that an identifier belongs to one family only.
\<close>

subsection \<open>The wrapper's invariant\<close>

text \<open>The family that the wrapper chooses for the entity.\<close>

definition routed :: "Family \<Rightarrow> NetworkEntityInfo \<Rightarrow> bool" where
  "routed f e \<longleftrightarrow> networkFamily (IPNetworkFromCIDR (entityCidr e)) = f"

definition wents :: "networkTreeWrapper \<Rightarrow> Family \<Rightarrow> bool list \<Rightarrow> NetworkEntityInfo option" where
  "wents w f = (case mget w f of None \<Rightarrow> (\<lambda>_. None) | Some t \<Rightarrow> entries t)"

definition treeFor :: "Family \<Rightarrow> nRadixTree \<Rightarrow> bool" where
  "treeFor f t \<longleftrightarrow> treeOK t \<and> family t = f
     \<and> (\<forall>p e. entries t p = Some e \<longrightarrow> p = [] \<or> insertable f e \<and> routed f e)"

definition wrapOK :: "networkTreeWrapper \<Rightarrow> bool" where
  "wrapOK w \<longleftrightarrow> wf_map w \<and> (\<forall>f. mget w f \<noteq> None \<longleftrightarrow> f = IPv4 \<or> f = IPv6)
     \<and> (\<forall>f t. mget w f = Some t \<longrightarrow> treeFor f t)
     \<and> (\<forall>key. key \<noteq> InternetExternalSourceID \<longrightarrow> \<not> (hasKey (wents w IPv4) key \<and> hasKey (wents w IPv6) key))"

lemma wrapOK_wf: "wrapOK w \<Longrightarrow> wf_map w"
  by (simp add: wrapOK_def)

lemma wrapOK_families: "wrapOK w \<Longrightarrow> mget w f \<noteq> None \<longleftrightarrow> f = IPv4 \<or> f = IPv6"
  unfolding wrapOK_def by blast

lemma wrapOK_treeFor: "wrapOK w \<Longrightarrow> mget w f = Some t \<Longrightarrow> treeFor f t"
  unfolding wrapOK_def by blast

lemma wrapOK_tree: "wrapOK w \<Longrightarrow> mget w f = Some t \<Longrightarrow> treeFor f t \<and> treeOK t \<and> family t = f \<and> wents w f = entries t"
  using wrapOK_treeFor [of w f t] unfolding treeFor_def wents_def by (simp del: map_of_eq_Some_iff)

lemma wrapOK_disjoint:
  "wrapOK w \<Longrightarrow> key \<noteq> InternetExternalSourceID \<Longrightarrow> \<not> (hasKey (wents w IPv4) key \<and> hasKey (wents w IPv6) key)"
  unfolding wrapOK_def by blast

lemma wrapOK_one_family:
  "wrapOK w \<Longrightarrow> key \<noteq> InternetExternalSourceID \<Longrightarrow> hasKey (wents w f) key \<Longrightarrow> hasKey (wents w g) key \<Longrightarrow> f = g"
proof -
  assume ok: "wrapOK w" and keys: "key \<noteq> InternetExternalSourceID" "hasKey (wents w f) key" "hasKey (wents w g) key"
  have "h = IPv4 \<or> h = IPv6" if "hasKey (wents w h) key" for h
    using that wrapOK_families [OF ok, of h] by (cases "mget w h") (simp_all add: wents_def hasKey_def)
  with keys wrapOK_disjoint [OF ok keys(1)] show ?thesis by metis
qed

text \<open>The identifier of the Internet is that of the root only.\<close>

lemma internet_at_root: "treeOK t \<Longrightarrow> entries t p = Some e \<Longrightarrow> ne_Id e = InternetExternalSourceID \<Longrightarrow> p = []"
  using treeOK_root [of t] entries_key_inj [of t p e "[]"] by auto

lemma withoutKey_no_key: "\<not> hasKey M key \<Longrightarrow> withoutKey M key = M"
  by (rule ext) (auto simp: withoutKey_def hasKey_def split: option.splits)

lemma withoutKey_internet: "treeOK t \<Longrightarrow> withoutKey (entries t) InternetExternalSourceID = entries t"
  by (rule ext) (auto simp: withoutKey_def dest: internet_at_root split: option.splits)

lemma hasKey_withoutKey: "hasKey (withoutKey M key) k \<Longrightarrow> hasKey M k"
  by (auto simp: hasKey_def withoutKey_Some)

lemma withoutKey_fresh: "treeOK t \<Longrightarrow> key \<noteq> InternetExternalSourceID \<Longrightarrow> \<not> hasKey (withoutKey (entries t) key) key"
  using treeOK_root [of t] by (auto simp: hasKey_def withoutKey_Some)

lemma wents_mput: "wents (mput f t w) g = (if g = f then entries t else wents w g)"
  by (simp add: wents_def)

text \<open>Replacing one tree.\<close>

lemma wrapOK_mput:
  assumes ok: "wrapOK w" and f: "mget w f = Some t" and t': "treeFor f t'"
    and keys: "\<And>key g. key \<noteq> InternetExternalSourceID \<Longrightarrow> hasKey (entries t') key \<Longrightarrow> hasKey (wents w g) key \<Longrightarrow> g = f"
  shows "wrapOK (mput f t' w)"
proof -
  have families: "mget (mput f t' w) g \<noteq> None \<longleftrightarrow> g = IPv4 \<or> g = IPv6" for g
    using wrapOK_families [OF ok] f by auto
  have trees: "treeFor g u" if "mget (mput f t' w) g = Some u" for g u
    using that wrapOK_treeFor [OF ok, of g] t' by (cases "g = f") simp_all
  have disjoint: "\<not> (hasKey (wents (mput f t' w) IPv4) key \<and> hasKey (wents (mput f t' w) IPv6) key)"
    if key: "key \<noteq> InternetExternalSourceID" for key
    using keys [OF key, of IPv4] keys [OF key, of IPv6] wrapOK_disjoint [OF ok key] by (auto simp: wents_mput)
  have "wf_map (mput f t' w)" using wrapOK_wf [OF ok] by simp
  with families trees disjoint show ?thesis unfolding wrapOK_def by blast
qed

text \<open>Removing the identifier from the tree that has it.\<close>

lemma wrapper_without:
  assumes ok: "wrapOK w" and t: "mget w f = Some t" "hasKey (entries t) key"
  shows "\<exists>t'. radixRemove t key = Some t' \<and> wrapOK (mput f t' w)
    \<and> wents (mput f t' w) = (\<lambda>g. withoutKey (wents w g) key)"
proof -
  note tree = wrapOK_tree [OF ok t(1)]
  from radix.del_law [of t key] tree obtain t' where
    t': "radixRemove t key = Some t'" "treeOK t'" "family t' = f" "entries t' = withoutKey (entries t) key" by auto
  have "treeFor f t'" using tree t' by (auto simp: treeFor_def withoutKey_Some)
  moreover have "g = f" if "k \<noteq> InternetExternalSourceID" "hasKey (entries t') k" "hasKey (wents w g) k" for k g
    using wrapOK_one_family [OF ok that(1,3)] that(2) tree by (metis hasKey_withoutKey t'(4))
  ultimately have "wrapOK (mput f t' w)" using wrapOK_mput [OF ok t(1)] by blast
  moreover have "wents (mput f t' w) g = withoutKey (wents w g) key" for g
  proof (cases "g = f \<or> key = InternetExternalSourceID")
    case True
    show ?thesis
    proof (cases "g = f")
      case False
      with True wrapOK_tree [OF ok, of g] show ?thesis
        by (cases "mget w g") (simp_all add: wents_mput withoutKey_internet, simp add: wents_def withoutKey_def)
    qed (use tree t'(4) in \<open>simp add: wents_mput\<close>)
  next
    case False
    then have "\<not> hasKey (wents w g) key" using wrapOK_one_family [OF ok _ _, of key g f] t(2) tree by auto
    with False show ?thesis by (simp add: wents_mput withoutKey_no_key)
  qed
  ultimately show ?thesis using t'(1) by auto
qed

subsection \<open>Finding, removing and inserting an identifier\<close>

lemma wrapper_find:
  assumes ok: "wrapOK w" and P: "\<And>f t. treeOK t \<Longrightarrow> P (f, t) \<longleftrightarrow> hasKey (entries t) key"
  shows "case find P w of None \<Rightarrow> \<forall>f. \<not> hasKey (wents w f) key
    | Some (f, t) \<Rightarrow> mget w f = Some t \<and> hasKey (entries t) key"
proof (cases "find P w")
  case None
  have "\<not> hasKey (wents w f) key" for f
  proof (cases "mget w f")
    case (Some t)
    then have "(f, t) \<in> set w" by (rule map_of_SomeD)
    with None have "\<not> P (f, t)" by (auto simp: find_None_iff)
    with P wrapOK_tree [OF ok Some] show ?thesis by simp
  qed (simp add: wents_def hasKey_def)
  with None show ?thesis by simp
next
  case (Some a)
  obtain f t where a: "a = (f, t)" by (cases a)
  with Some have "(f, t) \<in> set w" "P (f, t)" by (auto simp: find_Some_iff)
  with wrapOK_wf [OF ok] have "mget w f = Some t" by (simp add: mget_eq_iff_in_set)
  with P \<open>P (f, t)\<close> wrapOK_tree [OF ok] Some a show ?thesis by (simp del: map_of_eq_Some_iff)
qed

lemma radixGet_hasKey: "treeOK t \<Longrightarrow> radixGet t key \<noteq> None \<longleftrightarrow> hasKey (entries t) key"
  using radixGet_entry [of t] radixGet_missing [of t key] by (fastforce simp: hasKey_def)

lemma findTree_spec:
  "wrapOK w \<Longrightarrow> case findTree w key of None \<Rightarrow> \<forall>f. \<not> hasKey (wents w f) key
    | Some (f, t) \<Rightarrow> mget w f = Some t \<and> hasKey (entries t) key"
  unfolding findTree_def by (rule wrapper_find) (simp_all add: hasKey_entries)

lemma getWithFamily_spec:
  "wrapOK w \<Longrightarrow> case getWithFamily w key of None \<Rightarrow> \<forall>f. \<not> hasKey (wents w f) key
    | Some (v, f) \<Rightarrow> \<exists>t. mget w f = Some t \<and> hasKey (entries t) key \<and> radixGet t key = Some v"
proof -
  assume ok: "wrapOK w"
  have "case find (\<lambda>(f, t). radixGet t key \<noteq> None) w of None \<Rightarrow> \<forall>f. \<not> hasKey (wents w f) key
    | Some (f, t) \<Rightarrow> mget w f = Some t \<and> hasKey (entries t) key"
    by (rule wrapper_find [OF ok]) (simp only: prod.case radixGet_hasKey)
  then show ?thesis
  proof (cases "find (\<lambda>(f, t). radixGet t key \<noteq> None) w")
    case (Some a)
    obtain f t where a: "a = (f, t)" by (cases a)
    assume "case find (\<lambda>(f, t). radixGet t key \<noteq> None) w of None \<Rightarrow> \<forall>f. \<not> hasKey (wents w f) key
      | Some (f, t) \<Rightarrow> mget w f = Some t \<and> hasKey (entries t) key"
    then have t: "mget w f = Some t" "hasKey (entries t) key" using Some a by simp_all
    moreover obtain v where "radixGet t key = Some v"
      using radixGet_hasKey [of t key] wrapOK_tree [OF ok t(1)] t(2) by auto
    ultimately show ?thesis unfolding getWithFamily_def Some a by simp
  qed (simp add: getWithFamily_def)
qed

lemma wrapperRemove_spec:
  assumes ok: "wrapOK w"
  shows "\<exists>w'. wrapperRemove w key = Some w' \<and> wrapOK w' \<and> wents w' = (\<lambda>g. withoutKey (wents w g) key)"
proof (cases "findTree w key")
  case None
  with findTree_spec [OF ok, of key] ok show ?thesis by (simp add: wrapperRemove_def withoutKey_no_key)
next
  case (Some a)
  obtain f t where a: "a = (f, t)" by (cases a)
  with findTree_spec [OF ok, of key] Some have "mget w f = Some t" "hasKey (entries t) key" by simp_all
  from wrapper_without [OF ok this] Some a show ?thesis by (auto simp: wrapperRemove_def)
qed

lemma valid_family: "networkIsValid n \<Longrightarrow> networkFamily n = IPv4 \<or> networkFamily n = IPv6"
  by (auto simp: networkIsValid_def addrIsValid_def networkFamily_def addrFamily_def dataFamily_def
      split: option.splits ipAddrData.splits)

text \<open>The first step of an insertion: the stored entity of the identifier is removed.\<close>

lemma insert_removes:
  assumes ok: "wrapOK w"
  shows "\<exists>w'. (case getWithFamily w key of None \<Rightarrow> Some w
      | Some (_, f) \<Rightarrow> Option.bind (mget w f) (\<lambda>t. map_option (\<lambda>t'. mput f t' w) (radixRemove t key))) = Some w'
    \<and> wrapOK w' \<and> wents w' = (\<lambda>g. withoutKey (wents w g) key)"
proof (cases "getWithFamily w key")
  case None
  with getWithFamily_spec [OF ok, of key] ok show ?thesis by (simp add: withoutKey_no_key)
next
  case (Some a)
  obtain v f where a: "a = (v, f)" by (cases a)
  with getWithFamily_spec [OF ok, of key] Some obtain t where
    t: "mget w f = Some t" "hasKey (entries t) key" by auto
  from wrapper_without [OF ok t] Some a t(1) show ?thesis by (auto simp del: map_of_eq_Some_iff)
qed

lemma wrapperInsert_spec:
  assumes ok: "wrapOK w" and key: "ne_Id e \<noteq> InternetExternalSourceID"
    and valid: "networkIsValid (IPNetworkFromCIDR (entityCidr e))"
  defines "f \<equiv> networkFamily (IPNetworkFromCIDR (entityCidr e))" and "m \<equiv> \<lambda>g. withoutKey (wents w g) (ne_Id e)"
  shows "\<exists>r w'. wrapperInsert w e = Some (r, w') \<and> wrapOK w'
    \<and> (if insertable f e \<and> m f (the (entityPrefix f e)) = None
       then r = None \<and> wents w' = m(f := (m f)(the (entityPrefix f e) \<mapsto> e))
       else r \<noteq> None \<and> wents w' = m)"
proof -
  obtain w1 where w1: "(case getWithFamily w (ne_Id e) of None \<Rightarrow> Some w
      | Some (_, f) \<Rightarrow> Option.bind (mget w f) (\<lambda>t. map_option (\<lambda>t'. mput f t' w) (radixRemove t (ne_Id e)))) = Some w1"
    "wrapOK w1" "wents w1 = m"
    using insert_removes [OF ok, of "ne_Id e"] unfolding m_def by blast
  have f: "f = IPv4 \<or> f = IPv6" unfolding f_def by (rule valid_family [OF valid])
  obtain t0 where t0: "mget w f = Some t0" using wrapOK_families [OF ok, of f] f by auto
  obtain t where t: "mget w1 f = Some t" using wrapOK_families [OF w1(2), of f] f by auto
  note tree = wrapOK_tree [OF w1(2) t] and tree0 = wrapOK_tree [OF ok t0]
  have gone: "\<not> hasKey (m g) (ne_Id e)" for g
    using withoutKey_fresh [OF _ key] wrapOK_tree [OF ok, of g] unfolding m_def
    by (cases "mget w g") (auto simp: wents_def withoutKey_def hasKey_def)
  then have fresh: "\<not> hasKey (entries t) (ne_Id e)" using tree w1(3) by (metis)
  have res: "wrapperInsert w e = map_option (\<lambda>t.
       (case radixInsert t e of Inl err \<Rightarrow> (Some err, w1) | Inr t' \<Rightarrow> (None, mput f t' w1))) (Some t)"
    using valid w1(1) t unfolding wrapperInsert_def f_def by (simp add: Let_def)
  show ?thesis
  proof (cases "insertable f e \<and> m f (the (entityPrefix f e)) = None")
    case True
    with radix.ins_law [of t e] tree fresh w1(3) obtain t' where
      t': "radixInsert t e = Inr t'" "treeOK t'" "family t' = f" "entries t' = (entries t)(the (entityPrefix f e) \<mapsto> e)"
      by auto
    have "treeFor f t'" using tree t' True by (auto simp: treeFor_def routed_def f_def)
    moreover have "g = f" if "k \<noteq> InternetExternalSourceID" "hasKey (entries t') k" "hasKey (wents w1 g) k" for k g
    proof -
      have "entries t (the (entityPrefix f e)) = None" using True tree w1(3) by metis
      with that(2) t'(4) have "hasKey (entries t) k \<or> ne_Id e = k" by (simp add: hasKey_upd)
      then show ?thesis using that gone [of g] w1(3) tree wrapOK_one_family [OF w1(2) that(1,3), of f] by auto
    qed
    ultimately have "wrapOK (mput f t' w1)" using wrapOK_mput [OF w1(2) t] by blast
    moreover have "wents (mput f t' w1) = m(f := (m f)(the (entityPrefix f e) \<mapsto> e))"
      using tree t'(4) w1(3) by (auto simp: wents_mput fun_eq_iff)
    ultimately show ?thesis using True res t'(1) by simp
  next
    case False
    with radix.ins_law [of t e] tree fresh w1(3) obtain err where "radixInsert t e = Inl err" by auto
    with False res w1(2,3) show ?thesis by auto
  qed
qed

subsection \<open>Building a wrapper\<close>

definition routable :: "NetworkEntityInfo \<Rightarrow> bool" where
  "routable e \<longleftrightarrow> networkIsValid (IPNetworkFromCIDR (entityCidr e))"

lemma groupByFamily_spec:
  "if list_all routable es then groupByFamily es m = Inr (\<lambda>f. m f @ filter (routed f) es)
   else \<exists>err. groupByFamily es m = Inl err"
proof (induction es arbitrary: m)
  case (Cons e es)
  show ?case
  proof (cases "routable e")
    case True
    let ?f = "networkFamily (IPNetworkFromCIDR (entityCidr e))"
    have "(\<lambda>g. (m(?f := m ?f @ [e])) g @ filter (routed g) es) = (\<lambda>g. m g @ filter (routed g) (e # es))"
      by (rule ext) (simp add: routed_def)
    with Cons.IH [of "m(?f := m ?f @ [e])"] True show ?thesis by (simp add: routable_def Let_def)
  qed (simp add: routable_def)
qed simp

lemma new_tree:
  "f \<noteq> InvalidFamily \<Longrightarrow> treeOK (newDefaultNRadixTree f) \<and> family (newDefaultNRadixTree f) = f
    \<and> entries (newDefaultNRadixTree f) = [[] \<mapsto> the (InternetProtoWithDesc f)]"
  using newDefaultNRadixTree_OK [of f] by (simp add: newDefaultNRadixTree_def Let_def)

lemma internet_id: "f \<noteq> InvalidFamily \<Longrightarrow> ne_Id (the (InternetProtoWithDesc f)) = InternetExternalSourceID"
  by (cases f) (simp_all add: InternetProtoWithDesc_def)

text \<open>Entities that fit a new tree of the family.\<close>

definition fits :: "Family \<Rightarrow> NetworkEntityInfo list \<Rightarrow> bool" where
  "fits f es \<longleftrightarrow> (\<forall>e \<in> set es. insertable f e \<and> entityPrefix f e \<noteq> Some []) \<and> distinct (map (entityPrefix f) es)"

definition freshIds :: "NetworkEntityInfo list \<Rightarrow> bool" where
  "freshIds es \<longleftrightarrow> distinct (map ne_Id es) \<and> (\<forall>e \<in> set es. ne_Id e \<noteq> InternetExternalSourceID)"

lemma NewNRadixTree_spec:
  assumes f: "f \<noteq> InvalidFamily" and ids: "freshIds es"
  shows "if fits f es
    then \<exists>t. NewNRadixTree f es = Inr t \<and> treeOK t \<and> family t = f
      \<and> (\<forall>p v. entries t p = Some v \<longleftrightarrow> p = [] \<and> v = the (InternetProtoWithDesc f) \<or> v \<in> set es \<and> entityPrefix f v = Some p)
    else \<exists>err. NewNRadixTree f es = Inl err"
proof -
  let ?t = "newDefaultNRadixTree f"
  note new = new_tree [OF f]
  have "\<not> hasKey (entries ?t) (ne_Id e)" if "e \<in> set es" for e
    using ids that internet_id [OF f] by (auto simp: new hasKey_def freshIds_def split: if_splits)
  moreover have "radix.buildable ?t es \<longleftrightarrow> fits f es"
    by (auto simp: radix.buildable_def fits_def new insertable_def)
  moreover have "entries ?t p = Some v \<longleftrightarrow> p = [] \<and> v = the (InternetProtoWithDesc f)" for p v
    by (auto simp: new)
  ultimately show ?thesis
    using radix.bld_spec [of ?t es] conjunct1 [OF new] conjunct1 [OF conjunct2 [OF new]] ids
    by (cases "fits f es") (simp_all add: NewNRadixTree_def freshIds_def)
qed

lemma freshIds_filter: "freshIds es \<Longrightarrow> freshIds (filter P es)"
  by (auto simp: freshIds_def distinct_map_filter)

lemma NewNetworkTreeWrapper_spec:
  assumes ids: "freshIds es"
  shows "if list_all routable es \<and> fits IPv4 (filter (routed IPv4) es) \<and> fits IPv6 (filter (routed IPv6) es)
    then \<exists>t4 t6. NewNetworkTreeWrapper es = Inr [(IPv4, t4), (IPv6, t6)] \<and> wrapOK [(IPv4, t4), (IPv6, t6)]
      \<and> (\<forall>f p v. f \<noteq> InvalidFamily \<longrightarrow> (wents [(IPv4, t4), (IPv6, t6)] f p = Some v
            \<longleftrightarrow> p = [] \<and> v = the (InternetProtoWithDesc f) \<or> v \<in> set es \<and> routed f v \<and> entityPrefix f v = Some p))
    else \<exists>err. NewNetworkTreeWrapper es = Inl err"
proof (cases "list_all routable es \<and> fits IPv4 (filter (routed IPv4) es) \<and> fits IPv6 (filter (routed IPv6) es)")
  case True
  then have group: "groupByFamily es (\<lambda>_. []) = Inr (\<lambda>f. filter (routed f) es)"
    using groupByFamily_spec [of es "\<lambda>_. []"] by simp
  note new = NewNRadixTree_spec [OF _ freshIds_filter [OF ids]]
  from new [of IPv4] True obtain t4 where t4: "NewNRadixTree IPv4 (filter (routed IPv4) es) = Inr t4" "treeOK t4" "family t4 = IPv4"
    "\<And>p v. entries t4 p = Some v \<longleftrightarrow> p = [] \<and> v = the (InternetProtoWithDesc IPv4)
      \<or> v \<in> set (filter (routed IPv4) es) \<and> entityPrefix IPv4 v = Some p"
    by (simp only: Family.distinct if_True simp_thms not_False_eq_True) metis
  from new [of IPv6] True obtain t6 where t6: "NewNRadixTree IPv6 (filter (routed IPv6) es) = Inr t6" "treeOK t6" "family t6 = IPv6"
    "\<And>p v. entries t6 p = Some v \<longleftrightarrow> p = [] \<and> v = the (InternetProtoWithDesc IPv6)
      \<or> v \<in> set (filter (routed IPv6) es) \<and> entityPrefix IPv6 v = Some p"
    by (simp only: Family.distinct if_True simp_thms not_False_eq_True) metis
  let ?w = "[(IPv4, t4), (IPv6, t6)]"
  have w: "wents ?w IPv4 = entries t4" "wents ?w IPv6 = entries t6" by (simp_all add: wents_def)
  have ents: "wents ?w f p = Some v
      \<longleftrightarrow> p = [] \<and> v = the (InternetProtoWithDesc f) \<or> v \<in> set es \<and> routed f v \<and> entityPrefix f v = Some p"
    if "f \<noteq> InvalidFamily" for f p v
    using that t4(4) t6(4) w by (cases f) auto
  have "treeFor IPv4 t4" "treeFor IPv6 t6"
    using t4 t6 True by (auto simp: treeFor_def fits_def)
  moreover have "\<not> (hasKey (wents ?w IPv4) key \<and> hasKey (wents ?w IPv6) key)" if key: "key \<noteq> InternetExternalSourceID" for key
  proof
    assume both: "hasKey (wents ?w IPv4) key \<and> hasKey (wents ?w IPv6) key"
    have "\<exists>v \<in> set es. routed g v \<and> ne_Id v = key" if "g \<noteq> InvalidFamily" "hasKey (wents ?w g) key" for g
      using that ents [OF that(1)] internet_id [OF that(1)] key by (auto simp: hasKey_def)
    with both obtain v u where "v \<in> set es" "u \<in> set es" "routed IPv4 v" "routed IPv6 u" "ne_Id v = ne_Id u" by blast
    with ids show False by (auto simp: freshIds_def distinct_map routed_def dest: inj_onD)
  qed
  ultimately have "wrapOK ?w" by (auto simp: wrapOK_def)
  moreover have "NewNetworkTreeWrapper es = Inr ?w"
    using group t4(1) t6(1) by (simp add: NewNetworkTreeWrapper_def)
  ultimately show ?thesis using True ents by auto
next
  case False
  show ?thesis
  proof (cases "list_all routable es")
    case True
    with False groupByFamily_spec [of es "\<lambda>_. []"] NewNRadixTree_spec [OF _ freshIds_filter [OF ids], of IPv4 "routed IPv4"]
      NewNRadixTree_spec [OF _ freshIds_filter [OF ids], of IPv6 "routed IPv6"] show ?thesis
      by (auto simp: NewNetworkTreeWrapper_def split: if_splits sum.splits)
  next
    case False
    with groupByFamily_spec [of es "\<lambda>_. []"] show ?thesis by (auto simp: NewNetworkTreeWrapper_def)
  qed
qed

lemma newDefault_wrapOK:
  "wrapOK newDefaultNetworkTreeWrapper"
  "f \<noteq> InvalidFamily \<Longrightarrow> wents newDefaultNetworkTreeWrapper f = [[] \<mapsto> the (InternetProtoWithDesc f)]"
proof -
  have new: "NewNetworkTreeWrapper [] = Inr newDefaultNetworkTreeWrapper"
    by (simp add: NewNetworkTreeWrapper_def NewNRadixTree_def newDefaultNetworkTreeWrapper_def)
  with NewNetworkTreeWrapper_spec [of "[]"] show "wrapOK newDefaultNetworkTreeWrapper"
    by (auto simp: freshIds_def fits_def)
  assume "f \<noteq> InvalidFamily"
  then show "wents newDefaultNetworkTreeWrapper f = [[] \<mapsto> the (InternetProtoWithDesc f)]"
    using new_tree [of f] by (cases f) (simp_all add: newDefaultNetworkTreeWrapper_def wents_def)
qed

subsection \<open>Reachable wrappers\<close>

text \<open>An insertion may fail and still change the wrapper. The identifier of the Internet, which the
  wrapper does not protect, is not inserted again.\<close>

inductive wrapReach :: "networkTreeWrapper \<Rightarrow> bool" where
  wr_default: "wrapReach newDefaultNetworkTreeWrapper"
| wr_new: "freshIds es \<Longrightarrow> NewNetworkTreeWrapper es = Inr w \<Longrightarrow> wrapReach w"
| wr_insert: "wrapReach w \<Longrightarrow> ne_Id e \<noteq> InternetExternalSourceID \<Longrightarrow> wrapperInsert w e = Some (r, w') \<Longrightarrow> wrapReach w'"
| wr_remove: "wrapReach w \<Longrightarrow> wrapperRemove w key = Some w' \<Longrightarrow> wrapReach w'"

lemma wrapReach_OK: "wrapReach w \<Longrightarrow> wrapOK w"
proof (induction rule: wrapReach.induct)
  case (wr_new es w)
  then show ?case using NewNetworkTreeWrapper_spec [OF wr_new(1)] by (auto split: if_splits)
next
  case (wr_insert w e r w')
  then show ?case using wrapperInsert_spec [OF wr_insert(4,2)]
    by (cases "networkIsValid (IPNetworkFromCIDR (entityCidr e))") (auto simp: wrapperInsert_def Let_def)
next
  case (wr_remove w key w')
  then show ?case using wrapperRemove_spec [OF wr_remove(3), of key] by auto
qed (rule newDefault_wrapOK)

subsection \<open>Queries by network\<close>

text \<open>The network of a query and its family; an IPv4-mapped IPv6 network has none.\<close>

definition queryNet :: "string \<Rightarrow> IPNet \<Rightarrow> Family \<Rightarrow> bool" where
  "queryNet cidr n f \<longleftrightarrow> parseCIDR cidr = Some n \<and> networkFamily (IPNetworkFromCIDR cidr) = f
     \<and> 8 * length (IP n) = familyBits f"

lemma queryNet_valid: "queryNet cidr n f \<Longrightarrow> networkIsValid (IPNetworkFromCIDR cidr) \<and> (f = IPv4 \<or> f = IPv6)"
proof -
  assume q: "queryNet cidr n f"
  then have "wfNet n" using parseCIDR_wf by (auto simp: queryNet_def)
  with q have "networkIsValid (IPNetworkFromCIDR cidr)"
    by (auto simp: queryNet_def IPNetworkFromCIDR_def networkIsValid_def addrIsValid_def IPFromBytes_def wfNet_def)
  with q valid_family show ?thesis by (auto simp: queryNet_def)
qed

lemma queryNet_tree: "wrapOK w \<Longrightarrow> queryNet cidr n f \<Longrightarrow> \<exists>t. mget w f = Some t \<and> treeOK t \<and> family t = f \<and> wents w f = entries t"
  using wrapOK_families [of w f] queryNet_valid [of cidr n f] wrapOK_tree [of w f] by blast

lemma wrapper_supernet:
  assumes ok: "wrapOK w" and q: "queryNet cidr n f"
  shows "\<exists>r v. wrapperGetMatchingSupernetForCIDR w cidr pred = Some r
    \<and> smallestSupernet (wents w f) pred (netPrefix n) v \<and> (r = v \<or> r = map_option rmDescIfInternet v)"
proof -
  obtain t where t: "mget w f = Some t" "treeOK t" "family t = f" "wents w f = entries t" using queryNet_tree [OF ok q] by blast
  have "wrapperGetMatchingSupernetForCIDR w cidr pred = radixGetMatchingSupernetForCIDR t cidr pred"
    using queryNet_valid [OF q] q t(1) by (simp add: wrapperGetMatchingSupernetForCIDR_def queryNet_def Let_def)
  with supernetForCIDR_spec(2) [OF t(2), of cidr n pred] q t(3,4) show ?thesis by (simp add: queryNet_def)
qed

lemma wrapper_subnets:
  assumes ok: "wrapOK w" and q: "queryNet cidr n f"
  shows "\<exists>es. wrapperGetSubnetsForCIDR w cidr = Some es
    \<and> listsOf (wents w f) (largestSubnets (wents w f) (netPrefix n)) es"
proof -
  obtain t where t: "mget w f = Some t" "treeOK t" "wents w f = entries t" using queryNet_tree [OF ok q] by blast
  have "wrapperGetSubnetsForCIDR w cidr = radixGetSubnetsForCIDR t cidr"
    using queryNet_valid [OF q] q t(1) by (simp add: wrapperGetSubnetsForCIDR_def queryNet_def Let_def)
  with radixGetSubnetsForCIDR_spec [OF t(2), of cidr n] q t(3) show ?thesis by (simp add: queryNet_def)
qed

subsection \<open>The smallest supernet over several trees\<close>

text \<open>What the loop of \<open>getSmallestSupernet\<close> reads of an entity: the length of its prefix.\<close>

definition netLength :: "NetworkEntityInfo \<Rightarrow> nat" where
  "netLength e = (case parseCIDR (entityCidr e) of None \<Rightarrow> 0 | Some n \<Rightarrow> netLen n)"

definition ordinary :: "NetworkEntityInfo \<Rightarrow> bool" where
  "ordinary e \<longleftrightarrow> \<not> IsConstantID (ne_Id e)"

definition regular :: "NetworkEntityInfo \<Rightarrow> bool" where
  "regular e \<longleftrightarrow> (\<exists>n f. queryNet (entityCidr e) n f)"

lemma queryNet_IPNetwork:
  assumes "queryNet cidr n f"
  shows "\<exists>net. IPNetworkFromIPNet n = Some net \<and> networkIsValid net \<and> unat (prefixLen net) = netLen n"
proof -
  have n: "parseCIDR cidr = Some n" "wfNet n" using assms parseCIDR_wf by (auto simp: queryNet_def)
  then obtain d where d: "IPFromBytes (IP n) = Some d" by (auto simp: IPFromBytes_def wfNet_def)
  have "dataFamily d = f" using assms n d
    by (simp add: queryNet_def IPNetworkFromCIDR_def networkFamily_def addrFamily_def)
  moreover have "length (IP n) = 4 \<or> length (IP n) = 16" using n(2) by (simp add: wfNet_def)
  moreover have "8 * length (IP n) = familyBits f" using assms by (simp add: queryNet_def)
  ultimately have len: "length (dataBytes d) * 8 = 8 * length (IP n)"
    using d by (auto simp: IPFromBytes_def canonicalize_def dataFamily_def familyBits_def dataBytes_def
        split: if_splits ipAddrData.splits)
  have size: "maskSize (Mask n) = (netLen n, 8 * length (IP n))"
    using maskSize_cidrMask [OF wfNet_netLen [OF n(2)]] n(2) by (simp add: wfNet_def)
  have "netLen n < 256" using n(2) by (auto simp: wfNet_def)
  with d size len show ?thesis
    by (simp add: IPNetworkFromIPNet_def networkIsValid_def addrIsValid_def unat_of_nat take_bit_eq_mod)
qed

lemma smallestLoop_spec:
  "\<forall>e \<in> set es. ordinary e \<longrightarrow> regular e \<Longrightarrow>
    \<exists>r. smallestLoop es ret k = Some r
      \<and> (if \<exists>e \<in> set es. ordinary e \<and> k < netLength e
         then r \<in> set es \<and> ordinary r \<and> (\<forall>e \<in> set es. ordinary e \<longrightarrow> netLength e \<le> netLength r) \<and> k < netLength r
         else r = ret)"
proof (induction es arbitrary: ret k)
  case (Cons e es)
  show ?case
  proof (cases "ordinary e")
    case False
    with Cons.IH [of ret k] Cons.prems show ?thesis by (auto simp: ordinary_def split: if_splits)
  next
    case True
    with Cons.prems obtain n f where q: "queryNet (entityCidr e) n f" by (auto simp: regular_def)
    obtain net where net: "IPNetworkFromIPNet n = Some net" "networkIsValid net" "unat (prefixLen net) = netLen n"
      using queryNet_IPNetwork [OF q] by blast
    have n: "parseCIDR (entityCidr e) = Some n" "netLength e = netLen n"
      using q by (simp_all add: queryNet_def netLength_def)
    have "smallestLoop (e # es) ret k
        = (if k < netLength e then smallestLoop es e (netLength e) else smallestLoop es ret k)"
      using True net n by (simp add: ordinary_def)
    moreover have "\<forall>e \<in> set es. ordinary e \<longrightarrow> regular e" using Cons.prems by simp
    ultimately show ?thesis
      using Cons.IH [of e "netLength e"] Cons.IH [of ret k] True
      by (cases "k < netLength e") (auto split: if_splits intro: order_trans less_le_trans)
  qed
qed simp

lemma smallestSupernet_exists: "\<exists>v. smallestSupernet M pred p v"
proof (induction p rule: rev_induct)
  case (snoc x p)
  then show ?case by (cases "matches M pred p") (auto simp: smallestSupernet_snoc)
qed (simp add: smallestSupernet_Nil)

lemma smallestSupernet_above_match:
  assumes "smallestSupernet M pred p r" "strict_prefix q p" "matches M pred q"
  obtains v q' where "r = Some v" "prefix q q'" "strict_prefix q' p" "M q' = Some v" "predOk pred v"
proof -
  from assms obtain v q' where v: "r = Some v" "strict_prefix q' p" "M q' = Some v" "predOk pred v"
    "\<not> strict_prefix q' q"
    by (auto simp: smallestSupernet_def split: option.splits)
  then have "prefix q q'" using assms(2) prefix_same_cases [of q p q'] by (auto simp: strict_prefix_def)
  with v that show ?thesis by blast
qed

lemma wents_entry:
  assumes ok: "wrapOK w" and e: "wents w f q = Some e" "q \<noteq> []"
  shows "insertable f e \<and> routed f e \<and> entityPrefix f e = Some q \<and> regular e \<and> netLength e = length q
    \<and> ne_Id e \<noteq> InternetExternalSourceID"
proof -
  obtain t where t: "mget w f = Some t" using e by (cases "mget w f") (simp_all add: wents_def)
  note tree = wrapOK_tree [OF ok t]
  with e obtain n where n: "parseCIDR (entityCidr e) = Some n" "8 * length (IP n) = familyBits f" "netPrefix n = q"
    using treeOK_entry [of t q e] by auto
  have "insertable f e" "routed f e" using tree e by (auto simp: treeFor_def)
  moreover from this n have "queryNet (entityCidr e) n f" by (simp add: queryNet_def routed_def)
  moreover have "ne_Id e \<noteq> InternetExternalSourceID" using internet_at_root [of t q e] tree e by auto
  ultimately show ?thesis
    using n length_netPrefix [OF parseCIDR_wf [OF n(1)]] by (auto simp: entityPrefix_def regular_def netLength_def)
qed

lemma ordinary_wents:
  assumes "wrapOK w" "\<not> hasKey (wents w f) InternalSourceID" "wents w f q = Some e"
  shows "ordinary e \<longleftrightarrow> q \<noteq> []"
proof (cases "q = []")
  case True
  obtain t where t: "mget w f = Some t" using assms(3) by (cases "mget w f") (simp_all add: wents_def)
  with treeOK_root [of t] wrapOK_tree [OF assms(1) t] assms(3) True show ?thesis
    by (auto simp: ordinary_def IsConstantID_def)
next
  case False
  then show ?thesis using wents_entry [OF assms(1,3)] assms(2,3)
    by (auto simp: ordinary_def IsConstantID_def hasKey_def)
qed

lemma ordinary_rmDesc: "ordinary (rmDescIfInternet v) \<longleftrightarrow> ordinary v" "ordinary v \<Longrightarrow> rmDescIfInternet v = v"
  by (simp_all add: ordinary_def rmDescIfInternet_def IsConstantID_def)

lemma collectSupernets_spec:
  "\<forall>w \<in> set ts. wrapOK w \<Longrightarrow> queryNet cidr n f \<Longrightarrow>
    \<exists>es. collectSupernets ts cidr pred = Some es
      \<and> (\<forall>e. ordinary e \<longrightarrow> (e \<in> set es \<longleftrightarrow> (\<exists>w \<in> set ts. smallestSupernet (wents w f) pred (netPrefix n) (Some e))))"
proof (induction ts)
  case (Cons w ts)
  then obtain es where es: "collectSupernets ts cidr pred = Some es"
    "\<And>e. ordinary e \<Longrightarrow> e \<in> set es \<longleftrightarrow> (\<exists>w \<in> set ts. smallestSupernet (wents w f) pred (netPrefix n) (Some e))" by auto
  obtain r v where r: "wrapperGetMatchingSupernetForCIDR w cidr pred = Some r"
    "smallestSupernet (wents w f) pred (netPrefix n) v" "r = v \<or> r = map_option rmDescIfInternet v"
    using wrapper_supernet [OF _ Cons.prems(2), of w pred] Cons.prems(1) by auto
  have "smallestSupernet (wents w f) pred (netPrefix n) (Some e) \<longleftrightarrow> r = Some e" if "ordinary e" for e
  proof -
    have "smallestSupernet (wents w f) pred (netPrefix n) (Some e) \<longleftrightarrow> v = Some e"
      using smallestSupernet_unique [OF r(2)] r(2) by blast
    then show ?thesis using r(3) that ordinary_rmDesc by (cases v) auto
  qed
  with es r(1) show ?case by (auto split: option.splits)
qed simp

text \<open>The supernets collected from the trees of a list, as far as the loop looks at them.\<close>

definition collected ::
    "multiReadOnlyNTree \<Rightarrow> Family \<Rightarrow> bool list \<Rightarrow> (NetworkEntityInfo \<Rightarrow> bool) option \<Rightarrow> NetworkEntityInfo list \<Rightarrow> bool" where
  "collected ts f p pred es \<longleftrightarrow> (\<forall>w \<in> set ts. wrapOK w \<and> \<not> hasKey (wents w f) InternalSourceID)
     \<and> (\<forall>e. ordinary e \<longrightarrow> (e \<in> set es \<longleftrightarrow> (\<exists>w \<in> set ts. smallestSupernet (wents w f) pred p (Some e))))"

lemma supernet_found:
  assumes c: "collected ts f p pred es" and e: "e \<in> set es" "ordinary e"
  shows "\<exists>w q. w \<in> set ts \<and> q \<noteq> [] \<and> strict_prefix q p \<and> wents w f q = Some e \<and> predOk pred e
    \<and> regular e \<and> netLength e = length q"
proof -
  from c e obtain w where w: "w \<in> set ts" "smallestSupernet (wents w f) pred p (Some e)" "wrapOK w"
    "\<not> hasKey (wents w f) InternalSourceID" unfolding collected_def by blast
  then obtain q where q: "strict_prefix q p" "wents w f q = Some e" "predOk pred e" by (auto simp: smallestSupernet_def)
  with ordinary_wents [OF w(3,4) q(2)] e(2) have "q \<noteq> []" by blast
  with w q wents_entry [OF w(3) q(2)] show ?thesis by blast
qed

lemma supernet_best:
  assumes c: "collected ts f p pred es" and m: "w \<in> set ts" "q \<noteq> []" "strict_prefix q p" "matches (wents w f) pred q"
  shows "\<exists>e \<in> set es. ordinary e \<and> length q \<le> netLength e"
proof -
  have w: "wrapOK w" "\<not> hasKey (wents w f) InternalSourceID" using c m(1) by (auto simp: collected_def)
  obtain r where "smallestSupernet (wents w f) pred p r" using smallestSupernet_exists by blast
  with m(3,4) obtain v q' where v: "smallestSupernet (wents w f) pred p (Some v)" "prefix q q'" "wents w f q' = Some v"
    by (metis smallestSupernet_above_match)
  with m(2) have q': "q' \<noteq> []" by auto
  with ordinary_wents [OF w v(3)] have "ordinary v" by blast
  moreover have "v \<in> set es" using c \<open>ordinary v\<close> m(1) v(1) unfolding collected_def by blast
  moreover have "length q \<le> netLength v" using wents_entry [OF w(1) v(3) q'] v(2) by (simp add: prefix_length_le)
  ultimately show ?thesis by blast
qed

subsection \<open>The largest subnets over several trees\<close>

lemma listsOf_wents:
  assumes ok: "wrapOK w" and l: "listsOf (wents w f) S l" and S: "[] \<notin> S"
  shows "set l = {v. \<exists>q \<in> S. wents w f q = Some v} \<and> distinct (map ne_Id l)
    \<and> distinct (map (entityPrefix f) l) \<and> entityPrefix f ` set l = Some ` S"
proof -
  obtain qs where qs: "distinct qs" "set qs = S" "map Some l = map (wents w f) qs" using l by (auto simp: listsOf_def)
  then have len: "length l = length qs" by (metis length_map)
  have nth: "wents w f (qs ! i) = Some (l ! i)" if "i < length qs" for i
    using qs(3) that len by (metis nth_map)
  have pfx: "entityPrefix f (l ! i) = Some (qs ! i)" if "i < length qs" for i
    using wents_entry [OF ok nth [OF that]] S qs(2) that nth_mem by metis
  have maps: "map (entityPrefix f) l = map Some qs" using len pfx by (intro nth_equalityI) simp_all
  have "distinct (map ne_Id l)"
  proof (cases "mget w f")
    case (Some t)
    have "i = j" if "i < length l" "j < length l" "ne_Id (l ! i) = ne_Id (l ! j)" for i j
      using entries_key_inj [of t "qs ! i" "l ! i" "qs ! j" "l ! j"] wrapOK_tree [OF ok Some] nth that len qs(1)
      by (metis nth_eq_iff_index_eq)
    then show ?thesis by (auto simp: distinct_conv_nth)
  next
    case None
    then have "qs = []" using nth [of 0] by (cases qs) (simp_all add: wents_def)
    with len show ?thesis by simp
  qed
  moreover have "set l = {v. \<exists>q \<in> S. wents w f q = Some v}"
  proof (rule set_eqI)
    fix v
    have "v \<in> set l \<longleftrightarrow> Some v \<in> set (map Some l)" by auto
    also have "\<dots> \<longleftrightarrow> v \<in> {v. \<exists>q \<in> S. wents w f q = Some v}" unfolding qs(3) using qs(2) by force
    finally show "v \<in> set l \<longleftrightarrow> v \<in> {v. \<exists>q \<in> S. wents w f q = Some v}" .
  qed
  moreover have "entityPrefix f ` set l = Some ` S" using maps qs(2) by (metis set_map)
  moreover have "distinct (map (entityPrefix f) l)" unfolding maps using qs(1) by (simp add: distinct_map)
  ultimately show ?thesis by blast
qed

lemma largestSubnets_root: "[] \<notin> largestSubnets M p"
  by (simp add: largestSubnets_def)

lemma subnets_of_root:
  assumes ok: "wrapOK w" and t: "mget w f = Some t"
  shows "\<exists>l. radixGetSubnets t InternetExternalSourceID = Some l
    \<and> listsOf (wents w f) (largestSubnets (wents w f) []) l"
proof -
  note tree = wrapOK_tree [OF ok t]
  then obtain e where "entries t [] = Some e" "ne_Id e = InternetExternalSourceID" using treeOK_root by blast
  with tree radixExists_iff [of t InternetExternalSourceID] have "radixExists t InternetExternalSourceID" by auto
  with radixGetSubnets_spec [of t InternetExternalSourceID] tree internet_at_root [of t] show ?thesis by auto
qed

lemma strict_prefix_Nil_left [simp]: "strict_prefix [] s \<longleftrightarrow> s \<noteq> []"
  by (auto simp: strict_prefix_def)

lemma largestSubnets_under_root:
  assumes "\<And>p v. M p = Some v \<longleftrightarrow> p = [] \<and> v = i \<or> v \<in> S \<and> pf v = Some p" "\<forall>v \<in> S. pf v \<noteq> None \<and> pf v \<noteq> Some []"
  shows "{v. \<exists>q \<in> largestSubnets M []. M q = Some v}
    = {v \<in> S. \<forall>u \<in> S. \<not> strict_prefix (the (pf u)) (the (pf v))}"
proof -
  have below: "(\<forall>s. s \<noteq> [] \<longrightarrow> strict_prefix s q \<longrightarrow> M s = None) \<longleftrightarrow> (\<forall>u \<in> S. \<not> strict_prefix (the (pf u)) q)" for q
  proof
    assume none: "\<forall>s. s \<noteq> [] \<longrightarrow> strict_prefix s q \<longrightarrow> M s = None"
    show "\<forall>u \<in> S. \<not> strict_prefix (the (pf u)) q"
    proof
      fix u assume u: "u \<in> S"
      with assms(2) obtain s where s: "pf u = Some s" "s \<noteq> []" by auto
      with u assms(1) have "M s = Some u" by blast
      with none s show "\<not> strict_prefix (the (pf u)) q" by auto
    qed
  next
    assume none: "\<forall>u \<in> S. \<not> strict_prefix (the (pf u)) q"
    have "M s = None" if s: "s \<noteq> []" "strict_prefix s q" for s
    proof (cases "M s")
      case (Some u)
      with assms(1) s(1) have "u \<in> S" "pf u = Some s" by blast+
      with none s(2) show ?thesis by force
    qed
    then show "\<forall>s. s \<noteq> [] \<longrightarrow> strict_prefix s q \<longrightarrow> M s = None" by blast
  qed
  have "(\<exists>q \<in> largestSubnets M []. M q = Some v) \<longleftrightarrow> v \<in> S \<and> (\<forall>u \<in> S. \<not> strict_prefix (the (pf u)) (the (pf v)))" for v
  proof
    assume "\<exists>q \<in> largestSubnets M []. M q = Some v"
    then obtain q where q: "q \<noteq> []" "M q = Some v" "\<forall>s. s \<noteq> [] \<longrightarrow> strict_prefix s q \<longrightarrow> M s = None"
      by (auto simp: largestSubnets_def)
    then have "v \<in> S" "pf v = Some q" using assms(1) by blast+
    with q below [of q] show "v \<in> S \<and> (\<forall>u \<in> S. \<not> strict_prefix (the (pf u)) (the (pf v)))" by simp
  next
    assume v: "v \<in> S \<and> (\<forall>u \<in> S. \<not> strict_prefix (the (pf u)) (the (pf v)))"
    with assms(2) obtain q where q: "pf v = Some q" "q \<noteq> []" by auto
    with v below [of q] have "\<forall>s. s \<noteq> [] \<longrightarrow> strict_prefix s q \<longrightarrow> M s = None" by simp
    moreover have "M q = Some v" using v q assms(1) by blast
    ultimately show "\<exists>q \<in> largestSubnets M []. M q = Some v" using q(2) by (auto simp: largestSubnets_def)
  qed
  then show ?thesis by auto
qed

text \<open>The tree of the subnets keeps those that no other one contains.\<close>

lemma getLargestSubnets_spec:
  assumes f: "f \<noteq> InvalidFamily" and ids: "freshIds es"
    and es: "\<forall>e \<in> set es. routable e \<and> routed f e \<and> insertable f e \<and> entityPrefix f e \<noteq> Some []"
  shows "if distinct (map (entityPrefix f) es)
    then \<exists>r. getLargestSubnets es = Some r \<and> distinct r
      \<and> set r = {v \<in> set es. \<forall>u \<in> set es. \<not> strict_prefix (the (entityPrefix f u)) (the (entityPrefix f v))}
    else getLargestSubnets es = None"
proof -
  have filt: "filter (routed g) es = (if g = f then es else [])" for g
    using es by (auto simp: routed_def filter_empty_conv intro: filter_True)
  have build: "list_all routable es \<and> fits IPv4 (filter (routed IPv4) es) \<and> fits IPv6 (filter (routed IPv6) es)
      \<longleftrightarrow> distinct (map (entityPrefix f) es)"
    using f es by (cases f) (auto simp: filt fits_def list_all_iff)
  show ?thesis
  proof (cases "distinct (map (entityPrefix f) es)")
    case False
    with NewNetworkTreeWrapper_spec [OF ids] build show ?thesis by (auto simp: getLargestSubnets_def)
  next
    case True
    with NewNetworkTreeWrapper_spec [OF ids] build obtain t4 t6 where
      new: "NewNetworkTreeWrapper es = Inr [(IPv4, t4), (IPv6, t6)]" "wrapOK [(IPv4, t4), (IPv6, t6)]"
      and ents: "\<And>g p v. g \<noteq> InvalidFamily \<Longrightarrow> wents [(IPv4, t4), (IPv6, t6)] g p = Some v
        \<longleftrightarrow> p = [] \<and> v = the (InternetProtoWithDesc g) \<or> v \<in> set es \<and> routed g v \<and> entityPrefix g v = Some p"
      by auto
    let ?w = "[(IPv4, t4), (IPv6, t6)]"
    obtain l4 l6 where l: "radixGetSubnets t4 InternetExternalSourceID = Some l4"
      "radixGetSubnets t6 InternetExternalSourceID = Some l6"
      "listsOf (wents ?w IPv4) (largestSubnets (wents ?w IPv4) []) l4"
      "listsOf (wents ?w IPv6) (largestSubnets (wents ?w IPv6) []) l6"
      using subnets_of_root [OF new(2), of IPv4 t4] subnets_of_root [OF new(2), of IPv6 t6] by auto
    have here: "set k = {v \<in> set es. \<forall>u \<in> set es. \<not> strict_prefix (the (entityPrefix f u)) (the (entityPrefix f v))} \<and> distinct k"
      if "listsOf (wents ?w f) (largestSubnets (wents ?w f) []) k" for k
    proof -
      have "wents ?w f p = Some v \<longleftrightarrow> p = [] \<and> v = the (InternetProtoWithDesc f) \<or> v \<in> set es \<and> entityPrefix f v = Some p" for p v
        using ents [OF f] es by auto
      from largestSubnets_under_root [OF this] es listsOf_wents [OF new(2) that largestSubnets_root] show ?thesis
        by (auto simp: insertable_def distinct_map)
    qed
    have other: "k = []" if "listsOf (wents ?w g) (largestSubnets (wents ?w g) []) k" "g \<noteq> f" "g \<noteq> InvalidFamily" for g k
    proof -
      have "wents ?w g q \<noteq> Some v" if "q \<noteq> []" for q v
        using ents [OF \<open>g \<noteq> InvalidFamily\<close>, of q v] es \<open>g \<noteq> f\<close> that by (auto simp: routed_def)
      then have "largestSubnets (wents ?w g) [] = {}" by (auto simp: largestSubnets_def)
      with that(1) show ?thesis by (simp add: listsOf_def)
    qed
    have "getLargestSubnets es = Some (l4 @ l6)"
      using new(1) l(1,2) by (simp add: getLargestSubnets_def wrapperGetSubnets_def IsConstantID_def)
    moreover have "f = IPv4 \<and> l6 = [] \<or> f = IPv6 \<and> l4 = []"
      using f other [OF l(3)] other [OF l(4)] by (cases f) simp_all
    ultimately show ?thesis using here l(3,4) True by auto
  qed
qed

text \<open>Trees with different identifiers, apart from those of the Internet.\<close>

definition separate :: "Family \<Rightarrow> networkTreeWrapper \<Rightarrow> networkTreeWrapper \<Rightarrow> bool" where
  "separate f w w' \<longleftrightarrow> (\<forall>key. key \<noteq> InternetExternalSourceID \<longrightarrow> \<not> (hasKey (wents w f) key \<and> hasKey (wents w' f) key))"

text \<open>Trees with different networks directly below a prefix.\<close>

definition disjointSubnets :: "Family \<Rightarrow> bool list \<Rightarrow> networkTreeWrapper \<Rightarrow> networkTreeWrapper \<Rightarrow> bool" where
  "disjointSubnets f p w w' \<longleftrightarrow> largestSubnets (wents w f) p \<inter> largestSubnets (wents w' f) p = {}"

lemma collectSubnets_spec:
  "\<forall>w \<in> set ts. wrapOK w \<Longrightarrow> queryNet cidr n f \<Longrightarrow> sorted_wrt (separate f) ts \<Longrightarrow>
    \<exists>es. collectSubnets ts cidr = Some es
      \<and> set es = {v. \<exists>w \<in> set ts. \<exists>q \<in> largestSubnets (wents w f) (netPrefix n). wents w f q = Some v}
      \<and> distinct (map ne_Id es)
      \<and> (distinct (map (entityPrefix f) es) \<longleftrightarrow> sorted_wrt (disjointSubnets f (netPrefix n)) ts)"
proof (induction ts)
  case (Cons w ts)
  let ?S = "\<lambda>w. largestSubnets (wents w f) (netPrefix n)"
  have ok: "wrapOK w" "\<forall>w \<in> set ts. wrapOK w" using Cons.prems(1) by auto
  from Cons obtain es where es: "collectSubnets ts cidr = Some es"
    "set es = {v. \<exists>w \<in> set ts. \<exists>q \<in> ?S w. wents w f q = Some v}" "distinct (map ne_Id es)"
    "distinct (map (entityPrefix f) es) \<longleftrightarrow> sorted_wrt (disjointSubnets f (netPrefix n)) ts" by auto
  from wrapper_subnets [OF ok(1) Cons.prems(2)] obtain l where
    l: "wrapperGetSubnetsForCIDR w cidr = Some l" "listsOf (wents w f) (?S w) l" by blast
  note here = listsOf_wents [OF ok(1) l(2) largestSubnets_root]
  have "ne_Id ` set l \<inter> ne_Id ` set es = {}"
  proof -
    have False if "v \<in> set l" "u \<in> set es" "ne_Id v = ne_Id u" for v u
    proof -
      from that(1) here obtain q where q: "wents w f q = Some v" "q \<noteq> []" using largestSubnets_root by fastforce
      from that(2) es(2) obtain w' q' where "w' \<in> set ts" "wents w' f q' = Some u" by blast
      with q that(3) have "hasKey (wents w f) (ne_Id v)" "hasKey (wents w' f) (ne_Id v)" by (auto simp: hasKey_def)
      with \<open>w' \<in> set ts\<close> wents_entry [OF ok(1) q] Cons.prems(3) show False by (auto simp: separate_def)
    qed
    then show ?thesis by blast
  qed
  moreover have pes: "entityPrefix f ` set es = Some ` (\<Union>w \<in> set ts. ?S w)"
  proof -
    have entry: "entityPrefix f v = Some q" if "w' \<in> set ts" "q \<in> ?S w'" "wents w' f q = Some v" for w' q v
      using wents_entry [of w' f q v] ok(2) that largestSubnets_root by metis
    have "\<exists>v \<in> set es. entityPrefix f v = Some q" if "w' \<in> set ts" "q \<in> ?S w'" for w' q
    proof -
      from that(2) obtain v where "wents w' f q = Some v" by (auto simp: largestSubnets_def)
      with that es(2) entry show ?thesis by blast
    qed
    note ex = this
    show ?thesis
    proof (intro equalityI subsetI)
      fix x assume "x \<in> entityPrefix f ` set es"
      then obtain w' q v where "w' \<in> set ts" "q \<in> ?S w'" "wents w' f q = Some v" "x = entityPrefix f v"
        unfolding es(2) by blast
      with entry show "x \<in> Some ` (\<Union>w \<in> set ts. ?S w)" by blast
    next
      fix x assume "x \<in> Some ` (\<Union>w \<in> set ts. ?S w)"
      then obtain w' q where "w' \<in> set ts" "q \<in> ?S w'" "x = Some q" by blast
      with ex show "x \<in> entityPrefix f ` set es" by (metis imageI)
    qed
  qed
  moreover have "entityPrefix f ` set l \<inter> entityPrefix f ` set es = {} \<longleftrightarrow> (\<forall>w' \<in> set ts. disjointSubnets f (netPrefix n) w w')"
  proof -
    have pl: "entityPrefix f ` set l = Some ` ?S w" using here by blast
    have "Some ` A \<inter> Some ` (\<Union>x \<in> X. B x) = {} \<longleftrightarrow> (\<forall>x \<in> X. A \<inter> B x = {})" for A X and B :: "networkTreeWrapper \<Rightarrow> bool list set"
      by blast
    then show ?thesis unfolding pes pl disjointSubnets_def .
  qed
  ultimately show ?case using es here l(1) by auto
qed simp

lemma largestSubnets_above:
  assumes "strict_prefix p s" "M s \<noteq> None"
  shows "\<exists>s'. s' \<in> largestSubnets M p \<and> prefix s' s"
  using assms
proof (induction "length s" arbitrary: s rule: less_induct)
  case less
  show ?case
  proof (cases "\<exists>u. strict_prefix p u \<and> strict_prefix u s \<and> M u \<noteq> None")
    case True
    then obtain u where u: "strict_prefix p u" "strict_prefix u s" "M u \<noteq> None" by blast
    with less.hyps [of u] prefix_length_less [OF u(2)] obtain s' where "s' \<in> largestSubnets M p" "prefix s' u" by blast
    with u(2) show ?thesis by (meson prefix_order.less_imp_le prefix_order.trans)
  next
    case False
    with less.prems have "s \<in> largestSubnets M p" by (auto simp: largestSubnets_def)
    then show ?thesis by blast
  qed
qed

text \<open>The entities directly below a prefix among those of all trees.\<close>

definition topSubnets :: "multiReadOnlyNTree \<Rightarrow> Family \<Rightarrow> bool list \<Rightarrow> NetworkEntityInfo set" where
  "topSubnets ts f p = {v. \<exists>q. strict_prefix p q \<and> (\<exists>w \<in> set ts. wents w f q = Some v)
     \<and> (\<forall>s. strict_prefix p s \<longrightarrow> strict_prefix s q \<longrightarrow> (\<forall>w \<in> set ts. wents w f s = None))}"

lemma topSubnets_collected:
  assumes ok: "\<forall>w \<in> set ts. wrapOK w"
    and es: "E = {v. \<exists>w \<in> set ts. \<exists>q \<in> largestSubnets (wents w f) p. wents w f q = Some v}"
  shows "{v \<in> E. \<forall>u \<in> E. \<not> strict_prefix (the (entityPrefix f u)) (the (entityPrefix f v))} = topSubnets ts f p"
proof (intro equalityI subsetI)
  have pf: "entityPrefix f v = Some q" if "w \<in> set ts" "wents w f q = Some v" "strict_prefix p q" for w q v
    using wents_entry [of w f q v] ok that by (cases q) auto
  fix v
  {
    assume v: "v \<in> {v \<in> E. \<forall>u \<in> E. \<not> strict_prefix (the (entityPrefix f u)) (the (entityPrefix f v))}"
    then obtain w q where w: "w \<in> set ts" "q \<in> largestSubnets (wents w f) p" "wents w f q = Some v" using es by blast
    then have q: "strict_prefix p q" "the (entityPrefix f v) = q" using pf [of w q v] by (auto simp: largestSubnets_def)
    have "wents w' f s = None" if s: "strict_prefix p s" "strict_prefix s q" "w' \<in> set ts" for w' s
    proof (rule ccontr)
      assume "wents w' f s \<noteq> None"
      from largestSubnets_above [where M = "wents w' f", OF s(1) this] obtain s' u where
        u: "s' \<in> largestSubnets (wents w' f) p" "prefix s' s" "wents w' f s' = Some u" by (auto simp: largestSubnets_def)
      then have "u \<in> E" "the (entityPrefix f u) = s'" using es s(3) pf [of w' s' u] by (auto simp: largestSubnets_def)
      moreover have "strict_prefix s' q" using u(2) s(2) by (rule prefix_order.le_less_trans)
      ultimately show False using v q(2) by auto
    qed
    with w q show "v \<in> topSubnets ts f p" by (auto simp: topSubnets_def)
  next
    assume "v \<in> topSubnets ts f p"
    then obtain w q where q: "w \<in> set ts" "strict_prefix p q" "wents w f q = Some v"
      and top: "\<And>s w. strict_prefix p s \<Longrightarrow> strict_prefix s q \<Longrightarrow> w \<in> set ts \<Longrightarrow> wents w f s = None"
      by (auto simp: topSubnets_def)
    then have "q \<in> largestSubnets (wents w f) p" by (auto simp: largestSubnets_def)
    with q es have "v \<in> E" by blast
    moreover have "\<not> strict_prefix (the (entityPrefix f u)) (the (entityPrefix f v))" if "u \<in> E" for u
    proof -
      from that es obtain w' s where s: "w' \<in> set ts" "s \<in> largestSubnets (wents w' f) p" "wents w' f s = Some u" by blast
      then have "the (entityPrefix f u) = s" "strict_prefix p s" using pf [of w' s u] by (auto simp: largestSubnets_def)
      with s top [of s w'] pf [OF q(1,3,2)] show ?thesis by auto
    qed
    ultimately show "v \<in> {v \<in> E. \<forall>u \<in> E. \<not> strict_prefix (the (entityPrefix f u)) (the (entityPrefix f v))}" by blast
  }
qed

subsection \<open>Properties of the wrapper and of several trees\<close>

lemma ten_query: "\<exists>n. queryNet ''0.0.0.0/0'' n IPv4 \<and> netPrefix n = []"
  by (auto simp: queryNet_def ip_eval netPrefix_def netLen_def maskSize_def familyBits_def IPNetworkFromCIDR_def
      networkFamily_def addrFamily_def IPFromBytes_def dataFamily_def)

lemma ten_routed: "routed IPv4 tenNetwork \<and> routable tenNetwork"
  using private_networks_eval(1)
  by (simp add: routed_def routable_def tenNetwork_def entityCidr_def IPNetworkFromCIDR_def networkFamily_def
      addrFamily_def IPFromBytes_def dataFamily_def networkIsValid_def addrIsValid_def)

lemma ten_wrapper:
  "\<exists>w. wrapReach w \<and> wents w IPv4 = [[] \<mapsto> the (InternetProtoWithDesc IPv4), tenPrefix \<mapsto> tenNetwork]"
proof -
  have f: "networkFamily (IPNetworkFromCIDR (entityCidr tenNetwork)) = IPv4"
      "networkIsValid (IPNetworkFromCIDR (entityCidr tenNetwork))"
    using ten_routed by (simp_all add: routed_def routable_def)
  have key: "ne_Id tenNetwork \<noteq> InternetExternalSourceID" by (simp add: tenNetwork_def InternetExternalSourceID_def)
  let ?m = "[[] \<mapsto> the (InternetProtoWithDesc IPv4)] :: bool list \<Rightarrow> NetworkEntityInfo option"
  have m: "withoutKey ?m (ne_Id tenNetwork) = ?m" by (rule ext) (simp add: withoutKey_def)
  have "?m tenPrefix = None" by (simp add: tenPrefix_def)
  with wrapperInsert_spec [OF newDefault_wrapOK(1) key f(2)] newDefault_wrapOK(2) [of IPv4] m tenNetwork_prefix
    tenNetwork_insertable f(1) obtain r w where
    "wrapperInsert newDefaultNetworkTreeWrapper tenNetwork = Some (r, w)" "wents w IPv4 = ?m(tenPrefix \<mapsto> tenNetwork)"
    by auto
  with wr_insert [OF wr_default key] show ?thesis by blast
qed

text \<open>C37. An insertion into a reachable wrapper does not panic. It replaces the entity with the same
  identifier, in whichever family it is, when the new one is valid for the family of its network and
  its prefix is free without the old one; otherwise it fails, and then the old entity is lost unless
  the network could not be parsed at all.\<close>

theorem wrapperInsert_correct:
  assumes "wrapReach w" "ne_Id e \<noteq> InternetExternalSourceID"
  shows "\<exists>r w'. wrapperInsert w e = Some (r, w') \<and> wrapReach w'
    \<and> (let f = networkFamily (IPNetworkFromCIDR (entityCidr e)); m = (\<lambda>g. withoutKey (wents w g) (ne_Id e))
       in if \<not> routable e then r = Some (ErrInvalidCIDR (entityCidr e)) \<and> w' = w
          else if insertable f e \<and> m f (the (entityPrefix f e)) = None
          then r = None \<and> wents w' = m(f := (m f)(the (entityPrefix f e) \<mapsto> e))
          else r \<noteq> None \<and> wents w' = m)"
proof (cases "routable e")
  case True
  let ?f = "networkFamily (IPNetworkFromCIDR (entityCidr e))" and ?m = "\<lambda>g. withoutKey (wents w g) (ne_Id e)"
  obtain r w' where r: "wrapperInsert w e = Some (r, w')"
    "if insertable ?f e \<and> ?m ?f (the (entityPrefix ?f e)) = None
     then r = None \<and> wents w' = ?m(?f := (?m ?f)(the (entityPrefix ?f e) \<mapsto> e)) else r \<noteq> None \<and> wents w' = ?m"
    using wrapperInsert_spec [OF wrapReach_OK [OF assms(1)] assms(2)] True unfolding routable_def by blast
  show ?thesis
    by (intro exI [of _ r] exI [of _ w'] conjI) (use r wr_insert [OF assms r(1)] True in \<open>simp_all add: Let_def\<close>)
next
  case False
  then show ?thesis using assms(1) by (simp add: wrapperInsert_def routable_def Let_def)
qed

theorem wrapperInsert_correct_witness:
  "\<exists>r w. wrapperInsert newDefaultNetworkTreeWrapper tenNetwork = Some (r, w) \<and> wents w IPv4 tenPrefix = Some tenNetwork"
proof -
  have "ne_Id tenNetwork \<noteq> InternetExternalSourceID" by (simp add: tenNetwork_def InternetExternalSourceID_def)
  from wrapperInsert_correct [OF wr_default this] show ?thesis
    using ten_routed tenNetwork_prefix tenNetwork_insertable
    by (auto simp: routed_def newDefault_wrapOK(2) withoutKey_def tenPrefix_def Let_def)
qed

text \<open>In a reachable wrapper there is one tree per family, an identifier other than that of the
  Internet is in one of them only, and each stored network has the family of its tree; and a
  removal takes exactly the entity with the identifier out of the wrapper.\<close>

theorem wrapper_one_tree_per_entity:
  assumes "wrapReach w"
  shows "(\<forall>f. mget w f \<noteq> None \<longleftrightarrow> f = IPv4 \<or> f = IPv6)
    \<and> (\<forall>f p e. wents w f p = Some e \<longrightarrow> p \<noteq> [] \<longrightarrow> routed f e \<and> entityPrefix f e = Some p
         \<and> (\<forall>g q e'. wents w g q = Some e' \<longrightarrow> ne_Id e' = ne_Id e \<longrightarrow> g = f \<and> q = p))
    \<and> (\<exists>w'. wrapperRemove w key = Some w' \<and> wents w' = (\<lambda>g. withoutKey (wents w g) key))"
proof -
  have ok: "wrapOK w" using assms by (rule wrapReach_OK)
  have "routed f e \<and> entityPrefix f e = Some p
      \<and> (\<forall>g q e'. wents w g q = Some e' \<longrightarrow> ne_Id e' = ne_Id e \<longrightarrow> g = f \<and> q = p)"
    if e: "wents w f p = Some e" "p \<noteq> []" for f p e
  proof -
    note entry = wents_entry [OF ok e]
    have "g = f \<and> q = p" if e': "wents w g q = Some e'" "ne_Id e' = ne_Id e" for g q e'
    proof -
      have "hasKey (wents w f) (ne_Id e)" "hasKey (wents w g) (ne_Id e)" using e e' by (auto simp: hasKey_def)
      with wrapOK_one_family [OF ok] entry have g: "g = f" by blast
      obtain t where t: "mget w f = Some t" using e by (cases "mget w f") (simp_all add: wents_def)
      with e e' g wrapOK_tree [OF ok t] entries_key_inj [of t q e' p e] show ?thesis by auto
    qed
    with entry show ?thesis by blast
  qed
  with wrapOK_families [OF ok] wrapperRemove_spec [OF ok, of key] show ?thesis by blast
qed

theorem wrapper_one_tree_per_entity_witness:
  "\<exists>w w'. wrapReach w \<and> wents w IPv4 tenPrefix = Some tenNetwork
    \<and> wrapperRemove w ''ten'' = Some w' \<and> wents w' IPv4 tenPrefix = None"
proof -
  from ten_wrapper obtain w where w: "wrapReach w"
    "wents w IPv4 = [[] \<mapsto> the (InternetProtoWithDesc IPv4), tenPrefix \<mapsto> tenNetwork]" by blast
  from wrapper_one_tree_per_entity [OF w(1), of "''ten''"] obtain w' where
    "wrapperRemove w ''ten'' = Some w'" "wents w' = (\<lambda>g. withoutKey (wents w g) ''ten'')" by blast
  with w show ?thesis by (intro exI [of _ w] exI [of _ w']) (simp add: withoutKey_def tenPrefix_def tenNetwork_def)
qed

text \<open>The supernet over several trees, in general. When only the Internet is left, the result is the
  Internet, whether or not the predicate accepts it: it is never nil for a valid network.\<close>

lemma multi_supernet_spec:
  assumes reach: "\<forall>w \<in> set ts. wrapReach w" and internal: "\<forall>w \<in> set ts. \<not> hasKey (wents w f) InternalSourceID"
    and q: "queryNet cidr n f"
  shows "\<exists>v. multiGetMatchingSupernetForCIDR ts cidr pred = Some (Some v)
    \<and> (if \<exists>q. q \<noteq> [] \<and> strict_prefix q (netPrefix n) \<and> (\<exists>w \<in> set ts. matches (wents w f) pred q)
       then \<exists>q. q \<noteq> [] \<and> strict_prefix q (netPrefix n) \<and> (\<exists>w \<in> set ts. wents w f q = Some v) \<and> predOk pred v
         \<and> (\<forall>q'. strict_prefix q q' \<longrightarrow> strict_prefix q' (netPrefix n) \<longrightarrow> (\<forall>w \<in> set ts. \<not> matches (wents w f) pred q'))
       else v = InternetEntity)"
proof -
  have ok: "wrapOK w" if "w \<in> set ts" for w using reach that wrapReach_OK by blast
  obtain es where es: "collectSupernets ts cidr pred = Some es"
    "\<And>e. ordinary e \<Longrightarrow> e \<in> set es \<longleftrightarrow> (\<exists>w \<in> set ts. smallestSupernet (wents w f) pred (netPrefix n) (Some e))"
    using collectSupernets_spec [OF _ q, of ts pred] ok by blast
  have "collected ts f (netPrefix n) pred es" unfolding collected_def using ok internal es(2) by blast
  note found = supernet_found [OF this] and best = supernet_best [OF this]
  have "\<forall>e \<in> set es. ordinary e \<longrightarrow> regular e" using found by blast
  then obtain r where r: "smallestLoop es InternetEntity 0 = Some r"
    "if \<exists>e \<in> set es. ordinary e \<and> 0 < netLength e
     then r \<in> set es \<and> ordinary r \<and> (\<forall>e \<in> set es. ordinary e \<longrightarrow> netLength e \<le> netLength r) \<and> 0 < netLength r
     else r = InternetEntity"
    using smallestLoop_spec by blast
  have res: "multiGetMatchingSupernetForCIDR ts cidr pred = Some (Some r)"
    using queryNet_valid [OF q] es(1) r(1) by (simp add: multiGetMatchingSupernetForCIDR_def getSmallestSupernet_def)
  show ?thesis
  proof (cases "\<exists>e \<in> set es. ordinary e \<and> 0 < netLength e")
    case True
    with r(2) have r': "r \<in> set es" "ordinary r" "\<And>e. e \<in> set es \<Longrightarrow> ordinary e \<Longrightarrow> netLength e \<le> netLength r" by auto
    from found [OF r'(1,2)] obtain w q where w: "w \<in> set ts" "q \<noteq> []" "strict_prefix q (netPrefix n)"
      "wents w f q = Some r" "predOk pred r" "netLength r = length q" by blast
    have "\<not> matches (wents w' f) pred q'" if "strict_prefix q q'" "strict_prefix q' (netPrefix n)" "w' \<in> set ts" for w' q'
      using best [OF that(3) _ that(2)] r'(3) w(6) prefix_length_less [OF that(1)] by force
    with res w show ?thesis by (auto simp: matches_def)
  next
    case False
    have "\<not> (\<exists>q. q \<noteq> [] \<and> strict_prefix q (netPrefix n) \<and> (\<exists>w \<in> set ts. matches (wents w f) pred q))"
    proof
      assume "\<exists>q. q \<noteq> [] \<and> strict_prefix q (netPrefix n) \<and> (\<exists>w \<in> set ts. matches (wents w f) pred q)"
      then obtain q w where m: "w \<in> set ts" "q \<noteq> []" "strict_prefix q (netPrefix n)" "matches (wents w f) pred q" by blast
      with best [OF m] False show False by (auto simp flip: length_greater_0_conv)
    qed
    with res r(2) False show ?thesis by auto
  qed
qed

text \<open>C17. When a proper prefix of a network, other than the empty one, has an entity that the predicate accepts in
  one of the trees, the multi-tree's matching supernet is such an entity of the longest of these prefixes. Without a
  predicate, the supernet is the entity of the longest proper prefix that has one in any tree, and the Internet
  if there is none.\<close>

theorem multi_supernet_correct:
  assumes "\<forall>w \<in> set ts. wrapReach w" "\<forall>w \<in> set ts. \<not> hasKey (wents w f) InternalSourceID" "queryNet cidr n f"
  shows "((\<exists>q. q \<noteq> [] \<and> strict_prefix q (netPrefix n) \<and> (\<exists>w \<in> set ts. matches (wents w f) pred q)) \<longrightarrow>
      (\<exists>v q. multiGetMatchingSupernetForCIDR ts cidr pred = Some (Some v) \<and> predOk pred v
         \<and> q \<noteq> [] \<and> strict_prefix q (netPrefix n) \<and> (\<exists>w \<in> set ts. wents w f q = Some v)
         \<and> (\<forall>q'. strict_prefix q q' \<longrightarrow> strict_prefix q' (netPrefix n) \<longrightarrow> (\<forall>w \<in> set ts. \<not> matches (wents w f) pred q'))))
    \<and> (\<exists>v. multiGetSupernetForCIDR ts cidr = Some v \<and>
        (if \<exists>q. q \<noteq> [] \<and> strict_prefix q (netPrefix n) \<and> (\<exists>w \<in> set ts. wents w f q \<noteq> None)
         then \<exists>q. q \<noteq> [] \<and> strict_prefix q (netPrefix n) \<and> (\<exists>w \<in> set ts. wents w f q = Some v)
           \<and> (\<forall>q'. strict_prefix q q' \<longrightarrow> strict_prefix q' (netPrefix n) \<longrightarrow> (\<forall>w \<in> set ts. wents w f q' = None))
         else v = InternetEntity))"
proof
  note spec = multi_supernet_spec [OF assms]
  show "(\<exists>q. q \<noteq> [] \<and> strict_prefix q (netPrefix n) \<and> (\<exists>w \<in> set ts. matches (wents w f) pred q)) \<longrightarrow>
      (\<exists>v q. multiGetMatchingSupernetForCIDR ts cidr pred = Some (Some v) \<and> predOk pred v
         \<and> q \<noteq> [] \<and> strict_prefix q (netPrefix n) \<and> (\<exists>w \<in> set ts. wents w f q = Some v)
         \<and> (\<forall>q'. strict_prefix q q' \<longrightarrow> strict_prefix q' (netPrefix n) \<longrightarrow> (\<forall>w \<in> set ts. \<not> matches (wents w f) pred q')))"
    using spec [of pred] by (auto split: if_splits)
  have all: "matches M (Some (\<lambda>_. True)) q \<longleftrightarrow> M q \<noteq> None" for M q
    by (auto simp: matches_def predOk_def)
  from spec [of "Some (\<lambda>_. True)"] show "\<exists>v. multiGetSupernetForCIDR ts cidr = Some v \<and>
        (if \<exists>q. q \<noteq> [] \<and> strict_prefix q (netPrefix n) \<and> (\<exists>w \<in> set ts. wents w f q \<noteq> None)
         then \<exists>q. q \<noteq> [] \<and> strict_prefix q (netPrefix n) \<and> (\<exists>w \<in> set ts. wents w f q = Some v)
           \<and> (\<forall>q'. strict_prefix q q' \<longrightarrow> strict_prefix q' (netPrefix n) \<longrightarrow> (\<forall>w \<in> set ts. wents w f q' = None))
         else v = InternetEntity)"
    unfolding all multiGetSupernetForCIDR_def by (elim exE conjE) (rule exI, rule conjI, simp, force split: if_splits)
qed

lemma sixteen_query: "\<exists>n. queryNet ''10.1.0.0/16'' n IPv4 \<and> strict_prefix tenPrefix (netPrefix n)"
  by (auto simp: queryNet_def ip_eval netPrefix_def netLen_def maskSize_def familyBits_def IPNetworkFromCIDR_def
      networkFamily_def addrFamily_def IPFromBytes_def dataFamily_def tenPrefix_def strict_prefix_def)

theorem multi_supernet_correct_witness:
  "\<exists>w. wrapReach w \<and>
     multiGetMatchingSupernetForCIDR [newDefaultNetworkTreeWrapper, w] ''10.1.0.0/16'' None = Some (Some tenNetwork)"
proof -
  from ten_wrapper obtain w where w: "wrapReach w"
    "wents w IPv4 = [[] \<mapsto> the (InternetProtoWithDesc IPv4), tenPrefix \<mapsto> tenNetwork]" by blast
  from sixteen_query obtain n where n: "queryNet ''10.1.0.0/16'' n IPv4" "strict_prefix tenPrefix (netPrefix n)" by blast
  let ?ts = "[newDefaultNetworkTreeWrapper, w]"
  have d: "wents newDefaultNetworkTreeWrapper IPv4 = [[] \<mapsto> the (InternetProtoWithDesc IPv4)]"
    using newDefault_wrapOK(2) by simp
  have ids: "\<not> hasKey (wents v IPv4) InternalSourceID" if "v \<in> set ?ts" for v
    using that internet_id [of IPv4]
    by (auto simp: d w(2) hasKey_def InternetExternalSourceID_def InternalSourceID_def tenNetwork_def split: if_splits)
  have "tenPrefix \<noteq> []" "matches (wents w IPv4) None tenPrefix"
    by (simp_all add: tenPrefix_def matches_def w(2) predOk_def)
  then have "\<exists>q. q \<noteq> [] \<and> strict_prefix q (netPrefix n) \<and> (\<exists>w \<in> set ?ts. matches (wents w IPv4) None q)"
    using n(2) by (intro exI [of _ tenPrefix]) simp
  with multi_supernet_correct [of ?ts, OF _ _ n(1), of None] wr_default w(1) ids obtain v q where
    "multiGetMatchingSupernetForCIDR ?ts ''10.1.0.0/16'' None = Some (Some v)" "q \<noteq> []"
    "\<exists>w \<in> set ?ts. wents w IPv4 q = Some v" by auto
  moreover from this have "v = tenNetwork" by (auto simp: d w(2) split: if_splits)
  ultimately show ?thesis using w(1) by blast
qed

text \<open>C12. The multi-tree's subnets of a network are the entities of the prefixes below it, from all trees,
  that have no entity of any tree in between, each once. They are computed by inserting the subnets
  of every tree into a new tree: when two trees hold the same network among them, the insertion
  fails, its error is only reported, and the missing tree is used: a panic.\<close>

theorem multi_subnets_correct:
  assumes "\<forall>w \<in> set ts. wrapReach w" "sorted_wrt (separate f) ts" "queryNet cidr n f"
  shows "if sorted_wrt (disjointSubnets f (netPrefix n)) ts
    then \<exists>r. multiGetSubnetsForCIDR ts cidr = Some r \<and> distinct r \<and> set r = topSubnets ts f (netPrefix n)
    else multiGetSubnetsForCIDR ts cidr = None"
proof -
  have ok: "\<forall>w \<in> set ts. wrapOK w" using assms(1) wrapReach_OK by blast
  obtain es where es: "collectSubnets ts cidr = Some es"
    "set es = {v. \<exists>w \<in> set ts. \<exists>q \<in> largestSubnets (wents w f) (netPrefix n). wents w f q = Some v}"
    "distinct (map ne_Id es)" "distinct (map (entityPrefix f) es) \<longleftrightarrow> sorted_wrt (disjointSubnets f (netPrefix n)) ts"
    using collectSubnets_spec [OF ok assms(3,2)] by blast
  have f: "f \<noteq> InvalidFamily" using queryNet_valid [OF assms(3)] by auto
  have entry: "insertable f v \<and> routed f v \<and> entityPrefix f v \<noteq> Some [] \<and> routable v \<and> ne_Id v \<noteq> InternetExternalSourceID"
    if "v \<in> set es" for v
  proof -
    from that es(2) obtain w q where w: "w \<in> set ts" "q \<in> largestSubnets (wents w f) (netPrefix n)" "wents w f q = Some v" by blast
    with largestSubnets_root have "q \<noteq> []" by blast
    with wents_entry [OF _ w(3)] ok w(1) show ?thesis
      by (auto simp: regular_def routable_def dest: queryNet_valid)
  qed
  with es(3) have "freshIds es" by (simp add: freshIds_def)
  with getLargestSubnets_spec [OF f this] entry topSubnets_collected [OF ok es(2)] es(1,4) show ?thesis
    by (auto simp: multiGetSubnetsForCIDR_def)
qed

theorem multi_subnets_correct_witness:
  "\<exists>w. wrapReach w \<and> multiGetSubnetsForCIDR [newDefaultNetworkTreeWrapper, w] ''0.0.0.0/0'' = Some [tenNetwork]"
proof -
  from ten_wrapper obtain w where w: "wrapReach w"
    "wents w IPv4 = [[] \<mapsto> the (InternetProtoWithDesc IPv4), tenPrefix \<mapsto> tenNetwork]" by blast
  from ten_query obtain n where n: "queryNet ''0.0.0.0/0'' n IPv4" "netPrefix n = []" by blast
  let ?ts = "[newDefaultNetworkTreeWrapper, w]"
  have d: "wents newDefaultNetworkTreeWrapper IPv4 = [[] \<mapsto> the (InternetProtoWithDesc IPv4)]"
    using newDefault_wrapOK(2) by simp
  have "sorted_wrt (separate IPv4) ?ts"
    using internet_id [of IPv4] by (auto simp: separate_def d hasKey_def split: if_splits)
  moreover have "sorted_wrt (disjointSubnets IPv4 (netPrefix n)) ?ts"
    by (auto simp: disjointSubnets_def n(2) d largestSubnets_def split: if_splits)
  moreover have "topSubnets ?ts IPv4 [] = {tenNetwork}"
    by (auto simp: topSubnets_def d w(2) tenPrefix_def split: if_splits)
  ultimately obtain r where "multiGetSubnetsForCIDR ?ts ''0.0.0.0/0'' = Some r" "distinct r" "set r = {tenNetwork}"
    using multi_subnets_correct [of ?ts, OF _ _ n(1)] wr_default w(1) by (auto simp: n(2))
  moreover from this have "r = [tenNetwork]" by (cases r; cases "tl r") auto
  ultimately show ?thesis using w(1) by blast
qed

end
