(* ===== verification/Cluster_Entities.thy ===== *)
theory Cluster_Entities
  imports Go_Sets Radix_Tree
begin

text \<open>
  The Sensor's store of cluster entities (\<open>sensor/common/clusterentities\<close>). It maps the addresses,
  endpoints and containers that flows mention to deployments, and remembers what was removed for a
  number of ticks.

  A nested Go map is an association list of association lists; \<open>get2\<close>, \<open>mput2\<close> and \<open>mdel2\<close>
  are the accesses the code makes to it. Sets and inner maps that the code changes in place are put
  back. The number of ticks left (\<open>entityStatus\<close>) is a 16-bit word. A pointer to a time in
  \<open>ContainerMetadata\<close>, which the code compares as a pointer when it uses the struct as a key, is an
  address. The locks make every operation of a store one step. Metrics, traces and the debug mode
  are left out.
\<close>

subsection \<open>Nested maps\<close>

definition inner :: "('a, ('b, 'c) gomap) gomap \<Rightarrow> 'a \<Rightarrow> ('b, 'c) gomap" where
  "inner m k = (case mget m k of None \<Rightarrow> [] | Some i \<Rightarrow> i)"

definition get2 :: "('a, ('b, 'c) gomap) gomap \<Rightarrow> 'a \<Rightarrow> 'b \<Rightarrow> 'c option" where
  "get2 m k l = mget (inner m k) l"

definition mput2 :: "'a \<Rightarrow> 'b \<Rightarrow> 'c \<Rightarrow> ('a, ('b, 'c) gomap) gomap \<Rightarrow> ('a, ('b, 'c) gomap) gomap" where
  "mput2 k l v m = mput k (mput l v (inner m k)) m"

text \<open>\<open>delete(m[k], l)\<close>, and then \<open>delete(m, k)\<close> when nothing is left at \<open>k\<close>.\<close>

definition mdel2 :: "'a \<Rightarrow> 'b \<Rightarrow> ('a, ('b, 'c) gomap) gomap \<Rightarrow> ('a, ('b, 'c) gomap) gomap" where
  "mdel2 k l m = (let i = mdel l (inner m k) in if i = [] then mdel k m else mput k i m)"

text \<open>A set read from a map of sets: the nil set when the key is missing.\<close>

definition setAt :: "('a, 'b goset) gomap \<Rightarrow> 'a \<Rightarrow> 'b goset" where
  "setAt m k = (case mget m k of None \<Rightarrow> [] | Some s \<Rightarrow> s)"

subsection \<open>Data\<close>

record NetworkPeerID =
  Address :: IPAddress
  Port :: "16 word"
  PeerNetwork :: IPNetwork

record NumericEndpoint =
  IPAndPort :: NetworkPeerID
  L4Proto :: int

definition MakeNumericEndpoint :: "IPAddress \<Rightarrow> 16 word \<Rightarrow> int \<Rightarrow> NumericEndpoint" where
  "MakeNumericEndpoint addr port proto =
     \<lparr>IPAndPort = \<lparr>Address = addr, Port = port, PeerNetwork = invalidIPNetwork\<rparr>, L4Proto = proto\<rparr>"

text \<open>\<open>net.ParseIP\<close> of the repository, over \<open>net.ParseIP\<close> of the standard library.\<close>

definition ParseIP :: "string \<Rightarrow> IPAddress" where
  "ParseIP s = (case parseAddr s of None \<Rightarrow> None | Some b \<Rightarrow> IPFromBytes b)"

record Entity =
  en_Type :: NetworkEntityType
  en_ID :: string
  ExternalEntityAddress :: IPNetwork
  Discovered :: bool

definition EntityForDeployment :: "string \<Rightarrow> Entity" where
  "EntityForDeployment k =
     \<lparr>en_Type = ENTITY_DEPLOYMENT, en_ID = k, ExternalEntityAddress = invalidIPNetwork, Discovered = False\<rparr>"

record ContainerMetadata =
  DeploymentID :: string
  DeploymentTS :: int
  PodID :: string
  PodUID :: string
  ContainerName :: string
  ContainerID :: string
  Namespace :: string
  StartTime :: "nat option"
  ImageID :: string

record EndpointTargetInfo =
  ContainerPort :: "16 word"
  PortName :: string

text \<open>Only writes to the map of containers can meet a nil map, so it alone keeps the difference.\<close>

record EntityData =
  ips :: "IPAddress goset"
  endpoints :: "(NumericEndpoint, EndpointTargetInfo list) gomap"
  containerIDs :: "(string, ContainerMetadata) gomap option"

type_synonym updates = "(string, EntityData option) gomap"

record LookupResult =
  lr_Entity :: Entity
  ContainerPorts :: "16 word list"
  PortNames :: "string list"

definition containersOf :: "EntityData \<Rightarrow> (string, ContainerMetadata) gomap" where
  "containersOf d = (case containerIDs d of None \<Rightarrow> [] | Some m \<Rightarrow> m)"

definition isDeleteOnly :: "EntityData option \<Rightarrow> bool" where
  "isDeleteOnly ed = (case ed of None \<Rightarrow> True
     | Some d \<Rightarrow> length (endpoints d) + length (containersOf d) + length (ips d) = 0)"

definition GetContainerIDs :: "EntityData \<Rightarrow> string \<Rightarrow> string list" where
  "GetContainerIDs d containerName = map fst (filter (\<lambda>(_, m). ContainerName m = containerName) (containersOf d))"

definition GetValidIPs :: "EntityData \<Rightarrow> IPAddress list" where
  "GetValidIPs d = filter addrIsValid (ips d)"

definition AddIP :: "IPAddress \<Rightarrow> EntityData \<Rightarrow> EntityData" where
  "AddIP a d = d\<lparr>ips := gs_ins a (ips d)\<rparr>"

definition AddEndpoint :: "NumericEndpoint \<Rightarrow> EndpointTargetInfo \<Rightarrow> EntityData \<Rightarrow> EntityData" where
  "AddEndpoint ep info d = d\<lparr>endpoints := mput ep (setAt (endpoints d) ep @ [info]) (endpoints d)\<rparr>"

definition AddContainerID :: "string \<Rightarrow> ContainerMetadata \<Rightarrow> EntityData \<Rightarrow> EntityData" where
  "AddContainerID k m d = d\<lparr>containerIDs := Some (mput k m (containersOf d))\<rparr>"

subsection \<open>Ticks left\<close>

type_synonym entityStatus = "16 word"

definition newHistoricalEntity :: "16 word \<Rightarrow> entityStatus" where
  "newHistoricalEntity numTicks = numTicks"

definition recordTick :: "entityStatus \<Rightarrow> entityStatus" where
  "recordTick es = (if 0 < es then es - 1 else es)"

definition IsExpired :: "entityStatus \<Rightarrow> bool" where
  "IsExpired es \<longleftrightarrow> es = 0"

subsection \<open>Addresses of pods\<close>

record podIPsStore =
  pi_memorySize :: "16 word"
  ipMap :: "(IPAddress, string goset) gomap"
  reverseIPMap :: "(string, IPAddress goset) gomap"
  historicalIPs :: "(IPAddress, (string, entityStatus) gomap) gomap"

definition newPodIPsStoreWithMemory :: "16 word \<Rightarrow> podIPsStore" where
  "newPodIPsStoreWithMemory numTicks =
     \<lparr>pi_memorySize = numTicks, ipMap = [], reverseIPMap = [], historicalIPs = []\<rparr>"

definition piHistoryEnabled :: "podIPsStore \<Rightarrow> bool" where
  "piHistoryEnabled s \<longleftrightarrow> 0 < pi_memorySize s"

definition piAddToHistory :: "string \<Rightarrow> podIPsStore \<Rightarrow> podIPsStore" where
  "piAddToHistory dep s =
     s\<lparr>historicalIPs := fold (\<lambda>a. mput2 a dep (newHistoricalEntity (pi_memorySize s)))
        (setAt (reverseIPMap s) dep) (historicalIPs s)\<rparr>"

definition removeDeployment :: "string \<Rightarrow> IPAddress \<Rightarrow> (IPAddress, string goset) gomap \<Rightarrow> (IPAddress, string goset) gomap" where
  "removeDeployment dep a m =
     (let deploymentsHavingIP = fst (setRemove dep (setAt m a))
      in if setCardinality deploymentsHavingIP = 0 then mdel a m else mput a deploymentsHavingIP m)"

definition deleteDeploymentFromCurrent :: "string \<Rightarrow> podIPsStore \<Rightarrow> podIPsStore" where
  "deleteDeploymentFromCurrent dep s =
     s\<lparr>ipMap := fold (removeDeployment dep) (setAt (reverseIPMap s) dep) (ipMap s),
       reverseIPMap := mdel dep (reverseIPMap s)\<rparr>"

definition moveDeploymentToHistory :: "string \<Rightarrow> podIPsStore \<Rightarrow> podIPsStore" where
  "moveDeploymentToHistory dep s = deleteDeploymentFromCurrent dep (piAddToHistory dep s)"

definition purgeDeployment :: "string \<Rightarrow> podIPsStore \<Rightarrow> podIPsStore" where
  "purgeDeployment dep s =
     (if piHistoryEnabled s then moveDeploymentToHistory dep s else deleteDeploymentFromCurrent dep s)"

definition piDeleteFromHistory :: "string \<Rightarrow> IPAddress \<Rightarrow> podIPsStore \<Rightarrow> podIPsStore \<times> bool" where
  "piDeleteFromHistory dep a s =
     (if mget (historicalIPs s) a = None then (s, False)
      else (s\<lparr>historicalIPs := mdel2 a dep (historicalIPs s)\<rparr>, True))"

text \<open>The loop of \<open>applySingleNoLock\<close>; its first argument is the set \<open>ipsSet\<close>.\<close>

fun applyIPs :: "string \<Rightarrow> IPAddress list \<Rightarrow> IPAddress goset \<Rightarrow> podIPsStore \<Rightarrow> IPAddress goset \<times> podIPsStore" where
  "applyIPs dep [] ipsSet s = (ipsSet, s)"
| "applyIPs dep (a # as) ipsSet s =
     (let deplSet = fst (setAdd dep (setAt (ipMap s) a));
          s' = s\<lparr>ipMap := mput a deplSet (ipMap s)\<rparr>
      in applyIPs dep as (fst (setAdd a ipsSet)) (fst (piDeleteFromHistory dep a s')))"

definition piApplySingle :: "string \<Rightarrow> EntityData \<Rightarrow> podIPsStore \<Rightarrow> podIPsStore" where
  "piApplySingle dep d s =
     (let (ipsSet, s') = applyIPs dep (ips d) (setClone (setAt (reverseIPMap s) dep)) s
      in s'\<lparr>reverseIPMap := mput dep ipsSet (reverseIPMap s')\<rparr>)"

text \<open>A loop over the updates that skips deletions.\<close>

definition applyUpdates :: "(string \<Rightarrow> EntityData \<Rightarrow> 's \<Rightarrow> 's) \<Rightarrow> updates \<Rightarrow> 's \<Rightarrow> 's" where
  "applyUpdates applySingle us = fold (\<lambda>(dep, d) s. if isDeleteOnly d then s else applySingle dep (the d) s) us"

definition piApply :: "updates \<Rightarrow> bool \<Rightarrow> podIPsStore \<Rightarrow> podIPsStore" where
  "piApply us incremental s =
     (let s' = (if incremental then s else fold purgeDeployment (mkeys us) s)
      in applyUpdates piApplySingle us s')"

definition piRemoveFromHistoryIfExpired :: "string \<Rightarrow> IPAddress \<Rightarrow> podIPsStore \<Rightarrow> podIPsStore \<times> bool" where
  "piRemoveFromHistoryIfExpired dep a s =
     (case get2 (historicalIPs s) a dep of None \<Rightarrow> (s, False)
      | Some status \<Rightarrow> if IsExpired status then piDeleteFromHistory dep a s else (s, False))"

text \<open>The loop of \<open>RecordTick\<close> over the pairs in the history; its second argument is \<open>removedPublic\<close>.\<close>

fun tickIPs :: "(IPAddress \<times> string) list \<Rightarrow> bool \<Rightarrow> podIPsStore \<Rightarrow> podIPsStore \<times> bool" where
  "tickIPs [] removedPublic s = (s, removedPublic)"
| "tickIPs ((a, dep) # ps) removedPublic s =
     (let s' = (case get2 (historicalIPs s) a dep of None \<Rightarrow> s
          | Some status \<Rightarrow> s\<lparr>historicalIPs := mput2 a dep (recordTick status) (historicalIPs s)\<rparr>);
          (s'', removed) = piRemoveFromHistoryIfExpired dep a s'
      in tickIPs ps (removedPublic \<or> removed \<and> addrIsPublic a) s'')"

definition pairs2 :: "('a, ('b, 'c) gomap) gomap \<Rightarrow> ('a \<times> 'b) list" where
  "pairs2 m = concat (map (\<lambda>(k, i). map (\<lambda>(l, _). (k, l)) i) m)"

definition piRecordTick :: "podIPsStore \<Rightarrow> podIPsStore \<times> bool" where
  "piRecordTick s = tickIPs (pairs2 (historicalIPs s)) False s"

definition piResetMaps :: "podIPsStore \<Rightarrow> podIPsStore" where
  "piResetMaps s =
     (if \<not> piHistoryEnabled s then s\<lparr>ipMap := [], reverseIPMap := [], historicalIPs := []\<rparr>
      else (fold moveDeploymentToHistory (mkeys (reverseIPMap s)) s)\<lparr>ipMap := [], reverseIPMap := []\<rparr>)"

definition LookupByNetAddr :: "podIPsStore \<Rightarrow> IPAddress \<Rightarrow> 16 word \<Rightarrow> LookupResult list \<times> LookupResult list" where
  "LookupByNetAddr s a port =
     (let result = (\<lambda>dep. \<lparr>lr_Entity = EntityForDeployment dep, ContainerPorts = [port], PortNames = []\<rparr>)
      in (map result (setAt (ipMap s) a), map result (mkeys (inner (historicalIPs s) a))))"

subsection \<open>Containers\<close>

record containerIDsStore =
  ci_memorySize :: "16 word"
  containerIDMap :: "(string, ContainerMetadata) gomap"
  reverseContainerIDMap :: "(string, string goset) gomap"
  historicalContainerIDs :: "(string, (ContainerMetadata, entityStatus) gomap) gomap"

definition newContainerIDsStoreWithMemory :: "16 word \<Rightarrow> containerIDsStore" where
  "newContainerIDsStoreWithMemory numTicks =
     \<lparr>ci_memorySize = numTicks, containerIDMap = [], reverseContainerIDMap = [], historicalContainerIDs = []\<rparr>"

definition ciHistoryEnabled :: "containerIDsStore \<Rightarrow> bool" where
  "ciHistoryEnabled s \<longleftrightarrow> 0 < ci_memorySize s"

definition ciAddToHistory :: "string \<Rightarrow> ContainerMetadata \<Rightarrow> containerIDsStore \<Rightarrow> containerIDsStore" where
  "ciAddToHistory k m s =
     s\<lparr>historicalContainerIDs := mput2 k m (newHistoricalEntity (ci_memorySize s)) (historicalContainerIDs s)\<rparr>"

definition ciDeleteFromHistory :: "string \<Rightarrow> ContainerMetadata \<Rightarrow> containerIDsStore \<Rightarrow> containerIDsStore" where
  "ciDeleteFromHistory k m s = s\<lparr>historicalContainerIDs := mdel2 k m (historicalContainerIDs s)\<rparr>"

definition ciRemoveFromHistoryIfExpired :: "string \<Rightarrow> ContainerMetadata \<Rightarrow> containerIDsStore \<Rightarrow> containerIDsStore" where
  "ciRemoveFromHistoryIfExpired k m s =
     (case get2 (historicalContainerIDs s) k m of None \<Rightarrow> s
      | Some status \<Rightarrow> if IsExpired status then ciDeleteFromHistory k m s else s)"

definition ciResetMaps :: "containerIDsStore \<Rightarrow> containerIDsStore" where
  "ciResetMaps s =
     (if \<not> ciHistoryEnabled s
      then s\<lparr>containerIDMap := [], reverseContainerIDMap := [], historicalContainerIDs := []\<rparr>
      else (fold (\<lambda>(k, m). ciAddToHistory k m) (containerIDMap s) s)\<lparr>containerIDMap := [], reverseContainerIDMap := []\<rparr>)"

definition ciTick :: "string \<times> ContainerMetadata \<Rightarrow> containerIDsStore \<Rightarrow> containerIDsStore" where
  "ciTick = (\<lambda>(k, m) s.
     let s' = (case get2 (historicalContainerIDs s) k m of None \<Rightarrow> s
          | Some status \<Rightarrow> s\<lparr>historicalContainerIDs := mput2 k m (recordTick status) (historicalContainerIDs s)\<rparr>)
     in ciRemoveFromHistoryIfExpired k m s')"

definition ciRecordTick :: "containerIDsStore \<Rightarrow> containerIDsStore" where
  "ciRecordTick s = fold ciTick (pairs2 (historicalContainerIDs s)) s"

definition purgeContainer :: "string \<Rightarrow> containerIDsStore \<Rightarrow> containerIDsStore" where
  "purgeContainer k s =
     (let s' = (case mget (containerIDMap s) k of None \<Rightarrow> s
          | Some m \<Rightarrow> if ciHistoryEnabled s then ciAddToHistory k m s else ciRemoveFromHistoryIfExpired k m s)
      in s'\<lparr>containerIDMap := mdel k (containerIDMap s')\<rparr>)"

definition ciPurge :: "string \<Rightarrow> containerIDsStore \<Rightarrow> containerIDsStore" where
  "ciPurge dep s =
     (let s' = fold purgeContainer (setAt (reverseContainerIDMap s) dep) s
      in s'\<lparr>reverseContainerIDMap := mdel dep (reverseContainerIDMap s')\<rparr>)"

text \<open>\<open>applySingleNoLock\<close>, with the metadata for the callback.\<close>

definition ciApplySingle :: "string \<Rightarrow> EntityData \<Rightarrow> containerIDsStore \<Rightarrow> containerIDsStore" where
  "ciApplySingle dep d s =
     (let (cSet, s') = fold (\<lambda>(k, m) (cSet, s).
            (fst (setAdd k cSet), ciDeleteFromHistory k m (s\<lparr>containerIDMap := mput k m (containerIDMap s)\<rparr>)))
          (containersOf d) (setAt (reverseContainerIDMap s) dep, s)
      in s'\<lparr>reverseContainerIDMap := mput dep cSet (reverseContainerIDMap s')\<rparr>)"

definition ciApply :: "updates \<Rightarrow> bool \<Rightarrow> containerIDsStore \<Rightarrow> containerIDsStore \<times> ContainerMetadata list" where
  "ciApply us incremental s =
     (let s' = (if incremental then s else fold ciPurge (mkeys us) s)
      in (applyUpdates ciApplySingle us s',
          concat (map (\<lambda>(_, d). if isDeleteOnly d then [] else map snd (containersOf (the d))) us)))"

text \<open>A lookup may find several entries in the history, of which \<open>range\<close> gives any: here the first.\<close>

definition lookupByContainer :: "containerIDsStore \<Rightarrow> string \<Rightarrow> (ContainerMetadata \<times> bool) option" where
  "lookupByContainer s k =
     (case mget (containerIDMap s) k of Some m \<Rightarrow> Some (m, False)
      | None \<Rightarrow> (case inner (historicalContainerIDs s) k of [] \<Rightarrow> None | (m, _) # _ \<Rightarrow> Some (m, True)))"

subsection \<open>Endpoints\<close>

record endpointsStore =
  endpointMap :: "(NumericEndpoint, (string, EndpointTargetInfo goset) gomap) gomap"
  reverseEndpointMap :: "(string, NumericEndpoint goset) gomap"
  ep_memorySize :: "16 word"
  historicalEndpoints :: "(NumericEndpoint, (string, (EndpointTargetInfo, entityStatus) gomap) gomap) gomap"
  reverseHistoricalEndpoints :: "(string, (NumericEndpoint, entityStatus) gomap) gomap"

definition newEndpointsStoreWithMemory :: "16 word \<Rightarrow> endpointsStore" where
  "newEndpointsStoreWithMemory numTicks =
     \<lparr>endpointMap = [], reverseEndpointMap = [], ep_memorySize = numTicks, historicalEndpoints = [],
      reverseHistoricalEndpoints = []\<rparr>"

definition epHistoryEnabled :: "endpointsStore \<Rightarrow> bool" where
  "epHistoryEnabled s \<longleftrightarrow> 0 < ep_memorySize s"

text \<open>The set or inner map of a deployment at an endpoint; nil when there is none.\<close>

definition targetsOf :: "endpointsStore \<Rightarrow> string \<Rightarrow> NumericEndpoint \<Rightarrow> EndpointTargetInfo goset" where
  "targetsOf s dep ep = (case get2 (endpointMap s) ep dep of None \<Rightarrow> [] | Some infos \<Rightarrow> infos)"

definition epAddToHistory :: "string \<Rightarrow> NumericEndpoint \<Rightarrow> endpointsStore \<Rightarrow> endpointsStore" where
  "epAddToHistory dep ep s =
     (let old = (case get2 (historicalEndpoints s) ep dep of None \<Rightarrow> [] | Some m \<Rightarrow> m);
          new = fold (\<lambda>info. mput info (newHistoricalEntity (ep_memorySize s))) (targetsOf s dep ep) old
      in s\<lparr>historicalEndpoints := mput2 ep dep new (historicalEndpoints s),
           reverseHistoricalEndpoints :=
             mput2 dep ep (newHistoricalEntity (ep_memorySize s)) (reverseHistoricalEndpoints s)\<rparr>)"

definition epDeleteFromCurrent :: "string \<Rightarrow> NumericEndpoint \<Rightarrow> endpointsStore \<Rightarrow> endpointsStore" where
  "epDeleteFromCurrent dep ep s =
     s\<lparr>endpointMap := mdel2 ep dep (endpointMap s),
       reverseEndpointMap :=
         (case mget (reverseEndpointMap s) dep of None \<Rightarrow> reverseEndpointMap s
          | Some dSet \<Rightarrow>
              let dSet' = fst (setRemove ep dSet)
              in if setCardinality dSet' = 0 then mdel dep (reverseEndpointMap s)
                 else mput dep dSet' (reverseEndpointMap s))\<rparr>"

definition epMoveToHistory :: "string \<Rightarrow> NumericEndpoint \<Rightarrow> endpointsStore \<Rightarrow> endpointsStore" where
  "epMoveToHistory dep ep s =
     epDeleteFromCurrent dep ep (if epHistoryEnabled s then epAddToHistory dep ep s else s)"

definition epDeleteFromHistory :: "string \<Rightarrow> NumericEndpoint \<Rightarrow> endpointsStore \<Rightarrow> endpointsStore \<times> bool" where
  "epDeleteFromHistory dep ep s =
     (s\<lparr>reverseHistoricalEndpoints := mdel2 dep ep (reverseHistoricalEndpoints s),
        historicalEndpoints := mdel2 ep dep (historicalEndpoints s)\<rparr>,
      get2 (reverseHistoricalEndpoints s) dep ep \<noteq> None \<or> get2 (historicalEndpoints s) ep dep \<noteq> None)"

definition epRemoveFromHistoryIfExpired :: "string \<Rightarrow> NumericEndpoint \<Rightarrow> endpointsStore \<Rightarrow> endpointsStore \<times> bool" where
  "epRemoveFromHistoryIfExpired dep ep s =
     (case get2 (reverseHistoricalEndpoints s) dep ep of None \<Rightarrow> (s, False)
      | Some status \<Rightarrow> if IsExpired status then epDeleteFromHistory dep ep s else (s, False))"

definition epPurge :: "string \<Rightarrow> endpointsStore \<Rightarrow> endpointsStore" where
  "epPurge dep s = fold (epMoveToHistory dep) (setAt (reverseEndpointMap s) dep) s"

text \<open>One endpoint of \<open>applySingleNoLock\<close>; \<open>deploymentFound\<close> is read before the loop. The set \<open>dSet\<close>
  stays the one in the map, since only other deployments are moved to the history.\<close>

definition applyEndpoint :: "string \<Rightarrow> bool \<Rightarrow> NumericEndpoint \<times> EndpointTargetInfo list \<Rightarrow> endpointsStore \<Rightarrow> endpointsStore" where
  "applyEndpoint dep deploymentFound = (\<lambda>(ep, targetInfos) s.
     let s0 = s\<lparr>reverseEndpointMap :=
                  mput dep (fst (setAdd ep (setAt (reverseEndpointMap s) dep))) (reverseEndpointMap s)\<rparr>;
         s1 = (case mget (endpointMap s0) ep of
             None \<Rightarrow> s0\<lparr>endpointMap := mput ep [(dep, [])] (endpointMap s0)\<rparr>
           | Some deploymentsOnThisEp \<Rightarrow>
               if \<not> deploymentFound then
                 fold (\<lambda>other. epMoveToHistory other ep)
                   (filter (\<lambda>other. other \<noteq> dep) (mkeys deploymentsOnThisEp))
                   (s0\<lparr>endpointMap := mput2 ep dep [] (endpointMap s0)\<rparr>)
               else if get2 (endpointMap s0) ep dep = None
               then s0\<lparr>endpointMap := mput2 ep dep [] (endpointMap s0)\<rparr>
               else s0);
         s2 = s1\<lparr>endpointMap := mput2 ep dep (fold gs_ins targetInfos (targetsOf s1 dep ep)) (endpointMap s1)\<rparr>
     in fst (epDeleteFromHistory dep ep s2))"

definition markSeen :: "string \<Rightarrow> endpointsStore \<Rightarrow> endpointsStore" where
  "markSeen dep s =
     (if mget (reverseEndpointMap s) dep = None
      then s\<lparr>reverseEndpointMap := mput dep [] (reverseEndpointMap s)\<rparr> else s)"

definition epApplySingle :: "string \<Rightarrow> EntityData \<Rightarrow> endpointsStore \<Rightarrow> endpointsStore" where
  "epApplySingle dep d s =
     (if length (endpoints d) = 0 then markSeen dep s
      else let deploymentFound = (mget (reverseEndpointMap s) dep \<noteq> None)
           in fold (applyEndpoint dep deploymentFound) (endpoints d) (markSeen dep s))"

definition insertSingleEndpoint ::
    "string \<Rightarrow> NumericEndpoint \<Rightarrow> EndpointTargetInfo list \<Rightarrow> endpointsStore \<Rightarrow> endpointsStore" where
  "insertSingleEndpoint dep ep targetInfos s =
     (let s1 = s\<lparr>reverseEndpointMap :=
                   mput dep (fst (setAdd ep (setAt (reverseEndpointMap s) dep))) (reverseEndpointMap s),
                 endpointMap := mput2 ep dep (fold gs_ins targetInfos []) (endpointMap s)\<rparr>
      in fst (epDeleteFromHistory dep ep s1))"

definition targetInfoUnchanged :: "string \<Rightarrow> NumericEndpoint \<Rightarrow> EndpointTargetInfo list \<Rightarrow> endpointsStore \<Rightarrow> bool" where
  "targetInfoUnchanged dep ep newTargetInfos s =
     (let currentTargetInfos = targetsOf s dep ep
      in if length currentTargetInfos \<noteq> length newTargetInfos then False
         else list_all (\<lambda>ti. ti \<in> set newTargetInfos) currentTargetInfos)"

text \<open>The table of hints: by the port modulo 64 the index of a target, plus one, as a byte.\<close>

definition hintTable :: "EndpointTargetInfo list \<Rightarrow> 8 word list" where
  "hintTable infos =
     fold (\<lambda>(i, ti) hints. hints[unat (ContainerPort ti mod 64) := of_nat (i + 1)])
       (enumerate 0 infos) (replicate 64 0)"

definition targetsUnchanged :: "EndpointTargetInfo goset \<Rightarrow> EndpointTargetInfo list \<Rightarrow> bool" where
  "targetsUnchanged currentTargetInfos newTargetInfos =
     (let n = length newTargetInfos
      in if n \<le> 6 \<or> n > 254 then list_all (\<lambda>ti. ti \<in> set newTargetInfos) currentTargetInfos
         else let hints = hintTable newTargetInfos
              in list_all (\<lambda>ti.
                   let idx = int (unat (hints ! unat (ContainerPort ti mod 64))) - 1
                   in if 0 \<le> idx \<and> idx < int n \<and> newTargetInfos ! nat idx = ti then True
                      else ti \<in> set newTargetInfos) currentTargetInfos)"

definition endpointsUnchanged :: "string \<Rightarrow> (NumericEndpoint, EndpointTargetInfo list) gomap \<Rightarrow> endpointsStore \<Rightarrow> bool" where
  "endpointsUnchanged dep newEndpoints s =
     (case mget (reverseEndpointMap s) dep of None \<Rightarrow> length newEndpoints = 0
      | Some currentEndpoints \<Rightarrow>
          if length currentEndpoints \<noteq> length newEndpoints then False
          else list_all (\<lambda>(ep, newTargetInfos).
            if \<not> setContains currentEndpoints ep then False
            else (case get2 (endpointMap s) ep dep of None \<Rightarrow> False
              | Some currentTargetInfos \<Rightarrow>
                  if length currentTargetInfos \<noteq> length newTargetInfos then False
                  else targetsUnchanged currentTargetInfos newTargetInfos)) newEndpoints)"

text \<open>The second pass of \<open>diffReplaceNoLock\<close>, with the list of endpoints whose targets changed. The set
  \<open>currentEndpoints\<close> is shared with the map and changes with it, but each endpoint is looked up in it
  before it changes there.\<close>

fun diffPass2 :: "string \<Rightarrow> NumericEndpoint goset \<Rightarrow> (NumericEndpoint, EndpointTargetInfo list) gomap \<Rightarrow>
    endpointsStore \<Rightarrow> endpointsStore \<times> NumericEndpoint list" where
  "diffPass2 dep currentEndpoints [] s = (s, [])"
| "diffPass2 dep currentEndpoints ((ep, newTargetInfos) # rest) s =
     (if \<not> setContains currentEndpoints ep
      then diffPass2 dep currentEndpoints rest (insertSingleEndpoint dep ep newTargetInfos s)
      else if targetInfoUnchanged dep ep newTargetInfos s then diffPass2 dep currentEndpoints rest s
      else let (s', changed) = diffPass2 dep currentEndpoints rest s in (s', ep # changed))"

text \<open>The third pass, for one endpoint: the set of targets is cleared and filled in place.\<close>

definition changeTargets ::
    "string \<Rightarrow> (NumericEndpoint, EndpointTargetInfo list) gomap \<Rightarrow> NumericEndpoint \<Rightarrow> endpointsStore \<Rightarrow> endpointsStore" where
  "changeTargets dep newEndpoints ep s =
     (let s' = (if epHistoryEnabled s then epAddToHistory dep ep s else s)
      in s'\<lparr>endpointMap := mput2 ep dep (fold gs_ins (setAt newEndpoints ep) []) (endpointMap s')\<rparr>)"

definition diffReplace ::
    "string \<Rightarrow> NumericEndpoint goset \<Rightarrow> (NumericEndpoint, EndpointTargetInfo list) gomap \<Rightarrow> endpointsStore \<Rightarrow> endpointsStore" where
  "diffReplace dep currentEndpoints newEndpoints s =
     (let s1 = fold (epMoveToHistory dep) (filter (\<lambda>ep. mget newEndpoints ep = None) currentEndpoints) s;
          (s2, changedTargetInfoEps) = diffPass2 dep currentEndpoints newEndpoints s1
      in fold (changeTargets dep newEndpoints) changedTargetInfoEps s2)"

definition replaceOne :: "string \<Rightarrow> EntityData option \<Rightarrow> endpointsStore \<Rightarrow> endpointsStore" where
  "replaceOne dep ed s =
     (if isDeleteOnly ed then epPurge dep s
      else let d = the ed
           in if endpointsUnchanged dep (endpoints d) s
              then (if mget (reverseEndpointMap s) dep = None \<and> length (endpoints d) = 0 then markSeen dep s else s)
              else (case mget (reverseEndpointMap s) dep of
                  None \<Rightarrow> epApplySingle dep d s
                | Some currentEndpoints \<Rightarrow>
                    let s' = diffReplace dep currentEndpoints (endpoints d) s
                    in if length (endpoints d) = 0 then markSeen dep s' else s'))"

definition epApply :: "updates \<Rightarrow> bool \<Rightarrow> endpointsStore \<Rightarrow> endpointsStore" where
  "epApply us incremental s =
     (if \<not> incremental then fold (\<lambda>(dep, ed). replaceOne dep ed) us s
      else applyUpdates epApplySingle us s)"

text \<open>The loop of \<open>RecordTick\<close>; \<open>None\<close> is the nil pointer of a missing entry of the reverse map.\<close>

fun tickEndpoints :: "(NumericEndpoint \<times> string) list \<Rightarrow> bool \<Rightarrow> endpointsStore \<Rightarrow> (endpointsStore \<times> bool) option" where
  "tickEndpoints [] removedPublic s = Some (s, removedPublic)"
| "tickEndpoints ((ep, dep) # ps) removedPublic s =
     (let s1 = (case get2 (historicalEndpoints s) ep dep of None \<Rightarrow> s
          | Some m \<Rightarrow> s\<lparr>historicalEndpoints :=
              mput2 ep dep (map (\<lambda>(info, status). (info, recordTick status)) m) (historicalEndpoints s)\<rparr>)
      in case get2 (reverseHistoricalEndpoints s1) dep ep of None \<Rightarrow> None
         | Some status \<Rightarrow>
             let s2 = s1\<lparr>reverseHistoricalEndpoints := mput2 dep ep (recordTick status) (reverseHistoricalEndpoints s1)\<rparr>;
                 (s3, removed) = epRemoveFromHistoryIfExpired dep ep s2
             in tickEndpoints ps (removedPublic \<or> removed \<and> addrIsPublic (Address (IPAndPort ep))) s3)"

definition epRecordTick :: "endpointsStore \<Rightarrow> (endpointsStore \<times> bool) option" where
  "epRecordTick s = tickEndpoints (pairs2 (historicalEndpoints s)) False s"

definition epResetMaps :: "endpointsStore \<Rightarrow> endpointsStore" where
  "epResetMaps s =
     (if \<not> epHistoryEnabled s
      then s\<lparr>endpointMap := [], reverseEndpointMap := [], historicalEndpoints := [], reverseHistoricalEndpoints := []\<rparr>
      else (fold (\<lambda>(ep, dep). epAddToHistory dep ep) (pairs2 (endpointMap s)) s)
             \<lparr>endpointMap := [], reverseEndpointMap := []\<rparr>)"

text \<open>\<open>doLookupEndpoint\<close> for both maps: the deployments at an endpoint with their targets.\<close>

definition doLookupEndpoint :: "(string \<times> EndpointTargetInfo list) list \<Rightarrow> LookupResult list" where
  "doLookupEndpoint deploymentsMap =
     map (\<lambda>(dep, infos). \<lparr>lr_Entity = EntityForDeployment dep, ContainerPorts = map ContainerPort infos,
            PortNames = filter (\<lambda>n. n \<noteq> []) (map PortName infos)\<rparr>) deploymentsMap"

definition lookupEndpoint :: "endpointsStore \<Rightarrow> NumericEndpoint \<Rightarrow> podIPsStore \<Rightarrow>
    LookupResult list \<times> LookupResult list \<times> LookupResult list \<times> LookupResult list" where
  "lookupEndpoint s ep netLookup =
     (let current = doLookupEndpoint (inner (endpointMap s) ep);
          historical = doLookupEndpoint (map (\<lambda>(dep, m). (dep, mkeys m)) (inner (historicalEndpoints s) ep))
      in if 0 < length current + length historical then (current, historical, [], [])
         else let (ipLookup, ipLookupHistorical) =
                LookupByNetAddr netLookup (Address (IPAndPort ep)) (Port (IPAndPort ep))
              in (current, historical, ipLookup, ipLookupHistorical))"

subsection \<open>The store\<close>

text \<open>A listener is kept with the last set of addresses it was sent, if any; the channel for metadata is
  set or not, and what an operation sends to it is part of the result.\<close>

record Store =
  st_endpoints :: endpointsStore
  st_podIPs :: podIPsStore
  st_containerIDs :: containerIDsStore
  publicIPsListeners :: "(nat, IPAddress goset option) gomap"
  callbackChannel :: bool
  heritageApplied :: bool
  currentSensorDeploymentID :: string
  currentSensorEntityData :: "EntityData option"
  st_memorySize :: "16 word"

definition NewEntityStore :: "16 word \<Rightarrow> Store" where
  "NewEntityStore numTicks =
     \<lparr>st_endpoints = newEndpointsStoreWithMemory numTicks, st_podIPs = newPodIPsStoreWithMemory numTicks,
      st_containerIDs = newContainerIDsStoreWithMemory numTicks, publicIPsListeners = [], callbackChannel = False,
      heritageApplied = False, currentSensorDeploymentID = [], currentSensorEntityData = None,
      st_memorySize = numTicks\<rparr>"

definition updatePublicIPRefs :: "IPAddress goset \<Rightarrow> Store \<Rightarrow> Store" where
  "updatePublicIPRefs addrs e =
     e\<lparr>publicIPsListeners := map (\<lambda>(l, _). (l, Some addrs)) (publicIPsListeners e)\<rparr>"

definition currentlyStoredPublicIPs :: "Store \<Rightarrow> IPAddress goset" where
  "currentlyStoredPublicIPs e =
     (let address = (\<lambda>ep. Address (IPAndPort ep));
          public = filter addrIsPublic
      in fold gs_ins
           (public (map address (mkeys (endpointMap (st_endpoints e))))
            @ public (map address (mkeys (historicalEndpoints (st_endpoints e))))
            @ public (mkeys (ipMap (st_podIPs e)))
            @ public (mkeys (historicalIPs (st_podIPs e)))) [])"

definition storeResetMaps :: "Store \<Rightarrow> Store" where
  "storeResetMaps e =
     (let e' = e\<lparr>st_endpoints := epResetMaps (st_endpoints e), st_podIPs := piResetMaps (st_podIPs e),
                 st_containerIDs := ciResetMaps (st_containerIDs e)\<rparr>
      in if st_memorySize e = 0 then updatePublicIPRefs [] e' else e')"

definition storeApply :: "updates \<Rightarrow> bool \<Rightarrow> Store \<Rightarrow> Store \<times> ContainerMetadata list" where
  "storeApply us incremental e =
     (let e1 = e\<lparr>st_endpoints := epApply us incremental (st_endpoints e)\<rparr>;
          e2 = e1\<lparr>st_podIPs := piApply us incremental (st_podIPs e1)\<rparr>;
          e3 = updatePublicIPRefs (currentlyStoredPublicIPs e2) e2;
          (c, callbacks) = ciApply us incremental (st_containerIDs e3)
      in (e3\<lparr>st_containerIDs := c\<rparr>, if callbackChannel e3 then callbacks else []))"

definition storeRecordTick :: "Store \<Rightarrow> Store option" where
  "storeRecordTick e =
     (let (p, removedPubIP) = piRecordTick (st_podIPs e)
      in map_option (\<lambda>(ep, removedEpWithPubIP).
           let e1 = e\<lparr>st_podIPs := p, st_endpoints := ep\<rparr>;
               e2 = (if removedPubIP \<or> removedEpWithPubIP
                     then updatePublicIPRefs (currentlyStoredPublicIPs e1) e1 else e1)
           in e2\<lparr>st_containerIDs := ciRecordTick (st_containerIDs e2)\<rparr>)
         (epRecordTick (st_endpoints e)))"

definition LookupByEndpoint :: "Store \<Rightarrow> NumericEndpoint \<Rightarrow> LookupResult list" where
  "LookupByEndpoint e ep =
     (let (current, historical, ipLookup, ipLookupHistorical) = lookupEndpoint (st_endpoints e) ep (st_podIPs e)
      in if 0 < length current + length historical then current @ historical
         else if 0 < length ipLookup + length ipLookupHistorical then ipLookupHistorical @ ipLookup
         else [])"

definition LookupByContainerID :: "Store \<Rightarrow> string \<Rightarrow> (ContainerMetadata \<times> bool) option" where
  "LookupByContainerID e k = lookupByContainer (st_containerIDs e) k"

definition RegisterPublicIPsListener :: "nat \<Rightarrow> Store \<Rightarrow> Store \<times> bool" where
  "RegisterPublicIPsListener l e =
     (if mget (publicIPsListeners e) l \<noteq> None then (e, False)
      else (e\<lparr>publicIPsListeners := mput l None (publicIPsListeners e)\<rparr>, True))"

definition UnregisterPublicIPsListener :: "nat \<Rightarrow> Store \<Rightarrow> Store \<times> bool" where
  "UnregisterPublicIPsListener l e =
     (e\<lparr>publicIPsListeners := mdel l (publicIPsListeners e)\<rparr>, mget (publicIPsListeners e) l \<noteq> None)"

definition RegisterContainerMetadataCallbackChannel :: "bool \<Rightarrow> Store \<Rightarrow> Store \<times> bool" where
  "RegisterContainerMetadataCallbackChannel callbackChan e = (e\<lparr>callbackChannel := callbackChan\<rparr>, callbackChannel e)"

definition RememberCurrentSensorMetadata :: "string \<Rightarrow> EntityData option \<Rightarrow> Store \<Rightarrow> Store" where
  "RememberCurrentSensorMetadata deplID d e = e\<lparr>currentSensorDeploymentID := deplID, currentSensorEntityData := d\<rparr>"

definition HasCurrentSensorMetadata :: "Store \<Rightarrow> bool" where
  "HasCurrentSensorMetadata e \<longleftrightarrow> currentSensorDeploymentID e \<noteq> [] \<and> currentSensorEntityData e \<noteq> None"

text \<open>The past of the Sensor, as the heritage manager reports it; the start is the address of its field.\<close>

record SensorMetadata =
  sm_ContainerID :: string
  sm_PodIP :: string
  sm_SensorStart :: nat

text \<open>\<open>applyPastToEntityData\<close>; \<open>None\<close> is the write to a nil map. Of several containers with the name
  of the Sensor the last one that \<open>range\<close> visits counts.\<close>

definition sensorContainer :: "(string, ContainerMetadata) gomap \<Rightarrow> string" where
  "sensorContainer m = fold (\<lambda>(k, md) cur. if ContainerName md = ''sensor'' then k else cur) m []"

definition zeroContainer :: ContainerMetadata where
  "zeroContainer = \<lparr>DeploymentID = [], DeploymentTS = 0, PodID = [], PodUID = [], ContainerName = [],
     ContainerID = [], Namespace = [], StartTime = None, ImageID = []\<rparr>"

definition pastEndpoint :: "IPAddress \<Rightarrow> NumericEndpoint \<times> EndpointTargetInfo list \<Rightarrow> EntityData \<Rightarrow> EntityData" where
  "pastEndpoint pastIP = (\<lambda>(ep, infos) d.
     let newEndpoint = MakeNumericEndpoint pastIP (Port (IPAndPort ep)) (L4Proto ep)
     in if mget (endpoints d) newEndpoint \<noteq> None then d else fold (AddEndpoint newEndpoint) infos d)"

definition applyPastToEntityData ::
    "EntityData \<Rightarrow> (NumericEndpoint, EndpointTargetInfo list) gomap \<Rightarrow> SensorMetadata \<Rightarrow> (EntityData \<times> bool) option" where
  "applyPastToEntityData d srcEndpoints past =
     (if mget (containersOf d) (sm_ContainerID past) \<noteq> None then Some (d, False)
      else
        let pastIP = ParseIP (sm_PodIP past);
            d2 = fold (pastEndpoint pastIP) srcEndpoints (AddIP pastIP d);
            current = (case mget (containersOf d2) (sensorContainer (containersOf d2)) of
                None \<Rightarrow> zeroContainer | Some md \<Rightarrow> md);
            meta = current\<lparr>ContainerID := sm_ContainerID past, StartTime := Some (sm_SensorStart past)\<rparr>
        in map_option (\<lambda>m. (d2\<lparr>containerIDs := Some (mput (sm_ContainerID past) meta m)\<rparr>, True)) (containerIDs d2))"

fun applyPasts :: "(NumericEndpoint, EndpointTargetInfo list) gomap \<Rightarrow> SensorMetadata list \<Rightarrow> EntityData \<Rightarrow> bool \<Rightarrow>
    (EntityData \<times> bool) option" where
  "applyPasts srcEndpoints [] d changed = Some (d, changed)"
| "applyPasts srcEndpoints (entry # past) d changed =
     Option.bind (applyPastToEntityData d srcEndpoints entry) (\<lambda>(d', added).
       applyPasts srcEndpoints past d' (changed \<or> added))"

text \<open>\<open>applyHeritageData\<close>, with the data the manager returns; the flag is its result.\<close>

definition applyHeritageData :: "SensorMetadata list \<Rightarrow> Store \<Rightarrow> (Store \<times> ContainerMetadata list \<times> bool) option" where
  "applyHeritageData past e =
     (case currentSensorEntityData e of
        None \<Rightarrow> Some (e, [], False)
      | Some d \<Rightarrow>
          if \<not> HasCurrentSensorMetadata e \<or> length past = 0 then Some (e, [], False)
          else map_option (\<lambda>(modEntityData, changed).
                 if changed
                 then (let (e', callbacks) = storeApply [(currentSensorDeploymentID e, Some modEntityData)] True e
                       in (e', callbacks, True))
                 else (e, [], True))
               (applyPasts (endpoints d) past d False))"

definition ApplyDataFromHeritageOnce :: "bool \<Rightarrow> SensorMetadata list \<Rightarrow> Store \<Rightarrow> (Store \<times> ContainerMetadata list) option" where
  "ApplyDataFromHeritageOnce isEnabled past e =
     (if heritageApplied e then Some (e, [])
      else if \<not> isEnabled then Some (e\<lparr>heritageApplied := True\<rparr>, [])
      else map_option (\<lambda>(e', callbacks, ok). (if ok then e'\<lparr>heritageApplied := True\<rparr> else e', callbacks))
             (applyHeritageData past e))"

end
