(* ===== verification/Entity_Store_Facts.thy ===== *)
theory Entity_Store_Facts
  imports Cluster_Entities
begin

text \<open>
  What the stores of \<open>Cluster_Entities\<close> have in common: lemmas on nested maps, and the memory. For a
  deployment and a key an entry is in one of the states \<open>presence\<close>: current, historical with some ticks
  left, or absent. The locale \<open>remembering\<close> states how a tick changes them, and what follows for the
  time an entry is remembered; it is interpreted for the addresses of pods in \<open>Pod_Ips\<close>, and for
  the endpoints in \<open>Entity_Endpoints\<close>.
\<close>

declare map_of_eq_Some_iff [simp del]

subsection \<open>Nested maps\<close>

lemma inner_mput [simp]: "inner (mput k i m) k' = (if k' = k then i else inner m k')"
  by (simp add: inner_def)

lemma inner_mdel [simp]: "inner (mdel k m) k' = (if k' = k then [] else inner m k')"
  by (simp add: inner_def)

lemma get2_Nil [simp]: "get2 [] k l = None"
  by (simp add: get2_def inner_def)

lemma get2_mput2 [simp]: "get2 (mput2 k l v m) k' l' = (if k' = k \<and> l' = l then Some v else get2 m k' l')"
  by (simp add: get2_def mput2_def)

lemma inner_mdel2: "inner (mdel2 k l m) k' = (if k' = k then mdel l (inner m k) else inner m k')"
  by (simp add: mdel2_def Let_def)

lemma get2_mdel2 [simp]: "get2 (mdel2 k l m) k' l' = (if k' = k \<and> l' = l then None else get2 m k' l')"
  by (simp add: get2_def inner_mdel2)

lemma get2_missing: "mget m k = None \<Longrightarrow> get2 m k l = None"
  by (simp add: get2_def inner_def)

interpretation nested: map_adt "\<lambda>m p. get2 m (fst p) (snd p)" "\<lambda>p. mput2 (fst p) (snd p)" "\<lambda>p. mdel2 (fst p) (snd p)"
  by unfold_locales (simp_all add: prod_eq_iff)

text \<open>A well-formed nested map has no empty inner map.\<close>

definition wf2 :: "('a, ('b, 'c) gomap) gomap \<Rightarrow> bool" where
  "wf2 m \<longleftrightarrow> wf_map m \<and> (\<forall>k i. mget m k = Some i \<longrightarrow> wf_map i \<and> i \<noteq> [])"

lemma wf2_Nil [simp]: "wf2 []"
  by (simp add: wf2_def)

lemma wf2_inner: "wf2 m \<Longrightarrow> wf_map (inner m k)"
  unfolding wf2_def inner_def by (cases "mget m k") (simp_all )

lemma update_nonempty [simp]: "AList.update k v m \<noteq> []"
  by (induction m) auto

lemma wf2I: "wf_map m \<Longrightarrow> (\<And>k i. mget m k = Some i \<Longrightarrow> wf_map i \<and> i \<noteq> []) \<Longrightarrow> wf2 m"
  unfolding wf2_def by blast

lemma wf2D: "wf2 m \<Longrightarrow> mget m k = Some i \<Longrightarrow> wf_map i \<and> i \<noteq> []"
  unfolding wf2_def by blast

lemma wf2_map: "wf2 m \<Longrightarrow> wf_map m"
  by (simp add: wf2_def)

lemma wf2_mput: "wf2 m \<Longrightarrow> wf_map i \<Longrightarrow> i \<noteq> [] \<Longrightarrow> wf2 (mput k i m)"
  by (rule wf2I) (simp_all add: wf2_map wf2D split: if_splits )

lemma wf2_mdel: "wf2 m \<Longrightarrow> wf2 (mdel k m)"
  by (rule wf2I) (simp_all add: wf2_map wf2D split: if_splits )

lemma wf2_mput2 [wf_intros, simp]: "wf2 m \<Longrightarrow> wf2 (mput2 k l v m)"
  unfolding mput2_def by (rule wf2_mput) (simp_all add: wf2_inner)

lemma wf2_mdel2 [wf_intros, simp]: "wf2 m \<Longrightarrow> wf2 (mdel2 k l m)"
  unfolding mdel2_def Let_def by (simp add: wf2_mput wf2_mdel wf2_inner)

lemma mget_wf2:
  assumes "wf2 m"
  shows "mget m k \<noteq> None \<longleftrightarrow> (\<exists>l. get2 m k l \<noteq> None)"
proof (cases "mget m k")
  case None
  then show ?thesis by (simp add: get2_def inner_def)
next
  case (Some i)
  have "i \<noteq> []" using wf2D [OF assms Some] by simp
  then obtain l v i' where "i = (l, v) # i'" by (cases i) auto
  with Some have "get2 m k l = Some v" by (simp add: get2_def inner_def)
  then have "\<exists>l. get2 m k l \<noteq> None" by blast
  with Some show ?thesis by simp
qed

lemma pairs2_Nil [simp]: "pairs2 [] = []"
  by (simp add: pairs2_def)

lemma set_pairs2: "wf2 m \<Longrightarrow> (k, l) \<in> set (pairs2 m) \<longleftrightarrow> get2 m k l \<noteq> None"
proof -
  assume wf: "wf2 m"
  have "(k, l) \<in> set (pairs2 m) \<longleftrightarrow> (\<exists>i. (k, i) \<in> set m \<and> l \<in> set (mkeys i))"
    by (force simp: pairs2_def)
  also have "\<dots> \<longleftrightarrow> (\<exists>i. mget m k = Some i \<and> l \<in> set (mkeys i))"
    using wf2_map [OF wf] by (simp add: mget_eq_iff_in_set)
  also have "\<dots> \<longleftrightarrow> get2 m k l \<noteq> None"
    unfolding get2_def inner_def mget_None_iff by (cases "mget m k") (simp_all )
  finally show ?thesis .
qed

lemma distinct_row: "wf_map i \<Longrightarrow> distinct (map (\<lambda>(l, _). (k, l)) i)"
  by (induction i) (auto simp: image_iff)

lemma distinct_rows:
  "wf_map m \<Longrightarrow> (\<And>k i. (k, i) \<in> set m \<Longrightarrow> wf_map i) \<Longrightarrow> distinct (pairs2 m)"
proof (induction m)
  case (Cons p m)
  obtain k i where p: "p = (k, i)" by (cases p)
  have rows: "pairs2 (p # m) = map (\<lambda>(l, _). (k, l)) i @ pairs2 m" by (simp add: pairs2_def p)
  have "x \<notin> set (pairs2 m)" if "fst x = k" for x
    using Cons.prems(1) that p by (force simp: pairs2_def)
  moreover have "fst x = k" if "x \<in> set (map (\<lambda>(l, _). (k, l)) i)" for x using that by auto
  moreover have "distinct (pairs2 m)" using Cons p by auto
  moreover have "distinct (map (\<lambda>(l, _). (k, l)) i)" using Cons.prems(2) [of k i] p by (intro distinct_row) simp
  ultimately show ?case unfolding rows distinct_append by blast
qed (simp add: pairs2_def)

lemma distinct_pairs2: "wf2 m \<Longrightarrow> distinct (pairs2 m)"
  by (rule distinct_rows [OF wf2_map]) (use wf2D wf2_map mget_eq_iff_in_set in metis)+

lemma setAt_mput [simp]: "setAt (mput k s m) k' = (if k' = k then s else setAt m k')"
  by (simp add: setAt_def)

lemma setAt_mdel [simp]: "setAt (mdel k m) k' = (if k' = k then [] else setAt m k')"
  by (simp add: setAt_def)

lemma setAt_Nil [simp]: "setAt [] k = []"
  by (simp add: setAt_def)

lemma setAdd_fst: "fst (setAdd x s) = gs_ins x s"
  by (simp add: setAdd_def Let_def)

lemma setRemove_fst: "fst (setRemove x s) = filter (\<lambda>y. y \<noteq> x) s"
  by (simp add: setRemove_def Let_def)

subsection \<open>Presence and ticks\<close>

datatype presence = Current | Historical entityStatus | Absent

fun agePresence :: "nat \<Rightarrow> presence \<Rightarrow> presence" where
  "agePresence n (Historical t) = (if n < unat t then Historical (t - of_nat n) else Absent)"
| "agePresence n x = x"

lemma unat_pos: "0 < t \<Longrightarrow> 0 < unat t" for t :: "'w::len word"
  by (simp add: word_less_nat_alt)

lemma age_0: "agePresence 0 (Historical t) = (if t = 0 then Absent else Historical t)"
  by (simp add: unat_eq_0)

lemma age_Suc:
  "agePresence (Suc n) x = agePresence n (agePresence 1 x)"
proof (cases x)
  case (Historical t)
  show ?thesis
  proof (cases "1 < unat t")
    case True
    then have "unat (t - 1) = unat t - 1" by (simp add: unat_sub word_le_nat_alt)
    then show ?thesis using True Historical by (auto simp: algebra_simps)
  qed (use Historical in auto)
qed simp_all

text \<open>A status after one more tick; \<open>None\<close> when it expires.\<close>

definition tickedStatus :: "entityStatus \<Rightarrow> entityStatus option" where
  "tickedStatus t = (if recordTick t = 0 then None else Some (recordTick t))"

lemma tickedStatus_Some: "tickedStatus t = Some u \<longleftrightarrow> 1 < unat t \<and> u = t - 1"
proof -
  have "recordTick t \<noteq> 0 \<longleftrightarrow> 1 < unat t"
    by (auto simp: recordTick_def unat_eq_0 word_less_nat_alt unat_sub word_le_nat_alt simp flip: unat_eq_0)
  then show ?thesis by (auto simp: tickedStatus_def recordTick_def word_less_nat_alt)
qed

lemma tickedStatus_le: "tickedStatus t = Some u \<Longrightarrow> 0 < u \<and> u \<le> t"
proof -
  assume "tickedStatus t = Some u"
  then have "u = t - 1" "1 < unat t" by (simp_all add: tickedStatus_Some)
  then show "0 < u \<and> u \<le> t"
    by (simp add: word_less_nat_alt word_le_nat_alt unat_sub)
qed

lemma tickedStatus_None: "0 < t \<Longrightarrow> tickedStatus t = None \<longleftrightarrow> t = 1"
  by (simp add: tickedStatus_def recordTick_def)

lemma age_tickedStatus:
  "agePresence 1 (Historical t) = (case tickedStatus t of None \<Rightarrow> Absent | Some u \<Rightarrow> Historical u)"
proof (cases "tickedStatus t")
  case None
  with tickedStatus_Some [of t "t - 1"] show ?thesis by simp
next
  case (Some u)
  with tickedStatus_Some [of t u] show ?thesis by simp
qed

locale remembering =
  fixes inv :: "'s \<Rightarrow> bool" and status :: "'s \<Rightarrow> 'd \<Rightarrow> 'k \<Rightarrow> presence" and tick :: "'s \<Rightarrow> 's option"
  assumes tick_law: "inv s \<Longrightarrow> \<exists>s'. tick s = Some s' \<and> inv s' \<and> (\<forall>d k. status s' d k = agePresence 1 (status s d k))"
    and alive: "inv s \<Longrightarrow> status s d k = Historical t \<Longrightarrow> 0 < t"
begin

primrec ticks :: "nat \<Rightarrow> 's \<Rightarrow> 's option" where
  "ticks 0 s = Some s"
| "ticks (Suc n) s = Option.bind (tick s) (ticks n)"

lemma ticks_spec:
  "inv s \<Longrightarrow> \<exists>s'. ticks n s = Some s' \<and> inv s' \<and> (\<forall>d k. status s' d k = agePresence n (status s d k))"
proof (induction n arbitrary: s)
  case 0
  have "agePresence 0 (status s d k) = status s d k" for d k
    using alive [OF 0, of d k] by (cases "status s d k") (auto simp: unat_pos)
  with 0 show ?case by simp
next
  case (Suc n)
  from tick_law [OF Suc.prems] obtain s1 where
    s1: "tick s = Some s1" "inv s1" "\<And>d k. status s1 d k = agePresence 1 (status s d k)" by blast
  from Suc.IH [OF s1(2)] obtain s' where
    "ticks n s1 = Some s'" "inv s'" "\<And>d k. status s' d k = agePresence n (status s1 d k)" by blast
  with s1 show ?case by (simp add: age_Suc [of n])
qed

text \<open>An entry with \<open>t\<close> ticks left is found for \<open>t - 1\<close> ticks, and not after \<open>t\<close>.\<close>

lemma remembered_until:
  assumes "inv s" "status s d k = Historical t" "n < unat t" "ticks n s = Some s'"
  shows "status s' d k = Historical (t - of_nat n)"
  using ticks_spec [OF assms(1), of n] assms by auto

lemma forgotten_after:
  assumes "inv s" "status s d k = Historical t" "unat t \<le> n" "ticks n s = Some s'"
  shows "status s' d k = Absent"
  using ticks_spec [OF assms(1), of n] assms by auto

end

end
