(* ===== verification/Pod_Ips.thy ===== *)
theory Pod_Ips
  imports Entity_Store_Facts
begin

text \<open>
  The store of the addresses of pods refines a map from deployments and addresses to \<open>presence\<close>: every
  operation keeps the invariant \<open>piOK\<close> and changes \<open>piStatus\<close> as the specification says, so that
  lookups answer from the specification alone and removed addresses are remembered as long as configured.
\<close>

subsection \<open>Addresses of pods\<close>

definition piStatus :: "podIPsStore \<Rightarrow> string \<Rightarrow> IPAddress \<Rightarrow> presence" where
  "piStatus s dep a =
     (if a \<in> set (setAt (reverseIPMap s) dep) then Current
      else case get2 (historicalIPs s) a dep of None \<Rightarrow> Absent | Some t \<Rightarrow> Historical t)"

definition noEmpty :: "('a, 'b goset) gomap \<Rightarrow> bool" where
  "noEmpty m \<longleftrightarrow> wf_map m \<and> (\<forall>k. mget m k \<noteq> Some [] \<and> distinct (setAt m k))"

definition piOK :: "podIPsStore \<Rightarrow> bool" where
  "piOK s \<longleftrightarrow> noEmpty (ipMap s) \<and> wf_map (reverseIPMap s) \<and> wf2 (historicalIPs s)
     \<and> (\<forall>dep. distinct (setAt (reverseIPMap s) dep))
     \<and> (\<forall>dep a. dep \<in> set (setAt (ipMap s) a) \<longleftrightarrow> a \<in> set (setAt (reverseIPMap s) dep))
     \<and> (\<forall>dep a t. get2 (historicalIPs s) a dep = Some t \<longrightarrow>
          0 < t \<and> t \<le> pi_memorySize s \<and> a \<notin> set (setAt (reverseIPMap s) dep))"

text \<open>What a deployment leaves behind when it is removed.\<close>

fun demote :: "16 word \<Rightarrow> presence \<Rightarrow> presence" where
  "demote mem Current = (if mem = 0 then Absent else Historical mem)"
| "demote mem x = x"

lemma demote_demote [simp]: "demote mem (demote mem x) = demote mem x"
  by (cases x) auto

lemma noEmptyI: "wf_map m \<Longrightarrow> (\<And>k. mget m k \<noteq> Some []) \<Longrightarrow> (\<And>k. distinct (setAt m k)) \<Longrightarrow> noEmpty m"
  by (simp add: noEmpty_def)

lemma noEmptyD: "noEmpty m \<Longrightarrow> wf_map m" "noEmpty m \<Longrightarrow> mget m k \<noteq> Some []" "noEmpty m \<Longrightarrow> distinct (setAt m k)"
  by (simp_all add: noEmpty_def)

lemma noEmpty_Nil [simp]: "noEmpty []"
  by (simp add: noEmpty_def)

lemma noEmpty_mput: "noEmpty m \<Longrightarrow> s \<noteq> [] \<Longrightarrow> distinct s \<Longrightarrow> noEmpty (mput k s m)"
  by (rule noEmptyI) (simp_all add: noEmptyD split: if_splits)

lemma noEmpty_mdel: "noEmpty m \<Longrightarrow> noEmpty (mdel k m)"
  by (rule noEmptyI) (simp_all add: noEmptyD split: if_splits)

lemma noEmpty_mget: "noEmpty m \<Longrightarrow> mget m k \<noteq> None \<longleftrightarrow> setAt m k \<noteq> []"
  using noEmptyD(2) [of m k] by (cases "mget m k") (simp_all add: setAt_def)

lemma noEmpty_remove: "noEmpty m \<Longrightarrow> noEmpty (removeDeployment dep a m)"
  unfolding removeDeployment_def Let_def setCardinality_def
  by (auto simp: setRemove_fst noEmptyD intro!: noEmpty_mput noEmpty_mdel)

lemma setAt_remove:
  "setAt (removeDeployment dep a m) a' = (if a' = a then filter (\<lambda>d. d \<noteq> dep) (setAt m a) else setAt m a')"
  unfolding removeDeployment_def Let_def setCardinality_def by (simp add: setRemove_fst)

lemma noEmpty_remove_all: "noEmpty m \<Longrightarrow> noEmpty (fold (removeDeployment dep) as m)"
  by (induction as arbitrary: m) (simp_all add: noEmpty_remove)

lemma setAt_remove_all:
  "setAt (fold (removeDeployment dep) as m) a = (if a \<in> set as then filter (\<lambda>d. d \<noteq> dep) (setAt m a) else setAt m a)"
  by (induction as arbitrary: m) (auto simp: setAt_remove)

lemma wf2_fold_mput2: "wf2 m \<Longrightarrow> wf2 (fold (\<lambda>x. mput2 (f x) (g x) (v x)) xs m)"
  by (induction xs arbitrary: m) simp_all

lemma piOKI:
  assumes "noEmpty (ipMap s)" "wf_map (reverseIPMap s)" "wf2 (historicalIPs s)"
    "\<And>dep. distinct (setAt (reverseIPMap s) dep)"
    "\<And>dep a. dep \<in> set (setAt (ipMap s) a) \<longleftrightarrow> a \<in> set (setAt (reverseIPMap s) dep)"
    "\<And>dep a t. get2 (historicalIPs s) a dep = Some t \<Longrightarrow>
       0 < t \<and> t \<le> pi_memorySize s \<and> a \<notin> set (setAt (reverseIPMap s) dep)"
  shows "piOK s"
  unfolding piOK_def using assms by blast

lemma piOKD:
  assumes "piOK s"
  shows "noEmpty (ipMap s)" "wf_map (reverseIPMap s)" "wf2 (historicalIPs s)"
    "distinct (setAt (reverseIPMap s) dep)"
    "dep \<in> set (setAt (ipMap s) a) \<longleftrightarrow> a \<in> set (setAt (reverseIPMap s) dep)"
    "get2 (historicalIPs s) a dep = Some t \<Longrightarrow> 0 < t \<and> t \<le> pi_memorySize s \<and> a \<notin> set (setAt (reverseIPMap s) dep)"
  using assms unfolding piOK_def by blast+

lemma piAddToHistory_get2:
  "get2 (historicalIPs (piAddToHistory dep s)) a dep' =
     (if dep' = dep \<and> a \<in> set (setAt (reverseIPMap s) dep) then Some (pi_memorySize s) else get2 (historicalIPs s) a dep')"
  using nested.get_fold_put_same [where key = "\<lambda>a. (a, dep)" and k = "(a, dep')" and v = "pi_memorySize s"]
  by (auto simp: piAddToHistory_def newHistoricalEntity_def image_iff)

lemma piAddToHistory_fields [simp]:
  "pi_memorySize (piAddToHistory dep s) = pi_memorySize s" "ipMap (piAddToHistory dep s) = ipMap s"
  "reverseIPMap (piAddToHistory dep s) = reverseIPMap s"
  by (simp_all add: piAddToHistory_def)

lemma piAddToHistory_wf: "wf2 (historicalIPs s) \<Longrightarrow> wf2 (historicalIPs (piAddToHistory dep s))"
  unfolding piAddToHistory_def by (simp add: wf2_fold_mput2)

lemma deleteDeploymentFromCurrent_OK:
  assumes "piOK s"
  shows "piOK (deleteDeploymentFromCurrent dep s)"
proof (rule piOKI)
  show "wf_map (reverseIPMap (deleteDeploymentFromCurrent dep s))"
    using piOKD(2) [OF assms] by (simp add: deleteDeploymentFromCurrent_def)
qed (use piOKD [OF assms] in \<open>auto simp: deleteDeploymentFromCurrent_def noEmpty_remove_all setAt_remove_all\<close>)

text \<open>Here the invariant may fail for \<open>dep\<close> in between, as its addresses are in both maps.\<close>

lemma purgeDeployment_spec:
  assumes "piOK s"
  shows "piOK (purgeDeployment dep s)" and "pi_memorySize (purgeDeployment dep s) = pi_memorySize s"
    and "piStatus (purgeDeployment dep s) dep' a =
      (if dep' = dep then demote (pi_memorySize s) (piStatus s dep' a) else piStatus s dep' a)"
proof -
  note ok = piOKD [OF assms]
  have mem: "0 < pi_memorySize s \<longleftrightarrow> pi_memorySize s \<noteq> 0" by (simp add: word_neq_0_conv)
  show "piOK (purgeDeployment dep s)"
  proof (cases "piHistoryEnabled s")
    case True
    show ?thesis
    proof (rule piOKI)
      show "wf_map (reverseIPMap (purgeDeployment dep s))"
        using True ok(2) by (simp add: purgeDeployment_def moveDeploymentToHistory_def deleteDeploymentFromCurrent_def)
      show "wf2 (historicalIPs (purgeDeployment dep s))"
        using True ok(3)
        by (simp add: purgeDeployment_def moveDeploymentToHistory_def deleteDeploymentFromCurrent_def piAddToHistory_wf)
    qed (use True ok in \<open>auto simp: purgeDeployment_def moveDeploymentToHistory_def deleteDeploymentFromCurrent_def
        noEmpty_remove_all setAt_remove_all piAddToHistory_get2 piHistoryEnabled_def split: if_splits\<close>)
  next
    case False
    then show ?thesis using deleteDeploymentFromCurrent_OK [OF assms] by (simp add: purgeDeployment_def)
  qed
  show "pi_memorySize (purgeDeployment dep s) = pi_memorySize s"
    by (simp add: purgeDeployment_def moveDeploymentToHistory_def deleteDeploymentFromCurrent_def)
  show "piStatus (purgeDeployment dep s) dep' a =
      (if dep' = dep then demote (pi_memorySize s) (piStatus s dep' a) else piStatus s dep' a)"
    using ok(6) [of a dep]
    by (auto simp: piStatus_def purgeDeployment_def moveDeploymentToHistory_def deleteDeploymentFromCurrent_def
        piAddToHistory_get2 piHistoryEnabled_def mem split: option.splits)
qed

lemma purge_all_spec:
  assumes "piOK s"
  shows "piOK (fold purgeDeployment deps s) \<and> pi_memorySize (fold purgeDeployment deps s) = pi_memorySize s
    \<and> (\<forall>dep a. piStatus (fold purgeDeployment deps s) dep a =
      (if dep \<in> set deps then demote (pi_memorySize s) (piStatus s dep a) else piStatus s dep a))"
  using assms
proof (induction deps arbitrary: s)
  case (Cons d deps)
  from Cons.IH [OF purgeDeployment_spec(1) [OF Cons.prems]] show ?case
    by (simp add: purgeDeployment_spec(2,3) [OF Cons.prems])
qed simp

subsection \<open>Updates\<close>

lemma piDeleteFromHistory_spec:
  "get2 (historicalIPs (fst (piDeleteFromHistory dep a s))) a' dep' =
     (if a' = a \<and> dep' = dep then None else get2 (historicalIPs s) a' dep')"
  "pi_memorySize (fst (piDeleteFromHistory dep a s)) = pi_memorySize s"
  "ipMap (fst (piDeleteFromHistory dep a s)) = ipMap s"
  "reverseIPMap (fst (piDeleteFromHistory dep a s)) = reverseIPMap s"
  "wf2 (historicalIPs s) \<Longrightarrow> wf2 (historicalIPs (fst (piDeleteFromHistory dep a s)))"
  by (auto simp: piDeleteFromHistory_def get2_missing)

lemma applyIPs_spec:
  assumes "noEmpty (ipMap s)" "wf2 (historicalIPs s)"
  shows "noEmpty (ipMap (snd (applyIPs dep as k s))) \<and> wf2 (historicalIPs (snd (applyIPs dep as k s)))
    \<and> pi_memorySize (snd (applyIPs dep as k s)) = pi_memorySize s
    \<and> reverseIPMap (snd (applyIPs dep as k s)) = reverseIPMap s
    \<and> set (fst (applyIPs dep as k s)) = set as \<union> set k \<and> (distinct k \<longrightarrow> distinct (fst (applyIPs dep as k s)))
    \<and> (\<forall>a d. d \<in> set (setAt (ipMap (snd (applyIPs dep as k s))) a) \<longleftrightarrow>
          d \<in> set (setAt (ipMap s) a) \<or> d = dep \<and> a \<in> set as)
    \<and> (\<forall>a d. get2 (historicalIPs (snd (applyIPs dep as k s))) a d =
          (if d = dep \<and> a \<in> set as then None else get2 (historicalIPs s) a d))"
  using assms
proof (induction dep as k s rule: applyIPs.induct)
  case (2 dep a as k s)
  let ?s = "fst (piDeleteFromHistory dep a (s\<lparr>ipMap := mput a (fst (setAdd dep (setAt (ipMap s) a))) (ipMap s)\<rparr>))"
  have "gs_ins dep (setAt (ipMap s) a) \<noteq> []" by (auto simp: gs_ins_def)
  then have "noEmpty (ipMap ?s)" "wf2 (historicalIPs ?s)"
    using 2 by (simp_all add: piDeleteFromHistory_spec setAdd_fst noEmpty_mput noEmptyD)
  from 2(1) [OF refl refl this] show ?case
    by (auto simp: Let_def piDeleteFromHistory_spec setAdd_fst)
qed simp

lemma piApplySingle_spec:
  assumes "piOK s"
  shows "piOK (piApplySingle dep d s)" and "pi_memorySize (piApplySingle dep d s) = pi_memorySize s"
    and "piStatus (piApplySingle dep d s) dep' a =
      (if dep' = dep \<and> a \<in> set (ips d) then Current else piStatus s dep' a)"
proof -
  note ok = piOKD [OF assms]
  obtain k s' where r: "applyIPs dep (ips d) (setClone (setAt (reverseIPMap s) dep)) s = (k, s')" by fastforce
  note spec = applyIPs_spec [OF ok(1,3), of dep "ips d" "setClone (setAt (reverseIPMap s) dep)", unfolded r fst_conv snd_conv]
  have result: "piApplySingle dep d s = s'\<lparr>reverseIPMap := mput dep k (reverseIPMap s')\<rparr>"
    by (simp add: piApplySingle_def r)
  show "pi_memorySize (piApplySingle dep d s) = pi_memorySize s" using spec by (simp add: result)
  show "piOK (piApplySingle dep d s)"
    by (rule piOKI) (use spec ok in \<open>auto simp: result split: if_splits\<close>)
  show "piStatus (piApplySingle dep d s) dep' a =
      (if dep' = dep \<and> a \<in> set (ips d) then Current else piStatus s dep' a)"
    using spec by (auto simp: piStatus_def result)
qed

text \<open>The addresses that updates give to a deployment.\<close>

definition updatedIPs :: "updates \<Rightarrow> string \<Rightarrow> IPAddress set" where
  "updatedIPs us dep = {a. \<exists>d. (dep, Some d) \<in> set us \<and> a \<in> set (ips d)}"

definition applyPresence ::
    "16 word \<Rightarrow> updates \<Rightarrow> bool \<Rightarrow> (string \<Rightarrow> IPAddress \<Rightarrow> presence) \<Rightarrow> string \<Rightarrow> IPAddress \<Rightarrow> presence" where
  "applyPresence mem us incremental A dep a =
     (if a \<in> updatedIPs us dep then Current
      else if \<not> incremental \<and> dep \<in> set (mkeys us) then demote mem (A dep a) else A dep a)"

lemma updatedIPs_Cons:
  "updatedIPs ((k, ed) # us) dep =
     (if dep = k \<and> \<not> isDeleteOnly ed then set (ips (the ed)) else {}) \<union> updatedIPs us dep"
  by (cases ed) (auto simp: updatedIPs_def isDeleteOnly_def)

lemma applyUpdates_spec:
  assumes "piOK s"
  shows "piOK (applyUpdates piApplySingle us s) \<and> pi_memorySize (applyUpdates piApplySingle us s) = pi_memorySize s
    \<and> (\<forall>dep a. piStatus (applyUpdates piApplySingle us s) dep a =
      (if a \<in> updatedIPs us dep then Current else piStatus s dep a))"
  using assms
proof (induction us arbitrary: s)
  case Nil
  then show ?case by (simp add: applyUpdates_def updatedIPs_def)
next
  case (Cons p us)
  obtain k ed where p: "p = (k, ed)" by (cases p)
  let ?s = "if isDeleteOnly ed then s else piApplySingle k (the ed) s"
  have "piOK ?s" using Cons.prems by (simp add: piApplySingle_spec)
  moreover have "applyUpdates piApplySingle (p # us) s = applyUpdates piApplySingle us ?s"
    by (simp add: applyUpdates_def p)
  ultimately show ?case using Cons.IH [of ?s]
    by (auto simp: p updatedIPs_Cons piApplySingle_spec [OF Cons.prems])
qed

lemma piApply_spec:
  assumes "piOK s"
  shows "piOK (piApply us incremental s)" and "pi_memorySize (piApply us incremental s) = pi_memorySize s"
    and "piStatus (piApply us incremental s) = applyPresence (pi_memorySize s) us incremental (piStatus s)"
proof -
  let ?s = "if incremental then s else fold purgeDeployment (mkeys us) s"
  have s: "piOK ?s" "pi_memorySize ?s = pi_memorySize s"
    "\<And>dep a. piStatus ?s dep a = (if \<not> incremental \<and> dep \<in> set (mkeys us)
       then demote (pi_memorySize s) (piStatus s dep a) else piStatus s dep a)"
    using purge_all_spec [OF assms, of "mkeys us"] assms by auto
  have result: "piApply us incremental s = applyUpdates piApplySingle us ?s" by (simp add: piApply_def)
  note spec = applyUpdates_spec [OF s(1), of us]
  show "piOK (piApply us incremental s)" "pi_memorySize (piApply us incremental s) = pi_memorySize s"
    unfolding result using spec s(2) by simp_all
  show "piStatus (piApply us incremental s) = applyPresence (pi_memorySize s) us incremental (piStatus s)"
    unfolding result by (intro ext) (simp add: spec s(3) applyPresence_def)
qed

subsection \<open>Ticks and resets\<close>

lemma recordTick_pos: "0 < t \<Longrightarrow> recordTick t = t - 1"
  by (simp add: recordTick_def)

text \<open>One pair of the loop.\<close>

definition tickIP :: "IPAddress \<Rightarrow> string \<Rightarrow> podIPsStore \<Rightarrow> podIPsStore \<times> bool" where
  "tickIP a dep s = piRemoveFromHistoryIfExpired dep a (case get2 (historicalIPs s) a dep of None \<Rightarrow> s
     | Some status \<Rightarrow> s\<lparr>historicalIPs := mput2 a dep (recordTick status) (historicalIPs s)\<rparr>)"

lemma tickIPs_Cons:
  "tickIPs ((a, dep) # ps) r s =
     tickIPs ps (r \<or> snd (tickIP a dep s) \<and> addrIsPublic a) (fst (tickIP a dep s))"
  by (simp add: tickIP_def split_beta Let_def)

lemma tickIP_fields [simp]:
  "pi_memorySize (fst (tickIP a dep s)) = pi_memorySize s" "ipMap (fst (tickIP a dep s)) = ipMap s"
  "reverseIPMap (fst (tickIP a dep s)) = reverseIPMap s"
  by (cases "get2 (historicalIPs s) a dep";
      simp add: tickIP_def piRemoveFromHistoryIfExpired_def piDeleteFromHistory_def)+

lemma tickIP_wf [simp]: "wf2 (historicalIPs s) \<Longrightarrow> wf2 (historicalIPs (fst (tickIP a dep s)))"
  by (cases "get2 (historicalIPs s) a dep")
    (simp_all add: tickIP_def piRemoveFromHistoryIfExpired_def piDeleteFromHistory_def)

lemma mget_mput2: "mget (mput2 k l v m) k \<noteq> None"
  by (simp add: mput2_def)

lemma tickIP_get2:
  "get2 (historicalIPs (fst (tickIP a dep s))) a' dep' = (if (a', dep') = (a, dep)
     then Option.bind (get2 (historicalIPs s) a dep) tickedStatus else get2 (historicalIPs s) a' dep')"
  by (cases "get2 (historicalIPs s) a dep")
    (simp_all add: tickIP_def piRemoveFromHistoryIfExpired_def piDeleteFromHistory_def tickedStatus_def
      IsExpired_def mget_mput2)

lemma tickIP_removed:
  "snd (tickIP a dep s) \<longleftrightarrow> (\<exists>t. get2 (historicalIPs s) a dep = Some t \<and> tickedStatus t = None)"
  by (cases "get2 (historicalIPs s) a dep")
    (simp_all add: tickIP_def piRemoveFromHistoryIfExpired_def piDeleteFromHistory_def tickedStatus_def
      IsExpired_def mget_mput2)

lemma tickIPs_fields [simp]:
  "pi_memorySize (fst (tickIPs ps r s)) = pi_memorySize s" "ipMap (fst (tickIPs ps r s)) = ipMap s"
  "reverseIPMap (fst (tickIPs ps r s)) = reverseIPMap s"
  by (induction ps arbitrary: r s) (auto simp: tickIPs_Cons simp del: tickIPs.simps(2))

lemma tickIPs_wf: "wf2 (historicalIPs s) \<Longrightarrow> wf2 (historicalIPs (fst (tickIPs ps r s)))"
  by (induction ps arbitrary: r s) (auto simp: tickIPs_Cons simp del: tickIPs.simps(2))

lemma tickIPs_get2:
  "distinct ps \<Longrightarrow> get2 (historicalIPs (fst (tickIPs ps r s))) a dep =
     (if (a, dep) \<in> set ps then Option.bind (get2 (historicalIPs s) a dep) tickedStatus
      else get2 (historicalIPs s) a dep)"
proof (induction ps arbitrary: r s)
  case (Cons p ps)
  obtain a' dep' where p: "p = (a', dep')" by (cases p)
  show ?case
    using Cons.prems unfolding p tickIPs_Cons by (simp add: Cons.IH tickIP_get2)
qed simp

lemma tickIPs_removed:
  "distinct ps \<Longrightarrow> snd (tickIPs ps r s) \<longleftrightarrow> r \<or> (\<exists>(a, dep) \<in> set ps. addrIsPublic a \<and>
     (\<exists>t. get2 (historicalIPs s) a dep = Some t \<and> tickedStatus t = None))"
proof (induction ps arbitrary: r s)
  case (Cons p ps)
  obtain a dep where p: "p = (a, dep)" by (cases p)
  have others: "get2 (historicalIPs (fst (tickIP a dep s))) a' dep' = get2 (historicalIPs s) a' dep'"
    if "(a', dep') \<in> set ps" for a' dep'
    using that Cons.prems by (auto simp: p tickIP_get2)
  have "distinct ps" using Cons.prems by simp
  have rest: "snd (tickIPs (p # ps) r s) \<longleftrightarrow> (r \<or> snd (tickIP a dep s) \<and> addrIsPublic a) \<or>
      (\<exists>(a', dep') \<in> set ps. addrIsPublic a' \<and>
        (\<exists>t. get2 (historicalIPs (fst (tickIP a dep s))) a' dep' = Some t \<and> tickedStatus t = None))"
    unfolding p tickIPs_Cons using Cons.IH [OF \<open>distinct ps\<close>] by simp
  also have "\<dots> \<longleftrightarrow> (r \<or> snd (tickIP a dep s) \<and> addrIsPublic a) \<or>
      (\<exists>(a', dep') \<in> set ps. addrIsPublic a' \<and>
        (\<exists>t. get2 (historicalIPs s) a' dep' = Some t \<and> tickedStatus t = None))"
    by (rule arg_cong2 [where f = "(\<or>)", OF refl], rule bex_cong [OF refl]) (auto simp: others)
  finally show ?case by (simp only: p tickIP_removed) auto
qed simp

lemma piRecordTick_spec:
  assumes "piOK s"
  shows "piOK (fst (piRecordTick s))" and "pi_memorySize (fst (piRecordTick s)) = pi_memorySize s"
    and "piStatus (fst (piRecordTick s)) dep a = agePresence 1 (piStatus s dep a)"
    and "snd (piRecordTick s) \<longleftrightarrow> (\<exists>a dep. addrIsPublic a \<and> piStatus s dep a = Historical 1)"
proof -
  note ok = piOKD [OF assms]
  have get2: "get2 (historicalIPs (fst (piRecordTick s))) a dep =
      Option.bind (get2 (historicalIPs s) a dep) tickedStatus" for a dep
    using set_pairs2 [OF ok(3), of a dep]
    by (simp add: piRecordTick_def tickIPs_get2 distinct_pairs2 ok(3))
  show "pi_memorySize (fst (piRecordTick s)) = pi_memorySize s" by (simp add: piRecordTick_def)
  have fields: "ipMap (fst (piRecordTick s)) = ipMap s" "reverseIPMap (fst (piRecordTick s)) = reverseIPMap s"
    "pi_memorySize (fst (piRecordTick s)) = pi_memorySize s"
    by (simp_all add: piRecordTick_def)
  show "piOK (fst (piRecordTick s))"
  proof (rule piOKI)
    show "wf2 (historicalIPs (fst (piRecordTick s)))" by (simp add: piRecordTick_def tickIPs_wf ok(3))
    fix dep a t assume "get2 (historicalIPs (fst (piRecordTick s))) a dep = Some t"
    then obtain u where u: "get2 (historicalIPs s) a dep = Some u" "tickedStatus u = Some t"
      by (auto simp: get2 bind_eq_Some_conv)
    have "0 < t \<and> t \<le> u" using tickedStatus_le [OF u(2)] .
    with ok(6) [OF u(1)] show "0 < t \<and> t \<le> pi_memorySize (fst (piRecordTick s))
        \<and> a \<notin> set (setAt (reverseIPMap (fst (piRecordTick s))) dep)"
      by (auto simp: fields)
  qed (use ok in \<open>simp_all add: fields\<close>)
  show "piStatus (fst (piRecordTick s)) dep a = agePresence 1 (piStatus s dep a)"
    using ok(6) [of a dep]
    by (cases "get2 (historicalIPs s) a dep") (simp_all add: piStatus_def fields get2 age_tickedStatus [unfolded One_nat_def] del: agePresence.simps(1))
  have "snd (piRecordTick s) \<longleftrightarrow> (\<exists>a dep. addrIsPublic a \<and>
      (\<exists>t. get2 (historicalIPs s) a dep = Some t \<and> tickedStatus t = None))"
    using set_pairs2 [OF ok(3)]
    by (auto simp: piRecordTick_def tickIPs_removed distinct_pairs2 ok(3))
  also have "\<dots> \<longleftrightarrow> (\<exists>a dep. addrIsPublic a \<and> piStatus s dep a = Historical 1)"
  proof -
    have "(\<exists>t. get2 (historicalIPs s) a dep = Some t \<and> tickedStatus t = None) \<longleftrightarrow> piStatus s dep a = Historical 1" for a dep
      using ok(6) [of a dep]
      by (cases "get2 (historicalIPs s) a dep") (auto simp: piStatus_def tickedStatus_None)
    then show ?thesis by simp
  qed
  finally show "snd (piRecordTick s) \<longleftrightarrow> (\<exists>a dep. addrIsPublic a \<and> piStatus s dep a = Historical 1)" .
qed

lemma move_all_spec:
  assumes "piOK s" "piHistoryEnabled s"
  shows "fold moveDeploymentToHistory deps s = fold purgeDeployment deps s"
  using assms
proof (induction deps arbitrary: s)
  case (Cons d deps)
  have same: "moveDeploymentToHistory d s = purgeDeployment d s"
    using Cons.prems(2) by (simp add: purgeDeployment_def)
  have "piHistoryEnabled (purgeDeployment d s)"
    using Cons.prems(2) purgeDeployment_spec(2) [OF Cons.prems(1), of d] by (simp add: piHistoryEnabled_def)
  with Cons.IH [OF purgeDeployment_spec(1) [OF Cons.prems(1)]] show ?case by (simp add: same)
qed simp

lemma piResetMaps_spec:
  assumes "piOK s"
  shows "piOK (piResetMaps s)" and "pi_memorySize (piResetMaps s) = pi_memorySize s"
    and "piStatus (piResetMaps s) dep a = demote (pi_memorySize s) (piStatus s dep a)"
proof -
  note ok = piOKD [OF assms]
  let ?t = "fold moveDeploymentToHistory (mkeys (reverseIPMap s)) s"
  have off: "get2 (historicalIPs s) a dep = None" if "\<not> piHistoryEnabled s" for a dep
    using ok(6) [of a dep] that
    by (cases "get2 (historicalIPs s) a dep") (auto simp: piHistoryEnabled_def)
  have key: "dep \<in> set (mkeys (reverseIPMap s))" if "a \<in> set (setAt (reverseIPMap s) dep)" for a dep
    using that by (cases "mget (reverseIPMap s) dep") (auto simp: setAt_def dest: mget_in_set intro: rev_image_eqI)
  have t: "piOK ?t" "pi_memorySize ?t = pi_memorySize s"
    "\<And>dep a. piStatus ?t dep a = demote (pi_memorySize s) (piStatus s dep a)" if "piHistoryEnabled s"
  proof -
    note spec = purge_all_spec [OF assms, of "mkeys (reverseIPMap s)"]
    show "piOK ?t" "pi_memorySize ?t = pi_memorySize s" using spec by (simp_all add: move_all_spec [OF assms that])
    show "piStatus ?t dep a = demote (pi_memorySize s) (piStatus s dep a)" for dep a
    proof (cases "dep \<in> set (mkeys (reverseIPMap s))")
      case True then show ?thesis using spec by (simp add: move_all_spec [OF assms that])
    next
      case False
      then have "piStatus s dep a \<noteq> Current" using key by (auto simp: piStatus_def split: option.splits)
      then have "demote (pi_memorySize s) (piStatus s dep a) = piStatus s dep a" by (cases "piStatus s dep a") simp_all
      with False spec show ?thesis by (simp add: move_all_spec [OF assms that])
    qed
  qed
  have gone: "setAt (reverseIPMap ?t) dep = []" if "piHistoryEnabled s" for dep
  proof (rule ccontr)
    assume "setAt (reverseIPMap ?t) dep \<noteq> []"
    then obtain a where "a \<in> set (setAt (reverseIPMap ?t) dep)" by (cases "setAt (reverseIPMap ?t) dep") auto
    then have "piStatus ?t dep a = Current" by (simp add: piStatus_def)
    with t(3) [OF that, of dep a] show False
      using that by (cases "piStatus s dep a") (auto split: if_splits)
  qed
  show "pi_memorySize (piResetMaps s) = pi_memorySize s" using t(2) by (simp add: piResetMaps_def)
  show "piOK (piResetMaps s)"
  proof (cases "piHistoryEnabled s")
    case True
    show ?thesis by (rule piOKI) (use True piOKD [OF t(1)] in \<open>simp_all add: piResetMaps_def\<close>)
  next
    case False
    show ?thesis by (rule piOKI) (use False in \<open>simp_all add: piResetMaps_def\<close>)
  qed
  show "piStatus (piResetMaps s) dep a = demote (pi_memorySize s) (piStatus s dep a)"
  proof (cases "piHistoryEnabled s")
    case True
    then show ?thesis using t(3) [OF True, of dep a] gone [OF True, of dep]
      by (simp add: piStatus_def piResetMaps_def)
  next
    case False
    then show ?thesis using off [OF False] by (simp add: piStatus_def piResetMaps_def piHistoryEnabled_def word_neq_0_conv)
  qed
qed

subsection \<open>The specification\<close>

text \<open>A store with the presence that the operations so far promise.\<close>

inductive piRun :: "16 word \<Rightarrow> podIPsStore \<Rightarrow> (string \<Rightarrow> IPAddress \<Rightarrow> presence) \<Rightarrow> bool" for mem where
  start: "piRun mem (newPodIPsStoreWithMemory mem) (\<lambda>_ _. Absent)"
| update: "piRun mem s A \<Longrightarrow> piRun mem (piApply us incremental s) (applyPresence mem us incremental A)"
| tick: "piRun mem s A \<Longrightarrow> piRun mem (fst (piRecordTick s)) (\<lambda>dep a. agePresence 1 (A dep a))"
| reset: "piRun mem s A \<Longrightarrow> piRun mem (piResetMaps s) (\<lambda>dep a. demote mem (A dep a))"

lemma piRun_refines: "piRun mem s A \<Longrightarrow> piOK s \<and> pi_memorySize s = mem \<and> piStatus s = A"
proof (induction rule: piRun.induct)
  case start
  have "piOK (newPodIPsStoreWithMemory mem)" by (rule piOKI) (simp_all add: newPodIPsStoreWithMemory_def)
  then show ?case by (auto simp: piStatus_def newPodIPsStoreWithMemory_def)
next
  case (update s A us incremental)
  then show ?case using piApply_spec [of s us incremental] by auto
next
  case (tick s A)
  then show ?case using piRecordTick_spec(1-3) [of s] by auto
next
  case (reset s A)
  then show ?case using piResetMaps_spec [of s] by auto
qed

definition entitiesOf :: "LookupResult list \<Rightarrow> Entity set" where
  "entitiesOf rs = lr_Entity ` set rs"

lemma LookupByNetAddr_status:
  assumes "piOK s"
  shows "entitiesOf (fst (LookupByNetAddr s a port)) = EntityForDeployment ` {dep. piStatus s dep a = Current}"
    and "entitiesOf (snd (LookupByNetAddr s a port)) = EntityForDeployment ` {dep. \<exists>t. piStatus s dep a = Historical t}"
proof -
  note ok = piOKD [OF assms]
  have "{dep. piStatus s dep a = Current} = set (setAt (ipMap s) a)"
    using ok(5) [of _ a] by (auto simp: piStatus_def split: option.splits if_splits)
  then show "entitiesOf (fst (LookupByNetAddr s a port)) = EntityForDeployment ` {dep. piStatus s dep a = Current}"
    by (simp add: LookupByNetAddr_def entitiesOf_def image_image Let_def)
  have "(\<exists>t. piStatus s dep a = Historical t) \<longleftrightarrow> get2 (historicalIPs s) a dep \<noteq> None" for dep
    using ok(6) [of a dep] by (cases "get2 (historicalIPs s) a dep") (auto simp: piStatus_def)
  then have "{dep. \<exists>t. piStatus s dep a = Historical t} = set (mkeys (inner (historicalIPs s) a))"
    by (auto simp: get2_def mget_None_iff)
  then show "entitiesOf (snd (LookupByNetAddr s a port)) = EntityForDeployment ` {dep. \<exists>t. piStatus s dep a = Historical t}"
    by (simp add: LookupByNetAddr_def entitiesOf_def image_image Let_def)
qed

interpretation pods: remembering piOK piStatus "\<lambda>s. Some (fst (piRecordTick s))"
proof unfold_locales
  fix s :: podIPsStore assume "piOK s"
  then show "\<exists>s'. Some (fst (piRecordTick s)) = Some s' \<and> piOK s' \<and> (\<forall>d k. piStatus s' d k = agePresence 1 (piStatus s d k))"
    using piRecordTick_spec(1,3) by blast
next
  fix s d k t assume "piOK s" "piStatus s d k = Historical t"
  then show "0 < t" using piOKD(6) [of s k d] by (auto simp: piStatus_def split: if_splits option.splits)
qed

primrec piTicks :: "nat \<Rightarrow> podIPsStore \<Rightarrow> podIPsStore" where
  "piTicks 0 s = s"
| "piTicks (Suc n) s = piTicks n (fst (piRecordTick s))"

lemma ticks_piTicks: "pods.ticks n s = Some (piTicks n s)"
  by (induction n arbitrary: s) simp_all

text \<open>
  C15. The store of pod addresses implements the map from deployments and addresses to their presence.
  After any sequence of updates, ticks and resets, a lookup of an address reports exactly the deployments
  that have it as current ones; as historical ones it reports only deployments that lost it and are still remembered, and
  all of them when no deployment has the address. A tick reports an expired public address exactly when one
  expires.\<close>

theorem pod_ips_refine_presence:
  assumes "piRun mem s A"
  shows "entitiesOf (fst (LookupByNetAddr s a port)) = EntityForDeployment ` {dep. A dep a = Current}
    \<and> entitiesOf (snd (LookupByNetAddr s a port)) \<subseteq> EntityForDeployment ` {dep. \<exists>t. A dep a = Historical t}
    \<and> ((\<forall>dep. A dep a \<noteq> Current) \<longrightarrow>
         entitiesOf (snd (LookupByNetAddr s a port)) = EntityForDeployment ` {dep. \<exists>t. A dep a = Historical t})
    \<and> (snd (piRecordTick s) \<longleftrightarrow> (\<exists>a dep. addrIsPublic a \<and> A dep a = Historical 1))"
  using piRun_refines [OF assms] LookupByNetAddr_status [of s a port] piRecordTick_spec(4) [of s] by auto

definition podUpdate :: "IPAddress list \<Rightarrow> EntityData option" where
  "podUpdate as = Some \<lparr>ips = as, endpoints = [], containerIDs = None\<rparr>"

lemma pod_ips_refine_presence_witness:
  "let a = Some (Ipv4data [10, 0, 0, 1]); us = [(''A'', podUpdate [a])];
       s = piApply [(''A'', None)] False (piApply us False (newPodIPsStoreWithMemory 2))
   in EntityForDeployment ''A'' \<in> entitiesOf (snd (LookupByNetAddr s a 80))"
proof -
  let ?a = "Some (Ipv4data [10, 0, 0, 1]) :: IPAddress"
  let ?us = "[(''A'', podUpdate [?a])]"
  have "piRun 2 (piApply [(''A'', None)] False (piApply ?us False (newPodIPsStoreWithMemory 2)))
      (applyPresence 2 [(''A'', None)] False (applyPresence 2 ?us False (\<lambda>_ _. Absent)))"
    by (intro piRun.intros)
  from pod_ips_refine_presence [OF this, of ?a 80] show ?thesis
    by (auto simp: applyPresence_def updatedIPs_def podUpdate_def)
qed

text \<open>
  Under a memory of \<open>m\<close> ticks an address that a complete update takes from a deployment is found in
  the history for fewer than \<open>m\<close> ticks, and is forgotten at the \<open>m\<close>-th tick.\<close>

theorem removed_ip_is_remembered:
  assumes "piRun mem s A" "A dep a = Current" "dep \<in> set (mkeys us)" "a \<notin> updatedIPs us dep"
    and s': "s' = piTicks n (piApply us False s)"
  shows "if n < unat mem then EntityForDeployment dep \<in> entitiesOf (snd (LookupByNetAddr s' a port))
         else EntityForDeployment dep \<notin> entitiesOf (fst (LookupByNetAddr s' a port)) \<union> entitiesOf (snd (LookupByNetAddr s' a port))"
proof -
  have inj: "EntityForDeployment d = EntityForDeployment d' \<longleftrightarrow> d = d'" for d d'
    by (simp add: EntityForDeployment_def)
  have s: "piOK s" "pi_memorySize s = mem" "piStatus s = A" using piRun_refines [OF assms(1)] by simp_all
  let ?s = "piApply us False s"
  have ok: "piOK ?s" by (rule piApply_spec(1) [OF s(1)])
  have st: "piStatus ?s dep a = demote mem Current"
    using assms(2-4) by (simp add: piApply_spec(3) [OF s(1)] s applyPresence_def)
  have tick: "piOK s'" "piStatus s' dep a = agePresence n (piStatus ?s dep a)"
    using pods.ticks_spec [OF ok, of n] by (auto simp: ticks_piTicks s')
  have "piStatus s' dep a = (if n < unat mem then Historical (mem - of_nat n) else Absent)"
    unfolding tick(2) st by simp
  then show ?thesis
    using LookupByNetAddr_status [OF tick(1), of a port] by (auto simp: inj image_iff)
qed

lemma removed_ip_is_remembered_witness:
  "let a = Some (Ipv4data [10, 0, 0, 1]); us = [(''A'', podUpdate [a])];
       s = piTicks 1 (piApply [(''A'', None)] False (piApply us False (newPodIPsStoreWithMemory 2)))
   in EntityForDeployment ''A'' \<in> entitiesOf (snd (LookupByNetAddr s a 80))"
proof -
  let ?a = "Some (Ipv4data [10, 0, 0, 1]) :: IPAddress"
  let ?us = "[(''A'', podUpdate [?a])]"
  let ?A = "applyPresence 2 ?us False (\<lambda>_ _. Absent)"
  have run: "piRun 2 (piApply ?us False (newPodIPsStoreWithMemory 2)) ?A" by (intro piRun.intros)
  have cur: "?A ''A'' ?a = Current" by (simp add: applyPresence_def updatedIPs_def podUpdate_def)
  from removed_ip_is_remembered [OF run cur, of "[(''A'', None)]", OF _ _ refl, of 1 80] show ?thesis
    by (simp add: updatedIPs_def)
qed

end
