(* ===== verification/Entity_Endpoints.thy ===== *)
theory Entity_Endpoints
  imports Entity_Store_Facts
begin

text \<open>
  The store of endpoints. \<open>curOK\<close> and \<open>histOK\<close> relate the two maps of the current endpoints and the
  two of the history; every operation keeps them, so that a tick never meets a missing entry. \<open>epCur\<close>
  and \<open>epAge\<close> give the targets of a deployment at an endpoint and its place in the history; the lemmas
  say how an update changes them, and that the fast path of an update is taken exactly when the update
  changes nothing.
\<close>

subsection \<open>The maps\<close>

definition curOK :: "(NumericEndpoint, (string, EndpointTargetInfo goset) gomap) gomap \<Rightarrow>
    (string, NumericEndpoint goset) gomap \<Rightarrow> bool" where
  "curOK M V \<longleftrightarrow> wf2 M \<and> wf_map V
     \<and> (\<forall>dep ep. ep \<in> set (setAt V dep) \<longleftrightarrow> get2 M ep dep \<noteq> None)
     \<and> (\<forall>dep. distinct (setAt V dep))
     \<and> (\<forall>ep dep infos. get2 M ep dep = Some infos \<longrightarrow> distinct infos)"

definition histOK :: "16 word \<Rightarrow> (NumericEndpoint, (string, (EndpointTargetInfo, entityStatus) gomap) gomap) gomap \<Rightarrow>
    (string, (NumericEndpoint, entityStatus) gomap) gomap \<Rightarrow> bool" where
  "histOK mem H R \<longleftrightarrow> wf2 H \<and> wf2 R
     \<and> (\<forall>dep ep. get2 H ep dep = None \<longleftrightarrow> get2 R dep ep = None)
     \<and> (\<forall>dep ep t. get2 R dep ep = Some t \<longrightarrow> 0 < t \<and> t \<le> mem)
     \<and> (\<forall>dep ep m t. get2 H ep dep = Some m \<longrightarrow> get2 R dep ep = Some t \<longrightarrow>
          wf_map m \<and> (\<forall>info u. mget m info = Some u \<longrightarrow> u \<le> t))"

definition epOK :: "endpointsStore \<Rightarrow> bool" where
  "epOK s \<longleftrightarrow> curOK (endpointMap s) (reverseEndpointMap s)
     \<and> histOK (ep_memorySize s) (historicalEndpoints s) (reverseHistoricalEndpoints s)"

definition epCur :: "endpointsStore \<Rightarrow> NumericEndpoint \<Rightarrow> string \<Rightarrow> EndpointTargetInfo set option" where
  "epCur s ep dep = map_option set (get2 (endpointMap s) ep dep)"

definition epAge :: "endpointsStore \<Rightarrow> string \<Rightarrow> NumericEndpoint \<Rightarrow> presence" where
  "epAge s dep ep = (case get2 (reverseHistoricalEndpoints s) dep ep of None \<Rightarrow> Absent | Some t \<Rightarrow> Historical t)"

definition epKnown :: "endpointsStore \<Rightarrow> string \<Rightarrow> bool" where
  "epKnown s dep \<longleftrightarrow> mget (reverseEndpointMap s) dep \<noteq> None"

lemma curOKI:
  assumes "wf2 M" "wf_map V" "\<And>dep ep. ep \<in> set (setAt V dep) \<longleftrightarrow> get2 M ep dep \<noteq> None"
    "\<And>dep. distinct (setAt V dep)" "\<And>ep dep infos. get2 M ep dep = Some infos \<Longrightarrow> distinct infos"
  shows "curOK M V"
  unfolding curOK_def using assms by blast

lemma curOKD:
  assumes "curOK M V"
  shows "wf2 M" "wf_map V" "ep \<in> set (setAt V dep) \<longleftrightarrow> get2 M ep dep \<noteq> None"
    "distinct (setAt V dep)" "get2 M ep dep = Some infos \<Longrightarrow> distinct infos"
  using assms unfolding curOK_def by blast+

lemma histOKI:
  assumes "wf2 H" "wf2 R" "\<And>dep ep. get2 H ep dep = None \<longleftrightarrow> get2 R dep ep = None"
    "\<And>dep ep t. get2 R dep ep = Some t \<Longrightarrow> 0 < t \<and> t \<le> mem"
    "\<And>dep ep m t. get2 H ep dep = Some m \<Longrightarrow> get2 R dep ep = Some t \<Longrightarrow> wf_map m"
    "\<And>dep ep m t info u. get2 H ep dep = Some m \<Longrightarrow> get2 R dep ep = Some t \<Longrightarrow> mget m info = Some u \<Longrightarrow> u \<le> t"
  shows "histOK mem H R"
  unfolding histOK_def using assms by blast

lemma histOKD:
  assumes "histOK mem H R"
  shows "wf2 H" "wf2 R" "get2 H ep dep = None \<longleftrightarrow> get2 R dep ep = None"
    "get2 R dep ep = Some t \<Longrightarrow> 0 < t \<and> t \<le> mem"
    "get2 H ep dep = Some m \<Longrightarrow> get2 R dep ep = Some t \<Longrightarrow> wf_map m"
    "get2 H ep dep = Some m \<Longrightarrow> get2 R dep ep = Some t \<Longrightarrow> mget m info = Some u \<Longrightarrow> u \<le> t"
  using assms unfolding histOK_def by blast+

lemma curOK_Nil [simp]: "curOK [] []"
  by (rule curOKI) simp_all

lemma histOK_Nil [simp]: "histOK mem [] []"
  by (rule histOKI) simp_all

lemma curOK_put:
  assumes "curOK M V" "distinct infos"
  shows "curOK (mput2 ep dep infos M) (mput dep (gs_ins ep (setAt V dep)) V)"
  by (rule curOKI) (use assms(2) curOKD [OF assms(1)] in \<open>auto split: if_splits\<close>)

lemma curOK_again:
  assumes "curOK M V" "get2 M ep dep \<noteq> None"
  shows "curOK M (mput dep (gs_ins ep (setAt V dep)) V)"
  by (rule curOKI) (use assms(2) curOKD [OF assms(1)] in \<open>auto split: if_splits\<close>)

lemma curOK_refill:
  assumes "curOK M V" "get2 M ep dep \<noteq> None" "distinct infos"
  shows "curOK (mput2 ep dep infos M) V"
  by (rule curOKI) (use assms(2,3) curOKD [OF assms(1)] in \<open>auto split: if_splits\<close>)

lemma curOK_seen:
  assumes "curOK M V" "mget V dep = None"
  shows "curOK M (mput dep [] V)"
proof -
  have "setAt (mput dep [] V) dep' = setAt V dep'" for dep' using assms(2) by (simp add: setAt_def)
  then show ?thesis using curOKD [OF assms(1)] by (intro curOKI) auto
qed

text \<open>The reverse map without an endpoint of a deployment.\<close>

definition unlink :: "NumericEndpoint \<Rightarrow> string \<Rightarrow> (string, NumericEndpoint goset) gomap \<Rightarrow> (string, NumericEndpoint goset) gomap" where
  "unlink ep dep V = (case mget V dep of None \<Rightarrow> V
     | Some dSet \<Rightarrow> let dSet' = fst (setRemove ep dSet)
         in if setCardinality dSet' = 0 then mdel dep V else mput dep dSet' V)"

lemma epDeleteFromCurrent_unlink:
  "epDeleteFromCurrent dep ep s = s\<lparr>endpointMap := mdel2 ep dep (endpointMap s),
     reverseEndpointMap := unlink ep dep (reverseEndpointMap s)\<rparr>"
  by (simp add: epDeleteFromCurrent_def unlink_def)

lemma setAt_unlink:
  "setAt (unlink ep dep V) dep' = (if dep' = dep then filter (\<lambda>e. e \<noteq> ep) (setAt V dep) else setAt V dep')"
  by (cases "mget V dep") (auto simp: unlink_def setRemove_fst setCardinality_def Let_def setAt_def)

lemma mget_unlink:
  "mget (unlink ep dep V) dep' \<noteq> None \<longleftrightarrow>
     (if dep' = dep then filter (\<lambda>e. e \<noteq> ep) (setAt V dep) \<noteq> [] else mget V dep' \<noteq> None)"
  by (cases "mget V dep") (auto simp: unlink_def setRemove_fst setCardinality_def Let_def setAt_def)

lemma wf_unlink [simp]: "wf_map V \<Longrightarrow> wf_map (unlink ep dep V)"
  by (simp add: unlink_def Let_def split: option.split)

lemma curOK_del:
  assumes "curOK M V"
  shows "curOK (mdel2 ep dep M) (unlink ep dep V)"
proof (rule curOKI)
  show "distinct (setAt (unlink ep dep V) dep')" for dep'
    using curOKD(4) [OF assms] by (simp add: setAt_unlink)
  show "ep' \<in> set (setAt (unlink ep dep V) dep') \<longleftrightarrow> get2 (mdel2 ep dep M) ep' dep' \<noteq> None" for dep' ep'
    using curOKD(3) [OF assms, of ep' dep'] by (auto simp: setAt_unlink)
qed (use curOKD [OF assms] in \<open>auto split: if_splits\<close>)

lemma histOK_add:
  assumes "histOK mem H R" "0 < mem" "wf_map m" "\<And>info u. mget m info = Some u \<Longrightarrow> u \<le> mem"
  shows "histOK mem (mput2 ep dep m H) (mput2 dep ep mem R)"
proof (rule histOKI)
  show "get2 (mput2 ep dep m H) ep' dep' = None \<longleftrightarrow> get2 (mput2 dep ep mem R) dep' ep' = None" for ep' dep'
    using histOKD(3) [OF assms(1), of ep' dep'] by auto
qed (use assms(2-4) histOKD [OF assms(1)] in \<open>auto split: if_splits\<close>)

lemma histOK_del:
  assumes "histOK mem H R"
  shows "histOK mem (mdel2 ep dep H) (mdel2 dep ep R)"
proof (rule histOKI)
  show "get2 (mdel2 ep dep H) ep' dep' = None \<longleftrightarrow> get2 (mdel2 dep ep R) dep' ep' = None" for ep' dep'
    using histOKD(3) [OF assms, of ep' dep'] by auto
qed (use histOKD [OF assms] in \<open>auto split: if_splits\<close>)

lemma epOKD: "epOK s \<Longrightarrow> curOK (endpointMap s) (reverseEndpointMap s)"
  "epOK s \<Longrightarrow> histOK (ep_memorySize s) (historicalEndpoints s) (reverseHistoricalEndpoints s)"
  by (simp_all add: epOK_def)

subsection \<open>Moving to and from the history\<close>

lemma wf_fold_mput: "wf_map m \<Longrightarrow> wf_map (fold (\<lambda>x. mput x v) xs m)"
  by (induction xs arbitrary: m) simp_all

lemma mget_fold_mput: "mget (fold (\<lambda>x. mput x v) xs m) k = (if k \<in> set xs then Some v else mget m k)"
  by (induction xs arbitrary: m) simp_all

lemma epAddToHistory_fields [simp]:
  "endpointMap (epAddToHistory dep ep s) = endpointMap s"
  "reverseEndpointMap (epAddToHistory dep ep s) = reverseEndpointMap s"
  "ep_memorySize (epAddToHistory dep ep s) = ep_memorySize s"
  by (simp_all add: epAddToHistory_def Let_def)

lemma epAddToHistory_OK:
  assumes "epOK s" "epHistoryEnabled s"
  shows "epOK (epAddToHistory dep ep s)"
proof -
  note h = histOKD [OF epOKD(2) [OF assms(1)]]
  let ?old = "case get2 (historicalEndpoints s) ep dep of None \<Rightarrow> [] | Some m \<Rightarrow> m"
  let ?new = "fold (\<lambda>info. mput info (ep_memorySize s)) (targetsOf s dep ep) ?old"
  have old: "wf_map ?old \<and> (\<forall>info u. mget ?old info = Some u \<longrightarrow> u \<le> ep_memorySize s)"
  proof (cases "get2 (historicalEndpoints s) ep dep")
    case (Some m)
    then obtain t where t: "get2 (reverseHistoricalEndpoints s) dep ep = Some t"
      using h(3) [of ep dep] by (cases "get2 (reverseHistoricalEndpoints s) dep ep") auto
    show ?thesis using Some h(5,6) [OF Some t] h(4) [OF t] by (auto intro: order_trans)
  qed simp
  then have "wf_map ?new" "\<And>info u. mget ?new info = Some u \<Longrightarrow> u \<le> ep_memorySize s"
    by (auto simp: wf_fold_mput mget_fold_mput split: if_splits)
  with assms show ?thesis
    by (simp add: epOK_def epAddToHistory_def newHistoricalEntity_def epHistoryEnabled_def histOK_add)
qed

lemma epAddToHistory_age:
  "epAge (epAddToHistory dep ep s) dep' ep' =
     (if dep' = dep \<and> ep' = ep then Historical (ep_memorySize s) else epAge s dep' ep')"
  by (simp add: epAge_def epAddToHistory_def newHistoricalEntity_def Let_def)

lemma epMoveToHistory_fields [simp]:
  "endpointMap (epMoveToHistory dep ep s) = mdel2 ep dep (endpointMap s)"
  "reverseEndpointMap (epMoveToHistory dep ep s) = unlink ep dep (reverseEndpointMap s)"
  "ep_memorySize (epMoveToHistory dep ep s) = ep_memorySize s"
  by (simp_all add: epMoveToHistory_def epDeleteFromCurrent_unlink)

lemma epMoveToHistory_OK: "epOK s \<Longrightarrow> epOK (epMoveToHistory dep ep s)"
proof -
  assume ok: "epOK s"
  let ?s = "if epHistoryEnabled s then epAddToHistory dep ep s else s"
  have "epOK ?s" using ok by (simp add: epAddToHistory_OK)
  then show ?thesis by (simp add: epMoveToHistory_def epDeleteFromCurrent_unlink epOK_def curOK_del)
qed

text \<open>What is left of an entry in the history when it is moved there.\<close>

definition aged :: "endpointsStore \<Rightarrow> presence \<Rightarrow> presence" where
  "aged s x = (if ep_memorySize s = 0 then x else Historical (ep_memorySize s))"

lemma epMoveToHistory_age:
  "epAge (epMoveToHistory dep ep s) dep' ep' =
     (if dep' = dep \<and> ep' = ep then aged s (epAge s dep' ep') else epAge s dep' ep')"
proof (cases "epHistoryEnabled s")
  case True
  then have "ep_memorySize s \<noteq> 0" by (auto simp: epHistoryEnabled_def)
  with True show ?thesis
    using epAddToHistory_age [of dep ep s dep' ep']
    by (simp add: epMoveToHistory_def epDeleteFromCurrent_unlink aged_def epAge_def)
next
  case False
  then show ?thesis
    by (simp add: epMoveToHistory_def epDeleteFromCurrent_unlink aged_def epAge_def epHistoryEnabled_def word_neq_0_conv)
qed

lemma aged_cong: "ep_memorySize s' = ep_memorySize s \<Longrightarrow> aged s' = aged s"
  by (simp add: aged_def fun_eq_iff)

lemma aged_aged [simp]: "aged s (aged s x) = aged s x"
  by (simp add: aged_def)

lemma epDeleteFromHistory_fields [simp]:
  "endpointMap (fst (epDeleteFromHistory dep ep s)) = endpointMap s"
  "reverseEndpointMap (fst (epDeleteFromHistory dep ep s)) = reverseEndpointMap s"
  "ep_memorySize (fst (epDeleteFromHistory dep ep s)) = ep_memorySize s"
  by (simp_all add: epDeleteFromHistory_def)

lemma epDeleteFromHistory_OK: "epOK s \<Longrightarrow> epOK (fst (epDeleteFromHistory dep ep s))"
  by (simp add: epOK_def epDeleteFromHistory_def histOK_del)

lemma epDeleteFromHistory_age:
  "epAge (fst (epDeleteFromHistory dep ep s)) dep' ep' =
     (if dep' = dep \<and> ep' = ep then Absent else epAge s dep' ep')"
  by (simp add: epAge_def epDeleteFromHistory_def)

text \<open>Several pairs moved one after the other.\<close>

lemma move_all:
  assumes "epOK s"
  shows "epOK (fold (\<lambda>(ep, dep). epMoveToHistory dep ep) ps s)
    \<and> ep_memorySize (fold (\<lambda>(ep, dep). epMoveToHistory dep ep) ps s) = ep_memorySize s
    \<and> (\<forall>ep dep. get2 (endpointMap (fold (\<lambda>(ep, dep). epMoveToHistory dep ep) ps s)) ep dep =
          (if (ep, dep) \<in> set ps then None else get2 (endpointMap s) ep dep))
    \<and> (\<forall>ep dep. epAge (fold (\<lambda>(ep, dep). epMoveToHistory dep ep) ps s) dep ep =
          (if (ep, dep) \<in> set ps then aged s (epAge s dep ep) else epAge s dep ep))
    \<and> (\<forall>dep. dep \<notin> snd ` set ps \<longrightarrow>
          mget (reverseEndpointMap (fold (\<lambda>(ep, dep). epMoveToHistory dep ep) ps s)) dep = mget (reverseEndpointMap s) dep)"
  using assms
proof (induction ps arbitrary: s)
  case (Cons p ps)
  obtain ep dep where p: "p = (ep, dep)" by (cases p)
  let ?s = "epMoveToHistory dep ep s"
  have same: "aged ?s = aged s" by (rule aged_cong) simp
  have other: "mget (unlink ep dep V) d = mget V d" if "d \<noteq> dep" for V d
    using that by (simp add: unlink_def Let_def split: option.split)
  note IH = Cons.IH [OF epMoveToHistory_OK [OF Cons.prems, of dep ep]]
  show ?case
    using IH by (simp add: p epMoveToHistory_age same other)
qed simp

subsection \<open>Adding endpoints\<close>

lemma epKnown_cur: "epOK s \<Longrightarrow> epCur s ep dep \<noteq> None \<Longrightarrow> epKnown s dep"
  using curOKD(3) [OF epOKD(1), of s ep dep]
  by (cases "mget (reverseEndpointMap s) dep") (auto simp: epCur_def epKnown_def setAt_def)

lemma targetsOf_Some: "get2 (endpointMap s) ep dep = Some infos \<Longrightarrow> targetsOf s dep ep = infos"
  by (simp add: targetsOf_def)

lemma targetsOf_None: "get2 (endpointMap s) ep dep = None \<Longrightarrow> targetsOf s dep ep = []"
  by (simp add: targetsOf_def)

lemma distinct_targetsOf: "epOK s \<Longrightarrow> distinct (targetsOf s dep ep)"
  using curOKD(5) [OF epOKD(1), of s ep dep] by (cases "get2 (endpointMap s) ep dep") (simp_all add: targetsOf_def)

text \<open>The last two statements of the loop: the targets are added, and the history is corrected.\<close>

lemma addTargets_spec:
  assumes "epOK t" "get2 (endpointMap t) ep dep = Some old" "distinct new" "set new = set infos \<union> set old"
  defines "s' \<equiv> fst (epDeleteFromHistory dep ep (t\<lparr>endpointMap := mput2 ep dep new (endpointMap t)\<rparr>))"
  shows "epOK s'" "ep_memorySize s' = ep_memorySize t" "epKnown s' dep"
    "epCur s' ep' d = (if ep' = ep \<and> d = dep then Some (set infos \<union> set old) else epCur t ep' d)"
    "epAge s' d ep' = (if ep' = ep \<and> d = dep then Absent else epAge t d ep')"
proof -
  have "epOK (t\<lparr>endpointMap := mput2 ep dep new (endpointMap t)\<rparr>)"
    using assms(1-3) by (simp add: epOK_def curOK_refill)
  then show ok: "epOK s'" unfolding s'_def by (rule epDeleteFromHistory_OK)
  show "ep_memorySize s' = ep_memorySize t" by (simp add: s'_def)
  show cur: "epCur s' ep' d = (if ep' = ep \<and> d = dep then Some (set infos \<union> set old) else epCur t ep' d)" for ep' d
    using assms(4) by (simp add: s'_def epCur_def)
  show "epKnown s' dep" by (rule epKnown_cur [OF ok, of ep]) (simp add: cur)
  show "epAge s' d ep' = (if ep' = ep \<and> d = dep then Absent else epAge t d ep')"
    unfolding s'_def epDeleteFromHistory_age by (simp add: epAge_def)
qed

lemma inner_keys: "dep \<in> set (mkeys (inner M k)) \<longleftrightarrow> get2 M k dep \<noteq> None"
  by (simp add: get2_def mget_None_iff)

lemma mput2_new: "mget M k = None \<Longrightarrow> mput k [(l, v)] M = mput2 k l v M"
  by (simp add: mput2_def inner_def)

text \<open>The first part: the endpoint is there, and no longer with other deployments if this one is new.\<close>

definition claimEndpoint :: "string \<Rightarrow> bool \<Rightarrow> NumericEndpoint \<Rightarrow> endpointsStore \<Rightarrow> endpointsStore" where
  "claimEndpoint dep deploymentFound ep s =
     (let s0 = s\<lparr>reverseEndpointMap :=
                  mput dep (fst (setAdd ep (setAt (reverseEndpointMap s) dep))) (reverseEndpointMap s)\<rparr>
      in case mget (endpointMap s0) ep of
             None \<Rightarrow> s0\<lparr>endpointMap := mput ep [(dep, [])] (endpointMap s0)\<rparr>
           | Some deploymentsOnThisEp \<Rightarrow>
               if \<not> deploymentFound then
                 fold (\<lambda>other. epMoveToHistory other ep)
                   (filter (\<lambda>other. other \<noteq> dep) (mkeys deploymentsOnThisEp))
                   (s0\<lparr>endpointMap := mput2 ep dep [] (endpointMap s0)\<rparr>)
               else if get2 (endpointMap s0) ep dep = None
               then s0\<lparr>endpointMap := mput2 ep dep [] (endpointMap s0)\<rparr>
               else s0)"

lemma applyEndpoint_claim:
  "applyEndpoint dep found (ep, infos) s =
     (let t = claimEndpoint dep found ep s
      in fst (epDeleteFromHistory dep ep
           (t\<lparr>endpointMap := mput2 ep dep (fold gs_ins infos (targetsOf t dep ep)) (endpointMap t)\<rparr>)))"
  by (simp add: applyEndpoint_def claimEndpoint_def Let_def)

lemma claimEndpoint_spec:
  assumes "epOK s" "found \<or> get2 (endpointMap s) ep dep = None"
  shows "epOK (claimEndpoint dep found ep s)"
    "ep_memorySize (claimEndpoint dep found ep s) = ep_memorySize s"
    "get2 (endpointMap (claimEndpoint dep found ep s)) ep dep = Some (targetsOf s dep ep)"
    "(ep', d) \<noteq> (ep, dep) \<Longrightarrow> get2 (endpointMap (claimEndpoint dep found ep s)) ep' d =
       (if \<not> found \<and> ep' = ep then None else get2 (endpointMap s) ep' d)"
    "(ep', d) \<noteq> (ep, dep) \<Longrightarrow> epAge (claimEndpoint dep found ep s) d ep' =
       (if \<not> found \<and> ep' = ep \<and> epCur s ep d \<noteq> None then aged s (epAge s d ep') else epAge s d ep')"
proof -
  let ?V = "mput dep (gs_ins ep (setAt (reverseEndpointMap s) dep)) (reverseEndpointMap s)"
  let ?a = "s\<lparr>reverseEndpointMap := ?V, endpointMap := mput2 ep dep [] (endpointMap s)\<rparr>"
  have a: "epOK ?a" using assms(1) by (simp add: epOK_def curOK_put)
  have age: "epAge ?a = epAge s" "epAge (s\<lparr>reverseEndpointMap := ?V\<rparr>) = epAge s" by (simp_all add: epAge_def fun_eq_iff)
  have aged: "aged ?a = aged s" by (rule aged_cong) simp
  have "epOK (claimEndpoint dep found ep s)
    \<and> ep_memorySize (claimEndpoint dep found ep s) = ep_memorySize s
    \<and> get2 (endpointMap (claimEndpoint dep found ep s)) ep dep = Some (targetsOf s dep ep)
    \<and> ((ep', d) \<noteq> (ep, dep) \<longrightarrow> get2 (endpointMap (claimEndpoint dep found ep s)) ep' d =
       (if \<not> found \<and> ep' = ep then None else get2 (endpointMap s) ep' d))
    \<and> ((ep', d) \<noteq> (ep, dep) \<longrightarrow> epAge (claimEndpoint dep found ep s) d ep' =
       (if \<not> found \<and> ep' = ep \<and> epCur s ep d \<noteq> None then aged s (epAge s d ep') else epAge s d ep'))"
  proof (cases "mget (endpointMap s) ep")
    case None
    have "claimEndpoint dep found ep s = ?a"
      using None by (simp add: claimEndpoint_def setAdd_fst mput2_new Let_def)
    then show ?thesis
      using a None by (auto simp: age get2_missing targetsOf_None epCur_def)
  next
    case (Some i)
    show ?thesis
    proof (cases found)
      case False
      let ?ps = "map (\<lambda>other. (ep, other)) (filter (\<lambda>other. other \<noteq> dep) (mkeys i))"
      have claim: "claimEndpoint dep found ep s = fold (\<lambda>(ep, dep). epMoveToHistory dep ep) ?ps ?a"
        using Some False by (simp add: claimEndpoint_def setAdd_fst Let_def fold_map comp_def)
      have "inner (endpointMap s) ep = i" using Some by (simp add: inner_def)
      then have ps: "(ep', d) \<in> set ?ps \<longleftrightarrow> ep' = ep \<and> d \<noteq> dep \<and> get2 (endpointMap s) ep d \<noteq> None" for ep' d
        using inner_keys [of d "endpointMap s" ep] by auto
      have get2: "get2 (endpointMap s) ep dep = None" using assms(2) False by simp
      show ?thesis unfolding claim using move_all [OF a, of ?ps] False get2
        by (simp only: ps age aged) (auto simp: targetsOf_None epCur_def)
    next
      case True
      show ?thesis
      proof (cases "get2 (endpointMap s) ep dep")
        case None
        have "claimEndpoint dep found ep s = ?a"
          using Some True None by (simp add: claimEndpoint_def setAdd_fst Let_def)
        then show ?thesis using a True None by (auto simp: age targetsOf_None)
      next
        case (Some infos)
        have "claimEndpoint dep found ep s = s\<lparr>reverseEndpointMap := ?V\<rparr>"
          using \<open>mget (endpointMap s) ep = Some i\<close> True Some by (simp add: claimEndpoint_def setAdd_fst Let_def)
        moreover have "epOK (s\<lparr>reverseEndpointMap := ?V\<rparr>)"
          using assms(1) Some by (simp add: epOK_def curOK_again)
        ultimately show ?thesis using True Some by (simp add: age targetsOf_Some)
      qed
    qed
  qed
  then show "epOK (claimEndpoint dep found ep s)"
    "ep_memorySize (claimEndpoint dep found ep s) = ep_memorySize s"
    "get2 (endpointMap (claimEndpoint dep found ep s)) ep dep = Some (targetsOf s dep ep)"
    "(ep', d) \<noteq> (ep, dep) \<Longrightarrow> get2 (endpointMap (claimEndpoint dep found ep s)) ep' d =
       (if \<not> found \<and> ep' = ep then None else get2 (endpointMap s) ep' d)"
    "(ep', d) \<noteq> (ep, dep) \<Longrightarrow> epAge (claimEndpoint dep found ep s) d ep' =
       (if \<not> found \<and> ep' = ep \<and> epCur s ep d \<noteq> None then aged s (epAge s d ep') else epAge s d ep')"
    by blast+
qed

lemma applyEndpoint_spec:
  fixes infos :: "EndpointTargetInfo list"
  assumes "epOK s" "found \<or> get2 (endpointMap s) ep dep = None"
  defines "s' \<equiv> applyEndpoint dep found (ep, infos) s"
  shows "epOK s'" "ep_memorySize s' = ep_memorySize s" "epKnown s' dep"
    "epCur s' ep' d = (if ep' = ep \<and> d = dep then Some (set infos \<union> set (targetsOf s dep ep))
       else if \<not> found \<and> ep' = ep then None else epCur s ep' d)"
    "epAge s' d ep' = (if ep' = ep \<and> d = dep then Absent
       else if \<not> found \<and> ep' = ep \<and> epCur s ep d \<noteq> None then aged s (epAge s d ep') else epAge s d ep')"
proof -
  let ?t = "claimEndpoint dep found ep s"
  note t = claimEndpoint_spec [OF assms(1,2)]
  have old: "targetsOf ?t dep ep = targetsOf s dep ep" by (rule targetsOf_Some) (rule t(3))
  have new: "distinct (fold gs_ins infos (targetsOf ?t dep ep))"
    "set (fold gs_ins infos (targetsOf ?t dep ep)) = set infos \<union> set (targetsOf s dep ep)"
    using distinct_targetsOf [OF assms(1), of dep ep] by (simp_all add: old)
  have s': "s' = fst (epDeleteFromHistory dep ep
      (?t\<lparr>endpointMap := mput2 ep dep (fold gs_ins infos (targetsOf ?t dep ep)) (endpointMap ?t)\<rparr>))"
    by (simp add: s'_def applyEndpoint_claim Let_def)
  note r = addTargets_spec [OF t(1,3) new, folded s']
  show "epOK s'" "ep_memorySize s' = ep_memorySize s" "epKnown s' dep" using r(1-3) t(2) by simp_all
  show "epCur s' ep' d = (if ep' = ep \<and> d = dep then Some (set infos \<union> set (targetsOf s dep ep))
       else if \<not> found \<and> ep' = ep then None else epCur s ep' d)"
    unfolding r(4) using t(4) [of ep' d] by (auto simp: epCur_def)
  show "epAge s' d ep' = (if ep' = ep \<and> d = dep then Absent
       else if \<not> found \<and> ep' = ep \<and> epCur s ep d \<noteq> None then aged s (epAge s d ep') else epAge s d ep')"
    unfolding r(5) using t(5) [of ep' d] by auto
qed

text \<open>What is current after the endpoints \<open>eps\<close> are added for \<open>dep\<close>.\<close>

definition addedCur :: "endpointsStore \<Rightarrow> string \<Rightarrow> bool \<Rightarrow> (NumericEndpoint, EndpointTargetInfo list) gomap \<Rightarrow>
    NumericEndpoint \<Rightarrow> string \<Rightarrow> EndpointTargetInfo set option" where
  "addedCur s dep found eps ep d = (case mget eps ep of None \<Rightarrow> epCur s ep d
     | Some infos \<Rightarrow> if d = dep then Some (set infos \<union> set (targetsOf s dep ep))
                    else if found then epCur s ep d else None)"

definition addedAge :: "endpointsStore \<Rightarrow> string \<Rightarrow> bool \<Rightarrow> (NumericEndpoint, EndpointTargetInfo list) gomap \<Rightarrow>
    string \<Rightarrow> NumericEndpoint \<Rightarrow> presence" where
  "addedAge s dep found eps d ep = (case mget eps ep of None \<Rightarrow> epAge s d ep
     | Some infos \<Rightarrow> if d = dep then Absent
                    else if \<not> found \<and> epCur s ep d \<noteq> None then aged s (epAge s d ep) else epAge s d ep)"

lemma targetsOf_epCur: "set (targetsOf s dep ep) = (case epCur s ep dep of None \<Rightarrow> {} | Some x \<Rightarrow> x)"
  by (cases "get2 (endpointMap s) ep dep") (simp_all add: targetsOf_def epCur_def)

lemma applyEndpoints_spec:
  assumes "epOK s" "found \<or> (\<forall>ep. mget eps ep \<noteq> None \<longrightarrow> get2 (endpointMap s) ep dep = None)" "wf_map eps" "epKnown s dep"
  shows "epOK (fold (applyEndpoint dep found) eps s)
    \<and> ep_memorySize (fold (applyEndpoint dep found) eps s) = ep_memorySize s
    \<and> epKnown (fold (applyEndpoint dep found) eps s) dep
    \<and> (\<forall>ep d. epCur (fold (applyEndpoint dep found) eps s) ep d = addedCur s dep found eps ep d)
    \<and> (\<forall>ep d. epAge (fold (applyEndpoint dep found) eps s) d ep = addedAge s dep found eps d ep)"
  using assms
proof (induction eps arbitrary: s)
  case Nil
  then show ?case by (simp add: addedCur_def addedAge_def)
next
  case (Cons p eps)
  obtain ep infos where p: "p = (ep, infos)" by (cases p)
  define s1 where s1: "s1 = applyEndpoint dep found (ep, infos) s"
  have fresh: "mget eps ep = None" using Cons.prems(3) by (simp add: p mget_None_iff)
  have pre: "found \<or> get2 (endpointMap s) ep dep = None" using Cons.prems(2) p by auto
  note step = applyEndpoint_spec [OF Cons.prems(1) pre, of infos, folded s1]
  have later: "found \<or> (\<forall>ep'. mget eps ep' \<noteq> None \<longrightarrow> get2 (endpointMap s1) ep' dep = None)"
  proof (cases found)
    case False
    have "get2 (endpointMap s1) ep' dep = None" if "mget eps ep' \<noteq> None" for ep'
    proof -
      have ne: "ep' \<noteq> ep" using that fresh by auto
      have "get2 (endpointMap s) ep' dep = None" using Cons.prems(2) False that ne p by auto
      then have "epCur s1 ep' dep = None" using ne by (simp add: step(4)) (simp add: epCur_def)
      then show ?thesis by (simp add: epCur_def)
    qed
    then show ?thesis by blast
  qed simp
  have "wf_map eps" using Cons.prems(3) by (simp add: p)
  note IH = Cons.IH [OF step(1) later this step(3)]
  have aged: "aged s1 = aged s" by (rule aged_cong [OF step(2)])
  have cur: "addedCur s1 dep found eps ep' d = addedCur s dep found (p # eps) ep' d" for ep' d
  proof (cases "ep' = ep")
    case True
    then show ?thesis by (simp add: addedCur_def p fresh step(4))
  next
    case False
    have "set (targetsOf s1 dep ep') = set (targetsOf s dep ep')"
      using False by (simp add: targetsOf_epCur step(4))
    with False show ?thesis by (cases "mget eps ep'") (simp_all add: addedCur_def p step(4))
  qed
  have age: "addedAge s1 dep found eps d ep' = addedAge s dep found (p # eps) d ep'" for ep' d
  proof (cases "ep' = ep")
    case True
    then show ?thesis by (simp add: addedAge_def p fresh step(5))
  next
    case False
    then show ?thesis
      by (cases "mget eps ep'"; cases "epCur s ep' d") (simp_all add: addedAge_def p step(4,5) aged)
  qed
  show ?case using IH step(2) by (simp add: p s1 [symmetric] cur [unfolded p] age [unfolded p])
qed

lemma markSeen_spec:
  assumes "epOK s"
  shows "epOK (markSeen dep s)" "ep_memorySize (markSeen dep s) = ep_memorySize s"
    "epCur (markSeen dep s) = epCur s" "epAge (markSeen dep s) = epAge s"
    "epKnown (markSeen dep s) d \<longleftrightarrow> d = dep \<or> epKnown s d" "endpointMap (markSeen dep s) = endpointMap s"
  using assms by (auto simp: markSeen_def epOK_def curOK_seen epCur_def epAge_def epKnown_def fun_eq_iff)

lemma epApplySingle_spec:
  assumes "epOK s" "wf_map (endpoints d)"
  shows "epOK (epApplySingle dep d s)" "ep_memorySize (epApplySingle dep d s) = ep_memorySize s"
    "epKnown (epApplySingle dep d s) dep"
    "epCur (epApplySingle dep d s) ep o' = addedCur s dep (epKnown s dep) (endpoints d) ep o'"
    "epAge (epApplySingle dep d s) o' ep = addedAge s dep (epKnown s dep) (endpoints d) o' ep"
proof -
  note m = markSeen_spec [OF assms(1), of dep]
  have pre: "epKnown s dep \<or> (\<forall>ep. mget (endpoints d) ep \<noteq> None \<longrightarrow> get2 (endpointMap (markSeen dep s)) ep dep = None)"
  proof (cases "epKnown s dep")
    case False
    have "get2 (endpointMap s) ep dep = None" for ep
      using epKnown_cur [OF assms(1), of ep dep] False
      by (cases "get2 (endpointMap s) ep dep") (simp_all add: epCur_def)
    then show ?thesis by (simp add: m(6))
  qed simp
  have same: "addedCur (markSeen dep s) = addedCur s" "addedAge (markSeen dep s) = addedAge s"
    unfolding addedCur_def addedAge_def targetsOf_def fun_eq_iff m(3,4,6) aged_cong [OF m(2)] by simp_all
  have "epKnown (markSeen dep s) dep" by (simp add: m(5))
  note r = applyEndpoints_spec [OF m(1) pre assms(2) this, unfolded same m(2)]
  have run: "epApplySingle dep d s = fold (applyEndpoint dep (epKnown s dep)) (endpoints d) (markSeen dep s)"
    by (simp add: epApplySingle_def epKnown_def)
  show "epOK (epApplySingle dep d s)" "ep_memorySize (epApplySingle dep d s) = ep_memorySize s"
    "epKnown (epApplySingle dep d s) dep"
    "epCur (epApplySingle dep d s) ep o' = addedCur s dep (epKnown s dep) (endpoints d) ep o'"
    "epAge (epApplySingle dep d s) o' ep = addedAge s dep (epKnown s dep) (endpoints d) o' ep"
    unfolding run using r by blast+
qed

subsection \<open>Unchanged targets\<close>

text \<open>A set and a slice of the same length: if the slice has every element of the set, it is a permutation.\<close>

lemma pigeonhole:
  assumes "distinct xs"
  shows "length xs = length ys \<and> set xs \<subseteq> set ys \<longleftrightarrow> set xs = set ys \<and> distinct ys"
proof
  assume l: "length xs = length ys \<and> set xs \<subseteq> set ys"
  have c: "card (set xs) = length ys" using assms l by (simp add: distinct_card)
  then have "card (set ys) \<le> card (set xs)" by (simp add: card_length)
  with l have eq: "set xs = set ys" by (simp add: card_seteq)
  with c show "set xs = set ys \<and> distinct ys" by (simp add: card_distinct)
next
  assume "set xs = set ys \<and> distinct ys"
  with assms show "length xs = length ys \<and> set xs \<subseteq> set ys" by (metis distinct_card order_refl)
qed

lemma targetsUnchanged_iff: "targetsUnchanged xs ys \<longleftrightarrow> set xs \<subseteq> set ys"
proof -
  have "ys ! nat i \<in> set ys" if "0 \<le> i \<and> i < int (length ys)" for i
    by (rule nth_mem) (use that in \<open>simp add: nat_less_iff\<close>)
  then have hint: "(if 0 \<le> i \<and> i < int (length ys) \<and> ys ! nat i = x then True else x \<in> set ys) \<longleftrightarrow> x \<in> set ys" for i x
    by auto
  show ?thesis unfolding targetsUnchanged_def Let_def hint by (auto simp: list_all_iff)
qed

lemma targetInfoUnchanged_iff:
  assumes "epOK s"
  shows "targetInfoUnchanged dep ep infos s \<longleftrightarrow> set (targetsOf s dep ep) = set infos \<and> distinct infos"
  using pigeonhole [OF distinct_targetsOf [OF assms, of dep ep], of infos]
  by (auto simp: targetInfoUnchanged_def Let_def list_all_iff)

lemma wf_map_length: "wf_map m \<Longrightarrow> length m = card (set (mkeys m))"
  by (metis distinct_card length_map)

text \<open>The comparison of an update with the store, without the table of hints.\<close>

lemma endpointsUnchanged_iff:
  assumes "epOK s" "wf_map new"
  shows "endpointsUnchanged dep new s \<longleftrightarrow>
    (if epKnown s dep
     then (\<forall>ep. epCur s ep dep = map_option set (mget new ep)) \<and> (\<forall>ep infos. mget new ep = Some infos \<longrightarrow> distinct infos)
     else new = [])"
proof (cases "mget (reverseEndpointMap s) dep")
  case None
  then show ?thesis by (simp add: endpointsUnchanged_def epKnown_def)
next
  case (Some C)
  note ok = curOKD [OF epOKD(1) [OF assms(1)]]
  have at: "setAt (reverseEndpointMap s) dep = C" using Some by (simp add: setAt_def)
  have C: "ep \<in> set C \<longleftrightarrow> get2 (endpointMap s) ep dep \<noteq> None" for ep using ok(3) [of ep dep] by (simp add: at)
  have "distinct C" using ok(4) [of dep] by (simp add: at)
  then have len: "length C = length new \<and> set (mkeys new) \<subseteq> set C \<longleftrightarrow> set C = set (mkeys new)"
    using pigeonhole [OF assms(2), of C] by auto
  have entry: "length infos' = length infos \<and> targetsUnchanged infos' infos \<longleftrightarrow> set infos' = set infos \<and> distinct infos"
    if "get2 (endpointMap s) ep dep = Some infos'" for ep infos infos'
    using pigeonhole [OF ok(5) [OF that], of infos] by (simp add: targetsUnchanged_iff)
  have step: "(if \<not> setContains C ep then False
      else (case get2 (endpointMap s) ep dep of None \<Rightarrow> False
        | Some infos' \<Rightarrow> if length infos' \<noteq> length infos then False else targetsUnchanged infos' infos))
    \<longleftrightarrow> (\<exists>infos'. get2 (endpointMap s) ep dep = Some infos' \<and>
         length infos' = length infos \<and> targetsUnchanged infos' infos)" for ep infos
    by (cases "get2 (endpointMap s) ep dep") (auto simp: setContains_def C)
  have "endpointsUnchanged dep new s \<longleftrightarrow> length C = length new \<and>
      (\<forall>(ep, infos) \<in> set new. \<exists>infos'. get2 (endpointMap s) ep dep = Some infos' \<and>
         length infos' = length infos \<and> targetsUnchanged infos' infos)"
    unfolding endpointsUnchanged_def Some option.case step list_all_iff by simp
  also have "\<dots> \<longleftrightarrow> length C = length new \<and>
      (\<forall>(ep, infos) \<in> set new. \<exists>infos'. get2 (endpointMap s) ep dep = Some infos' \<and>
         set infos' = set infos \<and> distinct infos)"
    using entry by (auto split: prod.splits) blast+
  also have "\<dots> \<longleftrightarrow> length C = length new \<and>
      (\<forall>ep infos. mget new ep = Some infos \<longrightarrow> epCur s ep dep = Some (set infos) \<and> distinct infos)"
    unfolding mget_eq_iff_in_set [OF assms(2)] epCur_def by auto
  also have "\<dots> \<longleftrightarrow> (\<forall>ep. epCur s ep dep = map_option set (mget new ep)) \<and>
      (\<forall>ep infos. mget new ep = Some infos \<longrightarrow> distinct infos)"
  proof -
    have "length C = length new \<longleftrightarrow> (\<forall>ep. mget new ep = None \<longrightarrow> epCur s ep dep = None)"
      if all: "\<forall>ep infos. mget new ep = Some infos \<longrightarrow> epCur s ep dep = Some (set infos) \<and> distinct infos"
    proof -
      have sub: "set (mkeys new) \<subseteq> set C"
      proof
        fix ep assume "ep \<in> set (mkeys new)"
        then obtain infos where "mget new ep = Some infos"
          using mget_None_iff [of new ep] by (cases "mget new ep") auto
        with all have "epCur s ep dep = Some (set infos)" by blast
        then show "ep \<in> set C" unfolding C by (cases "get2 (endpointMap s) ep dep") (simp_all add: epCur_def)
      qed
      have "set C \<subseteq> set (mkeys new) \<longleftrightarrow> (\<forall>ep. mget new ep = None \<longrightarrow> epCur s ep dep = None)"
        by (auto simp: C epCur_def mget_None_iff)
      with len sub show ?thesis by blast
    qed
    moreover have "x = map_option set y \<longleftrightarrow> (y = None \<longrightarrow> x = None) \<and> (\<forall>i. y = Some i \<longrightarrow> x = Some (set i))"
      for x and y :: "EndpointTargetInfo list option" by (cases y) auto
    ultimately show ?thesis by (simp only:) blast
  qed
  finally show ?thesis using Some by (simp add: epKnown_def)
qed

subsection \<open>Complete updates\<close>

lemma insertSingleEndpoint_spec:
  assumes "epOK s"
  shows "epOK (insertSingleEndpoint dep ep infos s)"
    "ep_memorySize (insertSingleEndpoint dep ep infos s) = ep_memorySize s"
    "epCur (insertSingleEndpoint dep ep infos s) ep' d = (if ep' = ep \<and> d = dep then Some (set infos) else epCur s ep' d)"
    "epAge (insertSingleEndpoint dep ep infos s) d ep' = (if ep' = ep \<and> d = dep then Absent else epAge s d ep')"
proof -
  let ?s = "s\<lparr>reverseEndpointMap := mput dep (gs_ins ep (setAt (reverseEndpointMap s) dep)) (reverseEndpointMap s),
              endpointMap := mput2 ep dep (fold gs_ins infos []) (endpointMap s)\<rparr>"
  have run: "insertSingleEndpoint dep ep infos s = fst (epDeleteFromHistory dep ep ?s)"
    by (simp add: insertSingleEndpoint_def setAdd_fst Let_def)
  have "epOK ?s" using assms by (simp add: epOK_def curOK_put)
  then show "epOK (insertSingleEndpoint dep ep infos s)" unfolding run by (rule epDeleteFromHistory_OK)
  show "ep_memorySize (insertSingleEndpoint dep ep infos s) = ep_memorySize s" by (simp add: run)
  show "epCur (insertSingleEndpoint dep ep infos s) ep' d = (if ep' = ep \<and> d = dep then Some (set infos) else epCur s ep' d)"
    by (simp add: run epCur_def)
  show "epAge (insertSingleEndpoint dep ep infos s) d ep' = (if ep' = ep \<and> d = dep then Absent else epAge s d ep')"
    unfolding run epDeleteFromHistory_age by (simp add: epAge_def)
qed

lemma changeTargets_spec:
  assumes "epOK s" "get2 (endpointMap s) ep dep \<noteq> None"
  shows "epOK (changeTargets dep new ep s)" "ep_memorySize (changeTargets dep new ep s) = ep_memorySize s"
    "epCur (changeTargets dep new ep s) ep' d =
       (if ep' = ep \<and> d = dep then Some (set (setAt new ep)) else epCur s ep' d)"
    "epAge (changeTargets dep new ep s) d ep' =
       (if ep' = ep \<and> d = dep then aged s (epAge s d ep') else epAge s d ep')"
proof -
  let ?s = "if epHistoryEnabled s then epAddToHistory dep ep s else s"
  have run: "changeTargets dep new ep s = ?s\<lparr>endpointMap := mput2 ep dep (fold gs_ins (setAt new ep) []) (endpointMap ?s)\<rparr>"
    by (simp add: changeTargets_def)
  have s: "epOK ?s" "endpointMap ?s = endpointMap s" "ep_memorySize ?s = ep_memorySize s"
    using assms(1) by (simp_all add: epAddToHistory_OK)
  then show "epOK (changeTargets dep new ep s)" unfolding run using assms(2) by (simp add: epOK_def curOK_refill)
  show "ep_memorySize (changeTargets dep new ep s) = ep_memorySize s" unfolding run by simp
  show "epCur (changeTargets dep new ep s) ep' d =
       (if ep' = ep \<and> d = dep then Some (set (setAt new ep)) else epCur s ep' d)"
    unfolding run by (simp add: epCur_def)
  have "epAge (changeTargets dep new ep s) d ep' = epAge ?s d ep'" unfolding run by (simp add: epAge_def)
  also have "\<dots> = (if ep' = ep \<and> d = dep then aged s (epAge s d ep') else epAge s d ep')"
    by (auto simp: epAddToHistory_age aged_def epHistoryEnabled_def word_neq_0_conv)
  finally show "epAge (changeTargets dep new ep s) d ep' =
       (if ep' = ep \<and> d = dep then aged s (epAge s d ep') else epAge s d ep')" .
qed

lemma changeAll_spec:
  assumes "epOK s" "\<And>ep. ep \<in> set eps \<Longrightarrow> get2 (endpointMap s) ep dep \<noteq> None"
  shows "epOK (fold (changeTargets dep new) eps s)
    \<and> ep_memorySize (fold (changeTargets dep new) eps s) = ep_memorySize s
    \<and> (\<forall>ep d. epCur (fold (changeTargets dep new) eps s) ep d =
         (if ep \<in> set eps \<and> d = dep then Some (set (setAt new ep)) else epCur s ep d))
    \<and> (\<forall>ep d. epAge (fold (changeTargets dep new) eps s) d ep =
         (if ep \<in> set eps \<and> d = dep then aged s (epAge s d ep) else epAge s d ep))"
  using assms
proof (induction eps arbitrary: s)
  case (Cons e eps)
  define s1 where s1: "s1 = changeTargets dep new e s"
  have "get2 (endpointMap s) e dep \<noteq> None" using Cons.prems(2) by simp
  note step = changeTargets_spec [OF Cons.prems(1) this, of new, folded s1]
  have "get2 (endpointMap s1) ep dep \<noteq> None" if "ep \<in> set eps" for ep
  proof -
    have "epCur s1 ep dep \<noteq> None" using Cons.prems(2) [of ep] that by (simp add: step(3)) (simp add: epCur_def)
    then show ?thesis by (simp add: epCur_def)
  qed
  from Cons.IH [OF step(1) this] show ?case
    by (simp add: s1 [symmetric] step(2-4) aged_cong [OF step(2)])
qed simp

lemma diffPass2_spec:
  assumes "epOK s" "wf_map new" "\<And>ep. ep \<in> set C \<Longrightarrow> mget new ep \<noteq> None \<Longrightarrow> get2 (endpointMap s) ep dep \<noteq> None"
  shows "epOK (fst (diffPass2 dep C new s)) \<and> ep_memorySize (fst (diffPass2 dep C new s)) = ep_memorySize s
    \<and> (\<forall>ep d. epCur (fst (diffPass2 dep C new s)) ep d =
         (case mget new ep of None \<Rightarrow> epCur s ep d
          | Some infos \<Rightarrow> if d = dep \<and> ep \<notin> set C then Some (set infos) else epCur s ep d))
    \<and> (\<forall>ep d. epAge (fst (diffPass2 dep C new s)) d ep =
         (if mget new ep \<noteq> None \<and> d = dep \<and> ep \<notin> set C then Absent else epAge s d ep))
    \<and> set (snd (diffPass2 dep C new s)) =
        {ep \<in> set C. \<exists>infos. mget new ep = Some infos \<and> \<not> (epCur s ep dep = Some (set infos) \<and> distinct infos)}"
  using assms
proof (induction dep C new s rule: diffPass2.induct)
  case (1 dep C s)
  then show ?case by simp
next
  case (2 dep C ep infos rest s)
  have fresh: "mget rest ep = None" and rest: "wf_map rest" using 2(5) by (auto simp: mget_None_iff)
  have other: "ep' \<noteq> ep" if "mget rest ep' = Some x" for ep' x using that fresh by auto
  show ?case
  proof (cases "ep \<in> set C")
    case False
    define s1 where s1: "s1 = insertSingleEndpoint dep ep infos s"
    note step = insertSingleEndpoint_spec [OF 2(4), of dep ep infos, folded s1]
    have "get2 (endpointMap s1) ep' dep \<noteq> None" if "ep' \<in> set C" "mget rest ep' \<noteq> None" for ep'
    proof -
      have "ep' \<noteq> ep" using that False by auto
      then have "epCur s1 ep' dep \<noteq> None" using 2(6) [OF that(1)] that by (simp add: step(3)) (simp add: epCur_def)
      then show ?thesis by (simp add: epCur_def)
    qed
    moreover have "\<not> setContains C ep" using False by (simp add: setContains_def)
    ultimately have IH: "epOK (fst (diffPass2 dep C rest s1)) \<and> ep_memorySize (fst (diffPass2 dep C rest s1)) = ep_memorySize s1
      \<and> (\<forall>ep d. epCur (fst (diffPass2 dep C rest s1)) ep d =
         (case mget rest ep of None \<Rightarrow> epCur s1 ep d
          | Some infos \<Rightarrow> if d = dep \<and> ep \<notin> set C then Some (set infos) else epCur s1 ep d))
      \<and> (\<forall>ep d. epAge (fst (diffPass2 dep C rest s1)) d ep =
         (if mget rest ep \<noteq> None \<and> d = dep \<and> ep \<notin> set C then Absent else epAge s1 d ep))
      \<and> set (snd (diffPass2 dep C rest s1)) =
        {ep \<in> set C. \<exists>infos. mget rest ep = Some infos \<and> \<not> (epCur s1 ep dep = Some (set infos) \<and> distinct infos)}"
      using 2(1) rest step(1) unfolding s1 by blast
    have run: "diffPass2 dep C ((ep, infos) # rest) s = diffPass2 dep C rest s1"
      using False by (simp add: setContains_def s1)
    have "(case mget ((ep, infos) # rest) ep' of None \<Rightarrow> epCur s ep' d
          | Some infos \<Rightarrow> if d = dep \<and> ep' \<notin> set C then Some (set infos) else epCur s ep' d) =
        (case mget rest ep' of None \<Rightarrow> epCur s1 ep' d
          | Some infos \<Rightarrow> if d = dep \<and> ep' \<notin> set C then Some (set infos) else epCur s1 ep' d)" for ep' d
      using False fresh by (cases "ep' = ep"; cases "mget rest ep'") (simp_all add: step(3))
    moreover have "(if mget ((ep, infos) # rest) ep' \<noteq> None \<and> d = dep \<and> ep' \<notin> set C then Absent else epAge s d ep') =
        (if mget rest ep' \<noteq> None \<and> d = dep \<and> ep' \<notin> set C then Absent else epAge s1 d ep')" for ep' d
      using False fresh by (cases "ep' = ep"; cases "mget rest ep'") (simp_all add: step(4))
    moreover have "{ep' \<in> set C. \<exists>is. mget ((ep, infos) # rest) ep' = Some is \<and> \<not> (epCur s ep' dep = Some (set is) \<and> distinct is)} =
        {ep' \<in> set C. \<exists>is. mget rest ep' = Some is \<and> \<not> (epCur s1 ep' dep = Some (set is) \<and> distinct is)}"
      using False by (intro Collect_cong) (auto simp: step(3))
    ultimately show ?thesis unfolding run using IH step(2) by presburger
  next
    case True
    have have_ep: "get2 (endpointMap s) ep dep \<noteq> None" using 2(6) [OF True] by simp
    have later: "get2 (endpointMap s) ep' dep \<noteq> None" if "ep' \<in> set C" "mget rest ep' \<noteq> None" for ep'
      using 2(6) [OF that(1)] that by (simp split: if_splits)
    have C: "setContains C ep" using True by (simp add: setContains_def)
    then have nC: "\<not> \<not> setContains C ep" by simp
    have IH: "epOK (fst (diffPass2 dep C rest s)) \<and> ep_memorySize (fst (diffPass2 dep C rest s)) = ep_memorySize s
      \<and> (\<forall>ep d. epCur (fst (diffPass2 dep C rest s)) ep d =
         (case mget rest ep of None \<Rightarrow> epCur s ep d
          | Some infos \<Rightarrow> if d = dep \<and> ep \<notin> set C then Some (set infos) else epCur s ep d))
      \<and> (\<forall>ep d. epAge (fst (diffPass2 dep C rest s)) d ep =
         (if mget rest ep \<noteq> None \<and> d = dep \<and> ep \<notin> set C then Absent else epAge s d ep))
      \<and> set (snd (diffPass2 dep C rest s)) =
        {ep \<in> set C. \<exists>infos. mget rest ep = Some infos \<and> \<not> (epCur s ep dep = Some (set infos) \<and> distinct infos)}"
      by (cases "targetInfoUnchanged dep ep infos s")
        (rule 2(2) [OF nC _ 2(4) rest later], assumption+, rule 2(3) [OF nC _ 2(4) rest later], assumption+)
    have same: "epCur s ep dep = Some (set (targetsOf s dep ep))"
      using have_ep by (auto simp: epCur_def targetsOf_def)
    have run: "fst (diffPass2 dep C ((ep, infos) # rest) s) = fst (diffPass2 dep C rest s)"
      "set (snd (diffPass2 dep C ((ep, infos) # rest) s)) =
        (if epCur s ep dep = Some (set infos) \<and> distinct infos then {} else {ep}) \<union> set (snd (diffPass2 dep C rest s))"
      using C targetInfoUnchanged_iff [OF 2(4), of dep ep infos] same by (simp_all add: split_beta Let_def)
    have "(case mget ((ep, infos) # rest) ep' of None \<Rightarrow> epCur s ep' d
          | Some infos \<Rightarrow> if d = dep \<and> ep' \<notin> set C then Some (set infos) else epCur s ep' d) =
        (case mget rest ep' of None \<Rightarrow> epCur s ep' d
          | Some infos \<Rightarrow> if d = dep \<and> ep' \<notin> set C then Some (set infos) else epCur s ep' d)" for ep' d
      using True fresh by (cases "ep' = ep") simp_all
    moreover have "(if mget ((ep, infos) # rest) ep' \<noteq> None \<and> d = dep \<and> ep' \<notin> set C then Absent else epAge s d ep') =
        (if mget rest ep' \<noteq> None \<and> d = dep \<and> ep' \<notin> set C then Absent else epAge s d ep')" for ep' d
      using True fresh by (cases "ep' = ep") simp_all
    moreover have "{ep' \<in> set C. \<exists>is. mget ((ep, infos) # rest) ep' = Some is \<and> \<not> (epCur s ep' dep = Some (set is) \<and> distinct is)} =
        (if epCur s ep dep = Some (set infos) \<and> distinct infos then {} else {ep}) \<union>
        {ep' \<in> set C. \<exists>is. mget rest ep' = Some is \<and> \<not> (epCur s ep' dep = Some (set is) \<and> distinct is)}"
      using True by (intro set_eqI) (auto dest: other)
    ultimately show ?thesis unfolding run using IH by presburger
  qed
qed

text \<open>The place of the endpoints of \<open>dep\<close> in the history after its endpoints became \<open>new\<close>.\<close>

definition replacedAge :: "endpointsStore \<Rightarrow> string \<Rightarrow> (NumericEndpoint, EndpointTargetInfo list) gomap \<Rightarrow>
    NumericEndpoint \<Rightarrow> presence" where
  "replacedAge s dep new ep =
     (case (epCur s ep dep, mget new ep) of
        (None, None) \<Rightarrow> epAge s dep ep
      | (None, Some infos) \<Rightarrow> Absent
      | (Some old, None) \<Rightarrow> aged s (epAge s dep ep)
      | (Some old, Some infos) \<Rightarrow> if old = set infos \<and> distinct infos then epAge s dep ep else aged s (epAge s dep ep))"

lemma fold_move: "fold (epMoveToHistory dep) eps s = fold (\<lambda>(ep, dep). epMoveToHistory dep ep) (map (\<lambda>ep. (ep, dep)) eps) s"
  by (simp add: fold_map comp_def)

lemma spec2: "\<forall>x y. P x y \<Longrightarrow> P x y"
  by blast

lemma diffPass2_facts:
  assumes "epOK s" "wf_map new" "\<forall>ep \<in> set C. mget new ep \<noteq> None \<longrightarrow> get2 (endpointMap s) ep dep \<noteq> None"
    and run: "diffPass2 dep C new s = (s', changed)"
  shows "epOK s'" "ep_memorySize s' = ep_memorySize s"
    "epCur s' ep d = (case mget new ep of None \<Rightarrow> epCur s ep d
       | Some infos \<Rightarrow> if d = dep \<and> ep \<notin> set C then Some (set infos) else epCur s ep d)"
    "epAge s' d ep = (if mget new ep \<noteq> None \<and> d = dep \<and> ep \<notin> set C then Absent else epAge s d ep)"
    "ep \<in> set changed \<longleftrightarrow> ep \<in> set C \<and>
       (\<exists>infos. mget new ep = Some infos \<and> \<not> (epCur s ep dep = Some (set infos) \<and> distinct infos))"
proof -
  have s': "s' = fst (diffPass2 dep C new s)" "changed = snd (diffPass2 dep C new s)" using run by simp_all
  have pre: "\<And>ep. ep \<in> set C \<Longrightarrow> mget new ep \<noteq> None \<Longrightarrow> get2 (endpointMap s) ep dep \<noteq> None"
    using assms(3) by blast
  have spec: "epOK s' \<and> ep_memorySize s' = ep_memorySize s
    \<and> (\<forall>ep d. epCur s' ep d = (case mget new ep of None \<Rightarrow> epCur s ep d
          | Some infos \<Rightarrow> if d = dep \<and> ep \<notin> set C then Some (set infos) else epCur s ep d))
    \<and> (\<forall>ep d. epAge s' d ep =
         (if mget new ep \<noteq> None \<and> d = dep \<and> ep \<notin> set C then Absent else epAge s d ep))
    \<and> set changed = {ep \<in> set C. \<exists>infos. mget new ep = Some infos \<and> \<not> (epCur s ep dep = Some (set infos) \<and> distinct infos)}"
    unfolding s' by (rule diffPass2_spec [OF assms(1,2)]) (rule pre)
  show "epOK s'" "ep_memorySize s' = ep_memorySize s" using spec by simp_all
  show "epCur s' ep d = (case mget new ep of None \<Rightarrow> epCur s ep d
       | Some infos \<Rightarrow> if d = dep \<and> ep \<notin> set C then Some (set infos) else epCur s ep d)"
    by (rule spec2 [OF spec [THEN conjunct2, THEN conjunct2, THEN conjunct1]])
  show "epAge s' d ep = (if mget new ep \<noteq> None \<and> d = dep \<and> ep \<notin> set C then Absent else epAge s d ep)"
    by (rule spec2 [OF spec [THEN conjunct2, THEN conjunct2, THEN conjunct2, THEN conjunct1]])
  show "ep \<in> set changed \<longleftrightarrow> ep \<in> set C \<and>
       (\<exists>infos. mget new ep = Some infos \<and> \<not> (epCur s ep dep = Some (set infos) \<and> distinct infos))"
    unfolding spec [THEN conjunct2, THEN conjunct2, THEN conjunct2, THEN conjunct2] by simp
qed

lemma diffReplace_spec:
  assumes "epOK s" "wf_map new" "mget (reverseEndpointMap s) dep = Some C"
  shows "epOK (diffReplace dep C new s)" "ep_memorySize (diffReplace dep C new s) = ep_memorySize s"
    "epCur (diffReplace dep C new s) ep d = (if d = dep then map_option set (mget new ep) else epCur s ep d)"
    "epAge (diffReplace dep C new s) d ep = (if d = dep then replacedAge s dep new ep else epAge s d ep)"
proof -
  have C: "e \<in> set C \<longleftrightarrow> epCur s e dep \<noteq> None" for e
    using curOKD(3) [OF epOKD(1) [OF assms(1)], of e dep] assms(3) by (simp add: setAt_def epCur_def)
  let ?gone = "filter (\<lambda>ep. mget new ep = None) C"
  define s1 where s1: "s1 = fold (epMoveToHistory dep) ?gone s"
  have gone: "(e, d) \<in> set (map (\<lambda>ep. (ep, dep)) ?gone) \<longleftrightarrow> d = dep \<and> mget new e = None \<and> epCur s e dep \<noteq> None" for e d
    by (auto simp: C)
  note move = move_all [OF assms(1), of "map (\<lambda>ep. (ep, dep)) ?gone", folded fold_move, folded s1]
  have s1_get2: "get2 (endpointMap s1) e d = (if d = dep \<and> mget new e = None then None else get2 (endpointMap s) e d)" for e d
  proof -
    have "get2 (endpointMap s1) e d = (if (e, d) \<in> set (map (\<lambda>ep. (ep, dep)) ?gone) then None else get2 (endpointMap s) e d)"
      using move by blast
    then show ?thesis unfolding gone by (auto simp: epCur_def)
  qed
  have s1_cur: "epCur s1 e d = (if d = dep \<and> mget new e = None then None else epCur s e d)" for e d
    by (simp add: epCur_def s1_get2)
  have s1_age: "epAge s1 d e = (if d = dep \<and> mget new e = None \<and> epCur s e dep \<noteq> None then aged s (epAge s d e) else epAge s d e)" for e d
  proof -
    have "epAge s1 d e = (if (e, d) \<in> set (map (\<lambda>ep. (ep, dep)) ?gone) then aged s (epAge s d e) else epAge s d e)"
      using move by blast
    then show ?thesis unfolding gone .
  qed
  have s1_mem: "epOK s1" "ep_memorySize s1 = ep_memorySize s" using move by blast+
  obtain s2 changed where pass2: "diffPass2 dep C new s1 = (s2, changed)" by fastforce
  have "\<forall>e \<in> set C. mget new e \<noteq> None \<longrightarrow> get2 (endpointMap s1) e dep \<noteq> None"
    by (auto simp: C s1_get2 epCur_def)
  note p2 = diffPass2_facts [OF s1_mem(1) assms(2) this pass2]
  have s2_mem: "epOK s2" "ep_memorySize s2 = ep_memorySize s" using p2(1,2) s1_mem(2) by simp_all
  note s2_cur = p2(3) and s2_age = p2(4) and changed = p2(5)
  have "get2 (endpointMap s2) e dep \<noteq> None" if "e \<in> set changed" for e
  proof -
    have "e \<in> set C" "mget new e \<noteq> None" using that changed by auto
    then have "epCur s2 e dep \<noteq> None" unfolding s2_cur s1_cur C by (cases "mget new e") simp_all
    then show ?thesis by (simp add: epCur_def)
  qed
  note p3 = changeAll_spec [OF s2_mem(1) this, of changed new]
  have run: "diffReplace dep C new s = fold (changeTargets dep new) changed s2"
    unfolding diffReplace_def s1 [symmetric] Let_def pass2 by simp
  show "epOK (diffReplace dep C new s)" "ep_memorySize (diffReplace dep C new s) = ep_memorySize s"
    unfolding run using p3 s2_mem(2) by simp_all
  have cur: "epCur (diffReplace dep C new s) ep d =
      (if ep \<in> set changed \<and> d = dep then Some (set (setAt new ep)) else epCur s2 ep d)"
    unfolding run using p3 by blast
  have age: "epAge (diffReplace dep C new s) d ep =
      (if ep \<in> set changed \<and> d = dep then aged s2 (epAge s2 d ep) else epAge s2 d ep)"
    unfolding run using p3 by blast
  have mem: "aged s2 = aged s" by (rule aged_cong [OF s2_mem(2)])
  show "epCur (diffReplace dep C new s) ep d = (if d = dep then map_option set (mget new ep) else epCur s ep d)"
    unfolding cur changed C s2_cur s1_cur
    by (cases "mget new ep"; cases "epCur s ep dep") (auto simp: setAt_def)
  show "epAge (diffReplace dep C new s) d ep = (if d = dep then replacedAge s dep new ep else epAge s d ep)"
    unfolding age changed C s2_age s1_age s1_cur mem replacedAge_def
    by (cases "mget new ep"; cases "epCur s ep dep") auto
qed

text \<open>A deletion. A deployment that is known without endpoints stays known.\<close>

lemma epPurge_spec:
  assumes "epOK s"
  shows "epOK (epPurge dep s)" "ep_memorySize (epPurge dep s) = ep_memorySize s"
    "epCur (epPurge dep s) ep d = (if d = dep then None else epCur s ep d)"
    "epAge (epPurge dep s) d ep = (if d = dep \<and> epCur s ep dep \<noteq> None then aged s (epAge s d ep) else epAge s d ep)"
proof -
  let ?eps = "setAt (reverseEndpointMap s) dep"
  have C: "(e, d) \<in> set (map (\<lambda>ep. (ep, dep)) ?eps) \<longleftrightarrow> d = dep \<and> get2 (endpointMap s) e dep \<noteq> None" for e d
    using curOKD(3) [OF epOKD(1) [OF assms], of e dep] by auto
  have run: "epPurge dep s = fold (\<lambda>(ep, dep). epMoveToHistory dep ep) (map (\<lambda>ep. (ep, dep)) ?eps) s"
    by (simp add: epPurge_def fold_move)
  note move = move_all [OF assms, of "map (\<lambda>ep. (ep, dep)) ?eps", folded run, unfolded C]
  show "epOK (epPurge dep s)" "ep_memorySize (epPurge dep s) = ep_memorySize s" using move by blast+
  show "epCur (epPurge dep s) ep d = (if d = dep then None else epCur s ep d)"
    using move by (auto simp: epCur_def)
  show "epAge (epPurge dep s) d ep = (if d = dep \<and> epCur s ep dep \<noteq> None then aged s (epAge s d ep) else epAge s d ep)"
    using move by (auto simp: epCur_def)
qed

lemma isDeleteOnly_Some: "\<not> isDeleteOnly ed \<Longrightarrow> \<exists>d. ed = Some d"
  by (cases ed) (simp_all add: isDeleteOnly_def)

lemma replaceOne_spec:
  assumes "epOK s" "\<not> isDeleteOnly (Some d)" "wf_map (endpoints d)"
  shows "epOK (replaceOne dep (Some d) s)" "ep_memorySize (replaceOne dep (Some d) s) = ep_memorySize s"
    "epKnown (replaceOne dep (Some d) s) dep"
    "epCur (replaceOne dep (Some d) s) ep o' =
       (if o' = dep then map_option set (mget (endpoints d) ep)
        else if \<not> epKnown s dep \<and> mget (endpoints d) ep \<noteq> None then None else epCur s ep o')"
    "epAge (replaceOne dep (Some d) s) o' ep =
       (if o' = dep then replacedAge s dep (endpoints d) ep
        else if \<not> epKnown s dep \<and> mget (endpoints d) ep \<noteq> None \<and> epCur s ep o' \<noteq> None then aged s (epAge s o' ep)
        else epAge s o' ep)"
proof -
  let ?new = "endpoints d"
  have unknown: "epCur s e dep = None" if "\<not> epKnown s dep" for e
    using epKnown_cur [OF assms(1), of e dep] that by blast
  have "epOK (replaceOne dep (Some d) s) \<and> ep_memorySize (replaceOne dep (Some d) s) = ep_memorySize s
    \<and> epKnown (replaceOne dep (Some d) s) dep
    \<and> epCur (replaceOne dep (Some d) s) ep o' =
       (if o' = dep then map_option set (mget (endpoints d) ep)
        else if \<not> epKnown s dep \<and> mget (endpoints d) ep \<noteq> None then None else epCur s ep o')
    \<and> epAge (replaceOne dep (Some d) s) o' ep =
       (if o' = dep then replacedAge s dep (endpoints d) ep
        else if \<not> epKnown s dep \<and> mget (endpoints d) ep \<noteq> None \<and> epCur s ep o' \<noteq> None then aged s (epAge s o' ep)
        else epAge s o' ep)"
  proof (cases "endpointsUnchanged dep ?new s")
    case True
    have run: "replaceOne dep (Some d) s = (if \<not> epKnown s dep \<and> length ?new = 0 then markSeen dep s else s)"
      using True assms(2) by (simp add: replaceOne_def epKnown_def)
    note same = True [unfolded endpointsUnchanged_iff [OF assms(1,3)]]
    show ?thesis
    proof (cases "epKnown s dep")
      case True
      with same have cur: "\<And>ep. epCur s ep dep = map_option set (mget ?new ep)"
        "\<And>ep infos. mget ?new ep = Some infos \<Longrightarrow> distinct infos" by simp_all
      have "replacedAge s dep ?new ep = epAge s dep ep"
        using cur(2) by (cases "mget ?new ep") (simp_all add: replacedAge_def cur(1))
      with True run cur(1) assms(1) show ?thesis by simp
    next
      case False
      with same have "?new = []" by simp
      moreover have "replacedAge s dep [] ep = epAge s dep ep" using unknown [OF False] by (simp add: replacedAge_def)
      ultimately show ?thesis
        using False run markSeen_spec [OF assms(1)] unknown [OF False] by simp
    qed
  next
    case False
    show ?thesis
    proof (cases "mget (reverseEndpointMap s) dep")
      case None
      then have nk: "\<not> epKnown s dep" by (simp add: epKnown_def)
      have run: "replaceOne dep (Some d) s = epApplySingle dep d s"
        using False None assms(2) by (simp add: replaceOne_def)
      have none: "targetsOf s dep e = []" for e
        using unknown [OF nk, of e] by (simp add: epCur_def targetsOf_def)
      note a = epApplySingle_spec [OF assms(1,3), of dep]
      show ?thesis
        unfolding run using a nk none unknown [OF nk]
        by (cases "mget ?new ep"; cases "epCur s ep o'") (auto simp: addedCur_def addedAge_def replacedAge_def)
    next
      case (Some C)
      then have k: "epKnown s dep" by (simp add: epKnown_def)
      define t where t: "t = diffReplace dep C ?new s"
      have run: "replaceOne dep (Some d) s = (if length ?new = 0 then markSeen dep t else t)"
        using False Some assms(2) by (simp add: replaceOne_def Let_def t)
      note r = diffReplace_spec [OF assms(1,3) Some, folded t]
      note m = markSeen_spec [OF r(1), of dep]
      have "epKnown t dep" if "length ?new \<noteq> 0"
      proof -
        have "?new \<noteq> []" using that by simp
        then obtain e infos where "(e, infos) \<in> set ?new" by (cases ?new) auto
        then have "mget ?new e = Some infos" using assms(3) by (simp add: mget_eq_iff_in_set)
        then have "epCur t e dep \<noteq> None" by (simp add: r(3))
        then show ?thesis by (rule epKnown_cur [OF r(1)])
      qed
      then show ?thesis unfolding run using r m k by simp
    qed
  qed
  then show "epOK (replaceOne dep (Some d) s)" "ep_memorySize (replaceOne dep (Some d) s) = ep_memorySize s"
    "epKnown (replaceOne dep (Some d) s) dep"
    "epCur (replaceOne dep (Some d) s) ep o' =
       (if o' = dep then map_option set (mget (endpoints d) ep)
        else if \<not> epKnown s dep \<and> mget (endpoints d) ep \<noteq> None then None else epCur s ep o')"
    "epAge (replaceOne dep (Some d) s) o' ep =
       (if o' = dep then replacedAge s dep (endpoints d) ep
        else if \<not> epKnown s dep \<and> mget (endpoints d) ep \<noteq> None \<and> epCur s ep o' \<noteq> None then aged s (epAge s o' ep)
        else epAge s o' ep)"
    by blast+
qed

end
