(* ===== verification/Entity_Store_Safety.thy ===== *)
theory Entity_Store_Safety
  imports Pod_Ips Entity_Endpoints
begin

text \<open>
  Runs of the store of endpoints and of the whole store of entities: ticks never meet a missing entry,
  removed endpoints are remembered as long as configured, updates have exactly the described effect, and
  the listeners for public addresses always have the addresses that are stored.
\<close>

subsection \<open>Ticks\<close>

definition tickEP :: "NumericEndpoint \<Rightarrow> string \<Rightarrow> endpointsStore \<Rightarrow> (endpointsStore \<times> bool) option" where
  "tickEP ep dep s =
     (let s1 = (case get2 (historicalEndpoints s) ep dep of None \<Rightarrow> s
          | Some m \<Rightarrow> s\<lparr>historicalEndpoints :=
              mput2 ep dep (map (\<lambda>(info, status). (info, recordTick status)) m) (historicalEndpoints s)\<rparr>)
      in map_option (\<lambda>status. epRemoveFromHistoryIfExpired dep ep
           (s1\<lparr>reverseHistoricalEndpoints := mput2 dep ep (recordTick status) (reverseHistoricalEndpoints s1)\<rparr>))
         (get2 (reverseHistoricalEndpoints s1) dep ep))"

lemma tickEndpoints_Cons:
  "tickEndpoints ((ep, dep) # ps) r s = Option.bind (tickEP ep dep s)
     (\<lambda>(s', removed). tickEndpoints ps (r \<or> removed \<and> addrIsPublic (Address (IPAndPort ep))) s')"
  by (simp add: tickEP_def Let_def split_beta split: option.split)

lemma recordTick_mono: "u \<le> t \<Longrightarrow> recordTick u \<le> recordTick t"
proof -
  assume le: "u \<le> t"
  show ?thesis
  proof (cases "u = 0")
    case True
    then show ?thesis by (simp add: recordTick_def)
  next
    case False
    then have u: "0 < u" by (simp add: word_neq_0_conv)
    then have "0 < t" using le by (rule less_le_trans)
    with u le show ?thesis
      by (simp add: recordTick_def word_le_nat_alt word_less_nat_alt unat_sub)
  qed
qed

lemma histOK_tick:
  assumes "histOK mem H R" "get2 H ep dep = Some m" "get2 R dep ep = Some t" "recordTick t \<noteq> 0"
  shows "histOK mem (mput2 ep dep (map (\<lambda>(info, status). (info, recordTick status)) m) H) (mput2 dep ep (recordTick t) R)"
proof (rule histOKI)
  have t: "tickedStatus t = Some (recordTick t)" using assms(4) by (simp add: tickedStatus_def)
  have le: "0 < recordTick t \<and> recordTick t \<le> mem"
    using tickedStatus_le [OF t] histOKD(4) [OF assms(1,3)] by auto
  show "get2 (mput2 ep dep (map (\<lambda>(info, status). (info, recordTick status)) m) H) ep' dep' = None \<longleftrightarrow>
      get2 (mput2 dep ep (recordTick t) R) dep' ep' = None" for ep' dep'
    using histOKD(3) [OF assms(1), of ep' dep'] by auto
  show "0 < u \<and> u \<le> mem" if "get2 (mput2 dep ep (recordTick t) R) dep' ep' = Some u" for dep' ep' u
    using that le histOKD(4) [OF assms(1)] by (auto split: if_splits)
  fix ep' dep' m' t'
  assume a: "get2 (mput2 ep dep (map (\<lambda>(info, status). (info, recordTick status)) m) H) ep' dep' = Some m'"
    "get2 (mput2 dep ep (recordTick t) R) dep' ep' = Some t'"
  have "wf_map (map (\<lambda>(info, status). (info, recordTick status)) m)"
    using histOKD(5) [OF assms(1-3)] by (simp only: mkeys_map_snd)
  then show "wf_map m'" using a histOKD(5) [OF assms(1)] by (auto split: if_splits)
  fix info u assume "mget m' info = Some u"
  with a histOKD(6) [OF assms(1)] assms(2,3) show "u \<le> t'"
    by (auto split: if_splits intro!: recordTick_mono)
qed (use histOKD(1,2) [OF assms(1)] in simp_all)

lemma histOK_expire:
  assumes "histOK mem H R"
  shows "histOK mem (mdel2 ep dep (mput2 ep dep x H)) (mdel2 dep ep (mput2 dep ep y R))"
proof (rule histOKI)
  show "get2 (mdel2 ep dep (mput2 ep dep x H)) ep' dep' = None \<longleftrightarrow> get2 (mdel2 dep ep (mput2 dep ep y R)) dep' ep' = None"
    for ep' dep' using histOKD(3) [OF assms, of ep' dep'] by auto
qed (use histOKD [OF assms] in \<open>auto split: if_splits\<close>)

lemma tickEP_spec:
  assumes "epOK s" "get2 (historicalEndpoints s) ep dep \<noteq> None"
  shows "\<exists>s' removed. tickEP ep dep s = Some (s', removed) \<and> epOK s' \<and> ep_memorySize s' = ep_memorySize s
    \<and> endpointMap s' = endpointMap s \<and> reverseEndpointMap s' = reverseEndpointMap s
    \<and> (\<forall>d e. epAge s' d e = (if e = ep \<and> d = dep then agePresence 1 (epAge s d e) else epAge s d e))
    \<and> (removed \<longleftrightarrow> epAge s dep ep = Historical 1)"
proof -
  obtain m where m: "get2 (historicalEndpoints s) ep dep = Some m" using assms(2) by blast
  note h = histOKD [OF epOKD(2) [OF assms(1)]]
  obtain t where t: "get2 (reverseHistoricalEndpoints s) dep ep = Some t"
    using h(3) [of ep dep] m by (cases "get2 (reverseHistoricalEndpoints s) dep ep") simp_all
  have pos: "0 < t" using h(4) [OF t] by simp
  let ?H = "mput2 ep dep (map (\<lambda>(info, status). (info, recordTick status)) m) (historicalEndpoints s)"
  let ?R = "mput2 dep ep (recordTick t) (reverseHistoricalEndpoints s)"
  let ?s = "s\<lparr>historicalEndpoints := ?H, reverseHistoricalEndpoints := ?R\<rparr>"
  have run: "tickEP ep dep s = Some (epRemoveFromHistoryIfExpired dep ep ?s)" by (simp add: tickEP_def m t)
  have age: "epAge s dep ep = Historical t" by (simp add: epAge_def t)
  have one: "tickedStatus t = None \<longleftrightarrow> t = 1" by (rule tickedStatus_None [OF pos])
  show ?thesis
  proof (cases "recordTick t = 0")
    case True
    let ?s' = "?s\<lparr>reverseHistoricalEndpoints := mdel2 dep ep ?R, historicalEndpoints := mdel2 ep dep ?H\<rparr>"
    have run': "tickEP ep dep s = Some (?s', True)"
      using True by (simp add: run epRemoveFromHistoryIfExpired_def epDeleteFromHistory_def IsExpired_def)
    have "epOK ?s'" using assms(1) by (simp add: epOK_def histOK_expire)
    moreover have "tickedStatus t = None" using True by (simp add: tickedStatus_def)
    moreover have "epAge ?s' d e = (if e = ep \<and> d = dep then agePresence 1 (epAge s d e) else epAge s d e)" for d e
    proof (cases "e = ep \<and> d = dep")
      case True
      then show ?thesis
        using age_tickedStatus [of t] \<open>tickedStatus t = None\<close> by (simp add: age) (simp add: epAge_def)
    qed (auto simp: epAge_def)
    ultimately show ?thesis using one unfolding run' by (intro exI [of _ ?s'] exI [of _ True]) (simp add: age)
  next
    case False
    have run': "tickEP ep dep s = Some (?s, False)"
      using False by (simp add: run epRemoveFromHistoryIfExpired_def IsExpired_def)
    have "epOK ?s" using assms(1) histOK_tick [OF epOKD(2) [OF assms(1)] m t False] by (simp add: epOK_def)
    moreover have ts: "tickedStatus t = Some (recordTick t)" using False by (simp add: tickedStatus_def)
    moreover have "epAge ?s d e = (if e = ep \<and> d = dep then agePresence 1 (epAge s d e) else epAge s d e)" for d e
    proof (cases "e = ep \<and> d = dep")
      case True
      then show ?thesis using age_tickedStatus [of t] ts by (simp add: age) (simp add: epAge_def)
    qed (auto simp: epAge_def)
    ultimately show ?thesis using one unfolding run' by (intro exI [of _ ?s] exI [of _ False]) (simp add: age)
  qed
qed

lemma epAge_history: "epOK s \<Longrightarrow> get2 (historicalEndpoints s) ep dep \<noteq> None \<longleftrightarrow> epAge s dep ep \<noteq> Absent"
  using histOKD(3) [OF epOKD(2), of s ep dep]
  by (cases "get2 (reverseHistoricalEndpoints s) dep ep") (simp_all add: epAge_def)

lemma tickEndpoints_spec:
  assumes "epOK s" "distinct ps" "\<forall>(ep, dep) \<in> set ps. epAge s dep ep \<noteq> Absent"
  shows "\<exists>s' r'. tickEndpoints ps r s = Some (s', r') \<and> epOK s' \<and> ep_memorySize s' = ep_memorySize s
    \<and> endpointMap s' = endpointMap s \<and> reverseEndpointMap s' = reverseEndpointMap s
    \<and> (\<forall>d e. epAge s' d e = (if (e, d) \<in> set ps then agePresence 1 (epAge s d e) else epAge s d e))
    \<and> (r' \<longleftrightarrow> r \<or> (\<exists>(e, d) \<in> set ps. addrIsPublic (Address (IPAndPort e)) \<and> epAge s d e = Historical 1))"
  using assms
proof (induction ps arbitrary: s r)
  case Nil
  then show ?case by simp
next
  case (Cons p ps)
  obtain ep dep where p: "p = (ep, dep)" by (cases p)
  have "get2 (historicalEndpoints s) ep dep \<noteq> None"
    using Cons.prems(3) epAge_history [OF Cons.prems(1), of ep dep] p by simp
  from tickEP_spec [OF Cons.prems(1) this] obtain s1 removed where
    s1: "tickEP ep dep s = Some (s1, removed)" "epOK s1" "ep_memorySize s1 = ep_memorySize s"
      "endpointMap s1 = endpointMap s" "reverseEndpointMap s1 = reverseEndpointMap s"
    and age: "\<And>d e. epAge s1 d e = (if e = ep \<and> d = dep then agePresence 1 (epAge s d e) else epAge s d e)"
    and removed: "removed \<longleftrightarrow> epAge s dep ep = Historical 1" by blast
  have fresh: "(ep, dep) \<notin> set ps" using Cons.prems(2) p by simp
  have same: "epAge s1 d e = epAge s d e" if "(e, d) \<in> set ps" for d e
    using that fresh by (auto simp: age)
  have later: "\<forall>(ep, dep) \<in> set ps. epAge s1 dep ep \<noteq> Absent" using Cons.prems(3) same by fastforce
  let ?r = "r \<or> removed \<and> addrIsPublic (Address (IPAndPort ep))"
  have "distinct ps" using Cons.prems(2) by simp
  from Cons.IH [OF s1(2) this later, of ?r] obtain s' r' where
    s': "tickEndpoints ps ?r s1 = Some (s', r')" "epOK s'" "ep_memorySize s' = ep_memorySize s1"
      "endpointMap s' = endpointMap s1" "reverseEndpointMap s' = reverseEndpointMap s1"
    and age': "\<And>d e. epAge s' d e = (if (e, d) \<in> set ps then agePresence 1 (epAge s1 d e) else epAge s1 d e)"
    and r': "r' \<longleftrightarrow> ?r \<or> (\<exists>(e, d) \<in> set ps. addrIsPublic (Address (IPAndPort e)) \<and> epAge s1 d e = Historical 1)"
    by blast
  have run: "tickEndpoints (p # ps) r s = Some (s', r')" unfolding p tickEndpoints_Cons s1(1) by (simp add: s'(1))
  have "epAge s' d e = (if (e, d) \<in> set (p # ps) then agePresence 1 (epAge s d e) else epAge s d e)" for d e
    unfolding age' age using fresh p by auto
  moreover have "(\<exists>(e, d) \<in> set ps. addrIsPublic (Address (IPAndPort e)) \<and> epAge s1 d e = Historical 1) \<longleftrightarrow>
      (\<exists>(e, d) \<in> set ps. addrIsPublic (Address (IPAndPort e)) \<and> epAge s d e = Historical 1)"
    by (rule bex_cong [OF refl]) (auto simp: same)
  then have "r' \<longleftrightarrow> r \<or> (\<exists>(e, d) \<in> set (p # ps). addrIsPublic (Address (IPAndPort e)) \<and> epAge s d e = Historical 1)"
    unfolding r' removed p by auto
  ultimately show ?case using run s' s1 by simp
qed

lemma epRecordTick_spec:
  assumes "epOK s"
  shows "\<exists>s' r. epRecordTick s = Some (s', r) \<and> epOK s' \<and> ep_memorySize s' = ep_memorySize s
    \<and> endpointMap s' = endpointMap s \<and> reverseEndpointMap s' = reverseEndpointMap s
    \<and> (\<forall>dep ep. epAge s' dep ep = agePresence 1 (epAge s dep ep))
    \<and> (r \<longleftrightarrow> (\<exists>ep dep. addrIsPublic (Address (IPAndPort ep)) \<and> epAge s dep ep = Historical 1))"
proof -
  let ?ps = "pairs2 (historicalEndpoints s)"
  have wf: "wf2 (historicalEndpoints s)" by (rule histOKD(1) [OF epOKD(2) [OF assms]])
  have ps: "(ep, dep) \<in> set ?ps \<longleftrightarrow> epAge s dep ep \<noteq> Absent" for ep dep
    using set_pairs2 [OF wf, of ep dep] epAge_history [OF assms, of ep dep] by simp
  have "\<forall>(ep, dep) \<in> set ?ps. epAge s dep ep \<noteq> Absent" using ps by blast
  from tickEndpoints_spec [OF assms distinct_pairs2 [OF wf] this, of False] obtain s' r where
    s': "epRecordTick s = Some (s', r)" "epOK s'" "ep_memorySize s' = ep_memorySize s"
      "endpointMap s' = endpointMap s" "reverseEndpointMap s' = reverseEndpointMap s"
    and age: "\<And>d e. epAge s' d e = (if (e, d) \<in> set ?ps then agePresence 1 (epAge s d e) else epAge s d e)"
    and r: "r \<longleftrightarrow> (\<exists>(e, d) \<in> set ?ps. addrIsPublic (Address (IPAndPort e)) \<and> epAge s d e = Historical 1)"
    by (auto simp: epRecordTick_def)
  have "epAge s' dep ep = agePresence 1 (epAge s dep ep)" for dep ep
    unfolding age using ps [of ep dep] by (cases "epAge s dep ep") simp_all
  moreover have "r \<longleftrightarrow> (\<exists>ep dep. addrIsPublic (Address (IPAndPort ep)) \<and> epAge s dep ep = Historical 1)"
    unfolding r using ps by force
  ultimately show ?thesis using s' by blast
qed

subsection \<open>Runs of the store of endpoints\<close>

definition wfUpdates :: "updates \<Rightarrow> bool" where
  "wfUpdates us \<longleftrightarrow> (\<forall>(dep, ed) \<in> set us. case ed of None \<Rightarrow> True | Some d \<Rightarrow> wf_map (endpoints d))"

lemma wfUpdates_Cons:
  "wfUpdates ((dep, ed) # us) \<longleftrightarrow> (case ed of None \<Rightarrow> True | Some d \<Rightarrow> wf_map (endpoints d)) \<and> wfUpdates us"
  by (simp add: wfUpdates_def)

lemma replaceOne_delete: "isDeleteOnly ed \<Longrightarrow> replaceOne dep ed s = epPurge dep s"
  by (simp add: replaceOne_def)

lemma replaceOne_OK:
  assumes "epOK s" "case ed of None \<Rightarrow> True | Some d \<Rightarrow> wf_map (endpoints d)"
  shows "epOK (replaceOne dep ed s) \<and> ep_memorySize (replaceOne dep ed s) = ep_memorySize s"
proof (cases "isDeleteOnly ed")
  case True
  then show ?thesis by (simp add: replaceOne_delete epPurge_spec(1,2) [OF assms(1)])
next
  case False
  then obtain d where "ed = Some d" using isDeleteOnly_Some by blast
  with assms False show ?thesis by (simp add: replaceOne_spec(1,2))
qed

lemma replaceAll_OK:
  "epOK s \<Longrightarrow> wfUpdates us \<Longrightarrow> epOK (fold (\<lambda>(dep, ed). replaceOne dep ed) us s)
    \<and> ep_memorySize (fold (\<lambda>(dep, ed). replaceOne dep ed) us s) = ep_memorySize s"
proof (induction us arbitrary: s)
  case (Cons p us)
  obtain dep ed where p: "p = (dep, ed)" by (cases p)
  have wf: "case ed of None \<Rightarrow> True | Some d \<Rightarrow> wf_map (endpoints d)" "wfUpdates us"
    using Cons.prems(2) unfolding p wfUpdates_Cons by simp_all
  note step = replaceOne_OK [OF Cons.prems(1) wf(1), of dep]
  from Cons.IH [OF conjunct1 [OF step] wf(2)] step show ?case by (simp add: p)
qed simp

lemma addAll_OK:
  "epOK s \<Longrightarrow> wfUpdates us \<Longrightarrow> epOK (applyUpdates epApplySingle us s)
    \<and> ep_memorySize (applyUpdates epApplySingle us s) = ep_memorySize s"
proof (induction us arbitrary: s)
  case Nil
  then show ?case by (simp add: applyUpdates_def)
next
  case (Cons p us)
  obtain dep ed where p: "p = (dep, ed)" by (cases p)
  let ?s = "if isDeleteOnly ed then s else epApplySingle dep (the ed) s"
  have run: "applyUpdates epApplySingle (p # us) s = applyUpdates epApplySingle us ?s" by (simp add: applyUpdates_def p)
  have wf: "case ed of None \<Rightarrow> True | Some d \<Rightarrow> wf_map (endpoints d)" "wfUpdates us"
    using Cons.prems(2) unfolding p wfUpdates_Cons by simp_all
  have step: "epOK ?s \<and> ep_memorySize ?s = ep_memorySize s"
  proof (cases "isDeleteOnly ed")
    case False
    then obtain d where d: "ed = Some d" using isDeleteOnly_Some by blast
    have "wf_map (endpoints d)" using wf(1) by (simp add: d)
    from epApplySingle_spec(1,2) [OF Cons.prems(1) this, of dep] False show ?thesis by (simp add: d)
  qed (simp add: Cons.prems(1))
  from Cons.IH [OF conjunct1 [OF step] wf(2)] step show ?case unfolding run by simp
qed

lemma epApply_OK:
  "epOK s \<Longrightarrow> wfUpdates us \<Longrightarrow> epOK (epApply us incremental s) \<and> ep_memorySize (epApply us incremental s) = ep_memorySize s"
  using replaceAll_OK [of s us] addAll_OK [of s us] by (simp add: epApply_def)

lemma addAllToHistory:
  assumes "epOK s" "epHistoryEnabled s"
  shows "epOK (fold (\<lambda>(ep, dep). epAddToHistory dep ep) ps s)
    \<and> ep_memorySize (fold (\<lambda>(ep, dep). epAddToHistory dep ep) ps s) = ep_memorySize s
    \<and> (\<forall>dep ep. epAge (fold (\<lambda>(ep, dep). epAddToHistory dep ep) ps s) dep ep =
         (if (ep, dep) \<in> set ps then Historical (ep_memorySize s) else epAge s dep ep))"
  using assms
proof (induction ps arbitrary: s)
  case (Cons p ps)
  obtain ep dep where p: "p = (ep, dep)" by (cases p)
  have on: "epHistoryEnabled (epAddToHistory dep ep s)" using Cons.prems(2) by (simp add: epHistoryEnabled_def)
  from Cons.IH [OF epAddToHistory_OK [OF Cons.prems, of dep ep] on] show ?case
    by (simp add: p epAddToHistory_age)
qed simp

lemma epHistory_off: "epOK s \<Longrightarrow> \<not> epHistoryEnabled s \<Longrightarrow> epAge s dep ep = Absent"
  using histOKD(4) [OF epOKD(2), of s dep ep]
  by (cases "get2 (reverseHistoricalEndpoints s) dep ep") (auto simp: epAge_def epHistoryEnabled_def)

lemma epResetMaps_spec:
  assumes "epOK s"
  shows "epOK (epResetMaps s)" "ep_memorySize (epResetMaps s) = ep_memorySize s" "epCur (epResetMaps s) ep dep = None"
    "epAge (epResetMaps s) dep ep = (if epCur s ep dep \<noteq> None then aged s (epAge s dep ep) else epAge s dep ep)"
proof -
  let ?t = "fold (\<lambda>(ep, dep). epAddToHistory dep ep) (pairs2 (endpointMap s)) s"
  have ps: "(e, d) \<in> set (pairs2 (endpointMap s)) \<longleftrightarrow> epCur s e d \<noteq> None" for e d
    using set_pairs2 [OF curOKD(1) [OF epOKD(1) [OF assms]], of e d] by (simp add: epCur_def)
  show cur: "epCur (epResetMaps s) ep dep = None" by (simp add: epCur_def epResetMaps_def)
  have "epOK (epResetMaps s) \<and> ep_memorySize (epResetMaps s) = ep_memorySize s
    \<and> epAge (epResetMaps s) dep ep = (if epCur s ep dep \<noteq> None then aged s (epAge s dep ep) else epAge s dep ep)"
  proof (cases "epHistoryEnabled s")
    case True
    then have mem: "ep_memorySize s \<noteq> 0" by (auto simp: epHistoryEnabled_def)
    note t = addAllToHistory [OF assms True, of "pairs2 (endpointMap s)"]
    have run: "epResetMaps s = ?t\<lparr>endpointMap := [], reverseEndpointMap := []\<rparr>" using True by (simp add: epResetMaps_def)
    have "epAge (epResetMaps s) dep ep = epAge ?t dep ep" unfolding run by (simp add: epAge_def)
    moreover have "epAge ?t dep ep = (if epCur s ep dep \<noteq> None then Historical (ep_memorySize s) else epAge s dep ep)"
      using t unfolding ps by blast
    moreover have tmem: "ep_memorySize ?t = ep_memorySize s" and tOK: "epOK ?t" using t by blast+
    moreover have "epOK (epResetMaps s)" using epOKD(2) [OF tOK] unfolding run by (simp add: epOK_def)
    moreover have "ep_memorySize (epResetMaps s) = ep_memorySize s" unfolding run using tmem by simp
    ultimately show ?thesis using mem by (simp only: aged_def if_False refl simp_thms)
  next
    case False
    then have mem: "ep_memorySize s = 0" by (simp add: epHistoryEnabled_def word_gt_0)
    have "epAge (epResetMaps s) dep ep = Absent" using False by (simp add: epAge_def epResetMaps_def)
    then show ?thesis using False mem epHistory_off [OF assms False, of dep ep]
      by (simp add: epResetMaps_def epOK_def aged_def)
  qed
  then show "epOK (epResetMaps s)" "ep_memorySize (epResetMaps s) = ep_memorySize s"
    "epAge (epResetMaps s) dep ep = (if epCur s ep dep \<noteq> None then aged s (epAge s dep ep) else epAge s dep ep)"
    by blast+
qed

lemma newEndpoints_OK: "epOK (newEndpointsStoreWithMemory mem)"
  by (simp add: epOK_def newEndpointsStoreWithMemory_def)

inductive epReach :: "16 word \<Rightarrow> endpointsStore \<Rightarrow> bool" for mem where
  start: "epReach mem (newEndpointsStoreWithMemory mem)"
| update: "epReach mem s \<Longrightarrow> wfUpdates us \<Longrightarrow> epReach mem (epApply us incremental s)"
| tick: "epReach mem s \<Longrightarrow> epRecordTick s = Some (s', removed) \<Longrightarrow> epReach mem s'"
| reset: "epReach mem s \<Longrightarrow> epReach mem (epResetMaps s)"

lemma epReach_OK: "epReach mem s \<Longrightarrow> epOK s \<and> ep_memorySize s = mem"
proof (induction rule: epReach.induct)
  case start
  show ?case by (simp add: newEndpoints_OK) (simp add: newEndpointsStoreWithMemory_def)
next
  case (update s us incremental)
  then show ?case using epApply_OK by simp
next
  case (tick s s' removed)
  then have "epOK s" by simp
  from epRecordTick_spec [OF this] tick show ?case by fastforce
next
  case (reset s)
  then show ?case using epResetMaps_spec(1,2) by simp
qed

interpretation endpoints: remembering epOK epAge "\<lambda>s. map_option fst (epRecordTick s)"
proof unfold_locales
  fix s assume "epOK s"
  from epRecordTick_spec [OF this]
  show "\<exists>s'. map_option fst (epRecordTick s) = Some s' \<and> epOK s' \<and> (\<forall>d k. epAge s' d k = agePresence 1 (epAge s d k))"
    by fastforce
next
  fix s d k t assume "epOK s" "epAge s d k = Historical t"
  then show "0 < t" using histOKD(4) [OF epOKD(2), of s d k] by (auto simp: epAge_def split: option.splits)
qed

lemma doLookup_entities: "entitiesOf (doLookupEndpoint m) = EntityForDeployment ` set (mkeys m)"
  by (simp add: doLookupEndpoint_def entitiesOf_def image_image case_prod_beta)

lemma epCur_keys: "set (mkeys (inner (endpointMap s) ep)) = {dep. epCur s ep dep \<noteq> None}"
  unfolding epCur_def using inner_keys [of _ "endpointMap s" ep] by auto

lemma epAge_keys: "epOK s \<Longrightarrow> set (mkeys (inner (historicalEndpoints s) ep)) = {dep. epAge s dep ep \<noteq> Absent}"
  using inner_keys [of _ "historicalEndpoints s" ep] epAge_history [of s ep] by auto

definition endpointUpdate :: "(NumericEndpoint, EndpointTargetInfo list) gomap \<Rightarrow> EntityData" where
  "endpointUpdate eps = \<lparr>ips = [], endpoints = eps, containerIDs = None\<rparr>"

lemma endpointUpdate_simps [simp]:
  "endpoints (endpointUpdate eps) = eps" "isDeleteOnly (Some (endpointUpdate eps)) \<longleftrightarrow> eps = []"
  by (simp_all add: endpointUpdate_def isDeleteOnly_def containersOf_def)

definition exampleEndpoint :: NumericEndpoint where
  "exampleEndpoint = MakeNumericEndpoint (Some (Ipv4data [8, 8, 8, 8])) 80 6"

definition exampleTargets :: "EndpointTargetInfo list" where
  "exampleTargets = [\<lparr>ContainerPort = 8080, PortName = ''http''\<rparr>]"

lemma epApply_single: "epApply [(dep, ed)] False s = replaceOne dep ed s"
  by (simp add: epApply_def)

text \<open>
  C16. The comparison that lets a complete update skip a deployment is exact for updates that do not repeat a target of an
  endpoint: with its table of hints and its counting of elements it says that nothing changes exactly if a
  known deployment has the endpoints of the update, each with the targets of the update, or if an unknown
  one gets no endpoint. (Updates that repeat a target always count as changed.)\<close>

theorem unchanged_endpoints_correct:
  assumes "epReach mem s" "wf_map new" "\<forall>infos \<in> set (map snd new). distinct infos"
  shows "endpointsUnchanged dep new s \<longleftrightarrow>
    (if epKnown s dep then (\<forall>ep. epCur s ep dep = map_option set (mget new ep)) else new = [])"
proof -
  have "distinct infos" if "mget new ep = Some infos" for ep infos
    using map_of_SomeD [OF that] assms(3) by force
  then have "\<forall>ep infos. mget new ep = Some infos \<longrightarrow> distinct infos" by blast
  then show ?thesis
    using endpointsUnchanged_iff [OF conjunct1 [OF epReach_OK [OF assms(1)]] assms(2), of dep] by simp
qed

lemma unchanged_endpoints_correct_witness:
  "let eps = [(exampleEndpoint, exampleTargets)];
       s = epApply [(''A'', Some (endpointUpdate eps))] False (newEndpointsStoreWithMemory 2)
   in endpointsUnchanged ''A'' eps s \<and> \<not> endpointsUnchanged ''A'' [] s"
proof -
  let ?eps = "[(exampleEndpoint, exampleTargets)]"
  let ?s = "epApply [(''A'', Some (endpointUpdate ?eps))] False (newEndpointsStoreWithMemory 2)"
  have reach: "epReach 2 ?s" by (intro epReach.intros) (simp add: wfUpdates_def)
  have s: "epKnown ?s ''A''" "epCur ?s ep ''A'' = map_option set (mget ?eps ep)" for ep
    unfolding epApply_single by (simp_all add: replaceOne_spec [OF newEndpoints_OK])
  have "endpointsUnchanged ''A'' ?eps ?s"
    using unchanged_endpoints_correct [OF reach, of ?eps "''A''"] s by (simp add: exampleTargets_def)
  moreover have "\<not> (\<forall>ep. epCur ?s ep ''A'' = map_option set (mget [] ep))"
    unfolding s(2) by (auto intro!: exI [of _ exampleEndpoint])
  then have "\<not> endpointsUnchanged ''A'' [] ?s"
    using unchanged_endpoints_correct [OF reach, of "[]" "''A''"] s(1) by simp
  ultimately show ?thesis by simp
qed



primrec epTicks :: "nat \<Rightarrow> endpointsStore \<Rightarrow> endpointsStore option" where
  "epTicks 0 s = Some s"
| "epTicks (Suc n) s = Option.bind (map_option fst (epRecordTick s)) (epTicks n)"

lemma ticks_epTicks: "endpoints.ticks n s = epTicks n s"
proof (induction n arbitrary: s)
  case (Suc n)
  have "endpoints.ticks n = epTicks n" by (rule ext) (rule Suc.IH)
  then show ?case by simp
qed simp

lemma lookupEndpoint_results:
  "fst (lookupEndpoint s ep netLookup) = doLookupEndpoint (inner (endpointMap s) ep)"
  "fst (snd (lookupEndpoint s ep netLookup)) =
     doLookupEndpoint (map (\<lambda>(dep, m). (dep, mkeys m)) (inner (historicalEndpoints s) ep))"
  by (simp_all add: lookupEndpoint_def Let_def split_beta)

lemma historical_lookup:
  "epOK s \<Longrightarrow> entitiesOf (fst (snd (lookupEndpoint s ep netLookup))) = EntityForDeployment ` {dep. epAge s dep ep \<noteq> Absent}"
  unfolding lookupEndpoint_results doLookup_entities mkeys_map_snd by (simp only: epAge_keys)

lemma current_lookup:
  "entitiesOf (fst (lookupEndpoint s ep netLookup)) = EntityForDeployment ` {dep. epCur s ep dep \<noteq> None}"
  unfolding lookupEndpoint_results doLookup_entities by (simp only: epCur_keys)

text \<open>
  C38. Under a memory of \<open>m\<close> ticks an endpoint that a complete update takes from a deployment is found in the
  history exactly for fewer than \<open>m\<close> ticks, and no tick fails.\<close>

theorem removed_endpoint_is_remembered:
  assumes "epReach mem s" "epCur s ep dep \<noteq> None" "\<not> isDeleteOnly (Some d)" "wf_map (endpoints d)"
    "mget (endpoints d) ep = None"
  shows "\<exists>s'. epTicks n (epApply [(dep, Some d)] False s) = Some s' \<and>
    (EntityForDeployment dep \<in> entitiesOf (fst (snd (lookupEndpoint s' ep netLookup))) \<longleftrightarrow> n < unat mem)"
proof -
  have inj: "EntityForDeployment d = EntityForDeployment d' \<longleftrightarrow> d = d'" for d d'
    by (simp add: EntityForDeployment_def)
  have s: "epOK s" "ep_memorySize s = mem" using epReach_OK [OF assms(1)] by simp_all
  let ?s = "epApply [(dep, Some d)] False s"
  note r = replaceOne_spec [OF s(1) assms(3,4), of dep, folded epApply_single]
  have age: "epAge ?s dep ep = (if mem = 0 then Absent else Historical mem)"
    using assms(2,5) s epHistory_off [OF s(1), of dep ep]
    by (auto simp: r(5) replacedAge_def aged_def epHistoryEnabled_def word_gt_0)
  from endpoints.ticks_spec [OF r(1), of n] obtain s' where
    s': "epTicks n ?s = Some s'" "epOK s'" "epAge s' dep ep = agePresence n (epAge ?s dep ep)"
    unfolding ticks_epTicks by blast
  have "epAge s' dep ep \<noteq> Absent \<longleftrightarrow> n < unat mem" unfolding s'(3) age by simp
  then have "EntityForDeployment dep \<in> entitiesOf (fst (snd (lookupEndpoint s' ep netLookup))) \<longleftrightarrow> n < unat mem"
    unfolding historical_lookup [OF s'(2)] by (auto simp: inj)
  with s'(1) show ?thesis by blast
qed

lemma removed_endpoint_is_remembered_witness:
  "let eps = [(exampleEndpoint, exampleTargets)]; other = [(MakeNumericEndpoint None 81 6, exampleTargets)];
       s = epApply [(''A'', Some (endpointUpdate eps))] False (newEndpointsStoreWithMemory 2)
   in \<exists>s'. epTicks 1 (epApply [(''A'', Some (endpointUpdate other))] False s) = Some s' \<and>
        EntityForDeployment ''A'' \<in> entitiesOf (fst (snd (lookupEndpoint s' exampleEndpoint (newPodIPsStoreWithMemory 2))))"
proof -
  let ?eps = "[(exampleEndpoint, exampleTargets)]"
  let ?other = "[(MakeNumericEndpoint None 81 6, exampleTargets)]"
  let ?s = "epApply [(''A'', Some (endpointUpdate ?eps))] False (newEndpointsStoreWithMemory 2)"
  have reach: "epReach 2 ?s" by (intro epReach.intros) (simp add: wfUpdates_def)
  have A: "epCur ?s exampleEndpoint ''A'' \<noteq> None"
    unfolding epApply_single by (simp add: replaceOne_spec [OF newEndpoints_OK])
  have "mget ?other exampleEndpoint = None" by (simp add: exampleEndpoint_def MakeNumericEndpoint_def)
  then show ?thesis
    using removed_endpoint_is_remembered [OF reach A, of "endpointUpdate ?other" 1 "newPodIPsStoreWithMemory 2"] by simp
qed

end
