(* ===== verification/Store_Listeners.thy ===== *)
theory Store_Listeners
  imports Entity_Store_Safety
begin

text \<open>
  The whole store of cluster entities. Every run keeps its parts well-formed, so that no tick fails, and
  every listener that was sent a set of public addresses has exactly those that the store holds.
\<close>

definition storedPublic :: "Store \<Rightarrow> IPAddress set" where
  "storedPublic e = {a. addrIsPublic a \<and>
     ((\<exists>dep. piStatus (st_podIPs e) dep a \<noteq> Absent) \<or>
      (\<exists>ep dep. Address (IPAndPort ep) = a \<and>
         (epCur (st_endpoints e) ep dep \<noteq> None \<or> epAge (st_endpoints e) dep ep \<noteq> Absent)))}"

definition storeOK :: "Store \<Rightarrow> bool" where
  "storeOK e \<longleftrightarrow> piOK (st_podIPs e) \<and> epOK (st_endpoints e)
     \<and> pi_memorySize (st_podIPs e) = st_memorySize e \<and> ep_memorySize (st_endpoints e) = st_memorySize e
     \<and> (\<forall>d. currentSensorEntityData e = Some d \<longrightarrow> wf_map (endpoints d))
     \<and> (\<forall>l as. (l, Some as) \<in> set (publicIPsListeners e) \<longrightarrow> set as = storedPublic e)"

lemma storeOKD:
  assumes "storeOK e"
  shows "piOK (st_podIPs e)" "epOK (st_endpoints e)" "pi_memorySize (st_podIPs e) = st_memorySize e"
    "ep_memorySize (st_endpoints e) = st_memorySize e"
    "currentSensorEntityData e = Some d \<Longrightarrow> wf_map (endpoints d)"
    "(l, Some as) \<in> set (publicIPsListeners e) \<Longrightarrow> set as = storedPublic e"
  using assms unfolding storeOK_def by blast+

lemma storeOKI:
  assumes "piOK (st_podIPs e)" "epOK (st_endpoints e)" "pi_memorySize (st_podIPs e) = st_memorySize e"
    "ep_memorySize (st_endpoints e) = st_memorySize e"
    "\<And>d. currentSensorEntityData e = Some d \<Longrightarrow> wf_map (endpoints d)"
    "\<And>l as. (l, Some as) \<in> set (publicIPsListeners e) \<Longrightarrow> set as = storedPublic e"
  shows "storeOK e"
  using assms unfolding storeOK_def by blast

lemma storedPublic_cong:
  "st_podIPs e' = st_podIPs e \<Longrightarrow> st_endpoints e' = st_endpoints e \<Longrightarrow> storedPublic e' = storedPublic e"
  by (simp add: storedPublic_def)

lemma keys_get2: "wf2 m \<Longrightarrow> k \<in> set (mkeys m) \<longleftrightarrow> (\<exists>l. get2 m k l \<noteq> None)"
  using mget_wf2 [of m k] mget_None_iff [of m k] by metis

lemma keys_noEmpty: "noEmpty m \<Longrightarrow> k \<in> set (mkeys m) \<longleftrightarrow> setAt m k \<noteq> []"
  using noEmpty_mget [of m k] mget_None_iff [of m k] by metis

lemma pod_keys:
  assumes "piOK s"
  shows "a \<in> set (mkeys (ipMap s)) \<or> a \<in> set (mkeys (historicalIPs s)) \<longleftrightarrow> (\<exists>dep. piStatus s dep a \<noteq> Absent)"
proof -
  note ok = piOKD [OF assms]
  have cur: "a \<in> set (mkeys (ipMap s)) \<longleftrightarrow> (\<exists>dep. a \<in> set (setAt (reverseIPMap s) dep))"
    unfolding keys_noEmpty [OF ok(1)] using ok(5) [of _ a] by (cases "setAt (ipMap s) a") auto
  have hist: "a \<in> set (mkeys (historicalIPs s)) \<longleftrightarrow> (\<exists>dep. get2 (historicalIPs s) a dep \<noteq> None)"
    by (rule keys_get2 [OF ok(3)])
  have "piStatus s dep a \<noteq> Absent \<longleftrightarrow>
      a \<in> set (setAt (reverseIPMap s) dep) \<or> get2 (historicalIPs s) a dep \<noteq> None" for dep
    by (cases "get2 (historicalIPs s) a dep") (simp_all add: piStatus_def)
  then show ?thesis unfolding cur hist by blast
qed

lemma endpoint_keys:
  assumes "epOK s"
  shows "ep \<in> set (mkeys (endpointMap s)) \<or> ep \<in> set (mkeys (historicalEndpoints s)) \<longleftrightarrow>
    (\<exists>dep. epCur s ep dep \<noteq> None \<or> epAge s dep ep \<noteq> Absent)"
proof -
  have "get2 (endpointMap s) ep dep \<noteq> None \<longleftrightarrow> epCur s ep dep \<noteq> None" for dep by (simp add: epCur_def)
  then show ?thesis
    unfolding keys_get2 [OF curOKD(1) [OF epOKD(1) [OF assms]]] keys_get2 [OF histOKD(1) [OF epOKD(2) [OF assms]]]
      epAge_history [OF assms] by blast
qed

lemma currentlyStored_correct:
  assumes "piOK (st_podIPs e)" "epOK (st_endpoints e)"
  shows "set (currentlyStoredPublicIPs e) = storedPublic e"
proof -
  let ?s = "st_endpoints e" and ?p = "st_podIPs e"
  have "a \<in> set (currentlyStoredPublicIPs e) \<longleftrightarrow> addrIsPublic a \<and>
     ((\<exists>ep. a = Address (IPAndPort ep) \<and> (ep \<in> set (mkeys (endpointMap ?s)) \<or> ep \<in> set (mkeys (historicalEndpoints ?s))))
      \<or> (a \<in> set (mkeys (ipMap ?p)) \<or> a \<in> set (mkeys (historicalIPs ?p))))" for a
    by (auto simp: currentlyStoredPublicIPs_def Let_def)
  then have "a \<in> set (currentlyStoredPublicIPs e) \<longleftrightarrow> a \<in> storedPublic e" for a
    unfolding storedPublic_def mem_Collect_eq pod_keys [OF assms(1)] endpoint_keys [OF assms(2)]
    by (simp only:) blast
  then show ?thesis by blast
qed

text \<open>Sending the stored addresses to all listeners.\<close>

lemma updatePublicIPRefs_fields [simp]:
  "st_podIPs (updatePublicIPRefs as e) = st_podIPs e" "st_endpoints (updatePublicIPRefs as e) = st_endpoints e"
  "st_memorySize (updatePublicIPRefs as e) = st_memorySize e"
  "st_containerIDs (updatePublicIPRefs as e) = st_containerIDs e"
  "currentSensorEntityData (updatePublicIPRefs as e) = currentSensorEntityData e"
  by (simp_all add: updatePublicIPRefs_def)

lemma updated_listener: "(l, Some as) \<in> set (publicIPsListeners (updatePublicIPRefs bs e)) \<Longrightarrow> as = bs"
  by (auto simp: updatePublicIPRefs_def)

lemma send_stored:
  assumes "piOK (st_podIPs e)" "epOK (st_endpoints e)" "pi_memorySize (st_podIPs e) = st_memorySize e"
    "ep_memorySize (st_endpoints e) = st_memorySize e"
    "\<And>d. currentSensorEntityData e = Some d \<Longrightarrow> wf_map (endpoints d)"
    "set as = storedPublic e"
  shows "storeOK (updatePublicIPRefs as e)"
proof (rule storeOKI)
  fix l bs assume "(l, Some bs) \<in> set (publicIPsListeners (updatePublicIPRefs as e))"
  then have "bs = as" by (rule updated_listener)
  moreover have "storedPublic (updatePublicIPRefs as e) = storedPublic e" by (rule storedPublic_cong) simp_all
  ultimately show "set bs = storedPublic (updatePublicIPRefs as e)" using assms(6) by simp
qed (use assms in simp_all)

text \<open>Changes that concern neither addresses nor listeners.\<close>

lemma storeOK_cong:
  assumes "storeOK e" "st_podIPs e' = st_podIPs e" "st_endpoints e' = st_endpoints e"
    "st_memorySize e' = st_memorySize e" "set (publicIPsListeners e') \<subseteq> set (publicIPsListeners e) \<union> range (\<lambda>l. (l, None))"
    "\<And>d. currentSensorEntityData e' = Some d \<Longrightarrow> wf_map (endpoints d)"
  shows "storeOK e'"
proof (rule storeOKI)
  fix l as assume "(l, Some as) \<in> set (publicIPsListeners e')"
  then have "(l, Some as) \<in> set (publicIPsListeners e)" using assms(5) by auto
  then show "set as = storedPublic e'"
    using storeOKD(6) [OF assms(1)] storedPublic_cong [OF assms(2,3)] by simp
qed (use assms(2-4,6) storeOKD [OF assms(1)] in simp_all)

subsection \<open>Operations\<close>

lemma storeApply_OK:
  assumes "storeOK e" "wfUpdates us"
  shows "storeOK (fst (storeApply us incremental e))"
proof -
  let ?e = "e\<lparr>st_endpoints := epApply us incremental (st_endpoints e), st_podIPs := piApply us incremental (st_podIPs e)\<rparr>"
  note ok = storeOKD [OF assms(1)]
  have parts: "piOK (st_podIPs ?e)" "epOK (st_endpoints ?e)" "pi_memorySize (st_podIPs ?e) = st_memorySize ?e"
    "ep_memorySize (st_endpoints ?e) = st_memorySize ?e"
    using piApply_spec(1,2) [OF ok(1)] epApply_OK [OF ok(2) assms(2)] ok(3,4) by simp_all
  have sent: "storeOK (updatePublicIPRefs (currentlyStoredPublicIPs ?e) ?e)"
    by (rule send_stored [OF parts]) (use ok(5) in simp, rule currentlyStored_correct [OF parts(1,2)])
  have same: "fst (storeApply us incremental e) = (updatePublicIPRefs (currentlyStoredPublicIPs ?e) ?e)
      \<lparr>st_containerIDs := fst (ciApply us incremental (st_containerIDs e))\<rparr>"
    by (simp add: storeApply_def Let_def split_beta)
  show ?thesis unfolding same by (rule storeOK_cong [OF sent]) (use ok(5) in auto)
qed

lemma storeRecordTick_OK:
  assumes "storeOK e"
  shows "\<exists>e'. storeRecordTick e = Some e' \<and> storeOK e'"
proof -
  note ok = storeOKD [OF assms]
  note pi = piRecordTick_spec [OF ok(1)]
  from epRecordTick_spec [OF ok(2)] obtain s' r where
    ep: "epRecordTick (st_endpoints e) = Some (s', r)" "epOK s'" "ep_memorySize s' = ep_memorySize (st_endpoints e)"
      "endpointMap s' = endpointMap (st_endpoints e)"
    and age: "\<And>dep ep. epAge s' dep ep = agePresence 1 (epAge (st_endpoints e) dep ep)"
    and r: "r \<longleftrightarrow> (\<exists>ep dep. addrIsPublic (Address (IPAndPort ep)) \<and> epAge (st_endpoints e) dep ep = Historical 1)"
    by blast
  let ?p = "fst (piRecordTick (st_podIPs e))" and ?removed = "snd (piRecordTick (st_podIPs e))"
  let ?e = "e\<lparr>st_podIPs := ?p, st_endpoints := s'\<rparr>"
  let ?e2 = "if ?removed \<or> r then updatePublicIPRefs (currentlyStoredPublicIPs ?e) ?e else ?e"
  have run: "storeRecordTick e = Some (?e2\<lparr>st_containerIDs := ciRecordTick (st_containerIDs ?e2)\<rparr>)"
    by (simp add: storeRecordTick_def ep(1) split_beta Let_def)
  have parts: "piOK (st_podIPs ?e)" "epOK (st_endpoints ?e)" "pi_memorySize (st_podIPs ?e) = st_memorySize ?e"
    "ep_memorySize (st_endpoints ?e) = st_memorySize ?e"
    using pi(1,2) ep(2,3) ok(3,4) by simp_all
  have "storeOK ?e2"
  proof (cases "?removed \<or> r")
    case True
    have "storeOK (updatePublicIPRefs (currentlyStoredPublicIPs ?e) ?e)"
      by (rule send_stored [OF parts]) (use ok(5) in simp, rule currentlyStored_correct [OF parts(1,2)])
    with True show ?thesis by simp
  next
    case False
    have stays: "agePresence 1 x \<noteq> Absent \<longleftrightarrow> x \<noteq> Absent" if "x \<noteq> Historical 1" "\<And>t. x = Historical t \<Longrightarrow> 0 < t" for x
    proof (cases x)
      case (Historical t)
      then have "tickedStatus t \<noteq> None" using that tickedStatus_None [of t] by auto
      with Historical show ?thesis unfolding Historical age_tickedStatus by auto
    qed simp_all
    have pods: "piStatus ?p dep a \<noteq> Absent \<longleftrightarrow> piStatus (st_podIPs e) dep a \<noteq> Absent" if "addrIsPublic a" for dep a
      unfolding pi(3) by (rule stays) (use False that pi(4) pods.alive [OF ok(1)] in auto)
    have eps: "epAge s' dep ep \<noteq> Absent \<longleftrightarrow> epAge (st_endpoints e) dep ep \<noteq> Absent"
      if "addrIsPublic (Address (IPAndPort ep))" for dep ep
      unfolding age by (rule stays) (use False that r endpoints.alive [OF ok(2)] in auto)
    have "epCur s' ep dep = epCur (st_endpoints e) ep dep" for ep dep by (simp add: epCur_def ep(4))
    then have "storedPublic ?e = storedPublic e"
      unfolding storedPublic_def using pods eps by (auto simp: storedPublic_def)
    then have "storeOK ?e" using parts ok(5,6) by (intro storeOKI) simp_all
    with False show ?thesis by simp
  qed
  moreover have "storeOK (?e2\<lparr>st_containerIDs := c\<rparr>)" if "storeOK ?e2" for c
    by (rule storeOK_cong [OF that]) (use storeOKD(5) [OF that] in auto)
  ultimately show ?thesis unfolding run by blast
qed

lemma storeResetMaps_OK:
  assumes "storeOK e"
  shows "storeOK (storeResetMaps e)"
proof -
  note ok = storeOKD [OF assms]
  note pi = piResetMaps_spec [OF ok(1)]
  note ep = epResetMaps_spec [OF ok(2)]
  let ?e = "e\<lparr>st_endpoints := epResetMaps (st_endpoints e), st_podIPs := piResetMaps (st_podIPs e),
                 st_containerIDs := ciResetMaps (st_containerIDs e)\<rparr>"
  have parts: "piOK (st_podIPs ?e)" "epOK (st_endpoints ?e)" "pi_memorySize (st_podIPs ?e) = st_memorySize ?e"
    "ep_memorySize (st_endpoints ?e) = st_memorySize ?e"
    using pi(1,2) ep(1,2) ok(3,4) by simp_all
  show ?thesis
  proof (cases "st_memorySize e = 0")
    case True
    have pods: "demote 0 (piStatus (st_podIPs e) dep a) = Absent" for dep a
      using piOKD(6) [OF ok(1), of a dep] True ok(3)
      by (cases "get2 (historicalIPs (st_podIPs e)) a dep") (auto simp: piStatus_def)
    have "epAge (st_endpoints e) dep ep = Absent" for dep ep
      using epHistory_off [OF ok(2)] True ok(4) by (simp add: epHistoryEnabled_def)
    then have "storedPublic ?e = {}"
      using True pods ok(3,4) by (simp add: storedPublic_def pi(3) ep(3,4) aged_def)
    then have "storeOK (updatePublicIPRefs [] ?e)"
      using parts ok(5) by (intro send_stored) simp_all
    with True show ?thesis by (simp add: storeResetMaps_def Let_def)
  next
    case False
    have pods: "demote (st_memorySize e) x \<noteq> Absent \<longleftrightarrow> x \<noteq> Absent" for x using False by (cases x) simp_all
    have eps: "aged (st_endpoints e) x \<noteq> Absent" for x using False ok(4) by (simp add: aged_def)
    have "storedPublic ?e = storedPublic e"
      unfolding storedPublic_def using pods eps by (auto simp: pi(3) ep(3,4) ok(3))
    then have "storeOK ?e" using parts ok(5,6) by (intro storeOKI) simp_all
    with False show ?thesis by (simp add: storeResetMaps_def Let_def)
  qed
qed

subsection \<open>The heritage\<close>

lemma wf_AddEndpoints: "wf_map (endpoints d) \<Longrightarrow> wf_map (endpoints (fold (AddEndpoint ep) infos d))"
  by (induction infos arbitrary: d) (simp_all add: AddEndpoint_def)

lemma wf_pastEndpoints: "wf_map (endpoints d) \<Longrightarrow> wf_map (endpoints (fold (pastEndpoint a) eps d))"
  by (induction eps arbitrary: d) (simp_all add: pastEndpoint_def wf_AddEndpoints Let_def split_beta)

lemma wf_applyPast:
  "wf_map (endpoints d) \<Longrightarrow> applyPastToEntityData d src past = Some (d', added) \<Longrightarrow> wf_map (endpoints d')"
  by (auto simp: applyPastToEntityData_def Let_def AddIP_def wf_pastEndpoints split: if_splits)

lemma wf_applyPasts:
  "wf_map (endpoints d) \<Longrightarrow> applyPasts src past d c = Some (d', c') \<Longrightarrow> wf_map (endpoints d')"
proof (induction src past d c rule: applyPasts.induct)
  case (2 src entry past d c)
  from 2(3) obtain d1 added where
    step: "applyPastToEntityData d src entry = Some (d1, added)" "applyPasts src past d1 (c \<or> added) = Some (d', c')"
    by (auto simp: bind_eq_Some_conv)
  show ?case by (rule 2(1) [OF step(1) refl wf_applyPast [OF 2(2) step(1)] step(2)])
qed simp

lemma applyHeritageData_OK:
  assumes "storeOK e" "applyHeritageData past e = Some (e', callbacks, ok)"
  shows "storeOK e'"
proof (cases "currentSensorEntityData e")
  case None
  with assms show ?thesis by (simp add: applyHeritageData_def)
next
  case (Some d)
  have wf: "wf_map (endpoints d)" by (rule storeOKD(5) [OF assms(1) Some])
  show ?thesis
  proof (cases "\<not> HasCurrentSensorMetadata e \<or> length past = 0")
    case True
    with assms Some show ?thesis by (simp add: applyHeritageData_def)
  next
    case False
    obtain md changed where md: "applyPasts (endpoints d) past d False = Some (md, changed)"
      using assms(2) False Some by (auto simp: applyHeritageData_def)
    have "wf_map (endpoints md)" by (rule wf_applyPasts [OF wf md])
    then have "storeOK (fst (storeApply [(currentSensorDeploymentID e, Some md)] True e))"
      by (intro storeApply_OK [OF assms(1)]) (simp add: wfUpdates_def)
    moreover have "e' = (if changed then fst (storeApply [(currentSensorDeploymentID e, Some md)] True e) else e)"
      using assms(2) False Some md by (cases changed) (auto simp: applyHeritageData_def split_beta)
    ultimately show ?thesis using assms(1) by simp
  qed
qed

lemma storeOK_heritageApplied: "storeOK e \<Longrightarrow> storeOK (e\<lparr>heritageApplied := True\<rparr>)"
  by (rule storeOK_cong) (auto dest: storeOKD(5))

lemma ApplyDataFromHeritageOnce_OK:
  assumes "storeOK e" "ApplyDataFromHeritageOnce isEnabled past e = Some (e', callbacks)"
  shows "storeOK e'"
proof (cases "heritageApplied e \<or> \<not> isEnabled")
  case True
  with assms show ?thesis
    by (auto simp: ApplyDataFromHeritageOnce_def storeOK_heritageApplied split: if_splits)
next
  case False
  then obtain e1 cs ok where r: "applyHeritageData past e = Some (e1, cs, ok)"
    "e' = (if ok then e1\<lparr>heritageApplied := True\<rparr> else e1)"
    using assms(2) by (auto simp: ApplyDataFromHeritageOnce_def)
  from applyHeritageData_OK [OF assms(1) r(1)] show ?thesis by (simp add: r(2) storeOK_heritageApplied)
qed

subsection \<open>Runs of the store\<close>

inductive storeReach :: "16 word \<Rightarrow> Store \<Rightarrow> bool" for mem where
  start: "storeReach mem (NewEntityStore mem)"
| update: "storeReach mem e \<Longrightarrow> wfUpdates us \<Longrightarrow> storeReach mem (fst (storeApply us incremental e))"
| tick: "storeReach mem e \<Longrightarrow> storeRecordTick e = Some e' \<Longrightarrow> storeReach mem e'"
| reset: "storeReach mem e \<Longrightarrow> storeReach mem (storeResetMaps e)"
| register: "storeReach mem e \<Longrightarrow> storeReach mem (fst (RegisterPublicIPsListener l e))"
| unregister: "storeReach mem e \<Longrightarrow> storeReach mem (fst (UnregisterPublicIPsListener l e))"
| callback: "storeReach mem e \<Longrightarrow> storeReach mem (fst (RegisterContainerMetadataCallbackChannel c e))"
| remember: "storeReach mem e \<Longrightarrow> (\<And>d. ed = Some d \<Longrightarrow> wf_map (endpoints d)) \<Longrightarrow>
    storeReach mem (RememberCurrentSensorMetadata dep ed e)"
| heritage: "storeReach mem e \<Longrightarrow> ApplyDataFromHeritageOnce isEnabled past e = Some (e', callbacks) \<Longrightarrow> storeReach mem e'"

lemma storeReach_OK: "storeReach mem e \<Longrightarrow> storeOK e"
proof (induction rule: storeReach.induct)
  case start
  have "piOK (newPodIPsStoreWithMemory mem)" by (rule conjunct1 [OF piRun_refines [OF piRun.start]])
  with newEndpoints_OK [of mem] show ?case
    by (intro storeOKI) (simp_all add: NewEntityStore_def newPodIPsStoreWithMemory_def newEndpointsStoreWithMemory_def)
next
  case (update e us incremental)
  then show ?case by (simp add: storeApply_OK)
next
  case (tick e e')
  from storeRecordTick_OK [OF tick(3)] tick(2) show ?case by simp
next
  case (reset e)
  show ?case by (rule storeResetMaps_OK [OF reset.IH])
next
  case (register e l)
  show ?case
    by (rule storeOK_cong [OF register.IH])
      (use set_mput_subset [of l None "publicIPsListeners e"] storeOKD(5) [OF register.IH] in \<open>auto simp: RegisterPublicIPsListener_def split: if_splits\<close>)
next
  case (unregister e l)
  show ?case
    by (rule storeOK_cong [OF unregister.IH])
      (use set_mdel_subset [of l "publicIPsListeners e"] storeOKD(5) [OF unregister.IH] in \<open>auto simp: UnregisterPublicIPsListener_def\<close>)
next
  case (callback e c)
  show ?case
    by (rule storeOK_cong [OF callback.IH])
      (use storeOKD(5) [OF callback.IH] in \<open>auto simp: RegisterContainerMetadataCallbackChannel_def\<close>)
next
  case (remember e ed dep)
  show ?case
    by (rule storeOK_cong [OF remember.IH]) (use remember.hyps(2) in \<open>auto simp: RememberCurrentSensorMetadata_def\<close>)
next
  case (heritage e isEnabled past e' callbacks)
  then show ?case using ApplyDataFromHeritageOnce_OK by blast
qed


definition publicAddress :: IPAddress where
  "publicAddress = Some (Ipv4data [8, 8, 8, 8])"


text \<open>
  No tick of a reachable store runs into a missing entry of its maps: a tick always returns, and the
  memory of every removed address and endpoint gets one tick shorter.\<close>

theorem store_ticks_never_fail:
  assumes "storeReach mem e"
  shows "\<exists>e'. storeRecordTick e = Some e' \<and>
    (\<forall>dep a. piStatus (st_podIPs e') dep a = agePresence 1 (piStatus (st_podIPs e) dep a)) \<and>
    (\<forall>dep ep. epAge (st_endpoints e') dep ep = agePresence 1 (epAge (st_endpoints e) dep ep)
       \<and> epCur (st_endpoints e') ep dep = epCur (st_endpoints e) ep dep)"
proof -
  have ok: "storeOK e" by (rule storeReach_OK [OF assms])
  from storeRecordTick_OK [OF ok] obtain e' where e': "storeRecordTick e = Some e'" by blast
  from epRecordTick_spec [OF storeOKD(2) [OF ok]] obtain s' r where
    ep: "epRecordTick (st_endpoints e) = Some (s', r)" "endpointMap s' = endpointMap (st_endpoints e)"
      "\<And>dep ep. epAge s' dep ep = agePresence 1 (epAge (st_endpoints e) dep ep)" by blast
  have parts: "st_podIPs e' = fst (piRecordTick (st_podIPs e))" "st_endpoints e' = s'"
    using e' by (auto simp: storeRecordTick_def ep(1) split_beta Let_def)
  have "epCur s' x y = epCur (st_endpoints e) x y" for x y by (simp add: epCur_def ep(2))
  then show ?thesis using e' piRecordTick_spec(3) [OF storeOKD(1) [OF ok]] by (simp add: parts ep(3))
qed

lemma store_ticks_never_fail_witness:
  "storeRecordTick (storeResetMaps (fst (storeApply [(''A'', Some (endpointUpdate [(exampleEndpoint, exampleTargets)]))]
     False (NewEntityStore 2)))) \<noteq> None"
proof -
  have "storeReach 2 (storeResetMaps (fst (storeApply [(''A'', Some (endpointUpdate [(exampleEndpoint, exampleTargets)]))]
     False (NewEntityStore 2))))"
    by (rule storeReach.reset, rule storeReach.update, rule storeReach.start) (simp add: wfUpdates_def)
  from store_ticks_never_fail [OF this] show ?thesis by blast
qed

text \<open>
  A lookup of an endpoint gives the deployments that have it or are remembered to have had it; only if
  there are none, it gives those that have its address or are remembered to have had it.\<close>

theorem LookupByEndpoint_correct:
  assumes "storeReach mem e"
  defines "atEndpoint \<equiv> \<lambda>ep. {dep. epCur (st_endpoints e) ep dep \<noteq> None \<or> epAge (st_endpoints e) dep ep \<noteq> Absent}"
  shows "entitiesOf (LookupByEndpoint e ep) = EntityForDeployment `
    (if atEndpoint ep \<noteq> {} then atEndpoint ep
     else {dep. piStatus (st_podIPs e) dep (Address (IPAndPort ep)) \<noteq> Absent})"
proof -
  note ok = storeOKD [OF storeReach_OK [OF assms(1)]]
  let ?a = "Address (IPAndPort ep)" and ?p = "Port (IPAndPort ep)"
  obtain cur hist ipCur ipHist where l: "lookupEndpoint (st_endpoints e) ep (st_podIPs e) = (cur, hist, ipCur, ipHist)"
    by (cases "lookupEndpoint (st_endpoints e) ep (st_podIPs e)")
  have cur: "entitiesOf cur = EntityForDeployment ` {dep. epCur (st_endpoints e) ep dep \<noteq> None}"
    using current_lookup [of "st_endpoints e" ep "st_podIPs e"] by (simp add: l)
  have hist: "entitiesOf hist = EntityForDeployment ` {dep. epAge (st_endpoints e) dep ep \<noteq> Absent}"
    using historical_lookup [OF ok(2), of ep "st_podIPs e"] by (simp add: l)
  have app: "entitiesOf (xs @ ys) = entitiesOf xs \<union> entitiesOf ys" for xs ys by (simp add: entitiesOf_def image_Un)
  have none: "entitiesOf xs = {} \<longleftrightarrow> xs = []" for xs by (simp add: entitiesOf_def)
  have both: "entitiesOf (cur @ hist) = EntityForDeployment ` atEndpoint ep"
    unfolding app cur hist atEndpoint_def by blast
  show ?thesis
  proof (cases "atEndpoint ep = {}")
    case False
    then have "0 < length cur + length hist" using both none [of "cur @ hist"] by auto
    with False show ?thesis using both by (simp add: LookupByEndpoint_def l)
  next
    case True
    then have e0: "cur = []" "hist = []" using both none [of "cur @ hist"] by simp_all
    have pods: "ipCur = fst (LookupByNetAddr (st_podIPs e) ?a ?p)" "ipHist = snd (LookupByNetAddr (st_podIPs e) ?a ?p)"
      using l e0 by (auto simp: lookupEndpoint_def Let_def split_beta split: if_splits)
    have "entitiesOf (ipHist @ ipCur) = EntityForDeployment ` {dep. piStatus (st_podIPs e) dep ?a \<noteq> Absent}"
      unfolding app pods LookupByNetAddr_status [OF ok(1)]
      by (auto intro!: imageI) (metis (mono_tags, lifting) image_eqI mem_Collect_eq presence.exhaust)
    moreover have "LookupByEndpoint e ep = ipHist @ ipCur" by (auto simp: LookupByEndpoint_def l e0)
    ultimately show ?thesis using True by simp
  qed
qed

lemma LookupByEndpoint_correct_witness:
  "let e = fst (storeApply [(''A'', podUpdate [publicAddress])] False (NewEntityStore 2))
   in EntityForDeployment ''A'' \<in> entitiesOf (LookupByEndpoint e exampleEndpoint)"
proof -
  let ?us = "[(''A'', podUpdate [publicAddress])]"
  let ?e = "fst (storeApply ?us False (NewEntityStore 2))"
  have reach: "storeReach 2 ?e"
    by (rule storeReach.update, rule storeReach.start) (simp add: wfUpdates_def podUpdate_def)
  have "st_endpoints ?e = markSeen ''A'' (newEndpointsStoreWithMemory 2)"
    by (simp add: storeApply_def NewEntityStore_def Let_def split_beta epApply_def replaceOne_def isDeleteOnly_def
        podUpdate_def endpointsUnchanged_def newEndpointsStoreWithMemory_def)
  then have none: "epCur (st_endpoints ?e) ep dep = None" "epAge (st_endpoints ?e) dep ep = Absent" for ep dep
    using markSeen_spec(3,4) [OF newEndpoints_OK [of 2], of "''A''"]
    by (simp_all add: epCur_def epAge_def newEndpointsStoreWithMemory_def)
  have new: "piOK (newPodIPsStoreWithMemory 2)" by (rule conjunct1 [OF piRun_refines [OF piRun.start]])
  have "st_podIPs ?e = piApply ?us False (newPodIPsStoreWithMemory 2)"
    by (simp add: storeApply_def NewEntityStore_def Let_def split_beta)
  then have "piStatus (st_podIPs ?e) ''A'' publicAddress = Current"
    by (simp add: piApply_spec(3) [OF new] applyPresence_def updatedIPs_def podUpdate_def)
  then have "piStatus (st_podIPs ?e) ''A'' (Address (IPAndPort exampleEndpoint)) \<noteq> Absent"
    by (simp add: exampleEndpoint_def MakeNumericEndpoint_def publicAddress_def)
  then show ?thesis using LookupByEndpoint_correct [OF reach, of exampleEndpoint] by (simp add: none Let_def)
qed

end
