(* ===== verification/Alert_Manager.thy ===== *)
theory Alert_Manager
  imports Sac_Query Event_Deduper
begin

text \<open>
  Central's alert manager (\<open>central/detection/alertmanager\<close>). Incoming alerts are matched with the keys of
  stored ones, merged with them or added, and stored alerts that are no longer produced are resolved.

  The content of an alert that the manager only copies and compares has the type \<open>'x\<close>. A timestamp is
  the time since the epoch, or nil, which reads as the epoch. The datastore is a record of its methods,
  which read and change a state \<open>'s\<close>; the notifier is the list of the alerts it was given. An alert
  extends the part of it that the deduper of events looks at. Alerts are values: the code changes an
  incoming alert in place, but matching does not depend on what it changes. Metrics are left out.
\<close>

subsection \<open>Alerts\<close>

type_synonym timestamp = "int option"

definition asTime :: "timestamp \<Rightarrow> int" where
  "asTime t = (case t of None \<Rightarrow> 0 | Some n \<Rightarrow> n)"

definition CompareTimestamps :: "timestamp \<Rightarrow> timestamp \<Rightarrow> int" where
  "CompareTimestamps t1 t2 = (if asTime t1 < asTime t2 then -1 else if asTime t1 = asTime t2 then 0 else 1)"

text \<open>The second argument is a \<open>*time.Time\<close>, which is converted back to a timestamp.\<close>

definition CompareTimestampToTime :: "timestamp \<Rightarrow> timestamp \<Rightarrow> int" where
  "CompareTimestampToTime t1 t2 = CompareTimestamps t1 t2"

datatype ResourceType = UNKNOWN_RESOURCE | SECRETS | CONFIGMAPS | CLUSTER_ROLES | CLUSTER_ROLE_BINDINGS
  | NETWORK_POLICIES | SECURITY_CONTEXT_CONSTRAINTS | EGRESS_FIREWALLS
datatype ViolationType = GENERIC | K8S_EVENT | NETWORK_FLOW | NETWORK_POLICY | FILE_ACCESS

fun stageString :: "LifecycleStage \<Rightarrow> string" where
  "stageString DEPLOY = ''DEPLOY''"
| "stageString BUILD = ''BUILD''"
| "stageString RUNTIME = ''RUNTIME''"

fun stateString :: "ViolationState \<Rightarrow> string" where
  "stateString ACTIVE = ''ACTIVE''"
| "stateString RESOLVED = ''RESOLVED''"
| "stateString ATTEMPTED = ''ATTEMPTED''"

fun resourceTypeString :: "ResourceType \<Rightarrow> string" where
  "resourceTypeString UNKNOWN_RESOURCE = ''UNKNOWN''"
| "resourceTypeString SECRETS = ''SECRETS''"
| "resourceTypeString CONFIGMAPS = ''CONFIGMAPS''"
| "resourceTypeString CLUSTER_ROLES = ''CLUSTER_ROLES''"
| "resourceTypeString CLUSTER_ROLE_BINDINGS = ''CLUSTER_ROLE_BINDINGS''"
| "resourceTypeString NETWORK_POLICIES = ''NETWORK_POLICIES''"
| "resourceTypeString SECURITY_CONTEXT_CONSTRAINTS = ''SECURITY_CONTEXT_CONSTRAINTS''"
| "resourceTypeString EGRESS_FIREWALLS = ''EGRESS_FIREWALLS''"

text \<open>A violation's file access, if it has one, is the time of the access; the rest is \<open>'x\<close>.\<close>

record 'x Violation =
  vi_Type :: ViolationType
  FileAccess :: "timestamp option"
  vi_rest :: 'x

record 'x ProcessIndicator =
  ExecFilePath :: string
  Args :: string
  Uid :: int
  pi_Time :: timestamp
  pi_rest :: 'x

record 'x ProcessViolation =
  pv_Message :: string
  Processes :: "'x ProcessIndicator list"

record 'x AlertDeployment =
  de_Id :: string
  Inactive :: bool
  de_rest :: 'x

record 'x AlertResource =
  re_ResourceType :: ResourceType
  re_Name :: string
  re_ClusterId :: string
  re_Namespace :: string
  re_rest :: 'x

record 'x AlertNode =
  no_Id :: string
  no_Name :: string
  no_ClusterId :: string
  no_rest :: 'x

datatype 'x AlertEntity = NoEntity | OnDeployment "'x AlertDeployment" | OnImage 'x
  | OnResource "'x AlertResource" | OnNode "'x AlertNode"

record 'x StorageAlert = Alert +
  al_Id :: string
  al_PolicyId :: string
  al_Policy :: 'x
  al_ClusterId :: string
  al_Namespace :: string
  al_Entity :: "'x AlertEntity"
  Violations :: "'x Violation list"
  al_ProcessViolation :: "'x ProcessViolation option"
  Enforcement :: "'x option"
  Time :: timestamp
  FirstOccurred :: timestamp
  ResolvedAt :: timestamp
  al_rest :: 'x

definition GetDeployment :: "'x StorageAlert \<Rightarrow> 'x AlertDeployment option" where
  "GetDeployment a = (case al_Entity a of OnDeployment d \<Rightarrow> Some d | _ \<Rightarrow> None)"

definition GetResource :: "'x StorageAlert \<Rightarrow> 'x AlertResource option" where
  "GetResource a = (case al_Entity a of OnResource r \<Rightarrow> Some r | _ \<Rightarrow> None)"

definition GetNode :: "'x StorageAlert \<Rightarrow> 'x AlertNode option" where
  "GetNode a = (case al_Entity a of OnNode n \<Rightarrow> Some n | _ \<Rightarrow> None)"

definition GetProcesses :: "'x StorageAlert \<Rightarrow> 'x ProcessIndicator list" where
  "GetProcesses a = (case al_ProcessViolation a of None \<Rightarrow> [] | Some pv \<Rightarrow> Processes pv)"

definition setInactive :: "'x StorageAlert \<Rightarrow> 'x StorageAlert" where
  "setInactive a = (case al_Entity a of OnDeployment d \<Rightarrow> a\<lparr>al_Entity := OnDeployment (d\<lparr>Inactive := True\<rparr>)\<rparr> | _ \<Rightarrow> a)"

subsection \<open>Matching\<close>

text \<open>The values of the methods of the interface \<open>AlertMatcher\<close>.\<close>

record AlertMatcher =
  am_Id :: string
  am_PolicyId :: string
  am_State :: ViolationState
  am_LifecycleStage :: LifecycleStage
  HasDeployment :: bool
  am_DeploymentId :: string
  IsDeploymentInactive :: bool
  HasResource :: bool
  am_ResourceType :: ResourceType
  am_ResourceName :: string
  HasNode :: bool
  am_NodeId :: string
  am_NodeName :: string
  am_ClusterId :: string
  am_Namespace :: string

record AlertMatchKey =
  mk_ID :: string
  mk_PolicyID :: string
  mk_State :: ViolationState
  mk_LifecycleStage :: LifecycleStage
  mk_DeploymentID :: "string option"
  mk_DeploymentInactive :: "bool option"
  mk_ResourceType :: "ResourceType option"
  mk_ResourceName :: "string option"
  mk_ClusterID :: "string option"
  mk_Namespace :: "string option"
  mk_NodeID :: "string option"
  mk_NodeName :: "string option"

definition orEmpty :: "string option \<Rightarrow> string" where
  "orEmpty s = (case s of None \<Rightarrow> [] | Some x \<Rightarrow> x)"

definition keyMatcher :: "AlertMatchKey \<Rightarrow> AlertMatcher" where
  "keyMatcher k =
     \<lparr>am_Id = mk_ID k, am_PolicyId = mk_PolicyID k, am_State = mk_State k, am_LifecycleStage = mk_LifecycleStage k,
      HasDeployment = (mk_DeploymentID k \<noteq> None \<and> mk_DeploymentID k \<noteq> Some []),
      am_DeploymentId = orEmpty (mk_DeploymentID k),
      IsDeploymentInactive = (mk_DeploymentInactive k = Some True),
      HasResource = (mk_ResourceName k \<noteq> None \<and> mk_ResourceName k \<noteq> Some []),
      am_ResourceType = (case mk_ResourceType k of None \<Rightarrow> UNKNOWN_RESOURCE | Some t \<Rightarrow> t),
      am_ResourceName = orEmpty (mk_ResourceName k),
      HasNode = (mk_NodeID k \<noteq> None \<and> mk_NodeID k \<noteq> Some []),
      am_NodeId = orEmpty (mk_NodeID k), am_NodeName = orEmpty (mk_NodeName k),
      am_ClusterId = orEmpty (mk_ClusterID k), am_Namespace = orEmpty (mk_Namespace k)\<rparr>"

definition alertAdapter :: "'x StorageAlert \<Rightarrow> AlertMatcher" where
  "alertAdapter a =
     \<lparr>am_Id = al_Id a, am_PolicyId = al_PolicyId a, am_State = al_State a, am_LifecycleStage = al_LifecycleStage a,
      HasDeployment = (GetDeployment a \<noteq> None),
      am_DeploymentId = (case GetDeployment a of None \<Rightarrow> [] | Some d \<Rightarrow> de_Id d),
      IsDeploymentInactive = (case GetDeployment a of None \<Rightarrow> False | Some d \<Rightarrow> Inactive d),
      HasResource = (GetResource a \<noteq> None),
      am_ResourceType = (case GetResource a of None \<Rightarrow> UNKNOWN_RESOURCE | Some r \<Rightarrow> re_ResourceType r),
      am_ResourceName = (case GetResource a of None \<Rightarrow> [] | Some r \<Rightarrow> re_Name r),
      HasNode = (GetNode a \<noteq> None),
      am_NodeId = (case GetNode a of None \<Rightarrow> [] | Some n \<Rightarrow> no_Id n),
      am_NodeName = (case GetNode a of None \<Rightarrow> [] | Some n \<Rightarrow> no_Name n),
      am_ClusterId = (case GetResource a of Some r \<Rightarrow> re_ClusterId r
        | None \<Rightarrow> (case GetNode a of Some n \<Rightarrow> no_ClusterId n | None \<Rightarrow> al_ClusterId a)),
      am_Namespace = (case GetResource a of Some r \<Rightarrow> re_Namespace r | None \<Rightarrow> al_Namespace a)\<rparr>"

definition alertsAreForSamePolicyAndEntity :: "AlertMatcher \<Rightarrow> AlertMatcher \<Rightarrow> bool" where
  "alertsAreForSamePolicyAndEntity a1 a2 =
     (if am_PolicyId a1 \<noteq> am_PolicyId a2 \<or> am_State a1 \<noteq> am_State a2 then False
      else if HasDeployment a1 \<and> HasDeployment a2 then am_DeploymentId a1 = am_DeploymentId a2
      else if HasResource a1 \<and> HasResource a2
      then am_ResourceType a1 = am_ResourceType a2 \<and> am_ResourceName a1 = am_ResourceName a2
           \<and> am_ClusterId a1 = am_ClusterId a2 \<and> am_Namespace a1 = am_Namespace a2
      else if HasNode a1 \<and> HasNode a2
      then am_NodeId a1 = am_NodeId a2 \<and> am_NodeName a1 = am_NodeName a2 \<and> am_ClusterId a1 = am_ClusterId a2
      else False)"

definition findMatchingAlert :: "AlertMatcher \<Rightarrow> 'x StorageAlert list \<Rightarrow> 'x StorageAlert option" where
  "findMatchingAlert toFind alerts = find (\<lambda>a. alertsAreForSamePolicyAndEntity toFind (alertAdapter a)) alerts"

definition findMatchingKey :: "'x StorageAlert \<Rightarrow> AlertMatchKey list \<Rightarrow> AlertMatchKey option" where
  "findMatchingKey toFind keys = find (\<lambda>k. alertsAreForSamePolicyAndEntity (alertAdapter toFind) (keyMatcher k)) keys"

subsection \<open>Messages of process violations\<close>

text \<open>Decimal numerals.\<close>

fun showNat :: "nat \<Rightarrow> string" where
  "showNat n = (if n < 10 then [char_of (48 + n)] else showNat (n div 10) @ [char_of (48 + n mod 10)])"

definition showInt :: "int \<Rightarrow> string" where
  "showInt i = (if i < 0 then ''-'' @ showNat (nat (- i)) else showNat (nat i))"

definition quoted :: "string \<Rightarrow> string" where
  "quoted s = [CHR 0x27] @ s @ [CHR 0x27]"

definition pathsMessage :: "string list \<Rightarrow> string" where
  "pathsMessage paths =
     (let numPaths = length paths
      in if numPaths = 1 then ''Binary '' @ quoted (paths ! 0)
         else if numPaths = 2 then ''Binaries '' @ quoted (paths ! 0) @ '' and '' @ quoted (paths ! 1)
         else if numPaths < 10
         then ''Binaries '' @ concat (map (\<lambda>(idx, path).
                if idx < numPaths - 1 then quoted path @ '', '' else ''and '' @ quoted path) (enumerate 0 paths))
         else showNat numPaths @ '' binaries'')"

definition argsMessage :: "string goset \<Rightarrow> string" where
  "argsMessage argsSet =
     (let numArgs = setCardinality argsSet
      in if numArgs = 1
         then (if hd argsSet \<noteq> [] then '' with arguments '' @ quoted (hd argsSet) else '' without arguments'')
         else if numArgs > 0 then '' with '' @ showNat numArgs @ '' different arguments'' else [])"

definition uidsMessage :: "int goset \<Rightarrow> string" where
  "uidsMessage uidSet =
     (let numUIDs = setCardinality uidSet
      in if numUIDs = 1 then '' under user ID '' @ showInt (hd uidSet)
         else if numUIDs > 0 then '' under '' @ showNat numUIDs @ '' different user IDs'' else [])"

definition UpdateProcessAlertViolationMessage :: "'x ProcessViolation \<Rightarrow> 'x ProcessViolation" where
  "UpdateProcessAlertViolationMessage v =
     (if Processes v = [] then v
      else let pathSet = newSet (map ExecFilePath (Processes v));
               argsSet = newSet (map Args (Processes v));
               uidSet = newSet (map Uid (Processes v))
           in v\<lparr>pv_Message := pathsMessage (sort_by (<) pathSet) @ '' executed'' @ argsMessage argsSet @ uidsMessage uidSet\<rparr>)"

subsection \<open>Merging\<close>

definition maxRunTimeViolationsPerAlert :: nat where
  "maxRunTimeViolationsPerAlert = 40"

text \<open>\<open>lastTime\<close> and \<open>lastFileTime\<close>; \<open>None\<close> is the error.\<close>

definition lastTime :: "'x ProcessIndicator list \<Rightarrow> timestamp option" where
  "lastTime ps = (if ps = [] then None else Some (pi_Time (last ps)))"

definition lastFileTime :: "'x Violation list \<Rightarrow> timestamp option" where
  "lastFileTime vs = (if vs = [] then None else FileAccess (last vs))"

text \<open>The last elements up to the bound.\<close>

definition newest :: "'a list \<Rightarrow> 'a list" where
  "newest xs = (if length xs > maxRunTimeViolationsPerAlert then drop (length xs - maxRunTimeViolationsPerAlert) xs else xs)"

definition mergeProcessesFromOldIntoNew :: "'x StorageAlert \<Rightarrow> 'x StorageAlert \<Rightarrow> bool \<times> 'x StorageAlert" where
  "mergeProcessesFromOldIntoNew old newAlert =
     (if GetProcesses newAlert = [] then (False, newAlert)
      else if length (GetProcesses old) \<ge> maxRunTimeViolationsPerAlert then (False, newAlert)
      else case lastTime (GetProcesses old) of
        None \<Rightarrow> (True, newAlert)
      | Some lastProcessTime \<Rightarrow>
          let fresh = filter (\<lambda>p. CompareTimestampToTime (pi_Time p) lastProcessTime > 0) (GetProcesses newAlert);
              newProcessesSlice = newest (GetProcesses old @ fresh)
          in if fresh = [] then (False, newAlert)
             else (True, newAlert\<lparr>al_ProcessViolation := map_option
                     (\<lambda>pv. UpdateProcessAlertViolationMessage (pv\<lparr>Processes := newProcessesSlice\<rparr>))
                     (al_ProcessViolation newAlert)\<rparr>))"

definition ofType :: "ViolationType \<Rightarrow> 'x StorageAlert \<Rightarrow> 'x Violation list" where
  "ofType t a = filter (\<lambda>v. vi_Type v = t) (Violations a)"

definition mergeAlertsByLatestFirst :: "ViolationType \<Rightarrow> 'x StorageAlert \<Rightarrow> 'x StorageAlert \<Rightarrow> bool \<times> 'x StorageAlert" where
  "mergeAlertsByLatestFirst alertType old newAlert =
     (let newViolations = ofType alertType newAlert
      in if newViolations = [] then (False, newAlert)
         else if length newViolations \<ge> maxRunTimeViolationsPerAlert then (True, newAlert)
         else (True, newAlert\<lparr>Violations := take maxRunTimeViolationsPerAlert (newViolations @ ofType alertType old)\<rparr>))"

definition mergeK8sEventViolations :: "'x StorageAlert \<Rightarrow> 'x StorageAlert \<Rightarrow> bool \<times> 'x StorageAlert" where
  "mergeK8sEventViolations = mergeAlertsByLatestFirst K8S_EVENT"

definition mergeNetworkFlowViolations :: "'x StorageAlert \<Rightarrow> 'x StorageAlert \<Rightarrow> bool \<times> 'x StorageAlert" where
  "mergeNetworkFlowViolations = mergeAlertsByLatestFirst NETWORK_FLOW"

definition mergeFileAccessViolations :: "'x StorageAlert \<Rightarrow> 'x StorageAlert \<Rightarrow> bool \<times> 'x StorageAlert" where
  "mergeFileAccessViolations oldAlert newAlert =
     (let newViolations = ofType FILE_ACCESS newAlert;
          oldViolations = ofType FILE_ACCESS oldAlert
      in if newViolations = [] \<or> length oldViolations \<ge> maxRunTimeViolationsPerAlert then (False, newAlert)
         else case lastFileTime oldViolations of
           None \<Rightarrow> (True, newAlert)
         | Some lastAccessTime \<Rightarrow>
             let fresh = filter (\<lambda>v. case FileAccess v of None \<Rightarrow> False
                   | Some t \<Rightarrow> CompareTimestampToTime t lastAccessTime > 0) newViolations
             in if fresh = [] then (False, newAlert)
                else (True, newAlert\<lparr>Violations := newest (oldViolations @ fresh)\<rparr>))"

definition mergeRunTimeAlerts :: "'x StorageAlert \<Rightarrow> 'x StorageAlert \<Rightarrow> bool \<times> 'x StorageAlert" where
  "mergeRunTimeAlerts old n0 =
     (let (newProcesses, n1) = mergeProcessesFromOldIntoNew old n0;
          (newEvents, n2) = mergeK8sEventViolations old n1;
          (newFlows, n3) = mergeNetworkFlowViolations old n2;
          (newAccesses, n4) = mergeFileAccessViolations old n3
      in (newProcesses \<or> newEvents \<or> newFlows \<or> newAccesses, n4))"

definition mergeAlerts :: "'x StorageAlert \<Rightarrow> 'x StorageAlert \<Rightarrow> 'x StorageAlert" where
  "mergeAlerts old n0 =
     (let runtime = (al_LifecycleStage old = RUNTIME \<and> al_LifecycleStage n0 = RUNTIME);
          (hasNew, n1) = (if runtime then mergeRunTimeAlerts old n0 else (True, n0))
      in if \<not> hasNew then old
         else
           let n2 = n1\<lparr>al_Id := al_Id old\<rparr>;
               n3 = (if al_LifecycleStage n2 = DEPLOY \<and> al_LifecycleStage old = DEPLOY
                     then let m = n2\<lparr>Enforcement := Enforcement old\<rparr>
                          in if Violations m = Violations old then m\<lparr>Time := Time old\<rparr> else m
                     else n2);
               n4 = n3\<lparr>FirstOccurred := FirstOccurred old\<rparr>
           in case GetDeployment old of
                Some d \<Rightarrow> if Inactive d then setInactive n4 else n4
              | None \<Rightarrow> n4)"

subsection \<open>Filters\<close>

definition violationStateField :: string where "violationStateField = ''Violation State''"
definition alertIDField :: string where "alertIDField = ''Alert ID''"
definition deploymentIDField :: string where "deploymentIDField = ''Deployment ID''"
definition policyIDField :: string where "policyIDField = ''Policy ID''"
definition lifecycleStageField :: string where "lifecycleStageField = ''Lifecycle Stage''"
definition resourceNameField :: string where "resourceNameField = ''Resource''"
definition resourceTypeField :: string where "resourceTypeField = ''Resource Type''"

record 'p AlertFilterOption =
  applyFunc :: "'p QueryBuilder \<Rightarrow> 'p QueryBuilder"
  specifiedPolicyID :: string
  removedDeploymentID :: string

definition WithPolicyID :: "string \<Rightarrow> 'p AlertFilterOption" where
  "WithPolicyID policyID =
     \<lparr>applyFunc = AddExactMatches policyIDField [policyID], specifiedPolicyID = policyID, removedDeploymentID = []\<rparr>"

definition WithDeploymentID :: "string \<Rightarrow> bool \<Rightarrow> 'p AlertFilterOption" where
  "WithDeploymentID deploymentID isRemove =
     \<lparr>applyFunc = AddExactMatches deploymentIDField [deploymentID], specifiedPolicyID = [],
      removedDeploymentID = (if isRemove then deploymentID else [])\<rparr>"

definition WithClusterID :: "string \<Rightarrow> 'p AlertFilterOption" where
  "WithClusterID clusterID =
     \<lparr>applyFunc = AddExactMatches clusterIDField [clusterID], specifiedPolicyID = [], removedDeploymentID = []\<rparr>"

definition WithNamespace :: "string \<Rightarrow> 'p AlertFilterOption" where
  "WithNamespace namespace =
     \<lparr>applyFunc = AddExactMatches namespaceField [namespace], specifiedPolicyID = [], removedDeploymentID = []\<rparr>"

definition WithResource :: "string \<Rightarrow> ResourceType \<Rightarrow> 'p AlertFilterOption" where
  "WithResource resourceName resourceType =
     \<lparr>applyFunc = AddExactMatches resourceTypeField [resourceTypeString resourceType]
        \<circ> AddExactMatches resourceNameField [resourceName], specifiedPolicyID = [], removedDeploymentID = []\<rparr>"

definition WithLifecycleStage :: "LifecycleStage \<Rightarrow> 'p AlertFilterOption" where
  "WithLifecycleStage lifecycleStage =
     \<lparr>applyFunc = AddExactMatches lifecycleStageField [stageString lifecycleStage], specifiedPolicyID = [],
      removedDeploymentID = []\<rparr>"

definition removedDeployments :: "'p AlertFilterOption list \<Rightarrow> string goset" where
  "removedDeployments filters = newSet (filter (\<lambda>d. d \<noteq> []) (map removedDeploymentID filters))"

definition specifiedPolicies :: "'p AlertFilterOption list \<Rightarrow> string goset" where
  "specifiedPolicies filters = newSet (filter (\<lambda>p. p \<noteq> []) (map specifiedPolicyID filters))"

subsection \<open>The environment\<close>

text \<open>The methods of the runtime detector, the settings, and the datastore. The clock is read once
  for a batch.\<close>

record runtimeDetector =
  policyExists :: "string \<Rightarrow> bool"
  DeploymentWhitelistedForPolicy :: "string \<Rightarrow> string \<Rightarrow> bool"
  DeploymentInactive :: "string \<Rightarrow> bool"

record alertSettings =
  debounceDuration :: int
  clock :: int
  NotifyOnEveryRuntimeEvent :: bool

record ('s, 'x, 'p) alertDataStore =
  SearchAlertMatchKeys :: "'p query \<Rightarrow> 's \<Rightarrow> string + AlertMatchKey list"
  SearchRawAlerts :: "'p query \<Rightarrow> 's \<Rightarrow> string + 'x StorageAlert list"
  UpsertAlert :: "'x StorageAlert \<Rightarrow> 's \<Rightarrow> string option \<times> 's"
  MarkAlertsResolvedBatch :: "string list \<Rightarrow> 's \<Rightarrow> (string + 'x StorageAlert list) \<times> 's"

text \<open>The state of the datastore, and the alerts given to the notifier.\<close>

record ('s, 'x) world =
  stored :: 's
  sent :: "'x StorageAlert list"

datatype alertError = KeysNotLoaded string | MergeFetchFailed string | InactiveFetchFailed string
  | UpdatesFailed "string list" | ResolveFailed string

definition ProcessAlert :: "'x StorageAlert \<Rightarrow> ('s, 'x) world \<Rightarrow> ('s, 'x) world" where
  "ProcessAlert a w = w\<lparr>sent := sent w @ [a]\<rparr>"

definition exactQuery :: "string \<Rightarrow> string list \<Rightarrow> 'p query" where
  "exactQuery field values = ProtoQuery (AddExactMatches field values NewQueryBuilder)"

subsection \<open>Merging many alerts\<close>

text \<open>Candidates are pairs of an incoming alert and the identifier of the old one.\<close>

definition mergeCandidates :: "'x StorageAlert list \<Rightarrow> AlertMatchKey list \<Rightarrow> ('x StorageAlert \<times> string) list" where
  "mergeCandidates incoming keys =
     concat (map (\<lambda>a. if IsDeployTimeAttemptedAlert a then []
       else case findMatchingKey a keys of None \<Rightarrow> [] | Some k \<Rightarrow> [(a, mk_ID k)]) incoming)"

definition firstSeen :: "'x StorageAlert \<Rightarrow> 'x StorageAlert" where
  "firstSeen a = a\<lparr>FirstOccurred := Time a\<rparr>"

definition unmatchedAlerts :: "'x StorageAlert list \<Rightarrow> AlertMatchKey list \<Rightarrow> 'x StorageAlert list" where
  "unmatchedAlerts incoming keys =
     map firstSeen (filter (\<lambda>a. IsDeployTimeAttemptedAlert a \<or> findMatchingKey a keys = None) incoming)"

fun mergeFetched :: "('x StorageAlert \<times> string) list \<Rightarrow> (string, 'x StorageAlert) gomap \<Rightarrow> 'x StorageAlert list \<times> 'x StorageAlert list" where
  "mergeFetched [] oldAlertsByID = ([], [])"
| "mergeFetched ((incoming, oldKeyID) # cs) oldAlertsByID =
     (let (newAlerts, updatedAlerts) = mergeFetched cs oldAlertsByID
      in case mget oldAlertsByID oldKeyID of
           None \<Rightarrow> (firstSeen incoming # newAlerts, updatedAlerts)
         | Some matchingOld \<Rightarrow>
             let mergedAlert = mergeAlerts matchingOld incoming
             in (newAlerts, if mergedAlert \<noteq> matchingOld then mergedAlert # updatedAlerts else updatedAlerts))"

definition fetchAndMergeCandidates :: "('s, 'x, 'p) alertDataStore \<Rightarrow> ('x StorageAlert \<times> string) list \<Rightarrow> 's \<Rightarrow>
    alertError + ('x StorageAlert list \<times> 'x StorageAlert list)" where
  "fetchAndMergeCandidates ds candidates s =
     (if candidates = [] then Inr ([], [])
      else case SearchRawAlerts ds (exactQuery alertIDField (newSet (map snd candidates))) s of
        Inl e \<Rightarrow> Inl (MergeFetchFailed e)
      | Inr fetched \<Rightarrow> Inr (mergeFetched candidates (fold (\<lambda>a. mput (al_Id a) a) fetched [])))"

definition markDeploymentsInactive :: "('s, 'x, 'p) alertDataStore \<Rightarrow> string list \<Rightarrow> 's \<Rightarrow> alertError + 'x StorageAlert list" where
  "markDeploymentsInactive ds alertIDs s =
     (if alertIDs = [] then Inr []
      else case SearchRawAlerts ds (exactQuery alertIDField alertIDs) s of
        Inl e \<Rightarrow> Inl (InactiveFetchFailed e)
      | Inr inactiveAlerts \<Rightarrow>
          Inr (map setInactive (filter (\<lambda>a. case GetDeployment a of None \<Rightarrow> False | Some d \<Rightarrow> \<not> Inactive d) inactiveAlerts)))"

definition stampInactiveIfDeploymentGone :: "runtimeDetector \<Rightarrow> string goset \<Rightarrow> 'x StorageAlert \<Rightarrow> 'x StorageAlert" where
  "stampInactiveIfDeploymentGone rd deploymentsBeingRemoved a =
     (if al_LifecycleStage a \<noteq> RUNTIME \<and> al_State a \<noteq> ATTEMPTED then a
      else case GetDeployment a of
        None \<Rightarrow> a
      | Some d \<Rightarrow>
          if Inactive d then a
          else if setContains deploymentsBeingRemoved (de_Id d) \<or> DeploymentInactive rd (de_Id d) then setInactive a
          else a)"

definition shouldMarkAlertResolved ::
    "runtimeDetector \<Rightarrow> AlertMatcher \<Rightarrow> 'x StorageAlert list \<Rightarrow> 'p AlertFilterOption list \<Rightarrow> bool" where
  "shouldMarkAlertResolved rd old incomingAlerts oldAlertFilters =
     (if am_State old = ATTEMPTED then False
      else if list_ex (\<lambda>a. al_State a = ATTEMPTED) incomingAlerts then False
      else if findMatchingAlert old incomingAlerts \<noteq> None then False
      else if am_LifecycleStage old \<noteq> RUNTIME then True
      else if \<not> policyExists rd (am_PolicyId old) then True
      else let specifiedPolicyIDs = specifiedPolicies oldAlertFilters
           in if setCardinality specifiedPolicyIDs = 0 then False
              else if \<not> setContains specifiedPolicyIDs (am_PolicyId old) then False
              else DeploymentWhitelistedForPolicy rd (am_DeploymentId old) (am_PolicyId old))"

text \<open>The keys of runtime and attempted alerts whose deployment is gone, and that are not updated anyway.\<close>

definition needsInactive :: "runtimeDetector \<Rightarrow> string goset \<Rightarrow> string goset \<Rightarrow> AlertMatcher \<Rightarrow> bool" where
  "needsInactive rd deploymentsBeingRemoved alreadyUpdated m \<longleftrightarrow>
     (am_LifecycleStage m = RUNTIME \<or> am_State m = ATTEMPTED) \<and> HasDeployment m \<and> \<not> IsDeploymentInactive m
     \<and> \<not> setContains alreadyUpdated (am_Id m)
     \<and> (setContains deploymentsBeingRemoved (am_DeploymentId m) \<or> DeploymentInactive rd (am_DeploymentId m))"

record 'x mergeResult =
  newAlerts :: "'x StorageAlert list"
  updatedAlerts :: "'x StorageAlert list"
  toBeResolvedIDs :: "string list"
  resolvedDeploymentIDs :: "string goset"

definition previousQuery :: "'p AlertFilterOption list \<Rightarrow> 'p query" where
  "previousQuery oldAlertFilters =
     ProtoQuery (fold applyFunc oldAlertFilters
       (AddExactMatches violationStateField [stateString ACTIVE, stateString ATTEMPTED] NewQueryBuilder))"

definition mergeManyAlerts :: "('s, 'x, 'p) alertDataStore \<Rightarrow> runtimeDetector \<Rightarrow> 'x StorageAlert list \<Rightarrow>
    'p AlertFilterOption list \<Rightarrow> 's \<Rightarrow> alertError + 'x mergeResult" where
  "mergeManyAlerts ds rd incomingAlerts oldAlertFilters s =
     (case SearchAlertMatchKeys ds (previousQuery oldAlertFilters) s of
        Inl e \<Rightarrow> Inl (KeysNotLoaded e)
      | Inr previousKeys \<Rightarrow>
          (case fetchAndMergeCandidates ds (mergeCandidates incomingAlerts previousKeys) s of
             Inl e \<Rightarrow> Inl e
           | Inr (mergedNew, mergedUpdated) \<Rightarrow>
               let removed = removedDeployments oldAlertFilters;
                   stamp = map (stampInactiveIfDeploymentGone rd removed);
                   new = stamp (unmatchedAlerts incomingAlerts previousKeys @ mergedNew);
                   updated = stamp mergedUpdated;
                   alreadyUpdated = newSet (map al_Id updated);
                   matchers = map keyMatcher previousKeys;
                   resolved = filter (\<lambda>m. shouldMarkAlertResolved rd m incomingAlerts oldAlertFilters) matchers;
                   needInactiveIDs = map am_Id (filter (needsInactive rd removed alreadyUpdated) matchers)
               in (case markDeploymentsInactive ds needInactiveIDs s of
                     Inl e \<Rightarrow> Inl e
                   | Inr inactiveUpdates \<Rightarrow>
                       Inr \<lparr>newAlerts = new, updatedAlerts = updated @ inactiveUpdates,
                            toBeResolvedIDs = map am_Id resolved,
                            resolvedDeploymentIDs = newSet (map am_DeploymentId (filter HasDeployment resolved))\<rparr>)))"

subsection \<open>Storing and notifying\<close>

fun upsertAll :: "('s, 'x, 'p) alertDataStore \<Rightarrow> 'x StorageAlert list \<Rightarrow> ('s, 'x) world \<Rightarrow> string list \<times> ('s, 'x) world" where
  "upsertAll ds [] w = ([], w)"
| "upsertAll ds (a # as) w =
     (let (err, s') = UpsertAlert ds a (stored w);
          (errs, w') = upsertAll ds as (w\<lparr>stored := s'\<rparr>)
      in (case err of None \<Rightarrow> errs | Some e \<Rightarrow> e # errs, w'))"

definition updateBatch :: "('s, 'x, 'p) alertDataStore \<Rightarrow> 'x StorageAlert list \<Rightarrow> ('s, 'x) world \<Rightarrow>
    alertError option \<times> ('s, 'x) world" where
  "updateBatch ds alertsToMark w =
     (let (errs, w') = upsertAll ds alertsToMark w in (if errs = [] then None else Some (UpdatesFailed errs), w'))"

definition shouldDebounceNotification :: "('s, 'x, 'p) alertDataStore \<Rightarrow> alertSettings \<Rightarrow> 's \<Rightarrow> 'x StorageAlert \<Rightarrow> bool" where
  "shouldDebounceNotification ds cfg s a =
     (if al_LifecycleStage a \<noteq> DEPLOY then False
      else if debounceDuration cfg = 0 then False
      else
        let maxAllowedResolvedAtTime = Some (clock cfg - debounceDuration cfg);
            q = ProtoQuery (AddExactMatches violationStateField [stateString RESOLVED]
                  (AddExactMatches policyIDField [al_PolicyId a]
                    (AddExactMatches deploymentIDField
                      [case GetDeployment a of None \<Rightarrow> [] | Some d \<Rightarrow> de_Id d] NewQueryBuilder)))
        in (case SearchRawAlerts ds q s of
              Inl e \<Rightarrow> False
            | Inr resolvedAlerts \<Rightarrow>
                list_ex (\<lambda>r. ResolvedAt r \<noteq> None \<and> CompareTimestamps (ResolvedAt r) maxAllowedResolvedAtTime > 0) resolvedAlerts))"

definition notifyAndUpdateBatch :: "('s, 'x, 'p) alertDataStore \<Rightarrow> alertSettings \<Rightarrow> 'x StorageAlert list \<Rightarrow> ('s, 'x) world \<Rightarrow>
    alertError option \<times> ('s, 'x) world" where
  "notifyAndUpdateBatch ds cfg alertsToMark w =
     updateBatch ds alertsToMark
       (fold (\<lambda>a w. if shouldDebounceNotification ds cfg (stored w) a then w else ProcessAlert a w) alertsToMark w)"

definition markAlertsResolvedByIDs :: "('s, 'x, 'p) alertDataStore \<Rightarrow> string list \<Rightarrow> ('s, 'x) world \<Rightarrow>
    alertError option \<times> ('s, 'x) world" where
  "markAlertsResolvedByIDs ds ids w =
     (if ids = [] then (None, w)
      else let (r, s') = MarkAlertsResolvedBatch ds ids (stored w); w' = w\<lparr>stored := s'\<rparr>
           in case r of Inl e \<Rightarrow> (Some (ResolveFailed e), w')
              | Inr resolvedAlerts \<Rightarrow> (None, fold ProcessAlert resolvedAlerts w'))"

definition notifyUpdatedRuntimeAlerts :: "alertSettings \<Rightarrow> 'x StorageAlert list \<Rightarrow> ('s, 'x) world \<Rightarrow> ('s, 'x) world" where
  "notifyUpdatedRuntimeAlerts cfg updated w =
     (if \<not> NotifyOnEveryRuntimeEvent cfg then w
      else fold ProcessAlert (filter (\<lambda>a. al_LifecycleStage a = RUNTIME) updated) w)"

definition getDeploymentIDsFromAlerts :: "'x StorageAlert list \<Rightarrow> string goset" where
  "getDeploymentIDsFromAlerts alerts =
     newSet (concat (map (\<lambda>a. case GetDeployment a of None \<Rightarrow> [] | Some d \<Rightarrow> [de_Id d]) alerts))"

definition AlertAndNotify :: "('s, 'x, 'p) alertDataStore \<Rightarrow> runtimeDetector \<Rightarrow> alertSettings \<Rightarrow> 'x StorageAlert list \<Rightarrow>
    'p AlertFilterOption list \<Rightarrow> ('s, 'x) world \<Rightarrow> (alertError + string goset) \<times> ('s, 'x) world" where
  "AlertAndNotify ds rd cfg currentAlerts oldAlertFilters w =
     (case mergeManyAlerts ds rd currentAlerts oldAlertFilters (stored w) of
        Inl e \<Rightarrow> (Inl e, w)
      | Inr r \<Rightarrow>
          let modifiedDeployments =
                setUnion (getDeploymentIDsFromAlerts (newAlerts r @ updatedAlerts r)) (resolvedDeploymentIDs r)
          in (case notifyAndUpdateBatch ds cfg (newAlerts r) w of
                (Some e, w1) \<Rightarrow> (Inl e, w1)
              | (None, w1) \<Rightarrow>
                  (case updateBatch ds (updatedAlerts r) w1 of
                     (Some e, w2) \<Rightarrow> (Inl e, w2)
                   | (None, w2) \<Rightarrow>
                       (case markAlertsResolvedByIDs ds (toBeResolvedIDs r) w2 of
                          (Some e, w3) \<Rightarrow> (Inl e, w3)
                        | (None, w3) \<Rightarrow>
                            (Inr modifiedDeployments, notifyUpdatedRuntimeAlerts cfg (updatedAlerts r) w3)))))"

end
