(* ===== verification/Policy_Scopes.thy ===== *)
theory Policy_Scopes
  imports Alert_Manager
begin

text \<open>
  Where a policy applies: its scopes (\<open>pkg/scopecomp\<close>), its exclusions and the predicates compiled
  from them (\<open>pkg/detection/exclusion.go\<close>, \<open>compiled_policy.go\<close>).

  A regular expression is compiled by the argument \<open>regex\<close>, which is \<open>None\<close> for an invalid one; a
  compiled matcher is the predicate it tests. The key and the value matcher of a label are set together, so
  they are one pair. A label provider may be nil. Error messages carry what failed.
\<close>

subsection \<open>Matchers\<close>

type_synonym StringMatcher = "string \<Rightarrow> bool"
type_synonym regexLib = "string \<Rightarrow> StringMatcher option"

text \<open>The pattern that the code wraps in a group, ignoring case, is the argument of \<open>regex\<close>.\<close>

definition CompileWholeStringMatcher :: "regexLib \<Rightarrow> string \<Rightarrow> StringMatcher option" where
  "CompileWholeStringMatcher regex re = (if re = [] then Some (\<lambda>s. True) else regex re)"

subsection \<open>Scopes\<close>

record ScopeLabel =
  sl_Key :: string
  sl_Value :: string

record Scope =
  sc_Cluster :: string
  sc_Namespace :: string
  sc_Label :: "ScopeLabel option"
  sc_ClusterLabel :: "ScopeLabel option"
  sc_NamespaceLabel :: "ScopeLabel option"

datatype labelType = clusterLabelType | namespaceLabelType | deploymentLabelType

datatype compileError = NamespaceRegex | LabelScopesDisabled | LabelKeyRegex labelType | LabelValueRegex labelType
  | ScopeError compileError | ExclusionError compileError | MatcherError string
  | IncompatibleSections | NoCriteria

type_synonym ClusterLabelProvider = "string \<Rightarrow> string + (string, string) gomap"
type_synonym NamespaceLabelProvider = "string \<Rightarrow> string \<Rightarrow> string + (string, string) gomap"

type_synonym labelMatchers = "(StringMatcher \<times> StringMatcher) option"

record CompiledScope =
  cs_ClusterID :: string
  cs_ClusterLabel :: labelMatchers
  cs_Namespace :: StringMatcher
  cs_NamespaceLabel :: labelMatchers
  cs_Label :: labelMatchers
  clusterLabelProvider :: "ClusterLabelProvider option"
  namespaceLabelProvider :: "NamespaceLabelProvider option"

definition compileLabelMatchers :: "regexLib \<Rightarrow> ScopeLabel option \<Rightarrow> labelType \<Rightarrow> compileError + labelMatchers" where
  "compileLabelMatchers regex label t =
     (case label of
        None \<Rightarrow> Inr None
      | Some l \<Rightarrow>
          (case CompileWholeStringMatcher regex (sl_Key l) of
             None \<Rightarrow> Inl (LabelKeyRegex t)
           | Some km \<Rightarrow>
               (case CompileWholeStringMatcher regex (sl_Value l) of
                  None \<Rightarrow> Inl (LabelValueRegex t)
                | Some vm \<Rightarrow> Inr (Some (km, vm)))))"

text \<open>\<open>labelScoping\<close> is the feature flag of cluster and namespace labels.\<close>

definition CompileScope :: "regexLib \<Rightarrow> bool \<Rightarrow> Scope \<Rightarrow> ClusterLabelProvider option \<Rightarrow> NamespaceLabelProvider option \<Rightarrow>
    compileError + CompiledScope" where
  "CompileScope regex labelScoping scope clusterProvider namespaceProvider =
     (case CompileWholeStringMatcher regex (sc_Namespace scope) of
        None \<Rightarrow> Inl NamespaceRegex
      | Some namespaceReg \<Rightarrow>
          if \<not> labelScoping \<and> (sc_ClusterLabel scope \<noteq> None \<or> sc_NamespaceLabel scope \<noteq> None)
          then Inl LabelScopesDisabled
          else
            (case (if labelScoping then compileLabelMatchers regex (sc_ClusterLabel scope) clusterLabelType else Inr None) of
               Inl e \<Rightarrow> Inl e
             | Inr clusterLabel \<Rightarrow>
                 (case (if labelScoping then compileLabelMatchers regex (sc_NamespaceLabel scope) namespaceLabelType else Inr None) of
                    Inl e \<Rightarrow> Inl e
                  | Inr namespaceLabel \<Rightarrow>
                      (case compileLabelMatchers regex (sc_Label scope) deploymentLabelType of
                         Inl e \<Rightarrow> Inl e
                       | Inr label \<Rightarrow>
                           Inr \<lparr>cs_ClusterID = sc_Cluster scope, cs_ClusterLabel = clusterLabel, cs_Namespace = namespaceReg,
                                cs_NamespaceLabel = namespaceLabel, cs_Label = label,
                                clusterLabelProvider = clusterProvider, namespaceLabelProvider = namespaceProvider\<rparr>))))"

definition MatchesLabels :: "labelMatchers \<Rightarrow> (string, string) gomap \<Rightarrow> bool" where
  "MatchesLabels matchers labels =
     (case matchers of
        None \<Rightarrow> True
      | Some (km, vm) \<Rightarrow> list_ex (\<lambda>(key, value). km key \<and> vm value) labels)"

definition MatchesClusterLabels :: "CompiledScope \<Rightarrow> string \<Rightarrow> bool" where
  "MatchesClusterLabels c clusterID =
     (if cs_ClusterLabel c = None then True
      else case clusterLabelProvider c of
        None \<Rightarrow> False
      | Some provider \<Rightarrow> (case provider clusterID of Inl e \<Rightarrow> False | Inr labels \<Rightarrow> MatchesLabels (cs_ClusterLabel c) labels))"

definition MatchesNamespaceLabels :: "CompiledScope \<Rightarrow> string \<Rightarrow> string \<Rightarrow> bool" where
  "MatchesNamespaceLabels c clusterID ns =
     (if cs_NamespaceLabel c = None then True
      else case namespaceLabelProvider c of
        None \<Rightarrow> False
      | Some provider \<Rightarrow> (case provider clusterID ns of Inl e \<Rightarrow> False | Inr labels \<Rightarrow> MatchesLabels (cs_NamespaceLabel c) labels))"

text \<open>A nil scope matches everything.\<close>

definition MatchesNamespace :: "CompiledScope option \<Rightarrow> string \<Rightarrow> bool" where
  "MatchesNamespace c ns = (case c of None \<Rightarrow> True | Some s \<Rightarrow> cs_Namespace s ns)"

definition MatchesCluster :: "CompiledScope option \<Rightarrow> string \<Rightarrow> bool" where
  "MatchesCluster c cluster = (case c of None \<Rightarrow> True | Some s \<Rightarrow> cs_ClusterID s = [] \<or> cs_ClusterID s = cluster)"

datatype ContainerType = REGULAR | INIT

record 'x Container =
  co_Type :: ContainerType
  co_rest :: 'x

record 'x StorageDeployment =
  dp_Id :: string
  dp_Name :: string
  dp_ClusterId :: string
  dp_Namespace :: string
  dp_Labels :: "(string, string) gomap"
  dp_Type :: string
  dp_Containers :: "'x Container list"
  dp_rest :: 'x

record KubernetesEvent =
  ke_ClusterId :: string
  ke_Namespace :: string

definition scopeMatchesDeployment :: "CompiledScope option \<Rightarrow> 'x StorageDeployment \<Rightarrow> bool" where
  "scopeMatchesDeployment c deployment =
     (case c of
        None \<Rightarrow> True
      | Some s \<Rightarrow>
          if \<not> MatchesCluster c (dp_ClusterId deployment) then False
          else if \<not> MatchesClusterLabels s (dp_ClusterId deployment) then False
          else if \<not> MatchesNamespace c (dp_Namespace deployment) then False
          else if \<not> MatchesNamespaceLabels s (dp_ClusterId deployment) (dp_Namespace deployment) then False
          else if \<not> MatchesLabels (cs_Label s) (dp_Labels deployment) then False
          else True)"

definition scopeMatchesAuditEvent :: "CompiledScope option \<Rightarrow> KubernetesEvent \<Rightarrow> bool" where
  "scopeMatchesAuditEvent c auditEvent =
     (case c of
        None \<Rightarrow> True
      | Some s \<Rightarrow>
          if \<not> MatchesCluster c (ke_ClusterId auditEvent) then False
          else if \<not> MatchesClusterLabels s (ke_ClusterId auditEvent) then False
          else if ke_Namespace auditEvent \<noteq> [] \<and> \<not> MatchesNamespace c (ke_Namespace auditEvent) then False
          else if ke_Namespace auditEvent \<noteq> [] \<and> \<not> MatchesNamespaceLabels s (ke_ClusterId auditEvent) (ke_Namespace auditEvent)
          then False
          else True)"

subsection \<open>Exclusions\<close>

record ExclusionDeployment =
  ed_Name :: string
  ed_Scope :: "Scope option"

record Exclusion =
  ex_Deployment :: "ExclusionDeployment option"
  ex_Image :: "string option"
  ex_Expiration :: timestamp

record compiledExclusion =
  cx_exclusion :: Exclusion
  deploymentNameMatcher :: "StringMatcher option"
  cx_cs :: "CompiledScope option"

text \<open>\<open>now\<close> is the time of the clock.\<close>

definition exclusionIsExpired :: "int \<Rightarrow> Exclusion \<Rightarrow> bool" where
  "exclusionIsExpired now exclusion =
     (if ex_Expiration exclusion = None then False else CompareTimestamps (ex_Expiration exclusion) (Some now) < 0)"

definition alwaysFalseMatcher :: StringMatcher where
  "alwaysFalseMatcher s = False"

definition newCompiledExclusion :: "regexLib \<Rightarrow> bool \<Rightarrow> Exclusion \<Rightarrow> compileError + compiledExclusion" where
  "newCompiledExclusion regex labelScoping exclusion =
     (let name = (case ex_Deployment exclusion of None \<Rightarrow> [] | Some d \<Rightarrow> ed_Name d);
          nameMatcher =
            (if name \<noteq> []
             then Some (case CompileWholeStringMatcher regex name of None \<Rightarrow> alwaysFalseMatcher | Some m \<Rightarrow> m)
             else None);
          scope = (case ex_Deployment exclusion of None \<Rightarrow> None | Some d \<Rightarrow> ed_Scope d)
      in case scope of
           None \<Rightarrow> Inr \<lparr>cx_exclusion = exclusion, deploymentNameMatcher = nameMatcher, cx_cs = None\<rparr>
         | Some sc \<Rightarrow>
             (case CompileScope regex labelScoping sc None None of
                Inl e \<Rightarrow> Inl e
              | Inr cs \<Rightarrow> Inr \<lparr>cx_exclusion = exclusion, deploymentNameMatcher = nameMatcher, cx_cs = Some cs\<rparr>))"

definition exclusionMatchesDeployment :: "int \<Rightarrow> compiledExclusion \<Rightarrow> 'x StorageDeployment \<Rightarrow> bool" where
  "exclusionMatchesDeployment now cw deployment =
     (if exclusionIsExpired now (cx_exclusion cw) then False
      else if (case deploymentNameMatcher cw of None \<Rightarrow> False | Some m \<Rightarrow> \<not> m (dp_Name deployment)) then False
      else scopeMatchesDeployment (cx_cs cw) deployment)"

definition exclusionMatchesAuditEvent :: "int \<Rightarrow> compiledExclusion \<Rightarrow> KubernetesEvent \<Rightarrow> bool" where
  "exclusionMatchesAuditEvent now cw auditEvent =
     (if exclusionIsExpired now (cx_exclusion cw) then False
      else if \<not> scopeMatchesAuditEvent (cx_cs cw) auditEvent then False
      else True)"

definition auditEventMatchesExclusions :: "int \<Rightarrow> KubernetesEvent \<Rightarrow> compiledExclusion list \<Rightarrow> bool" where
  "auditEventMatchesExclusions now auditEvent exclusions =
     list_ex (\<lambda>exclusion. exclusionMatchesAuditEvent now exclusion auditEvent) exclusions"

definition auditEventMatchesScopes :: "KubernetesEvent \<Rightarrow> CompiledScope list \<Rightarrow> bool" where
  "auditEventMatchesScopes auditEvent scopes =
     (if scopes = [] then True else list_ex (\<lambda>scope. scopeMatchesAuditEvent (Some scope) auditEvent) scopes)"

definition deploymentMatchesExclusions :: "int \<Rightarrow> 'x StorageDeployment \<Rightarrow> compiledExclusion list \<Rightarrow> bool" where
  "deploymentMatchesExclusions now deployment exclusions =
     list_ex (\<lambda>exclusion. exclusionMatchesDeployment now exclusion deployment) exclusions"

definition deploymentMatchesScopes :: "'x StorageDeployment \<Rightarrow> CompiledScope list \<Rightarrow> bool" where
  "deploymentMatchesScopes deployment scopes =
     (if scopes = [] then True else list_ex (\<lambda>scope. scopeMatchesDeployment (Some scope) deployment) scopes)"

text \<open>\<open>exclusions\<close> are those of the policy.\<close>

definition matchesImageExclusion :: "int \<Rightarrow> string \<Rightarrow> Exclusion list \<Rightarrow> bool" where
  "matchesImageExclusion now imageName exclusions =
     list_ex (\<lambda>w. (case ex_Image w of
         None \<Rightarrow> False
       | Some name \<Rightarrow> if exclusionIsExpired now w then False else hasPrefix imageName name)) exclusions"

subsection \<open>Predicates\<close>

datatype 'x policyInput = Input_Deployment "'x StorageDeployment" | Input_Image string | Input_AuditEvent KubernetesEvent
  | Input_FileAccess | Input_Other

text \<open>The image predicate refers to the exclusions of its policy.\<close>

datatype Predicate =
    deploymentPredicate "compiledExclusion list" "CompiledScope list"
  | imagePredicate "Exclusion list"
  | auditEventPredicate "compiledExclusion list" "CompiledScope list"
  | fileAccessPredicate

fun predicateAppliesTo :: "int \<Rightarrow> Predicate \<Rightarrow> 'x policyInput \<Rightarrow> bool" where
  "predicateAppliesTo now (deploymentPredicate exclusions scopes) input =
     (case input of
        Input_Deployment deployment \<Rightarrow>
          deploymentMatchesScopes deployment scopes \<and> \<not> deploymentMatchesExclusions now deployment exclusions
      | _ \<Rightarrow> False)"
| "predicateAppliesTo now (imagePredicate policyExclusions) input =
     (case input of Input_Image fullName \<Rightarrow> \<not> matchesImageExclusion now fullName policyExclusions | _ \<Rightarrow> False)"
| "predicateAppliesTo now (auditEventPredicate exclusions scopes) input =
     (case input of
        Input_AuditEvent auditEvent \<Rightarrow>
          auditEventMatchesScopes auditEvent scopes \<and> \<not> auditEventMatchesExclusions now auditEvent exclusions
      | _ \<Rightarrow> False)"
| "predicateAppliesTo now fileAccessPredicate input = (case input of Input_FileAccess \<Rightarrow> True | _ \<Rightarrow> False)"

end
