(* ===== verification/Policy_Compiler.thy ===== *)
theory Policy_Compiler
  imports Policy_Scopes
begin

text \<open>
  Compiled policies (\<open>pkg/detection/compiled_policy.go\<close>), the set of them (\<open>policy_set_impl.go\<close>), the filter of
  containers (\<open>pkg/booleanpolicy/filter\<close>), the detection on deployments
  (\<open>pkg/detection/deploytime\<close>), and the questions that the alert manager asks
  (\<open>central/detection/runtime\<close>).

  The criteria of a policy are sections of type \<open>'sec\<close>; what their fields are, and how matchers are built from
  them and run, is the argument \<open>policyLib\<close>. A matcher of type \<open>'m\<close> gives the violations of an
  input. The cache of augmented objects and the label for image enrichment are left out.
\<close>

subsection \<open>Policies\<close>

datatype EventSource = NOT_APPLICABLE | DEPLOYMENT_EVENT | AUDIT_LOG_EVENT | NODE_EVENT

datatype EnforcementAction = UNSET_ENFORCEMENT | SCALE_TO_ZERO_ENFORCEMENT | UNSATISFIABLE_NODE_CONSTRAINT_ENFORCEMENT
  | KILL_POD_ENFORCEMENT | FAIL_BUILD_ENFORCEMENT | FAIL_KUBE_REQUEST_ENFORCEMENT
  | FAIL_DEPLOYMENT_CREATE_ENFORCEMENT | FAIL_DEPLOYMENT_UPDATE_ENFORCEMENT

datatype RuntimeFieldType = AuditLogEventField | ProcessField | NetworkFlowField | KubeEventField | FileAccessField

record ('sec, 'x) Policy =
  po_Id :: string
  po_Name :: string
  po_Disabled :: bool
  po_LifecycleStages :: "LifecycleStage list"
  po_EventSource :: EventSource
  po_Scope :: "Scope list"
  po_Exclusions :: "Exclusion list"
  po_PolicySections :: "'sec list"
  po_EnforcementActions :: "EnforcementAction list"
  po_SkipContainerTypes :: "ContainerType list"
  po_Notifiers :: "string list"
  po_rest :: 'x

definition appliesAt :: "('sec, 'x) Policy \<Rightarrow> LifecycleStage \<Rightarrow> bool" where
  "appliesAt policy lc \<longleftrightarrow> lc \<in> set (po_LifecycleStages policy)"

definition AppliesAtBuildTime :: "('sec, 'x) Policy \<Rightarrow> bool" where
  "AppliesAtBuildTime policy = appliesAt policy BUILD"

definition AppliesAtDeployTime :: "('sec, 'x) Policy \<Rightarrow> bool" where
  "AppliesAtDeployTime policy = appliesAt policy DEPLOY"

definition AppliesAtRunTime :: "('sec, 'x) Policy \<Rightarrow> bool" where
  "AppliesAtRunTime policy = appliesAt policy RUNTIME"

definition FilterPolicySections :: "('sec, 'x) Policy \<Rightarrow> ('sec \<Rightarrow> bool) \<Rightarrow> ('sec, 'x) Policy" where
  "FilterPolicySections policy pred = policy\<lparr>po_PolicySections := filter pred (po_PolicySections policy)\<rparr>"

subsection \<open>Filters\<close>

text \<open>An image belongs to the container of its index. The deployment may be nil.\<close>

type_synonym ('x, 'i) EvaluationFilter = "'x StorageDeployment option \<times> 'i list \<Rightarrow> 'x StorageDeployment option \<times> 'i list"

definition GetContainers :: "'x StorageDeployment option \<Rightarrow> 'x Container list" where
  "GetContainers dep = (case dep of None \<Rightarrow> [] | Some d \<Rightarrow> dp_Containers d)"

definition newContainerTypeFilter :: "ContainerType list \<Rightarrow> ('x, 'i) EvaluationFilter option" where
  "newContainerTypeFilter skipTypes =
     (if skipTypes = [] then None
      else let skip = newSet skipTypes
           in Some (\<lambda>(dep, imgs).
                let kept = filter (\<lambda>(i, c). \<not> setContains skip (co_Type c)) (enumerate 0 (GetContainers dep));
                    hasSkipped = list_ex (\<lambda>c. setContains skip (co_Type c)) (GetContainers dep)
                in if \<not> hasSkipped then (dep, imgs)
                   else (map_option (\<lambda>d. d\<lparr>dp_Containers := map snd kept\<rparr>) dep,
                         map (\<lambda>(i, c). imgs ! i) (filter (\<lambda>(i, c). i < length imgs) kept))))"

definition CompileEvaluationFilter :: "bool \<Rightarrow> ContainerType list \<Rightarrow> ('x, 'i) EvaluationFilter list" where
  "CompileEvaluationFilter enabled skipTypes =
     (if \<not> enabled then [] else case newContainerTypeFilter skipTypes of None \<Rightarrow> [] | Some f \<Rightarrow> [f])"

subsection \<open>Compiling\<close>

datatype matcherKind = AuditLogEventMatcher | DeploymentWithProcessMatcher | KubeEventMatcher
  | DeploymentWithNetworkFlowMatcher | DeploymentWithFileAccessMatcher | NodeEventMatcher | DeploymentMatcher | ImageMatcher

record ('x, 'i) EnhancedDeployment =
  ed_Deployment :: "'x StorageDeployment option"
  ed_Images :: "'i list"

datatype ('x, 'i, 'e) matchInput = On_AuditLogEvent 'e | On_KubeEvent 'e "('x, 'i) EnhancedDeployment"
  | On_Process "('x, 'i) EnhancedDeployment" 'e bool | On_NetworkFlow "('x, 'i) EnhancedDeployment" 'e
  | On_Deployment "('x, 'i) EnhancedDeployment" | On_Image 'i | On_NodeFileAccess 'e 'e
  | On_FileAccess "('x, 'i) EnhancedDeployment" 'e

record 'x Violations =
  AlertViolations :: "'x Violation list"
  ProcessViolation :: "'x ProcessViolation option"

definition noViolations :: "'x Violations" where
  "noViolations = \<lparr>AlertViolations = [], ProcessViolation = None\<rparr>"

record ('sec, 'x, 'i, 'e, 'm) policyLib =
  regexCompile :: regexLib
  LabelBasedPolicyScoping :: bool
  EvaluationFilterEnabled :: bool
  SectionContainsFieldOfType :: "'sec \<Rightarrow> RuntimeFieldType \<Rightarrow> bool"
  SectionContainsEventSource :: "'sec \<Rightarrow> EventSource \<Rightarrow> bool"
  BuildMatcher :: "matcherKind \<Rightarrow> ('sec, 'x) Policy \<Rightarrow> string + 'm"
  runMatcher :: "'m \<Rightarrow> ('x, 'i, 'e) matchInput \<Rightarrow> string + 'x Violations"

record ('sec, 'x, 'i, 'm) compiledPolicy =
  cp_policy :: "('sec, 'x) Policy"
  cp_filters :: "('x, 'i) EvaluationFilter list"
  cp_predicates :: "Predicate list"
  kubeEventsMatcher :: "'m option"
  deploymentWithProcessMatcher :: "'m option"
  deploymentWithNetworkFlowMatcher :: "'m option"
  deploymentWithFileAccessMatcher :: "'m option"
  deploymentMatcher :: "'m option"
  imageMatcher :: "'m option"
  auditLogEventMatcher :: "'m option"
  nodeMatcher :: "'m option"
  hasProcessSection :: bool
  hasKubeEventsSection :: bool
  hasNetworkFlowSection :: bool
  hasAuditEventsSection :: bool
  hasFileAccessSection :: bool

definition noMatchersSet :: "('sec, 'x, 'i, 'm) compiledPolicy \<Rightarrow> bool" where
  "noMatchersSet cp \<longleftrightarrow> auditLogEventMatcher cp = None \<and> deploymentMatcher cp = None \<and> imageMatcher cp = None
     \<and> deploymentWithProcessMatcher cp = None \<and> kubeEventsMatcher cp = None \<and> deploymentWithNetworkFlowMatcher cp = None
     \<and> deploymentWithFileAccessMatcher cp = None \<and> nodeMatcher cp = None"

definition andThen :: "'err + 'a \<Rightarrow> ('a \<Rightarrow> 'err + 'b) \<Rightarrow> 'err + 'b" where
  "andThen r f = (case r of Inl e \<Rightarrow> Inl e | Inr a \<Rightarrow> f a)"

text \<open>The common part of the setters: a matcher is built if sections are left.\<close>

definition buildFrom :: "('sec, 'x, 'i, 'e, 'm) policyLib \<Rightarrow> matcherKind \<Rightarrow> ('sec, 'x) Policy \<Rightarrow> ('sec \<Rightarrow> bool) \<Rightarrow>
    compileError + 'm option" where
  "buildFrom lib kind policy pred =
     (let filtered = FilterPolicySections policy pred
      in if po_PolicySections filtered = [] then Inr None
         else case BuildMatcher lib kind filtered of Inl e \<Rightarrow> Inl (MatcherError e) | Inr m \<Rightarrow> Inr (Some m))"

definition setBuildTimeMatchers :: "('sec, 'x, 'i, 'e, 'm) policyLib \<Rightarrow> ('sec, 'x) Policy \<Rightarrow>
    ('sec, 'x, 'i, 'm) compiledPolicy \<Rightarrow> compileError + ('sec, 'x, 'i, 'm) compiledPolicy" where
  "setBuildTimeMatchers lib policy cp =
     (case BuildMatcher lib ImageMatcher policy of
        Inl e \<Rightarrow> Inl (MatcherError e) | Inr m \<Rightarrow> Inr (cp\<lparr>imageMatcher := Some m\<rparr>))"

definition setDeployTimeMatchers :: "('sec, 'x, 'i, 'e, 'm) policyLib \<Rightarrow> ('sec, 'x) Policy \<Rightarrow>
    ('sec, 'x, 'i, 'm) compiledPolicy \<Rightarrow> compileError + ('sec, 'x, 'i, 'm) compiledPolicy" where
  "setDeployTimeMatchers lib policy cp =
     (case BuildMatcher lib DeploymentMatcher policy of
        Inl e \<Rightarrow> Inl (MatcherError e) | Inr m \<Rightarrow> Inr (cp\<lparr>deploymentMatcher := Some m\<rparr>))"

definition setAuditLogEventMatcher :: "('sec, 'x, 'i, 'e, 'm) policyLib \<Rightarrow> ('sec, 'x) Policy \<Rightarrow>
    ('sec, 'x, 'i, 'm) compiledPolicy \<Rightarrow> compileError + ('sec, 'x, 'i, 'm) compiledPolicy" where
  "setAuditLogEventMatcher lib policy cp =
     andThen (buildFrom lib AuditLogEventMatcher policy (\<lambda>s. SectionContainsFieldOfType lib s AuditLogEventField))
       (\<lambda>m. Inr (if m = None then cp else cp\<lparr>hasAuditEventsSection := True, auditLogEventMatcher := m\<rparr>))"

definition setProcessEventMatcher :: "('sec, 'x, 'i, 'e, 'm) policyLib \<Rightarrow> ('sec, 'x) Policy \<Rightarrow>
    ('sec, 'x, 'i, 'm) compiledPolicy \<Rightarrow> compileError + ('sec, 'x, 'i, 'm) compiledPolicy" where
  "setProcessEventMatcher lib policy cp =
     andThen (buildFrom lib DeploymentWithProcessMatcher policy
         (\<lambda>s. SectionContainsFieldOfType lib s ProcessField \<and> \<not> SectionContainsFieldOfType lib s FileAccessField))
       (\<lambda>m. Inr (if m = None then cp else cp\<lparr>hasProcessSection := True, deploymentWithProcessMatcher := m\<rparr>))"

definition setKubeEventEventMatcher :: "('sec, 'x, 'i, 'e, 'm) policyLib \<Rightarrow> ('sec, 'x) Policy \<Rightarrow>
    ('sec, 'x, 'i, 'm) compiledPolicy \<Rightarrow> compileError + ('sec, 'x, 'i, 'm) compiledPolicy" where
  "setKubeEventEventMatcher lib policy cp =
     andThen (buildFrom lib KubeEventMatcher policy (\<lambda>s. SectionContainsFieldOfType lib s KubeEventField))
       (\<lambda>m. Inr (if m = None then cp else cp\<lparr>hasKubeEventsSection := True, kubeEventsMatcher := m\<rparr>))"

definition setNetworkFlowEventMatcher :: "('sec, 'x, 'i, 'e, 'm) policyLib \<Rightarrow> ('sec, 'x) Policy \<Rightarrow>
    ('sec, 'x, 'i, 'm) compiledPolicy \<Rightarrow> compileError + ('sec, 'x, 'i, 'm) compiledPolicy" where
  "setNetworkFlowEventMatcher lib policy cp =
     andThen (buildFrom lib DeploymentWithNetworkFlowMatcher policy (\<lambda>s. SectionContainsFieldOfType lib s NetworkFlowField))
       (\<lambda>m. Inr (if m = None then cp else cp\<lparr>hasNetworkFlowSection := True, deploymentWithNetworkFlowMatcher := m\<rparr>))"

definition setFileAccessEventMatcher :: "('sec, 'x, 'i, 'e, 'm) policyLib \<Rightarrow> ('sec, 'x) Policy \<Rightarrow>
    ('sec, 'x, 'i, 'm) compiledPolicy \<Rightarrow> compileError + ('sec, 'x, 'i, 'm) compiledPolicy" where
  "setFileAccessEventMatcher lib policy cp =
     andThen (buildFrom lib DeploymentWithFileAccessMatcher policy (\<lambda>s. SectionContainsFieldOfType lib s FileAccessField))
       (\<lambda>m. Inr (if m = None then cp else cp\<lparr>hasFileAccessSection := True, deploymentWithFileAccessMatcher := m\<rparr>))"

definition setNodeEventMatcher :: "('sec, 'x, 'i, 'e, 'm) policyLib \<Rightarrow> ('sec, 'x) Policy \<Rightarrow>
    ('sec, 'x, 'i, 'm) compiledPolicy \<Rightarrow> compileError + ('sec, 'x, 'i, 'm) compiledPolicy" where
  "setNodeEventMatcher lib policy cp =
     andThen (buildFrom lib NodeEventMatcher policy (\<lambda>s. SectionContainsEventSource lib s NODE_EVENT))
       (\<lambda>m. Inr (if m = None then cp else cp\<lparr>nodeMatcher := m\<rparr>))"

definition setRuntimeMatchers :: "('sec, 'x, 'i, 'e, 'm) policyLib \<Rightarrow> ('sec, 'x) Policy \<Rightarrow>
    ('sec, 'x, 'i, 'm) compiledPolicy \<Rightarrow> compileError + ('sec, 'x, 'i, 'm) compiledPolicy" where
  "setRuntimeMatchers lib policy cp =
     (case po_EventSource policy of
        AUDIT_LOG_EVENT \<Rightarrow> setAuditLogEventMatcher lib policy cp
      | NODE_EVENT \<Rightarrow> setNodeEventMatcher lib policy cp
      | DEPLOYMENT_EVENT \<Rightarrow>
          andThen (setProcessEventMatcher lib policy cp) (\<lambda>cp.
          andThen (setKubeEventEventMatcher lib policy cp) (\<lambda>cp.
          andThen (setNetworkFlowEventMatcher lib policy cp) (\<lambda>cp.
          setFileAccessEventMatcher lib policy cp)))
      | NOT_APPLICABLE \<Rightarrow> Inr cp)"

definition exactlyOneRuntimeMatcherDefined :: "('sec, 'x, 'i, 'm) compiledPolicy \<Rightarrow> bool" where
  "exactlyOneRuntimeMatcherDefined cp \<longleftrightarrow>
     length (filter (\<lambda>m. m \<noteq> None)
       [deploymentWithProcessMatcher cp, kubeEventsMatcher cp, deploymentWithNetworkFlowMatcher cp,
        deploymentWithFileAccessMatcher cp, auditLogEventMatcher cp, nodeMatcher cp]) = 1"

definition runtimePredicates :: "EventSource \<Rightarrow> compiledExclusion list \<Rightarrow> CompiledScope list \<Rightarrow> Predicate list" where
  "runtimePredicates source exclusions scopes =
     (case source of
        NODE_EVENT \<Rightarrow> [fileAccessPredicate]
      | AUDIT_LOG_EVENT \<Rightarrow> [auditEventPredicate exclusions scopes, deploymentPredicate exclusions scopes]
      | _ \<Rightarrow> [deploymentPredicate exclusions scopes])"

definition addPredicates :: "Predicate list \<Rightarrow> ('sec, 'x, 'i, 'm) compiledPolicy \<Rightarrow> ('sec, 'x, 'i, 'm) compiledPolicy" where
  "addPredicates ps cp = cp\<lparr>cp_predicates := cp_predicates cp @ ps\<rparr>"

definition compiledFrom :: "('sec, 'x, 'i, 'e, 'm) policyLib \<Rightarrow> ('sec, 'x) Policy \<Rightarrow> ('sec, 'x, 'i, 'm) compiledPolicy" where
  "compiledFrom lib policy =
     \<lparr>cp_policy = policy, cp_filters = CompileEvaluationFilter (EvaluationFilterEnabled lib) (po_SkipContainerTypes policy),
      cp_predicates = [], kubeEventsMatcher = None, deploymentWithProcessMatcher = None,
      deploymentWithNetworkFlowMatcher = None, deploymentWithFileAccessMatcher = None, deploymentMatcher = None,
      imageMatcher = None, auditLogEventMatcher = None, nodeMatcher = None, hasProcessSection = False,
      hasKubeEventsSection = False, hasNetworkFlowSection = False, hasAuditEventsSection = False, hasFileAccessSection = False\<rparr>"

definition wrapError :: "(compileError \<Rightarrow> compileError) \<Rightarrow> compileError + 'a \<Rightarrow> compileError + 'a" where
  "wrapError w r = (case r of Inl e \<Rightarrow> Inl (w e) | Inr a \<Rightarrow> Inr a)"

definition newCompiledPolicy :: "('sec, 'x, 'i, 'e, 'm) policyLib \<Rightarrow> ClusterLabelProvider option \<Rightarrow> NamespaceLabelProvider option \<Rightarrow>
    ('sec, 'x) Policy \<Rightarrow> compileError + ('sec, 'x, 'i, 'm) compiledPolicy" where
  "newCompiledPolicy lib clusterProvider namespaceProvider policy =
     andThen (mapM_sum (\<lambda>w. wrapError ExclusionError (newCompiledExclusion (regexCompile lib) (LabelBasedPolicyScoping lib) w))
         (po_Exclusions policy)) (\<lambda>exclusions.
     andThen (mapM_sum (\<lambda>s. wrapError ScopeError
         (CompileScope (regexCompile lib) (LabelBasedPolicyScoping lib) s clusterProvider namespaceProvider))
         (po_Scope policy)) (\<lambda>scopes.
     andThen
       (if AppliesAtRunTime policy
        then andThen (setRuntimeMatchers lib policy (compiledFrom lib policy)) (\<lambda>cp.
          if \<not> exactlyOneRuntimeMatcherDefined cp then Inl IncompatibleSections
          else Inr (addPredicates (runtimePredicates (po_EventSource policy) exclusions scopes) cp))
        else Inr (compiledFrom lib policy)) (\<lambda>cp.
     andThen
       (if AppliesAtDeployTime policy
        then andThen (setDeployTimeMatchers lib policy cp) (\<lambda>cp. Inr (addPredicates [deploymentPredicate exclusions scopes] cp))
        else Inr cp) (\<lambda>cp.
     andThen
       (if AppliesAtBuildTime policy
        then andThen (setBuildTimeMatchers lib policy cp) (\<lambda>cp. Inr (addPredicates [imagePredicate (po_Exclusions policy)] cp))
        else Inr cp) (\<lambda>cp.
     if noMatchersSet cp then Inl NoCriteria else Inr cp)))))"

definition CompilePolicy :: "('sec, 'x, 'i, 'e, 'm) policyLib \<Rightarrow> ClusterLabelProvider option \<Rightarrow> NamespaceLabelProvider option \<Rightarrow>
    ('sec, 'x) Policy \<Rightarrow> compileError + ('sec, 'x, 'i, 'm) compiledPolicy" where
  "CompilePolicy lib clusterProvider namespaceProvider policy = newCompiledPolicy lib clusterProvider namespaceProvider policy"

definition AppliesTo :: "int \<Rightarrow> ('sec, 'x, 'i, 'm) compiledPolicy \<Rightarrow> 'x policyInput \<Rightarrow> bool" where
  "AppliesTo now cp input = list_ex (\<lambda>predicate. predicateAppliesTo now predicate input) (cp_predicates cp)"

end
