(* ===== verification/Policy_Detection.thy ===== *)
theory Policy_Detection
  imports Policy_Compiler
begin

text \<open>
  The set of compiled policies and the detection with them: \<open>pkg/detection/policy_set_impl.go\<close>, the detectors
  of \<open>pkg/detection/deploytime\<close> and \<open>pkg/detection/runtime\<close>, and the questions the alert manager asks of
  \<open>central/detection/runtime\<close>.

  A policy set is a map from identifiers; its order is that of the iteration. An alert that is detected
  is described by its policy, subject, violations and enforcement action; its identifier, time and the message
  of the enforcement are left out. The kind of an event is of type \<open>'e\<close>.
\<close>

subsection \<open>Matching a compiled policy\<close>

datatype matchError = NotMatchable string | MatcherFailed string | NotADeployment

definition withMatcher :: "('sec, 'x, 'i, 'e, 'm) policyLib \<Rightarrow> string \<Rightarrow> 'm option \<Rightarrow> ('x, 'i, 'e) matchInput \<Rightarrow>
    matchError + 'x Violations" where
  "withMatcher lib name m input =
     (case m of
        None \<Rightarrow> Inl (NotMatchable name)
      | Some matcher \<Rightarrow> (case runMatcher lib matcher input of Inl e \<Rightarrow> Inl (MatcherFailed e) | Inr v \<Rightarrow> Inr v))"

definition applyFilters :: "('sec, 'x, 'i, 'm) compiledPolicy \<Rightarrow> ('x, 'i) EnhancedDeployment \<Rightarrow> ('x, 'i) EnhancedDeployment \<times> bool" where
  "applyFilters cp ed =
     (if cp_filters cp = [] then (ed, False)
      else let (dep, imgs) = fold (\<lambda>f di. f di) (cp_filters cp) (ed_Deployment ed, ed_Images ed)
           in (ed\<lparr>ed_Deployment := dep, ed_Images := imgs\<rparr>, True))"

definition applyImageFilters :: "('sec, 'x, 'i, 'm) compiledPolicy \<Rightarrow> 'i \<Rightarrow> 'i option \<times> bool" where
  "applyImageFilters cp img =
     (let (ed, changed) = applyFilters cp \<lparr>ed_Deployment = None, ed_Images = [img]\<rparr>
      in if \<not> changed then (Some img, False)
         else if ed_Images ed = [] then (None, True)
         else (Some (hd (ed_Images ed)), True))"

definition MatchAgainstAuditLogEvent :: "('sec, 'x, 'i, 'e, 'm) policyLib \<Rightarrow> ('sec, 'x, 'i, 'm) compiledPolicy \<Rightarrow> 'e \<Rightarrow>
    matchError + 'x Violations" where
  "MatchAgainstAuditLogEvent lib cp kubeEvent =
     (if \<not> hasAuditEventsSection cp then Inr noViolations
      else withMatcher lib (po_Name (cp_policy cp)) (auditLogEventMatcher cp) (On_AuditLogEvent kubeEvent))"

definition MatchAgainstKubeResourceAndEvent :: "('sec, 'x, 'i, 'e, 'm) policyLib \<Rightarrow> ('sec, 'x, 'i, 'm) compiledPolicy \<Rightarrow> 'e \<Rightarrow>
    ('x, 'i) EnhancedDeployment \<Rightarrow> matchError + 'x Violations" where
  "MatchAgainstKubeResourceAndEvent lib cp kubeEvent ed =
     (if \<not> hasKubeEventsSection cp then Inr noViolations
      else withMatcher lib (po_Name (cp_policy cp)) (kubeEventsMatcher cp) (On_KubeEvent kubeEvent (fst (applyFilters cp ed))))"

definition MatchAgainstDeploymentAndProcess :: "('sec, 'x, 'i, 'e, 'm) policyLib \<Rightarrow> ('sec, 'x, 'i, 'm) compiledPolicy \<Rightarrow>
    ('x, 'i) EnhancedDeployment \<Rightarrow> 'e \<Rightarrow> bool \<Rightarrow> matchError + 'x Violations" where
  "MatchAgainstDeploymentAndProcess lib cp ed pi processNotInBaseline =
     (if \<not> hasProcessSection cp then Inr noViolations
      else withMatcher lib (po_Name (cp_policy cp)) (deploymentWithProcessMatcher cp)
             (On_Process (fst (applyFilters cp ed)) pi processNotInBaseline))"

definition MatchAgainstDeploymentAndNetworkFlow :: "('sec, 'x, 'i, 'e, 'm) policyLib \<Rightarrow> ('sec, 'x, 'i, 'm) compiledPolicy \<Rightarrow>
    ('x, 'i) EnhancedDeployment \<Rightarrow> 'e \<Rightarrow> matchError + 'x Violations" where
  "MatchAgainstDeploymentAndNetworkFlow lib cp ed flow =
     (if \<not> hasNetworkFlowSection cp then Inr noViolations
      else withMatcher lib (po_Name (cp_policy cp)) (deploymentWithNetworkFlowMatcher cp)
             (On_NetworkFlow (fst (applyFilters cp ed)) flow))"

definition MatchAgainstDeployment :: "('sec, 'x, 'i, 'e, 'm) policyLib \<Rightarrow> ('sec, 'x, 'i, 'm) compiledPolicy \<Rightarrow>
    ('x, 'i) EnhancedDeployment \<Rightarrow> matchError + 'x Violations" where
  "MatchAgainstDeployment lib cp ed =
     withMatcher lib (po_Name (cp_policy cp)) (deploymentMatcher cp) (On_Deployment (fst (applyFilters cp ed)))"

definition MatchAgainstImage :: "('sec, 'x, 'i, 'e, 'm) policyLib \<Rightarrow> ('sec, 'x, 'i, 'm) compiledPolicy \<Rightarrow> 'i \<Rightarrow>
    matchError + 'x Violations" where
  "MatchAgainstImage lib cp img =
     (if imageMatcher cp = None then Inl (NotMatchable (po_Name (cp_policy cp)))
      else case fst (applyImageFilters cp img) of
        None \<Rightarrow> Inr noViolations
      | Some filtered \<Rightarrow> withMatcher lib (po_Name (cp_policy cp)) (imageMatcher cp) (On_Image filtered))"

definition MatchAgainstNodeAndFileAccess :: "('sec, 'x, 'i, 'e, 'm) policyLib \<Rightarrow> ('sec, 'x, 'i, 'm) compiledPolicy \<Rightarrow> 'e \<Rightarrow> 'e \<Rightarrow>
    matchError + 'x Violations" where
  "MatchAgainstNodeAndFileAccess lib cp node access =
     withMatcher lib (po_Name (cp_policy cp)) (nodeMatcher cp) (On_NodeFileAccess node access)"

definition MatchAgainstDeploymentAndFileAccess :: "('sec, 'x, 'i, 'e, 'm) policyLib \<Rightarrow> ('sec, 'x, 'i, 'm) compiledPolicy \<Rightarrow>
    ('x, 'i) EnhancedDeployment \<Rightarrow> 'e \<Rightarrow> matchError + 'x Violations" where
  "MatchAgainstDeploymentAndFileAccess lib cp ed fileAccess =
     (if \<not> hasFileAccessSection cp then Inr noViolations
      else withMatcher lib (po_Name (cp_policy cp)) (deploymentWithFileAccessMatcher cp)
             (On_FileAccess (fst (applyFilters cp ed)) fileAccess))"

subsection \<open>The policy set\<close>

record ('sec, 'x, 'i, 'm) policySet =
  policyIDToCompiled :: "(string, ('sec, 'x, 'i, 'm) compiledPolicy) gomap"
  ps_clusterLabelProvider :: "ClusterLabelProvider option"
  ps_namespaceLabelProvider :: "NamespaceLabelProvider option"

definition NewPolicySet :: "ClusterLabelProvider option \<Rightarrow> NamespaceLabelProvider option \<Rightarrow> ('sec, 'x, 'i, 'm) policySet" where
  "NewPolicySet clusterProvider namespaceProvider =
     \<lparr>policyIDToCompiled = [], ps_clusterLabelProvider = clusterProvider, ps_namespaceLabelProvider = namespaceProvider\<rparr>"

text \<open>The function is called for every policy; its errors are collected, its results concatenated.\<close>

definition ForEach :: "(('sec, 'x, 'i, 'm) compiledPolicy \<Rightarrow> 'err + 'a list) \<Rightarrow> ('sec, 'x, 'i, 'm) policySet \<Rightarrow> 'err list + 'a list" where
  "ForEach f p =
     (let results = map (f \<circ> snd) (policyIDToCompiled p);
          errs = concat (map (\<lambda>r. case r of Inl e \<Rightarrow> [e] | Inr a \<Rightarrow> []) results)
      in if errs = [] then Inr (concat (map (\<lambda>r. case r of Inl e \<Rightarrow> [] | Inr a \<Rightarrow> a) results)) else Inl errs)"

datatype 'err policySetError = PolicyNotFound string | FromFunction 'err

definition ForOne :: "string \<Rightarrow> (('sec, 'x, 'i, 'm) compiledPolicy \<Rightarrow> 'err + 'a) \<Rightarrow> ('sec, 'x, 'i, 'm) policySet \<Rightarrow>
    'err policySetError + 'a" where
  "ForOne pID f p =
     (case mget (policyIDToCompiled p) pID of
        None \<Rightarrow> Inl (PolicyNotFound pID)
      | Some compiled \<Rightarrow> (case f compiled of Inl e \<Rightarrow> Inl (FromFunction e) | Inr a \<Rightarrow> Inr a))"

definition UpsertCompiledPolicy :: "('sec, 'x, 'i, 'm) compiledPolicy \<Rightarrow> ('sec, 'x, 'i, 'm) policySet \<Rightarrow> ('sec, 'x, 'i, 'm) policySet" where
  "UpsertCompiledPolicy compiled p = p\<lparr>policyIDToCompiled := mput (po_Id (cp_policy compiled)) compiled (policyIDToCompiled p)\<rparr>"

definition UpsertPolicy :: "('sec, 'x, 'i, 'e, 'm) policyLib \<Rightarrow> ('sec, 'x) Policy \<Rightarrow> ('sec, 'x, 'i, 'm) policySet \<Rightarrow>
    compileError option \<times> ('sec, 'x, 'i, 'm) policySet" where
  "UpsertPolicy lib policy p =
     (case CompilePolicy lib (ps_clusterLabelProvider p) (ps_namespaceLabelProvider p) policy of
        Inl e \<Rightarrow> (Some e, p)
      | Inr compiled \<Rightarrow> (None, UpsertCompiledPolicy compiled p))"

definition RemovePolicy :: "string \<Rightarrow> ('sec, 'x, 'i, 'm) policySet \<Rightarrow> ('sec, 'x, 'i, 'm) policySet" where
  "RemovePolicy policyID p = p\<lparr>policyIDToCompiled := mdel policyID (policyIDToCompiled p)\<rparr>"

definition PolicyExists :: "string \<Rightarrow> ('sec, 'x, 'i, 'm) policySet \<Rightarrow> bool" where
  "PolicyExists pID p \<longleftrightarrow> mget (policyIDToCompiled p) pID \<noteq> None"

text \<open>The notifier is also removed from the policies in memory, before the store is updated; an error stops the loop,
  unless the policy is gone from the store (\<open>True\<close>).\<close>

fun removeNotifierLoop :: "(('sec, 'x) Policy \<Rightarrow> 's \<Rightarrow> (bool \<times> string) option \<times> 's) \<Rightarrow> string \<Rightarrow>
    (string \<times> ('sec, 'x, 'i, 'm) compiledPolicy) list \<Rightarrow> 's \<Rightarrow> string option \<times> (string \<times> ('sec, 'x, 'i, 'm) compiledPolicy) list \<times> 's" where
  "removeNotifierLoop upd notifierID [] s = (None, [], s)"
| "removeNotifierLoop upd notifierID ((pid, cp) # rest) s =
     (let notifiers = po_Notifiers (cp_policy cp);
          kept = filter (\<lambda>n. n \<noteq> notifierID) notifiers
      in if length kept \<ge> length notifiers
         then (let (err, rest', s') = removeNotifierLoop upd notifierID rest s in (err, (pid, cp) # rest', s'))
         else
           let cp' = cp\<lparr>cp_policy := (cp_policy cp)\<lparr>po_Notifiers := kept\<rparr>\<rparr>
           in case upd (cp_policy cp') s of
                (Some (False, e), s1) \<Rightarrow> (Some e, (pid, cp') # rest, s1)
              | (_, s1) \<Rightarrow> (let (err, rest', s') = removeNotifierLoop upd notifierID rest s1 in (err, (pid, cp') # rest', s')))"

definition RemoveNotifier :: "(('sec, 'x) Policy \<Rightarrow> 's \<Rightarrow> (bool \<times> string) option \<times> 's) \<Rightarrow> string \<Rightarrow>
    ('sec, 'x, 'i, 'm) policySet \<Rightarrow> 's \<Rightarrow> string option \<times> ('sec, 'x, 'i, 'm) policySet \<times> 's" where
  "RemoveNotifier upd notifierID p s =
     (let (err, m, s') = removeNotifierLoop upd notifierID (policyIDToCompiled p) s in (err, p\<lparr>policyIDToCompiled := m\<rparr>, s'))"

subsection \<open>Detection on deployments\<close>

text \<open>\<open>About_Nothing\<close> is the conversion of a nil deployment.\<close>

datatype ('x, 'e) alertSubject = About_Deployment "'x StorageDeployment" | About_Event 'e | About_Node 'e | About_Nothing

record ('sec, 'x, 'e) newAlert =
  na_Policy :: "('sec, 'x) Policy"
  na_LifecycleStage :: LifecycleStage
  na_Subject :: "('x, 'e) alertSubject"
  na_Violations :: "'x Violation list"
  na_ProcessViolation :: "'x ProcessViolation option"
  na_Enforcement :: "EnforcementAction option"

definition scaleToZeroEnabled :: "'x StorageDeployment \<Rightarrow> bool" where
  "scaleToZeroEnabled deployment = (if dp_Type deployment = ''Global'' \<or> dp_Type deployment = ''DaemonSet'' then False else True)"

fun deployEnforcement :: "'x StorageDeployment \<Rightarrow> EnforcementAction list \<Rightarrow> EnforcementAction" where
  "deployEnforcement deployment [] = UNSET_ENFORCEMENT"
| "deployEnforcement deployment (action # actions) =
     (if action = SCALE_TO_ZERO_ENFORCEMENT \<and> scaleToZeroEnabled deployment then SCALE_TO_ZERO_ENFORCEMENT
      else if action = UNSATISFIABLE_NODE_CONSTRAINT_ENFORCEMENT then UNSATISFIABLE_NODE_CONSTRAINT_ENFORCEMENT
      else deployEnforcement deployment actions)"

definition enforcementOf :: "EnforcementAction \<Rightarrow> EnforcementAction option" where
  "enforcementOf action = (if action \<noteq> UNSET_ENFORCEMENT then Some action else None)"

definition PolicyDeploymentAndViolationsToAlert :: "('sec, 'x) Policy \<Rightarrow> 'x StorageDeployment \<Rightarrow> 'x Violation list \<Rightarrow>
    ('sec, 'x, 'e) newAlert option" where
  "PolicyDeploymentAndViolationsToAlert policy deployment violations =
     (if violations = [] then None
      else Some \<lparr>na_Policy = policy, na_LifecycleStage = DEPLOY, na_Subject = About_Deployment deployment,
             na_Violations = violations, na_ProcessViolation = None,
             na_Enforcement = enforcementOf (deployEnforcement deployment (po_EnforcementActions policy))\<rparr>)"

record ('sec, 'x) detectionConfig =
  enforcementOnly :: bool
  policyFilters :: "(('sec, 'x) Policy \<Rightarrow> bool) list"

definition deployDetectOne :: "('sec, 'x, 'i, 'e, 'm) policyLib \<Rightarrow> int \<Rightarrow> ('sec, 'x) detectionConfig \<Rightarrow> 'x StorageDeployment \<Rightarrow>
    'i list \<Rightarrow> ('sec, 'x, 'i, 'm) compiledPolicy \<Rightarrow> matchError + ('sec, 'x, 'e) newAlert list" where
  "deployDetectOne lib now cfg deployment images compiled =
     (if po_Disabled (cp_policy compiled) then Inr []
      else if \<not> list_all (\<lambda>f. f (cp_policy compiled)) (policyFilters cfg) then Inr []
      else if \<not> AppliesTo now compiled (Input_Deployment deployment) then Inr []
      else if deployEnforcement deployment (po_EnforcementActions (cp_policy compiled)) = UNSET_ENFORCEMENT \<and> enforcementOnly cfg
      then Inr []
      else case MatchAgainstDeployment lib compiled \<lparr>ed_Deployment = Some deployment, ed_Images = images\<rparr> of
        Inl e \<Rightarrow> Inl e
      | Inr violations \<Rightarrow>
          (case PolicyDeploymentAndViolationsToAlert (cp_policy compiled) deployment (AlertViolations violations) of
             None \<Rightarrow> Inr [] | Some a \<Rightarrow> Inr [a]))"

definition deployDetect :: "('sec, 'x, 'i, 'e, 'm) policyLib \<Rightarrow> int \<Rightarrow> ('sec, 'x) detectionConfig \<Rightarrow> 'x StorageDeployment \<Rightarrow>
    'i list \<Rightarrow> ('sec, 'x, 'i, 'm) policySet \<Rightarrow> matchError list + ('sec, 'x, 'e) newAlert list" where
  "deployDetect lib now cfg deployment images p = ForEach (deployDetectOne lib now cfg deployment images) p"

subsection \<open>Detection on processes, events, flows and file accesses\<close>

definition runtimeAlert :: "('sec, 'x) Policy \<Rightarrow> ('x, 'e) alertSubject \<Rightarrow> 'x Violations \<Rightarrow> EnforcementAction option \<Rightarrow>
    ('sec, 'x, 'e) newAlert" where
  "runtimeAlert policy subject violations enforcement =
     \<lparr>na_Policy = policy, na_LifecycleStage = RUNTIME, na_Subject = subject, na_Violations = AlertViolations violations,
      na_ProcessViolation = None, na_Enforcement = enforcement\<rparr>"

definition runtimeEnforcement :: "('sec, 'x) Policy \<Rightarrow> EnforcementAction \<Rightarrow> EnforcementAction option" where
  "runtimeEnforcement policy action = (if action \<in> set (po_EnforcementActions policy) then Some action else None)"

definition constructProcessAlert :: "('sec, 'x) Policy \<Rightarrow> 'x StorageDeployment \<Rightarrow> 'x Violations \<Rightarrow> ('sec, 'x, 'e) newAlert list" where
  "constructProcessAlert policy deployment violations =
     (if AlertViolations violations = [] \<and> ProcessViolation violations = None then []
      else [(runtimeAlert policy (About_Deployment deployment) violations (runtimeEnforcement policy KILL_POD_ENFORCEMENT))
              \<lparr>na_ProcessViolation := ProcessViolation violations\<rparr>])"

text \<open>A file access is of a node (\<open>Some\<close>) or of the deployment.\<close>

definition constructFileAccessAlert :: "('sec, 'x) Policy \<Rightarrow> 'e option \<Rightarrow> 'x StorageDeployment option \<Rightarrow> 'x Violations \<Rightarrow>
    ('sec, 'x, 'e) newAlert list" where
  "constructFileAccessAlert policy node deployment violations =
     (if AlertViolations violations = [] then []
      else case (node, deployment) of
        (Some n, Some d) \<Rightarrow> []
      | (Some n, None) \<Rightarrow> [runtimeAlert policy (About_Node n) violations None]
      | (None, Some d) \<Rightarrow> [runtimeAlert policy (About_Deployment d) violations (runtimeEnforcement policy KILL_POD_ENFORCEMENT)]
      | (None, None) \<Rightarrow> [runtimeAlert policy About_Nothing violations (runtimeEnforcement policy KILL_POD_ENFORCEMENT)])"

text \<open>The resource of the event is a deployment or nil, which the code converts without a check: \<open>NotADeployment\<close> is
  the panic.\<close>

definition constructKubeEventAlert :: "('sec, 'x) Policy \<Rightarrow> 'e \<Rightarrow> 'x StorageDeployment option \<Rightarrow> 'x Violations \<Rightarrow>
    matchError + ('sec, 'x, 'e) newAlert list" where
  "constructKubeEventAlert policy kubeEvent kubeResource violations =
     (if AlertViolations violations = [] then Inr []
      else if po_EventSource policy = AUDIT_LOG_EVENT then Inr [runtimeAlert policy (About_Event kubeEvent) violations None]
      else case kubeResource of
        None \<Rightarrow> Inl NotADeployment
      | Some d \<Rightarrow> Inr [runtimeAlert policy (About_Deployment d) violations (runtimeEnforcement policy FAIL_KUBE_REQUEST_ENFORCEMENT)])"

definition constructNetworkFlowAlert :: "('sec, 'x) Policy \<Rightarrow> 'x StorageDeployment \<Rightarrow> 'x Violations \<Rightarrow> ('sec, 'x, 'e) newAlert list" where
  "constructNetworkFlowAlert policy deployment violations =
     (if AlertViolations violations = [] then [] else [runtimeAlert policy (About_Deployment deployment) violations None])"

record 'e runtimeInput =
  in_process :: "('e \<times> bool) option"
  in_kubeEvent :: "'e option"
  in_flow :: "'e option"
  in_fileAccess :: "'e option"

text \<open>A step runs if its input is given, and adds its alerts.\<close>

definition detectStep :: "'b option \<Rightarrow> ('b \<Rightarrow> matchError + 'x Violations) \<Rightarrow> ('b \<Rightarrow> 'x Violations \<Rightarrow> matchError + 'a list) \<Rightarrow>
    matchError + 'a list" where
  "detectStep input m construct = (case input of None \<Rightarrow> Inr [] | Some x \<Rightarrow> andThen (m x) (construct x))"

text \<open>The alerts of the steps before an error stay in the list, but the whole detection then fails.\<close>

definition runtimeDetectOne :: "('sec, 'x, 'i, 'e, 'm) policyLib \<Rightarrow> int \<Rightarrow> 'x StorageDeployment \<Rightarrow> 'i list \<Rightarrow> 'e runtimeInput \<Rightarrow>
    ('sec, 'x, 'i, 'm) compiledPolicy \<Rightarrow> matchError + ('sec, 'x, 'e) newAlert list" where
  "runtimeDetectOne lib now deployment images input compiled =
     (let ed = \<lparr>ed_Deployment = Some deployment, ed_Images = images\<rparr>; policy = cp_policy compiled
      in if po_Disabled policy then Inr []
         else if \<not> AppliesTo now compiled (Input_Deployment deployment) then Inr []
         else
           andThen (detectStep (in_process input)
             (\<lambda>(process, notInBaseline). MatchAgainstDeploymentAndProcess lib compiled ed process notInBaseline)
             (\<lambda>x v. Inr (constructProcessAlert policy deployment v))) (\<lambda>a1.
           andThen (detectStep (in_kubeEvent input) (\<lambda>x. MatchAgainstKubeResourceAndEvent lib compiled x ed)
             (\<lambda>x. constructKubeEventAlert policy x (Some deployment))) (\<lambda>a2.
           andThen (detectStep (in_flow input) (MatchAgainstDeploymentAndNetworkFlow lib compiled ed)
             (\<lambda>x v. Inr (constructNetworkFlowAlert policy deployment v))) (\<lambda>a3.
           andThen (detectStep (in_fileAccess input) (MatchAgainstDeploymentAndFileAccess lib compiled ed)
             (\<lambda>x v. Inr (constructFileAccessAlert policy None (Some deployment) v))) (\<lambda>a4.
           Inr (a1 @ a2 @ a3 @ a4))))))"

definition detectForDeployment :: "('sec, 'x, 'i, 'e, 'm) policyLib \<Rightarrow> int \<Rightarrow> 'x StorageDeployment \<Rightarrow> 'i list \<Rightarrow> 'e runtimeInput \<Rightarrow>
    ('sec, 'x, 'i, 'm) policySet \<Rightarrow> matchError list + ('sec, 'x, 'e) newAlert list" where
  "detectForDeployment lib now deployment images input p = ForEach (runtimeDetectOne lib now deployment images input) p"

text \<open>The event that the predicates look at is part of the event that is matched.\<close>

definition auditDetectOne :: "('sec, 'x, 'i, 'e, 'm) policyLib \<Rightarrow> int \<Rightarrow> ('e \<Rightarrow> KubernetesEvent) \<Rightarrow> 'e \<Rightarrow>
    ('sec, 'x, 'i, 'm) compiledPolicy \<Rightarrow> matchError + ('sec, 'x, 'e) newAlert list" where
  "auditDetectOne lib now kubeEventOf auditEvent compiled =
     (if po_Disabled (cp_policy compiled) then Inr []
      else if \<not> AppliesTo now compiled (Input_AuditEvent (kubeEventOf auditEvent)) then Inr []
      else andThen (MatchAgainstAuditLogEvent lib compiled auditEvent)
             (constructKubeEventAlert (cp_policy compiled) auditEvent None))"

definition detectForAuditEvent :: "('sec, 'x, 'i, 'e, 'm) policyLib \<Rightarrow> int \<Rightarrow> ('e \<Rightarrow> KubernetesEvent) \<Rightarrow>
    ('sec, 'x, 'i, 'm) policySet \<Rightarrow> 'e \<Rightarrow> matchError list + ('sec, 'x, 'e) newAlert list" where
  "detectForAuditEvent lib now kubeEventOf p auditEvent = ForEach (auditDetectOne lib now kubeEventOf auditEvent) p"

definition DetectForAuditEvents :: "('sec, 'x, 'i, 'e, 'm) policyLib \<Rightarrow> int \<Rightarrow> ('e \<Rightarrow> KubernetesEvent) \<Rightarrow>
    ('sec, 'x, 'i, 'm) policySet \<Rightarrow> 'e list \<Rightarrow> matchError list + ('sec, 'x, 'e) newAlert list" where
  "DetectForAuditEvents lib now kubeEventOf p auditEvents =
     (case mapM_sum (detectForAuditEvent lib now kubeEventOf p) auditEvents of Inl e \<Rightarrow> Inl e | Inr alerts \<Rightarrow> Inr (concat alerts))"

definition nodeDetectOne :: "('sec, 'x, 'i, 'e, 'm) policyLib \<Rightarrow> int \<Rightarrow> 'e \<Rightarrow> 'e \<Rightarrow>
    ('sec, 'x, 'i, 'm) compiledPolicy \<Rightarrow> matchError + ('sec, 'x, 'e) newAlert list" where
  "nodeDetectOne lib now node access compiled =
     (if po_Disabled (cp_policy compiled) then Inr []
      else if \<not> AppliesTo now compiled Input_FileAccess then Inr []
      else case MatchAgainstNodeAndFileAccess lib compiled node access of
        Inl e \<Rightarrow> Inl e
      | Inr v \<Rightarrow> Inr (constructFileAccessAlert (cp_policy compiled) (Some node) None v))"

definition DetectForNodeAndFileAccess :: "('sec, 'x, 'i, 'e, 'm) policyLib \<Rightarrow> int \<Rightarrow> 'e \<Rightarrow> 'e \<Rightarrow>
    ('sec, 'x, 'i, 'm) policySet \<Rightarrow> matchError list + ('sec, 'x, 'e) newAlert list" where
  "DetectForNodeAndFileAccess lib now node access p = ForEach (nodeDetectOne lib now node access) p"

subsection \<open>The questions of the alert manager\<close>

text \<open>The methods of the datastore of deployments.\<close>

record 'x deploymentStore =
  GetStoredDeployment :: "string \<Rightarrow> string + 'x StorageDeployment option"
  ListDeployment :: "string \<Rightarrow> string + bool"

definition centralWhitelisted :: "int \<Rightarrow> 'x deploymentStore \<Rightarrow> ('sec, 'x, 'i, 'm) policySet \<Rightarrow> string \<Rightarrow> string \<Rightarrow> bool" where
  "centralWhitelisted now deployments p deploymentID policyID =
     (case ForOne policyID (\<lambda>compiled.
         if po_Disabled (cp_policy compiled) then Inr True
         else case GetStoredDeployment deployments deploymentID of
           Inl e \<Rightarrow> Inl e
         | Inr None \<Rightarrow> Inr False
         | Inr (Some dep) \<Rightarrow> Inr (\<not> AppliesTo now compiled (Input_Deployment dep))) p of
        Inl e \<Rightarrow> False
      | Inr result \<Rightarrow> result)"

definition centralInactive :: "'x deploymentStore \<Rightarrow> string \<Rightarrow> bool" where
  "centralInactive deployments deploymentID =
     (case ListDeployment deployments deploymentID of Inl e \<Rightarrow> False | Inr ex \<Rightarrow> \<not> ex)"

definition centralDetector :: "int \<Rightarrow> 'x deploymentStore \<Rightarrow> ('sec, 'x, 'i, 'm) policySet \<Rightarrow> runtimeDetector" where
  "centralDetector now deployments p =
     \<lparr>policyExists = (\<lambda>pID. PolicyExists pID p), DeploymentWhitelistedForPolicy = centralWhitelisted now deployments p,
      DeploymentInactive = centralInactive deployments\<rparr>"

end
