(* ===== verification/Policy_Facts.thy ===== *)
theory Policy_Facts
  imports Policy_Detection
begin

text \<open>
  What a compiled policy does: it applies where its scopes and exclusions say, its matchers are those of
  its stages, and the filter of containers keeps images with their containers.
\<close>

subsection \<open>What a scope covers\<close>

definition regexMatches :: "regexLib \<Rightarrow> string \<Rightarrow> string \<Rightarrow> bool" where
  "regexMatches regex re s \<longleftrightarrow> re = [] \<or> (\<exists>m. regex re = Some m \<and> m s)"

definition labelCovers :: "regexLib \<Rightarrow> ScopeLabel option \<Rightarrow> (string, string) gomap \<Rightarrow> bool" where
  "labelCovers regex label labels \<longleftrightarrow>
     (\<forall>l. label = Some l \<longrightarrow> (\<exists>(k, v) \<in> set labels. regexMatches regex (sl_Key l) k \<and> regexMatches regex (sl_Value l) v))"

text \<open>The cluster and namespace labels of a scope need a provider that knows the labels.\<close>

definition providedCovers :: "regexLib \<Rightarrow> ScopeLabel option \<Rightarrow> (string + (string, string) gomap) option \<Rightarrow> bool" where
  "providedCovers regex label answer \<longleftrightarrow> label = None \<or> (\<exists>labels. answer = Some (Inr labels) \<and> labelCovers regex label labels)"

definition scopeCovers :: "regexLib \<Rightarrow> ClusterLabelProvider option \<Rightarrow> NamespaceLabelProvider option \<Rightarrow> Scope \<Rightarrow>
    'x StorageDeployment \<Rightarrow> bool" where
  "scopeCovers regex clusterProvider namespaceProvider sc d \<longleftrightarrow>
     (sc_Cluster sc = [] \<or> sc_Cluster sc = dp_ClusterId d)
     \<and> providedCovers regex (sc_ClusterLabel sc) (map_option (\<lambda>p. p (dp_ClusterId d)) clusterProvider)
     \<and> regexMatches regex (sc_Namespace sc) (dp_Namespace d)
     \<and> providedCovers regex (sc_NamespaceLabel sc) (map_option (\<lambda>p. p (dp_ClusterId d) (dp_Namespace d)) namespaceProvider)
     \<and> labelCovers regex (sc_Label sc) (dp_Labels d)"

definition scopeCoversEvent :: "regexLib \<Rightarrow> ClusterLabelProvider option \<Rightarrow> NamespaceLabelProvider option \<Rightarrow> Scope \<Rightarrow>
    KubernetesEvent \<Rightarrow> bool" where
  "scopeCoversEvent regex clusterProvider namespaceProvider sc ev \<longleftrightarrow>
     (sc_Cluster sc = [] \<or> sc_Cluster sc = ke_ClusterId ev)
     \<and> providedCovers regex (sc_ClusterLabel sc) (map_option (\<lambda>p. p (ke_ClusterId ev)) clusterProvider)
     \<and> (ke_Namespace ev \<noteq> [] \<longrightarrow> regexMatches regex (sc_Namespace sc) (ke_Namespace ev)
          \<and> providedCovers regex (sc_NamespaceLabel sc) (map_option (\<lambda>p. p (ke_ClusterId ev) (ke_Namespace ev)) namespaceProvider))"

lemma WholeString_matches: "CompileWholeStringMatcher regex re = Some m \<Longrightarrow> m s = regexMatches regex re s"
  by (auto simp: CompileWholeStringMatcher_def regexMatches_def split: if_splits)

lemma compileLabel_matches:
  "compileLabelMatchers regex label t = Inr ms \<Longrightarrow> MatchesLabels ms labels = labelCovers regex label labels"
  "compileLabelMatchers regex label t = Inr ms \<Longrightarrow> ms = None \<longleftrightarrow> label = None"
  by (auto simp: compileLabelMatchers_def MatchesLabels_def labelCovers_def list_ex_iff WholeString_matches split: option.splits)
    (force+)

lemma CompileScope_parts:
  assumes "CompileScope regex ls sc clusterProvider namespaceProvider = Inr cs"
  shows "cs_ClusterID cs = sc_Cluster sc" "CompileWholeStringMatcher regex (sc_Namespace sc) = Some (cs_Namespace cs)"
    "compileLabelMatchers regex (sc_ClusterLabel sc) clusterLabelType = Inr (cs_ClusterLabel cs)"
    "compileLabelMatchers regex (sc_NamespaceLabel sc) namespaceLabelType = Inr (cs_NamespaceLabel cs)"
    "compileLabelMatchers regex (sc_Label sc) deploymentLabelType = Inr (cs_Label cs)"
    "clusterLabelProvider cs = clusterProvider" "namespaceLabelProvider cs = namespaceProvider"
  using assms by (auto simp: CompileScope_def compileLabelMatchers_def split: option.splits sum.splits if_splits)

lemma provided_matches:
  assumes "compileLabelMatchers regex label t = Inr ms"
  shows "(if ms = None then True
      else case provider of None \<Rightarrow> False | Some p \<Rightarrow> (case p c of Inl e \<Rightarrow> False | Inr labels \<Rightarrow> MatchesLabels ms labels)) =
    providedCovers regex label (map_option (\<lambda>p. p c) provider)"
  using compileLabel_matches [OF assms] by (auto simp: providedCovers_def split: option.splits sum.splits)

lemma clusterLabels_match:
  assumes "CompileScope regex ls sc clusterProvider namespaceProvider = Inr cs"
  shows "MatchesClusterLabels cs c = providedCovers regex (sc_ClusterLabel sc) (map_option (\<lambda>p. p c) clusterProvider)"
  unfolding MatchesClusterLabels_def CompileScope_parts(6) [OF assms] by (rule provided_matches [OF CompileScope_parts(3) [OF assms]])

lemma namespaceLabels_match:
  assumes "CompileScope regex ls sc clusterProvider namespaceProvider = Inr cs"
  shows "MatchesNamespaceLabels cs c n = providedCovers regex (sc_NamespaceLabel sc) (map_option (\<lambda>p. p c n) namespaceProvider)"
  unfolding MatchesNamespaceLabels_def CompileScope_parts(7) [OF assms]
  using provided_matches [OF CompileScope_parts(4) [OF assms], where provider = "map_option (\<lambda>p. p c) namespaceProvider" and c = n]
  by (cases namespaceProvider) (auto split: if_splits)

lemma CompileScope_deployment:
  assumes "CompileScope regex ls sc clusterProvider namespaceProvider = Inr cs"
  shows "scopeMatchesDeployment (Some cs) d = scopeCovers regex clusterProvider namespaceProvider sc d"
  unfolding scopeMatchesDeployment_def scopeCovers_def clusterLabels_match [OF assms] namespaceLabels_match [OF assms]
    compileLabel_matches(1) [OF CompileScope_parts(5) [OF assms]] MatchesNamespace_def MatchesCluster_def option.case
    WholeString_matches [OF CompileScope_parts(2) [OF assms]] CompileScope_parts(1) [OF assms]
  by auto

lemma CompileScope_event:
  assumes "CompileScope regex ls sc clusterProvider namespaceProvider = Inr cs"
  shows "scopeMatchesAuditEvent (Some cs) ev = scopeCoversEvent regex clusterProvider namespaceProvider sc ev"
  unfolding scopeMatchesAuditEvent_def scopeCoversEvent_def clusterLabels_match [OF assms] namespaceLabels_match [OF assms]
    MatchesNamespace_def MatchesCluster_def option.case
    WholeString_matches [OF CompileScope_parts(2) [OF assms]] CompileScope_parts(1) [OF assms]
  by auto

subsection \<open>What an exclusion covers\<close>

definition expired :: "int \<Rightarrow> Exclusion \<Rightarrow> bool" where
  "expired now x \<longleftrightarrow> (\<exists>t. ex_Expiration x = Some t \<and> t < now)"

lemma exclusionIsExpired_iff: "exclusionIsExpired now x = expired now x"
  by (auto simp: exclusionIsExpired_def expired_def CompareTimestamps_def asTime_def)

definition exclusionCovers :: "regexLib \<Rightarrow> int \<Rightarrow> Exclusion \<Rightarrow> 'x StorageDeployment \<Rightarrow> bool" where
  "exclusionCovers regex now x d \<longleftrightarrow> \<not> expired now x
     \<and> (\<forall>dep. ex_Deployment x = Some dep \<longrightarrow>
          (ed_Name dep = [] \<or> regexMatches regex (ed_Name dep) (dp_Name d))
          \<and> (\<forall>sc. ed_Scope dep = Some sc \<longrightarrow> scopeCovers regex None None sc d))"

definition exclusionCoversEvent :: "regexLib \<Rightarrow> int \<Rightarrow> Exclusion \<Rightarrow> KubernetesEvent \<Rightarrow> bool" where
  "exclusionCoversEvent regex now x ev \<longleftrightarrow> \<not> expired now x
     \<and> (\<forall>dep sc. ex_Deployment x = Some dep \<and> ed_Scope dep = Some sc \<longrightarrow> scopeCoversEvent regex None None sc ev)"

lemma name_matcher: "(case CompileWholeStringMatcher regex re of None \<Rightarrow> alwaysFalseMatcher | Some m \<Rightarrow> m) s = regexMatches regex re s"
  by (auto simp: CompileWholeStringMatcher_def regexMatches_def alwaysFalseMatcher_def split: option.split)

lemma compiledExclusion_matches:
  assumes "newCompiledExclusion regex ls x = Inr cx"
  shows "exclusionMatchesDeployment now cx d = exclusionCovers regex now x d"
    "exclusionMatchesAuditEvent now cx ev = exclusionCoversEvent regex now x ev"
proof -
  have x: "cx_exclusion cx = x" using assms
    by (auto simp: newCompiledExclusion_def Let_def split: option.splits sum.splits)
  have "exclusionMatchesDeployment now cx d = exclusionCovers regex now x d
      \<and> exclusionMatchesAuditEvent now cx ev = exclusionCoversEvent regex now x ev"
  proof (cases "ex_Deployment x")
    case None
    then have "deploymentNameMatcher cx = None" "cx_cs cx = None"
      using assms by (auto simp: newCompiledExclusion_def)
    with None show ?thesis
      by (simp add: exclusionMatchesDeployment_def exclusionMatchesAuditEvent_def exclusionCovers_def exclusionCoversEvent_def
          x exclusionIsExpired_iff scopeMatchesDeployment_def scopeMatchesAuditEvent_def)
  next
    case (Some dep)
    have name: "(case deploymentNameMatcher cx of None \<Rightarrow> False | Some m \<Rightarrow> \<not> m (dp_Name d)) \<longleftrightarrow>
        \<not> (ed_Name dep = [] \<or> regexMatches regex (ed_Name dep) (dp_Name d))"
    proof -
      have "deploymentNameMatcher cx = (if ed_Name dep \<noteq> []
          then Some (case CompileWholeStringMatcher regex (ed_Name dep) of None \<Rightarrow> alwaysFalseMatcher | Some m \<Rightarrow> m) else None)"
        using assms Some by (cases "ed_Scope dep") (auto simp: newCompiledExclusion_def Let_def split: sum.splits)
      then show ?thesis using name_matcher by auto
    qed
    have "(ed_Scope dep = None \<and> cx_cs cx = None) \<or> (\<exists>sc cs. ed_Scope dep = Some sc \<and> cx_cs cx = Some cs \<and> CompileScope regex ls sc None None = Inr cs)"
      using assms Some by (auto simp: newCompiledExclusion_def Let_def split: option.splits sum.splits)
    then have "scopeMatchesDeployment (cx_cs cx) d \<longleftrightarrow> (\<forall>sc. ed_Scope dep = Some sc \<longrightarrow> scopeCovers regex None None sc d)"
      "scopeMatchesAuditEvent (cx_cs cx) ev \<longleftrightarrow> (\<forall>sc. ed_Scope dep = Some sc \<longrightarrow> scopeCoversEvent regex None None sc ev)"
      by (auto simp: CompileScope_deployment CompileScope_event, simp_all add: scopeMatchesDeployment_def scopeMatchesAuditEvent_def)
    with name Some show ?thesis
      by (simp add: exclusionMatchesDeployment_def exclusionMatchesAuditEvent_def exclusionCovers_def exclusionCoversEvent_def
          x exclusionIsExpired_iff)
  qed
  then show "exclusionMatchesDeployment now cx d = exclusionCovers regex now x d"
    "exclusionMatchesAuditEvent now cx ev = exclusionCoversEvent regex now x ev" by auto
qed

subsection \<open>The parts of a compiled policy\<close>

lemma andThen_Inr: "andThen r f = Inr b \<longleftrightarrow> (\<exists>a. r = Inr a \<and> f a = Inr b)"
  by (simp add: andThen_def split: sum.split)

lemma andThen_InrE: "andThen r f = Inr b \<Longrightarrow> (\<And>a. r = Inr a \<Longrightarrow> f a = Inr b \<Longrightarrow> P) \<Longrightarrow> P"
  by (auto simp: andThen_Inr)

lemma checked_InrE: "(if failed then Inl e else Inr a) = Inr c \<Longrightarrow> (a = c \<Longrightarrow> P) \<Longrightarrow> P"
  by (auto split: if_splits)

lemma wrapError_Inr [simp]: "wrapError w r = Inr a \<longleftrightarrow> r = Inr a"
  by (simp add: wrapError_def split: sum.split)

lemmas setter_defs = setAuditLogEventMatcher_def setProcessEventMatcher_def setKubeEventEventMatcher_def
  setNetworkFlowEventMatcher_def setFileAccessEventMatcher_def setNodeEventMatcher_def

text \<open>What the setters of runtime matchers leave alone, and what they set.\<close>

lemma setRuntime_frame:
  assumes "setRuntimeMatchers lib policy cp = Inr cp'"
  shows "cp_policy cp' = cp_policy cp \<and> cp_filters cp' = cp_filters cp \<and> cp_predicates cp' = cp_predicates cp
    \<and> deploymentMatcher cp' = deploymentMatcher cp \<and> imageMatcher cp' = imageMatcher cp"
  using assms unfolding setRuntimeMatchers_def setter_defs
  by (auto simp: andThen_Inr split: EventSource.splits if_splits)

text \<open>Every section that a policy has is one its matcher was built for, and the matchers are those of its
  event source.\<close>

definition sectionsMatch :: "('sec, 'x, 'i, 'm) compiledPolicy \<Rightarrow> bool" where
  "sectionsMatch c \<longleftrightarrow>
     (hasProcessSection c \<longleftrightarrow> deploymentWithProcessMatcher c \<noteq> None)
     \<and> (hasKubeEventsSection c \<longleftrightarrow> kubeEventsMatcher c \<noteq> None)
     \<and> (hasNetworkFlowSection c \<longleftrightarrow> deploymentWithNetworkFlowMatcher c \<noteq> None)
     \<and> (hasAuditEventsSection c \<longleftrightarrow> auditLogEventMatcher c \<noteq> None)
     \<and> (hasFileAccessSection c \<longleftrightarrow> deploymentWithFileAccessMatcher c \<noteq> None)"

definition matchersOfSource :: "EventSource \<Rightarrow> ('sec, 'x, 'i, 'm) compiledPolicy \<Rightarrow> bool" where
  "matchersOfSource source c \<longleftrightarrow>
     (source \<noteq> AUDIT_LOG_EVENT \<longrightarrow> auditLogEventMatcher c = None) \<and> (source \<noteq> NODE_EVENT \<longrightarrow> nodeMatcher c = None)
     \<and> (source \<noteq> DEPLOYMENT_EVENT \<longrightarrow> deploymentWithProcessMatcher c = None \<and> kubeEventsMatcher c = None
          \<and> deploymentWithNetworkFlowMatcher c = None \<and> deploymentWithFileAccessMatcher c = None)"

lemma setRuntime_matchers:
  assumes "setRuntimeMatchers lib policy (compiledFrom lib policy) = Inr c"
  shows "sectionsMatch c \<and> matchersOfSource (po_EventSource policy) c"
  using assms unfolding setRuntimeMatchers_def setter_defs
  by (auto simp: andThen_Inr sectionsMatch_def matchersOfSource_def compiledFrom_def split: EventSource.splits if_splits)

lemma compiledFrom_matchers: "sectionsMatch (compiledFrom lib policy) \<and> matchersOfSource source (compiledFrom lib policy)"
  by (simp add: sectionsMatch_def matchersOfSource_def compiledFrom_def)

lemma unchanged_matchers [simp]:
  "sectionsMatch (addPredicates ps c) = sectionsMatch c" "matchersOfSource source (addPredicates ps c) = matchersOfSource source c"
  "sectionsMatch (c\<lparr>deploymentMatcher := m\<rparr>) = sectionsMatch c" "matchersOfSource source (c\<lparr>deploymentMatcher := m\<rparr>) = matchersOfSource source c"
  "sectionsMatch (c\<lparr>imageMatcher := m\<rparr>) = sectionsMatch c" "matchersOfSource source (c\<lparr>imageMatcher := m\<rparr>) = matchersOfSource source c"
  "exactlyOneRuntimeMatcherDefined (addPredicates ps c) = exactlyOneRuntimeMatcherDefined c"
  "exactlyOneRuntimeMatcherDefined (c\<lparr>deploymentMatcher := m\<rparr>) = exactlyOneRuntimeMatcherDefined c"
  "exactlyOneRuntimeMatcherDefined (c\<lparr>imageMatcher := m\<rparr>) = exactlyOneRuntimeMatcherDefined c"
  by (simp_all add: sectionsMatch_def matchersOfSource_def addPredicates_def exactlyOneRuntimeMatcherDefined_def)

lemma addPredicates_fields [simp]:
  "cp_policy (addPredicates ps c) = cp_policy c" "cp_filters (addPredicates ps c) = cp_filters c"
  "cp_predicates (addPredicates ps c) = cp_predicates c @ ps" "deploymentMatcher (addPredicates ps c) = deploymentMatcher c"
  "imageMatcher (addPredicates ps c) = imageMatcher c"
  by (simp_all add: addPredicates_def)

lemma compiledFrom_fields [simp]:
  "cp_policy (compiledFrom lib policy) = policy" "cp_predicates (compiledFrom lib policy) = []"
  "deploymentMatcher (compiledFrom lib policy) = None" "imageMatcher (compiledFrom lib policy) = None"
  "cp_filters (compiledFrom lib policy) = CompileEvaluationFilter (EvaluationFilterEnabled lib) (po_SkipContainerTypes policy)"
  by (simp_all add: compiledFrom_def)

lemma newCompiledPolicy_parts:
  assumes "newCompiledPolicy lib clusterProvider namespaceProvider policy = Inr c"
  obtains exclusions scopes where
    "list_all2 (\<lambda>x cx. newCompiledExclusion (regexCompile lib) (LabelBasedPolicyScoping lib) x = Inr cx) (po_Exclusions policy) exclusions"
    "list_all2 (\<lambda>s cs. CompileScope (regexCompile lib) (LabelBasedPolicyScoping lib) s clusterProvider namespaceProvider = Inr cs)
       (po_Scope policy) scopes"
    "cp_predicates c = (if AppliesAtRunTime policy then runtimePredicates (po_EventSource policy) exclusions scopes else [])
       @ (if AppliesAtDeployTime policy then [deploymentPredicate exclusions scopes] else [])
       @ (if AppliesAtBuildTime policy then [imagePredicate (po_Exclusions policy)] else [])"
    "cp_policy c = policy" "cp_filters c = CompileEvaluationFilter (EvaluationFilterEnabled lib) (po_SkipContainerTypes policy)"
    "sectionsMatch c" "matchersOfSource (po_EventSource policy) c"
    "AppliesAtRunTime policy \<longrightarrow> exactlyOneRuntimeMatcherDefined c"
    "deploymentMatcher c \<noteq> None \<longleftrightarrow> AppliesAtDeployTime policy" "imageMatcher c \<noteq> None \<longleftrightarrow> AppliesAtBuildTime policy"
proof -
  from assms obtain exclusions scopes c1 c2 where
    parts: "mapM_sum (\<lambda>w. wrapError ExclusionError (newCompiledExclusion (regexCompile lib) (LabelBasedPolicyScoping lib) w))
        (po_Exclusions policy) = Inr exclusions"
      "mapM_sum (\<lambda>s. wrapError ScopeError (CompileScope (regexCompile lib) (LabelBasedPolicyScoping lib) s clusterProvider namespaceProvider))
        (po_Scope policy) = Inr scopes"
    and c1: "(if AppliesAtRunTime policy
        then andThen (setRuntimeMatchers lib policy (compiledFrom lib policy)) (\<lambda>cp.
          if \<not> exactlyOneRuntimeMatcherDefined cp then Inl IncompatibleSections
          else Inr (addPredicates (runtimePredicates (po_EventSource policy) exclusions scopes) cp))
        else Inr (compiledFrom lib policy)) = Inr c1"
    and c2: "(if AppliesAtDeployTime policy
        then andThen (setDeployTimeMatchers lib policy c1) (\<lambda>cp. Inr (addPredicates [deploymentPredicate exclusions scopes] cp))
        else Inr c1) = Inr c2"
    and c3: "(if AppliesAtBuildTime policy
        then andThen (setBuildTimeMatchers lib policy c2) (\<lambda>cp. Inr (addPredicates [imagePredicate (po_Exclusions policy)] cp))
        else Inr c2) = Inr c"
    unfolding newCompiledPolicy_def by (elim andThen_InrE checked_InrE, hypsubst) (rule that; assumption)
  have one: "cp_policy c1 = policy \<and> cp_filters c1 = CompileEvaluationFilter (EvaluationFilterEnabled lib) (po_SkipContainerTypes policy)
      \<and> cp_predicates c1 = (if AppliesAtRunTime policy then runtimePredicates (po_EventSource policy) exclusions scopes else [])
      \<and> deploymentMatcher c1 = None \<and> imageMatcher c1 = None \<and> sectionsMatch c1 \<and> matchersOfSource (po_EventSource policy) c1
      \<and> (AppliesAtRunTime policy \<longrightarrow> exactlyOneRuntimeMatcherDefined c1)"
  proof (cases "AppliesAtRunTime policy")
    case True
    then obtain c0 where "setRuntimeMatchers lib policy (compiledFrom lib policy) = Inr c0" "exactlyOneRuntimeMatcherDefined c0"
      "c1 = addPredicates (runtimePredicates (po_EventSource policy) exclusions scopes) c0"
      using c1 by (auto simp: andThen_Inr split: if_splits)
    with True setRuntime_frame [OF this(1)] setRuntime_matchers [OF this(1)] show ?thesis by simp
  qed (use c1 compiledFrom_matchers in auto)
  have two: "cp_policy c2 = cp_policy c1 \<and> cp_filters c2 = cp_filters c1 \<and> imageMatcher c2 = imageMatcher c1
      \<and> cp_predicates c2 = cp_predicates c1 @ (if AppliesAtDeployTime policy then [deploymentPredicate exclusions scopes] else [])
      \<and> sectionsMatch c2 = sectionsMatch c1 \<and> matchersOfSource (po_EventSource policy) c2 = matchersOfSource (po_EventSource policy) c1
      \<and> exactlyOneRuntimeMatcherDefined c2 = exactlyOneRuntimeMatcherDefined c1
      \<and> (deploymentMatcher c2 \<noteq> None) = (AppliesAtDeployTime policy \<or> deploymentMatcher c1 \<noteq> None)"
    using c2 by (auto simp: setDeployTimeMatchers_def andThen_Inr split: if_splits sum.splits)
  have three: "cp_policy c = cp_policy c2 \<and> cp_filters c = cp_filters c2 \<and> deploymentMatcher c = deploymentMatcher c2
      \<and> cp_predicates c = cp_predicates c2 @ (if AppliesAtBuildTime policy then [imagePredicate (po_Exclusions policy)] else [])
      \<and> sectionsMatch c = sectionsMatch c2 \<and> matchersOfSource (po_EventSource policy) c = matchersOfSource (po_EventSource policy) c2
      \<and> exactlyOneRuntimeMatcherDefined c = exactlyOneRuntimeMatcherDefined c2
      \<and> (imageMatcher c \<noteq> None) = (AppliesAtBuildTime policy \<or> imageMatcher c2 \<noteq> None)"
    using c3 by (auto simp: setBuildTimeMatchers_def andThen_Inr split: if_splits sum.splits)
  show thesis
    by (rule that [of exclusions scopes]) (use parts one two three in \<open>auto simp: mapM_sum_Inr_iff\<close>)
qed

subsection \<open>Where a policy applies\<close>

lemma deploymentMatchesScopes_iff:
  assumes "list_all2 (\<lambda>s cs. CompileScope regex ls s clusterProvider namespaceProvider = Inr cs) scs scopes"
  shows "deploymentMatchesScopes d scopes \<longleftrightarrow> scs = [] \<or> (\<exists>s \<in> set scs. scopeCovers regex clusterProvider namespaceProvider s d)"
    "auditEventMatchesScopes ev scopes \<longleftrightarrow> scs = [] \<or> (\<exists>s \<in> set scs. scopeCoversEvent regex clusterProvider namespaceProvider s ev)"
proof -
  have "list_ex (\<lambda>cs. scopeMatchesDeployment (Some cs) d) scopes = list_ex (\<lambda>s. scopeCovers regex clusterProvider namespaceProvider s d) scs
      \<and> list_ex (\<lambda>cs. scopeMatchesAuditEvent (Some cs) ev) scopes = list_ex (\<lambda>s. scopeCoversEvent regex clusterProvider namespaceProvider s ev) scs"
    using assms by (induction rule: list_all2_induct) (simp_all add: CompileScope_deployment CompileScope_event)
  moreover have "scopes = [] \<longleftrightarrow> scs = []" using assms by (cases scs; cases scopes) auto
  ultimately show "deploymentMatchesScopes d scopes \<longleftrightarrow> scs = [] \<or> (\<exists>s \<in> set scs. scopeCovers regex clusterProvider namespaceProvider s d)"
    "auditEventMatchesScopes ev scopes \<longleftrightarrow> scs = [] \<or> (\<exists>s \<in> set scs. scopeCoversEvent regex clusterProvider namespaceProvider s ev)"
    by (auto simp: deploymentMatchesScopes_def auditEventMatchesScopes_def list_ex_iff)
qed

lemma matchesExclusions_iff:
  assumes "list_all2 (\<lambda>x cx. newCompiledExclusion regex ls x = Inr cx) xs exclusions"
  shows "deploymentMatchesExclusions now d exclusions \<longleftrightarrow> (\<exists>x \<in> set xs. exclusionCovers regex now x d)"
    "auditEventMatchesExclusions now ev exclusions \<longleftrightarrow> (\<exists>x \<in> set xs. exclusionCoversEvent regex now x ev)"
proof -
  have "list_ex (\<lambda>cx. exclusionMatchesDeployment now cx d) exclusions = list_ex (\<lambda>x. exclusionCovers regex now x d) xs
      \<and> list_ex (\<lambda>cx. exclusionMatchesAuditEvent now cx ev) exclusions = list_ex (\<lambda>x. exclusionCoversEvent regex now x ev) xs"
    using assms by (induction rule: list_all2_induct) (simp_all add: compiledExclusion_matches)
  then show "deploymentMatchesExclusions now d exclusions \<longleftrightarrow> (\<exists>x \<in> set xs. exclusionCovers regex now x d)"
    "auditEventMatchesExclusions now ev exclusions \<longleftrightarrow> (\<exists>x \<in> set xs. exclusionCoversEvent regex now x ev)"
    by (simp_all add: deploymentMatchesExclusions_def auditEventMatchesExclusions_def list_ex_iff)
qed

definition policyCovers :: "('sec, 'x, 'i, 'e, 'm) policyLib \<Rightarrow> ClusterLabelProvider option \<Rightarrow> NamespaceLabelProvider option \<Rightarrow> int \<Rightarrow>
    ('sec, 'x) Policy \<Rightarrow> 'x StorageDeployment \<Rightarrow> bool" where
  "policyCovers lib clusterProvider namespaceProvider now policy d \<longleftrightarrow>
     (AppliesAtDeployTime policy \<or> AppliesAtRunTime policy \<and> po_EventSource policy \<noteq> NODE_EVENT)
     \<and> (po_Scope policy = [] \<or> (\<exists>s \<in> set (po_Scope policy). scopeCovers (regexCompile lib) clusterProvider namespaceProvider s d))
     \<and> \<not> (\<exists>x \<in> set (po_Exclusions policy). exclusionCovers (regexCompile lib) now x d)"

lemma applies_to_deployment:
  assumes "newCompiledPolicy lib clusterProvider namespaceProvider policy = Inr c"
  shows "AppliesTo now c (Input_Deployment d) = policyCovers lib clusterProvider namespaceProvider now policy d"
proof -
  from assms obtain exclusions scopes where
    ex: "list_all2 (\<lambda>x cx. newCompiledExclusion (regexCompile lib) (LabelBasedPolicyScoping lib) x = Inr cx) (po_Exclusions policy) exclusions"
    and sc: "list_all2 (\<lambda>s cs. CompileScope (regexCompile lib) (LabelBasedPolicyScoping lib) s clusterProvider namespaceProvider = Inr cs)
       (po_Scope policy) scopes"
    and ps: "cp_predicates c = (if AppliesAtRunTime policy then runtimePredicates (po_EventSource policy) exclusions scopes else [])
       @ (if AppliesAtDeployTime policy then [deploymentPredicate exclusions scopes] else [])
       @ (if AppliesAtBuildTime policy then [imagePredicate (po_Exclusions policy)] else [])"
    by (rule newCompiledPolicy_parts)
  show ?thesis
    unfolding AppliesTo_def ps policyCovers_def runtimePredicates_def
    using deploymentMatchesScopes_iff(1) [OF sc, of d] matchesExclusions_iff(1) [OF ex, of now d]
    by (auto split: EventSource.split)
qed

text \<open>What an exclusion is meant to cover: the deployments, or the events of the scopes, that it names. One that
  names only an image is compiled as if it named every deployment (see below).\<close>

definition excludesDeployment :: "regexLib \<Rightarrow> int \<Rightarrow> Exclusion \<Rightarrow> 'x StorageDeployment \<Rightarrow> bool" where
  "excludesDeployment regex now x d \<longleftrightarrow> \<not> expired now x \<and> (\<exists>dep. ex_Deployment x = Some dep
     \<and> (ed_Name dep = [] \<or> regexMatches regex (ed_Name dep) (dp_Name d))
     \<and> (\<forall>sc. ed_Scope dep = Some sc \<longrightarrow> scopeCovers regex None None sc d))"

definition excludesEvent :: "regexLib \<Rightarrow> int \<Rightarrow> Exclusion \<Rightarrow> KubernetesEvent \<Rightarrow> bool" where
  "excludesEvent regex now x ev \<longleftrightarrow> \<not> expired now x \<and> (\<exists>dep. ex_Deployment x = Some dep
     \<and> (\<forall>sc. ed_Scope dep = Some sc \<longrightarrow> scopeCoversEvent regex None None sc ev))"

lemma exclusionCovers_named:
  assumes "ex_Deployment x = None \<longrightarrow> expired now x"
  shows "exclusionCovers regex now x d = excludesDeployment regex now x d"
    "exclusionCoversEvent regex now x ev = excludesEvent regex now x ev"
  using assms by (auto simp: exclusionCovers_def exclusionCoversEvent_def excludesDeployment_def excludesEvent_def)

text \<open>
  C10. A compiled policy applies exactly where the policy says. To images: at build time, unless an unexpired exclusion
  names a prefix. To file accesses on nodes: at run time, if that is its event source. To deployments and to audit events, if
  every unexpired exclusion names a deployment (and, for audit events, only its scope, as the validator of policies demands):
  at the stages and event sources for them, when one of its scopes covers the input or it has none, and no
  unexpired exclusion covers it, down to the regular expressions and labels.\<close>

theorem compiled_policy_applies:
  assumes "newCompiledPolicy lib clusterProvider namespaceProvider policy = Inr c"
  shows "((\<forall>x \<in> set (po_Exclusions policy). ex_Deployment x = None \<longrightarrow> expired now x) \<longrightarrow>
      (AppliesTo now c (Input_Deployment d) \<longleftrightarrow>
        (AppliesAtDeployTime policy \<or> AppliesAtRunTime policy \<and> po_EventSource policy \<noteq> NODE_EVENT)
        \<and> (po_Scope policy = [] \<or> (\<exists>s \<in> set (po_Scope policy). scopeCovers (regexCompile lib) clusterProvider namespaceProvider s d))
        \<and> \<not> (\<exists>x \<in> set (po_Exclusions policy). excludesDeployment (regexCompile lib) now x d)))
    \<and> (AppliesTo now c (Input_Image name) \<longleftrightarrow>
        AppliesAtBuildTime policy
        \<and> \<not> (\<exists>x \<in> set (po_Exclusions policy). \<not> expired now x \<and> (\<exists>p t. ex_Image x = Some p \<and> name = p @ t)))
    \<and> ((\<forall>x \<in> set (po_Exclusions policy). \<not> expired now x \<longrightarrow> (\<exists>dep. ex_Deployment x = Some dep \<and> ed_Name dep = [])) \<longrightarrow>
      (AppliesTo now c (Input_AuditEvent ev) \<longleftrightarrow>
        AppliesAtRunTime policy \<and> po_EventSource policy = AUDIT_LOG_EVENT
        \<and> (po_Scope policy = [] \<or> (\<exists>s \<in> set (po_Scope policy). scopeCoversEvent (regexCompile lib) clusterProvider namespaceProvider s ev))
        \<and> \<not> (\<exists>x \<in> set (po_Exclusions policy). excludesEvent (regexCompile lib) now x ev)))
    \<and> (AppliesTo now c Input_FileAccess \<longleftrightarrow> AppliesAtRunTime policy \<and> po_EventSource policy = NODE_EVENT)"
proof -
  from assms obtain exclusions scopes where
    ex: "list_all2 (\<lambda>x cx. newCompiledExclusion (regexCompile lib) (LabelBasedPolicyScoping lib) x = Inr cx) (po_Exclusions policy) exclusions"
    and sc: "list_all2 (\<lambda>s cs. CompileScope (regexCompile lib) (LabelBasedPolicyScoping lib) s clusterProvider namespaceProvider = Inr cs)
       (po_Scope policy) scopes"
    and ps: "cp_predicates c = (if AppliesAtRunTime policy then runtimePredicates (po_EventSource policy) exclusions scopes else [])
       @ (if AppliesAtDeployTime policy then [deploymentPredicate exclusions scopes] else [])
       @ (if AppliesAtBuildTime policy then [imagePredicate (po_Exclusions policy)] else [])"
    by (rule newCompiledPolicy_parts)
  have "matchesImageExclusion now name (po_Exclusions policy) \<longleftrightarrow>
      (\<exists>x \<in> set (po_Exclusions policy). \<not> expired now x \<and> (\<exists>p t. ex_Image x = Some p \<and> name = p @ t))"
    by (auto simp: matchesImageExclusion_def list_ex_iff exclusionIsExpired_iff hasPrefix_iff split: option.splits)
  then have img: "AppliesTo now c (Input_Image name) \<longleftrightarrow> AppliesAtBuildTime policy
        \<and> \<not> (\<exists>x \<in> set (po_Exclusions policy). \<not> expired now x \<and> (\<exists>p t. ex_Image x = Some p \<and> name = p @ t))"
    unfolding AppliesTo_def ps runtimePredicates_def by (auto split: EventSource.split)
  have ev: "AppliesTo now c (Input_AuditEvent ev) \<longleftrightarrow> AppliesAtRunTime policy \<and> po_EventSource policy = AUDIT_LOG_EVENT
        \<and> (po_Scope policy = [] \<or> (\<exists>s \<in> set (po_Scope policy). scopeCoversEvent (regexCompile lib) clusterProvider namespaceProvider s ev))
        \<and> \<not> (\<exists>x \<in> set (po_Exclusions policy). exclusionCoversEvent (regexCompile lib) now x ev)"
    unfolding AppliesTo_def ps runtimePredicates_def
    using deploymentMatchesScopes_iff(2) [OF sc, of ev] matchesExclusions_iff(2) [OF ex, of now ev]
    by (auto split: EventSource.split)
  have node: "AppliesTo now c Input_FileAccess \<longleftrightarrow> AppliesAtRunTime policy \<and> po_EventSource policy = NODE_EVENT"
    unfolding AppliesTo_def ps runtimePredicates_def by (auto split: EventSource.split)
  have "(\<exists>x \<in> set (po_Exclusions policy). exclusionCovers (regexCompile lib) now x d) \<longleftrightarrow>
      (\<exists>x \<in> set (po_Exclusions policy). excludesDeployment (regexCompile lib) now x d)"
    if "\<forall>x \<in> set (po_Exclusions policy). ex_Deployment x = None \<longrightarrow> expired now x"
    using that exclusionCovers_named(1) by (metis (no_types, lifting))
  moreover have "(\<exists>x \<in> set (po_Exclusions policy). exclusionCoversEvent (regexCompile lib) now x ev) \<longleftrightarrow>
      (\<exists>x \<in> set (po_Exclusions policy). excludesEvent (regexCompile lib) now x ev)"
    if "\<forall>x \<in> set (po_Exclusions policy). \<not> expired now x \<longrightarrow> (\<exists>dep. ex_Deployment x = Some dep \<and> ed_Name dep = [])"
    using that exclusionCovers_named(2) by (metis (no_types, lifting) option.distinct(1))
  ultimately show ?thesis
    using applies_to_deployment [OF assms, of now d] img ev node unfolding policyCovers_def by (intro conjI impI) simp_all
qed

subsection \<open>Examples\<close>

text \<open>A library whose regular expressions match themselves and whose matchers find nothing wrong with all inputs, or one
  thing.\<close>

definition exampleLib :: "(unit, unit, string, unit, nat) policyLib" where
  "exampleLib =
     \<lparr>regexCompile = (\<lambda>re. Some (\<lambda>s. s = re)), LabelBasedPolicyScoping = True, EvaluationFilterEnabled = True,
      SectionContainsFieldOfType = (\<lambda>sec t. t = ProcessField), SectionContainsEventSource = (\<lambda>sec t. False),
      BuildMatcher = (\<lambda>kind policy. Inr (length (po_PolicySections policy))),
      runMatcher = (\<lambda>m input. Inr \<lparr>AlertViolations = replicate m \<lparr>vi_Type = GENERIC, FileAccess = None, vi_rest = ()\<rparr>,
        ProcessViolation = None\<rparr>)\<rparr>"

definition examplePolicy :: "LifecycleStage list \<Rightarrow> Exclusion list \<Rightarrow> (unit, unit) Policy" where
  "examplePolicy stages exclusions =
     \<lparr>po_Id = ''P'', po_Name = ''p'', po_Disabled = False, po_LifecycleStages = stages, po_EventSource = DEPLOYMENT_EVENT,
      po_Scope = [\<lparr>sc_Cluster = [], sc_Namespace = ''N'', sc_Label = None, sc_ClusterLabel = None, sc_NamespaceLabel = None\<rparr>],
      po_Exclusions = exclusions, po_PolicySections = [()], po_EnforcementActions = [], po_SkipContainerTypes = [INIT],
      po_Notifiers = [], po_rest = ()\<rparr>"

definition exampleDeployment :: "unit StorageDeployment" where
  "exampleDeployment =
     \<lparr>dp_Id = ''D'', dp_Name = ''d'', dp_ClusterId = ''C'', dp_Namespace = ''N'', dp_Labels = [], dp_Type = [],
      dp_Containers = [\<lparr>co_Type = INIT, co_rest = ()\<rparr>, \<lparr>co_Type = REGULAR, co_rest = ()\<rparr>], dp_rest = ()\<rparr>"

definition imageExclusion :: Exclusion where
  "imageExclusion = \<lparr>ex_Deployment = None, ex_Image = Some ''docker.io/'', ex_Expiration = None\<rparr>"

definition exampleCompiled :: "LifecycleStage list \<Rightarrow> Exclusion list \<Rightarrow> (unit, unit, string, nat) compiledPolicy" where
  "exampleCompiled stages exclusions =
     (case newCompiledPolicy exampleLib None None (examplePolicy stages exclusions) of Inr c \<Rightarrow> c
      | Inl e \<Rightarrow> compiledFrom exampleLib (examplePolicy stages exclusions))"

lemmas compile_simps = newCompiledPolicy_def exampleLib_def examplePolicy_def andThen_def wrapError_def newCompiledExclusion_def
  CompileScope_def CompileWholeStringMatcher_def compileLabelMatchers_def AppliesAtRunTime_def AppliesAtDeployTime_def
  AppliesAtBuildTime_def appliesAt_def setDeployTimeMatchers_def setBuildTimeMatchers_def setRuntimeMatchers_def setter_defs
  buildFrom_def FilterPolicySections_def noMatchersSet_def addPredicates_def compiledFrom_def exactlyOneRuntimeMatcherDefined_def

lemma example_deploy: "newCompiledPolicy exampleLib None None (examplePolicy [DEPLOY] []) = Inr (exampleCompiled [DEPLOY] [])"
  by (simp add: exampleCompiled_def compile_simps Let_def)

lemma example_image: "newCompiledPolicy exampleLib None None (examplePolicy [BUILD, DEPLOY] [imageExclusion]) =
    Inr (exampleCompiled [BUILD, DEPLOY] [imageExclusion])"
  by (simp add: exampleCompiled_def compile_simps imageExclusion_def Let_def)

text \<open>The deployment \<open>d\<close> is excluded, another one of its namespace is not, and one of another namespace is out of scope.\<close>

definition nameExclusion :: Exclusion where
  "nameExclusion = \<lparr>ex_Deployment = Some \<lparr>ed_Name = ''d'', ed_Scope = None\<rparr>, ex_Image = None, ex_Expiration = Some 5\<rparr>"

lemma example_name: "newCompiledPolicy exampleLib None None (examplePolicy [DEPLOY] [nameExclusion]) =
    Inr (exampleCompiled [DEPLOY] [nameExclusion])"
  by (simp add: exampleCompiled_def compile_simps nameExclusion_def Let_def)

lemma compiled_policy_applies_witness:
  "\<not> AppliesTo 0 (exampleCompiled [DEPLOY] [nameExclusion]) (Input_Deployment exampleDeployment)
   \<and> AppliesTo 0 (exampleCompiled [DEPLOY] [nameExclusion]) (Input_Deployment (exampleDeployment\<lparr>dp_Name := ''e''\<rparr>))
   \<and> \<not> AppliesTo 0 (exampleCompiled [DEPLOY] [nameExclusion]) (Input_Deployment (exampleDeployment\<lparr>dp_Name := ''e'', dp_Namespace := ''M''\<rparr>))"
  using compiled_policy_applies [OF example_name, of 0 exampleDeployment]
    compiled_policy_applies [OF example_name, of 0 "exampleDeployment\<lparr>dp_Name := ''e''\<rparr>"]
    compiled_policy_applies [OF example_name, of 0 "exampleDeployment\<lparr>dp_Name := ''e'', dp_Namespace := ''M''\<rparr>"]
  by (simp add: examplePolicy_def exampleDeployment_def exampleLib_def scopeCovers_def providedCovers_def labelCovers_def
      regexMatches_def AppliesAtDeployTime_def appliesAt_def nameExclusion_def excludesDeployment_def expired_def)

text \<open>
  An exclusion that names only an image takes its policy away from all deployments and audit events: it is compiled
  without a name and a scope, and so covers everything.\<close>

theorem image_exclusion_hides_deployments:
  assumes "newCompiledPolicy lib clusterProvider namespaceProvider policy = Inr c"
    "x \<in> set (po_Exclusions policy)" "ex_Deployment x = None" "\<not> expired now x"
  shows "\<not> AppliesTo now c (Input_Deployment d) \<and> \<not> AppliesTo now c (Input_AuditEvent ev)"
proof -
  have "exclusionCovers (regexCompile lib) now x d" "exclusionCoversEvent (regexCompile lib) now x ev"
    using assms(3,4) by (simp_all add: exclusionCovers_def exclusionCoversEvent_def)
  moreover from assms(1) obtain exclusions scopes where
    ex: "list_all2 (\<lambda>x cx. newCompiledExclusion (regexCompile lib) (LabelBasedPolicyScoping lib) x = Inr cx) (po_Exclusions policy) exclusions"
    and ps: "cp_predicates c = (if AppliesAtRunTime policy then runtimePredicates (po_EventSource policy) exclusions scopes else [])
       @ (if AppliesAtDeployTime policy then [deploymentPredicate exclusions scopes] else [])
       @ (if AppliesAtBuildTime policy then [imagePredicate (po_Exclusions policy)] else [])"
    by (rule newCompiledPolicy_parts)
  ultimately show ?thesis
    using matchesExclusions_iff [OF ex] assms(2) unfolding AppliesTo_def ps runtimePredicates_def
    by (auto split: EventSource.split)
qed

lemma image_exclusion_hides_deployments_witness:
  "\<not> AppliesTo 0 (exampleCompiled [BUILD, DEPLOY] [imageExclusion]) (Input_Deployment exampleDeployment)"
  using image_exclusion_hides_deployments [OF example_image, of imageExclusion 0 exampleDeployment]
  by (simp add: examplePolicy_def imageExclusion_def expired_def)

end
