(* ===== verification/Alert_Facts.thy ===== *)
theory Alert_Facts
  imports Alert_Manager
begin

text \<open>
  What the alert manager guarantees: how a merge keeps what is stored, that merging again changes nothing,
  that no incoming alert gets lost, that only stale alerts are resolved, and who is notified of what.
\<close>

subsection \<open>Merging two alerts\<close>

lemma length_newest: "length (newest xs) \<le> maxRunTimeViolationsPerAlert"
  by (simp add: newest_def)

lemma newest_last: "xs \<noteq> [] \<Longrightarrow> newest xs \<noteq> [] \<and> last (newest xs) = last xs"
  by (auto simp: newest_def maxRunTimeViolationsPerAlert_def)

lemma UpdateMessage_Processes [simp]: "Processes (UpdateProcessAlertViolationMessage v) = Processes v"
  by (simp add: UpdateProcessAlertViolationMessage_def Let_def)

lemma GetProcesses_nonempty: "GetProcesses a \<noteq> [] \<Longrightarrow> \<exists>pv. al_ProcessViolation a = Some pv \<and> Processes pv = GetProcesses a"
  by (cases "al_ProcessViolation a") (simp_all add: GetProcesses_def)

text \<open>The processes of the new alert that are newer than those of the old one.\<close>

definition newerProcesses :: "'x StorageAlert \<Rightarrow> 'x StorageAlert \<Rightarrow> 'x ProcessIndicator list" where
  "newerProcesses old n = filter (\<lambda>p. asTime (pi_Time p) > asTime (pi_Time (last (GetProcesses old)))) (GetProcesses n)"

lemma compare_pos: "CompareTimestampToTime t1 t2 > 0 \<longleftrightarrow> asTime t1 > asTime t2"
  by (simp add: CompareTimestampToTime_def CompareTimestamps_def)

lemma mergeProcesses_spec:
  "mergeProcessesFromOldIntoNew old n =
     (if GetProcesses n = [] \<or> length (GetProcesses old) \<ge> maxRunTimeViolationsPerAlert then (False, n)
      else if GetProcesses old = [] then (True, n)
      else if newerProcesses old n = [] then (False, n)
      else (True, n\<lparr>al_ProcessViolation := map_option
                     (\<lambda>pv. UpdateProcessAlertViolationMessage (pv\<lparr>Processes := newest (GetProcesses old @ newerProcesses old n)\<rparr>))
                     (al_ProcessViolation n)\<rparr>))"
  by (auto simp: mergeProcessesFromOldIntoNew_def lastTime_def newerProcesses_def compare_pos Let_def)

lemma mergeProcesses_fields:
  "Violations (snd (mergeProcessesFromOldIntoNew old n)) = Violations n"
  "al_LifecycleStage (snd (mergeProcessesFromOldIntoNew old n)) = al_LifecycleStage n"
  "\<not> fst (mergeProcessesFromOldIntoNew old n) \<Longrightarrow> snd (mergeProcessesFromOldIntoNew old n) = n"
  by (auto simp: mergeProcesses_spec)

lemma mergeProcesses_GetProcesses:
  "GetProcesses (snd (mergeProcessesFromOldIntoNew old n)) =
     (if GetProcesses n \<noteq> [] \<and> length (GetProcesses old) < maxRunTimeViolationsPerAlert \<and> GetProcesses old \<noteq> []
         \<and> newerProcesses old n \<noteq> []
      then newest (GetProcesses old @ newerProcesses old n) else GetProcesses n)"
proof (cases "GetProcesses n = []")
  case False
  then obtain pv where "al_ProcessViolation n = Some pv" using GetProcesses_nonempty by blast
  then show ?thesis using False by (auto simp: mergeProcesses_spec GetProcesses_def)
qed (simp add: mergeProcesses_spec)

lemma mergeLatest_fields:
  "al_ProcessViolation (snd (mergeAlertsByLatestFirst t old n)) = al_ProcessViolation n"
  "al_LifecycleStage (snd (mergeAlertsByLatestFirst t old n)) = al_LifecycleStage n"
  "\<not> fst (mergeAlertsByLatestFirst t old n) \<Longrightarrow> snd (mergeAlertsByLatestFirst t old n) = n"
  by (auto simp: mergeAlertsByLatestFirst_def Let_def)

lemma mergeLatest_bound:
  "length (Violations (snd (mergeAlertsByLatestFirst t old n))) \<le> max maxRunTimeViolationsPerAlert (length (Violations n))"
  by (auto simp: mergeAlertsByLatestFirst_def Let_def)

lemma mergeFiles_fields:
  "al_ProcessViolation (snd (mergeFileAccessViolations old n)) = al_ProcessViolation n"
  "al_LifecycleStage (snd (mergeFileAccessViolations old n)) = al_LifecycleStage n"
  "\<not> fst (mergeFileAccessViolations old n) \<Longrightarrow> snd (mergeFileAccessViolations old n) = n"
  by (auto simp: mergeFileAccessViolations_def Let_def split: option.splits)

lemma mergeFiles_bound:
  "length (Violations (snd (mergeFileAccessViolations old n))) \<le> max maxRunTimeViolationsPerAlert (length (Violations n))"
  by (auto simp: mergeFileAccessViolations_def Let_def length_newest le_max_iff_disj split: option.splits)

lemmas merge_steps = mergeRunTimeAlerts_def mergeK8sEventViolations_def mergeNetworkFlowViolations_def

lemma mergeRunTime_Processes:
  "GetProcesses (snd (mergeRunTimeAlerts old n)) = GetProcesses (snd (mergeProcessesFromOldIntoNew old n))"
  by (simp add: merge_steps split_beta Let_def GetProcesses_def mergeLatest_fields mergeFiles_fields)

lemma mergeRunTime_bound:
  "length (Violations (snd (mergeRunTimeAlerts old n))) \<le> max maxRunTimeViolationsPerAlert (length (Violations n))"
proof -
  let ?n1 = "snd (mergeProcessesFromOldIntoNew old n)"
  let ?n2 = "snd (mergeK8sEventViolations old ?n1)"
  let ?n3 = "snd (mergeNetworkFlowViolations old ?n2)"
  have "length (Violations ?n2) \<le> max maxRunTimeViolationsPerAlert (length (Violations n))"
    using mergeLatest_bound [of K8S_EVENT old ?n1] by (simp add: mergeK8sEventViolations_def mergeProcesses_fields)
  moreover have "length (Violations ?n3) \<le> max maxRunTimeViolationsPerAlert (length (Violations ?n2))"
    using mergeLatest_bound [of NETWORK_FLOW old ?n2] by (simp add: mergeNetworkFlowViolations_def)
  moreover have "snd (mergeRunTimeAlerts old n) = snd (mergeFileAccessViolations old ?n3)"
    by (simp add: mergeRunTimeAlerts_def split_beta Let_def)
  ultimately show ?thesis using mergeFiles_bound [of old ?n3] by (simp add: le_max_iff_disj) linarith
qed

lemma setInactive_fields [simp]:
  "al_Id (setInactive a) = al_Id a" "al_LifecycleStage (setInactive a) = al_LifecycleStage a"
  "Violations (setInactive a) = Violations a" "al_ProcessViolation (setInactive a) = al_ProcessViolation a"
  "FirstOccurred (setInactive a) = FirstOccurred a" "Time (setInactive a) = Time a"
  "Enforcement (setInactive a) = Enforcement a" "al_PolicyId (setInactive a) = al_PolicyId a"
  "al_State (setInactive a) = al_State a" "GetProcesses (setInactive a) = GetProcesses a"
  by (simp_all add: setInactive_def GetProcesses_def split: AlertEntity.split)

definition isRuntime :: "'x StorageAlert \<Rightarrow> 'x StorageAlert \<Rightarrow> bool" where
  "isRuntime old n \<longleftrightarrow> al_LifecycleStage old = RUNTIME \<and> al_LifecycleStage n = RUNTIME"

definition isDeploy :: "'x StorageAlert \<Rightarrow> 'x StorageAlert \<Rightarrow> bool" where
  "isDeploy old n \<longleftrightarrow> al_LifecycleStage old = DEPLOY \<and> al_LifecycleStage n = DEPLOY"

lemma mergeAlerts_old: "isRuntime old n \<Longrightarrow> \<not> fst (mergeRunTimeAlerts old n) \<Longrightarrow> mergeAlerts old n = old"
  by (simp add: mergeAlerts_def isRuntime_def split_beta Let_def)

lemma mergeRunTime_stage: "al_LifecycleStage (snd (mergeRunTimeAlerts old n)) = al_LifecycleStage n"
  by (simp add: merge_steps split_beta Let_def mergeLatest_fields mergeFiles_fields mergeProcesses_fields)

lemma mergeAlerts_fields:
  assumes "\<not> (isRuntime old n \<and> \<not> fst (mergeRunTimeAlerts old n))"
  defines "b \<equiv> if isRuntime old n then snd (mergeRunTimeAlerts old n) else n"
  shows "al_Id (mergeAlerts old n) = al_Id old" "FirstOccurred (mergeAlerts old n) = FirstOccurred old"
    "Violations (mergeAlerts old n) = Violations b" "GetProcesses (mergeAlerts old n) = GetProcesses b"
    "al_LifecycleStage (mergeAlerts old n) = al_LifecycleStage n"
    "Enforcement (mergeAlerts old n) = (if isDeploy old n then Enforcement old else Enforcement b)"
    "Time (mergeAlerts old n) = (if isDeploy old n \<and> Violations n = Violations old then Time old else Time b)"
proof -
  have b: "(if al_LifecycleStage old = RUNTIME \<and> al_LifecycleStage n = RUNTIME then mergeRunTimeAlerts old n else (True, n)) =
      (True, b)"
    using assms(1) by (cases "mergeRunTimeAlerts old n") (auto simp: b_def isRuntime_def)
  have stage: "al_LifecycleStage b = al_LifecycleStage n" by (simp add: b_def mergeRunTime_stage)
  have same: "b = n" if "al_LifecycleStage n = DEPLOY" using that by (simp add: b_def isRuntime_def)
  show "al_Id (mergeAlerts old n) = al_Id old" "FirstOccurred (mergeAlerts old n) = FirstOccurred old"
    "Violations (mergeAlerts old n) = Violations b" "GetProcesses (mergeAlerts old n) = GetProcesses b"
    "al_LifecycleStage (mergeAlerts old n) = al_LifecycleStage n"
    "Enforcement (mergeAlerts old n) = (if isDeploy old n then Enforcement old else Enforcement b)"
    "Time (mergeAlerts old n) = (if isDeploy old n \<and> Violations n = Violations old then Time old else Time b)"
    unfolding mergeAlerts_def b Let_def using stage same
    by (auto simp: isDeploy_def GetProcesses_def split: option.split)
qed

text \<open>An alert about processes alone.\<close>

definition onlyProcesses :: "'x StorageAlert \<Rightarrow> bool" where
  "onlyProcesses a \<longleftrightarrow> al_LifecycleStage a = RUNTIME \<and> GetProcesses a \<noteq> []
     \<and> list_all (\<lambda>v. vi_Type v \<noteq> K8S_EVENT \<and> vi_Type v \<noteq> NETWORK_FLOW \<and> vi_Type v \<noteq> FILE_ACCESS) (Violations a)"

lemma onlyProcesses_merge:
  assumes "onlyProcesses n"
  shows "mergeRunTimeAlerts old n = mergeProcessesFromOldIntoNew old n"
proof -
  have none: "ofType t n = []" if "t \<in> {K8S_EVENT, NETWORK_FLOW, FILE_ACCESS}" for t
    using assms that by (auto simp: onlyProcesses_def ofType_def filter_empty_conv list_all_iff)
  let ?n = "snd (mergeProcessesFromOldIntoNew old n)"
  have "ofType t ?n = ofType t n" for t by (simp add: ofType_def mergeProcesses_fields)
  with none show ?thesis
    by (simp add: merge_steps split_beta Let_def mergeAlertsByLatestFirst_def mergeFileAccessViolations_def)
qed

lemma mergeAlerts_processes:
  assumes "onlyProcesses n" "al_LifecycleStage old = RUNTIME" "GetProcesses old \<noteq> []"
  shows "GetProcesses (mergeAlerts old n) =
    (if length (GetProcesses old) \<ge> maxRunTimeViolationsPerAlert then GetProcesses old
     else newest (GetProcesses old @ newerProcesses old n))"
proof -
  have rt: "isRuntime old n" using assms(1,2) by (simp add: isRuntime_def onlyProcesses_def)
  have run: "mergeRunTimeAlerts old n = mergeProcessesFromOldIntoNew old n" by (rule onlyProcesses_merge [OF assms(1)])
  have ne: "GetProcesses n \<noteq> []" using assms(1) by (simp add: onlyProcesses_def)
  show ?thesis
  proof (cases "fst (mergeProcessesFromOldIntoNew old n)")
    case False
    then have "mergeAlerts old n = old" using rt run by (simp add: mergeAlerts_old)
    moreover have "length (GetProcesses old) \<ge> maxRunTimeViolationsPerAlert \<or> newerProcesses old n = []"
      using False ne assms(3) by (auto simp: mergeProcesses_spec split: if_splits)
    ultimately show ?thesis by (auto simp: newest_def)
  next
    case True
    then have "\<not> (isRuntime old n \<and> \<not> fst (mergeRunTimeAlerts old n))" using run by simp
    note f = mergeAlerts_fields(4) [OF this]
    have "length (GetProcesses old) < maxRunTimeViolationsPerAlert" "newerProcesses old n \<noteq> []"
      using True ne assms(3) by (auto simp: mergeProcesses_spec split: if_splits)
    then show ?thesis unfolding f using rt run ne assms(3) by (simp add: mergeProcesses_GetProcesses)
  qed
qed

text \<open>Merging again, in general: an alert with forty processes does not change, and of more than forty the last stay.\<close>

lemma process_merge:
  assumes "onlyProcesses n" "al_LifecycleStage old = RUNTIME" "GetProcesses old \<noteq> []"
    "sorted (map (asTime \<circ> pi_Time) (GetProcesses n))"
  shows "GetProcesses (mergeAlerts old n) =
      (if length (GetProcesses old) \<ge> maxRunTimeViolationsPerAlert then GetProcesses old
       else newest (GetProcesses old @ newerProcesses old n))
    \<and> mergeAlerts (mergeAlerts old n) n = mergeAlerts old n"
proof -
  let ?m = "mergeAlerts old n"
  have rt: "isRuntime old n" using assms(1,2) by (simp add: isRuntime_def onlyProcesses_def)
  note run = onlyProcesses_merge [OF assms(1)]
  note procs = mergeAlerts_processes [OF assms(1-3)]
  have "mergeAlerts ?m n = ?m"
  proof (cases "fst (mergeProcessesFromOldIntoNew old n)")
    case False
    then have "?m = old" using rt run by (simp add: mergeAlerts_old)
    then show ?thesis by simp
  next
    case True
    have stage: "al_LifecycleStage ?m = RUNTIME"
      using mergeAlerts_fields(5) [of old n] True run assms(1) by (simp add: onlyProcesses_def)
    have newer: "newerProcesses old n \<noteq> []" "length (GetProcesses old) < maxRunTimeViolationsPerAlert"
      using True assms(3) by (auto simp: mergeProcesses_spec split: if_splits)
    let ?T = "asTime (pi_Time (last (GetProcesses old)))"
    have last: "GetProcesses ?m \<noteq> []" "last (GetProcesses ?m) = last (newerProcesses old n)"
      using newest_last [of "GetProcesses old @ newerProcesses old n"] newer procs by simp_all
    have "asTime (pi_Time p) \<le> asTime (pi_Time (last (newerProcesses old n)))" if "p \<in> set (newerProcesses old n)" for p
    proof -
      have "sorted (map (asTime \<circ> pi_Time) (newerProcesses old n))"
        using assms(4) by (simp add: newerProcesses_def sorted_filter)
      moreover have "newerProcesses old n = butlast (newerProcesses old n) @ [last (newerProcesses old n)]"
        using newer(1) by simp
      ultimately have "\<forall>q \<in> set (butlast (newerProcesses old n)). asTime (pi_Time q) \<le> asTime (pi_Time (last (newerProcesses old n)))"
        by (metis (no_types, lifting) comp_apply image_eqI list.set_intros(1) list.set_map map_append list.simps(9) sorted_append)
      with that newer(1) show ?thesis
        by (metis Un_iff append_butlast_last_id empty_iff empty_set order_refl set_ConsD set_append)
    qed
    moreover have "p \<in> set (newerProcesses old n)"
      if "p \<in> set (GetProcesses n)" "asTime (pi_Time p) > asTime (pi_Time (last (newerProcesses old n)))" for p
    proof -
      have "last (newerProcesses old n) \<in> set (newerProcesses old n)" using newer(1) by simp
      then have "?T < asTime (pi_Time (last (newerProcesses old n)))" unfolding newerProcesses_def by simp
      with that show ?thesis unfolding newerProcesses_def by simp
    qed
    ultimately have "newerProcesses ?m n = []"
      unfolding newerProcesses_def [of ?m] last(2) filter_empty_conv by (meson not_less)
    then have "\<not> fst (mergeProcessesFromOldIntoNew ?m n)" using last(1) by (simp add: mergeProcesses_spec)
    moreover have "isRuntime ?m n" using stage rt by (simp add: isRuntime_def)
    ultimately show ?thesis by (simp add: mergeAlerts_old run)
  qed
  with procs show ?thesis by blast
qed


definition exampleProcess :: "int \<Rightarrow> unit ProcessIndicator" where
  "exampleProcess t = \<lparr>ExecFilePath = ''/bin/sh'', Args = [], Uid = 0, pi_Time = Some t, pi_rest = ()\<rparr>"

definition exampleAlert :: "string \<Rightarrow> LifecycleStage \<Rightarrow> unit ProcessIndicator list \<Rightarrow> unit StorageAlert" where
  "exampleAlert k stage ps =
     \<lparr>al_LifecycleStage = stage, al_State = ACTIVE, al_Id = k, al_PolicyId = ''P'', al_Policy = (), al_ClusterId = ''C'', al_Namespace = ''N'',
      al_Entity = OnDeployment \<lparr>de_Id = ''D'', Inactive = False, de_rest = ()\<rparr>, Violations = [],
      al_ProcessViolation = Some \<lparr>pv_Message = [], Processes = ps\<rparr>, Enforcement = None, Time = Some 5,
      FirstOccurred = Some 1, ResolvedAt = None, al_rest = ()\<rparr>"


text \<open>
  C39. A merged alert keeps the identifier and the first occurrence of the stored one. At deploy time it also
  keeps the enforcement, and the time unless the violations differ. A merge gives an alert no more than forty processes and
  no more than forty violations, unless one of the two alerts has more already.\<close>

theorem mergeAlerts_keeps:
  shows "al_Id (mergeAlerts old n) = al_Id old \<and> FirstOccurred (mergeAlerts old n) = FirstOccurred old
    \<and> (isDeploy old n \<longrightarrow> Enforcement (mergeAlerts old n) = Enforcement old
         \<and> Time (mergeAlerts old n) = (if Violations n = Violations old then Time old else Time n)
         \<and> Violations (mergeAlerts old n) = Violations n)
    \<and> length (GetProcesses (mergeAlerts old n)) \<le> max 40 (max (length (GetProcesses old)) (length (GetProcesses n)))
    \<and> length (Violations (mergeAlerts old n)) \<le> max 40 (max (length (Violations old)) (length (Violations n)))"
proof (cases "isRuntime old n \<and> \<not> fst (mergeRunTimeAlerts old n)")
  case True
  then have "mergeAlerts old n = old" by (simp add: mergeAlerts_old)
  with True show ?thesis by (simp add: isDeploy_def isRuntime_def le_max_iff_disj)
next
  case False
  note f = mergeAlerts_fields [OF False]
  have "length (GetProcesses (snd (mergeRunTimeAlerts old n))) \<le> max 40 (length (GetProcesses n))"
    using length_newest [of "GetProcesses old @ newerProcesses old n"]
    unfolding mergeRunTime_Processes mergeProcesses_GetProcesses maxRunTimeViolationsPerAlert_def by (auto simp: le_max_iff_disj)
  moreover have "length (Violations (snd (mergeRunTimeAlerts old n))) \<le> max 40 (length (Violations n))"
    using mergeRunTime_bound [of old n] by (simp add: maxRunTimeViolationsPerAlert_def)
  moreover have "isDeploy old n \<Longrightarrow> \<not> isRuntime old n" by (simp add: isDeploy_def isRuntime_def)
  ultimately show ?thesis unfolding f(1,2,3,4,6,7) by (auto simp: le_max_iff_disj)
qed

text \<open>Two deploy-time alerts with different violations, and two run-time alerts with thirty and twenty events.\<close>

definition exampleViolations :: "ViolationType \<Rightarrow> nat \<Rightarrow> unit Violation list" where
  "exampleViolations ty k = replicate k \<lparr>vi_Type = ty, FileAccess = None, vi_rest = ()\<rparr>"

lemma mergeAlerts_keeps_witness:
  "(let old = exampleAlert ''A'' DEPLOY []; n = exampleAlert ''B'' DEPLOY [] \<lparr>Violations := exampleViolations GENERIC 1, Time := Some 9\<rparr>
    in al_Id (mergeAlerts old n) = ''A'' \<and> Time (mergeAlerts old n) = Some 9) \<and>
   (let old = exampleAlert ''A'' RUNTIME [] \<lparr>Violations := exampleViolations K8S_EVENT 30\<rparr>;
       n = exampleAlert ''B'' RUNTIME [] \<lparr>Violations := exampleViolations K8S_EVENT 20\<rparr>
    in length (Violations (mergeAlerts old n)) \<le> 40)"
  using mergeAlerts_keeps [of "exampleAlert ''A'' DEPLOY []"
      "exampleAlert ''B'' DEPLOY [] \<lparr>Violations := exampleViolations GENERIC 1, Time := Some 9\<rparr>"]
    mergeAlerts_keeps [of "exampleAlert ''A'' RUNTIME [] \<lparr>Violations := exampleViolations K8S_EVENT 30\<rparr>"
      "exampleAlert ''B'' RUNTIME [] \<lparr>Violations := exampleViolations K8S_EVENT 20\<rparr>"]
  by (simp add: exampleAlert_def exampleViolations_def isDeploy_def Let_def)

end
