(* ===== verification/Alert_Safety.thy ===== *)
theory Alert_Safety
  imports Alert_Facts "HOL-Library.Multiset"
begin

text \<open>
  What a batch of alerts does to the stored ones: no incoming alert is lost, an update is a merge with the
  stored alert or marks the deployment as gone, and only alerts that are no longer produced are resolved.

  The datastore is assumed to answer an exact search for identifiers with the stored alerts of these
  identifiers (\<open>searchesById\<close>); nothing is assumed of the keys but that the search returned them.
\<close>

subsection \<open>Fetching the stored alerts\<close>

definition searchesById :: "('s, 'x, 'p) alertDataStore \<Rightarrow> 's \<Rightarrow> 'x StorageAlert list \<Rightarrow> bool" where
  "searchesById ds s db \<longleftrightarrow> distinct (map al_Id db)
     \<and> (\<forall>ids. ids \<noteq> [] \<longrightarrow> SearchRawAlerts ds (exactQuery alertIDField ids) s = Inr (filter (\<lambda>a. al_Id a \<in> set ids) db))"

definition storedMatch :: "AlertMatchKey list \<Rightarrow> 'x StorageAlert list \<Rightarrow> 'x StorageAlert \<Rightarrow> 'x StorageAlert option" where
  "storedMatch keys db a =
     (if IsDeployTimeAttemptedAlert a then None
      else case findMatchingKey a keys of None \<Rightarrow> None | Some k \<Rightarrow> find (\<lambda>old. al_Id old = mk_ID k) db)"

text \<open>The merge of an incoming alert with the stored one that it matches, if it is a change.\<close>

definition mergeChange :: "'x StorageAlert option \<Rightarrow> 'x StorageAlert \<Rightarrow> 'x StorageAlert option" where
  "mergeChange prev a =
     (case prev of None \<Rightarrow> None | Some old \<Rightarrow> if mergeAlerts old a = old then None else Some (mergeAlerts old a))"

lemma fetched_by_id:
  assumes "distinct (map al_Id fetched)"
  shows "mget (fold (\<lambda>a. mput (al_Id a) a) fetched m) i =
    (case find (\<lambda>old. al_Id old = i) fetched of None \<Rightarrow> mget m i | Some old \<Rightarrow> Some old)"
  using assms
proof (induction fetched arbitrary: m)
  case (Cons a as)
  have "find (\<lambda>old. al_Id old = al_Id a) as = None"
    using Cons.prems by (simp add: find_None_iff) (metis image_eqI)
  with Cons show ?case by (auto split: option.split)
qed simp

lemma find_filter_id:
  "i \<in> set ids \<Longrightarrow> find (\<lambda>old. al_Id old = i) (filter (\<lambda>a. al_Id a \<in> set ids) db) = find (\<lambda>old. al_Id old = i) db"
  by (induction db) auto

lemma mergeFetched_eq:
  "mergeFetched cs m =
     (map (firstSeen \<circ> fst) (filter (\<lambda>(a, i). mget m i = None) cs),
      List.map_filter (\<lambda>(a, i). mergeChange (mget m i) a) cs)"
  by (induction cs m rule: mergeFetched.induct)
    (auto simp: mergeChange_def map_filter_simps split: option.split prod.split)

lemma map_filter_cong: "(\<And>x. x \<in> set xs \<Longrightarrow> f x = g x) \<Longrightarrow> List.map_filter f xs = List.map_filter g xs"
  by (induction xs) (simp_all add: map_filter_simps split: option.split)

lemma fetchAndMerge_eq:
  assumes "searchesById ds s db"
  shows "fetchAndMergeCandidates ds cs s =
    Inr (map (firstSeen \<circ> fst) (filter (\<lambda>(a, i). find (\<lambda>old. al_Id old = i) db = None) cs),
         List.map_filter (\<lambda>(a, i). mergeChange (find (\<lambda>old. al_Id old = i) db) a) cs)"
proof (cases "cs = []")
  case True
  then show ?thesis by (simp add: fetchAndMergeCandidates_def map_filter_simps)
next
  case False
  let ?ids = "newSet (map snd cs)"
  let ?fetched = "filter (\<lambda>a. al_Id a \<in> set ?ids) db"
  have "?ids \<noteq> []" using False by (metis map_is_Nil_conv set_empty set_newSet)
  then have fetch: "SearchRawAlerts ds (exactQuery alertIDField ?ids) s = Inr ?fetched"
    using assms by (auto simp: searchesById_def)
  have dist: "distinct (map al_Id ?fetched)"
    using assms by (auto simp: searchesById_def distinct_map inj_on_subset)
  have find: "mget (fold (\<lambda>a. mput (al_Id a) a) ?fetched []) i = find (\<lambda>old. al_Id old = i) db"
    if "(a, i) \<in> set cs" for a i
    unfolding fetched_by_id [OF dist] using that by (subst find_filter_id) (force split: option.split)+
  have "filter (\<lambda>(a, i). mget (fold (\<lambda>a. mput (al_Id a) a) ?fetched []) i = None) cs =
      filter (\<lambda>(a, i). find (\<lambda>old. al_Id old = i) db = None) cs"
    using find by (intro filter_cong) auto
  moreover have "List.map_filter (\<lambda>(a, i). mergeChange (mget (fold (\<lambda>a. mput (al_Id a) a) ?fetched []) i) a) cs =
      List.map_filter (\<lambda>(a, i). mergeChange (find (\<lambda>old. al_Id old = i) db) a) cs"
    using find by (intro map_filter_cong) auto
  ultimately show ?thesis
    using False fetch by (simp add: fetchAndMergeCandidates_def mergeFetched_eq)
qed

lemma unmatched_simps [simp]:
  "unmatchedAlerts [] keys = []"
  "unmatchedAlerts (a # as) keys =
     (if IsDeployTimeAttemptedAlert a \<or> findMatchingKey a keys = None then [firstSeen a] else []) @ unmatchedAlerts as keys"
  by (simp_all add: unmatchedAlerts_def)

lemma candidates_simps [simp]:
  "mergeCandidates [] keys = []"
  "mergeCandidates (a # as) keys =
     (if IsDeployTimeAttemptedAlert a then []
      else case findMatchingKey a keys of None \<Rightarrow> [] | Some k \<Rightarrow> [(a, mk_ID k)]) @ mergeCandidates as keys"
  by (simp_all add: mergeCandidates_def)

lemma candidates_matched:
  "List.map_filter (\<lambda>(a, i). mergeChange (find (\<lambda>old. al_Id old = i) db) a) (mergeCandidates incoming keys) =
     List.map_filter (\<lambda>a. mergeChange (storedMatch keys db a) a) incoming"
  by (induction incoming)
    (auto simp: storedMatch_def mergeChange_def map_filter_simps split: option.split)

lemma new_alerts_mset:
  "mset (unmatchedAlerts incoming keys @
     map (firstSeen \<circ> fst) (filter (\<lambda>(a, i). find (\<lambda>old. al_Id old = i) db = None) (mergeCandidates incoming keys))) =
   mset (map firstSeen (filter (\<lambda>a. storedMatch keys db a = None) incoming))"
proof (induction incoming)
  case (Cons a as)
  then show ?case
    by (cases "IsDeployTimeAttemptedAlert a"; cases "findMatchingKey a keys") (simp_all add: storedMatch_def [of keys db a])
qed simp

subsection \<open>What becomes of a batch\<close>

definition deploymentGone :: "runtimeDetector \<Rightarrow> 'p AlertFilterOption list \<Rightarrow> string \<Rightarrow> bool" where
  "deploymentGone rd filters d \<longleftrightarrow> (d \<noteq> [] \<and> (\<exists>f \<in> set filters. removedDeploymentID f = d)) \<or> DeploymentInactive rd d"

text \<open>A runtime or attempted alert of a deployment that is gone is marked.\<close>

definition marksGone :: "runtimeDetector \<Rightarrow> 'p AlertFilterOption list \<Rightarrow> 'x StorageAlert \<Rightarrow> 'x StorageAlert" where
  "marksGone rd filters a =
     (case GetDeployment a of
        None \<Rightarrow> a
      | Some d \<Rightarrow>
          if (al_LifecycleStage a = RUNTIME \<or> al_State a = ATTEMPTED) \<and> \<not> Inactive d \<and> deploymentGone rd filters (de_Id d)
          then setInactive a else a)"

lemma removed_iff: "setContains (removedDeployments filters) d \<longleftrightarrow> d \<noteq> [] \<and> (\<exists>f \<in> set filters. removedDeploymentID f = d)"
  by (auto simp: removedDeployments_def setContains_def)

lemma stamp_eq: "stampInactiveIfDeploymentGone rd (removedDeployments filters) = marksGone rd filters"
  by (rule ext) (auto simp: stampInactiveIfDeploymentGone_def marksGone_def deploymentGone_def removed_iff split: option.split)

lemma marksGone_Id [simp]: "al_Id (marksGone rd filters a) = al_Id a"
  by (simp add: marksGone_def split: option.split)

text \<open>The stored alerts that get the mark without a change of their own.\<close>

definition marksStored :: "runtimeDetector \<Rightarrow> 'p AlertFilterOption list \<Rightarrow> AlertMatchKey list \<Rightarrow> 'x StorageAlert list \<Rightarrow>
    'x StorageAlert list \<Rightarrow> 'x StorageAlert \<Rightarrow> bool" where
  "marksStored rd filters keys db incoming old \<longleftrightarrow>
     (\<exists>d. GetDeployment old = Some d \<and> \<not> Inactive d)
     \<and> \<not> (\<exists>a \<in> set incoming. storedMatch keys db a = Some old \<and> mergeAlerts old a \<noteq> old)
     \<and> (\<exists>k \<in> set keys. mk_ID k = al_Id old \<and> (mk_LifecycleStage k = RUNTIME \<or> mk_State k = ATTEMPTED)
          \<and> mk_DeploymentInactive k \<noteq> Some True
          \<and> (\<exists>d. mk_DeploymentID k = Some d \<and> d \<noteq> [] \<and> deploymentGone rd filters d))"

lemma needsInactive_iff:
  "needsInactive rd (removedDeployments filters) upd (keyMatcher k) \<longleftrightarrow>
     (mk_LifecycleStage k = RUNTIME \<or> mk_State k = ATTEMPTED) \<and> mk_DeploymentInactive k \<noteq> Some True
     \<and> \<not> setContains upd (mk_ID k) \<and> (\<exists>d. mk_DeploymentID k = Some d \<and> d \<noteq> [] \<and> deploymentGone rd filters d)"
  by (auto simp: needsInactive_def keyMatcher_def deploymentGone_def removed_iff orEmpty_def)

lemma markInactive_eq:
  fixes db :: "'x StorageAlert list"
  assumes "searchesById ds s db"
  shows "markDeploymentsInactive ds ids s =
    Inr (map setInactive (filter (\<lambda>a. al_Id a \<in> set ids \<and> (\<exists>d. GetDeployment a = Some d \<and> \<not> Inactive d)) db))"
proof -
  have "(case GetDeployment a of None \<Rightarrow> False | Some d \<Rightarrow> \<not> Inactive d) \<longleftrightarrow> (\<exists>d. GetDeployment a = Some d \<and> \<not> Inactive d)"
    for a :: "'x StorageAlert" by (simp split: option.split)
  then show ?thesis using assms by (simp add: markDeploymentsInactive_def searchesById_def conj_commute)
qed

lemma mergeChange_Id: "mergeChange (storedMatch keys db a) a = Some m \<Longrightarrow>
    \<exists>old \<in> set db. storedMatch keys db a = Some old \<and> mergeAlerts old a \<noteq> old \<and> al_Id m = al_Id old"
proof -
  assume "mergeChange (storedMatch keys db a) a = Some m"
  then obtain old where o: "storedMatch keys db a = Some old" "mergeAlerts old a \<noteq> old" "m = mergeAlerts old a"
    by (auto simp: mergeChange_def split: option.splits if_splits)
  have "old \<in> set db" using o(1) by (auto simp: storedMatch_def find_Some_iff split: if_splits option.splits)
  moreover have "al_Id (mergeAlerts old a) = al_Id old" using mergeAlerts_fields(1) o(2) mergeAlerts_old by metis
  ultimately show ?thesis using o by auto
qed

lemma storedMatch_in_db: "storedMatch keys db a = Some old \<Longrightarrow> old \<in> set db"
  by (auto simp: storedMatch_def find_Some_iff split: if_splits option.splits)

lemma already_updated:
  assumes "distinct (map al_Id db)" "old \<in> set db"
  shows "al_Id old \<in> al_Id ` set (List.map_filter (\<lambda>a. mergeChange (storedMatch keys db a) a) incoming) \<longleftrightarrow>
    (\<exists>a \<in> set incoming. storedMatch keys db a = Some old \<and> mergeAlerts old a \<noteq> old)"
proof
  assume "al_Id old \<in> al_Id ` set (List.map_filter (\<lambda>a. mergeChange (storedMatch keys db a) a) incoming)"
  then obtain a m where a: "a \<in> set incoming" "mergeChange (storedMatch keys db a) a = Some m" "al_Id m = al_Id old"
    by (auto simp: set_map_filter)
  from mergeChange_Id [OF a(2)] obtain old' where o: "old' \<in> set db" "storedMatch keys db a = Some old'"
    "mergeAlerts old' a \<noteq> old'" "al_Id m = al_Id old'" by blast
  have "old' = old" using assms o(1,4) a(3) by (metis distinct_map inj_onD)
  with a(1) o show "\<exists>a \<in> set incoming. storedMatch keys db a = Some old \<and> mergeAlerts old a \<noteq> old" by blast
next
  assume "\<exists>a \<in> set incoming. storedMatch keys db a = Some old \<and> mergeAlerts old a \<noteq> old"
  then obtain a where a: "a \<in> set incoming" "storedMatch keys db a = Some old" "mergeAlerts old a \<noteq> old" by blast
  then have "mergeChange (storedMatch keys db a) a = Some (mergeAlerts old a)" by (simp add: mergeChange_def)
  then have "mergeAlerts old a \<in> set (List.map_filter (\<lambda>a. mergeChange (storedMatch keys db a) a) incoming)"
    using a(1) by (auto simp: set_map_filter)
  moreover have "al_Id (mergeAlerts old a) = al_Id old" using mergeAlerts_fields(1) a(3) mergeAlerts_old by metis
  ultimately show "al_Id old \<in> al_Id ` set (List.map_filter (\<lambda>a. mergeChange (storedMatch keys db a) a) incoming)"
    by (metis image_eqI)
qed

lemma keyMatcher_fields [simp]:
  "am_Id (keyMatcher k) = mk_ID k" "am_PolicyId (keyMatcher k) = mk_PolicyID k" "am_State (keyMatcher k) = mk_State k"
  "am_LifecycleStage (keyMatcher k) = mk_LifecycleStage k" "am_DeploymentId (keyMatcher k) = orEmpty (mk_DeploymentID k)"
  by (simp_all add: keyMatcher_def)

lemma mergeMany_eq:
  fixes rd :: runtimeDetector and incoming :: "'x StorageAlert list"
  assumes "SearchAlertMatchKeys ds (previousQuery filters) s = Inr keys" "searchesById ds s db"
  defines "merged \<equiv> map (marksGone rd filters) (List.map_filter (\<lambda>a. mergeChange (storedMatch keys db a) a) incoming)"
  shows "mergeManyAlerts ds rd incoming filters s = Inr
    \<lparr>newAlerts = map (marksGone rd filters) (unmatchedAlerts incoming keys @
       map (firstSeen \<circ> fst) (filter (\<lambda>(a, i). find (\<lambda>old. al_Id old = i) db = None) (mergeCandidates incoming keys))),
     updatedAlerts = merged @ map setInactive (filter (marksStored rd filters keys db incoming) db),
     toBeResolvedIDs = map mk_ID (filter (\<lambda>k. shouldMarkAlertResolved rd (keyMatcher k) incoming filters) keys),
     resolvedDeploymentIDs = newSet (map am_DeploymentId (filter HasDeployment
        (map keyMatcher (filter (\<lambda>k. shouldMarkAlertResolved rd (keyMatcher k) incoming filters) keys))))\<rparr>"
proof -
  let ?upd = "newSet (map al_Id merged)"
  let ?ids = "map am_Id (filter (needsInactive rd (removedDeployments filters) ?upd) (map keyMatcher keys))"
  have ids: "i \<in> set ?ids \<longleftrightarrow> (\<exists>k \<in> set keys. mk_ID k = i \<and> needsInactive rd (removedDeployments filters) ?upd (keyMatcher k))" for i
    by force
  have upd: "al_Id old \<in> al_Id ` set merged \<longleftrightarrow>
      (\<exists>a \<in> set incoming. storedMatch keys db a = Some old \<and> mergeAlerts old a \<noteq> old)" if "old \<in> set db" for old
    using already_updated [of db old keys incoming] assms(2) that by (simp add: merged_def image_image searchesById_def)
  have "(al_Id old \<in> set ?ids \<and> (\<exists>d. GetDeployment old = Some d \<and> \<not> Inactive d)) = marksStored rd filters keys db incoming old"
    if "old \<in> set db" for old
    unfolding ids needsInactive_iff marksStored_def using upd [OF that] by (auto simp: setContains_def) metis+
  then have stored: "filter (\<lambda>a. al_Id a \<in> set ?ids \<and> (\<exists>d. GetDeployment a = Some d \<and> \<not> Inactive d)) db =
      filter (marksStored rd filters keys db incoming) db"
    by (intro filter_cong) auto
  have res: "filter (\<lambda>m. shouldMarkAlertResolved rd m incoming filters) (map keyMatcher keys) =
      map keyMatcher (filter (\<lambda>k. shouldMarkAlertResolved rd (keyMatcher k) incoming filters) keys)"
    by (simp add: filter_map o_def)
  show ?thesis
    unfolding mergeManyAlerts_def assms(1) fetchAndMerge_eq [OF assms(2)] candidates_matched stamp_eq
      markInactive_eq [OF assms(2)] Let_def sum.case prod.case merged_def [symmetric] stored res
    by (simp add: o_def)
qed

text \<open>
  C9. No incoming alert gets lost, and none is both added and merged: the added alerts are the incoming ones
  that match no stored alert, each with its own time as first occurrence; the others are merged, in their order,
  with the stored alerts they match, where that is a change. Apart from these exactly those stored
  alerts are written whose deployment is gone and not yet marked, so a merge is never overwritten. Alerts of deployments that
  are gone are marked.\<close>

theorem no_alert_is_lost:
  assumes "SearchAlertMatchKeys ds (previousQuery filters) s = Inr keys" "searchesById ds s db"
  shows "\<exists>r. mergeManyAlerts ds rd incoming filters s = Inr r
    \<and> mset (newAlerts r) =
        image_mset (marksGone rd filters \<circ> firstSeen) {# a \<in># mset incoming. storedMatch keys db a = None #}
    \<and> updatedAlerts r =
        map (marksGone rd filters) (List.map_filter (\<lambda>a. mergeChange (storedMatch keys db a) a) incoming)
        @ map setInactive (filter (marksStored rd filters keys db incoming) db)"
proof -
  have "mset (map (marksGone rd filters) (unmatchedAlerts incoming keys @
       map (firstSeen \<circ> fst) (filter (\<lambda>(a, i). find (\<lambda>old. al_Id old = i) db = None) (mergeCandidates incoming keys)))) =
     image_mset (marksGone rd filters) (mset (map firstSeen (filter (\<lambda>a. storedMatch keys db a = None) incoming)))"
    unfolding new_alerts_mset [symmetric] by (simp only: mset_map)
  then show ?thesis
    unfolding mergeMany_eq [OF assms] by (simp add: mset_filter multiset.map_comp image_mset.compositionality)
qed

definition exampleDetector :: "string \<Rightarrow> runtimeDetector" where
  "exampleDetector gone = \<lparr>policyExists = (\<lambda>p. True), DeploymentWhitelistedForPolicy = (\<lambda>d p. False), DeploymentInactive = (\<lambda>d. d = gone)\<rparr>"

text \<open>A datastore for the examples, which searches a list of alerts.\<close>

definition exampleFields :: "'x StorageAlert \<Rightarrow> string \<Rightarrow> string" where
  "exampleFields a f = (if f = alertIDField then al_Id a else if f = violationStateField then stateString (al_State a) else [])"

definition exampleKey :: "'x StorageAlert \<Rightarrow> AlertMatchKey" where
  "exampleKey a = \<lparr>mk_ID = al_Id a, mk_PolicyID = al_PolicyId a, mk_State = al_State a, mk_LifecycleStage = al_LifecycleStage a,
     mk_DeploymentID = map_option de_Id (GetDeployment a), mk_DeploymentInactive = map_option Inactive (GetDeployment a),
     mk_ResourceType = None, mk_ResourceName = None, mk_ClusterID = Some (al_ClusterId a), mk_Namespace = Some (al_Namespace a),
     mk_NodeID = None, mk_NodeName = None\<rparr>"

definition exampleStore :: "('x StorageAlert list, 'x, nat) alertDataStore" where
  "exampleStore =
     \<lparr>SearchAlertMatchKeys = (\<lambda>q s. Inr (map exampleKey (filter (\<lambda>a. query_matches exampleFieldMatches (al_Id a) (exampleFields a) q) s))),
      SearchRawAlerts = (\<lambda>q s. Inr (filter (\<lambda>a. query_matches exampleFieldMatches (al_Id a) (exampleFields a) q) s)),
      UpsertAlert = (\<lambda>a s. (None, filter (\<lambda>b. al_Id b \<noteq> al_Id a) s @ [a])),
      MarkAlertsResolvedBatch = (\<lambda>ids s.
        (Inr (map (\<lambda>a. a\<lparr>al_State := RESOLVED\<rparr>) (filter (\<lambda>a. al_Id a \<in> set ids) s)),
         map (\<lambda>a. if al_Id a \<in> set ids then a\<lparr>al_State := RESOLVED\<rparr> else a) s))\<rparr>"

lemma exampleStore_searches: "distinct (map al_Id db) \<Longrightarrow> searchesById exampleStore db db"
  by (simp add: searchesById_def exampleStore_def exactQuery_def exact_query_matches [OF exampleFieldMatches_exact])
    (simp add: exampleFields_def)

lemma exampleStore_keys:
  "SearchAlertMatchKeys exampleStore (previousQuery []) db =
     Inr (map exampleKey (filter (\<lambda>a. al_State a = ACTIVE \<or> al_State a = ATTEMPTED) db))"
proof -
  have "stateString (al_State a) \<in> {stateString ACTIVE, stateString ATTEMPTED} \<longleftrightarrow> al_State a = ACTIVE \<or> al_State a = ATTEMPTED"
    for a :: "'a StorageAlert" by (cases "al_State a") simp_all
  then show ?thesis
    unfolding exampleStore_def previousQuery_def
    by (simp add: exact_query_matches [OF exampleFieldMatches_exact])
      (simp add: exampleFields_def violationStateField_def alertIDField_def)
qed

lemma no_alert_is_lost_witness:
  "let old = exampleAlert ''A'' RUNTIME [exampleProcess 1]; a = exampleAlert ''B'' RUNTIME [exampleProcess 1]
   in \<exists>r. mergeManyAlerts exampleStore (exampleDetector ''D'') [a] [] [old] = Inr r
        \<and> newAlerts r = [] \<and> updatedAlerts r = [setInactive old]"
proof -
  let ?old = "exampleAlert ''A'' RUNTIME [exampleProcess 1]"
  let ?a = "exampleAlert ''B'' RUNTIME [exampleProcess 1]"
  have keys: "SearchAlertMatchKeys exampleStore (previousQuery []) [?old] = Inr [exampleKey ?old]"
    by (simp add: exampleStore_keys exampleAlert_def)
  have match: "storedMatch [exampleKey ?old] [?old] ?a = Some ?old" by code_simp
  have same: "mergeAlerts ?old ?a = ?old" by code_simp
  have mark: "marksStored (exampleDetector ''D'') [] [exampleKey ?old] [?old] [?a] ?old"
    using same
    by (simp add: marksStored_def exampleKey_def deploymentGone_def exampleDetector_def exampleAlert_def GetDeployment_def)
  have new: "filter_mset (\<lambda>a. storedMatch [exampleKey ?old] [?old] a = None) (mset [?a]) = {#}"
    by (simp add: match)
  have upd: "List.map_filter (\<lambda>a. mergeChange (storedMatch [exampleKey ?old] [?old] a) a) [?a] = []"
    by (simp add: mergeChange_def map_filter_simps match same)
  have stored: "filter (marksStored (exampleDetector ''D'') [] [exampleKey ?old] [?old] [?a]) [?old] = [?old]"
    by (simp add: mark)
  have "searchesById exampleStore [?old] [?old]" by (rule exampleStore_searches) simp
  from no_alert_is_lost [OF keys this, of "exampleDetector ''D''" "[?a]"]
  show ?thesis unfolding new upd stored Let_def by simp
qed

subsection \<open>Who is resolved\<close>

lemma same_entity_sym: "alertsAreForSamePolicyAndEntity m m' = alertsAreForSamePolicyAndEntity m' m"
  by (simp add: alertsAreForSamePolicyAndEntity_def eq_commute conj_commute)

lemma findMatchingAlert_None:
  "findMatchingAlert m alerts = None \<longleftrightarrow> \<not> (\<exists>a \<in> set alerts. alertsAreForSamePolicyAndEntity m (alertAdapter a))"
  by (auto simp: findMatchingAlert_def find_None_iff)

lemma specified_iff: "set (specifiedPolicies filters) = {p. p \<noteq> [] \<and> (\<exists>f \<in> set filters. specifiedPolicyID f = p)}"
  by (auto simp: specifiedPolicies_def)

definition staleKey :: "runtimeDetector \<Rightarrow> 'x StorageAlert list \<Rightarrow> 'p AlertFilterOption list \<Rightarrow> AlertMatchKey \<Rightarrow> bool" where
  "staleKey rd incoming filters k \<longleftrightarrow>
     mk_State k \<noteq> ATTEMPTED \<and> (\<forall>a \<in> set incoming. al_State a \<noteq> ATTEMPTED)
     \<and> (\<forall>a \<in> set incoming. \<not> alertsAreForSamePolicyAndEntity (keyMatcher k) (alertAdapter a))
     \<and> (mk_LifecycleStage k = RUNTIME \<and> policyExists rd (mk_PolicyID k) \<longrightarrow>
          mk_PolicyID k \<noteq> [] \<and> (\<exists>f \<in> set filters. specifiedPolicyID f = mk_PolicyID k)
          \<and> DeploymentWhitelistedForPolicy rd (orEmpty (mk_DeploymentID k)) (mk_PolicyID k))"

lemma shouldMark_iff: "shouldMarkAlertResolved rd (keyMatcher k) incoming filters \<longleftrightarrow> staleKey rd incoming filters k"
proof -
  have card: "setCardinality (specifiedPolicies filters) = 0 \<longleftrightarrow> set (specifiedPolicies filters) = {}"
    by (simp add: setCardinality_def)
  show ?thesis
    unfolding shouldMarkAlertResolved_def Let_def card findMatchingAlert_None not_not setContains_def specified_iff staleKey_def list_ex_iff
    by auto
qed

text \<open>
  C8. The alerts that are resolved are exactly the stale ones: not attempted, in a batch without attempted alerts,
  for a policy and entity that no incoming alert has and, for a runtime alert, of a policy that is gone, or
  that was updated and no longer covers the deployment. So no alert is resolved that an incoming alert is merged
  with.\<close>

theorem resolved_exactly_stale:
  assumes "SearchAlertMatchKeys ds (previousQuery filters) s = Inr keys" "searchesById ds s db" "distinct (map mk_ID keys)"
  shows "\<exists>r. mergeManyAlerts ds rd incoming filters s = Inr r
    \<and> toBeResolvedIDs r = map mk_ID (filter (staleKey rd incoming filters) keys)
    \<and> (\<forall>a \<in> set incoming. \<forall>old. storedMatch keys db a = Some old \<longrightarrow> al_Id old \<notin> set (toBeResolvedIDs r))
    \<and> set (resolvedDeploymentIDs r) = {d. d \<noteq> [] \<and> (\<exists>k \<in> set keys. mk_DeploymentID k = Some d \<and> staleKey rd incoming filters k)}"
proof -
  have "al_Id old \<notin> mk_ID ` {k \<in> set keys. staleKey rd incoming filters k}"
    if "a \<in> set incoming" "storedMatch keys db a = Some old" for a old
  proof
    assume "al_Id old \<in> mk_ID ` {k \<in> set keys. staleKey rd incoming filters k}"
    then obtain k where k: "k \<in> set keys" "staleKey rd incoming filters k" "mk_ID k = al_Id old" by auto
    from that(2) obtain k' where k': "findMatchingKey a keys = Some k'" "al_Id old = mk_ID k'"
      by (auto simp: storedMatch_def find_Some_iff split: if_splits option.splits)
    then have "k' \<in> set keys" "alertsAreForSamePolicyAndEntity (alertAdapter a) (keyMatcher k')"
      by (auto simp: findMatchingKey_def find_Some_iff)
    moreover have "k' = k" using assms(3) k(1,3) k'(2) \<open>k' \<in> set keys\<close> by (metis distinct_map inj_onD)
    ultimately show False using k(2) that(1) same_entity_sym by (metis staleKey_def)
  qed
  moreover have dep: "HasDeployment (keyMatcher k) \<and> am_DeploymentId (keyMatcher k) = d \<longleftrightarrow> mk_DeploymentID k = Some d \<and> d \<noteq> []" for k d
    by (auto simp: keyMatcher_def orEmpty_def)
  have resolved: "d \<in> am_DeploymentId ` {m \<in> keyMatcher ` {k \<in> set keys. staleKey rd incoming filters k}. HasDeployment m} \<longleftrightarrow>
      d \<noteq> [] \<and> (\<exists>k \<in> set keys. mk_DeploymentID k = Some d \<and> staleKey rd incoming filters k)" for d
  proof -
    have "d \<in> am_DeploymentId ` {m \<in> keyMatcher ` {k \<in> set keys. staleKey rd incoming filters k}. HasDeployment m} \<longleftrightarrow>
        (\<exists>k \<in> set keys. staleKey rd incoming filters k \<and> HasDeployment (keyMatcher k) \<and> am_DeploymentId (keyMatcher k) = d)"
      by blast
    then show ?thesis unfolding dep by blast
  qed
  have deps: "set (newSet (map am_DeploymentId (filter HasDeployment (map keyMatcher (filter (staleKey rd incoming filters) keys))))) =
      {d. d \<noteq> [] \<and> (\<exists>k \<in> set keys. mk_DeploymentID k = Some d \<and> staleKey rd incoming filters k)}"
    unfolding set_newSet set_map set_filter using resolved by blast
  ultimately show ?thesis
    unfolding mergeMany_eq [OF assms(1,2)] shouldMark_iff
    by (intro exI conjI) (rule refl, simp, simp, simp add: deps)
qed

lemma resolved_exactly_stale_witness:
  "let old = exampleAlert ''A'' DEPLOY []
   in \<exists>r. mergeManyAlerts exampleStore (exampleDetector ''E'') [] [] [old] = Inr r \<and> toBeResolvedIDs r = [''A'']"
proof -
  let ?old = "exampleAlert ''A'' DEPLOY []"
  have keys: "SearchAlertMatchKeys exampleStore (previousQuery []) [?old] = Inr [exampleKey ?old]"
    by (simp add: exampleStore_keys exampleAlert_def)
  have "staleKey (exampleDetector ''E'') [] [] (exampleKey ?old)" "mk_ID (exampleKey ?old) = ''A''"
    by (simp_all add: staleKey_def exampleKey_def exampleAlert_def)
  then have res: "map mk_ID (filter (staleKey (exampleDetector ''E'') [] []) [exampleKey ?old]) = [''A'']" by simp
  have "searchesById exampleStore [?old] [?old]" by (rule exampleStore_searches) simp
  from resolved_exactly_stale [OF keys this, of "exampleDetector ''E''" "[]"]
  show ?thesis unfolding res Let_def by auto
qed

subsection \<open>Who is notified\<close>

text \<open>The state of the datastore after all alerts of a list were written, and the errors of the writes.\<close>

definition afterUpserts :: "('s, 'x, 'p) alertDataStore \<Rightarrow> 'x StorageAlert list \<Rightarrow> 's \<Rightarrow> 's" where
  "afterUpserts ds alerts s = fold (\<lambda>a s. snd (UpsertAlert ds a s)) alerts s"

fun upsertErrors :: "('s, 'x, 'p) alertDataStore \<Rightarrow> 'x StorageAlert list \<Rightarrow> 's \<Rightarrow> string list" where
  "upsertErrors ds [] s = []"
| "upsertErrors ds (a # as) s =
     (case fst (UpsertAlert ds a s) of None \<Rightarrow> [] | Some e \<Rightarrow> [e]) @ upsertErrors ds as (snd (UpsertAlert ds a s))"

lemma upsertAll_eq: "upsertAll ds alerts w = (upsertErrors ds alerts (stored w), w\<lparr>stored := afterUpserts ds alerts (stored w)\<rparr>)"
  by (induction alerts arbitrary: w) (simp_all add: afterUpserts_def split_beta Let_def split: option.split)

lemma updateBatch_eq:
  "updateBatch ds alerts w =
     (if upsertErrors ds alerts (stored w) = [] then None else Some (UpdatesFailed (upsertErrors ds alerts (stored w))),
      w\<lparr>stored := afterUpserts ds alerts (stored w)\<rparr>)"
  by (simp add: updateBatch_def upsertAll_eq)

lemma fold_ProcessAlert: "fold ProcessAlert alerts w = w\<lparr>sent := sent w @ alerts\<rparr>"
  by (induction alerts arbitrary: w) (simp_all add: ProcessAlert_def)

lemma notify_fold:
  "fold (\<lambda>a w. if shouldDebounceNotification ds cfg (stored w) a then w else ProcessAlert a w) alerts w =
     w\<lparr>sent := sent w @ filter (\<lambda>a. \<not> shouldDebounceNotification ds cfg (stored w) a) alerts\<rparr>"
  by (induction alerts arbitrary: w) (simp_all add: ProcessAlert_def)

lemma notifyAndUpdate_eq:
  "notifyAndUpdateBatch ds cfg alerts w =
     updateBatch ds alerts (w\<lparr>sent := sent w @ filter (\<lambda>a. \<not> shouldDebounceNotification ds cfg (stored w) a) alerts\<rparr>)"
  by (simp add: notifyAndUpdateBatch_def notify_fold)

text \<open>
  C25. What \<open>AlertAndNotify\<close> does to the store and the notifier, on every path. When the merge fails, it returns the
  error, and nothing is written or notified. Otherwise the new alerts are notified, except the debounced ones, and all
  written, then the updates are written, and only if no write failed are alerts resolved. The resolved alerts
  are notified next and, if so configured, the updated runtime alerts. No alert is written that is not new or updated, also after
  an error, and after an error of a write no alert is resolved.\<close>

theorem AlertAndNotify_effects:
  "case mergeManyAlerts ds rd incoming filters (stored w) of
     Inl e \<Rightarrow> AlertAndNotify ds rd cfg incoming filters w = (Inl e, w)
   | Inr r \<Rightarrow>
      (let (res, w') = AlertAndNotify ds rd cfg incoming filters w;
        written = upsertErrors ds (newAlerts r) (stored w);
        s1 = afterUpserts ds (newAlerts r) (stored w);
        rewritten = upsertErrors ds (updatedAlerts r) s1;
        s2 = afterUpserts ds (updatedAlerts r) s1;
        resolve = (if toBeResolvedIDs r = [] then (Inr [], s2) else MarkAlertsResolvedBatch ds (toBeResolvedIDs r) s2);
        first = sent w @ filter (\<lambda>a. \<not> shouldDebounceNotification ds cfg (stored w) a) (newAlerts r)
      in if written \<noteq> [] then res = Inl (UpdatesFailed written) \<and> stored w' = s1 \<and> sent w' = first
         else if rewritten \<noteq> [] then res = Inl (UpdatesFailed rewritten) \<and> stored w' = s2 \<and> sent w' = first
         else stored w' = snd resolve
           \<and> (case fst resolve of
                Inl e \<Rightarrow> res = Inl (ResolveFailed e) \<and> sent w' = first
              | Inr resolved \<Rightarrow>
                  (\<exists>d. res = Inr d \<and> set d = set (getDeploymentIDsFromAlerts (newAlerts r @ updatedAlerts r)) \<union> set (resolvedDeploymentIDs r))
                  \<and> sent w' = first @ resolved @
                      (if NotifyOnEveryRuntimeEvent cfg then filter (\<lambda>a. al_LifecycleStage a = RUNTIME) (updatedAlerts r) else [])))"
  by (cases "mergeManyAlerts ds rd incoming filters (stored w)")
    (auto simp: AlertAndNotify_def notifyAndUpdate_eq updateBatch_eq markAlertsResolvedByIDs_def notifyUpdatedRuntimeAlerts_def
      fold_ProcessAlert Let_def split: sum.splits prod.splits)

lemma AlertAndNotify_effects_witness:
  "let a = exampleAlert ''A'' RUNTIME []; cfg = \<lparr>debounceDuration = 0, clock = 9, NotifyOnEveryRuntimeEvent = True\<rparr>;
       (res, w') = AlertAndNotify exampleStore (exampleDetector ''E'') cfg [a] [] \<lparr>stored = [], sent = []\<rparr>
   in stored w' = [firstSeen a] \<and> sent w' = [firstSeen a]"
proof -
  let ?a = "exampleAlert ''A'' RUNTIME []"
  let ?w = "\<lparr>stored = [], sent = []\<rparr> :: (unit StorageAlert list, unit) world"
  let ?cfg = "\<lparr>debounceDuration = 0, clock = 9, NotifyOnEveryRuntimeEvent = True\<rparr>"
  have "mergeManyAlerts exampleStore (exampleDetector ''E'') [?a] [] (stored ?w) =
      Inr \<lparr>newAlerts = [firstSeen ?a], updatedAlerts = [], toBeResolvedIDs = [], resolvedDeploymentIDs = []\<rparr>"
    by (simp add: mergeManyAlerts_def exampleStore_def findMatchingKey_def fetchAndMergeCandidates_def markDeploymentsInactive_def
        stampInactiveIfDeploymentGone_def exampleAlert_def firstSeen_def GetDeployment_def exampleDetector_def setContains_def
        removedDeployments_def Let_def)
  with AlertAndNotify_effects [where ds = exampleStore and rd = "exampleDetector ''E''" and incoming = "[?a]" and filters = "[]"
      and w = ?w and cfg = ?cfg] show ?thesis
    by (simp add: Let_def split_beta afterUpserts_def exampleStore_def shouldDebounceNotification_def exampleAlert_def firstSeen_def)
qed

end
