(* ===== verification/Policy_Safety.thy ===== *)
theory Policy_Safety
  imports Policy_Facts Alert_Safety
begin

text \<open>
  What holds in every reachable set of compiled policies: detection fails only where a matcher does, it
  finds exactly the violations of the policies that apply, containers keep their images, and the alert manager
  resolves a runtime alert exactly when its policy is gone or no longer covers the deployment.
\<close>

subsection \<open>Reachable policy sets\<close>

text \<open>The store of policies that a removal of a notifier writes to is here a list of them.\<close>

inductive policySetReach :: "('sec, 'x, 'i, 'e, 'm) policyLib \<Rightarrow> ClusterLabelProvider option \<Rightarrow> NamespaceLabelProvider option \<Rightarrow>
    ('sec, 'x, 'i, 'm) policySet \<Rightarrow> bool"
  for lib clusterProvider namespaceProvider where
  new: "policySetReach lib clusterProvider namespaceProvider (NewPolicySet clusterProvider namespaceProvider)"
| upsert: "policySetReach lib clusterProvider namespaceProvider p \<Longrightarrow>
    policySetReach lib clusterProvider namespaceProvider (snd (UpsertPolicy lib policy p))"
| upsert_compiled: "policySetReach lib clusterProvider namespaceProvider p \<Longrightarrow>
    CompilePolicy lib clusterProvider namespaceProvider policy = Inr c \<Longrightarrow>
    policySetReach lib clusterProvider namespaceProvider (UpsertCompiledPolicy c p)"
| remove: "policySetReach lib clusterProvider namespaceProvider p \<Longrightarrow>
    policySetReach lib clusterProvider namespaceProvider (RemovePolicy pid p)"
| remove_notifier: "policySetReach lib clusterProvider namespaceProvider p \<Longrightarrow>
    RemoveNotifier upd n p (s :: ('sec, 'x) Policy list) = (err, p', s') \<Longrightarrow> policySetReach lib clusterProvider namespaceProvider p'"

text \<open>A policy in the set was compiled; since then only notifiers may have been removed from it.\<close>

definition compiledEntry :: "('sec, 'x, 'i, 'e, 'm) policyLib \<Rightarrow> ClusterLabelProvider option \<Rightarrow> NamespaceLabelProvider option \<Rightarrow>
    string \<Rightarrow> ('sec, 'x, 'i, 'm) compiledPolicy \<Rightarrow> bool" where
  "compiledEntry lib clusterProvider namespaceProvider pid c \<longleftrightarrow> po_Id (cp_policy c) = pid
     \<and> (\<exists>c0 ns. newCompiledPolicy lib clusterProvider namespaceProvider (cp_policy c0) = Inr c0
          \<and> c = c0\<lparr>cp_policy := (cp_policy c0)\<lparr>po_Notifiers := ns\<rparr>\<rparr>)"

lemma newCompiledPolicy_policy: "newCompiledPolicy lib clusterProvider namespaceProvider policy = Inr c \<Longrightarrow> cp_policy c = policy"
  by (rule newCompiledPolicy_parts)

lemma compiledEntry_new:
  assumes "newCompiledPolicy lib clusterProvider namespaceProvider policy = Inr c"
  shows "compiledEntry lib clusterProvider namespaceProvider (po_Id policy) c"
proof -
  have "c = c\<lparr>cp_policy := (cp_policy c)\<lparr>po_Notifiers := po_Notifiers (cp_policy c)\<rparr>\<rparr>" by simp
  then show ?thesis using assms newCompiledPolicy_policy [OF assms] unfolding compiledEntry_def by metis
qed

lemma compiledEntry_notifiers:
  "compiledEntry lib clusterProvider namespaceProvider pid c \<Longrightarrow>
     compiledEntry lib clusterProvider namespaceProvider pid (c\<lparr>cp_policy := (cp_policy c)\<lparr>po_Notifiers := ns\<rparr>\<rparr>)"
  unfolding compiledEntry_def by fastforce

definition sameButNotifiers :: "('sec, 'x, 'i, 'm) compiledPolicy \<Rightarrow> ('sec, 'x, 'i, 'm) compiledPolicy \<Rightarrow> bool" where
  "sameButNotifiers c c' \<longleftrightarrow> (\<exists>ns. c' = c\<lparr>cp_policy := (cp_policy c)\<lparr>po_Notifiers := ns\<rparr>\<rparr>)"

lemma sameButNotifiers_refl [simp]: "sameButNotifiers c c"
  unfolding sameButNotifiers_def by (rule exI [of _ "po_Notifiers (cp_policy c)"]) simp

lemma sameButNotifiers_removed [simp]: "sameButNotifiers c (c\<lparr>cp_policy := (cp_policy c)\<lparr>po_Notifiers := ns\<rparr>\<rparr>)"
  unfolding sameButNotifiers_def by blast

lemma same_entries: "list_all2 (\<lambda>(pid, c) (pid', c'). pid' = pid \<and> sameButNotifiers c c') m m"
  by (induction m) auto

lemma removeNotifierLoop_entries:
  assumes "removeNotifierLoop upd n m s = (err, m', s')"
  shows "list_all2 (\<lambda>(pid, c) (pid', c'). pid' = pid \<and> sameButNotifiers c c') m m'"
  using assms
proof (induction m arbitrary: s err m' s')
  case (Cons entry rest)
  obtain pid cp where entry: "entry = (pid, cp)" by (cases entry)
  note loop = Cons.prems [unfolded entry]
  let ?kept = "filter (\<lambda>x. x \<noteq> n) (po_Notifiers (cp_policy cp))"
  let ?cp = "cp\<lparr>cp_policy := (cp_policy cp)\<lparr>po_Notifiers := ?kept\<rparr>\<rparr>"
  show ?case
  proof (cases "length ?kept \<ge> length (po_Notifiers (cp_policy cp))")
    case True
    obtain err1 rest1 s1 where r: "removeNotifierLoop upd n rest s = (err1, rest1, s1)" by (cases "removeNotifierLoop upd n rest s")
    with True loop have m': "m' = (pid, cp) # rest1" by (simp add: Let_def)
    then show ?thesis using Cons.IH [OF r] entry by simp
  next
    case False
    obtain e1 s1 where u: "upd (cp_policy ?cp) s = (e1, s1)" by (cases "upd (cp_policy ?cp) s")
    show ?thesis
    proof (cases "\<exists>e. e1 = Some (False, e)")
      case True
      with False loop u have "m' = (pid, ?cp) # rest" by (auto simp: Let_def)
      then show ?thesis using entry same_entries by simp
    next
      case other: False
      obtain err2 rest2 s2 where r: "removeNotifierLoop upd n rest s1 = (err2, rest2, s2)" by (cases "removeNotifierLoop upd n rest s1")
      have "m' = (pid, ?cp) # rest2" using False loop u r other
        by (auto simp: Let_def split: option.splits prod.splits bool.splits)
      then show ?thesis using Cons.IH [OF r] entry by simp
    qed
  qed
qed simp

lemma removeNotifierLoop_map:
  assumes "removeNotifierLoop upd n m s = (err, m', s')"
  shows "map fst m' = map fst m" "(pid, c') \<in> set m' \<Longrightarrow> \<exists>c. (pid, c) \<in> set m \<and> sameButNotifiers c c'"
proof -
  note l = removeNotifierLoop_entries [OF assms]
  then show "map fst m' = map fst m" by (induction rule: list_all2_induct) auto
  show "(pid, c') \<in> set m' \<Longrightarrow> \<exists>c. (pid, c) \<in> set m \<and> sameButNotifiers c c'"
    using l by (induction rule: list_all2_induct) auto
qed

definition wfPolicySet :: "('sec, 'x, 'i, 'e, 'm) policyLib \<Rightarrow> ClusterLabelProvider option \<Rightarrow> NamespaceLabelProvider option \<Rightarrow>
    ('sec, 'x, 'i, 'm) policySet \<Rightarrow> bool" where
  "wfPolicySet lib clusterProvider namespaceProvider p \<longleftrightarrow> wf_map (policyIDToCompiled p)
     \<and> ps_clusterLabelProvider p = clusterProvider \<and> ps_namespaceLabelProvider p = namespaceProvider
     \<and> (\<forall>(pid, c) \<in> set (policyIDToCompiled p). compiledEntry lib clusterProvider namespaceProvider pid c)"

lemma wfPolicySet_put:
  assumes "wfPolicySet lib clusterProvider namespaceProvider p" "newCompiledPolicy lib clusterProvider namespaceProvider policy = Inr c"
  shows "wfPolicySet lib clusterProvider namespaceProvider (UpsertCompiledPolicy c p)"
proof -
  have "set (mput (po_Id policy) c (policyIDToCompiled p)) \<subseteq> insert (po_Id policy, c) (set (policyIDToCompiled p))"
    by (rule set_mput_subset)
  then show ?thesis
    using assms compiledEntry_new [OF assms(2)] newCompiledPolicy_policy [OF assms(2)]
    unfolding wfPolicySet_def UpsertCompiledPolicy_def by auto
qed

lemma policySetReach_wf:
  assumes "policySetReach lib clusterProvider namespaceProvider p"
  shows "wfPolicySet lib clusterProvider namespaceProvider p"
  using assms
proof induction
  case new
  show ?case by (simp add: wfPolicySet_def NewPolicySet_def)
next
  case (upsert p policy)
  then show ?case
    using wfPolicySet_put [OF upsert.IH]
    by (auto simp: UpsertPolicy_def CompilePolicy_def wfPolicySet_def split: sum.split)
next
  case (upsert_compiled p policy c)
  then show ?case using wfPolicySet_put by (simp add: CompilePolicy_def)
next
  case (remove p pid)
  have "set (mdel pid (policyIDToCompiled p)) \<subseteq> set (policyIDToCompiled p)" by (rule set_mdel_subset)
  with remove show ?case by (auto simp: wfPolicySet_def RemovePolicy_def)
next
  case (remove_notifier p upd n s err p' s')
  obtain m' where m: "removeNotifierLoop upd n (policyIDToCompiled p) s = (err, m', s')" "p' = p\<lparr>policyIDToCompiled := m'\<rparr>"
    using remove_notifier(2) by (auto simp: RemoveNotifier_def split: prod.splits)
  have "compiledEntry lib clusterProvider namespaceProvider pid c'" if "(pid, c') \<in> set m'" for pid c'
  proof -
    from removeNotifierLoop_map(2) [OF m(1) that] obtain c where "(pid, c) \<in> set (policyIDToCompiled p)" "sameButNotifiers c c'" by blast
    then show ?thesis
      using remove_notifier.IH compiledEntry_notifiers unfolding wfPolicySet_def sameButNotifiers_def by blast
  qed
  then show ?case using remove_notifier.IH removeNotifierLoop_map(1) [OF m(1)] m(2) by (auto simp: wfPolicySet_def)
qed

lemma entry_parts:
  assumes "compiledEntry lib clusterProvider namespaceProvider pid c"
  shows "sectionsMatch c" "matchersOfSource (po_EventSource (cp_policy c)) c"
    "AppliesAtRunTime (cp_policy c) \<Longrightarrow> exactlyOneRuntimeMatcherDefined c"
    "deploymentMatcher c \<noteq> None \<longleftrightarrow> AppliesAtDeployTime (cp_policy c)"
    "AppliesTo now c (Input_Deployment d) \<longleftrightarrow> policyCovers lib clusterProvider namespaceProvider now (cp_policy c) d"
    "AppliesTo now c Input_FileAccess \<Longrightarrow> AppliesAtRunTime (cp_policy c) \<and> po_EventSource (cp_policy c) = NODE_EVENT"
proof -
  from assms obtain c0 ns where c0: "newCompiledPolicy lib clusterProvider namespaceProvider (cp_policy c0) = Inr c0"
    "c = c0\<lparr>cp_policy := (cp_policy c0)\<lparr>po_Notifiers := ns\<rparr>\<rparr>" by (auto simp: compiledEntry_def)
  from c0(1) obtain exclusions scopes where
    ps: "cp_predicates c0 = (if AppliesAtRunTime (cp_policy c0) then runtimePredicates (po_EventSource (cp_policy c0)) exclusions scopes else [])
       @ (if AppliesAtDeployTime (cp_policy c0) then [deploymentPredicate exclusions scopes] else [])
       @ (if AppliesAtBuildTime (cp_policy c0) then [imagePredicate (po_Exclusions (cp_policy c0))] else [])"
    and m: "sectionsMatch c0" "matchersOfSource (po_EventSource (cp_policy c0)) c0"
    "AppliesAtRunTime (cp_policy c0) \<longrightarrow> exactlyOneRuntimeMatcherDefined c0"
    "deploymentMatcher c0 \<noteq> None \<longleftrightarrow> AppliesAtDeployTime (cp_policy c0)"
    by (rule newCompiledPolicy_parts) (rule that; assumption)
  have stages: "AppliesAtRunTime (cp_policy c) = AppliesAtRunTime (cp_policy c0)" "AppliesAtDeployTime (cp_policy c) = AppliesAtDeployTime (cp_policy c0)"
    by (simp_all add: c0(2) AppliesAtRunTime_def AppliesAtDeployTime_def appliesAt_def)
  show "sectionsMatch c" "matchersOfSource (po_EventSource (cp_policy c)) c"
    "AppliesAtRunTime (cp_policy c) \<Longrightarrow> exactlyOneRuntimeMatcherDefined c"
    "deploymentMatcher c \<noteq> None \<longleftrightarrow> AppliesAtDeployTime (cp_policy c)"
    using m stages by (simp_all add: c0(2) sectionsMatch_def matchersOfSource_def exactlyOneRuntimeMatcherDefined_def)
  show "AppliesTo now c (Input_Deployment d) \<longleftrightarrow> policyCovers lib clusterProvider namespaceProvider now (cp_policy c) d"
    using applies_to_deployment [OF c0(1), of now d]
    by (simp add: c0(2) AppliesTo_def policyCovers_def AppliesAtRunTime_def AppliesAtDeployTime_def appliesAt_def)
  assume "AppliesTo now c Input_FileAccess"
  then have "AppliesAtRunTime (cp_policy c0) \<and> po_EventSource (cp_policy c0) = NODE_EVENT"
    unfolding AppliesTo_def c0(2) using ps by (auto simp: runtimePredicates_def split: if_splits EventSource.splits)
  with stages show "AppliesAtRunTime (cp_policy c) \<and> po_EventSource (cp_policy c) = NODE_EVENT" by (simp add: c0(2))
qed

lemma reachable_entry:
  "policySetReach lib clusterProvider namespaceProvider p \<Longrightarrow> (pid, c) \<in> set (policyIDToCompiled p) \<Longrightarrow>
     compiledEntry lib clusterProvider namespaceProvider pid c"
  using policySetReach_wf unfolding wfPolicySet_def by blast

subsection \<open>Detection fails only where a matcher fails\<close>

definition onlyMatcherFailures :: "matchError + 'a \<Rightarrow> bool" where
  "onlyMatcherFailures r \<longleftrightarrow> (\<forall>e. r = Inl e \<longrightarrow> (\<exists>s. e = MatcherFailed s))"

lemma only_Inr [simp]: "onlyMatcherFailures (Inr a)"
  by (simp add: onlyMatcherFailures_def)

lemma only_andThen: "onlyMatcherFailures r \<Longrightarrow> (\<And>a. r = Inr a \<Longrightarrow> onlyMatcherFailures (f a)) \<Longrightarrow> onlyMatcherFailures (andThen r f)"
  by (auto simp: onlyMatcherFailures_def andThen_def split: sum.splits)

lemma only_withMatcher: "m \<noteq> None \<Longrightarrow> onlyMatcherFailures (withMatcher lib name m input)"
  by (auto simp: onlyMatcherFailures_def withMatcher_def split: sum.splits)

lemma only_step:
  "(\<And>x. onlyMatcherFailures (m x)) \<Longrightarrow> (\<And>x v. onlyMatcherFailures (k x v)) \<Longrightarrow> onlyMatcherFailures (detectStep input m k)"
  by (auto simp: detectStep_def only_andThen split: option.split)

lemma ForEach_errors: "ForEach f p = Inl errs \<Longrightarrow> e \<in> set errs \<Longrightarrow> \<exists>(pid, c) \<in> set (policyIDToCompiled p). f c = Inl e"
  by (fastforce simp: ForEach_def Let_def split: if_splits sum.splits)

lemma sections_total:
  assumes "sectionsMatch c"
  shows "onlyMatcherFailures (MatchAgainstDeploymentAndProcess lib c ed x b)" "onlyMatcherFailures (MatchAgainstKubeResourceAndEvent lib c x ed)"
    "onlyMatcherFailures (MatchAgainstDeploymentAndNetworkFlow lib c ed x)" "onlyMatcherFailures (MatchAgainstDeploymentAndFileAccess lib c ed x)"
    "onlyMatcherFailures (MatchAgainstAuditLogEvent lib c x)"
  using assms
  by (auto simp: sectionsMatch_def MatchAgainstDeploymentAndProcess_def MatchAgainstKubeResourceAndEvent_def
      MatchAgainstDeploymentAndNetworkFlow_def MatchAgainstDeploymentAndFileAccess_def MatchAgainstAuditLogEvent_def intro: only_withMatcher)

lemma runtimeDetectOne_total:
  assumes "sectionsMatch c"
  shows "onlyMatcherFailures (runtimeDetectOne lib now d imgs input c)"
  unfolding runtimeDetectOne_def Let_def
  by (simp split: prod.split) (intro impI only_andThen only_step; simp add: sections_total [OF assms] constructKubeEventAlert_def split: prod.split)

lemma auditDetectOne_total:
  assumes "sectionsMatch c" "matchersOfSource (po_EventSource (cp_policy c)) c"
  shows "onlyMatcherFailures (auditDetectOne lib now kubeEventOf x c)"
proof -
  have "onlyMatcherFailures (constructKubeEventAlert (cp_policy c) x None v)" if "MatchAgainstAuditLogEvent lib c x = Inr v" for v
  proof (cases "po_EventSource (cp_policy c) = AUDIT_LOG_EVENT")
    case False
    then have "\<not> hasAuditEventsSection c" using assms by (simp add: sectionsMatch_def matchersOfSource_def)
    with that have "v = noViolations" by (simp add: MatchAgainstAuditLogEvent_def)
    then show ?thesis by (simp add: constructKubeEventAlert_def noViolations_def)
  qed (simp add: constructKubeEventAlert_def)
  then show ?thesis
    unfolding auditDetectOne_def using sections_total(5) [OF assms(1), of lib x] by (auto intro: only_andThen)
qed

lemma nodeDetectOne_total:
  assumes "compiledEntry lib clusterProvider namespaceProvider pid c"
  shows "onlyMatcherFailures (nodeDetectOne lib now node access c)"
proof (cases "AppliesTo now c Input_FileAccess")
  case True
  note parts = entry_parts [OF assms]
  from parts(6) [OF True] have "exactlyOneRuntimeMatcherDefined c" "po_EventSource (cp_policy c) = NODE_EVENT"
    using parts(3) by blast+
  with parts(2) have "nodeMatcher c \<noteq> None" by (cases "nodeMatcher c") (auto simp: exactlyOneRuntimeMatcherDefined_def matchersOfSource_def)
  then have "onlyMatcherFailures (MatchAgainstNodeAndFileAccess lib c node access)"
    by (simp add: MatchAgainstNodeAndFileAccess_def only_withMatcher)
  then show ?thesis by (auto simp: nodeDetectOne_def onlyMatcherFailures_def split: sum.split)
qed (simp add: nodeDetectOne_def)

lemma deployDetectOne_total:
  assumes "deploymentMatcher c \<noteq> None"
  shows "onlyMatcherFailures (deployDetectOne lib now cfg d imgs c)"
proof -
  have "onlyMatcherFailures (MatchAgainstDeployment lib c \<lparr>ed_Deployment = Some d, ed_Images = imgs\<rparr>)"
    unfolding MatchAgainstDeployment_def by (rule only_withMatcher [OF assms])
  then show ?thesis
    by (cases "MatchAgainstDeployment lib c \<lparr>ed_Deployment = Some d, ed_Images = imgs\<rparr>")
      (simp_all add: deployDetectOne_def onlyMatcherFailures_def split: option.split)
qed

lemma ForEach_only:
  assumes "ForEach f p = Inl errs" "\<And>pid c. (pid, c) \<in> set (policyIDToCompiled p) \<Longrightarrow> onlyMatcherFailures (f c)"
  shows "\<forall>e \<in> set errs. \<exists>s. e = MatcherFailed s"
  using ForEach_errors [OF assms(1)] assms(2) unfolding onlyMatcherFailures_def by fastforce

text \<open>
  C24. No detection with a reachable policy set fails for a missing matcher, and none panics on an event without a
  deployment: a policy that applies to an input has the matcher for it. Detection at deploy time needs
  policies of that stage, as Central keeps them in a set of their own. So every error is that of a matcher.\<close>

theorem detection_fails_only_in_matchers:
  assumes "policySetReach lib clusterProvider namespaceProvider p"
  shows "(detectForDeployment lib now d imgs input p = Inl errs \<longrightarrow> (\<forall>e \<in> set errs. \<exists>s. e = MatcherFailed s))
    \<and> (detectForAuditEvent lib now kubeEventOf p x = Inl errs \<longrightarrow> (\<forall>e \<in> set errs. \<exists>s. e = MatcherFailed s))
    \<and> (DetectForNodeAndFileAccess lib now node x p = Inl errs \<longrightarrow> (\<forall>e \<in> set errs. \<exists>s. e = MatcherFailed s))
    \<and> ((\<forall>(pid, c) \<in> set (policyIDToCompiled p). AppliesAtDeployTime (cp_policy c)) \<longrightarrow>
        deployDetect lib now cfg d imgs p = Inl errs \<longrightarrow> (\<forall>e \<in> set errs. \<exists>s. e = MatcherFailed s))"
proof -
  note entry = entry_parts [OF reachable_entry [OF assms]]
  show ?thesis
  proof (intro conjI impI)
    assume "detectForDeployment lib now d imgs input p = Inl errs"
    then show "\<forall>e \<in> set errs. \<exists>s. e = MatcherFailed s"
      unfolding detectForDeployment_def by (rule ForEach_only) (rule runtimeDetectOne_total [OF entry(1)])
  next
    assume "detectForAuditEvent lib now kubeEventOf p x = Inl errs"
    then show "\<forall>e \<in> set errs. \<exists>s. e = MatcherFailed s"
      unfolding detectForAuditEvent_def by (rule ForEach_only) (rule auditDetectOne_total [OF entry(1,2)])
  next
    assume "DetectForNodeAndFileAccess lib now node x p = Inl errs"
    then show "\<forall>e \<in> set errs. \<exists>s. e = MatcherFailed s"
      unfolding DetectForNodeAndFileAccess_def by (rule ForEach_only) (rule nodeDetectOne_total [OF reachable_entry [OF assms]])
  next
    assume "\<forall>(pid, c) \<in> set (policyIDToCompiled p). AppliesAtDeployTime (cp_policy c)" "deployDetect lib now cfg d imgs p = Inl errs"
    then show "\<forall>e \<in> set errs. \<exists>s. e = MatcherFailed s"
      unfolding deployDetect_def using ForEach_only deployDetectOne_total entry(4) by (metis (mono_tags, lifting) case_prodD)
  qed
qed

subsection \<open>What detection finds\<close>

lemma ForEach_Inr:
  assumes "ForEach f p = Inr as"
  shows "as = concat (map (\<lambda>c. case f c of Inl e \<Rightarrow> [] | Inr bs \<Rightarrow> bs) (map snd (policyIDToCompiled p)))"
proof -
  have "as = concat (map (\<lambda>r. case r of Inl e \<Rightarrow> [] | Inr a \<Rightarrow> a) (map (f \<circ> snd) (policyIDToCompiled p)))"
    using assms by (simp add: ForEach_def Let_def split: if_splits)
  then show ?thesis by (simp add: comp_def)
qed

text \<open>The violations that the matcher of a policy finds in a deployment, none if it fails.\<close>

definition foundViolations :: "('sec, 'x, 'i, 'e, 'm) policyLib \<Rightarrow> 'x StorageDeployment \<Rightarrow> 'i list \<Rightarrow> ('sec, 'x, 'i, 'm) compiledPolicy \<Rightarrow>
    'x Violation list" where
  "foundViolations lib d imgs c =
     (case MatchAgainstDeployment lib c \<lparr>ed_Deployment = Some d, ed_Images = imgs\<rparr> of
        Inl e \<Rightarrow> [] | Inr v \<Rightarrow> AlertViolations v)"

text \<open>A policy that the caller asks for, by the filters and, for enforcement only, by its action for the deployment.\<close>

definition askedFor :: "('sec, 'x) detectionConfig \<Rightarrow> 'x StorageDeployment \<Rightarrow> ('sec, 'x) Policy \<Rightarrow> bool" where
  "askedFor cfg d policy \<longleftrightarrow> (\<forall>f \<in> set (policyFilters cfg). f policy)
     \<and> (enforcementOnly cfg \<longrightarrow> deployEnforcement d (po_EnforcementActions policy) \<noteq> UNSET_ENFORCEMENT)"

lemma deployDetectOne_alerts:
  "(case deployDetectOne lib now cfg d imgs c of Inl e \<Rightarrow> [] | Inr bs \<Rightarrow> bs) =
     (if \<not> po_Disabled (cp_policy c) \<and> askedFor cfg d (cp_policy c) \<and> AppliesTo now c (Input_Deployment d)
          \<and> foundViolations lib d imgs c \<noteq> []
      then [\<lparr>na_Policy = cp_policy c, na_LifecycleStage = DEPLOY, na_Subject = About_Deployment d,
             na_Violations = foundViolations lib d imgs c, na_ProcessViolation = None,
             na_Enforcement = enforcementOf (deployEnforcement d (po_EnforcementActions (cp_policy c)))\<rparr>]
      else [])"
proof (cases "MatchAgainstDeployment lib c \<lparr>ed_Deployment = Some d, ed_Images = imgs\<rparr>")
  case (Inr v)
  then show ?thesis
    by (cases "AlertViolations v = []")
      (auto simp: deployDetectOne_def PolicyDeploymentAndViolationsToAlert_def list_all_iff askedFor_def foundViolations_def)
qed (simp add: deployDetectOne_def foundViolations_def)

lemma concat_filter: "concat (map (\<lambda>x. if P x then [f x] else []) xs) = map f (filter P xs)"
  by (induction xs) auto


definition exampleSet :: "LifecycleStage list \<Rightarrow> (unit, unit, string, nat) policySet" where
  "exampleSet stages = snd (UpsertPolicy exampleLib (examplePolicy stages []) (NewPolicySet None None))"

lemma exampleSet_reach: "policySetReach exampleLib None None (exampleSet stages)"
  unfolding exampleSet_def by (intro policySetReach.upsert policySetReach.new)

definition failingLib :: "(unit, unit, string, unit, nat) policyLib" where
  "failingLib = exampleLib\<lparr>runMatcher := (\<lambda>m input. Inl ''x'')\<rparr>"

lemma detection_fails_only_in_matchers_witness:
  "let p = snd (UpsertPolicy failingLib (examplePolicy [RUNTIME] []) (NewPolicySet None None));
       input = \<lparr>in_process = Some ((), False), in_kubeEvent = None, in_flow = None, in_fileAccess = None\<rparr>;
       r = detectForDeployment failingLib 0 exampleDeployment [''a'', ''b''] input p
   in \<exists>e s. r = Inl [e] \<and> e = MatcherFailed s"
proof -
  let ?p = "snd (UpsertPolicy failingLib (examplePolicy [RUNTIME] []) (NewPolicySet None None))"
  let ?input = "\<lparr>in_process = Some ((), False), in_kubeEvent = None, in_flow = None, in_fileAccess = None\<rparr>"
  have reach: "policySetReach failingLib None None ?p" by (intro policySetReach.upsert policySetReach.new)
  obtain e where r: "detectForDeployment failingLib 0 exampleDeployment [''a'', ''b''] ?input ?p = Inl [e]"
    by (simp add: failingLib_def UpsertPolicy_def CompilePolicy_def compile_simps NewPolicySet_def UpsertCompiledPolicy_def
        detectForDeployment_def ForEach_def runtimeDetectOne_def AppliesTo_def runtimePredicates_def deploymentMatchesScopes_def
        deploymentMatchesExclusions_def scopeMatchesDeployment_def MatchesCluster_def MatchesClusterLabels_def MatchesNamespace_def
        MatchesNamespaceLabels_def MatchesLabels_def exampleDeployment_def detectStep_def MatchAgainstDeploymentAndProcess_def
        withMatcher_def Let_def)
  with detection_fails_only_in_matchers [OF reach] show ?thesis unfolding Let_def by fastforce
qed


subsection \<open>The filter of containers\<close>

lemma zip_two_maps: "zip (map f xs) (map g xs) = map (\<lambda>x. (f x, g x)) xs"
  by (induction xs) simp_all

lemma zip_indexed: "length imgs = length cs \<Longrightarrow> zip cs imgs = map (\<lambda>(i, c). (c, imgs ! i)) (enumerate 0 cs)"
  by (rule nth_equalityI) (simp_all add: nth_enumerate_eq)

lemma containerFilter_pairs:
  assumes "newContainerTypeFilter skip = Some f" "length imgs = length (dp_Containers d)"
  shows "\<exists>d' imgs'. f (Some d, imgs) = (Some d', imgs') \<and> length imgs' = length (dp_Containers d')
    \<and> zip (dp_Containers d') imgs' = filter (\<lambda>(c, img). co_Type c \<notin> set skip) (zip (dp_Containers d) imgs)
    \<and> d' = d\<lparr>dp_Containers := filter (\<lambda>c. co_Type c \<notin> set skip) (dp_Containers d)\<rparr>"
proof -
  let ?cs = "dp_Containers d"
  let ?kept = "filter (\<lambda>(i, c). co_Type c \<notin> set skip) (enumerate 0 ?cs)"
  have f: "f (Some d, imgs) = (if \<not> list_ex (\<lambda>c. co_Type c \<in> set skip) ?cs then (Some d, imgs)
      else (Some (d\<lparr>dp_Containers := map snd ?kept\<rparr>), map (\<lambda>(i, c). imgs ! i) (filter (\<lambda>(i, c). i < length imgs) ?kept)))"
    using assms(1) by (auto simp: newContainerTypeFilter_def GetContainers_def setContains_def Let_def split: if_splits)
  have pairs: "filter (\<lambda>(c, img). co_Type c \<notin> set skip) (zip ?cs imgs) = map (\<lambda>(i, c). (c, imgs ! i)) ?kept"
    unfolding zip_indexed [OF assms(2)] by (simp add: filter_map o_def case_prod_unfold)
  have snds: "map snd ?kept = filter (\<lambda>c. co_Type c \<notin> set skip) ?cs"
  proof -
    have "map snd ?kept = filter (\<lambda>c. co_Type c \<notin> set skip) (map snd (enumerate 0 ?cs))"
      unfolding filter_map o_def case_prod_unfold ..
    then show ?thesis by simp
  qed
  show ?thesis
  proof (cases "list_ex (\<lambda>c. co_Type c \<in> set skip) ?cs")
    case True
    have all: "filter (\<lambda>(i, c). i < length imgs) ?kept = ?kept"
      by (rule filter_True) (use assms(2) in \<open>auto simp: in_set_enumerate_eq\<close>)
    have "zip (map snd ?kept) (map (\<lambda>(i, c). imgs ! i) ?kept) = map (\<lambda>(i, c). (c, imgs ! i)) ?kept"
      by (simp add: zip_two_maps split_beta)
    moreover have "length ?kept = length (map snd ?kept)" by simp
    ultimately show ?thesis using True unfolding f all pairs snds by simp
  next
    case False
    then have "filter (\<lambda>c. co_Type c \<notin> set skip) ?cs = ?cs" by (auto simp: filter_id_conv list_ex_iff)
    moreover have "filter (\<lambda>(c, img). co_Type c \<notin> set skip) (zip ?cs imgs) = zip ?cs imgs"
      using False by (auto simp: filter_id_conv list_ex_iff dest: set_zip_leftD)
    ultimately show ?thesis unfolding f using False assms(2) by simp
  qed
qed

text \<open>
  C40. The filter of a compiled policy leaves the containers whose type is not skipped, in their order, each with its image, if
  there was an image for each; an image alone is never filtered.\<close>

theorem filtered_containers_keep_images:
  assumes "newCompiledPolicy lib clusterProvider namespaceProvider policy = Inr c" "EvaluationFilterEnabled lib"
    "length imgs = length (dp_Containers d)"
  shows "(let ed = fst (applyFilters c \<lparr>ed_Deployment = Some d, ed_Images = imgs\<rparr>);
        cs = filter (\<lambda>c. co_Type c \<notin> set (po_SkipContainerTypes policy)) (dp_Containers d)
      in ed_Deployment ed = Some (d\<lparr>dp_Containers := cs\<rparr>) \<and> length (ed_Images ed) = length cs
        \<and> zip cs (ed_Images ed) = filter (\<lambda>(c, img). co_Type c \<notin> set (po_SkipContainerTypes policy)) (zip (dp_Containers d) imgs))
    \<and> fst (applyImageFilters c img) = Some img"
proof -
  from assms(1) have filters: "cp_filters c = CompileEvaluationFilter True (po_SkipContainerTypes policy)"
    using assms(2) by (elim newCompiledPolicy_parts) simp
  show ?thesis
  proof (cases "newContainerTypeFilter (po_SkipContainerTypes policy) :: ('b, 'c) EvaluationFilter option")
    case None
    then have "po_SkipContainerTypes policy = []" by (simp add: newContainerTypeFilter_def Let_def split: if_splits)
    with None filters assms(3) show ?thesis
      by (simp add: applyFilters_def applyImageFilters_def CompileEvaluationFilter_def Let_def)
  next
    case (Some f)
    then have "f (None, [img]) = (None, [img])"
      by (auto simp: newContainerTypeFilter_def GetContainers_def Let_def split: if_splits)
    with Some filters containerFilter_pairs [OF Some assms(3)] show ?thesis
      by (auto simp: applyFilters_def applyImageFilters_def CompileEvaluationFilter_def Let_def split_beta)
  qed
qed

lemma filtered_containers_keep_images_witness:
  "ed_Images (fst (applyFilters (exampleCompiled [DEPLOY] []) \<lparr>ed_Deployment = Some exampleDeployment, ed_Images = [''a'', ''b'']\<rparr>)) = [''b'']"
proof -
  have "EvaluationFilterEnabled exampleLib" "length [''a'', ''b''] = length (dp_Containers exampleDeployment)"
    by (simp_all add: exampleLib_def exampleDeployment_def)
  from filtered_containers_keep_images [OF example_deploy this, of "''a''"] show ?thesis
    by (auto simp: examplePolicy_def exampleDeployment_def Let_def length_Suc_conv)
qed

subsection \<open>When runtime alerts are resolved\<close>

lemma reachable_get:
  assumes "policySetReach lib clusterProvider namespaceProvider p" "mget (policyIDToCompiled p) pid = Some c"
  shows "AppliesTo now c (Input_Deployment d) = policyCovers lib clusterProvider namespaceProvider now (cp_policy c) d"
  using entry_parts(5) [OF reachable_entry [OF assms(1) mget_in_set [OF assms(2)]]] .

lemma centralWhitelisted_iff:
  assumes "policySetReach lib clusterProvider namespaceProvider p" "mget (policyIDToCompiled p) pid = Some c"
  shows "centralWhitelisted now deployments p d pid \<longleftrightarrow>
    po_Disabled (cp_policy c)
    \<or> (\<exists>dep. GetStoredDeployment deployments d = Inr (Some dep)
         \<and> \<not> policyCovers lib clusterProvider namespaceProvider now (cp_policy c) dep)"
  using reachable_get [OF assms]
  by (auto simp: centralWhitelisted_def ForOne_def assms(2) split: sum.splits option.splits)

text \<open>
  C11. With Central's policy set behind it, the alert manager resolves a runtime alert exactly when no incoming alert has its policy and
  entity, none of the alerts was attempted, and its policy is deleted, or it was updated and is disabled or, by
  its scopes and exclusions, no longer covers the deployment, which still exists.\<close>

theorem runtime_alert_resolution:
  assumes "policySetReach lib clusterProvider namespaceProvider p" "mk_LifecycleStage k = RUNTIME"
  shows "shouldMarkAlertResolved (centralDetector now deployments p) (keyMatcher k) incoming filters \<longleftrightarrow>
    mk_State k \<noteq> ATTEMPTED \<and> (\<forall>a \<in> set incoming. al_State a \<noteq> ATTEMPTED)
    \<and> (\<forall>a \<in> set incoming. \<not> alertsAreForSamePolicyAndEntity (keyMatcher k) (alertAdapter a))
    \<and> (case mget (policyIDToCompiled p) (mk_PolicyID k) of
         None \<Rightarrow> True
       | Some c \<Rightarrow> mk_PolicyID k \<noteq> [] \<and> (\<exists>f \<in> set filters. specifiedPolicyID f = mk_PolicyID k)
           \<and> (po_Disabled (cp_policy c)
              \<or> (\<exists>dep. GetStoredDeployment deployments (orEmpty (mk_DeploymentID k)) = Inr (Some dep)
                   \<and> \<not> policyCovers lib clusterProvider namespaceProvider now (cp_policy c) dep)))"
proof (cases "mget (policyIDToCompiled p) (mk_PolicyID k)")
  case None
  then show ?thesis
    unfolding shouldMark_iff staleKey_def using assms(2) by (simp add: centralDetector_def PolicyExists_def)
next
  case (Some c)
  have "policyExists (centralDetector now deployments p) (mk_PolicyID k)"
    using Some by (simp add: centralDetector_def PolicyExists_def)
  moreover have "DeploymentWhitelistedForPolicy (centralDetector now deployments p) = centralWhitelisted now deployments p"
    by (simp add: centralDetector_def)
  ultimately show ?thesis
    unfolding shouldMark_iff staleKey_def using assms(2) Some centralWhitelisted_iff [OF assms(1) Some] by simp
qed

lemma runtime_alert_resolution_witness:
  "shouldMarkAlertResolved (centralDetector 0 \<lparr>GetStoredDeployment = (\<lambda>d. Inr None), ListDeployment = (\<lambda>d. Inr True)\<rparr> (exampleSet [RUNTIME]))
     (keyMatcher (exampleKey (exampleAlert ''A'' RUNTIME [])\<lparr>mk_PolicyID := ''Q''\<rparr>)) ([] :: unit StorageAlert list)
     ([] :: nat AlertFilterOption list)"
proof -
  let ?k = "exampleKey (exampleAlert ''A'' RUNTIME [])\<lparr>mk_PolicyID := ''Q''\<rparr>"
  have rt: "mk_LifecycleStage ?k = RUNTIME" by (simp add: exampleKey_def exampleAlert_def)
  have "mk_PolicyID ?k \<noteq> ''P''" by simp
  moreover have "mget (policyIDToCompiled (exampleSet [RUNTIME])) q = None" if "q \<noteq> ''P''" for q
  proof -
    have "po_Id (cp_policy c) = ''P''" if "newCompiledPolicy exampleLib None None (examplePolicy [RUNTIME] []) = Inr c" for c
      unfolding newCompiledPolicy_policy [OF that] by (simp add: examplePolicy_def)
    with that show ?thesis
      by (auto simp: exampleSet_def UpsertPolicy_def CompilePolicy_def NewPolicySet_def UpsertCompiledPolicy_def split: sum.split)
  qed
  ultimately have "mget (policyIDToCompiled (exampleSet [RUNTIME])) (mk_PolicyID ?k) = None" by blast
  with runtime_alert_resolution [OF exampleSet_reach rt, of 0 "\<lparr>GetStoredDeployment = (\<lambda>d. Inr None), ListDeployment = (\<lambda>d. Inr True)\<rparr>"
      "[RUNTIME]" "[]" "[]"]
  show ?thesis by (simp add: exampleKey_def exampleAlert_def)
qed

end
