(* ===== verification/Spec2Isabelle.thy ===== *)
theory Spec2Isabelle
  imports Label_Selectors Sac_Permissions Builtin_Authorizer Sac_Query K8s_Evaluator Upgrade_Safety Sensor_Safety
    Network_Safety Store_Listeners Policy_Safety
begin

text \<open>
  This library models the decision-making core of StackRox (Red Hat Advanced Cluster Security):
  who may see what (scoped access control), what a Kubernetes subject may do (RBAC evaluation), how
  Central upgrades the Sensors of its clusters, how Central deduplicates and processes the events the
  Sensors send, how it finds the networks around an address, how a Sensor finds the deployment
  behind an address, an endpoint or a container, and how Central applies policies to deployments and
  keeps the alerts they raise. All paths are under \<open>src/\<close>.

  \<^bold>\<open>The program's parts and how they interact.\<close> Central is a server to which Sensors, one per secured
  cluster, connect. A user's request is checked by a \<^emph>\<open>scope checker\<close> that descends from the access
  mode over the resource and the cluster to the namespace. The built-in authorizer answers it from the user's
  roles, each of which has permissions and an access scope; an access scope is a list of rules and of
  Kubernetes label selectors, from which a tree of clusters and namespaces is computed and cached. The same
  trees, merged over the roles, become filters of search queries, so that a search returns what the point
  checks allow. Deployments carry service accounts, whose RBAC rules Central evaluates for risk and
  policies. A connecting Sensor is registered with its cluster's upgrade controller, which compares versions and
  drives an upgrade through a table of states. The events of a connection pass through a deduper, which
  remembers the hashes of what was received and processed, into worker queues that deduplicate
  again, to a pipeline, and back to the deduper; at the end of a Sensor's initial synchronization what
  was not sent is removed. The network graph attributes flows and network policies to known networks
  with trees of prefixes, one set per cluster and one for the defaults, which queries combine. The Sensor
  resolves the addresses and endpoints of flows with a store that keeps what deployments have, remembers
  for some ticks what they lost, and tells listeners which public addresses it knows. A policy is
  compiled into an enabled flag, the predicates of its scopes and exclusions and the matcher of its
  criteria; the detector runs every compiled policy of the set on a deployment and turns violations
  into alerts. The alert manager merges these with the stored alerts of the deployment or policy: it
  resolves what no longer holds, updates what still does, adds what is new, and notifies of changes.

  \<^bold>\<open>Theories.\<close>
  \<^item> \<open>Go_Prelude\<close>: maps as association lists, strings, loops that stop at an error, sorting; the
    contract of a map (locale \<open>map_adt\<close>) and of a comparison (locale \<open>strict_weak_order\<close>).
  \<^item> \<open>Go_Sets\<close>: \<open>pkg/set/set.go\<close>, sets as duplicate-free lists, with the contract \<open>set_adt\<close>.
  \<^item> \<open>Label_Selectors\<close>: \<open>pkg/labels\<close>. Cofinite sets, predicates, and the compilation of a selector; the
    compiled form matches what the selector means.
  \<^item> \<open>Sac_Permissions\<close>: \<open>pkg/auth/permissions\<close>, \<open>pkg/sac/resources\<close>, \<open>pkg/sac/id.go\<close>. Access levels,
    the registry of resources, union of permissions, and the parsing and printing of composite identifiers.
  \<^item> \<open>Effective_Access_Scope\<close>: \<open>pkg/sac/effectiveaccessscope\<close>. Records for the tree, its clusters
    and namespaces; computation from rules, propagation of states, reduction, merge, compaction and
    construction from identifiers. \<open>tree_includes\<close> says which namespaces a tree grants, \<open>wf_tree\<close> is its
    invariant; every operation is related to them.
  \<^item> \<open>Scope_Checkers\<close>: \<open>pkg/sac\<close>. Keys, predicates, the checker around a core (a record \<open>coreOps\<close> of the
    methods of the Go interface), disjunctions, filters, resource helpers and the fixed-scope core.
  \<^item> \<open>Builtin_Authorizer\<close>: \<open>central/sac/authorizer\<close>. The four levels of cores, the shared cache as an
    explicit state, the merge of role scopes. The decisions are those of the roles' rules, whatever is
    cached, and agree with the merged scope.
  \<^item> \<open>Sac_Query\<close>: \<open>pkg/search\<close>, \<open>pkg/sac/query_helper.go\<close>. Queries, the query builder, the filters built
    from a tree; a filtered search agrees with the authorizer.
  \<^item> \<open>K8s_Rbac\<close>, \<open>K8s_Evaluator\<close>: \<open>pkg/k8srbac\<close>. Rule fields with their globs, rule sets with dropping,
    replacing and merging of rules; subjects, role bindings, the evaluator and cluster administrators.
  \<^item> \<open>Upgrade_States\<close>, \<open>Upgrade_Controller\<close>, \<open>Upgrade_Safety\<close>: \<open>pkg/sensorupgrader\<close> and
    \<open>central/sensor/service/connection/upgradecontroller\<close>. The transition table; the controller, whose
    handlers are functions from an environment (clock, storage, identifiers, images) and a state to an
    outcome and a state, the outcome being a result, an unexpected error (a Go panic caught by \<open>do\<close>)
    or a nil pointer; its steps as an inductive relation, with the invariant of the reachable states.
  \<^item> \<open>Versions\<close>: \<open>pkg/version\<close>. Kinds of versions by regular expressions (matched by derivatives) and
    their comparison.
  \<^item> \<open>Deduping_Queue\<close>: \<open>pkg/dedupingqueue\<close>. The linked list with its index; a refinement of the list of
    items (locale \<open>keyed_fifo\<close>).
  \<^item> \<open>Event_Deduper\<close>, \<open>Event_Deduper_Facts\<close>: \<open>central/hash/manager\<close>, \<open>pkg/sensor/event\<close>,
    \<open>pkg/deduperkey\<close>, \<open>sensor/common/deduper\<close>. Keys of events, both dedupers, the manager.
  \<^item> \<open>Sensor_Connection\<close>, \<open>Sensor_Views\<close>, \<open>Sensor_Safety\<close>: \<open>central/sensor/service\<close>. The handler of
    events, worker queues, reconciliation, pipeline and retries; the connection as a state machine with
    a step for every outcome of a worker; an event is dropped only when its contents are stored or on
    their way, unless a step recorded its resource as one the code lost track of.
  \<^item> \<open>Ip_Networks\<close>, \<open>Ip_Prefixes\<close>: \<open>pkg/net\<close>, \<open>pkg/netutil\<close> and what they use of Go's package \<open>net\<close>
    (parsing, masks, containment). A network is the list of its prefix bits (\<open>netPrefix\<close>).
  \<^item> \<open>Radix_Tree\<close>, \<open>Radix_Facts\<close>, \<open>Radix_Queries\<close>, \<open>Radix_Safety\<close>: \<open>pkg/networkgraph/tree/radix.go\<close>.
    Linked nodes as a heap; \<open>treeOK\<close> is the invariant, \<open>entries\<close> the partial map from prefixes to
    entities that the tree implements; \<open>entity_tree\<close> is the contract its clients use.
  \<^item> \<open>Network_Trees\<close>, \<open>Network_Safety\<close>: \<open>wrapper.go\<close> and \<open>multitree.go\<close> of the same package. One tree per
    address family, and several such pairs for reading.
  \<^item> \<open>Cluster_Entities\<close>: \<open>sensor/common/clusterentities\<close>. Nested maps; the stores of pod addresses,
    containers and endpoints with their histories, and the store around them.
  \<^item> \<open>Entity_Store_Facts\<close>: nested maps, and the memory of a store (locale \<open>remembering\<close>).
  \<^item> \<open>Pod_Ips\<close>, \<open>Entity_Endpoints\<close>, \<open>Entity_Store_Safety\<close>, \<open>Store_Listeners\<close>: the store of pod
    addresses refines a map of presences; the effect of updates on endpoints, and the fast path that
    skips them; runs of the stores, in which no tick fails and listeners are never left behind.
  \<^item> \<open>Alert_Manager\<close>: \<open>central/detection/alertmanager\<close>, and the keys of alerts in \<open>central/alert/views\<close>.
    The stored alerts that are candidates for merging, the merging of violations, the resolution of stale
    alerts and the notifications, as operations on an explicit store of alerts.
  \<^item> \<open>Alert_Facts\<close>, \<open>Alert_Safety\<close>: the matching of alerts is an equivalence on keys; what a merge does
    to each alert, that no incoming alert is lost, and the effects of \<open>AlertAndNotify\<close> as a whole.
  \<^item> \<open>Policy_Scopes\<close>, \<open>Policy_Compiler\<close>, \<open>Policy_Detection\<close>: \<open>pkg/scopecomp\<close>, \<open>pkg/detection\<close> and
    \<open>central/detection\<close>. Compiled scopes with their regular expressions and labels, the predicates of
    a policy, the filter of containers, the policy set, the deploy-time and runtime detectors, and the
    check whether a policy still applies to a stored alert.
  \<^item> \<open>Policy_Facts\<close>, \<open>Policy_Safety\<close>: a compiled policy applies exactly when, at its stages, a scope
    covers the input, or there is none, and no unexpired exclusion does; the detectors alert exactly for the policies that apply and match.

  \<^bold>\<open>Conventions.\<close> A Go struct is a record whose fields keep their names (with a prefix where two structs
  share one), an enumeration or a protobuf oneof a datatype, a map an association list, a pointer that may
  be nil an option. A loop over a map becomes a recursion over the association list, and the statements
  quantify over every list. Fallible calls return sums or options; a panic is a value (\<open>None\<close>, or a
  constructor of its own). Mutexes become the atomicity of the modelled critical section; where a lock is
  released in between, the model has two steps. Hashes are 64-bit words, the FNV hash of the worker queues
  32-bit words; times are integers.

  \<^bold>\<open>Lemmas.\<close> For each component: an invariant and its preservation (collected in \<open>wf_intros\<close> for the
  maps), the effect of each operation on what is observed of the state (\<open>tree_includes\<close>, \<open>rule_permits\<close>, the
  views \<open>rv\<close> and \<open>sv\<close> of the deduper), and the properties, each preceded by its number. Locales state what
  clients rely on: a map, a set, a comparison, a Kubernetes selector library, the body of a controller
  operation, a keyed queue, a tree of entities, a store with a memory; each is interpreted on the model.

  \<^bold>\<open>Bounds and fuel.\<close> No definition needs fuel: recursions are structural or come with a measure, the walks
  along the pointers of a network tree are partial functions that are proved to return, and the
  blocking pull and the state machines are inductive relations. The bound of persisted hashes
  (\<open>ROX_MAX_EVENT_HASH_SIZE\<close>) is an argument, the five attempts of a worker and the sixteen shards are the
  constants of the code.

  \<^bold>\<open>Arguments and hypotheses.\<close> Code outside the repository is an argument: the Kubernetes selector
  library (\<open>labelsLib\<close>: a selector converts or reports an error, and a converted selector matches
  labels), the hash of an event, the datastores, the clock. The matchers built from
  a policy's criteria (\<open>policyLib\<close>), the compilation of regular expressions (\<open>regexLib\<close>) and the
  notifier are arguments as well, and the datastore of alerts is an argument that finds alerts
  by their identifiers (\<open>searchesById\<close>). The field matcher of a search engine is
  assumed to match exact values exactly (\<open>exact_fields\<close>). The steps of a connection (\<open>connStep\<close>) allow any
  message and any outcome of the pipeline (lemma \<open>worker_outcomes_are_steps\<close>). They record in a ghost set,
  \<open>untrusted\<close>, the resources the statement on dropped events is not about: those with a removal, an
  event that cannot be hashed or a creation that is not the first event, those whose identifier another
  message used as its key in the same queue (\<open>hazard\<close>; the alerts of the admission controller do), and those of
  which a message was given up by a canceled context, by a failure while a newer one was queued or after the last
  attempt, or a creation was retried. There the code does lose events, and lemma
  \<open>exhausted_event_stays_received\<close> shows one case. Of the handler's environment the steps assume
  that no fragment reconciles alerts and that the loop of \<open>ProcessSync\<close> visits every key (\<open>env_ok\<close>).

  Some statements are about the inputs for which the code and its comments agree. The tree of an access
  scope: no two namespaces of a cluster share a name. The comparison of endpoints: no update repeats a target.
  The supernet over several trees: an accepted supernet exists, or there is no predicate. The merge of
  processes: at most forty together. The deployments and audit events a policy applies to: its
  unexpired exclusions name deployments, because one that names only an image excludes every deployment.

  \<^bold>\<open>Not modelled.\<close> Rendering (JSON, traces, metrics, logs); the registration of resources by feature flags;
  base64 subject identifiers; pagination, select fields and parsing of query strings; the translation of
  queries to SQL; the datastores and gRPC services; the fragments of the pipeline themselves and the
  configuration messages Central sends to a Sensor; the evaluation of policy criteria over reflected
  objects (\<open>pkg/booleanpolicy\<close>), which walks arbitrary Go values by reflection; build-time detection,
  category filters and the lifecycle manager that batches indicators around the runtime detector; risk scoring,
  image scanning, the operator, \<open>roxctl\<close> and the user interface. They are mostly I/O and
  glue; the evaluator of criteria is what an extension would take next.
\<close>

end
